(* ===== verification/Prelude.thy ===== *)
theory Prelude
  imports Main "HOL-Library.Word" "HOL-Library.Monad_Syntax"
begin

text \<open>
  Shared vocabulary of the development: the machine integers of the C++ sources as words, byte
  buffers as lists of 8-bit words, UTF-8 text as \<^typ>\<open>string\<close> (a list of code units), and the
  generic lemmas and theorem collections the component theories use.
\<close>

unbundle bit_operations_syntax

section \<open>Machine types\<close>

type_synonym byte = "8 word"
type_synonym u8 = "8 word"
type_synonym u16 = "16 word"
type_synonym u32 = "32 word"
type_synonym u64 = "64 word"

text \<open>
  A signed 64-bit integer is the same 64 bits, read by \<^const>\<open>sint\<close>; \<open>std::size_t\<close> is a natural
  number wherever it indexes or counts the elements of a list.
\<close>

type_synonym i64 = "64 word"

section \<open>Theorem collections\<close>

named_theorems codec_simps "evaluation of encoders, decoders and their round trips"
named_theorems outcome_simps "evaluation of operations that return a sum"

section \<open>Options and sums\<close>

lemma bind_Some_iff: "Option.bind x f = Some y \<longleftrightarrow> (\<exists>a. x = Some a \<and> f a = Some y)"
  by (cases x) auto

definition ensure :: "'e \<Rightarrow> bool \<Rightarrow> 'e + unit" where
  "ensure e b = (if b then Inr () else Inl e)"

definition sum_bind :: "'e + 'a \<Rightarrow> ('a \<Rightarrow> 'e + 'b) \<Rightarrow> 'e + 'b" where
  "sum_bind x f = (case x of Inl e \<Rightarrow> Inl e | Inr a \<Rightarrow> f a)"

definition from_option :: "'e \<Rightarrow> 'a option \<Rightarrow> 'e + 'a" where
  "from_option e x = (case x of None \<Rightarrow> Inl e | Some a \<Rightarrow> Inr a)"

lemma sum_bind_simps [simp]:
  "sum_bind (Inl e) f = Inl e"
  "sum_bind (Inr a) f = f a"
  by (simp_all add: sum_bind_def)

lemma sum_bind_Inr_iff: "sum_bind x f = Inr y \<longleftrightarrow> (\<exists>a. x = Inr a \<and> f a = Inr y)"
  by (cases x) auto

lemma ensure_Inr [simp]: "ensure e b = Inr u \<longleftrightarrow> b"
  by (simp add: ensure_def)

lemma from_option_simps [simp]:
  "from_option e None = Inl e"
  "from_option e (Some a) = Inr a"
  by (simp_all add: from_option_def)

lemma from_option_Inr_iff: "from_option e x = Inr a \<longleftrightarrow> x = Some a"
  by (cases x) auto

section \<open>Lists\<close>

definition starts_with :: "'a list \<Rightarrow> 'a list \<Rightarrow> bool" where
  "starts_with text prefix \<longleftrightarrow> take (length prefix) text = prefix"

lemma starts_with_append [simp]: "starts_with (p @ s) p"
  by (simp add: starts_with_def)

lemma starts_with_length: "starts_with s p \<Longrightarrow> length p \<le> length s"
  by (metis length_take min.cobounded1 starts_with_def)

lemma starts_with_iff: "starts_with s p \<longleftrightarrow> (\<exists>r. s = p @ r)"
  by (metis append_eq_conv_conj append_take_drop_id starts_with_def)

lemma not_starts_with_clash:
  "starts_with s p \<Longrightarrow> starts_with s q \<Longrightarrow> length p \<le> length q \<Longrightarrow> starts_with q p"
  by (metis min.absorb1 starts_with_def take_take)

text \<open>Inserting keys one after another into a hash set reports success exactly when no key
  was there before: the idiom \<open>set.emplace(key).second\<close> of the sources.\<close>

fun emplace_all :: "'k list \<Rightarrow> 'k set \<Rightarrow> 'k set option" where
  "emplace_all [] seen = Some seen"
| "emplace_all (k # ks) seen = (if k \<in> seen then None else emplace_all ks (insert k seen))"

lemma emplace_all_Some_iff:
  "emplace_all ks seen = Some t \<longleftrightarrow> distinct ks \<and> set ks \<inter> seen = {} \<and> t = seen \<union> set ks"
  by (induction ks arbitrary: seen) auto

lemma emplace_all_append:
  "emplace_all (xs @ ys) seen =
     (case emplace_all xs seen of None \<Rightarrow> None | Some t \<Rightarrow> emplace_all ys t)"
  by (induction xs arbitrary: seen) auto

lemma count_list_filter: "count_list xs x = length (filter (\<lambda>y. y = x) xs)"
  by (induction xs) auto

end
