(* ===== verification/Bytes.thy ===== *)
theory Bytes
  imports Prelude
begin

text \<open>
  The byte codec of the journal records: \<open>append_integer\<close>, \<open>append_string\<close> and the \<open>Cursor\<close>
  class of \<open>src/Source/src/fileops/batch_rename_transaction.cpp\<close> (the protocols under
  \<open>platform/catalog_protocol_codec.hpp\<close> use the same little-endian layout). A cursor is its unread
  suffix; a read that runs past the end is \<^const>\<open>None\<close>. The locale \<open>codec\<close> states what an
  encoder and its reader owe each other, and derives injectivity and rejection of truncated
  input once for all records.
\<close>

section \<open>Integers, little-endian\<close>

fun append_integer_loop :: "nat \<Rightarrow> 'a::len word \<Rightarrow> byte list" where
  "append_integer_loop 0 encoded = []"
| "append_integer_loop (Suc n) encoded = ucast encoded # append_integer_loop n (drop_bit 8 encoded)"

definition append_integer :: "'a::len word \<Rightarrow> byte list" where
  "append_integer value = append_integer_loop (LENGTH('a) div 8) value"

fun read_loop :: "u64 \<Rightarrow> nat \<Rightarrow> byte list \<Rightarrow> u64" where
  "read_loop decoded offset [] = decoded"
| "read_loop decoded offset (b # bs) =
     read_loop (decoded OR push_bit (offset * 8) (ucast b)) (Suc offset) bs"

definition read_integer :: "byte list \<Rightarrow> ('a::len word \<times> byte list) option" where
  "read_integer bs =
     (let n = LENGTH('a) div 8
      in if length bs < n then None else Some (ucast (read_loop 0 0 (take n bs)), drop n bs))"

lemma length_append_integer_loop [simp]: "length (append_integer_loop n v) = n"
  by (induction n arbitrary: v) auto

lemma length_append_integer [simp]:
  "length (append_integer (v :: 'a::len word)) = LENGTH('a) div 8"
  by (simp add: append_integer_def)

lemma bit_read_loop_append:
  "bit (read_loop acc off (append_integer_loop n v)) i \<longleftrightarrow>
     bit acc i \<or> (8 * off \<le> i \<and> i < 8 * (off + n) \<and> i < 64 \<and> bit v (i - 8 * off))"
proof (induction n arbitrary: acc off v)
  case 0
  then show ?case by auto
next
  case (Suc n)
  show ?case
    by (auto simp: Suc bit_or_iff bit_push_bit_iff bit_ucast_iff bit_drop_bit_eq mult.commute
        algebra_simps dest: bit_imp_le_length)
       (auto simp: not_le algebra_simps Suc_le_eq less_Suc_eq_le intro: ccontr)
qed

lemma read_loop_append:
  fixes v :: "'a::len word"
  assumes "LENGTH('a) \<le> 64" and "8 * n = LENGTH('a)"
  shows "ucast (read_loop 0 0 (append_integer_loop n v)) = v"
proof (rule bit_word_eqI)
  fix i assume "i < LENGTH('a)"
  with assms show "bit (ucast (read_loop 0 0 (append_integer_loop n v)) :: 'a word) i = bit v i"
    by (simp add: bit_ucast_iff bit_read_loop_append)
qed

lemma bit_read_loop_list:
  "off + length bs \<le> 8 \<Longrightarrow>
     bit (read_loop acc off bs) i \<longleftrightarrow>
       bit acc i \<or> (8 * off \<le> i \<and> i < 8 * (off + length bs) \<and>
                    bit (bs ! ((i - 8 * off) div 8)) ((i - 8 * off) mod 8))"
proof (induction bs arbitrary: acc off)
  case Nil
  then show ?case by auto
next
  case (Cons b bs)
  then have IH: "bit (read_loop (acc OR push_bit (off * 8) (ucast b)) (Suc off) bs) i \<longleftrightarrow>
      bit (acc OR push_bit (off * 8) (ucast b)) i \<or>
      (8 * Suc off \<le> i \<and> i < 8 * (Suc off + length bs) \<and>
       bit (bs ! ((i - 8 * Suc off) div 8)) ((i - 8 * Suc off) mod 8))"
    by auto
  consider "i < 8 * off" | "8 * off \<le> i" "i < 8 * Suc off" | "8 * Suc off \<le> i"
    by linarith
  then show ?case
  proof cases
    case 1
    then show ?thesis by (auto simp: IH bit_or_iff bit_push_bit_iff)
  next
    case 2
    then have "(i - 8 * off) div 8 = 0" "(i - 8 * off) mod 8 = i - 8 * off"
      by simp_all
    with 2 Cons.prems show ?thesis
      by (auto simp: IH bit_or_iff bit_push_bit_iff bit_ucast_iff mult.commute)
  next
    case 3
    then have "(i - 8 * off) div 8 = Suc ((i - 8 * Suc off) div 8)"
      "(i - 8 * off) mod 8 = (i - 8 * Suc off) mod 8"
      by (auto simp: le_div_geq [of 8 "i - 8 * off"] le_mod_geq [of 8 "i - 8 * off"] add.commute)
    with 3 show ?thesis
      by (auto simp: IH bit_or_iff bit_push_bit_iff bit_ucast_iff mult.commute
          dest: bit_imp_le_length)
  qed
qed

lemma append_loop_read:
  fixes v :: "'a::len word"
  assumes "LENGTH('a) \<le> 64" and "8 * length bs = LENGTH('a)"
    and "v = ucast (read_loop 0 0 bs)"
  shows "append_integer_loop (length bs) v = bs"
proof (rule nth_equalityI)
  have nth: "append_integer_loop n w ! k = ucast (drop_bit (8 * k) w)" if "k < n"
    for n k and w :: "'a word"
    using that by (induction n arbitrary: w k) (auto simp: nth_Cons add.commute split: nat.splits)
  fix k assume k: "k < length (append_integer_loop (length bs) v)"
  then have k': "k < length bs" by simp
  show "append_integer_loop (length bs) v ! k = bs ! k"
  proof (rule bit_word_eqI)
    fix i assume "i < LENGTH(8)"
    then have "(8 * k + i) div 8 = k" "(8 * k + i) mod 8 = i" and "8 * k + i < 8 * length bs"
      using k' by auto
    with assms k' show "bit (append_integer_loop (length bs) v ! k) i = bit (bs ! k) i"
      using \<open>i < LENGTH(8)\<close>
      by (simp add: nth bit_ucast_iff bit_drop_bit_eq bit_read_loop_list)
  qed
qed simp

definition byte_sized :: "'a::len itself \<Rightarrow> bool" where
  "byte_sized _ \<longleftrightarrow> LENGTH('a) \<le> 64 \<and> 8 dvd LENGTH('a)"

lemma read_append_integer:
  fixes v :: "'a::len word"
  assumes "byte_sized TYPE('a)"
  shows "read_integer (append_integer v @ rest) = Some (v, rest)"
  using assms
  by (auto simp: read_integer_def append_integer_def byte_sized_def read_loop_append)

lemma append_read_integer:
  fixes v :: "'a::len word"
  assumes "byte_sized TYPE('a)" and "read_integer bs = Some (v, rest)"
  shows "bs = append_integer v @ rest"
proof -
  let ?n = "LENGTH('a) div 8"
  from assms(2) have len: "?n \<le> length bs" and v: "v = ucast (read_loop 0 0 (take ?n bs))"
    and rest: "rest = drop ?n bs"
    by (auto simp: read_integer_def Let_def split: if_splits)
  have "append_integer_loop (length (take ?n bs)) v = take ?n bs"
    using assms(1) len v by (intro append_loop_read) (auto simp: byte_sized_def)
  with len rest show ?thesis by (simp add: append_integer_def min_absorb2)
qed

section \<open>Codecs\<close>

text \<open>
  The contract between an encoder and its reader. \<open>ok\<close> says which values the encoder accepts.
  The first law is the round trip, the second says that a successful read found exactly an
  encoding: the layout is canonical.
\<close>

locale codec =
  fixes enc :: "'a \<Rightarrow> byte list"
    and dec :: "byte list \<Rightarrow> ('a \<times> byte list) option"
    and ok :: "'a \<Rightarrow> bool"
  assumes dec_enc: "ok x \<Longrightarrow> dec (enc x @ rest) = Some (x, rest)"
    and enc_dec: "dec bs = Some (x, rest) \<Longrightarrow> ok x \<and> bs = enc x @ rest"
begin

lemma dec_enc_exact: "ok x \<Longrightarrow> dec (enc x) = Some (x, [])"
  using dec_enc [of x "[]"] by simp

lemma enc_inject:
  assumes "ok x" "ok y" "enc x @ r = enc y @ s"
  shows "x = y \<and> r = s"
proof -
  have "Some (x, r) = dec (enc y @ s)"
    using dec_enc [OF assms(1), of r] unfolding assms(3) ..
  also have "\<dots> = Some (y, s)" by (rule dec_enc [OF assms(2)])
  finally show ?thesis by simp
qed

lemma dec_Some_iff: "dec bs = Some (x, rest) \<longleftrightarrow> ok x \<and> bs = enc x @ rest"
  by (auto dest: enc_dec simp: dec_enc)

lemma dec_length: "dec bs = Some (x, rest) \<Longrightarrow> length rest \<le> length bs"
  by (drule enc_dec) simp

lemma truncated_fails:
  assumes "ok x" "n < length (enc x)"
  shows "dec (take n (enc x)) = None"
proof (cases "dec (take n (enc x))")
  case (Some p)
  then obtain y r where y: "dec (take n (enc x)) = Some (y, r)" by (cases p) auto
  then have oky: "ok y" and "take n (enc x) = enc y @ r" using enc_dec by blast+
  then have "enc x @ [] = enc y @ (r @ drop n (enc x))"
    by (metis append.assoc append_Nil2 append_take_drop_id)
  from enc_inject [OF assms(1) oky this] have "drop n (enc x) = []" by blast
  with assms(2) show ?thesis by simp
qed

end

lemma codec_integer: "byte_sized TYPE('a::len) \<Longrightarrow>
    codec (append_integer :: 'a word \<Rightarrow> _) read_integer (\<lambda>_. True)"
  by (unfold_locales) (auto simp: read_append_integer append_read_integer)

interpretation byte_codec: codec "append_integer :: u8 \<Rightarrow> _" read_integer "\<lambda>_. True"
  by (rule codec_integer) (simp add: byte_sized_def)

interpretation u16_codec: codec "append_integer :: u16 \<Rightarrow> _" read_integer "\<lambda>_. True"
  by (rule codec_integer) (simp add: byte_sized_def)

interpretation u32_codec: codec "append_integer :: u32 \<Rightarrow> _" read_integer "\<lambda>_. True"
  by (rule codec_integer) (simp add: byte_sized_def)

interpretation u64_codec: codec "append_integer :: u64 \<Rightarrow> _" read_integer "\<lambda>_. True"
  by (rule codec_integer) (simp add: byte_sized_def)

section \<open>Strings with a length prefix\<close>

text \<open>\<open>reinterpret_cast\<close> between text and bytes.\<close>

definition byte_of_char :: "char \<Rightarrow> byte" where
  "byte_of_char c = word_of_nat (of_char c)"

definition char_of_byte :: "byte \<Rightarrow> char" where
  "char_of_byte b = char_of (unat b)"

lemma char_byte_inverse [simp]: "char_of_byte (byte_of_char c) = c"
  by (simp add: char_of_byte_def byte_of_char_def unat_of_nat take_bit_eq_mod)

lemma byte_char_inverse [simp]: "byte_of_char (char_of_byte b) = b"
proof -
  have "unat b < 2 ^ LENGTH(8)"
    by (rule unsigned_less)
  then show ?thesis
    by (simp add: char_of_byte_def byte_of_char_def)
qed

lemma map_char_byte_inverse [simp]: "map char_of_byte (map byte_of_char s) = s"
  by (simp add: comp_def)

lemma map_byte_char_inverse [simp]: "map byte_of_char (map char_of_byte s) = s"
  by (simp add: comp_def)

text \<open>\<^const>\<open>None\<close> is the \<open>std::length_error\<close> of a string of \<open>2 ^ 32\<close> units or more.\<close>

definition string_fits :: "string \<Rightarrow> bool" where
  "string_fits text \<longleftrightarrow> length text < 2 ^ 32"

definition append_string :: "string \<Rightarrow> byte list" where
  "append_string text = append_integer (word_of_nat (length text) :: u32) @ map byte_of_char text"

definition read_string :: "byte list \<Rightarrow> (string \<times> byte list) option" where
  "read_string bs = do {
     (size, bs) \<leftarrow> (read_integer bs :: (u32 \<times> byte list) option);
     if length bs < unat size then None
     else Some (map char_of_byte (take (unat size) bs), drop (unat size) bs) }"

lemma unat_of_length: "string_fits text \<Longrightarrow> unat (word_of_nat (length text) :: u32) = length text"
  by (simp add: string_fits_def unat_of_nat take_bit_eq_mod)

lemma read_append_string: "string_fits s \<Longrightarrow> read_string (append_string s @ rest) = Some (s, rest)"
  by (simp add: read_string_def append_string_def u32_codec.dec_enc unat_of_length comp_def)

lemma append_read_string:
  assumes "read_string bs = Some (s, rest)"
  shows "string_fits s \<and> bs = append_string s @ rest"
proof -
  from assms obtain size :: u32 and bs' where
    size: "read_integer bs = Some (size, bs')" and le: "unat size \<le> length bs'"
    and s: "s = map char_of_byte (take (unat size) bs')" and rest: "rest = drop (unat size) bs'"
    by (auto simp: read_string_def bind_Some_iff split: if_splits)
  from le s have len: "length s = unat size" by simp
  then have fits: "string_fits s"
    using unsigned_less [of size] by (simp add: string_fits_def)
  have "map byte_of_char s @ rest = bs'"
    by (simp add: s rest comp_def)
  moreover have "bs = append_integer size @ bs'"
    using size u32_codec.enc_dec by blast
  moreover have "(word_of_nat (length s) :: u32) = size"
    by (simp add: len)
  ultimately show ?thesis
    using fits by (simp add: append_string_def)
qed

interpretation string_codec: codec append_string read_string string_fits
  using read_append_string append_read_string by unfold_locales blast+

lemma length_append_string [simp]: "length (append_string s) = 4 + length s"
  by (simp add: append_string_def)

section \<open>Counted runs\<close>

text \<open>A counted run of records: the item loops of the record decoders.\<close>

fun dec_many ::
  "(byte list \<Rightarrow> ('a \<times> byte list) option) \<Rightarrow> nat \<Rightarrow> byte list \<Rightarrow> ('a list \<times> byte list) option"
where
  "dec_many d 0 bs = Some ([], bs)"
| "dec_many d (Suc n) bs = do {
     (x, bs) \<leftarrow> d bs; (xs, bs) \<leftarrow> dec_many d n bs; Some (x # xs, bs) }"

context codec
begin

lemma dec_many_enc:
  "\<forall>x\<in>set xs. ok x \<Longrightarrow> dec_many dec (length xs) (concat (map enc xs) @ rest) = Some (xs, rest)"
  by (induction xs) (auto simp: dec_enc)

lemma enc_dec_many:
  "dec_many dec n bs = Some (xs, rest) \<Longrightarrow>
     length xs = n \<and> (\<forall>x\<in>set xs. ok x) \<and> bs = concat (map enc xs) @ rest"
  by (induction n arbitrary: bs xs) (fastforce simp: bind_Some_iff dest: enc_dec)+

end

section \<open>Enumerations as bytes\<close>

text \<open>A \<open>static_cast\<close> between an enumeration and \<open>std::uint8_t\<close>, with the range check of the
  \<open>valid_*\<close> helpers.\<close>

definition enum_code :: "'a list \<Rightarrow> 'a \<Rightarrow> u8" where
  "enum_code xs x = word_of_nat (length (takeWhile (\<lambda>y. y \<noteq> x) xs))"

definition enum_of :: "'a list \<Rightarrow> u8 \<Rightarrow> 'a option" where
  "enum_of xs b = (if unat b < length xs then Some (xs ! unat b) else None)"

definition enum_table :: "'a list \<Rightarrow> bool" where
  "enum_table xs \<longleftrightarrow> distinct xs \<and> length xs \<le> 255 \<and> (\<forall>x. x \<in> set xs)"

lemma enum_of_iff:
  assumes "enum_table xs"
  shows "enum_of xs b = Some x \<longleftrightarrow> b = enum_code xs x"
proof -
  let ?n = "length (takeWhile (\<lambda>y. y \<noteq> x) xs)"
  from assms have dist: "distinct xs" and len: "length xs \<le> 255" and mem: "x \<in> set xs"
    by (auto simp: enum_table_def)
  have lt: "?n < length xs"
    using mem by (induction xs) auto
  have at: "xs ! ?n = x"
    using nth_length_takeWhile [OF lt] by simp
  have code: "unat (enum_code xs x) = ?n"
    using lt len by (simp add: enum_code_def unat_of_nat take_bit_eq_mod)
  show ?thesis
  proof
    assume "enum_of xs b = Some x"
    then have "unat b < length xs" "xs ! unat b = x" by (auto simp: enum_of_def split: if_splits)
    then have "unat b = ?n" using dist lt at by (metis nth_eq_iff_index_eq)
    then show "b = enum_code xs x" using code by (metis word_unat_eq_iff)
  next
    assume "b = enum_code xs x"
    then show "enum_of xs b = Some x" using lt at code by (simp add: enum_of_def)
  qed
qed

lemma enum_of_code [simp]: "enum_table xs \<Longrightarrow> enum_of xs (enum_code xs x) = Some x"
  by (simp add: enum_of_iff)

end
