(* ===== verification/Text.thy ===== *)
theory Text
  imports Bytes
begin

text \<open>
  The operations of \<open>std::string_view\<close> the sources use (searching, counting, number parsing and
  printing), and the UTF-8 validator that \<open>file_operation.cpp\<close>, \<open>batch_rename_transaction.cpp\<close> and
  \<open>file_transfer_transaction.cpp\<close> each carry a copy of.
\<close>

section \<open>Searching\<close>

text \<open>\<open>find(c, from)\<close> and \<open>find_last_of(c)\<close>; \<^const>\<open>None\<close> is \<open>npos\<close>.\<close>

definition find_from :: "char \<Rightarrow> nat \<Rightarrow> string \<Rightarrow> nat option" where
  "find_from c from text =
     (let skipped = takeWhile (\<lambda>x. x \<noteq> c) (drop from text)
      in if from + length skipped < length text then Some (from + length skipped) else None)"

definition find_last_of :: "char \<Rightarrow> string \<Rightarrow> nat option" where
  "find_last_of c text =
     (let tail = takeWhile (\<lambda>x. x \<noteq> c) (rev text)
      in if length tail < length text then Some (length text - 1 - length tail) else None)"

definition substr :: "nat \<Rightarrow> nat \<Rightarrow> string \<Rightarrow> string" where
  "substr pos count text = take count (drop pos text)"

lemma find_from_Some:
  assumes "find_from c from text = Some i"
  shows "from \<le> i \<and> i < length text \<and> text ! i = c \<and> c \<notin> set (take (i - from) (drop from text))"
proof -
  let ?t = "takeWhile (\<lambda>x. x \<noteq> c) (drop from text)"
  from assms have i: "i = from + length ?t" and lt: "from + length ?t < length text"
    by (auto simp: find_from_def Let_def split: if_splits)
  from lt have "length ?t < length (drop from text)" by simp
  from nth_length_takeWhile [OF this] have "text ! i = c"
    using i lt by (simp add: nth_drop)
  moreover have "take (i - from) (drop from text) = ?t"
    using i takeWhile_eq_take [of "\<lambda>x. x \<noteq> c" "drop from text"] by simp
  ultimately show ?thesis
    using i lt by (auto dest: set_takeWhileD)
qed

lemma find_from_None: "find_from c from text = None \<longleftrightarrow> c \<notin> set (drop from text)"
proof -
  let ?t = "takeWhile (\<lambda>x. x \<noteq> c) (drop from text)"
  have "find_from c from text = None \<longleftrightarrow> length (drop from text) \<le> length ?t"
    by (auto simp: find_from_def Let_def)
  also have "\<dots> \<longleftrightarrow> ?t = drop from text"
    by (metis length_takeWhile_le order_antisym order_refl takeWhile_eq_take take_all)
  finally show ?thesis by (auto simp: takeWhile_eq_all_conv)
qed

lemma find_last_of_decomp:
  assumes "find_last_of c text = Some i"
  shows "i < length text \<and> text ! i = c \<and> c \<notin> set (drop (Suc i) text)"
proof -
  let ?t = "takeWhile (\<lambda>x. x \<noteq> c) (rev text)"
  from assms have lt: "length ?t < length text" and i: "i = length text - 1 - length ?t"
    by (auto simp: find_last_of_def Let_def split: if_splits)
  from lt have "rev text ! length ?t = c"
    using nth_length_takeWhile [of "\<lambda>x. x \<noteq> c" "rev text"] by simp
  with lt i have "text ! i = c" by (simp add: rev_nth)
  moreover have "drop (Suc i) text = rev ?t"
  proof -
    have "?t = take (length ?t) (rev text)" by (rule takeWhile_eq_take)
    also have "\<dots> = rev (drop (Suc i) text)"
      using i lt by (simp add: take_rev Suc_diff_Suc)
    finally show ?thesis by simp
  qed
  ultimately show ?thesis
    using i lt by (auto dest: set_takeWhileD)
qed

lemma find_last_of_None: "find_last_of c text = None \<longleftrightarrow> c \<notin> set text"
proof -
  let ?t = "takeWhile (\<lambda>x. x \<noteq> c) (rev text)"
  have "find_last_of c text = None \<longleftrightarrow> length (rev text) \<le> length ?t"
    by (auto simp: find_last_of_def Let_def)
  also have "\<dots> \<longleftrightarrow> ?t = rev text"
    by (metis length_takeWhile_le order_antisym order_refl takeWhile_eq_take take_all)
  finally show ?thesis by (auto simp: takeWhile_eq_all_conv)
qed

section \<open>Numbers\<close>

definition digit_char :: "nat \<Rightarrow> char" where
  "digit_char d = char_of (if d < 10 then 48 + d else 87 + d)"

text \<open>\<open>std::to_chars\<close> in base \<open>b\<close> (10 or 16).\<close>

function to_chars :: "nat \<Rightarrow> nat \<Rightarrow> string" where
  "to_chars b n =
     (if n < b \<or> b < 2 then [digit_char n] else to_chars b (n div b) @ [digit_char (n mod b)])"
  by pat_completeness auto
termination
  by (relation "measure snd") auto

declare to_chars.simps [simp del]

abbreviation decimal :: "nat \<Rightarrow> string" where
  "decimal \<equiv> to_chars 10"

definition hexadecimal :: "u64 \<Rightarrow> string" where
  "hexadecimal value = to_chars 16 (unat value)"

definition digit_value :: "char \<Rightarrow> nat option" where
  "digit_value c =
     (let v = of_char c in
      if 48 \<le> v \<and> v \<le> 57 then Some (v - 48)
      else if 97 \<le> v \<and> v \<le> 102 then Some (v - 87)
      else if 65 \<le> v \<and> v \<le> 70 then Some (v - 55)
      else None)"

definition is_digit :: "nat \<Rightarrow> char \<Rightarrow> bool" where
  "is_digit b c = (case digit_value c of None \<Rightarrow> False | Some d \<Rightarrow> d < b)"

definition digits_value :: "nat \<Rightarrow> string \<Rightarrow> nat" where
  "digits_value b ds = foldl (\<lambda>acc c. b * acc + the (digit_value c)) 0 ds"

text \<open>\<open>std::stoull\<close>/\<open>std::stoul\<close>: leading blanks, an optional sign, an optional \<open>0x\<close> in base 16,
  then the longest run of digits; \<^const>\<open>None\<close> is the exception (no digits, or out of range).\<close>

definition is_space :: "char \<Rightarrow> bool" where
  "is_space c = (let v = (of_char c :: nat) in v = 32 \<or> (9 \<le> v \<and> v \<le> 13))"

definition stoull :: "nat \<Rightarrow> string \<Rightarrow> u64 option" where
  "stoull b text =
     (let t = dropWhile is_space text;
          (negative, t) = (case t of c # cs \<Rightarrow> if c = CHR ''-'' then (True, cs)
                                       else if c = CHR ''+'' then (False, cs) else (False, t)
                                   | [] \<Rightarrow> (False, t));
          t = (if b = 16 \<and> (starts_with t ''0x'' \<or> starts_with t ''0X'') \<and>
                  length t > 2 \<and> is_digit b (t ! 2) then drop 2 t else t);
          ds = takeWhile (is_digit b) t;
          n = digits_value b ds
      in if ds = [] \<or> 2 ^ 64 \<le> n then None
         else Some (if negative then - word_of_nat n else word_of_nat n))"

text \<open>\<open>std::from_chars\<close> into \<open>std::int64_t\<close>, with the caller's test that all text was consumed.\<close>

definition from_chars_i64 :: "string \<Rightarrow> i64 option" where
  "from_chars_i64 text =
     (let (negative, ds) = (case text of c # cs \<Rightarrow> if c = CHR ''-'' then (True, cs)
                                                  else (False, text)
                                       | [] \<Rightarrow> (False, text));
          n = digits_value 10 ds
      in if ds = [] \<or> \<not> list_all (is_digit 10) ds then None
         else if negative then (if n \<le> 2 ^ 63 then Some (- word_of_nat n) else None)
         else (if n < 2 ^ 63 then Some (word_of_nat n) else None))"

subsection \<open>Printed numbers read back\<close>

lemma digit_value_digit_char: "d < 16 \<Longrightarrow> digit_value (digit_char d) = Some d"
  by (auto simp: digit_value_def digit_char_def Let_def)

lemma digits_value_snoc: "digits_value b (ds @ [c]) = b * digits_value b ds + the (digit_value c)"
  by (simp add: digits_value_def)

lemma digits_value_to_chars:
  "2 \<le> b \<Longrightarrow> b \<le> 16 \<Longrightarrow> digits_value b (to_chars b n) = n"
proof (induction b n rule: to_chars.induct)
  case (1 b n)
  show ?case
  proof (cases "n < b")
    case True
    with 1 have "to_chars b n = [digit_char n]" by (subst to_chars.simps) simp
    with True 1 show ?thesis by (simp add: digits_value_def digit_value_digit_char)
  next
    case False
    with 1 have step: "to_chars b n = to_chars b (n div b) @ [digit_char (n mod b)]"
      by (subst to_chars.simps) simp
    have "n mod b < b" using "1.prems"(1) by simp
    with "1.prems" have "n mod b < 16" by linarith
    with 1 False step show ?thesis by (simp add: digits_value_snoc digit_value_digit_char)
  qed
qed

lemma to_chars_inject: "2 \<le> b \<Longrightarrow> b \<le> 16 \<Longrightarrow> to_chars b m = to_chars b n \<Longrightarrow> m = n"
  by (metis digits_value_to_chars)

lemma to_chars_nonempty [simp]: "to_chars b n \<noteq> []"
  by (subst to_chars.simps) simp

lemma set_to_chars:
  "2 \<le> b \<Longrightarrow> b \<le> 16 \<Longrightarrow> c \<in> set (to_chars b n) \<Longrightarrow> \<exists>d < b. c = digit_char d"
proof (induction b n rule: to_chars.induct)
  case (1 b n)
  show ?case
  proof (cases "n < b")
    case True
    with 1 have "to_chars b n = [digit_char n]" by (subst to_chars.simps) simp
    with True 1 show ?thesis by auto
  next
    case False
    with 1 have step: "to_chars b n = to_chars b (n div b) @ [digit_char (n mod b)]"
      by (subst to_chars.simps) simp
    have low: "n mod b < b" using "1.prems"(1) by simp
    from step "1.prems"(3) consider "c \<in> set (to_chars b (n div b))" | "c = digit_char (n mod b)"
      by auto
    then show ?thesis
    proof cases
      case 1
      with "1.IH" "1.prems" False show ?thesis by simp
    next
      case 2
      with low show ?thesis by blast
    qed
  qed
qed

lemma length_to_chars: "2 \<le> b \<Longrightarrow> n < b ^ Suc k \<Longrightarrow> length (to_chars b n) \<le> Suc k"
proof (induction k arbitrary: n)
  case 0
  then show ?case by (subst to_chars.simps) simp
next
  case (Suc k)
  then have "n div b < b ^ Suc k"
    by (simp add: less_mult_imp_div_less mult.commute)
  from Suc.IH [OF Suc.prems(1) this] show ?case by (subst to_chars.simps) simp
qed

text \<open>Leading zeros do not change the value.\<close>

lemma digits_value_zeros: "digits_value b (replicate k CHR ''0'' @ ds) = digits_value b ds"
  by (induction k) (simp_all add: digits_value_def digit_value_def)

section \<open>UTF-8\<close>

text \<open>The number of continuation units a lead unit announces, with its payload bits.\<close>

definition utf8_lead :: "byte \<Rightarrow> (nat \<times> u32) option" where
  "utf8_lead first =
     (if first AND 0xE0 = 0xC0 then
        (if first AND 0x1F < 2 then None else Some (1, ucast (first AND 0x1F)))
      else if first AND 0xF0 = 0xE0 then Some (2, ucast (first AND 0x0F))
      else if first AND 0xF8 = 0xF0 then Some (3, ucast (first AND 0x07))
      else None)"

fun utf8_continue :: "u32 \<Rightarrow> string \<Rightarrow> u32 option" where
  "utf8_continue code_point [] = Some code_point"
| "utf8_continue code_point (c # cs) =
     (if byte_of_char c AND 0xC0 \<noteq> 0x80 then None
      else utf8_continue (push_bit 6 code_point OR ucast (byte_of_char c AND 0x3F)) cs)"

definition utf8_code_point_bad :: "nat \<Rightarrow> u32 \<Rightarrow> bool" where
  "utf8_code_point_bad count code_point \<longleftrightarrow>
     count = 2 \<and> code_point < 0x800 \<or> count = 3 \<and> code_point < 0x10000 \<or>
     (0xD800 \<le> code_point \<and> code_point \<le> 0xDFFF) \<or> 0x10FFFF < code_point"

function valid_utf8 :: "string \<Rightarrow> bool" where
  "valid_utf8 [] = True"
| "valid_utf8 (c # cs) =
     (if byte_of_char c \<le> 0x7F then valid_utf8 cs
      else case utf8_lead (byte_of_char c) of
             None \<Rightarrow> False
           | Some (count, code_point) \<Rightarrow>
               if length cs < count then False
               else case utf8_continue code_point (take count cs) of
                      None \<Rightarrow> False
                    | Some code_point \<Rightarrow>
                        if utf8_code_point_bad count code_point then False
                        else valid_utf8 (drop count cs))"
  by pat_completeness auto
termination
  by (relation "measure length") auto

text \<open>The file-transfer record also refuses an embedded NUL.\<close>

definition valid_utf8_no_nul :: "string \<Rightarrow> bool" where
  "valid_utf8_no_nul text \<longleftrightarrow> CHR 0x00 \<notin> set text \<and> valid_utf8 text"

lemma valid_utf8_append:
  "valid_utf8 s \<Longrightarrow> valid_utf8 t \<Longrightarrow> valid_utf8 (s @ t)"
  by (induction s rule: valid_utf8.induct)
     (auto split: if_splits option.splits prod.splits)

definition ascii :: "string \<Rightarrow> bool" where
  "ascii s \<longleftrightarrow> (\<forall>c\<in>set s. byte_of_char c \<le> 0x7F)"

lemma ascii_simps [simp]:
  "ascii []"
  "ascii (c # cs) \<longleftrightarrow> byte_of_char c \<le> 0x7F \<and> ascii cs"
  "ascii (s @ t) \<longleftrightarrow> ascii s \<and> ascii t"
  by (auto simp: ascii_def)

lemma ascii_valid_utf8: "ascii s \<Longrightarrow> valid_utf8 s"
  by (induction s) auto

end
