(* ===== verification/Posix_Path.thy ===== *)
theory Posix_Path
  imports Text
begin

text \<open>
  The part of \<open>std::filesystem::path\<close> the sources use, for the POSIX grammar: a path is its native
  byte string, the separator is the slash, and there are no root names. Comparison is element
  by element, as \<open>operator==\<close> compares, so repeated separators do not matter to it. Nothing here
  touches a file system.
\<close>

type_synonym path = string

abbreviation slash :: char where
  "slash \<equiv> CHR ''/''"

section \<open>Decomposition\<close>

definition is_absolute :: "path \<Rightarrow> bool" where
  "is_absolute p \<longleftrightarrow> starts_with p [slash]"

fun split_slash :: "path \<Rightarrow> string \<Rightarrow> string list" where
  "split_slash [] seg = [seg]"
| "split_slash (c # cs) seg =
     (if c = slash then seg # split_slash cs [] else split_slash cs (seg @ [c]))"

definition segments :: "path \<Rightarrow> string list" where
  "segments p = filter (\<lambda>s. s \<noteq> []) (split_slash p [])"

definition ends_with_slash :: "path \<Rightarrow> bool" where
  "ends_with_slash p \<longleftrightarrow> p \<noteq> [] \<and> last p = slash"

definition root_elems :: "path \<Rightarrow> string list" where
  "root_elems p = (if is_absolute p then [[slash]] else [])"

text \<open>The elements iteration over a path visits: the root directory, the names, and an empty
  element after a trailing separator.\<close>

definition path_elems :: "path \<Rightarrow> string list" where
  "path_elems p =
     root_elems p @ segments p @ (if segments p \<noteq> [] \<and> ends_with_slash p then [[]] else [])"

definition path_eq :: "path \<Rightarrow> path \<Rightarrow> bool" where
  "path_eq p q \<longleftrightarrow> path_elems p = path_elems q"

definition filename :: "path \<Rightarrow> string" where
  "filename p = rev (takeWhile (\<lambda>c. c \<noteq> slash) (rev p))"

definition strip_slashes :: "path \<Rightarrow> path" where
  "strip_slashes p = rev (dropWhile (\<lambda>c. c = slash) (rev p))"

definition parent_path :: "path \<Rightarrow> path" where
  "parent_path p =
     (if segments p = [] then p
      else let dir = rev (dropWhile (\<lambda>c. c \<noteq> slash) (rev p));
               stripped = strip_slashes dir
           in if dir \<noteq> [] \<and> stripped = [] then [slash] else stripped)"

definition extension_position :: "string \<Rightarrow> nat option" where
  "extension_position f =
     (if f = ''.'' \<or> f = ''..'' then None
      else case find_last_of CHR ''.'' f of None \<Rightarrow> None | Some i \<Rightarrow> if i = 0 then None else Some i)"

definition stem :: "path \<Rightarrow> string" where
  "stem p = (case extension_position (filename p) of
               None \<Rightarrow> filename p | Some i \<Rightarrow> take i (filename p))"

definition extension :: "path \<Rightarrow> string" where
  "extension p = (case extension_position (filename p) of
                    None \<Rightarrow> [] | Some i \<Rightarrow> drop i (filename p))"

section \<open>Composition and normal form\<close>

definition path_append :: "path \<Rightarrow> path \<Rightarrow> path" where
  "path_append p q =
     (if is_absolute q then q else if filename p = [] then p @ q else p @ [slash] @ q)"

text \<open>One name at a time onto the stack of a normal form, innermost first.\<close>

definition normal_step :: "bool \<Rightarrow> string \<Rightarrow> string list \<Rightarrow> string list" where
  "normal_step absolute seg stack =
     (if seg = ''.'' then stack
      else if seg = ''..'' then
        (case stack of
           [] \<Rightarrow> if absolute then [] else [seg]
         | inner # below \<Rightarrow> if inner = ''..'' then seg # stack else below)
      else seg # stack)"

definition normal_stack :: "path \<Rightarrow> string list" where
  "normal_stack p = fold (normal_step (is_absolute p)) (segments p) []"

fun join_slash :: "string list \<Rightarrow> string" where
  "join_slash [] = []"
| "join_slash [s] = s"
| "join_slash (s # t # ss) = s @ [slash] @ join_slash (t # ss)"

definition lexically_normal :: "path \<Rightarrow> path" where
  "lexically_normal p =
     (if p = [] then []
      else let stack = normal_stack p;
               directory_like = ends_with_slash p \<or> last (segments p) \<in> {''.'', ''..''};
               body = (if is_absolute p then [slash] else []) @ join_slash (rev stack)
           in if body = [] then ''.''
              else if stack \<noteq> [] \<and> hd stack \<noteq> ''..'' \<and> directory_like then body @ [slash]
              else body)"

section \<open>Laws\<close>

lemma path_eq_equiv: "equivp path_eq"
  by (rule equivpI) (auto simp: reflp_def symp_def transp_def path_eq_def)

lemma path_eq_refl [simp, intro]: "path_eq p p"
  by (simp add: path_eq_def)

lemma path_eq_sym: "path_eq p q \<Longrightarrow> path_eq q p"
  by (simp add: path_eq_def)

lemma path_eq_trans [trans]: "path_eq p q \<Longrightarrow> path_eq q r \<Longrightarrow> path_eq p r"
  by (simp add: path_eq_def)

lemma slash_not_in_filename: "slash \<notin> set (filename p)"
  by (auto simp: filename_def dest: set_takeWhileD)

text \<open>A plain name: what \<open>path.filename()\<close> can return, other than the empty name.\<close>

definition plain_name :: "string \<Rightarrow> bool" where
  "plain_name f \<longleftrightarrow> f \<noteq> [] \<and> slash \<notin> set f"

lemma plain_name_not_absolute: "plain_name f \<Longrightarrow> \<not> is_absolute f"
  by (cases f) (auto simp: plain_name_def is_absolute_def starts_with_def)

definition dir_prefix :: "path \<Rightarrow> path" where
  "dir_prefix d = (if filename d = [] then d else d @ [slash])"

lemma path_append_plain: "plain_name f \<Longrightarrow> path_append d f = dir_prefix d @ f"
  by (simp add: path_append_def dir_prefix_def plain_name_not_absolute)

lemma filename_append_plain:
  assumes "slash \<notin> set f" "q = [] \<or> last q = slash"
  shows "filename (q @ f) = f"
proof -
  have "takeWhile (\<lambda>c. c \<noteq> slash) (rev f @ rev q) = rev f @ takeWhile (\<lambda>c. c \<noteq> slash) (rev q)"
    using assms(1) by (simp add: takeWhile_append)
  moreover have "takeWhile (\<lambda>c. c \<noteq> slash) (rev q) = []"
    using assms(2) by (cases q rule: rev_cases) auto
  ultimately show ?thesis by (simp add: filename_def)
qed

lemma filename_empty_iff: "filename p = [] \<longleftrightarrow> p = [] \<or> last p = slash"
  by (cases p rule: rev_cases) (auto simp: filename_def)

lemma dir_prefix_cases: "dir_prefix d = [] \<or> last (dir_prefix d) = slash"
  by (auto simp: dir_prefix_def filename_empty_iff)

lemma filename_path_append [simp]: "plain_name f \<Longrightarrow> filename (path_append d f) = f"
  by (simp add: path_append_plain filename_append_plain dir_prefix_cases plain_name_def)

lemma filename_plain [simp]: "slash \<notin> set f \<Longrightarrow> filename f = f"
  using filename_append_plain [of f "[]"] by simp

lemma split_slash_plain: "slash \<notin> set f \<Longrightarrow> split_slash f seg = [seg @ f]"
  by (induction f arbitrary: seg) auto

lemma split_slash_append:
  "split_slash (p @ slash # q) seg = split_slash p seg @ split_slash q []"
  by (induction p arbitrary: seg) auto

lemma segments_slash: "segments (p @ slash # q) = segments p @ segments q"
  by (simp add: segments_def split_slash_append)

lemma segments_Nil [simp]: "segments [] = []"
  by (simp add: segments_def)

lemma segments_plain: "plain_name f \<Longrightarrow> segments f = [f]"
  by (simp add: segments_def split_slash_plain plain_name_def)

lemma segments_dir_prefix: "segments (dir_prefix d) = segments d"
  by (simp add: dir_prefix_def segments_slash)

lemma segments_append_plain:
  assumes "plain_name f" "q = [] \<or> last q = slash"
  shows "segments (q @ f) = segments q @ [f]"
proof (cases q rule: rev_cases)
  case Nil
  then show ?thesis using assms by (simp add: segments_plain)
next
  case (snoc q' c)
  with assms have "q = q' @ [slash]" by simp
  then have "q @ f = q' @ slash # f" "q = q' @ slash # []" by simp_all
  then show ?thesis
    using assms(1) segments_slash [of q' f] segments_slash [of q' "[]"]
    by (simp add: segments_plain)
qed

lemma segments_path_append [simp]:
  "plain_name f \<Longrightarrow> segments (path_append d f) = segments d @ [f]"
  by (simp add: path_append_plain segments_append_plain dir_prefix_cases segments_dir_prefix)

lemma is_absolute_path_append [simp]:
  "plain_name f \<Longrightarrow> is_absolute (path_append d f) \<longleftrightarrow> is_absolute d"
  by (cases d) (auto simp: path_append_plain dir_prefix_def is_absolute_def starts_with_def
      filename_empty_iff plain_name_def neq_Nil_conv)

lemma not_ends_with_slash_append: "plain_name f \<Longrightarrow> \<not> ends_with_slash (path_append d f)"
  by (auto simp: path_append_plain ends_with_slash_def plain_name_def dest: last_in_set)

definition dir_elems :: "path \<Rightarrow> string list" where
  "dir_elems d = root_elems d @ segments d"

lemma path_elems_append:
  "plain_name f \<Longrightarrow> path_elems (path_append d f) = dir_elems d @ [f]"
  by (simp add: path_elems_def dir_elems_def root_elems_def not_ends_with_slash_append)

lemma path_eq_append_iff:
  "plain_name f \<Longrightarrow> plain_name g \<Longrightarrow>
     path_eq (path_append d f) (path_append e g) \<longleftrightarrow> dir_elems d = dir_elems e \<and> f = g"
  by (simp add: path_eq_def path_elems_append)

lemma segments_no_empty: "[] \<notin> set (segments p)"
  by (simp add: segments_def)

lemma path_eq_dir_elems: "path_eq p q \<Longrightarrow> dir_elems p = dir_elems q"
proof -
  have "dir_elems r = filter (\<lambda>s. s \<noteq> []) (path_elems r)" for r
    using segments_no_empty [of r]
    by (auto simp: dir_elems_def path_elems_def root_elems_def segments_def)
  then show "path_eq p q \<Longrightarrow> dir_elems p = dir_elems q" by (simp add: path_eq_def)
qed

lemma parent_path_append:
  "plain_name f \<Longrightarrow> parent_path (path_append d f) =
     (if dir_prefix d \<noteq> [] \<and> strip_slashes (dir_prefix d) = [] then [slash]
      else strip_slashes (dir_prefix d))"
proof -
  assume f: "plain_name f"
  have "dropWhile (\<lambda>c. c \<noteq> slash) (rev (dir_prefix d @ f)) = rev (dir_prefix d)"
    using f dir_prefix_cases [of d]
    by (cases "dir_prefix d" rule: rev_cases) (auto simp: plain_name_def dropWhile_append)
  moreover have "segments (dir_prefix d @ f) \<noteq> []"
    using f segments_path_append [OF f, of d] by (simp add: path_append_plain)
  ultimately show ?thesis
    using f by (simp add: path_append_plain parent_path_def Let_def)
qed

lemma parent_path_append_indep:
  "plain_name f \<Longrightarrow> plain_name g \<Longrightarrow> parent_path (path_append d f) = parent_path (path_append d g)"
  by (simp add: parent_path_append)


lemma split_slash_all_empty:
  "filter (\<lambda>s. s \<noteq> []) (split_slash p seg) = [] \<longleftrightarrow> seg = [] \<and> (\<forall>c\<in>set p. c = slash)"
  by (induction p arbitrary: seg) (auto simp: filter_empty_conv)

lemma segments_empty_iff: "segments p = [] \<longleftrightarrow> (\<forall>c\<in>set p. c = slash)"
  by (simp add: segments_def split_slash_all_empty)

lemma filename_decomp: "\<exists>q. p = q @ filename p \<and> (q = [] \<or> last q = slash)"
proof -
  let ?P = "\<lambda>c. c \<noteq> slash"
  have "rev p = takeWhile ?P (rev p) @ dropWhile ?P (rev p)" by simp
  then have "p = rev (dropWhile ?P (rev p)) @ filename p"
    unfolding filename_def by (metis rev_append rev_rev_ident)
  moreover have "rev (dropWhile ?P (rev p)) = [] \<or> last (rev (dropWhile ?P (rev p))) = slash"
    using hd_dropWhile [of ?P "rev p"] by (auto simp: last_rev)
  ultimately show ?thesis by blast
qed

text \<open>The test \<open>path == path.filename()\<close> of the sources holds of slash-free paths only.\<close>

lemma path_eq_filename_iff:
  assumes "p \<noteq> []"
  shows "path_eq p (filename p) \<longleftrightarrow> plain_name p"
proof
  assume eq: "path_eq p (filename p)"
  obtain q where p: "p = q @ filename p" and q: "q = [] \<or> last q = slash"
    using filename_decomp by blast
  show "plain_name p"
  proof (cases "filename p = []")
    case True
    with eq have none: "path_elems p = []"
      by (simp add: path_eq_def path_elems_def root_elems_def is_absolute_def starts_with_def)
    then have "segments p = []" and "\<not> is_absolute p"
      by (auto simp: path_elems_def root_elems_def split: if_splits)
    with assms show ?thesis
      by (cases p) (auto simp: segments_empty_iff is_absolute_def starts_with_def)
  next
    case False
    then have f: "plain_name (filename p)" by (simp add: plain_name_def slash_not_in_filename)
    have seg: "segments p = segments q @ [filename p]"
      using segments_append_plain [OF f q] p by simp
    have "path_elems (filename p) = [filename p]"
      using f by (auto simp: path_elems_def root_elems_def plain_name_not_absolute segments_plain
          ends_with_slash_def plain_name_def dest: last_in_set)
    with eq seg have "\<not> is_absolute p" and "segments q = []"
      by (auto simp: path_eq_def path_elems_def root_elems_def split: if_splits)
    have "q = []"
    proof (rule ccontr)
      assume "q \<noteq> []"
      with \<open>segments q = []\<close> obtain q' where "q = slash # q'"
        by (cases q) (auto simp: segments_empty_iff)
      then have "is_absolute (q @ filename p)" by (simp add: is_absolute_def starts_with_def)
      with p \<open>\<not> is_absolute p\<close> show False by metis
    qed
    then have "p = filename p" using p by (metis append_Nil)
    then show ?thesis using f by metis
  qed
next
  assume "plain_name p"
  then show "path_eq p (filename p)" by (simp add: plain_name_def)
qed

end
