(* ===== verification/File_Identity.thy ===== *)
theory File_Identity
  imports Posix_Path
begin

text \<open>
  Object identities, source revisions and reserved names: the pure half of
  \<open>src/Source/src/fileops/file_operation.cpp\<close> and \<open>include/vove/core/reserved_names.hpp\<close>, in the
  branches of the POSIX build. A source revision is a colon-separated text whose prefix names the
  platform; the stable identity drops its last field, the change counter.
\<close>

section \<open>Snapshots\<close>

record SourceSnapshot =
  size_bytes :: u64
  modified_unix_ns :: i64
  source_revision_utf8 :: string

definition empty_snapshot :: SourceSnapshot where
  "empty_snapshot = \<lparr>size_bytes = 0, modified_unix_ns = 0, source_revision_utf8 = []\<rparr>"

section \<open>Reserved names\<close>

definition kTrashFilenamePrefix :: string where
  "kTrashFilenamePrefix = ''.vove-trash-564f5645-''"

definition kTrashVaultDirectoryName :: string where
  "kTrashVaultDirectoryName = ''.vove-trash-564f5645-vault''"

definition kTrashItemFilenamePrefix :: string where
  "kTrashItemFilenamePrefix = ''item-''"

definition kTransferSourceFilenamePrefix :: string where
  "kTransferSourceFilenamePrefix = ''.vove-transfer-564f5645-source-''"

definition kTransferDestinationFilenamePrefix :: string where
  "kTransferDestinationFilenamePrefix = ''.vove-transfer-564f5645-destination-''"

definition kTransferOverwriteBackupFilenamePrefix :: string where
  "kTransferOverwriteBackupFilenamePrefix = ''.vove-transfer-564f5645-overwrite-backup-''"

definition kTransferOwnershipMarkerFilename :: string where
  "kTransferOwnershipMarkerFilename = ''.vove-owner-564f5645''"

lemmas reserved_name_defs =
  kTrashFilenamePrefix_def kTrashVaultDirectoryName_def kTrashItemFilenamePrefix_def
  kTransferSourceFilenamePrefix_def kTransferDestinationFilenamePrefix_def
  kTransferOverwriteBackupFilenamePrefix_def kTransferOwnershipMarkerFilename_def

definition is_trash_filename :: "string \<Rightarrow> bool" where
  "is_trash_filename f \<longleftrightarrow>
     starts_with f kTrashVaultDirectoryName \<or> starts_with f kTrashFilenamePrefix"

definition is_trash_item_filename :: "string \<Rightarrow> bool" where
  "is_trash_item_filename f \<longleftrightarrow> starts_with f kTrashItemFilenamePrefix"

definition is_transfer_filename :: "string \<Rightarrow> bool" where
  "is_transfer_filename f \<longleftrightarrow>
     starts_with f kTransferSourceFilenamePrefix \<or>
     starts_with f kTransferDestinationFilenamePrefix \<or>
     starts_with f kTransferOverwriteBackupFilenamePrefix \<or>
     f = kTransferOwnershipMarkerFilename"

definition is_internal_filename :: "string \<Rightarrow> bool" where
  "is_internal_filename f \<longleftrightarrow> is_trash_filename f \<or> is_transfer_filename f"

section \<open>Portable file names\<close>

definition ascii_upper :: "string \<Rightarrow> string" where
  "ascii_upper value =
     map (\<lambda>c. if 97 \<le> (of_char c :: nat) \<and> (of_char c :: nat) \<le> 122
              then char_of (of_char c - 97 + 65 :: nat) else c) value"

definition reserved_windows_stem :: "string \<Rightarrow> bool" where
  "reserved_windows_stem name =
     (let dot = find_from CHR ''.'' 0 name;
          stem = ascii_upper (case dot of None \<Rightarrow> name | Some i \<Rightarrow> take i name)
      in if stem \<in> {''CON'', ''PRN'', ''AUX'', ''NUL'', ''CONIN$'', ''CONOUT$'', ''CLOCK$''} then True
         else if length stem = 4 \<and> (starts_with stem ''COM'' \<or> starts_with stem ''LPT'') \<and>
                 49 \<le> (of_char (stem ! 3) :: nat) \<and> (of_char (stem ! 3) :: nat) \<le> 57 then True
         else length stem = 5 \<and> (starts_with stem ''COM'' \<or> starts_with stem ''LPT'') \<and>
              drop 3 stem \<in> {[CHR 0xC2, CHR 0xB9], [CHR 0xC2, CHR 0xB2], [CHR 0xC2, CHR 0xB3]})"

definition forbidden_filename_char :: "char \<Rightarrow> bool" where
  "forbidden_filename_char c \<longleftrightarrow>
     (of_char c :: nat) < 0x20 \<or> c \<in> {CHR ''<'', CHR ''>'', CHR '':'', CHR 0x22, CHR ''/'',
                               CHR 0x5C, CHR ''|'', CHR ''?'', CHR ''*''}"

definition valid_portable_filename :: "path \<Rightarrow> string + unit" where
  "valid_portable_filename p =
     (let f = filename p in
      if f = [] \<or> f = ''.'' \<or> f = ''..'' then Inl ''destination filename is empty or reserved''
      else if last f = CHR ''.'' \<or> last f = CHR '' '' then
        Inl ''destination filename cannot end with a dot or space''
      else if list_ex forbidden_filename_char f then
        Inl ''destination filename contains a forbidden character''
      else if reserved_windows_stem f then Inl ''destination filename is reserved by Windows''
      else Inr ())"

definition valid_destination_filename :: "path \<Rightarrow> string + unit" where
  "valid_destination_filename p =
     (if p = [] \<or> \<not> path_eq p (filename p) then Inl ''destination filename must not contain a path''
      else if \<not> valid_utf8 p then Inl ''destination filename must contain valid UTF-8''
      else if 255 < length p then Inl ''destination filename is too long''
      else valid_portable_filename p)"

definition same_extension :: "path \<Rightarrow> path \<Rightarrow> bool" where
  "same_extension source destination \<longleftrightarrow> extension source = extension destination"

definition same_path_spelling :: "path \<Rightarrow> path \<Rightarrow> bool" where
  "same_path_spelling source destination \<longleftrightarrow>
     lexically_normal source = lexically_normal destination"

section \<open>Stable identities\<close>

definition colon_count :: "string \<Rightarrow> nat" where
  "colon_count s = count_list s CHR '':''"

definition drop_last_field :: "string \<Rightarrow> string" where
  "drop_last_field revision =
     (case find_last_of CHR '':'' revision of
        None \<Rightarrow> [] | Some pos \<Rightarrow> if pos = 0 then [] else take pos revision)"

definition stable_object_identity :: "string \<Rightarrow> string" where
  "stable_object_identity revision =
     (if starts_with revision ''win-file128:'' then
        (case find_from CHR '':'' (length ''win-file128:'') revision of
           None \<Rightarrow> []
         | Some volume_end \<Rightarrow>
             (case find_from CHR '':'' (volume_end + 1) revision of
                None \<Rightarrow> revision
              | Some id_end \<Rightarrow> if id_end = volume_end + 1 then [] else take id_end revision))
      else if starts_with revision ''posix2:'' then
        (if colon_count revision = 3 then revision
         else if colon_count revision \<noteq> 4 then []
         else drop_last_field revision)
      else if starts_with revision ''win-file:'' \<or> starts_with revision ''win-smb64:'' \<or>
              starts_with revision ''posix:'' then
        (if colon_count revision = 2 then revision
         else if colon_count revision \<noteq> 3 then []
         else drop_last_field revision)
      else [])"

definition revision_change :: "string \<Rightarrow> string" where
  "revision_change revision =
     (case find_last_of CHR '':'' revision of
        None \<Rightarrow> []
      | Some pos \<Rightarrow> if pos + 1 = length revision then [] else drop (pos + 1) revision)"

fun legacy_id_loop :: "nat \<Rightarrow> nat \<Rightarrow> string \<Rightarrow> u64 \<Rightarrow> u64 option" where
  "legacy_id_loop 0 index id_text legacy_id = Some legacy_id"
| "legacy_id_loop (Suc n) index id_text legacy_id =
     (case stoull 16 (substr (index * 2) 2 id_text) of
        None \<Rightarrow> None
      | Some b \<Rightarrow>
          legacy_id_loop n (Suc index) id_text (legacy_id OR push_bit (index * 8) b))"

definition legacy_object_identity :: "string \<Rightarrow> string" where
  "legacy_object_identity revision =
     (if starts_with revision ''posix:'' then stable_object_identity revision
      else if starts_with revision ''win-file:'' then stable_object_identity revision
      else if starts_with revision ''win-smb64:'' then
        (let stable = stable_object_identity revision
         in if stable = [] then [] else ''win-file:'' @ drop 10 stable)
      else if \<not> starts_with revision ''win-file128:'' then []
      else
        (case find_from CHR '':'' (length ''win-file128:'') revision of
           None \<Rightarrow> []
         | Some volume_end \<Rightarrow>
             (case find_from CHR '':'' (volume_end + 1) revision of
                None \<Rightarrow> []
              | Some id_end \<Rightarrow>
                  (let prefix_size = length ''win-file128:'';
                       volume_text = substr prefix_size (volume_end - prefix_size) revision;
                       id_text = substr (volume_end + 1) (id_end - (volume_end + 1)) revision
                   in if volume_text = [] \<or> length id_text \<noteq> 32 then []
                      else case stoull 10 volume_text of
                             None \<Rightarrow> []
                           | Some volume \<Rightarrow>
                               (case legacy_id_loop 8 0 id_text 0 of
                                  None \<Rightarrow> []
                                | Some legacy_id \<Rightarrow>
                                    if legacy_id = 0 then []
                                    else ''win-file:'' @ decimal (unat (volume AND 0xFFFFFFFF)) @
                                         '':'' @ decimal (unat legacy_id))))))"

definition legacy_posix_object_identity :: "string \<Rightarrow> string" where
  "legacy_posix_object_identity revision =
     (let stable = stable_object_identity revision in
      if stable = [] then []
      else if starts_with revision ''posix:'' then stable
      else if \<not> starts_with revision ''posix2:'' then []
      else case find_last_of CHR '':'' stable of
             None \<Rightarrow> []
           | Some birth_time_separator \<Rightarrow>
               ''posix:'' @ substr (length ''posix2:'')
                              (birth_time_separator - length ''posix2:'') stable)"

definition legacy_posix_identity_bridge :: "string \<Rightarrow> string \<Rightarrow> bool" where
  "legacy_posix_identity_bridge left right =
     (if \<not> (starts_with left ''posix:'' \<and> starts_with right ''posix2:'' \<or>
              starts_with left ''posix2:'' \<and> starts_with right ''posix:'') then False
      else
        let legacy_left = legacy_posix_object_identity left;
            legacy_right = legacy_posix_object_identity right in
        if legacy_left = [] \<or> legacy_left \<noteq> legacy_right then False
        else
          let legacy = (if starts_with left ''posix:'' then left else right);
              strong = (if starts_with left ''posix2:'' then left else right) in
          if colon_count legacy \<noteq> 3 \<or> colon_count strong \<noteq> 4 then False
          else
            case (find_last_of CHR '':'' legacy, find_last_of CHR '':'' strong) of
              (Some legacy_change_separator, Some strong_change_separator) \<Rightarrow>
                (case find_last_of CHR '':'' (take strong_change_separator strong) of
                   None \<Rightarrow> False
                 | Some strong_birth_separator \<Rightarrow>
                     (case (from_chars_i64 (drop (legacy_change_separator + 1) legacy),
                            from_chars_i64 (substr (strong_birth_separator + 1)
                              (strong_change_separator - strong_birth_separator - 1) strong)) of
                        (Some legacy_change, Some strong_birth) \<Rightarrow>
                          0 \<le> sint strong_birth \<and> sint strong_birth \<le> sint legacy_change
                      | _ \<Rightarrow> False))
            | _ \<Rightarrow> False)"

definition i64_magnitude :: "i64 \<Rightarrow> u64" where
  "i64_magnitude value = (if sint value < 0 then - (value + 1) + 1 else value)"

definition timestamps_within_tolerance :: "i64 \<Rightarrow> i64 \<Rightarrow> u64 \<Rightarrow> bool" where
  "timestamps_within_tolerance older newer tolerance =
     (if older = newer then True
      else let distance =
        (if (sint older < 0) = (sint newer < 0) then
           (if sint newer \<le> sint older then older - newer else newer - older)
         else if i64_magnitude older > - 1 - i64_magnitude newer then - 1
         else i64_magnitude older + i64_magnitude newer)
      in distance \<le> tolerance)"

definition same_object_identity :: "string \<Rightarrow> string \<Rightarrow> bool" where
  "same_object_identity left right =
     (let stable_left = stable_object_identity left;
          stable_right = stable_object_identity right in
      if stable_left = [] \<or> stable_right = [] then False
      else if starts_with left ''posix2:'' \<or> starts_with right ''posix2:'' then
        stable_left = stable_right
      else if (starts_with left ''win-file128:'' \<or> starts_with left ''win-smb64:'') \<and>
              (starts_with right ''win-file128:'' \<or> starts_with right ''win-smb64:'') then
        stable_left = stable_right
      else if stable_left = stable_right then True
      else legacy_object_identity left \<noteq> [] \<and> legacy_object_identity right \<noteq> [] \<and>
           legacy_object_identity left = legacy_object_identity right)"

definition same_source_revision :: "string \<Rightarrow> string \<Rightarrow> bool" where
  "same_source_revision left right \<longleftrightarrow>
     revision_change left \<noteq> [] \<and> revision_change left = revision_change right \<and>
     same_object_identity left right"

definition posix_revision :: "string \<Rightarrow> bool" where
  "posix_revision r \<longleftrightarrow> starts_with r ''posix:'' \<or> starts_with r ''posix2:''"

definition same_object_after_rename :: "SourceSnapshot \<Rightarrow> SourceSnapshot \<Rightarrow> bool" where
  "same_object_after_rename older newer =
     (let exact_identity =
            same_object_identity (source_revision_utf8 older) (source_revision_utf8 newer);
          legacy_posix_bridge =
            legacy_posix_identity_bridge (source_revision_utf8 older) (source_revision_utf8 newer)
      in if size_bytes older \<noteq> size_bytes newer \<or> (\<not> exact_identity \<and> \<not> legacy_posix_bridge) \<or>
            (legacy_posix_bridge \<and> modified_unix_ns older \<noteq> modified_unix_ns newer) then False
         else if \<not> posix_revision (source_revision_utf8 older) \<or>
                 \<not> posix_revision (source_revision_utf8 newer) then
           modified_unix_ns older = modified_unix_ns newer
         else timestamps_within_tolerance (modified_unix_ns older) (modified_unix_ns newer)
                2000000000)"

definition same_content_after_rename :: "SourceSnapshot \<Rightarrow> SourceSnapshot \<Rightarrow> bool" where
  "same_content_after_rename older newer \<longleftrightarrow>
     size_bytes older = size_bytes newer \<and> modified_unix_ns older = modified_unix_ns newer \<and>
     same_object_after_rename older newer"

definition same_private_trash_payload_after_remount ::
  "SourceSnapshot \<Rightarrow> SourceSnapshot \<Rightarrow> string \<Rightarrow> string \<Rightarrow> bool"
where
  "same_private_trash_payload_after_remount older newer expected observed \<longleftrightarrow>
     expected \<noteq> [] \<and> starts_with expected ''linux-smb:'' \<and> expected = observed \<and>
     size_bytes older = size_bytes newer \<and>
     posix_revision (source_revision_utf8 older) \<and> posix_revision (source_revision_utf8 newer) \<and>
     timestamps_within_tolerance (modified_unix_ns older) (modified_unix_ns newer) 2000000000"

section \<open>File names that pass\<close>

lemma starts_with_refl [simp]: "starts_with s s"
  by (simp add: starts_with_def)

lemma valid_portable_filename_Inr:
  "valid_portable_filename p = Inr u \<longleftrightarrow>
     filename p \<noteq> [] \<and> filename p \<noteq> ''.'' \<and> filename p \<noteq> ''..'' \<and>
     last (filename p) \<noteq> CHR ''.'' \<and> last (filename p) \<noteq> CHR '' '' \<and>
     (\<forall>c\<in>set (filename p). \<not> forbidden_filename_char c) \<and> \<not> reserved_windows_stem (filename p)"
  by (auto simp: valid_portable_filename_def Let_def list_ex_iff)

lemma valid_destination_filename_Inr:
  "valid_destination_filename p = Inr u \<longleftrightarrow>
     plain_name p \<and> valid_utf8 p \<and> length p \<le> 255 \<and> valid_portable_filename p = Inr u"
proof (cases "p = []")
  case True
  then show ?thesis by (simp add: valid_destination_filename_def plain_name_def)
next
  case False
  then show ?thesis
    by (auto simp: valid_destination_filename_def path_eq_filename_iff not_less)
qed

section \<open>Timestamps\<close>

lemma uint_i64: "uint (a :: i64) = sint a mod 2 ^ 64"
  by (simp add: uint_sint take_bit_eq_mod)

lemma uint_minus_i64: "uint (a - b :: i64) = (sint a - sint b) mod 2 ^ 64"
  using uint_word_ariths(2) [of a b] by (simp add: uint_i64 mod_diff_eq)

lemma uint_minus_small:
  fixes a b :: i64
  assumes "sint b \<le> sint a" "sint a - sint b < 2 ^ 63"
  shows "uint (a - b) = sint a - sint b"
  using assms by (simp add: uint_minus_i64)

lemma sint_i64_range: "- (2 ^ 63) \<le> sint (x :: i64) \<and> sint x < 2 ^ 63"
  using sint_greater_eq [of x] sint_less [of x] by simp

lemma uint_i64_magnitude: "uint (i64_magnitude x) = \<bar>sint x\<bar>"
proof (cases "sint x < 0")
  case True
  have "uint (- x) = (- sint x) mod 2 ^ 64"
    using uint_minus_i64 [of 0 x] by simp
  with True sint_i64_range [of x] show ?thesis by (simp add: i64_magnitude_def)
next
  case False
  with sint_i64_range [of x] show ?thesis by (simp add: i64_magnitude_def uint_i64)
qed

lemma timestamps_same_sign:
  fixes a b :: i64
  assumes "(sint a < 0) = (sint b < 0)"
  shows "uint (if sint b \<le> sint a then a - b else b - a) = \<bar>sint a - sint b\<bar>"
  using assms sint_i64_range [of a] sint_i64_range [of b]
  by (auto simp: uint_minus_small)

lemma complement_mod:
  "0 \<le> m \<Longrightarrow> m < 2 ^ 64 \<Longrightarrow> (2 ^ 64 - 1 - m) mod 2 ^ 64 = (2 ^ 64 - 1 - m :: int)"
  by simp

lemma timestamps_mixed_sign:
  assumes "(sint a < 0) \<noteq> (sint b < 0)"
  shows "\<not> i64_magnitude a > - 1 - i64_magnitude b \<and>
         uint (i64_magnitude a + i64_magnitude b) = \<bar>sint a - sint b\<bar>"
proof
  have total: "uint (i64_magnitude a) + uint (i64_magnitude b) < 2 ^ 64"
    using assms sint_i64_range [of a] sint_i64_range [of b] by (auto simp: uint_i64_magnitude)
  have "uint (- 1 - i64_magnitude b) = (uint (- 1 :: u64) - uint (i64_magnitude b)) mod 2 ^ 64"
    using uint_word_ariths(2) [of "- 1" "i64_magnitude b"] by simp
  moreover have "uint (- 1 :: u64) = 2 ^ 64 - 1"
    by (simp add: unsigned_minus_1_eq_mask mask_eq_exp_minus_1)
  moreover have "uint (i64_magnitude b) < 2 ^ 64"
    using total uint_ge_0 [of "i64_magnitude a"] by linarith
  ultimately have "uint (- 1 - i64_magnitude b) = 2 ^ 64 - 1 - uint (i64_magnitude b)"
    by (simp only: complement_mod uint_ge_0)
  with total show "\<not> i64_magnitude a > - 1 - i64_magnitude b"
    by (simp add: word_less_def)
  from total have "uint (i64_magnitude a + i64_magnitude b) = \<bar>sint a\<bar> + \<bar>sint b\<bar>"
    by (simp add: uint_word_ariths uint_i64_magnitude)
  with assms show "uint (i64_magnitude a + i64_magnitude b) = \<bar>sint a - sint b\<bar>" by auto
qed

text \<open>Two signed 64-bit timestamps pass the tolerance test exactly when their mathematical distance
  is within the tolerance: the unsigned computation, which treats equal and opposite signs
  differently, never wraps around.\<close>

lemma timestamps_within_tolerance_iff:
  "timestamps_within_tolerance older newer tolerance \<longleftrightarrow>
     \<bar>sint older - sint newer\<bar> \<le> uint tolerance"
proof (cases "(sint older < 0) = (sint newer < 0)")
  case True
  from timestamps_same_sign [OF True] show ?thesis
    using True by (auto simp: timestamps_within_tolerance_def Let_def word_le_def)
next
  case False
  from timestamps_mixed_sign [OF False] show ?thesis
    using False by (auto simp: timestamps_within_tolerance_def Let_def word_le_def)
qed

end
