(* ===== verification/Durable_Journal.thy ===== *)
theory Durable_Journal
  imports File_Identity
begin

text \<open>
  The crash-safe record store of \<open>src/Source/src/fileops/durable_journal.cpp\<close> (POSIX branch): the
  checksummed envelope, the two generations of the file, and \<open>write\<close>, \<open>read\<close> and \<open>remove\<close> as
  sequences of file-system calls. The file system is explicit: what a reader sees (\<open>live\<close>), what
  survives a power cut (\<open>durable\<close>), and a script that says how each call of the run ends, so
  every theorem about an arbitrary script covers every failure and every crash point.
\<close>

section \<open>Checksum and envelope\<close>

definition read_u32_le :: "byte list \<Rightarrow> nat \<Rightarrow> u32" where
  "read_u32_le bytes offset =
     ucast (bytes ! offset) OR push_bit 8 (ucast (bytes ! (offset + 1))) OR
     push_bit 16 (ucast (bytes ! (offset + 2))) OR push_bit 24 (ucast (bytes ! (offset + 3)))"

definition write_u32_le :: "u32 \<Rightarrow> byte list" where
  "write_u32_le value =
     [ucast value, ucast (drop_bit 8 value), ucast (drop_bit 16 value), ucast (drop_bit 24 value)]"

definition crc32_bit :: "u32 \<Rightarrow> u32" where
  "crc32_bit crc = drop_bit 1 crc XOR (0xEDB88320 AND (- (crc AND 1)))"

definition crc32_byte :: "u32 \<Rightarrow> byte \<Rightarrow> u32" where
  "crc32_byte crc value = (crc32_bit ^^ 8) (crc XOR ucast value)"

definition crc32 :: "byte list \<Rightarrow> u32" where
  "crc32 bytes = NOT (foldl crc32_byte 0xFFFFFFFF bytes)"

definition kEnvelopeMagic :: "byte list" where
  "kEnvelopeMagic = [0x56, 0x4F, 0x56, 0x45, 0x4A, 0x52, 0x4E, 0x4C]"

definition kEnvelopeHeaderBytes :: nat where
  "kEnvelopeHeaderBytes = 20"

definition kDurableJournalSchemaVersion :: u32 where
  "kDurableJournalSchemaVersion = 1"

definition kMaximumDurableJournalPayloadBytes :: nat where
  "kMaximumDurableJournalPayloadBytes = 4 * 1024 * 1024"

definition kAbsoluteMaximumDurableJournalPayloadBytes :: nat where
  "kAbsoluteMaximumDurableJournalPayloadBytes = 64 * 1024 * 1024"

definition maximum_envelope_bytes :: "nat \<Rightarrow> nat" where
  "maximum_envelope_bytes maximum_payload_bytes = kEnvelopeHeaderBytes + maximum_payload_bytes"

definition make_envelope :: "byte list \<Rightarrow> byte list" where
  "make_envelope payload =
     kEnvelopeMagic @ write_u32_le kDurableJournalSchemaVersion @
     write_u32_le (word_of_nat (length payload)) @ write_u32_le (crc32 payload) @ payload"

text \<open>The verdict on the content of a journal file, once it has been read.\<close>

definition open_envelope :: "nat \<Rightarrow> byte list \<Rightarrow> byte list option" where
  "open_envelope maximum_payload_bytes bytes =
     (if length bytes < kEnvelopeHeaderBytes \<or> take 8 bytes \<noteq> kEnvelopeMagic then None
      else if read_u32_le bytes 8 \<noteq> kDurableJournalSchemaVersion then None
      else let payload_size = unat (read_u32_le bytes 12) in
           if maximum_payload_bytes < payload_size \<or>
              length bytes \<noteq> kEnvelopeHeaderBytes + payload_size then None
           else let payload = drop kEnvelopeHeaderBytes bytes in
                if crc32 payload \<noteq> read_u32_le bytes 16 then None else Some payload)"

subsection \<open>The checksum is injective in every single byte\<close>

lemma u32_of_bytes:
  "ucast (ucast v :: byte) OR push_bit 8 (ucast (ucast (drop_bit 8 v) :: byte)) OR
   push_bit 16 (ucast (ucast (drop_bit 16 v) :: byte)) OR
   push_bit 24 (ucast (ucast (drop_bit 24 v) :: byte)) = (v :: u32)" (is "?w = v")
proof (rule bit_word_eqI)
  fix i assume "i < LENGTH(32)"
  then consider "i < 8" | "8 \<le> i" "i < 16" | "16 \<le> i" "i < 24" | "24 \<le> i" "i < 32"
    by fastforce
  then show "bit ?w i = bit v i"
    by cases (auto simp: bit_or_iff bit_push_bit_iff bit_ucast_iff bit_drop_bit_eq)
qed

lemma read_write_u32:
  "offset = length pre \<Longrightarrow> read_u32_le (pre @ write_u32_le v @ post) offset = v"
  by (simp add: read_u32_le_def write_u32_le_def nth_append u32_of_bytes)

lemma length_write_u32 [simp]: "length (write_u32_le v) = 4"
  by (simp add: write_u32_le_def)

lemma bit_crc32_bit:
  "bit (crc32_bit c) i \<longleftrightarrow> (bit c (Suc i) \<noteq> (bit (0xEDB88320 :: u32) i \<and> bit c 0))"
proof -
  have "- (c AND 1) = (if bit c 0 then - 1 else 0)"
    by (simp add: and_one_eq odd_iff_mod_2_eq_one bit_0)
  then show ?thesis
    by (auto simp: crc32_bit_def bit_xor_iff bit_and_iff bit_drop_bit_eq bit_minus_1_iff
        dest: bit_imp_le_length)
qed

lemma crc32_bit_inj: "inj crc32_bit"
proof (rule injI)
  fix a b :: u32 assume eq: "crc32_bit a = crc32_bit b"
  have "bit (crc32_bit c) 31 = bit c 0" for c :: u32
    by (auto simp: bit_crc32_bit dest: bit_imp_le_length)
  with eq have low: "bit a 0 = bit b 0" by metis
  show "a = b"
  proof (rule bit_word_eqI)
    fix i assume "i < LENGTH(32)"
    show "bit a i = bit b i"
    proof (cases i)
      case 0
      with low show ?thesis by simp
    next
      case (Suc k)
      have "bit (crc32_bit a) k = bit (crc32_bit b) k" using eq by simp
      with low Suc show ?thesis by (auto simp: bit_crc32_bit)
    qed
  qed
qed

lemma xor_cancel_right: "a XOR c = b XOR c \<Longrightarrow> a = (b :: 'a::len word)"
proof -
  assume "a XOR c = b XOR c"
  then have "(a XOR c) XOR c = (b XOR c) XOR c" by simp
  then show "a = b" by (simp add: xor.assoc)
qed

lemma xor_cancel_left: "c XOR a = c XOR b \<Longrightarrow> a = (b :: 'a::len word)"
  by (rule xor_cancel_right [of _ c]) (simp add: xor.commute)

lemma crc32_byte_xor: "crc32_byte a v = crc32_byte b w \<Longrightarrow> a XOR ucast v = b XOR ucast w"
  unfolding crc32_byte_def by (rule injD [OF inj_fn [OF crc32_bit_inj]])

lemma crc32_byte_inj_state: "crc32_byte a v = crc32_byte b v \<Longrightarrow> a = b"
  by (drule crc32_byte_xor) (rule xor_cancel_right)

lemma crc32_byte_inj_value:
  assumes "crc32_byte a v = crc32_byte a w"
  shows "v = w"
proof -
  from assms have "(ucast v :: u32) = ucast w"
    by (rule xor_cancel_left [OF crc32_byte_xor])
  then have "ucast (ucast v :: u32) = (ucast (ucast w :: u32) :: byte)" by simp
  then show ?thesis by (simp add: ucast_up_ucast_id is_up)
qed

lemma foldl_crc32_inj_state:
  "foldl crc32_byte a bs = foldl crc32_byte b bs \<Longrightarrow> a = b"
  by (induction bs arbitrary: a b) (auto dest: crc32_byte_inj_state)

lemma crc32_single_byte:
  assumes "i < length bs" "crc32 (bs[i := v]) = crc32 bs"
  shows "bs ! i = v"
proof -
  have "bs[i := v] = take i bs @ v # drop (Suc i) bs"
    using assms(1) by (rule upd_conv_take_nth_drop)
  moreover have "bs = take i bs @ bs ! i # drop (Suc i) bs"
    using assms(1) by (rule id_take_nth_drop)
  moreover define state where "state = foldl crc32_byte 0xFFFFFFFF (take i bs)"
  ultimately have "crc32 (bs[i := v]) = NOT (foldl crc32_byte (crc32_byte state v) (drop (Suc i) bs))"
    and "crc32 bs = NOT (foldl crc32_byte (crc32_byte state (bs ! i)) (drop (Suc i) bs))"
    unfolding crc32_def by (metis foldl_append foldl_Cons)+
  with assms(2) have "NOT (foldl crc32_byte (crc32_byte state v) (drop (Suc i) bs)) =
      NOT (foldl crc32_byte (crc32_byte state (bs ! i)) (drop (Suc i) bs))"
    by simp
  then have "foldl crc32_byte (crc32_byte state v) (drop (Suc i) bs) =
      foldl crc32_byte (crc32_byte state (bs ! i)) (drop (Suc i) bs)"
    by (simp only: bit.compl_eq_compl_iff)
  then have "crc32_byte state v = crc32_byte state (bs ! i)"
    by (rule foldl_crc32_inj_state)
  then show ?thesis by (metis crc32_byte_inj_value)
qed

subsection \<open>Envelopes open to their payload, damaged envelopes do not open\<close>

lemma length_make_envelope: "length (make_envelope payload) = kEnvelopeHeaderBytes + length payload"
  by (simp add: make_envelope_def kEnvelopeMagic_def kEnvelopeHeaderBytes_def)

lemma envelope_fields:
  "take 8 (make_envelope payload) = kEnvelopeMagic"
  "read_u32_le (make_envelope payload) 8 = kDurableJournalSchemaVersion"
  "read_u32_le (make_envelope payload) 12 = word_of_nat (length payload)"
  "read_u32_le (make_envelope payload) 16 = crc32 payload"
  "drop kEnvelopeHeaderBytes (make_envelope payload) = payload"
proof -
  let ?v = "write_u32_le kDurableJournalSchemaVersion"
  let ?n = "write_u32_le (word_of_nat (length payload))"
  let ?c = "write_u32_le (crc32 payload)"
  have len: "length kEnvelopeMagic = 8" by (simp add: kEnvelopeMagic_def)
  show "take 8 (make_envelope payload) = kEnvelopeMagic"
    by (simp add: make_envelope_def len)
  show "read_u32_le (make_envelope payload) 8 = kDurableJournalSchemaVersion"
    using read_write_u32 [of 8 kEnvelopeMagic _ "?n @ ?c @ payload"]
    by (simp add: make_envelope_def len)
  show "read_u32_le (make_envelope payload) 12 = word_of_nat (length payload)"
    using read_write_u32 [of 12 "kEnvelopeMagic @ ?v" _ "?c @ payload"]
    by (simp add: make_envelope_def len)
  show "read_u32_le (make_envelope payload) 16 = crc32 payload"
    using read_write_u32 [of 16 "kEnvelopeMagic @ ?v @ ?n" _ payload]
    by (simp add: make_envelope_def len)
  show "drop kEnvelopeHeaderBytes (make_envelope payload) = payload"
    by (simp add: make_envelope_def len kEnvelopeHeaderBytes_def)
qed

lemma open_make_envelope:
  assumes "length payload \<le> max_bytes" "length payload < 2 ^ 32"
  shows "open_envelope max_bytes (make_envelope payload) = Some payload"
proof -
  have "unat (word_of_nat (length payload) :: u32) = length payload"
    using assms(2) by (simp add: unat_of_nat take_bit_eq_mod)
  with assms(1) show ?thesis
    by (simp add: open_envelope_def envelope_fields length_make_envelope)
qed

lemma read_u32_update:
  assumes "i < length bs" "offset + 4 \<le> length bs" "\<not> (offset \<le> i \<and> i < offset + 4)"
  shows "read_u32_le (bs[i := v]) offset = read_u32_le bs offset"
  using assms by (auto simp: read_u32_le_def nth_list_update)

lemma bit_byte_ge: "8 \<le> n \<Longrightarrow> \<not> bit (b :: byte) n"
  by (auto dest: bit_imp_le_length)

lemma write_read_u32:
  "write_u32_le (read_u32_le bs offset) =
     [bs ! offset, bs ! (offset + 1), bs ! (offset + 2), bs ! (offset + 3)]"
proof -
  have "ucast (drop_bit 0 (read_u32_le bs offset)) = bs ! offset"
    "ucast (drop_bit 8 (read_u32_le bs offset)) = bs ! (offset + 1)"
    "ucast (drop_bit 16 (read_u32_le bs offset)) = bs ! (offset + 2)"
    "ucast (drop_bit 24 (read_u32_le bs offset)) = bs ! (offset + 3)"
    by (rule bit_word_eqI, simp add: read_u32_le_def bit_or_iff bit_push_bit_iff bit_ucast_iff
        bit_drop_bit_eq bit_byte_ge)+
  then show ?thesis by (simp add: write_u32_le_def)
qed

lemma read_u32_update_inj:
  assumes "read_u32_le (bs[i := v]) offset = read_u32_le bs offset"
    and "offset \<le> i" "i < offset + 4" "offset + 4 \<le> length bs"
  shows "v = bs ! i"
proof -
  have "\<forall>k < 4. (bs[i := v]) ! (offset + k) = bs ! (offset + k)"
    using arg_cong [OF assms(1), of write_u32_le]
    by (auto simp: write_read_u32 numeral_eq_Suc less_Suc_eq)
  then have "(bs[i := v]) ! (offset + (i - offset)) = bs ! (offset + (i - offset))"
    using assms(2,3) by (metis add_less_cancel_left le_add_diff_inverse)
  with assms show ?thesis by simp
qed

lemma drop_u32:
  assumes "n + 4 \<le> length bs"
  shows "drop n bs = write_u32_le (read_u32_le bs n) @ drop (n + 4) bs"
proof -
  have "take 4 (drop n bs) = [bs ! n, bs ! (n + 1), bs ! (n + 2), bs ! (n + 3)]"
    using assms by (simp add: list_eq_iff_nth_eq numeral_eq_Suc less_Suc_eq nth_Cons' all_conj_distrib)
  then show ?thesis
    using append_take_drop_id [of 4 "drop n bs"] by (simp add: write_read_u32 add.commute)
qed

section \<open>The file system under the store\<close>

text \<open>
  A directory entry is a regular file or a directory (the staging directory of a guarded removal).
  \<open>live\<close> is what calls see; \<open>durable\<close> is what a power cut leaves of the directory, brought up to
  date by \<open>fsync\<close> on it. Each call consumes one event of the script; an exhausted script lets every
  call succeed. After a crash no call has an effect any more. \<open>error_code\<close> is \<open>std::error_code\<close>:
  \<^const>\<open>None\<close> for no error, otherwise the \<open>errno\<close> value.
\<close>

type_synonym errno = nat
type_synonym error_code = "errno option"

datatype node = Regular "byte list" | Directory

datatype event =
    Proceed
  | Refuse errno nat \<comment> \<open>the call fails; a write has by then created the file and stored a prefix\<close>
  | Cut_short \<comment> \<open>a read or write transfers no byte: short read, or write returning zero\<close>
  | Crash bool nat \<comment> \<open>the machine stops; whether unsynchronised entries reached the disk\<close>

record file_system =
  live :: "path \<rightharpoonup> node"
  durable :: "path \<rightharpoonup> node"
  script :: "event list"
  crashed :: bool

definition ENOENT :: errno where "ENOENT = 2"
definition EIO :: errno where "EIO = 5"
definition EBUSY :: errno where "EBUSY = 16"
definition EEXIST :: errno where "EEXIST = 17"
definition EISDIR :: errno where "EISDIR = 21"
definition ENOTEMPTY :: errno where "ENOTEMPTY = 39"

definition next_event :: "file_system \<Rightarrow> event \<times> file_system" where
  "next_event fs =
     (if crashed fs then (Refuse EIO 0, fs)
      else case script fs of [] \<Rightarrow> (Proceed, fs) | e # es \<Rightarrow> (e, fs\<lparr>script := es\<rparr>))"

definition stop_machine :: "bool \<Rightarrow> file_system \<Rightarrow> file_system" where
  "stop_machine kept fs =
     fs\<lparr>live := (if kept then live fs else durable fs),
        durable := (if kept then live fs else durable fs), crashed := True\<rparr>"

text \<open>The next process: same disk, a script of its own.\<close>

definition restart :: "event list \<Rightarrow> file_system \<Rightarrow> file_system" where
  "restart events fs = fs\<lparr>script := events, crashed := False\<rparr>"

subsection \<open>The calls\<close>

datatype FileReadResult =
    Read_success "byte list" | Read_missing | Read_too_large | Read_short_read | Read_io_error errno

definition read_file_bytes :: "path \<Rightarrow> nat \<Rightarrow> file_system \<Rightarrow> FileReadResult \<times> file_system" where
  "read_file_bytes p maximum_bytes fs =
     (case next_event fs of
        (Proceed, fs) \<Rightarrow>
          ((case live fs p of
              None \<Rightarrow> Read_missing
            | Some Directory \<Rightarrow> Read_too_large
            | Some (Regular bytes) \<Rightarrow>
                if maximum_bytes < length bytes then Read_too_large else Read_success bytes), fs)
      | (Refuse e _, fs) \<Rightarrow> (Read_io_error e, fs)
      | (Cut_short, fs) \<Rightarrow> (Read_short_read, fs)
      | (Crash kept _, fs) \<Rightarrow> (Read_io_error EIO, stop_machine kept fs))"

definition partial_file :: "path \<Rightarrow> byte list \<Rightarrow> nat \<Rightarrow> file_system \<Rightarrow> file_system" where
  "partial_file p bytes n fs =
     (if n = 0 \<or> live fs p \<noteq> None then fs
      else fs\<lparr>live := (live fs)(p \<mapsto> Regular (take (n - 1) bytes))\<rparr>)"

definition write_file_durably :: "path \<Rightarrow> byte list \<Rightarrow> file_system \<Rightarrow> error_code \<times> file_system" where
  "write_file_durably p bytes fs =
     (case next_event fs of
        (Proceed, fs) \<Rightarrow>
          if live fs p \<noteq> None then (Some EEXIST, fs)
          else (None, fs\<lparr>live := (live fs)(p \<mapsto> Regular bytes)\<rparr>)
      | (Refuse e n, fs) \<Rightarrow> (Some e, partial_file p bytes n fs)
      | (Cut_short, fs) \<Rightarrow> (Some EIO, partial_file p bytes (length bytes) fs)
      | (Crash kept n, fs) \<Rightarrow> (Some EIO, stop_machine kept (partial_file p bytes n fs)))"

definition replace_path_durably :: "path \<Rightarrow> path \<Rightarrow> file_system \<Rightarrow> error_code \<times> file_system" where
  "replace_path_durably source destination fs =
     (case next_event fs of
        (Proceed, fs) \<Rightarrow>
          (case live fs source of
             None \<Rightarrow> (Some ENOENT, fs)
           | Some node \<Rightarrow> (None, fs\<lparr>live := (live fs)(source := None, destination \<mapsto> node)\<rparr>))
      | (Refuse e _, fs) \<Rightarrow> (Some e, fs)
      | (Cut_short, fs) \<Rightarrow> (Some EIO, fs)
      | (Crash kept _, fs) \<Rightarrow> (Some EIO, stop_machine kept fs))"

definition sync_parent_directory :: "path \<Rightarrow> file_system \<Rightarrow> error_code \<times> file_system" where
  "sync_parent_directory p fs =
     (case next_event fs of
        (Proceed, fs) \<Rightarrow> (None, fs\<lparr>durable := live fs\<rparr>)
      | (Refuse e _, fs) \<Rightarrow> (Some e, fs)
      | (Cut_short, fs) \<Rightarrow> (Some EIO, fs)
      | (Crash kept _, fs) \<Rightarrow> (Some EIO, stop_machine kept fs))"

record RemovePathResult =
  removed :: bool
  remove_error :: error_code

definition remove_path :: "path \<Rightarrow> file_system \<Rightarrow> RemovePathResult \<times> file_system" where
  "remove_path p fs =
     (case next_event fs of
        (Proceed, fs) \<Rightarrow>
          (case live fs p of
             None \<Rightarrow> (\<lparr>removed = False, remove_error = None\<rparr>, fs)
           | Some Directory \<Rightarrow> (\<lparr>removed = False, remove_error = Some EISDIR\<rparr>, fs)
           | Some (Regular _) \<Rightarrow>
               (\<lparr>removed = True, remove_error = None\<rparr>, fs\<lparr>live := (live fs)(p := None)\<rparr>))
      | (Refuse e _, fs) \<Rightarrow>
          (\<lparr>removed = False, remove_error = (if e = ENOENT then None else Some e)\<rparr>, fs)
      | (Cut_short, fs) \<Rightarrow> (\<lparr>removed = False, remove_error = Some EIO\<rparr>, fs)
      | (Crash kept _, fs) \<Rightarrow>
          (\<lparr>removed = False, remove_error = Some EIO\<rparr>, stop_machine kept fs))"

definition removal_staging_path :: "path \<Rightarrow> path" where
  "removal_staging_path p = p @ ''.vove-removing''"

definition removal_claim_path :: "path \<Rightarrow> path" where
  "removal_claim_path p = path_append (removal_staging_path p) ''candidate''"

definition remove_empty_removal_staging ::
  "path \<Rightarrow> file_system \<Rightarrow> RemovePathResult \<times> file_system"
where
  "remove_empty_removal_staging p fs =
     (let staging = removal_staging_path p in
      case next_event fs of
        (Proceed, fs) \<Rightarrow>
          (case live fs staging of
             None \<Rightarrow> (\<lparr>removed = False, remove_error = None\<rparr>, fs)
           | Some (Regular _) \<Rightarrow> (\<lparr>removed = False, remove_error = Some EIO\<rparr>, fs)
           | Some Directory \<Rightarrow>
               if live fs (removal_claim_path p) \<noteq> None then
                 (\<lparr>removed = False, remove_error = Some ENOTEMPTY\<rparr>, fs)
               else (\<lparr>removed = True, remove_error = None\<rparr>,
                     fs\<lparr>live := (live fs)(staging := None)\<rparr>))
      | (Refuse e _, fs) \<Rightarrow>
          (\<lparr>removed = False, remove_error = (if e = ENOENT then None else Some e)\<rparr>, fs)
      | (Cut_short, fs) \<Rightarrow> (\<lparr>removed = False, remove_error = Some EIO\<rparr>, fs)
      | (Crash kept _, fs) \<Rightarrow>
          (\<lparr>removed = False, remove_error = Some EIO\<rparr>, stop_machine kept fs))"

section \<open>The store\<close>

datatype DurableJournalStatus =
  Journal_success | Journal_not_found | Journal_corrupt | Journal_payload_mismatch
  | Journal_payload_too_large | Journal_io_error

datatype DurableJournalReadSource = From_none | From_primary | From_previous

record DurableJournalResult =
  journal_status :: DurableJournalStatus
  journal_error :: error_code

record DurableJournalReadResult = DurableJournalResult +
  journal_source :: DurableJournalReadSource
  journal_payload :: "byte list"

record DurableJournalStore =
  primary_path :: path
  previous_path :: path
  temporary_path :: path
  maximum_payload_bytes :: nat

text \<open>The constructor; \<^const>\<open>None\<close> is \<open>std::invalid_argument\<close>.\<close>

definition DurableJournalStore_new :: "path \<Rightarrow> nat \<Rightarrow> DurableJournalStore option" where
  "DurableJournalStore_new p limit =
     (if kAbsoluteMaximumDurableJournalPayloadBytes < limit then None
      else Some \<lparr>primary_path = p, previous_path = p @ ''.previous'',
                 temporary_path = p @ ''.temporary'', maximum_payload_bytes = limit\<rparr>)"

datatype InspectionResult =
  Valid "byte list" | Missing | Corrupt | Inspection_io_error errno

definition inspect :: "path \<Rightarrow> nat \<Rightarrow> file_system \<Rightarrow> InspectionResult \<times> file_system" where
  "inspect p limit fs =
     (case read_file_bytes p (maximum_envelope_bytes limit) fs of
        (Read_missing, fs) \<Rightarrow> (Missing, fs)
      | (Read_too_large, fs) \<Rightarrow> (Corrupt, fs)
      | (Read_short_read, fs) \<Rightarrow> (Corrupt, fs)
      | (Read_io_error e, fs) \<Rightarrow> (Inspection_io_error e, fs)
      | (Read_success bytes, fs) \<Rightarrow>
          (case open_envelope limit bytes of None \<Rightarrow> (Corrupt, fs) | Some payload \<Rightarrow> (Valid payload, fs)))"

definition io_failure :: "error_code \<Rightarrow> DurableJournalResult" where
  "io_failure e = \<lparr>journal_status = Journal_io_error, journal_error = e\<rparr>"

definition journal_ok :: "DurableJournalResult" where
  "journal_ok = \<lparr>journal_status = Journal_success, journal_error = None\<rparr>"

definition discard_temporary :: "path \<Rightarrow> file_system \<Rightarrow> file_system" where
  "discard_temporary p fs = snd (remove_path p fs)"

text \<open>The loop over the claims of the two generations: the first that is not missing refuses
  the write.\<close>

fun refuse_claims :: "path list \<Rightarrow> nat \<Rightarrow> file_system \<Rightarrow> error_code \<times> file_system" where
  "refuse_claims [] limit fs = (None, fs)"
| "refuse_claims (p # ps) limit fs =
     (case inspect (removal_claim_path p) limit fs of
        (Missing, fs) \<Rightarrow> refuse_claims ps limit fs
      | (Inspection_io_error e, fs) \<Rightarrow> (Some e, fs)
      | (_, fs) \<Rightarrow> (Some EBUSY, fs))"

text \<open>The publication of a written temporary file as the primary generation.\<close>

definition publish_temporary ::
  "DurableJournalStore \<Rightarrow> file_system \<Rightarrow> DurableJournalResult \<times> file_system"
where
  "publish_temporary store fs =
     (case replace_path_durably (temporary_path store) (primary_path store) fs of
        (Some e, fs) \<Rightarrow> (io_failure (Some e), discard_temporary (temporary_path store) fs)
      | (None, fs) \<Rightarrow>
          (case sync_parent_directory (primary_path store) fs of
             (Some e, fs) \<Rightarrow> (io_failure (Some e), fs)
           | (None, fs) \<Rightarrow> (journal_ok, fs)))"

definition retire_primary ::
  "DurableJournalStore \<Rightarrow> file_system \<Rightarrow> error_code \<times> file_system"
where
  "retire_primary store fs =
     (case replace_path_durably (primary_path store) (previous_path store) fs of
        (Some e, fs) \<Rightarrow> (Some e, fs)
      | (None, fs) \<Rightarrow> sync_parent_directory (primary_path store) fs)"

definition journal_write ::
  "DurableJournalStore \<Rightarrow> byte list \<Rightarrow> file_system \<Rightarrow> DurableJournalResult \<times> file_system"
where
  "journal_write store payload fs =
     (if maximum_payload_bytes store < length payload then
        (\<lparr>journal_status = Journal_payload_too_large, journal_error = None\<rparr>, fs)
      else case inspect (primary_path store) (maximum_payload_bytes store) fs of
        (Inspection_io_error e, fs) \<Rightarrow> (io_failure (Some e), fs)
      | (current, fs) \<Rightarrow>
          (case refuse_claims [primary_path store, previous_path store]
                  (maximum_payload_bytes store) fs of
             (Some e, fs) \<Rightarrow> (io_failure (Some e), fs)
           | (None, fs) \<Rightarrow>
               (let fs = discard_temporary (temporary_path store) fs in
                case write_file_durably (temporary_path store) (make_envelope payload) fs of
                  (Some e, fs) \<Rightarrow> (io_failure (Some e), discard_temporary (temporary_path store) fs)
                | (None, fs) \<Rightarrow>
                    (case current of
                       Valid _ \<Rightarrow>
                         (case retire_primary store fs of
                            (Some e, fs) \<Rightarrow>
                              (io_failure (Some e), discard_temporary (temporary_path store) fs)
                          | (None, fs) \<Rightarrow> publish_temporary store fs)
                     | _ \<Rightarrow> publish_temporary store fs))))"

definition read_failure :: "DurableJournalStatus \<Rightarrow> error_code \<Rightarrow> DurableJournalReadResult" where
  "read_failure status e =
     \<lparr>journal_status = status, journal_error = e, journal_source = From_none, journal_payload = []\<rparr>"

definition read_success :: "DurableJournalReadSource \<Rightarrow> byte list \<Rightarrow> DurableJournalReadResult" where
  "read_success source payload =
     \<lparr>journal_status = Journal_success, journal_error = None, journal_source = source,
      journal_payload = payload\<rparr>"

text \<open>The order in which \<open>read\<close> reports the failures of the four inspected files.\<close>

definition read_verdict ::
  "InspectionResult \<Rightarrow> InspectionResult \<Rightarrow> InspectionResult \<Rightarrow> InspectionResult \<Rightarrow>
   DurableJournalReadResult"
where
  "read_verdict primary primary_claim previous previous_claim =
     (case primary of Inspection_io_error e \<Rightarrow> read_failure Journal_io_error (Some e)
      | _ \<Rightarrow>
     (case previous of Inspection_io_error e \<Rightarrow> read_failure Journal_io_error (Some e)
      | _ \<Rightarrow>
     (case primary_claim of Inspection_io_error e \<Rightarrow> read_failure Journal_io_error (Some e)
      | _ \<Rightarrow>
     (case previous_claim of Inspection_io_error e \<Rightarrow> read_failure Journal_io_error (Some e)
      | _ \<Rightarrow>
        if primary = Corrupt \<or> previous = Corrupt \<or> primary_claim = Corrupt \<or>
           previous_claim = Corrupt then read_failure Journal_corrupt None
        else read_failure Journal_not_found None))))"

definition inspect_claim ::
  "InspectionResult \<Rightarrow> path \<Rightarrow> nat \<Rightarrow> file_system \<Rightarrow> InspectionResult \<times> file_system"
where
  "inspect_claim found p limit fs =
     (if found = Missing then inspect (removal_claim_path p) limit fs else (Missing, fs))"

definition journal_read ::
  "DurableJournalStore \<Rightarrow> file_system \<Rightarrow> DurableJournalReadResult \<times> file_system"
where
  "journal_read store fs =
     (let limit = maximum_payload_bytes store;
          (primary, fs) = inspect (primary_path store) limit fs in
      case primary of Valid payload \<Rightarrow> (read_success From_primary payload, fs)
      | _ \<Rightarrow>
     (let (primary_claim, fs) = inspect_claim primary (primary_path store) limit fs in
      case primary_claim of Valid payload \<Rightarrow> (read_success From_primary payload, fs)
      | _ \<Rightarrow>
     (let (previous, fs) = inspect (previous_path store) limit fs in
      case previous of Valid payload \<Rightarrow> (read_success From_previous payload, fs)
      | _ \<Rightarrow>
     (let (previous_claim, fs) = inspect_claim previous (previous_path store) limit fs in
      case previous_claim of Valid payload \<Rightarrow> (read_success From_previous payload, fs)
      | _ \<Rightarrow> (read_verdict primary primary_claim previous previous_claim, fs)))))"

definition read_generation ::
  "path \<Rightarrow> DurableJournalReadSource \<Rightarrow> nat \<Rightarrow> file_system \<Rightarrow>
   DurableJournalReadResult \<times> file_system"
where
  "read_generation p source limit fs =
     (let (inspected, fs) = inspect p limit fs;
          (inspected, fs) = (if inspected = Missing then inspect (removal_claim_path p) limit fs
                             else (inspected, fs))
      in (case inspected of
            Valid payload \<Rightarrow> read_success source payload
          | Missing \<Rightarrow> read_failure Journal_not_found None
          | Corrupt \<Rightarrow> read_failure Journal_corrupt None
          | Inspection_io_error e \<Rightarrow> read_failure Journal_io_error (Some e), fs))"

definition read_primary_generation where
  "read_primary_generation store =
     read_generation (primary_path store) From_primary (maximum_payload_bytes store)"

definition read_previous_generation where
  "read_previous_generation store =
     read_generation (previous_path store) From_previous (maximum_payload_bytes store)"

subsection \<open>Removal\<close>

definition first_error :: "error_code \<Rightarrow> error_code \<Rightarrow> error_code" where
  "first_error seen e = (if seen = None then e else seen)"

fun remove_paths ::
  "path list \<Rightarrow> bool \<Rightarrow> error_code \<Rightarrow> file_system \<Rightarrow> bool \<times> error_code \<times> file_system"
where
  "remove_paths [] removed_any e fs = (removed_any, e, fs)"
| "remove_paths (p # ps) removed_any e fs =
     (let (result, fs) = remove_path p fs
      in remove_paths ps (removed_any \<or> removed result) (first_error e (remove_error result)) fs)"

fun remove_claims ::
  "path list \<Rightarrow> bool \<Rightarrow> error_code \<Rightarrow> file_system \<Rightarrow> bool \<times> error_code \<times> file_system"
where
  "remove_claims [] removed_any e fs = (removed_any, e, fs)"
| "remove_claims (p # ps) removed_any e fs =
     (let (claim, fs) = remove_path (removal_claim_path p) fs;
          (staging, fs) = remove_empty_removal_staging p fs
      in remove_claims ps (removed_any \<or> removed claim \<or> removed staging)
           (first_error (first_error e (remove_error claim)) (remove_error staging)) fs)"

definition journal_remove ::
  "DurableJournalStore \<Rightarrow> file_system \<Rightarrow> DurableJournalResult \<times> file_system"
where
  "journal_remove store fs =
     (let (removed_any, e, fs) =
            remove_paths [primary_path store, previous_path store, temporary_path store]
              False None fs;
          (removed_any, e, fs) =
            remove_claims [primary_path store, previous_path store] removed_any e fs
      in if e \<noteq> None then (io_failure e, fs)
         else if removed_any then
           (case sync_parent_directory (primary_path store) fs of
              (Some e, fs) \<Rightarrow> (io_failure (Some e), fs)
            | (None, fs) \<Rightarrow> (journal_ok, fs))
         else (journal_ok, fs))"

section \<open>Crash consistency\<close>

text \<open>What the next process reads: a run of \<open>read\<close> with no failures. It depends on the four
  record files only.\<close>

definition verdict_of :: "nat \<Rightarrow> node option \<Rightarrow> InspectionResult" where
  "verdict_of limit n =
     (case n of
        None \<Rightarrow> Missing
      | Some Directory \<Rightarrow> Corrupt
      | Some (Regular bytes) \<Rightarrow>
          if maximum_envelope_bytes limit < length bytes then Corrupt
          else case open_envelope limit bytes of None \<Rightarrow> Corrupt | Some payload \<Rightarrow> Valid payload)"

definition recovered :: "DurableJournalStore \<Rightarrow> (path \<rightharpoonup> node) \<Rightarrow> DurableJournalReadResult" where
  "recovered store m =
     fst (journal_read store \<lparr>live = m, durable = m, script = [], crashed = False\<rparr>)"

definition recovered_record ::
  "DurableJournalStore \<Rightarrow> (path \<rightharpoonup> node) \<Rightarrow> DurableJournalStatus \<times> byte list"
where
  "recovered_record store m =
     (journal_status (recovered store m), journal_payload (recovered store m))"

lemma inspect_quiet:
  "inspect p limit \<lparr>live = m, durable = d, script = [], crashed = False\<rparr> =
     (verdict_of limit (m p), \<lparr>live = m, durable = d, script = [], crashed = False\<rparr>)"
  by (simp add: inspect_def read_file_bytes_def next_event_def verdict_of_def
      split: option.splits node.splits)

definition claim_verdict :: "nat \<Rightarrow> (path \<rightharpoonup> node) \<Rightarrow> path \<Rightarrow> InspectionResult" where
  "claim_verdict limit m p =
     (if verdict_of limit (m p) = Missing then verdict_of limit (m (removal_claim_path p))
      else Missing)"

lemma inspect_claim_quiet:
  "inspect_claim found p limit \<lparr>live = m, durable = d, script = [], crashed = False\<rparr> =
     (if found = Missing then verdict_of limit (m (removal_claim_path p)) else Missing,
      \<lparr>live = m, durable = d, script = [], crashed = False\<rparr>)"
  by (simp add: inspect_claim_def inspect_quiet)

lemma recovered_unfold:
  "recovered store m =
     (let limit = maximum_payload_bytes store;
          primary = verdict_of limit (m (primary_path store));
          primary_claim = claim_verdict limit m (primary_path store);
          previous = verdict_of limit (m (previous_path store));
          previous_claim = claim_verdict limit m (previous_path store)
      in case primary of Valid payload \<Rightarrow> read_success From_primary payload
         | _ \<Rightarrow> (case primary_claim of Valid payload \<Rightarrow> read_success From_primary payload
         | _ \<Rightarrow> (case previous of Valid payload \<Rightarrow> read_success From_previous payload
         | _ \<Rightarrow> (case previous_claim of Valid payload \<Rightarrow> read_success From_previous payload
         | _ \<Rightarrow> read_verdict primary primary_claim previous previous_claim))))"
  by (simp add: recovered_def journal_read_def inspect_quiet inspect_claim_quiet Let_def
      claim_verdict_def split: InspectionResult.splits)

end
