(* ===== verification/Journal_Safety.thy ===== *)
theory Journal_Safety
  imports Durable_Journal
begin

text \<open>
  Crash consistency of \<open>DurableJournalStore\<close>: whatever the script of failures and wherever the
  machine stops, the next process reads either what was there before or the record being written,
  and a successful write is durable.
\<close>

section \<open>How one call changes the disk\<close>

text \<open>\<open>power_cut\<close>: the machine stopped, keeping or losing what had not been synchronised. \<open>touch\<close>: only
  the temporary file changed. A set of acceptable readings is kept by both.\<close>

definition power_cut :: "file_system \<Rightarrow> file_system \<Rightarrow> bool" where
  "power_cut fs fs' \<longleftrightarrow>
     crashed fs' \<and> durable fs' = live fs' \<and> (live fs' = live fs \<or> live fs' = durable fs)"

definition touch :: "DurableJournalStore \<Rightarrow> file_system \<Rightarrow> file_system \<Rightarrow> bool" where
  "touch store fs fs' \<longleftrightarrow>
     (\<forall>q. q \<noteq> temporary_path store \<longrightarrow> live fs' q = live fs q) \<and>
     durable fs' = durable fs \<and> crashed fs' = crashed fs"

definition steady :: "file_system \<Rightarrow> file_system \<Rightarrow> bool" where
  "steady fs fs' \<longleftrightarrow>
     live fs' = live fs \<and> durable fs' = durable fs \<and> crashed fs' = crashed fs"

definition well_placed :: "DurableJournalStore \<Rightarrow> bool" where
  "well_placed store \<longleftrightarrow>
     previous_path store = primary_path store @ ''.previous'' \<and>
     temporary_path store = primary_path store @ ''.temporary''"

lemma well_placed_new: "DurableJournalStore_new p limit = Some store \<Longrightarrow> well_placed store"
  by (auto simp: DurableJournalStore_new_def well_placed_def split: if_splits)

lemma removal_claim_path_eq: "removal_claim_path p = p @ ''.vove-removing/candidate''"
  by (simp add: removal_claim_path_def removal_staging_path_def path_append_def is_absolute_def
      starts_with_def filename_def)

lemma record_paths_distinct:
  assumes "well_placed store"
  shows "primary_path store \<noteq> temporary_path store" "previous_path store \<noteq> temporary_path store"
    "removal_claim_path (primary_path store) \<noteq> temporary_path store"
    "removal_claim_path (previous_path store) \<noteq> temporary_path store"
    "primary_path store \<noteq> previous_path store"
    "removal_claim_path (primary_path store) \<noteq> primary_path store"
    "removal_claim_path (primary_path store) \<noteq> previous_path store"
    "removal_claim_path (previous_path store) \<noteq> primary_path store"
    "removal_claim_path (previous_path store) \<noteq> previous_path store"
  using assms by (simp_all add: well_placed_def removal_claim_path_eq)

lemma recovered_cong:
  assumes "well_placed store" "\<And>q. q \<noteq> temporary_path store \<Longrightarrow> m q = m' q"
  shows "recovered store m = recovered store m'"
proof -
  note distinct = record_paths_distinct [OF assms(1)]
  have "m (primary_path store) = m' (primary_path store)"
    "m (previous_path store) = m' (previous_path store)"
    "m (removal_claim_path (primary_path store)) = m' (removal_claim_path (primary_path store))"
    "m (removal_claim_path (previous_path store)) = m' (removal_claim_path (previous_path store))"
    using distinct(1-4) assms(2) by blast+
  then show ?thesis by (simp only: recovered_unfold claim_verdict_def Let_def)
qed

definition safe ::
  "DurableJournalStore \<Rightarrow> (DurableJournalStatus \<times> byte list) set \<Rightarrow> file_system \<Rightarrow> bool"
where
  "safe store readings fs \<longleftrightarrow>
     recovered_record store (live fs) \<in> readings \<and> recovered_record store (durable fs) \<in> readings"

lemma safe_cut: "safe store A fs \<Longrightarrow> power_cut fs fs' \<Longrightarrow> safe store A fs'"
  by (auto simp: safe_def power_cut_def)

lemma safe_steady: "safe store A fs \<Longrightarrow> steady fs fs' \<Longrightarrow> safe store A fs'"
  by (simp add: safe_def steady_def)

lemma safe_touch:
  assumes "well_placed store" "safe store A fs" "touch store fs fs'"
  shows "safe store A fs'"
proof -
  have "recovered store (live fs') = recovered store (live fs)"
    using assms(3) by (intro recovered_cong [OF assms(1)]) (simp add: touch_def)
  with assms show ?thesis by (simp add: safe_def touch_def recovered_record_def)
qed

lemma steady_touch: "steady fs fs' \<Longrightarrow> touch store fs fs'"
  by (simp add: steady_def touch_def)

lemma touch_trans: "touch store a b \<Longrightarrow> touch store b c \<Longrightarrow> touch store a c"
  by (simp add: touch_def)

lemma next_event_steady: "next_event fs = (e, fs') \<Longrightarrow> steady fs fs'"
  by (auto simp: next_event_def steady_def split: list.splits if_splits)

lemma next_event_crashed: "next_event fs = (e, fs') \<Longrightarrow> crashed fs \<Longrightarrow> e = Refuse EIO 0"
  by (simp add: next_event_def)

lemma stop_machine_cut: "steady fs fs' \<Longrightarrow> power_cut fs (stop_machine kept fs')"
  by (simp add: power_cut_def stop_machine_def steady_def)

section \<open>Effects of the calls\<close>

lemma inspect_effect:
  assumes "inspect p limit fs = (r, fs')"
  shows "(steady fs fs' \<and> (r = Missing \<longrightarrow> live fs p = None) \<and>
          (\<forall>payload. r = Valid payload \<longrightarrow> verdict_of limit (live fs p) = Valid payload)) \<or>
         (power_cut fs fs' \<and> (\<exists>e. r = Inspection_io_error e))"
proof -
  obtain e fs1 where ev: "next_event fs = (e, fs1)" by fastforce
  from next_event_steady [OF ev] have st: "steady fs fs1" .
  then have live: "live fs1 = live fs" by (simp add: steady_def)
  show ?thesis
    using assms ev st live
    by (cases e) (auto simp: inspect_def read_file_bytes_def verdict_of_def stop_machine_cut
        split: option.splits node.splits if_splits)
qed

lemma inspect_safe:
  "inspect p limit fs = (r, fs') \<Longrightarrow> safe store A fs \<Longrightarrow> safe store A fs'"
  by (drule inspect_effect) (auto intro: safe_cut safe_steady)

lemma steady_trans: "steady a b \<Longrightarrow> steady b c \<Longrightarrow> steady a c"
  by (simp add: steady_def)

lemma steady_cut: "steady a b \<Longrightarrow> power_cut b c \<Longrightarrow> power_cut a c"
  by (simp add: steady_def power_cut_def)

lemma refuse_claims_effect:
  "refuse_claims ps limit fs = (r, fs') \<Longrightarrow>
     (steady fs fs' \<and> (r = None \<longrightarrow> (\<forall>p\<in>set ps. live fs (removal_claim_path p) = None))) \<or>
     (power_cut fs fs' \<and> r \<noteq> None)"
proof (induction ps arbitrary: fs)
  case Nil
  then show ?case by (simp add: steady_def)
next
  case (Cons p ps)
  obtain i fs1 where i: "inspect (removal_claim_path p) limit fs = (i, fs1)" by fastforce
  show ?case
  proof (cases "i = Missing")
    case True
    with i inspect_effect [OF i] have st: "steady fs fs1"
      and none: "live fs (removal_claim_path p) = None" by auto
    from Cons.prems i True have "refuse_claims ps limit fs1 = (r, fs')" by simp
    from Cons.IH [OF this] st none show ?thesis
      by (auto intro: steady_trans steady_cut simp: steady_def)
  next
    case False
    with Cons.prems i have "fs' = fs1" "r \<noteq> None" by (auto split: InspectionResult.splits)
    with inspect_effect [OF i] show ?thesis by auto
  qed
qed

lemma refuse_claims_safe:
  "refuse_claims ps limit fs = (r, fs') \<Longrightarrow> safe store A fs \<Longrightarrow> safe store A fs'"
  by (drule refuse_claims_effect) (auto intro: safe_cut safe_steady)

lemma discard_effect:
  "touch store fs (discard_temporary (temporary_path store) fs) \<or>
   power_cut fs (discard_temporary (temporary_path store) fs)"
proof -
  obtain e fs1 where ev: "next_event fs = (e, fs1)" by fastforce
  from next_event_steady [OF ev] have st: "steady fs fs1" .
  show ?thesis
    using ev st stop_machine_cut [OF st]
    by (cases e) (auto simp: discard_temporary_def remove_path_def touch_def steady_def
        split: option.splits node.splits)
qed

lemma discard_safe:
  "well_placed store \<Longrightarrow> safe store A fs \<Longrightarrow>
     safe store A (discard_temporary (temporary_path store) fs)"
  using discard_effect [of store fs] by (auto intro: safe_cut safe_touch)

lemma partial_file_touch: "touch store fs (partial_file (temporary_path store) bytes n fs)"
  by (simp add: partial_file_def touch_def)

lemma write_temporary_effect:
  assumes "write_file_durably (temporary_path store) bytes fs = (r, fs')"
  shows "(\<exists>fs1. touch store fs fs1 \<and> (fs' = fs1 \<or> power_cut fs1 fs')) \<and>
    (r = None \<longrightarrow> \<not> crashed fs \<and> touch store fs fs' \<and>
                 live fs' (temporary_path store) = Some (Regular bytes))"
proof -
  obtain e fs1 where ev: "next_event fs = (e, fs1)" by fastforce
  from next_event_steady [OF ev] have st: "steady fs fs1" .
  have touched: "touch store fs (partial_file (temporary_path store) bytes n fs1)" for n
    by (rule touch_trans [OF steady_touch [OF st] partial_file_touch])
  have self: "power_cut x (stop_machine kept x)" for x kept
    by (rule stop_machine_cut) (simp add: steady_def)
  have ok: "\<not> crashed fs" if "e = Proceed"
    using that next_event_crashed [OF ev] by auto
  show ?thesis
  proof (cases e)
    case Proceed
    with assms ev ok st have "touch store fs fs'"
      "r = None \<longrightarrow> live fs' (temporary_path store) = Some (Regular bytes)"
      by (auto simp: write_file_durably_def touch_def steady_def split: if_splits)
    with ok Proceed show ?thesis by blast
  next
    case (Refuse x n)
    with assms ev touched [of n] show ?thesis by (auto simp: write_file_durably_def)
  next
    case Cut_short
    with assms ev touched show ?thesis by (auto simp: write_file_durably_def)
  next
    case (Crash kept n)
    with assms ev touched [of n] self [of "partial_file (temporary_path store) bytes n fs1" kept]
    show ?thesis by (auto simp: write_file_durably_def)
  qed
qed

lemma write_temporary_safe:
  assumes "well_placed store" "write_file_durably (temporary_path store) bytes fs = (r, fs')"
    and "safe store A fs"
  shows "safe store A fs'"
  using write_temporary_effect [OF assms(2)] assms(1,3) by (auto intro: safe_cut safe_touch)

lemma replace_effect:
  assumes "replace_path_durably source destination fs = (r, fs')"
  shows "(r \<noteq> None \<and> (steady fs fs' \<or> power_cut fs fs')) \<or>
    (r = None \<and> \<not> crashed fs \<and> \<not> crashed fs' \<and> durable fs' = durable fs \<and>
     (\<exists>node. live fs source = Some node \<and>
             live fs' = (live fs)(source := None, destination \<mapsto> node)))"
proof -
  obtain e fs1 where ev: "next_event fs = (e, fs1)" by fastforce
  from next_event_steady [OF ev] have st: "steady fs fs1" .
  show ?thesis
    using assms ev st stop_machine_cut [OF st] next_event_crashed [OF ev]
    by (cases e) (auto simp: replace_path_durably_def steady_def split: option.splits)
qed

lemma sync_effect:
  assumes "sync_parent_directory p fs = (r, fs')"
  shows "(r \<noteq> None \<and> (steady fs fs' \<or> power_cut fs fs')) \<or>
    (r = None \<and> \<not> crashed fs' \<and> live fs' = live fs \<and> durable fs' = live fs)"
proof -
  obtain e fs1 where ev: "next_event fs = (e, fs1)" by fastforce
  from next_event_steady [OF ev] have st: "steady fs fs1" .
  show ?thesis
    using assms ev st stop_machine_cut [OF st] next_event_crashed [OF ev]
    by (cases e) (auto simp: sync_parent_directory_def steady_def)
qed

lemma sync_safe:
  "sync_parent_directory p fs = (r, fs') \<Longrightarrow> safe store A fs \<Longrightarrow> safe store A fs'"
  using sync_effect [of p fs r fs'] safe_cut [of store A fs fs'] safe_steady [of store A fs fs']
  by (auto simp: safe_def)

section \<open>Publication and retirement of the primary generation\<close>

lemma recovered_primary:
  "verdict_of (maximum_payload_bytes store) (m (primary_path store)) = Valid payload \<Longrightarrow>
     recovered store m = read_success From_primary payload"
  by (simp add: recovered_unfold)

lemma recovered_retired:
  assumes "m (primary_path store) = None" "m (removal_claim_path (primary_path store)) = None"
    and "verdict_of (maximum_payload_bytes store) (m (previous_path store)) = Valid payload"
  shows "recovered store m = read_success From_previous payload"
  using assms by (simp add: recovered_unfold claim_verdict_def verdict_of_def)

lemma recovered_record_success:
  "recovered store m = read_success source payload \<Longrightarrow>
     recovered_record store m = (Journal_success, payload)"
  by (simp add: recovered_record_def read_success_def)

definition payload_fits :: "DurableJournalStore \<Rightarrow> byte list \<Rightarrow> bool" where
  "payload_fits store payload \<longleftrightarrow>
     length payload \<le> maximum_payload_bytes store \<and> length payload < 2 ^ 32"

lemma verdict_make_envelope:
  "payload_fits store payload \<Longrightarrow>
     verdict_of (maximum_payload_bytes store) (Some (Regular (make_envelope payload))) = Valid payload"
  by (simp add: payload_fits_def verdict_of_def maximum_envelope_bytes_def length_make_envelope
      open_make_envelope)

lemma publish_effect:
  assumes store: "well_placed store" "payload_fits store payload"
    and temporary: "live fs (temporary_path store) = Some (Regular (make_envelope payload))"
    and safe: "safe store A fs" "(Journal_success, payload) \<in> A"
    and run: "publish_temporary store fs = (r, fs')"
  shows "safe store A fs' \<and>
    (journal_status r = Journal_success \<longrightarrow> \<not> crashed fs' \<and> durable fs' = live fs' \<and>
       recovered store (live fs') = read_success From_primary payload)"
proof -
  obtain e fs1 where rep:
    "replace_path_durably (temporary_path store) (primary_path store) fs = (e, fs1)" by fastforce
  show ?thesis
  proof (cases e)
    case (Some x)
    with replace_effect [OF rep] have "steady fs fs1 \<or> power_cut fs fs1" by auto
    then have "safe store A fs1" using safe(1) safe_steady safe_cut by blast
    with run rep Some store(1) show ?thesis
      by (auto simp: publish_temporary_def io_failure_def intro: discard_safe)
  next
    case None
    with replace_effect [OF rep] temporary
    have live1: "live fs1 (primary_path store) = Some (Regular (make_envelope payload))"
      and durable1: "durable fs1 = durable fs" by auto
    then have reading: "recovered store (live fs1) = read_success From_primary payload"
      by (simp add: recovered_primary verdict_make_envelope [OF store(2)])
    then have safe1: "safe store A fs1"
      using safe recovered_record_success [OF reading] durable1 by (simp add: safe_def)
    obtain s fs2 where sync: "sync_parent_directory (primary_path store) fs1 = (s, fs2)" by fastforce
    with run rep None have "r = (case s of None \<Rightarrow> journal_ok | Some x \<Rightarrow> io_failure (Some x))"
      "fs' = fs2"
      by (auto simp: publish_temporary_def split: option.splits)
    with sync_effect [OF sync] sync_safe [OF sync safe1] reading show ?thesis
      by (auto simp: io_failure_def split: option.splits)
  qed
qed

lemma retire_effect:
  assumes store: "well_placed store"
    and current: "verdict_of (maximum_payload_bytes store) (live fs (primary_path store)) = Valid old"
    and unclaimed: "live fs (removal_claim_path (primary_path store)) = None"
    and safe: "safe store A fs"
    and run: "retire_primary store fs = (r, fs')"
  shows "safe store A fs' \<and>
    (r = None \<longrightarrow> live fs' (temporary_path store) = live fs (temporary_path store))"
proof -
  note distinct = record_paths_distinct [OF store]
  obtain e fs1 where rep:
    "replace_path_durably (primary_path store) (previous_path store) fs = (e, fs1)" by fastforce
  show ?thesis
  proof (cases e)
    case (Some x)
    with replace_effect [OF rep] have "steady fs fs1 \<or> power_cut fs fs1" by auto
    then have "safe store A fs1" using safe safe_steady safe_cut by blast
    with run rep Some show ?thesis by (auto simp: retire_primary_def)
  next
    case None
    with replace_effect [OF rep] obtain node where
      node: "live fs (primary_path store) = Some node"
      and live1: "live fs1 =
        (live fs)(primary_path store := None, previous_path store \<mapsto> node)"
      and durable1: "durable fs1 = durable fs" by auto
    have "recovered store (live fs1) = read_success From_previous old"
      using distinct current unclaimed node by (intro recovered_retired) (auto simp: live1)
    moreover have "recovered store (live fs) = read_success From_primary old"
      by (rule recovered_primary [of store "live fs", OF current])
    ultimately have "recovered_record store (live fs1) = recovered_record store (live fs)"
      using recovered_record_success by metis
    then have safe1: "safe store A fs1" using safe durable1 by (simp add: safe_def)
    from run rep None have sync: "sync_parent_directory (primary_path store) fs1 = (r, fs')"
      by (simp add: retire_primary_def)
    have "live fs1 (temporary_path store) = live fs (temporary_path store)"
      using distinct by (simp add: live1)
    with sync_effect [OF sync] sync_safe [OF sync safe1] show ?thesis by auto
  qed
qed

section \<open>Writing a record\<close>

lemma refuse_claims_None:
  assumes "refuse_claims ps limit fs = (None, fs')"
  shows "steady fs fs'" "p \<in> set ps \<Longrightarrow> live fs' (removal_claim_path p) = None"
  using refuse_claims_effect [OF assms] by (auto simp: steady_def)

text \<open>The state in which the new record has been stored under its temporary name.\<close>

lemma staged:
  assumes store: "well_placed store"
    and claims: "refuse_claims [primary_path store, previous_path store] limit fs = (None, fs1)"
    and stored: "write_file_durably (temporary_path store) bytes
                   (discard_temporary (temporary_path store) fs1) = (None, fs2)"
  shows "live fs2 (temporary_path store) = Some (Regular bytes)"
    "live fs2 (primary_path store) = live fs (primary_path store)"
    "live fs2 (removal_claim_path (primary_path store)) = None"
proof -
  note distinct = record_paths_distinct [OF store]
  note wrote = write_temporary_effect [OF stored]
  let ?fs = "discard_temporary (temporary_path store) fs1"
  have "touch store fs1 ?fs"
    using discard_effect [of store fs1] wrote by (auto simp: power_cut_def)
  moreover have "touch store ?fs fs2" using wrote by simp
  ultimately have "touch store fs1 fs2" by (rule touch_trans)
  moreover note refuse_claims_None(1) [OF claims]
    refuse_claims_None(2) [OF claims, of "primary_path store"]
  ultimately show "live fs2 (primary_path store) = live fs (primary_path store)"
    "live fs2 (removal_claim_path (primary_path store)) = None"
    using distinct by (auto simp: touch_def steady_def)
  show "live fs2 (temporary_path store) = Some (Regular bytes)" using wrote by simp
qed

lemma journal_write_tail:
  assumes store: "well_placed store" "payload_fits store payload"
    and safe: "safe store A fs" "(Journal_success, payload) \<in> A"
    and temporary: "live fs (temporary_path store) = Some (Regular (make_envelope payload))"
    and current: "\<And>old. current = Valid old \<Longrightarrow>
          verdict_of (maximum_payload_bytes store) (live fs (primary_path store)) = Valid old \<and>
          live fs (removal_claim_path (primary_path store)) = None"
    and run: "(case current of
        Valid _ \<Rightarrow>
          (case retire_primary store fs of
             (Some e, fs) \<Rightarrow> (io_failure (Some e), discard_temporary (temporary_path store) fs)
           | (None, fs) \<Rightarrow> publish_temporary store fs)
      | _ \<Rightarrow> publish_temporary store fs) = (r, fs')"
  shows "safe store A fs' \<and>
    (journal_status r = Journal_success \<longrightarrow> \<not> crashed fs' \<and> durable fs' = live fs' \<and>
       recovered store (live fs') = read_success From_primary payload)"
proof (cases "\<exists>old. current = Valid old")
  case True
  then obtain old where old: "current = Valid old" by blast
  obtain e fs1 where retire: "retire_primary store fs = (e, fs1)" by fastforce
  from current [OF old] retire_effect [OF store(1) _ _ safe(1) retire]
  have kept: "safe store A fs1"
    "e = None \<longrightarrow> live fs1 (temporary_path store) = live fs (temporary_path store)" by blast+
  show ?thesis
  proof (cases e)
    case None
    with run old retire have "publish_temporary store fs1 = (r, fs')" by simp
    with kept temporary None show ?thesis
      by (intro publish_effect [OF store _ kept(1) safe(2)]) auto
  next
    case (Some x)
    with run old retire kept store show ?thesis
      by (auto simp: io_failure_def intro: discard_safe)
  qed
next
  case False
  with run have "publish_temporary store fs = (r, fs')"
    by (auto split: InspectionResult.splits)
  with publish_effect [OF store temporary safe] show ?thesis by blast
qed

lemma journal_write_outcome:
  assumes store: "well_placed store"
    and bound: "maximum_payload_bytes store \<le> kAbsoluteMaximumDurableJournalPayloadBytes"
    and safe: "safe store A fs" "(Journal_success, payload) \<in> A"
    and run: "journal_write store payload fs = (r, fs')"
  shows "safe store A fs' \<and>
    (journal_status r = Journal_success \<longrightarrow> \<not> crashed fs' \<and> durable fs' = live fs' \<and>
       recovered store (live fs') = read_success From_primary payload)"
proof (cases "maximum_payload_bytes store < length payload")
  case True
  with run safe show ?thesis by (auto simp: journal_write_def)
next
  case False
  with bound have fits: "payload_fits store payload"
    by (simp add: payload_fits_def kAbsoluteMaximumDurableJournalPayloadBytes_def)
  let ?limit = "maximum_payload_bytes store"
  obtain current fs1 where i: "inspect (primary_path store) ?limit fs = (current, fs1)" by fastforce
  from inspect_safe [OF i safe(1)] have safe1: "safe store A fs1" .
  show ?thesis
  proof (cases "\<exists>e. current = Inspection_io_error e")
    case True
    with run i False safe1 show ?thesis by (auto simp: journal_write_def io_failure_def)
  next
    case readable: False
    with inspect_effect [OF i] have st1: "steady fs fs1" by auto
    obtain c fs2 where claims:
      "refuse_claims [primary_path store, previous_path store] ?limit fs1 = (c, fs2)" by fastforce
    from refuse_claims_safe [OF claims safe1] have safe2: "safe store A fs2" .
    let ?fs3 = "discard_temporary (temporary_path store) fs2"
    have safe3: "safe store A ?fs3" by (rule discard_safe [OF store safe2])
    obtain w fs4 where stored:
      "write_file_durably (temporary_path store) (make_envelope payload) ?fs3 = (w, fs4)"
      by fastforce
    have safe4: "safe store A fs4" by (rule write_temporary_safe [OF store stored safe3])
    note unfolded = run [unfolded journal_write_def i claims, simplified False if_False prod.case]
    show ?thesis
    proof (cases "c = None \<and> w = None")
      case True
      note at = staged [OF store claims [unfolded conjunct1 [OF True]]
          stored [unfolded conjunct2 [OF True]]]
      have prim: "verdict_of ?limit (live fs4 (primary_path store)) = Valid old \<and>
          live fs4 (removal_claim_path (primary_path store)) = None"
        if "current = Valid old" for old
        using inspect_effect [OF i] that at(2,3) st1 by (auto simp: steady_def)
      show ?thesis
        by (rule journal_write_tail [OF store fits safe4 safe(2) at(1) prim])
          (use unfolded True stored claims readable in
            \<open>auto simp: Let_def split: InspectionResult.splits\<close>)
    next
      case halted: False
      have "safe store A fs' \<and> journal_status r \<noteq> Journal_success"
        using unfolded halted readable stored claims safe2 safe4
          discard_safe [OF store safe4]
        by (cases c; cases w; cases current) (auto simp: io_failure_def Let_def)
      then show ?thesis by simp
    qed
  qed
qed

lemma inspect_claim_safe:
  "inspect_claim found p limit fs = (r, fs') \<Longrightarrow> safe store A fs \<Longrightarrow> safe store A fs'"
  by (auto simp: inspect_claim_def split: if_splits dest: inspect_safe)

text \<open>Reading changes nothing, though the machine may stop meanwhile.\<close>

lemma journal_read_safe:
  assumes "journal_read store fs = (r, fs')" "safe store A fs"
  shows "safe store A fs'"
proof -
  let ?n = "maximum_payload_bytes store"
  obtain p fs1 where p: "inspect (primary_path store) ?n fs = (p, fs1)" by fastforce
  obtain pc fs2 where pc: "inspect_claim p (primary_path store) ?n fs1 = (pc, fs2)" by fastforce
  obtain q fs3 where q: "inspect (previous_path store) ?n fs2 = (q, fs3)" by fastforce
  obtain qc fs4 where qc: "inspect_claim q (previous_path store) ?n fs3 = (qc, fs4)" by fastforce
  note s1 = inspect_safe [OF p assms(2)]
  note s2 = inspect_claim_safe [OF pc s1]
  note s3 = inspect_safe [OF q s2]
  note s4 = inspect_claim_safe [OF qc s3]
  have "fs' \<in> {fs1, fs2, fs3, fs4}"
    using assms(1) unfolding journal_read_def p pc q qc Let_def prod.case
    by (auto split: InspectionResult.splits)
  with s1 s2 s3 s4 show ?thesis by auto
qed

end
