(* ===== verification/Operation_Journal.thy ===== *)
theory Operation_Journal
  imports Journal_Safety
begin

text \<open>
  The journal of the operation in progress: \<open>src/Source/src/fileops/current_operation_journal.cpp\<close>.
  It puts a typed envelope (which operation the record belongs to) around the payload that
  \<open>DurableJournalStore\<close> keeps, and reads records of the untyped format that came before. The locale
  \<open>record_store\<close> states what the coordinators rely on: a write leaves on disk what was there or
  the new record, and only the new record once it has succeeded.
\<close>

section \<open>The typed envelope\<close>

text \<open>\<open>enum class CurrentOperationKind : std::uint32_t\<close>: a cast may produce any 32-bit value.\<close>

type_synonym CurrentOperationKind = u32

definition kind_batch_rename :: CurrentOperationKind where "kind_batch_rename = 1"
definition kind_permanent_delete :: CurrentOperationKind where "kind_permanent_delete = 2"
definition kind_file_transfer :: CurrentOperationKind where "kind_file_transfer = 6"

datatype CurrentOperationJournalEncoding = Encoding_none | Typed | Legacy_untyped

definition kMagic :: "byte list" where
  "kMagic = [0x56, 0x4F, 0x56, 0x45, 0x43, 0x55, 0x52, 0x52]"

definition kReservedPrefix :: "byte list" where
  "kReservedPrefix = [0x56, 0x4F, 0x56, 0x45]"

definition kCurrentOperationJournalSchemaVersion :: u32 where
  "kCurrentOperationJournalSchemaVersion = 1"

definition kCurrentOperationJournalHeaderBytes :: nat where
  "kCurrentOperationJournalHeaderBytes = 24"

definition kMaximumCurrentOperationPayloadBytes :: nat where
  "kMaximumCurrentOperationPayloadBytes =
     kMaximumDurableJournalPayloadBytes - kCurrentOperationJournalHeaderBytes"

definition encode_operation :: "CurrentOperationKind \<Rightarrow> byte list \<Rightarrow> byte list" where
  "encode_operation kind payload =
     kMagic @ write_u32_le kCurrentOperationJournalSchemaVersion @ write_u32_le kind @
     write_u32_le (word_of_nat (length payload)) @ write_u32_le (crc32 payload) @ payload"

record CurrentOperationJournalReadResult = DurableJournalResult +
  current_source :: DurableJournalReadSource
  current_encoding :: CurrentOperationJournalEncoding
  current_kind :: CurrentOperationKind
  current_payload :: "byte list"

definition CurrentOperationJournalStore_new :: "path \<Rightarrow> DurableJournalStore option" where
  "CurrentOperationJournalStore_new p = DurableJournalStore_new p kMaximumDurableJournalPayloadBytes"

definition current_journal_write ::
  "DurableJournalStore \<Rightarrow> CurrentOperationKind \<Rightarrow> byte list \<Rightarrow> file_system \<Rightarrow>
   DurableJournalResult \<times> file_system"
where
  "current_journal_write store kind payload fs =
     (if kind = 0 then (\<lparr>journal_status = Journal_corrupt, journal_error = None\<rparr>, fs)
      else if kMaximumCurrentOperationPayloadBytes < length payload then
        (\<lparr>journal_status = Journal_payload_too_large, journal_error = None\<rparr>, fs)
      else journal_write store (encode_operation kind payload) fs)"

definition current_corrupt :: "error_code \<Rightarrow> CurrentOperationJournalReadResult" where
  "current_corrupt e =
     \<lparr>journal_status = Journal_corrupt, journal_error = e, current_source = From_none,
      current_encoding = Encoding_none, current_kind = 0, current_payload = []\<rparr>"

text \<open>\<open>CurrentOperationJournalStore::read\<close> after the durable read.\<close>

definition open_operation :: "DurableJournalReadResult \<Rightarrow> CurrentOperationJournalReadResult" where
  "open_operation stored =
     (let bytes = journal_payload stored; error = journal_error stored;
          result = \<lparr>journal_status = journal_status stored, journal_error = error,
                    current_source = journal_source stored, current_encoding = Encoding_none,
                    current_kind = 0, current_payload = []\<rparr> in
      if journal_status stored \<noteq> Journal_success then result
      else if \<not> starts_with bytes kMagic then
        (if starts_with bytes kReservedPrefix then current_corrupt error
         else result\<lparr>current_encoding := Legacy_untyped, current_payload := bytes\<rparr>)
      else if length bytes < kCurrentOperationJournalHeaderBytes \<or>
              read_u32_le bytes 8 \<noteq> kCurrentOperationJournalSchemaVersion then
        current_corrupt error
      else let kind = read_u32_le bytes 12; payload_size = unat (read_u32_le bytes 16) in
        if kind = 0 \<or> kMaximumCurrentOperationPayloadBytes < payload_size \<or>
           length bytes \<noteq> kCurrentOperationJournalHeaderBytes + payload_size then
          current_corrupt error
        else let payload = drop kCurrentOperationJournalHeaderBytes bytes in
          if read_u32_le bytes 20 \<noteq> crc32 payload then current_corrupt error
          else result\<lparr>current_encoding := Typed, current_kind := kind,
                       current_payload := payload\<rparr>)"

definition current_journal_read ::
  "DurableJournalStore \<Rightarrow> file_system \<Rightarrow> CurrentOperationJournalReadResult \<times> file_system"
where
  "current_journal_read store fs =
     (let (stored, fs) = journal_read store fs in (open_operation stored, fs))"

definition current_journal_remove ::
  "DurableJournalStore \<Rightarrow> file_system \<Rightarrow> DurableJournalResult \<times> file_system"
where
  "current_journal_remove store fs = journal_remove store fs"

subsection \<open>Typed records open to what was written, and only those\<close>

lemma length_encode_operation:
  "length (encode_operation kind payload) = kCurrentOperationJournalHeaderBytes + length payload"
  by (simp add: encode_operation_def kMagic_def kCurrentOperationJournalHeaderBytes_def)

lemma operation_fields:
  "starts_with (encode_operation kind payload) kMagic"
  "read_u32_le (encode_operation kind payload) 8 = kCurrentOperationJournalSchemaVersion"
  "read_u32_le (encode_operation kind payload) 12 = kind"
  "read_u32_le (encode_operation kind payload) 16 = word_of_nat (length payload)"
  "read_u32_le (encode_operation kind payload) 20 = crc32 payload"
  "drop kCurrentOperationJournalHeaderBytes (encode_operation kind payload) = payload"
proof -
  let ?v = "write_u32_le kCurrentOperationJournalSchemaVersion" and ?k = "write_u32_le kind"
  let ?n = "write_u32_le (word_of_nat (length payload))" and ?c = "write_u32_le (crc32 payload)"
  have len: "length kMagic = 8" by (simp add: kMagic_def)
  show "starts_with (encode_operation kind payload) kMagic"
    by (simp add: encode_operation_def)
  show "read_u32_le (encode_operation kind payload) 8 = kCurrentOperationJournalSchemaVersion"
    using read_write_u32 [of 8 kMagic _ "?k @ ?n @ ?c @ payload"]
    by (simp add: encode_operation_def len)
  show "read_u32_le (encode_operation kind payload) 12 = kind"
    using read_write_u32 [of 12 "kMagic @ ?v" _ "?n @ ?c @ payload"]
    by (simp add: encode_operation_def len)
  show "read_u32_le (encode_operation kind payload) 16 = word_of_nat (length payload)"
    using read_write_u32 [of 16 "kMagic @ ?v @ ?k" _ "?c @ payload"]
    by (simp add: encode_operation_def len)
  show "read_u32_le (encode_operation kind payload) 20 = crc32 payload"
    using read_write_u32 [of 20 "kMagic @ ?v @ ?k @ ?n" _ payload]
    by (simp add: encode_operation_def len)
  show "drop kCurrentOperationJournalHeaderBytes (encode_operation kind payload) = payload"
    by (simp add: encode_operation_def len kCurrentOperationJournalHeaderBytes_def)
qed

definition operation_payload_ok :: "CurrentOperationKind \<Rightarrow> byte list \<Rightarrow> bool" where
  "operation_payload_ok kind payload \<longleftrightarrow>
     kind \<noteq> 0 \<and> length payload \<le> kMaximumCurrentOperationPayloadBytes"

lemma open_encode_operation:
  assumes "operation_payload_ok kind payload"
  shows "open_operation (read_success source (encode_operation kind payload)) =
    \<lparr>journal_status = Journal_success, journal_error = None, current_source = source,
     current_encoding = Typed, current_kind = kind, current_payload = payload\<rparr>"
proof -
  have "unat (word_of_nat (length payload) :: u32) = length payload"
    using assms by (simp add: unat_of_nat take_bit_eq_mod operation_payload_ok_def
        kMaximumCurrentOperationPayloadBytes_def kMaximumDurableJournalPayloadBytes_def
        kCurrentOperationJournalHeaderBytes_def)
  with assms show ?thesis
    by (simp add: open_operation_def read_success_def operation_fields length_encode_operation
        operation_payload_ok_def Let_def)
qed

lemma operation_header_eq:
  assumes "starts_with bytes kMagic" "24 \<le> length bytes"
  shows "bytes = kMagic @ write_u32_le (read_u32_le bytes 8) @ write_u32_le (read_u32_le bytes 12) @
    write_u32_le (read_u32_le bytes 16) @ write_u32_le (read_u32_le bytes 20) @ drop 24 bytes"
proof -
  obtain rest where bytes: "bytes = kMagic @ rest"
    using assms(1) starts_with_iff by blast
  note split = drop_u32 [of _ bytes]
  have "bytes = kMagic @ drop 8 bytes"
    using bytes by (simp add: kMagic_def)
  with split [of 8] split [of 12] split [of 16] split [of 20] assms(2) show ?thesis by simp
qed

text \<open>A typed result is the content of exactly one record, the one an encoder of that kind wrote.\<close>

lemma open_operation_typed:
  assumes "current_encoding (open_operation stored) = Typed"
  shows "journal_payload stored =
    encode_operation (current_kind (open_operation stored)) (current_payload (open_operation stored))
    \<and> operation_payload_ok (current_kind (open_operation stored))
         (current_payload (open_operation stored))"
proof -
  let ?b = "journal_payload stored"
  from assms have shape: "starts_with ?b kMagic" "24 \<le> length ?b"
    "read_u32_le ?b 8 = kCurrentOperationJournalSchemaVersion" "read_u32_le ?b 12 \<noteq> 0"
    "unat (read_u32_le ?b 16) \<le> kMaximumCurrentOperationPayloadBytes"
    "length ?b = 24 + unat (read_u32_le ?b 16)" "read_u32_le ?b 20 = crc32 (drop 24 ?b)"
    and result: "current_kind (open_operation stored) = read_u32_le ?b 12"
    "current_payload (open_operation stored) = drop 24 ?b"
    by (auto simp: open_operation_def current_corrupt_def Let_def
        kCurrentOperationJournalHeaderBytes_def split: if_splits)
  have size: "word_of_nat (length (drop 24 ?b)) = read_u32_le ?b 16"
    using shape(6) by simp
  have "?b = encode_operation (read_u32_le ?b 12) (drop 24 ?b)"
    using operation_header_eq [OF shape(1,2)] shape(3,7) size
    by (simp add: encode_operation_def)
  with shape result show ?thesis by (simp add: operation_payload_ok_def)
qed

section \<open>What the coordinators rely on\<close>

text \<open>
  \<open>put\<close> is a write with its success, \<open>views\<close> what the next process may find: the record that is
  visible, and the one a power cut would leave.
\<close>

locale record_store =
  fixes put :: "byte list \<Rightarrow> 'd \<Rightarrow> bool \<times> 'd"
    and views :: "'d \<Rightarrow> 'r set"
    and stored :: "byte list \<Rightarrow> 'r"
    and inv :: "'d \<Rightarrow> bool"
  assumes put_inv: "inv d \<Longrightarrow> inv (snd (put payload d))"
    and put_views: "inv d \<Longrightarrow> views (snd (put payload d)) \<subseteq> insert (stored payload) (views d)"
    and put_stored: "inv d \<Longrightarrow> fst (put payload d) \<Longrightarrow> views (snd (put payload d)) = {stored payload}"
begin

fun put_all :: "byte list list \<Rightarrow> 'd \<Rightarrow> bool \<times> 'd" where
  "put_all [] d = (True, d)"
| "put_all (p # ps) d = (let (ok, d) = put p d; (oks, d) = put_all ps d in (ok \<and> oks, d))"

lemma put_all_views:
  "inv d \<Longrightarrow> views (snd (put_all ps d)) \<subseteq> stored ` set ps \<union> views d \<and> inv (snd (put_all ps d))"
proof (induction ps arbitrary: d)
  case (Cons p ps)
  from Cons.IH [OF put_inv [OF Cons.prems, of p]] put_views [OF Cons.prems, of p]
  show ?case by (auto simp: split_beta Let_def)
qed simp

text \<open>After a successful write, no interrupted sequence of later ones brings older records back.\<close>

lemma put_then_views:
  assumes "inv d" "fst (put p d)"
  shows "views (snd (put_all ps (snd (put p d)))) \<subseteq> stored ` set (p # ps)"
  using put_all_views [OF put_inv [OF assms(1), of p], of ps] put_stored [OF assms] by auto

lemma put_all_last:
  "inv d \<Longrightarrow> ps \<noteq> [] \<Longrightarrow> fst (put_all ps d) \<Longrightarrow> views (snd (put_all ps d)) = {stored (last ps)}"
proof (induction ps arbitrary: d)
  case (Cons p ps)
  show ?case
  proof (cases ps)
    case Nil
    with Cons.prems put_stored [of d p] show ?thesis by (auto simp: split_beta Let_def)
  next
    case (Cons q qs)
    with Cons.IH [OF put_inv [OF \<open>inv d\<close>, of p]] Cons.prems show ?thesis
      by (auto simp: split_beta Let_def)
  qed
qed simp

end

section \<open>The journal on disk keeps the contract\<close>

type_synonym disk = "DurableJournalStore \<times> file_system"

definition disk_ok :: "disk \<Rightarrow> bool" where
  "disk_ok d \<longleftrightarrow> well_placed (fst d) \<and>
     maximum_payload_bytes (fst d) \<le> kAbsoluteMaximumDurableJournalPayloadBytes"

definition disk_views :: "disk \<Rightarrow> (DurableJournalStatus \<times> byte list) set" where
  "disk_views d =
     {recovered_record (fst d) (live (snd d)), recovered_record (fst d) (durable (snd d))}"

text \<open>Reading reveals nothing new.\<close>

lemma current_read_views:
  assumes "current_journal_read (fst d) (snd d) = (r, fs)"
  shows "disk_views (fst d, fs) \<subseteq> disk_views d"
proof -
  obtain s fs' where run: "journal_read (fst d) (snd d) = (s, fs')" by fastforce
  have "safe (fst d) (disk_views d) (snd d)" by (simp add: safe_def disk_views_def)
  from journal_read_safe [OF run this] run assms show ?thesis
    by (auto simp: current_journal_read_def safe_def disk_views_def)
qed

definition disk_put :: "byte list \<Rightarrow> disk \<Rightarrow> bool \<times> disk" where
  "disk_put payload d =
     (let (r, fs) = journal_write (fst d) payload (snd d)
      in (journal_status r = Journal_success, fst d, fs))"

lemma disk_put_laws:
  assumes "disk_ok d"
  shows "disk_views (snd (disk_put payload d)) \<subseteq>
           insert (Journal_success, payload) (disk_views d)"
    "fst (disk_put payload d) \<Longrightarrow>
       disk_views (snd (disk_put payload d)) = {(Journal_success, payload)}"
proof -
  obtain r fs where run: "journal_write (fst d) payload (snd d) = (r, fs)" by fastforce
  let ?A = "insert (Journal_success, payload) (disk_views d)"
  have "safe (fst d) ?A (snd d)" by (simp add: safe_def disk_views_def)
  with journal_write_outcome [OF _ _ this _ run] assms have
    out: "safe (fst d) ?A fs" and ok: "journal_status r = Journal_success \<longrightarrow>
      durable fs = live fs \<and> recovered (fst d) (live fs) = read_success From_primary payload"
    by (auto simp: disk_ok_def)
  from out run show "disk_views (snd (disk_put payload d)) \<subseteq> ?A"
    by (simp add: disk_put_def disk_views_def safe_def)
  assume "fst (disk_put payload d)"
  with ok run show "disk_views (snd (disk_put payload d)) = {(Journal_success, payload)}"
    using recovered_record_success [of "fst d" "live fs" From_primary payload]
    by (auto simp: disk_put_def disk_views_def)
qed

interpretation durable: record_store disk_put disk_views "Pair Journal_success" disk_ok
proof
  fix d payload
  assume ok: "disk_ok d"
  then show "disk_ok (snd (disk_put payload d))"
    by (simp add: disk_put_def disk_ok_def split_beta Let_def)
  show "disk_views (snd (disk_put payload d)) \<subseteq> insert (Journal_success, payload) (disk_views d)"
    by (rule disk_put_laws(1) [OF ok])
  show "disk_views (snd (disk_put payload d)) = {(Journal_success, payload)}"
    if "fst (disk_put payload d)"
    by (rule disk_put_laws(2) [OF ok that])
qed

text \<open>The typed journal of one kind of operation, on the same disk.\<close>

definition current_put :: "CurrentOperationKind \<Rightarrow> byte list \<Rightarrow> disk \<Rightarrow> bool \<times> disk" where
  "current_put kind payload d =
     (let (r, fs) = current_journal_write (fst d) kind payload (snd d)
      in (journal_status r = Journal_success, fst d, fs))"

lemma current_put_cases:
  "current_put kind payload d =
     (if operation_payload_ok kind payload then disk_put (encode_operation kind payload) d
      else (False, d))"
  by (auto simp: current_put_def current_journal_write_def disk_put_def operation_payload_ok_def)

interpretation current: record_store "current_put kind" disk_views
  "\<lambda>payload. (Journal_success, encode_operation kind payload)" disk_ok
  for kind
proof
  fix d payload
  assume ok: "disk_ok d"
  show "disk_ok (snd (current_put kind payload d))"
    using durable.put_inv [OF ok] ok by (simp add: current_put_cases)
  show "disk_views (snd (current_put kind payload d)) \<subseteq>
      insert (Journal_success, encode_operation kind payload) (disk_views d)"
    using durable.put_views [OF ok] by (auto simp: current_put_cases)
  show "disk_views (snd (current_put kind payload d)) =
      {(Journal_success, encode_operation kind payload)}"
    if "fst (current_put kind payload d)"
    using durable.put_stored [OF ok] that by (auto simp: current_put_cases split: if_splits)
qed

end
