(* ===== verification/File_Operation.thy ===== *)
theory File_Operation
  imports Operation_Journal
begin

text \<open>
  The requests and results exchanged with the file-operation service:
  \<open>include/vove/fileops/file_operation.hpp\<close>, the three request validators of
  \<open>src/Source/src/fileops/file_operation.cpp\<close> (POSIX branches) and the merge of an attempted
  outcome with a read-only observation. A validator returns the detail text it refuses with.
\<close>

section \<open>Data\<close>

datatype OperationStatus =
    Success | Invalid_request | Not_found | Conflict | Source_changed | Permission_denied
  | Authentication_required | Disconnected | Timed_out | Unsupported | Unknown_outcome
  | Io_error | Cross_device | File_in_use

datatype OperationEvidence = Evidence_none | Committed | No_commit | Conflicting

datatype RenameAction = Execute | Reconcile_only

datatype OperationObjectKind = Regular_file | Directory_object

datatype RenameMode =
    Single_preserve_extension | Batch_internal | Trash_internal | Trash_restore | Transfer_atomic
  | Transfer_stage | Transfer_publish | Transfer_restore | Single_allow_extension_change
  | Transfer_publish_replace | Transfer_atomic_replace | Transfer_overwrite_stage
  | Transfer_overwrite_restore | Trash_store_preserve_permissions
  | Trash_restore_preserve_permissions

datatype DeleteMode =
    Permanent_remote | Trash_purge | Transfer_temp_cleanup | Transfer_source_commit
  | Transfer_overwrite_cleanup | Trash_purge_preserve_permissions

datatype CreateDirectoryMode = User_visible | Trash_container | Trash_container_remove_empty

record RenameRequest =
  rename_operation_id :: u64
  rename_action :: RenameAction
  rename_mode :: RenameMode
  rename_object_kind :: OperationObjectKind
  rename_source :: path
  rename_destination :: path
  rename_expected_source :: SourceSnapshot
  rename_source_parent_identity :: string
  rename_destination_parent_identity :: string
  rename_anchor_path :: path
  rename_anchor_identity :: string
  rename_expected_destination :: SourceSnapshot
  rename_security_baseline :: string

record DeleteRequest =
  delete_operation_id :: u64
  delete_action :: RenameAction
  delete_mode :: DeleteMode
  delete_object_kind :: OperationObjectKind
  delete_source :: path
  delete_expected_source :: SourceSnapshot
  delete_source_parent_identity :: string
  delete_guard_path :: path
  delete_expected_guard :: SourceSnapshot
  delete_guard_parent_identity :: string
  delete_security_baseline :: string

record CreateDirectoryRequest =
  create_operation_id :: u64
  create_action :: RenameAction
  create_mode :: CreateDirectoryMode
  create_destination :: path
  create_parent_revision :: string

record OperationResult =
  result_operation_id :: u64
  status :: OperationStatus
  evidence :: OperationEvidence
  platform_code :: i64
  source_present :: bool
  source_matches_expected :: bool
  destination_present :: bool
  destination_matches_source :: bool
  confirmed_snapshot :: SourceSnapshot
  detail_utf8 :: string

definition result_ok :: "OperationResult \<Rightarrow> bool" where
  "result_ok r \<longleftrightarrow> status r = Success"

section \<open>Mode predicates\<close>

definition rename_preserves_trash_permissions :: "RenameMode \<Rightarrow> bool" where
  "rename_preserves_trash_permissions mode \<longleftrightarrow>
     mode = Trash_store_preserve_permissions \<or> mode = Trash_restore_preserve_permissions"

definition delete_preserves_trash_permissions :: "DeleteMode \<Rightarrow> bool" where
  "delete_preserves_trash_permissions mode \<longleftrightarrow> mode = Trash_purge_preserve_permissions"

definition is_trash_store_mode :: "RenameMode \<Rightarrow> bool" where
  "is_trash_store_mode mode \<longleftrightarrow> mode = Trash_internal \<or> mode = Trash_store_preserve_permissions"

definition is_trash_restore_mode :: "RenameMode \<Rightarrow> bool" where
  "is_trash_restore_mode mode \<longleftrightarrow> mode = Trash_restore \<or> mode = Trash_restore_preserve_permissions"

definition is_trash_purge_mode :: "DeleteMode \<Rightarrow> bool" where
  "is_trash_purge_mode mode \<longleftrightarrow> mode = Trash_purge \<or> delete_preserves_trash_permissions mode"

definition transfer_rename_mode :: "RenameMode \<Rightarrow> bool" where
  "transfer_rename_mode mode \<longleftrightarrow>
     mode = Transfer_atomic \<or> mode = Transfer_stage \<or> mode = Transfer_publish \<or>
     mode = Transfer_restore \<or> mode = Transfer_publish_replace \<or>
     mode = Transfer_atomic_replace \<or> mode = Transfer_overwrite_stage \<or>
     mode = Transfer_overwrite_restore"

definition transfer_delete_mode :: "DeleteMode \<Rightarrow> bool" where
  "transfer_delete_mode mode \<longleftrightarrow>
     mode = Transfer_temp_cleanup \<or> mode = Transfer_source_commit \<or>
     mode = Transfer_overwrite_cleanup"

lemmas mode_defs =
  rename_preserves_trash_permissions_def delete_preserves_trash_permissions_def
  is_trash_store_mode_def is_trash_restore_mode_def is_trash_purge_mode_def
  transfer_rename_mode_def transfer_delete_mode_def

section \<open>Reserved places\<close>

definition lower_hex_char :: "char \<Rightarrow> bool" where
  "lower_hex_char c \<longleftrightarrow>
     48 \<le> (of_char c :: nat) \<and> (of_char c :: nat) \<le> 57 \<or>
     97 \<le> (of_char c :: nat) \<and> (of_char c :: nat) \<le> 102"

definition is_trash_container :: "path \<Rightarrow> bool" where
  "is_trash_container p \<longleftrightarrow>
     is_trash_filename (filename p) \<and> length kTrashFilenamePrefix < length (filename p) \<and>
     list_all lower_hex_char (drop (length kTrashFilenamePrefix) (filename p))"

definition is_trash_item :: "path \<Rightarrow> bool" where
  "is_trash_item p \<longleftrightarrow>
     is_trash_item_filename (filename p) \<and> length kTrashItemFilenamePrefix < length (filename p) \<and>
     is_trash_container (parent_path p) \<and>
     list_all lower_hex_char (drop (length kTrashItemFilenamePrefix) (filename p))"

lemma length_strip_slashes: "length (strip_slashes p) \<le> length p"
  using length_dropWhile_le [of "\<lambda>c. c = slash" "rev p"] by (simp add: strip_slashes_def)

lemma parent_path_shorter:
  assumes "\<not> path_eq (parent_path p) p"
  shows "length (parent_path p) < length p"
proof -
  let ?dir = "rev (dropWhile (\<lambda>c. c \<noteq> slash) (rev p))"
  from assms have seg: "segments p \<noteq> []"
    by (auto simp: parent_path_def)
  then obtain q c where p: "p = q @ [c]"
    by (cases p rule: rev_cases) auto
  have parent: "parent_path p =
      (if ?dir \<noteq> [] \<and> strip_slashes ?dir = [] then [slash] else strip_slashes ?dir)"
    using seg by (simp add: parent_path_def Let_def)
  show ?thesis
  proof (cases "c = slash")
    case True
    then have dir: "?dir = p" and strip: "strip_slashes p = strip_slashes q"
      by (simp_all add: p strip_slashes_def)
    have "strip_slashes p \<noteq> []"
      using seg by (auto simp: strip_slashes_def dropWhile_eq_Nil_conv segments_empty_iff)
    with dir strip parent length_strip_slashes [of q] show ?thesis by (simp add: p)
  next
    case False
    then have "length ?dir < length p"
      using length_dropWhile_le [of "\<lambda>c. c \<noteq> slash" "rev q"] by (simp add: p)
    moreover have "length (parent_path p) \<le> length ?dir"
      using parent length_strip_slashes [of ?dir] by (cases ?dir) (auto simp: Suc_le_eq)
    ultimately show ?thesis by linarith
  qed
qed

text \<open>The loop from a path to its ancestors.\<close>

function owned_trash_loop :: "path \<Rightarrow> bool" where
  "owned_trash_loop candidate =
     (if candidate = [] then False
      else if is_trash_item candidate then True
      else if path_eq (parent_path candidate) candidate then False
      else owned_trash_loop (parent_path candidate))"
  by pat_completeness auto
termination
  by (relation "measure length") (auto simp: parent_path_shorter)

declare owned_trash_loop.simps [simp del]

definition is_owned_trash_payload_path :: "path \<Rightarrow> bool" where
  "is_owned_trash_payload_path p \<longleftrightarrow>
     same_path_spelling p (lexically_normal p) \<and> owned_trash_loop (lexically_normal p)"

definition transfer_source_name :: "path \<Rightarrow> bool" where
  "transfer_source_name p \<longleftrightarrow> starts_with (filename p) kTransferSourceFilenamePrefix"

definition transfer_destination_name :: "path \<Rightarrow> bool" where
  "transfer_destination_name p \<longleftrightarrow> starts_with (filename p) kTransferDestinationFilenamePrefix"

definition transfer_overwrite_backup_name :: "path \<Rightarrow> bool" where
  "transfer_overwrite_backup_name p \<longleftrightarrow>
     starts_with (filename p) kTransferOverwriteBackupFilenamePrefix"

section \<open>Rename requests\<close>

definition rename_replacement :: "RenameRequest \<Rightarrow> bool" where
  "rename_replacement r \<longleftrightarrow>
     rename_mode r = Transfer_publish_replace \<or> rename_mode r = Transfer_atomic_replace"

definition bad_replacement :: "RenameRequest \<Rightarrow> bool" where
  "bad_replacement r \<longleftrightarrow>
     (let revision = source_revision_utf8 (rename_expected_destination r) in
      rename_replacement r \<noteq> (revision \<noteq> []) \<or>
      (rename_replacement r \<and>
       (rename_anchor_path r \<noteq> [] \<or> stable_object_identity revision = [] \<or>
        starts_with revision ''win-file:'' \<or>
        same_object_identity (source_revision_utf8 (rename_expected_source r)) revision)))"

definition single_mode :: "RenameRequest \<Rightarrow> bool" where
  "single_mode r \<longleftrightarrow>
     rename_mode r = Single_preserve_extension \<or> rename_mode r = Single_allow_extension_change"

definition bad_anchor :: "RenameRequest \<Rightarrow> bool" where
  "bad_anchor r \<longleftrightarrow>
     (rename_anchor_path r \<noteq> []) \<noteq> (rename_anchor_identity r \<noteq> []) \<or>
     (rename_anchor_path r \<noteq> [] \<and>
      (\<not> transfer_rename_mode (rename_mode r) \<or> \<not> is_absolute (rename_anchor_path r) \<or>
       \<not> valid_utf8 (rename_anchor_path r) \<or>
       starts_with (rename_anchor_identity r) ''win-file:'' \<or>
       stable_object_identity (rename_anchor_identity r) \<noteq> rename_anchor_identity r))"

definition same_parent :: "RenameRequest \<Rightarrow> bool" where
  "same_parent r \<longleftrightarrow>
     same_path_spelling (parent_path (rename_source r)) (parent_path (rename_destination r))"

definition trash_store_shape :: "RenameRequest \<Rightarrow> bool" where
  "trash_store_shape r \<longleftrightarrow>
     is_trash_store_mode (rename_mode r) \<and> \<not> is_trash_item (rename_source r) \<and>
     is_trash_item (rename_destination r)"

definition trash_restore_shape :: "RenameRequest \<Rightarrow> bool" where
  "trash_restore_shape r \<longleftrightarrow>
     is_trash_restore_mode (rename_mode r) \<and> is_trash_item (rename_source r) \<and>
     \<not> is_trash_item (rename_destination r)"

definition transfer_shape :: "RenameRequest \<Rightarrow> bool" where
  "transfer_shape r \<longleftrightarrow>
     (let mode = rename_mode r;
          plain_source = \<not> is_transfer_filename (filename (rename_source r));
          plain_destination = \<not> is_transfer_filename (filename (rename_destination r)) in
      ((mode = Transfer_atomic \<or> mode = Transfer_atomic_replace) \<and>
         plain_source \<and> plain_destination) \<or>
      (mode = Transfer_stage \<and> same_parent r \<and> plain_source \<and>
         transfer_source_name (rename_destination r)) \<or>
      ((mode = Transfer_publish \<or> mode = Transfer_publish_replace) \<and> same_parent r \<and>
         transfer_destination_name (rename_source r) \<and> plain_destination) \<or>
      (mode = Transfer_restore \<and> same_parent r \<and> transfer_source_name (rename_source r) \<and>
         plain_destination) \<or>
      (mode = Transfer_overwrite_stage \<and> same_parent r \<and> plain_source \<and>
         transfer_overwrite_backup_name (rename_destination r)) \<or>
      (mode = Transfer_overwrite_restore \<and> same_parent r \<and>
         transfer_overwrite_backup_name (rename_source r) \<and> plain_destination))"

definition bad_storage_identity :: "string \<Rightarrow> bool" where
  "bad_storage_identity identity \<longleftrightarrow>
     identity \<noteq> [] \<and>
     (\<not> valid_utf8 identity \<or> CHR 0x00 \<in> set identity \<or> \<not> starts_with identity ''linux-smb:'')"

definition bad_transfer_identities :: "RenameRequest \<Rightarrow> bool" where
  "bad_transfer_identities r \<longleftrightarrow>
     stable_object_identity (rename_source_parent_identity r) \<noteq> rename_source_parent_identity r \<or>
     stable_object_identity (rename_destination_parent_identity r) \<noteq>
       rename_destination_parent_identity r \<or>
     starts_with (rename_source_parent_identity r) ''win-file:'' \<or>
     starts_with (rename_destination_parent_identity r) ''win-file:'' \<or>
     CHR '':'' \<in> set (filename (rename_source r)) \<or>
     CHR '':'' \<in> set (filename (rename_destination r)) \<or>
     starts_with (source_revision_utf8 (rename_expected_source r)) ''win-file:''"

definition valid_rename_request :: "RenameRequest \<Rightarrow> string + unit" where
  "valid_rename_request r =
     (let mode = rename_mode r; revision = source_revision_utf8 (rename_expected_source r);
          directory_object = (rename_object_kind r = Directory_object);
          trash_mode = (is_trash_store_mode mode \<or> is_trash_restore_mode mode);
          ordinary_mode = (single_mode r \<or> mode = Batch_internal) in
      if rename_preserves_trash_permissions mode then
        Inl ''preserved Trash permissions require Windows''
      else if rename_security_baseline r \<noteq> [] then
        Inl ''security baseline is incompatible with rename mode''
      else if bad_replacement r then
        Inl ''replacement requires a distinct authorized destination snapshot''
      else if \<not> single_mode r \<and> mode \<noteq> Batch_internal \<and> \<not> trash_mode \<and>
              \<not> transfer_rename_mode mode then Inl ''rename mode is invalid''
      else if directory_object \<and> \<not> single_mode r \<and> mode \<noteq> Batch_internal \<and> \<not> trash_mode then
        Inl ''directory rename requires same-parent rename or VO-VE Trash''
      else if rename_operation_id r = 0 \<or> rename_source r = [] \<or> rename_destination r = [] \<or>
              revision = [] then Inl ''rename request is incomplete''
      else if \<not> is_absolute (rename_source r) \<or> \<not> is_absolute (rename_destination r) then
        Inl ''rename paths must be absolute''
      else if \<not> valid_utf8 (rename_source r) \<or> \<not> valid_utf8 (rename_destination r) then
        Inl ''rename paths must contain valid UTF-8''
      else if bad_anchor r then Inl ''rename destination anchor is incomplete or unsafe''
      else if path_eq (rename_source r) (rename_destination r) then
        Inl ''source and destination paths are identical''
      else if (ordinary_mode \<and> \<not> same_parent r) \<or>
              (\<not> ordinary_mode \<and> \<not> trash_store_shape r \<and> \<not> trash_restore_shape r \<and>
               \<not> transfer_shape r) then
        Inl (if ordinary_mode then ''single rename must stay inside the current directory''
             else ''internal rename has an invalid reserved-path shape'')
      else case valid_destination_filename (filename (rename_destination r)) of
        Inl detail \<Rightarrow> Inl detail
      | Inr _ \<Rightarrow>
          if single_mode r \<and> is_internal_filename (filename (rename_destination r)) then
            Inl ''rename destination uses a reserved VO-VE filename''
          else if \<not> directory_object \<and> mode = Single_preserve_extension \<and>
                  \<not> same_extension (rename_source r) (rename_destination r) then
            Inl ''rename cannot change the file extension''
          else if trash_mode \<and> \<not> posix_revision revision then
            Inl ''VO-VE Trash requires a typed POSIX source identity''
          else if trash_mode \<and> bad_storage_identity (rename_source_parent_identity r) then
            Inl ''rename request storage identity is inconsistent with its mode''
          else if transfer_rename_mode mode \<and> bad_transfer_identities r then
            Inl ''file transfer rename requires typed source and parent identities''
          else if stable_object_identity revision = [] then
            Inl ''rename request has no stable source identity''
          else Inr ())"

section \<open>Delete requests\<close>

definition delete_shape :: "DeleteRequest \<Rightarrow> bool" where
  "delete_shape r \<longleftrightarrow>
     (if delete_mode r = Transfer_temp_cleanup then transfer_destination_name (delete_source r)
      else if delete_mode r = Transfer_overwrite_cleanup then
        transfer_overwrite_backup_name (delete_source r)
      else transfer_source_name (delete_source r) \<and> delete_guard_path r \<noteq> [] \<and>
           is_absolute (delete_guard_path r) \<and>
           \<not> is_transfer_filename (filename (delete_guard_path r)))"

definition delete_cleanup :: "DeleteRequest \<Rightarrow> bool" where
  "delete_cleanup r \<longleftrightarrow>
     delete_mode r = Transfer_temp_cleanup \<or> delete_mode r = Transfer_overwrite_cleanup"

definition bad_delete_guards :: "DeleteRequest \<Rightarrow> bool" where
  "bad_delete_guards r \<longleftrightarrow>
     \<not> delete_shape r \<or>
     stable_object_identity (delete_source_parent_identity r) \<noteq> delete_source_parent_identity r \<or>
     starts_with (delete_source_parent_identity r) ''win-file:'' \<or>
     CHR '':'' \<in> set (filename (delete_source r)) \<or>
     starts_with (source_revision_utf8 (delete_expected_source r)) ''win-file:'' \<or>
     (\<not> delete_cleanup r \<and>
      (stable_object_identity (source_revision_utf8 (delete_expected_guard r)) = [] \<or>
       stable_object_identity (delete_guard_parent_identity r) \<noteq> delete_guard_parent_identity r \<or>
       starts_with (delete_guard_parent_identity r) ''win-file:'' \<or>
       CHR '':'' \<in> set (filename (delete_guard_path r)) \<or>
       starts_with (source_revision_utf8 (delete_expected_guard r)) ''win-file:'' \<or>
       \<not> valid_utf8 (delete_guard_path r)))"

definition valid_delete_request :: "DeleteRequest \<Rightarrow> string + unit" where
  "valid_delete_request r =
     (let mode = delete_mode r; revision = source_revision_utf8 (delete_expected_source r) in
      if delete_preserves_trash_permissions mode then
        Inl ''preserved Trash permissions require Windows''
      else if delete_security_baseline r \<noteq> [] then
        Inl ''security baseline is incompatible with delete mode''
      else if mode \<noteq> Permanent_remote \<and> \<not> is_trash_purge_mode mode \<and>
              \<not> transfer_delete_mode mode then Inl ''delete mode is invalid''
      else if delete_object_kind r = Directory_object \<and> \<not> is_trash_purge_mode mode then
        Inl ''directory deletion is restricted to VO-VE Trash purge''
      else if delete_operation_id r = 0 \<or> delete_source r = [] \<or> revision = [] then
        Inl ''delete request is incomplete''
      else if \<not> is_absolute (delete_source r) then Inl ''delete source path must be absolute''
      else if \<not> valid_utf8 (delete_source r) then
        Inl ''delete source path must contain valid UTF-8''
      else if transfer_delete_mode mode \<and> bad_delete_guards r then
        Inl ''file transfer delete has invalid ownership guards''
      else if transfer_delete_mode mode \<and> delete_cleanup r \<and>
              (delete_guard_path r \<noteq> [] \<or>
               source_revision_utf8 (delete_expected_guard r) \<noteq> [] \<or>
               size_bytes (delete_expected_guard r) \<noteq> 0 \<or>
               modified_unix_ns (delete_expected_guard r) \<noteq> 0 \<or>
               delete_guard_parent_identity r \<noteq> []) then
        Inl ''transfer cleanup cannot carry a publication guard''
      else if stable_object_identity revision = [] then
        Inl ''delete request has no stable source identity''
      else if is_trash_purge_mode mode \<and>
              (\<not> is_owned_trash_payload_path (delete_source r) \<or> \<not> posix_revision revision) then
        Inl ''trash purge requires an owned item and a typed POSIX identity''
      else if is_trash_purge_mode mode \<and> bad_storage_identity (delete_source_parent_identity r) then
        Inl ''delete request storage identity is inconsistent with its mode''
      else Inr ())"

section \<open>Directory creation\<close>

definition valid_create_directory_request :: "CreateDirectoryRequest \<Rightarrow> string + unit" where
  "valid_create_directory_request r =
     (if create_operation_id r = 0 \<or> create_destination r = [] \<or>
         (create_mode r = User_visible \<and> create_parent_revision r = []) then
        Inl ''create-directory request is incomplete''
      else if \<not> is_absolute (create_destination r) \<or> parent_path (create_destination r) = [] then
        Inl ''create-directory destination must be absolute and have a parent''
      else if \<not> valid_utf8 (create_destination r) \<or> \<not> valid_utf8 (create_parent_revision r) then
        Inl ''create-directory request text must contain valid UTF-8''
      else case valid_destination_filename (filename (create_destination r)) of
        Inl detail \<Rightarrow> Inl detail
      | Inr _ \<Rightarrow>
          if create_parent_revision r \<noteq> [] \<and>
             stable_object_identity (create_parent_revision r) = [] then
            Inl ''create-directory request has an invalid name or parent identity''
          else if create_mode r = User_visible then
            (if is_internal_filename (filename (create_destination r)) then
               Inl ''create-directory request uses a reserved VO-VE name''
             else Inr ())
          else if filename (create_destination r) \<noteq>
                  kTrashFilenamePrefix @ hexadecimal (create_operation_id r) then
            Inl ''trash container name does not match its operation''
          else Inr ())"

section \<open>Merging an attempt with an observation\<close>

definition observe_presence :: "OperationResult \<Rightarrow> OperationResult \<Rightarrow> OperationResult" where
  "observe_presence attempted observed =
     attempted\<lparr>source_present := source_present observed,
               source_matches_expected := source_matches_expected observed,
               destination_present := destination_present observed,
               destination_matches_source := destination_matches_source observed\<rparr>"

definition evidence_conflict :: "OperationResult \<Rightarrow> OperationResult \<Rightarrow> bool" where
  "evidence_conflict attempted observed \<longleftrightarrow>
     evidence attempted = Conflicting \<or> evidence observed = Conflicting \<or>
     (evidence attempted = Committed \<and> evidence observed = No_commit) \<or>
     (evidence attempted = No_commit \<and> evidence observed = Committed)"

definition merge_reconciliation :: "OperationResult \<Rightarrow> OperationResult \<Rightarrow> OperationResult" where
  "merge_reconciliation attempted observed =
     (if evidence_conflict attempted observed then
        (observe_presence attempted observed)
          \<lparr>status := Unknown_outcome, evidence := Conflicting,
           platform_code := platform_code observed, confirmed_snapshot := empty_snapshot,
           detail_utf8 :=
             ''operation result conflicts with read-only reconciliation; recovery is required''\<rparr>
      else if status attempted = Unknown_outcome \<and> evidence attempted = Committed \<and>
              destination_present attempted \<and> destination_matches_source attempted \<and>
              status observed = Success \<and> evidence observed = Committed then
        (observe_presence attempted observed)\<lparr>confirmed_snapshot := confirmed_snapshot observed\<rparr>
      else if status observed = Success \<or> status observed = Conflict \<or>
              status observed = Source_changed then
        (if status observed \<noteq> Success \<and> detail_utf8 attempted \<noteq> [] then
           observed
             \<lparr>detail_utf8 := detail_utf8 observed @ ''; operation attempt: '' @ detail_utf8 attempted,
              platform_code := (if platform_code observed = 0 then platform_code attempted
                                else platform_code observed)\<rparr>
         else observed)
      else
        (observe_presence attempted observed)
          \<lparr>evidence := (if evidence attempted = Evidence_none then evidence observed
                        else evidence attempted)\<rparr>)"

text \<open>A merged result reports success only when nothing contradicts it: either the observation
  succeeded, or the attempt did and the observation left its status standing.\<close>

lemma merge_success:
  assumes "status (merge_reconciliation attempted observed) = Success"
  shows "\<not> evidence_conflict attempted observed \<and>
    (status observed = Success \<or>
     status attempted = Success \<and> status observed \<noteq> Conflict \<and> status observed \<noteq> Source_changed)"
  using assms
  by (auto simp: merge_reconciliation_def observe_presence_def split: if_splits)

lemma merge_evidence:
  "evidence (merge_reconciliation attempted observed) =
     (if evidence_conflict attempted observed then Conflicting
      else if status observed \<in> {Success, Conflict, Source_changed} then evidence observed
      else if evidence attempted = Evidence_none then evidence observed else evidence attempted)"
  by (auto simp: merge_reconciliation_def observe_presence_def)

section \<open>What a valid request promises\<close>

text \<open>Elimination of a chain of refusals.\<close>

lemma refuse_unless_Inr [outcome_simps]:
  "(if bad then Inl e else next) = Inr u \<longleftrightarrow> \<not> bad \<and> next = Inr u"
  by auto

lemma case_sum_Inr [outcome_simps]:
  "(case x of Inl e \<Rightarrow> Inl e | Inr a \<Rightarrow> f a) = Inr u \<longleftrightarrow> (\<exists>a. x = Inr a \<and> f a = Inr u)"
  by (cases x) auto

lemma valid_rename_requestD:
  assumes "valid_rename_request r = Inr ()"
  shows "rename_operation_id r \<noteq> 0"
    "is_absolute (rename_source r)" "is_absolute (rename_destination r)"
    "valid_utf8 (rename_source r)" "valid_utf8 (rename_destination r)"
    "\<not> path_eq (rename_source r) (rename_destination r)"
    "valid_destination_filename (filename (rename_destination r)) = Inr ()"
    "single_mode r \<or> rename_mode r = Batch_internal \<Longrightarrow> same_parent r"
    "single_mode r \<Longrightarrow> \<not> is_internal_filename (filename (rename_destination r))"
    "stable_object_identity (source_revision_utf8 (rename_expected_source r)) \<noteq> []"
    "rename_mode r = Single_preserve_extension \<Longrightarrow> rename_object_kind r = Regular_file \<Longrightarrow>
       extension (rename_source r) = extension (rename_destination r)"
  using assms
  by (cases "rename_object_kind r";
      simp add: valid_rename_request_def outcome_simps Let_def same_extension_def)+

lemma owned_trash_loop_ancestor:
  "owned_trash_loop p \<Longrightarrow> \<exists>n. is_trash_item ((parent_path ^^ n) p)"
proof (induction p rule: owned_trash_loop.induct)
  case (1 p)
  show ?case
  proof (cases "is_trash_item p")
    case True
    then have "is_trash_item ((parent_path ^^ 0) p)" by simp
    then show ?thesis by blast
  next
    case False
    with 1 obtain n where "is_trash_item ((parent_path ^^ n) (parent_path p))"
      by (subst (asm) (2) owned_trash_loop.simps) (auto split: if_splits)
    then have "is_trash_item ((parent_path ^^ Suc n) p)" by (simp add: funpow_swap1)
    then show ?thesis by blast
  qed
qed


end
