(* ===== verification/Batch_Plan.thy ===== *)
theory Batch_Plan
  imports File_Operation
begin

text \<open>
  Planning a batch rename: \<open>src/Source/src/fileops/batch_rename.cpp\<close>. A plan is computed from the
  selection, the names of the directory and the options, without touching the file system. The
  conversion of a time stamp to the local calendar, \<open>localtime_r\<close>, is a parameter.
\<close>

section \<open>Data\<close>

datatype BatchDateTimeSource = From_modified | From_current
datatype BatchDateFormat = Yyyy_mm_dd | Yyyymmdd | Dd_mm_yyyy
datatype BatchTimeFormat = Hh_mm | Hhmm | Hh_mm_ss
datatype BatchExtensionMode = Preserve_extension | Replace_extension

datatype BatchRenameIssue =
    Issue_none | Empty_selection | Mixed_directories | Invalid_source | Invalid_template
  | Unknown_token | Counter_overflow | Invalid_name | Duplicate_destination
  | Occupied_destination

record BatchRenameSource =
  source_path :: path
  source_size_bytes :: u64
  source_modified_unix_ns :: i64
  source_revision :: string
  source_object_kind :: OperationObjectKind

record BatchRenameOptions =
  name_template :: string
  counter_start :: u64
  counter_step :: u64
  counter_padding :: u8
  date_time_source :: BatchDateTimeSource
  date_format :: BatchDateFormat
  time_format :: BatchTimeFormat
  extension_mode :: BatchExtensionMode
  replacement_extension_text :: string
  current_unix_ns :: i64

record BatchRenameRow =
  row_source :: path
  row_destination :: path
  row_issue :: BatchRenameIssue
  row_detail :: string

record BatchRenamePlan =
  plan_issue :: BatchRenameIssue
  plan_detail :: string
  plan_rows :: "BatchRenameRow list"

definition row_valid :: "BatchRenameRow \<Rightarrow> bool" where
  "row_valid row \<longleftrightarrow> row_issue row = Issue_none"

definition plan_valid :: "BatchRenamePlan \<Rightarrow> bool" where
  "plan_valid plan \<longleftrightarrow> plan_issue plan = Issue_none"

text \<open>The fields of \<open>std::tm\<close> the program reads.\<close>

record tm =
  tm_year :: int
  tm_mon :: int
  tm_mday :: int
  tm_hour :: int
  tm_min :: int
  tm_sec :: int

type_synonym localtime = "int \<Rightarrow> tm option"

section \<open>Names\<close>

definition ascii_lower_char :: "char \<Rightarrow> char" where
  "ascii_lower_char c =
     (if 65 \<le> (of_char c :: nat) \<and> (of_char c :: nat) \<le> 90 then char_of (of_char c - 65 + 97 :: nat)
      else c)"

definition batch_rename_collision_key :: "path \<Rightarrow> string" where
  "batch_rename_collision_key p = map ascii_lower_char (filename p)"

text \<open>\<open>duration_cast\<close> truncates towards zero.\<close>

definition local_time :: "localtime \<Rightarrow> i64 \<Rightarrow> tm option" where
  "local_time localtime_r unix_ns =
     (let ns = sint unix_ns in
      localtime_r (if ns < 0 then - ((- ns) div 1000000000) else ns div 1000000000))"

definition append_padded :: "string \<Rightarrow> nat \<Rightarrow> nat \<Rightarrow> string" where
  "append_padded output value width =
     (let digits = decimal value in
      output @ (if length digits < width then replicate (width - length digits) CHR ''0'' else [])
        @ digits)"

definition to_unsigned :: "int \<Rightarrow> nat" where
  "to_unsigned i = nat (i mod 2 ^ 32)"

definition format_date :: "tm \<Rightarrow> BatchDateFormat \<Rightarrow> string" where
  "format_date t f =
     (let year = to_unsigned (tm_year t + 1900); month = to_unsigned (tm_mon t + 1);
          day = to_unsigned (tm_mday t) in
      case f of
        Yyyy_mm_dd \<Rightarrow>
          append_padded (append_padded (append_padded [] year 4 @ ''-'') month 2 @ ''-'') day 2
      | Yyyymmdd \<Rightarrow> append_padded (append_padded (append_padded [] year 4) month 2) day 2
      | Dd_mm_yyyy \<Rightarrow>
          append_padded (append_padded (append_padded [] day 2 @ ''-'') month 2 @ ''-'') year 4)"

definition format_time :: "tm \<Rightarrow> BatchTimeFormat \<Rightarrow> string" where
  "format_time t f =
     (let hour = to_unsigned (tm_hour t); minute = to_unsigned (tm_min t);
          second = to_unsigned (tm_sec t);
          output = append_padded [] hour 2;
          output = (if f \<noteq> Hhmm then output @ ''-'' else output);
          output = append_padded output minute 2
      in if f = Hh_mm_ss then append_padded (output @ ''-'') second 2 else output)"

definition counter_at :: "BatchRenameOptions \<Rightarrow> nat \<Rightarrow> u64 option" where
  "counter_at options index =
     (if counter_step options \<noteq> 0 \<and>
         unat ((- 1 - counter_start options) div counter_step options) < index then None
      else Some (counter_start options + word_of_nat index * counter_step options))"

type_synonym problem = "BatchRenameIssue \<times> string"

text \<open>The loop over the template: \<open>rest\<close> is what is left of it.\<close>

function expand_loop ::
  "string \<Rightarrow> string \<Rightarrow> string \<Rightarrow> string \<Rightarrow> string \<Rightarrow> string \<Rightarrow> problem + string"
where
  "expand_loop name counter date clock [] output = Inr output"
| "expand_loop name counter date clock (c # rest) output =
     (if c = CHR ''{'' \<and> starts_with rest ''{'' then
        expand_loop name counter date clock (tl rest) (output @ ''{'')
      else if c = CHR ''}'' \<and> starts_with rest ''}'' then
        expand_loop name counter date clock (tl rest) (output @ ''}'')
      else if c \<noteq> CHR ''{'' then
        (if c = CHR ''}'' then
           Inl (Invalid_template, ''name template contains an unmatched closing brace'')
         else expand_loop name counter date clock rest (output @ [c]))
      else if CHR ''}'' \<notin> set rest then
        Inl (Invalid_template, ''name template contains an unmatched opening brace'')
      else
        let token = takeWhile (\<lambda>x. x \<noteq> CHR ''}'') rest; next = drop (length token + 1) rest in
        if token = ''name'' then expand_loop name counter date clock next (output @ name)
        else if token = ''counter'' then expand_loop name counter date clock next (output @ counter)
        else if token = ''date'' then expand_loop name counter date clock next (output @ date)
        else if token = ''time'' then expand_loop name counter date clock next (output @ clock)
        else Inl (Unknown_token, ''name template contains an unknown token''))"
  by pat_completeness auto
termination
  by (relation "measure (\<lambda>(_, _, _, _, t, _). length t)") auto

declare expand_loop.simps [simp del]

definition expand_name ::
  "localtime \<Rightarrow> BatchRenameSource \<Rightarrow> BatchRenameOptions \<Rightarrow> nat \<Rightarrow> problem + string"
where
  "expand_name localtime_r source options index =
     (if name_template options = [] then Inl (Invalid_template, ''name template is empty'')
      else if counter_padding options = 0 \<or> 20 < counter_padding options then
        Inl (Invalid_template, ''counter padding must be between 1 and 20'')
      else if counter_step options = 0 then
        Inl (Invalid_template, ''counter step must be at least one'')
      else case counter_at options index of
        None \<Rightarrow> Inl (Counter_overflow, ''counter value overflows'')
      | Some counter \<Rightarrow>
          (case local_time localtime_r
                  (if date_time_source options = From_modified then source_modified_unix_ns source
                   else current_unix_ns options) of
             None \<Rightarrow> Inl (Invalid_source, ''date or time is outside supported range'')
           | Some time \<Rightarrow>
               expand_loop
                 (if source_object_kind source = Directory_object then filename (source_path source)
                  else stem (filename (source_path source)))
                 (append_padded [] (unat counter) (unat (counter_padding options)))
                 (format_date time (date_format options)) (format_time time (time_format options))
                 (name_template options) []))"

definition replacement_extension :: "BatchRenameSource \<Rightarrow> BatchRenameOptions \<Rightarrow> string" where
  "replacement_extension source options =
     (if source_object_kind source = Directory_object then []
      else if extension_mode options = Preserve_extension then extension (source_path source)
      else if replacement_extension_text options = [] then []
      else CHR ''.'' # replacement_extension_text options)"

section \<open>Planning\<close>

definition mark_issue :: "problem \<Rightarrow> BatchRenamePlan \<times> BatchRenameRow \<Rightarrow> BatchRenamePlan \<times> BatchRenameRow"
where
  "mark_issue p pr =
     ((if plan_issue (fst pr) = Issue_none
       then (fst pr)\<lparr>plan_issue := fst p, plan_detail := snd p\<rparr> else fst pr),
      (if row_issue (snd pr) = Issue_none
       then (snd pr)\<lparr>row_issue := fst p, row_detail := snd p\<rparr> else snd pr))"

definition mark_when ::
  "bool \<Rightarrow> problem \<Rightarrow> BatchRenamePlan \<times> BatchRenameRow \<Rightarrow> BatchRenamePlan \<times> BatchRenameRow"
where
  "mark_when b p pr = (if b then mark_issue p pr else pr)"

definition bad_batch_source :: "BatchRenameSource \<Rightarrow> bool" where
  "bad_batch_source s \<longleftrightarrow>
     \<not> is_absolute (source_path s) \<or> filename (source_path s) = [] \<or>
     is_internal_filename (filename (source_path s)) \<or>
     (source_object_kind s = Directory_object \<and> source_size_bytes s \<noteq> 0)"

text \<open>The destination of one row, or the first problem with its generated name.\<close>

definition row_target ::
  "localtime \<Rightarrow> BatchRenameOptions \<Rightarrow> path \<Rightarrow> nat \<Rightarrow> BatchRenameSource \<Rightarrow> problem + path"
where
  "row_target localtime_r options parent index source =
     (case expand_name localtime_r source options index of
        Inl p \<Rightarrow> Inl p
      | Inr expanded \<Rightarrow>
          (let generated = expanded @ replacement_extension source options in
           if source_object_kind source = Regular_file \<and> extension_mode options = Replace_extension \<and>
              starts_with (replacement_extension_text options) ''.'' then
             Inl (Invalid_name, ''replacement extension must not start with a dot'')
           else case valid_destination_filename generated of
             Inl detail \<Rightarrow> Inl (Invalid_name, detail)
           | Inr _ \<Rightarrow>
               if is_internal_filename generated then
                 Inl (Invalid_name, ''batch destination uses a reserved VO-VE filename'')
               else Inr (if path_eq (filename (source_path source)) generated
                         then source_path source else path_append parent generated)))"

text \<open>One turn of the loop over the sources; the two sets are the keys seen so far.\<close>

definition plan_row ::
  "localtime \<Rightarrow> BatchRenameOptions \<Rightarrow> path \<Rightarrow> nat \<Rightarrow> BatchRenameSource \<Rightarrow> string set \<Rightarrow> string set \<Rightarrow>
   BatchRenamePlan \<Rightarrow> BatchRenamePlan \<times> BatchRenameRow"
where
  "plan_row localtime_r options parent index s source_keys identity_keys plan =
     (let pr = (plan, \<lparr>row_source = source_path s, row_destination = [], row_issue = Issue_none,
                       row_detail = []\<rparr>);
          pr = (if bad_batch_source s then
                  mark_issue (Invalid_source, ''batch rename source path is invalid'') pr
                else mark_when (lexically_normal (parent_path (source_path s)) \<noteq> parent)
                  (Mixed_directories, ''batch rename sources must share one directory'') pr);
          pr = mark_when (batch_rename_collision_key (source_path s) \<in> source_keys)
                  (Invalid_source, ''batch rename contains the same source more than once'') pr;
          identity = stable_object_identity (source_revision s);
          pr = (if identity = [] then
                  mark_issue (Invalid_source, ''batch rename source has no stable identity'') pr
                else mark_when (identity \<in> identity_keys)
                  (Invalid_source,
                   ''batch rename contains two paths to the same physical file'') pr)
      in case row_target localtime_r options parent index s of
           Inl p \<Rightarrow> mark_issue p pr
         | Inr destination \<Rightarrow> (fst pr, (snd pr)\<lparr>row_destination := destination\<rparr>))"

fun plan_sources ::
  "localtime \<Rightarrow> BatchRenameOptions \<Rightarrow> path \<Rightarrow> nat \<Rightarrow> BatchRenameSource list \<Rightarrow> string set \<Rightarrow>
   string set \<Rightarrow> BatchRenamePlan \<Rightarrow> string set \<times> BatchRenamePlan"
where
  "plan_sources localtime_r options parent index [] source_keys identity_keys plan =
     (source_keys, plan)"
| "plan_sources localtime_r options parent index (s # ss) source_keys identity_keys plan =
     (let (plan, row) =
            plan_row localtime_r options parent index s source_keys identity_keys plan;
          identity = stable_object_identity (source_revision s)
      in plan_sources localtime_r options parent (Suc index) ss
           (insert (batch_rename_collision_key (source_path s)) source_keys)
           (if identity = [] then identity_keys else insert identity identity_keys)
           (plan\<lparr>plan_rows := plan_rows plan @ [row]\<rparr>))"

definition mark_row :: "problem \<Rightarrow> nat \<Rightarrow> BatchRenamePlan \<Rightarrow> BatchRenamePlan" where
  "mark_row p index plan =
     (let (marked, row) = mark_issue p (plan, plan_rows plan ! index)
      in marked\<lparr>plan_rows := (plan_rows plan)[index := row]\<rparr>)"

text \<open>The second loop, over the row indices still to visit.\<close>

fun check_destinations ::
  "string set \<Rightarrow> string set \<Rightarrow> nat list \<Rightarrow> (string \<rightharpoonup> nat) \<Rightarrow> BatchRenamePlan \<Rightarrow> BatchRenamePlan"
where
  "check_destinations occupied_keys source_keys [] destination_keys plan = plan"
| "check_destinations occupied_keys source_keys (index # indices) destination_keys plan =
     (let row = plan_rows plan ! index; key = batch_rename_collision_key (row_destination row) in
      if row_destination row = [] then
        check_destinations occupied_keys source_keys indices destination_keys plan
      else case destination_keys key of
        Some existing \<Rightarrow>
          check_destinations occupied_keys source_keys indices destination_keys
            (mark_row (Duplicate_destination, ''two batch rows produce the same destination'')
               existing
            (mark_row (Duplicate_destination, ''two batch rows produce the same destination'')
               index plan))
      | None \<Rightarrow>
          check_destinations occupied_keys source_keys indices (destination_keys(key \<mapsto> index))
            (if key \<in> occupied_keys \<and> key \<notin> source_keys then
               mark_row (Occupied_destination,
                         ''batch destination is occupied by an unselected item'') index plan
             else plan))"

definition plan_batch_rename ::
  "localtime \<Rightarrow> BatchRenameSource list \<Rightarrow> path list \<Rightarrow> BatchRenameOptions \<Rightarrow> BatchRenamePlan"
where
  "plan_batch_rename localtime_r sources directory_names options =
     (if sources = [] then
        \<lparr>plan_issue = Empty_selection, plan_detail = ''batch rename selection is empty'',
         plan_rows = []\<rparr>
      else
        let parent = lexically_normal (parent_path (source_path (hd sources)));
            occupied_keys = batch_rename_collision_key ` set directory_names;
            (source_keys, plan) =
              plan_sources localtime_r options parent 0 sources {} {}
                \<lparr>plan_issue = Issue_none, plan_detail = [], plan_rows = []\<rparr>
        in check_destinations occupied_keys source_keys [0..<length (plan_rows plan)]
             Map.empty plan)"

section \<open>The counter\<close>

text \<open>An accepted counter has not wrapped around.\<close>

lemma unat_minus_one_minus: "unat (- 1 - a :: u64) = 2 ^ 64 - 1 - unat a"
proof -
  have "a \<le> - 1" by simp
  then have "unat (- 1 - a) = unat (- 1 :: u64) - unat a" by (rule unat_sub)
  then show ?thesis by (simp add: unsigned_minus_1_eq_mask mask_eq_exp_minus_1)
qed

lemma counter_at_value:
  assumes "counter_at options index = Some c" "counter_step options \<noteq> 0"
  shows "unat c = unat (counter_start options) + index * unat (counter_step options)"
proof -
  let ?a = "counter_start options" and ?d = "counter_step options"
  from assms have "index \<le> unat ((- 1 - ?a) div ?d)" and c: "c = ?a + word_of_nat index * ?d"
    by (auto simp: counter_at_def split: if_splits)
  then have le: "index \<le> (2 ^ 64 - 1 - unat ?a) div unat ?d"
    by (simp add: unat_div_distrib unat_minus_one_minus)
  have "(2 ^ 64 - 1 - unat ?a) div unat ?d * unat ?d \<le> 2 ^ 64 - 1 - unat ?a"
    by (rule div_times_less_eq_dividend)
  with mult_le_mono1 [OF le, of "unat ?d"]
  have prod: "index * unat ?d \<le> 2 ^ 64 - 1 - unat ?a" by (rule order_trans)
  have a: "unat ?a < 2 ^ 64" using unsigned_less [of ?a] by simp
  have "unat ?d \<noteq> 0" using assms(2) by (simp add: unat_eq_0)
  then have "index \<le> index * unat ?d" by simp
  with prod a have i: "index < 2 ^ 64" by linarith
  have "unat (word_of_nat index * ?d) = index * unat ?d"
    using prod a i by (simp add: unat_word_ariths unat_of_nat take_bit_eq_mod)
  with prod a show ?thesis by (simp add: c unat_word_ariths)
qed

lemma counter_at_None_overflows:
  assumes "counter_at options index = None"
  shows "2 ^ 64 \<le> unat (counter_start options) + index * unat (counter_step options)"
proof -
  let ?a = "counter_start options" and ?d = "counter_step options"
  have a: "unat ?a < 2 ^ 64" using unsigned_less [of ?a] by simp
  from assms have d: "0 < unat ?d" and "(2 ^ 64 - 1 - unat ?a) div unat ?d < index"
    by (auto simp: counter_at_def unat_div_distrib unat_minus_one_minus unat_gt_0 split: if_splits)
  then have "2 ^ 64 - 1 - unat ?a < index * unat ?d"
    by (metis div_less_iff_less_mult mult.commute)
  with a show ?thesis by linarith
qed

lemma digits_value_append_padded: "digits_value 10 (append_padded [] n w) = n"
  by (simp add: append_padded_def Let_def digits_value_zeros digits_value_to_chars)

section \<open>Marked plans\<close>

text \<open>\<open>flagged plan source b pr\<close>: the row has no issue exactly when \<open>b\<close>, and the plan exactly when
  it had none before and \<open>b\<close>.\<close>

definition flagged ::
  "BatchRenamePlan \<Rightarrow> path \<Rightarrow> bool \<Rightarrow> BatchRenamePlan \<times> BatchRenameRow \<Rightarrow> bool"
where
  "flagged plan source b pr \<longleftrightarrow>
     (plan_issue (fst pr) = Issue_none \<longleftrightarrow> plan_issue plan = Issue_none \<and> b) \<and>
     (row_issue (snd pr) = Issue_none \<longleftrightarrow> b) \<and> plan_rows (fst pr) = plan_rows plan \<and>
     row_source (snd pr) = source"

lemma flagged_mark_issue:
  "flagged plan source b pr \<Longrightarrow> fst p \<noteq> Issue_none \<Longrightarrow> flagged plan source False (mark_issue p pr)"
  by (auto simp: flagged_def mark_issue_def)

lemma flagged_mark_when:
  "flagged plan source b pr \<Longrightarrow> fst p \<noteq> Issue_none \<Longrightarrow>
     flagged plan source (b \<and> \<not> c) (mark_when c p pr)"
  by (cases c) (auto simp: mark_when_def dest: flagged_mark_issue)

lemma flagged_step:
  assumes "flagged plan source b pr" "fst p \<noteq> Issue_none" "fst q \<noteq> Issue_none"
  shows "flagged plan source (b \<and> \<not> a \<and> \<not> c) (if a then mark_issue p pr else mark_when c q pr)"
  using flagged_mark_issue [OF assms(1,2)] flagged_mark_when [OF assms(1,3), of c]
  by (cases a) simp_all

lemma expand_loop_problem:
  "expand_loop n c d t rest acc = Inl p \<Longrightarrow> fst p \<noteq> Issue_none"
  by (induction n c d t rest acc rule: expand_loop.induct)
     (auto simp: Let_def expand_loop.simps split: if_splits)

lemma row_target_problem:
  "row_target localtime_r options parent index s = Inl p \<Longrightarrow> fst p \<noteq> Issue_none"
  by (auto simp: row_target_def expand_name_def Let_def
      split: sum.splits if_splits option.splits dest: expand_loop_problem)

definition row_accepted ::
  "localtime \<Rightarrow> BatchRenameOptions \<Rightarrow> path \<Rightarrow> nat \<Rightarrow> BatchRenameSource \<Rightarrow> string set \<Rightarrow> string set \<Rightarrow> bool"
where
  "row_accepted localtime_r options parent index s source_keys identity_keys \<longleftrightarrow>
     \<not> bad_batch_source s \<and> lexically_normal (parent_path (source_path s)) = parent \<and>
     batch_rename_collision_key (source_path s) \<notin> source_keys \<and>
     stable_object_identity (source_revision s) \<noteq> [] \<and>
     stable_object_identity (source_revision s) \<notin> identity_keys \<and>
     (\<exists>d. row_target localtime_r options parent index s = Inr d)"

lemma plan_row_outcome:
  assumes "plan_row localtime_r options parent index s source_keys identity_keys plan = (plan', row)"
  shows "plan_issue plan' = Issue_none \<longleftrightarrow>
      plan_issue plan = Issue_none \<and>
      row_accepted localtime_r options parent index s source_keys identity_keys"
    "row_issue row = Issue_none \<longleftrightarrow>
      row_accepted localtime_r options parent index s source_keys identity_keys"
    "plan_rows plan' = plan_rows plan" "row_source row = source_path s"
    "row_issue row = Issue_none \<Longrightarrow>
       row_target localtime_r options parent index s = Inr (row_destination row)"
proof -
  let ?t = "row_target localtime_r options parent index s"
  let ?identity = "stable_object_identity (source_revision s)"
  define pr0 where "pr0 = (plan, \<lparr>row_source = source_path s, row_destination = [],
      row_issue = Issue_none, row_detail = []\<rparr>)"
  define pr1 where "pr1 = (if bad_batch_source s then
      mark_issue (Invalid_source, ''batch rename source path is invalid'') pr0
    else mark_when (lexically_normal (parent_path (source_path s)) \<noteq> parent)
      (Mixed_directories, ''batch rename sources must share one directory'') pr0)"
  define pr2 where "pr2 = mark_when (batch_rename_collision_key (source_path s) \<in> source_keys)
    (Invalid_source, ''batch rename contains the same source more than once'') pr1"
  define pr3 where "pr3 = (if ?identity = [] then
      mark_issue (Invalid_source, ''batch rename source has no stable identity'') pr2
    else mark_when (?identity \<in> identity_keys)
      (Invalid_source, ''batch rename contains two paths to the same physical file'') pr2)"
  let ?ok1 = "\<not> bad_batch_source s \<and> lexically_normal (parent_path (source_path s)) = parent"
  let ?ok2 = "?ok1 \<and> batch_rename_collision_key (source_path s) \<notin> source_keys"
  let ?ok3 = "?ok2 \<and> ?identity \<noteq> [] \<and> ?identity \<notin> identity_keys"
  have f0: "flagged plan (source_path s) True pr0"
    by (simp add: flagged_def pr0_def)
  have f1: "flagged plan (source_path s) ?ok1 pr1"
    using flagged_step [OF f0, of "(Invalid_source, ''batch rename source path is invalid'')"
        "(Mixed_directories, ''batch rename sources must share one directory'')"
        "bad_batch_source s" "lexically_normal (parent_path (source_path s)) \<noteq> parent"]
    by (simp add: pr1_def)
  have f2: "flagged plan (source_path s) ?ok2 pr2"
    unfolding pr2_def by (rule flagged_mark_when [OF f1]) simp
  have f3: "flagged plan (source_path s) ?ok3 pr3"
    using flagged_step [OF f2,
        of "(Invalid_source, ''batch rename source has no stable identity'')"
        "(Invalid_source, ''batch rename contains two paths to the same physical file'')"
        "?identity = []" "?identity \<in> identity_keys"]
    by (simp only: pr3_def fst_conv BatchRenameIssue.distinct simp_thms)
  have result: "(plan', row) = (case ?t of Inl p \<Rightarrow> mark_issue p pr3
      | Inr destination \<Rightarrow> (fst pr3, (snd pr3)\<lparr>row_destination := destination\<rparr>))"
    using assms by (simp only: plan_row_def Let_def pr0_def pr1_def pr2_def pr3_def)
  have final: "flagged plan (source_path s)
      (row_accepted localtime_r options parent index s source_keys identity_keys) (plan', row)"
  proof (cases ?t)
    case (Inl p)
    with result flagged_mark_issue [OF f3 row_target_problem [OF Inl]]
    show ?thesis by (simp add: row_accepted_def)
  next
    case (Inr d)
    with result f3 show ?thesis by (auto simp: row_accepted_def flagged_def)
  qed
  then show "plan_issue plan' = Issue_none \<longleftrightarrow> plan_issue plan = Issue_none \<and>
      row_accepted localtime_r options parent index s source_keys identity_keys"
    and "row_issue row = Issue_none \<longleftrightarrow>
      row_accepted localtime_r options parent index s source_keys identity_keys"
    and "plan_rows plan' = plan_rows plan" and "row_source row = source_path s"
    by (simp_all add: flagged_def)
  assume "row_issue row = Issue_none"
  with final obtain d where "?t = Inr d" by (auto simp: flagged_def row_accepted_def)
  with result show "?t = Inr (row_destination row)" by simp
qed

section \<open>The loop over the sources\<close>

definition source_identity :: "BatchRenameSource \<Rightarrow> string" where
  "source_identity s = stable_object_identity (source_revision s)"

definition source_key :: "BatchRenameSource \<Rightarrow> string" where
  "source_key s = batch_rename_collision_key (source_path s)"

definition row_key :: "BatchRenameRow \<Rightarrow> string" where
  "row_key row = batch_rename_collision_key (row_destination row)"

text \<open>What an accepted row says of its source.\<close>

definition row_good ::
  "localtime \<Rightarrow> BatchRenameOptions \<Rightarrow> path \<Rightarrow> nat \<Rightarrow> BatchRenameSource \<Rightarrow> BatchRenameRow \<Rightarrow> bool"
where
  "row_good localtime_r options parent index s row \<longleftrightarrow>
     \<not> bad_batch_source s \<and> lexically_normal (parent_path (source_path s)) = parent \<and>
     source_identity s \<noteq> [] \<and> row_source row = source_path s \<and> row_issue row = Issue_none \<and>
     row_target localtime_r options parent index s = Inr (row_destination row)"

fun rows_good ::
  "localtime \<Rightarrow> BatchRenameOptions \<Rightarrow> path \<Rightarrow> nat \<Rightarrow> BatchRenameSource list \<Rightarrow> BatchRenameRow list \<Rightarrow> bool"
where
  "rows_good localtime_r options parent index [] rows \<longleftrightarrow> rows = []"
| "rows_good localtime_r options parent index (s # ss) rows \<longleftrightarrow>
     (\<exists>row rest. rows = row # rest \<and> row_good localtime_r options parent index s row \<and>
                 rows_good localtime_r options parent (Suc index) ss rest)"

lemma plan_sources_rows:
  assumes "plan_sources localtime_r options parent index ss source_keys identity_keys plan =
             (keys, plan')"
  shows "keys = source_keys \<union> source_key ` set ss \<and>
    (\<exists>rows. plan_rows plan' = plan_rows plan @ rows \<and> length rows = length ss \<and>
            map row_source rows = map source_path ss \<and>
            (plan_issue plan' = Issue_none \<longleftrightarrow>
               plan_issue plan = Issue_none \<and> (\<forall>row\<in>set rows. row_valid row)))"
  using assms
proof (induction ss arbitrary: index source_keys identity_keys plan)
  case (Cons s ss)
  obtain plan1 row where one:
    "plan_row localtime_r options parent index s source_keys identity_keys plan = (plan1, row)"
    by fastforce
  from Cons.prems have rest: "plan_sources localtime_r options parent (Suc index) ss
      (insert (source_key s) source_keys)
      (if stable_object_identity (source_revision s) = [] then identity_keys
       else insert (stable_object_identity (source_revision s)) identity_keys)
      (plan1\<lparr>plan_rows := plan_rows plan1 @ [row]\<rparr>) = (keys, plan')"
    by (simp add: one source_key_def Let_def)
  from Cons.IH [OF rest] plan_row_outcome(3) [OF one] obtain rows where
    keys: "keys = insert (source_key s) source_keys \<union> source_key ` set ss"
    and rows: "plan_rows plan' = plan_rows plan @ row # rows" "length rows = length ss"
      "map row_source rows = map source_path ss"
    and valid: "plan_issue plan' = Issue_none \<longleftrightarrow>
      plan_issue plan1 = Issue_none \<and> (\<forall>r\<in>set rows. row_valid r)"
    by auto
  have "plan_issue plan' = Issue_none \<longleftrightarrow>
      plan_issue plan = Issue_none \<and> (\<forall>r\<in>set (row # rows). row_valid r)"
    using valid plan_row_outcome(1,2) [OF one] by (auto simp: row_valid_def)
  then show ?case
    using keys rows plan_row_outcome(4) [OF one] by (auto intro!: exI [of _ "row # rows"])
qed simp

lemma plan_sources_good:
  assumes "plan_sources localtime_r options parent index ss source_keys identity_keys plan =
             (keys, plan')" "plan_issue plan' = Issue_none"
  shows "plan_issue plan = Issue_none \<and>
    (\<exists>rows. plan_rows plan' = plan_rows plan @ rows \<and>
            rows_good localtime_r options parent index ss rows) \<and>
    distinct (map source_key ss) \<and> source_key ` set ss \<inter> source_keys = {} \<and>
    distinct (map source_identity ss) \<and> source_identity ` set ss \<inter> identity_keys = {}"
  using assms
proof (induction ss arbitrary: index source_keys identity_keys plan)
  case (Cons s ss)
  obtain plan1 row where one:
    "plan_row localtime_r options parent index s source_keys identity_keys plan = (plan1, row)"
    by fastforce
  let ?id = "stable_object_identity (source_revision s)"
  from Cons.prems have rest: "plan_sources localtime_r options parent (Suc index) ss
      (insert (source_key s) source_keys) (if ?id = [] then identity_keys
       else insert ?id identity_keys)
      (plan1\<lparr>plan_rows := plan_rows plan1 @ [row]\<rparr>) = (keys, plan')"
    by (simp add: one source_key_def Let_def)
  note IH = Cons.IH [OF rest Cons.prems(2)]
  then have ok: "row_accepted localtime_r options parent index s source_keys identity_keys"
    and none: "plan_issue plan = Issue_none"
    using plan_row_outcome(1) [OF one] by auto
  then have "row_good localtime_r options parent index s row"
    using plan_row_outcome(2,4,5) [OF one]
    by (simp add: row_good_def row_accepted_def source_identity_def)
  moreover from ok have "source_key s \<notin> source_keys" "source_identity s \<notin> identity_keys" "?id \<noteq> []"
    by (simp_all add: row_accepted_def source_key_def source_identity_def)
  moreover from IH plan_row_outcome(3) [OF one] obtain rows where
    "plan_rows plan' = plan_rows plan @ row # rows"
    "rows_good localtime_r options parent (Suc index) ss rows"
    by auto
  ultimately show ?case
    using IH none by (auto simp: source_identity_def [of s] intro!: exI [of _ "row # rows"])
qed simp

section \<open>The loop over the destinations\<close>

lemma mark_row_facts:
  assumes "fst p \<noteq> Issue_none" "i < length (plan_rows plan)"
  shows "plan_issue (mark_row p i plan) \<noteq> Issue_none"
    "length (plan_rows (mark_row p i plan)) = length (plan_rows plan)"
    "map row_source (plan_rows (mark_row p i plan)) = map row_source (plan_rows plan)"
    "map row_destination (plan_rows (mark_row p i plan)) = map row_destination (plan_rows plan)"
    "\<exists>row \<in> set (plan_rows (mark_row p i plan)). \<not> row_valid row"
proof -
  let ?row = "snd (mark_issue p (plan, plan_rows plan ! i))"
  have eq: "mark_row p i plan = (fst (mark_issue p (plan, plan_rows plan ! i)))
      \<lparr>plan_rows := (plan_rows plan)[i := ?row]\<rparr>"
    by (simp add: mark_row_def split_beta Let_def)
  have row: "row_source ?row = row_source (plan_rows plan ! i)"
    "row_destination ?row = row_destination (plan_rows plan ! i)" "\<not> row_valid ?row"
    using assms(1) by (auto simp: mark_issue_def row_valid_def)
  show "plan_issue (mark_row p i plan) \<noteq> Issue_none"
    using assms(1) by (simp add: eq mark_issue_def)
  show "length (plan_rows (mark_row p i plan)) = length (plan_rows plan)"
    by (simp add: eq)
  show "map row_source (plan_rows (mark_row p i plan)) = map row_source (plan_rows plan)"
    "map row_destination (plan_rows (mark_row p i plan)) = map row_destination (plan_rows plan)"
    using assms(2) row(1,2) by (simp_all add: eq map_update)
      (metis length_map list_update_id nth_map)+
  have "?row \<in> set ((plan_rows plan)[i := ?row])" using assms(2) by (rule set_update_memI)
  with row(3) show "\<exists>row \<in> set (plan_rows (mark_row p i plan)). \<not> row_valid row"
    unfolding eq by auto
qed

text \<open>A row once marked stays marked.\<close>

definition marked :: "BatchRenamePlan \<Rightarrow> bool" where
  "marked plan \<longleftrightarrow> plan_issue plan \<noteq> Issue_none \<and> (\<exists>row\<in>set (plan_rows plan). \<not> row_valid row)"

lemma mark_row_marked:
  "fst p \<noteq> Issue_none \<Longrightarrow> i < length (plan_rows plan) \<Longrightarrow> marked (mark_row p i plan)"
  by (simp add: marked_def mark_row_facts)

definition in_range :: "nat list \<Rightarrow> (string \<rightharpoonup> nat) \<Rightarrow> BatchRenamePlan \<Rightarrow> bool" where
  "in_range indices keys plan \<longleftrightarrow>
     (\<forall>i\<in>set indices. i < length (plan_rows plan)) \<and> (\<forall>i\<in>ran keys. i < length (plan_rows plan))"

lemma ran_update: "i \<in> ran (m(k \<mapsto> n)) \<Longrightarrow> i = n \<or> i \<in> ran m"
  by (auto simp: ran_def split: if_splits)

lemma in_range_Cons:
  assumes "in_range (index # indices) keys plan"
  shows "index < length (plan_rows plan)" "in_range indices keys plan"
    "in_range indices (keys(key \<mapsto> index)) plan"
    "keys key' = Some i \<Longrightarrow> i < length (plan_rows plan)"
  using assms by (auto simp: in_range_def ranI dest: ran_update)

lemma in_range_mark_row:
  "i < length (plan_rows plan) \<Longrightarrow> fst p \<noteq> Issue_none \<Longrightarrow>
     in_range indices keys (mark_row p i plan) = in_range indices keys plan"
  by (simp add: in_range_def mark_row_facts(2))

lemma check_destinations_marked:
  "in_range indices keys plan \<Longrightarrow> marked plan \<Longrightarrow>
     marked (check_destinations occupied_keys source_keys indices keys plan)"
proof (induction indices arbitrary: keys plan)
  case (Cons index indices)
  let ?row = "plan_rows plan ! index"
  let ?key = "batch_rename_collision_key (row_destination ?row)"
  note range = in_range_Cons [OF Cons.prems(1)]
  show ?case
  proof (cases "row_destination ?row = []")
    case True
    with Cons.IH [OF range(2) Cons.prems(2)] show ?thesis by simp
  next
    case nonempty: False
    show ?thesis
    proof (cases "keys ?key")
      case (Some existing)
      let ?p = "(Duplicate_destination, ''two batch rows produce the same destination'')"
      let ?plan = "mark_row ?p existing (mark_row ?p index plan)"
      have "marked ?plan" "in_range indices keys ?plan"
        using range(1,2,4) Some
        by (auto simp: in_range_mark_row mark_row_facts(2) intro!: mark_row_marked)
      with Cons.IH Some nonempty show ?thesis by (simp add: Let_def)
    next
      case None
      let ?p = "(Occupied_destination,
        ''batch destination is occupied by an unselected item'')"
      have bad: "marked (mark_row ?p index plan)"
        "in_range indices (keys(?key \<mapsto> index)) (mark_row ?p index plan)"
        using range(1,3) by (auto simp: in_range_mark_row intro!: mark_row_marked)
      let ?plan = "if ?key \<in> occupied_keys \<and> ?key \<notin> source_keys
        then mark_row ?p index plan else plan"
      have "check_destinations occupied_keys source_keys (index # indices) keys plan =
          check_destinations occupied_keys source_keys indices (keys(?key \<mapsto> index)) ?plan"
        using None nonempty by (simp add: Let_def)
      moreover have "marked ?plan" "in_range indices (keys(?key \<mapsto> index)) ?plan"
        using bad range(3) [of ?key] Cons.prems(2) by simp_all
      ultimately show ?thesis using Cons.IH by metis
    qed
  qed
qed simp

text \<open>The loop either marks a row or leaves the plan as it was, having seen only fresh keys that
  no unselected item occupies.\<close>

definition visited :: "BatchRenamePlan \<Rightarrow> nat list \<Rightarrow> BatchRenameRow list" where
  "visited plan indices =
     filter (\<lambda>row. row_destination row \<noteq> []) (map (\<lambda>i. plan_rows plan ! i) indices)"

lemma visited_simps [simp]:
  "visited plan [] = []"
  "visited plan (i # is) =
     (if row_destination (plan_rows plan ! i) = [] then visited plan is
      else (plan_rows plan ! i) # visited plan is)"
  by (simp_all add: visited_def)

definition fresh_destinations ::
  "string set \<Rightarrow> string set \<Rightarrow> nat list \<Rightarrow> (string \<rightharpoonup> nat) \<Rightarrow> BatchRenamePlan \<Rightarrow> bool"
where
  "fresh_destinations occupied_keys source_keys indices keys plan \<longleftrightarrow>
     distinct (map row_key (visited plan indices)) \<and>
     row_key ` set (visited plan indices) \<inter> dom keys = {} \<and>
     row_key ` set (visited plan indices) \<inter> occupied_keys \<subseteq> source_keys"

lemma check_destinations_fresh:
  "in_range indices keys plan \<Longrightarrow>
     (check_destinations occupied_keys source_keys indices keys plan = plan \<and>
      fresh_destinations occupied_keys source_keys indices keys plan) \<or>
     marked (check_destinations occupied_keys source_keys indices keys plan)"
proof (induction indices arbitrary: keys)
  case (Cons index indices)
  let ?row = "plan_rows plan ! index"
  let ?key = "batch_rename_collision_key (row_destination ?row)"
  note range = in_range_Cons [OF Cons.prems]
  show ?case
  proof (cases "row_destination ?row = []")
    case True
    with Cons.IH [OF range(2)] show ?thesis by (simp add: fresh_destinations_def)
  next
    case nonempty: False
    show ?thesis
    proof (cases "keys ?key")
      case (Some existing)
      let ?p = "(Duplicate_destination, ''two batch rows produce the same destination'')"
      let ?plan = "mark_row ?p existing (mark_row ?p index plan)"
      have "marked ?plan" "in_range indices keys ?plan"
        using range(1,2,4) Some
        by (auto simp: in_range_mark_row mark_row_facts(2) intro!: mark_row_marked)
      with Some nonempty show ?thesis
        by (simp add: Let_def check_destinations_marked)
    next
      case None
      show ?thesis
      proof (cases "?key \<in> occupied_keys \<and> ?key \<notin> source_keys")
        case True
        let ?p = "(Occupied_destination,
          ''batch destination is occupied by an unselected item'')"
        have "marked (mark_row ?p index plan)"
          "in_range indices (keys(?key \<mapsto> index)) (mark_row ?p index plan)"
          using range(1,3) by (auto simp: in_range_mark_row intro!: mark_row_marked)
        with True None nonempty show ?thesis
          by (simp add: Let_def check_destinations_marked)
      next
        case False
        from False None nonempty have run:
          "check_destinations occupied_keys source_keys (index # indices) keys plan =
           check_destinations occupied_keys source_keys indices (keys(?key \<mapsto> index)) plan"
          by (auto simp: Let_def)
        have "fresh_destinations occupied_keys source_keys indices (keys(?key \<mapsto> index)) plan \<Longrightarrow>
          fresh_destinations occupied_keys source_keys (index # indices) keys plan"
          using False None nonempty by (auto simp: fresh_destinations_def row_key_def)
        with Cons.IH [OF range(3)] show ?thesis unfolding run by blast
      qed
    qed
  qed
qed (simp add: fresh_destinations_def)

section \<open>Plans\<close>

lemma rows_good_nth:
  "rows_good localtime_r options parent index ss rows \<Longrightarrow> length rows = length ss \<and>
     (\<forall>i<length ss. row_good localtime_r options parent (index + i) (ss ! i) (rows ! i))"
  by (induction localtime_r options parent index ss rows rule: rows_good.induct)
     (auto simp: nth_Cons split: nat.splits)

lemma plan_stages:
  assumes "sources \<noteq> []"
  obtains keys plan where
    "plan_sources localtime_r options (lexically_normal (parent_path (source_path (hd sources)))) 0
       sources {} {} \<lparr>plan_issue = Issue_none, plan_detail = [], plan_rows = []\<rparr> = (keys, plan)"
    "plan_batch_rename localtime_r sources names options =
       check_destinations (batch_rename_collision_key ` set names) (source_key ` set sources)
         [0..<length (plan_rows plan)] Map.empty plan"
    "in_range [0..<length (plan_rows plan)] Map.empty plan"
    "map row_source (plan_rows plan) = map source_path sources"
    "plan_issue plan = Issue_none \<longleftrightarrow> (\<forall>row\<in>set (plan_rows plan). row_valid row)"
proof -
  obtain keys plan where run:
    "plan_sources localtime_r options (lexically_normal (parent_path (source_path (hd sources)))) 0
       sources {} {} \<lparr>plan_issue = Issue_none, plan_detail = [], plan_rows = []\<rparr> = (keys, plan)"
    by fastforce
  from that [OF run] plan_sources_rows [OF run] assms run show ?thesis
    by (auto simp: plan_batch_rename_def Let_def in_range_def)
qed

lemma row_target_nonempty:
  assumes "row_target localtime_r options parent index s = Inr d" "\<not> bad_batch_source s"
  shows "d \<noteq> []"
  using assms
  by (auto simp: row_target_def Let_def bad_batch_source_def valid_destination_filename_Inr
      path_append_plain plain_name_def split: sum.splits if_splits)

lemma plan_valid_rows:
  fixes localtime_r sources names options
  defines "plan \<equiv> plan_batch_rename localtime_r sources names options"
    and "parent \<equiv> lexically_normal (parent_path (source_path (hd sources)))"
  assumes "plan_valid plan"
  shows "sources \<noteq> []" "length (plan_rows plan) = length sources"
    "\<forall>i<length sources. row_good localtime_r options parent i (sources ! i) (plan_rows plan ! i)"
    "distinct (map source_key sources)" "distinct (map source_identity sources)"
    "distinct (map row_key (plan_rows plan))"
    "row_key ` set (plan_rows plan) \<inter> batch_rename_collision_key ` set names \<subseteq>
       source_key ` set sources"
proof -
  show sources: "sources \<noteq> []"
    using assms(3) by (auto simp: plan_def plan_batch_rename_def plan_valid_def)
  then obtain keys plan1 where
    run: "plan_sources localtime_r options parent 0 sources {} {}
       \<lparr>plan_issue = Issue_none, plan_detail = [], plan_rows = []\<rparr> = (keys, plan1)"
    and check: "plan = check_destinations (batch_rename_collision_key ` set names)
        (source_key ` set sources) [0..<length (plan_rows plan1)] Map.empty plan1"
    and range: "in_range [0..<length (plan_rows plan1)] Map.empty plan1"
    unfolding plan_def parent_def by (rule plan_stages [of sources localtime_r options names]) blast
  have "\<not> marked plan" using assms(3) by (simp add: plan_valid_def marked_def)
  with check_destinations_fresh [OF range, of "batch_rename_collision_key ` set names"
      "source_key ` set sources"]
  have same: "plan1 = plan" and fresh: "fresh_destinations (batch_rename_collision_key ` set names)
      (source_key ` set sources) [0..<length (plan_rows plan)] Map.empty plan"
    by (auto simp: check [symmetric])
  from plan_sources_good [OF run] assms(3)
  have good: "rows_good localtime_r options parent 0 sources (plan_rows plan)"
    and dist: "distinct (map source_key sources)" "distinct (map source_identity sources)"
    by (auto simp: same plan_valid_def)
  from dist show "distinct (map source_key sources)" "distinct (map source_identity sources)" .
  from rows_good_nth [OF good] show len: "length (plan_rows plan) = length sources"
    and rows: "\<forall>i<length sources. row_good localtime_r options parent i (sources ! i)
      (plan_rows plan ! i)"
    by auto
  have all: "filter (\<lambda>row. row_destination row \<noteq> []) (plan_rows plan) = plan_rows plan"
    using rows len row_target_nonempty
    by (fastforce simp: filter_id_conv in_set_conv_nth row_good_def)
  have "visited plan [0..<length (plan_rows plan)] = plan_rows plan"
    unfolding visited_def map_nth by (rule all)
  with fresh show "distinct (map row_key (plan_rows plan))"
    "row_key ` set (plan_rows plan) \<inter> batch_rename_collision_key ` set names \<subseteq>
       source_key ` set sources"
    by (simp_all add: fresh_destinations_def)
qed

end
