(* ===== verification/Batch_Transaction.thy ===== *)
theory Batch_Transaction
  imports Batch_Plan
begin

text \<open>
  The journal record of a batch rename: \<open>src/Source/src/fileops/batch_rename_transaction.cpp\<close>. A
  transaction moves every item from its source to a private temporary name and from there to its
  destination; the record says how far each item has come and which step is under way. The
  theory holds the validator, the preparation from a plan, and the binary format with its
  upgrade from version 2.
\<close>

section \<open>Data\<close>

datatype BatchTransactionPhase = Prepared | Evacuating | Rollback | Commit_intent | Publishing
datatype BatchItemLocation = At_source | At_temporary | At_destination
datatype BatchStepKind = Step_none | Step_evacuate | Step_rollback | Step_publish

record BatchTransactionItem =
  item_source :: path
  item_temporary :: path
  item_destination :: path
  item_current :: path
  item_snapshot :: SourceSnapshot
  item_location :: BatchItemLocation
  item_kind :: OperationObjectKind

record BatchRenameTransaction =
  batch_version :: u32
  batch_operation_id :: u64
  batch_phase :: BatchTransactionPhase
  active_step :: BatchStepKind
  active_index :: u32
  active_evidence :: OperationEvidence
  failure_status :: OperationStatus
  failure_detail :: string
  batch_items :: "BatchTransactionItem list"

definition kBatchRenameTransactionVersion :: u32 where
  "kBatchRenameTransactionVersion = 3"

definition kMaximumBatchRenameItems :: nat where
  "kMaximumBatchRenameItems = 10000"

definition transactionMagic :: u32 where
  "transactionMagic = 0x31544256"

definition maximumPayloadBytes :: nat where
  "maximumPayloadBytes = 4 * 1024 * 1024"

section \<open>Validity\<close>

definition temporary_leaf :: "u64 \<Rightarrow> nat \<Rightarrow> string" where
  "temporary_leaf operation_id index =
     ''.vove-'' @ hexadecimal operation_id @ ''-'' @ to_chars 16 index @ ''.tmp''"

definition expected_current_path :: "BatchTransactionItem \<Rightarrow> bool" where
  "expected_current_path item =
     (case item_location item of
        At_source \<Rightarrow> path_eq (item_current item) (item_source item)
      | At_temporary \<Rightarrow> path_eq (item_current item) (item_temporary item)
      | At_destination \<Rightarrow> path_eq (item_current item) (item_destination item))"

fun location_allowed_in_phase :: "BatchTransactionPhase \<Rightarrow> BatchItemLocation \<Rightarrow> bool" where
  "location_allowed_in_phase Prepared location = (location = At_source)"
| "location_allowed_in_phase Evacuating location =
     (location = At_source \<or> location = At_temporary)"
| "location_allowed_in_phase Rollback location =
     (location = At_source \<or> location = At_temporary)"
| "location_allowed_in_phase Commit_intent location = (location = At_temporary)"
| "location_allowed_in_phase Publishing location =
     (location = At_temporary \<or> location = At_destination)"

definition active_step_matches_phase :: "BatchRenameTransaction \<Rightarrow> bool" where
  "active_step_matches_phase t =
     (let location = item_location (batch_items t ! unat (active_index t)) in
      case active_step t of
        Step_none \<Rightarrow> batch_phase t \<noteq> Prepared \<or> active_index t = 0
      | Step_evacuate \<Rightarrow> batch_phase t = Evacuating \<and> location = At_source
      | Step_rollback \<Rightarrow> batch_phase t = Rollback \<and> location = At_temporary
      | Step_publish \<Rightarrow> batch_phase t = Publishing \<and> location = At_temporary)"

definition item_shape_ok :: "BatchTransactionItem \<Rightarrow> bool" where
  "item_shape_ok item \<longleftrightarrow>
     \<not> (item_kind item = Directory_object \<and> size_bytes (item_snapshot item) \<noteq> 0)"

definition item_paths_ok ::
  "u64 \<Rightarrow> BatchTransactionPhase \<Rightarrow> path \<Rightarrow> nat \<Rightarrow> BatchTransactionItem \<Rightarrow> bool"
where
  "item_paths_ok operation_id phase parent index item \<longleftrightarrow>
     is_absolute (item_source item) \<and> is_absolute (item_temporary item) \<and>
     is_absolute (item_destination item) \<and> is_absolute (item_current item) \<and>
     lexically_normal (parent_path (item_source item)) = parent \<and>
     lexically_normal (parent_path (item_temporary item)) = parent \<and>
     lexically_normal (parent_path (item_destination item)) = parent \<and>
     path_eq (item_temporary item) (path_append parent (temporary_leaf operation_id index)) \<and>
     expected_current_path item \<and> location_allowed_in_phase phase (item_location item)"

definition item_names_ok :: "BatchTransactionItem \<Rightarrow> string + unit" where
  "item_names_ok item =
     (if is_internal_filename (filename (item_source item)) \<or>
         is_internal_filename (filename (item_destination item)) then
        Inl ''batch transaction names an internal VO-VE object''
      else case valid_destination_filename (filename (item_temporary item)) of
        Inl detail \<Rightarrow> Inl detail
      | Inr _ \<Rightarrow> valid_destination_filename (filename (item_destination item)))"

definition physical_id :: "BatchTransactionItem \<Rightarrow> string" where
  "physical_id item = stable_object_identity (source_revision_utf8 (item_snapshot item))"

definition item_source_key :: "BatchTransactionItem \<Rightarrow> string" where
  "item_source_key item = batch_rename_collision_key (item_source item)"

definition item_destination_key :: "BatchTransactionItem \<Rightarrow> string" where
  "item_destination_key item = batch_rename_collision_key (item_destination item)"

text \<open>The loop over the items; the sets are the keys inserted so far.\<close>

fun check_items ::
  "u64 \<Rightarrow> BatchTransactionPhase \<Rightarrow> path \<Rightarrow> nat \<Rightarrow> string set \<Rightarrow> string set \<Rightarrow> string set \<Rightarrow>
   BatchTransactionItem list \<Rightarrow> string + unit"
where
  "check_items operation_id phase parent index physical_ids source_names destination_names [] =
     Inr ()"
| "check_items operation_id phase parent index physical_ids source_names destination_names
     (item # items) =
     (if \<not> item_shape_ok item then
        Inl ''batch transaction object kind or directory size is invalid''
      else if \<not> item_paths_ok operation_id phase parent index item then
        Inl ''batch transaction paths are inconsistent''
      else case item_names_ok item of
        Inl detail \<Rightarrow> Inl detail
      | Inr _ \<Rightarrow>
          if item_source_key item \<in> source_names \<or>
             item_destination_key item \<in> destination_names then
            Inl ''batch transaction source or destination names are duplicated''
          else if physical_id item = [] \<or> physical_id item \<in> physical_ids then
            Inl ''batch transaction physical identity is invalid or duplicated''
          else check_items operation_id phase parent (Suc index)
                 (insert (physical_id item) physical_ids)
                 (insert (item_source_key item) source_names)
                 (insert (item_destination_key item) destination_names) items)"

definition batch_parent :: "BatchRenameTransaction \<Rightarrow> path" where
  "batch_parent t = lexically_normal (parent_path (item_source (hd (batch_items t))))"

definition valid_batch_transaction :: "BatchRenameTransaction \<Rightarrow> string + unit" where
  "valid_batch_transaction t =
     (if batch_version t \<noteq> kBatchRenameTransactionVersion \<or> batch_operation_id t = 0 \<or>
         batch_items t = [] \<or> kMaximumBatchRenameItems < length (batch_items t) then
        Inl ''batch transaction header is invalid''
      else if active_step t = Step_none \<and> active_index t \<noteq> 0 then
        Inl ''inactive batch transaction has an active index''
      else if active_step t \<noteq> Step_none \<and> length (batch_items t) \<le> unat (active_index t) then
        Inl ''batch transaction active index is invalid''
      else if \<not> active_step_matches_phase t then
        Inl ''batch transaction active step is inconsistent with its phase''
      else if (active_step t = Step_none \<and> active_evidence t \<noteq> Evidence_none) \<or>
              (failure_status t = Success \<and> active_evidence t \<noteq> Evidence_none) then
        Inl ''batch transaction evidence is inconsistent with its active step''
      else check_items (batch_operation_id t) (batch_phase t) (batch_parent t) 0 {} {} {}
             (batch_items t))"

subsection \<open>What the validator accepts\<close>

definition item_ok ::
  "u64 \<Rightarrow> BatchTransactionPhase \<Rightarrow> path \<Rightarrow> nat \<Rightarrow> BatchTransactionItem \<Rightarrow> bool"
where
  "item_ok operation_id phase parent index item \<longleftrightarrow>
     item_shape_ok item \<and> item_paths_ok operation_id phase parent index item \<and>
     item_names_ok item = Inr () \<and> physical_id item \<noteq> []"

lemma check_items_Inr:
  "check_items operation_id phase parent index ids ss ds items = Inr () \<longleftrightarrow>
     (\<forall>i<length items. item_ok operation_id phase parent (index + i) (items ! i)) \<and>
     distinct (map physical_id items) \<and> physical_id ` set items \<inter> ids = {} \<and>
     distinct (map item_source_key items) \<and> item_source_key ` set items \<inter> ss = {} \<and>
     distinct (map item_destination_key items) \<and> item_destination_key ` set items \<inter> ds = {}"
proof (induction items arbitrary: index ids ss ds)
  case (Cons item items)
  have nth: "(\<forall>i<length (item # items). P (index + i) ((item # items) ! i)) \<longleftrightarrow>
      P index item \<and> (\<forall>i<length items. P (Suc index + i) (items ! i))" for P
    by (simp add: All_less_Suc2)
  show ?case
    unfolding nth by (auto simp: Cons.IH item_ok_def split: sum.splits if_splits)
qed simp

definition batch_header_ok :: "BatchRenameTransaction \<Rightarrow> bool" where
  "batch_header_ok t \<longleftrightarrow>
     batch_version t = kBatchRenameTransactionVersion \<and> batch_operation_id t \<noteq> 0 \<and>
     batch_items t \<noteq> [] \<and> length (batch_items t) \<le> kMaximumBatchRenameItems \<and>
     (active_step t = Step_none \<longrightarrow> active_index t = 0) \<and>
     (active_step t \<noteq> Step_none \<longrightarrow> unat (active_index t) < length (batch_items t)) \<and>
     active_step_matches_phase t \<and>
     (active_evidence t \<noteq> Evidence_none \<longrightarrow>
        active_step t \<noteq> Step_none \<and> failure_status t \<noteq> Success)"

definition batch_items_ok :: "BatchRenameTransaction \<Rightarrow> bool" where
  "batch_items_ok t \<longleftrightarrow>
     (\<forall>i<length (batch_items t).
        item_ok (batch_operation_id t) (batch_phase t) (batch_parent t) i (batch_items t ! i)) \<and>
     distinct (map physical_id (batch_items t)) \<and>
     distinct (map item_source_key (batch_items t)) \<and>
     distinct (map item_destination_key (batch_items t))"

lemma valid_batch_transaction_iff:
  "valid_batch_transaction t = Inr () \<longleftrightarrow> batch_header_ok t \<and> batch_items_ok t"
  by (auto simp: valid_batch_transaction_def check_items_Inr batch_header_ok_def
      batch_items_ok_def not_less not_le)

subsection \<open>Temporary names\<close>

lemma digit_char_plain:
  assumes "d < 16"
  shows "digit_char d \<noteq> slash" "\<not> forbidden_filename_char (digit_char d)"
    "byte_of_char (digit_char d) \<le> 0x7F"
proof -
  have "\<forall>d\<in>set [0..<16]. digit_char d \<noteq> slash \<and> \<not> forbidden_filename_char (digit_char d) \<and>
      byte_of_char (digit_char d) \<le> 0x7F"
    by code_simp
  with assms show "digit_char d \<noteq> slash" "\<not> forbidden_filename_char (digit_char d)"
    "byte_of_char (digit_char d) \<le> 0x7F"
    by auto
qed

lemma hex_chars:
  assumes "c \<in> set (to_chars 16 n)"
  shows "c \<noteq> slash" "\<not> forbidden_filename_char c" "byte_of_char c \<le> 0x7F"
proof -
  obtain d where d: "d < 16" and c: "c = digit_char d"
    using set_to_chars [OF _ _ assms] by auto
  show "c \<noteq> slash" "\<not> forbidden_filename_char c" "byte_of_char c \<le> 0x7F"
    unfolding c by (fact digit_char_plain [OF d])+
qed

lemma plain_temporary_leaf [simp]: "plain_name (temporary_leaf operation_id index)"
  by (auto simp: plain_name_def temporary_leaf_def hexadecimal_def dest: hex_chars)

lemma length_hexadecimal: "length (hexadecimal v) \<le> 16"
  using length_to_chars [of 16 "unat v" 15] unsigned_less [of v]
  by (simp add: hexadecimal_def)

lemma valid_temporary_leaf:
  assumes "index < kMaximumBatchRenameItems"
  shows "valid_destination_filename (temporary_leaf operation_id index) = Inr ()"
proof -
  let ?leaf = "temporary_leaf operation_id index"
  have "ascii ''.vove-''" "ascii ''-''" "ascii ''.tmp''" by code_simp+
  moreover have "ascii (to_chars 16 n)" for n by (auto simp: ascii_def dest: hex_chars(3))
  ultimately have ascii: "ascii ?leaf"
    unfolding temporary_leaf_def hexadecimal_def by (simp only: ascii_simps(3))
  have "length (to_chars 16 index) \<le> 4"
    using assms length_to_chars [of 16 index 3] by (simp add: kMaximumBatchRenameItems_def)
  then have len: "length ?leaf \<le> 255"
    using length_hexadecimal [of operation_id] by (simp add: temporary_leaf_def)
  have chars: "\<not> forbidden_filename_char c" if "c \<in> set ?leaf" for c
    using that hex_chars(2)
    by (auto simp: temporary_leaf_def hexadecimal_def forbidden_filename_char_def)
  have "find_from CHR ''.'' 0 ?leaf = Some 0"
    by (simp add: find_from_def temporary_leaf_def)
  then have unreserved: "\<not> reserved_windows_stem ?leaf"
    by (simp add: reserved_windows_stem_def Let_def ascii_upper_def)
  have "slash \<notin> set ?leaf" using plain_temporary_leaf by (simp add: plain_name_def)
  then have name: "filename ?leaf = ?leaf" by (rule filename_plain)
  have "valid_portable_filename ?leaf = Inr ()"
    unfolding valid_portable_filename_Inr name
    using chars unreserved by (simp add: temporary_leaf_def)
  then show ?thesis
    using ascii_valid_utf8 [OF ascii] len by (simp add: valid_destination_filename_Inr)
qed

section \<open>From a plan to a transaction\<close>

definition plan_differs :: string where
  "plan_differs = ''batch rename plan and source snapshot differ''"

definition prepare_item :: "u64 \<Rightarrow> nat \<Rightarrow> BatchRenameSource \<Rightarrow> path \<Rightarrow> BatchTransactionItem" where
  "prepare_item operation_id index source destination =
     \<lparr>item_source = source_path source,
      item_temporary = path_append (parent_path (source_path source))
                         (temporary_leaf operation_id index),
      item_destination = destination, item_current = source_path source,
      item_snapshot = \<lparr>size_bytes = source_size_bytes source,
                       modified_unix_ns = source_modified_unix_ns source,
                       source_revision_utf8 = source_revision source\<rparr>,
      item_location = At_source, item_kind = source_object_kind source\<rparr>"

fun prepare_items ::
  "u64 \<Rightarrow> nat \<Rightarrow> BatchRenameRow list \<Rightarrow> BatchRenameSource list \<Rightarrow> string + BatchTransactionItem list"
where
  "prepare_items operation_id index (row # rows) (source # sources) =
     (if \<not> row_valid row \<or> \<not> path_eq (row_source row) (source_path source) \<or>
         row_destination row = [] then Inl plan_differs
      else sum_bind (prepare_items operation_id (Suc index) rows sources)
        (\<lambda>items. Inr (prepare_item operation_id index source (row_destination row) # items)))"
| "prepare_items operation_id index rows sources = Inr []"

fun renumber_temporaries :: "u64 \<Rightarrow> nat \<Rightarrow> BatchTransactionItem list \<Rightarrow> BatchTransactionItem list" where
  "renumber_temporaries operation_id index [] = []"
| "renumber_temporaries operation_id index (item # items) =
     item\<lparr>item_temporary := path_append (parent_path (item_source item))
                              (temporary_leaf operation_id index)\<rparr>
       # renumber_temporaries operation_id (Suc index) items"

definition new_transaction :: "u64 \<Rightarrow> BatchTransactionItem list \<Rightarrow> BatchRenameTransaction" where
  "new_transaction operation_id items =
     \<lparr>batch_version = kBatchRenameTransactionVersion, batch_operation_id = operation_id,
      batch_phase = Prepared, active_step = Step_none, active_index = 0,
      active_evidence = Evidence_none, failure_status = Success, failure_detail = [],
      batch_items = items\<rparr>"

text \<open>\<^const>\<open>Inl\<close> is \<open>std::invalid_argument\<close>.\<close>

definition prepare_batch_transaction ::
  "BatchRenamePlan \<Rightarrow> BatchRenameSource list \<Rightarrow> u64 \<Rightarrow> string + BatchRenameTransaction"
where
  "prepare_batch_transaction plan sources operation_id =
     (if \<not> plan_valid plan \<or> length (plan_rows plan) \<noteq> length sources \<or> operation_id = 0 then
        Inl ''batch rename plan cannot create a transaction''
      else sum_bind (prepare_items operation_id 0 (plan_rows plan) sources) (\<lambda>items.
        case valid_batch_transaction (new_transaction operation_id items) of
          Inl detail \<Rightarrow> Inl detail
        | Inr _ \<Rightarrow> Inr (new_transaction operation_id (renumber_temporaries operation_id 0
            (filter (\<lambda>item. \<not> path_eq (item_source item) (item_destination item)) items)))))"

lemma renumber_nth:
  "length (renumber_temporaries op k items) = length items"
  "i < length items \<Longrightarrow> renumber_temporaries op k items ! i =
     (items ! i)\<lparr>item_temporary := path_append (parent_path (item_source (items ! i)))
                                    (temporary_leaf op (k + i))\<rparr>"
  by (induction items arbitrary: k i) (auto simp: nth_Cons split: nat.splits)

lemma renumber_map:
  "map physical_id (renumber_temporaries op k items) = map physical_id items"
  "map item_source_key (renumber_temporaries op k items) = map item_source_key items"
  "map item_destination_key (renumber_temporaries op k items) = map item_destination_key items"
  "map item_location (renumber_temporaries op k items) = map item_location items"
  "map item_source (renumber_temporaries op k items) = map item_source items"
  by (induction items arbitrary: k)
     (simp_all add: physical_id_def item_source_key_def item_destination_key_def)

text \<open>An item prepared at one index is as good at another one.\<close>

lemma item_ok_renumbered:
  assumes ok: "item_ok op Prepared parent j item"
    and at: "item_temporary item = path_append (parent_path (item_source item)) (temporary_leaf op j)"
    and k: "k < kMaximumBatchRenameItems"
  shows "item_ok op Prepared parent k
    (item\<lparr>item_temporary := path_append (parent_path (item_source item)) (temporary_leaf op k)\<rparr>)"
proof -
  let ?d = "parent_path (item_source item)"
  let ?new = "path_append ?d (temporary_leaf op k)"
  from ok have paths: "item_paths_ok op Prepared parent j item"
    and names: "item_names_ok item = Inr ()" by (auto simp: item_ok_def)
  have absolute: "is_absolute ?new"
    using paths by (simp add: item_paths_ok_def at)
  have "parent_path ?new = parent_path (item_temporary item)"
    unfolding at by (rule parent_path_append_indep) simp_all
  then have parent: "lexically_normal (parent_path ?new) = parent"
    using paths by (simp add: item_paths_ok_def)
  have "path_eq (path_append ?d (temporary_leaf op j)) (path_append parent (temporary_leaf op j))"
    using paths by (simp add: item_paths_ok_def at)
  then have spelled: "path_eq ?new (path_append parent (temporary_leaf op k))"
    by (simp add: path_eq_append_iff)
  have "valid_destination_filename (filename ?new) = Inr ()"
    using valid_temporary_leaf [OF k] by simp
  with names have "item_names_ok (item\<lparr>item_temporary := ?new\<rparr>) = Inr ()"
    by (auto simp: item_names_ok_def split: if_splits sum.splits)
  with ok paths absolute parent spelled show ?thesis
    by (auto simp: item_ok_def item_paths_ok_def item_shape_ok_def expected_current_path_def
        physical_id_def)
qed

lemma prepare_items_nth:
  assumes "prepare_items op k rows sources = Inr items" "length rows = length sources"
  shows "length items = length sources \<and>
    (\<forall>i<length sources. row_valid (rows ! i) \<and> row_destination (rows ! i) \<noteq> [] \<and>
       items ! i = prepare_item op (k + i) (sources ! i) (row_destination (rows ! i)))"
  using assms
proof (induction op k rows sources arbitrary: items rule: prepare_items.induct)
  case (1 op k row rows source sources)
  then obtain rest where "prepare_items op (Suc k) rows sources = Inr rest"
    and items: "items = prepare_item op k source (row_destination row) # rest"
    and row: "row_valid row" "row_destination row \<noteq> []" "path_eq (row_source row) (source_path source)"
    by (auto simp: sum_bind_Inr_iff split: if_splits)
  with 1 have "length rest = length sources \<and>
    (\<forall>i<length sources. row_valid (rows ! i) \<and> row_destination (rows ! i) \<noteq> [] \<and>
       rest ! i = prepare_item op (Suc k + i) (sources ! i) (row_destination (rows ! i)))"
    by auto
  with items row show ?case by (auto simp: nth_Cons split: nat.splits)
qed auto

definition freshly_prepared :: "u64 \<Rightarrow> nat \<Rightarrow> BatchTransactionItem \<Rightarrow> bool" where
  "freshly_prepared op i item \<longleftrightarrow>
     item_temporary item = path_append (parent_path (item_source item)) (temporary_leaf op i) \<and>
     item_current item = item_source item \<and> item_location item = At_source"

lemma filter_nth_origin:
  "k < length (filter P xs) \<Longrightarrow> \<exists>i<length xs. filter P xs ! k = xs ! i"
  using nth_mem [of k "filter P xs"] by (auto simp: in_set_conv_nth)

text \<open>A prepared transaction is empty, because every row keeps its name, or it is valid.\<close>

lemma prepare_batch_transaction_valid:
  assumes "prepare_batch_transaction plan sources op = Inr t"
  shows "batch_items t = [] \<or> valid_batch_transaction t = Inr ()"
proof -
  let ?differs = "\<lambda>item. \<not> path_eq (item_source item) (item_destination item)"
  from assms obtain items where prepared: "prepare_items op 0 (plan_rows plan) sources = Inr items"
    and len: "length (plan_rows plan) = length sources"
    and valid: "valid_batch_transaction (new_transaction op items) = Inr ()"
    and t: "t = new_transaction op (renumber_temporaries op 0 (filter ?differs items))"
    by (auto simp: prepare_batch_transaction_def sum_bind_Inr_iff case_sum_Inr split: if_splits)
  define parent where "parent = batch_parent (new_transaction op items)"
  define left where "left = filter ?differs items"
  have ok: "item_ok op Prepared parent i (items ! i)" if "i < length items" for i
    using valid that
    by (simp add: valid_batch_transaction_iff batch_items_ok_def parent_def new_transaction_def)
  have fresh: "freshly_prepared op i (items ! i)" if "i < length items" for i
    using prepare_items_nth [OF prepared len] that
    by (simp add: freshly_prepared_def prepare_item_def)
  have size: "length left \<le> kMaximumBatchRenameItems"
  proof -
    have "length items \<le> kMaximumBatchRenameItems"
      using valid
      by (simp add: valid_batch_transaction_iff batch_header_ok_def new_transaction_def)
    with length_filter_le [of ?differs items] show ?thesis unfolding left_def by linarith
  qed
  show ?thesis
  proof (cases "left = []")
    case True
    then show ?thesis by (simp add: t new_transaction_def left_def)
  next
    case False
    have good: "item_ok op Prepared parent k (renumber_temporaries op 0 left ! k)"
      if k: "k < length left" for k
    proof -
      obtain i where i: "i < length items" "left ! k = items ! i"
        using k filter_nth_origin unfolding left_def by blast
      have "k < kMaximumBatchRenameItems" using k size by simp
      with item_ok_renumbered [OF ok [OF i(1)]] fresh [OF i(1)] show ?thesis
        using k i(2) by (simp add: renumber_nth freshly_prepared_def)
    qed
    have t: "t = new_transaction op (renumber_temporaries op 0 left)"
      by (simp only: t left_def)
    have nonempty: "renumber_temporaries op 0 left \<noteq> []"
      using False by (cases left) auto
    have "item_ok op Prepared parent 0 (renumber_temporaries op 0 left ! 0)"
      using good [of 0] False by simp
    then have parent: "batch_parent t = parent"
      using nonempty
      by (simp add: t batch_parent_def new_transaction_def item_ok_def item_paths_ok_def hd_conv_nth)
    have "distinct (map physical_id items)" "distinct (map item_source_key items)"
      "distinct (map item_destination_key items)"
      using valid by (simp_all add: valid_batch_transaction_iff batch_items_ok_def new_transaction_def)
    then have "distinct (map physical_id left)" "distinct (map item_source_key left)"
      "distinct (map item_destination_key left)"
      by (simp_all add: left_def distinct_map_filter)
    with good parent have "batch_items_ok t"
      by (simp add: t batch_items_ok_def renumber_nth(1) renumber_map new_transaction_def)
    moreover have "batch_header_ok t"
      using valid nonempty size
      by (auto simp: t valid_batch_transaction_iff batch_header_ok_def new_transaction_def
          active_step_matches_phase_def renumber_nth(1) Let_def)
    ultimately show ?thesis by (simp add: valid_batch_transaction_iff)
  qed
qed

end
