(* ===== verification/Batch_Record.thy ===== *)
theory Batch_Record
  imports Batch_Transaction
begin

text \<open>
  The binary format of a batch transaction: \<open>encode_batch_transaction\<close> and
  \<open>decode_batch_transaction\<close> of \<open>src/Source/src/fileops/batch_rename_transaction.cpp\<close>. Items are a
  codec in the sense of \<open>Bytes\<close>; decoding inverts encoding, accepts nothing else, and upgrades
  records of version 2.
\<close>

section \<open>The enumerations\<close>

definition all_phases :: "BatchTransactionPhase list" where
  "all_phases = [Prepared, Evacuating, Rollback, Commit_intent, Publishing]"

definition all_steps :: "BatchStepKind list" where
  "all_steps = [Step_none, Step_evacuate, Step_rollback, Step_publish]"

definition all_locations :: "BatchItemLocation list" where
  "all_locations = [At_source, At_temporary, At_destination]"

definition all_kinds :: "OperationObjectKind list" where
  "all_kinds = [Regular_file, Directory_object]"

definition all_evidence :: "OperationEvidence list" where
  "all_evidence = [Evidence_none, Committed, No_commit, Conflicting]"

definition all_statuses :: "OperationStatus list" where
  "all_statuses =
     [Success, Invalid_request, Not_found, Conflict, Source_changed, Permission_denied,
      Authentication_required, Disconnected, Timed_out, Unsupported, Unknown_outcome, Io_error,
      Cross_device, File_in_use]"

lemma mem_tables [simp]:
  "p \<in> set all_phases" "s \<in> set all_steps" "l \<in> set all_locations" "k \<in> set all_kinds"
  "e \<in> set all_evidence" "st \<in> set all_statuses"
proof -
  show "p \<in> set all_phases" by (cases p) (simp_all add: all_phases_def)
  show "s \<in> set all_steps" by (cases s) (simp_all add: all_steps_def)
  show "l \<in> set all_locations" by (cases l) (simp_all add: all_locations_def)
  show "k \<in> set all_kinds" by (cases k) (simp_all add: all_kinds_def)
  show "e \<in> set all_evidence" by (cases e) (simp_all add: all_evidence_def)
  show "st \<in> set all_statuses" by (cases st) (simp_all add: all_statuses_def)
qed

lemma enum_tables [simp]:
  "enum_table all_phases" "enum_table all_steps" "enum_table all_locations" "enum_table all_kinds"
  "enum_table all_evidence" "enum_table all_statuses"
  unfolding enum_table_def
  by (simp_all only: mem_tables simp_thms)
     (simp_all add: all_phases_def all_steps_def all_locations_def all_kinds_def all_evidence_def
       all_statuses_def)

section \<open>Items\<close>

definition enc_item :: "BatchTransactionItem \<Rightarrow> byte list" where
  "enc_item item =
     append_integer (enum_code all_locations (item_location item)) @
     append_integer (enum_code all_kinds (item_kind item)) @ append_integer (0 :: u16) @
     append_integer (size_bytes (item_snapshot item)) @
     append_integer (modified_unix_ns (item_snapshot item)) @
     append_string (item_source item) @ append_string (item_temporary item) @
     append_string (item_destination item) @ append_string (item_current item) @
     append_string (source_revision_utf8 (item_snapshot item))"

definition item_strings_fit :: "BatchTransactionItem \<Rightarrow> bool" where
  "item_strings_fit item \<longleftrightarrow>
     string_fits (item_source item) \<and> string_fits (item_temporary item) \<and>
     string_fits (item_destination item) \<and> string_fits (item_current item) \<and>
     string_fits (source_revision_utf8 (item_snapshot item))"

definition item_utf8 :: "BatchTransactionItem \<Rightarrow> bool" where
  "item_utf8 item \<longleftrightarrow>
     valid_utf8 (item_source item) \<and> valid_utf8 (item_temporary item) \<and>
     valid_utf8 (item_destination item) \<and> valid_utf8 (item_current item) \<and>
     valid_utf8 (source_revision_utf8 (item_snapshot item))"

definition dec_item :: "u32 \<Rightarrow> byte list \<Rightarrow> (BatchTransactionItem \<times> byte list) option" where
  "dec_item version bs = do {
     (location, bs) \<leftarrow> (read_integer bs :: (u8 \<times> byte list) option);
     (object_kind, bs) \<leftarrow> (read_integer bs :: (u8 \<times> byte list) option);
     (reserved16, bs) \<leftarrow> (read_integer bs :: (u16 \<times> byte list) option);
     (size, bs) \<leftarrow> (read_integer bs :: (u64 \<times> byte list) option);
     (modified, bs) \<leftarrow> (read_integer bs :: (i64 \<times> byte list) option);
     (source, bs) \<leftarrow> read_string bs;
     (temporary, bs) \<leftarrow> read_string bs;
     (destination, bs) \<leftarrow> read_string bs;
     (current, bs) \<leftarrow> read_string bs;
     (revision, bs) \<leftarrow> read_string bs;
     location \<leftarrow> enum_of all_locations location;
     kind \<leftarrow> enum_of all_kinds object_kind;
     (let item = \<lparr>item_source = source, item_temporary = temporary,
                  item_destination = destination, item_current = current,
                  item_snapshot = \<lparr>size_bytes = size, modified_unix_ns = modified,
                                   source_revision_utf8 = revision\<rparr>,
                  item_location = location, item_kind = kind\<rparr> in
      if (version = 2 \<and> object_kind \<noteq> 0) \<or> reserved16 \<noteq> 0 \<or> \<not> item_utf8 item then None
      else Some (item, bs)) }"

definition item_encodable :: "u32 \<Rightarrow> BatchTransactionItem \<Rightarrow> bool" where
  "item_encodable version item \<longleftrightarrow>
     item_strings_fit item \<and> item_utf8 item \<and> (version = 2 \<longrightarrow> item_kind item = Regular_file)"

lemma kind_code_zero: "enum_code all_kinds k = 0 \<longleftrightarrow> k = Regular_file"
  by (cases k) (simp_all add: enum_code_def all_kinds_def)

lemma dec_enc_item:
  assumes "item_encodable version item"
  shows "dec_item version (enc_item item @ rest) = Some (item, rest)"
  using assms
  by (simp add: dec_item_def enc_item_def byte_codec.dec_enc u16_codec.dec_enc u64_codec.dec_enc
      string_codec.dec_enc item_encodable_def item_strings_fit_def kind_code_zero Let_def
      item_utf8_def)

lemma enc_dec_item:
  assumes "dec_item version bs = Some (item, rest)"
  shows "item_encodable version item \<and> bs = enc_item item @ rest"
  using assms
  by (auto simp: dec_item_def bind_Some_iff byte_codec.dec_Some_iff u16_codec.dec_Some_iff
      u64_codec.dec_Some_iff string_codec.dec_Some_iff Let_def enc_item_def item_encodable_def
      item_strings_fit_def item_utf8_def kind_code_zero enum_of_iff split: if_splits)

interpretation item_codec: codec enc_item "dec_item version" "item_encodable version" for version
  using dec_enc_item enc_dec_item by unfold_locales blast+

section \<open>Transactions\<close>

definition enc_header :: "BatchRenameTransaction \<Rightarrow> byte list" where
  "enc_header t =
     append_integer transactionMagic @ append_integer (batch_version t) @
     append_integer (batch_operation_id t) @
     append_integer (enum_code all_phases (batch_phase t)) @
     append_integer (enum_code all_steps (active_step t)) @
     append_integer (enum_code all_statuses (failure_status t)) @
     append_integer (enum_code all_evidence (active_evidence t)) @
     append_integer (active_index t) @
     append_integer (word_of_nat (length (batch_items t)) :: u32) @
     append_string (failure_detail t)"

definition batch_strings_fit :: "BatchRenameTransaction \<Rightarrow> bool" where
  "batch_strings_fit t \<longleftrightarrow>
     string_fits (failure_detail t) \<and> list_all item_strings_fit (batch_items t)"

definition batch_payload :: "BatchRenameTransaction \<Rightarrow> byte list" where
  "batch_payload t = enc_header t @ concat (map enc_item (batch_items t))"

text \<open>\<^const>\<open>Inl\<close> is an exception: \<open>invalid_argument\<close> or \<open>length_error\<close>.\<close>

definition encode_batch_transaction :: "BatchRenameTransaction \<Rightarrow> string + byte list" where
  "encode_batch_transaction t =
     (case valid_batch_transaction t of
        Inl detail \<Rightarrow> Inl detail
      | Inr _ \<Rightarrow>
          if \<not> batch_strings_fit t then Inl ''batch transaction string is too large''
          else if maximumPayloadBytes < length (batch_payload t) then
            Inl ''batch transaction exceeds the journal limit''
          else Inr (batch_payload t))"

definition dec_header :: "byte list \<Rightarrow> ((BatchRenameTransaction \<times> nat) \<times> byte list) option" where
  "dec_header bs = do {
     (magic, bs) \<leftarrow> (read_integer bs :: (u32 \<times> byte list) option);
     (version, bs) \<leftarrow> (read_integer bs :: (u32 \<times> byte list) option);
     (operation_id, bs) \<leftarrow> (read_integer bs :: (u64 \<times> byte list) option);
     (phase, bs) \<leftarrow> (read_integer bs :: (u8 \<times> byte list) option);
     (step, bs) \<leftarrow> (read_integer bs :: (u8 \<times> byte list) option);
     (status, bs) \<leftarrow> (read_integer bs :: (u8 \<times> byte list) option);
     (evidence, bs) \<leftarrow> (read_integer bs :: (u8 \<times> byte list) option);
     (index, bs) \<leftarrow> (read_integer bs :: (u32 \<times> byte list) option);
     (item_count, bs) \<leftarrow> (read_integer bs :: (u32 \<times> byte list) option);
     (detail, bs) \<leftarrow> read_string bs;
     phase \<leftarrow> enum_of all_phases phase;
     step \<leftarrow> enum_of all_steps step;
     status \<leftarrow> enum_of all_statuses status;
     evidence \<leftarrow> enum_of all_evidence evidence;
     if magic \<noteq> transactionMagic \<or> (version \<noteq> 2 \<and> version \<noteq> kBatchRenameTransactionVersion) \<or>
        item_count = 0 \<or> kMaximumBatchRenameItems < unat item_count then None
     else Some ((\<lparr>batch_version = version, batch_operation_id = operation_id,
                  batch_phase = phase, active_step = step, active_index = index,
                  active_evidence = evidence, failure_status = status, failure_detail = detail,
                  batch_items = []\<rparr>, unat item_count), bs) }"

text \<open>Everything up to the end of the items, with the version as it was stored.\<close>

definition dec_batch :: "byte list \<Rightarrow> string + (BatchRenameTransaction \<times> byte list)" where
  "dec_batch bs =
     (case dec_header bs of
        None \<Rightarrow> Inl ''batch transaction header is invalid or truncated''
      | Some ((t, item_count), bs) \<Rightarrow>
          (case dec_many (dec_item (batch_version t)) item_count bs of
             None \<Rightarrow> Inl ''batch transaction item is invalid or truncated''
           | Some (items, bs) \<Rightarrow> Inr (t\<lparr>batch_items := items\<rparr>, bs)))"

definition trailing_data :: string where
  "trailing_data = ''batch transaction has trailing or invalid data''"

definition decode_batch_transaction :: "byte list \<Rightarrow> string + BatchRenameTransaction" where
  "decode_batch_transaction payload =
     (if maximumPayloadBytes < length payload then
        Inl ''batch transaction exceeds the journal limit''
      else sum_bind (dec_batch payload) (\<lambda>(decoded, bs).
        let t = decoded\<lparr>batch_version := kBatchRenameTransactionVersion\<rparr> in
        if bs \<noteq> [] \<or> \<not> valid_utf8 (failure_detail t) then Inl trailing_data
        else case valid_batch_transaction t of
               Inl detail \<Rightarrow> Inl (if detail = [] then trailing_data else detail)
             | Inr _ \<Rightarrow> Inr t))"

subsection \<open>The layout is canonical\<close>

definition batch_encodable :: "BatchRenameTransaction \<Rightarrow> bool" where
  "batch_encodable t \<longleftrightarrow>
     (batch_version t = 2 \<or> batch_version t = kBatchRenameTransactionVersion) \<and>
     batch_items t \<noteq> [] \<and> length (batch_items t) \<le> kMaximumBatchRenameItems \<and>
     string_fits (failure_detail t) \<and> (\<forall>item\<in>set (batch_items t). item_encodable (batch_version t) item)"

lemma unat_item_count:
  "length items \<le> kMaximumBatchRenameItems \<Longrightarrow> unat (word_of_nat (length items) :: u32) = length items"
  by (simp add: unat_of_nat take_bit_eq_mod kMaximumBatchRenameItems_def)

lemma dec_enc_header:
  assumes "batch_version t = 2 \<or> batch_version t = kBatchRenameTransactionVersion"
    and "batch_items t \<noteq> []" "length (batch_items t) \<le> kMaximumBatchRenameItems"
    and "string_fits (failure_detail t)"
  shows "dec_header (enc_header t @ rest) = Some ((t\<lparr>batch_items := []\<rparr>, length (batch_items t)), rest)"
proof -
  have count: "unat (word_of_nat (length (batch_items t)) :: u32) = length (batch_items t)"
    by (rule unat_item_count [OF assms(3)])
  with assms(2) have "(word_of_nat (length (batch_items t)) :: u32) \<noteq> 0"
    by (metis length_0_conv unat_eq_0)
  with assms count show ?thesis
    by (simp add: dec_header_def enc_header_def byte_codec.dec_enc u32_codec.dec_enc
        u64_codec.dec_enc string_codec.dec_enc not_less)
qed

lemma enc_dec_header:
  assumes "dec_header bs = Some ((t, n), rest)" "length items = n"
  shows "bs = enc_header (t\<lparr>batch_items := items\<rparr>) @ rest \<and> batch_items t = [] \<and>
    (batch_version t = 2 \<or> batch_version t = kBatchRenameTransactionVersion) \<and>
    0 < n \<and> n \<le> kMaximumBatchRenameItems \<and> string_fits (failure_detail t)"
proof -
  have count: "w = word_of_nat m" if "unat w = m" for w :: u32 and m
    using that by auto
  have "0 < n \<and> n \<le> kMaximumBatchRenameItems"
    using assms(1)
    by (auto simp: dec_header_def bind_Some_iff unat_gt_0 not_less split: if_splits)
  with assms show ?thesis
    by (auto simp: dec_header_def bind_Some_iff byte_codec.dec_Some_iff u32_codec.dec_Some_iff
        u64_codec.dec_Some_iff string_codec.dec_Some_iff enc_header_def enum_of_iff not_less
        split: if_splits dest!: count)
qed

lemma dec_batch_payload:
  assumes "batch_encodable t"
  shows "dec_batch (batch_payload t @ rest) = Inr (t, rest)"
proof -
  have "dec_many (dec_item (batch_version t)) (length (batch_items t))
      (concat (map enc_item (batch_items t)) @ rest) = Some (batch_items t, rest)"
    using assms by (intro item_codec.dec_many_enc) (simp add: batch_encodable_def)
  with assms show ?thesis
    by (simp add: dec_batch_def batch_payload_def dec_enc_header batch_encodable_def)
qed

lemma payload_dec_batch:
  assumes "dec_batch bs = Inr (t, rest)"
  shows "batch_encodable t \<and> bs = batch_payload t @ rest"
proof -
  from assms obtain t0 n bs1 items where header: "dec_header bs = Some ((t0, n), bs1)"
    and items: "dec_many (dec_item (batch_version t0)) n bs1 = Some (items, rest)"
    and t: "t = t0\<lparr>batch_items := items\<rparr>"
    by (auto simp: dec_batch_def split: option.splits)
  from item_codec.enc_dec_many [OF items] have many: "length items = n"
    "\<forall>x\<in>set items. item_encodable (batch_version t0) x" "bs1 = concat (map enc_item items) @ rest"
    by blast+
  from enc_dec_header [OF header many(1)] many show ?thesis
    by (auto simp: t batch_encodable_def batch_payload_def)
qed

section \<open>Round trip\<close>

definition batch_utf8 :: "BatchRenameTransaction \<Rightarrow> bool" where
  "batch_utf8 t \<longleftrightarrow> valid_utf8 (failure_detail t) \<and> (\<forall>item\<in>set (batch_items t). item_utf8 item)"

lemma encode_batch_InrD:
  assumes "encode_batch_transaction t = Inr bytes"
  shows "valid_batch_transaction t = Inr ()" "bytes = batch_payload t" "batch_strings_fit t"
    "length bytes \<le> maximumPayloadBytes"
  using assms
  by (auto simp: encode_batch_transaction_def case_sum_Inr split: if_splits)

lemma valid_batch_encodable:
  assumes "valid_batch_transaction t = Inr ()" "batch_strings_fit t"
    "\<forall>item\<in>set (batch_items t). item_utf8 item"
  shows "batch_encodable t"
proof -
  have "(3 :: u32) \<noteq> 2" by simp
  with assms show ?thesis
    by (auto simp: valid_batch_transaction_iff batch_header_ok_def batch_encodable_def
        batch_strings_fit_def item_encodable_def list_all_iff kBatchRenameTransactionVersion_def)
qed

lemma decode_encode_batch:
  assumes "encode_batch_transaction t = Inr bytes" "batch_utf8 t"
  shows "decode_batch_transaction bytes = Inr t"
proof -
  note enc = encode_batch_InrD [OF assms(1)]
  have "dec_batch bytes = Inr (t, [])"
    using dec_batch_payload [OF valid_batch_encodable [OF enc(1,3)], of "[]"] assms(2) enc(2)
    by (simp add: batch_utf8_def)
  moreover have "t\<lparr>batch_version := kBatchRenameTransactionVersion\<rparr> = t"
    using enc(1) by (simp add: valid_batch_transaction_iff batch_header_ok_def)
  ultimately show ?thesis
    using enc assms(2) by (simp add: decode_batch_transaction_def batch_utf8_def Let_def)
qed

lemma decode_batch_InrD:
  assumes "decode_batch_transaction bytes = Inr t"
  shows "valid_batch_transaction t = Inr ()" "batch_utf8 t"
    "\<exists>stored. batch_encodable stored \<and> bytes = batch_payload stored \<and>
       t = stored\<lparr>batch_version := kBatchRenameTransactionVersion\<rparr>"
proof -
  from assms obtain stored where
    "dec_batch bytes = Inr (stored, [])" "length bytes \<le> maximumPayloadBytes"
    and t: "t = stored\<lparr>batch_version := kBatchRenameTransactionVersion\<rparr>"
    and utf8: "valid_utf8 (failure_detail t)" and valid: "valid_batch_transaction t = Inr ()"
    by (auto simp: decode_batch_transaction_def sum_bind_Inr_iff Let_def split: if_splits sum.splits)
  with payload_dec_batch [of bytes stored "[]"] have stored: "batch_encodable stored"
    "bytes = batch_payload stored" by auto
  show "valid_batch_transaction t = Inr ()" by (rule valid)
  show "batch_utf8 t"
    using stored(1) utf8 by (simp add: t batch_utf8_def batch_encodable_def item_encodable_def)
  show "\<exists>stored. batch_encodable stored \<and> bytes = batch_payload stored \<and>
       t = stored\<lparr>batch_version := kBatchRenameTransactionVersion\<rparr>"
    using stored t by blast
qed


end
