(* ===== verification/Posix_Volume.thy ===== *)
theory Posix_Volume
  imports File_Operation
begin

text \<open>
  The volume under the rename executor: directory entries and the calls that
  \<open>src/Source/src/fileops/posix/file_operation.cpp\<close> and \<open>platform/posix/read_only_source.cpp\<close> make
  on them. Entries are keyed by the elements of their path, so two spellings that compare equal
  name one entry; symbolic links are not followed by any of the calls. A script says how each
  system call ends. No other process changes the volume while a request runs.
\<close>

section \<open>Objects and their revisions\<close>

record inode =
  st_dev :: u64
  st_ino :: u64
  birth_time_ns :: "i64 option"
  st_ctim :: i64
  st_mtim :: i64
  st_size :: u64
  st_nlink :: nat
  st_uid :: nat
  st_mode :: nat \<comment> \<open>the nine permission bits\<close>
  inode_kind :: OperationObjectKind
  content :: "byte list"

definition signed_decimal :: "i64 \<Rightarrow> string" where
  "signed_decimal v = (if sint v < 0 then ''-'' @ decimal (nat (- sint v)) else decimal (nat (sint v)))"

text \<open>\<open>posix_identity::revision\<close>\<close>

definition revision :: "inode \<Rightarrow> string" where
  "revision n =
     (let device = decimal (unat (st_dev n)); ino = decimal (unat (st_ino n));
          changed = signed_decimal (st_ctim n) in
      case birth_time_ns n of
        Some birth \<Rightarrow>
          ''posix2:'' @ device @ '':'' @ ino @ '':'' @ signed_decimal birth @ '':'' @ changed
      | None \<Rightarrow> ''posix:'' @ device @ '':'' @ ino @ '':'' @ changed)"

definition snapshot :: "inode \<Rightarrow> SourceSnapshot" where
  "snapshot n = \<lparr>size_bytes = st_size n, modified_unix_ns = st_mtim n,
                 source_revision_utf8 = revision n\<rparr>"

definition snapshot_for_object :: "inode \<Rightarrow> OperationObjectKind \<Rightarrow> SourceSnapshot" where
  "snapshot_for_object n kind =
     (if kind = Directory_object then (snapshot n)\<lparr>size_bytes := 0\<rparr> else snapshot n)"

definition snapshot_matches :: "inode \<Rightarrow> SourceSnapshot \<Rightarrow> bool" where
  "snapshot_matches n expected \<longleftrightarrow>
     inode_kind n = Regular_file \<and> st_size n = size_bytes expected \<and>
     st_mtim n = modified_unix_ns expected \<and>
     same_source_revision (revision n) (source_revision_utf8 expected)"

definition snapshot_matches_object :: "inode \<Rightarrow> SourceSnapshot \<Rightarrow> OperationObjectKind \<Rightarrow> bool" where
  "snapshot_matches_object n expected kind \<longleftrightarrow>
     (if kind = Regular_file then snapshot_matches n expected
      else inode_kind n = Directory_object \<and> size_bytes expected = 0 \<and>
           same_object_identity (revision n) (source_revision_utf8 expected))"

section \<open>System calls\<close>

text \<open>How one call ends. A failing rename may nevertheless have taken effect, but only under an
  error that leaves the outcome open.\<close>

datatype call = Call_ok | Call_fails errno bool

record volume =
  entries :: "string list \<rightharpoonup> inode"
  calls :: "call list"
  clock :: i64 \<comment> \<open>the change time the next rename gives its object\<close>
  remote_smb :: bool
  storage_id :: string
  strerror :: "errno \<Rightarrow> string"
  digest_of :: "byte list \<Rightarrow> byte list"
  euid :: nat
  next_directory :: "nat \<Rightarrow> inode" \<comment> \<open>what the file system makes of the mode of a new directory\<close>

definition ENOTDIR :: errno where "ENOTDIR = 20"
definition EINVAL :: errno where "EINVAL = 22"
definition EOPNOTSUPP :: errno where "EOPNOTSUPP = 95"
definition ETIMEDOUT :: errno where "ETIMEDOUT = 110"
definition EPERM :: errno where "EPERM = 1"
definition EACCES :: errno where "EACCES = 13"
definition EXDEV :: errno where "EXDEV = 18"
definition ETXTBSY :: errno where "ETXTBSY = 26"
definition EROFS :: errno where "EROFS = 30"
definition ENOSYS :: errno where "ENOSYS = 38"
definition ELOOP :: errno where "ELOOP = 40"

text \<open>\<open>ENETDOWN\<close>, \<open>ENETUNREACH\<close>, \<open>ECONNABORTED\<close>, \<open>ECONNRESET\<close>, \<open>EHOSTDOWN\<close>, \<open>EHOSTUNREACH\<close>,
  \<open>ESTALE\<close>\<close>

definition disconnected_error :: "errno \<Rightarrow> bool" where
  "disconnected_error code \<longleftrightarrow> code \<in> {100, 101, 103, 104, 112, 113, 116}"

lemmas errno_defs =
  ENOENT_def EIO_def EBUSY_def EEXIST_def ENOTEMPTY_def ENOTDIR_def EINVAL_def EOPNOTSUPP_def
  ETIMEDOUT_def EPERM_def EACCES_def EXDEV_def ETXTBSY_def EROFS_def ENOSYS_def ELOOP_def

definition status_for_errno :: "errno \<Rightarrow> OperationStatus" where
  "status_for_errno code =
     (if code \<in> {ENOENT, ENOTDIR} then Not_found
      else if code \<in> {EEXIST, ENOTEMPTY} then Conflict
      else if code \<in> {EBUSY, ETXTBSY} then File_in_use
      else if code \<in> {EACCES, EPERM, EROFS} then Permission_denied
      else if code = ETIMEDOUT then Timed_out
      else if code = EXDEV then Cross_device
      else if code \<in> {ENOSYS, EINVAL, ELOOP, EOPNOTSUPP} then Unsupported
      else if disconnected_error code then Disconnected else Io_error)"

definition uncertain_errno :: "errno \<Rightarrow> bool" where
  "uncertain_errno code \<longleftrightarrow> code = EIO \<or> code = ETIMEDOUT \<or> disconnected_error code"

definition next_call :: "volume \<Rightarrow> call \<times> volume" where
  "next_call v = (case calls v of [] \<Rightarrow> (Call_ok, v) | c # cs \<Rightarrow> (c, v\<lparr>calls := cs\<rparr>))"

definition lookup :: "volume \<Rightarrow> path \<Rightarrow> inode option" where
  "lookup v p = entries v (path_elems p)"

text \<open>A call that only reads; a script entry makes it fail.\<close>

definition reading :: "(volume \<Rightarrow> errno + 'a) \<Rightarrow> volume \<Rightarrow> (errno + 'a) \<times> volume" where
  "reading f v =
     (case next_call v of (Call_ok, v) \<Rightarrow> (f v, v) | (Call_fails e _, v) \<Rightarrow> (Inl e, v))"

text \<open>Sequencing: the handler of the error, and the rest.\<close>

definition attempt ::
  "(errno + 'a) \<times> volume \<Rightarrow> (errno \<Rightarrow> volume \<Rightarrow> 'r) \<Rightarrow> ('a \<Rightarrow> volume \<Rightarrow> 'r) \<Rightarrow> 'r"
where
  "attempt m handler rest =
     (case m of (Inl e, v) \<Rightarrow> handler e v | (Inr a, v) \<Rightarrow> rest a v)"

text \<open>A check that refuses with a result of its own, or lets the rest run.\<close>

definition guarded ::
  "('r option \<times> volume) \<Rightarrow> (volume \<Rightarrow> 'r \<times> volume) \<Rightarrow> 'r \<times> volume"
where
  "guarded m rest = (case m of (Some r, v) \<Rightarrow> (r, v) | (None, v) \<Rightarrow> rest v)"

definition fstat :: "volume \<Rightarrow> (errno + unit) \<times> volume" where
  "fstat v = reading (\<lambda>_. Inr ()) v"

definition open_directory :: "path \<Rightarrow> volume \<Rightarrow> (errno + inode) \<times> volume" where
  "open_directory p v =
     reading (\<lambda>v. case lookup v p of
        None \<Rightarrow> Inl ENOENT
      | Some n \<Rightarrow> if inode_kind n = Directory_object then Inr n else Inl ENOTDIR) v"

definition open_regular_at :: "path \<Rightarrow> volume \<Rightarrow> (errno + inode) \<times> volume" where
  "open_regular_at p v =
     attempt (reading (\<lambda>v. case lookup v p of None \<Rightarrow> Inl ENOENT | Some n \<Rightarrow> Inr n) v)
       (\<lambda>e v. (Inl e, v))
       (\<lambda>n v. attempt (fstat v) (\<lambda>e v. (Inl e, v))
         (\<lambda>_ v. (if inode_kind n = Regular_file then Inr n else Inl EOPNOTSUPP, v)))"

definition open_object_at :: "path \<Rightarrow> OperationObjectKind \<Rightarrow> volume \<Rightarrow> (errno + inode) \<times> volume" where
  "open_object_at p kind v =
     (if kind = Regular_file then open_regular_at p v
      else attempt (open_directory p v) (\<lambda>e v. (Inl e, v))
             (\<lambda>n v. attempt (fstat v) (\<lambda>e v. (Inl e, v)) (\<lambda>_ v. (Inr n, v))))"

datatype match_state = Matches | Mismatch | Match_error errno

definition path_still_names_directory :: "path \<Rightarrow> inode \<Rightarrow> volume \<Rightarrow> match_state \<times> volume" where
  "path_still_names_directory p pinned v =
     attempt (fstat v) (\<lambda>e v. (Match_error e, v)) (\<lambda>_ v.
     attempt (open_directory p v) (\<lambda>e v. (Match_error e, v)) (\<lambda>current v.
     attempt (fstat v) (\<lambda>e v. (Match_error e, v)) (\<lambda>_ v.
       (if same_source_revision (revision pinned) (revision current) then Matches else Mismatch,
        v))))"

definition directory_matches_expected :: "inode \<Rightarrow> string \<Rightarrow> volume \<Rightarrow> match_state \<times> volume" where
  "directory_matches_expected n expected v =
     (if expected = [] then (Matches, v)
      else attempt (fstat v) (\<lambda>e v. (Match_error e, v)) (\<lambda>_ v.
        (if same_object_identity (revision n) expected then Matches else Mismatch, v)))"

definition gone_error :: "errno \<Rightarrow> bool" where
  "gone_error e \<longleftrightarrow> e = ENOENT \<or> e = ENOTDIR \<or> e = ELOOP \<or> e = EOPNOTSUPP"

definition name_still_names_regular :: "path \<Rightarrow> inode \<Rightarrow> volume \<Rightarrow> match_state \<times> volume" where
  "name_still_names_regular p pinned v =
     attempt (fstat v) (\<lambda>e v. (Match_error e, v)) (\<lambda>_ v.
     attempt (open_regular_at p v)
       (\<lambda>e v. (if gone_error e then Mismatch else Match_error e, v)) (\<lambda>named v.
       (if same_source_revision (revision pinned) (revision named) then Matches else Mismatch, v)))"

definition name_still_names_object ::
  "path \<Rightarrow> inode \<Rightarrow> OperationObjectKind \<Rightarrow> volume \<Rightarrow> match_state \<times> volume"
where
  "name_still_names_object p pinned kind v =
     (if kind = Regular_file then name_still_names_regular p pinned v
      else attempt (fstat v) (\<lambda>e v. (Match_error e, v)) (\<lambda>_ v.
        attempt (open_object_at p kind v)
          (\<lambda>e v. (if gone_error e then Mismatch else Match_error e, v)) (\<lambda>named v.
          (if st_dev named = st_dev pinned \<and> st_ino named = st_ino pinned then Matches
           else Mismatch, v))))"

text \<open>\<open>renameat2\<close>, with or without \<open>RENAME_NOREPLACE\<close>. The object keeps its identity and gets a new
  change time.\<close>

definition moved :: "path \<Rightarrow> path \<Rightarrow> inode \<Rightarrow> volume \<Rightarrow> volume" where
  "moved source destination n v =
     v\<lparr>entries := (entries v)(path_elems source := None,
                             path_elems destination \<mapsto> n\<lparr>st_ctim := clock v\<rparr>),
       clock := clock v + 1\<rparr>"

definition renameat2 :: "path \<Rightarrow> path \<Rightarrow> bool \<Rightarrow> volume \<Rightarrow> (errno + unit) \<times> volume" where
  "renameat2 source destination no_replace v =
     (case next_call v of
        (Call_ok, v) \<Rightarrow>
          (case lookup v source of
             None \<Rightarrow> (Inl ENOENT, v)
           | Some n \<Rightarrow>
               if no_replace \<and> lookup v destination \<noteq> None then (Inl EEXIST, v)
               else (Inr (), moved source destination n v))
      | (Call_fails e performed, v) \<Rightarrow>
          (Inl e,
           (case lookup v source of
              None \<Rightarrow> v
            | Some n \<Rightarrow>
                if performed \<and> uncertain_errno e \<and> (no_replace \<longrightarrow> lookup v destination = None)
                then moved source destination n v else v)))"

definition directory_exact_name :: "path \<Rightarrow> volume \<Rightarrow> (errno + bool) \<times> volume" where
  "directory_exact_name p v = reading (\<lambda>v. Inr (lookup v p \<noteq> None)) v"

section \<open>Reading leaves the entries alone\<close>

definition still :: "volume \<Rightarrow> volume \<Rightarrow> bool" where
  "still v v' \<longleftrightarrow> entries v' = entries v \<and> clock v' = clock v \<and> remote_smb v' = remote_smb v \<and>
     storage_id v' = storage_id v \<and> euid v' = euid v"

lemma still_refl [simp, intro]: "still v v"
  by (simp add: still_def)

lemma still_trans [trans]: "still a b \<Longrightarrow> still b c \<Longrightarrow> still a c"
  by (simp add: still_def)

lemma still_lookup: "still v v' \<Longrightarrow> lookup v' p = lookup v p"
  by (simp add: still_def lookup_def)

lemma next_call_still: "next_call v = (c, v') \<Longrightarrow> still v v'"
  by (auto simp: next_call_def still_def split: list.splits)

text \<open>\<open>quiet m v\<close>: the pair \<open>m\<close> a call on \<open>v\<close> returned left the entries of \<open>v\<close> alone.\<close>

definition quiet :: "'a \<times> volume \<Rightarrow> volume \<Rightarrow> bool" where
  "quiet m v \<longleftrightarrow> still v (snd m)"

named_theorems quiet_intros "calls that only read"

lemma quiet_pair [quiet_intros]: "still v v' \<Longrightarrow> quiet (a, v') v"
  by (simp add: quiet_def)

lemma quiet_reading [quiet_intros]: "quiet (reading f v) v"
  by (auto simp: quiet_def reading_def dest: next_call_still split: prod.splits call.splits)

lemma quiet_attempt [quiet_intros]:
  assumes "quiet m v" "\<And>e v'. quiet (handler e v') v'" "\<And>a v'. quiet (rest a v') v'"
  shows "quiet (attempt m handler rest) v"
proof (cases m)
  case (Pair r v')
  with assms(1) have "still v v'" by (simp add: quiet_def)
  with assms(2,3) Pair show ?thesis
    by (cases r) (auto simp: attempt_def quiet_def intro: still_trans)
qed

lemma quiet_guarded [quiet_intros]:
  assumes "quiet m v" "\<And>v'. quiet (rest v') v'"
  shows "quiet (guarded m rest) v"
proof (cases m)
  case (Pair r v')
  with assms(1) have "still v v'" by (simp add: quiet_def)
  with assms(2) Pair show ?thesis
    by (cases r) (auto simp: guarded_def quiet_def intro: still_trans)
qed

lemma quiet_if [quiet_intros]: "(b \<Longrightarrow> quiet m v) \<Longrightarrow> (\<not> b \<Longrightarrow> quiet m' v) \<Longrightarrow> quiet (if b then m else m') v"
  by simp

lemma quiet_calls [quiet_intros]:
  "quiet (fstat v) v" "quiet (open_directory p v) v" "quiet (open_regular_at p v) v"
  "quiet (open_object_at p kind v) v" "quiet (path_still_names_directory p n v) v"
  "quiet (directory_matches_expected n expected v) v" "quiet (name_still_names_regular p n v) v"
  "quiet (name_still_names_object p n kind v) v" "quiet (directory_exact_name p v) v"
  unfolding fstat_def open_directory_def open_regular_at_def open_object_at_def
    path_still_names_directory_def directory_matches_expected_def name_still_names_regular_def
    name_still_names_object_def directory_exact_name_def
  by (intro quiet_intros still_refl)+

section \<open>Identities\<close>

definition identity :: "inode \<Rightarrow> string" where
  "identity n = stable_object_identity (revision n)"

definition has_identity :: "volume \<Rightarrow> path \<Rightarrow> string \<Rightarrow> bool" where
  "has_identity v p i \<longleftrightarrow> (\<exists>n. lookup v p = Some n \<and> identity n = i)"

lemma decimal_no_colon: "CHR '':'' \<notin> set (decimal n)"
proof
  assume "CHR '':'' \<in> set (decimal n)"
  then obtain d where "d < 10" "CHR '':'' = digit_char d"
    using set_to_chars [of 10 "CHR '':''" n] by auto
  moreover have "\<forall>d\<in>set [0..<10]. CHR '':'' \<noteq> digit_char d" by code_simp
  ultimately show False by auto
qed

lemma signed_decimal_no_colon: "CHR '':'' \<notin> set (signed_decimal v)"
  by (simp add: signed_decimal_def decimal_no_colon)

lemma colon_free_count: "CHR '':'' \<notin> set s \<Longrightarrow> colon_count s = 0"
  by (simp add: colon_count_def)

lemma colon_count_append: "colon_count (s @ t) = colon_count s + colon_count t"
  by (simp add: colon_count_def)

lemma find_last_of_snoc:
  assumes "CHR '':'' \<notin> set s"
  shows "find_last_of CHR '':'' (p @ CHR '':'' # s) = Some (length p)"
proof -
  have "takeWhile (\<lambda>x. x \<noteq> CHR '':'') (rev s @ CHR '':'' # rev p) = rev s"
    using assms by (simp add: takeWhile_append)
  then show ?thesis by (simp add: find_last_of_def)
qed

lemma drop_last_field_snoc:
  "CHR '':'' \<notin> set s \<Longrightarrow> drop_last_field (p @ CHR '':'' # s) = p"
  by (simp add: drop_last_field_def find_last_of_snoc)

definition identity_text :: "inode \<Rightarrow> string" where
  "identity_text n =
     (let device = decimal (unat (st_dev n)); ino = decimal (unat (st_ino n)) in
      case birth_time_ns n of
        Some birth \<Rightarrow> ''posix2:'' @ device @ '':'' @ ino @ '':'' @ signed_decimal birth
      | None \<Rightarrow> ''posix:'' @ device @ '':'' @ ino)"

lemma revision_identity_text:
  "revision n = identity_text n @ CHR '':'' # signed_decimal (st_ctim n)"
  by (simp add: revision_def identity_text_def Let_def split: option.splits)

text \<open>The identity of an object is its device, inode and birth time: renaming does not change it.\<close>

lemma identity_eq: "identity n = identity_text n"
proof (cases "birth_time_ns n")
  case None
  then have "colon_count (revision n) = 3" "starts_with (revision n) ''posix:''"
    "\<not> starts_with (revision n) ''posix2:''" "\<not> starts_with (revision n) ''win-file128:''"
    by (simp_all add: revision_def Let_def colon_count_append colon_free_count decimal_no_colon
        signed_decimal_no_colon starts_with_def colon_count_def)
  then show ?thesis
    by (simp add: identity_def stable_object_identity_def revision_identity_text
        drop_last_field_snoc signed_decimal_no_colon)
next
  case (Some b)
  then have "colon_count (revision n) = 4" "starts_with (revision n) ''posix2:''"
    "\<not> starts_with (revision n) ''win-file128:''"
    by (simp_all add: revision_def Let_def colon_count_append colon_free_count decimal_no_colon
        signed_decimal_no_colon starts_with_def colon_count_def)
  then show ?thesis
    by (simp add: identity_def stable_object_identity_def revision_identity_text
        drop_last_field_snoc signed_decimal_no_colon)
qed

lemma identity_ctime [simp]: "identity (n\<lparr>st_ctim := c\<rparr>) = identity n"
  by (simp add: identity_eq identity_text_def)

lemma identity_nonempty [simp]: "identity n \<noteq> []"
  by (simp add: identity_eq identity_text_def Let_def split: option.splits)

end
