(* ===== verification/Rename_Executor.thy ===== *)
theory Rename_Executor
  imports Posix_Volume
begin

text \<open>
  Executing and reconciling one rename: \<open>rename_no_replace\<close> of
  \<open>src/Source/src/fileops/posix/file_operation.cpp\<close> (Linux branch), and \<open>observe\<close>,
  \<open>reconcile_rename\<close>, \<open>execute_rename\<close> of \<open>file_operation_executor.cpp\<close>. The lemmas at the end say
  what the evidence of a result proves about the volume.
\<close>

section \<open>Results\<close>

definition plain_result :: "u64 \<Rightarrow> OperationStatus \<Rightarrow> OperationEvidence \<Rightarrow> string \<Rightarrow> OperationResult" where
  "plain_result operation_id st ev detail =
     \<lparr>result_operation_id = operation_id, status = st, evidence = ev, platform_code = 0,
      source_present = False, source_matches_expected = False, destination_present = False,
      destination_matches_source = False, confirmed_snapshot = empty_snapshot,
      detail_utf8 = detail\<rparr>"

definition failure :: "volume \<Rightarrow> u64 \<Rightarrow> errno \<Rightarrow> string \<Rightarrow> bool \<Rightarrow> OperationResult" where
  "failure v operation_id code detail mutation_attempted =
     (let uncertain = (mutation_attempted \<and> uncertain_errno code) in
      (plain_result operation_id (if uncertain then Unknown_outcome else status_for_errno code)
        (if uncertain then Evidence_none else No_commit)
        (if detail = [] then strerror v code else detail))\<lparr>platform_code := word_of_nat code\<rparr>)"

definition changed_result :: "u64 \<Rightarrow> string \<Rightarrow> OperationResult" where
  "changed_result operation_id detail = plain_result operation_id Source_changed No_commit detail"

type_synonym 'a checked = "OperationResult option \<times> volume"

definition fails_with :: "u64 \<Rightarrow> string \<Rightarrow> errno \<Rightarrow> volume \<Rightarrow> OperationResult \<times> volume" where
  "fails_with operation_id detail e v = (failure v operation_id e detail False, v)"

text \<open>The outcome of a comparison as a check.\<close>

definition check_match ::
  "u64 \<Rightarrow> string \<Rightarrow> string \<Rightarrow> match_state \<times> volume \<Rightarrow> OperationResult option \<times> volume"
where
  "check_match operation_id mismatch unavailable m =
     (case m of
        (Matches, v) \<Rightarrow> (None, v)
      | (Mismatch, v) \<Rightarrow> (Some (changed_result operation_id mismatch), v)
      | (Match_error e, v) \<Rightarrow> (Some (failure v operation_id e unavailable False), v))"

section \<open>The checks before the rename\<close>

definition lexical_ancestor :: "path \<Rightarrow> path \<Rightarrow> bool" where
  "lexical_ancestor ancestor p \<longleftrightarrow>
     starts_with (path_elems (lexically_normal p)) (path_elems (lexically_normal ancestor))"

definition verify_rename_destination_anchor ::
  "RenameRequest \<Rightarrow> volume \<Rightarrow> OperationResult option \<times> volume"
where
  "verify_rename_destination_anchor request v =
     (let op = rename_operation_id request in
      if rename_anchor_path request = [] then (None, v)
      else if \<not> lexical_ancestor (rename_anchor_path request)
                (parent_path (rename_destination request)) then
        (Some (plain_result op Invalid_request No_commit
           ''destination is outside its supplied anchor''), v)
      else attempt (open_directory (rename_anchor_path request) v)
        (\<lambda>e v. (Some ((plain_result op (status_for_errno e) No_commit
            (if e = ENOTDIR then ''path is not a direct directory'' else strerror v e))
            \<lparr>platform_code := word_of_nat e\<rparr>), v)) (\<lambda>n v.
        attempt (fstat v)
          (\<lambda>e v. (Some ((plain_result op (status_for_errno e) No_commit (strerror v e))
              \<lparr>platform_code := word_of_nat e\<rparr>), v)) (\<lambda>_ v.
          (if \<not> same_object_identity (revision n) (rename_anchor_identity request) then
             Some (changed_result op ''destination anchor identity changed'')
           else None, v))))"

definition posix_trash_mode :: "RenameRequest \<Rightarrow> bool" where
  "posix_trash_mode request \<longleftrightarrow>
     rename_mode request = Trash_internal \<or> rename_mode request = Trash_restore"

definition check_parent_identities ::
  "RenameRequest \<Rightarrow> inode \<Rightarrow> inode \<Rightarrow> volume \<Rightarrow> OperationResult option \<times> volume"
where
  "check_parent_identities request source_parent destination_parent v =
     (let op = rename_operation_id request in
      if posix_trash_mode request then
        (if rename_source_parent_identity request \<noteq> [] \<and>
            storage_id v \<noteq> rename_source_parent_identity request then
           Some (changed_result op ''trash destination storage identity changed'') else None, v)
      else
        case directory_matches_expected source_parent (rename_source_parent_identity request) v of
          (Match_error e, v) \<Rightarrow>
            (Some (failure v op e ''source parent identity could not be read'' False), v)
        | (source_match, v) \<Rightarrow>
            (case directory_matches_expected destination_parent
                    (rename_destination_parent_identity request) v of
               (Match_error e, v) \<Rightarrow>
                 (Some (failure v op e ''destination parent identity could not be read'' False), v)
             | (destination_match, v) \<Rightarrow>
                 (if source_match \<noteq> Matches \<or> destination_match \<noteq> Matches then
                    Some (changed_result op ''source or destination parent identity changed'')
                  else None, v)))"

definition check_source_object ::
  "RenameRequest \<Rightarrow> inode \<Rightarrow> volume \<Rightarrow> OperationResult option \<times> volume"
where
  "check_source_object request source v =
     (let op = rename_operation_id request; expected = rename_expected_source request;
          kind = rename_object_kind request; trash_mode = posix_trash_mode request in
      if trash_mode \<and> rename_source_parent_identity request \<noteq> [] \<and>
         storage_id v \<noteq> rename_source_parent_identity request then
        (Some (changed_result op ''trash storage identity changed''), v)
      else if \<not> snapshot_matches_object source expected kind \<or>
              (\<not> trash_mode \<and> kind = Directory_object \<and>
               (st_mtim source \<noteq> modified_unix_ns expected \<or>
                \<not> same_source_revision (revision source) (source_revision_utf8 expected))) then
        (Some (changed_result op ''source identity changed before rename''), v)
      else if kind = Regular_file \<and> (transfer_rename_mode (rename_mode request) \<or> trash_mode) \<and>
              st_nlink source \<noteq> 1 then
        (Some ((plain_result op Unsupported No_commit
            (if trash_mode then ''VO-VE Trash does not accept files with multiple hard links''
             else ''file transfer does not accept files with multiple hard links''))
            \<lparr>source_present := True, source_matches_expected := True,
             confirmed_snapshot := snapshot_for_object source kind\<rparr>), v)
      else (None, v))"

text \<open>The existing object a replacing rename is authorised to overwrite.\<close>

definition check_existing ::
  "RenameRequest \<Rightarrow> inode \<Rightarrow> inode \<Rightarrow> volume \<Rightarrow> OperationResult option \<times> volume"
where
  "check_existing request source existing v =
     (let op = rename_operation_id request in
      if st_nlink existing \<noteq> 1 \<or>
         \<not> snapshot_matches existing (rename_expected_destination request) \<or>
         (st_dev existing = st_dev source \<and> st_ino existing = st_ino source) then
        (Some (changed_result op
           ''authorized overwrite destination changed before publication''), v)
      else attempt (fstat v)
        (\<lambda>e v. (Some (failure v op e
           ''overwrite destination filesystem could not be identified'' False), v)) (\<lambda>_ v.
        (if remote_smb v then
           Some ((plain_result op Unsupported No_commit
               ''direct CIFS replacement requires a journalled destination evacuation'')
               \<lparr>source_present := True, source_matches_expected := True,
                destination_present := True, confirmed_snapshot := snapshot existing\<rparr>)
         else None, v)))"

section \<open>Committing\<close>

text \<open>\<open>digest_descriptor\<close>: the content of the pinned file, as a digest and its length.\<close>

definition digest_descriptor :: "inode \<Rightarrow> volume \<Rightarrow> (errno + byte list \<times> u64) \<times> volume" where
  "digest_descriptor n v =
     reading (\<lambda>v. Inr (digest_of v (content n), word_of_nat (length (content n)))) v"

definition prove_content ::
  "RenameRequest \<Rightarrow> inode \<Rightarrow> volume \<Rightarrow> (OperationResult + (byte list \<times> u64) option) \<times> volume"
where
  "prove_content request source v =
     (let op = rename_operation_id request in
      if rename_mode request \<noteq> Transfer_overwrite_stage then (Inr None, v)
      else attempt (digest_descriptor source v)
        (\<lambda>e v. (Inl (failure v op e
           ''overwrite destination could not be hashed before evacuation'' False), v))
        (\<lambda>digest v. attempt (fstat v)
          (\<lambda>e v. (Inl (failure v op e
             ''overwrite destination could not be confirmed after hashing'' False), v))
          (\<lambda>_ v.
            (if snd digest \<noteq> size_bytes (rename_expected_source request) \<or>
                \<not> snapshot_matches source (rename_expected_source request) then
               Inl (changed_result op ''overwrite destination changed while being hashed'')
             else Inr (Some digest), v))))"

definition committed_result ::
  "u64 \<Rightarrow> OperationStatus \<Rightarrow> bool \<Rightarrow> SourceSnapshot \<Rightarrow> string \<Rightarrow> OperationResult"
where
  "committed_result op st destination confirmed detail =
     (plain_result op st Committed detail)
       \<lparr>destination_present := destination, confirmed_snapshot := confirmed\<rparr>"

text \<open>The content proof after an overwritten object has been moved aside; the result is a refusal,
  or the status with which the destination is reported.\<close>

definition reprove_content ::
  "RenameRequest \<Rightarrow> inode \<Rightarrow> inode \<Rightarrow> byte list \<times> u64 \<Rightarrow> volume \<Rightarrow>
   OperationResult option \<times> volume"
where
  "reprove_content request source destination digest_before v =
     (let op = rename_operation_id request;
          lost = committed_result op Unknown_outcome True (snapshot destination)
            ''overwrite destination was evacuated but its content proof failed'' in
      attempt (digest_descriptor source v)
        (\<lambda>_ v. attempt (fstat v) (\<lambda>_ v. (Some lost, v)) (\<lambda>_ v. (Some lost, v)))
        (\<lambda>digest v. attempt (fstat v) (\<lambda>_ v. (Some lost, v)) (\<lambda>_ v.
          if snd digest \<noteq> snd digest_before \<or> fst digest \<noteq> fst digest_before \<or>
             st_size destination \<noteq> snd digest then
            (Some (committed_result op Source_changed True (snapshot destination)
               ''overwrite destination content changed during evacuation''), v)
          else case name_still_names_regular (rename_destination request) destination v of
            (Matches, v) \<Rightarrow> (None, v)
          | (_, v) \<Rightarrow> (Some (committed_result op Unknown_outcome False empty_snapshot
               ''overwrite destination was evacuated but its backup name changed''), v))))"

text \<open>After the rename: the destination must be the object that was renamed, or the one object of
  a case-insensitive server under its new spelling.\<close>

definition confirmed_case_alias ::
  "RenameRequest \<Rightarrow> inode \<Rightarrow> inode \<Rightarrow> bool \<Rightarrow> volume \<Rightarrow> bool \<times> volume"
where
  "confirmed_case_alias request source destination case_alias v =
     (if case_alias \<and> st_size destination = st_size source \<and> st_mtim destination = st_mtim source
      then
        let (destination_exact, v) = directory_exact_name (rename_destination request) v;
            (source_exact, v) = directory_exact_name (rename_source request) v in
        (destination_exact = Inr True \<and> source_exact = Inr False, v)
      else (False, v))"

definition confirm_rename ::
  "RenameRequest \<Rightarrow> inode \<Rightarrow> bool \<Rightarrow> (byte list \<times> u64) option \<Rightarrow> volume \<Rightarrow>
   OperationResult \<times> volume"
where
  "confirm_rename request source case_alias digest_before v =
     (let op = rename_operation_id request; kind = rename_object_kind request;
          unconfirmed = ''rename committed but destination identity could not be confirmed'' in
      attempt (open_object_at (rename_destination request) kind v)
        (\<lambda>e v. ((committed_result op Unknown_outcome False empty_snapshot unconfirmed)
                 \<lparr>platform_code := word_of_nat e\<rparr>, v)) (\<lambda>destination v.
        let (aliased, v) = confirmed_case_alias request source destination case_alias v in
        if (st_dev destination \<noteq> st_dev source \<or> st_ino destination \<noteq> st_ino source) \<and> \<not> aliased then
          (committed_result op Unknown_outcome True (snapshot_for_object destination kind)
             unconfirmed, v)
        else guarded
          (case digest_before of
             None \<Rightarrow> (None, v)
           | Some digest \<Rightarrow> reprove_content request source destination digest v)
          (\<lambda>v. ((committed_result op Success True (snapshot_for_object destination kind) [])
                 \<lparr>destination_matches_source := True\<rparr>, v))))"

text \<open>A refused rename. When the destination exists, the directories are scanned for the two exact
  names: a case-insensitive server lists the one object under its old spelling only, and then the
  rename is repeated without the guard against replacing.\<close>

definition destination_has_shape :: "RenameRequest \<Rightarrow> inode \<Rightarrow> volume \<Rightarrow> bool \<times> volume" where
  "destination_has_shape request source v =
     attempt (reading (\<lambda>v. case lookup v (rename_destination request) of
          None \<Rightarrow> Inl ENOENT | Some n \<Rightarrow> Inr n) v)
       (\<lambda>_ v. (False, v))
       (\<lambda>n v. (inode_kind n = Regular_file \<and> st_size n = st_size source \<and>
                st_mtim n = st_mtim source, v))"

definition same_directory_descriptors :: "inode \<Rightarrow> inode \<Rightarrow> volume \<Rightarrow> bool \<times> volume" where
  "same_directory_descriptors left right v =
     attempt (fstat v) (\<lambda>_ v. (False, v)) (\<lambda>_ v. attempt (fstat v) (\<lambda>_ v. (False, v)) (\<lambda>_ v.
       (inode_kind left = Directory_object \<and> inode_kind right = Directory_object \<and>
        same_source_revision (revision left) (revision right), v)))"

definition case_alias_rename ::
  "RenameRequest \<Rightarrow> inode \<Rightarrow> inode \<Rightarrow> inode \<Rightarrow> volume \<Rightarrow> (errno + bool) \<times> volume"
where
  "case_alias_rename request source source_parent destination_parent v =
     (let (shape, v) = destination_has_shape request source v;
          (source_exact, v) = directory_exact_name (rename_source request) v;
          (destination_exact, v) = directory_exact_name (rename_destination request) v in
      case source_exact of
        Inl e \<Rightarrow> (Inl e, v)
      | Inr source_listed \<Rightarrow>
          (case destination_exact of
             Inl e \<Rightarrow> (Inl e, v)
           | Inr destination_listed \<Rightarrow>
               if rename_object_kind request \<noteq> Regular_file \<or> \<not> shape then (Inr False, v)
               else
                 let (same, v) = same_directory_descriptors source_parent destination_parent v in
                 (Inr (same \<and> source_listed \<and> \<not> destination_listed), v)))"

definition refused_rename ::
  "RenameRequest \<Rightarrow> inode \<Rightarrow> inode \<Rightarrow> inode \<Rightarrow> (byte list \<times> u64) option \<Rightarrow> errno \<Rightarrow> volume \<Rightarrow>
   OperationResult \<times> volume"
where
  "refused_rename request source source_parent destination_parent digest_before code v =
     (let op = rename_operation_id request in
      if code \<noteq> EEXIST then (failure v op code [] True, v)
      else
        let (alias, v) = case_alias_rename request source source_parent destination_parent v in
        case alias of
          Inl e \<Rightarrow>
            fails_with op ''directory entries could not be verified for case-only rename'' e v
        | Inr retry \<Rightarrow>
            if \<not> retry then (failure v op code [] True, v)
            else guarded (check_match op ''source name changed before case-only rename''
                ''source name could not be confirmed before case-only rename''
                (name_still_names_regular (rename_source request) source v))
              (\<lambda>v. attempt (renameat2 (rename_source request) (rename_destination request) False v)
                (\<lambda>code v. (failure v op code [] True, v))
                (\<lambda>_. confirm_rename request source True digest_before)))"

definition commit_rename ::
  "RenameRequest \<Rightarrow> inode \<Rightarrow> inode \<Rightarrow> inode \<Rightarrow> bool \<Rightarrow> (byte list \<times> u64) option \<Rightarrow> volume \<Rightarrow>
   OperationResult \<times> volume"
where
  "commit_rename request source source_parent destination_parent replacement digest_before v =
     attempt (renameat2 (rename_source request) (rename_destination request) (\<not> replacement) v)
       (refused_rename request source source_parent destination_parent digest_before)
       (\<lambda>_. confirm_rename request source False digest_before)"

definition confirm_names ::
  "RenameRequest \<Rightarrow> inode \<Rightarrow> inode \<Rightarrow> inode \<Rightarrow> inode option \<Rightarrow> volume \<Rightarrow> OperationResult \<times> volume"
where
  "confirm_names request source source_parent destination_parent existing v =
     (let op = rename_operation_id request in
      guarded (check_match op ''source name changed before rename commit''
          ''source name could not be confirmed before rename commit''
          (name_still_names_object (rename_source request) source (rename_object_kind request) v))
        (\<lambda>v. guarded
          (case existing of
             None \<Rightarrow> (None, v)
           | Some n \<Rightarrow> check_match op ''overwrite destination changed before rename commit''
               ''overwrite destination could not be confirmed before rename commit''
               (name_still_names_regular (rename_destination request) n v))
          (\<lambda>v. case prove_content request source v of
             (Inl r, v) \<Rightarrow> (r, v)
           | (Inr digest_before, v) \<Rightarrow>
               commit_rename request source source_parent destination_parent (existing \<noteq> None)
                 digest_before v)))"

definition rename_no_replace :: "RenameRequest \<Rightarrow> volume \<Rightarrow> OperationResult \<times> volume" where
  "rename_no_replace request v =
     (let op = rename_operation_id request; source_parent_path = parent_path (rename_source request);
          destination_parent_path = parent_path (rename_destination request) in
      guarded (verify_rename_destination_anchor request v) (\<lambda>v.
      attempt (open_directory source_parent_path v)
        (fails_with op ''source parent is unavailable'') (\<lambda>source_parent v.
      attempt (open_directory destination_parent_path v)
        (fails_with op ''destination parent is unavailable'') (\<lambda>destination_parent v.
      guarded (check_parent_identities request source_parent destination_parent v) (\<lambda>v.
      attempt (open_object_at (rename_source request) (rename_object_kind request) v)
        (fails_with op ''source file is unavailable'') (\<lambda>source v.
      guarded (check_source_object request source v) (\<lambda>v.
      guarded (check_match op ''source parent path changed'' ''source parent path is unavailable''
          (path_still_names_directory source_parent_path source_parent v)) (\<lambda>v.
      guarded (check_match op ''destination parent path changed''
          ''destination parent path is unavailable''
          (path_still_names_directory destination_parent_path destination_parent v)) (\<lambda>v.
      if rename_replacement request then
        attempt (open_regular_at (rename_destination request) v)
          (fails_with op ''overwrite destination is unavailable'') (\<lambda>existing v.
          guarded (check_existing request source existing v) (\<lambda>v.
            confirm_names request source source_parent destination_parent (Some existing) v))
      else confirm_names request source source_parent destination_parent None v)))))))))"

section \<open>Observing\<close>

record ObservedSource =
  present :: bool
  matches_expected :: bool
  stable_identity_matches :: bool
  observed_remote_smb :: bool
  observed_storage :: string
  observed_failure :: OperationStatus
  observed_code :: i64
  observed_detail :: string
  observed_snapshot :: SourceSnapshot

definition unavailable :: "OperationStatus \<Rightarrow> errno \<Rightarrow> string \<Rightarrow> ObservedSource" where
  "unavailable st code detail =
     \<lparr>present = False, matches_expected = False, stable_identity_matches = False,
      observed_remote_smb = False, observed_storage = [], observed_failure = st,
      observed_code = word_of_nat code, observed_detail = detail,
      observed_snapshot = empty_snapshot\<rparr>"

text \<open>\<open>map_open_error\<close> after \<open>posix_error_kind\<close>\<close>

definition open_error_status :: "errno \<Rightarrow> OperationStatus" where
  "open_error_status code =
     (if code = EBUSY \<or> code = ETXTBSY then File_in_use
      else if code = ENOENT \<or> code = ENOTDIR then Not_found
      else if code = EACCES \<or> code = EPERM then Permission_denied
      else if code = ETIMEDOUT then Timed_out
      else if disconnected_error code then Disconnected
      else Io_error)"

definition observed_object ::
  "bool \<Rightarrow> bool \<Rightarrow> volume \<Rightarrow> bool \<Rightarrow> SourceSnapshot \<Rightarrow> string \<Rightarrow> ObservedSource"
where
  "observed_object matches same_identity v remote shot changed =
     \<lparr>present = True, matches_expected = matches, stable_identity_matches = same_identity,
      observed_remote_smb = remote, observed_storage = (if remote then storage_id v else []),
      observed_failure = (if matches then Success else Source_changed), observed_code = 0,
      observed_detail = (if matches then [] else changed), observed_snapshot = shot\<rparr>"

definition statfs_smb :: "volume \<Rightarrow> bool \<times> volume" where
  "statfs_smb v = attempt (fstat v) (\<lambda>_ v. (False, v)) (\<lambda>_ v. (remote_smb v, v))"

definition observe :: "path \<Rightarrow> SourceSnapshot \<Rightarrow> volume \<Rightarrow> ObservedSource \<times> volume" where
  "observe p expected v =
     attempt (reading (\<lambda>v. case lookup v p of None \<Rightarrow> Inl ENOENT | Some n \<Rightarrow> Inr n) v)
       (\<lambda>e v. (unavailable (open_error_status e) e (strerror v e), v)) (\<lambda>n v.
     attempt (fstat v)
       (\<lambda>e v. (unavailable (open_error_status e) e (strerror v e), v)) (\<lambda>_ v.
     if inode_kind n \<noteq> Regular_file then
       (unavailable Unsupported 0 ''source is not a regular file'', v)
     else
       let (remote, v) = statfs_smb v in
       (observed_object
          (st_size n = size_bytes expected \<and> st_mtim n = modified_unix_ns expected \<and>
           same_source_revision (source_revision_utf8 expected) (revision n))
          (same_object_identity (source_revision_utf8 expected) (revision n) \<or>
           same_object_after_rename expected (snapshot n))
          v remote (snapshot n) ''file identity changed before operation'', v)))"

definition observe_directory :: "path \<Rightarrow> SourceSnapshot \<Rightarrow> volume \<Rightarrow> ObservedSource \<times> volume" where
  "observe_directory p expected v =
     attempt (open_directory p v)
       (\<lambda>e v. (unavailable
          (if e = EBUSY \<or> e = ETXTBSY then File_in_use
           else if e = ENOENT \<or> e = ENOTDIR then Not_found
           else if e = EACCES \<or> e = EPERM then Permission_denied else Io_error)
          e ''directory is unavailable'', v)) (\<lambda>n v.
       let (stat, v) = fstat v; (remote, v) = statfs_smb v in
       case stat of
         Inl e \<Rightarrow>
           ((unavailable Unsupported e ''trash target is not a physical directory'')
              \<lparr>present := True\<rparr>, v)
       | Inr _ \<Rightarrow>
           (let same = same_object_identity (source_revision_utf8 expected) (revision n) in
            (observed_object same same v remote ((snapshot n)\<lparr>size_bytes := 0\<rparr>)
               ''directory identity changed before operation'', v)))"

definition observe_object ::
  "path \<Rightarrow> SourceSnapshot \<Rightarrow> OperationObjectKind \<Rightarrow> volume \<Rightarrow> ObservedSource \<times> volume"
where
  "observe_object p expected kind v =
     (if kind = Directory_object then observe_directory p expected v else observe p expected v)"

definition expected_storage_matches :: "string \<Rightarrow> ObservedSource \<Rightarrow> bool" where
  "expected_storage_matches expected observed \<longleftrightarrow>
     expected = [] \<or> (observed_remote_smb observed \<and> observed_storage observed = expected)"

section \<open>Reconciling\<close>

definition trash_rename :: "RenameRequest \<Rightarrow> bool" where
  "trash_rename r \<longleftrightarrow> is_trash_store_mode (rename_mode r) \<or> is_trash_restore_mode (rename_mode r)"

definition expected_storage :: "RenameRequest \<Rightarrow> string" where
  "expected_storage r = (if trash_rename r then rename_source_parent_identity r else [])"

definition remounted :: "RenameRequest \<Rightarrow> ObservedSource \<Rightarrow> bool" where
  "remounted r observed \<longleftrightarrow>
     observed_remote_smb observed \<and>
     same_private_trash_payload_after_remount (rename_expected_source r)
       (observed_snapshot observed) (rename_source_parent_identity r) (observed_storage observed)"

definition equivalent :: "RenameRequest \<Rightarrow> bool \<Rightarrow> ObservedSource \<Rightarrow> bool" where
  "equivalent r may_remount observed \<longleftrightarrow>
     stable_identity_matches observed \<and> expected_storage_matches (expected_storage r) observed \<or>
     may_remount \<and> remounted r observed"

text \<open>The verdict on a pair of observations, given what they say of the source (it matches as
  expected, it is the private payload after a remount, it is the same object) and of the
  destination; \<^const>\<open>Inr\<close> must still see the anchor verified.\<close>

definition judge_flags ::
  "RenameRequest \<Rightarrow> ObservedSource \<Rightarrow> ObservedSource \<Rightarrow> bool \<Rightarrow> bool \<Rightarrow> bool \<Rightarrow> bool \<Rightarrow>
   OperationResult + OperationResult"
where
  "judge_flags r source destination source_matches source_remounted source_equivalent
     destination_equivalent =
     (let destination_known_not_expected =
            (present destination \<and> \<not> destination_equivalent \<or>
             \<not> present destination \<and> observed_failure destination = Not_found);
          seen = (plain_result (rename_operation_id r) Io_error Evidence_none [])
            \<lparr>source_present := present source,
             source_matches_expected := source_matches \<or> source_remounted,
             destination_present := present destination,
             destination_matches_source := destination_equivalent\<rparr> in
      if rename_mode r = Transfer_overwrite_stage \<and> destination_equivalent then
        Inr (seen\<lparr>status := Unknown_outcome, evidence := Committed,
                  destination_matches_source := False,
                  confirmed_snapshot := observed_snapshot destination,
                  detail_utf8 :=
                    ''overwrite evacuation committed without a surviving content proof''\<rparr>)
      else if \<not> source_equivalent \<and> destination_equivalent then
        Inr (seen\<lparr>status := Success, evidence := Committed,
                  confirmed_snapshot := observed_snapshot destination\<rparr>)
      else if present source \<and> (source_matches \<or> source_remounted) \<and> present destination then
        Inl (seen\<lparr>status := Conflict,
                  evidence := (if destination_equivalent then Evidence_none else No_commit),
                  platform_code := observed_code destination,
                  confirmed_snapshot :=
                    (if (rename_mode r = Transfer_publish \<or> rename_mode r = Transfer_atomic) \<and>
                        \<not> destination_equivalent
                     then observed_snapshot destination else empty_snapshot),
                  detail_utf8 := ''destination is occupied by another object''\<rparr>)
      else if present source \<and> \<not> source_matches \<and> \<not> source_remounted then
        Inl (seen\<lparr>status := Source_changed,
                  evidence := (if source_equivalent \<and> destination_known_not_expected
                               then No_commit else Evidence_none),
                  platform_code := observed_code source,
                  detail_utf8 := ''source identity changed during rename''\<rparr>)
      else
        Inl (seen\<lparr>status := Unknown_outcome,
                  evidence := (if source_equivalent \<and> destination_known_not_expected
                               then No_commit else Evidence_none),
                  platform_code := (if observed_code source \<noteq> 0 then observed_code source
                                    else observed_code destination),
                  detail_utf8 :=
                    ''rename outcome is uncertain; the operation was not repeated''\<rparr>))"

definition judge_rename ::
  "RenameRequest \<Rightarrow> ObservedSource \<Rightarrow> ObservedSource \<Rightarrow> OperationResult + OperationResult"
where
  "judge_rename r source destination =
     judge_flags r source destination
       (matches_expected source \<and> expected_storage_matches (expected_storage r) source)
       (is_trash_restore_mode (rename_mode r) \<and> remounted r source)
       (equivalent r (is_trash_restore_mode (rename_mode r)) source)
       (equivalent r (trash_rename r) destination)"

definition reconcile_rename :: "RenameRequest \<Rightarrow> volume \<Rightarrow> OperationResult \<times> volume" where
  "reconcile_rename r v =
     (case valid_rename_request r of
        Inl detail \<Rightarrow>
          (plain_result (rename_operation_id r) Invalid_request Evidence_none detail, v)
      | Inr _ \<Rightarrow>
          guarded (verify_rename_destination_anchor r v) (\<lambda>v.
            let (source, v) = observe_object (rename_source r) (rename_expected_source r)
                                (rename_object_kind r) v;
                (destination, v) = observe_object (rename_destination r) (rename_expected_source r)
                                     (rename_object_kind r) v
            in case judge_rename r source destination of
                 Inl result \<Rightarrow> (result, v)
               | Inr result \<Rightarrow>
                   guarded (verify_rename_destination_anchor r v) (\<lambda>v. (result, v))))"

section \<open>Executing\<close>

definition needs_reconciliation :: "OperationResult \<Rightarrow> bool" where
  "needs_reconciliation r \<longleftrightarrow>
     status r = Unknown_outcome \<or> status r = Timed_out \<or> status r = Disconnected \<or>
     status r = Io_error"

definition rename_then_reconcile :: "RenameRequest \<Rightarrow> volume \<Rightarrow> OperationResult \<times> volume" where
  "rename_then_reconcile r v =
     (let (result, v) = rename_no_replace r v in
      if needs_reconciliation result then
        let (observed, v) = reconcile_rename r v in (merge_reconciliation result observed, v)
      else (result, v))"

definition execute_rename :: "RenameRequest \<Rightarrow> volume \<Rightarrow> OperationResult \<times> volume" where
  "execute_rename r v =
     (case valid_rename_request r of
        Inl detail \<Rightarrow> (plain_result (rename_operation_id r) Invalid_request No_commit detail, v)
      | Inr _ \<Rightarrow>
          (let (source, v) = observe_object (rename_source r) (rename_expected_source r)
                               (rename_object_kind r) v;
               source_storage = expected_storage_matches (expected_storage r) source;
               source_matches = (matches_expected source \<and> source_storage);
               private_payload = is_trash_restore_mode (rename_mode r) in
           if present source \<and> source_matches then rename_then_reconcile r v
           else if (transfer_rename_mode (rename_mode r) \<or> private_payload) \<and> present source \<and>
                   observed_remote_smb source \<and>
                   (source_storage \<and>
                    same_object_after_rename (rename_expected_source r) (observed_snapshot source) \<or>
                    private_payload \<and>
                    same_private_trash_payload_after_remount (rename_expected_source r)
                      (observed_snapshot source) (rename_source_parent_identity r)
                      (observed_storage source)) then
             rename_then_reconcile (r\<lparr>rename_expected_source := observed_snapshot source\<rparr>) v
           else
             (let storage_changed = (present source \<and> \<not> source_storage) in
              ((plain_result (rename_operation_id r)
                  (if storage_changed then Source_changed else observed_failure source) No_commit
                  (if storage_changed then ''source storage identity changed before rename''
                   else if observed_detail source = [] then ''source is unavailable''
                   else observed_detail source))
                 \<lparr>platform_code := observed_code source, source_present := present source,
                  source_matches_expected := source_matches\<rparr>, v))))"

section \<open>What a result proves\<close>

text \<open>The volume is as it was, or the object went from the source to the vacant destination and
  the evidence does not deny it.\<close>

definition was_moved :: "RenameRequest \<Rightarrow> volume \<Rightarrow> volume \<Rightarrow> bool" where
  "was_moved r v v' \<longleftrightarrow>
     (\<exists>n. lookup v (rename_source r) = Some n \<and> lookup v (rename_destination r) = None \<and>
          still (moved (rename_source r) (rename_destination r) n v) v')"

definition truthful :: "RenameRequest \<Rightarrow> volume \<Rightarrow> OperationResult \<times> volume \<Rightarrow> bool" where
  "truthful r v m \<longleftrightarrow>
     (still v (snd m) \<or> was_moved r v (snd m) \<and> evidence (fst m) \<noteq> No_commit) \<and>
     (status (fst m) = Success \<longrightarrow>
        has_identity (snd m) (rename_destination r)
          (stable_object_identity (source_revision_utf8 (confirmed_snapshot (fst m)))))"

lemma has_identity_still: "still v v' \<Longrightarrow> has_identity v' p i = has_identity v p i"
  by (simp add: has_identity_def still_lookup)

lemma was_moved_still: "still v0 v \<Longrightarrow> was_moved r v v' \<Longrightarrow> was_moved r v0 v'"
  by (auto simp: was_moved_def lookup_def still_def moved_def)

definition refusing :: "OperationResult option \<times> volume \<Rightarrow> bool" where
  "refusing m \<longleftrightarrow> (\<forall>res. fst m = Some res \<longrightarrow> status res \<noteq> Success)"

text \<open>What the executors claim of an outcome: a claim that holds of a refusal which left the volume
  alone, and that does not depend on the calls which only read before it. The rules follow a
  handler step by step.\<close>

locale outcome_claim =
  fixes claim :: "volume \<Rightarrow> OperationResult \<times> volume \<Rightarrow> bool"
  assumes claim_still: "still v0 v \<Longrightarrow> claim v m \<Longrightarrow> claim v0 m"
    and claim_refusal: "still v v' \<Longrightarrow> status res \<noteq> Success \<Longrightarrow> claim v (res, v')"
begin

lemma claim_attempt:
  assumes "quiet m v" "\<And>e v'. claim v' (handler e v')"
    and "\<And>a v'. m = (Inr a, v') \<Longrightarrow> still v v' \<Longrightarrow> claim v' (rest a v')"
  shows "claim v (attempt m handler rest)"
proof (cases m)
  case (Pair x v')
  with assms(1) have "still v v'" by (simp add: quiet_def)
  with assms(2,3) Pair show ?thesis
    by (cases x) (auto simp: attempt_def intro: claim_still)
qed

lemma claim_guarded:
  assumes "quiet m v" "refusing m"
    and "\<And>v'. m = (None, v') \<Longrightarrow> still v v' \<Longrightarrow> claim v' (rest v')"
  shows "claim v (guarded m rest)"
proof (cases m)
  case (Pair x v')
  with assms(1) have "still v v'" by (simp add: quiet_def)
  with assms(2,3) Pair show ?thesis
    by (cases x) (auto simp: guarded_def refusing_def intro: claim_still claim_refusal)
qed

end

lemma truthful_still: "still v0 v \<Longrightarrow> truthful r v m \<Longrightarrow> truthful r v0 m"
  by (auto simp: truthful_def intro: still_trans was_moved_still)

lemma truthful_refusal: "still v v' \<Longrightarrow> status res \<noteq> Success \<Longrightarrow> truthful r v (res, v')"
  by (simp add: truthful_def)

interpretation renaming: outcome_claim "truthful r" for r
  by unfold_locales (fact truthful_still truthful_refusal)+

lemma plain_result_simps [simp]:
  "status (plain_result op st ev d) = st" "evidence (plain_result op st ev d) = ev"
  "confirmed_snapshot (plain_result op st ev d) = empty_snapshot"
  by (simp_all add: plain_result_def)

lemma status_for_errno_fails [simp]: "status_for_errno e \<noteq> Success"
  by (simp add: status_for_errno_def)

lemma failure_fails [simp]: "status (failure v op e d b) \<noteq> Success"
  by (simp add: failure_def Let_def)

lemma changed_result_fails [simp]: "status (changed_result op d) = Source_changed"
  by (simp add: changed_result_def)

context outcome_claim
begin

lemma claim_fails_with: "claim v (fails_with op d e v)"
  by (simp add: fails_with_def claim_refusal)

end

lemma refusing_check_match: "refusing (check_match op a b m)"
  by (auto simp: refusing_def check_match_def split: prod.splits match_state.splits)

lemma quiet_check_match [quiet_intros]: "quiet m v \<Longrightarrow> quiet (check_match op a b m) v"
  by (auto simp: quiet_def check_match_def split: prod.splits match_state.splits)

lemma refusing_attempt:
  "(\<And>e v. refusing (handler e v)) \<Longrightarrow> (\<And>a v. refusing (rest a v)) \<Longrightarrow>
     refusing (attempt m handler rest)"
  by (simp add: attempt_def split: prod.splits sum.splits)

lemma refusing_simps [simp]:
  "refusing (None, v)"
  "refusing (Some res, v) \<longleftrightarrow> status res \<noteq> Success"
  by (simp_all add: refusing_def)

lemma refusing_checks:
  "refusing (verify_rename_destination_anchor r v)"
  "refusing (check_parent_identities r a b v)" "refusing (check_source_object r n v)"
  "refusing (check_existing r n m v)" "refusing (reprove_content r n m d v)"
  by (auto simp: verify_rename_destination_anchor_def check_parent_identities_def
      check_source_object_def check_existing_def reprove_content_def committed_result_def Let_def
      intro!: refusing_attempt split: prod.splits match_state.splits)

lemma quiet_case_match [quiet_intros]:
  assumes "quiet m v" "\<And>e v'. quiet (f e v') v'" "\<And>a v'. quiet (g a v') v'"
  shows "quiet (case m of (Match_error e, v) \<Rightarrow> f e v | (a, v) \<Rightarrow> g a v) v"
proof (cases m)
  case (Pair a v')
  with assms(1) have "still v v'" by (simp add: quiet_def)
  with assms(2,3) Pair show ?thesis
    by (cases a) (auto simp: quiet_def intro: still_trans)
qed

lemma quiet_checks [quiet_intros]:
  "quiet (verify_rename_destination_anchor r v) v"
  "quiet (check_parent_identities r a b v) v" "quiet (check_source_object r n v) v"
  "quiet (check_existing r n m v) v" "quiet (digest_descriptor n v) v"
  unfolding verify_rename_destination_anchor_def check_parent_identities_def
    check_source_object_def check_existing_def digest_descriptor_def Let_def
  by (intro quiet_intros still_refl)+

subsection \<open>The rename itself\<close>

text \<open>What the confirmation after the rename says: never that nothing was committed, and success
  only with the snapshot of the object now at the destination.\<close>

definition confirming :: "RenameRequest \<Rightarrow> volume \<Rightarrow> OperationResult \<times> volume \<Rightarrow> bool" where
  "confirming r v m \<longleftrightarrow>
     still v (snd m) \<and> evidence (fst m) \<noteq> No_commit \<and>
     (status (fst m) = Success \<longrightarrow>
        has_identity v (rename_destination r)
          (stable_object_identity (source_revision_utf8 (confirmed_snapshot (fst m)))))"

lemma committed_result_simps [simp]:
  "status (committed_result op st b c d) = st" "evidence (committed_result op st b c d) = Committed"
  "confirmed_snapshot (committed_result op st b c d) = c"
  by (simp_all add: committed_result_def)

lemma revision_snapshot_for_object [simp]:
  "source_revision_utf8 (snapshot_for_object n kind) = revision n"
  by (simp add: snapshot_for_object_def snapshot_def)

lemma reading_Inr:
  "reading f v = (Inr a, v') \<Longrightarrow> f v' = Inr a \<and> still v v'"
  by (auto simp: reading_def split: prod.splits call.splits dest: next_call_still)

lemma quiet_run: "quiet m v \<Longrightarrow> m = (a, v') \<Longrightarrow> still v v'"
  by (simp add: quiet_def)

lemma attempt_Inr:
  assumes "attempt m (\<lambda>e v. (Inl e, v)) rest = (Inr b, v')"
  obtains a v1 where "m = (Inr a, v1)" "rest a v1 = (Inr b, v')"
  using assms by (cases m) (auto simp: attempt_def split: sum.splits)

lemma open_regular_at_Inr:
  assumes "open_regular_at p v = (Inr n, v')"
  shows "lookup v p = Some n \<and> still v v'"
proof -
  have still: "still v v'" by (rule quiet_run [OF quiet_calls(3) assms])
  from assms obtain m v1 where
    "reading (\<lambda>v. case lookup v p of None \<Rightarrow> Inl ENOENT | Some n \<Rightarrow> Inr n) v = (Inr m, v1)"
    and rest: "attempt (fstat v1) (\<lambda>e v. (Inl e, v))
         (\<lambda>_ v. (if inode_kind m = Regular_file then Inr m else Inl EOPNOTSUPP, v)) = (Inr n, v')"
    unfolding open_regular_at_def by (rule attempt_Inr)
  then have "lookup v p = Some m" using reading_Inr still_lookup
    by (fastforce split: option.splits)
  moreover from rest have "m = n" by (elim attempt_Inr) (auto split: if_splits)
  ultimately show ?thesis using still by simp
qed

lemma open_directory_Inr:
  "open_directory p v = (Inr n, v') \<Longrightarrow> lookup v p = Some n \<and> still v v'"
  unfolding open_directory_def
  by (drule reading_Inr) (auto simp: still_lookup split: option.splits if_splits)

lemma open_object_at_Inr:
  assumes "open_object_at p kind v = (Inr n, v')"
  shows "lookup v p = Some n \<and> still v v'"
proof (cases "kind = Regular_file")
  case True
  with assms show ?thesis by (simp add: open_object_at_def open_regular_at_Inr)
next
  case False
  have still: "still v v'" by (rule quiet_run [OF quiet_calls(4) assms])
  from assms False obtain m v1 where opened: "open_directory p v = (Inr m, v1)"
    and rest: "attempt (fstat v1) (\<lambda>e v. (Inl e, v)) (\<lambda>_ v. (Inr m, v)) = (Inr n, v')"
    unfolding open_object_at_def by (auto elim: attempt_Inr)
  from rest have "m = n" by (elim attempt_Inr) simp
  with open_directory_Inr [OF opened] still show ?thesis by simp
qed

lemma reprove_outcome:
  assumes "reprove_content r n m d v = (x, v')"
  shows "still v v' \<and> (\<forall>res. x = Some res \<longrightarrow> evidence res = Committed \<and> status res \<noteq> Success)"
  using assms quiet_run [OF quiet_calls(1)] quiet_run [OF quiet_calls(7)]
    quiet_run [OF quiet_checks(5)]
  by (fastforce simp: reprove_content_def attempt_def Let_def
      split: prod.splits sum.splits if_splits match_state.splits intro: still_trans)

lemma quiet_confirmed_case_alias: "quiet (confirmed_case_alias r n m b v) v"
proof -
  obtain d v1 where one: "directory_exact_name (rename_destination r) v = (d, v1)" by fastforce
  obtain s v2 where two: "directory_exact_name (rename_source r) v1 = (s, v2)" by fastforce
  have "still v v1" "still v1 v2" using quiet_run [OF quiet_calls(9)] one two by blast+
  then have "still v v2" by (rule still_trans)
  then show ?thesis by (simp add: confirmed_case_alias_def quiet_def one two)
qed

lemma confirm_rename_confirming: "confirming r v (confirm_rename r source alias digest v)"
proof -
  obtain x v1 where opened:
    "open_object_at (rename_destination r) (rename_object_kind r) v = (x, v1)" by fastforce
  then have still1: "still v v1" by (rule quiet_run [OF quiet_calls(4)])
  show ?thesis
  proof (cases x)
    case (Inl e)
    with opened still1 show ?thesis
      by (simp add: confirm_rename_def attempt_def confirming_def)
  next
    case (Inr n)
    with opened have at: "lookup v (rename_destination r) = Some n"
      using open_object_at_Inr by blast
    obtain aliased v1' where alias_run:
      "confirmed_case_alias r source n alias v1 = (aliased, v1')" by fastforce
    with still1 have still2: "still v v1'"
      using quiet_run [OF quiet_confirmed_case_alias] still_trans by blast
    obtain y v2 where proof_run: "(case digest of None \<Rightarrow> (None, v1')
        | Some d \<Rightarrow> reprove_content r source n d v1') = (y, v2)" by fastforce
    have "still v1' v2 \<and> (\<forall>res. y = Some res \<longrightarrow> evidence res = Committed \<and> status res \<noteq> Success)"
      using proof_run reprove_outcome by (cases digest) auto
    then show ?thesis
      using opened Inr still2 at proof_run alias_run
      by (cases y) (auto simp: confirm_rename_def attempt_def confirming_def guarded_def Let_def
          has_identity_def identity_def intro: still_trans)
  qed
qed

text \<open>The volume lists an object under the name that finds it, so the repetition is never tried:
  it needs a destination that is found but not listed.\<close>

lemma case_alias_rename_outcome:
  assumes "case_alias_rename r n a b v = (x, v')"
  shows "still v v'" "x \<noteq> Inr True"
proof -
  obtain shape v1 where one: "destination_has_shape r n v = (shape, v1)" by fastforce
  obtain s v2 where two: "directory_exact_name (rename_source r) v1 = (s, v2)" by fastforce
  obtain d v3 where three: "directory_exact_name (rename_destination r) v2 = (d, v3)" by fastforce
  obtain same v4 where four: "same_directory_descriptors a b v3 = (same, v4)" by fastforce
  have "quiet (destination_has_shape r n v) v" "quiet (same_directory_descriptors a b v3) v3"
    unfolding destination_has_shape_def same_directory_descriptors_def
    by (intro quiet_intros still_refl)+
  then have still1: "still v v1" and still4: "still v3 v4"
    by (simp_all add: quiet_def one four)
  have still2: "still v1 v2" and still3: "still v2 v3"
    using quiet_run [OF quiet_calls(9)] two three by blast+
  then have still13: "still v v3" using still1 still_trans by blast
  with still4 have "still v v4" using still_trans by blast
  with still13 assms one two three four show "still v v'"
    by (auto simp: case_alias_rename_def Let_def split: sum.splits if_splits)
  have found: "lookup v (rename_destination r) \<noteq> None" if shape
    using one that still1
    by (auto simp: destination_has_shape_def attempt_def still_lookup
        split: prod.splits sum.splits option.splits dest!: reading_Inr)
  have listed: "lookup v (rename_destination r) = None" if "d = Inr False"
    using reading_Inr [OF three [unfolded directory_exact_name_def that]]
    by (simp add: still_lookup [OF still13])
  have "d = Inr False \<and> shape" if "x = Inr True"
    using assms that unfolding case_alias_rename_def one two three prod.case Let_def
    by (cases s; cases d) (simp_all add: four split: if_splits)
  with found listed show "x \<noteq> Inr True" by blast
qed

lemma refused_rename_outcome:
  assumes "refused_rename r n a b digest e v = (res, v')"
  shows "still v v'" "status res \<noteq> Success" "uncertain_errno e \<Longrightarrow> evidence res = Evidence_none"
proof -
  obtain x v1 where run: "case_alias_rename r n a b v = (x, v1)" by fastforce
  note out = case_alias_rename_outcome [OF run]
  from assms run out show "still v v'" "status res \<noteq> Success"
    by (auto simp: refused_rename_def fails_with_def Let_def split: sum.splits if_splits)
  have "e = EEXIST \<Longrightarrow> \<not> uncertain_errno e"
    by (simp add: uncertain_errno_def disconnected_error_def errno_defs)
  then show "evidence res = Evidence_none" if "uncertain_errno e"
    using assms that by (auto simp: refused_rename_def failure_def Let_def split: if_splits)
qed

lemma renameat2_Inr:
  assumes "renameat2 source destination True v = (Inr u, v')"
  shows "\<exists>n. lookup v source = Some n \<and> lookup v destination = None \<and>
    still (moved source destination n v) v'"
  using assms next_call_still
  by (fastforce simp: renameat2_def lookup_def still_def moved_def
      split: prod.splits call.splits option.splits if_splits)

lemma renameat2_Inl:
  assumes "renameat2 source destination True v = (Inl e, v')"
  shows "still v v' \<or> uncertain_errno e \<and>
    (\<exists>n. lookup v source = Some n \<and> lookup v destination = None \<and>
         still (moved source destination n v) v')"
  using assms next_call_still
  by (fastforce simp: renameat2_def lookup_def still_def moved_def
      split: prod.splits call.splits option.splits if_splits)

lemma commit_rename_truthful: "truthful r v (commit_rename r source a b False digest v)"
proof -
  let ?run = "renameat2 (rename_source r) (rename_destination r) True v"
  obtain x v1 where run: "?run = (x, v1)" by fastforce
  show ?thesis
  proof (cases x)
    case (Inl e)
    obtain res v2 where refused: "refused_rename r source a b digest e v1 = (res, v2)" by fastforce
    note out = refused_rename_outcome [OF refused]
    from renameat2_Inl [OF run [unfolded Inl]] out(1,3)
    have "still v v2 \<or> was_moved r v v2 \<and> evidence res \<noteq> No_commit"
      by (auto simp: was_moved_def intro: still_trans)
    with out(2) run Inl refused show ?thesis
      by (simp add: commit_rename_def attempt_def truthful_def)
  next
    case (Inr u)
    have confirming: "confirming r v1 (confirm_rename r source False digest v1)"
      by (rule confirm_rename_confirming)
    then have "was_moved r v (snd (confirm_rename r source False digest v1))"
      using renameat2_Inr [OF run [unfolded Inr]]
      by (auto simp: was_moved_def confirming_def intro: still_trans)
    with confirming run Inr show ?thesis
      by (auto simp: commit_rename_def attempt_def truthful_def confirming_def has_identity_still)
  qed
qed

lemma prove_content_outcome:
  assumes "prove_content r n v = (x, v')"
  shows "still v v' \<and> (\<forall>res. x = Inl res \<longrightarrow> status res \<noteq> Success)"
  using assms quiet_run [OF quiet_calls(1)] quiet_run [OF quiet_checks(5)]
  by (fastforce simp: prove_content_def attempt_def Let_def
      split: prod.splits sum.splits if_splits intro: still_trans)

lemma confirm_names_truthful: "truthful r v (confirm_names r source a b None v)"
proof -
  have tail: "truthful r v (case prove_content r source v of
      (Inl res, v) \<Rightarrow> (res, v)
    | (Inr digest, v) \<Rightarrow> commit_rename r source a b (None \<noteq> (None :: inode option)) digest v)" for v
  proof -
    obtain x v1 where run: "prove_content r source v = (x, v1)" by fastforce
    with prove_content_outcome [OF run] truthful_still [OF _ commit_rename_truthful]
    show ?thesis by (cases x) (auto intro: truthful_refusal)
  qed
  show ?thesis
    unfolding confirm_names_def Let_def
    by (intro renaming.claim_guarded quiet_intros refusing_check_match) (simp add: quiet_def, simp, rule tail)
qed

text \<open>A rename that replaces nothing tells the truth about the volume.\<close>

lemma rename_no_replace_truthful:
  assumes "\<not> rename_replacement r"
  shows "truthful r v (rename_no_replace r v)"
  unfolding rename_no_replace_def Let_def using assms
  by (auto intro!: renaming.claim_guarded renaming.claim_attempt quiet_intros refusing_check_match
      refusing_checks renaming.claim_fails_with confirm_names_truthful)

subsection \<open>Reconciliation\<close>

text \<open>What an observation reports is there: an object matches or lies on a remote volume only when
  it was opened, and then the snapshot is its own.\<close>

definition observed_at :: "volume \<Rightarrow> path \<Rightarrow> ObservedSource \<Rightarrow> bool" where
  "observed_at v p o' \<longleftrightarrow>
     (stable_identity_matches o' \<or> observed_remote_smb o' \<or> matches_expected o' \<longrightarrow>
        (\<exists>n. lookup v p = Some n \<and> source_revision_utf8 (observed_snapshot o') = revision n))"

lemma statfs_smb_still: "statfs_smb v = (b, v') \<Longrightarrow> still v v'"
  using quiet_run [OF quiet_calls(1)]
  by (fastforce simp: statfs_smb_def attempt_def split: prod.splits sum.splits)

lemma observe_outcome:
  assumes "observe p expected v = (o', v')"
  shows "still v v' \<and> observed_at v p o'"
proof -
  let ?open = "reading (\<lambda>v. case lookup v p of None \<Rightarrow> Inl ENOENT | Some n \<Rightarrow> Inr n) v"
  obtain x v1 where opened: "?open = (x, v1)" by fastforce
  then have still1: "still v v1" by (rule quiet_run [OF quiet_reading])
  show ?thesis
  proof (cases x)
    case (Inl e)
    with assms opened still1 show ?thesis
      by (auto simp: observe_def attempt_def unavailable_def observed_at_def)
  next
    case (Inr n)
    with opened have "lookup v1 p = Some n"
      using reading_Inr by (fastforce split: option.splits)
    then have at: "lookup v p = Some n" using still1 by (simp add: still_lookup)
    obtain y v2 where stat: "fstat v1 = (y, v2)" by fastforce
    then have still2: "still v1 v2" by (rule quiet_run [OF quiet_calls(1)])
    obtain b v3 where smb: "statfs_smb v2 = (b, v3)" by fastforce
    then have still3: "still v2 v3" by (rule statfs_smb_still)
    from assms opened Inr stat smb at still1 still2 still3 show ?thesis
      by (cases y) (auto simp: observe_def attempt_def unavailable_def observed_at_def
          observed_object_def snapshot_def split: if_splits intro: still_trans)
  qed
qed

lemma observe_directory_outcome:
  assumes "observe_directory p expected v = (o', v')"
  shows "still v v' \<and> observed_at v p o'"
proof -
  obtain x v1 where opened: "open_directory p v = (x, v1)" by fastforce
  then have still1: "still v v1" by (rule quiet_run [OF quiet_calls(2)])
  show ?thesis
  proof (cases x)
    case (Inl e)
    with assms opened still1 show ?thesis
      by (auto simp: observe_directory_def attempt_def unavailable_def observed_at_def)
  next
    case (Inr n)
    with opened have at: "lookup v p = Some n" using open_directory_Inr by blast
    obtain y v2 where stat: "fstat v1 = (y, v2)" by fastforce
    then have still2: "still v1 v2" by (rule quiet_run [OF quiet_calls(1)])
    obtain b v3 where smb: "statfs_smb v2 = (b, v3)" by fastforce
    then have still3: "still v2 v3" by (rule statfs_smb_still)
    from assms opened Inr stat smb at still1 still2 still3 show ?thesis
      by (cases y) (auto simp: observe_directory_def attempt_def unavailable_def observed_at_def
          observed_object_def snapshot_def Let_def intro: still_trans)
  qed
qed

lemma observe_object_outcome:
  "observe_object p expected kind v = (o', v') \<Longrightarrow> still v v' \<and> observed_at v p o'"
  by (auto simp: observe_object_def observe_outcome observe_directory_outcome split: if_splits)

lemma judge_flags_evidence:
  assumes "judge_flags r source destination m rem e d = x"
  shows "x = Inl res \<Longrightarrow> status res \<noteq> Success"
    "x = Inl res \<Longrightarrow> evidence res = No_commit \<Longrightarrow> e \<or> m \<or> rem"
    "x = Inr res \<Longrightarrow> evidence res = Committed \<and> d \<and>
       confirmed_snapshot res = observed_snapshot destination"
  using assms by (auto simp: judge_flags_def Let_def split: if_splits)

lemma judge_rename_evidence:
  assumes "judge_rename r source destination = x"
  shows "x = Inl res \<Longrightarrow> status res \<noteq> Success"
    "x = Inl res \<Longrightarrow> evidence res = No_commit \<Longrightarrow>
       equivalent r (is_trash_restore_mode (rename_mode r)) source \<or> matches_expected source"
    "x = Inr res \<Longrightarrow> evidence res = Committed \<and>
       equivalent r (trash_rename r) destination \<and>
       confirmed_snapshot res = observed_snapshot destination"
  using judge_flags_evidence [OF assms [unfolded judge_rename_def]]
  by (auto simp: equivalent_def)

lemma equivalent_at:
  assumes "equivalent r b o'" "observed_at v p o'"
  shows "\<exists>n. lookup v p = Some n \<and> source_revision_utf8 (observed_snapshot o') = revision n"
  using assms by (auto simp: equivalent_def observed_at_def remounted_def)

text \<open>Reconciling changes nothing. It reports success only with an object at the destination, and,
  with no anchor to verify, it denies the commit only when something is still at the source.\<close>

lemma reconcile_rename_outcome:
  assumes "reconcile_rename r v = (res, v')"
  shows "still v v'"
    "status res = Success \<Longrightarrow> has_identity v (rename_destination r)
       (stable_object_identity (source_revision_utf8 (confirmed_snapshot res)))"
    "rename_anchor_path r = [] \<Longrightarrow> lookup v (rename_source r) = None \<Longrightarrow> evidence res \<noteq> No_commit"
proof -
  let ?anchor = "verify_rename_destination_anchor r"
  obtain a v1 where a: "?anchor v = (a, v1)" by fastforce
  then have s1: "still v v1" by (rule quiet_run [OF quiet_checks(1)])
  obtain so v2 where so: "observe_object (rename_source r) (rename_expected_source r)
      (rename_object_kind r) v1 = (so, v2)" by fastforce
  obtain d v3 where d: "observe_object (rename_destination r) (rename_expected_source r)
      (rename_object_kind r) v2 = (d, v3)" by fastforce
  obtain b v4 where b: "?anchor v3 = (b, v4)" by fastforce
  then have s4: "still v3 v4" by (rule quiet_run [OF quiet_checks(1)])
  from observe_object_outcome [OF so] have s2: "still v1 v2"
    and at_source: "observed_at v (rename_source r) so"
    using s1 by (auto simp: observed_at_def still_lookup)
  from observe_object_outcome [OF d] have s3: "still v2 v3"
    and at_destination: "observed_at v (rename_destination r) d"
    using s1 s2 by (auto simp: observed_at_def still_lookup)
  have refusals: "x = Some res \<Longrightarrow> status res \<noteq> Success" if "?anchor w = (x, w')" for x w w'
    using refusing_checks(1) [of r w] that by (auto simp: refusing_def)
  note run = assms [unfolded reconcile_rename_def guarded_def a so d Let_def prod.case]
  note judged = judge_rename_evidence [OF refl, of r so d]
  show "still v v'"
    using run b s1 s2 s3 s4
    by (auto split: sum.splits option.splits dest: still_trans)
  show "has_identity v (rename_destination r)
      (stable_object_identity (source_revision_utf8 (confirmed_snapshot res)))"
    if "status res = Success"
  proof -
    have "judge_rename r so d = Inr res"
      using run b that judged(1) refusals [OF a] refusals [OF b]
      by (auto split: sum.splits option.splits)
    with judged(3) have "equivalent r (trash_rename r) d"
      and "confirmed_snapshot res = observed_snapshot d" by auto
    with equivalent_at [OF _ at_destination] show ?thesis
      unfolding has_identity_def identity_def by metis
  qed
  show "evidence res \<noteq> No_commit"
    if anchor: "rename_anchor_path r = []" and gone: "lookup v (rename_source r) = None"
  proof
    assume no: "evidence res = No_commit"
    have none: "?anchor w = (None, w)" for w
      using anchor by (simp add: verify_rename_destination_anchor_def)
    have "judge_rename r so d = Inl res"
    proof -
      have "a = None" "b = None" using a b none by simp_all
      with run b no judged(3) show ?thesis by (auto split: sum.splits)
    qed
    with judged(2) no equivalent_at [OF _ at_source] at_source gone show False
      by (auto simp: observed_at_def)
  qed
qed

subsection \<open>Execution\<close>

text \<open>A request that replaces nothing and carries no anchor.\<close>

definition plain_rename :: "RenameRequest \<Rightarrow> bool" where
  "plain_rename r \<longleftrightarrow> \<not> rename_replacement r \<and> rename_anchor_path r = []"

lemma lookup_moved_source:
  "\<not> path_eq (rename_source r) (rename_destination r) \<Longrightarrow> was_moved r v v' \<Longrightarrow>
     lookup v' (rename_source r) = None"
  by (auto simp: was_moved_def still_lookup) (simp add: lookup_def moved_def path_eq_def)

text \<open>Merging a truthful attempt with a reconciliation of its aftermath stays truthful.\<close>

lemma truthful_merge:
  assumes attempted: "truthful r v (res, v1)"
    and observed: "still v1 v2"
      "status obs = Success \<Longrightarrow> has_identity v1 (rename_destination r)
         (stable_object_identity (source_revision_utf8 (confirmed_snapshot obs)))"
      "lookup v1 (rename_source r) = None \<Longrightarrow> evidence obs \<noteq> No_commit"
    and distinct: "\<not> path_eq (rename_source r) (rename_destination r)"
    and no_claim: "status res \<noteq> Success"
  shows "truthful r v (merge_reconciliation res obs, v2)"
proof -
  have "still v v1 \<or> was_moved r v v1 \<and> evidence res \<noteq> No_commit \<and> evidence obs \<noteq> No_commit"
    using attempted observed(3) lookup_moved_source [OF distinct]
    by (auto simp: truthful_def)
  then have "still v v2 \<or>
      was_moved r v v2 \<and> evidence (merge_reconciliation res obs) \<noteq> No_commit"
    using observed(1) by (auto simp: merge_evidence was_moved_def intro: still_trans)
  moreover have "has_identity v2 (rename_destination r) (stable_object_identity
      (source_revision_utf8 (confirmed_snapshot (merge_reconciliation res obs))))"
    if ok: "status (merge_reconciliation res obs) = Success"
  proof -
    from merge_success [OF ok] no_claim have obs: "status obs = Success"
      and "\<not> evidence_conflict res obs" by auto
    with ok have "confirmed_snapshot (merge_reconciliation res obs) = confirmed_snapshot obs"
      by (auto simp: merge_reconciliation_def)
    with observed(1,2) obs show ?thesis by (simp add: has_identity_still)
  qed
  ultimately show ?thesis by (simp add: truthful_def)
qed

lemma rename_then_reconcile_truthful:
  assumes "plain_rename r" "\<not> path_eq (rename_source r) (rename_destination r)"
  shows "truthful r v (rename_then_reconcile r v)"
proof -
  obtain res v1 where run: "rename_no_replace r v = (res, v1)" by fastforce
  have attempted: "truthful r v (res, v1)"
    using rename_no_replace_truthful [of r v] assms(1) run by (simp add: plain_rename_def)
  obtain obs v2 where rec: "reconcile_rename r v1 = (obs, v2)" by fastforce
  show ?thesis
  proof (cases "needs_reconciliation res")
    case True
    then have "status res \<noteq> Success" by (auto simp: needs_reconciliation_def)
    with truthful_merge [OF attempted reconcile_rename_outcome(1,2) [OF rec] _ assms(2)]
      reconcile_rename_outcome(3) [OF rec] assms(1) True run rec
    show ?thesis by (simp add: rename_then_reconcile_def plain_rename_def)
  next
    case False
    with attempted run show ?thesis by (simp add: rename_then_reconcile_def)
  qed
qed

lemma truthful_expected:
  "truthful (r\<lparr>rename_expected_source := e\<rparr>) v m \<longleftrightarrow> truthful r v m"
  by (simp add: truthful_def was_moved_def)

lemma observed_failure_status:
  assumes "observe_object p expected kind v = (o', v')" "observed_failure o' = Success"
  shows "present o' \<and> matches_expected o'"
  using assms
  by (auto simp: observe_object_def observe_def observe_directory_def attempt_def unavailable_def
      observed_object_def open_error_status_def Let_def
      split: if_splits sum.splits prod.splits)

theorem execute_rename_truthful:
  assumes "plain_rename r"
  shows "truthful r v (execute_rename r v)"
proof (cases "valid_rename_request r")
  case (Inl detail)
  then show ?thesis by (simp add: execute_rename_def truthful_refusal)
next
  case (Inr u)
  have distinct: "\<not> path_eq (rename_source r) (rename_destination r)"
    using Inr by (intro valid_rename_requestD(6)) simp
  obtain so v1 where so: "observe_object (rename_source r) (rename_expected_source r)
      (rename_object_kind r) v = (so, v1)" by fastforce
  then have still: "still v v1" using observe_object_outcome by blast
  let ?refreshed = "r\<lparr>rename_expected_source := observed_snapshot so\<rparr>"
  have "truthful r v (rename_then_reconcile r v1)"
    by (rule truthful_still [OF still rename_then_reconcile_truthful [OF assms distinct]])
  moreover have "plain_rename ?refreshed"
    "\<not> path_eq (rename_source ?refreshed) (rename_destination ?refreshed)"
    using assms distinct by (simp_all add: plain_rename_def rename_replacement_def)
  then have "truthful ?refreshed v (rename_then_reconcile ?refreshed v1)"
    by (intro truthful_still [OF still] rename_then_reconcile_truthful)
  then have "truthful r v (rename_then_reconcile ?refreshed v1)"
    by (simp only: truthful_expected)
  moreover have "observed_failure so \<noteq> Success"
    if "\<not> (present so \<and> matches_expected so \<and> expected_storage_matches (expected_storage r) so)"
      "\<not> (present so \<and> \<not> expected_storage_matches (expected_storage r) so)"
    using observed_failure_status [OF so] that by auto
  ultimately show ?thesis
    using Inr so still
    by (auto simp: execute_rename_def Let_def intro!: truthful_refusal)
qed

end
