(* ===== verification/Operation_Service.thy ===== *)
theory Operation_Service
  imports Rename_Executor
begin

text \<open>
  The file-operation service: \<open>src/Source/src/fileops/file_operation_service.cpp\<close> runs each request
  in a helper process of its own, and reconciles when the outcome is open. The locale
  \<open>rename_service\<close> states what a coordinator may conclude from a result; it is interpreted on the
  service over a volume.
\<close>

section \<open>Transport\<close>

datatype CatalogErrorKind =
    Catalog_none | Catalog_permission_denied | Catalog_authentication_required
  | Catalog_network_disconnected | Catalog_timed_out | Catalog_not_found | Catalog_cancelled
  | Catalog_io_error

text \<open>How one run of the helper goes. \<open>performed\<close>: whether the helper had carried the request out
  before the connection to it was lost; \<open>timed_out\<close>: whether the watchdog ended it.\<close>

datatype transport =
    Delivered
  | Service_stopping
  | Launch_fails CatalogErrorKind i64 string
  | Stopped_after_launch
  | Encoding_throws string
  | Write_fails bool bool string
  | Read_fails bool bool string
  | Reply_invalid bool string

record host =
  host_volume :: volume
  transports :: "transport list"
  polls :: "bool list" \<comment> \<open>what each test of \<open>stopping\<close> between two helper runs sees\<close>

definition next_transport :: "host \<Rightarrow> transport \<times> host" where
  "next_transport h =
     (case transports h of [] \<Rightarrow> (Delivered, h) | t # ts \<Rightarrow> (t, h\<lparr>transports := ts\<rparr>))"

definition next_poll :: "host \<Rightarrow> bool \<times> host" where
  "next_poll h = (case polls h of [] \<Rightarrow> (False, h) | b # bs \<Rightarrow> (b, h\<lparr>polls := bs\<rparr>))"

definition transport_status :: "CatalogErrorKind \<Rightarrow> OperationStatus" where
  "transport_status kind =
     (case kind of
        Catalog_permission_denied \<Rightarrow> Permission_denied
      | Catalog_authentication_required \<Rightarrow> Authentication_required
      | Catalog_network_disconnected \<Rightarrow> Disconnected
      | Catalog_timed_out \<Rightarrow> Timed_out
      | Catalog_not_found \<Rightarrow> Not_found
      | _ \<Rightarrow> Io_error)"

section \<open>One run of the helper\<close>

definition helper :: "RenameRequest \<Rightarrow> volume \<Rightarrow> OperationResult \<times> volume" where
  "helper r v = (if rename_action r = Execute then execute_rename r v else reconcile_rename r v)"

text \<open>\<open>run_helper\<close> is a template over the request: \<open>work\<close> is what the helper does with this one.\<close>

definition perform_when ::
  "bool \<Rightarrow> (volume \<Rightarrow> OperationResult \<times> volume) \<Rightarrow> host \<Rightarrow> host"
where
  "perform_when performed work h =
     (if performed then h\<lparr>host_volume := snd (work (host_volume h))\<rparr> else h)"

definition lost_status :: "bool \<Rightarrow> bool \<Rightarrow> OperationStatus" where
  "lost_status timed_out mutating_attempt =
     (if timed_out then Timed_out else if mutating_attempt then Unknown_outcome else Io_error)"

definition run_process ::
  "u64 \<Rightarrow> (volume \<Rightarrow> OperationResult \<times> volume) \<Rightarrow> bool \<Rightarrow> host \<Rightarrow> OperationResult \<times> host"
where
  "run_process op work mutating_attempt h =
     (let (t, h) = next_transport h in
      case t of
        Delivered \<Rightarrow>
          (let (result, v) = work (host_volume h) in (result, h\<lparr>host_volume := v\<rparr>))
      | Service_stopping \<Rightarrow>
          (plain_result op Io_error Evidence_none ''file operation service is stopping'', h)
      | Launch_fails kind code message \<Rightarrow>
          ((plain_result op (if mutating_attempt then Unknown_outcome else transport_status kind)
              Evidence_none message)\<lparr>platform_code := code\<rparr>, h)
      | Stopped_after_launch \<Rightarrow>
          (plain_result op Io_error Evidence_none
             ''file operation service stopped during helper launch'', h)
      | Encoding_throws message \<Rightarrow>
          (plain_result op Invalid_request Evidence_none message, h)
      | Write_fails timed_out performed message \<Rightarrow>
          (plain_result op (lost_status timed_out mutating_attempt) Evidence_none message,
           perform_when performed work h)
      | Read_fails timed_out performed message \<Rightarrow>
          (plain_result op (lost_status timed_out mutating_attempt) Evidence_none message,
           perform_when performed work h)
      | Reply_invalid performed message \<Rightarrow>
          (plain_result op (lost_status False mutating_attempt) Evidence_none
             (if message = [] then ''file operation helper reply is invalid'' else message),
           perform_when performed work h))"

definition run_helper :: "RenameRequest \<Rightarrow> bool \<Rightarrow> host \<Rightarrow> OperationResult \<times> host" where
  "run_helper r = run_process (rename_operation_id r) (helper r)"

section \<open>A request\<close>

text \<open>\<open>submit_request\<close>, a template too, once the request has been accepted and until its completion
  is called: \<open>validation\<close> is the check of the request, \<open>run\<close> and \<open>reconcile\<close> the two runs of the
  helper.\<close>

definition submit_request ::
  "u64 \<Rightarrow> string + unit \<Rightarrow> bool \<Rightarrow> (host \<Rightarrow> OperationResult \<times> host) \<Rightarrow>
     (host \<Rightarrow> OperationResult \<times> host) \<Rightarrow> host \<Rightarrow> OperationResult \<times> host"
where
  "submit_request op validation mutating_attempt run reconcile h =
     (let (result, h) =
            (case validation of
               Inr _ \<Rightarrow> run h
             | Inl detail \<Rightarrow> (plain_result op Invalid_request No_commit detail, h));
          (stopping, h) = next_poll h in
      if mutating_attempt \<and> \<not> stopping \<and> needs_reconciliation result then
        let (observed, h) = reconcile h;
            timed_out = (status result = Timed_out \<or> status result = Disconnected);
            merged = merge_reconciliation result observed in
        (if timed_out \<and> evidence merged = No_commit \<and> status observed = Unknown_outcome \<and>
            source_present observed \<and> \<not> destination_present observed
         then merged\<lparr>detail_utf8 :=
           ''operation timed out; reconciliation confirmed no committed mutation''\<rparr>
         else merged, h)
      else (result, h))"

definition serve_rename :: "RenameRequest \<Rightarrow> RenameAction \<Rightarrow> host \<Rightarrow> OperationResult \<times> host" where
  "serve_rename request action =
     (let r = request\<lparr>rename_action := action\<rparr>; mutating_attempt = (action = Execute) in
      submit_request (rename_operation_id r) (valid_rename_request r) mutating_attempt
        (run_helper r mutating_attempt)
        (run_helper (r\<lparr>rename_action := Reconcile_only\<rparr>) False))"

section \<open>What a coordinator may conclude\<close>

text \<open>
  \<open>has h p i\<close>: the object with identity \<open>i\<close> is at path \<open>p\<close>; \<open>vacant h p\<close>: nothing is there. A
  service changes these only by carrying a valid request out, and then the evidence of its result
  does not deny it.
\<close>

locale rename_service =
  fixes serve :: "RenameRequest \<Rightarrow> RenameAction \<Rightarrow> 'h \<Rightarrow> OperationResult \<times> 'h"
    and has :: "'h \<Rightarrow> path \<Rightarrow> string \<Rightarrow> bool"
    and vacant :: "'h \<Rightarrow> path \<Rightarrow> bool"
  assumes has_unique: "has h p i \<Longrightarrow> has h q j \<Longrightarrow> path_eq p q \<Longrightarrow> i = j"
    and has_spelling: "has h p i \<Longrightarrow> path_eq p q \<Longrightarrow> has h q i"
    and has_occupied: "has h p i \<Longrightarrow> path_eq p q \<Longrightarrow> \<not> vacant h q"
    and execute: "plain_rename r \<Longrightarrow> serve r Execute h = (res, h') \<Longrightarrow>
      has h' = has h \<and> vacant h' = vacant h \<or>
      valid_rename_request r = Inr () \<and> evidence res \<noteq> No_commit \<and>
      vacant h (rename_destination r) \<and> vacant h' (rename_source r) \<and>
      has h' (rename_destination r) = has h (rename_source r) \<and>
      (\<forall>q. \<not> path_eq q (rename_source r) \<longrightarrow> \<not> path_eq q (rename_destination r) \<longrightarrow>
           has h' q = has h q)"
    and reconcile: "plain_rename r \<Longrightarrow> serve r Reconcile_only h = (res, h') \<Longrightarrow>
      has h' = has h \<and> vacant h' = vacant h"
    and success: "plain_rename r \<Longrightarrow> serve r action h = (res, h') \<Longrightarrow> status res = Success \<Longrightarrow>
      has h' (rename_destination r)
        (stable_object_identity (source_revision_utf8 (confirmed_snapshot res)))"
    and reconcile_no_commit: "plain_rename r \<Longrightarrow> valid_rename_request r = Inr () \<Longrightarrow>
      serve r Reconcile_only h = (res, h') \<Longrightarrow> evidence res = No_commit \<Longrightarrow>
      \<not> vacant h (rename_source r)"
begin

text \<open>An object is where it was, or at the destination of the request with the source vacant.\<close>

lemma object_follows:
  assumes "plain_rename r" "serve r Execute h = (res, h')" "has h (rename_source r) i"
  shows "has h' (rename_source r) i \<or>
    has h' (rename_destination r) i \<and> vacant h' (rename_source r) \<and>
    valid_rename_request r = Inr () \<and> evidence res \<noteq> No_commit"
  using execute [OF assms(1,2)] assms(3) by auto

text \<open>No other object moves.\<close>

lemma others_stay:
  assumes "plain_rename r" "serve r Execute h = (res, h')"
    and "has h (rename_source r) i" "has h q j" "i \<noteq> j"
  shows "has h' q j"
  using execute [OF assms(1,2)] assms(3-5) has_unique has_occupied by metis

end

section \<open>The service keeps the contract\<close>

lemma valid_rename_request_action [simp]:
  "valid_rename_request (r\<lparr>rename_action := a\<rparr>) = valid_rename_request r"
proof -
  have "bad_replacement (r\<lparr>rename_action := a\<rparr>) = bad_replacement r"
    "single_mode (r\<lparr>rename_action := a\<rparr>) = single_mode r"
    "bad_anchor (r\<lparr>rename_action := a\<rparr>) = bad_anchor r"
    "same_parent (r\<lparr>rename_action := a\<rparr>) = same_parent r"
    "trash_store_shape (r\<lparr>rename_action := a\<rparr>) = trash_store_shape r"
    "trash_restore_shape (r\<lparr>rename_action := a\<rparr>) = trash_restore_shape r"
    "bad_transfer_identities (r\<lparr>rename_action := a\<rparr>) = bad_transfer_identities r"
    by (simp_all add: bad_replacement_def rename_replacement_def single_mode_def bad_anchor_def
        same_parent_def trash_store_shape_def trash_restore_shape_def bad_transfer_identities_def)
  moreover have
    "rename_operation_id (r\<lparr>rename_action := a\<rparr>) = rename_operation_id r"
    "rename_source (r\<lparr>rename_action := a\<rparr>) = rename_source r"
    "rename_destination (r\<lparr>rename_action := a\<rparr>) = rename_destination r"
    "rename_expected_source (r\<lparr>rename_action := a\<rparr>) = rename_expected_source r"
    "rename_mode (r\<lparr>rename_action := a\<rparr>) = rename_mode r"
    "rename_object_kind (r\<lparr>rename_action := a\<rparr>) = rename_object_kind r"
    "rename_source_parent_identity (r\<lparr>rename_action := a\<rparr>) = rename_source_parent_identity r"
    "rename_security_baseline (r\<lparr>rename_action := a\<rparr>) = rename_security_baseline r"
    by simp_all
  moreover have "transfer_shape (r\<lparr>rename_action := a\<rparr>) = transfer_shape r"
    by (simp add: transfer_shape_def same_parent_def Let_def)
  ultimately show ?thesis
    by (simp only: valid_rename_request_def)
qed

lemma plain_rename_action [simp]: "plain_rename (r\<lparr>rename_action := a\<rparr>) = plain_rename r"
  by (simp add: plain_rename_def rename_replacement_def)

lemma truthful_action [simp]: "truthful (r\<lparr>rename_action := a\<rparr>) = truthful r"
  by (rule ext)+ (simp add: truthful_def was_moved_def)

definition host_truthful :: "RenameRequest \<Rightarrow> host \<Rightarrow> OperationResult \<times> host \<Rightarrow> bool" where
  "host_truthful r h m \<longleftrightarrow> truthful r (host_volume h) (fst m, host_volume (snd m))"

lemma next_volume [simp]:
  "next_transport h = (t, h') \<Longrightarrow> host_volume h' = host_volume h"
  "next_poll h = (b, h') \<Longrightarrow> host_volume h' = host_volume h"
  by (auto simp: next_transport_def next_poll_def split: list.splits)

lemma lost_status_fails [simp]: "lost_status a b \<noteq> Success"
  by (simp add: lost_status_def)

lemma truthful_lost:
  "truthful r v (res', v') \<Longrightarrow> status res \<noteq> Success \<Longrightarrow> evidence res = Evidence_none \<Longrightarrow>
     truthful r v (res, v')"
  by (auto simp: truthful_def)

lemma transport_status_fails [simp]:
  "transport_status k \<noteq> Success" "(if m then Unknown_outcome else transport_status k) \<noteq> Success"
  by (simp_all add: transport_status_def split: CatalogErrorKind.splits)

lemma run_helper_execute:
  assumes "plain_rename r" "rename_action r = Execute" "run_helper r m h = (res, h')"
  shows "truthful r (host_volume h) (res, host_volume h')"
proof -
  obtain t h1 where t: "next_transport h = (t, h1)" by fastforce
  then have h1: "host_volume h1 = host_volume h" by simp
  obtain x v where x: "execute_rename r (host_volume h) = (x, v)" by fastforce
  with execute_rename_truthful [OF assms(1), of "host_volume h"]
  have performed: "truthful r (host_volume h) (x, v)" by simp
  have lost: "truthful r (host_volume h) (y, host_volume (perform_when b (helper r) h1))"
    if "status y \<noteq> Success" "evidence y = Evidence_none" for y b
    using that truthful_lost [OF performed] assms(2) h1 x
    by (auto simp: perform_when_def helper_def intro: truthful_refusal)
  have refused: "truthful r (host_volume h) (y, host_volume h1)" if "status y \<noteq> Success" for y
    using truthful_refusal [of "host_volume h" "host_volume h1" y r] that h1 by simp
  show ?thesis
    using assms(2,3) t x h1 performed lost refused
    by (cases t) (auto simp: run_helper_def run_process_def Let_def helper_def simp del: if_split)
qed

lemma run_helper_reconcile:
  assumes "rename_action r = Reconcile_only" "run_helper r m h = (res, h')"
  shows "still (host_volume h) (host_volume h')"
    "status res = Success \<Longrightarrow> has_identity (host_volume h) (rename_destination r)
       (stable_object_identity (source_revision_utf8 (confirmed_snapshot res)))"
    "rename_anchor_path r = [] \<Longrightarrow> lookup (host_volume h) (rename_source r) = None \<Longrightarrow>
       evidence res \<noteq> No_commit"
proof -
  obtain t h1 where t: "next_transport h = (t, h1)" by fastforce
  then have h1: "host_volume h1 = host_volume h" by simp
  obtain x v where x: "reconcile_rename r (host_volume h) = (x, v)" by fastforce
  note rec = reconcile_rename_outcome [OF x]
  show "still (host_volume h) (host_volume h')"
    using assms t h1 x rec(1)
    by (cases t) (auto simp: run_helper_def run_process_def Let_def helper_def perform_when_def)
  show "has_identity (host_volume h) (rename_destination r)
      (stable_object_identity (source_revision_utf8 (confirmed_snapshot res)))"
    if "status res = Success"
    using assms t h1 x rec(2) that
    by (cases t) (auto simp: run_helper_def run_process_def Let_def helper_def simp del: if_split)
  show "evidence res \<noteq> No_commit"
    if "rename_anchor_path r = []" "lookup (host_volume h) (rename_source r) = None"
    using assms t h1 x rec(3) that
    by (cases t) (auto simp: run_helper_def run_process_def Let_def helper_def)
qed

lemma serve_rename_execute:
  assumes "plain_rename r" "serve_rename r Execute h = (res, h')"
  shows "truthful r (host_volume h) (res, host_volume h')"
proof (cases "valid_rename_request r")
  case (Inl detail)
  with assms(2) show ?thesis
    by (auto simp: serve_rename_def submit_request_def needs_reconciliation_def Let_def split: prod.splits
        intro!: truthful_refusal)
next
  case (Inr u)
  let ?r = "r\<lparr>rename_action := Execute\<rparr>" and ?q = "r\<lparr>rename_action := Reconcile_only\<rparr>"
  have distinct: "\<not> path_eq (rename_source r) (rename_destination r)"
    using Inr by (intro valid_rename_requestD(6)) simp
  obtain x h1 where x: "run_helper ?r True h = (x, h1)" by fastforce
  have attempted: "truthful r (host_volume h) (x, host_volume h1)"
    using run_helper_execute [OF _ _ x] assms(1) by simp
  obtain b h2 where b: "next_poll h1 = (b, h2)" by fastforce
  obtain o' h3 where o: "run_helper ?q False h2 = (o', h3)" by fastforce
  note rec = run_helper_reconcile [OF _ o, simplified]
  show ?thesis
  proof (cases "\<not> b \<and> needs_reconciliation x")
    case True
    then have "status x \<noteq> Success" by (auto simp: needs_reconciliation_def)
    with truthful_merge [OF attempted _ _ _ distinct, of "host_volume h3" o'] rec assms(1) b
    have "truthful r (host_volume h) (merge_reconciliation x o', host_volume h3)"
      by (simp add: plain_rename_def)
    with True assms(2) Inr x b o show ?thesis
      by (auto simp: serve_rename_def submit_request_def Let_def truthful_def split: if_splits)
  next
    case False
    with assms(2) Inr x b attempted show ?thesis
      by (auto simp: serve_rename_def submit_request_def Let_def)
  qed
qed

lemma serve_rename_reconcile:
  assumes "serve_rename r Reconcile_only h = (res, h')"
  shows "still (host_volume h) (host_volume h')"
    "status res = Success \<Longrightarrow> has_identity (host_volume h) (rename_destination r)
       (stable_object_identity (source_revision_utf8 (confirmed_snapshot res)))"
    "rename_anchor_path r = [] \<Longrightarrow> valid_rename_request r = Inr () \<Longrightarrow>
       lookup (host_volume h) (rename_source r) = None \<Longrightarrow> evidence res \<noteq> No_commit"
proof -
  let ?q = "r\<lparr>rename_action := Reconcile_only\<rparr>"
  obtain o' h1 where o: "run_helper ?q False h = (o', h1)" by fastforce
  note rec = run_helper_reconcile [OF _ o, simplified]
  show "still (host_volume h) (host_volume h')"
    "status res = Success \<Longrightarrow> has_identity (host_volume h) (rename_destination r)
       (stable_object_identity (source_revision_utf8 (confirmed_snapshot res)))"
    "rename_anchor_path r = [] \<Longrightarrow> valid_rename_request r = Inr () \<Longrightarrow>
       lookup (host_volume h) (rename_source r) = None \<Longrightarrow> evidence res \<noteq> No_commit"
    using assms o rec
    by (cases "valid_rename_request r"; auto simp: serve_rename_def submit_request_def Let_def split: prod.splits)+
qed

definition host_has :: "host \<Rightarrow> path \<Rightarrow> string \<Rightarrow> bool" where
  "host_has h p i \<longleftrightarrow> has_identity (host_volume h) p i"

definition host_vacant :: "host \<Rightarrow> path \<Rightarrow> bool" where
  "host_vacant h p \<longleftrightarrow> lookup (host_volume h) p = None"

lemma host_still:
  "still (host_volume h) (host_volume h') \<Longrightarrow> host_has h' = host_has h \<and> host_vacant h' = host_vacant h"
  by (intro conjI ext) (simp_all add: host_has_def host_vacant_def has_identity_still still_lookup)

lemma host_moved:
  assumes "was_moved r (host_volume h) (host_volume h')"
    and "\<not> path_eq (rename_source r) (rename_destination r)"
  shows "host_vacant h (rename_destination r)" "host_vacant h' (rename_source r)"
    "host_has h' (rename_destination r) = host_has h (rename_source r)"
    "\<not> path_eq q (rename_source r) \<Longrightarrow> \<not> path_eq q (rename_destination r) \<Longrightarrow>
       host_has h' q = host_has h q"
proof -
  from assms(1) obtain n where n: "lookup (host_volume h) (rename_source r) = Some n"
    and free: "lookup (host_volume h) (rename_destination r) = None"
    and after: "still (moved (rename_source r) (rename_destination r) n (host_volume h))
                  (host_volume h')"
    by (auto simp: was_moved_def)
  have at: "lookup (host_volume h') p =
      (if path_eq p (rename_destination r) then Some (n\<lparr>st_ctim := clock (host_volume h)\<rparr>)
       else if path_eq p (rename_source r) then None else lookup (host_volume h) p)" for p
    by (simp add: still_lookup [OF after]) (simp add: lookup_def moved_def path_eq_def)
  show "host_vacant h (rename_destination r)" using free by (simp add: host_vacant_def)
  show "host_vacant h' (rename_source r)" using assms(2) by (simp add: host_vacant_def at)
  show "host_has h' (rename_destination r) = host_has h (rename_source r)"
    by (rule ext) (simp add: host_has_def has_identity_def at n)
  show "host_has h' q = host_has h q"
    if "\<not> path_eq q (rename_source r)" "\<not> path_eq q (rename_destination r)"
    using that by (intro ext) (simp add: host_has_def has_identity_def at)
qed

lemma was_moved_valid:
  assumes "serve_rename r Execute h = (res, h')" "\<not> still (host_volume h) (host_volume h')"
  shows "valid_rename_request r = Inr ()"
proof (cases "valid_rename_request r")
  case (Inl detail)
  with assms(1) have "host_volume h' = host_volume h"
    by (auto simp: serve_rename_def submit_request_def needs_reconciliation_def Let_def split: prod.splits)
  with assms(2) show ?thesis by simp
qed simp

interpretation service: rename_service serve_rename host_has host_vacant
proof
  fix h h' :: host and p q i j r res action
  show "host_has h p i \<Longrightarrow> host_has h q j \<Longrightarrow> path_eq p q \<Longrightarrow> i = j"
    by (auto simp: host_has_def has_identity_def lookup_def path_eq_def)
  show "host_has h p i \<Longrightarrow> path_eq p q \<Longrightarrow> host_has h q i"
    by (simp add: host_has_def has_identity_def lookup_def path_eq_def)
  show "host_has h p i \<Longrightarrow> path_eq p q \<Longrightarrow> \<not> host_vacant h q"
    by (auto simp: host_has_def has_identity_def host_vacant_def lookup_def path_eq_def)
  show "host_has h' = host_has h \<and> host_vacant h' = host_vacant h \<or>
      valid_rename_request r = Inr () \<and> evidence res \<noteq> No_commit \<and>
      host_vacant h (rename_destination r) \<and> host_vacant h' (rename_source r) \<and>
      host_has h' (rename_destination r) = host_has h (rename_source r) \<and>
      (\<forall>q. \<not> path_eq q (rename_source r) \<longrightarrow> \<not> path_eq q (rename_destination r) \<longrightarrow>
           host_has h' q = host_has h q)"
    if r: "plain_rename r" and run: "serve_rename r Execute h = (res, h')"
  proof (cases "still (host_volume h) (host_volume h')")
    case True
    then show ?thesis by (simp add: host_still)
  next
    case False
    with serve_rename_execute [OF r run] have moved: "was_moved r (host_volume h) (host_volume h')"
      and "evidence res \<noteq> No_commit" by (auto simp: truthful_def)
    moreover have valid: "valid_rename_request r = Inr ()" by (rule was_moved_valid [OF run False])
    moreover note host_moved [OF moved valid_rename_requestD(6) [OF valid]]
    ultimately show ?thesis by blast
  qed
  show "host_has h' = host_has h \<and> host_vacant h' = host_vacant h"
    if "plain_rename r" "serve_rename r Reconcile_only h = (res, h')"
    using serve_rename_reconcile(1) [OF that(2)] by (rule host_still)
  show "host_has h' (rename_destination r)
      (stable_object_identity (source_revision_utf8 (confirmed_snapshot res)))"
    if r: "plain_rename r" and run: "serve_rename r action h = (res, h')" and "status res = Success"
  proof (cases action)
    case Execute
    with serve_rename_execute [OF r run [unfolded Execute]] that(3) show ?thesis
      by (simp add: truthful_def host_has_def)
  next
    case Reconcile_only
    with serve_rename_reconcile(1,2) [OF run [unfolded Reconcile_only]] that(3) show ?thesis
      by (simp add: host_has_def has_identity_still)
  qed
  show "\<not> host_vacant h (rename_source r)"
    if "plain_rename r" "valid_rename_request r = Inr ()"
      "serve_rename r Reconcile_only h = (res, h')" "evidence res = No_commit"
    using serve_rename_reconcile(3) [OF that(3)] that by (auto simp: host_vacant_def plain_rename_def)
qed

end
