(* ===== verification/Coordinator_Base.thy ===== *)
theory Coordinator_Base
  imports Operation_Journal Operation_Service
begin

text \<open>
  What the coordinators of \<open>src/Source/src/fileops\<close> have in common: the state they run on, the
  journal they write before and after every step, submissions to the file-operation service, and
  the results of a step. Each coordinator adds its transaction; the lemmas say what the journal
  holds after a write, whatever the disk does.
\<close>

section \<open>Results of a step\<close>

datatype StepOutcome =
  Step_committed | Step_no_commit | Step_recovery_required | Step_journal_error | Step_stopped

record StepResult =
  step_outcome :: StepOutcome
  step_status :: OperationStatus
  step_detail :: string

definition journal_failure :: "string \<Rightarrow> StepResult" where
  "journal_failure detail =
     \<lparr>step_outcome = Step_journal_error, step_status = Io_error, step_detail = detail\<rparr>"

section \<open>The state of a coordinator\<close>

text \<open>
  \<open>service\<close> is the state of the file-operation service. \<open>accepts\<close> says whether each submission is
  accepted, \<open>stops\<close> what each \<open>stop.stop_requested()\<close> sees; both default to the undisturbed answer
  when they run out. \<open>create_parent\<close> is what \<open>create_directories\<close> answers, \<open>error_message\<close>
  \<open>std::error_code::message\<close>; \<open>reported\<close> are the calls of the progress callback.
\<close>

record ('h, 'p) run_state =
  journal_path :: path
  journal :: disk
  service :: 'h
  accepts :: "bool list"
  stops :: "bool list"
  recovery_pending :: bool
  reported :: "'p list"
  now :: u64
  sequence :: u64
  create_parent :: error_code
  error_message :: "errno \<Rightarrow> string"

definition stop_requested ::
  "('h, 'p, 'z) run_state_scheme \<Rightarrow> bool \<times> ('h, 'p, 'z) run_state_scheme"
where
  "stop_requested w = (case stops w of [] \<Rightarrow> (False, w) | b # bs \<Rightarrow> (b, w\<lparr>stops := bs\<rparr>))"

text \<open>The operation id: the clock mixed with a process-wide counter.\<close>

definition next_operation_id ::
  "('h, 'p, 'z) run_state_scheme \<Rightarrow> u64 \<times> ('h, 'p, 'z) run_state_scheme"
where
  "next_operation_id w =
     (let operation_id = now w XOR sequence w; w = w\<lparr>sequence := sequence w + 1\<rparr> in
      if operation_id = 0 then (sequence w + 1, w\<lparr>sequence := sequence w + 1\<rparr>)
      else (operation_id, w))"

section \<open>The journal\<close>

text \<open>\<open>what\<close> names the journal in the messages: \<open>batch rename journal\<close>,
  \<open>permanent-delete journal\<close>.\<close>

definition journal_error_detail :: "string \<Rightarrow> (errno \<Rightarrow> string) \<Rightarrow> DurableJournalResult \<Rightarrow> string" where
  "journal_error_detail what message result =
     (if journal_status result = Journal_payload_too_large then what @ '' exceeds its size limit''
      else case journal_error result of
        Some e \<Rightarrow> what @ '' I/O failed: '' @ message e
      | None \<Rightarrow> what @ '' could not be updated'')"

definition read_journal ::
  "('h, 'p, 'z) run_state_scheme \<Rightarrow> CurrentOperationJournalReadResult \<times> ('h, 'p, 'z) run_state_scheme"
where
  "read_journal w =
     (let (loaded, fs) = current_journal_read (fst (journal w)) (snd (journal w))
      in (loaded, w\<lparr>journal := (fst (journal w), fs)\<rparr>))"

definition refresh_recovery_pending ::
  "('h, 'p, 'z) run_state_scheme \<Rightarrow> bool \<times> ('h, 'p, 'z) run_state_scheme"
where
  "refresh_recovery_pending w =
     (let (loaded, w) = read_journal w; pending = (journal_status loaded \<noteq> Journal_not_found)
      in (pending, w\<lparr>recovery_pending := pending\<rparr>))"

text \<open>\<open>persist\<close> and \<open>remove_journal\<close>: \<^const>\<open>None\<close> on success, else the detail. An encoding that
  throws is an \<^const>\<open>Inl\<close>.\<close>

definition persist_payload ::
  "string \<Rightarrow> CurrentOperationKind \<Rightarrow> string + byte list \<Rightarrow> ('h, 'p, 'z) run_state_scheme \<Rightarrow>
   string option \<times> ('h, 'p, 'z) run_state_scheme"
where
  "persist_payload what kind encoded w =
     (case encoded of
        Inl thrown \<Rightarrow> (Some thrown, snd (refresh_recovery_pending w))
      | Inr payload \<Rightarrow>
          (let (stored, fs) = current_journal_write (fst (journal w)) kind payload (snd (journal w));
               w = w\<lparr>journal := (fst (journal w), fs)\<rparr> in
           if journal_status stored \<noteq> Journal_success then
             (Some (journal_error_detail what (error_message w) stored),
              snd (refresh_recovery_pending w))
           else (None, w\<lparr>recovery_pending := True\<rparr>)))"

definition remove_record ::
  "string \<Rightarrow> ('h, 'p, 'z) run_state_scheme \<Rightarrow> string option \<times> ('h, 'p, 'z) run_state_scheme"
where
  "remove_record what w =
     (let (removed, fs) = current_journal_remove (fst (journal w)) (snd (journal w));
          w = w\<lparr>journal := (fst (journal w), fs)\<rparr> in
      if journal_status removed \<noteq> Journal_success then
        (Some (journal_error_detail what (error_message w) removed), w\<lparr>recovery_pending := True\<rparr>)
      else (None, w\<lparr>recovery_pending := False\<rparr>))"

section \<open>Submissions\<close>

text \<open>A submission that is refused is answered in place; an accepted one is waited for.\<close>

definition submit_with ::
  "u64 \<Rightarrow> string \<Rightarrow> ('h \<Rightarrow> OperationResult \<times> 'h) \<Rightarrow> ('h, 'p, 'z) run_state_scheme \<Rightarrow>
   OperationResult \<times> ('h, 'p, 'z) run_state_scheme"
where
  "submit_with op refusal work w =
     (let accepted = (case accepts w of [] \<Rightarrow> True | b # _ \<Rightarrow> b);
          w = w\<lparr>accepts := tl (accepts w)\<rparr> in
      if \<not> accepted then (plain_result op Io_error Evidence_none refusal, w)
      else let (result, h) = work (service w) in (result, w\<lparr>service := h\<rparr>))"

text \<open>The submission, and the reconciliation of an object that was not found.\<close>

definition attempt_with ::
  "(('h, 'p, 'z) run_state_scheme \<Rightarrow> OperationResult \<times> ('h, 'p, 'z) run_state_scheme) \<Rightarrow>
   (('h, 'p, 'z) run_state_scheme \<Rightarrow> OperationResult \<times> ('h, 'p, 'z) run_state_scheme) \<Rightarrow>
   ('h, 'p, 'z) run_state_scheme \<Rightarrow> OperationResult \<times> ('h, 'p, 'z) run_state_scheme"
where
  "attempt_with execute reconcile w =
     (let (result, w) = execute w in
      if status result = Not_found then
        (let (stopped, w) = stop_requested w in if \<not> stopped then reconcile w else (result, w))
      else (result, w))"

text \<open>The common end of a step: the transaction is recorded, then a stop is honoured.\<close>

definition conclude_with ::
  "(('h, 'p, 'z) run_state_scheme \<Rightarrow> string option \<times> ('h, 'p, 'z) run_state_scheme) \<Rightarrow>
   string \<Rightarrow> string \<Rightarrow> StepResult \<Rightarrow> ('h, 'p, 'z) run_state_scheme \<Rightarrow>
   StepResult \<times> ('h, 'p, 'z) run_state_scheme"
where
  "conclude_with save prefix stopped_detail result w =
     (case save w of
        (Some detail, w) \<Rightarrow> (journal_failure (prefix @ detail), w)
      | (None, w) \<Rightarrow>
          (let (stopped, w) = stop_requested w in
           (if stopped then
              \<lparr>step_outcome = Step_stopped, step_status = step_status result,
               step_detail = stopped_detail\<rparr>
            else result, w)))"

section \<open>What the journal holds\<close>

text \<open>\<open>record_of encode kind t view\<close>: a read that sees \<open>view\<close> finds the transaction \<open>t\<close>.\<close>

definition record_of ::
  "('t \<Rightarrow> string + byte list) \<Rightarrow> CurrentOperationKind \<Rightarrow> 't \<Rightarrow> DurableJournalStatus \<times> byte list \<Rightarrow> bool"
where
  "record_of encode kind t view \<longleftrightarrow>
     (\<exists>payload. encode t = Inr payload \<and> operation_payload_ok kind payload \<and>
                view = (Journal_success, encode_operation kind payload))"

text \<open>Whatever the next process finds in the journal accounts for every object.\<close>

definition recoverable_with ::
  "('t \<Rightarrow> DurableJournalStatus \<times> byte list \<Rightarrow> bool) \<Rightarrow> ('t \<Rightarrow> bool) \<Rightarrow> disk \<Rightarrow> bool"
where
  "recoverable_with found accounts d \<longleftrightarrow>
     disk_ok d \<and> (\<forall>view\<in>disk_views d. \<exists>t. found t view \<and> accounts t)"

text \<open>The journal holds this transaction, and a power cut would not bring back another one.\<close>

definition recorded_with ::
  "('t \<Rightarrow> DurableJournalStatus \<times> byte list \<Rightarrow> bool) \<Rightarrow> 't \<Rightarrow> disk \<Rightarrow> bool"
where
  "recorded_with found t d \<longleftrightarrow> disk_ok d \<and> (\<forall>view\<in>disk_views d. found t view)"

lemma recorded_recoverable_with:
  "recorded_with found t d \<Longrightarrow> accounts t \<Longrightarrow> recoverable_with found accounts d"
  by (auto simp: recorded_with_def recoverable_with_def)

lemma stop_requested_same:
  "stop_requested w = (b, w') \<Longrightarrow> service w' = service w \<and> journal w' = journal w"
  by (auto simp: stop_requested_def split: list.splits)

lemma next_operation_id_same:
  "next_operation_id w = (op, w') \<Longrightarrow> service w' = service w \<and> journal w' = journal w"
  by (auto simp: next_operation_id_def Let_def split: if_splits)

lemma read_journal_effect:
  assumes "read_journal w = (loaded, w')"
  shows "disk_ok (journal w) \<Longrightarrow> disk_ok (journal w')"
    "disk_views (journal w') \<subseteq> disk_views (journal w)" "service w' = service w"
proof -
  obtain r fs where run: "current_journal_read (fst (journal w)) (snd (journal w)) = (r, fs)"
    by fastforce
  with assms have w': "w' = w\<lparr>journal := (fst (journal w), fs)\<rparr>"
    by (auto simp: read_journal_def)
  then show "disk_ok (journal w) \<Longrightarrow> disk_ok (journal w')" "service w' = service w"
    by (simp_all add: disk_ok_def)
  show "disk_views (journal w') \<subseteq> disk_views (journal w)"
    unfolding w' using current_read_views [OF run] by simp
qed

lemma refresh_recovery_pending_effect:
  assumes "refresh_recovery_pending w = (p, w')"
  shows "disk_ok (journal w) \<Longrightarrow> disk_ok (journal w')"
    "disk_views (journal w') \<subseteq> disk_views (journal w)" "service w' = service w"
proof -
  obtain loaded w1 where read: "read_journal w = (loaded, w1)" by fastforce
  with assms have "journal w' = journal w1" "service w' = service w1"
    by (auto simp: refresh_recovery_pending_def Let_def)
  with read_journal_effect [OF read]
  show "disk_ok (journal w) \<Longrightarrow> disk_ok (journal w')"
    "disk_views (journal w') \<subseteq> disk_views (journal w)" "service w' = service w" by simp_all
qed

lemma persist_payload_effect:
  assumes "persist_payload what kind (encode t) w = (r, w')" "disk_ok (journal w)"
  shows "service w' = service w" "disk_ok (journal w')"
    "view \<in> disk_views (journal w') \<Longrightarrow> view \<in> disk_views (journal w) \<or> record_of encode kind t view"
    "r = None \<Longrightarrow> recorded_with (record_of encode kind) t (journal w')"
proof -
  have "service w' = service w \<and> disk_ok (journal w') \<and>
      (\<forall>view\<in>disk_views (journal w'). view \<in> disk_views (journal w) \<or> record_of encode kind t view) \<and>
      (r = None \<longrightarrow> recorded_with (record_of encode kind) t (journal w'))"
  proof (cases "encode t")
    case (Inl what)
    obtain p w1 where run: "refresh_recovery_pending w = (p, w1)" by fastforce
    from refresh_recovery_pending_effect [OF run] assms Inl run show ?thesis
      by (auto simp: persist_payload_def)
  next
    case (Inr payload)
    obtain stored fs where run:
      "current_journal_write (fst (journal w)) kind payload (snd (journal w)) = (stored, fs)"
      by fastforce
    let ?w = "w\<lparr>journal := (fst (journal w), fs)\<rparr>"
    have put: "current_put kind payload (journal w) =
        (journal_status stored = Journal_success, journal ?w)"
      by (simp add: current_put_def run)
    note ok = current.put_inv [OF assms(2), of kind payload, unfolded put snd_conv]
    have fits: "operation_payload_ok kind payload \<or>
        journal_status stored \<noteq> Journal_success \<and> journal ?w = journal w"
      using put by (simp add: current_put_cases split: if_splits)
    then have views: "\<forall>view\<in>disk_views (journal ?w).
        view \<in> disk_views (journal w) \<or> record_of encode kind t view"
      using current.put_views [OF assms(2), of kind payload] Inr
      unfolding put snd_conv record_of_def by (elim disjE) (blast, simp)
    show ?thesis
    proof (cases "journal_status stored = Journal_success")
      case True
      with current.put_stored [OF assms(2), of kind payload] Inr ok fits
      have "recorded_with (record_of encode kind) t (journal ?w)"
        by (simp add: put recorded_with_def record_of_def)
      moreover from True assms(1) Inr run have "r = None" "journal w' = journal ?w"
        "service w' = service w" by (auto simp: persist_payload_def)
      ultimately show ?thesis using ok views by simp
    next
      case False
      obtain p w1 where ref: "refresh_recovery_pending ?w = (p, w1)" by fastforce
      from False assms(1) Inr run ref have "r \<noteq> None" "w' = w1" by (auto simp: persist_payload_def)
      with refresh_recovery_pending_effect [OF ref] ok views show ?thesis by auto
    qed
  qed
  then show "service w' = service w" "disk_ok (journal w')"
    "view \<in> disk_views (journal w') \<Longrightarrow> view \<in> disk_views (journal w) \<or> record_of encode kind t view"
    "r = None \<Longrightarrow> recorded_with (record_of encode kind) t (journal w')" by auto
qed

lemma persist_payload_recoverable:
  assumes "persist_payload what kind (encode t) w = (r, w')"
    and "recoverable_with (record_of encode kind) accounts (journal w)" "accounts t"
  shows "recoverable_with (record_of encode kind) accounts (journal w')" "service w' = service w"
    "r = None \<Longrightarrow> recorded_with (record_of encode kind) t (journal w')"
proof -
  from assms(2) have ok: "disk_ok (journal w)" by (simp add: recoverable_with_def)
  note effect = persist_payload_effect [where encode = encode, OF assms(1) ok]
  from effect(2,3) assms(2,3) show "recoverable_with (record_of encode kind) accounts (journal w')"
    unfolding recoverable_with_def by blast
  show "service w' = service w" "r = None \<Longrightarrow> recorded_with (record_of encode kind) t (journal w')"
    by (fact effect(1,4))+
qed

text \<open>\<open>submit_with\<close> changes the service as the work does, or not at all, and never the journal.\<close>

lemma submit_with_cases:
  assumes "submit_with op refusal work w = (res, w')"
  shows "journal w' = journal w \<and>
    (work (service w) = (res, service w') \<or>
     service w' = service w \<and> res = plain_result op Io_error Evidence_none refusal)"
  using assms by (auto simp: submit_with_def Let_def split: prod.splits if_splits)

text \<open>Both submissions of an attempt keep what each of them keeps.\<close>

lemma attempt_with_kept:
  assumes "attempt_with execute reconcile w = (res, w')"
    and "\<And>r v. execute w = (r, v) \<Longrightarrow> P r (service v) (journal v)"
    and "\<And>r v v' r'. P r (service v) (journal v) \<Longrightarrow> reconcile v = (r', v') \<Longrightarrow>
      P r' (service v') (journal v')"
  shows "P res (service w') (journal w')"
proof -
  obtain r1 w1 where first: "execute w = (r1, w1)" by fastforce
  obtain b w2 where stop: "stop_requested w1 = (b, w2)" by fastforce
  note w2 = stop_requested_same [OF stop]
  obtain r3 w3 where second: "reconcile w2 = (r3, w3)" by fastforce
  have "P r1 (service w2) (journal w2)" using assms(2) [OF first] w2 by simp
  with assms(3) second have "P r3 (service w3) (journal w3)" by blast
  with assms(1) first stop second assms(2) [OF first] w2 show ?thesis
    by (auto simp: attempt_with_def split: if_splits)
qed

lemma conclude_with_outcome:
  assumes "conclude_with save prefix d result w = (s, w')" "save w = (r, w1)"
  shows "service w' = service w1 \<and> journal w' = journal w1 \<and>
    step_outcome s \<in> {step_outcome result, Step_journal_error, Step_stopped}"
proof -
  obtain b w2 where stop: "stop_requested w1 = (b, w2)" by fastforce
  from assms stop stop_requested_same [OF stop] show ?thesis
    by (auto simp: conclude_with_def journal_failure_def split: option.splits if_splits)
qed

end
