(* ===== verification/Batch_Coordinator.thy ===== *)
theory Batch_Coordinator
  imports Batch_Record Coordinator_Base
begin

text \<open>
  The coordinator of a batch rename: \<open>src/Source/src/fileops/batch_rename_coordinator.cpp\<close>. It
  writes the transaction to the journal before and after every step, moves each object to its
  private name and from there to its destination, rolls back when an evacuation did not happen,
  and reconciles the step of a recovered record before it goes on. The service is a parameter;
  the journal is the typed journal on the disk of \<open>Operation_Journal\<close>.
\<close>

section \<open>Results\<close>

datatype BatchRunStatus =
    Run_success | Run_rolled_back | Run_invalid_request | Run_busy | Run_unsupported
  | Run_journal_error | Run_recovery_required | Run_stopped

record BatchRenameResult =
  run_status :: BatchRunStatus
  run_operation_status :: OperationStatus
  run_completed :: nat
  run_total :: nat
  run_destinations :: "path list"
  run_detail :: string

record BatchRenameProgress =
  progress_phase :: BatchTransactionPhase
  progress_completed :: nat
  progress_total :: nat
  progress_source :: path
  progress_destination :: path

section \<open>The coordinator's state\<close>

text \<open>\<open>name_max\<close> is \<open>pathconf(directory, _PC_NAME_MAX)\<close> with \<open>errno\<close>.\<close>

record 'h coordinator = "('h, BatchRenameProgress) run_state" +
  name_max :: "path \<Rightarrow> int \<times> errno"

type_synonym 'h serve = "RenameRequest \<Rightarrow> RenameAction \<Rightarrow> 'h \<Rightarrow> OperationResult \<times> 'h"

section \<open>Helpers\<close>

definition confirmed_no_commit :: "OperationResult \<Rightarrow> bool" where
  "confirmed_no_commit result \<longleftrightarrow> evidence result = No_commit"

definition step_destination :: "BatchTransactionItem \<Rightarrow> BatchStepKind \<Rightarrow> path" where
  "step_destination item step =
     (case step of
        Step_evacuate \<Rightarrow> item_temporary item
      | Step_rollback \<Rightarrow> item_source item
      | Step_publish \<Rightarrow> item_destination item
      | Step_none \<Rightarrow> [])"

definition step_location :: "BatchStepKind \<Rightarrow> BatchItemLocation" where
  "step_location step =
     (case step of
        Step_evacuate \<Rightarrow> At_temporary
      | Step_rollback \<Rightarrow> At_source
      | Step_publish \<Rightarrow> At_destination
      | Step_none \<Rightarrow> At_source)"

definition step_number :: "BatchStepKind \<Rightarrow> u64" where
  "step_number step =
     (case step of Step_none \<Rightarrow> 0 | Step_evacuate \<Rightarrow> 1 | Step_rollback \<Rightarrow> 2 | Step_publish \<Rightarrow> 3)"

definition step_operation_id :: "BatchRenameTransaction \<Rightarrow> BatchStepKind \<Rightarrow> nat \<Rightarrow> u64" where
  "step_operation_id t step index =
     (let mix = 0x9e3779b97f4a7c15;
          value = (batch_operation_id t XOR (mix * (word_of_nat index + 1)))
                    XOR push_bit 56 (step_number step)
      in if value = 0 then batch_operation_id t else value)"

definition count_location :: "BatchRenameTransaction \<Rightarrow> BatchItemLocation \<Rightarrow> nat" where
  "count_location t location =
     length (filter (\<lambda>item. item_location item = location) (batch_items t))"

text \<open>\<open>query_filename_component_limit\<close>: \<^const>\<open>Inl\<close> is a result that is not ok.\<close>


definition query_filename_component_limit :: "int \<times> errno \<Rightarrow> errno + nat" where
  "query_filename_component_limit answer =
     (let (maximum, e) = answer in
      if maximum \<le> 0 then Inl (if e = 0 then EINVAL else e) else Inr (nat maximum))"

definition filename_component_units :: "path \<Rightarrow> nat" where
  "filename_component_units name = length name"

text \<open>\<^const>\<open>Some\<close> is the detail of a refusal.\<close>

definition destination_components_fit_volume ::
  "'h coordinator \<Rightarrow> BatchRenameTransaction \<Rightarrow> string option"
where
  "destination_components_fit_volume w t =
     (case query_filename_component_limit
             (name_max w (parent_path (item_source (hd (batch_items t))))) of
        Inl e \<Rightarrow>
          Some (''destination filename limit could not be verified: '' @ error_message w e)
      | Inr limit \<Rightarrow>
          if \<exists>item\<in>set (batch_items t).
               limit < filename_component_units (filename (item_temporary item)) \<or>
               limit < filename_component_units (filename (item_destination item))
          then Some ''destination filename exceeds this filesystem's component limit''
          else None)"

section \<open>The journal\<close>

definition owns_recovery :: "'h coordinator \<Rightarrow> bool \<times> 'h coordinator" where
  "owns_recovery w =
     (let (loaded, w) = read_journal w;
          owns = (journal_status loaded = Journal_success \<and>
                  (current_encoding loaded = Legacy_untyped \<or>
                   current_encoding loaded = Typed \<and> current_kind loaded = kind_batch_rename))
      in (owns, w\<lparr>recovery_pending := (journal_status loaded \<noteq> Journal_not_found)\<rparr>))"

definition persist ::
  "BatchRenameTransaction \<Rightarrow> 'h coordinator \<Rightarrow> string option \<times> 'h coordinator"
where
  "persist t =
     persist_payload ''batch rename journal'' kind_batch_rename (encode_batch_transaction t)"

definition remove_journal :: "'h coordinator \<Rightarrow> string option \<times> 'h coordinator" where
  "remove_journal = remove_record ''batch rename journal''"

section \<open>One step\<close>

definition submit_and_wait ::
  "'h serve \<Rightarrow> RenameRequest \<Rightarrow> bool \<Rightarrow> 'h coordinator \<Rightarrow> OperationResult \<times> 'h coordinator"
where
  "submit_and_wait serve request reconcile =
     submit_with (rename_operation_id request)
       ''file operation service did not accept the batch step''
       (serve request (if reconcile then Reconcile_only else Execute))"

definition request_for ::
  "BatchRenameTransaction \<Rightarrow> nat \<Rightarrow> BatchStepKind \<Rightarrow> RenameRequest"
where
  "request_for t index step =
     (let item = batch_items t ! index in
      \<lparr>rename_operation_id = step_operation_id t step index, rename_action = Execute,
       rename_mode = Batch_internal, rename_object_kind = item_kind item,
       rename_source = item_current item, rename_destination = step_destination item step,
       rename_expected_source = item_snapshot item, rename_source_parent_identity = [],
       rename_destination_parent_identity = [], rename_anchor_path = [],
       rename_anchor_identity = [], rename_expected_destination = empty_snapshot,
       rename_security_baseline = []\<rparr>)"

text \<open>The step is over: nothing is active any more.\<close>

definition clear_active :: "BatchRenameTransaction \<Rightarrow> BatchRenameTransaction" where
  "clear_active t = t\<lparr>active_step := Step_none, active_index := 0, active_evidence := Evidence_none\<rparr>"

text \<open>Outside a rollback the recorded failure is forgotten.\<close>

definition clear_failure :: "BatchRenameTransaction \<Rightarrow> BatchRenameTransaction" where
  "clear_failure t =
     (if batch_phase t \<noteq> Rollback then t\<lparr>failure_status := Success, failure_detail := []\<rparr> else t)"

definition record_failure ::
  "OperationStatus \<Rightarrow> OperationEvidence \<Rightarrow> string \<Rightarrow> BatchRenameTransaction \<Rightarrow> BatchRenameTransaction"
where
  "record_failure failed known detail t =
     t\<lparr>failure_status := failed, active_evidence := known, failure_detail := detail\<rparr>"

definition move_item ::
  "BatchRenameTransaction \<Rightarrow> nat \<Rightarrow> BatchStepKind \<Rightarrow> SourceSnapshot \<Rightarrow> BatchRenameTransaction"
where
  "move_item t index step confirmed =
     (let item = batch_items t ! index in
      t\<lparr>batch_items := (batch_items t)[index :=
          item\<lparr>item_current := step_destination item step, item_snapshot := confirmed,
               item_location := step_location step\<rparr>]\<rparr>)"

definition untrusted_snapshot :: string where
  "untrusted_snapshot = ''batch step succeeded without a trustworthy object snapshot''"

text \<open>\<^const>\<open>None\<close>: the snapshot cannot be trusted.\<close>

definition apply_success ::
  "BatchRenameTransaction \<Rightarrow> nat \<Rightarrow> BatchStepKind \<Rightarrow> OperationResult \<Rightarrow>
   BatchRenameTransaction option"
where
  "apply_success t index step result =
     (let expected_identity = physical_id (batch_items t ! index);
          confirmed_identity =
            stable_object_identity (source_revision_utf8 (confirmed_snapshot result)) in
      if status result \<noteq> Success \<or> expected_identity = [] \<or>
         confirmed_identity \<noteq> expected_identity then None
      else Some (clear_failure (clear_active
                   (move_item t index step (confirmed_snapshot result)))))"

definition conclude_step ::
  "string \<Rightarrow> string \<Rightarrow> StepResult \<Rightarrow> BatchRenameTransaction \<Rightarrow> 'h coordinator \<Rightarrow>
   (StepResult \<times> BatchRenameTransaction) \<times> 'h coordinator"
where
  "conclude_step prefix stopped_detail result t w =
     (let (result, w) = conclude_with (persist t) prefix stopped_detail result w
      in ((result, t), w))"

text \<open>\<open>result.ok()\<close>, in \<open>execute_step\<close> and \<open>reconcile_active\<close> alike.\<close>

definition step_succeeded ::
  "string \<Rightarrow> nat \<Rightarrow> BatchStepKind \<Rightarrow> OperationResult \<Rightarrow> BatchRenameTransaction \<Rightarrow>
   'h coordinator \<Rightarrow> (StepResult \<times> BatchRenameTransaction) \<times> 'h coordinator"
where
  "step_succeeded stopped_detail index step result t w =
     (case apply_success t index step result of
        Some t \<Rightarrow>
          conclude_step [] stopped_detail
            \<lparr>step_outcome = Step_committed, step_status = Success, step_detail = []\<rparr> t w
      | None \<Rightarrow>
          (let t = record_failure Unknown_outcome (evidence result) untrusted_snapshot t in
           case persist t w of
             (Some detail, w) \<Rightarrow> ((journal_failure detail, t), w)
           | (None, w) \<Rightarrow>
               ((\<lparr>step_outcome = Step_recovery_required, step_status = Unknown_outcome,
                  step_detail = untrusted_snapshot\<rparr>, t), w)))"

definition step_not_committed ::
  "string \<Rightarrow> OperationResult \<Rightarrow> BatchRenameTransaction \<Rightarrow> 'h coordinator \<Rightarrow>
   (StepResult \<times> BatchRenameTransaction) \<times> 'h coordinator"
where
  "step_not_committed stopped_detail result t w =
     conclude_step [] stopped_detail
       \<lparr>step_outcome = Step_no_commit, step_status = status result,
        step_detail = detail_utf8 result\<rparr> t w"

definition step_uncertain ::
  "string \<Rightarrow> OperationResult \<Rightarrow> BatchRenameTransaction \<Rightarrow> 'h coordinator \<Rightarrow>
   (StepResult \<times> BatchRenameTransaction) \<times> 'h coordinator"
where
  "step_uncertain stopped_detail result t w =
     conclude_step (failure_detail t @ ''; '') stopped_detail
       \<lparr>step_outcome = Step_recovery_required, step_status = status result,
        step_detail = detail_utf8 result\<rparr> t w"

definition step_name :: "BatchStepKind \<Rightarrow> string" where
  "step_name step =
     (if step = Step_evacuate then ''evacuate''
      else if step = Step_rollback then ''rollback'' else ''publish'')"

definition name_failure :: "BatchStepKind \<Rightarrow> nat \<Rightarrow> OperationResult \<Rightarrow> OperationResult" where
  "name_failure step index result =
     (if status result \<noteq> Success then
        result\<lparr>detail_utf8 := ''batch '' @ step_name step @ '' item '' @ to_chars 10 (index + 1) @
                 '': '' @ detail_utf8 result\<rparr>
      else result)"

definition report_progress ::
  "BatchRenameTransaction \<Rightarrow> BatchStepKind \<Rightarrow> RenameRequest \<Rightarrow> 'h coordinator \<Rightarrow> 'h coordinator"
where
  "report_progress t step request w =
     w\<lparr>reported := reported w @
        [\<lparr>progress_phase = batch_phase t,
          progress_completed = (if step = Step_publish then count_location t At_destination
                                else count_location t At_temporary),
          progress_total = length (batch_items t),
          progress_source = rename_source request,
          progress_destination = rename_destination request\<rparr>]\<rparr>"

definition attempt_step ::
  "'h serve \<Rightarrow> RenameRequest \<Rightarrow> 'h coordinator \<Rightarrow> OperationResult \<times> 'h coordinator"
where
  "attempt_step serve request =
     attempt_with (submit_and_wait serve request False) (submit_and_wait serve request True)"

definition activate :: "BatchRenameTransaction \<Rightarrow> nat \<Rightarrow> BatchStepKind \<Rightarrow> BatchRenameTransaction" where
  "activate t index step =
     t\<lparr>active_step := step, active_index := word_of_nat index, active_evidence := Evidence_none\<rparr>"

text \<open>An evacuation that did not happen turns the whole transaction back.\<close>

definition retreat :: "BatchStepKind \<Rightarrow> BatchRenameTransaction \<Rightarrow> BatchRenameTransaction" where
  "retreat step t = (if step = Step_evacuate then t\<lparr>batch_phase := Rollback\<rparr> else t)"

definition settle_executed ::
  "nat \<Rightarrow> BatchStepKind \<Rightarrow> OperationResult \<Rightarrow> BatchRenameTransaction \<Rightarrow>
   'h coordinator \<Rightarrow> (StepResult \<times> BatchRenameTransaction) \<times> 'h coordinator"
where
  "settle_executed index step result t w =
     (if status result = Success then
        step_succeeded ''batch rename stopped after recording the completed step'' index step
          result (t\<lparr>active_evidence := evidence result\<rparr>) w
      else
        let t = record_failure (status result) (evidence result) (detail_utf8 result) t in
        if confirmed_no_commit result then
          step_not_committed ''batch rename stopped after recording the non-commit'' result
            (clear_active (retreat step t)) w
        else
          step_uncertain ''batch rename stopped after recording operation evidence'' result t w)"

definition execute_step ::
  "'h serve \<Rightarrow> BatchRenameTransaction \<Rightarrow> nat \<Rightarrow> BatchStepKind \<Rightarrow> 'h coordinator \<Rightarrow>
   (StepResult \<times> BatchRenameTransaction) \<times> 'h coordinator"
where
  "execute_step serve t index step w =
     (let t = activate t index step in
      case persist t w of
        (Some detail, w) \<Rightarrow> ((journal_failure detail, t), w)
      | (None, w) \<Rightarrow>
          (let request = request_for t index step;
               w = report_progress t step request w;
               (result, w) = attempt_step serve request w
           in settle_executed index step (name_failure step index result) t w))"

section \<open>The step of a recovered record\<close>

definition recorded_attempt :: "BatchRenameTransaction \<Rightarrow> u64 \<Rightarrow> OperationResult" where
  "recorded_attempt t operation_id =
     plain_result operation_id (failure_status t) (active_evidence t) (failure_detail t)"

definition merge_recorded :: "BatchRenameTransaction \<Rightarrow> u64 \<Rightarrow> OperationResult \<Rightarrow> OperationResult" where
  "merge_recorded t operation_id result =
     (if active_evidence t \<noteq> Evidence_none then
        merge_reconciliation (recorded_attempt t operation_id) result
      else result)"

definition settle_reconciled ::
  "nat \<Rightarrow> BatchStepKind \<Rightarrow> OperationResult \<Rightarrow> BatchRenameTransaction \<Rightarrow>
   'h coordinator \<Rightarrow> (StepResult \<times> BatchRenameTransaction) \<times> 'h coordinator"
where
  "settle_reconciled index step result t w =
     (if status result = Success then
        step_succeeded ''batch recovery stopped after recording the reconciled step'' index step
          result t w
      else if confirmed_no_commit result then
        step_not_committed ''batch recovery stopped after recording the reconciled non-commit''
          result (clear_failure (clear_active t)) w
      else
        step_uncertain ''batch recovery stopped after recording reconciliation evidence'' result
          (record_failure (status result) (evidence result) (detail_utf8 result) t) w)"

definition reconcile_active ::
  "'h serve \<Rightarrow> BatchRenameTransaction \<Rightarrow> 'h coordinator \<Rightarrow>
   (StepResult \<times> BatchRenameTransaction) \<times> 'h coordinator"
where
  "reconcile_active serve t w =
     (let index = unat (active_index t); step = active_step t;
          request = request_for t index step;
          (result, w) = submit_and_wait serve request True w
      in settle_reconciled index step
           (merge_recorded t (rename_operation_id request) result) t w)"

section \<open>The transaction\<close>

definition recovery_result :: "BatchRenameTransaction \<Rightarrow> StepResult \<Rightarrow> BatchRenameResult" where
  "recovery_result t step =
     \<lparr>run_status = (if step_outcome step = Step_journal_error then Run_journal_error
                    else if step_outcome step = Step_stopped then Run_stopped
                    else Run_recovery_required),
      run_operation_status = step_status step,
      run_completed = count_location t At_destination, run_total = length (batch_items t),
      run_destinations = [], run_detail = step_detail step\<rparr>"

text \<open>
  \<open>continue_transaction\<close> up to the removal of the journal. \<^term>\<open>Ended\<close> is an early return,
  \<^term>\<open>Published\<close> and \<^term>\<open>Rolled_back\<close> are the two points where the journal is removed.
\<close>

datatype ending =
    Ended BatchRenameResult
  | Published
  | Rolled_back OperationStatus string

text \<open>The loop of \<open>rollback\<close>, over the indices still to visit.\<close>

fun rollback_items ::
  "'h serve \<Rightarrow> nat list \<Rightarrow> BatchRenameTransaction \<Rightarrow> 'h coordinator \<Rightarrow>
   (BatchRenameResult option \<times> BatchRenameTransaction) \<times> 'h coordinator"
where
  "rollback_items serve [] t w = ((None, t), w)"
| "rollback_items serve (index # indices) t w =
     (if item_location (batch_items t ! index) \<noteq> At_temporary then rollback_items serve indices t w
      else let ((step, t), w) = execute_step serve t index Step_rollback w in
        if step_outcome step \<noteq> Step_committed then ((Some (recovery_result t step), t), w)
        else rollback_items serve indices t w)"

definition rollback ::
  "'h serve \<Rightarrow> BatchRenameTransaction \<Rightarrow> 'h coordinator \<Rightarrow>
   (ending \<times> BatchRenameTransaction) \<times> 'h coordinator"
where
  "rollback serve t w =
     (case rollback_items serve (rev [0..<length (batch_items t)]) t w of
        ((Some result, t'), w) \<Rightarrow> ((Ended result, t'), w)
      | ((None, t'), w) \<Rightarrow> ((Rolled_back (failure_status t) (failure_detail t), t'), w))"

definition enter_phase ::
  "BatchTransactionPhase \<Rightarrow> BatchRenameTransaction \<Rightarrow> 'h coordinator \<Rightarrow>
   (BatchRenameResult option \<times> BatchRenameTransaction) \<times> 'h coordinator"
where
  "enter_phase phase t w =
     (let t = t\<lparr>batch_phase := phase\<rparr> in
      case persist t w of
        (Some detail, w) \<Rightarrow> ((Some (recovery_result t (journal_failure detail)), t), w)
      | (None, w) \<Rightarrow> ((None, t), w))"

definition impossible_location :: "BatchRenameTransaction \<Rightarrow> BatchRenameResult" where
  "impossible_location t =
     \<lparr>run_status = Run_recovery_required, run_operation_status = Source_changed,
      run_completed = count_location t At_destination, run_total = length (batch_items t),
      run_destinations = [],
      run_detail = ''published batch journal contains an impossible item location''\<rparr>"

fun publish_items ::
  "'h serve \<Rightarrow> nat list \<Rightarrow> BatchRenameTransaction \<Rightarrow> 'h coordinator \<Rightarrow>
   (ending \<times> BatchRenameTransaction) \<times> 'h coordinator"
where
  "publish_items serve [] t w = ((Published, t), w)"
| "publish_items serve (index # indices) t w =
     (if item_location (batch_items t ! index) = At_destination then
        publish_items serve indices t w
      else if item_location (batch_items t ! index) \<noteq> At_temporary then
        ((Ended (impossible_location t), t), w)
      else let ((step, t), w) = execute_step serve t index Step_publish w in
        if step_outcome step \<noteq> Step_committed then ((Ended (recovery_result t step), t), w)
        else publish_items serve indices t w)"

text \<open>The last two blocks of \<open>continue_transaction\<close>, and the fall-through after them.\<close>

definition publish_phase ::
  "'h serve \<Rightarrow> BatchRenameTransaction \<Rightarrow> 'h coordinator \<Rightarrow>
   (ending \<times> BatchRenameTransaction) \<times> 'h coordinator"
where
  "publish_phase serve t w =
     (if batch_phase t = Publishing then
        publish_items serve [0..<length (batch_items t)] t w
      else if batch_phase t = Rollback then rollback serve t w
      else ((Ended \<lparr>run_status = Run_recovery_required, run_operation_status = Io_error,
                    run_completed = 0, run_total = length (batch_items t), run_destinations = [],
                    run_detail = ''batch rename transaction phase is not recoverable''\<rparr>, t), w))"

definition commit_phase ::
  "'h serve \<Rightarrow> BatchRenameTransaction \<Rightarrow> 'h coordinator \<Rightarrow>
   (ending \<times> BatchRenameTransaction) \<times> 'h coordinator"
where
  "commit_phase serve t w =
     (if batch_phase t = Commit_intent then
        (case enter_phase Publishing t w of
           ((Some result, t), w) \<Rightarrow> ((Ended result, t), w)
         | ((None, t), w) \<Rightarrow> publish_phase serve t w)
      else publish_phase serve t w)"

fun evacuate_items ::
  "'h serve \<Rightarrow> nat list \<Rightarrow> BatchRenameTransaction \<Rightarrow> 'h coordinator \<Rightarrow>
   (ending \<times> BatchRenameTransaction) \<times> 'h coordinator"
where
  "evacuate_items serve [] t w =
     (case enter_phase Commit_intent t w of
        ((Some result, t), w) \<Rightarrow> ((Ended result, t), w)
      | ((None, t), w) \<Rightarrow> commit_phase serve t w)"
| "evacuate_items serve (index # indices) t w =
     (if item_location (batch_items t ! index) \<noteq> At_source then evacuate_items serve indices t w
      else let ((step, t), w) = execute_step serve t index Step_evacuate w in
        if step_outcome step = Step_committed then evacuate_items serve indices t w
        else if step_outcome step = Step_no_commit then rollback serve t w
        else ((Ended (recovery_result t step), t), w))"

definition evacuate_phase ::
  "'h serve \<Rightarrow> BatchRenameTransaction \<Rightarrow> 'h coordinator \<Rightarrow>
   (ending \<times> BatchRenameTransaction) \<times> 'h coordinator"
where
  "evacuate_phase serve t w =
     (if batch_phase t = Evacuating then
        evacuate_items serve [0..<length (batch_items t)] t w
      else commit_phase serve t w)"

definition prepared_phase ::
  "'h serve \<Rightarrow> BatchRenameTransaction \<Rightarrow> 'h coordinator \<Rightarrow>
   (ending \<times> BatchRenameTransaction) \<times> 'h coordinator"
where
  "prepared_phase serve t w =
     (if batch_phase t = Prepared then
        (case enter_phase Evacuating t w of
           ((Some result, t), w) \<Rightarrow> ((Ended result, t), w)
         | ((None, t), w) \<Rightarrow> evacuate_phase serve t w)
      else evacuate_phase serve t w)"

definition active_phase ::
  "'h serve \<Rightarrow> BatchRenameTransaction \<Rightarrow> 'h coordinator \<Rightarrow>
   (ending \<times> BatchRenameTransaction) \<times> 'h coordinator"
where
  "active_phase serve t w =
     (if active_step t \<noteq> Step_none then
        let ((reconciled, t), w) = reconcile_active serve t w in
        if step_outcome reconciled \<in> {Step_recovery_required, Step_journal_error, Step_stopped} then
          ((Ended (recovery_result t reconciled), t), w)
        else prepared_phase serve t w
      else prepared_phase serve t w)"

definition advance ::
  "'h serve \<Rightarrow> BatchRenameTransaction \<Rightarrow> 'h coordinator \<Rightarrow>
   (ending \<times> BatchRenameTransaction) \<times> 'h coordinator"
where
  "advance serve t w =
     (if active_step t = Step_none \<and> batch_phase t = Evacuating \<and> failure_status t \<noteq> Success then
        (case enter_phase Rollback t w of
           ((Some result, t), w) \<Rightarrow> ((Ended result, t), w)
         | ((None, t), w) \<Rightarrow> active_phase serve t w)
      else active_phase serve t w)"

text \<open>The removal of the journal, where the code comes to it.\<close>

definition finish ::
  "ending \<Rightarrow> BatchRenameTransaction \<Rightarrow> 'h coordinator \<Rightarrow> BatchRenameResult \<times> 'h coordinator"
where
  "finish ending t w =
     (let total = length (batch_items t);
          kept = \<lambda>destinations detail.
            \<lparr>run_status = Run_journal_error, run_operation_status = Io_error,
             run_completed = total, run_total = total, run_destinations = destinations,
             run_detail = detail\<rparr> in
      case ending of
        Ended result \<Rightarrow> (result, w)
      | Published \<Rightarrow>
          (let destinations = map item_destination (batch_items t) in
           case remove_journal w of
             (Some detail, w) \<Rightarrow> (kept destinations detail, w)
           | (None, w) \<Rightarrow>
               (\<lparr>run_status = Run_success, run_operation_status = Success, run_completed = total,
                 run_total = total, run_destinations = destinations, run_detail = []\<rparr>, w))
      | Rolled_back original_status original_detail \<Rightarrow>
          (case remove_journal w of
             (Some detail, w) \<Rightarrow> (kept [] detail, w)
           | (None, w) \<Rightarrow>
               (\<lparr>run_status = Run_rolled_back, run_operation_status = original_status,
                 run_completed = total, run_total = total, run_destinations = [],
                 run_detail = (if original_detail = [] then ''batch rename was rolled back''
                               else original_detail)\<rparr>, w)))"

definition continue_transaction ::
  "'h serve \<Rightarrow> BatchRenameTransaction \<Rightarrow> 'h coordinator \<Rightarrow> BatchRenameResult \<times> 'h coordinator"
where
  "continue_transaction serve t w =
     (let ((ending, t), w) = advance serve t w in finish ending t w)"

section \<open>The two jobs\<close>

definition job_result ::
  "BatchRunStatus \<Rightarrow> OperationStatus \<Rightarrow> nat \<Rightarrow> string \<Rightarrow> BatchRenameResult"
where
  "job_result run operation items detail =
     \<lparr>run_status = run, run_operation_status = operation, run_completed = 0, run_total = items,
      run_destinations = [], run_detail = detail\<rparr>"

definition stopped_result :: BatchRenameResult where
  "stopped_result =
     job_result Run_stopped Success 0 ''batch rename stopped before journaling''"

definition run_journaled ::
  "'h serve \<Rightarrow> BatchRenameTransaction \<Rightarrow> 'h coordinator \<Rightarrow> BatchRenameResult \<times> 'h coordinator"
where
  "run_journaled serve t w =
     (let (stopped, w) = stop_requested w in
      if stopped then (stopped_result, w)
      else case (if parent_path (journal_path w) = [] then None else create_parent w) of
        Some e \<Rightarrow>
          (job_result Run_journal_error Io_error 0
             (''batch journal directory could not be created: '' @ error_message w e), w)
      | None \<Rightarrow>
          (let (stopped, w) = stop_requested w in
           if stopped then (stopped_result, w)
           else case persist t w of
             (Some detail, w) \<Rightarrow>
               (job_result Run_journal_error Io_error (length (batch_items t)) detail, w)
           | (None, w) \<Rightarrow> continue_transaction serve t w))"

definition run_new ::
  "'h serve \<Rightarrow> BatchRenamePlan \<Rightarrow> BatchRenameSource list \<Rightarrow> 'h coordinator \<Rightarrow>
   BatchRenameResult \<times> 'h coordinator"
where
  "run_new serve plan sources w =
     (let (stopped, w) = stop_requested w in
      if stopped then (stopped_result, w)
      else if journal_path w = [] then
        (job_result Run_invalid_request Invalid_request 0 ''batch rename journal path is empty'', w)
      else let (existing, w) = read_journal w in
      if journal_status existing \<noteq> Journal_not_found then
        (job_result Run_recovery_required Unknown_outcome 0
           ''an unfinished batch rename must be recovered first'', w\<lparr>recovery_pending := True\<rparr>)
      else let (operation_id, w) = next_operation_id w in
      case prepare_batch_transaction plan sources operation_id of
        Inl what \<Rightarrow> (job_result Run_invalid_request Invalid_request (length sources) what, w)
      | Inr t \<Rightarrow>
          if batch_items t = [] then (job_result Run_success Success 0 [], w)
          else case destination_components_fit_volume w t of
            Some detail \<Rightarrow>
              (job_result Run_invalid_request Invalid_request (length (batch_items t)) detail, w)
          | None \<Rightarrow> run_journaled serve t w)"

definition resume_loaded ::
  "'h serve \<Rightarrow> CurrentOperationJournalReadResult \<Rightarrow> 'h coordinator \<Rightarrow>
   BatchRenameResult \<times> 'h coordinator"
where
  "resume_loaded serve loaded w =
     (if current_encoding loaded = Typed \<and> current_kind loaded \<noteq> kind_batch_rename then
        (job_result Run_journal_error Io_error 0
           ''current operation journal belongs to another operation'', w)
      else case decode_batch_transaction (current_payload loaded) of
        Inl detail \<Rightarrow> (job_result Run_journal_error Io_error 0 detail, w)
      | Inr t \<Rightarrow>
          if current_encoding loaded = Legacy_untyped then
            (case persist t w of
               (Some detail, w) \<Rightarrow>
                 (job_result Run_journal_error Io_error (length (batch_items t)) detail, w)
             | (None, w) \<Rightarrow> continue_transaction serve t w)
          else continue_transaction serve t w)"

definition run_resume :: "'h serve \<Rightarrow> 'h coordinator \<Rightarrow> BatchRenameResult \<times> 'h coordinator" where
  "run_resume serve w =
     (let (loaded, w) = read_journal w in
      if journal_status loaded \<noteq> Journal_success then
        (job_result Run_journal_error Io_error 0
           (if journal_status loaded = Journal_not_found
            then ''there is no batch rename to recover''
            else ''batch rename journal is unreadable''), w)
      else resume_loaded serve loaded w)"

end
