(* ===== verification/Batch_Safety.thy ===== *)
theory Batch_Safety
  imports Batch_Coordinator
begin

text \<open>
  What the coordinator of \<open>Batch_Coordinator\<close> guarantees over any service with the contract
  \<open>rename_service\<close>, any disk, and any pattern of stops and refusals: every record that a crash may
  leave in the journal accounts for every object, no object is lost, and the two ways of
  finishing leave all objects at their destinations or all at their sources.
\<close>

section \<open>Records that account for every object\<close>

text \<open>The part of validity that the run maintains in memory.\<close>

definition item_tracked :: "BatchTransactionPhase \<Rightarrow> BatchTransactionItem \<Rightarrow> bool" where
  "item_tracked phase item \<longleftrightarrow>
     physical_id item \<noteq> [] \<and> expected_current_path item \<and>
     location_allowed_in_phase phase (item_location item)"

definition tracked :: "BatchRenameTransaction \<Rightarrow> bool" where
  "tracked t \<longleftrightarrow>
     length (batch_items t) < 2 ^ 32 \<and> distinct (map physical_id (batch_items t)) \<and>
     (\<forall>i<length (batch_items t). item_tracked (batch_phase t) (batch_items t ! i)) \<and>
     (active_step t \<noteq> Step_none \<longrightarrow>
        unat (active_index t) < length (batch_items t) \<and> active_step_matches_phase t) \<and>
     (active_evidence t \<noteq> Evidence_none \<longrightarrow> active_step t \<noteq> Step_none \<and> failure_status t \<noteq> Success)"

lemma valid_tracked:
  assumes "valid_batch_transaction t = Inr ()"
  shows "tracked t"
proof -
  from assms have "batch_header_ok t" "batch_items_ok t" by (simp_all add: valid_batch_transaction_iff)
  then show ?thesis
    by (auto simp: tracked_def batch_header_ok_def batch_items_ok_def item_ok_def item_paths_ok_def
        item_tracked_def kMaximumBatchRenameItems_def)
qed

text \<open>
  \<open>at_rest\<close>: the object of item \<open>i\<close> is where the record has it. \<open>arrived\<close>: its step is active and
  has already happened. \<open>H\<close> and \<open>V\<close> are what is at a path and whether nothing is.
\<close>

type_synonym places = "path \<Rightarrow> string \<Rightarrow> bool"

definition at_rest :: "places \<Rightarrow> BatchRenameTransaction \<Rightarrow> nat \<Rightarrow> bool" where
  "at_rest H t i \<longleftrightarrow> H (item_current (batch_items t ! i)) (physical_id (batch_items t ! i))"

definition arrived :: "places \<Rightarrow> (path \<Rightarrow> bool) \<Rightarrow> BatchRenameTransaction \<Rightarrow> nat \<Rightarrow> bool" where
  "arrived H V t i \<longleftrightarrow>
     active_step t \<noteq> Step_none \<and> unat (active_index t) = i \<and>
     H (step_destination (batch_items t ! i) (active_step t)) (physical_id (batch_items t ! i)) \<and>
     V (item_current (batch_items t ! i)) \<and>
     valid_rename_request (request_for t i (active_step t)) = Inr ()"

definition consistent :: "places \<Rightarrow> (path \<Rightarrow> bool) \<Rightarrow> BatchRenameTransaction \<Rightarrow> bool" where
  "consistent H V t \<longleftrightarrow>
     tracked t \<and> (\<forall>i<length (batch_items t). at_rest H t i \<or> arrived H V t i) \<and>
     (active_evidence t = No_commit \<longrightarrow> at_rest H t (unat (active_index t)))"

lemma consistentD:
  assumes "consistent H V t"
  shows "tracked t" "i < length (batch_items t) \<Longrightarrow> at_rest H t i \<or> arrived H V t i"
    "active_evidence t = No_commit \<Longrightarrow> at_rest H t (unat (active_index t))"
    "length (batch_items t) < 2 ^ 32"
    "i < length (batch_items t) \<Longrightarrow> item_tracked (batch_phase t) (batch_items t ! i)"
    "active_step t \<noteq> Step_none \<Longrightarrow> unat (active_index t) < length (batch_items t)"
    "active_step t \<noteq> Step_none \<Longrightarrow> active_step_matches_phase t"
  using assms by (auto simp: consistent_def tracked_def)

lemma consistent_rest:
  "consistent H V t \<Longrightarrow> i < length (batch_items t) \<Longrightarrow>
     active_step t = Step_none \<or> i \<noteq> unat (active_index t) \<Longrightarrow> at_rest H t i"
  by (auto simp: consistent_def arrived_def)

lemma request_for_cong:
  "batch_operation_id t' = batch_operation_id t \<Longrightarrow> batch_items t' = batch_items t \<Longrightarrow>
     request_for t' i step = request_for t i step"
  by (simp add: request_for_def step_operation_id_def Let_def)

section \<open>How the record changes\<close>

definition step_fits :: "BatchRenameTransaction \<Rightarrow> nat \<Rightarrow> BatchStepKind \<Rightarrow> bool" where
  "step_fits t i step \<longleftrightarrow>
     i < length (batch_items t) \<and>
     (step = Step_evacuate \<and> batch_phase t = Evacuating \<and>
        item_location (batch_items t ! i) = At_source \<or>
      step = Step_rollback \<and> batch_phase t = Rollback \<and>
        item_location (batch_items t ! i) = At_temporary \<or>
      step = Step_publish \<and> batch_phase t = Publishing \<and>
        item_location (batch_items t ! i) = At_temporary)"

lemma consistent_activate:
  assumes "consistent H V t" "active_step t = Step_none" "step_fits t i step"
  shows "consistent H V (activate t i step)" "at_rest H (activate t i step) i"
    "active_step (activate t i step) = step" "unat (active_index (activate t i step)) = i"
proof -
  from assms(3) have i: "i < length (batch_items t)" by (simp add: step_fits_def)
  from i consistentD(4) [OF assms(1)]
  show index: "unat (active_index (activate t i step)) = i"
    by (simp add: activate_def unat_of_nat take_bit_eq_mod)
  have rest: "at_rest H t j" if "j < length (batch_items t)" for j
    using consistent_rest [OF assms(1) that] assms(2) by simp
  then show "at_rest H (activate t i step) i"
    using i by (simp add: at_rest_def activate_def)
  show "active_step (activate t i step) = step" by (simp add: activate_def)
  have "tracked (activate t i step)"
    using consistentD(1) [OF assms(1)] assms(3) index
    by (auto simp: tracked_def step_fits_def active_step_matches_phase_def activate_def)
  with rest show "consistent H V (activate t i step)"
    by (auto simp: consistent_def at_rest_def activate_def)
qed

lemma consistent_clear:
  assumes "consistent H V t" "active_step t \<noteq> Step_none \<Longrightarrow> at_rest H t (unat (active_index t))"
  shows "consistent H V (clear_active t)"
  using assms
  by (auto simp: consistent_def tracked_def clear_active_def at_rest_def arrived_def)

lemma consistent_phase:
  assumes "consistent H V t" "active_step t = Step_none"
    and "\<And>i. i < length (batch_items t) \<Longrightarrow>
      location_allowed_in_phase p (item_location (batch_items t ! i))"
  shows "consistent H V (t\<lparr>batch_phase := p\<rparr>)"
  using assms
  by (auto simp: consistent_def tracked_def item_tracked_def at_rest_def arrived_def)

lemma consistent_failure:
  assumes "consistent H V t" "active_step t \<noteq> Step_none" "failed \<noteq> Success"
    and "known = No_commit \<Longrightarrow> at_rest H t (unat (active_index t))"
  shows "consistent H V (record_failure failed known detail t)"
proof -
  have "request_for (record_failure failed known detail t) i step = request_for t i step" for i step
    by (rule request_for_cong) (simp_all add: record_failure_def)
  moreover have "active_step_matches_phase (record_failure failed known detail t) =
      active_step_matches_phase t"
    by (cases "active_step t") (simp_all add: active_step_matches_phase_def record_failure_def)
  ultimately show ?thesis
    using assms
    by (auto simp: consistent_def tracked_def at_rest_def arrived_def record_failure_def)
qed

lemma consistent_clear_failure:
  "consistent H V t \<Longrightarrow> active_step t = Step_none \<Longrightarrow> consistent H V (clear_failure t)"
  by (auto simp: consistent_def tracked_def clear_failure_def at_rest_def arrived_def)

lemma physical_id_simps [simp]:
  "physical_id (item\<lparr>item_current := p, item_snapshot := s, item_location := l\<rparr>) =
     stable_object_identity (source_revision_utf8 s)"
  by (simp add: physical_id_def)

lemma consistent_move:
  assumes con: "consistent H V t" and active: "active_step t \<noteq> Step_none"
    and index: "unat (active_index t) = i"
    and identity: "stable_object_identity (source_revision_utf8 s) = physical_id (batch_items t ! i)"
    and there: "H (step_destination (batch_items t ! i) (active_step t)) (physical_id (batch_items t ! i))"
  shows "consistent H V (clear_active (move_item t i (active_step t) s))"
proof -
  let ?items = "batch_items t" and ?t = "clear_active (move_item t i (active_step t) s)"
  let ?item = "?items ! i"
  from consistentD(6,7) [OF con active] index
  have i: "i < length ?items" and fits: "active_step_matches_phase t" by auto
  let ?new = "?item\<lparr>item_current := step_destination ?item (active_step t),
      item_snapshot := s, item_location := step_location (active_step t)\<rparr>"
  have items: "batch_items ?t = ?items[i := ?new]"
    and fields: "batch_phase ?t = batch_phase t" "active_step ?t = Step_none"
    "active_evidence ?t = Evidence_none"
    by (simp_all add: clear_active_def move_item_def Let_def)
  have ids: "map physical_id (batch_items ?t) = map physical_id ?items"
    using i identity by (simp add: items map_update list_update_same_conv)
  have moved: "item_tracked (batch_phase t) ?new"
    using consistentD(5) [OF con i] fits active index
    by (cases "active_step t")
      (auto simp: item_tracked_def identity active_step_matches_phase_def Let_def
        expected_current_path_def step_destination_def step_location_def path_eq_def)
  have "tracked ?t"
    using consistentD(1) [OF con] moved ids fields i
    by (auto simp: tracked_def items nth_list_update)
  moreover have "at_rest H ?t j" if j: "j < length (batch_items ?t)" for j
  proof (cases "j = i")
    case True
    with there identity i show ?thesis by (simp add: at_rest_def items)
  next
    case False
    with j i consistent_rest [OF con, of j] index show ?thesis
      by (simp add: at_rest_def items)
  qed
  ultimately show ?thesis by (simp add: consistent_def fields)
qed

subsection \<open>What no step changes\<close>

definition skeleton :: "BatchRenameTransaction \<Rightarrow> (path \<times> path \<times> path \<times> string) list" where
  "skeleton t = map (\<lambda>item. (item_source item, item_temporary item, item_destination item,
                             physical_id item)) (batch_items t)"

definition locations :: "BatchRenameTransaction \<Rightarrow> BatchItemLocation list" where
  "locations t = map item_location (batch_items t)"

lemma skeleton_length: "skeleton t' = skeleton t \<Longrightarrow> length (batch_items t') = length (batch_items t)"
  by (drule arg_cong [where f = length]) (simp add: skeleton_def)

lemma length_locations [simp]: "length (locations t) = length (batch_items t)"
  by (simp add: locations_def)

lemma nth_locations [simp]:
  "i < length (batch_items t) \<Longrightarrow> locations t ! i = item_location (batch_items t ! i)"
  by (simp add: locations_def)

lemma record_updates [simp]:
  "skeleton (activate t i step) = skeleton t" "locations (activate t i step) = locations t"
  "batch_phase (activate t i step) = batch_phase t"
  "skeleton (clear_active t) = skeleton t" "locations (clear_active t) = locations t"
  "active_step (clear_active t) = Step_none" "batch_phase (clear_active t) = batch_phase t"
  "skeleton (clear_failure t) = skeleton t" "locations (clear_failure t) = locations t"
  "active_step (clear_failure t) = active_step t" "batch_phase (clear_failure t) = batch_phase t"
  "skeleton (record_failure f k d t) = skeleton t" "locations (record_failure f k d t) = locations t"
  "batch_phase (record_failure f k d t) = batch_phase t"
  "active_step (record_failure f k d t) = active_step t"
  "active_index (record_failure f k d t) = active_index t"
  "skeleton (retreat step t) = skeleton t" "locations (retreat step t) = locations t"
  "skeleton (t\<lparr>batch_phase := p\<rparr>) = skeleton t" "locations (t\<lparr>batch_phase := p\<rparr>) = locations t"
  by (simp_all add: skeleton_def locations_def activate_def clear_active_def clear_failure_def
      record_failure_def retreat_def)

lemma move_item_skeleton:
  assumes "i < length (batch_items t)"
    and "stable_object_identity (source_revision_utf8 s) = physical_id (batch_items t ! i)"
  shows "skeleton (move_item t i step s) = skeleton t"
    "locations (move_item t i step s) = (locations t)[i := step_location step]"
    "batch_phase (move_item t i step s) = batch_phase t"
  using assms
  by (simp_all add: skeleton_def locations_def move_item_def map_update Let_def list_update_same_conv)

section \<open>What the journal holds\<close>

definition batch_record :: "BatchRenameTransaction \<Rightarrow> DurableJournalStatus \<times> byte list \<Rightarrow> bool" where
  "batch_record = record_of encode_batch_transaction kind_batch_rename"

definition recoverable :: "places \<Rightarrow> (path \<Rightarrow> bool) \<Rightarrow> disk \<Rightarrow> bool" where
  "recoverable H V = recoverable_with batch_record (consistent H V)"

definition recorded :: "BatchRenameTransaction \<Rightarrow> disk \<Rightarrow> bool" where
  "recorded = recorded_with batch_record"

lemmas batch_record_iff = batch_record_def [unfolded fun_eq_iff record_of_def, rule_format]
lemmas recoverable_iff = recoverable_def [unfolded fun_eq_iff recoverable_with_def, rule_format]
lemmas recorded_iff = recorded_def [unfolded fun_eq_iff recorded_with_def, rule_format]

lemma recorded_recoverable: "recorded t d \<Longrightarrow> consistent H V t \<Longrightarrow> recoverable H V d"
  by (auto simp: recorded_iff recoverable_iff)

lemma persist_effect:
  assumes "persist t w = (r, w')" "disk_ok (journal w)"
  shows "service w' = service w" "disk_ok (journal w')"
    "view \<in> disk_views (journal w') \<Longrightarrow> view \<in> disk_views (journal w) \<or> batch_record t view"
    "r = None \<Longrightarrow> recorded t (journal w')"
  using persist_payload_effect [where encode = encode_batch_transaction,
      OF assms(1) [unfolded persist_def] assms(2)]
  by (auto simp: batch_record_def recorded_def)

lemma persist_recoverable:
  assumes "persist t w = (r, w')" "recoverable H V (journal w)" "consistent H V t"
  shows "recoverable H V (journal w')" "service w' = service w" "r = None \<Longrightarrow> recorded t (journal w')"
  using persist_payload_recoverable [where accounts = "consistent H V"
        and encode = encode_batch_transaction, OF assms(1) [unfolded persist_def]]
    assms(2,3) by (simp_all add: batch_record_def recorded_def recoverable_def)

section \<open>One submission\<close>

lemma request_for_simps [simp]:
  "rename_source (request_for t i step) = item_current (batch_items t ! i)"
  "rename_destination (request_for t i step) = step_destination (batch_items t ! i) step"
  "plain_rename (request_for t i step)"
  by (simp_all add: request_for_def Let_def plain_rename_def rename_replacement_def)

text \<open>What a coordinator may rely on once a submission for its active step has been answered.\<close>

definition answered ::
  "places \<Rightarrow> (path \<Rightarrow> bool) \<Rightarrow> BatchRenameTransaction \<Rightarrow> OperationResult \<Rightarrow> bool"
where
  "answered H V t res \<longleftrightarrow>
     consistent H V t \<and>
     (evidence res = No_commit \<longrightarrow> at_rest H t (unat (active_index t))) \<and>
     (status res = Success \<longrightarrow>
        H (step_destination (batch_items t ! unat (active_index t)) (active_step t))
          (stable_object_identity (source_revision_utf8 (confirmed_snapshot res))))"

context rename_service begin

lemma serve_execute_answered:
  assumes con: "consistent (has h) (vacant h) t" and active: "active_step t \<noteq> Step_none"
    and evidence: "active_evidence t = Evidence_none" and index: "unat (active_index t) = i"
    and rest: "at_rest (has h) t i"
    and run: "serve (request_for t i (active_step t)) Execute h = (res, h')"
  shows "answered (has h') (vacant h') t res"
proof -
  let ?r = "request_for t i (active_step t)"
  note plain = request_for_simps(3) [of t i "active_step t"]
  from consistentD(6) [OF con active] index have i: "i < length (batch_items t)" by simp
  from rest have at: "has h (rename_source ?r) (physical_id (batch_items t ! i))"
    by (simp add: at_rest_def)
  from consistentD(1) [OF con] have dist: "distinct (map physical_id (batch_items t))"
    by (simp add: tracked_def)
  have others: "at_rest (has h') t j" if j: "j < length (batch_items t)" "j \<noteq> i" for j
  proof -
    have "at_rest (has h) t j" by (rule consistent_rest [OF con j(1)]) (use j(2) index in simp)
    moreover have "physical_id (batch_items t ! i) \<noteq> physical_id (batch_items t ! j)"
      using dist i j by (simp add: distinct_conv_nth)
    ultimately show ?thesis using others_stay [OF plain run at] by (simp add: at_rest_def)
  qed
  from object_follows [OF plain run at] index active
  have here: "at_rest (has h') t i \<or> arrived (has h') (vacant h') t i \<and> evidence res \<noteq> No_commit"
    by (auto simp: at_rest_def arrived_def)
  have "consistent (has h') (vacant h') t"
    using consistentD(1) [OF con] others here evidence by (auto simp: consistent_def)
  moreover have "evidence res = No_commit \<Longrightarrow> at_rest (has h') t i" using here by auto
  moreover note success [OF plain run]
  ultimately show ?thesis by (simp add: answered_def index)
qed

lemma serve_reconcile_answered:
  assumes con: "consistent (has h) (vacant h) t" and active: "active_step t \<noteq> Step_none"
    and index: "unat (active_index t) = i"
    and run: "serve (request_for t i (active_step t)) Reconcile_only h = (res, h')"
  shows "answered (has h') (vacant h') t res"
proof -
  note plain = request_for_simps(3) [of t i "active_step t"]
  from reconcile [OF plain run] have same: "has h' = has h" "vacant h' = vacant h" by auto
  from consistentD(6) [OF con active] index have i: "i < length (batch_items t)" by simp
  have "at_rest (has h) t i" if "evidence res = No_commit"
    using consistentD(2) [OF con i] reconcile_no_commit [OF plain _ run that]
    by (auto simp: arrived_def)
  with con same success [OF plain run] show ?thesis by (simp add: answered_def index)
qed

lemma submit_execute_answered:
  assumes con: "consistent (has (service w)) (vacant (service w)) t"
    and active: "active_step t \<noteq> Step_none" "active_evidence t = Evidence_none"
    and index: "unat (active_index t) = i" and rest: "at_rest (has (service w)) t i"
    and run: "submit_and_wait serve (request_for t i (active_step t)) False w = (res, w')"
  shows "answered (has (service w')) (vacant (service w')) t res" "journal w' = journal w"
proof -
  let ?w = "w\<lparr>accepts := tl (accepts w)\<rparr>"
  obtain r h where serve: "serve (request_for t i (active_step t)) Execute (service w) = (r, h)"
    by fastforce
  have "answered (has (service w')) (vacant (service w')) t res \<and> journal w' = journal w"
  proof (cases "case accepts w of [] \<Rightarrow> True | b # _ \<Rightarrow> b")
    case True
    with run serve have "res = r" "w' = ?w\<lparr>service := h\<rparr>"
      by (auto simp: submit_and_wait_def submit_with_def)
    with serve_execute_answered [OF con active index rest serve] show ?thesis by simp
  next
    case False
    with run con show ?thesis by (auto simp: submit_and_wait_def submit_with_def answered_def)
  qed
  then show "answered (has (service w')) (vacant (service w')) t res" "journal w' = journal w"
    by auto
qed

lemma submit_reconcile_answered:
  assumes con: "consistent (has (service w)) (vacant (service w)) t"
    and active: "active_step t \<noteq> Step_none" and index: "unat (active_index t) = i"
    and run: "submit_and_wait serve (request_for t i (active_step t)) True w = (res, w')"
  shows "answered (has (service w')) (vacant (service w')) t res" "journal w' = journal w"
proof -
  let ?w = "w\<lparr>accepts := tl (accepts w)\<rparr>"
  obtain r h where serve: "serve (request_for t i (active_step t)) Reconcile_only (service w) = (r, h)"
    by fastforce
  have "answered (has (service w')) (vacant (service w')) t res \<and> journal w' = journal w"
  proof (cases "case accepts w of [] \<Rightarrow> True | b # _ \<Rightarrow> b")
    case True
    with run serve have "res = r" "w' = ?w\<lparr>service := h\<rparr>"
      by (auto simp: submit_and_wait_def submit_with_def)
    with serve_reconcile_answered [OF con active index serve] show ?thesis by simp
  next
    case False
    with run con show ?thesis by (auto simp: submit_and_wait_def submit_with_def answered_def)
  qed
  then show "answered (has (service w')) (vacant (service w')) t res" "journal w' = journal w"
    by auto
qed

lemma attempt_answered:
  assumes con: "consistent (has (service w)) (vacant (service w)) t"
    and active: "active_step t \<noteq> Step_none" "active_evidence t = Evidence_none"
    and index: "unat (active_index t) = i" and rest: "at_rest (has (service w)) t i"
    and run: "attempt_step serve (request_for t i (active_step t)) w = (res, w')"
  shows "answered (has (service w')) (vacant (service w')) t res \<and> journal w' = journal w"
proof -
  let ?r = "request_for t i (active_step t)"
  obtain r1 w1 where first: "submit_and_wait serve ?r False w = (r1, w1)" by fastforce
  note one = submit_execute_answered [OF con active index rest first]
  obtain b w2 where stop: "stop_requested w1 = (b, w2)" by fastforce
  then have w2: "service w2 = service w1" "journal w2 = journal w1"
    by (auto simp: stop_requested_def split: list.splits)
  obtain r3 w3 where second: "submit_and_wait serve ?r True w2 = (r3, w3)" by fastforce
  from one(1) have "consistent (has (service w2)) (vacant (service w2)) t"
    by (simp add: answered_def w2)
  note two = submit_reconcile_answered [OF this active(1) index second]
  from run first stop second one two w2 show ?thesis
    by (auto simp: attempt_step_def attempt_with_def split: if_splits)
qed

end

section \<open>One step\<close>

text \<open>Whatever the outcome, the journal still accounts for every object. A committed step moved
  its item; a step without commit moved nothing and leaves the transaction in phase \<open>p\<close>.\<close>

definition step_kept ::
  "places \<Rightarrow> (path \<Rightarrow> bool) \<Rightarrow> BatchRenameTransaction \<Rightarrow> nat \<Rightarrow> BatchStepKind \<Rightarrow>
   BatchTransactionPhase \<Rightarrow> StepOutcome \<Rightarrow> BatchRenameTransaction \<Rightarrow> disk \<Rightarrow> bool"
where
  "step_kept H V t i step p outcome t' d \<longleftrightarrow>
     consistent H V t' \<and> recoverable H V d \<and> skeleton t' = skeleton t \<and>
     (outcome = Step_committed \<longrightarrow> active_step t' = Step_none \<and> batch_phase t' = batch_phase t \<and>
        locations t' = (locations t)[i := step_location step]) \<and>
     (outcome = Step_no_commit \<longrightarrow> active_step t' = Step_none \<and> batch_phase t' = p \<and>
        locations t' = locations t)"

lemma conclude_step_outcome:
  assumes "conclude_step prefix d result t w = ((s, t'), w')"
    and "recoverable H V (journal w)" "consistent H V t"
  shows "t' = t" "service w' = service w" "recoverable H V (journal w')"
    "step_outcome s \<in> {step_outcome result, Step_journal_error, Step_stopped}"
proof -
  obtain r w1 where run: "persist t w = (r, w1)" by fastforce
  obtain b w2 where stop: "stop_requested w1 = (b, w2)" by fastforce
  then have w2: "service w2 = service w1" "journal w2 = journal w1"
    by (auto simp: stop_requested_def split: list.splits)
  note assms(1) [unfolded conclude_step_def conclude_with_def run prod.case stop Let_def]
  with persist_recoverable [OF run assms(2,3)] w2
  show "t' = t" "service w' = service w" "recoverable H V (journal w')"
    "step_outcome s \<in> {step_outcome result, Step_journal_error, Step_stopped}"
    by (auto simp: journal_failure_def split: option.splits if_splits)
qed

lemma apply_success_evidence [simp]:
  "apply_success (t\<lparr>active_evidence := e\<rparr>) i step result = apply_success t i step result"
  "record_failure f k d (t\<lparr>active_evidence := e\<rparr>) = record_failure f k d t"
  by (simp_all add: apply_success_def move_item_def clear_active_def record_failure_def Let_def)

lemma apply_success_consistent:
  assumes answer: "answered H V t result" "status result = Success"
    and active: "active_step t = step" "step \<noteq> Step_none" "unat (active_index t) = i"
    and applied: "apply_success t i step result = Some t'"
  shows "consistent H V t'" "active_step t' = Step_none" "skeleton t' = skeleton t"
    "batch_phase t' = batch_phase t" "locations t' = (locations t)[i := step_location step]"
proof -
  let ?s = "confirmed_snapshot result"
  let ?moved = "clear_active (move_item t i step ?s)"
  from answer(1) have con: "consistent H V t" by (simp add: answered_def)
  from consistentD(6) [OF con] active have i: "i < length (batch_items t)" by auto
  from applied have id: "stable_object_identity (source_revision_utf8 ?s) =
      physical_id (batch_items t ! i)" and t': "t' = clear_failure ?moved"
    by (auto simp: apply_success_def Let_def split: if_splits)
  have "consistent H V ?moved"
    using consistent_move [OF con _ active(3) id] answer active id
    by (simp add: answered_def)
  then show "consistent H V t'" unfolding t' by (rule consistent_clear_failure) simp
  show "active_step t' = Step_none" "skeleton t' = skeleton t" "batch_phase t' = batch_phase t"
    "locations t' = (locations t)[i := step_location step]"
    by (simp_all add: t' move_item_skeleton [OF i id])
qed

lemma step_succeeded_kept:
  assumes answer: "answered H V t result" "status result = Success"
    and active: "active_step t = step" "step \<noteq> Step_none" "unat (active_index t) = i"
    and disk: "recoverable H V (journal w)"
    and run: "step_succeeded d i step result (t\<lparr>active_evidence := e\<rparr>) w = ((s, t'), w')"
  shows "step_kept H V t i step p (step_outcome s) t' (journal w') \<and> service w' = service w"
proof (cases "apply_success t i step result")
  case (Some t1)
  note applied = apply_success_consistent [OF answer active Some]
  from run Some have "conclude_step [] d \<lparr>step_outcome = Step_committed, step_status = Success,
      step_detail = []\<rparr> t1 w = ((s, t'), w')" by (simp add: step_succeeded_def)
  from conclude_step_outcome [OF this disk applied(1)] applied
  show ?thesis by (auto simp: step_kept_def)
next
  case None
  let ?t = "record_failure Unknown_outcome (evidence result) untrusted_snapshot t"
  obtain r w1 where persisted: "persist ?t w = (r, w1)" by fastforce
  have "consistent H V ?t"
    using answer active by (intro consistent_failure) (auto simp: answered_def)
  from persist_recoverable [OF persisted disk this] this run None persisted
  show ?thesis
    by (auto simp: step_succeeded_def step_kept_def journal_failure_def Let_def split: option.splits)
qed

lemma step_not_committed_kept:
  assumes con: "consistent H V t0" "active_step t0 = Step_none" "skeleton t0 = skeleton t"
    "batch_phase t0 = p" "locations t0 = locations t"
    and disk: "recoverable H V (journal w)"
    and run: "step_not_committed d result t0 w = ((s, t'), w')"
  shows "step_kept H V t i step p (step_outcome s) t' (journal w') \<and> service w' = service w"
  using conclude_step_outcome [OF run [unfolded step_not_committed_def] disk con(1)] con
  by (auto simp: step_kept_def)

lemma step_uncertain_kept:
  assumes con: "consistent H V t0" "skeleton t0 = skeleton t"
    and disk: "recoverable H V (journal w)"
    and run: "step_uncertain d result t0 w = ((s, t'), w')"
  shows "step_kept H V t i step p (step_outcome s) t' (journal w') \<and> service w' = service w"
  using conclude_step_outcome [OF run [unfolded step_uncertain_def] disk con(1)] con
  by (auto simp: step_kept_def)

lemma consistent_retreat:
  assumes "consistent H V t" "step_fits t i step"
  shows "consistent H V (clear_active t) \<Longrightarrow> consistent H V (clear_active (retreat step t))"
proof -
  assume cleared: "consistent H V (clear_active t)"
  show ?thesis
  proof (cases "step = Step_evacuate")
    case True
    with assms(2) have "batch_phase t = Evacuating" by (simp add: step_fits_def)
    with consistentD(5) [OF assms(1)]
    have "location_allowed_in_phase Rollback (item_location (batch_items t ! j))"
      if "j < length (batch_items t)" for j
      using that by (auto simp: item_tracked_def)
    then have "consistent H V (clear_active t\<lparr>batch_phase := Rollback\<rparr>)"
      by (intro consistent_phase [OF cleared]) (simp_all add: clear_active_def)
    moreover have "clear_active t\<lparr>batch_phase := Rollback\<rparr> = clear_active (retreat step t)"
      using True by (cases t) (simp add: retreat_def clear_active_def)
    ultimately show ?thesis by simp
  next
    case False
    with cleared show ?thesis by (simp add: retreat_def)
  qed
qed

lemma settle_executed_kept:
  assumes answer: "answered H V t result"
    and active: "active_step t = step" "step \<noteq> Step_none" "unat (active_index t) = i"
    and fits: "step_fits t i step" and disk: "recoverable H V (journal w)"
    and run: "settle_executed i step result t w = ((s, t'), w')"
  shows "step_kept H V t i step (batch_phase (retreat step t)) (step_outcome s) t' (journal w') \<and>
    service w' = service w"
proof (cases "status result = Success")
  case True
  with run show ?thesis
    by (intro step_succeeded_kept [OF answer True active disk]) (simp add: settle_executed_def)
next
  case False
  let ?t = "record_failure (status result) (evidence result) (detail_utf8 result) t"
  have con: "consistent H V ?t"
    using answer active False by (intro consistent_failure) (auto simp: answered_def)
  show ?thesis
  proof (cases "evidence result = No_commit")
    case stayed: True
    from answer stayed active(3) have "at_rest H ?t (unat (active_index ?t))"
      by (auto simp: answered_def at_rest_def record_failure_def)
    then have cleared: "consistent H V (clear_active ?t)" by (rule consistent_clear [OF con])
    have "step_fits ?t i step" using fits by (simp add: step_fits_def record_failure_def)
    from consistent_retreat [OF con this cleared]
    have settled: "consistent H V (clear_active (retreat step ?t))" .
    from run False stayed show ?thesis
      by (intro step_not_committed_kept [OF settled _ _ _ _ disk])
        (simp_all add: settle_executed_def confirmed_no_commit_def retreat_def Let_def)
  next
    case unknown: False
    from run False unknown show ?thesis
      by (intro step_uncertain_kept [OF con _ disk])
        (simp_all add: settle_executed_def confirmed_no_commit_def Let_def)
  qed
qed

lemma settle_reconciled_kept:
  assumes answer: "answered H V t result"
    and active: "active_step t = step" "step \<noteq> Step_none" "unat (active_index t) = i"
    and disk: "recoverable H V (journal w)"
    and run: "settle_reconciled i step result t w = ((s, t'), w')"
  shows "step_kept H V t i step (batch_phase t) (step_outcome s) t' (journal w') \<and>
    service w' = service w"
proof (cases "status result = Success")
  case True
  have "t\<lparr>active_evidence := active_evidence t\<rparr> = t" by simp
  with run True show ?thesis
    by (intro step_succeeded_kept [OF answer True active disk, where e = "active_evidence t"])
      (simp add: settle_reconciled_def)
next
  case False
  from answer have con: "consistent H V t" by (simp add: answered_def)
  show ?thesis
  proof (cases "evidence result = No_commit")
    case stayed: True
    with stayed answer have "at_rest H t (unat (active_index t))" by (simp add: answered_def)
    then have "consistent H V (clear_active t)" by (rule consistent_clear [OF con])
    then have settled: "consistent H V (clear_failure (clear_active t))"
      by (rule consistent_clear_failure) simp
    from run False stayed show ?thesis
      by (intro step_not_committed_kept [OF settled _ _ _ _ disk])
        (simp_all add: settle_reconciled_def confirmed_no_commit_def)
  next
    case unknown: False
    have noted: "consistent H V (record_failure (status result) (evidence result) (detail_utf8 result) t)"
      using active False unknown by (intro consistent_failure [OF con]) auto
    from run False unknown show ?thesis
      by (intro step_uncertain_kept [OF noted _ disk])
        (simp_all add: settle_reconciled_def confirmed_no_commit_def)
  qed
qed

text \<open>Merging in what the record knows of the attempt keeps the answer trustworthy.\<close>

lemma merge_recorded_answered:
  assumes answer: "answered H V t res"
  shows "answered H V t (merge_recorded t op res)"
proof (cases "active_evidence t = Evidence_none")
  case True
  with answer show ?thesis by (simp add: merge_recorded_def)
next
  case False
  let ?a = "recorded_attempt t op"
  let ?m = "merge_reconciliation ?a res"
  from answer have con: "consistent H V t" by (simp add: answered_def)
  from False consistentD(1) [OF con] have failed: "status ?a \<noteq> Success"
    by (simp add: tracked_def recorded_attempt_def plain_result_def)
  have known: "evidence ?a = active_evidence t"
    by (simp add: recorded_attempt_def plain_result_def)
  have "status ?m = Success \<Longrightarrow> status res = Success \<and> confirmed_snapshot ?m = confirmed_snapshot res"
    using failed by (auto simp: merge_reconciliation_def observe_presence_def split: if_splits)
  moreover have "evidence ?m = No_commit \<Longrightarrow> evidence res = No_commit \<or> active_evidence t = No_commit"
    using known by (auto simp: merge_evidence split: if_splits)
  ultimately show ?thesis
    using answer consistentD(3) [OF con] False by (auto simp: answered_def merge_recorded_def)
qed

context rename_service begin

text \<open>\<open>good\<close>: the transaction and everything the journal may hold account for every object.\<close>

definition good :: "BatchRenameTransaction \<Rightarrow> 'h coordinator \<Rightarrow> bool" where
  "good t w \<longleftrightarrow> consistent (has (service w)) (vacant (service w)) t \<and>
                recoverable (has (service w)) (vacant (service w)) (journal w)"

lemma execute_step_kept:
  assumes ok: "good t w" and idle: "active_step t = Step_none" and fits: "step_fits t i step"
    and run: "execute_step serve t i step w = ((s, t'), w')"
  shows "step_kept (has (service w')) (vacant (service w')) t i step (batch_phase (retreat step t))
    (step_outcome s) t' (journal w')"
proof -
  let ?t = "activate t i step" and ?r = "request_for (activate t i step) i step"
  from ok have con: "consistent (has (service w)) (vacant (service w)) t"
    and disk: "recoverable (has (service w)) (vacant (service w)) (journal w)"
    by (simp_all add: good_def)
  note active = consistent_activate [OF con idle fits]
  have step: "step \<noteq> Step_none" using fits by (auto simp: step_fits_def)
  obtain r w1 where persisted: "persist ?t w = (r, w1)" by fastforce
  note journaled = persist_recoverable [OF persisted disk active(1)]
  show ?thesis
  proof (cases r)
    case (Some detail)
    with run persisted journaled active(1) show ?thesis
      by (auto simp: execute_step_def step_kept_def journal_failure_def)
  next
    case None
    let ?w = "report_progress ?t step ?r w1"
    have w: "service ?w = service w" "journal ?w = journal w1"
      using journaled(2) by (simp_all add: report_progress_def)
    obtain res w2 where attempt: "attempt_step serve ?r ?w = (res, w2)" by fastforce
    have evidence: "active_evidence ?t = Evidence_none" by (simp add: activate_def)
    have "answered (has (service w2)) (vacant (service w2)) ?t res \<and> journal w2 = journal w1"
      using attempt_answered [of ?w ?t i res w2] active step evidence attempt w
      by (simp add: activate_def)
    then have answer: "answered (has (service w2)) (vacant (service w2)) ?t (name_failure step i res)"
      and same: "journal w2 = journal w1"
      by (auto simp: answered_def name_failure_def)
    have "consistent (has (service w2)) (vacant (service w2)) ?t"
      using answer by (simp add: answered_def)
    with journaled(3) None same
    have disk2: "recoverable (has (service w2)) (vacant (service w2)) (journal w2)"
      by (auto intro: recorded_recoverable)
    have fits2: "step_fits ?t i step" using fits by (simp add: step_fits_def activate_def)
    have run2: "settle_executed i step (name_failure step i res) ?t w2 = ((s, t'), w')"
      using run persisted None attempt by (simp add: execute_step_def Let_def)
    have phase: "batch_phase (retreat step ?t) = batch_phase (retreat step t)"
      by (simp add: retreat_def)
    from settle_executed_kept [OF answer active(3) step active(4) fits2 disk2 run2]
    show ?thesis by (simp add: step_kept_def phase)
  qed
qed

lemma reconcile_active_kept:
  assumes ok: "good t w" and active: "active_step t \<noteq> Step_none"
    and run: "reconcile_active serve t w = ((s, t'), w')"
  shows "step_kept (has (service w')) (vacant (service w')) t (unat (active_index t))
    (active_step t) (batch_phase t) (step_outcome s) t' (journal w')"
proof -
  let ?i = "unat (active_index t)"
  let ?r = "request_for t ?i (active_step t)"
  from ok have con: "consistent (has (service w)) (vacant (service w)) t"
    and disk: "recoverable (has (service w)) (vacant (service w)) (journal w)"
    by (simp_all add: good_def)
  obtain res w1 where submitted: "submit_and_wait serve ?r True w = (res, w1)" by fastforce
  note one = submit_reconcile_answered [OF con active refl submitted]
  note answer = merge_recorded_answered [OF one(1)]
  have quiet: "has (service w1) = has (service w) \<and> vacant (service w1) = vacant (service w)"
    using submitted reconcile [OF request_for_simps(3)]
    by (auto simp: submit_and_wait_def submit_with_def Let_def split: prod.splits if_splits list.splits)
  with disk one(2) have disk1: "recoverable (has (service w1)) (vacant (service w1)) (journal w1)"
    by simp
  have "settle_reconciled ?i (active_step t) (merge_recorded t (rename_operation_id ?r) res) t w1 =
      ((s, t'), w')"
    using run submitted by (simp add: reconcile_active_def Let_def)
  from settle_reconciled_kept [OF answer refl active refl disk1 this]
  show ?thesis by simp
qed

text \<open>A run that ends early says so.\<close>

definition unfinished :: "BatchRenameResult \<Rightarrow> bool" where
  "unfinished r \<longleftrightarrow> run_status r \<in> {Run_journal_error, Run_recovery_required, Run_stopped}"

lemma unfinished_results [simp]: "unfinished (recovery_result t s)" "unfinished (impossible_location t)"
  by (simp_all add: unfinished_def recovery_result_def impossible_location_def)

lemma good_step:
  assumes "good t w" "active_step t = Step_none" "step_fits t i step"
    and "execute_step serve t i step w = ((s, t'), w')"
  shows "good t' w'" "skeleton t' = skeleton t"
    "step_outcome s = Step_committed \<Longrightarrow> active_step t' = Step_none \<and> batch_phase t' = batch_phase t \<and>
       locations t' = (locations t)[i := step_location step]"
    "step_outcome s = Step_no_commit \<Longrightarrow> active_step t' = Step_none \<and>
       batch_phase t' = batch_phase (retreat step t) \<and> locations t' = locations t"
  using execute_step_kept [OF assms] by (auto simp: step_kept_def good_def)

lemma good_location:
  "good t w \<Longrightarrow> i < length (batch_items t) \<Longrightarrow>
     location_allowed_in_phase (batch_phase t) (item_location (batch_items t ! i))"
  using consistentD(5) by (auto simp: good_def item_tracked_def)

lemma enter_phase_kept:
  assumes ok: "good t w" "active_step t = Step_none"
    and allowed: "\<And>i. i < length (batch_items t) \<Longrightarrow>
      location_allowed_in_phase p (item_location (batch_items t ! i))"
    and run: "enter_phase p t w = ((r, t'), w')"
  shows "good t' w'" "t' = t\<lparr>batch_phase := p\<rparr>" "r = Some x \<Longrightarrow> unfinished x"
proof -
  let ?t = "t\<lparr>batch_phase := p\<rparr>"
  obtain y w1 where persisted: "persist ?t w = (y, w1)" by fastforce
  from ok have "consistent (has (service w)) (vacant (service w)) ?t"
    by (intro consistent_phase) (auto simp: good_def allowed)
  with persist_recoverable [OF persisted _ this] ok run persisted
  show "good t' w'" "t' = t\<lparr>batch_phase := p\<rparr>" "r = Some x \<Longrightarrow> unfinished x"
    by (auto simp: enter_phase_def good_def Let_def split: option.splits)
qed

text \<open>How a run may end: all objects at their destinations, all at their sources, or early.\<close>

definition run_kept :: "BatchRenameTransaction \<Rightarrow> ending \<Rightarrow> BatchRenameTransaction \<Rightarrow> 'h coordinator \<Rightarrow> bool" where
  "run_kept t e t' w' \<longleftrightarrow>
     good t' w' \<and> skeleton t' = skeleton t \<and> (\<forall>r. e = Ended r \<longrightarrow> unfinished r) \<and>
     (e = Published \<longrightarrow> active_step t' = Step_none \<and>
        (\<forall>i<length (batch_items t). locations t' ! i = At_destination)) \<and>
     (\<forall>st d. e = Rolled_back st d \<longrightarrow> active_step t' = Step_none \<and>
        (\<forall>i<length (batch_items t). locations t' ! i = At_source))"

lemma run_kept_ended:
  "good t' w' \<Longrightarrow> skeleton t' = skeleton t \<Longrightarrow> unfinished r \<Longrightarrow> run_kept t (Ended r) t' w'"
  by (simp add: run_kept_def)

lemma run_kept_skeleton: "run_kept t1 e t' w' \<Longrightarrow> skeleton t1 = skeleton t \<Longrightarrow> run_kept t e t' w'"
  using skeleton_length [of t1 t] by (simp add: run_kept_def)

lemma rollback_items_kept:
  assumes "good t w" "active_step t = Step_none" "batch_phase t = Rollback"
    and "\<forall>i\<in>set is. i < length (batch_items t)"
    and "rollback_items serve is t w = ((r, t'), w')"
  shows "good t' w' \<and> skeleton t' = skeleton t \<and> (\<forall>x. r = Some x \<longrightarrow> unfinished x) \<and> (r = None \<longrightarrow> active_step t' = Step_none \<and>
    (\<forall>i<length (batch_items t). i \<in> set is \<or> locations t ! i = At_source \<longrightarrow>
       locations t' ! i = At_source))"
  using assms
proof (induction "is" arbitrary: t w)
  case (Cons i rest)
  then have i: "i < length (batch_items t)" by simp
  show ?case
  proof (cases "item_location (batch_items t ! i) = At_temporary")
    case False
    with good_location [OF Cons.prems(1) i] Cons.prems(3)
    have "locations t ! i = At_source" using i by (cases "item_location (batch_items t ! i)") auto
    with Cons.IH [OF Cons.prems(1-3)] Cons.prems(4,5) False show ?thesis by auto
  next
    case True
    obtain s t1 w1 where step: "execute_step serve t i Step_rollback w = ((s, t1), w1)"
      by (metis prod.exhaust)
    have fits: "step_fits t i Step_rollback" using True i Cons.prems(3) by (simp add: step_fits_def)
    note kept = good_step [OF Cons.prems(1,2) fits step]
    note len = skeleton_length [OF kept(2)]
    show ?thesis
    proof (cases "step_outcome s = Step_committed")
      case committed: True
      note after = kept(3) [OF committed]
      with Cons.prems(5) True step committed
      have "rollback_items serve rest t1 w1 = ((r, t'), w')" by simp
      with Cons.IH [OF kept(1) _ _ _ this] after Cons.prems(3,4) len kept(2) i
      show ?thesis by (auto simp: nth_list_update step_location_def)
    next
      case False
      with Cons.prems(5) True step kept(1,2) show ?thesis by auto
    qed
  qed
qed auto

lemma rollback_kept:
  assumes "good t w" "active_step t = Step_none" "batch_phase t = Rollback"
    and "rollback serve t w = ((e, t'), w')"
  shows "run_kept t e t' w'"
proof -
  let ?is = "rev [0..<length (batch_items t)]"
  obtain r t1 w1 where items: "rollback_items serve ?is t w = ((r, t1), w1)"
    by (metis prod.exhaust)
  from rollback_items_kept [OF assms(1-3) _ items] assms(4) items
  show ?thesis by (auto simp: rollback_def run_kept_def split: option.splits)
qed

lemma publish_items_kept:
  assumes "good t w" "active_step t = Step_none" "batch_phase t = Publishing"
    and "\<forall>i\<in>set is. i < length (batch_items t)"
    and "\<forall>i<length (batch_items t). i \<in> set is \<or> locations t ! i = At_destination"
    and "publish_items serve is t w = ((e, t'), w')"
  shows "run_kept t e t' w'"
  using assms
proof (induction "is" arbitrary: t w)
  case Nil
  then show ?case by (auto simp: run_kept_def)
next
  case (Cons i rest)
  then have i: "i < length (batch_items t)" by simp
  from good_location [OF Cons.prems(1) i] Cons.prems(3)
  consider "item_location (batch_items t ! i) = At_destination"
    | "item_location (batch_items t ! i) = At_temporary" by auto
  then show ?case
  proof cases
    case 1
    then have "locations t ! i = At_destination" using i by simp
    with 1 Cons.prems Cons.IH [OF Cons.prems(1-3)] show ?thesis by auto
  next
    case 2
    obtain s t1 w1 where step: "execute_step serve t i Step_publish w = ((s, t1), w1)"
      by (metis prod.exhaust)
    have fits: "step_fits t i Step_publish" using 2 i Cons.prems(3) by (simp add: step_fits_def)
    note kept = good_step [OF Cons.prems(1,2) fits step]
    note len = skeleton_length [OF kept(2)]
    show ?thesis
    proof (cases "step_outcome s = Step_committed")
      case committed: True
      note after = kept(3) [OF committed]
      from Cons.prems(6) 2 step committed
      have tail: "publish_items serve rest t1 w1 = ((e, t'), w')" by simp
      have "\<forall>j<length (batch_items t1). j \<in> set rest \<or> locations t1 ! j = At_destination"
        using after Cons.prems(5) len i by (auto simp: nth_list_update step_location_def)
      with Cons.IH [OF kept(1) _ _ _ _ tail] after Cons.prems(3,4) len
      have "run_kept t1 e t' w'" by simp
      then show ?thesis by (rule run_kept_skeleton) (fact kept(2))
    next
      case False
      with Cons.prems(6) 2 step have "e = Ended (recovery_result t1 s)" "t' = t1" "w' = w1" by auto
      with kept(1,2) show ?thesis by (simp add: run_kept_ended)
    qed
  qed
qed

lemma publish_phase_kept:
  assumes "good t w" "active_step t = Step_none" "publish_phase serve t w = ((e, t'), w')"
  shows "run_kept t e t' w'"
  using assms publish_items_kept [of t w "[0..<length (batch_items t)]" e t' w'] rollback_kept
  by (auto simp: publish_phase_def run_kept_ended unfinished_def split: if_splits)

lemma commit_phase_kept:
  assumes ok: "good t w" "active_step t = Step_none" and run: "commit_phase serve t w = ((e, t'), w')"
  shows "run_kept t e t' w'"
proof (cases "batch_phase t = Commit_intent")
  case True
  obtain r t1 w1 where entered: "enter_phase Publishing t w = ((r, t1), w1)" by (metis prod.exhaust)
  have "location_allowed_in_phase Publishing (item_location (batch_items t ! i))"
    if "i < length (batch_items t)" for i
    using good_location [OF ok(1) that] True by simp
  note phase = enter_phase_kept [OF ok this entered]
  show ?thesis
  proof (rule run_kept_skeleton [of t1])
    show "run_kept t1 e t' w'"
      using run True entered phase ok(2) publish_phase_kept [OF phase(1)]
      by (cases r) (auto simp: commit_phase_def run_kept_ended)
  qed (simp add: phase(2))
next
  case False
  with publish_phase_kept [OF ok] run show ?thesis by (simp add: commit_phase_def)
qed

lemma evacuate_items_kept:
  assumes "good t w" "active_step t = Step_none" "batch_phase t = Evacuating"
    and "\<forall>i\<in>set is. i < length (batch_items t)"
    and "\<forall>i<length (batch_items t). i \<in> set is \<or> locations t ! i = At_temporary"
    and "evacuate_items serve is t w = ((e, t'), w')"
  shows "run_kept t e t' w'"
  using assms
proof (induction "is" arbitrary: t w)
  case Nil
  obtain r t1 w1 where entered: "enter_phase Commit_intent t w = ((r, t1), w1)"
    by (metis prod.exhaust)
  have "location_allowed_in_phase Commit_intent (item_location (batch_items t ! i))"
    if "i < length (batch_items t)" for i
    using Nil.prems(5) that by simp
  note phase = enter_phase_kept [OF Nil.prems(1,2) this entered]
  show ?case
  proof (rule run_kept_skeleton [of t1])
    show "run_kept t1 e t' w'"
      using Nil.prems(2,6) entered phase commit_phase_kept [OF phase(1)]
      by (cases r) (auto simp: run_kept_ended)
  qed (simp add: phase(2))
next
  case (Cons i rest)
  then have i: "i < length (batch_items t)" by simp
  show ?case
  proof (cases "item_location (batch_items t ! i) = At_source")
    case False
    with good_location [OF Cons.prems(1) i] Cons.prems(3)
    have "locations t ! i = At_temporary" using i by simp
    with False Cons.prems Cons.IH [OF Cons.prems(1-3)] show ?thesis by auto
  next
    case True
    obtain s t1 w1 where step: "execute_step serve t i Step_evacuate w = ((s, t1), w1)"
      by (metis prod.exhaust)
    have fits: "step_fits t i Step_evacuate" using True i Cons.prems(3) by (simp add: step_fits_def)
    note kept = good_step [OF Cons.prems(1,2) fits step]
    note len = skeleton_length [OF kept(2)]
    show ?thesis
    proof (rule run_kept_skeleton [OF _ kept(2)])
      show "run_kept t1 e t' w'"
      proof (cases "step_outcome s = Step_committed")
        case committed: True
        note after = kept(3) [OF committed]
        from Cons.prems(6) True step committed
        have tail: "evacuate_items serve rest t1 w1 = ((e, t'), w')" by simp
        have "\<forall>j<length (batch_items t1). j \<in> set rest \<or> locations t1 ! j = At_temporary"
          using after Cons.prems(5) len i by (auto simp: nth_list_update step_location_def)
        with Cons.IH [OF kept(1) _ _ _ _ tail] after Cons.prems(3,4) len show ?thesis by simp
      next
        case False
        with Cons.prems(6) True step kept(1,4) rollback_kept [OF kept(1)] show ?thesis
          by (auto simp: run_kept_ended retreat_def split: if_splits)
      qed
    qed
  qed
qed

lemma prepared_phase_kept:
  assumes ok: "good t w" "active_step t = Step_none"
    and run: "prepared_phase serve t w = ((e, t'), w')"
  shows "run_kept t e t' w'"
proof -
  have evacuate: "run_kept t1 e t' w'"
    if "good t1 w1" "active_step t1 = Step_none" "evacuate_phase serve t1 w1 = ((e, t'), w')" for t1 w1
    using that evacuate_items_kept [of t1 w1 "[0..<length (batch_items t1)]" e t' w'] commit_phase_kept
    by (auto simp: evacuate_phase_def split: if_splits)
  show ?thesis
  proof (cases "batch_phase t = Prepared")
    case True
    obtain r t1 w1 where entered: "enter_phase Evacuating t w = ((r, t1), w1)"
      by (metis prod.exhaust)
    have "location_allowed_in_phase Evacuating (item_location (batch_items t ! i))"
      if "i < length (batch_items t)" for i
      using good_location [OF ok(1) that] True by simp
    note phase = enter_phase_kept [OF ok this entered]
    show ?thesis
    proof (rule run_kept_skeleton [of t1])
      show "run_kept t1 e t' w'"
        using run True entered phase ok(2) evacuate [OF phase(1)]
        by (cases r) (auto simp: prepared_phase_def run_kept_ended)
    qed (simp add: phase(2))
  next
    case False
    with evacuate [OF ok] run show ?thesis by (simp add: prepared_phase_def)
  qed
qed

lemma active_phase_kept:
  assumes ok: "good t w" and run: "active_phase serve t w = ((e, t'), w')"
  shows "run_kept t e t' w'"
proof (cases "active_step t = Step_none")
  case True
  with prepared_phase_kept [OF ok] run show ?thesis by (simp add: active_phase_def)
next
  case False
  obtain s t1 w1 where rec: "reconcile_active serve t w = ((s, t1), w1)" by (metis prod.exhaust)
  note kept = reconcile_active_kept [OF ok False rec, unfolded step_kept_def]
  then have ok1: "good t1 w1" and same: "skeleton t1 = skeleton t" by (simp_all add: good_def)
  show ?thesis
  proof (rule run_kept_skeleton [OF _ same])
    show "run_kept t1 e t' w'"
      using run False rec kept ok1 prepared_phase_kept [OF ok1]
      by (cases "step_outcome s") (auto simp: active_phase_def run_kept_ended)
  qed
qed

theorem advance_kept:
  assumes ok: "good t w" and run: "advance serve t w = ((e, t'), w')"
  shows "run_kept t e t' w'"
proof (cases "active_step t = Step_none \<and> batch_phase t = Evacuating \<and> failure_status t \<noteq> Success")
  case True
  obtain r t1 w1 where entered: "enter_phase Rollback t w = ((r, t1), w1)" by (metis prod.exhaust)
  have "location_allowed_in_phase Rollback (item_location (batch_items t ! i))"
    if "i < length (batch_items t)" for i
    using good_location [OF ok that] True by simp
  note phase = enter_phase_kept [OF ok _ this entered]
  show ?thesis
  proof (rule run_kept_skeleton [of t1])
    show "run_kept t1 e t' w'"
      using run True entered phase active_phase_kept [OF phase(1)]
      by (cases r) (auto simp: advance_def run_kept_ended)
  qed (use phase(2) True in simp)
next
  case False
  with active_phase_kept [OF ok] run show ?thesis by (auto simp: advance_def)
qed

section \<open>Where the objects are\<close>

text \<open>While the transaction is good, no object is lost.\<close>

lemma good_accounted:
  assumes ok: "good t w" and i: "i < length (batch_items t)"
  shows "\<exists>p\<in>{item_source (batch_items t ! i), item_temporary (batch_items t ! i),
    item_destination (batch_items t ! i)}. has (service w) p (physical_id (batch_items t ! i))"
proof -
  let ?item = "batch_items t ! i"
  from ok have con: "consistent (has (service w)) (vacant (service w)) t" by (simp add: good_def)
  from consistentD(5) [OF con i] have "expected_current_path ?item" by (simp add: item_tracked_def)
  then have current: "\<exists>p\<in>{item_source ?item, item_temporary ?item, item_destination ?item}.
      path_eq (item_current ?item) p"
    by (auto simp: expected_current_path_def split: BatchItemLocation.splits)
  from consistentD(2) [OF con i] show ?thesis
  proof
    assume "at_rest (has (service w)) t i"
    with current has_spelling show ?thesis unfolding at_rest_def by blast
  next
    assume "arrived (has (service w)) (vacant (service w)) t i"
    then show ?thesis
      by (cases "active_step t") (auto simp: arrived_def step_destination_def)
  qed
qed

lemma good_at:
  assumes ok: "good t w" "active_step t = Step_none" and i: "i < length (batch_items t)"
  shows "item_location (batch_items t ! i) = At_source \<Longrightarrow>
      has (service w) (item_source (batch_items t ! i)) (physical_id (batch_items t ! i))"
    "item_location (batch_items t ! i) = At_destination \<Longrightarrow>
      has (service w) (item_destination (batch_items t ! i)) (physical_id (batch_items t ! i))"
proof -
  from ok have con: "consistent (has (service w)) (vacant (service w)) t" by (simp add: good_def)
  from consistent_rest [OF con i] ok(2) consistentD(5) [OF con i]
  show "item_location (batch_items t ! i) = At_source \<Longrightarrow>
      has (service w) (item_source (batch_items t ! i)) (physical_id (batch_items t ! i))"
    "item_location (batch_items t ! i) = At_destination \<Longrightarrow>
      has (service w) (item_destination (batch_items t ! i)) (physical_id (batch_items t ! i))"
    by (auto simp: at_rest_def item_tracked_def expected_current_path_def intro: has_spelling)
qed

lemma skeleton_nth:
  assumes "skeleton t' = skeleton t" "i < length (batch_items t)"
  shows "item_source (batch_items t' ! i) = item_source (batch_items t ! i)"
    "item_temporary (batch_items t' ! i) = item_temporary (batch_items t ! i)"
    "item_destination (batch_items t' ! i) = item_destination (batch_items t ! i)"
    "physical_id (batch_items t' ! i) = physical_id (batch_items t ! i)"
  using arg_cong [OF assms(1), of "\<lambda>xs. xs ! i"] assms(2) skeleton_length [OF assms(1)]
  by (simp_all add: skeleton_def)

lemma finish_outcome:
  assumes "finish e t w = (res, w')"
  shows "service w' = service w" "run_status res = Run_success \<Longrightarrow> e = Published \<or> (\<exists>r. e = Ended r \<and> r = res)"
    "run_status res = Run_rolled_back \<Longrightarrow> (\<exists>s d. e = Rolled_back s d) \<or> (\<exists>r. e = Ended r \<and> r = res)"
  using assms
  by (auto simp: finish_def remove_journal_def remove_record_def Let_def split: ending.splits option.splits prod.splits if_splits)

lemma continue_transaction_places:
  assumes ok: "good t w" and run: "continue_transaction serve t w = (res, w')"
    and i: "i < length (batch_items t)"
  shows "run_status res = Run_success \<Longrightarrow>
      has (service w') (item_destination (batch_items t ! i)) (physical_id (batch_items t ! i))"
    "run_status res = Run_rolled_back \<Longrightarrow>
      has (service w') (item_source (batch_items t ! i)) (physical_id (batch_items t ! i))"
    "\<exists>p\<in>{item_source (batch_items t ! i), item_temporary (batch_items t ! i),
      item_destination (batch_items t ! i)}. has (service w') p (physical_id (batch_items t ! i))"
proof -
  obtain e t1 w1 where adv: "advance serve t w = ((e, t1), w1)" by (metis prod.exhaust)
  with run have fin: "finish e t1 w1 = (res, w')" by (simp add: continue_transaction_def)
  note kept = advance_kept [OF ok adv, unfolded run_kept_def]
  then have ok1: "good t1 w1" and same: "skeleton t1 = skeleton t" by simp_all
  note same_i = skeleton_nth [OF same i] and len = skeleton_length [OF same]
  note done_ = finish_outcome [OF fin]
  note at = good_at [OF ok1 _ i [folded len]]
  show "\<exists>p\<in>{item_source (batch_items t ! i), item_temporary (batch_items t ! i),
      item_destination (batch_items t ! i)}. has (service w') p (physical_id (batch_items t ! i))"
    using good_accounted [OF ok1 i [folded len]] by (simp only: same_i done_(1))
  show "has (service w') (item_destination (batch_items t ! i)) (physical_id (batch_items t ! i))"
    if "run_status res = Run_success"
  proof -
    from done_(2) [OF that] kept that have "e = Published" by (auto simp: unfinished_def)
    with kept at(2) i len show ?thesis by (simp add: same_i done_(1))
  qed
  show "has (service w') (item_source (batch_items t ! i)) (physical_id (batch_items t ! i))"
    if "run_status res = Run_rolled_back"
  proof -
    from done_(3) [OF that] kept that obtain s d where "e = Rolled_back s d"
      by (auto simp: unfinished_def)
    with kept at(1) i len show ?thesis by (simp add: same_i done_(1))
  qed
qed

section \<open>Starting and resuming\<close>

lemma prepared_transaction:
  assumes "prepare_batch_transaction plan sources op = Inr t"
  shows "active_step t = Step_none" "active_evidence t = Evidence_none"
    "i < length (batch_items t) \<Longrightarrow>
       \<exists>s\<in>set sources. item_source (batch_items t ! i) = source_path s \<and>
         item_current (batch_items t ! i) = source_path s \<and>
         physical_id (batch_items t ! i) = stable_object_identity (source_revision s)"
proof -
  let ?differs = "\<lambda>item. \<not> path_eq (item_source item) (item_destination item)"
  from assms obtain items where prepared: "prepare_items op 0 (plan_rows plan) sources = Inr items"
    and len: "length (plan_rows plan) = length sources"
    and t: "t = new_transaction op (renumber_temporaries op 0 (filter ?differs items))"
    by (auto simp: prepare_batch_transaction_def sum_bind_Inr_iff case_sum_Inr split: if_splits)
  show "active_step t = Step_none" "active_evidence t = Evidence_none"
    by (simp_all add: t new_transaction_def)
  assume "i < length (batch_items t)"
  then have i: "i < length (filter ?differs items)"
    by (simp add: t new_transaction_def renumber_nth(1))
  then obtain k where k: "k < length items" "filter ?differs items ! i = items ! k"
    using filter_nth_origin by blast
  with prepare_items_nth [OF prepared len] have "k < length sources"
    and "items ! k = prepare_item op k (sources ! k) (row_destination (plan_rows plan ! k))" by auto
  with i k show "\<exists>s\<in>set sources. item_source (batch_items t ! i) = source_path s \<and>
         item_current (batch_items t ! i) = source_path s \<and>
         physical_id (batch_items t ! i) = stable_object_identity (source_revision s)"
    by (intro bexI [of _ "sources ! k"])
      (simp_all add: t new_transaction_def renumber_nth(2) prepare_item_def physical_id_def)
qed

text \<open>The sources of a new run are where the caller saw them.\<close>

lemma prepared_consistent:
  assumes prepared: "prepare_batch_transaction plan sources op = Inr t" and items: "batch_items t \<noteq> []"
    and seen: "\<forall>s\<in>set sources. has h (source_path s) (stable_object_identity (source_revision s))"
  shows "consistent (has h) (vacant h) t"
proof -
  have "tracked t"
    using prepare_batch_transaction_valid [OF prepared] items by (auto intro: valid_tracked)
  moreover have "at_rest (has h) t i" if "i < length (batch_items t)" for i
    using prepared_transaction(3) [OF prepared that] seen by (auto simp: at_rest_def)
  ultimately show ?thesis
    using prepared_transaction(2) [OF prepared] by (simp add: consistent_def)
qed

lemma run_journaled_good:
  assumes con: "consistent (has (service w)) (vacant (service w)) t" and disk: "disk_ok (journal w)"
    and run: "run_journaled serve t w = (res, w')"
    and ended: "run_status res \<in> {Run_success, Run_rolled_back}"
  shows "\<exists>w1. service w1 = service w \<and> good t w1 \<and> continue_transaction serve t w1 = (res, w')"
proof -
  obtain b1 w1 where stop1: "stop_requested w = (b1, w1)" by fastforce
  obtain b2 w2 where stop2: "stop_requested w1 = (b2, w2)" by fastforce
  obtain r w3 where persisted: "persist t w2 = (r, w3)" by fastforce
  have w2: "service w2 = service w" "journal w2 = journal w"
    using stop1 stop2 by (auto simp: stop_requested_def split: list.splits)
  note effect = persist_effect [OF persisted, unfolded w2, OF disk]
  note run' = run [unfolded run_journaled_def stop1 prod.case Let_def stop2 persisted]
  have cont: "r = None \<and> continue_transaction serve t w3 = (res, w')"
    using run' ended
    by (auto simp: stopped_result_def job_result_def split: if_splits option.splits)
  with effect(4) have "good t w3"
    using con recorded_recoverable [of t "journal w3"] by (simp add: good_def effect(1))
  with cont effect(1) show ?thesis by auto
qed

lemma run_new_places:
  assumes disk: "disk_ok (journal w)"
    and seen: "\<forall>s\<in>set sources. has (service w) (source_path s) (stable_object_identity (source_revision s))"
    and run: "run_new serve plan sources w = (res, w')"
  shows "run_status res = Run_success \<Longrightarrow> \<exists>op t. prepare_batch_transaction plan sources op = Inr t \<and>
      (\<forall>item\<in>set (batch_items t). has (service w') (item_destination item) (physical_id item))"
    "run_status res = Run_rolled_back \<Longrightarrow> \<exists>op t. prepare_batch_transaction plan sources op = Inr t \<and>
      (\<forall>item\<in>set (batch_items t). has (service w') (item_source item) (physical_id item))"
proof -
  obtain b w1 where stop: "stop_requested w = (b, w1)" by fastforce
  have w1: "service w1 = service w" "journal w1 = journal w"
    using stop by (auto simp: stop_requested_def split: list.splits)
  obtain loaded fs where read: "current_journal_read (fst (journal w1)) (snd (journal w1)) = (loaded, fs)"
    by fastforce
  let ?w = "w1\<lparr>journal := (fst (journal w1), fs)\<rparr>"
  obtain op w2 where op: "next_operation_id ?w = (op, w2)" by fastforce
  then have w2: "service w2 = service w" "journal w2 = (fst (journal w), fs)"
    using w1 by (auto simp: next_operation_id_def Let_def split: if_splits)
  with disk have disk2: "disk_ok (journal w2)" by (simp add: disk_ok_def)
  note run' = run [unfolded run_new_def stop prod.case Let_def read_journal_def read op]
  have started: "\<exists>t. prepare_batch_transaction plan sources op = Inr t \<and>
      (batch_items t \<noteq> [] \<longrightarrow> run_journaled serve t w2 = (res, w'))"
    if "run_status res \<in> {Run_success, Run_rolled_back}"
    using run' that
    by (auto simp: stopped_result_def job_result_def split: if_splits sum.splits option.splits)
  have items: "\<exists>t. prepare_batch_transaction plan sources op = Inr t \<and>
      (batch_items t = [] \<or> (\<exists>w3. good t w3 \<and> continue_transaction serve t w3 = (res, w')))"
    if status: "run_status res \<in> {Run_success, Run_rolled_back}"
  proof -
    from started [OF status] obtain t where t: "prepare_batch_transaction plan sources op = Inr t"
      and journaled: "batch_items t \<noteq> [] \<longrightarrow> run_journaled serve t w2 = (res, w')" by blast
    show ?thesis
    proof (cases "batch_items t = []")
      case False
      with prepared_consistent [OF t] seen w2
      have "consistent (has (service w2)) (vacant (service w2)) t" by simp
      from run_journaled_good [OF this disk2 _ status] journaled False t show ?thesis by blast
    qed (use t in blast)
  qed
  show "\<exists>op t. prepare_batch_transaction plan sources op = Inr t \<and>
      (\<forall>item\<in>set (batch_items t). has (service w') (item_destination item) (physical_id item))"
    if "run_status res = Run_success"
    using items that continue_transaction_places(1)
    by (fastforce simp: in_set_conv_nth)
  show "\<exists>op t. prepare_batch_transaction plan sources op = Inr t \<and>
      (\<forall>item\<in>set (batch_items t). has (service w') (item_source item) (physical_id item))"
    if "run_status res = Run_rolled_back"
    using items that continue_transaction_places(2)
    by (fastforce simp: in_set_conv_nth)
qed

text \<open>A process that finds one of the possible records goes on from a good state.\<close>

lemma resume_continues:
  assumes disk: "recoverable (has (service w)) (vacant (service w)) (journal w)"
    and read: "journal_read (fst (journal w)) (snd (journal w)) = (read_success source p, fs)"
    and view: "(Journal_success, p) \<in> disk_views (journal w)"
  shows "\<exists>t. batch_record t (Journal_success, p) \<and> consistent (has (service w)) (vacant (service w)) t \<and>
    (batch_utf8 t \<longrightarrow> good t (w\<lparr>journal := (fst (journal w), fs)\<rparr>) \<and>
       run_resume serve w = continue_transaction serve t (w\<lparr>journal := (fst (journal w), fs)\<rparr>))"
proof -
  let ?w = "w\<lparr>journal := (fst (journal w), fs)\<rparr>"
  from disk view obtain t where rec: "batch_record t (Journal_success, p)"
    and con: "consistent (has (service w)) (vacant (service w)) t"
    by (auto simp: recoverable_iff)
  then obtain payload where enc: "encode_batch_transaction t = Inr payload"
    and fits: "operation_payload_ok kind_batch_rename payload"
    and p: "p = encode_operation kind_batch_rename payload" by (auto simp: batch_record_iff)
  note opened = open_encode_operation [OF fits, of source, folded p]
  have current: "current_journal_read (fst (journal w)) (snd (journal w)) =
      (open_operation (read_success source p), fs)"
    by (simp add: current_journal_read_def read)
  from current_read_views [OF current] disk
  have "recoverable (has (service w)) (vacant (service w)) (journal ?w)"
    by (auto simp: recoverable_iff disk_ok_def)
  with con have "good t ?w" by (simp add: good_def)
  moreover have "run_resume serve w = continue_transaction serve t ?w" if "batch_utf8 t"
    using decode_encode_batch [OF enc that]
    by (simp add: run_resume_def read_journal_def current opened resume_loaded_def Let_def)
  ultimately show ?thesis using rec con by blast
qed

end

end
