(* ===== verification/Record_Properties.thy ===== *)
theory Record_Properties
  imports Batch_Record
begin

text \<open>
  What the journal and its records guarantee, from the checksum up to the batch record: envelopes,
  writes that a crash may interrupt, removal, typed records and the record of a batch rename.
\<close>

section \<open>Envelopes\<close>

text \<open>A header whose four fields read as they should is the header that the writer builds.\<close>

lemma envelope_header_eq:
  assumes "take 8 bytes = kEnvelopeMagic" "20 \<le> length bytes"
  shows "bytes = kEnvelopeMagic @ write_u32_le (read_u32_le bytes 8) @
    write_u32_le (read_u32_le bytes 12) @ write_u32_le (read_u32_le bytes 16) @ drop 20 bytes"
proof -
  note split = drop_u32 [of _ bytes]
  have "bytes = kEnvelopeMagic @ drop 8 bytes"
    using assms(1) by (metis append_take_drop_id)
  with split [of 8] split [of 12] split [of 16] assms(2) show ?thesis by simp
qed

text \<open>A journal file opens exactly when it is, byte for byte, the envelope that the writer makes
  of a payload within the limit of the store, and then it opens to that payload.\<close>

theorem open_envelope_iff:
  "open_envelope max_bytes bytes = Some payload \<longleftrightarrow>
     bytes = make_envelope payload \<and> length payload \<le> max_bytes \<and> length payload < 2 ^ 32"
proof
  assume opened: "open_envelope max_bytes bytes = Some payload"
  then have fields: "take 8 bytes = kEnvelopeMagic" "20 \<le> length bytes"
    "read_u32_le bytes 8 = kDurableJournalSchemaVersion"
    "unat (read_u32_le bytes 12) \<le> max_bytes"
    "length bytes = 20 + unat (read_u32_le bytes 12)"
    "crc32 (drop 20 bytes) = read_u32_le bytes 16" "payload = drop 20 bytes"
    by (auto simp: open_envelope_def Let_def kEnvelopeHeaderBytes_def split: if_splits)
  then have len: "length payload = unat (read_u32_le bytes 12)" by simp
  moreover have "unat (read_u32_le bytes 12) < 2 ^ 32"
    using unsigned_less [of "read_u32_le bytes 12"] by simp
  moreover have "bytes = make_envelope payload"
    using envelope_header_eq [OF fields(1,2)] fields(3,6,7) len
    by (simp add: make_envelope_def)
  ultimately show "bytes = make_envelope payload \<and> length payload \<le> max_bytes \<and>
      length payload < 2 ^ 32"
    using fields(4) by simp
qed (auto intro: open_make_envelope)

text \<open>Whatever single byte of a stored journal file is altered, header included, the file no
  longer opens.\<close>

lemma damaged_envelope_rejected:
  assumes "length payload < 2 ^ 32" "i < length (make_envelope payload)"
    and "v \<noteq> make_envelope payload ! i"
  shows "open_envelope max_bytes ((make_envelope payload)[i := v]) = None"
proof -
  let ?e = "make_envelope payload"
  have len: "length ?e = 20 + length payload"
    by (simp add: length_make_envelope kEnvelopeHeaderBytes_def)
  have size: "unat (word_of_nat (length payload) :: u32) = length payload"
    using assms(1) by (simp add: unat_of_nat take_bit_eq_mod)
  consider "i < 8" | "8 \<le> i" "i < 12" | "12 \<le> i" "i < 16" | "16 \<le> i" "i < 20" | "20 \<le> i"
    by linarith
  then show ?thesis
  proof cases
    case 1
    have "take 8 (?e[i := v]) = kEnvelopeMagic[i := v]"
      by (simp add: take_update_swap envelope_fields)
    moreover have "take 8 ?e ! i = ?e ! i"
      using 1 by (rule nth_take)
    then have "kEnvelopeMagic ! i = ?e ! i"
      by (simp only: envelope_fields)
    moreover have "i < length kEnvelopeMagic"
      using 1 by (simp add: kEnvelopeMagic_def)
    ultimately have "take 8 (?e[i := v]) \<noteq> kEnvelopeMagic"
      using assms(3) by (metis nth_list_update_eq)
    then show ?thesis by (simp add: open_envelope_def)
  next
    case 2
    then have "read_u32_le (?e[i := v]) 8 \<noteq> read_u32_le ?e 8"
      using read_u32_update_inj [of ?e i v 8] assms(3) len by auto
    then show ?thesis by (simp add: open_envelope_def envelope_fields)
  next
    case 3
    then have "read_u32_le (?e[i := v]) 12 \<noteq> read_u32_le ?e 12"
      using read_u32_update_inj [of ?e i v 12] assms(3) len by auto
    then have "unat (read_u32_le (?e[i := v]) 12) \<noteq> length payload"
      using size by (metis envelope_fields(3) word_unat_eq_iff)
    then show ?thesis
      by (auto simp: open_envelope_def Let_def len kEnvelopeHeaderBytes_def)
  next
    case 4
    then have "read_u32_le (?e[i := v]) 16 \<noteq> crc32 payload"
      using read_u32_update_inj [of ?e i v 16] assms(3) len by (auto simp: envelope_fields)
    moreover have "drop kEnvelopeHeaderBytes (?e[i := v]) = payload"
      using 4 by (simp add: drop_update_cancel kEnvelopeHeaderBytes_def
          envelope_fields(5) [unfolded kEnvelopeHeaderBytes_def])
    ultimately show ?thesis by (auto simp: open_envelope_def Let_def)
  next
    case 5
    then have drop: "drop kEnvelopeHeaderBytes (?e[i := v]) = payload[i - 20 := v]"
      by (simp add: drop_update_swap kEnvelopeHeaderBytes_def
          envelope_fields(5) [unfolded kEnvelopeHeaderBytes_def])
    have "payload ! (i - 20) = ?e ! i"
      using 5 assms(2) envelope_fields(5) [of payload] len
      by (metis kEnvelopeHeaderBytes_def le_add_diff_inverse length_make_envelope
          nth_drop trans_le_add1 le_add1)
    moreover have "i - 20 < length payload" using 5 assms(2) len by linarith
    ultimately have "crc32 (payload[i - 20 := v]) \<noteq> crc32 payload"
      using crc32_single_byte [of "i - 20" payload v] assms(3) by auto
    moreover have "read_u32_le (?e[i := v]) 16 = crc32 payload"
      using 5 len assms(2) by (simp add: read_u32_update envelope_fields)
    ultimately show ?thesis by (auto simp: open_envelope_def Let_def drop)
  qed
qed

lemma damaged_envelope_rejected_witness:
  "open_envelope 16 ((make_envelope [1, 2, 3])[21 := 9]) = None"
proof -
  have "make_envelope [1, 2, 3] ! 21 = 2"
    using arg_cong [OF envelope_fields(5) [of "[1, 2, 3]"], of "\<lambda>xs. xs ! 1"]
    by (simp add: kEnvelopeHeaderBytes_def length_make_envelope)
  then show ?thesis
    by (intro damaged_envelope_rejected) (simp_all add: length_make_envelope kEnvelopeHeaderBytes_def)
qed

text \<open>A journal file of which any part is missing at the end does not open.\<close>

lemma truncated_envelope_rejected:
  assumes "length payload < 2 ^ 32" "n < length (make_envelope payload)"
  shows "open_envelope max_bytes (take n (make_envelope payload)) = None"
proof (cases "n < kEnvelopeHeaderBytes")
  case True
  then have "length (take n (make_envelope payload)) < kEnvelopeHeaderBytes" by simp
  then show ?thesis unfolding open_envelope_def by (simp only: simp_thms if_True)
next
  case False
  then have n: "20 \<le> n" by (simp add: kEnvelopeHeaderBytes_def)
  have "read_u32_le (take n (make_envelope payload)) 12 = word_of_nat (length payload)"
    using n envelope_fields(3) [of payload] by (simp add: read_u32_le_def)
  moreover have "unat (word_of_nat (length payload) :: u32) = length payload"
    using assms(1) by (simp add: unat_of_nat take_bit_eq_mod)
  ultimately show ?thesis
    using assms(2) by (auto simp: open_envelope_def Let_def length_make_envelope)
qed

lemma truncated_envelope_rejected_witness:
  "open_envelope 16 (take 21 (make_envelope [1, 2, 3])) = None"
  by (rule truncated_envelope_rejected) (simp_all add: length_make_envelope kEnvelopeHeaderBytes_def)

section \<open>Writes\<close>

text \<open>C4: Whatever system calls fail during a write, and wherever the machine stops in it, the next
  process reads one of the records readable before, or the record being written; when the write
  reports success, the new record is what it reads, and a power cut would not undo it.\<close>

theorem journal_write_crash_safe:
  assumes "DurableJournalStore_new p limit = Some store"
    and "journal_write store payload fs = (r, fs')"
  shows "{recovered_record store (live fs'), recovered_record store (durable fs')} \<subseteq>
      {recovered_record store (live fs), recovered_record store (durable fs),
       (Journal_success, payload)} \<and>
    (journal_status r = Journal_success \<longrightarrow> \<not> crashed fs' \<and> durable fs' = live fs' \<and>
       recovered_record store (live fs') = (Journal_success, payload))"
proof -
  let ?A = "{recovered_record store (live fs), recovered_record store (durable fs),
       (Journal_success, payload)}"
  have "maximum_payload_bytes store \<le> kAbsoluteMaximumDurableJournalPayloadBytes"
    using assms(1) by (auto simp: DurableJournalStore_new_def split: if_splits)
  moreover have "safe store ?A fs" by (simp add: safe_def)
  ultimately show ?thesis
    using journal_write_outcome [OF well_placed_new [OF assms(1)] _ _ _ assms(2), of ?A]
    by (auto simp: safe_def dest: recovered_record_success)
qed

text \<open>A disk on which no call fails.\<close>

definition smooth :: "file_system \<Rightarrow> bool" where
  "smooth fs \<longleftrightarrow> \<not> crashed fs \<and> script fs = []"

lemma smooth_event [simp]: "smooth fs \<Longrightarrow> next_event fs = (Proceed, fs)"
  by (simp add: smooth_def next_event_def)

lemma smooth_updates [simp]: "smooth fs \<Longrightarrow> smooth (fs\<lparr>live := m\<rparr>)" "smooth fs \<Longrightarrow> smooth (fs\<lparr>durable := m\<rparr>)"
  by (simp_all add: smooth_def)

lemma smooth_inspect [simp]: "smooth fs \<Longrightarrow> inspect p limit fs = (verdict_of limit (live fs p), fs)"
  by (simp add: inspect_def read_file_bytes_def verdict_of_def split: option.splits node.splits)

lemma smooth_discard:
  "smooth fs \<Longrightarrow> live fs p \<noteq> Some Directory \<Longrightarrow>
     discard_temporary p fs = fs\<lparr>live := (live fs)(p := None)\<rparr>"
  by (auto simp: discard_temporary_def remove_path_def fun_upd_idem split: option.splits node.splits)

lemma smooth_calls:
  "smooth fs \<Longrightarrow> live fs p = None \<Longrightarrow>
     write_file_durably p bytes fs = (None, fs\<lparr>live := (live fs)(p \<mapsto> Regular bytes)\<rparr>)"
  "smooth fs \<Longrightarrow> live fs source = Some node \<Longrightarrow>
     replace_path_durably source destination fs =
       (None, fs\<lparr>live := (live fs)(source := None, destination \<mapsto> node)\<rparr>)"
  "smooth fs \<Longrightarrow> sync_parent_directory p fs = (None, fs\<lparr>durable := live fs\<rparr>)"
  by (simp_all add: write_file_durably_def replace_path_durably_def sync_parent_directory_def)

lemma verdict_Missing: "verdict_of limit n = Missing \<longleftrightarrow> n = None"
  by (auto simp: verdict_of_def split: option.splits node.splits)

lemma verdict_no_error: "verdict_of limit n \<noteq> Inspection_io_error e"
  by (simp add: verdict_of_def split: option.splits node.splits)

lemma journal_write_smooth:
  assumes "DurableJournalStore_new p limit = Some store" and "smooth fs"
    and "length payload \<le> limit"
    and "live fs (removal_claim_path (primary_path store)) = None"
    and "live fs (removal_claim_path (previous_path store)) = None"
    and "live fs (temporary_path store) \<noteq> Some Directory"
  shows "fst (journal_write store payload fs) = journal_ok"
proof -
  from assms(1) have limit: "maximum_payload_bytes store = limit"
    by (auto simp: DurableJournalStore_new_def split: if_splits)
  note distinct = record_paths_distinct [OF well_placed_new [OF assms(1)]]
  have claims: "refuse_claims [primary_path store, previous_path store] limit fs = (None, fs)"
    using assms(2,4,5) by (simp add: verdict_of_def)
  note steps = journal_write_def limit claims smooth_discard smooth_calls publish_temporary_def
    retire_primary_def Let_def
  show ?thesis
  proof (cases "live fs (primary_path store)")
    case None
    with assms(2,3,6) distinct(1) show ?thesis
      by (simp add: steps verdict_of_def del: refuse_claims.simps)
  next
    case (Some node)
    then show ?thesis
      using assms(2,3,6) distinct
      by (cases "verdict_of limit (Some node)")
        (simp_all add: steps verdict_Missing verdict_no_error del: refuse_claims.simps)
  qed
qed

text \<open>When no call fails, no removal is under way and no directory occupies the name of the
  temporary file, every payload within the limit is written, replacing whatever record was there,
  a damaged one included.\<close>

theorem journal_write_succeeds:
  assumes "DurableJournalStore_new p limit = Some store" and "\<not> crashed fs" and "script fs = []"
    and "length payload \<le> limit"
    and "live fs (removal_claim_path (primary_path store)) = None"
    and "live fs (removal_claim_path (previous_path store)) = None"
    and "live fs (temporary_path store) \<noteq> Some Directory"
  shows "fst (journal_write store payload fs) = journal_ok"
  using assms by (intro journal_write_smooth) (simp_all add: smooth_def)

text \<open>A store over a disk with one record.\<close>

definition example_store :: DurableJournalStore where
  "example_store = \<lparr>primary_path = ''/j'', previous_path = ''/j.previous'',
     temporary_path = ''/j.temporary'', maximum_payload_bytes = 16\<rparr>"

definition example_disk :: "event list \<Rightarrow> file_system" where
  "example_disk events =
     \<lparr>live = [''/j'' \<mapsto> Regular (make_envelope [1, 2])],
      durable = [''/j'' \<mapsto> Regular (make_envelope [1, 2])], script = events, crashed = False\<rparr>"

lemma example_store_new: "DurableJournalStore_new ''/j'' 16 = Some example_store"
  by (simp add: DurableJournalStore_new_def example_store_def
      kAbsoluteMaximumDurableJournalPayloadBytes_def)

lemma journal_write_succeeds_witness:
  "fst (journal_write example_store [3] (example_disk [])) = journal_ok"
  by (rule journal_write_succeeds [OF example_store_new])
    (simp_all add: smooth_def example_disk_def example_store_def removal_claim_path_eq)

lemma journal_write_crash_safe_witness:
  "let fs' = snd (journal_write example_store [3] (example_disk []))
   in recovered_record example_store (live fs') = (Journal_success, [3]) \<and> durable fs' = live fs'"
proof -
  let ?run = "journal_write example_store [3] (example_disk [])"
  have smooth: "smooth (example_disk [])" by (simp add: smooth_def example_disk_def)
  have start: "live (example_disk []) = [''/j'' \<mapsto> Regular (make_envelope [1, 2])]"
    by (simp add: example_disk_def)
  have "verdict_of 16 (live (example_disk []) ''/j'') = Valid [1, 2]"
    by (simp add: start verdict_of_def open_make_envelope length_make_envelope
        maximum_envelope_bytes_def)
  with smooth have "journal_status (fst ?run) = Journal_success"
    by (simp add: journal_write_def example_store_def smooth_discard smooth_calls
        removal_claim_path_eq start verdict_Missing publish_temporary_def retire_primary_def
        journal_ok_def verdict_of_def)
  with journal_write_crash_safe [OF example_store_new prod.collapse [of ?run, symmetric]]
  show ?thesis by (simp add: Let_def)
qed

section \<open>Removal\<close>

text \<open>A script in which no call claims that an existing file does not exist.\<close>

definition honest :: "file_system \<Rightarrow> bool" where
  "honest fs \<longleftrightarrow> (\<forall>n. Refuse ENOENT n \<notin> set (script fs))"

lemma honest_event: "next_event fs = (e, fs') \<Longrightarrow> honest fs \<Longrightarrow> honest fs' \<and> e \<noteq> Refuse ENOENT n"
  by (auto simp: next_event_def honest_def ENOENT_def EIO_def split: if_splits list.splits)

definition gone :: "path \<Rightarrow> file_system \<Rightarrow> RemovePathResult \<times> file_system \<Rightarrow> bool" where
  "gone p fs m \<longleftrightarrow> honest (snd m) \<and>
     (remove_error (fst m) = None \<longrightarrow>
        live (snd m) = (live fs)(p := None) \<and> (removed (fst m) \<or> live (snd m) = live fs))"

lemma remove_path_gone: "honest fs \<Longrightarrow> gone p fs (remove_path p fs)"
proof -
  assume "honest fs"
  obtain e fs1 where event: "next_event fs = (e, fs1)" by fastforce
  from next_event_steady [OF event] have "live fs1 = live fs" by (simp add: steady_def)
  with event honest_event [OF event \<open>honest fs\<close>] show ?thesis
    by (cases e) (auto simp: gone_def remove_path_def fun_upd_idem honest_def stop_machine_def
        split: option.splits node.splits)
qed

lemma remove_staging_gone:
  "honest fs \<Longrightarrow> gone (removal_staging_path p) fs (remove_empty_removal_staging p fs)"
proof -
  assume "honest fs"
  obtain e fs1 where event: "next_event fs = (e, fs1)" by fastforce
  from next_event_steady [OF event] have "live fs1 = live fs" by (simp add: steady_def)
  with event honest_event [OF event \<open>honest fs\<close>] show ?thesis
    by (cases e) (auto simp: gone_def remove_empty_removal_staging_def fun_upd_idem honest_def
        stop_machine_def Let_def split: option.splits node.splits)
qed

lemma first_error_None [simp]: "first_error a b = None \<longleftrightarrow> a = None \<and> b = None"
  by (cases a) (simp_all add: first_error_def)

text \<open>A part of the removal that ends without an error has removed the files \<open>A\<close>, and says so if
  there was any.\<close>

definition cleared ::
  "path set \<Rightarrow> file_system \<Rightarrow> bool \<Rightarrow> error_code \<Rightarrow> bool \<times> error_code \<times> file_system \<Rightarrow> bool"
where
  "cleared A fs any e m \<longleftrightarrow>
     (let (any', e', fs') = m in
      honest fs' \<and> (e' = None \<longrightarrow> e = None \<and> (any \<longrightarrow> any') \<and> (any' \<or> live fs' = live fs) \<and>
        (\<forall>q. live fs' q = None \<or> q \<notin> A \<and> live fs' q = live fs q)))"

lemma cleared_trans:
  assumes "cleared A fs any e (any1, e1, fs1)" "cleared B fs1 any1 e1 m"
  shows "cleared (A \<union> B) fs any e m"
proof (cases m)
  case (fields any' e' fs')
  show ?thesis
  proof (cases "e' = None")
    case True
    with assms fields have parts: "any \<longrightarrow> any1" "any1 \<longrightarrow> any'" "any1 \<or> live fs1 = live fs"
      "any' \<or> live fs' = live fs1" "honest fs'" "e = None"
      and at: "\<And>q. live fs1 q = None \<or> q \<notin> A \<and> live fs1 q = live fs q"
      "\<And>q. live fs' q = None \<or> q \<notin> B \<and> live fs' q = live fs1 q"
      by (simp_all add: cleared_def)
    have "live fs' q = None \<or> q \<notin> A \<union> B \<and> live fs' q = live fs q" for q
      using at [of q] by auto
    with parts fields True show ?thesis by (auto simp: cleared_def)
  qed (use assms fields in \<open>auto simp: cleared_def\<close>)
qed

lemma gone_cleared:
  "gone p fs (r, fs1) \<Longrightarrow> cleared {p} fs any e (any \<or> removed r, first_error e (remove_error r), fs1)"
  by (auto simp: cleared_def gone_def)

lemma cleared_honest: "cleared A fs any e (any', e', fs') \<Longrightarrow> honest fs'"
  by (simp add: cleared_def)

lemma remove_paths_cleared: "honest fs \<Longrightarrow> cleared (set ps) fs any e (remove_paths ps any e fs)"
proof (induction ps arbitrary: any e fs)
  case (Cons p ps)
  obtain r fs1 where one: "remove_path p fs = (r, fs1)" by fastforce
  with remove_path_gone [OF Cons.prems, of p]
  have step: "cleared {p} fs any e (any \<or> removed r, first_error e (remove_error r), fs1)"
    by (intro gone_cleared) simp
  from cleared_trans [OF step Cons.IH [OF cleared_honest [OF step]]] one show ?case by simp
qed (simp add: cleared_def)

lemma remove_claims_cleared:
  "honest fs \<Longrightarrow> cleared (removal_claim_path ` set ps \<union> removal_staging_path ` set ps) fs any e
     (remove_claims ps any e fs)"
proof (induction ps arbitrary: any e fs)
  case (Cons p ps)
  obtain r fs1 where one: "remove_path (removal_claim_path p) fs = (r, fs1)" by fastforce
  with remove_path_gone [OF Cons.prems, of "removal_claim_path p"]
  have step1: "cleared {removal_claim_path p} fs any e
      (any \<or> removed r, first_error e (remove_error r), fs1)"
    by (intro gone_cleared) simp
  obtain s fs2 where two: "remove_empty_removal_staging p fs1 = (s, fs2)" by fastforce
  with remove_staging_gone [OF cleared_honest [OF step1], of p]
  have "cleared {removal_staging_path p} fs1 (any \<or> removed r) (first_error e (remove_error r))
      ((any \<or> removed r) \<or> removed s, first_error (first_error e (remove_error r)) (remove_error s), fs2)"
    by (intro gone_cleared) simp
  note step = cleared_trans [OF step1 this]
  from cleared_trans [OF step Cons.IH [OF cleared_honest [OF step]]] one two show ?case
    by (simp add: insert_commute Un_commute)
qed (simp add: cleared_def)

text \<open>When \<open>remove\<close> reports success, the next process finds no record at all; and unless there
  was nothing to remove, a power cut would not bring one back.\<close>

theorem journal_remove_success:
  assumes "honest fs" "journal_remove store fs = (r, fs')" "journal_status r = Journal_success"
  shows "recovered_record store (live fs') = (Journal_not_found, []) \<and>
    (durable fs' = live fs' \<or> live fs' = live fs)"
proof -
  obtain any1 e1 fs1 where one:
    "remove_paths [primary_path store, previous_path store, temporary_path store] False None fs =
       (any1, e1, fs1)" by (metis prod.exhaust)
  obtain any2 e2 fs2 where two:
    "remove_claims [primary_path store, previous_path store] any1 e1 fs1 = (any2, e2, fs2)"
    by (metis prod.exhaust)
  let ?records = "[primary_path store, previous_path store, temporary_path store]"
  note first = remove_paths_cleared [OF assms(1), of ?records False None, unfolded one]
  note second = remove_claims_cleared [OF cleared_honest [OF first],
      of "[primary_path store, previous_path store]" any1 e1, unfolded two]
  note cleared = cleared_trans [OF first second]
  obtain e3 fs3 where three: "sync_parent_directory (primary_path store) fs2 = (e3, fs3)" by fastforce
  have "e2 = None" and tail: "any2 \<and> e3 = None \<and> fs' = fs3 \<or> \<not> any2 \<and> fs' = fs2"
    using assms(2,3) one two three
    by (auto simp: journal_remove_def io_failure_def split: if_splits option.splits)
  with cleared have none: "live fs2 (primary_path store) = None" "live fs2 (previous_path store) = None"
    "live fs2 (removal_claim_path (primary_path store)) = None"
    "live fs2 (removal_claim_path (previous_path store)) = None"
    and same: "any2 \<or> live fs2 = live fs"
    unfolding cleared_def by auto
  have "live fs3 = live fs2 \<and> durable fs3 = live fs2" if "e3 = None"
    using three next_event_steady [of fs2] that
    by (fastforce simp: sync_parent_directory_def steady_def split: prod.splits event.splits)
  with tail same have live: "live fs' = live fs2" and "durable fs' = live fs' \<or> live fs' = live fs"
    by auto
  moreover have "recovered_record store (live fs2) = (Journal_not_found, [])"
    by (simp add: recovered_record_def recovered_unfold claim_verdict_def none verdict_of_def
        read_verdict_def read_failure_def)
  ultimately show ?thesis by simp
qed

lemma journal_remove_success_witness:
  "recovered_record example_store (live (snd (journal_remove example_store (example_disk [])))) =
     (Journal_not_found, [])"
proof -
  let ?run = "journal_remove example_store (example_disk [])"
  have "journal_status (fst ?run) = Journal_success"
    by (simp add: journal_remove_def example_store_def example_disk_def next_event_def
        remove_path_def remove_empty_removal_staging_def sync_parent_directory_def journal_ok_def
        removal_claim_path_eq removal_staging_path_def first_error_def)
  with journal_remove_success [OF _ prod.collapse [of ?run, symmetric]] show ?thesis
    by (simp add: honest_def example_disk_def)
qed

text \<open>A removal whose directory could not be synchronised reports an I/O error; repeated, it finds
  nothing left to remove, does not synchronise the directory and reports success, though a power cut
  still brings the record back.\<close>

theorem removal_retry_not_durable:
  "let (first, fs) = journal_remove example_store (example_disk
         [Proceed, Proceed, Proceed, Proceed, Proceed, Proceed, Proceed, Refuse EIO 0]);
       (second, fs) = journal_remove example_store fs in
   journal_status first = Journal_io_error \<and> journal_status second = Journal_success \<and>
   recovered_record example_store (durable fs) = (Journal_success, [1, 2])"
  by (simp add: journal_remove_def example_store_def example_disk_def next_event_def
      remove_path_def remove_empty_removal_staging_def sync_parent_directory_def journal_ok_def
      removal_claim_path_eq removal_staging_path_def first_error_def io_failure_def
      recovered_record_def recovered_unfold verdict_of_def maximum_envelope_bytes_def
      length_make_envelope open_make_envelope kEnvelopeHeaderBytes_def read_success_def)


section \<open>Reading\<close>

text \<open>Reading is not stable under a passing failure: when the file of the newest record cannot be
  read once, the record before it is returned, as a success.\<close>

theorem read_falls_back_to_older_record:
  "let store = example_store; disk = snd (journal_write store [3] (example_disk [])) in
   recovered_record store (live disk) = (Journal_success, [3]) \<and>
   fst (journal_read store (disk\<lparr>script := [Refuse EIO 0]\<rparr>)) = read_success From_previous [1, 2]"
proof -
  let ?old = "[''/j'' \<mapsto> Regular (make_envelope [1, 2])] :: path \<rightharpoonup> node"
  let ?new = "[''/j.previous'' \<mapsto> Regular (make_envelope [1, 2]),
    ''/j'' \<mapsto> Regular (make_envelope [3])] :: path \<rightharpoonup> node"
  have smooth: "smooth (example_disk [])" and start: "live (example_disk []) = ?old"
    by (simp_all add: smooth_def example_disk_def)
  have opens: "verdict_of 16 (Some (Regular (make_envelope [1, 2]))) = Valid [1, 2]"
    "verdict_of 16 (Some (Regular (make_envelope [3]))) = Valid [3]" "verdict_of 16 None = Missing"
    by (simp_all add: verdict_of_def open_make_envelope length_make_envelope maximum_envelope_bytes_def)
  define disk where "disk = snd (journal_write example_store [3] (example_disk []))"
  have disk: "live disk = ?new" "smooth disk"
    using smooth
    by (auto simp: disk_def journal_write_def example_store_def smooth_discard smooth_calls start
        removal_claim_path_eq publish_temporary_def retire_primary_def opens)
  then have "recovered_record example_store (live disk) = (Journal_success, [3])"
    by (simp add: recovered_record_def recovered_unfold example_store_def opens read_success_def)
  moreover have "smooth (disk\<lparr>script := []\<rparr>)" using disk(2) by (simp add: smooth_def)
  moreover from disk(2) have "inspect ''/j'' 16 (disk\<lparr>script := [Refuse EIO 0]\<rparr>) =
      (Inspection_io_error EIO, disk\<lparr>script := []\<rparr>)"
    by (simp add: inspect_def read_file_bytes_def next_event_def smooth_def)
  ultimately show ?thesis
    unfolding Let_def disk_def [symmetric]
    by (simp add: journal_read_def example_store_def inspect_claim_def opens disk(1))
qed

section \<open>Typed records\<close>

text \<open>The journal of the current operation reports a typed record of a kind with a payload exactly
  when the stored bytes are what the encoder writes for them; every other stored record is reported
  as damaged, or as one of the untyped format.\<close>

theorem typed_record_iff:
  "(let r = open_operation (read_success source bytes) in
    current_encoding r = Typed \<and> current_kind r = kind \<and> current_payload r = payload) \<longleftrightarrow>
   bytes = encode_operation kind payload \<and> operation_payload_ok kind payload"
proof
  assume "let r = open_operation (read_success source bytes) in
    current_encoding r = Typed \<and> current_kind r = kind \<and> current_payload r = payload"
  with open_operation_typed [of "read_success source bytes"]
  show "bytes = encode_operation kind payload \<and> operation_payload_ok kind payload"
    by (auto simp: Let_def read_success_def)
next
  assume "bytes = encode_operation kind payload \<and> operation_payload_ok kind payload"
  with open_encode_operation [of kind payload source]
  show "let r = open_operation (read_success source bytes) in
    current_encoding r = Typed \<and> current_kind r = kind \<and> current_payload r = payload"
    by simp
qed

text \<open>C11: Once a record of the current operation has been written with success, no sequence of later
  writes, however they are interrupted, makes an older record readable again: the next process finds
  that record or one of the later ones.\<close>

theorem current_journal_never_goes_back:
  assumes "disk_ok d" and "fst (current_put kind payload d)"
  shows "disk_views (snd (record_store.put_all (current_put kind) later (snd (current_put kind payload d))))
    \<subseteq> (\<lambda>p. (Journal_success, encode_operation kind p)) ` set (payload # later)"
  using assms by (rule current.put_then_views)

lemma current_journal_never_goes_back_witness:
  "let d = (example_store\<lparr>maximum_payload_bytes := 64\<rparr>, example_disk []) in
   disk_views (snd (record_store.put_all (current_put 1) [[8], [9]] (snd (current_put 1 [7] d))))
     \<subseteq> (\<lambda>p. (Journal_success, encode_operation 1 p)) ` set [[7], [8], [9]]"
proof -
  let ?store = "example_store\<lparr>maximum_payload_bytes := 64\<rparr>"
  let ?d = "(?store, example_disk [])"
  have "DurableJournalStore_new ''/j'' 64 = Some ?store"
    by (simp add: DurableJournalStore_new_def example_store_def
        kAbsoluteMaximumDurableJournalPayloadBytes_def)
  then have "fst (journal_write ?store (encode_operation 1 [7]) (example_disk [])) = journal_ok"
    by (rule journal_write_smooth)
      (simp_all add: smooth_def example_disk_def example_store_def removal_claim_path_eq
        length_encode_operation kCurrentOperationJournalHeaderBytes_def)
  then have "fst (current_put 1 [7] ?d)"
    by (simp add: current_put_cases operation_payload_ok_def disk_put_def journal_ok_def split_beta
        Let_def kMaximumCurrentOperationPayloadBytes_def kMaximumDurableJournalPayloadBytes_def
        kCurrentOperationJournalHeaderBytes_def)
  from current_journal_never_goes_back [OF _ this, of "[[8], [9]]"] show ?thesis
    by (simp add: disk_ok_def well_placed_def example_store_def Let_def
        kAbsoluteMaximumDurableJournalPayloadBytes_def)
qed

section \<open>The record of a batch rename\<close>

text \<open>What the encoder of a batch transaction writes, the decoder reads back unchanged.\<close>

theorem batch_record_roundtrip:
  assumes "encode_batch_transaction t = Inr bytes" and "batch_utf8 t"
  shows "decode_batch_transaction bytes = Inr t"
  using assms by (rule decode_encode_batch)

definition example_item :: BatchTransactionItem where
  "example_item =
     \<lparr>item_source = ''/d/a'', item_temporary = path_append ''/d'' (temporary_leaf 1 0),
      item_destination = ''/d/b'', item_current = ''/d/a'',
      item_snapshot = \<lparr>size_bytes = 2, modified_unix_ns = 4, source_revision_utf8 = ''posix:1:2:3''\<rparr>,
      item_location = At_source, item_kind = Regular_file\<rparr>"

definition example_transaction :: BatchRenameTransaction where
  "example_transaction = new_transaction 1 [example_item]"

lemma example_transaction_valid: "valid_batch_transaction example_transaction = Inr ()"
  by code_simp

lemma example_transaction_utf8: "batch_utf8 example_transaction"
  by code_simp

lemma length_enc_header [simp]: "length (enc_header t) = 32 + length (failure_detail t)"
  by (simp add: enc_header_def)

lemma example_transaction_encodes:
  "encode_batch_transaction example_transaction = Inr (batch_payload example_transaction)"
proof -
  have temporary: "item_temporary example_item = ''/d/.vove-1-0.tmp''" by code_simp
  then have "batch_strings_fit example_transaction"
    by (simp add: batch_strings_fit_def example_transaction_def new_transaction_def
        item_strings_fit_def string_fits_def) (simp add: example_item_def)
  moreover from temporary have "length (batch_payload example_transaction) \<le> maximumPayloadBytes"
    by (simp add: batch_payload_def enc_item_def maximumPayloadBytes_def example_transaction_def
        new_transaction_def) (simp add: example_item_def)
  ultimately show ?thesis
    by (simp add: encode_batch_transaction_def example_transaction_valid not_less)
qed

lemma batch_record_roundtrip_witness:
  "decode_batch_transaction (batch_payload example_transaction) = Inr example_transaction"
  by (rule batch_record_roundtrip [OF example_transaction_encodes example_transaction_utf8])

text \<open>C13: The decoder accepts only valid transactions, and only the bytes that the layout gives them:
  anything it accepts is the payload of the transaction it returns, up to the version number, which
  it raises to the current one.\<close>

theorem batch_record_canonical:
  assumes "decode_batch_transaction bytes = Inr t"
  shows "valid_batch_transaction t = Inr () \<and> batch_utf8 t \<and>
    (\<exists>version\<in>{2, kBatchRenameTransactionVersion}. bytes = batch_payload (t\<lparr>batch_version := version\<rparr>))"
proof -
  note dec = decode_batch_InrD [OF assms]
  from dec(3) obtain stored where stored: "batch_encodable stored" "bytes = batch_payload stored"
    "t = stored\<lparr>batch_version := kBatchRenameTransactionVersion\<rparr>" by blast
  then have "t\<lparr>batch_version := batch_version stored\<rparr> = stored" by simp
  with stored have "\<exists>version\<in>{2, kBatchRenameTransactionVersion}.
      bytes = batch_payload (t\<lparr>batch_version := version\<rparr>)"
    by (metis batch_encodable_def insertCI)
  with dec(1,2) show ?thesis by blast
qed

lemma batch_record_canonical_witness:
  "\<exists>version\<in>{2, kBatchRenameTransactionVersion}.
     batch_payload example_transaction = batch_payload (example_transaction\<lparr>batch_version := version\<rparr>)"
  using batch_record_canonical
    [OF decode_encode_batch [OF example_transaction_encodes example_transaction_utf8]] by blast

text \<open>A batch record cut short is never mistaken for a shorter one: the decoder refuses every
  proper prefix of what the encoder wrote.\<close>

lemma truncated_batch_rejected:
  assumes "encode_batch_transaction t = Inr bytes" "batch_utf8 t" "n < length bytes"
  shows "\<exists>e. decode_batch_transaction (take n bytes) = Inl e"
proof (cases "decode_batch_transaction (take n bytes)")
  case (Inr t')
  then obtain stored where stored: "batch_encodable stored" "take n bytes = batch_payload stored"
    using decode_batch_InrD(3) by blast
  note enc = encode_batch_InrD [OF assms(1)]
  have "batch_encodable t"
    using valid_batch_encodable [OF enc(1,3)] assms(2) by (simp add: batch_utf8_def)
  then have "dec_batch bytes = Inr (t, [])"
    using dec_batch_payload [of t "[]"] enc(2) by simp
  moreover have "dec_batch bytes = Inr (stored, drop n bytes)"
    using dec_batch_payload [OF stored(1), of "drop n bytes"] stored(2)
    by (metis append_take_drop_id)
  ultimately show ?thesis using assms(3) by simp
qed simp

lemma truncated_batch_rejected_witness:
  "\<exists>e. decode_batch_transaction (take 40 (batch_payload example_transaction)) = Inl e"
  by (rule truncated_batch_rejected [OF example_transaction_encodes example_transaction_utf8])
    (simp add: batch_payload_def example_transaction_def new_transaction_def enc_item_def)

end
