(* ===== verification/Rename_Properties.thy ===== *)
theory Rename_Properties
  imports Operation_Service
begin

text \<open>
  What requests, the executor of a rename and the service around it guarantee: which requests are
  let through, when two revisions are of one object, what a result proves about the volume, and
  that nothing stands in the way of a rename on a volume that answers every call.
\<close>

section \<open>Requests\<close>

text \<open>A rename request that passes validation names two different absolute UTF-8 paths and a
  portable destination name; an ordinary rename stays in its directory and does not take one of the
  reserved names, and one that must keep the extension of a file keeps it.\<close>

theorem accepted_rename_request:
  assumes "valid_rename_request r = Inr ()"
  shows "rename_operation_id r \<noteq> 0 \<and>
    is_absolute (rename_source r) \<and> is_absolute (rename_destination r) \<and>
    valid_utf8 (rename_source r) \<and> valid_utf8 (rename_destination r) \<and>
    \<not> path_eq (rename_source r) (rename_destination r) \<and>
    valid_destination_filename (filename (rename_destination r)) = Inr () \<and>
    stable_object_identity (source_revision_utf8 (rename_expected_source r)) \<noteq> [] \<and>
    (rename_mode r \<in> {Single_preserve_extension, Single_allow_extension_change, Batch_internal} \<longrightarrow>
       same_parent r) \<and>
    (rename_mode r \<in> {Single_preserve_extension, Single_allow_extension_change} \<longrightarrow>
       \<not> is_internal_filename (filename (rename_destination r))) \<and>
    (rename_mode r = Single_preserve_extension \<and> rename_object_kind r = Regular_file \<longrightarrow>
       extension (rename_source r) = extension (rename_destination r))"
  using valid_rename_requestD [OF assms] by (auto simp: single_mode_def)

definition example_rename :: RenameRequest where
  "example_rename =
     \<lparr>rename_operation_id = 7, rename_action = Execute, rename_mode = Single_preserve_extension,
      rename_object_kind = Regular_file, rename_source = ''/d/a.c'', rename_destination = ''/d/b.c'',
      rename_expected_source = \<lparr>size_bytes = 2, modified_unix_ns = 4,
        source_revision_utf8 = ''posix:1:5:6''\<rparr>,
      rename_source_parent_identity = [], rename_destination_parent_identity = [],
      rename_anchor_path = [], rename_anchor_identity = [],
      rename_expected_destination = empty_snapshot, rename_security_baseline = []\<rparr>"

lemma example_rename_valid: "valid_rename_request example_rename = Inr ()"
  by code_simp

lemma accepted_rename_request_witness: "extension (rename_source example_rename) = ''.c'' \<and>
    extension (rename_destination example_rename) = ''.c''"
  using accepted_rename_request [OF example_rename_valid] by (simp add: example_rename_def) code_simp

text \<open>Only the two replacing modes may name an object they are allowed to overwrite, and that
  object is never the source itself.\<close>

lemma valid_rename_replacement:
  assumes "valid_rename_request r = Inr ()"
  shows "(source_revision_utf8 (rename_expected_destination r) \<noteq> [] \<longleftrightarrow>
            rename_mode r \<in> {Transfer_publish_replace, Transfer_atomic_replace}) \<and>
    (rename_mode r \<in> {Transfer_publish_replace, Transfer_atomic_replace} \<longrightarrow>
       \<not> same_object_identity (source_revision_utf8 (rename_expected_source r))
           (source_revision_utf8 (rename_expected_destination r)))"
proof -
  have "\<not> bad_replacement r"
    using assms by (simp add: valid_rename_request_def outcome_simps Let_def)
  then show ?thesis by (auto simp: bad_replacement_def rename_replacement_def Let_def)
qed

lemma valid_rename_replacement_witness:
  "source_revision_utf8 (rename_expected_destination example_rename) = []"
  using valid_rename_replacement [OF example_rename_valid] by (simp add: example_rename_def)

text \<open>A delete request that passes validation names an absolute UTF-8 path; a directory is deleted
  by a purge only, a purge only reaches an item of the trash or something inside one, and the commit
  of a transfer only removes a staged source whose copy is guarded by a stable identity.\<close>

theorem accepted_delete_request:
  assumes "valid_delete_request r = Inr ()"
  shows "delete_operation_id r \<noteq> 0 \<and> is_absolute (delete_source r) \<and> valid_utf8 (delete_source r) \<and>
    (delete_object_kind r = Directory_object \<longrightarrow> delete_mode r = Trash_purge) \<and>
    (delete_mode r = Trash_purge \<longrightarrow>
       (\<exists>n. is_trash_item ((parent_path ^^ n) (lexically_normal (delete_source r))))) \<and>
    (delete_mode r = Transfer_source_commit \<longrightarrow>
       transfer_source_name (delete_source r) \<and>
       stable_object_identity (source_revision_utf8 (delete_expected_guard r)) \<noteq> [])"
proof -
  note checks = assms [unfolded valid_delete_request_def Let_def outcome_simps]
  have "delete_operation_id r \<noteq> 0" "is_absolute (delete_source r)"
    "valid_utf8 (delete_source r)"
    "delete_object_kind r = Directory_object \<Longrightarrow> delete_mode r = Trash_purge"
    using checks by (auto simp: mode_defs)
  moreover have "\<exists>n. is_trash_item ((parent_path ^^ n) (lexically_normal (delete_source r)))"
    if "delete_mode r = Trash_purge"
    using checks that owned_trash_loop_ancestor
    by (auto simp: mode_defs is_owned_trash_payload_path_def)
  moreover have "transfer_source_name (delete_source r) \<and>
       stable_object_identity (source_revision_utf8 (delete_expected_guard r)) \<noteq> []"
    if "delete_mode r = Transfer_source_commit"
    using checks that
    by (simp add: mode_defs bad_delete_guards_def delete_shape_def delete_cleanup_def)
  ultimately show ?thesis by blast
qed

definition example_delete :: DeleteRequest where
  "example_delete =
     \<lparr>delete_operation_id = 9, delete_action = Execute, delete_mode = Trash_purge,
      delete_object_kind = Directory_object,
      delete_source = ''/d/.vove-trash-564f5645-1a/item-1/x'',
      delete_expected_source = \<lparr>size_bytes = 0, modified_unix_ns = 4,
        source_revision_utf8 = ''posix:1:5:6''\<rparr>,
      delete_source_parent_identity = [], delete_guard_path = [],
      delete_expected_guard = empty_snapshot, delete_guard_parent_identity = [],
      delete_security_baseline = []\<rparr>"

lemma accepted_delete_request_witness:
  "\<exists>n. is_trash_item ((parent_path ^^ n) (lexically_normal (delete_source example_delete)))"
proof -
  have "valid_delete_request example_delete = Inr ()" by code_simp
  from accepted_delete_request [OF this] show ?thesis by (simp add: example_delete_def)
qed

section \<open>Identities\<close>

lemma append_colon_eq:
  "CHR '':'' \<notin> set a \<Longrightarrow> CHR '':'' \<notin> set c \<Longrightarrow>
     a @ CHR '':'' # b = c @ CHR '':'' # d \<longleftrightarrow> a = c \<and> b = d"
proof (induction a arbitrary: c)
  case Nil
  then show ?case by (cases c) auto
next
  case (Cons x a)
  then show ?case by (cases c) auto
qed

lemma decimal_eq [simp]: "decimal m = decimal n \<longleftrightarrow> m = n"
  using to_chars_inject [of 10 m n] by auto

lemma signed_decimal_eq [simp]: "signed_decimal v = signed_decimal w \<longleftrightarrow> v = w"
proof
  assume eq: "signed_decimal v = signed_decimal w"
  have minus: "decimal m \<noteq> CHR ''-'' # s" for m s
  proof
    assume "decimal m = CHR ''-'' # s"
    then obtain d where "d < 10" "CHR ''-'' = digit_char d"
      using set_to_chars [of 10 "CHR ''-''" m] by auto
    moreover have "\<forall>d\<in>set [0..<10]. CHR ''-'' \<noteq> digit_char d" by code_simp
    ultimately show False by auto
  qed
  from eq have "sint v = sint w"
    using minus minus [symmetric] by (auto simp: signed_decimal_def split: if_splits)
  then show "v = w" by (simp add: signed_word_eqI)
qed simp

lemma identity_text_eq:
  "identity_text n = identity_text m \<longleftrightarrow>
     st_dev n = st_dev m \<and> st_ino n = st_ino m \<and> birth_time_ns n = birth_time_ns m"
proof -
  have free: "CHR '':'' \<notin> set (decimal k)" "CHR '':'' \<notin> set (signed_decimal b)" for k b
    by (simp_all add: decimal_no_colon signed_decimal_no_colon)
  show ?thesis
    using free
    by (cases "birth_time_ns n"; cases "birth_time_ns m")
      (auto simp: identity_text_def Let_def append_colon_eq word_unat_eq_iff)
qed

text \<open>Whatever the device, inode, birth and change times are, two revisions count as revisions of
  one object exactly when device, inode and birth time agree; the change time, which a rename
  alters, never matters.\<close>

theorem same_object_identity_revision:
  "same_object_identity (revision n) (revision m) \<longleftrightarrow>
     st_dev n = st_dev m \<and> st_ino n = st_ino m \<and> birth_time_ns n = birth_time_ns m"
proof -
  have stable: "stable_object_identity (revision k) = identity_text k" for k
    using identity_eq [of k] by (simp add: identity_def)
  have nonempty: "identity_text k \<noteq> []" for k
    using identity_nonempty [of k] by (simp add: identity_eq)
  have kind: "starts_with (revision k) ''posix2:'' \<longleftrightarrow> birth_time_ns k \<noteq> None"
    "starts_with (revision k) ''posix:'' \<longleftrightarrow> birth_time_ns k = None"
    "\<not> starts_with (revision k) ''win-file128:''" "\<not> starts_with (revision k) ''win-smb64:''" for k
    by (cases "birth_time_ns k"; simp add: revision_def Let_def starts_with_def)+
  show ?thesis
    by (auto simp: same_object_identity_def stable nonempty kind legacy_object_identity_def
        identity_text_eq [symmetric] Let_def)
qed

section \<open>Executing a rename\<close>


subsection \<open>A volume that answers every call\<close>

lemma reading_quiet [simp]: "calls v = [] \<Longrightarrow> reading f v = (f v, v)"
  by (simp add: reading_def next_call_def)

lemma fstat_quiet [simp]: "calls v = [] \<Longrightarrow> fstat v = (Inr (), v)"
  by (simp add: fstat_def)

lemma attempt_simps [simp]:
  "attempt (Inr a, v) handler rest = rest a v" "attempt (Inl e, v) handler rest = handler e v"
  by (simp_all add: attempt_def)

lemma guarded_simps [simp]: "guarded (None, v) rest = rest v" "guarded (Some x, v) rest = (x, v)"
  by (simp_all add: guarded_def)

lemma opens_quiet:
  "calls v = [] \<Longrightarrow> lookup v p = Some n \<Longrightarrow> inode_kind n = Directory_object \<Longrightarrow>
     open_directory p v = (Inr n, v)"
  "calls v = [] \<Longrightarrow> lookup v p = Some n \<Longrightarrow> inode_kind n = Regular_file \<Longrightarrow>
     open_regular_at p v = (Inr n, v)"
  by (simp_all add: open_directory_def open_regular_at_def)

lemma same_object_identity_sym: "same_object_identity a b = same_object_identity b a"
  by (auto simp: same_object_identity_def Let_def)

lemma same_source_revision_sym: "same_source_revision a b = same_source_revision b a"
  by (auto simp: same_source_revision_def same_object_identity_sym [of a b])

lemma same_object_identity_refl: "same_object_identity (revision n) (revision n)"
proof -
  have "stable_object_identity (revision n) \<noteq> []"
    using identity_nonempty [of n] by (simp add: identity_def)
  then show ?thesis by (simp add: same_object_identity_def Let_def)
qed

lemma same_source_revision_refl: "same_source_revision (revision n) (revision n)"
proof -
  have "find_last_of CHR '':'' (identity_text n @ CHR '':'' # signed_decimal (st_ctim n)) =
      Some (length (identity_text n))"
    by (rule find_last_of_snoc [OF signed_decimal_no_colon])
  then have "revision_change (revision n) = signed_decimal (st_ctim n)"
    by (simp add: revision_change_def revision_identity_text signed_decimal_def)
  then show ?thesis
    by (simp add: same_source_revision_def same_object_identity_refl signed_decimal_def)
qed

lemma names_match_quiet:
  "calls v = [] \<Longrightarrow> lookup v p = Some n \<Longrightarrow> inode_kind n = Directory_object \<Longrightarrow>
     path_still_names_directory p n v = (Matches, v)"
  "calls v = [] \<Longrightarrow> lookup v p = Some n \<Longrightarrow> inode_kind n = Regular_file \<Longrightarrow>
     name_still_names_regular p n v = (Matches, v)"
  by (simp_all add: path_still_names_directory_def name_still_names_regular_def opens_quiet
      same_source_revision_refl)

text \<open>An ordinary rename of a file.\<close>

definition ordinary_file_rename :: "RenameRequest \<Rightarrow> bool" where
  "ordinary_file_rename r \<longleftrightarrow>
     rename_mode r \<in> {Single_preserve_extension, Single_allow_extension_change, Batch_internal} \<and>
     rename_object_kind r = Regular_file \<and>
     rename_source_parent_identity r = [] \<and> rename_destination_parent_identity r = []"

text \<open>The volume as the request expects it.\<close>

definition as_expected :: "RenameRequest \<Rightarrow> volume \<Rightarrow> inode \<Rightarrow> bool" where
  "as_expected r v n \<longleftrightarrow>
     lookup v (rename_source r) = Some n \<and> snapshot_matches n (rename_expected_source r) \<and>
     lookup v (rename_destination r) = None \<and>
     (\<exists>d. lookup v (parent_path (rename_source r)) = Some d \<and> inode_kind d = Directory_object) \<and>
     (\<exists>d. lookup v (parent_path (rename_destination r)) = Some d \<and> inode_kind d = Directory_object)"

lemma rename_no_replace_quiet:
  assumes r: "ordinary_file_rename r" "rename_anchor_path r = []"
    and v: "calls v = []" "as_expected r v n"
  shows "\<exists>res. rename_no_replace r v = (res, moved (rename_source r) (rename_destination r) n v) \<and>
    status res = Success \<and> evidence res = Committed"
proof -
  from r have mode: "\<not> rename_replacement r" "\<not> posix_trash_mode r"
    "\<not> transfer_rename_mode (rename_mode r)" "rename_mode r \<noteq> Transfer_overwrite_stage"
    and kind: "rename_object_kind r = Regular_file" "rename_source_parent_identity r = []"
      "rename_destination_parent_identity r = []"
    by (auto simp: ordinary_file_rename_def rename_replacement_def posix_trash_mode_def mode_defs)
  from v obtain d e where at: "lookup v (rename_source r) = Some n"
    "lookup v (rename_destination r) = None" "snapshot_matches n (rename_expected_source r)"
    and parents: "lookup v (parent_path (rename_source r)) = Some d" "inode_kind d = Directory_object"
      "lookup v (parent_path (rename_destination r)) = Some e" "inode_kind e = Directory_object"
    by (auto simp: as_expected_def)
  from at(3) have regular: "inode_kind n = Regular_file" by (simp add: snapshot_matches_def)
  let ?w = "moved (rename_source r) (rename_destination r) n v"
  have w: "calls ?w = []" "lookup ?w (rename_destination r) = Some (n\<lparr>st_ctim := clock v\<rparr>)"
    using v(1) by (simp_all add: moved_def lookup_def)
  have commit: "renameat2 (rename_source r) (rename_destination r) True v = (Inr (), ?w)"
    using v(1) at by (simp add: renameat2_def next_call_def)
  let ?done = "(committed_result (rename_operation_id r) Success True
      (snapshot (n\<lparr>st_ctim := clock v\<rparr>)) [])\<lparr>destination_matches_source := True\<rparr>"
  have "open_object_at (rename_destination r) Regular_file ?w = (Inr (n\<lparr>st_ctim := clock v\<rparr>), ?w)"
    using w regular by (simp add: open_object_at_def opens_quiet)
  then have "confirm_rename r n False None ?w = (?done, ?w)"
    by (simp add: confirm_rename_def confirmed_case_alias_def kind snapshot_for_object_def)
  then have "commit_rename r n a b False None v = (?done, ?w)" for a b
    by (simp add: commit_rename_def commit)
  moreover have "prove_content r n v = (Inr None, v)"
    by (simp add: prove_content_def mode)
  moreover have "name_still_names_object (rename_source r) n Regular_file v = (Matches, v)"
    using v(1) at regular by (simp add: name_still_names_object_def names_match_quiet)
  ultimately have names: "confirm_names r n a b None v = (?done, ?w)" for a b
    by (simp add: confirm_names_def kind check_match_def)
  have "check_source_object r n v = (None, v)"
    using at(3) by (simp add: check_source_object_def mode kind snapshot_matches_object_def)
  moreover have "check_parent_identities r d e v = (None, v)"
    by (simp add: check_parent_identities_def mode kind directory_matches_expected_def)
  moreover have "verify_rename_destination_anchor r v = (None, v)"
    by (simp add: verify_rename_destination_anchor_def r(2))
  moreover have "open_object_at (rename_source r) Regular_file v = (Inr n, v)"
    using v(1) at regular by (simp add: open_object_at_def opens_quiet)
  ultimately have "rename_no_replace r v = (?done, ?w)"
    by (simp add: rename_no_replace_def mode kind opens_quiet [OF v(1)] parents check_match_def
        names_match_quiet [OF v(1)] names)
  then show ?thesis by simp
qed

lemma execute_rename_quiet:
  assumes "valid_rename_request r = Inr ()" and "ordinary_file_rename r"
    and "calls v = []" and "as_expected r v n"
  shows "\<exists>res. execute_rename r v = (res, moved (rename_source r) (rename_destination r) n v) \<and>
    status res = Success \<and> evidence res = Committed"
proof -
  have "\<not> bad_anchor r"
    using assms(1) by (simp add: valid_rename_request_def outcome_simps Let_def)
  moreover have "\<not> transfer_rename_mode (rename_mode r)"
    using assms(2) by (auto simp: ordinary_file_rename_def mode_defs)
  ultimately have anchor: "rename_anchor_path r = []"
    by (auto simp: bad_anchor_def Let_def)
  from rename_no_replace_quiet [OF assms(2) anchor assms(3,4)] obtain res where
    run: "rename_no_replace r v = (res, moved (rename_source r) (rename_destination r) n v)"
    and res: "status res = Success" "evidence res = Committed" by blast
  have n: "lookup v (rename_source r) = Some n" "snapshot_matches n (rename_expected_source r)"
    using assms(4) by (simp_all add: as_expected_def)
  have kind: "rename_object_kind r = Regular_file" "expected_storage r = []"
    using assms(2) by (auto simp: ordinary_file_rename_def expected_storage_def)
  from n(2) have expected: "inode_kind n = Regular_file"
    "st_size n = size_bytes (rename_expected_source r)"
    "st_mtim n = modified_unix_ns (rename_expected_source r)"
    "same_source_revision (source_revision_utf8 (rename_expected_source r)) (revision n)"
    by (simp_all add: snapshot_matches_def same_source_revision_sym [of "revision n"])
  obtain so where so: "observe_object (rename_source r) (rename_expected_source r) Regular_file v =
      (so, v)" and seen: "present so" "matches_expected so"
  proof
    show "observe_object (rename_source r) (rename_expected_source r) Regular_file v =
      (fst (observe_object (rename_source r) (rename_expected_source r) Regular_file v), v)"
      "present (fst (observe_object (rename_source r) (rename_expected_source r) Regular_file v))"
      "matches_expected
        (fst (observe_object (rename_source r) (rename_expected_source r) Regular_file v))"
      using assms(3) n(1) expected
      by (simp_all add: observe_object_def observe_def statfs_smb_def observed_object_def)
  qed
  have "rename_then_reconcile r v = (res, moved (rename_source r) (rename_destination r) n v)"
    by (simp add: rename_then_reconcile_def run needs_reconciliation_def res)
  then show ?thesis
    using assms(1) res
    by (simp add: execute_rename_def so kind seen expected_storage_matches_def)
qed

text \<open>C14: A valid ordinary rename of a file, on a volume that answers every call and is as the request
  expects it, is carried out and reported as a confirmed success.\<close>

theorem execute_rename_succeeds:
  assumes "valid_rename_request r = Inr ()"
    and "rename_mode r \<in> {Single_preserve_extension, Single_allow_extension_change, Batch_internal}"
    and "rename_object_kind r = Regular_file"
    and "rename_source_parent_identity r = []" and "rename_destination_parent_identity r = []"
    and "calls v = []"
    and "lookup v (rename_source r) = Some n" and "snapshot_matches n (rename_expected_source r)"
    and "lookup v (rename_destination r) = None"
    and "lookup v (parent_path (rename_source r)) = Some d" and "inode_kind d = Directory_object"
    and "lookup v (parent_path (rename_destination r)) = Some e" and "inode_kind e = Directory_object"
  shows "\<exists>res. execute_rename r v = (res, moved (rename_source r) (rename_destination r) n v) \<and>
    status res = Success \<and> evidence res = Committed"
  using assms by (intro execute_rename_quiet) (auto simp: ordinary_file_rename_def as_expected_def)

definition example_file :: inode where
  "example_file = \<lparr>st_dev = 1, st_ino = 5, birth_time_ns = None, st_ctim = 6, st_mtim = 4,
     st_size = 2, st_nlink = 1, st_uid = 1000, st_mode = 384, inode_kind = Regular_file,
     content = [1, 2]\<rparr>"

definition example_directory :: inode where
  "example_directory = \<lparr>st_dev = 1, st_ino = 2, birth_time_ns = None, st_ctim = 3, st_mtim = 3,
     st_size = 0, st_nlink = 2, st_uid = 1000, st_mode = 448, inode_kind = Directory_object,
     content = []\<rparr>"

definition example_volume :: "call list \<Rightarrow> volume" where
  "example_volume cs =
     \<lparr>entries = [path_elems ''/d'' \<mapsto> example_directory, path_elems ''/d/a.c'' \<mapsto> example_file],
      calls = cs, clock = 9, remote_smb = False, storage_id = [], strerror = (\<lambda>_. ''error''),
      digest_of = id, euid = 1000,
      next_directory = (\<lambda>mode. example_directory\<lparr>st_ino := 7, st_mode := mode\<rparr>)\<rparr>"

lemma example_volume_expected:
  "lookup (example_volume cs) (rename_source example_rename) = Some example_file"
  "snapshot_matches example_file (rename_expected_source example_rename)"
  "lookup (example_volume cs) (rename_destination example_rename) = None"
  "lookup (example_volume cs) (parent_path (rename_source example_rename)) = Some example_directory"
  "lookup (example_volume cs) (parent_path (rename_destination example_rename)) =
     Some example_directory"
  by code_simp+

lemma execute_rename_succeeds_witness:
  "status (fst (execute_rename example_rename (example_volume []))) = Success"
proof -
  have "\<exists>res. execute_rename example_rename (example_volume []) =
      (res, moved (rename_source example_rename) (rename_destination example_rename) example_file
        (example_volume [])) \<and> status res = Success \<and> evidence res = Committed"
    by (rule execute_rename_succeeds [OF example_rename_valid _ _ _ _ _ example_volume_expected(1-4) _
          example_volume_expected(5)])
      (simp_all add: example_rename_def example_volume_def example_directory_def)
  then show ?thesis by auto
qed


section \<open>Reconciling\<close>

text \<open>Reconciliation changes nothing. It reports success only when an object is at the destination,
  and names it; and for a request without an anchor it denies the commit only while something is
  still at the source.\<close>

theorem reconciliation_only_observes:
  assumes "reconcile_rename r v = (res, v')"
  shows "entries v' = entries v \<and>
    (status res = Success \<longrightarrow> (\<exists>n. lookup v (rename_destination r) = Some n \<and>
       identity n = stable_object_identity (source_revision_utf8 (confirmed_snapshot res)))) \<and>
    (evidence res = No_commit \<and> rename_anchor_path r = [] \<longrightarrow> lookup v (rename_source r) \<noteq> None)"
  using reconcile_rename_outcome [OF assms] by (auto simp: still_def has_identity_def)

lemma reconciliation_only_observes_witness:
  "entries (snd (reconcile_rename example_rename (example_volume []))) = entries (example_volume [])"
  using reconciliation_only_observes
    [OF prod.collapse [of "reconcile_rename example_rename (example_volume [])", symmetric]]
  by blast

text \<open>Merging an attempt with a later observation never turns a commit into its denial: the merged
  evidence denies the commit only if one of the two does and neither reports it, and the merged
  status is a success only if one of the two succeeded and they do not contradict each other.\<close>

theorem merge_reconciliation_sound:
  "(evidence (merge_reconciliation attempted observed) = No_commit \<longrightarrow>
      No_commit \<in> {evidence attempted, evidence observed} \<and>
      {Committed, Conflicting} \<inter> {evidence attempted, evidence observed} = {}) \<and>
   (status (merge_reconciliation attempted observed) = Success \<longrightarrow>
      Success \<in> {status attempted, status observed} \<and> \<not> evidence_conflict attempted observed)"
  using merge_success [of attempted observed]
  by (auto simp: merge_evidence evidence_conflict_def split: if_splits)

lemma merge_reconciliation_sound_witness:
  "No_commit \<in> {evidence (changed_result 1 []), evidence (plain_result 1 Io_error Evidence_none [])}"
  using merge_reconciliation_sound [of "changed_result 1 []" "plain_result 1 Io_error Evidence_none []"]
  by (simp add: merge_evidence evidence_conflict_def changed_result_def)



section \<open>The service\<close>

text \<open>C6: However the helper process, its pipes or its watchdog fail, the service tells the truth about
  a rename that replaces nothing and carries no anchor: the volume is as it was, or the object went
  from the source to the vacant destination, the request was a valid request to execute, and the
  result does not deny the commit; and a success names the object at the destination.\<close>

theorem serve_rename_honest:
  assumes "\<not> rename_replacement r" and "rename_anchor_path r = []"
    and "serve_rename r action h = (res, h')"
  shows "(entries (host_volume h') = entries (host_volume h) \<or>
     action = Execute \<and> valid_rename_request r = Inr () \<and> evidence res \<noteq> No_commit \<and>
     (\<exists>n. lookup (host_volume h) (rename_source r) = Some n \<and>
        lookup (host_volume h) (rename_destination r) = None \<and>
        entries (host_volume h') = (entries (host_volume h))
          (path_elems (rename_source r) := None,
           path_elems (rename_destination r) \<mapsto> n\<lparr>st_ctim := clock (host_volume h)\<rparr>))) \<and>
    (status res = Success \<longrightarrow> (\<exists>n. lookup (host_volume h') (rename_destination r) = Some n \<and>
       identity n = stable_object_identity (source_revision_utf8 (confirmed_snapshot res))))"
proof (cases action)
  case Execute
  note run = assms(3) [unfolded Execute]
  have "truthful r (host_volume h) (res, host_volume h')"
    using serve_rename_execute [OF _ run] assms(1,2) by (simp add: plain_rename_def)
  moreover have "valid_rename_request r = Inr ()" if "\<not> still (host_volume h) (host_volume h')"
    by (rule was_moved_valid [OF run that])
  ultimately show ?thesis
    using Execute
    by (auto simp: truthful_def was_moved_def still_def moved_def has_identity_def)
next
  case Reconcile_only
  from serve_rename_reconcile(1,2) [OF assms(3) [unfolded Reconcile_only]] show ?thesis
    by (auto simp: still_def has_identity_def lookup_def)
qed

text \<open>The helper carries the request out, and then its reply is lost.\<close>

definition example_host :: "transport list \<Rightarrow> host" where
  "example_host ts = \<lparr>host_volume = example_volume [], transports = ts, polls = []\<rparr>"

lemma serve_rename_honest_witness:
  "let (res, h') = serve_rename example_rename Execute (example_host [Read_fails False True ''lost'']) in
   lookup (host_volume h') (rename_source example_rename) = None \<and> evidence res \<noteq> No_commit"
proof -
  let ?h = "example_host [Read_fails False True ''lost'']"
  let ?run = "serve_rename example_rename Execute ?h"
  have gone: "lookup (host_volume (snd ?run)) (rename_source example_rename) = None" by code_simp
  have "\<not> rename_replacement example_rename" "rename_anchor_path example_rename = []"
    by (simp_all add: example_rename_def rename_replacement_def)
  from serve_rename_honest [OF this prod.collapse [of ?run, symmetric]] gone
    example_volume_expected(1)
  have "evidence (fst ?run) \<noteq> No_commit" by (auto simp: lookup_def example_host_def)
  with gone show ?thesis by (simp add: split_beta Let_def)
qed

end
