(* ===== verification/Batch_Properties.thy ===== *)
theory Batch_Properties
  imports Batch_Safety Record_Properties Rename_Properties
begin

text \<open>
  What the batch rename guarantees, from the numbers in its templates to the objects on the volume:
  plans, transactions, and the coordinator over the service of \<open>Operation_Service\<close>.
\<close>

section \<open>Counters\<close>

lemma counter_at_eq:
  assumes "counter_step options \<noteq> 0"
  shows "counter_at options index =
    (let n = unat (counter_start options) + index * unat (counter_step options) in
     if n < 2 ^ 64 then Some (word_of_nat n) else None)"
proof (cases "counter_at options index")
  case None
  with counter_at_None_overflows [OF None] show ?thesis by simp
next
  case (Some c)
  note exact = counter_at_value [OF Some assms]
  moreover have "unat c < 2 ^ 64" using unsigned_less [of c] by simp
  moreover have "c = word_of_nat (unat c)" by simp
  ultimately show ?thesis using Some by metis
qed

text \<open>The counter of a row is exact: it is the start plus the row index times the step whenever that
  fits 64 bits, and an overflow is reported, never wrapped around.\<close>

theorem counter_at_exact:
  assumes "counter_step options \<noteq> 0"
  shows "counter_at options index =
    (let n = unat (counter_start options) + index * unat (counter_step options) in
     if n < 2 ^ 64 then Some (word_of_nat n) else None)"
  using assms by (rule counter_at_eq)

definition example_options :: BatchRenameOptions where
  "example_options =
     \<lparr>name_template = ''{counter}'', counter_start = 8, counter_step = 3, counter_padding = 2,
      date_time_source = From_modified, date_format = Yyyymmdd, time_format = Hhmm,
      extension_mode = Preserve_extension, replacement_extension_text = [], current_unix_ns = 0\<rparr>"

lemma counter_at_exact_witness:
  "counter_at example_options 1 = Some 11 \<and>
   counter_at (example_options\<lparr>counter_start := - 2\<rparr>) 1 = None"
  using counter_at_exact [of example_options 1]
    counter_at_exact [of "example_options\<lparr>counter_start := - 2\<rparr>" 1]
  by (simp add: example_options_def)

text \<open>Under the template \<open>{counter}\<close> two rows of one batch never get the same name, whatever the
  padding: the padded decimals are those of different numbers.\<close>

theorem expand_counter_distinct:
  assumes "name_template options = ''{counter}''"
    and "expand_name localtime_r a options i = Inr x" "expand_name localtime_r b options j = Inr y"
    and "i \<noteq> j"
  shows "x \<noteq> y"
proof
  assume same: "x = y"
  have loop: "expand_loop n c d t ''{counter}'' [] = Inr c" for n c d t
    by (simp add: starts_with_def expand_loop.simps)
  let ?w = "unat (counter_padding options)"
  from assms(1-3) same obtain m n where
    m: "counter_at options i = Some m" and n: "counter_at options j = Some n"
    and step: "counter_step options \<noteq> 0"
    and x: "append_padded [] (unat m) ?w = x" "append_padded [] (unat n) ?w = x"
    by (auto simp: expand_name_def loop split: if_splits option.splits)
  then have "unat m = unat n" by (metis digits_value_append_padded)
  with counter_at_value [OF m step] counter_at_value [OF n step] step
  have "i = j" by (simp add: unat_eq_0)
  with assms(4) show False by simp
qed

definition example_source :: "path \<Rightarrow> string \<Rightarrow> BatchRenameSource" where
  "example_source p seen =
     \<lparr>source_path = p, source_size_bytes = 2, source_modified_unix_ns = 4,
      source_revision = seen, source_object_kind = Regular_file\<rparr>"

definition example_calendar :: localtime where
  "example_calendar seconds =
     Some \<lparr>tm_year = 70, tm_mon = 0, tm_mday = 1, tm_hour = 0, tm_min = 0, tm_sec = 0\<rparr>"

lemma expand_counter_distinct_witness: "''11'' \<noteq> ''14''"
proof -
  let ?s = "example_source ''/d/a'' ''posix:1:5:6''"
  have count: "counter_at example_options (Suc 0) = Some 11" "counter_at example_options 2 = Some 14"
    by (simp_all add: counter_at_eq example_options_def)
  have time: "local_time example_calendar 4 = Some \<lparr>tm_year = 70, tm_mon = 0, tm_mday = 1,
      tm_hour = 0, tm_min = 0, tm_sec = 0\<rparr>"
    by (simp add: local_time_def example_calendar_def)
  have loop: "expand_loop n c d t ''{counter}'' [] = Inr c" for n c d t
    by (simp add: starts_with_def expand_loop.simps)
  have "append_padded [] 11 2 = ''11''" "append_padded [] 14 2 = ''14''" by code_simp+
  then have "expand_name example_calendar ?s example_options 1 = Inr ''11''"
    "expand_name example_calendar ?s example_options 2 = Inr ''14''"
    by (simp_all add: expand_name_def count)
       (simp_all add: example_options_def example_source_def time loop)
  from expand_counter_distinct [OF _ this] show ?thesis by (simp add: example_options_def)
qed

section \<open>Plans\<close>

text \<open>A plan is accepted exactly when it has a row for every source and no row is marked: an issue
  found by either loop always shows in a row, and a marked row always refuses the plan.\<close>

theorem plan_valid_iff_rows:
  assumes "sources \<noteq> []"
  shows "plan_valid (plan_batch_rename localtime_r sources names options) \<longleftrightarrow>
    length (plan_rows (plan_batch_rename localtime_r sources names options)) = length sources \<and>
    (\<forall>row\<in>set (plan_rows (plan_batch_rename localtime_r sources names options)). row_valid row)"
proof -
  from assms obtain keys plan where
    run: "plan_batch_rename localtime_r sources names options =
      check_destinations (batch_rename_collision_key ` set names) (source_key ` set sources)
        [0..<length (plan_rows plan)] Map.empty plan"
    and range: "in_range [0..<length (plan_rows plan)] Map.empty plan"
    and valid: "plan_issue plan = Issue_none \<longleftrightarrow> (\<forall>row\<in>set (plan_rows plan). row_valid row)"
    by (rule plan_stages [of sources localtime_r options names]) blast
  have "plan_valid (plan_batch_rename localtime_r sources names options) \<longleftrightarrow>
    (\<forall>row\<in>set (plan_rows (plan_batch_rename localtime_r sources names options)). row_valid row)"
    using check_destinations_fresh [OF range, of "batch_rename_collision_key ` set names"
      "source_key ` set sources"] valid
    by (auto simp: run plan_valid_def marked_def)
  with plan_valid_rows(2) [of localtime_r sources names options] show ?thesis by blast
qed

definition example_names :: BatchRenameOptions where
  "example_names = example_options\<lparr>name_template := ''b''\<rparr>"

definition example_sources :: "BatchRenameSource list" where
  "example_sources = [example_source ''/d/a'' ''posix:1:2:3'']"

definition example_plan :: BatchRenamePlan where
  "example_plan = plan_batch_rename example_calendar example_sources [''/d/a''] example_names"

lemma example_plan_rows:
  "example_plan = \<lparr>plan_issue = Issue_none, plan_detail = [], plan_rows =
     [\<lparr>row_source = ''/d/a'', row_destination = ''/d/b'', row_issue = Issue_none, row_detail = []\<rparr>]\<rparr>"
proof -
  have count: "counter_at example_names 0 = Some 8"
    by (simp add: counter_at_eq example_names_def example_options_def)
  have time: "local_time example_calendar 4 = Some \<lparr>tm_year = 70, tm_mon = 0, tm_mday = 1,
      tm_hour = 0, tm_min = 0, tm_sec = 0\<rparr>"
    by (simp add: local_time_def example_calendar_def)
  have loop: "expand_loop n c d t ''b'' [] = Inr ''b''" for n c d t
    by (simp add: expand_loop.simps)
  have "expand_name example_calendar (hd example_sources) example_names 0 = Inr ''b''"
    by (simp add: expand_name_def count)
       (simp add: example_names_def example_options_def example_sources_def example_source_def time loop)
  moreover have "extension ''/d/a'' = []" "valid_destination_filename ''b'' = Inr ()"
    "\<not> is_internal_filename ''b''" "\<not> is_internal_filename ''a''" "\<not> path_eq ''a'' ''b''"
    "path_append ''/d'' ''b'' = ''/d/b''" "filename ''/d/a'' = ''a''" "is_absolute ''/d/a''"
    "lexically_normal (parent_path ''/d/a'') = ''/d''" "stable_object_identity ''posix:1:2:3'' = ''posix:1:2''"
    "batch_rename_collision_key ''/d/b'' = ''b''" "batch_rename_collision_key ''/d/a'' = ''a''"
    by code_simp+
  ultimately show ?thesis
    by (simp add: example_plan_def plan_batch_rename_def example_sources_def example_source_def
        plan_row_def bad_batch_source_def row_target_def replacement_extension_def example_names_def
        example_options_def mark_when_def Let_def)
qed

lemma plan_valid_iff_rows_witness: "plan_valid example_plan"
proof -
  have "plan_valid example_plan \<longleftrightarrow> length (plan_rows example_plan) = length example_sources \<and>
      (\<forall>row\<in>set (plan_rows example_plan). row_valid row)"
    unfolding example_plan_def by (rule plan_valid_iff_rows) (simp add: example_sources_def)
  then show ?thesis by (simp add: example_plan_rows row_valid_def example_sources_def)
qed




section \<open>Transactions\<close>

text \<open>What the planner accepts can be journalled: a transaction prepared from a plan is either empty,
  because no row changes its name, or valid, and then every item is still at its source.\<close>

theorem prepared_transaction_valid:
  assumes "prepare_batch_transaction plan sources op = Inr t" and "batch_items t \<noteq> []"
  shows "valid_batch_transaction t = Inr () \<and> batch_phase t = Prepared \<and>
    active_step t = Step_none \<and>
    (\<forall>item\<in>set (batch_items t). item_location item = At_source \<and>
       valid_destination_filename (filename (item_temporary item)) = Inr ())"
proof -
  have valid: "valid_batch_transaction t = Inr ()"
    using prepare_batch_transaction_valid [OF assms(1)] assms(2) by blast
  then have ok: "\<forall>item\<in>set (batch_items t). \<exists>i. item_ok (batch_operation_id t) (batch_phase t)
      (batch_parent t) i item"
    unfolding valid_batch_transaction_iff batch_items_ok_def by (metis in_set_conv_nth)
  have "valid_destination_filename (filename (item_temporary item)) = Inr ()"
    if "item \<in> set (batch_items t)" for item
  proof -
    from ok that have "item_names_ok item = Inr ()" by (auto simp: item_ok_def)
    then show ?thesis by (auto simp: item_names_ok_def outcome_simps split: if_splits)
  qed
  moreover have "batch_phase t = Prepared"
    using assms(1)
    by (auto simp: prepare_batch_transaction_def sum_bind_Inr_iff case_sum_Inr new_transaction_def
        split: if_splits)
  moreover from this ok have "\<forall>item\<in>set (batch_items t). item_location item = At_source"
    by (auto simp: item_ok_def item_paths_ok_def)
  ultimately show ?thesis using valid service.prepared_transaction(1) [OF assms(1)] by blast
qed

lemma example_prepared:
  "prepare_batch_transaction example_plan example_sources 1 = Inr example_transaction"
proof -
  have items: "prepare_items 1 0 (plan_rows example_plan) example_sources = Inr [example_item]"
    by (simp add: example_plan_rows row_valid_def example_sources_def example_source_def
        prepare_item_def example_item_def) (code_simp)
  moreover have "\<not> path_eq ''/d/a'' ''/d/b''" "parent_path ''/d/a'' = ''/d''" by code_simp+
  moreover have "plan_valid example_plan \<and> length (plan_rows example_plan) = length example_sources"
    by (simp add: example_plan_rows plan_valid_def example_sources_def)
  ultimately show ?thesis
    using example_transaction_valid
    by (simp add: prepare_batch_transaction_def example_transaction_def example_item_def)
qed

lemma prepared_transaction_valid_witness:
  "valid_batch_transaction example_transaction = Inr () \<and> batch_phase example_transaction = Prepared"
  using prepared_transaction_valid [OF example_prepared]
  by (simp add: example_transaction_def new_transaction_def)

end
