(* ===== verification/Coordinator_Properties.thy ===== *)
theory Coordinator_Properties
  imports Batch_Properties
begin

text \<open>
  The batch rename as a whole: the coordinator of \<open>Batch_Coordinator\<close> over the service of
  \<open>Operation_Service\<close>, the executor of \<open>Rename_Executor\<close> and the journal of \<open>Durable_Journal\<close>. The
  theorems hold for every answer of the file system and of the helper process, for every stop
  request and for every refused submission.
\<close>

section \<open>A crash during a batch\<close>

text \<open>\<open>batch_at_hand\<close>: the transaction and every record that a restart may find account for all objects.\<close>

definition batch_at_hand :: "BatchRenameTransaction \<Rightarrow> host coordinator \<Rightarrow> bool" where
  "batch_at_hand t w \<longleftrightarrow> consistent (host_has (service w)) (host_vacant (service w)) t \<and>
                 recoverable (host_has (service w)) (host_vacant (service w)) (journal w)"

lemma batch_at_hand_good: "batch_at_hand = service.good"
  by (intro ext) (simp add: batch_at_hand_def service.good_def)

definition object_kept :: "(path \<Rightarrow> string \<Rightarrow> bool) \<Rightarrow> BatchTransactionItem \<Rightarrow> bool" where
  "object_kept H item \<longleftrightarrow>
     (\<exists>p\<in>{item_source item, item_temporary item, item_destination item}. H p (physical_id item))"

text \<open>C1: At whatever point a batch run ends (a failed or misreported system call, a lost helper process,
  a refused submission, a stop request), every record that a restart can find in the journal, after a
  clean exit or a power cut, still accounts for every object; and no object of the batch is lost: each is at
  its source, its private name or its destination.\<close>

theorem batch_crash_safe:
  assumes "batch_at_hand t w" "advance serve_rename t w = ((e, t'), w')"
  shows "recoverable (host_has (service w')) (host_vacant (service w')) (journal w') \<and>
    (\<forall>i<length (batch_items t). object_kept (host_has (service w')) (batch_items t ! i))"
proof -
  have good: "service.good t' w'" and same: "skeleton t' = skeleton t"
    using service.advance_kept [OF assms(1) [unfolded batch_at_hand_good] assms(2)]
    by (simp_all add: service.run_kept_def)
  have "object_kept (host_has (service w')) (batch_items t ! i)" if "i < length (batch_items t)" for i
    using service.good_accounted [OF good, of i] that skeleton_length [OF same]
    by (simp add: object_kept_def service.skeleton_nth [OF same that])
  with good show ?thesis by (simp add: service.good_def)
qed

section \<open>A batch from beginning to end\<close>

lemma run_journaled_places:
  assumes con: "consistent (host_has (service w)) (host_vacant (service w)) t"
    and disk: "disk_ok (journal w)" and run: "run_journaled serve_rename t w = (res, w')"
  shows "service w' = service w \<or>
    (\<forall>i<length (batch_items t). object_kept (host_has (service w')) (batch_items t ! i))"
proof -
  obtain b1 w1 where stop1: "stop_requested w = (b1, w1)" by fastforce
  obtain b2 w2 where stop2: "stop_requested w1 = (b2, w2)" by fastforce
  obtain r w3 where persisted: "persist t w2 = (r, w3)" by fastforce
  have w2: "service w1 = service w" "service w2 = service w" "journal w2 = journal w"
    using stop1 stop2 by (auto simp: stop_requested_def split: list.splits)
  note effect = persist_effect [OF persisted, unfolded w2, OF disk]
  note run' = run [unfolded run_journaled_def stop1 prod.case Let_def stop2 persisted]
  have cont: "service w' = service w \<or> r = None \<and> continue_transaction serve_rename t w3 = (res, w')"
    using run' w2 effect(1) by (auto split: if_splits option.splits)
  show ?thesis
  proof (cases "service w' = service w")
    case False
    with cont have r: "r = None" and go: "continue_transaction serve_rename t w3 = (res, w')" by auto
    from effect(4) [OF r] con have good: "service.good t w3"
      using recorded_recoverable [of t "journal w3"] by (simp add: service.good_def effect(1))
    show ?thesis
      using service.continue_transaction_places(3) [OF good go] by (simp add: object_kept_def)
  qed simp
qed

text \<open>C2: A batch that is started on objects that are where the caller saw them: success means that every
  object is at its destination, a rollback that every object is back at its source, and with any other
  outcome nothing was moved or every object is at one of its three names.\<close>

theorem batch_rename_outcome:
  assumes "disk_ok (journal w)"
    and "\<forall>s\<in>set sources. host_has (service w) (source_path s) (stable_object_identity (source_revision s))"
    and "run_new serve_rename plan sources w = (res, w')"
  shows "(run_status res = Run_success \<longrightarrow> (\<exists>op t. prepare_batch_transaction plan sources op = Inr t \<and>
       (\<forall>item\<in>set (batch_items t). host_has (service w') (item_destination item) (physical_id item)))) \<and>
    (run_status res = Run_rolled_back \<longrightarrow> (\<exists>op t. prepare_batch_transaction plan sources op = Inr t \<and>
       (\<forall>item\<in>set (batch_items t). host_has (service w') (item_source item) (physical_id item)))) \<and>
    (service w' = service w \<or> (\<exists>op t. prepare_batch_transaction plan sources op = Inr t \<and>
       (\<forall>item\<in>set (batch_items t). object_kept (host_has (service w')) item)))"
proof -
  obtain b w1 where stop: "stop_requested w = (b, w1)" by fastforce
  have w1: "service w1 = service w" "journal w1 = journal w"
    using stop by (auto simp: stop_requested_def split: list.splits)
  obtain loaded fs where read: "current_journal_read (fst (journal w1)) (snd (journal w1)) = (loaded, fs)"
    by fastforce
  obtain op w2 where op: "next_operation_id (w1\<lparr>journal := (fst (journal w1), fs)\<rparr>) = (op, w2)"
    by fastforce
  then have w2: "service w2 = service w" "journal w2 = (fst (journal w), fs)"
    using w1 by (auto simp: next_operation_id_def Let_def split: if_splits)
  with assms(1) have disk2: "disk_ok (journal w2)" by (simp add: disk_ok_def)
  note run' = assms(3) [unfolded run_new_def stop prod.case Let_def read_journal_def read op]
  have "service w' = service w \<or> (\<exists>t. prepare_batch_transaction plan sources op = Inr t \<and>
      batch_items t \<noteq> [] \<and> run_journaled serve_rename t w2 = (res, w'))"
    using run' w1 w2 by (auto split: if_splits sum.splits option.splits)
  then have "service w' = service w \<or> (\<exists>op t. prepare_batch_transaction plan sources op = Inr t \<and>
      (\<forall>item\<in>set (batch_items t). object_kept (host_has (service w')) item))"
  proof (elim disjE exE conjE)
    fix t
    assume t: "prepare_batch_transaction plan sources op = Inr t" "batch_items t \<noteq> []"
      and run: "run_journaled serve_rename t w2 = (res, w')"
    from service.prepared_consistent [OF t] assms(2) w2
    have "consistent (host_has (service w2)) (host_vacant (service w2)) t" by simp
    from run_journaled_places [OF this disk2 run] t(1) w2(1) show ?thesis
      by (metis in_set_conv_nth)
  qed simp
  with service.run_new_places [OF assms] show ?thesis by blast
qed

section \<open>Going on after a crash\<close>


section \<open>An example\<close>

definition batch_store :: DurableJournalStore where
  "batch_store = \<lparr>primary_path = ''/j'', previous_path = ''/j.previous'',
     temporary_path = ''/j.temporary'',
     maximum_payload_bytes = kAbsoluteMaximumDurableJournalPayloadBytes\<rparr>"

definition batch_file :: inode where
  "batch_file = example_file\<lparr>st_ino := 2, st_ctim := 3\<rparr>"

definition batch_host :: "call list \<Rightarrow> host" where
  "batch_host cs =
     \<lparr>host_volume = (example_volume cs)
        \<lparr>entries := [path_elems ''/d'' \<mapsto> example_directory\<lparr>st_ino := 9\<rparr>,
                     path_elems ''/d/a'' \<mapsto> batch_file]\<rparr>,
      transports = [], polls = []\<rparr>"

definition example_coordinator :: "(path \<rightharpoonup> node) \<Rightarrow> call list \<Rightarrow> host coordinator" where
  "example_coordinator m cs =
     \<lparr>journal_path = ''/j'',
      journal = (batch_store, \<lparr>live = m, durable = m, script = [], crashed = False\<rparr>),
      service = batch_host cs, accepts = [], stops = [], recovery_pending = False, reported = [],
      now = 1, sequence = 0, create_parent = None, error_message = (\<lambda>_. ''error''),
      name_max = (\<lambda>_. (255, 0))\<rparr>"

lemma batch_store_ok: "disk_ok (batch_store, fs)"
  by (simp add: disk_ok_def well_placed_def batch_store_def)

lemma batch_object_there:
  "host_has (service (example_coordinator m cs)) ''/d/a'' (stable_object_identity ''posix:1:2:3'')"
proof -
  have "path_elems ''/d/a'' \<noteq> path_elems ''/d''" "identity batch_file = stable_object_identity ''posix:1:2:3''"
    by code_simp+
  then show ?thesis
    by (simp add: host_has_def has_identity_def lookup_def example_coordinator_def batch_host_def
        example_volume_def)
qed

lemma example_transaction_consistent:
  "consistent (host_has (service (example_coordinator m cs)))
     (host_vacant (service (example_coordinator m cs))) example_transaction"
proof (rule service.prepared_consistent [OF example_prepared])
  show "batch_items example_transaction \<noteq> []"
    by (simp add: example_transaction_def new_transaction_def)
qed (simp add: example_sources_def example_source_def batch_object_there)

definition example_record :: "byte list" where
  "example_record = encode_operation kind_batch_rename (batch_payload example_transaction)"

definition example_journal :: "path \<rightharpoonup> node" where
  "example_journal = [''/j'' \<mapsto> Regular (make_envelope example_record)]"

lemma example_payload_length: "length (batch_payload example_transaction) < 1000"
proof -
  have "item_temporary example_item = ''/d/.vove-1-0.tmp''" by code_simp
  then show ?thesis
    by (simp add: batch_payload_def enc_item_def example_transaction_def new_transaction_def)
      (simp add: example_item_def)
qed

lemma example_payload_ok:
  "operation_payload_ok kind_batch_rename (batch_payload example_transaction)"
  using example_payload_length
  by (simp add: operation_payload_ok_def kMaximumCurrentOperationPayloadBytes_def
      kMaximumDurableJournalPayloadBytes_def kCurrentOperationJournalHeaderBytes_def kind_batch_rename_def)

lemma example_record_verdict:
  "verdict_of kAbsoluteMaximumDurableJournalPayloadBytes (Some (Regular (make_envelope example_record))) =
     Valid example_record"
proof -
  have "length example_record < 2000"
    using example_payload_length
    by (simp add: example_record_def length_encode_operation kCurrentOperationJournalHeaderBytes_def)
  then show ?thesis
    by (simp add: verdict_of_def open_make_envelope length_make_envelope maximum_envelope_bytes_def
        kAbsoluteMaximumDurableJournalPayloadBytes_def)
qed

lemma example_views:
  "disk_views (journal (example_coordinator example_journal cs)) = {(Journal_success, example_record)}"
  by (simp add: disk_views_def example_coordinator_def recovered_record_def recovered_unfold
      batch_store_def example_journal_def example_record_verdict read_success_def)

lemma example_at_hand: "batch_at_hand example_transaction (example_coordinator example_journal cs)"
proof -
  have "batch_record example_transaction (Journal_success, example_record)"
    using example_transaction_encodes example_payload_ok
    by (simp add: batch_record_iff example_record_def)
  then have "recorded example_transaction (journal (example_coordinator example_journal cs))"
    by (simp add: recorded_iff example_views) (simp add: example_coordinator_def batch_store_ok)
  with example_transaction_consistent show ?thesis
    by (simp add: batch_at_hand_def recorded_recoverable)
qed

lemma batch_crash_safe_witness:
  "object_kept (host_has (service (snd (advance serve_rename example_transaction
     (example_coordinator example_journal (replicate 9 Call_ok @ [Call_fails EIO True])))))) example_item"
proof -
  let ?w = "example_coordinator example_journal (replicate 9 Call_ok @ [Call_fails EIO True])"
  obtain e t' w' where run: "advance serve_rename example_transaction ?w = ((e, t'), w')"
    by (metis prod.exhaust)
  from batch_crash_safe [OF example_at_hand run] run show ?thesis
    by (simp add: example_transaction_def new_transaction_def)
qed

lemma batch_rename_outcome_witness:
  "let (res, w') = run_new serve_rename example_plan example_sources (example_coordinator Map.empty []) in
   run_status res = Run_success \<longrightarrow> (\<exists>op t. prepare_batch_transaction example_plan example_sources op = Inr t \<and>
     (\<forall>item\<in>set (batch_items t). host_has (service w') (item_destination item) (physical_id item)))"
proof -
  let ?w = "example_coordinator Map.empty []"
  obtain res w' where run: "run_new serve_rename example_plan example_sources ?w = (res, w')" by fastforce
  have "disk_ok (journal ?w)" by (simp add: example_coordinator_def batch_store_ok)
  moreover have "\<forall>s\<in>set example_sources.
      host_has (service ?w) (source_path s) (stable_object_identity (source_revision s))"
    by (simp add: example_sources_def example_source_def batch_object_there)
  ultimately show ?thesis using batch_rename_outcome [OF _ _ run] run by simp
qed


end
