(* ===== verification/Delete_Transaction.thy ===== *)
theory Delete_Transaction
  imports Batch_Record
begin

text \<open>
  The journal record of a permanent delete:
  \<open>src/Source/src/fileops/permanent_delete_transaction.cpp\<close>. Every item is moved to a private
  temporary name before the first one is destroyed; the record says how far each has come. The
  theory holds the validator, the preparation and the binary format (POSIX branch).
\<close>

section \<open>Data\<close>

datatype PermanentDeletePhase =
  Del_prepared | Del_evacuating | Del_rollback | Permanent_delete_intent | Del_deleting

datatype PermanentDeleteItemLocation = In_source | In_temporary | In_deleted

datatype PermanentDeleteStep = Del_none | Del_evacuate | Del_roll_back | Del_erase

record PermanentDeleteSource =
  target_path :: path
  target_snapshot :: SourceSnapshot

record PermanentDeleteItem =
  del_source :: path
  del_temporary :: path
  del_current :: path
  del_snapshot :: SourceSnapshot
  del_location :: PermanentDeleteItemLocation

record PermanentDeleteTransaction =
  del_version :: u32
  del_operation_id :: u64
  del_phase :: PermanentDeletePhase
  del_step :: PermanentDeleteStep
  del_index :: u32
  del_evidence :: OperationEvidence
  del_failure :: OperationStatus
  del_detail :: string
  del_items :: "PermanentDeleteItem list"

definition kPermanentDeleteTransactionVersion :: u32 where
  "kPermanentDeleteTransactionVersion = 1"

definition kMaximumPermanentDeleteItems :: nat where
  "kMaximumPermanentDeleteItems = 10000"

definition deleteMagic :: u32 where
  "deleteMagic = 0x31544450"

section \<open>Validity\<close>

definition delete_leaf :: "u64 \<Rightarrow> nat \<Rightarrow> string" where
  "delete_leaf operation_id index =
     ''.vove-delete-'' @ hexadecimal operation_id @ ''-'' @ to_chars 16 index @ ''.tmp''"

definition delete_temporary_path :: "path \<Rightarrow> u64 \<Rightarrow> nat \<Rightarrow> path" where
  "delete_temporary_path source operation_id index =
     path_append (parent_path source) (delete_leaf operation_id index)"

definition expected_current :: "PermanentDeleteItem \<Rightarrow> bool" where
  "expected_current item =
     (case del_location item of
        In_source \<Rightarrow> path_eq (del_current item) (del_source item)
      | In_temporary \<Rightarrow> path_eq (del_current item) (del_temporary item)
      | In_deleted \<Rightarrow> del_current item = [])"

fun location_allowed :: "PermanentDeletePhase \<Rightarrow> PermanentDeleteItemLocation \<Rightarrow> bool" where
  "location_allowed Del_prepared location = (location = In_source)"
| "location_allowed Del_evacuating location = (location = In_source \<or> location = In_temporary)"
| "location_allowed Del_rollback location = (location = In_source \<or> location = In_temporary)"
| "location_allowed Permanent_delete_intent location = (location = In_temporary)"
| "location_allowed Del_deleting location = (location = In_temporary \<or> location = In_deleted)"

definition active_step_matches :: "PermanentDeleteTransaction \<Rightarrow> bool" where
  "active_step_matches t =
     (let location = del_location (del_items t ! unat (del_index t)) in
      case del_step t of
        Del_none \<Rightarrow> del_index t = 0
      | Del_evacuate \<Rightarrow> del_phase t = Del_evacuating \<and> location = In_source
      | Del_roll_back \<Rightarrow> del_phase t = Del_rollback \<and> location = In_temporary
      | Del_erase \<Rightarrow> del_phase t = Del_deleting \<and> location = In_temporary)"

definition del_identity :: "PermanentDeleteItem \<Rightarrow> string" where
  "del_identity item = stable_object_identity (source_revision_utf8 (del_snapshot item))"

definition del_paths_ok :: "PermanentDeletePhase \<Rightarrow> path \<Rightarrow> PermanentDeleteItem \<Rightarrow> bool" where
  "del_paths_ok phase parent item \<longleftrightarrow>
     is_absolute (del_source item) \<and> is_absolute (del_temporary item) \<and>
     lexically_normal (parent_path (del_source item)) = parent \<and>
     lexically_normal (parent_path (del_temporary item)) = parent \<and>
     expected_current item \<and> location_allowed phase (del_location item)"

text \<open>The loop over the items; the set holds the identities inserted so far.\<close>

fun check_delete_items ::
  "PermanentDeletePhase \<Rightarrow> path \<Rightarrow> string set \<Rightarrow> PermanentDeleteItem list \<Rightarrow> string + unit"
where
  "check_delete_items phase parent identities [] = Inr ()"
| "check_delete_items phase parent identities (item # items) =
     (if \<not> del_paths_ok phase parent item then
        Inl ''permanent-delete item paths are inconsistent''
      else case valid_destination_filename (filename (del_temporary item)) of
        Inl detail \<Rightarrow> Inl detail
      | Inr _ \<Rightarrow>
          if del_identity item = [] \<or> del_identity item \<in> identities then
            Inl ''permanent-delete identity is invalid or duplicated''
          else check_delete_items phase parent (insert (del_identity item) identities) items)"

definition del_parent :: "PermanentDeleteTransaction \<Rightarrow> path" where
  "del_parent t = lexically_normal (parent_path (del_source (hd (del_items t))))"

definition valid_permanent_delete_transaction :: "PermanentDeleteTransaction \<Rightarrow> string + unit" where
  "valid_permanent_delete_transaction t =
     (if del_version t \<noteq> kPermanentDeleteTransactionVersion \<or> del_operation_id t = 0 \<or>
         del_items t = [] \<or> kMaximumPermanentDeleteItems < length (del_items t) then
        Inl ''permanent-delete transaction header is invalid''
      else if (del_step t = Del_none \<and> del_index t \<noteq> 0) \<or>
              (del_step t \<noteq> Del_none \<and> length (del_items t) \<le> unat (del_index t)) \<or>
              \<not> active_step_matches t then
        Inl ''permanent-delete active step is invalid''
      else if (del_step t = Del_none \<and> del_evidence t \<noteq> Evidence_none) \<or>
              (del_failure t = Success \<and> del_evidence t \<noteq> Evidence_none) then
        Inl ''permanent-delete evidence is inconsistent''
      else check_delete_items (del_phase t) (del_parent t) {} (del_items t))"

subsection \<open>What the validator accepts\<close>

definition del_item_ok :: "PermanentDeletePhase \<Rightarrow> path \<Rightarrow> PermanentDeleteItem \<Rightarrow> bool" where
  "del_item_ok phase parent item \<longleftrightarrow>
     del_paths_ok phase parent item \<and>
     valid_destination_filename (filename (del_temporary item)) = Inr () \<and> del_identity item \<noteq> []"

lemma check_delete_items_Inr:
  "check_delete_items phase parent ids items = Inr () \<longleftrightarrow>
     (\<forall>item\<in>set items. del_item_ok phase parent item) \<and>
     distinct (map del_identity items) \<and> del_identity ` set items \<inter> ids = {}"
  by (induction items arbitrary: ids) (auto simp: del_item_ok_def split: sum.splits if_splits)

definition del_header_ok :: "PermanentDeleteTransaction \<Rightarrow> bool" where
  "del_header_ok t \<longleftrightarrow>
     del_version t = kPermanentDeleteTransactionVersion \<and> del_operation_id t \<noteq> 0 \<and>
     del_items t \<noteq> [] \<and> length (del_items t) \<le> kMaximumPermanentDeleteItems \<and>
     (del_step t = Del_none \<longrightarrow> del_index t = 0) \<and>
     (del_step t \<noteq> Del_none \<longrightarrow> unat (del_index t) < length (del_items t)) \<and>
     active_step_matches t \<and>
     (del_evidence t \<noteq> Evidence_none \<longrightarrow> del_step t \<noteq> Del_none \<and> del_failure t \<noteq> Success)"

lemma valid_permanent_delete_iff:
  "valid_permanent_delete_transaction t = Inr () \<longleftrightarrow>
     del_header_ok t \<and> (\<forall>item\<in>set (del_items t). del_item_ok (del_phase t) (del_parent t) item) \<and>
     distinct (map del_identity (del_items t))"
  by (auto simp: valid_permanent_delete_transaction_def check_delete_items_Inr del_header_ok_def
      not_less not_le)

section \<open>Preparation\<close>

definition prepare_delete_item :: "u64 \<Rightarrow> nat \<Rightarrow> PermanentDeleteSource \<Rightarrow> PermanentDeleteItem" where
  "prepare_delete_item operation_id index source =
     \<lparr>del_source = target_path source,
      del_temporary = delete_temporary_path (target_path source) operation_id index,
      del_current = target_path source, del_snapshot = target_snapshot source,
      del_location = In_source\<rparr>"

definition new_delete_transaction ::
  "u64 \<Rightarrow> PermanentDeleteItem list \<Rightarrow> PermanentDeleteTransaction"
where
  "new_delete_transaction operation_id items =
     \<lparr>del_version = kPermanentDeleteTransactionVersion, del_operation_id = operation_id,
      del_phase = Del_prepared, del_step = Del_none, del_index = 0, del_evidence = Evidence_none,
      del_failure = Success, del_detail = [], del_items = items\<rparr>"

text \<open>\<^const>\<open>Inl\<close> is \<open>std::invalid_argument\<close>.\<close>

definition prepare_permanent_delete_transaction ::
  "PermanentDeleteSource list \<Rightarrow> u64 \<Rightarrow> string + PermanentDeleteTransaction"
where
  "prepare_permanent_delete_transaction sources operation_id =
     (if sources = [] \<or> kMaximumPermanentDeleteItems < length sources \<or> operation_id = 0 then
        Inl ''permanent-delete sources are invalid''
      else let t = new_delete_transaction operation_id
                     (map (\<lambda>(index, source). prepare_delete_item operation_id index source)
                        (enumerate 0 sources)) in
        case valid_permanent_delete_transaction t of Inl detail \<Rightarrow> Inl detail | Inr _ \<Rightarrow> Inr t)"

lemma prepare_permanent_delete:
  assumes "prepare_permanent_delete_transaction sources op = Inr t"
  shows "valid_permanent_delete_transaction t = Inr ()" "length (del_items t) = length sources"
    "i < length sources \<Longrightarrow> del_items t ! i = prepare_delete_item op i (sources ! i)"
    "del_phase t = Del_prepared" "del_step t = Del_none" "del_evidence t = Evidence_none"
  using assms
  by (auto simp: prepare_permanent_delete_transaction_def Let_def new_delete_transaction_def
      nth_enumerate_eq case_sum_Inr split: if_splits)

section \<open>The enumerations\<close>

definition del_phases :: "PermanentDeletePhase list" where
  "del_phases = [Del_prepared, Del_evacuating, Del_rollback, Permanent_delete_intent, Del_deleting]"

definition del_steps :: "PermanentDeleteStep list" where
  "del_steps = [Del_none, Del_evacuate, Del_roll_back, Del_erase]"

definition del_locations :: "PermanentDeleteItemLocation list" where
  "del_locations = [In_source, In_temporary, In_deleted]"

lemma del_enum_tables [simp]:
  "enum_table del_phases" "enum_table del_steps" "enum_table del_locations"
proof -
  have "p \<in> set del_phases" for p by (cases p) (simp_all add: del_phases_def)
  moreover have "s \<in> set del_steps" for s by (cases s) (simp_all add: del_steps_def)
  moreover have "l \<in> set del_locations" for l by (cases l) (simp_all add: del_locations_def)
  ultimately show "enum_table del_phases" "enum_table del_steps" "enum_table del_locations"
    unfolding enum_table_def
    by (simp_all only: simp_thms) (simp_all add: del_phases_def del_steps_def del_locations_def)
qed

section \<open>Items\<close>

definition enc_delete_item :: "PermanentDeleteItem \<Rightarrow> byte list" where
  "enc_delete_item item =
     append_integer (enum_code del_locations (del_location item)) @
     append_integer (0 :: u8) @ append_integer (0 :: u16) @
     append_integer (size_bytes (del_snapshot item)) @
     append_integer (modified_unix_ns (del_snapshot item)) @
     append_string (del_source item) @ append_string (del_temporary item) @
     append_string (del_current item) @ append_string (source_revision_utf8 (del_snapshot item))"

definition del_item_fits :: "PermanentDeleteItem \<Rightarrow> bool" where
  "del_item_fits item \<longleftrightarrow>
     string_fits (del_source item) \<and> string_fits (del_temporary item) \<and>
     string_fits (del_current item) \<and> string_fits (source_revision_utf8 (del_snapshot item))"

definition del_item_utf8 :: "PermanentDeleteItem \<Rightarrow> bool" where
  "del_item_utf8 item \<longleftrightarrow>
     valid_utf8 (del_source item) \<and> valid_utf8 (del_temporary item) \<and>
     valid_utf8 (del_current item) \<and> valid_utf8 (source_revision_utf8 (del_snapshot item))"

definition dec_delete_item :: "byte list \<Rightarrow> (PermanentDeleteItem \<times> byte list) option" where
  "dec_delete_item bs = do {
     (location, bs) \<leftarrow> (read_integer bs :: (u8 \<times> byte list) option);
     (reserved8, bs) \<leftarrow> (read_integer bs :: (u8 \<times> byte list) option);
     (reserved16, bs) \<leftarrow> (read_integer bs :: (u16 \<times> byte list) option);
     (size, bs) \<leftarrow> (read_integer bs :: (u64 \<times> byte list) option);
     (modified, bs) \<leftarrow> (read_integer bs :: (i64 \<times> byte list) option);
     (source, bs) \<leftarrow> read_string bs;
     (temporary, bs) \<leftarrow> read_string bs;
     (current, bs) \<leftarrow> read_string bs;
     (revision, bs) \<leftarrow> read_string bs;
     location \<leftarrow> enum_of del_locations location;
     (let item = \<lparr>del_source = source, del_temporary = temporary, del_current = current,
                  del_snapshot = \<lparr>size_bytes = size, modified_unix_ns = modified,
                                  source_revision_utf8 = revision\<rparr>,
                  del_location = location\<rparr> in
      if reserved8 \<noteq> 0 \<or> reserved16 \<noteq> 0 \<or> \<not> del_item_utf8 item then None else Some (item, bs)) }"

definition del_item_encodable :: "PermanentDeleteItem \<Rightarrow> bool" where
  "del_item_encodable item \<longleftrightarrow> del_item_fits item \<and> del_item_utf8 item"

lemma dec_enc_delete_item:
  "del_item_encodable item \<Longrightarrow> dec_delete_item (enc_delete_item item @ rest) = Some (item, rest)"
  by (simp add: dec_delete_item_def enc_delete_item_def byte_codec.dec_enc u16_codec.dec_enc
      u64_codec.dec_enc string_codec.dec_enc del_item_encodable_def del_item_fits_def Let_def
      del_item_utf8_def)

lemma enc_dec_delete_item:
  assumes "dec_delete_item bs = Some (item, rest)"
  shows "del_item_encodable item \<and> bs = enc_delete_item item @ rest"
  using assms
  by (auto simp: dec_delete_item_def bind_Some_iff byte_codec.dec_Some_iff u16_codec.dec_Some_iff
      u64_codec.dec_Some_iff string_codec.dec_Some_iff Let_def enc_delete_item_def
      del_item_encodable_def del_item_fits_def del_item_utf8_def enum_of_iff split: if_splits)

interpretation delete_item_codec: codec enc_delete_item dec_delete_item del_item_encodable
  using dec_enc_delete_item enc_dec_delete_item by unfold_locales blast+

section \<open>Transactions\<close>

definition enc_delete_header :: "PermanentDeleteTransaction \<Rightarrow> byte list" where
  "enc_delete_header t =
     append_integer deleteMagic @ append_integer (del_version t) @
     append_integer (del_operation_id t) @
     append_integer (enum_code del_phases (del_phase t)) @
     append_integer (enum_code del_steps (del_step t)) @
     append_integer (enum_code all_statuses (del_failure t)) @
     append_integer (enum_code all_evidence (del_evidence t)) @
     append_integer (del_index t) @
     append_integer (word_of_nat (length (del_items t)) :: u32) @
     append_string (del_detail t)"

definition del_strings_fit :: "PermanentDeleteTransaction \<Rightarrow> bool" where
  "del_strings_fit t \<longleftrightarrow> string_fits (del_detail t) \<and> list_all del_item_fits (del_items t)"

definition delete_payload :: "PermanentDeleteTransaction \<Rightarrow> byte list" where
  "delete_payload t = enc_delete_header t @ concat (map enc_delete_item (del_items t))"

text \<open>\<^const>\<open>Inl\<close> is an exception: \<open>invalid_argument\<close> or \<open>length_error\<close>.\<close>

definition encode_permanent_delete_transaction ::
  "PermanentDeleteTransaction \<Rightarrow> string + byte list"
where
  "encode_permanent_delete_transaction t =
     (case valid_permanent_delete_transaction t of
        Inl detail \<Rightarrow> Inl detail
      | Inr _ \<Rightarrow>
          if \<not> del_strings_fit t then Inl ''permanent-delete transaction string is too large''
          else if maximumPayloadBytes < length (delete_payload t) then
            Inl ''permanent-delete transaction exceeds the journal limit''
          else Inr (delete_payload t))"

definition dec_delete_header ::
  "byte list \<Rightarrow> ((PermanentDeleteTransaction \<times> nat) \<times> byte list) option"
where
  "dec_delete_header bs = do {
     (magic, bs) \<leftarrow> (read_integer bs :: (u32 \<times> byte list) option);
     (version, bs) \<leftarrow> (read_integer bs :: (u32 \<times> byte list) option);
     (operation_id, bs) \<leftarrow> (read_integer bs :: (u64 \<times> byte list) option);
     (phase, bs) \<leftarrow> (read_integer bs :: (u8 \<times> byte list) option);
     (step, bs) \<leftarrow> (read_integer bs :: (u8 \<times> byte list) option);
     (status, bs) \<leftarrow> (read_integer bs :: (u8 \<times> byte list) option);
     (evidence, bs) \<leftarrow> (read_integer bs :: (u8 \<times> byte list) option);
     (index, bs) \<leftarrow> (read_integer bs :: (u32 \<times> byte list) option);
     (item_count, bs) \<leftarrow> (read_integer bs :: (u32 \<times> byte list) option);
     (detail, bs) \<leftarrow> read_string bs;
     phase \<leftarrow> enum_of del_phases phase;
     step \<leftarrow> enum_of del_steps step;
     status \<leftarrow> enum_of all_statuses status;
     evidence \<leftarrow> enum_of all_evidence evidence;
     if magic \<noteq> deleteMagic \<or> item_count = 0 \<or> kMaximumPermanentDeleteItems < unat item_count
     then None
     else Some ((\<lparr>del_version = version, del_operation_id = operation_id, del_phase = phase,
                  del_step = step, del_index = index, del_evidence = evidence,
                  del_failure = status, del_detail = detail, del_items = []\<rparr>,
                 unat item_count), bs) }"

definition dec_delete :: "byte list \<Rightarrow> string + (PermanentDeleteTransaction \<times> byte list)" where
  "dec_delete bs =
     (case dec_delete_header bs of
        None \<Rightarrow> Inl ''permanent-delete transaction header is invalid or truncated''
      | Some ((t, item_count), bs) \<Rightarrow>
          (case dec_many dec_delete_item item_count bs of
             None \<Rightarrow> Inl ''permanent-delete transaction item is invalid or truncated''
           | Some (items, bs) \<Rightarrow> Inr (t\<lparr>del_items := items\<rparr>, bs)))"

definition delete_trailing :: string where
  "delete_trailing = ''permanent-delete transaction contains trailing bytes''"

definition decode_permanent_delete_transaction ::
  "byte list \<Rightarrow> string + PermanentDeleteTransaction"
where
  "decode_permanent_delete_transaction payload =
     (if maximumPayloadBytes < length payload then
        Inl ''permanent-delete transaction exceeds the journal limit''
      else sum_bind (dec_delete payload) (\<lambda>(t, bs).
        if bs \<noteq> [] then Inl delete_trailing
        else case valid_permanent_delete_transaction t of
               Inl detail \<Rightarrow> Inl (if detail = [] then delete_trailing else detail)
             | Inr _ \<Rightarrow> Inr t))"

subsection \<open>The layout is canonical\<close>

definition delete_encodable :: "PermanentDeleteTransaction \<Rightarrow> bool" where
  "delete_encodable t \<longleftrightarrow>
     del_items t \<noteq> [] \<and> length (del_items t) \<le> kMaximumPermanentDeleteItems \<and>
     string_fits (del_detail t) \<and> (\<forall>item\<in>set (del_items t). del_item_encodable item)"

lemma unat_delete_count:
  "length items \<le> kMaximumPermanentDeleteItems \<Longrightarrow>
     unat (word_of_nat (length items) :: u32) = length items"
  by (simp add: unat_of_nat take_bit_eq_mod kMaximumPermanentDeleteItems_def)

lemma dec_enc_delete_header:
  assumes "del_items t \<noteq> []" "length (del_items t) \<le> kMaximumPermanentDeleteItems"
    and "string_fits (del_detail t)"
  shows "dec_delete_header (enc_delete_header t @ rest) =
    Some ((t\<lparr>del_items := []\<rparr>, length (del_items t)), rest)"
proof -
  have count: "unat (word_of_nat (length (del_items t)) :: u32) = length (del_items t)"
    by (rule unat_delete_count [OF assms(2)])
  with assms(1) have "(word_of_nat (length (del_items t)) :: u32) \<noteq> 0"
    by (metis length_0_conv unat_eq_0)
  with assms count show ?thesis
    by (simp add: dec_delete_header_def enc_delete_header_def byte_codec.dec_enc u32_codec.dec_enc
        u64_codec.dec_enc string_codec.dec_enc not_less)
qed

lemma enc_dec_delete_header:
  assumes "dec_delete_header bs = Some ((t, n), rest)" "length items = n"
  shows "bs = enc_delete_header (t\<lparr>del_items := items\<rparr>) @ rest \<and> del_items t = [] \<and>
    0 < n \<and> n \<le> kMaximumPermanentDeleteItems \<and> string_fits (del_detail t)"
proof -
  have count: "w = word_of_nat m" if "unat w = m" for w :: u32 and m
    using that by auto
  have "0 < n \<and> n \<le> kMaximumPermanentDeleteItems"
    using assms(1)
    by (auto simp: dec_delete_header_def bind_Some_iff unat_gt_0 not_less split: if_splits)
  with assms show ?thesis
    by (auto simp: dec_delete_header_def bind_Some_iff byte_codec.dec_Some_iff
        u32_codec.dec_Some_iff u64_codec.dec_Some_iff string_codec.dec_Some_iff
        enc_delete_header_def enum_of_iff not_less split: if_splits dest!: count)
qed

lemma dec_delete_payload:
  assumes "delete_encodable t"
  shows "dec_delete (delete_payload t @ rest) = Inr (t, rest)"
proof -
  have "dec_many dec_delete_item (length (del_items t))
      (concat (map enc_delete_item (del_items t)) @ rest) = Some (del_items t, rest)"
    using assms by (intro delete_item_codec.dec_many_enc) (simp add: delete_encodable_def)
  with assms show ?thesis
    by (simp add: dec_delete_def delete_payload_def dec_enc_delete_header delete_encodable_def)
qed

lemma payload_dec_delete:
  assumes "dec_delete bs = Inr (t, rest)"
  shows "delete_encodable t \<and> bs = delete_payload t @ rest"
proof -
  from assms obtain t0 n bs1 items where header: "dec_delete_header bs = Some ((t0, n), bs1)"
    and items: "dec_many dec_delete_item n bs1 = Some (items, rest)"
    and t: "t = t0\<lparr>del_items := items\<rparr>"
    by (auto simp: dec_delete_def split: option.splits)
  from delete_item_codec.enc_dec_many [OF items] have many: "length items = n"
    "\<forall>x\<in>set items. del_item_encodable x" "bs1 = concat (map enc_delete_item items) @ rest"
    by blast+
  from enc_dec_delete_header [OF header many(1)] many show ?thesis
    by (auto simp: t delete_encodable_def delete_payload_def)
qed

lemma encode_delete_InrD:
  assumes "encode_permanent_delete_transaction t = Inr bytes"
  shows "valid_permanent_delete_transaction t = Inr ()" "bytes = delete_payload t"
    "del_strings_fit t" "length bytes \<le> maximumPayloadBytes"
  using assms
  by (auto simp: encode_permanent_delete_transaction_def case_sum_Inr split: if_splits)

lemma decode_encode_delete:
  assumes "encode_permanent_delete_transaction t = Inr bytes"
    and "\<forall>item\<in>set (del_items t). del_item_utf8 item"
  shows "decode_permanent_delete_transaction bytes = Inr t"
proof -
  note enc = encode_delete_InrD [OF assms(1)]
  have "delete_encodable t"
    using enc(1,3) assms(2)
    by (auto simp: valid_permanent_delete_iff del_header_ok_def delete_encodable_def
        del_strings_fit_def del_item_encodable_def list_all_iff)
  from dec_delete_payload [OF this, of "[]"] enc show ?thesis
    by (simp add: decode_permanent_delete_transaction_def)
qed

lemma decode_delete_InrD:
  assumes "decode_permanent_delete_transaction bytes = Inr t"
  shows "valid_permanent_delete_transaction t = Inr ()" "\<forall>item\<in>set (del_items t). del_item_utf8 item"
    "encode_permanent_delete_transaction t = Inr bytes"
proof -
  from assms have dec: "dec_delete bytes = Inr (t, [])" and len: "length bytes \<le> maximumPayloadBytes"
    and valid: "valid_permanent_delete_transaction t = Inr ()"
    by (auto simp: decode_permanent_delete_transaction_def sum_bind_Inr_iff
        split: if_splits sum.splits)
  from payload_dec_delete [OF dec] have enc: "delete_encodable t" "bytes = delete_payload t" by auto
  show "valid_permanent_delete_transaction t = Inr ()" by (rule valid)
  show "\<forall>item\<in>set (del_items t). del_item_utf8 item"
    using enc(1) by (simp add: delete_encodable_def del_item_encodable_def)
  show "encode_permanent_delete_transaction t = Inr bytes"
    using valid len enc
    by (auto simp: encode_permanent_delete_transaction_def delete_encodable_def del_strings_fit_def
        del_item_encodable_def list_all_iff)
qed

end
