(* ===== verification/Delete_Executor.thy ===== *)
theory Delete_Executor
  imports Rename_Executor
begin

text \<open>
  Executing and reconciling one deletion: \<open>permanent_delete_remote\<close> of
  \<open>src/Source/src/fileops/posix/file_operation.cpp\<close> (Linux branch), and \<open>reconcile_delete\<close>,
  \<open>execute_delete\<close> of \<open>file_operation_executor.cpp\<close>, over the volume of \<open>Posix_Volume\<close>. A
  deletion removes the object the request expects or nothing.
\<close>

section \<open>Removing an entry\<close>

definition unlinked :: "path \<Rightarrow> volume \<Rightarrow> volume" where
  "unlinked p v = v\<lparr>entries := (entries v)(path_elems p := None)\<rparr>"

definition has_children :: "path \<Rightarrow> volume \<Rightarrow> bool" where
  "has_children p v \<longleftrightarrow> (\<exists>name. entries v (path_elems p @ [name]) \<noteq> None)"

definition unlink_refused :: "path \<Rightarrow> bool \<Rightarrow> inode \<Rightarrow> volume \<Rightarrow> errno option" where
  "unlink_refused p remove_directory n v =
     (if remove_directory then
        (if inode_kind n \<noteq> Directory_object then Some ENOTDIR
         else if has_children p v then Some ENOTEMPTY else None)
      else if inode_kind n = Directory_object then Some EISDIR else None)"

text \<open>\<open>unlinkat\<close>, with or without \<open>AT_REMOVEDIR\<close>; like a rename it may fail after it took effect,
  under an error that leaves the outcome open.\<close>

definition unlinkat :: "path \<Rightarrow> bool \<Rightarrow> volume \<Rightarrow> (errno + unit) \<times> volume" where
  "unlinkat p remove_directory v =
     (case next_call v of
        (Call_ok, v) \<Rightarrow>
          (case lookup v p of
             None \<Rightarrow> (Inl ENOENT, v)
           | Some n \<Rightarrow>
               (case unlink_refused p remove_directory n v of
                  Some e \<Rightarrow> (Inl e, v)
                | None \<Rightarrow> (Inr (), unlinked p v)))
      | (Call_fails e performed, v) \<Rightarrow>
          (Inl e,
           (case lookup v p of
              None \<Rightarrow> v
            | Some n \<Rightarrow>
                if performed \<and> uncertain_errno e \<and> unlink_refused p remove_directory n v = None
                then unlinked p v else v)))"

section \<open>The checks before the removal\<close>

definition check_delete_parent ::
  "DeleteRequest \<Rightarrow> inode \<Rightarrow> volume \<Rightarrow> OperationResult option \<times> volume"
where
  "check_delete_parent request source_parent v =
     (if delete_mode request = Trash_purge then (None, v)
      else check_match (delete_operation_id request) ''source parent identity changed''
             ''source parent identity could not be read''
             (directory_matches_expected source_parent (delete_source_parent_identity request) v))"

text \<open>A result that refuses a source which is the expected one.\<close>

definition refuses_source ::
  "DeleteRequest \<Rightarrow> SourceSnapshot \<Rightarrow> string \<Rightarrow> OperationResult"
where
  "refuses_source request confirmed detail =
     (plain_result (delete_operation_id request) Unsupported No_commit detail)
       \<lparr>source_present := True, source_matches_expected := True, confirmed_snapshot := confirmed\<rparr>"

definition check_remote_filesystem ::
  "DeleteRequest \<Rightarrow> inode \<Rightarrow> volume \<Rightarrow> OperationResult option \<times> volume"
where
  "check_remote_filesystem request source v =
     (if delete_mode request \<noteq> Permanent_remote then (None, v)
      else attempt (fstat v)
        (\<lambda>e v. (Some (failure v (delete_operation_id request) e
           ''source filesystem could not be identified'' False), v))
        (\<lambda>_ v. (if \<not> remote_smb v then
             Some (refuses_source request (snapshot source)
               ''permanent delete is limited to mounted SMB filesystems'') else None, v)))"

definition check_delete_source ::
  "DeleteRequest \<Rightarrow> inode \<Rightarrow> volume \<Rightarrow> OperationResult option \<times> volume"
where
  "check_delete_source request source v =
     (let op = delete_operation_id request; kind = delete_object_kind request in
      if delete_mode request = Trash_purge \<and> delete_source_parent_identity request \<noteq> [] \<and>
         storage_id v \<noteq> delete_source_parent_identity request then
        (Some (changed_result op ''trash storage identity changed''), v)
      else if \<not> snapshot_matches_object source (delete_expected_source request) kind then
        (Some (changed_result op ''source identity changed before delete''), v)
      else if kind = Regular_file \<and> delete_mode request = Trash_purge \<and> st_nlink source \<noteq> 1 then
        (Some (refuses_source request (snapshot_for_object source kind)
           ''VO-VE Trash does not accept files with multiple hard links''), v)
      else check_remote_filesystem request source v)"

text \<open>The published object that guards the removal of its source: its parent directory and itself,
  pinned.\<close>

definition open_guard ::
  "DeleteRequest \<Rightarrow> volume \<Rightarrow> (OperationResult + inode option) \<times> volume"
where
  "open_guard request v =
     (let op = delete_operation_id request; guard_parent_path = parent_path (delete_guard_path request);
          refuse = \<lambda>detail e v. (Inl (failure v op e detail False), v);
          guarding = \<lambda>m rest.
            (case m of (Some r, v) \<Rightarrow> (Inl r, v) | (None, v) \<Rightarrow> rest v) in
      if delete_mode request \<noteq> Transfer_source_commit then (Inr None, v)
      else attempt (open_directory guard_parent_path v)
        (refuse ''publication guard parent is unavailable'') (\<lambda>guard_parent v.
      guarding (check_match op ''publication guard parent identity changed''
          ''publication guard parent identity could not be read''
          (directory_matches_expected guard_parent (delete_guard_parent_identity request) v)) (\<lambda>v.
      attempt (open_regular_at (delete_guard_path request) v)
        (refuse ''publication guard is unavailable'') (\<lambda>guard v.
      if \<not> snapshot_matches guard (delete_expected_guard request) then
        (Inl (changed_result op ''publication guard identity changed''), v)
      else guarding (check_match op ''publication guard parent path changed''
          ''publication guard parent path is unavailable''
          (path_still_names_directory guard_parent_path guard_parent v))
        (\<lambda>v. (Inr (Some guard), v))))))"

text \<open>The guard is read again, by its descriptor and by its name, just before the removal.\<close>

definition reprove_guard ::
  "DeleteRequest \<Rightarrow> inode option \<Rightarrow> volume \<Rightarrow> OperationResult option \<times> volume"
where
  "reprove_guard request pinned v =
     (let op = delete_operation_id request;
          changed = changed_result op ''publication guard changed before source deletion'' in
      case pinned of
        None \<Rightarrow> (None, v)
      | Some guard \<Rightarrow>
          attempt (fstat v)
            (\<lambda>e v. (Some (failure v op e ''publication guard could not be reread'' False), v)) (\<lambda>_ v.
          if \<not> snapshot_matches guard (delete_expected_guard request) then (Some changed, v)
          else attempt (open_regular_at (delete_guard_path request) v)
            (\<lambda>e v. (Some (if uncertain_errno e
                then failure v op e ''publication guard could not be confirmed'' False
                else changed), v)) (\<lambda>named v.
          (if st_dev named \<noteq> st_dev guard \<or> st_ino named \<noteq> st_ino guard \<or>
              \<not> snapshot_matches named (delete_expected_guard request) then Some changed
           else None, v))))"

definition reprove_backup ::
  "DeleteRequest \<Rightarrow> inode \<Rightarrow> volume \<Rightarrow> OperationResult option \<times> volume"
where
  "reprove_backup request source v =
     (let op = delete_operation_id request in
      if delete_mode request \<noteq> Transfer_overwrite_cleanup then (None, v)
      else attempt (fstat v)
        (\<lambda>e v. (Some (failure v op e
           ''overwrite backup could not be reread before cleanup'' False), v))
        (\<lambda>_ v. (if \<not> snapshot_matches source (delete_expected_source request) then
             Some (changed_result op ''overwrite backup changed before cleanup'') else None, v)))"

section \<open>The removal\<close>

definition commit_delete :: "DeleteRequest \<Rightarrow> inode \<Rightarrow> volume \<Rightarrow> OperationResult \<times> volume" where
  "commit_delete request source v =
     (let op = delete_operation_id request; kind = delete_object_kind request in
      attempt (unlinkat (delete_source request) (kind = Directory_object) v)
        (\<lambda>code v. (failure v op code [] True, v))
        (\<lambda>_ v. ((plain_result op Success Committed [])
                  \<lparr>confirmed_snapshot := snapshot_for_object source kind\<rparr>, v)))"

definition permanent_delete_remote :: "DeleteRequest \<Rightarrow> volume \<Rightarrow> OperationResult \<times> volume" where
  "permanent_delete_remote request v =
     (let op = delete_operation_id request; kind = delete_object_kind request;
          source_parent_path = parent_path (delete_source request) in
      attempt (open_directory source_parent_path v)
        (fails_with op ''source parent is unavailable'') (\<lambda>source_parent v.
      guarded (check_delete_parent request source_parent v) (\<lambda>v.
      attempt (open_object_at (delete_source request) kind v)
        (fails_with op ''source file is unavailable'') (\<lambda>source v.
      guarded (check_delete_source request source v) (\<lambda>v.
      case open_guard request v of
        (Inl r, v) \<Rightarrow> (r, v)
      | (Inr guard, v) \<Rightarrow>
          guarded (check_match op ''source parent path changed''
              ''source parent path is unavailable''
              (path_still_names_directory source_parent_path source_parent v)) (\<lambda>v.
          guarded (reprove_guard request guard v) (\<lambda>v.
          guarded (reprove_backup request source v) (\<lambda>v.
          guarded (check_match op ''source name changed before delete commit''
              ''source name could not be confirmed before delete commit''
              (name_still_names_object (delete_source request) source kind v)) (\<lambda>v.
          commit_delete request source v)))))))))"

section \<open>Reconciling\<close>

definition delete_storage :: "DeleteRequest \<Rightarrow> string" where
  "delete_storage r =
     (if is_trash_purge_mode (delete_mode r) then delete_source_parent_identity r else [])"

text \<open>The private payload after the share was mounted again.\<close>

definition delete_remounted :: "DeleteRequest \<Rightarrow> ObservedSource \<Rightarrow> bool" where
  "delete_remounted r observed \<longleftrightarrow>
     is_trash_purge_mode (delete_mode r) \<and>
     same_private_trash_payload_after_remount (delete_expected_source r)
       (observed_snapshot observed) (delete_source_parent_identity r) (observed_storage observed)"

text \<open>\<open>expected_storage_matches_parent\<close>: one more look at the parent, which may fail.\<close>

definition parent_storage_matches :: "string \<Rightarrow> path \<Rightarrow> volume \<Rightarrow> bool \<times> volume" where
  "parent_storage_matches expected p v =
     (if expected = [] then (True, v)
      else attempt (open_directory (parent_path p) v) (\<lambda>_ v. (False, v))
        (\<lambda>_ v. (storage_id v = expected, v)))"

definition judge_absent :: "DeleteRequest \<Rightarrow> bool \<Rightarrow> OperationResult \<Rightarrow> OperationResult" where
  "judge_absent r storage_matches seen =
     (if \<not> storage_matches then
        seen\<lparr>status := Source_changed, evidence := Conflicting,
             detail_utf8 := ''source storage identity changed while delete was pending''\<rparr>
      else if is_trash_purge_mode (delete_mode r) \<or> delete_cleanup r then
        seen\<lparr>status := Success, evidence := Committed,
             detail_utf8 :=
               (if is_trash_purge_mode (delete_mode r)
                then ''private trash payload is absent after purge intent''
                else ''owned transfer temporary path is absent after cleanup'')\<rparr>
      else
        seen\<lparr>status := Unknown_outcome, evidence := Evidence_none,
             detail_utf8 := ''delete outcome is uncertain because absence cannot distinguish ''
               @ ''deletion from a concurrent remote rename''\<rparr>)"

definition judge_present :: "DeleteRequest \<Rightarrow> ObservedSource \<Rightarrow> OperationResult \<Rightarrow> OperationResult" where
  "judge_present r source seen =
     (let storage_matches = expected_storage_matches (delete_storage r) source in
      if matches_expected source \<and> storage_matches \<or>
         observed_remote_smb source \<and> delete_remounted r source then
        seen\<lparr>status := Conflict, evidence := No_commit,
             confirmed_snapshot := observed_snapshot source,
             detail_utf8 := ''reconciliation confirmed that delete did not commit''\<rparr>
      else if stable_identity_matches source \<and> storage_matches then
        seen\<lparr>status := Source_changed, evidence := No_commit,
             confirmed_snapshot := observed_snapshot source,
             detail_utf8 := ''source changed while delete was pending''\<rparr>
      else if present source then
        seen\<lparr>status := Unknown_outcome, evidence := Conflicting,
             confirmed_snapshot := observed_snapshot source,
             detail_utf8 := ''delete outcome is uncertain because the source path now ''
               @ ''names another object''\<rparr>
      else
        seen\<lparr>status := Unknown_outcome, evidence := Evidence_none,
             platform_code := observed_code source,
             detail_utf8 := (if observed_detail source = []
                             then ''delete outcome could not be reconciled''
                             else observed_detail source)\<rparr>)"

definition reconcile_delete :: "DeleteRequest \<Rightarrow> volume \<Rightarrow> OperationResult \<times> volume" where
  "reconcile_delete r v =
     (case valid_delete_request r of
        Inl detail \<Rightarrow> (plain_result (delete_operation_id r) Invalid_request No_commit detail, v)
      | Inr _ \<Rightarrow>
          (let (source, v) = observe_object (delete_source r) (delete_expected_source r)
                               (delete_object_kind r) v;
               seen = (plain_result (delete_operation_id r) Io_error Evidence_none [])
                 \<lparr>source_present := present source,
                  source_matches_expected :=
                    matches_expected source \<and> expected_storage_matches (delete_storage r) source \<or>
                    observed_remote_smb source \<and> delete_remounted r source\<rparr> in
           if \<not> present source \<and> observed_failure source = Not_found then
             let (storage_matches, v) =
               parent_storage_matches (delete_storage r) (delete_source r) v
             in (judge_absent r storage_matches seen, v)
           else (judge_present r source seen, v)))"

section \<open>Executing\<close>

definition delete_then_reconcile :: "DeleteRequest \<Rightarrow> volume \<Rightarrow> OperationResult \<times> volume" where
  "delete_then_reconcile r v =
     (let (result, v) = permanent_delete_remote r v in
      if needs_reconciliation result then
        let (observed, v) = reconcile_delete r v in (merge_reconciliation result observed, v)
      else (result, v))"

text \<open>A source whose snapshot is out of date but which is certainly the same private object.\<close>

definition delete_refreshable :: "DeleteRequest \<Rightarrow> ObservedSource \<Rightarrow> bool" where
  "delete_refreshable r source \<longleftrightarrow>
     (delete_mode r = Transfer_temp_cleanup \<or> is_trash_purge_mode (delete_mode r)) \<and>
     present source \<and> observed_remote_smb source \<and>
     (expected_storage_matches (delete_storage r) source \<and>
        same_object_after_rename (delete_expected_source r) (observed_snapshot source) \<or>
      delete_remounted r source)"

definition execute_delete :: "DeleteRequest \<Rightarrow> volume \<Rightarrow> OperationResult \<times> volume" where
  "execute_delete r v =
     (case valid_delete_request r of
        Inl detail \<Rightarrow> (plain_result (delete_operation_id r) Invalid_request No_commit detail, v)
      | Inr _ \<Rightarrow>
          (let (source, v) = observe_object (delete_source r) (delete_expected_source r)
                               (delete_object_kind r) v;
               storage_matches = expected_storage_matches (delete_storage r) source;
               source_matches = (matches_expected source \<and> storage_matches) in
           if present source \<and> source_matches then delete_then_reconcile r v
           else if delete_refreshable r source then
             delete_then_reconcile (r\<lparr>delete_expected_source := observed_snapshot source\<rparr>) v
           else
             (let storage_changed = (present source \<and> \<not> storage_matches) in
              ((plain_result (delete_operation_id r)
                  (if storage_changed then Source_changed else observed_failure source) No_commit
                  (if storage_changed then ''source storage identity changed before delete''
                   else if observed_detail source = [] then ''source is unavailable''
                   else observed_detail source))
                 \<lparr>platform_code := observed_code source, source_present := present source,
                  source_matches_expected := source_matches\<rparr>, v))))"

section \<open>What a result proves\<close>

text \<open>The object that a request may remove: the one it expects, or, for private objects of VO-VE
  itself, the one it certainly was before the share was mounted again or a rename was noticed.\<close>

definition deletable :: "DeleteRequest \<Rightarrow> volume \<Rightarrow> inode \<Rightarrow> bool" where
  "deletable r v n \<longleftrightarrow>
     (let expected = delete_expected_source r; shot = snapshot_for_object n (delete_object_kind r) in
      snapshot_matches_object n expected (delete_object_kind r) \<or>
      (delete_mode r = Transfer_temp_cleanup \<or> is_trash_purge_mode (delete_mode r)) \<and>
      remote_smb v \<and>
      (same_object_after_rename expected shot \<or>
       same_private_trash_payload_after_remount expected shot (delete_source_parent_identity r)
         (storage_id v)))"

definition was_deleted :: "DeleteRequest \<Rightarrow> volume \<Rightarrow> volume \<Rightarrow> bool" where
  "was_deleted r v v' \<longleftrightarrow>
     (\<exists>n. lookup v (delete_source r) = Some n \<and> deletable r v n \<and>
          still (unlinked (delete_source r) v) v')"

text \<open>Absence proves a deletion only of the objects that nobody else moves.\<close>

definition absence_is_deletion :: "DeleteRequest \<Rightarrow> bool" where
  "absence_is_deletion r \<longleftrightarrow> is_trash_purge_mode (delete_mode r) \<or> delete_cleanup r"

definition delete_truthful :: "DeleteRequest \<Rightarrow> volume \<Rightarrow> OperationResult \<times> volume \<Rightarrow> bool" where
  "delete_truthful r v m \<longleftrightarrow>
     (still v (snd m) \<or> was_deleted r v (snd m) \<and> evidence (fst m) \<noteq> No_commit) \<and>
     (status (fst m) = Success \<longrightarrow> absence_is_deletion r \<or>
        evidence (fst m) = Committed \<and> lookup (snd m) (delete_source r) = None)"

lemma was_deleted_still: "still v0 v \<Longrightarrow> was_deleted r v v' \<Longrightarrow> was_deleted r v0 v'"
  by (auto simp: was_deleted_def deletable_def lookup_def still_def unlinked_def Let_def)

lemma delete_truthful_still: "still v0 v \<Longrightarrow> delete_truthful r v m \<Longrightarrow> delete_truthful r v0 m"
  by (auto simp: delete_truthful_def intro: still_trans was_deleted_still)

lemma delete_truthful_refusal:
  "still v v' \<Longrightarrow> status res \<noteq> Success \<Longrightarrow> delete_truthful r v (res, v')"
  by (simp add: delete_truthful_def)

interpretation deleting: outcome_claim "delete_truthful r" for r
  by unfold_locales (fact delete_truthful_still delete_truthful_refusal)+

lemma refusing_delete_checks:
  "refusing (check_delete_parent r a v)" "refusing (check_delete_source r n v)"
  "refusing (reprove_guard r g v)" "refusing (reprove_backup r n v)"
  by (auto simp: check_delete_parent_def check_delete_source_def check_remote_filesystem_def
      reprove_guard_def reprove_backup_def refuses_source_def Let_def
      intro!: refusing_attempt refusing_check_match split: option.splits)

lemma quiet_delete_checks [quiet_intros]:
  "quiet (check_delete_parent r a v) v" "quiet (check_delete_source r n v) v"
  "quiet (reprove_backup r n v) v" "quiet (reprove_guard r g v) v"
proof -
  show "quiet (reprove_guard r g v) v"
  proof (cases g)
    case None
    then show ?thesis by (simp add: reprove_guard_def quiet_def)
  next
    case (Some n)
    show ?thesis
      unfolding reprove_guard_def Let_def Some option.case by (intro quiet_intros still_refl)
  qed
qed (unfold check_delete_parent_def check_delete_source_def check_remote_filesystem_def
      reprove_backup_def Let_def, (intro quiet_intros still_refl)+)

lemma quiet_guarding [quiet_intros]:
  assumes "quiet m v" "\<And>v'. quiet (rest v') v'"
  shows "quiet (case m of (Some r, v) \<Rightarrow> (Inl r, v) | (None, v) \<Rightarrow> rest v) v"
proof (cases m)
  case (Pair x v')
  with assms(1) have "still v v'" by (simp add: quiet_def)
  with assms(2) Pair show ?thesis by (cases x) (auto simp: quiet_def intro: still_trans)
qed

text \<open>A refusal on the way to the guard is not a success.\<close>

definition refusing_open :: "(OperationResult + 'a) \<times> volume \<Rightarrow> bool" where
  "refusing_open m \<longleftrightarrow> (\<forall>res. fst m = Inl res \<longrightarrow> status res \<noteq> Success)"

lemma refusing_open_simps [simp]:
  "refusing_open (Inl res, v) \<longleftrightarrow> status res \<noteq> Success" "refusing_open (Inr a, v)"
  by (simp_all add: refusing_open_def)

lemma refusing_open_attempt:
  "(\<And>e v. refusing_open (handler e v)) \<Longrightarrow> (\<And>a v. refusing_open (rest a v)) \<Longrightarrow>
     refusing_open (attempt m handler rest)"
  by (simp add: attempt_def split: prod.splits sum.splits)

lemma refusing_open_guarding:
  "refusing m \<Longrightarrow> (\<And>v. refusing_open (rest v)) \<Longrightarrow>
     refusing_open (case m of (Some r, v) \<Rightarrow> (Inl r, v) | (None, v) \<Rightarrow> rest v)"
  by (auto simp: refusing_def split: prod.splits option.splits)

lemma open_guard_outcome:
  "quiet (open_guard r v) v" "refusing_open (open_guard r v)"
  unfolding open_guard_def Let_def
  by (intro quiet_intros still_refl)
    (auto intro!: refusing_open_attempt refusing_open_guarding refusing_check_match)

lemma unlinkat_effect:
  assumes "unlinkat p d v = (x, v')"
  shows "x = Inr u \<Longrightarrow> (\<exists>n. lookup v p = Some n) \<and> still (unlinked p v) v'"
    "x = Inl e \<Longrightarrow> still v v' \<or>
       uncertain_errno e \<and> (\<exists>n. lookup v p = Some n) \<and> still (unlinked p v) v'"
  using assms next_call_still
  by (fastforce simp: unlinkat_def lookup_def still_def unlinked_def
      split: prod.splits call.splits option.splits if_splits)+

lemma lookup_unlinked [simp]: "lookup (unlinked p v) p = None"
  by (simp add: lookup_def unlinked_def)

lemma commit_delete_truthful:
  assumes "lookup v (delete_source r) = Some n" "deletable r v n"
  shows "delete_truthful r v (commit_delete r m v)"
proof -
  obtain x v1 where run:
    "unlinkat (delete_source r) (delete_object_kind r = Directory_object) v = (x, v1)" by fastforce
  note effect = unlinkat_effect [OF run]
  show ?thesis
  proof (cases x)
    case (Inl e)
    from effect(2) [OF Inl] assms run Inl show ?thesis
      by (auto simp: commit_delete_def attempt_def delete_truthful_def was_deleted_def failure_def Let_def)
  next
    case (Inr u)
    from effect(1) [OF Inr] assms run Inr show ?thesis
      by (auto simp: commit_delete_def attempt_def delete_truthful_def was_deleted_def still_lookup)
  qed
qed

text \<open>The removal tells the truth about the volume.\<close>

lemma check_delete_source_passed:
  assumes "check_delete_source r n v = (None, v')"
  shows "snapshot_matches_object n (delete_expected_source r) (delete_object_kind r)"
  using assms by (auto simp: check_delete_source_def Let_def split: if_splits)

lemma permanent_delete_truthful: "delete_truthful r v (permanent_delete_remote r v)"
proof -
  have tail: "delete_truthful r v (case open_guard r v of
      (Inl res, v) \<Rightarrow> (res, v)
    | (Inr guard, v) \<Rightarrow>
        guarded (check_match op a b (path_still_names_directory p parent v)) (\<lambda>v.
        guarded (reprove_guard r guard v) (\<lambda>v.
        guarded (reprove_backup r n v) (\<lambda>v.
        guarded (check_match op c d (name_still_names_object q n kind v)) (\<lambda>v.
        commit_delete r n v)))))"
    if "lookup v (delete_source r) = Some n"
      "snapshot_matches_object n (delete_expected_source r) (delete_object_kind r)"
    for v n op a b p parent c d q kind
  proof -
    have commit: "delete_truthful r v' (commit_delete r n v')" if "still v v'" for v'
    proof (rule commit_delete_truthful [where n = n])
      show "lookup v' (delete_source r) = Some n"
        using \<open>lookup v (delete_source r) = Some n\<close> that by (simp add: still_lookup)
      show "deletable r v' n"
        using \<open>snapshot_matches_object n (delete_expected_source r) (delete_object_kind r)\<close>
        by (simp add: deletable_def Let_def)
    qed
    obtain x v1 where opened: "open_guard r v = (x, v1)" by fastforce
    then have still: "still v v1" using open_guard_outcome(1) [of r v] by (simp add: quiet_def)
    show ?thesis
    proof (cases x)
      case (Inl res)
      with open_guard_outcome(2) [of r v] opened still show ?thesis
        by (simp add: delete_truthful_refusal)
    next
      case (Inr guard)
      have "delete_truthful r v1
        (guarded (check_match op a b (path_still_names_directory p parent v1)) (\<lambda>v.
         guarded (reprove_guard r guard v) (\<lambda>v.
         guarded (reprove_backup r n v) (\<lambda>v.
         guarded (check_match op c d (name_still_names_object q n kind v)) (\<lambda>v.
         commit_delete r n v)))))"
        using still
        by (intro deleting.claim_guarded quiet_intros refusing_check_match refusing_delete_checks commit)
          (blast intro: still_trans)
      with delete_truthful_still [OF still] opened Inr show ?thesis by simp
    qed
  qed
  show ?thesis
    unfolding permanent_delete_remote_def Let_def
  proof (intro deleting.claim_attempt deleting.claim_guarded quiet_intros refusing_delete_checks
      deleting.claim_fails_with tail)
    fix n v1 v2 v3 v4
    assume "open_object_at (delete_source r) (delete_object_kind r) v3 = (Inr n, v4)" "still v3 v4"
    then show "lookup v2 (delete_source r) = Some n" if "still v4 v2"
      using that open_object_at_Inr still_lookup by metis
  qed (auto dest: check_delete_source_passed)
qed

subsection \<open>Reconciliation and execution\<close>

lemma parent_storage_quiet: "quiet (parent_storage_matches e p v) v"
  unfolding parent_storage_matches_def by (intro quiet_intros still_refl)

text \<open>Reconciling changes nothing; it denies the deletion only when something is at the source, and
  reports success only where absence proves a deletion.\<close>

lemma reconcile_delete_outcome:
  assumes "reconcile_delete r v = (res, v')"
  shows "still v v'"
    "valid_delete_request r = Inr () \<Longrightarrow> evidence res = No_commit \<Longrightarrow> lookup v (delete_source r) \<noteq> None"
    "status res = Success \<Longrightarrow> absence_is_deletion r"
proof -
  obtain so v1 where so: "observe_object (delete_source r) (delete_expected_source r)
      (delete_object_kind r) v = (so, v1)" by fastforce
  from observe_object_outcome [OF so] have still1: "still v v1"
    and at: "observed_at v (delete_source r) so" by auto
  obtain b v2 where parent: "parent_storage_matches (delete_storage r) (delete_source r) v1 = (b, v2)"
    by fastforce
  then have "still v1 v2" by (rule quiet_run [OF parent_storage_quiet])
  with still1 have still2: "still v v2" by (rule still_trans)
  note run = assms [unfolded reconcile_delete_def so prod.case Let_def parent]
  show "still v v'" "status res = Success \<Longrightarrow> absence_is_deletion r"
    using run still1 still2
    by (auto simp: judge_absent_def judge_present_def absence_is_deletion_def Let_def
        split: sum.splits if_splits)
  show "lookup v (delete_source r) \<noteq> None"
    if "valid_delete_request r = Inr ()" "evidence res = No_commit"
    using run that at
    by (auto simp: judge_absent_def judge_present_def observed_at_def Let_def split: if_splits)
qed

lemma deletion_vacates: "was_deleted r v v' \<Longrightarrow> lookup v' (delete_source r) = None"
  by (auto simp: was_deleted_def still_lookup)

lemma delete_truthful_merge:
  assumes attempted: "delete_truthful r v (res, v1)"
    and observed: "still v1 v2" "status obs = Success \<Longrightarrow> absence_is_deletion r"
      "lookup v1 (delete_source r) = None \<Longrightarrow> evidence obs \<noteq> No_commit"
    and no_claim: "status res \<noteq> Success"
  shows "delete_truthful r v (merge_reconciliation res obs, v2)"
proof -
  have "still v v1 \<or> was_deleted r v v1 \<and> evidence res \<noteq> No_commit \<and> evidence obs \<noteq> No_commit"
    using attempted observed(3) deletion_vacates by (auto simp: delete_truthful_def)
  then have "still v v2 \<or>
      was_deleted r v v2 \<and> evidence (merge_reconciliation res obs) \<noteq> No_commit"
    using observed(1) by (auto simp: merge_evidence was_deleted_def intro: still_trans)
  moreover have "absence_is_deletion r" if "status (merge_reconciliation res obs) = Success"
    using merge_success [OF that] no_claim observed(2) by auto
  ultimately show ?thesis by (auto simp: delete_truthful_def)
qed

lemma delete_then_reconcile_truthful:
  assumes "valid_delete_request r = Inr ()"
  shows "delete_truthful r v (delete_then_reconcile r v)"
proof -
  obtain res v1 where run: "permanent_delete_remote r v = (res, v1)" by fastforce
  with permanent_delete_truthful [of r v] have attempted: "delete_truthful r v (res, v1)" by simp
  obtain obs v2 where rec: "reconcile_delete r v1 = (obs, v2)" by fastforce
  note observed = reconcile_delete_outcome [OF rec]
  show ?thesis
  proof (cases "needs_reconciliation res")
    case True
    then have "status res \<noteq> Success" by (auto simp: needs_reconciliation_def)
    moreover have "evidence obs \<noteq> No_commit" if "lookup v1 (delete_source r) = None"
      using observed(2) assms that by blast
    ultimately have "delete_truthful r v (merge_reconciliation res obs, v2)"
      using observed(3) by (intro delete_truthful_merge [OF attempted observed(1)]) blast+
    with True run rec show ?thesis by (simp add: delete_then_reconcile_def)
  next
    case False
    with attempted run show ?thesis by (simp add: delete_then_reconcile_def)
  qed
qed

subsection \<open>Requests with a refreshed snapshot\<close>

lemma observe_remote:
  assumes "observe_object p expected kind v = (so, v')" "observed_remote_smb so"
  shows "\<exists>n. lookup v p = Some n \<and> observed_snapshot so = snapshot_for_object n kind \<and>
    remote_smb v \<and> observed_storage so = storage_id v"
proof -
  show ?thesis
  proof (cases "kind = Directory_object")
    case True
    obtain x v1 where opened: "open_directory p v = (x, v1)" by fastforce
    then have still1: "still v v1" by (rule quiet_run [OF quiet_calls(2)])
    from assms True opened obtain n where x: "x = Inr n"
      by (cases x) (auto simp: observe_object_def observe_directory_def attempt_def unavailable_def)
    with opened have at: "lookup v p = Some n" using open_directory_Inr by blast
    obtain y v2 where stat: "fstat v1 = (y, v2)" by fastforce
    then have still2: "still v1 v2" by (rule quiet_run [OF quiet_calls(1)])
    obtain b v3 where smb: "statfs_smb v2 = (b, v3)" by fastforce
    then have still3: "still v2 v3" by (rule statfs_smb_still)
    from smb have b: "b \<Longrightarrow> remote_smb v3"
      by (auto simp: statfs_smb_def attempt_def split: prod.splits sum.splits)
    from still1 still2 still3 have "storage_id v3 = storage_id v" "remote_smb v3 = remote_smb v"
      by (auto simp: still_def)
    with assms True opened x at stat smb b show ?thesis
      by (cases y) (auto simp: observe_object_def observe_directory_def attempt_def unavailable_def
          observed_object_def snapshot_for_object_def Let_def)
  next
    case False
    let ?open = "reading (\<lambda>v. case lookup v p of None \<Rightarrow> Inl ENOENT | Some n \<Rightarrow> Inr n) v"
    obtain x v1 where opened: "?open = (x, v1)" by fastforce
    then have still1: "still v v1" by (rule quiet_run [OF quiet_reading])
    from assms False opened obtain n where x: "x = Inr n"
      by (cases x) (auto simp: observe_object_def observe_def attempt_def unavailable_def)
    with opened have "lookup v1 p = Some n"
      using reading_Inr by (fastforce split: option.splits)
    then have at: "lookup v p = Some n" using still1 by (simp add: still_lookup)
    obtain y v2 where stat: "fstat v1 = (y, v2)" by fastforce
    then have still2: "still v1 v2" by (rule quiet_run [OF quiet_calls(1)])
    obtain b v3 where smb: "statfs_smb v2 = (b, v3)" by fastforce
    then have still3: "still v2 v3" by (rule statfs_smb_still)
    from smb have b: "b \<Longrightarrow> remote_smb v3"
      by (auto simp: statfs_smb_def attempt_def split: prod.splits sum.splits)
    from still1 still2 still3 have "storage_id v3 = storage_id v" "remote_smb v3 = remote_smb v"
      by (auto simp: still_def)
    with assms False opened x at stat smb b show ?thesis
      by (cases y) (auto simp: observe_object_def observe_def attempt_def unavailable_def
          observed_object_def snapshot_for_object_def split: if_splits)
  qed
qed

lemma observe_failure:
  assumes "observe_object p expected kind v = (so, v')" "\<not> (present so \<and> matches_expected so)"
  shows "observed_failure so \<noteq> Success"
  using assms
  by (auto simp: observe_object_def observe_def observe_directory_def attempt_def unavailable_def
      observed_object_def open_error_status_def Let_def split: prod.splits sum.splits if_splits)

lemma revision_not_windows: "\<not> starts_with (revision n) ''win-file:''"
  by (simp add: revision_def Let_def starts_with_def split: option.splits)

lemma revision_nonempty: "revision n \<noteq> []"
  by (simp add: revision_def Let_def split: option.splits)

lemma revision_posix: "posix_revision (revision n)"
  by (simp add: posix_revision_def revision_def Let_def starts_with_def split: option.splits)

lemma revision_stable: "stable_object_identity (revision n) \<noteq> []"
  using identity_nonempty [of n] by (simp add: identity_def)

lemma valid_delete_expected:
  assumes "valid_delete_request r = Inr ()" "source_revision_utf8 s = revision n"
  shows "valid_delete_request (r\<lparr>delete_expected_source := s\<rparr>) = Inr ()"
proof -
  let ?r = "r\<lparr>delete_expected_source := s\<rparr>"
  have passes: "((if b then Inl (d :: string) else x) = Inr ()) \<longleftrightarrow> \<not> b \<and> x = Inr ()" for b d x
    by simp
  have shape: "delete_shape ?r = delete_shape r" "delete_cleanup ?r = delete_cleanup r"
    by (simp_all add: delete_shape_def delete_cleanup_def)
  have guards: "bad_delete_guards ?r \<Longrightarrow> bad_delete_guards r"
    using assms(2) revision_not_windows [of n] by (auto simp: bad_delete_guards_def shape)
  note facts = assms(2) revision_nonempty revision_posix revision_stable
  show ?thesis
    using assms(1) unfolding valid_delete_request_def Let_def passes
    by (elim conjE, intro conjI) (use guards shape in \<open>auto simp: facts\<close>)
qed

text \<open>A snapshot that was refreshed belongs to the object that was there, which the request may
  delete.\<close>

lemma refreshed_delete_truthful:
  assumes "delete_truthful r' v m"
    and "r' = r\<lparr>delete_expected_source := snapshot_for_object n (delete_object_kind r)\<rparr>"
    and "lookup v (delete_source r) = Some n" "deletable r v n"
  shows "delete_truthful r v m"
proof -
  have "was_deleted r v (snd m)" if "was_deleted r' v (snd m)"
    using that assms(2-4) by (auto simp: was_deleted_def)
  moreover have "absence_is_deletion r' = absence_is_deletion r"
    using assms(2) by (simp add: absence_is_deletion_def delete_cleanup_def)
  ultimately show ?thesis
    using assms(1,2) by (auto simp: delete_truthful_def)
qed

text \<open>Whatever fails, executing a deletion removes the object the request may remove, or nothing,
  and its evidence does not deny a removal.\<close>

theorem execute_delete_truthful: "delete_truthful r v (execute_delete r v)"
proof (cases "valid_delete_request r")
  case (Inl d)
  then show ?thesis by (simp add: execute_delete_def delete_truthful_refusal)
next
  case (Inr u)
  then have valid: "valid_delete_request r = Inr ()" by simp
  obtain so v1 where so: "observe_object (delete_source r) (delete_expected_source r)
      (delete_object_kind r) v = (so, v1)" by fastforce
  have still: "still v v1" using observe_object_outcome [OF so] by simp
  note run = execute_delete_def valid so
  let ?storage = "expected_storage_matches (delete_storage r) so"
  consider "present so \<and> matches_expected so \<and> ?storage"
    | "\<not> (present so \<and> matches_expected so \<and> ?storage)" "delete_refreshable r so"
    | "\<not> (present so \<and> matches_expected so \<and> ?storage)" "\<not> delete_refreshable r so"
    by blast
  then show ?thesis
  proof cases
    case 1
    with delete_then_reconcile_truthful [OF valid, of v1] show ?thesis
      by (auto simp: run Let_def intro: delete_truthful_still [OF still])
  next
    case 2
    then have "observed_remote_smb so" by (simp add: delete_refreshable_def)
    from observe_remote [OF so this] obtain n where n: "lookup v (delete_source r) = Some n"
      "observed_snapshot so = snapshot_for_object n (delete_object_kind r)" "remote_smb v"
      "observed_storage so = storage_id v" by blast
    let ?r = "r\<lparr>delete_expected_source := snapshot_for_object n (delete_object_kind r)\<rparr>"
    have may: "deletable r v n"
      using 2(2) n by (auto simp: deletable_def delete_refreshable_def delete_remounted_def Let_def)
    have "valid_delete_request ?r = Inr ()"
      by (rule valid_delete_expected [OF valid, where n = n])
        (simp add: snapshot_for_object_def snapshot_def)
    then have "delete_truthful ?r v (delete_then_reconcile ?r v1)"
      by (intro delete_truthful_still [OF still] delete_then_reconcile_truthful)
    then have "delete_truthful r v (delete_then_reconcile ?r v1)"
      by (rule refreshed_delete_truthful) (use n may in simp_all)
    moreover have "execute_delete r v = delete_then_reconcile ?r v1"
      using 2 n by (auto simp: run Let_def)
    ultimately show ?thesis by simp
  next
    case 3
    have failure: "observed_failure so \<noteq> Success" if "\<not> (present so \<and> \<not> ?storage)"
      using observe_failure [OF so] 3(1) that by blast
    have out: "snd (execute_delete r v) = v1 \<and> status (fst (execute_delete r v)) \<noteq> Success"
      using 3 failure by (auto simp: run Let_def)
    then show ?thesis
      using still delete_truthful_refusal [of v v1 "fst (execute_delete r v)" r]
      by (cases "execute_delete r v") simp
  qed
qed

end
