(* ===== verification/Delete_Service.thy ===== *)
theory Delete_Service
  imports Delete_Executor Operation_Service
begin

text \<open>
  Deletions through the file-operation service: \<open>submit_delete\<close> and
  \<open>submit_delete_reconciliation\<close> of \<open>src/Source/src/fileops/file_operation_service.cpp\<close>, the
  instance of its templates for a \<^typ>\<open>DeleteRequest\<close>, and the operating-system check that lets a
  deletion begin (\<open>inspect_delete_target\<close> of \<open>file_operation.cpp\<close>). The locale
  \<open>delete_service\<close> extends \<open>rename_service\<close> by what a coordinator may conclude from a deletion.
\<close>

section \<open>A deletion\<close>

text \<open>What \<open>helper/main.cpp\<close> does with a delete request.\<close>

definition delete_helper :: "DeleteRequest \<Rightarrow> volume \<Rightarrow> OperationResult \<times> volume" where
  "delete_helper r v = (if delete_action r = Execute then execute_delete r v else reconcile_delete r v)"

definition run_delete_helper :: "DeleteRequest \<Rightarrow> bool \<Rightarrow> host \<Rightarrow> OperationResult \<times> host" where
  "run_delete_helper r = run_process (delete_operation_id r) (delete_helper r)"

definition serve_delete :: "DeleteRequest \<Rightarrow> RenameAction \<Rightarrow> host \<Rightarrow> OperationResult \<times> host" where
  "serve_delete request action =
     (let r = request\<lparr>delete_action := action\<rparr>; mutating_attempt = (action = Execute) in
      submit_request (delete_operation_id r) (valid_delete_request r) mutating_attempt
        (run_delete_helper r mutating_attempt)
        (run_delete_helper (r\<lparr>delete_action := Reconcile_only\<rparr>) False))"

section \<open>Where deletion is allowed\<close>

datatype DeleteTargetKind = Local_target | Remote_target | Unknown_target

definition delete_target_error_status :: "errno \<Rightarrow> OperationStatus" where
  "delete_target_error_status code =
     (if code = ENOENT \<or> code = ENOTDIR then Not_found
      else if code = EACCES \<or> code = EPERM then Permission_denied
      else if code = EBUSY \<or> code = ETXTBSY then File_in_use
      else if code = ETIMEDOUT then Timed_out
      else if disconnected_error code then Disconnected
      else Io_error)"

text \<open>\<open>inspect_delete_target\<close>, Linux branch: the kind of the target and why it is unknown.\<close>

definition inspect_delete_target ::
  "path \<Rightarrow> volume \<Rightarrow> (DeleteTargetKind \<times> OperationStatus) \<times> volume"
where
  "inspect_delete_target p v =
     (let unknown = \<lambda>e v. ((Unknown_target, delete_target_error_status e), v) in
      attempt (reading (\<lambda>v. case lookup v p of None \<Rightarrow> Inl ENOENT | Some n \<Rightarrow> Inr n) v) unknown (\<lambda>_ v.
      attempt (fstat v) unknown (\<lambda>_ v.
      ((if remote_smb v then Remote_target else Local_target, Success), v))))"

definition host_inspect :: "path \<Rightarrow> host \<Rightarrow> (DeleteTargetKind \<times> OperationStatus) \<times> host" where
  "host_inspect p h =
     (let (kind, v) = inspect_delete_target p (host_volume h) in (kind, h\<lparr>host_volume := v\<rparr>))"

section \<open>What a coordinator may conclude\<close>

definition remote_delete :: "DeleteRequest \<Rightarrow> bool" where
  "remote_delete r \<longleftrightarrow> delete_mode r = Permanent_remote"

locale delete_service = rename_service serve has vacant
  for serve :: "RenameRequest \<Rightarrow> RenameAction \<Rightarrow> 'h \<Rightarrow> OperationResult \<times> 'h"
    and has :: "'h \<Rightarrow> path \<Rightarrow> string \<Rightarrow> bool"
    and vacant :: "'h \<Rightarrow> path \<Rightarrow> bool" +
  fixes erase :: "DeleteRequest \<Rightarrow> RenameAction \<Rightarrow> 'h \<Rightarrow> OperationResult \<times> 'h"
    and inspect :: "path \<Rightarrow> 'h \<Rightarrow> (DeleteTargetKind \<times> OperationStatus) \<times> 'h"
  assumes vacant_spelling: "vacant h p \<Longrightarrow> path_eq p q \<Longrightarrow> vacant h q"
    and inspect_same: "inspect p h = (kind, h') \<Longrightarrow> has h' = has h \<and> vacant h' = vacant h"
    and erase_execute: "remote_delete d \<Longrightarrow> erase d Execute h = (res, h') \<Longrightarrow>
      has h' = has h \<and> vacant h' = vacant h \<or>
      valid_delete_request d = Inr () \<and> evidence res \<noteq> No_commit \<and> vacant h' (delete_source d) \<and>
      (\<forall>q. \<not> path_eq q (delete_source d) \<longrightarrow> has h' q = has h q \<and> vacant h' q = vacant h q)"
    and erase_reconcile: "remote_delete d \<Longrightarrow> erase d Reconcile_only h = (res, h') \<Longrightarrow>
      has h' = has h \<and> vacant h' = vacant h"
    and erase_success: "remote_delete d \<Longrightarrow> erase d action h = (res, h') \<Longrightarrow> status res = Success \<Longrightarrow>
      evidence res = Committed \<and> vacant h' (delete_source d)"
    and erase_no_commit: "remote_delete d \<Longrightarrow> valid_delete_request d = Inr () \<Longrightarrow>
      erase d Reconcile_only h = (res, h') \<Longrightarrow> evidence res = No_commit \<Longrightarrow>
      \<not> vacant h (delete_source d)"
begin

text \<open>Every object other than the one at the source of the deletion stays, and what was vacant is.\<close>

lemma erase_spares:
  assumes "remote_delete d" "erase d Execute h = (res, h')"
    and "has h (delete_source d) i" "has h q j" "i \<noteq> j"
  shows "has h' q j"
proof -
  have "\<not> path_eq q (delete_source d)"
    using has_unique [OF assms(4,3)] assms(5) by blast
  with erase_execute [OF assms(1,2)] assms(4) show ?thesis by auto
qed

lemma erase_vacant:
  assumes "remote_delete d" "erase d Execute h = (res, h')" "vacant h q"
  shows "vacant h' q"
proof (cases "path_eq (delete_source d) q")
  case True
  with erase_execute [OF assms(1,2)] assms(3) vacant_spelling show ?thesis by metis
next
  case False
  then have "\<not> path_eq q (delete_source d)" by (auto simp: path_eq_def)
  with erase_execute [OF assms(1,2)] assms(3) show ?thesis by auto
qed

end

section \<open>The service keeps the contract\<close>

lemma valid_delete_request_action [simp]:
  "valid_delete_request (r\<lparr>delete_action := a\<rparr>) = valid_delete_request r"
proof -
  have "bad_delete_guards (r\<lparr>delete_action := a\<rparr>) = bad_delete_guards r"
    "delete_cleanup (r\<lparr>delete_action := a\<rparr>) = delete_cleanup r"
    by (simp_all add: bad_delete_guards_def delete_shape_def delete_cleanup_def)
  moreover have "delete_mode (r\<lparr>delete_action := a\<rparr>) = delete_mode r"
    "delete_operation_id (r\<lparr>delete_action := a\<rparr>) = delete_operation_id r"
    "delete_object_kind (r\<lparr>delete_action := a\<rparr>) = delete_object_kind r"
    "delete_source (r\<lparr>delete_action := a\<rparr>) = delete_source r"
    "delete_expected_source (r\<lparr>delete_action := a\<rparr>) = delete_expected_source r"
    "delete_source_parent_identity (r\<lparr>delete_action := a\<rparr>) = delete_source_parent_identity r"
    "delete_guard_path (r\<lparr>delete_action := a\<rparr>) = delete_guard_path r"
    "delete_expected_guard (r\<lparr>delete_action := a\<rparr>) = delete_expected_guard r"
    "delete_guard_parent_identity (r\<lparr>delete_action := a\<rparr>) = delete_guard_parent_identity r"
    "delete_security_baseline (r\<lparr>delete_action := a\<rparr>) = delete_security_baseline r"
    by simp_all
  ultimately show ?thesis by (simp only: valid_delete_request_def)
qed

lemma delete_truthful_action [simp]:
  "delete_truthful (r\<lparr>delete_action := a\<rparr>) = delete_truthful r"
  by (rule ext)+ (simp add: delete_truthful_def was_deleted_def deletable_def absence_is_deletion_def
      delete_cleanup_def)

lemma absence_is_deletion_action [simp]:
  "absence_is_deletion (r\<lparr>delete_action := a\<rparr>) = absence_is_deletion r"
  by (simp add: absence_is_deletion_def delete_cleanup_def)

lemma delete_truthful_lost:
  "delete_truthful r v (res', v') \<Longrightarrow> status res \<noteq> Success \<Longrightarrow> evidence res = Evidence_none \<Longrightarrow>
     delete_truthful r v (res, v')"
  by (auto simp: delete_truthful_def)

text \<open>One run of the helper process, whatever work it has.\<close>

lemma run_process_cases:
  assumes "run_process op work m h = (res, h')"
  shows "work (host_volume h) = (res, host_volume h') \<or>
    status res \<noteq> Success \<and> evidence res = Evidence_none \<and>
    (host_volume h' = host_volume h \<or> host_volume h' = snd (work (host_volume h)))"
proof -
  obtain t h1 where t: "next_transport h = (t, h1)" by fastforce
  then have "host_volume h1 = host_volume h" by simp
  with assms t show ?thesis
    by (cases t; cases "work (host_volume h)")
      (auto simp: run_process_def perform_when_def Let_def simp del: if_split)
qed

lemma run_delete_execute:
  assumes "delete_action r = Execute" "run_delete_helper r m h = (res, h')"
  shows "delete_truthful r (host_volume h) (res, host_volume h')"
proof -
  obtain x v where x: "execute_delete r (host_volume h) = (x, v)" by fastforce
  with execute_delete_truthful [of r "host_volume h"]
  have performed: "delete_truthful r (host_volume h) (x, v)" by simp
  from run_process_cases [OF assms(2) [unfolded run_delete_helper_def]] x performed assms(1)
  show ?thesis
    by (auto simp: delete_helper_def intro: delete_truthful_lost delete_truthful_refusal)
qed

lemma run_delete_reconcile:
  assumes "delete_action r = Reconcile_only" "run_delete_helper r m h = (res, h')"
  shows "still (host_volume h) (host_volume h')"
    "valid_delete_request r = Inr () \<Longrightarrow> evidence res = No_commit \<Longrightarrow>
       lookup (host_volume h) (delete_source r) \<noteq> None"
    "status res = Success \<Longrightarrow> absence_is_deletion r"
proof -
  obtain x v where x: "reconcile_delete r (host_volume h) = (x, v)" by fastforce
  note rec = reconcile_delete_outcome [OF x]
  from run_process_cases [OF assms(2) [unfolded run_delete_helper_def]] x rec assms(1)
  show "still (host_volume h) (host_volume h')"
    "valid_delete_request r = Inr () \<Longrightarrow> evidence res = No_commit \<Longrightarrow>
       lookup (host_volume h) (delete_source r) \<noteq> None"
    "status res = Success \<Longrightarrow> absence_is_deletion r"
    by (auto simp: delete_helper_def)
qed

lemma serve_delete_execute:
  assumes "serve_delete r Execute h = (res, h')"
  shows "delete_truthful r (host_volume h) (res, host_volume h')"
    "\<not> still (host_volume h) (host_volume h') \<Longrightarrow> valid_delete_request r = Inr ()"
proof -
  let ?r = "r\<lparr>delete_action := Execute\<rparr>" and ?q = "r\<lparr>delete_action := Reconcile_only\<rparr>"
  have "delete_truthful r (host_volume h) (res, host_volume h') \<and>
      (\<not> still (host_volume h) (host_volume h') \<longrightarrow> valid_delete_request r = Inr ())"
  proof (cases "valid_delete_request r")
    case (Inl detail)
    with assms have "host_volume h' = host_volume h" "status res = Invalid_request"
      by (auto simp: serve_delete_def submit_request_def needs_reconciliation_def Let_def
          split: prod.splits)
    then show ?thesis by (simp add: delete_truthful_refusal)
  next
    case (Inr u)
    obtain x h1 where x: "run_delete_helper ?r True h = (x, h1)" by fastforce
    have attempted: "delete_truthful r (host_volume h) (x, host_volume h1)"
      using run_delete_execute [OF _ x] by simp
    obtain b h2 where b: "next_poll h1 = (b, h2)" by fastforce
    obtain o' h3 where o: "run_delete_helper ?q False h2 = (o', h3)" by fastforce
    note rec = run_delete_reconcile [OF _ o, simplified]
    show ?thesis
    proof (cases "\<not> b \<and> needs_reconciliation x")
      case True
      then have "status x \<noteq> Success" by (auto simp: needs_reconciliation_def)
      then have "delete_truthful r (host_volume h) (merge_reconciliation x o', host_volume h3)"
        using rec b Inr by (intro delete_truthful_merge [OF attempted]) auto
      with True assms Inr x b o show ?thesis
        by (auto simp: serve_delete_def submit_request_def Let_def delete_truthful_def split: if_splits)
    next
      case False
      with assms Inr x b attempted show ?thesis
        by (auto simp: serve_delete_def submit_request_def Let_def)
    qed
  qed
  then show "delete_truthful r (host_volume h) (res, host_volume h')"
    "\<not> still (host_volume h) (host_volume h') \<Longrightarrow> valid_delete_request r = Inr ()" by auto
qed

lemma serve_delete_reconcile:
  assumes "serve_delete r Reconcile_only h = (res, h')"
  shows "still (host_volume h) (host_volume h')"
    "valid_delete_request r = Inr () \<Longrightarrow> evidence res = No_commit \<Longrightarrow>
       lookup (host_volume h) (delete_source r) \<noteq> None"
    "status res = Success \<Longrightarrow> absence_is_deletion r"
proof -
  let ?q = "r\<lparr>delete_action := Reconcile_only\<rparr>"
  obtain o' h1 where o: "run_delete_helper ?q False h = (o', h1)" by fastforce
  note rec = run_delete_reconcile [OF _ o, simplified]
  show "still (host_volume h) (host_volume h')"
    "valid_delete_request r = Inr () \<Longrightarrow> evidence res = No_commit \<Longrightarrow>
       lookup (host_volume h) (delete_source r) \<noteq> None"
    "status res = Success \<Longrightarrow> absence_is_deletion r"
    using assms o rec
    by (cases "valid_delete_request r";
        auto simp: serve_delete_def submit_request_def Let_def split: prod.splits)+
qed

lemma inspect_delete_target_still: "inspect_delete_target p v = (k, v') \<Longrightarrow> still v v'"
proof -
  have "quiet (inspect_delete_target p v) v"
    unfolding inspect_delete_target_def Let_def by (intro quiet_intros still_refl)
  then show "inspect_delete_target p v = (k, v') \<Longrightarrow> still v v'" by (rule quiet_run)
qed

lemma host_deleted:
  assumes "was_deleted r (host_volume h) (host_volume h')"
  shows "host_vacant h' (delete_source r)"
    "\<not> path_eq q (delete_source r) \<Longrightarrow> host_has h' q = host_has h q \<and> host_vacant h' q = host_vacant h q"
proof -
  from assms have after: "still (unlinked (delete_source r) (host_volume h)) (host_volume h')"
    by (auto simp: was_deleted_def)
  have at: "lookup (host_volume h') p =
      (if path_eq p (delete_source r) then None else lookup (host_volume h) p)" for p
    by (simp add: still_lookup [OF after]) (simp add: lookup_def unlinked_def path_eq_def)
  show "host_vacant h' (delete_source r)" by (simp add: host_vacant_def at path_eq_def)
  show "host_has h' q = host_has h q \<and> host_vacant h' q = host_vacant h q"
    if "\<not> path_eq q (delete_source r)"
    using that by (intro conjI ext) (simp_all add: host_has_def host_vacant_def has_identity_def at)
qed

interpretation deletes: delete_service serve_rename host_has host_vacant serve_delete host_inspect
proof
  fix h h' :: host and p q d res action kind
  show "host_vacant h p \<Longrightarrow> path_eq p q \<Longrightarrow> host_vacant h q"
    by (simp add: host_vacant_def lookup_def path_eq_def)
  show "host_has h' = host_has h \<and> host_vacant h' = host_vacant h"
    if "host_inspect p h = (kind, h')"
    using that
    by (intro host_still) (auto simp: host_inspect_def split: prod.splits
        intro: inspect_delete_target_still)
  show "host_has h' = host_has h \<and> host_vacant h' = host_vacant h \<or>
      valid_delete_request d = Inr () \<and> evidence res \<noteq> No_commit \<and> host_vacant h' (delete_source d) \<and>
      (\<forall>q. \<not> path_eq q (delete_source d) \<longrightarrow> host_has h' q = host_has h q \<and>
           host_vacant h' q = host_vacant h q)"
    if run: "serve_delete d Execute h = (res, h')"
  proof (cases "still (host_volume h) (host_volume h')")
    case True
    then show ?thesis by (simp add: host_still)
  next
    case False
    with serve_delete_execute [OF run] host_deleted [of d h h'] show ?thesis
      by (auto simp: delete_truthful_def)
  qed
  show "host_has h' = host_has h \<and> host_vacant h' = host_vacant h"
    if "serve_delete d Reconcile_only h = (res, h')"
    using serve_delete_reconcile(1) [OF that] by (rule host_still)
  have present: "\<not> absence_is_deletion d" if "remote_delete d"
    using that by (simp add: remote_delete_def absence_is_deletion_def delete_cleanup_def
        mode_defs)
  show "evidence res = Committed \<and> host_vacant h' (delete_source d)"
    if "remote_delete d" "serve_delete d action h = (res, h')" "status res = Success"
    using that present serve_delete_execute(1) [of d h res h'] serve_delete_reconcile(3) [of d h res h']
    by (cases action) (auto simp: delete_truthful_def host_vacant_def)
  show "\<not> host_vacant h (delete_source d)"
    if "valid_delete_request d = Inr ()" "serve_delete d Reconcile_only h = (res, h')"
      "evidence res = No_commit"
    using serve_delete_reconcile(2) [OF that(2,1,3)] by (simp add: host_vacant_def)
qed

end
