(* ===== verification/Delete_Coordinator.thy ===== *)
theory Delete_Coordinator
  imports Delete_Transaction Delete_Service Coordinator_Base
begin

text \<open>
  The coordinator of a permanent delete:
  \<open>src/Source/src/fileops/permanent_delete_coordinator.cpp\<close>. It moves every item to a private
  name, records that the deletion begins, and only then destroys one item after the other; when an
  item could not be moved it moves the others back. The record is written before and after every
  step, and the step of a recovered record is reconciled before anything else.
\<close>

section \<open>Results\<close>

datatype PermanentDeleteRunStatus =
    Delete_success | Delete_rolled_back | Delete_invalid_request | Delete_unsupported | Delete_failed
  | Delete_recovery_required | Delete_journal_error | Delete_stopped

record PermanentDeleteProgress =
  delete_progress_phase :: PermanentDeletePhase
  delete_progress_completed :: nat
  delete_progress_total :: nat
  delete_progress_source :: path

record PermanentDeleteResult =
  delete_status :: PermanentDeleteRunStatus
  delete_operation_status :: OperationStatus
  delete_completed :: nat
  delete_total :: nat
  delete_result_detail :: string

type_synonym 'h delete_state = "('h, PermanentDeleteProgress) run_state"

text \<open>The operations of the service: moving, deleting, and looking at a target.\<close>

record 'h services =
  move_service :: "RenameRequest \<Rightarrow> RenameAction \<Rightarrow> 'h \<Rightarrow> OperationResult \<times> 'h"
  erase_service :: "DeleteRequest \<Rightarrow> RenameAction \<Rightarrow> 'h \<Rightarrow> OperationResult \<times> 'h"
  inspect_service :: "path \<Rightarrow> 'h \<Rightarrow> (DeleteTargetKind \<times> OperationStatus) \<times> 'h"

section \<open>Helpers\<close>

definition del_count :: "PermanentDeleteTransaction \<Rightarrow> PermanentDeleteItemLocation \<Rightarrow> nat" where
  "del_count t location = length (filter (\<lambda>item. del_location item = location) (del_items t))"

definition del_step_number :: "PermanentDeleteStep \<Rightarrow> u64" where
  "del_step_number step =
     (case step of Del_none \<Rightarrow> 0 | Del_evacuate \<Rightarrow> 1 | Del_roll_back \<Rightarrow> 2 | Del_erase \<Rightarrow> 3)"

definition del_step_operation_id ::
  "PermanentDeleteTransaction \<Rightarrow> PermanentDeleteStep \<Rightarrow> nat \<Rightarrow> u64"
where
  "del_step_operation_id t step index =
     (let mix = 0x9e3779b97f4a7c15;
          value = (del_operation_id t XOR (mix * (word_of_nat index + 1)))
                    XOR push_bit 56 (del_step_number step)
      in if value = 0 then del_operation_id t else value)"

definition delete_journal :: string where
  "delete_journal = ''permanent-delete journal''"

definition persist_delete ::
  "PermanentDeleteTransaction \<Rightarrow> 'h delete_state \<Rightarrow> string option \<times> 'h delete_state"
where
  "persist_delete t =
     persist_payload delete_journal kind_permanent_delete (encode_permanent_delete_transaction t)"

definition remove_delete_journal :: "'h delete_state \<Rightarrow> string option \<times> 'h delete_state" where
  "remove_delete_journal = remove_record delete_journal"

section \<open>One step\<close>

definition del_destination :: "PermanentDeleteItem \<Rightarrow> PermanentDeleteStep \<Rightarrow> path" where
  "del_destination item step = (if step = Del_evacuate then del_temporary item else del_source item)"

definition delete_rename_request ::
  "PermanentDeleteTransaction \<Rightarrow> nat \<Rightarrow> PermanentDeleteStep \<Rightarrow> RenameRequest"
where
  "delete_rename_request t index step =
     (let item = del_items t ! index in
      \<lparr>rename_operation_id = del_step_operation_id t step index, rename_action = Execute,
       rename_mode = Batch_internal, rename_object_kind = Regular_file,
       rename_source = del_current item, rename_destination = del_destination item step,
       rename_expected_source = del_snapshot item, rename_source_parent_identity = [],
       rename_destination_parent_identity = [], rename_anchor_path = [],
       rename_anchor_identity = [], rename_expected_destination = empty_snapshot,
       rename_security_baseline = []\<rparr>)"

definition delete_request :: "PermanentDeleteTransaction \<Rightarrow> nat \<Rightarrow> DeleteRequest" where
  "delete_request t index =
     (let item = del_items t ! index in
      \<lparr>delete_operation_id = del_step_operation_id t Del_erase index, delete_action = Execute,
       delete_mode = Permanent_remote, delete_object_kind = Regular_file,
       delete_source = del_current item, delete_expected_source = del_snapshot item,
       delete_source_parent_identity = [], delete_guard_path = [],
       delete_expected_guard = empty_snapshot, delete_guard_parent_identity = [],
       delete_security_baseline = []\<rparr>)"

text \<open>\<open>submit_step\<close>, with \<open>wait_for_rename\<close> and \<open>wait_for_delete\<close>.\<close>

definition submit_delete_step ::
  "'h services \<Rightarrow> PermanentDeleteTransaction \<Rightarrow> nat \<Rightarrow> PermanentDeleteStep \<Rightarrow> bool \<Rightarrow>
   'h delete_state \<Rightarrow> OperationResult \<times> 'h delete_state"
where
  "submit_delete_step s t index step reconcile =
     (let action = (if reconcile then Reconcile_only else Execute);
          op = del_step_operation_id t step index in
      if step = Del_erase then
        submit_with op ''file operation service rejected a permanent-delete step''
          (erase_service s (delete_request t index) action)
      else
        submit_with op ''file operation service rejected a delete rename step''
          (move_service s (delete_rename_request t index step) action))"

text \<open>The step is over: nothing is active, and outside a rollback the failure is forgotten.\<close>

definition clear_step :: "PermanentDeleteTransaction \<Rightarrow> PermanentDeleteTransaction" where
  "clear_step t = t\<lparr>del_step := Del_none, del_index := 0, del_evidence := Evidence_none\<rparr>"

definition clear_delete_active :: "PermanentDeleteTransaction \<Rightarrow> PermanentDeleteTransaction" where
  "clear_delete_active t =
     (if del_phase t \<noteq> Del_rollback then (clear_step t)\<lparr>del_failure := Success, del_detail := []\<rparr>
      else clear_step t)"

definition untrusted_rename :: string where
  "untrusted_rename = ''delete rename step succeeded without a trustworthy snapshot''"

definition uncommitted_erase :: string where
  "uncommitted_erase = ''delete step succeeded without committed evidence''"

definition apply_rename_success ::
  "PermanentDeleteTransaction \<Rightarrow> nat \<Rightarrow> PermanentDeleteStep \<Rightarrow> OperationResult \<Rightarrow>
   PermanentDeleteTransaction option"
where
  "apply_rename_success t index step result =
     (let item = del_items t ! index; expected = del_identity item;
          confirmed = stable_object_identity (source_revision_utf8 (confirmed_snapshot result)) in
      if status result \<noteq> Success \<or> expected = [] \<or> confirmed \<noteq> expected then None
      else Some (t\<lparr>del_items := (del_items t)[index :=
        item\<lparr>del_current := del_destination item step, del_snapshot := confirmed_snapshot result,
             del_location := (if step = Del_evacuate then In_temporary else In_source)\<rparr>]\<rparr>))"

definition apply_erase_success ::
  "PermanentDeleteTransaction \<Rightarrow> nat \<Rightarrow> OperationResult \<Rightarrow> PermanentDeleteTransaction option"
where
  "apply_erase_success t index result =
     (if status result \<noteq> Success \<or> evidence result \<noteq> Committed then None
      else Some (t\<lparr>del_items := (del_items t)[index :=
        (del_items t ! index)\<lparr>del_current := [], del_location := In_deleted\<rparr>]\<rparr>))"

text \<open>\<^const>\<open>Inl\<close> is the detail of a success that is not believed.\<close>

definition apply_delete_success ::
  "PermanentDeleteTransaction \<Rightarrow> nat \<Rightarrow> PermanentDeleteStep \<Rightarrow> OperationResult \<Rightarrow>
   string + PermanentDeleteTransaction"
where
  "apply_delete_success t index step result =
     (if step = Del_erase then
        (case apply_erase_success t index result of
           None \<Rightarrow> Inl uncommitted_erase | Some t \<Rightarrow> Inr (clear_delete_active t))
      else
        (case apply_rename_success t index step result of
           None \<Rightarrow> Inl untrusted_rename | Some t \<Rightarrow> Inr (clear_delete_active t)))"

definition note_failure ::
  "OperationStatus \<Rightarrow> OperationEvidence \<Rightarrow> string \<Rightarrow> PermanentDeleteTransaction \<Rightarrow>
   PermanentDeleteTransaction"
where
  "note_failure failed known detail t =
     t\<lparr>del_failure := failed, del_evidence := known, del_detail := detail\<rparr>"

text \<open>An item that could not be moved away turns the whole transaction back.\<close>

definition turn_back :: "PermanentDeleteStep \<Rightarrow> PermanentDeleteTransaction \<Rightarrow> PermanentDeleteTransaction" where
  "turn_back step t = (if step = Del_evacuate then t\<lparr>del_phase := Del_rollback\<rparr> else t)"

text \<open>The end of a step that honours a stop, and the end of one that does not.\<close>

definition conclude_delete ::
  "string \<Rightarrow> string \<Rightarrow> StepResult \<Rightarrow> PermanentDeleteTransaction \<Rightarrow> 'h delete_state \<Rightarrow>
   (StepResult \<times> PermanentDeleteTransaction) \<times> 'h delete_state"
where
  "conclude_delete prefix stopped_detail result t w =
     (let (result, w) = conclude_with (persist_delete t) prefix stopped_detail result w
      in ((result, t), w))"

definition record_delete ::
  "string \<Rightarrow> StepResult \<Rightarrow> PermanentDeleteTransaction \<Rightarrow> 'h delete_state \<Rightarrow>
   (StepResult \<times> PermanentDeleteTransaction) \<times> 'h delete_state"
where
  "record_delete prefix result t w =
     (case persist_delete t w of
        (Some detail, w) \<Rightarrow> ((journal_failure (prefix @ detail), t), w)
      | (None, w) \<Rightarrow> ((result, t), w))"

definition step_result :: "StepOutcome \<Rightarrow> OperationStatus \<Rightarrow> string \<Rightarrow> StepResult" where
  "step_result outcome st detail =
     \<lparr>step_outcome = outcome, step_status = st, step_detail = detail\<rparr>"

definition activate_delete ::
  "PermanentDeleteTransaction \<Rightarrow> nat \<Rightarrow> PermanentDeleteStep \<Rightarrow> PermanentDeleteTransaction"
where
  "activate_delete t index step =
     t\<lparr>del_step := step, del_index := word_of_nat index, del_evidence := Evidence_none\<rparr>"

definition report_delete ::
  "PermanentDeleteTransaction \<Rightarrow> nat \<Rightarrow> PermanentDeleteStep \<Rightarrow> 'h delete_state \<Rightarrow> 'h delete_state"
where
  "report_delete t index step w =
     w\<lparr>reported := reported w @
        [\<lparr>delete_progress_phase = del_phase t,
          delete_progress_completed =
            del_count t (if step = Del_erase then In_deleted else In_temporary),
          delete_progress_total = length (del_items t),
          delete_progress_source = del_source (del_items t ! index)\<rparr>]\<rparr>"

text \<open>\<open>execute_step\<close> from the result of the submission on.\<close>

definition settle_delete_executed ::
  "nat \<Rightarrow> PermanentDeleteStep \<Rightarrow> OperationResult \<Rightarrow> PermanentDeleteTransaction \<Rightarrow>
   'h delete_state \<Rightarrow> (StepResult \<times> PermanentDeleteTransaction) \<times> 'h delete_state"
where
  "settle_delete_executed index step result t w =
     (if status result = Success then
        (case apply_delete_success t index step result of
           Inl detail \<Rightarrow>
             record_delete [] (step_result Step_recovery_required Unknown_outcome detail)
               (note_failure Unknown_outcome (evidence result) detail t) w
         | Inr t \<Rightarrow>
             conclude_delete [] ''permanent delete stopped after recording the completed step''
               (step_result Step_committed Success []) t w)
      else
        let t = note_failure (status result) (evidence result) (detail_utf8 result) t in
        if evidence result = No_commit then
          conclude_delete [] ''permanent delete stopped after recording a non-commit''
            (step_result Step_no_commit (status result) (detail_utf8 result))
            (clear_step (turn_back step t)) w
        else
          conclude_delete (del_detail t @ ''; '')
            ''permanent delete stopped after recording operation evidence''
            (step_result Step_recovery_required (status result) (detail_utf8 result)) t w)"

definition execute_delete_step ::
  "'h services \<Rightarrow> PermanentDeleteTransaction \<Rightarrow> nat \<Rightarrow> PermanentDeleteStep \<Rightarrow> 'h delete_state \<Rightarrow>
   (StepResult \<times> PermanentDeleteTransaction) \<times> 'h delete_state"
where
  "execute_delete_step s t index step w =
     (let t = activate_delete t index step in
      case persist_delete t w of
        (Some detail, w) \<Rightarrow> ((journal_failure detail, t), w)
      | (None, w) \<Rightarrow>
          (let (result, w) = attempt_with (submit_delete_step s t index step False)
                 (submit_delete_step s t index step True) (report_delete t index step w)
           in settle_delete_executed index step result t w))"

section \<open>The step of a recovered record\<close>

definition merge_noted :: "PermanentDeleteTransaction \<Rightarrow> OperationResult \<Rightarrow> OperationResult" where
  "merge_noted t result =
     (if del_evidence t \<noteq> Evidence_none then
        merge_reconciliation
          (plain_result (result_operation_id result) (del_failure t) (del_evidence t) (del_detail t)) result
      else result)"

definition settle_delete_reconciled ::
  "nat \<Rightarrow> PermanentDeleteStep \<Rightarrow> OperationResult \<Rightarrow> PermanentDeleteTransaction \<Rightarrow>
   'h delete_state \<Rightarrow> (StepResult \<times> PermanentDeleteTransaction) \<times> 'h delete_state"
where
  "settle_delete_reconciled index step result t w =
     (if status result = Success then
        (case apply_delete_success t index step result of
           Inl detail \<Rightarrow> ((journal_failure detail, t), w)
         | Inr t \<Rightarrow>
             conclude_delete [] ''delete recovery stopped after recording reconciliation''
               (step_result Step_committed Success []) t w)
      else if evidence result = No_commit then
        record_delete [] (step_result Step_no_commit (status result) (detail_utf8 result))
          (clear_step (note_failure (status result) Evidence_none (detail_utf8 result)
             (turn_back step t))) w
      else
        record_delete (detail_utf8 result @ ''; '')
          (step_result Step_recovery_required (status result) (detail_utf8 result))
          (note_failure (status result) (evidence result) (detail_utf8 result) t) w)"

definition reconcile_delete_active ::
  "'h services \<Rightarrow> PermanentDeleteTransaction \<Rightarrow> 'h delete_state \<Rightarrow>
   (StepResult \<times> PermanentDeleteTransaction) \<times> 'h delete_state"
where
  "reconcile_delete_active s t w =
     (let index = unat (del_index t); step = del_step t;
          (result, w) = submit_delete_step s t index step True w
      in settle_delete_reconciled index step (merge_noted t result) t w)"

section \<open>The transaction\<close>

definition delete_result ::
  "PermanentDeleteRunStatus \<Rightarrow> OperationStatus \<Rightarrow> nat \<Rightarrow> nat \<Rightarrow> string \<Rightarrow> PermanentDeleteResult"
where
  "delete_result run operation completed items detail =
     \<lparr>delete_status = run, delete_operation_status = operation, delete_completed = completed,
      delete_total = items, delete_result_detail = detail\<rparr>"

definition delete_recovery_result ::
  "PermanentDeleteTransaction \<Rightarrow> StepResult \<Rightarrow> PermanentDeleteResult"
where
  "delete_recovery_result t step =
     delete_result
       (if step_outcome step = Step_journal_error then Delete_journal_error
        else if step_outcome step = Step_stopped then Delete_stopped else Delete_recovery_required)
       (step_status step) (del_count t In_deleted) (length (del_items t)) (step_detail step)"

text \<open>
  \<open>continue_transaction\<close> up to the removal of the journal. \<^term>\<open>Delete_ended\<close> is an early return,
  \<^term>\<open>All_deleted\<close> and \<^term>\<open>Delete_undone\<close> are the two points where the journal is removed.
\<close>

datatype delete_ending =
    Delete_ended PermanentDeleteResult
  | All_deleted
  | Delete_undone OperationStatus string

fun undo_items ::
  "'h services \<Rightarrow> nat list \<Rightarrow> PermanentDeleteTransaction \<Rightarrow> 'h delete_state \<Rightarrow>
   (PermanentDeleteResult option \<times> PermanentDeleteTransaction) \<times> 'h delete_state"
where
  "undo_items s [] t w = ((None, t), w)"
| "undo_items s (index # indices) t w =
     (if del_location (del_items t ! index) \<noteq> In_temporary then undo_items s indices t w
      else let ((step, t), w) = execute_delete_step s t index Del_roll_back w in
        if step_outcome step \<noteq> Step_committed then ((Some (delete_recovery_result t step), t), w)
        else undo_items s indices t w)"

text \<open>\<open>rollback\<close>: from the last item to the first.\<close>

definition undo_delete ::
  "'h services \<Rightarrow> PermanentDeleteTransaction \<Rightarrow> 'h delete_state \<Rightarrow>
   (delete_ending \<times> PermanentDeleteTransaction) \<times> 'h delete_state"
where
  "undo_delete s t w =
     (case undo_items s (rev [0..<length (del_items t)]) t w of
        ((Some result, t'), w) \<Rightarrow> ((Delete_ended result, t'), w)
      | ((None, t'), w) \<Rightarrow> ((Delete_undone (del_failure t) (del_detail t), t'), w))"

definition enter_delete_phase ::
  "PermanentDeletePhase \<Rightarrow> PermanentDeleteTransaction \<Rightarrow> 'h delete_state \<Rightarrow>
   (PermanentDeleteResult option \<times> PermanentDeleteTransaction) \<times> 'h delete_state"
where
  "enter_delete_phase phase t w =
     (let t = t\<lparr>del_phase := phase\<rparr> in
      case persist_delete t w of
        (Some detail, w) \<Rightarrow> ((Some (delete_recovery_result t (journal_failure detail)), t), w)
      | (None, w) \<Rightarrow> ((None, t), w))"

text \<open>A step without commit is no way to end a deletion that has begun.\<close>

definition unresolved :: "StepResult \<Rightarrow> StepResult" where
  "unresolved step =
     (if step_outcome step = Step_no_commit
      then step_result Step_recovery_required (step_status step) (step_detail step) else step)"

fun erase_items ::
  "'h services \<Rightarrow> nat list \<Rightarrow> PermanentDeleteTransaction \<Rightarrow> 'h delete_state \<Rightarrow>
   (delete_ending \<times> PermanentDeleteTransaction) \<times> 'h delete_state"
where
  "erase_items s [] t w = ((All_deleted, t), w)"
| "erase_items s (index # indices) t w =
     (if del_location (del_items t ! index) = In_deleted then erase_items s indices t w
      else if del_location (del_items t ! index) \<noteq> In_temporary then
        ((Delete_ended (delete_result Delete_recovery_required Source_changed
            (del_count t In_deleted) (length (del_items t))
            ''delete journal contains an impossible item location''), t), w)
      else let ((step, t), w) = execute_delete_step s t index Del_erase w in
        if step_outcome step \<noteq> Step_committed then
          ((Delete_ended (delete_recovery_result t (unresolved step)), t), w)
        else erase_items s indices t w)"

text \<open>The last two blocks of \<open>continue_transaction\<close>, and the fall-through after them.\<close>

definition erase_phase ::
  "'h services \<Rightarrow> PermanentDeleteTransaction \<Rightarrow> 'h delete_state \<Rightarrow>
   (delete_ending \<times> PermanentDeleteTransaction) \<times> 'h delete_state"
where
  "erase_phase s t w =
     (if del_phase t = Del_deleting then erase_items s [0..<length (del_items t)] t w
      else if del_phase t = Del_rollback then undo_delete s t w
      else ((Delete_ended (delete_result Delete_recovery_required Io_error
               (del_count t In_deleted) (length (del_items t))
               ''permanent-delete phase is not recoverable''), t), w))"

definition intent_phase ::
  "'h services \<Rightarrow> PermanentDeleteTransaction \<Rightarrow> 'h delete_state \<Rightarrow>
   (delete_ending \<times> PermanentDeleteTransaction) \<times> 'h delete_state"
where
  "intent_phase s t w =
     (if del_phase t = Permanent_delete_intent then
        (case enter_delete_phase Del_deleting t w of
           ((Some result, t), w) \<Rightarrow> ((Delete_ended result, t), w)
         | ((None, t), w) \<Rightarrow> erase_phase s t w)
      else erase_phase s t w)"

fun evacuate_delete_items ::
  "'h services \<Rightarrow> nat list \<Rightarrow> PermanentDeleteTransaction \<Rightarrow> 'h delete_state \<Rightarrow>
   (delete_ending \<times> PermanentDeleteTransaction) \<times> 'h delete_state"
where
  "evacuate_delete_items s [] t w =
     (case enter_delete_phase Permanent_delete_intent t w of
        ((Some result, t), w) \<Rightarrow> ((Delete_ended result, t), w)
      | ((None, t), w) \<Rightarrow> intent_phase s t w)"
| "evacuate_delete_items s (index # indices) t w =
     (if del_location (del_items t ! index) \<noteq> In_source then evacuate_delete_items s indices t w
      else let ((step, t), w) = execute_delete_step s t index Del_evacuate w in
        if step_outcome step = Step_committed then evacuate_delete_items s indices t w
        else if step_outcome step = Step_no_commit then undo_delete s t w
        else ((Delete_ended (delete_recovery_result t step), t), w))"

definition evacuate_delete_phase ::
  "'h services \<Rightarrow> PermanentDeleteTransaction \<Rightarrow> 'h delete_state \<Rightarrow>
   (delete_ending \<times> PermanentDeleteTransaction) \<times> 'h delete_state"
where
  "evacuate_delete_phase s t w =
     (if del_phase t = Del_evacuating then evacuate_delete_items s [0..<length (del_items t)] t w
      else intent_phase s t w)"

definition prepared_delete_phase ::
  "'h services \<Rightarrow> PermanentDeleteTransaction \<Rightarrow> 'h delete_state \<Rightarrow>
   (delete_ending \<times> PermanentDeleteTransaction) \<times> 'h delete_state"
where
  "prepared_delete_phase s t w =
     (if del_phase t = Del_prepared then
        (case enter_delete_phase Del_evacuating t w of
           ((Some result, t), w) \<Rightarrow> ((Delete_ended result, t), w)
         | ((None, t), w) \<Rightarrow> evacuate_delete_phase s t w)
      else evacuate_delete_phase s t w)"

definition advance_delete ::
  "'h services \<Rightarrow> PermanentDeleteTransaction \<Rightarrow> 'h delete_state \<Rightarrow>
   (delete_ending \<times> PermanentDeleteTransaction) \<times> 'h delete_state"
where
  "advance_delete s t w =
     (let active = del_step t in
      if active \<noteq> Del_none then
        let ((reconciled, t), w) = reconcile_delete_active s t w in
        if step_outcome reconciled \<in> {Step_recovery_required, Step_journal_error, Step_stopped} then
          ((Delete_ended (delete_recovery_result t reconciled), t), w)
        else if step_outcome reconciled = Step_no_commit \<and> active \<noteq> Del_evacuate \<and>
                \<not> (active = Del_erase \<and> step_status reconciled = Conflict) then
          ((Delete_ended (delete_recovery_result t (unresolved reconciled)), t), w)
        else prepared_delete_phase s t w
      else prepared_delete_phase s t w)"

text \<open>The removal of the journal, where the code comes to it.\<close>

definition finish_delete ::
  "delete_ending \<Rightarrow> PermanentDeleteTransaction \<Rightarrow> 'h delete_state \<Rightarrow>
   PermanentDeleteResult \<times> 'h delete_state"
where
  "finish_delete ending t w =
     (let items = length (del_items t) in
      case ending of
        Delete_ended result \<Rightarrow> (result, w)
      | All_deleted \<Rightarrow>
          (case remove_delete_journal w of
             (Some detail, w) \<Rightarrow> (delete_result Delete_journal_error Io_error items items detail, w)
           | (None, w) \<Rightarrow> (delete_result Delete_success Success items items [], w))
      | Delete_undone original_status original_detail \<Rightarrow>
          (case remove_delete_journal w of
             (Some detail, w) \<Rightarrow> (delete_result Delete_journal_error Io_error 0 items detail, w)
           | (None, w) \<Rightarrow>
               (delete_result Delete_rolled_back original_status 0 items
                  (if original_detail = [] then ''permanent delete was rolled back''
                   else original_detail), w)))"

definition continue_delete ::
  "'h services \<Rightarrow> PermanentDeleteTransaction \<Rightarrow> 'h delete_state \<Rightarrow>
   PermanentDeleteResult \<times> 'h delete_state"
where
  "continue_delete s t w = (let ((ending, t), w) = advance_delete s t w in finish_delete ending t w)"

section \<open>The two jobs\<close>

text \<open>Only objects on a verified remote filesystem may be destroyed; \<^const>\<open>Some\<close> is a refusal.\<close>

fun check_targets ::
  "'h services \<Rightarrow> nat \<Rightarrow> PermanentDeleteSource list \<Rightarrow> 'h delete_state \<Rightarrow>
   PermanentDeleteResult option \<times> 'h delete_state"
where
  "check_targets s items [] w = (None, w)"
| "check_targets s items (source # sources) w =
     (let ((kind, failure), h) = inspect_service s (target_path source) (service w);
          w = w\<lparr>service := h\<rparr> in
      if kind = Remote_target then check_targets s items sources w
      else if kind = Unknown_target \<and> failure \<noteq> Success \<and> failure \<noteq> Unsupported then
        (Some (delete_result Delete_failed failure 0 items
           ''remote filesystem could not be verified''), w)
      else
        (Some (delete_result Delete_unsupported Unsupported 0 items
           ''permanent delete is allowed only on a verified remote filesystem''), w))"

definition begin_delete ::
  "'h services \<Rightarrow> PermanentDeleteTransaction \<Rightarrow> 'h delete_state \<Rightarrow>
   PermanentDeleteResult \<times> 'h delete_state"
where
  "begin_delete s t w =
     (let items = length (del_items t) in
      case (if parent_path (journal_path w) = [] then None else create_parent w) of
        Some e \<Rightarrow>
          (delete_result Delete_journal_error Io_error 0 items
             (''delete journal directory could not be created: '' @ error_message w e), w)
      | None \<Rightarrow>
          (case persist_delete t w of
             (Some detail, w) \<Rightarrow> (delete_result Delete_journal_error Io_error 0 items detail, w)
           | (None, w) \<Rightarrow> continue_delete s t w))"

definition run_delete ::
  "'h services \<Rightarrow> PermanentDeleteSource list \<Rightarrow> 'h delete_state \<Rightarrow>
   PermanentDeleteResult \<times> 'h delete_state"
where
  "run_delete s sources w =
     (let items = length sources in
      if journal_path w = [] \<or> sources = [] then
        (delete_result Delete_invalid_request Invalid_request 0 items
           ''permanent-delete request or journal path is empty'', w)
      else let (existing, w) = read_journal w in
      if journal_status existing \<noteq> Journal_not_found then
        (delete_result Delete_recovery_required Unknown_outcome 0 items
           ''an unfinished file operation must be recovered first'', w\<lparr>recovery_pending := True\<rparr>)
      else case check_targets s items sources w of
        (Some refusal, w) \<Rightarrow> (refusal, w)
      | (None, w) \<Rightarrow>
          (let (operation_id, w) = next_operation_id w in
           case prepare_permanent_delete_transaction sources operation_id of
             Inl what \<Rightarrow> (delete_result Delete_invalid_request Invalid_request 0 items what, w)
           | Inr t \<Rightarrow> begin_delete s t w))"

definition resume_delete ::
  "'h services \<Rightarrow> 'h delete_state \<Rightarrow> PermanentDeleteResult \<times> 'h delete_state"
where
  "resume_delete s w =
     (let (loaded, w) = read_journal w in
      if journal_status loaded \<noteq> Journal_success \<or> current_encoding loaded \<noteq> Typed \<or>
         current_kind loaded \<noteq> kind_permanent_delete then
        (delete_result Delete_journal_error Io_error 0 0
           (if journal_status loaded = Journal_not_found
            then ''there is no permanent delete to recover''
            else ''current operation journal is not a permanent delete''), w)
      else case decode_permanent_delete_transaction (current_payload loaded) of
        Inl detail \<Rightarrow> (delete_result Delete_journal_error Io_error 0 0 detail, w)
      | Inr t \<Rightarrow> continue_delete s t w)"

definition delete_owns_recovery :: "'h delete_state \<Rightarrow> bool \<times> 'h delete_state" where
  "delete_owns_recovery w =
     (let (loaded, w) = read_journal w;
          owns = (journal_status loaded = Journal_success \<and> current_encoding loaded = Typed \<and>
                  current_kind loaded = kind_permanent_delete)
      in (owns, w\<lparr>recovery_pending := (journal_status loaded \<noteq> Journal_not_found)\<rparr>))"

end
