(* ===== verification/Delete_Safety.thy ===== *)
theory Delete_Safety
  imports Delete_Coordinator
begin

text \<open>
  What the coordinator of \<open>Delete_Coordinator\<close> guarantees over any service with the contract
  \<open>delete_service\<close>, any disk, and any pattern of stops and refusals: every record that a crash may
  leave in the journal accounts for every object, an object is destroyed only after the record
  says that the deletion has begun, no other object is touched, and the two ways of finishing
  leave all objects destroyed or all at their sources.
\<close>

section \<open>Records that account for every object\<close>

definition del_item_tracked :: "PermanentDeletePhase \<Rightarrow> PermanentDeleteItem \<Rightarrow> bool" where
  "del_item_tracked phase item \<longleftrightarrow>
     del_identity item \<noteq> [] \<and> expected_current item \<and> location_allowed phase (del_location item)"

definition del_tracked :: "PermanentDeleteTransaction \<Rightarrow> bool" where
  "del_tracked t \<longleftrightarrow>
     length (del_items t) < 2 ^ 32 \<and> distinct (map del_identity (del_items t)) \<and>
     (\<forall>i<length (del_items t). del_item_tracked (del_phase t) (del_items t ! i)) \<and>
     (del_step t \<noteq> Del_none \<longrightarrow>
        unat (del_index t) < length (del_items t) \<and> active_step_matches t) \<and>
     (del_evidence t \<noteq> Evidence_none \<longrightarrow> del_step t \<noteq> Del_none \<and> del_failure t \<noteq> Success)"

lemma valid_del_tracked:
  "valid_permanent_delete_transaction t = Inr () \<Longrightarrow> del_tracked t"
  by (auto simp: valid_permanent_delete_iff del_tracked_def del_header_ok_def del_item_ok_def
      del_paths_ok_def del_item_tracked_def kMaximumPermanentDeleteItems_def)

text \<open>
  \<open>settled\<close>: the object of item \<open>i\<close> is where the record has it, or the record says it is destroyed
  and nothing is at its private name. \<open>moved_on\<close>: its step is active and has already happened.
\<close>

type_synonym holds = "path \<Rightarrow> string \<Rightarrow> bool"

definition settled :: "holds \<Rightarrow> (path \<Rightarrow> bool) \<Rightarrow> PermanentDeleteTransaction \<Rightarrow> nat \<Rightarrow> bool" where
  "settled H V t i \<longleftrightarrow>
     (let item = del_items t ! i in
      if del_location item = In_deleted then V (del_temporary item)
      else H (del_current item) (del_identity item))"

definition moved_on :: "holds \<Rightarrow> (path \<Rightarrow> bool) \<Rightarrow> PermanentDeleteTransaction \<Rightarrow> nat \<Rightarrow> bool" where
  "moved_on H V t i \<longleftrightarrow>
     (let item = del_items t ! i; step = del_step t in
      step \<noteq> Del_none \<and> unat (del_index t) = i \<and> V (del_current item) \<and>
      (if step = Del_erase then valid_delete_request (delete_request t i) = Inr ()
       else H (del_destination item step) (del_identity item) \<and>
            valid_rename_request (delete_rename_request t i step) = Inr ()))"

definition del_consistent :: "holds \<Rightarrow> (path \<Rightarrow> bool) \<Rightarrow> PermanentDeleteTransaction \<Rightarrow> bool" where
  "del_consistent H V t \<longleftrightarrow>
     del_tracked t \<and> (\<forall>i<length (del_items t). settled H V t i \<or> moved_on H V t i) \<and>
     (del_evidence t = No_commit \<longrightarrow> settled H V t (unat (del_index t)))"

lemma del_consistentD:
  assumes "del_consistent H V t"
  shows "del_tracked t" "i < length (del_items t) \<Longrightarrow> settled H V t i \<or> moved_on H V t i"
    "del_evidence t = No_commit \<Longrightarrow> settled H V t (unat (del_index t))"
    "length (del_items t) < 2 ^ 32"
    "i < length (del_items t) \<Longrightarrow> del_item_tracked (del_phase t) (del_items t ! i)"
    "del_step t \<noteq> Del_none \<Longrightarrow> unat (del_index t) < length (del_items t)"
    "del_step t \<noteq> Del_none \<Longrightarrow> active_step_matches t"
    "distinct (map del_identity (del_items t))"
  using assms by (auto simp: del_consistent_def del_tracked_def)

lemma del_consistent_rest:
  "del_consistent H V t \<Longrightarrow> i < length (del_items t) \<Longrightarrow>
     del_step t = Del_none \<or> i \<noteq> unat (del_index t) \<Longrightarrow> settled H V t i"
  by (auto simp: del_consistent_def moved_on_def Let_def)

lemma active_present:
  assumes "del_consistent H V t" "del_step t \<noteq> Del_none" "unat (del_index t) = i"
  shows "del_location (del_items t ! i) \<noteq> In_deleted"
  using del_consistentD(7) [OF assms(1,2)] assms(2,3)
  by (cases "del_step t") (auto simp: active_step_matches_def)

lemma requests_cong:
  assumes "del_operation_id t' = del_operation_id t" "del_items t' = del_items t"
  shows "delete_rename_request t' i step = delete_rename_request t i step"
    "delete_request t' i = delete_request t i"
  using assms
  by (simp_all add: delete_rename_request_def delete_request_def del_step_operation_id_def Let_def)

section \<open>How the record changes\<close>

definition del_fits :: "PermanentDeleteTransaction \<Rightarrow> nat \<Rightarrow> PermanentDeleteStep \<Rightarrow> bool" where
  "del_fits t i step \<longleftrightarrow>
     i < length (del_items t) \<and>
     (step = Del_evacuate \<and> del_phase t = Del_evacuating \<and> del_location (del_items t ! i) = In_source \<or>
      step = Del_roll_back \<and> del_phase t = Del_rollback \<and>
        del_location (del_items t ! i) = In_temporary \<or>
      step = Del_erase \<and> del_phase t = Del_deleting \<and> del_location (del_items t ! i) = In_temporary)"

lemma del_consistent_activate:
  assumes "del_consistent H V t" "del_step t = Del_none" "del_fits t i step"
  shows "del_consistent H V (activate_delete t i step)" "settled H V (activate_delete t i step) i"
    "del_step (activate_delete t i step) = step" "unat (del_index (activate_delete t i step)) = i"
proof -
  from assms(3) have i: "i < length (del_items t)" by (simp add: del_fits_def)
  from i del_consistentD(4) [OF assms(1)]
  show index: "unat (del_index (activate_delete t i step)) = i"
    by (simp add: activate_delete_def unat_of_nat take_bit_eq_mod)
  have rest: "settled H V t j" if "j < length (del_items t)" for j
    using del_consistent_rest [OF assms(1) that] assms(2) by simp
  then show "settled H V (activate_delete t i step) i"
    using i by (simp add: settled_def activate_delete_def)
  show "del_step (activate_delete t i step) = step" by (simp add: activate_delete_def)
  have "del_tracked (activate_delete t i step)"
    using del_consistentD(1) [OF assms(1)] assms(3) index
    by (auto simp: del_tracked_def del_fits_def active_step_matches_def activate_delete_def)
  with rest show "del_consistent H V (activate_delete t i step)"
    by (auto simp: del_consistent_def settled_def activate_delete_def)
qed

lemma del_consistent_clear:
  assumes "del_consistent H V t" "del_step t \<noteq> Del_none \<Longrightarrow> settled H V t (unat (del_index t))"
  shows "del_consistent H V (clear_step t)"
proof -
  have "settled H V t i" if "i < length (del_items t)" for i
    using del_consistent_rest [OF assms(1) that] assms(2) by blast
  then show ?thesis
    using assms(1) by (auto simp: del_consistent_def del_tracked_def clear_step_def settled_def)
qed

lemma del_consistent_phase:
  assumes "del_consistent H V t" "del_step t = Del_none"
    and "\<And>i. i < length (del_items t) \<Longrightarrow> location_allowed p (del_location (del_items t ! i))"
  shows "del_consistent H V (t\<lparr>del_phase := p\<rparr>)"
  using assms
  by (auto simp: del_consistent_def del_tracked_def del_item_tracked_def settled_def moved_on_def Let_def)

lemma del_consistent_failure:
  assumes "del_consistent H V t" "del_step t \<noteq> Del_none" "failed \<noteq> Success"
    and "known = No_commit \<Longrightarrow> settled H V t (unat (del_index t))"
  shows "del_consistent H V (note_failure failed known detail t)"
proof -
  have "delete_rename_request (note_failure failed known detail t) i step = delete_rename_request t i step"
    "delete_request (note_failure failed known detail t) i = delete_request t i" for i step
    by (rule requests_cong; simp add: note_failure_def)+
  moreover have "active_step_matches (note_failure failed known detail t) = active_step_matches t"
    by (cases "del_step t") (simp_all add: active_step_matches_def note_failure_def)
  ultimately show ?thesis
    using assms
    by (auto simp: del_consistent_def del_tracked_def settled_def moved_on_def note_failure_def Let_def)
qed

lemma del_consistent_forget:
  "del_consistent H V t \<Longrightarrow> del_step t = Del_none \<Longrightarrow>
     del_consistent H V (t\<lparr>del_failure := st, del_detail := d\<rparr>)"
  by (auto simp: del_consistent_def del_tracked_def settled_def moved_on_def Let_def)

lemma clear_delete_active_consistent:
  "del_consistent H V (clear_step t) \<Longrightarrow> del_consistent H V (clear_delete_active t)"
  using del_consistent_forget [of H V "clear_step t"] by (simp add: clear_delete_active_def clear_step_def)

text \<open>The item of the active step is replaced by one that is settled.\<close>

lemma del_consistent_replace:
  assumes con: "del_consistent H V t" and active: "del_step t \<noteq> Del_none"
    and index: "unat (del_index t) = i" and identity: "del_identity new = del_identity (del_items t ! i)"
    and tracked: "del_item_tracked (del_phase t) new"
    and there: "if del_location new = In_deleted then V (del_temporary new)
                else H (del_current new) (del_identity new)"
  shows "del_consistent H V (clear_step (t\<lparr>del_items := (del_items t)[i := new]\<rparr>))"
proof -
  let ?items = "del_items t" and ?t = "clear_step (t\<lparr>del_items := (del_items t)[i := new]\<rparr>)"
  from del_consistentD(6) [OF con active] index have i: "i < length ?items" by simp
  have fields: "del_items ?t = ?items[i := new]" "del_phase ?t = del_phase t"
    "del_step ?t = Del_none" "del_evidence ?t = Evidence_none"
    by (simp_all add: clear_step_def)
  have ids: "map del_identity (del_items ?t) = map del_identity ?items"
    using i identity by (simp add: fields map_update list_update_same_conv)
  have "del_tracked ?t"
    using del_consistentD(1) [OF con] tracked ids i
    by (auto simp: del_tracked_def fields nth_list_update)
  moreover have "settled H V ?t j" if j: "j < length (del_items ?t)" for j
  proof (cases "j = i")
    case True
    with there i show ?thesis by (simp add: settled_def fields)
  next
    case False
    with j i del_consistent_rest [OF con, of j] index show ?thesis
      by (simp add: settled_def fields)
  qed
  ultimately show ?thesis by (simp add: del_consistent_def fields)
qed

subsection \<open>What no step changes\<close>

definition del_skeleton :: "PermanentDeleteTransaction \<Rightarrow> (path \<times> path \<times> string) list" where
  "del_skeleton t = map (\<lambda>item. (del_source item, del_temporary item, del_identity item)) (del_items t)"

definition del_locations_of :: "PermanentDeleteTransaction \<Rightarrow> PermanentDeleteItemLocation list" where
  "del_locations_of t = map del_location (del_items t)"

definition del_ids :: "PermanentDeleteTransaction \<Rightarrow> string set" where
  "del_ids t = del_identity ` set (del_items t)"

lemma del_skeleton_same:
  assumes "del_skeleton t' = del_skeleton t"
  shows "length (del_items t') = length (del_items t)" "del_ids t' = del_ids t"
proof -
  show "length (del_items t') = length (del_items t)"
    using arg_cong [OF assms, of length] by (simp add: del_skeleton_def)
  have "del_ids t = (\<lambda>(s, u, i). i) ` set (del_skeleton t)" for t
    by (force simp: del_ids_def del_skeleton_def)
  with assms show "del_ids t' = del_ids t" by metis
qed

lemma del_skeleton_nth:
  assumes "del_skeleton t' = del_skeleton t" "i < length (del_items t)"
  shows "del_source (del_items t' ! i) = del_source (del_items t ! i)"
    "del_temporary (del_items t' ! i) = del_temporary (del_items t ! i)"
    "del_identity (del_items t' ! i) = del_identity (del_items t ! i)"
  using arg_cong [OF assms(1), of "\<lambda>xs. xs ! i"] assms(2) del_skeleton_same [OF assms(1)]
  by (simp_all add: del_skeleton_def)

lemma length_del_locations [simp]: "length (del_locations_of t) = length (del_items t)"
  by (simp add: del_locations_of_def)

lemma nth_del_locations [simp]:
  "i < length (del_items t) \<Longrightarrow> del_locations_of t ! i = del_location (del_items t ! i)"
  by (simp add: del_locations_of_def)

lemma del_record_updates [simp]:
  "del_skeleton (activate_delete t i step) = del_skeleton t"
  "del_locations_of (activate_delete t i step) = del_locations_of t"
  "del_phase (activate_delete t i step) = del_phase t"
  "del_skeleton (clear_step t) = del_skeleton t" "del_locations_of (clear_step t) = del_locations_of t"
  "del_step (clear_step t) = Del_none" "del_phase (clear_step t) = del_phase t"
  "del_skeleton (clear_delete_active t) = del_skeleton t"
  "del_locations_of (clear_delete_active t) = del_locations_of t"
  "del_step (clear_delete_active t) = Del_none" "del_phase (clear_delete_active t) = del_phase t"
  "del_skeleton (note_failure f k d t) = del_skeleton t"
  "del_locations_of (note_failure f k d t) = del_locations_of t"
  "del_phase (note_failure f k d t) = del_phase t" "del_step (note_failure f k d t) = del_step t"
  "del_index (note_failure f k d t) = del_index t"
  "del_skeleton (turn_back step t) = del_skeleton t"
  "del_locations_of (turn_back step t) = del_locations_of t"
  "del_skeleton (t\<lparr>del_phase := p\<rparr>) = del_skeleton t"
  "del_locations_of (t\<lparr>del_phase := p\<rparr>) = del_locations_of t"
  by (simp_all add: del_skeleton_def del_locations_of_def activate_delete_def clear_step_def
      clear_delete_active_def note_failure_def turn_back_def)

definition del_step_location :: "PermanentDeleteStep \<Rightarrow> PermanentDeleteItemLocation" where
  "del_step_location step =
     (if step = Del_erase then In_deleted else if step = Del_evacuate then In_temporary else In_source)"

lemma replace_skeleton:
  assumes "i < length (del_items t)" "del_source new = del_source (del_items t ! i)"
    "del_temporary new = del_temporary (del_items t ! i)" "del_identity new = del_identity (del_items t ! i)"
  shows "del_skeleton (t\<lparr>del_items := (del_items t)[i := new]\<rparr>) = del_skeleton t"
    "del_locations_of (t\<lparr>del_items := (del_items t)[i := new]\<rparr>) =
       (del_locations_of t)[i := del_location new]"
  using assms by (simp_all add: del_skeleton_def del_locations_of_def map_update list_update_same_conv)

section \<open>What the journal holds\<close>

definition delete_record :: "PermanentDeleteTransaction \<Rightarrow> DurableJournalStatus \<times> byte list \<Rightarrow> bool" where
  "delete_record = record_of encode_permanent_delete_transaction kind_permanent_delete"

definition del_recoverable :: "holds \<Rightarrow> (path \<Rightarrow> bool) \<Rightarrow> disk \<Rightarrow> bool" where
  "del_recoverable H V = recoverable_with delete_record (del_consistent H V)"

definition del_recorded :: "PermanentDeleteTransaction \<Rightarrow> disk \<Rightarrow> bool" where
  "del_recorded = recorded_with delete_record"

lemma del_recorded_recoverable:
  "del_recorded t d \<Longrightarrow> del_consistent H V t \<Longrightarrow> del_recoverable H V d"
  by (simp add: del_recorded_def del_recoverable_def recorded_recoverable_with)

lemma persist_delete_effect:
  assumes "persist_delete t w = (r, w')" "disk_ok (journal w)"
  shows "service w' = service w" "disk_ok (journal w')"
    "view \<in> disk_views (journal w') \<Longrightarrow> view \<in> disk_views (journal w) \<or> delete_record t view"
    "r = None \<Longrightarrow> del_recorded t (journal w')"
  using persist_payload_effect [where encode = encode_permanent_delete_transaction,
      OF assms(1) [unfolded persist_delete_def] assms(2)]
  by (auto simp: delete_record_def del_recorded_def)

lemma persist_delete_recoverable:
  assumes "persist_delete t w = (r, w')" "del_recoverable H V (journal w)" "del_consistent H V t"
  shows "del_recoverable H V (journal w')" "service w' = service w"
    "r = None \<Longrightarrow> del_recorded t (journal w')"
  using persist_payload_recoverable [where accounts = "del_consistent H V"
        and encode = encode_permanent_delete_transaction, OF assms(1) [unfolded persist_delete_def]]
    assms(2,3) by (simp_all add: delete_record_def del_recorded_def del_recoverable_def)

lemma conclude_delete_outcome:
  assumes "conclude_delete prefix d result t w = ((s, t'), w')"
    and "del_recoverable H V (journal w)" "del_consistent H V t"
  shows "t' = t \<and> service w' = service w \<and> del_recoverable H V (journal w') \<and>
    step_outcome s \<in> {step_outcome result, Step_journal_error, Step_stopped}"
proof -
  obtain r w1 where run: "persist_delete t w = (r, w1)" by fastforce
  obtain s2 w2 where ended: "conclude_with (persist_delete t) prefix d result w = (s2, w2)" by fastforce
  from conclude_with_outcome [OF ended run] persist_delete_recoverable [OF run assms(2,3)]
    assms(1) ended show ?thesis by (auto simp: conclude_delete_def)
qed

lemma record_delete_outcome:
  assumes "record_delete prefix result t w = ((s, t'), w')"
    and "del_recoverable H V (journal w)" "del_consistent H V t"
  shows "t' = t \<and> service w' = service w \<and> del_recoverable H V (journal w') \<and>
    step_outcome s \<in> {step_outcome result, Step_journal_error, Step_stopped}"
proof -
  obtain r w1 where run: "persist_delete t w = (r, w1)" by fastforce
  from persist_delete_recoverable [OF run assms(2,3)] assms(1) run show ?thesis
    by (auto simp: record_delete_def journal_failure_def split: option.splits)
qed

section \<open>One submission\<close>

text \<open>Every object that is not of the transaction stays where it is.\<close>

definition spared :: "string set \<Rightarrow> holds \<Rightarrow> holds \<Rightarrow> bool" where
  "spared ids H H' \<longleftrightarrow> (\<forall>q j. j \<notin> ids \<longrightarrow> H q j \<longrightarrow> H' q j)"

lemma spared_refl [simp, intro]: "spared ids H H"
  by (simp add: spared_def)

lemma spared_trans: "spared ids H H' \<Longrightarrow> spared ids H' H'' \<Longrightarrow> spared ids H H''"
  by (simp add: spared_def)

lemma delete_rename_request_simps [simp]:
  "rename_source (delete_rename_request t i step) = del_current (del_items t ! i)"
  "rename_destination (delete_rename_request t i step) = del_destination (del_items t ! i) step"
  "plain_rename (delete_rename_request t i step)"
  by (simp_all add: delete_rename_request_def Let_def plain_rename_def rename_replacement_def)

lemma delete_request_simps [simp]:
  "delete_source (delete_request t i) = del_current (del_items t ! i)"
  "remote_delete (delete_request t i)"
  by (simp_all add: delete_request_def Let_def remote_delete_def)

text \<open>What the coordinator may rely on once a submission for its active step has been answered.\<close>

definition del_answered ::
  "holds \<Rightarrow> (path \<Rightarrow> bool) \<Rightarrow> PermanentDeleteTransaction \<Rightarrow> OperationResult \<Rightarrow> bool"
where
  "del_answered H V t res \<longleftrightarrow>
     del_consistent H V t \<and>
     (evidence res = No_commit \<longrightarrow> settled H V t (unat (del_index t))) \<and>
     (status res = Success \<longrightarrow>
        (let item = del_items t ! unat (del_index t) in
         if del_step t = Del_erase then V (del_temporary item)
         else H (del_destination item (del_step t))
                (stable_object_identity (source_revision_utf8 (confirmed_snapshot res)))))"

lemma erased_current:
  assumes "del_consistent H V t" "del_step t = Del_erase" "unat (del_index t) = i"
  shows "del_phase t = Del_deleting" "path_eq (del_current (del_items t ! i)) (del_temporary (del_items t ! i))"
proof -
  from del_consistentD(6,7) [OF assms(1)] assms(2,3)
  have i: "i < length (del_items t)" and at: "del_location (del_items t ! i) = In_temporary"
    and phase: "del_phase t = Del_deleting" by (auto simp: active_step_matches_def)
  with del_consistentD(5) [OF assms(1) i]
  show "del_phase t = Del_deleting" "path_eq (del_current (del_items t ! i)) (del_temporary (del_items t ! i))"
    by (simp_all add: del_item_tracked_def expected_current_def)
qed

context delete_service begin

definition services :: "'h services" where
  "services = \<lparr>move_service = serve, erase_service = erase, inspect_service = inspect\<rparr>"

text \<open>The service carries out the active step, or reconciles it.\<close>

definition serve_step ::
  "PermanentDeleteTransaction \<Rightarrow> RenameAction \<Rightarrow> 'h \<Rightarrow> OperationResult \<times> 'h"
where
  "serve_step t action =
     (let i = unat (del_index t) in
      if del_step t = Del_erase then erase (delete_request t i) action
      else serve (delete_rename_request t i (del_step t)) action)"

lemma settled_others:
  assumes con: "del_consistent (has h) (vacant h) t" and active: "del_step t \<noteq> Del_none"
    and rest: "settled (has h) (vacant h) t (unat (del_index t))"
    and run: "serve_step t Execute h = (res, h')"
    and j: "j < length (del_items t)" "j \<noteq> unat (del_index t)"
  shows "settled (has h') (vacant h') t j"
proof -
  let ?i = "unat (del_index t)"
  note i = del_consistentD(6) [OF con active]
  have old: "settled (has h) (vacant h) t j" by (rule del_consistent_rest [OF con j(1)]) (use j(2) in simp)
  have differ: "del_identity (del_items t ! ?i) \<noteq> del_identity (del_items t ! j)"
    using del_consistentD(8) [OF con] i j by (auto simp: distinct_conv_nth)
  have here: "has h (del_current (del_items t ! ?i)) (del_identity (del_items t ! ?i))"
    using rest active_present [OF con active refl] by (simp add: settled_def Let_def)
  show ?thesis
  proof (cases "del_step t = Del_erase")
    case True
    with run have erase: "erase (delete_request t ?i) Execute h = (res, h')"
      by (simp add: serve_step_def)
    from erase_spares [OF _ erase, simplified, OF here _ differ] erase_vacant [OF _ erase] old
    show ?thesis by (auto simp: settled_def Let_def)
  next
    case False
    with run have move: "serve (delete_rename_request t ?i (del_step t)) Execute h = (res, h')"
      by (simp add: serve_step_def)
    have "location_allowed (del_phase t) (del_location (del_items t ! j))"
      using del_consistentD(5) [OF con j(1)] by (simp add: del_item_tracked_def)
    then have "del_location (del_items t ! j) \<noteq> In_deleted"
      using del_consistentD(7) [OF con active] False active
      by (cases "del_step t") (auto simp: active_step_matches_def)
    with others_stay [OF _ move, simplified, OF here _ differ] old show ?thesis
      by (auto simp: settled_def Let_def)
  qed
qed

lemma serve_execute_step:
  assumes con: "del_consistent (has h) (vacant h) t" and active: "del_step t \<noteq> Del_none"
    and evidence: "del_evidence t = Evidence_none"
    and rest: "settled (has h) (vacant h) t (unat (del_index t))"
    and run: "serve_step t Execute h = (res, h')"
  shows "del_answered (has h') (vacant h') t res" "spared (del_ids t) (has h) (has h')"
proof -
  let ?i = "unat (del_index t)" and ?item = "del_items t ! unat (del_index t)"
  note i = del_consistentD(6) [OF con active]
  have present: "del_location ?item \<noteq> In_deleted" by (rule active_present [OF con active refl])
  have here: "has h (del_current ?item) (del_identity ?item)"
    using rest present by (simp add: settled_def Let_def)
  have mine: "del_identity ?item \<in> del_ids t" using i by (simp add: del_ids_def)
  have outcome: "settled (has h') (vacant h') t ?i \<or>
      moved_on (has h') (vacant h') t ?i \<and> evidence res \<noteq> No_commit"
    and success: "status res = Success \<Longrightarrow>
      (if del_step t = Del_erase then vacant h' (del_temporary ?item)
       else has h' (del_destination ?item (del_step t))
              (stable_object_identity (source_revision_utf8 (confirmed_snapshot res))))"
    and spared: "spared (del_ids t) (has h) (has h')"
  proof -
    have "(settled (has h') (vacant h') t ?i \<or>
        moved_on (has h') (vacant h') t ?i \<and> evidence res \<noteq> No_commit) \<and>
      (status res = Success \<longrightarrow>
        (if del_step t = Del_erase then vacant h' (del_temporary ?item)
         else has h' (del_destination ?item (del_step t))
                (stable_object_identity (source_revision_utf8 (confirmed_snapshot res))))) \<and>
      spared (del_ids t) (has h) (has h')"
    proof (cases "del_step t = Del_erase")
      case True
      with run have erase: "erase (delete_request t ?i) Execute h = (res, h')"
        by (simp add: serve_step_def)
      have "spared (del_ids t) (has h) (has h')"
        using erase_spares [OF _ erase, simplified, OF here] mine by (auto simp: spared_def)
      with erase_execute [OF _ erase, simplified] erase_success [OF _ erase, simplified] here present True
        vacant_spelling [OF _ erased_current(2) [OF con True refl]]
      show ?thesis by (auto simp: settled_def moved_on_def Let_def)
    next
      case False
      with run have move: "serve (delete_rename_request t ?i (del_step t)) Execute h = (res, h')"
        by (simp add: serve_step_def)
      have "spared (del_ids t) (has h) (has h')"
        using others_stay [OF _ move, simplified, OF here] mine by (auto simp: spared_def)
      with object_follows [OF _ move, simplified, OF here] success [OF _ move, simplified] present False active
      show ?thesis by (auto simp: settled_def moved_on_def Let_def)
    qed
    then show "settled (has h') (vacant h') t ?i \<or>
        moved_on (has h') (vacant h') t ?i \<and> evidence res \<noteq> No_commit"
      "status res = Success \<Longrightarrow>
        (if del_step t = Del_erase then vacant h' (del_temporary ?item)
         else has h' (del_destination ?item (del_step t))
                (stable_object_identity (source_revision_utf8 (confirmed_snapshot res))))"
      "spared (del_ids t) (has h) (has h')" by auto
  qed
  have "del_consistent (has h') (vacant h') t"
    using del_consistentD(1) [OF con] settled_others [OF con active rest run] outcome evidence
    by (auto simp: del_consistent_def)
  with outcome success show "del_answered (has h') (vacant h') t res"
    by (auto simp: del_answered_def Let_def)
  show "spared (del_ids t) (has h) (has h')" by (rule spared)
qed

lemma serve_reconcile_step:
  assumes con: "del_consistent (has h) (vacant h) t" and active: "del_step t \<noteq> Del_none"
    and run: "serve_step t Reconcile_only h = (res, h')"
  shows "del_answered (has h') (vacant h') t res" "has h' = has h" "vacant h' = vacant h"
proof -
  let ?i = "unat (del_index t)"
  note i = del_consistentD(6) [OF con active]
  have "has h' = has h \<and> vacant h' = vacant h \<and>
    (evidence res = No_commit \<longrightarrow> \<not> moved_on (has h) (vacant h) t ?i) \<and>
    (status res = Success \<longrightarrow>
       (if del_step t = Del_erase then vacant h' (del_temporary (del_items t ! ?i))
        else has h' (del_destination (del_items t ! ?i) (del_step t))
               (stable_object_identity (source_revision_utf8 (confirmed_snapshot res)))))"
  proof (cases "del_step t = Del_erase")
    case True
    with run have erase: "erase (delete_request t ?i) Reconcile_only h = (res, h')"
      by (simp add: serve_step_def)
    from erase_reconcile [OF _ erase, simplified] erase_success [OF _ erase, simplified]
      erase_no_commit [OF _ _ erase, simplified] True
      vacant_spelling [OF _ erased_current(2) [OF con True refl]]
    show ?thesis by (auto simp: moved_on_def Let_def)
  next
    case False
    with run have move: "serve (delete_rename_request t ?i (del_step t)) Reconcile_only h = (res, h')"
      by (simp add: serve_step_def)
    from reconcile [OF _ move, simplified] success [OF _ move, simplified]
      reconcile_no_commit [OF _ _ move, simplified] False
    show ?thesis by (auto simp: moved_on_def Let_def)
  qed
  with con i show "del_answered (has h') (vacant h') t res" "has h' = has h" "vacant h' = vacant h"
    using del_consistentD(2) [OF con i] by (auto simp: del_answered_def Let_def)
qed

text \<open>A submission is one of these, or a refusal that changes nothing.\<close>

lemma submit_delete_step_cases:
  assumes "submit_delete_step services t (unat (del_index t)) (del_step t) reconciles w = (res, w')"
  shows "journal w' = journal w \<and>
    (serve_step t (if reconciles then Reconcile_only else Execute) (service w) = (res, service w') \<or>
     service w' = service w \<and> status res = Io_error \<and> evidence res = Evidence_none)"
  using submit_with_cases [of _ _ _ w res w'] assms
  by (fastforce simp: submit_delete_step_def serve_step_def services_def Let_def
      split: if_splits)

lemma attempt_delete_answered:
  assumes con: "del_consistent (has (service w)) (vacant (service w)) t" and active: "del_step t \<noteq> Del_none"
    and evidence: "del_evidence t = Evidence_none"
    and rest: "settled (has (service w)) (vacant (service w)) t (unat (del_index t))"
    and run: "attempt_with (submit_delete_step services t (unat (del_index t)) (del_step t) False)
      (submit_delete_step services t (unat (del_index t)) (del_step t) True) w = (res, w')"
  shows "del_answered (has (service w')) (vacant (service w')) t res \<and>
    spared (del_ids t) (has (service w)) (has (service w')) \<and> journal w' = journal w"
proof (rule attempt_with_kept [OF run, where P = "\<lambda>r h d. del_answered (has h) (vacant h) t r \<and>
      spared (del_ids t) (has (service w)) (has h) \<and> d = journal w"])
  fix r v
  assume "submit_delete_step services t (unat (del_index t)) (del_step t) False w = (r, v)"
  from submit_delete_step_cases [OF this] serve_execute_step [OF con active evidence rest, of r "service v"] con
  show "del_answered (has (service v)) (vacant (service v)) t r \<and>
      spared (del_ids t) (has (service w)) (has (service v)) \<and> journal v = journal w"
    by (auto simp: del_answered_def Let_def)
next
  fix r v v' r'
  assume before: "del_answered (has (service v)) (vacant (service v)) t r \<and>
      spared (del_ids t) (has (service w)) (has (service v)) \<and> journal v = journal w"
    and sub: "submit_delete_step services t (unat (del_index t)) (del_step t) True v = (r', v')"
  then have con': "del_consistent (has (service v)) (vacant (service v)) t" by (simp add: del_answered_def)
  from submit_delete_step_cases [OF sub] serve_reconcile_step [OF con' active, of r' "service v'"] con' before
  show "del_answered (has (service v')) (vacant (service v')) t r' \<and>
      spared (del_ids t) (has (service w)) (has (service v')) \<and> journal v' = journal w"
    by (auto simp: del_answered_def Let_def)
qed

end

section \<open>One step\<close>

text \<open>Whatever the outcome, the journal still accounts for every object and no other object is
  touched. A committed step moved or destroyed its item; a step without commit did nothing and
  leaves the transaction in phase \<open>p\<close>.\<close>

definition del_step_kept ::
  "holds \<Rightarrow> (path \<Rightarrow> bool) \<Rightarrow> PermanentDeleteTransaction \<Rightarrow> nat \<Rightarrow> PermanentDeleteStep \<Rightarrow>
   PermanentDeletePhase \<Rightarrow> StepOutcome \<Rightarrow> PermanentDeleteTransaction \<Rightarrow> disk \<Rightarrow> bool"
where
  "del_step_kept H V t i step p outcome t' d \<longleftrightarrow>
     del_consistent H V t' \<and> del_recoverable H V d \<and> del_skeleton t' = del_skeleton t \<and>
     (outcome = Step_committed \<longrightarrow> del_step t' = Del_none \<and> del_phase t' = del_phase t \<and>
        del_locations_of t' = (del_locations_of t)[i := del_step_location step]) \<and>
     (outcome = Step_no_commit \<longrightarrow> del_step t' = Del_none \<and> del_phase t' = p \<and>
        del_locations_of t' = del_locations_of t)"

lemma apply_delete_success_consistent:
  assumes answer: "del_answered H V t result" "status result = Success"
    and active: "del_step t = step" "step \<noteq> Del_none" "unat (del_index t) = i"
    and applied: "apply_delete_success t i step result = Inr t'"
  shows "del_consistent H V t' \<and> del_step t' = Del_none \<and> del_skeleton t' = del_skeleton t \<and>
    del_phase t' = del_phase t \<and> del_locations_of t' = (del_locations_of t)[i := del_step_location step]"
proof -
  let ?item = "del_items t ! i" and ?s = "confirmed_snapshot result"
  from answer(1) have con: "del_consistent H V t" by (simp add: del_answered_def)
  have some: "del_step t \<noteq> Del_none" using active by simp
  from del_consistentD(6) [OF con some] active have i: "i < length (del_items t)" by simp
  note fits = del_consistentD(7) [OF con some]
  have old: "del_item_tracked (del_phase t) ?item" by (rule del_consistentD(5) [OF con i])
  have replaced: ?thesis
    if t': "t' = clear_delete_active (t\<lparr>del_items := (del_items t)[i := new]\<rparr>)"
      and same: "del_source new = del_source ?item" "del_temporary new = del_temporary ?item"
        "del_identity new = del_identity ?item" "del_location new = del_step_location step"
      and tracked: "expected_current new" "location_allowed (del_phase t) (del_location new)"
      and there: "if del_location new = In_deleted then V (del_temporary new)
                  else H (del_current new) (del_identity new)" for new
  proof -
    have "del_item_tracked (del_phase t) new"
      using old same(3) tracked by (simp add: del_item_tracked_def)
    from clear_delete_active_consistent [OF del_consistent_replace [OF con some active(3) same(3) this there]]
    have "del_consistent H V t'" by (simp add: t')
    with replace_skeleton [OF i same(1-3)] same(4) show ?thesis by (simp add: t')
  qed
  show ?thesis
  proof (cases "step = Del_erase")
    case True
    let ?new = "?item\<lparr>del_current := [], del_location := In_deleted\<rparr>"
    have "t' = clear_delete_active (t\<lparr>del_items := (del_items t)[i := ?new]\<rparr>)"
      using applied True
      by (auto simp: apply_delete_success_def apply_erase_success_def split: if_splits)
    then show ?thesis
      by (rule replaced)
        (use answer True active erased_current(1) [OF con] in
          \<open>simp_all add: del_identity_def expected_current_def del_step_location_def del_answered_def\<close>)
  next
    case False
    let ?new = "?item\<lparr>del_current := del_destination ?item step, del_snapshot := ?s,
        del_location := (if step = Del_evacuate then In_temporary else In_source)\<rparr>"
    have id: "stable_object_identity (source_revision_utf8 ?s) = del_identity ?item"
      and "t' = clear_delete_active (t\<lparr>del_items := (del_items t)[i := ?new]\<rparr>)"
      using applied False
      by (auto simp: apply_delete_success_def apply_rename_success_def Let_def split: if_splits)
    from this(2) show ?thesis
    proof (rule replaced)
      show "del_identity ?new = del_identity ?item" using id by (simp add: del_identity_def)
      show "location_allowed (del_phase t) (del_location ?new)"
        using fits active False by (cases step) (auto simp: active_step_matches_def)
      show "if del_location ?new = In_deleted then V (del_temporary ?new)
            else H (del_current ?new) (del_identity ?new)"
        using answer active False id by (simp add: del_answered_def del_identity_def Let_def)
    qed (use False in \<open>simp_all add: expected_current_def del_destination_def del_step_location_def path_eq_def\<close>)
  qed
qed

lemma settle_succeeded_kept:
  assumes answer: "del_answered H V t result" "status result = Success"
    and active: "del_step t = step" "step \<noteq> Del_none" "unat (del_index t) = i"
    and disk: "del_recoverable H V (journal w)"
    and applied: "apply_delete_success t i step result = Inr t1"
    and run: "conclude_delete [] d (step_result Step_committed Success []) t1 w = ((s, t'), w')"
  shows "del_step_kept H V t i step p (step_outcome s) t' (journal w') \<and> service w' = service w"
proof -
  note after = apply_delete_success_consistent [OF answer active applied]
  from conclude_delete_outcome [OF run disk] after show ?thesis
    by (auto simp: del_step_kept_def step_result_def)
qed

lemma settled_retreat:
  assumes con: "del_consistent H V t" "del_consistent H V (clear_step t)" and fits: "del_fits t i step"
  shows "del_consistent H V (clear_step (turn_back step t))"
proof (cases "step = Del_evacuate")
  case True
  with fits have "del_phase t = Del_evacuating" by (simp add: del_fits_def)
  with del_consistentD(5) [OF con(1)]
  have "location_allowed Del_rollback (del_location (del_items t ! j))" if "j < length (del_items t)" for j
    using that by (auto simp: del_item_tracked_def)
  then have "del_consistent H V (clear_step t\<lparr>del_phase := Del_rollback\<rparr>)"
    by (intro del_consistent_phase [OF con(2)]) (simp_all add: clear_step_def)
  moreover have "clear_step t\<lparr>del_phase := Del_rollback\<rparr> = clear_step (turn_back step t)"
    using True by (cases t) (simp add: turn_back_def clear_step_def)
  ultimately show ?thesis by simp
next
  case False
  with con show ?thesis by (simp add: turn_back_def)
qed

lemma settle_delete_executed_kept:
  assumes answer: "del_answered H V t result"
    and active: "del_step t = step" "step \<noteq> Del_none" "unat (del_index t) = i"
    and fits: "del_fits t i step" and disk: "del_recoverable H V (journal w)"
    and run: "settle_delete_executed i step result t w = ((s, t'), w')"
  shows "del_step_kept H V t i step (del_phase (turn_back step t)) (step_outcome s) t' (journal w') \<and>
    service w' = service w"
proof (cases "status result = Success")
  case True
  show ?thesis
  proof (cases "apply_delete_success t i step result")
    case (Inr t1)
    with run True show ?thesis
      by (intro settle_succeeded_kept [OF answer True active disk Inr]) (simp add: settle_delete_executed_def)
  next
    case (Inl detail)
    have con: "del_consistent H V (note_failure Unknown_outcome (evidence result) detail t)"
      using answer active by (intro del_consistent_failure) (auto simp: del_answered_def)
    from run True Inl have "record_delete [] (step_result Step_recovery_required Unknown_outcome detail)
        (note_failure Unknown_outcome (evidence result) detail t) w = ((s, t'), w')"
      by (simp add: settle_delete_executed_def)
    from record_delete_outcome [OF this disk con] con show ?thesis
      by (auto simp: del_step_kept_def step_result_def)
  qed
next
  case False
  let ?t = "note_failure (status result) (evidence result) (detail_utf8 result) t"
  have con: "del_consistent H V ?t"
    using answer active False by (intro del_consistent_failure) (auto simp: del_answered_def)
  show ?thesis
  proof (cases "evidence result = No_commit")
    case stayed: True
    from answer stayed active(3) have "settled H V ?t (unat (del_index ?t))"
      by (auto simp: del_answered_def settled_def note_failure_def)
    then have cleared: "del_consistent H V (clear_step ?t)" by (rule del_consistent_clear [OF con])
    have "del_fits ?t i step" using fits by (simp add: del_fits_def note_failure_def)
    from settled_retreat [OF con cleared this]
    have turned: "del_consistent H V (clear_step (turn_back step ?t))" .
    from run False stayed have "conclude_delete [] ''permanent delete stopped after recording a non-commit''
        (step_result Step_no_commit (status result) (detail_utf8 result)) (clear_step (turn_back step ?t)) w =
        ((s, t'), w')" by (simp add: settle_delete_executed_def Let_def)
    from conclude_delete_outcome [OF this disk turned] turned show ?thesis
      by (auto simp: del_step_kept_def step_result_def turn_back_def)
  next
    case unknown: False
    from run False unknown obtain a b r where "conclude_delete a b r ?t w = ((s, t'), w')"
      "step_outcome r = Step_recovery_required"
      by (auto simp: settle_delete_executed_def step_result_def Let_def)
    from conclude_delete_outcome [OF this(1) disk con] con this(2) show ?thesis
      by (auto simp: del_step_kept_def)
  qed
qed

lemma settle_delete_reconciled_kept:
  assumes answer: "del_answered H V t result"
    and active: "del_step t = step" "step \<noteq> Del_none" "unat (del_index t) = i"
    and fits: "del_fits t i step" and disk: "del_recoverable H V (journal w)"
    and run: "settle_delete_reconciled i step result t w = ((s, t'), w')"
  shows "del_step_kept H V t i step (del_phase (turn_back step t)) (step_outcome s) t' (journal w') \<and>
    service w' = service w"
proof (cases "status result = Success")
  case True
  show ?thesis
  proof (cases "apply_delete_success t i step result")
    case (Inr t1)
    with run True show ?thesis
      by (intro settle_succeeded_kept [OF answer True active disk Inr]) (simp add: settle_delete_reconciled_def)
  next
    case (Inl detail)
    with run True answer disk show ?thesis
      by (auto simp: settle_delete_reconciled_def del_step_kept_def journal_failure_def del_answered_def)
  qed
next
  case False
  from answer have con: "del_consistent H V t" by (simp add: del_answered_def)
  show ?thesis
  proof (cases "evidence result = No_commit")
    case stayed: True
    have "settled H V t (unat (del_index t))" using answer stayed by (simp add: del_answered_def)
    then have cleared: "del_consistent H V (clear_step t)" by (rule del_consistent_clear [OF con])
    let ?t = "clear_step (turn_back step t)"
    from settled_retreat [OF con cleared fits] have turned: "del_consistent H V ?t" .
    have same: "clear_step (note_failure (status result) Evidence_none (detail_utf8 result) (turn_back step t)) =
        ?t\<lparr>del_failure := status result, del_detail := detail_utf8 result\<rparr>"
      by (cases "turn_back step t") (simp add: clear_step_def note_failure_def)
    have con2: "del_consistent H V (?t\<lparr>del_failure := status result, del_detail := detail_utf8 result\<rparr>)"
      by (rule del_consistent_forget [OF turned]) simp
    from run False stayed have "record_delete [] (step_result Step_no_commit (status result) (detail_utf8 result))
        (?t\<lparr>del_failure := status result, del_detail := detail_utf8 result\<rparr>) w = ((s, t'), w')"
      by (simp add: settle_delete_reconciled_def same)
    from record_delete_outcome [OF this disk con2] con2 show ?thesis
      by (auto simp: del_step_kept_def step_result_def del_skeleton_def del_locations_of_def
          clear_step_def turn_back_def)
  next
    case unknown: False
    have con2: "del_consistent H V (note_failure (status result) (evidence result) (detail_utf8 result) t)"
      using active False unknown by (intro del_consistent_failure [OF con]) auto
    from run False unknown have "record_delete (detail_utf8 result @ ''; '')
        (step_result Step_recovery_required (status result) (detail_utf8 result))
        (note_failure (status result) (evidence result) (detail_utf8 result) t) w = ((s, t'), w')"
      by (simp add: settle_delete_reconciled_def)
    from record_delete_outcome [OF this disk con2] con2 show ?thesis
      by (auto simp: del_step_kept_def step_result_def)
  qed
qed

text \<open>Merging in what the record knows of the attempt keeps the answer trustworthy.\<close>

lemma merge_noted_answered:
  assumes answer: "del_answered H V t res"
  shows "del_answered H V t (merge_noted t res)"
proof (cases "del_evidence t = Evidence_none")
  case True
  with answer show ?thesis by (simp add: merge_noted_def)
next
  case False
  let ?a = "plain_result (result_operation_id res) (del_failure t) (del_evidence t) (del_detail t)"
  let ?m = "merge_reconciliation ?a res"
  from answer have con: "del_consistent H V t" by (simp add: del_answered_def)
  from False del_consistentD(1) [OF con] have failed: "status ?a \<noteq> Success"
    by (simp add: del_tracked_def plain_result_def)
  have known: "evidence ?a = del_evidence t" by (simp add: plain_result_def)
  have "status ?m = Success \<Longrightarrow> status res = Success \<and> confirmed_snapshot ?m = confirmed_snapshot res"
    using failed by (auto simp: merge_reconciliation_def observe_presence_def split: if_splits)
  moreover have "evidence ?m = No_commit \<Longrightarrow> evidence res = No_commit \<or> del_evidence t = No_commit"
    using known by (auto simp: merge_evidence split: if_splits)
  ultimately show ?thesis
    using answer del_consistentD(3) [OF con] False by (auto simp: del_answered_def merge_noted_def Let_def)
qed

end
