(* ===== verification/Delete_Run.thy ===== *)
theory Delete_Run
  imports Delete_Safety
begin

text \<open>
  A whole permanent delete over any service with the contract \<open>delete_service\<close>: what holds after
  every step, every phase and every ending of \<open>Delete_Coordinator\<close>, and after a restart.
\<close>

context delete_service begin

section \<open>Steps\<close>

text \<open>\<open>fine\<close>: the transaction and everything the journal may hold account for every object.\<close>

definition fine :: "PermanentDeleteTransaction \<Rightarrow> 'h delete_state \<Rightarrow> bool" where
  "fine t w \<longleftrightarrow> del_consistent (has (service w)) (vacant (service w)) t \<and>
                del_recoverable (has (service w)) (vacant (service w)) (journal w)"

text \<open>What leads from \<open>w\<close> to \<open>w'\<close> leaves every object alone that is not of the transaction.\<close>

definition spares :: "PermanentDeleteTransaction \<Rightarrow> 'h delete_state \<Rightarrow> 'h delete_state \<Rightarrow> bool" where
  "spares t w w' \<longleftrightarrow> spared (del_ids t) (has (service w)) (has (service w'))"

lemma spares_refl [simp, intro]: "spares t w w"
  by (simp add: spares_def)

lemma spares_trans: "spares t w w1 \<Longrightarrow> spares t w1 w2 \<Longrightarrow> spares t w w2"
  unfolding spares_def by (rule spared_trans)

lemma spares_skeleton: "del_skeleton t' = del_skeleton t \<Longrightarrow> spares t' w w1 = spares t w w1"
  using del_skeleton_same(2) [of t' t] by (simp add: spares_def)

lemma spares_service: "service w' = service w \<Longrightarrow> spares t w w'"
  by (simp add: spares_def)

lemma execute_delete_step_kept:
  assumes ok: "fine t w" and idle: "del_step t = Del_none" and fits: "del_fits t i step"
    and run: "execute_delete_step services t i step w = ((s, t'), w')"
  shows "del_step_kept (has (service w')) (vacant (service w')) t i step (del_phase (turn_back step t))
    (step_outcome s) t' (journal w') \<and> spares t w w'"
proof -
  let ?t = "activate_delete t i step"
  from ok have con: "del_consistent (has (service w)) (vacant (service w)) t"
    and disk: "del_recoverable (has (service w)) (vacant (service w)) (journal w)"
    by (simp_all add: fine_def)
  note active = del_consistent_activate [OF con idle fits]
  have step: "step \<noteq> Del_none" using fits by (auto simp: del_fits_def)
  obtain r w1 where persisted: "persist_delete ?t w = (r, w1)" by fastforce
  note journaled = persist_delete_recoverable [OF persisted disk active(1)]
  show ?thesis
  proof (cases r)
    case (Some detail)
    with run persisted journaled active(1) show ?thesis
      by (auto simp: execute_delete_step_def del_step_kept_def journal_failure_def spares_service)
  next
    case None
    let ?w = "report_delete ?t i step w1"
    have w: "service ?w = service w" "journal ?w = journal w1"
      using journaled(2) by (simp_all add: report_delete_def)
    obtain res w2 where attempt: "attempt_with (submit_delete_step services ?t i step False)
        (submit_delete_step services ?t i step True) ?w = (res, w2)" by fastforce
    have "del_evidence ?t = Evidence_none" by (simp add: activate_delete_def)
    then have after: "del_answered (has (service w2)) (vacant (service w2)) ?t res \<and>
        spared (del_ids ?t) (has (service w)) (has (service w2)) \<and> journal w2 = journal w1"
      using attempt_delete_answered [of ?w ?t res w2] active step attempt w by simp
    have "del_consistent (has (service w2)) (vacant (service w2)) ?t"
      using after by (simp add: del_answered_def)
    with journaled(3) None after
    have disk2: "del_recoverable (has (service w2)) (vacant (service w2)) (journal w2)"
      by (auto intro: del_recorded_recoverable)
    have fits2: "del_fits ?t i step" using fits by (simp add: del_fits_def activate_delete_def)
    have run2: "settle_delete_executed i step res ?t w2 = ((s, t'), w')"
      using run persisted None attempt by (simp add: execute_delete_step_def Let_def)
    have ids: "del_ids ?t = del_ids t" by (simp add: del_ids_def activate_delete_def)
    have phase: "del_phase (turn_back step ?t) = del_phase (turn_back step t)"
      by (simp add: turn_back_def)
    from settle_delete_executed_kept [OF conjunct1 [OF after] active(3) step active(4) fits2 disk2 run2]
      after ids show ?thesis
      by (simp add: del_step_kept_def phase spares_def)
  qed
qed

lemma active_fits:
  assumes "del_consistent H V t" "del_step t \<noteq> Del_none"
  shows "del_fits t (unat (del_index t)) (del_step t)"
  using del_consistentD(6,7) [OF assms] assms(2)
  by (cases "del_step t") (auto simp: del_fits_def active_step_matches_def)

lemma reconcile_delete_active_kept:
  assumes ok: "fine t w" and active: "del_step t \<noteq> Del_none"
    and run: "reconcile_delete_active services t w = ((s, t'), w')"
  shows "del_step_kept (has (service w')) (vacant (service w')) t (unat (del_index t)) (del_step t)
    (del_phase (turn_back (del_step t) t)) (step_outcome s) t' (journal w') \<and> spares t w w'"
proof -
  from ok have con: "del_consistent (has (service w)) (vacant (service w)) t"
    and disk: "del_recoverable (has (service w)) (vacant (service w)) (journal w)"
    by (simp_all add: fine_def)
  obtain res w1 where submitted:
    "submit_delete_step services t (unat (del_index t)) (del_step t) True w = (res, w1)" by fastforce
  have one: "del_answered (has (service w1)) (vacant (service w1)) t res \<and>
      has (service w1) = has (service w) \<and> vacant (service w1) = vacant (service w) \<and>
      journal w1 = journal w"
    using submit_delete_step_cases [OF submitted] serve_reconcile_step [OF con active, of res "service w1"] con
    by (auto simp: del_answered_def Let_def)
  note answer = merge_noted_answered [OF conjunct1 [OF one]]
  have disk1: "del_recoverable (has (service w1)) (vacant (service w1)) (journal w1)"
    using one disk by simp
  have "settle_delete_reconciled (unat (del_index t)) (del_step t) (merge_noted t res) t w1 = ((s, t'), w')"
    using run submitted by (simp add: reconcile_delete_active_def Let_def)
  from settle_delete_reconciled_kept [OF answer refl active refl active_fits [OF con active] disk1 this] one
  show ?thesis by (simp add: spares_def)
qed

section \<open>Phases\<close>

text \<open>A run that ends early says so.\<close>

definition open_end :: "PermanentDeleteResult \<Rightarrow> bool" where
  "open_end r \<longleftrightarrow>
     delete_status r \<in> {Delete_journal_error, Delete_recovery_required, Delete_stopped}"

lemma open_end_simps [simp]:
  "open_end (delete_recovery_result t s)" "open_end (delete_result Delete_recovery_required a b c d)"
  by (simp_all add: open_end_def delete_recovery_result_def delete_result_def)

lemma fine_step:
  assumes "fine t w" "del_step t = Del_none" "del_fits t i step"
    and "execute_delete_step services t i step w = ((s, t'), w')"
  shows "fine t' w'" "del_skeleton t' = del_skeleton t" "spares t w w'"
    "step_outcome s = Step_committed \<Longrightarrow> del_step t' = Del_none \<and> del_phase t' = del_phase t \<and>
       del_locations_of t' = (del_locations_of t)[i := del_step_location step]"
    "step_outcome s = Step_no_commit \<Longrightarrow> del_step t' = Del_none \<and>
       del_phase t' = del_phase (turn_back step t) \<and> del_locations_of t' = del_locations_of t"
  using execute_delete_step_kept [OF assms] by (auto simp: del_step_kept_def fine_def)

lemma fine_location:
  "fine t w \<Longrightarrow> i < length (del_items t) \<Longrightarrow>
     location_allowed (del_phase t) (del_location (del_items t ! i))"
  using del_consistentD(5) by (auto simp: fine_def del_item_tracked_def)

lemma enter_delete_phase_kept:
  assumes ok: "fine t w" "del_step t = Del_none"
    and allowed: "\<And>i. i < length (del_items t) \<Longrightarrow> location_allowed p (del_location (del_items t ! i))"
    and run: "enter_delete_phase p t w = ((r, t'), w')"
  shows "fine t' w'" "t' = t\<lparr>del_phase := p\<rparr>" "spares t w w'" "r = Some x \<Longrightarrow> open_end x"
proof -
  let ?t = "t\<lparr>del_phase := p\<rparr>"
  obtain y w1 where persisted: "persist_delete ?t w = (y, w1)" by fastforce
  from ok have con: "del_consistent (has (service w)) (vacant (service w)) ?t"
    by (intro del_consistent_phase) (auto simp: fine_def allowed)
  from ok(1) have disk: "del_recoverable (has (service w)) (vacant (service w)) (journal w)"
    by (simp add: fine_def)
  from persist_delete_recoverable [OF persisted disk con] con run persisted
  show "fine t' w'" "t' = t\<lparr>del_phase := p\<rparr>" "spares t w w'" "r = Some x \<Longrightarrow> open_end x"
    by (auto simp: enter_delete_phase_def fine_def Let_def spares_service split: option.splits)
qed

text \<open>How a run may end: all objects destroyed, all at their sources, or early.\<close>

definition delete_kept ::
  "PermanentDeleteTransaction \<Rightarrow> 'h delete_state \<Rightarrow> delete_ending \<Rightarrow> PermanentDeleteTransaction \<Rightarrow>
   'h delete_state \<Rightarrow> bool"
where
  "delete_kept t w e t' w' \<longleftrightarrow>
     fine t' w' \<and> del_skeleton t' = del_skeleton t \<and> spares t w w' \<and>
     (\<forall>r. e = Delete_ended r \<longrightarrow> open_end r) \<and>
     (e = All_deleted \<longrightarrow> del_step t' = Del_none \<and>
        (\<forall>i<length (del_items t). del_locations_of t' ! i = In_deleted)) \<and>
     (\<forall>st d. e = Delete_undone st d \<longrightarrow> del_step t' = Del_none \<and>
        (\<forall>i<length (del_items t). del_locations_of t' ! i = In_source))"

lemma delete_kept_ended:
  "fine t' w' \<Longrightarrow> del_skeleton t' = del_skeleton t \<Longrightarrow> spares t w w' \<Longrightarrow> open_end r \<Longrightarrow>
     delete_kept t w (Delete_ended r) t' w'"
  by (simp add: delete_kept_def)

lemma delete_kept_trans:
  assumes "delete_kept t1 w1 e t' w'" "del_skeleton t1 = del_skeleton t" "spares t w w1"
  shows "delete_kept t w e t' w'"
proof -
  have "spares t w1 w'" using assms(1) spares_skeleton [OF assms(2)] by (simp add: delete_kept_def)
  with assms(3) have "spares t w w'" by (rule spares_trans)
  with assms(1,2) del_skeleton_same(1) [OF assms(2)] show ?thesis by (simp add: delete_kept_def)
qed

lemma undo_items_kept:
  assumes "fine t w" "del_step t = Del_none" "del_phase t = Del_rollback"
    and "\<forall>i\<in>set is. i < length (del_items t)"
    and "undo_items services is t w = ((r, t'), w')"
  shows "fine t' w' \<and> del_skeleton t' = del_skeleton t \<and> spares t w w' \<and>
    (\<forall>x. r = Some x \<longrightarrow> open_end x) \<and>
    (r = None \<longrightarrow> del_step t' = Del_none \<and> (\<forall>i<length (del_items t).
       i \<in> set is \<or> del_locations_of t ! i = In_source \<longrightarrow> del_locations_of t' ! i = In_source))"
  using assms
proof (induction "is" arbitrary: t w)
  case (Cons i rest)
  then have i: "i < length (del_items t)" by simp
  show ?case
  proof (cases "del_location (del_items t ! i) = In_temporary")
    case False
    with fine_location [OF Cons.prems(1) i] Cons.prems(3)
    have "del_locations_of t ! i = In_source" using i by (cases "del_location (del_items t ! i)") auto
    with Cons.IH [OF Cons.prems(1-3)] Cons.prems(4,5) False show ?thesis by auto
  next
    case True
    obtain s t1 w1 where step: "execute_delete_step services t i Del_roll_back w = ((s, t1), w1)"
      by (metis prod.exhaust)
    have fits: "del_fits t i Del_roll_back" using True i Cons.prems(3) by (simp add: del_fits_def)
    note kept = fine_step [OF Cons.prems(1,2) fits step]
    note len = del_skeleton_same(1) [OF kept(2)]
    show ?thesis
    proof (cases "step_outcome s = Step_committed")
      case committed: True
      note after = kept(4) [OF committed]
      with Cons.prems(5) True step committed
      have "undo_items services rest t1 w1 = ((r, t'), w')" by simp
      with Cons.IH [OF kept(1) _ _ _ this] after Cons.prems(3,4) len
      have rest: "fine t' w' \<and> del_skeleton t' = del_skeleton t1 \<and> spares t1 w1 w' \<and>
        (\<forall>x. r = Some x \<longrightarrow> open_end x) \<and> (r = None \<longrightarrow> del_step t' = Del_none \<and>
          (\<forall>j<length (del_items t1). j \<in> set rest \<or> del_locations_of t1 ! j = In_source \<longrightarrow>
             del_locations_of t' ! j = In_source))" by simp
      then have "spares t w w'"
        using spares_trans [OF kept(3)] spares_skeleton [OF kept(2)] by simp
      with rest kept(2) after len i show ?thesis
        by (auto simp: nth_list_update del_step_location_def)
    next
      case False
      with Cons.prems(5) True step kept(1-3) show ?thesis by auto
    qed
  qed
qed auto

lemma undo_delete_kept:
  assumes "fine t w" "del_step t = Del_none" "del_phase t = Del_rollback"
    and "undo_delete services t w = ((e, t'), w')"
  shows "delete_kept t w e t' w'"
proof -
  let ?is = "rev [0..<length (del_items t)]"
  obtain r t1 w1 where items: "undo_items services ?is t w = ((r, t1), w1)"
    by (metis prod.exhaust)
  from undo_items_kept [OF assms(1-3) _ items] assms(4) items
  show ?thesis by (auto simp: undo_delete_def delete_kept_def split: option.splits)
qed

lemma erase_items_kept:
  assumes "fine t w" "del_step t = Del_none" "del_phase t = Del_deleting"
    and "\<forall>i\<in>set is. i < length (del_items t)"
    and "\<forall>i<length (del_items t). i \<in> set is \<or> del_locations_of t ! i = In_deleted"
    and "erase_items services is t w = ((e, t'), w')"
  shows "delete_kept t w e t' w'"
  using assms
proof (induction "is" arbitrary: t w)
  case Nil
  then show ?case by (auto simp: delete_kept_def)
next
  case (Cons i rest)
  then have i: "i < length (del_items t)" by simp
  from fine_location [OF Cons.prems(1) i] Cons.prems(3)
  consider "del_location (del_items t ! i) = In_deleted"
    | "del_location (del_items t ! i) = In_temporary" by auto
  then show ?case
  proof cases
    case 1
    then have "del_locations_of t ! i = In_deleted" using i by simp
    with 1 Cons.prems Cons.IH [OF Cons.prems(1-3)] show ?thesis by auto
  next
    case 2
    obtain s t1 w1 where step: "execute_delete_step services t i Del_erase w = ((s, t1), w1)"
      by (metis prod.exhaust)
    have fits: "del_fits t i Del_erase" using 2 i Cons.prems(3) by (simp add: del_fits_def)
    note kept = fine_step [OF Cons.prems(1,2) fits step]
    note len = del_skeleton_same(1) [OF kept(2)]
    show ?thesis
    proof (cases "step_outcome s = Step_committed")
      case committed: True
      note after = kept(4) [OF committed]
      from Cons.prems(6) 2 step committed
      have tail: "erase_items services rest t1 w1 = ((e, t'), w')" by simp
      have "\<forall>j<length (del_items t1). j \<in> set rest \<or> del_locations_of t1 ! j = In_deleted"
        using after Cons.prems(5) len i by (auto simp: nth_list_update del_step_location_def)
      with Cons.IH [OF kept(1) _ _ _ _ tail] after Cons.prems(3,4) len
      have "delete_kept t1 w1 e t' w'" by simp
      then show ?thesis by (rule delete_kept_trans) (fact kept(2,3))+
    next
      case False
      with Cons.prems(6) 2 step
      have "e = Delete_ended (delete_recovery_result t1 (unresolved s))" "t' = t1" "w' = w1" by auto
      with kept(1-3) show ?thesis by (simp add: delete_kept_ended)
    qed
  qed
qed

lemma erase_phase_kept:
  assumes "fine t w" "del_step t = Del_none" "erase_phase services t w = ((e, t'), w')"
  shows "delete_kept t w e t' w'"
  using assms erase_items_kept [of t w "[0..<length (del_items t)]" e t' w'] undo_delete_kept
  by (auto simp: erase_phase_def delete_kept_ended split: if_splits)

lemma intent_phase_kept:
  assumes ok: "fine t w" "del_step t = Del_none" and run: "intent_phase services t w = ((e, t'), w')"
  shows "delete_kept t w e t' w'"
proof (cases "del_phase t = Permanent_delete_intent")
  case True
  obtain r t1 w1 where entered: "enter_delete_phase Del_deleting t w = ((r, t1), w1)"
    by (metis prod.exhaust)
  have "location_allowed Del_deleting (del_location (del_items t ! i))"
    if "i < length (del_items t)" for i
    using fine_location [OF ok(1) that] True by simp
  note phase = enter_delete_phase_kept [OF ok this entered]
  show ?thesis
  proof (rule delete_kept_trans [of t1 w1])
    show "delete_kept t1 w1 e t' w'"
      using run True entered phase ok(2) erase_phase_kept [OF phase(1)]
      by (cases r) (auto simp: intent_phase_def delete_kept_ended)
  qed (simp_all add: phase(2,3))
next
  case False
  with erase_phase_kept [OF ok] run show ?thesis by (simp add: intent_phase_def)
qed

lemma evacuate_delete_items_kept:
  assumes "fine t w" "del_step t = Del_none" "del_phase t = Del_evacuating"
    and "\<forall>i\<in>set is. i < length (del_items t)"
    and "\<forall>i<length (del_items t). i \<in> set is \<or> del_locations_of t ! i = In_temporary"
    and "evacuate_delete_items services is t w = ((e, t'), w')"
  shows "delete_kept t w e t' w'"
  using assms
proof (induction "is" arbitrary: t w)
  case Nil
  obtain r t1 w1 where entered: "enter_delete_phase Permanent_delete_intent t w = ((r, t1), w1)"
    by (metis prod.exhaust)
  have "location_allowed Permanent_delete_intent (del_location (del_items t ! i))"
    if "i < length (del_items t)" for i
    using Nil.prems(5) that by simp
  note phase = enter_delete_phase_kept [OF Nil.prems(1,2) this entered]
  show ?case
  proof (rule delete_kept_trans [of t1 w1])
    show "delete_kept t1 w1 e t' w'"
      using Nil.prems(2,6) entered phase intent_phase_kept [OF phase(1)]
      by (cases r) (auto simp: delete_kept_ended)
  qed (simp_all add: phase(2,3))
next
  case (Cons i rest)
  then have i: "i < length (del_items t)" by simp
  show ?case
  proof (cases "del_location (del_items t ! i) = In_source")
    case False
    with fine_location [OF Cons.prems(1) i] Cons.prems(3)
    have "del_locations_of t ! i = In_temporary" using i by simp
    with False Cons.prems Cons.IH [OF Cons.prems(1-3)] show ?thesis by auto
  next
    case True
    obtain s t1 w1 where step: "execute_delete_step services t i Del_evacuate w = ((s, t1), w1)"
      by (metis prod.exhaust)
    have fits: "del_fits t i Del_evacuate" using True i Cons.prems(3) by (simp add: del_fits_def)
    note kept = fine_step [OF Cons.prems(1,2) fits step]
    note len = del_skeleton_same(1) [OF kept(2)]
    show ?thesis
    proof (rule delete_kept_trans [OF _ kept(2,3)])
      show "delete_kept t1 w1 e t' w'"
      proof (cases "step_outcome s = Step_committed")
        case committed: True
        note after = kept(4) [OF committed]
        from Cons.prems(6) True step committed
        have tail: "evacuate_delete_items services rest t1 w1 = ((e, t'), w')" by simp
        have "\<forall>j<length (del_items t1). j \<in> set rest \<or> del_locations_of t1 ! j = In_temporary"
          using after Cons.prems(5) len i by (auto simp: nth_list_update del_step_location_def)
        with Cons.IH [OF kept(1) _ _ _ _ tail] after Cons.prems(3,4) len show ?thesis by simp
      next
        case False
        with Cons.prems(6) True step kept(1,5) undo_delete_kept [OF kept(1)] show ?thesis
          by (auto simp: delete_kept_ended turn_back_def split: if_splits)
      qed
    qed
  qed
qed

lemma prepared_delete_phase_kept:
  assumes ok: "fine t w" "del_step t = Del_none"
    and run: "prepared_delete_phase services t w = ((e, t'), w')"
  shows "delete_kept t w e t' w'"
proof -
  have evacuate: "delete_kept t1 w1 e t' w'"
    if "fine t1 w1" "del_step t1 = Del_none" "evacuate_delete_phase services t1 w1 = ((e, t'), w')"
    for t1 w1
    using that evacuate_delete_items_kept [of t1 w1 "[0..<length (del_items t1)]" e t' w'] intent_phase_kept
    by (auto simp: evacuate_delete_phase_def split: if_splits)
  show ?thesis
  proof (cases "del_phase t = Del_prepared")
    case True
    obtain r t1 w1 where entered: "enter_delete_phase Del_evacuating t w = ((r, t1), w1)"
      by (metis prod.exhaust)
    have "location_allowed Del_evacuating (del_location (del_items t ! i))"
      if "i < length (del_items t)" for i
      using fine_location [OF ok(1) that] True by simp
    note phase = enter_delete_phase_kept [OF ok this entered]
    show ?thesis
    proof (rule delete_kept_trans [of t1 w1])
      show "delete_kept t1 w1 e t' w'"
        using run True entered phase ok(2) evacuate [OF phase(1)]
        by (cases r) (auto simp: prepared_delete_phase_def delete_kept_ended)
    qed (simp_all add: phase(2,3))
  next
    case False
    with evacuate [OF ok] run show ?thesis by (simp add: prepared_delete_phase_def)
  qed
qed

theorem advance_delete_kept:
  assumes ok: "fine t w" and run: "advance_delete services t w = ((e, t'), w')"
  shows "delete_kept t w e t' w'"
proof (cases "del_step t = Del_none")
  case True
  with prepared_delete_phase_kept [OF ok] run show ?thesis by (simp add: advance_delete_def)
next
  case False
  obtain s t1 w1 where rec: "reconcile_delete_active services t w = ((s, t1), w1)"
    by (metis prod.exhaust)
  note kept = reconcile_delete_active_kept [OF ok False rec, unfolded del_step_kept_def]
  then have ok1: "fine t1 w1" and same: "del_skeleton t1 = del_skeleton t" "spares t w w1"
    by (simp_all add: fine_def)
  show ?thesis
  proof (rule delete_kept_trans [OF _ same])
    show "delete_kept t1 w1 e t' w'"
      using run False rec kept ok1 prepared_delete_phase_kept [OF ok1]
      by (cases "step_outcome s") (auto simp: advance_delete_def delete_kept_ended Let_def split: if_splits)
  qed
qed

section \<open>Where the objects are\<close>

text \<open>
  An object is at its source or at its private name, or it is destroyed, and that only once the
  record says that the deletion has begun, when every object has left its source.
\<close>

lemma fine_accounted:
  assumes ok: "fine t w" and i: "i < length (del_items t)"
  shows "(\<exists>p\<in>{del_source (del_items t ! i), del_temporary (del_items t ! i)}.
      has (service w) p (del_identity (del_items t ! i))) \<or>
    del_phase t = Del_deleting \<and> vacant (service w) (del_temporary (del_items t ! i))"
proof -
  let ?item = "del_items t ! i"
  from ok have con: "del_consistent (has (service w)) (vacant (service w)) t" by (simp add: fine_def)
  from del_consistentD(5) [OF con i] have tracked: "expected_current ?item"
    "location_allowed (del_phase t) (del_location ?item)" by (simp_all add: del_item_tracked_def)
  from del_consistentD(2) [OF con i] show ?thesis
  proof
    assume "settled (has (service w)) (vacant (service w)) t i"
    with tracked has_spelling show ?thesis
      by (cases "del_location ?item"; cases "del_phase t")
        (auto simp: settled_def expected_current_def Let_def)
  next
    assume moved: "moved_on (has (service w)) (vacant (service w)) t i"
    show ?thesis
    proof (cases "del_step t = Del_erase")
      case True
      from moved have "unat (del_index t) = i" by (simp add: moved_on_def Let_def)
      from erased_current [OF con True this] moved vacant_spelling show ?thesis
        by (auto simp: moved_on_def Let_def)
    next
      case False
      with moved show ?thesis by (auto simp: moved_on_def del_destination_def Let_def split: if_splits)
    qed
  qed
qed

lemma fine_at:
  assumes ok: "fine t w" "del_step t = Del_none" and i: "i < length (del_items t)"
  shows "del_location (del_items t ! i) = In_source \<Longrightarrow>
      has (service w) (del_source (del_items t ! i)) (del_identity (del_items t ! i))"
    "del_location (del_items t ! i) = In_deleted \<Longrightarrow>
      vacant (service w) (del_temporary (del_items t ! i))"
proof -
  from ok have con: "del_consistent (has (service w)) (vacant (service w)) t" by (simp add: fine_def)
  from del_consistent_rest [OF con i] ok(2) del_consistentD(5) [OF con i]
  show "del_location (del_items t ! i) = In_source \<Longrightarrow>
      has (service w) (del_source (del_items t ! i)) (del_identity (del_items t ! i))"
    "del_location (del_items t ! i) = In_deleted \<Longrightarrow>
      vacant (service w) (del_temporary (del_items t ! i))"
    by (auto simp: settled_def del_item_tracked_def expected_current_def Let_def intro: has_spelling)
qed

lemma finish_delete_outcome:
  assumes "finish_delete e t w = (res, w')"
  shows "service w' = service w"
    "delete_status res = Delete_success \<Longrightarrow> e = All_deleted \<or> e = Delete_ended res"
    "delete_status res = Delete_rolled_back \<Longrightarrow> (\<exists>s d. e = Delete_undone s d) \<or> e = Delete_ended res"
  using assms
  by (auto simp: finish_delete_def remove_delete_journal_def remove_record_def delete_result_def Let_def
      split: delete_ending.splits option.splits prod.splits if_splits)

lemma continue_delete_places:
  assumes ok: "fine t w" and run: "continue_delete services t w = (res, w')"
    and i: "i < length (del_items t)"
  shows "delete_status res = Delete_success \<Longrightarrow> vacant (service w') (del_temporary (del_items t ! i))"
    "delete_status res = Delete_rolled_back \<Longrightarrow>
      has (service w') (del_source (del_items t ! i)) (del_identity (del_items t ! i))"
    "spares t w w'"
proof -
  obtain e t1 w1 where adv: "advance_delete services t w = ((e, t1), w1)" by (metis prod.exhaust)
  with run have fin: "finish_delete e t1 w1 = (res, w')" by (simp add: continue_delete_def)
  note kept = advance_delete_kept [OF ok adv, unfolded delete_kept_def]
  then have ok1: "fine t1 w1" and same: "del_skeleton t1 = del_skeleton t" by simp_all
  note same_i = del_skeleton_nth [OF same i] and len = del_skeleton_same(1) [OF same]
  note ended = finish_delete_outcome [OF fin]
  note at = fine_at [OF ok1 _ i [folded len]]
  show "vacant (service w') (del_temporary (del_items t ! i))" if "delete_status res = Delete_success"
  proof -
    from ended(2) [OF that] kept that have "e = All_deleted" by (auto simp: open_end_def)
    with kept at(2) i len show ?thesis by (simp add: same_i ended(1))
  qed
  show "has (service w') (del_source (del_items t ! i)) (del_identity (del_items t ! i))"
    if "delete_status res = Delete_rolled_back"
  proof -
    from ended(3) [OF that] kept that obtain s d where "e = Delete_undone s d"
      by (auto simp: open_end_def)
    with kept at(1) i len show ?thesis by (simp add: same_i ended(1))
  qed
  show "spares t w w'" using kept ended(1) by (simp add: spares_def)
qed

section \<open>Starting and resuming\<close>

definition source_identity :: "PermanentDeleteSource \<Rightarrow> string" where
  "source_identity s = stable_object_identity (source_revision_utf8 (target_snapshot s))"

lemma prepared_delete_items:
  assumes "prepare_permanent_delete_transaction sources op = Inr t" "i < length (del_items t)"
  shows "del_source (del_items t ! i) = target_path (sources ! i)"
    "del_temporary (del_items t ! i) = delete_temporary_path (target_path (sources ! i)) op i"
    "del_current (del_items t ! i) = target_path (sources ! i)"
    "del_identity (del_items t ! i) = source_identity (sources ! i)"
    "del_location (del_items t ! i) = In_source" "i < length sources"
  using prepare_permanent_delete(2) [OF assms(1)] prepare_permanent_delete(3) [OF assms(1), of i] assms(2)
  by (simp_all add: prepare_delete_item_def del_identity_def source_identity_def)

lemma prepared_delete_ids:
  assumes "prepare_permanent_delete_transaction sources op = Inr t"
  shows "del_ids t = source_identity ` set sources"
proof -
  note len = prepare_permanent_delete(2) [OF assms]
  have "map del_identity (del_items t) = map source_identity sources"
    by (rule nth_equalityI) (use len prepared_delete_items(4) [OF assms] in auto)
  from arg_cong [OF this, of set] show ?thesis by (simp add: del_ids_def)
qed

text \<open>The sources of a new run are where the caller saw them.\<close>

lemma prepared_del_consistent:
  assumes prepared: "prepare_permanent_delete_transaction sources op = Inr t"
    and seen: "\<forall>s\<in>set sources. has h (target_path s) (source_identity s)"
  shows "del_consistent (has h) (vacant h) t"
proof -
  have "del_tracked t"
    using prepare_permanent_delete(1) [OF prepared] by (rule valid_del_tracked)
  moreover have "settled (has h) (vacant h) t i" if "i < length (del_items t)" for i
    using prepared_delete_items [OF prepared that] seen by (simp add: settled_def Let_def)
  ultimately show ?thesis
    using prepare_permanent_delete(6) [OF prepared] by (simp add: del_consistent_def)
qed

definition unstarted :: "PermanentDeleteRunStatus \<Rightarrow> bool" where
  "unstarted st \<longleftrightarrow> st \<noteq> Delete_success \<and> st \<noteq> Delete_rolled_back"

lemma check_targets_kept:
  assumes "check_targets services n sources w = (r, w')"
  shows "has (service w') = has (service w) \<and> vacant (service w') = vacant (service w) \<and>
    journal w' = journal w \<and> (\<forall>x. r = Some x \<longrightarrow> unstarted (delete_status x))"
  using assms
proof (induction sources arbitrary: w)
  case Nil
  then show ?case by simp
next
  case (Cons source sources)
  obtain kind failure h where look: "inspect (target_path source) (service w) = ((kind, failure), h)"
    by (metis prod.exhaust)
  from inspect_same [OF look] have same: "has h = has (service w)" "vacant h = vacant (service w)" by auto
  show ?case
  proof (cases "kind = Remote_target")
    case True
    with Cons.prems look have "check_targets services n sources (w\<lparr>service := h\<rparr>) = (r, w')"
      by (simp add: services_def)
    from Cons.IH [OF this] same show ?thesis by simp
  next
    case False
    with Cons.prems look same show ?thesis
      by (auto simp: services_def delete_result_def unstarted_def Let_def split: if_splits)
  qed
qed

lemma begin_delete_cases:
  assumes con: "del_consistent (has (service w)) (vacant (service w)) t" and disk: "disk_ok (journal w)"
    and run: "begin_delete services t w = (res, w')"
  shows "unstarted (delete_status res) \<and> service w' = service w \<or>
    (\<exists>w1. service w1 = service w \<and> fine t w1 \<and> continue_delete services t w1 = (res, w'))"
proof -
  obtain r w1 where persisted: "persist_delete t w = (r, w1)" by fastforce
  note effect = persist_delete_effect [OF persisted disk]
  note run' = run [unfolded begin_delete_def Let_def persisted]
  show ?thesis
  proof (cases "r = None \<and> continue_delete services t w1 = (res, w')")
    case True
    with effect(4) del_recorded_recoverable con have "fine t w1" by (simp add: fine_def effect(1))
    with True effect(1) show ?thesis by blast
  next
    case False
    with run' effect(1) show ?thesis
      by (auto simp: unstarted_def delete_result_def split: option.splits if_splits)
  qed
qed

lemma run_delete_cases:
  assumes disk: "disk_ok (journal w)"
    and seen: "\<forall>s\<in>set sources. has (service w) (target_path s) (source_identity s)"
    and run: "run_delete services sources w = (res, w')"
  shows "unstarted (delete_status res) \<and> has (service w') = has (service w) \<and>
      vacant (service w') = vacant (service w) \<or>
    (\<exists>op t w1. prepare_permanent_delete_transaction sources op = Inr t \<and>
       has (service w1) = has (service w) \<and> fine t w1 \<and> continue_delete services t w1 = (res, w'))"
proof -
  obtain loaded w1 where read: "read_journal w = (loaded, w1)" by fastforce
  note seen1 = read_journal_effect [OF read]
  obtain r w2 where check: "check_targets services (length sources) sources w1 = (r, w2)" by fastforce
  note looked = check_targets_kept [OF check]
  obtain op w3 where op: "next_operation_id w2 = (op, w3)" by fastforce
  note same = next_operation_id_same [OF op]
  have places: "has (service w3) = has (service w)" "vacant (service w3) = vacant (service w)"
    "has (service w2) = has (service w)" "vacant (service w2) = vacant (service w)"
    using seen1(3) looked same by simp_all
  have disk3: "disk_ok (journal w3)" using seen1(1) [OF disk] looked same by simp
  note run' = run [unfolded run_delete_def Let_def read prod.case check op]
  show ?thesis
  proof (cases "\<exists>t. prepare_permanent_delete_transaction sources op = Inr t \<and>
      begin_delete services t w3 = (res, w')")
    case True
    then obtain t where t: "prepare_permanent_delete_transaction sources op = Inr t"
      and begun: "begin_delete services t w3 = (res, w')" by blast
    have "del_consistent (has (service w3)) (vacant (service w3)) t"
      using prepared_del_consistent [OF t, of "service w3"] seen places by simp
    from begin_delete_cases [OF this disk3 begun] t places show ?thesis by metis
  next
    case False
    with run' places seen1(3) looked show ?thesis
      by (auto simp: unstarted_def delete_result_def split: option.splits sum.splits if_splits)
  qed
qed

lemma run_delete_places:
  assumes disk: "disk_ok (journal w)"
    and seen: "\<forall>s\<in>set sources. has (service w) (target_path s) (source_identity s)"
    and run: "run_delete services sources w = (res, w')"
  shows "delete_status res = Delete_success \<Longrightarrow> \<exists>op. \<forall>i<length sources.
      vacant (service w') (delete_temporary_path (target_path (sources ! i)) op i)"
    "delete_status res = Delete_rolled_back \<Longrightarrow>
      \<forall>s\<in>set sources. has (service w') (target_path s) (source_identity s)"
    "j \<notin> source_identity ` set sources \<Longrightarrow> has (service w) q j \<Longrightarrow> has (service w') q j"
proof -
  note cases = run_delete_cases [OF disk seen run]
  have started: "\<exists>op t w1. prepare_permanent_delete_transaction sources op = Inr t \<and> fine t w1 \<and>
      has (service w1) = has (service w) \<and> continue_delete services t w1 = (res, w')"
    if "\<not> unstarted (delete_status res)"
    using cases that by blast
  show "\<exists>op. \<forall>i<length sources. vacant (service w') (delete_temporary_path (target_path (sources ! i)) op i)"
    if success: "delete_status res = Delete_success"
  proof -
    from started success obtain op t w1 where t: "prepare_permanent_delete_transaction sources op = Inr t"
      and ok: "fine t w1" and go: "continue_delete services t w1 = (res, w')"
      by (auto simp: unstarted_def)
    have "vacant (service w') (delete_temporary_path (target_path (sources ! i)) op i)"
      if "i < length sources" for i
      using continue_delete_places(1) [OF ok go _ success, of i] that prepared_delete_items(2) [OF t, of i]
        prepare_permanent_delete(2) [OF t] by simp
    then show ?thesis by blast
  qed
  show "\<forall>s\<in>set sources. has (service w') (target_path s) (source_identity s)"
    if undone: "delete_status res = Delete_rolled_back"
  proof -
    from started undone obtain op t w1 where t: "prepare_permanent_delete_transaction sources op = Inr t"
      and ok: "fine t w1" and go: "continue_delete services t w1 = (res, w')"
      by (auto simp: unstarted_def)
    have "has (service w') (target_path (sources ! i)) (source_identity (sources ! i))"
      if "i < length sources" for i
      using continue_delete_places(2) [OF ok go _ undone, of i] that prepared_delete_items(1,4) [OF t, of i]
        prepare_permanent_delete(2) [OF t] by simp
    then show ?thesis by (auto simp: in_set_conv_nth)
  qed
  show "has (service w') q j" if j: "j \<notin> source_identity ` set sources" "has (service w) q j"
    using cases
  proof (elim disjE exE conjE)
    fix op t w1
    assume t: "prepare_permanent_delete_transaction sources op = Inr t" and ok: "fine t w1"
      and same: "has (service w1) = has (service w)" and go: "continue_delete services t w1 = (res, w')"
    have "0 < length (del_items t)"
      using prepare_permanent_delete(1) [OF t] by (simp add: valid_permanent_delete_iff del_header_ok_def)
    from continue_delete_places(3) [OF ok go this] prepared_delete_ids [OF t] j same
    show ?thesis by (simp add: spares_def spared_def)
  qed (use j in simp)
qed

text \<open>A process that finds one of the possible records goes on from a good state.\<close>

lemma resume_delete_continues:
  assumes disk: "del_recoverable (has (service w)) (vacant (service w)) (journal w)"
    and read: "journal_read (fst (journal w)) (snd (journal w)) = (read_success source p, fs)"
    and view: "(Journal_success, p) \<in> disk_views (journal w)"
  shows "\<exists>t. delete_record t (Journal_success, p) \<and>
    del_consistent (has (service w)) (vacant (service w)) t \<and>
    ((\<forall>item\<in>set (del_items t). del_item_utf8 item) \<longrightarrow>
       fine t (w\<lparr>journal := (fst (journal w), fs)\<rparr>) \<and>
       resume_delete services w = continue_delete services t (w\<lparr>journal := (fst (journal w), fs)\<rparr>))"
proof -
  let ?w = "w\<lparr>journal := (fst (journal w), fs)\<rparr>"
  from disk view obtain t where rec: "delete_record t (Journal_success, p)"
    and con: "del_consistent (has (service w)) (vacant (service w)) t"
    by (auto simp: del_recoverable_def recoverable_with_def)
  then obtain payload where enc: "encode_permanent_delete_transaction t = Inr payload"
    and fits: "operation_payload_ok kind_permanent_delete payload"
    and p: "p = encode_operation kind_permanent_delete payload"
    by (auto simp: delete_record_def record_of_def)
  note opened = open_encode_operation [OF fits, of source, folded p]
  have current: "current_journal_read (fst (journal w)) (snd (journal w)) =
      (open_operation (read_success source p), fs)"
    by (simp add: current_journal_read_def read)
  from current_read_views [OF current] disk
  have "del_recoverable (has (service w)) (vacant (service w)) (journal ?w)"
    by (auto simp: del_recoverable_def recoverable_with_def disk_ok_def)
  with con have "fine t ?w" by (simp add: fine_def)
  moreover have "resume_delete services w = continue_delete services t ?w"
    if "\<forall>item\<in>set (del_items t). del_item_utf8 item"
    using decode_encode_delete [OF enc that]
    by (simp add: resume_delete_def read_journal_def current opened Let_def)
  ultimately show ?thesis using rec con by blast
qed

section \<open>A deletion that was cut off\<close>

text \<open>
  When a process stops between the removal of an object and its record, no resumption ends: its
  absence proves nothing, so the step stays active.
\<close>

lemma cut_off_erase_stays:
  assumes ok: "fine t w" and step: "del_step t = Del_erase"
    and gone: "vacant (service w) (del_current (del_items t ! unat (del_index t)))"
      "valid_delete_request (delete_request t (unat (del_index t))) = Inr ()"
    and silent: "\<And>d h res h'. remote_delete d \<Longrightarrow> erase d Reconcile_only h = (res, h') \<Longrightarrow>
      status res \<noteq> Success"
    and run: "advance_delete services t w = ((e, t'), w')"
  shows "(\<exists>r. e = Delete_ended r \<and> open_end r) \<and> del_step t' = Del_erase \<and> fine t' w' \<and>
    del_skeleton t' = del_skeleton t \<and> del_index t' = del_index t"
proof -
  let ?i = "unat (del_index t)"
  have active: "del_step t \<noteq> Del_none" using step by simp
  from ok have con: "del_consistent (has (service w)) (vacant (service w)) t" by (simp add: fine_def)
  have unsettled: "\<not> settled (has (service w)) (vacant (service w)) t ?i"
    using active_present [OF con active refl] gone(1) has_occupied
    by (auto simp: settled_def Let_def path_eq_def)
  obtain res w1 where submitted: "submit_delete_step services t ?i (del_step t) True w = (res, w1)"
    by fastforce
  have res: "status res \<noteq> Success \<and> evidence res \<noteq> No_commit"
    using submit_delete_step_cases [OF submitted] step gone
      silent [of "delete_request t ?i" "service w" res "service w1"]
      erase_no_commit [of "delete_request t ?i" "service w" res "service w1"]
    by (auto simp: serve_step_def)
  let ?m = "merge_noted t res"
  have "del_evidence t \<noteq> No_commit" using del_consistentD(3) [OF con] unsettled by blast
  moreover have "del_evidence t \<noteq> Evidence_none \<Longrightarrow> del_failure t \<noteq> Success"
    using del_consistentD(1) [OF con] by (simp add: del_tracked_def)
  ultimately have m: "status ?m \<noteq> Success \<and> evidence ?m \<noteq> No_commit"
    using res by (auto simp: merge_noted_def merge_evidence plain_result_def split: if_splits
        dest: merge_success)
  obtain s t1 w2 where settle: "settle_delete_reconciled ?i (del_step t) ?m t w1 = ((s, t1), w2)"
    by (metis prod.exhaust)
  then have rec: "reconcile_delete_active services t w = ((s, t1), w2)"
    using submitted by (simp add: reconcile_delete_active_def Let_def)
  note kept = reconcile_delete_active_kept [OF ok active rec, unfolded del_step_kept_def]
  from settle m have "t1 = note_failure (status ?m) (evidence ?m) (detail_utf8 ?m) t \<and>
      step_outcome s \<in> {Step_recovery_required, Step_journal_error}"
    by (auto simp: settle_delete_reconciled_def record_delete_def step_result_def journal_failure_def
        split: prod.splits option.splits)
  with rec run kept step show ?thesis
    by (auto simp: advance_delete_def Let_def fine_def note_failure_def)
qed

end

end
