(* ===== verification/Delete_Properties.thy ===== *)
theory Delete_Properties
  imports Delete_Run Rename_Properties
begin

text \<open>
  The permanent delete as a whole: the executor, the service and the coordinator together, on a
  volume, a journal and a helper process that may fail at every call.
\<close>

section \<open>One deletion\<close>


definition example_remote_delete :: DeleteRequest where
  "example_remote_delete =
     \<lparr>delete_operation_id = 9, delete_action = Execute, delete_mode = Permanent_remote,
      delete_object_kind = Regular_file, delete_source = ''/d/a.c'',
      delete_expected_source = snapshot example_file, delete_source_parent_identity = [],
      delete_guard_path = [], delete_expected_guard = empty_snapshot,
      delete_guard_parent_identity = [], delete_security_baseline = []\<rparr>"

definition remote_volume :: "call list \<Rightarrow> volume" where
  "remote_volume cs = (example_volume cs)\<lparr>remote_smb := True, storage_id := ''linux-smb:1''\<rparr>"

text \<open>A remote file that is still the expected one is deleted when nothing goes wrong.\<close>

theorem execute_delete_succeeds:
  assumes "valid_delete_request r = Inr ()" "delete_mode r = Permanent_remote"
    and "delete_source_parent_identity r = []" "calls v = []" "remote_smb v"
    and "lookup v (delete_source r) = Some n" "snapshot_matches n (delete_expected_source r)"
    and "lookup v (parent_path (delete_source r)) = Some d" "inode_kind d = Directory_object"
  shows "\<exists>res. execute_delete r v = (res, unlinked (delete_source r) v) \<and>
    status res = Success \<and> evidence res = Committed"
proof -
  have kind: "delete_object_kind r = Regular_file"
    using assms(1,2) by (cases "delete_object_kind r")
      (simp_all add: valid_delete_request_def Let_def mode_defs split: if_splits)
  from assms(7) have regular: "inode_kind n = Regular_file"
    and seen: "st_size n = size_bytes (delete_expected_source r)"
      "st_mtim n = modified_unix_ns (delete_expected_source r)"
      "same_source_revision (source_revision_utf8 (delete_expected_source r)) (revision n)"
    by (simp_all add: snapshot_matches_def same_source_revision_sym [of "revision n"])
  note quiet = opens_quiet [OF assms(4)] names_match_quiet [OF assms(4)]
  let ?done = "(plain_result (delete_operation_id r) Success Committed [])
      \<lparr>confirmed_snapshot := snapshot_for_object n Regular_file\<rparr>"
  have "unlinkat (delete_source r) False v = (Inr (), unlinked (delete_source r) v)"
    using assms(4,6) regular by (simp add: unlinkat_def next_call_def unlink_refused_def)
  then have "commit_delete r n v = (?done, unlinked (delete_source r) v)"
    by (simp add: commit_delete_def kind attempt_def)
  moreover have "check_delete_source r n v = (None, v)"
    using assms by (simp add: check_delete_source_def kind snapshot_matches_object_def Let_def
        check_remote_filesystem_def)
  moreover have "check_delete_parent r d v = (None, v)"
    using assms(3) by (simp add: check_delete_parent_def directory_matches_expected_def check_match_def)
  moreover have "open_guard r v = (Inr None, v)" "reprove_guard r None v = (None, v)"
    "reprove_backup r n v = (None, v)"
    using assms(2) by (simp_all add: open_guard_def reprove_guard_def reprove_backup_def)
  moreover have "open_object_at (delete_source r) Regular_file v = (Inr n, v)"
    "name_still_names_object (delete_source r) n Regular_file v = (Matches, v)"
    using assms(6) regular by (simp_all add: open_object_at_def name_still_names_object_def quiet)
  ultimately have run: "permanent_delete_remote r v = (?done, unlinked (delete_source r) v)"
    using assms(8,9) by (simp add: permanent_delete_remote_def kind quiet check_match_def)
  obtain so where so: "observe_object (delete_source r) (delete_expected_source r) Regular_file v = (so, v)"
    and there: "present so" "matches_expected so"
  proof
    show "observe_object (delete_source r) (delete_expected_source r) Regular_file v =
        (fst (observe_object (delete_source r) (delete_expected_source r) Regular_file v), v)"
      "present (fst (observe_object (delete_source r) (delete_expected_source r) Regular_file v))"
      "matches_expected (fst (observe_object (delete_source r) (delete_expected_source r) Regular_file v))"
      using assms(4,6) regular seen
      by (simp_all add: observe_object_def observe_def statfs_smb_def observed_object_def)
  qed
  have "delete_storage r = []" using assms(2) by (simp add: delete_storage_def mode_defs)
  with run there assms(1) show ?thesis
    by (simp add: execute_delete_def so kind expected_storage_matches_def delete_then_reconcile_def
        needs_reconciliation_def)
qed

lemma example_remote_expected:
  "valid_delete_request example_remote_delete = Inr ()"
  "lookup (remote_volume cs) (delete_source example_remote_delete) = Some example_file"
  "snapshot_matches example_file (delete_expected_source example_remote_delete)"
  "lookup (remote_volume cs) (parent_path (delete_source example_remote_delete)) = Some example_directory"
  by code_simp+

lemma execute_delete_succeeds_witness:
  "status (fst (execute_delete example_remote_delete (remote_volume []))) = Success"
  using execute_delete_succeeds [OF example_remote_expected(1) _ _ _ _ example_remote_expected(2,3,4)]
  by (auto simp: example_remote_delete_def remote_volume_def example_volume_def example_directory_def)


section \<open>The record\<close>

text \<open>The decoder accepts exactly what the encoder writes for valid transactions with UTF-8 paths: any
  accepted bytes are the record of the transaction that is returned, and nothing else is accepted.\<close>

theorem delete_record_canonical:
  "decode_permanent_delete_transaction bytes = Inr t \<longleftrightarrow>
     encode_permanent_delete_transaction t = Inr bytes \<and> (\<forall>item\<in>set (del_items t). del_item_utf8 item)"
  using decode_delete_InrD decode_encode_delete by blast

section \<open>The coordinator\<close>

definition host_services :: "host services" where
  "host_services =
     \<lparr>move_service = serve_rename, erase_service = serve_delete, inspect_service = host_inspect\<rparr>"

lemma host_services: "deletes.services = host_services"
  by (simp add: deletes.services_def host_services_def)

text \<open>The transaction and every record that a restart may find account for all objects.\<close>

definition delete_at_hand :: "PermanentDeleteTransaction \<Rightarrow> host delete_state \<Rightarrow> bool" where
  "delete_at_hand t w \<longleftrightarrow> del_consistent (host_has (service w)) (host_vacant (service w)) t \<and>
                 del_recoverable (host_has (service w)) (host_vacant (service w)) (journal w)"

lemma delete_at_hand_fine: "delete_at_hand = deletes.fine"
  by (intro ext) (simp add: delete_at_hand_def deletes.fine_def)

text \<open>C8: At whatever point a permanent delete stops, every record that a restart can find accounts for
  every object; as long as the deletion has not been recorded as begun, every object is at its source
  or at its private name, and it is only begun when all have left their sources; and no object that
  was not selected is moved or removed.\<close>

theorem permanent_delete_crash_safe:
  assumes "delete_at_hand t w" "advance_delete host_services t w = ((e, t'), w')"
  shows "del_recoverable (host_has (service w')) (host_vacant (service w')) (journal w') \<and>
    (\<forall>item\<in>set (del_items t).
       host_has (service w') (del_source item) (del_identity item) \<or>
       host_has (service w') (del_temporary item) (del_identity item) \<or>
       del_phase t' = Del_deleting \<and> host_vacant (service w') (del_temporary item)) \<and>
    (del_phase t' = Del_deleting \<longrightarrow> (\<forall>item\<in>set (del_items t'). del_location item \<noteq> In_source)) \<and>
    (\<forall>q j. j \<notin> del_identity ` set (del_items t) \<longrightarrow> host_has (service w) q j \<longrightarrow> host_has (service w') q j)"
proof -
  note kept = deletes.advance_delete_kept [OF assms(1) [unfolded delete_at_hand_fine]
      assms(2) [folded host_services], unfolded deletes.delete_kept_def]
  then have ok: "deletes.fine t' w'" and same: "del_skeleton t' = del_skeleton t"
    and spared: "deletes.spares t w w'" by simp_all
  have "host_has (service w') (del_source item) (del_identity item) \<or>
      host_has (service w') (del_temporary item) (del_identity item) \<or>
      del_phase t' = Del_deleting \<and> host_vacant (service w') (del_temporary item)"
    if "item \<in> set (del_items t)" for item
  proof -
    from that obtain i where i: "i < length (del_items t)" "item = del_items t ! i"
      by (auto simp: in_set_conv_nth)
    with deletes.fine_accounted [OF ok, of i] del_skeleton_same(1) [OF same]
    show ?thesis by (auto simp: del_skeleton_nth [OF same i(1)])
  qed
  moreover have "del_location item \<noteq> In_source"
    if "del_phase t' = Del_deleting" "item \<in> set (del_items t')" for item
    using deletes.fine_location [OF ok] that by (fastforce simp: in_set_conv_nth)
  ultimately show ?thesis
    using ok spared by (simp add: deletes.fine_def deletes.spares_def spared_def del_ids_def)
qed



text \<open>C40: When a process stops after an object was destroyed and before that was recorded, no resumption
  completes the deletion: absence is not accepted as a deletion, so the run ends early with the same step
  active, and the journal stays.\<close>

theorem interrupted_erase_never_completes:
  assumes "delete_at_hand t w" "del_step t = Del_erase"
    and "host_vacant (service w) (del_current (del_items t ! unat (del_index t)))"
    and "valid_delete_request (delete_request t (unat (del_index t))) = Inr ()"
    and "advance_delete host_services t w = ((e, t'), w')"
  shows "(\<exists>r. e = Delete_ended r \<and> delete_status r \<noteq> Delete_success) \<and> del_step t' = Del_erase \<and>
    delete_at_hand t' w'"
proof -
  have silent: "status res \<noteq> Success"
    if "remote_delete d" "serve_delete d Reconcile_only h = (res, h')" for d h res h'
    using serve_delete_reconcile(3) [OF that(2)] that(1)
    by (auto simp: remote_delete_def absence_is_deletion_def delete_cleanup_def mode_defs)
  have "(\<exists>r. e = Delete_ended r \<and> deletes.open_end r) \<and> del_step t' = Del_erase \<and>
      deletes.fine t' w' \<and> del_skeleton t' = del_skeleton t \<and> del_index t' = del_index t"
    by (rule deletes.cut_off_erase_stays [OF assms(1) [unfolded delete_at_hand_fine] assms(2-4) _
      assms(5) [folded host_services]]) (rule silent)
  then show ?thesis by (auto simp: delete_at_hand_fine deletes.open_end_def)
qed

section \<open>An example\<close>

definition delete_store :: DurableJournalStore where
  "delete_store = \<lparr>primary_path = ''/j'', previous_path = ''/j.previous'',
     temporary_path = ''/j.temporary'',
     maximum_payload_bytes = kAbsoluteMaximumDurableJournalPayloadBytes\<rparr>"

definition example_target :: PermanentDeleteSource where
  "example_target = \<lparr>target_path = ''/d/a.c'', target_snapshot = snapshot example_file\<rparr>"

definition example_deletion :: PermanentDeleteTransaction where
  "example_deletion = new_delete_transaction 1 [prepare_delete_item 1 0 example_target]"

definition delete_world :: "(path \<rightharpoonup> node) \<Rightarrow> call list \<Rightarrow> host delete_state" where
  "delete_world m cs =
     \<lparr>journal_path = ''/j'',
      journal = (delete_store, \<lparr>live = m, durable = m, script = [], crashed = False\<rparr>),
      service = \<lparr>host_volume = remote_volume cs, transports = [], polls = []\<rparr>,
      accepts = [], stops = [], recovery_pending = False, reported = [], now = 1, sequence = 0,
      create_parent = None, error_message = (\<lambda>_. ''error'')\<rparr>"

lemma delete_world_ok: "disk_ok (journal (delete_world m cs))"
  by (simp add: delete_world_def disk_ok_def well_placed_def delete_store_def)

lemma example_target_there:
  "host_has (service (delete_world m cs)) (target_path example_target)
     (stable_object_identity (source_revision_utf8 (target_snapshot example_target)))"
proof -
  have "path_elems ''/d/a.c'' \<noteq> path_elems ''/d''" by code_simp
  then show ?thesis
    by (simp add: host_has_def has_identity_def lookup_def delete_world_def remote_volume_def
        example_volume_def example_target_def snapshot_def identity_def)
qed


lemma example_deletion_prepared:
  "prepare_permanent_delete_transaction [example_target] 1 = Inr example_deletion"
  by code_simp

lemma example_deletion_item:
  "del_items example_deletion = [\<lparr>del_source = ''/d/a.c'', del_temporary = ''/d/.vove-delete-1-0.tmp'',
     del_current = ''/d/a.c'', del_snapshot = \<lparr>size_bytes = 2, modified_unix_ns = 4,
       source_revision_utf8 = ''posix:1:5:6''\<rparr>, del_location = In_source\<rparr>]"
  by code_simp

text \<open>A journal on the disk that holds the record of a small transaction.\<close>

definition small_deletion :: "PermanentDeleteTransaction \<Rightarrow> bool" where
  "small_deletion t \<longleftrightarrow>
     valid_permanent_delete_transaction t = Inr () \<and> del_strings_fit t \<and> length (delete_payload t) < 1000"

definition deletion_record :: "PermanentDeleteTransaction \<Rightarrow> byte list" where
  "deletion_record t = encode_operation kind_permanent_delete (delete_payload t)"

definition deletion_journal :: "PermanentDeleteTransaction \<Rightarrow> (path \<rightharpoonup> node)" where
  "deletion_journal t = [''/j'' \<mapsto> Regular (make_envelope (deletion_record t))]"

lemma small_deletion_encodes:
  assumes "small_deletion t"
  shows "encode_permanent_delete_transaction t = Inr (delete_payload t)"
    "operation_payload_ok kind_permanent_delete (delete_payload t)"
  using assms
  by (simp_all add: small_deletion_def encode_permanent_delete_transaction_def maximumPayloadBytes_def
      operation_payload_ok_def kMaximumCurrentOperationPayloadBytes_def
      kMaximumDurableJournalPayloadBytes_def kCurrentOperationJournalHeaderBytes_def
      kind_permanent_delete_def)

lemma deletion_record_verdict:
  assumes "small_deletion t"
  shows "verdict_of kAbsoluteMaximumDurableJournalPayloadBytes
      (Some (Regular (make_envelope (deletion_record t)))) = Valid (deletion_record t)"
proof -
  have "length (deletion_record t) \<le> kAbsoluteMaximumDurableJournalPayloadBytes"
    using assms
    by (simp add: small_deletion_def deletion_record_def length_encode_operation
        kAbsoluteMaximumDurableJournalPayloadBytes_def kCurrentOperationJournalHeaderBytes_def)
  then show ?thesis
    by (simp add: verdict_of_def open_make_envelope length_make_envelope maximum_envelope_bytes_def
        kAbsoluteMaximumDurableJournalPayloadBytes_def)
qed

lemma deletion_views:
  assumes "small_deletion t"
  shows "disk_views (journal (delete_world (deletion_journal t) cs)) = {(Journal_success, deletion_record t)}"
  by (simp add: disk_views_def delete_world_def recovered_record_def recovered_unfold
      delete_store_def deletion_journal_def deletion_record_verdict [OF assms] read_success_def)

lemma small_deletion_recorded:
  assumes "small_deletion t"
  shows "del_recorded t (journal (delete_world (deletion_journal t) cs))"
  using small_deletion_encodes [OF assms]
  by (simp add: del_recorded_def recorded_with_def deletion_views [OF assms] delete_world_ok)
    (simp add: delete_record_def record_of_def deletion_record_def)

lemma small_deletion_at_hand:
  assumes "small_deletion t"
    and "del_consistent (host_has (service (delete_world (deletion_journal t) cs)))
      (host_vacant (service (delete_world (deletion_journal t) cs))) t"
  shows "delete_at_hand t (delete_world (deletion_journal t) cs)"
  using assms(2) del_recorded_recoverable [OF small_deletion_recorded [OF assms(1)] assms(2)]
  by (simp add: delete_at_hand_def)

lemma example_deletion_small: "small_deletion example_deletion"
proof -
  have detail: "del_detail example_deletion = []"
    by (simp add: example_deletion_def new_delete_transaction_def)
  have "valid_permanent_delete_transaction example_deletion = Inr ()"
    by (rule prepare_permanent_delete(1) [OF example_deletion_prepared])
  moreover have "del_strings_fit example_deletion"
    by (simp add: del_strings_fit_def del_item_fits_def string_fits_def example_deletion_item detail)
  moreover have "length (delete_payload example_deletion) < 1000"
    by (simp add: delete_payload_def enc_delete_header_def enc_delete_item_def
        example_deletion_item detail)
  ultimately show ?thesis by (simp add: small_deletion_def)
qed

lemma example_deletion_consistent:
  "del_consistent (host_has (service (delete_world m cs))) (host_vacant (service (delete_world m cs)))
     example_deletion"
  using deletes.prepared_del_consistent [OF example_deletion_prepared] example_target_there
  by (simp add: deletes.source_identity_def)

lemmas example_deletion_at_hand =
  small_deletion_at_hand [OF example_deletion_small example_deletion_consistent]

text \<open>A share that reports an error for a removal that it carried out.\<close>

lemma permanent_delete_crash_safe_witness:
  "let ((e, t'), w') = advance_delete host_services example_deletion
       (delete_world (deletion_journal example_deletion) (replicate 40 Call_ok @ [Call_fails EIO True])) in
   host_has (service w') ''/d/a.c'' (identity example_file) \<or>
   host_has (service w') ''/d/.vove-delete-1-0.tmp'' (identity example_file) \<or> del_phase t' = Del_deleting"
proof -
  let ?w = "delete_world (deletion_journal example_deletion) (replicate 40 Call_ok @ [Call_fails EIO True])"
  obtain e t' w' where run: "advance_delete host_services example_deletion ?w = ((e, t'), w')"
    by (metis prod.exhaust)
  have "identity example_file = stable_object_identity ''posix:1:5:6''" by code_simp
  with permanent_delete_crash_safe [OF example_deletion_at_hand run] run show ?thesis
    by (auto simp: example_deletion_item del_identity_def)
qed


lemma example_names_utf8:
  "valid_utf8 ''/d/a.c''" "valid_utf8 ''/d/.vove-delete-1-0.tmp''" "valid_utf8 ''posix:1:5:6''"
  by code_simp+

lemma delete_record_canonical_witness:
  "decode_permanent_delete_transaction (delete_payload example_deletion) = Inr example_deletion"
proof -
  have "\<forall>item\<in>set (del_items example_deletion). del_item_utf8 item"
    unfolding example_deletion_item by (simp del: valid_utf8.simps add: del_item_utf8_def example_names_utf8)
  with small_deletion_encodes(1) [OF example_deletion_small] show ?thesis
    by (simp add: delete_record_canonical)
qed

text \<open>The object is gone and the record still has its removal under way.\<close>

definition cut_off_deletion :: PermanentDeleteTransaction where
  "cut_off_deletion = example_deletion\<lparr>del_phase := Del_deleting, del_step := Del_erase,
     del_items := map (\<lambda>item. item\<lparr>del_current := del_temporary item, del_location := In_temporary\<rparr>)
       (del_items example_deletion)\<rparr>"

lemma cut_off_valid:
  "valid_permanent_delete_transaction cut_off_deletion = Inr ()"
  "valid_delete_request (delete_request cut_off_deletion 0) = Inr ()"
  by code_simp+

lemma cut_off_fields:
  "del_items cut_off_deletion = [\<lparr>del_source = ''/d/a.c'', del_temporary = ''/d/.vove-delete-1-0.tmp'',
     del_current = ''/d/.vove-delete-1-0.tmp'', del_snapshot = \<lparr>size_bytes = 2, modified_unix_ns = 4,
       source_revision_utf8 = ''posix:1:5:6''\<rparr>, del_location = In_temporary\<rparr>]"
  "del_detail cut_off_deletion = []" "del_step cut_off_deletion = Del_erase" "del_index cut_off_deletion = 0"
  "del_evidence cut_off_deletion = Evidence_none"
  by (simp_all add: cut_off_deletion_def example_deletion_item)
    (simp_all add: example_deletion_def new_delete_transaction_def)

lemma cut_off_small: "small_deletion cut_off_deletion"
  by (simp add: small_deletion_def cut_off_valid del_strings_fit_def del_item_fits_def string_fits_def
      cut_off_fields delete_payload_def enc_delete_header_def enc_delete_item_def)

lemma cut_off_gone: "host_vacant (service (delete_world m cs)) ''/d/.vove-delete-1-0.tmp''"
proof -
  have "path_elems ''/d/.vove-delete-1-0.tmp'' \<noteq> path_elems ''/d''"
    "path_elems ''/d/.vove-delete-1-0.tmp'' \<noteq> path_elems ''/d/a.c''" by code_simp+
  then show ?thesis
    by (simp add: host_vacant_def lookup_def delete_world_def remote_volume_def example_volume_def)
qed

lemma cut_off_consistent:
  "del_consistent (host_has (service (delete_world m cs))) (host_vacant (service (delete_world m cs)))
     cut_off_deletion"
  using valid_del_tracked [OF cut_off_valid(1)] cut_off_gone cut_off_valid(2)
  by (simp add: del_consistent_def moved_on_def cut_off_fields)

lemma interrupted_erase_never_completes_witness:
  "\<exists>r. fst (fst (advance_delete host_services cut_off_deletion
     (delete_world (deletion_journal cut_off_deletion) []))) = Delete_ended r"
proof -
  let ?w = "delete_world (deletion_journal cut_off_deletion) []"
  obtain e t' w' where run: "advance_delete host_services cut_off_deletion ?w = ((e, t'), w')"
    by (metis prod.exhaust)
  have "host_vacant (service ?w) (del_current (del_items cut_off_deletion ! unat (del_index cut_off_deletion)))"
    using cut_off_gone by (simp add: cut_off_fields)
  from interrupted_erase_never_completes [OF small_deletion_at_hand [OF cut_off_small cut_off_consistent]
      cut_off_fields(3) this _ run] cut_off_valid(2) run show ?thesis
    by (auto simp: cut_off_fields)
qed

end
