(* ===== verification/Directory_Executor.thy ===== *)
theory Directory_Executor
  imports Delete_Executor
begin

text \<open>
  Creating a directory and retiring an empty one: \<open>create_directory_relative\<close>,
  \<open>verify_private_empty_directory_relative\<close> and \<open>remove_empty_directory_relative\<close> of
  \<open>src/Source/src/fileops/posix/file_operation.cpp\<close>, \<open>query_directory_revision\<close> of
  \<open>platform/posix/read_only_source.cpp\<close>, and \<open>reconcile_create_directory\<close>,
  \<open>execute_create_directory\<close> of \<open>file_operation_executor.cpp\<close>.
\<close>

section \<open>System calls\<close>

definition created :: "path \<Rightarrow> nat \<Rightarrow> volume \<Rightarrow> volume" where
  "created p mode v =
     v\<lparr>entries := (entries v)(path_elems p \<mapsto> (next_directory v mode)\<lparr>inode_kind := Directory_object\<rparr>)\<rparr>"

text \<open>\<open>mkdirat\<close> in a parent that is held open; it may fail after it took effect, under an error that
  leaves the outcome open.\<close>

definition mkdirat :: "path \<Rightarrow> nat \<Rightarrow> volume \<Rightarrow> (errno + unit) \<times> volume" where
  "mkdirat p mode v =
     (case next_call v of
        (Call_ok, v) \<Rightarrow>
          if lookup v p \<noteq> None then (Inl EEXIST, v) else (Inr (), created p mode v)
      | (Call_fails e performed, v) \<Rightarrow>
          (Inl e,
           if performed \<and> uncertain_errno e \<and> lookup v p = None then created p mode v else v))"

definition fstatat :: "path \<Rightarrow> volume \<Rightarrow> (errno + inode) \<times> volume" where
  "fstatat p v = reading (\<lambda>v. case lookup v p of None \<Rightarrow> Inl ENOENT | Some n \<Rightarrow> Inr n) v"

definition same_directory :: "inode \<Rightarrow> inode \<Rightarrow> bool" where
  "same_directory left right \<longleftrightarrow>
     inode_kind left = Directory_object \<and> inode_kind right = Directory_object \<and>
     st_dev left = st_dev right \<and> st_ino left = st_ino right"

text \<open>Owned by this process and closed to everybody else: mode \<open>0700\<close>.\<close>

definition private_directory :: "volume \<Rightarrow> inode \<Rightarrow> bool" where
  "private_directory v n \<longleftrightarrow> st_uid n = euid v \<and> st_mode n = 0x1c0"

section \<open>The revision of a directory\<close>

datatype SourceOpenErrorKind =
    Open_none | Open_invalid_path | Open_not_found | Open_access_denied
  | Open_authentication_failed | Open_timed_out | Open_disconnected | Open_not_regular_file
  | Open_too_large | Open_io_error

record SourceOpenError =
  open_kind :: SourceOpenErrorKind
  open_code :: i64
  open_detail :: string

definition posix_error_kind :: "errno \<Rightarrow> SourceOpenErrorKind" where
  "posix_error_kind code =
     (if code = ENOENT \<or> code = ENOTDIR then Open_not_found
      else if code = EACCES \<or> code = EPERM then Open_access_denied
      else if code = ETIMEDOUT then Open_timed_out
      else if disconnected_error code then Open_disconnected else Open_io_error)"

definition posix_error :: "volume \<Rightarrow> errno \<Rightarrow> SourceOpenError" where
  "posix_error v code =
     \<lparr>open_kind = posix_error_kind code, open_code = word_of_nat code, open_detail = strerror v code\<rparr>"

definition query_directory_revision :: "path \<Rightarrow> volume \<Rightarrow> (SourceOpenError + string) \<times> volume" where
  "query_directory_revision p v =
     (if p = [] then
        (Inl \<lparr>open_kind = Open_invalid_path, open_code = 0,
              open_detail = ''directory path is empty''\<rparr>, v)
      else attempt (open_directory p v)
        (\<lambda>e v. (Inl (if e = ENOTDIR
                     then \<lparr>open_kind = Open_not_regular_file, open_code = word_of_nat e,
                           open_detail = ''path is not a direct directory''\<rparr>
                     else posix_error v e), v)) (\<lambda>n v.
      attempt (fstat v) (\<lambda>e v. (Inl (posix_error v e), v)) (\<lambda>_ v.
        (Inr (revision n), v))))"

definition map_open_error :: "SourceOpenErrorKind \<Rightarrow> i64 \<Rightarrow> OperationStatus" where
  "map_open_error kind code =
     (if code = word_of_nat EBUSY \<or> code = word_of_nat ETXTBSY then File_in_use
      else case kind of
        Open_not_found \<Rightarrow> Not_found
      | Open_access_denied \<Rightarrow> Permission_denied
      | Open_authentication_failed \<Rightarrow> Authentication_required
      | Open_timed_out \<Rightarrow> Timed_out
      | Open_disconnected \<Rightarrow> Disconnected
      | Open_not_regular_file \<Rightarrow> Unsupported
      | Open_invalid_path \<Rightarrow> Source_changed
      | Open_too_large \<Rightarrow> Source_changed
      | Open_io_error \<Rightarrow> Io_error
      | Open_none \<Rightarrow> Io_error)"

text \<open>A result that reports a failed query.\<close>

definition open_failure :: "SourceOpenError \<Rightarrow> OperationResult \<Rightarrow> OperationResult" where
  "open_failure e r =
     r\<lparr>status := map_open_error (open_kind e) (open_code e), platform_code := open_code e,
       detail_utf8 := open_detail e\<rparr>"

section \<open>Creating\<close>

definition revision_snapshot :: "inode \<Rightarrow> SourceSnapshot" where
  "revision_snapshot n = empty_snapshot\<lparr>source_revision_utf8 := revision n\<rparr>"

text \<open>A new directory that is not private after all is removed again.\<close>

definition retire_container ::
  "CreateDirectoryRequest \<Rightarrow> inode \<Rightarrow> volume \<Rightarrow> OperationResult \<times> volume"
where
  "retire_container request child v =
     (let op = create_operation_id request in
      attempt (unlinkat (create_destination request) True v)
        (\<lambda>code v. ((committed_result op Unknown_outcome True (revision_snapshot child)
             ''non-private Trash container was created and could not be retired'')
             \<lparr>platform_code := word_of_nat code\<rparr>, v))
        (\<lambda>_ v. (plain_result op Permission_denied No_commit
             ''filesystem could not create a private VO-VE Trash container'', v)))"

definition confirm_created ::
  "CreateDirectoryRequest \<Rightarrow> volume \<Rightarrow> OperationResult \<times> volume"
where
  "confirm_created request v =
     (let op = create_operation_id request; p = create_destination request in
      attempt (open_directory p v)
        (\<lambda>e v. ((committed_result op Unknown_outcome True empty_snapshot
             ''directory was created but its identity could not be confirmed'')
             \<lparr>platform_code := word_of_nat e\<rparr>, v)) (\<lambda>child v.
      attempt (fstat v)
        (\<lambda>e v. ((committed_result op Unknown_outcome True empty_snapshot
             ''directory was created but confirmation failed'')
             \<lparr>platform_code := word_of_nat e\<rparr>, v)) (\<lambda>_ v.
      attempt (fstatat p v)
        (\<lambda>e v. ((committed_result op Unknown_outcome False (revision_snapshot child)
             ''directory was created but its requested name changed before confirmation'')
             \<lparr>platform_code := word_of_nat e\<rparr>, v)) (\<lambda>published v.
      if \<not> same_directory child published then
        (committed_result op Unknown_outcome True (revision_snapshot child)
           ''directory was created but its requested name changed before confirmation'', v)
      else if create_mode request = Trash_container \<and> \<not> private_directory v child then
        retire_container request child v
      else (committed_result op Success True (revision_snapshot child) [], v)))))"

definition create_directory_relative ::
  "CreateDirectoryRequest \<Rightarrow> volume \<Rightarrow> OperationResult \<times> volume"
where
  "create_directory_relative request v =
     (let op = create_operation_id request; p = create_destination request in
      attempt (open_directory (parent_path p) v)
        (fails_with op ''destination parent is unavailable'') (\<lambda>parent v.
      guarded (check_match op ''destination parent identity changed''
          ''destination parent identity could not be read''
          (directory_matches_expected parent (create_parent_revision request) v)) (\<lambda>v.
      guarded (check_match op ''destination parent path changed''
          ''destination parent path is unavailable''
          (path_still_names_directory (parent_path p) parent v)) (\<lambda>v.
      attempt (mkdirat p (if create_mode request = Trash_container then 0x1c0 else 0x1ff) v)
        (\<lambda>code v. (failure v op code [] True, v))
        (\<lambda>_. confirm_created request)))))"

section \<open>The private container\<close>

text \<open>\<open>dup\<close>, \<open>fdopendir\<close> and the loop over \<open>readdir\<close>.\<close>

definition inspect_contents :: "path \<Rightarrow> volume \<Rightarrow> (errno \<times> string + bool) \<times> volume" where
  "inspect_contents p v =
     attempt (fstat v) (\<lambda>e v. (Inl (e, ''trash container could not be inspected''), v)) (\<lambda>_ v.
     attempt (fstat v) (\<lambda>e v. (Inl (e, ''trash container could not be inspected''), v)) (\<lambda>_ v.
     attempt (reading (\<lambda>v. Inr (has_children p v)) v)
       (\<lambda>e v. (Inl (e, ''trash container contents could not be inspected''), v)) (\<lambda>b v.
       (Inr b, v))))"

definition open_container ::
  "CreateDirectoryRequest \<Rightarrow> (inode \<Rightarrow> volume \<Rightarrow> OperationResult \<times> volume) \<Rightarrow> volume \<Rightarrow>
   OperationResult \<times> volume"
where
  "open_container request rest v =
     (let op = create_operation_id request; p = create_destination request;
          changed = changed_result op ''trash container identity changed'' in
      attempt (open_directory p v) (fails_with op ''trash container is unavailable'') (\<lambda>child v.
      attempt (fstat v) (\<lambda>_ v. (changed, v)) (\<lambda>_ v.
      attempt (fstatat p v) (\<lambda>_ v. (changed, v)) (\<lambda>named v.
      if \<not> same_directory child named then (changed, v) else rest child v))))"

definition verify_private_empty_directory ::
  "CreateDirectoryRequest \<Rightarrow> volume \<Rightarrow> OperationResult \<times> volume"
where
  "verify_private_empty_directory request v =
     (let op = create_operation_id request; p = create_destination request in
      attempt (open_directory (parent_path p) v)
        (fails_with op ''trash container parent is unavailable'') (\<lambda>parent v.
      guarded (check_match op ''trash container parent path changed''
          ''trash container parent path is unavailable''
          (path_still_names_directory (parent_path p) parent v)) (\<lambda>v.
      open_container request (\<lambda>child v.
        if \<not> private_directory v child then
          ((plain_result op Permission_denied Conflicting
              ''trash container is not private to the current user'')
             \<lparr>destination_present := True, confirmed_snapshot := revision_snapshot child\<rparr>, v)
        else case inspect_contents p v of
          (Inl (e, detail), v) \<Rightarrow> fails_with op detail e v
        | (Inr True, v) \<Rightarrow>
            ((plain_result op Conflict Conflicting ''trash container contains unowned entries'')
               \<lparr>destination_present := True, confirmed_snapshot := revision_snapshot child\<rparr>, v)
        | (Inr False, v) \<Rightarrow> (committed_result op Success True (revision_snapshot child) [], v)) v)))"

definition remove_empty_directory ::
  "CreateDirectoryRequest \<Rightarrow> volume \<Rightarrow> OperationResult \<times> volume"
where
  "remove_empty_directory request v =
     (let op = create_operation_id request; p = create_destination request in
      attempt (open_directory (parent_path p) v)
        (fails_with op ''trash container parent is unavailable'') (\<lambda>parent v.
      guarded (check_match op ''trash container parent identity changed''
          ''trash container parent identity could not be read''
          (directory_matches_expected parent (create_parent_revision request) v)) (\<lambda>v.
      guarded (check_match op ''trash container parent path changed''
          ''trash container parent path is unavailable''
          (path_still_names_directory (parent_path p) parent v)) (\<lambda>v.
      open_container request (\<lambda>child v.
        attempt (unlinkat p True v)
          (\<lambda>code v. (failure v op code ''trash container could not be retired'' True, v))
          (\<lambda>_ v. (committed_result op Success False empty_snapshot [], v))) v))))"

section \<open>Reconciling\<close>

definition occupied :: "SourceOpenError + string \<Rightarrow> bool" where
  "occupied destination \<longleftrightarrow>
     (case destination of Inl e \<Rightarrow> open_kind e = Open_not_regular_file | Inr _ \<Rightarrow> True)"

text \<open>What the presence of the destination says about a removal, and about a creation.\<close>

definition judge_removal ::
  "OperationResult \<Rightarrow> SourceOpenError + string \<Rightarrow> OperationResult"
where
  "judge_removal seen destination =
     (if occupied destination then
        seen\<lparr>status := Conflict, evidence := No_commit, destination_present := True,
             confirmed_snapshot := (case destination of
                 Inr revision_text \<Rightarrow> empty_snapshot\<lparr>source_revision_utf8 := revision_text\<rparr>
               | Inl _ \<Rightarrow> confirmed_snapshot seen),
             detail_utf8 := ''trash container remains present''\<rparr>
      else case destination of
        Inl e \<Rightarrow>
          if open_kind e = Open_not_found then
            seen\<lparr>status := Success, evidence := Committed, destination_present := False,
                 detail_utf8 := []\<rparr>
          else open_failure e seen
      | Inr _ \<Rightarrow> seen)"

definition judge_creation ::
  "CreateDirectoryRequest \<Rightarrow> OperationResult \<Rightarrow> SourceOpenError + string \<Rightarrow> volume \<Rightarrow>
   OperationResult \<times> volume"
where
  "judge_creation request seen destination v =
     (case destination of
        Inr revision_text \<Rightarrow>
          if create_mode request = Trash_container then verify_private_empty_directory request v
          else (seen\<lparr>status := Unknown_outcome, evidence := Conflicting, destination_present := True,
                  confirmed_snapshot := empty_snapshot\<lparr>source_revision_utf8 := revision_text\<rparr>,
                  detail_utf8 := ''destination directory exists but ownership of the create ''
                    @ ''result is unproven''\<rparr>, v)
      | Inl e \<Rightarrow>
          if open_kind e = Open_not_found then
            (seen\<lparr>status := Unknown_outcome, evidence := Evidence_none,
               detail_utf8 := ''destination directory is absent; create ownership is unproven''\<rparr>, v)
          else if open_kind e = Open_not_regular_file then
            (seen\<lparr>status := Unknown_outcome, evidence := Conflicting, destination_present := True,
               detail_utf8 := ''destination path is occupied, but create ownership is unproven''\<rparr>, v)
          else (open_failure e seen, v))"

definition reconcile_create_directory ::
  "CreateDirectoryRequest \<Rightarrow> volume \<Rightarrow> OperationResult \<times> volume"
where
  "reconcile_create_directory request v =
     (let op = create_operation_id request; seen = plain_result op Io_error Evidence_none [] in
      case valid_create_directory_request request of
        Inl detail \<Rightarrow> (plain_result op Invalid_request No_commit detail, v)
      | Inr _ \<Rightarrow>
          (case query_directory_revision (parent_path (create_destination request)) v of
             (Inl e, v) \<Rightarrow> (open_failure e seen, v)
           | (Inr parent, v) \<Rightarrow>
               if create_parent_revision request \<noteq> [] \<and>
                  \<not> same_object_identity parent (create_parent_revision request) then
                 (seen\<lparr>status := Source_changed, evidence := Conflicting,
                    detail_utf8 := ''destination parent identity changed''\<rparr>, v)
               else
                 let (destination, v) = query_directory_revision (create_destination request) v in
                 if create_mode request = Trash_container_remove_empty then
                   (judge_removal seen destination, v)
                 else judge_creation request seen destination v))"

section \<open>Executing\<close>

definition execute_create_directory ::
  "CreateDirectoryRequest \<Rightarrow> volume \<Rightarrow> OperationResult \<times> volume"
where
  "execute_create_directory request v =
     (let op = create_operation_id request; refused = plain_result op Io_error No_commit [] in
      case valid_create_directory_request request of
        Inl detail \<Rightarrow> (plain_result op Invalid_request No_commit detail, v)
      | Inr _ \<Rightarrow>
          (case query_directory_revision (parent_path (create_destination request)) v of
             (Inl e, v) \<Rightarrow> (open_failure e refused, v)
           | (Inr parent, v) \<Rightarrow>
               if create_parent_revision request \<noteq> [] \<and>
                  \<not> same_object_identity parent (create_parent_revision request) then
                 (plain_result op Source_changed No_commit
                    ''destination parent identity changed before creation'', v)
               else if create_mode request = Trash_container_remove_empty then
                 remove_empty_directory request v
               else
                 (let (before, v) = query_directory_revision (create_destination request) v in
                  if occupied before then
                    ((plain_result op Conflict No_commit ''destination path already exists'')
                       \<lparr>destination_present := True\<rparr>, v)
                  else case before of
                    Inl e \<Rightarrow>
                      if open_kind e \<noteq> Open_not_found then (open_failure e refused, v)
                      else create_directory_relative request v
                  | Inr _ \<Rightarrow> create_directory_relative request v)))"

section \<open>What a result proves\<close>

definition directory_made :: "path \<Rightarrow> volume \<Rightarrow> volume \<Rightarrow> bool" where
  "directory_made p v v' \<longleftrightarrow>
     lookup v p = None \<and>
     (\<exists>n. inode_kind n = Directory_object \<and> entries v' = (entries v)(path_elems p \<mapsto> n))"

definition directory_removed :: "path \<Rightarrow> volume \<Rightarrow> volume \<Rightarrow> bool" where
  "directory_removed p v v' \<longleftrightarrow>
     (\<exists>n. lookup v p = Some n \<and> inode_kind n = Directory_object) \<and> \<not> has_children p v \<and>
     entries v' = (entries v)(path_elems p := None)"

definition directory_done :: "CreateDirectoryRequest \<Rightarrow> volume \<Rightarrow> volume \<Rightarrow> bool" where
  "directory_done r v v' \<longleftrightarrow>
     (if create_mode r = Trash_container_remove_empty then directory_removed (create_destination r) v v'
      else directory_made (create_destination r) v v')"

text \<open>Either nothing happened or the request was carried out; a denial is right, and a success means
  that it was, with the revision of the new directory.\<close>

definition create_truthful ::
  "CreateDirectoryRequest \<Rightarrow> volume \<Rightarrow> OperationResult \<times> volume \<Rightarrow> bool"
where
  "create_truthful r v m \<longleftrightarrow>
     (entries (snd m) = entries v \<or> directory_done r v (snd m) \<and> evidence (fst m) \<noteq> No_commit) \<and>
     (status (fst m) = Success \<longrightarrow>
        evidence (fst m) = Committed \<and> directory_done r v (snd m) \<and>
        (create_mode r \<noteq> Trash_container_remove_empty \<longrightarrow>
           (\<exists>n. lookup (snd m) (create_destination r) = Some n \<and>
                confirmed_snapshot (fst m) = revision_snapshot n \<and>
                (create_mode r = Trash_container \<longrightarrow> private_directory (snd m) n))))"

lemma directory_done_still: "still v0 v \<Longrightarrow> directory_done r v v' \<Longrightarrow> directory_done r v0 v'"
  by (auto simp: directory_done_def directory_made_def directory_removed_def has_children_def
      still_def lookup_def)

lemma create_truthful_still: "still v0 v \<Longrightarrow> create_truthful r v m \<Longrightarrow> create_truthful r v0 m"
  using directory_done_still [of v0 v r "snd m"] by (auto simp: create_truthful_def still_def)

lemma create_truthful_refusal:
  "still v v' \<Longrightarrow> status res \<noteq> Success \<Longrightarrow> create_truthful r v (res, v')"
  by (simp add: create_truthful_def still_def)

interpretation creating: outcome_claim "create_truthful r" for r
  by unfold_locales (fact create_truthful_still create_truthful_refusal)+

lemma created_made:
  assumes "still v v1" "lookup v1 p = None"
  shows "directory_made p v (created p mode v1)"
  using assms unfolding directory_made_def
  by (auto simp: still_def lookup_def created_def
      intro!: exI [of _ "(next_directory v1 mode)\<lparr>inode_kind := Directory_object\<rparr>"])

lemma mkdirat_effect:
  assumes "mkdirat p mode v = (x, v')"
  shows "x = Inr u \<Longrightarrow> directory_made p v v'"
    "x = Inl e \<Longrightarrow> still v v' \<or> uncertain_errno e \<and> directory_made p v v'"
  using assms
  by (auto simp: mkdirat_def intro: created_made dest: next_call_still
      split: prod.splits call.splits if_splits)

text \<open>The two ways through a call.\<close>

lemma attemptE:
  assumes "attempt m handler rest = x"
  obtains e v where "m = (Inl e, v)" "handler e v = x"
    | a v where "m = (Inr a, v)" "rest a v = x"
  using assms by (cases m) (auto simp: attempt_def split: sum.splits)

lemma quiet_fstatat [quiet_intros]: "quiet (fstatat p v) v"
  unfolding fstatat_def by (rule quiet_reading)

lemma unlinkat_directory:
  assumes "unlinkat p True v = (x, v')"
  shows "x = Inr u \<Longrightarrow> directory_removed p v v'"
    "x = Inl e \<Longrightarrow> still v v' \<or> uncertain_errno e \<and> directory_removed p v v'"
  using assms next_call_still
  by (fastforce simp: unlinkat_def lookup_def still_def unlinked_def directory_removed_def
      unlink_refused_def has_children_def split: prod.splits call.splits option.splits if_splits)+

text \<open>After the creation: the new directory is confirmed, or it is removed again.\<close>

definition creation_settled ::
  "CreateDirectoryRequest \<Rightarrow> volume \<Rightarrow> OperationResult \<Rightarrow> volume \<Rightarrow> bool"
where
  "creation_settled r v res v' \<longleftrightarrow>
     (still v v' \<and> evidence res = Committed \<or>
      status res \<noteq> Success \<and> entries v' = (entries v)(path_elems (create_destination r) := None)) \<and>
     (status res = Success \<longrightarrow>
        (\<exists>n. lookup v' (create_destination r) = Some n \<and> confirmed_snapshot res = revision_snapshot n \<and>
             (create_mode r = Trash_container \<longrightarrow> private_directory v' n)))"

lemma creation_settled_still: "still u v \<Longrightarrow> creation_settled r v res v' \<Longrightarrow> creation_settled r u res v'"
  by (auto simp: creation_settled_def still_def)

lemma retire_container_settled:
  assumes "retire_container r n v = (res, v')"
  shows "creation_settled r v res v'"
proof -
  obtain x v1 where run: "unlinkat (create_destination r) True v = (x, v1)" by fastforce
  note effect = unlinkat_directory [OF run]
  from assms run effect show ?thesis
    by (cases x) (auto simp: retire_container_def attempt_def Let_def creation_settled_def
        directory_removed_def)
qed

lemma confirm_created_settled:
  assumes "confirm_created r v = (res, v')"
  shows "creation_settled r v res v'"
  using assms unfolding confirm_created_def Let_def
proof (elim attemptE)
  fix child v1 u v2 named v3
  assume opened: "open_directory (create_destination r) v = (Inr child, v1)"
    and stat: "fstat v1 = (Inr u, v2)"
    and at: "fstatat (create_destination r) v2 = (Inr named, v3)"
    and rest: "(if \<not> same_directory child named
       then (committed_result (create_operation_id r) Unknown_outcome True (revision_snapshot child)
         ''directory was created but its requested name changed before confirmation'', v3)
       else if create_mode r = Trash_container \<and> \<not> private_directory v3 child
         then retire_container r child v3
         else (committed_result (create_operation_id r) Success True (revision_snapshot child) [], v3)) =
      (res, v')"
  have seen: "lookup v (create_destination r) = Some child" and still: "still v v3"
    using open_directory_Inr [OF opened] quiet_run [OF quiet_calls(1) stat]
      quiet_run [OF quiet_fstatat at]
    by (auto intro: still_trans)
  show ?thesis
  proof (rule creation_settled_still [OF still])
    show "creation_settled r v3 res v'"
      using rest seen still
      by (auto simp: creation_settled_def committed_result_def still_lookup
          intro: retire_container_settled [unfolded creation_settled_def]
          dest: retire_container_settled split: if_splits)
  qed
qed (auto simp: creation_settled_def committed_result_def dest!: open_directory_Inr
      dest: quiet_run [OF quiet_fstatat] quiet_run [OF quiet_calls(1)] quiet_run [OF quiet_calls(2)]
      intro: still_trans)

text \<open>The requests tell the truth about the volume.\<close>

lemma settled_truthful:
  assumes "create_mode r \<noteq> Trash_container_remove_empty" "directory_made (create_destination r) v v1"
    and "creation_settled r v1 res v'"
  shows "create_truthful r v (res, v')"
proof -
  have "directory_made (create_destination r) v v'" if "still v1 v'"
    using that assms(2) by (auto simp: directory_made_def still_def)
  moreover have "entries v' = entries v"
    if "entries v' = (entries v1)(path_elems (create_destination r) := None)"
    using that assms(2) by (auto simp: directory_made_def lookup_def)
  ultimately show ?thesis
    using assms(1,3) by (auto simp: create_truthful_def creation_settled_def directory_done_def)
qed

lemma mkdirat_truthful:
  assumes "create_mode r \<noteq> Trash_container_remove_empty"
  shows "create_truthful r v (attempt (mkdirat (create_destination r) mode v)
      (\<lambda>code v. (failure v op code [] True, v)) (\<lambda>_. confirm_created r))"
proof -
  obtain x v1 where run: "mkdirat (create_destination r) mode v = (x, v1)" by fastforce
  note effect = mkdirat_effect [OF run]
  show ?thesis
  proof (cases x)
    case (Inl e)
    from effect(2) [OF Inl] assms show ?thesis
      by (auto simp: run Inl attempt_def create_truthful_def still_def directory_done_def failure_def
          Let_def)
  next
    case (Inr u)
    obtain res v' where "confirm_created r v1 = (res, v')" by fastforce
    with settled_truthful [OF assms effect(1) [OF Inr] confirm_created_settled] show ?thesis
      by (simp add: run Inr attempt_def)
  qed
qed

lemma create_directory_relative_truthful:
  assumes "create_mode r \<noteq> Trash_container_remove_empty"
  shows "create_truthful r v (create_directory_relative r v)"
  unfolding create_directory_relative_def Let_def
  by (intro creating.claim_attempt creating.claim_guarded creating.claim_fails_with quiet_intros
      refusing_check_match mkdirat_truthful assms)

lemma removal_truthful:
  assumes "create_mode r = Trash_container_remove_empty"
  shows "create_truthful r v (attempt (unlinkat (create_destination r) True v)
      (\<lambda>code v. (failure v op code detail True, v))
      (\<lambda>_ v. (committed_result op Success False empty_snapshot [], v)))"
proof -
  obtain x v1 where run: "unlinkat (create_destination r) True v = (x, v1)" by fastforce
  note effect = unlinkat_directory [OF run]
  show ?thesis
  proof (cases x)
    case (Inl e)
    from effect(2) [OF Inl] assms show ?thesis
      by (auto simp: run Inl attempt_def create_truthful_def still_def directory_done_def failure_def
          Let_def)
  next
    case (Inr u)
    from effect(1) [OF Inr] assms show ?thesis
      by (simp add: run Inr attempt_def create_truthful_def directory_done_def committed_result_def)
  qed
qed

lemma open_container_truthful:
  assumes "\<And>child v. create_truthful r v (rest child v)"
  shows "create_truthful r v (open_container r rest v)"
proof -
  have "create_truthful r v (changed_result op detail, v)" for v op detail
    by (rule create_truthful_refusal) (simp_all add: changed_result_fails)
  then show ?thesis
    unfolding open_container_def Let_def
    by (intro creating.claim_attempt creating.claim_fails_with quiet_intros) (simp_all add: assms)
qed

lemma remove_empty_truthful:
  assumes "create_mode r = Trash_container_remove_empty"
  shows "create_truthful r v (remove_empty_directory r v)"
  unfolding remove_empty_directory_def Let_def
  by (intro creating.claim_attempt creating.claim_guarded creating.claim_fails_with quiet_intros
      refusing_check_match open_container_truthful removal_truthful assms)

lemma quiet_query [quiet_intros]: "quiet (query_directory_revision p v) v"
  unfolding query_directory_revision_def by (intro quiet_intros still_refl)

lemma open_failure_fails: "status (open_failure e r) \<noteq> Success"
  by (simp add: open_failure_def map_open_error_def split: SourceOpenErrorKind.splits)

lemma execute_create_truthful: "create_truthful r v (execute_create_directory r v)"
proof -
  have "create_truthful r v (res, v')"
    if "execute_create_directory r v = (res, v')" for res v'
  proof -
    obtain parent v1 where parent: "query_directory_revision (parent_path (create_destination r)) v =
        (parent, v1)" by fastforce
    obtain before v2 where before: "query_directory_revision (create_destination r) v1 = (before, v2)"
      by fastforce
    have still1: "still v v1" by (rule quiet_run [OF quiet_query parent])
    have still2: "still v v2"
      by (rule still_trans [OF still1 quiet_run [OF quiet_query before]])
    note run = that [unfolded execute_create_directory_def Let_def parent before prod.case]
    show ?thesis
    proof (cases "create_mode r = Trash_container_remove_empty")
      case True
      have "create_truthful r v (remove_empty_directory r v1)"
        by (rule create_truthful_still [OF still1 remove_empty_truthful [OF True]])
      with run True still1 show ?thesis
        by (auto simp: open_failure_fails intro!: create_truthful_refusal
            split: sum.splits if_splits)
    next
      case False
      have "create_truthful r v (create_directory_relative r v2)"
        by (rule create_truthful_still [OF still2 create_directory_relative_truthful [OF False]])
      with run False still1 still2 show ?thesis
        by (auto simp: open_failure_fails intro!: create_truthful_refusal
            split: sum.splits if_splits)
    qed
  qed
  then show ?thesis by (cases "execute_create_directory r v") simp
qed

text \<open>A reconciliation only looks, and vouches for a container only when it is private and empty.\<close>

definition container_verified ::
  "CreateDirectoryRequest \<Rightarrow> volume \<Rightarrow> OperationResult \<times> volume \<Rightarrow> bool"
where
  "container_verified r v m \<longleftrightarrow>
     still v (snd m) \<and>
     (status (fst m) = Success \<longrightarrow>
        (\<exists>n. lookup v (create_destination r) = Some n \<and> inode_kind n = Directory_object \<and>
             private_directory (snd m) n \<and> \<not> has_children (create_destination r) v \<and>
             confirmed_snapshot (fst m) = revision_snapshot n))"

lemma has_children_still: "still v v' \<Longrightarrow> has_children p v' = has_children p v"
  by (simp add: has_children_def still_def)

lemma container_verified_still:
  "still v0 v \<Longrightarrow> container_verified r v m \<Longrightarrow> container_verified r v0 m"
  by (auto simp: container_verified_def still_lookup has_children_still intro: still_trans)

interpretation verifying: outcome_claim "container_verified r" for r
  by unfold_locales (fact container_verified_still, simp add: container_verified_def)

lemma inspect_contents_outcome:
  assumes "inspect_contents p v = (x, v')"
  shows "still v v'" "x = Inr b \<Longrightarrow> b = has_children p v"
proof -
  have "quiet (inspect_contents p v) v"
    unfolding inspect_contents_def by (intro quiet_intros still_refl)
  then show "still v v'" using assms by (rule quiet_run)
  show "b = has_children p v" if "x = Inr b"
    using assms that unfolding inspect_contents_def
    by (elim attemptE)
      (auto dest!: reading_Inr quiet_run [OF quiet_calls(1)] simp: has_children_still)
qed

lemma contents_verified:
  assumes "lookup v (create_destination r) = Some child" "inode_kind child = Directory_object"
  shows "container_verified r v (if \<not> private_directory v child then
          ((plain_result op Permission_denied Conflicting
              ''trash container is not private to the current user'')
             \<lparr>destination_present := True, confirmed_snapshot := revision_snapshot child\<rparr>, v)
        else case inspect_contents (create_destination r) v of
          (Inl (e, detail), v) \<Rightarrow> fails_with op detail e v
        | (Inr True, v) \<Rightarrow>
            ((plain_result op Conflict Conflicting ''trash container contains unowned entries'')
               \<lparr>destination_present := True, confirmed_snapshot := revision_snapshot child\<rparr>, v)
        | (Inr False, v) \<Rightarrow> (committed_result op Success True (revision_snapshot child) [], v))"
proof -
  obtain x v1 where run: "inspect_contents (create_destination r) v = (x, v1)" by fastforce
  note outcome = inspect_contents_outcome [OF run]
  have same: "private_directory v1 child = private_directory v child"
    using outcome(1) by (simp add: private_directory_def still_def)
  show ?thesis
    using outcome assms run same
    by (cases x; cases "projr x")
      (auto simp: container_verified_def committed_result_def fails_with_def
        intro: container_verified_still [OF _ verifying.claim_fails_with])
qed

lemma verify_private_verified: "container_verified r v (verify_private_empty_directory r v)"
proof -
  have rest: "container_verified r v (open_container r rest v)"
    if "\<And>child v. lookup v (create_destination r) = Some child \<Longrightarrow>
          inode_kind child = Directory_object \<Longrightarrow> container_verified r v (rest child v)"
    for v and rest :: "inode \<Rightarrow> volume \<Rightarrow> OperationResult \<times> volume"
  proof -
    have changed: "container_verified r v (changed_result op detail, v)" for v op detail
      by (simp add: container_verified_def changed_result_fails)
    show ?thesis
      unfolding open_container_def Let_def
    proof (intro verifying.claim_attempt verifying.claim_fails_with quiet_intros changed)
      fix child v1 u v2 named v3
      assume "open_directory (create_destination r) v = (Inr child, v1)" "still v1 v2" "still v2 v3"
      then have "lookup v3 (create_destination r) = Some child"
        by (auto dest!: open_directory_Inr simp: still_lookup)
      with that show "container_verified r v3
          (if \<not> same_directory child named then
             (changed_result (create_operation_id r) ''trash container identity changed'', v3)
           else rest child v3)"
        by (simp add: changed same_directory_def)
    qed
  qed
  show ?thesis
    unfolding verify_private_empty_directory_def Let_def
    by (intro verifying.claim_attempt verifying.claim_guarded verifying.claim_fails_with
        quiet_intros refusing_check_match rest contents_verified)
qed

lemma reconcile_create_outcome:
  assumes "reconcile_create_directory r v = (res, v')"
  shows "still v v'"
    "status res = Success \<Longrightarrow> create_mode r \<noteq> Trash_container_remove_empty \<Longrightarrow>
       create_mode r = Trash_container \<and> container_verified r v (res, v')"
    "valid_create_directory_request r = Inr () \<Longrightarrow> create_mode r = User_visible \<Longrightarrow>
       evidence res \<noteq> No_commit"
proof -
  obtain parent v1 where parent: "query_directory_revision (parent_path (create_destination r)) v =
      (parent, v1)" by fastforce
  obtain before v2 where before: "query_directory_revision (create_destination r) v1 = (before, v2)"
    by fastforce
  have still1: "still v v1" by (rule quiet_run [OF quiet_query parent])
  have still2: "still v v2"
    by (rule still_trans [OF still1 quiet_run [OF quiet_query before]])
  have verified: "container_verified r v (verify_private_empty_directory r v2)"
    by (rule container_verified_still [OF still2 verify_private_verified])
  note run = assms [unfolded reconcile_create_directory_def Let_def parent before prod.case]
  show "still v v'"
    using run still1 still2 verified
    by (auto simp: judge_creation_def container_verified_def split: sum.splits if_splits)
  show "create_mode r = Trash_container \<and> container_verified r v (res, v')"
    if "status res = Success" "create_mode r \<noteq> Trash_container_remove_empty"
    using run that verified
    by (auto simp: judge_creation_def open_failure_fails split: sum.splits if_splits)
  show "evidence res \<noteq> No_commit"
    if "valid_create_directory_request r = Inr ()" "create_mode r = User_visible"
    using run that
    by (auto simp: judge_creation_def open_failure_def split: sum.splits if_splits)
qed

end
