(* ===== verification/Directory_Service.thy ===== *)
theory Directory_Service
  imports Directory_Executor Delete_Service
begin

text \<open>
  Directory requests through the file-operation service: \<open>submit_create_directory\<close> and
  \<open>submit_create_directory_reconciliation\<close> of
  \<open>src/Source/src/fileops/file_operation_service.cpp\<close>, the instance of its templates for a
  \<^typ>\<open>CreateDirectoryRequest\<close>.
\<close>

definition create_helper :: "CreateDirectoryRequest \<Rightarrow> volume \<Rightarrow> OperationResult \<times> volume" where
  "create_helper r v =
     (if create_action r = Execute then execute_create_directory r v
      else reconcile_create_directory r v)"

definition run_create_helper ::
  "CreateDirectoryRequest \<Rightarrow> bool \<Rightarrow> host \<Rightarrow> OperationResult \<times> host"
where
  "run_create_helper r = run_process (create_operation_id r) (create_helper r)"

definition serve_create_directory ::
  "CreateDirectoryRequest \<Rightarrow> RenameAction \<Rightarrow> host \<Rightarrow> OperationResult \<times> host"
where
  "serve_create_directory request action =
     (let r = request\<lparr>create_action := action\<rparr>; mutating_attempt = (action = Execute) in
      submit_request (create_operation_id r) (valid_create_directory_request r) mutating_attempt
        (run_create_helper r mutating_attempt)
        (run_create_helper (r\<lparr>create_action := Reconcile_only\<rparr>) False))"

section \<open>What the service promises\<close>

lemma valid_create_request_action [simp]:
  "valid_create_directory_request (r\<lparr>create_action := a\<rparr>) = valid_create_directory_request r"
proof -
  have "create_mode (r\<lparr>create_action := a\<rparr>) = create_mode r"
    "create_operation_id (r\<lparr>create_action := a\<rparr>) = create_operation_id r"
    "create_destination (r\<lparr>create_action := a\<rparr>) = create_destination r"
    "create_parent_revision (r\<lparr>create_action := a\<rparr>) = create_parent_revision r"
    by simp_all
  then show ?thesis by (simp only: valid_create_directory_request_def)
qed

lemma create_claims_action [simp]:
  "create_truthful (r\<lparr>create_action := a\<rparr>) = create_truthful r"
  "container_verified (r\<lparr>create_action := a\<rparr>) = container_verified r"
  "directory_done (r\<lparr>create_action := a\<rparr>) = directory_done r"
  by (simp_all add: fun_eq_iff create_truthful_def container_verified_def directory_done_def)

text \<open>The state of the volume and what a success proves; a container that is found private and empty
  is accepted whoever made it.\<close>

definition create_served ::
  "CreateDirectoryRequest \<Rightarrow> volume \<Rightarrow> OperationResult \<Rightarrow> volume \<Rightarrow> bool"
where
  "create_served r v res v' \<longleftrightarrow>
     (entries v' = entries v \<or> directory_done r v v') \<and>
     (status res = Success \<longrightarrow> create_mode r \<noteq> Trash_container_remove_empty \<longrightarrow>
        (\<exists>n. lookup v' (create_destination r) = Some n \<and> inode_kind n = Directory_object \<and>
             confirmed_snapshot res = revision_snapshot n \<and>
             (create_mode r = Trash_container \<longrightarrow> private_directory v' n))) \<and>
     (create_mode r = User_visible \<longrightarrow>
        (status res = Success \<longrightarrow> directory_done r v v') \<and>
        (evidence res = No_commit \<longrightarrow> entries v' = entries v))"

lemma truthful_served:
  assumes "create_truthful r v (res, v')"
  shows "create_served r v res v'"
  using assms
  by (auto simp: create_truthful_def create_served_def directory_done_def directory_made_def
      lookup_def)

lemma run_create_execute:
  assumes "create_action r = Execute" "run_create_helper r m h = (res, h')"
  shows "create_served r (host_volume h) res (host_volume h')"
proof -
  obtain x v where x: "execute_create_directory r (host_volume h) = (x, v)" by fastforce
  with execute_create_truthful [of r "host_volume h"]
  have performed: "create_truthful r (host_volume h) (x, v)" by simp
  have same: "entries v = entries (host_volume h) \<or> directory_done r (host_volume h) v"
    using performed by (auto simp: create_truthful_def)
  from run_process_cases [OF assms(2) [unfolded run_create_helper_def]] x performed assms(1) same
  show ?thesis
    by (auto simp: create_helper_def create_served_def intro: truthful_served [unfolded create_served_def]
        dest: truthful_served)
qed

lemma run_create_reconcile:
  assumes "create_action r = Reconcile_only" "run_create_helper r m h = (res, h')"
  shows "still (host_volume h) (host_volume h')"
    "status res = Success \<Longrightarrow> create_mode r \<noteq> Trash_container_remove_empty \<Longrightarrow>
       create_mode r = Trash_container \<and> container_verified r (host_volume h) (res, host_volume h')"
    "valid_create_directory_request r = Inr () \<Longrightarrow> create_mode r = User_visible \<Longrightarrow>
       evidence res \<noteq> No_commit"
proof -
  obtain x v where x: "reconcile_create_directory r (host_volume h) = (x, v)" by fastforce
  note rec = reconcile_create_outcome [OF x]
  from run_process_cases [OF assms(2) [unfolded run_create_helper_def]] x rec assms(1)
  show "still (host_volume h) (host_volume h')"
    "status res = Success \<Longrightarrow> create_mode r \<noteq> Trash_container_remove_empty \<Longrightarrow>
       create_mode r = Trash_container \<and> container_verified r (host_volume h) (res, host_volume h')"
    "valid_create_directory_request r = Inr () \<Longrightarrow> create_mode r = User_visible \<Longrightarrow>
       evidence res \<noteq> No_commit"
    by (auto simp: create_helper_def)
qed

lemma merge_confirmed:
  "status observed = Success \<Longrightarrow> \<not> evidence_conflict attempted observed \<Longrightarrow>
     confirmed_snapshot (merge_reconciliation attempted observed) = confirmed_snapshot observed"
  by (simp add: merge_reconciliation_def)

lemma served_merge:
  assumes attempted: "create_served r v x v1" "status x \<noteq> Success" and still: "still v1 v2"
    and success: "status y = Success \<Longrightarrow> create_mode r \<noteq> Trash_container_remove_empty \<Longrightarrow>
       create_mode r = Trash_container \<and> container_verified r v1 (y, v2)"
    and no_commit: "create_mode r = User_visible \<Longrightarrow> evidence y \<noteq> No_commit"
  shows "create_served r v (merge_reconciliation x y) v2"
proof -
  have same: "entries v2 = entries v1" using still by (simp add: still_def)
  have done_same: "directory_done r v v2 = directory_done r v v1"
    by (simp add: directory_done_def directory_made_def directory_removed_def same)
  have denied: "evidence x = No_commit"
    if "create_mode r = User_visible" "evidence (merge_reconciliation x y) = No_commit"
    using that no_commit by (auto simp: merge_evidence split: if_splits)
  have done_now: "entries v2 = entries v \<or> directory_done r v v2"
    using attempted(1) by (auto simp: create_served_def same done_same)
  show ?thesis
  proof (cases "status (merge_reconciliation x y) = Success")
    case True
    with merge_success [OF True] attempted(2)
    have y: "status y = Success" "\<not> evidence_conflict x y" by auto
    have "\<exists>n. lookup v2 (create_destination r) = Some n \<and> inode_kind n = Directory_object \<and>
        confirmed_snapshot y = revision_snapshot n \<and> private_directory v2 n \<and>
        create_mode r = Trash_container"
      if "create_mode r \<noteq> Trash_container_remove_empty"
      using success [OF y(1) that] still y(1) by (auto simp: container_verified_def still_lookup)
    with done_now denied attempted(1) y(1) success show ?thesis
      by (fastforce simp: create_served_def merge_confirmed [OF y] same)
  next
    case False
    with done_now denied attempted(1) show ?thesis by (auto simp: create_served_def same)
  qed
qed

lemma serve_create_served:
  assumes run: "serve_create_directory r action h = (res, h')"
  shows "create_served r (host_volume h) res (host_volume h')"
    "entries (host_volume h') \<noteq> entries (host_volume h) \<Longrightarrow>
       action = Execute \<and> valid_create_directory_request r = Inr ()"
proof -
  let ?r = "r\<lparr>create_action := action\<rparr>" and ?q = "r\<lparr>create_action := Reconcile_only\<rparr>"
  have refused: "create_served r v y v"
    if "status y \<noteq> Success" for v y
    using that by (simp add: create_served_def)
  have "create_served r (host_volume h) res (host_volume h') \<and>
      (entries (host_volume h') \<noteq> entries (host_volume h) \<longrightarrow>
        action = Execute \<and> valid_create_directory_request r = Inr ())"
  proof (cases "valid_create_directory_request r")
    case (Inl detail)
    with run have "host_volume h' = host_volume h" "status res = Invalid_request"
      by (auto simp: serve_create_directory_def submit_request_def needs_reconciliation_def Let_def
          split: prod.splits)
    then show ?thesis by (simp add: refused)
  next
    case (Inr u)
    show ?thesis
    proof (cases action)
      case Execute
      obtain x h1 where x: "run_create_helper ?r True h = (x, h1)" by fastforce
      have attempted: "create_served r (host_volume h) x (host_volume h1)"
        using run_create_execute [OF _ x] Execute by (simp add: create_served_def)
      obtain b h2 where b: "next_poll h1 = (b, h2)" by fastforce
      obtain y h3 where y: "run_create_helper ?q False h2 = (y, h3)" by fastforce
      note rec = run_create_reconcile [OF _ y, simplified]
      show ?thesis
      proof (cases "\<not> b \<and> needs_reconciliation x")
        case True
        then have "status x \<noteq> Success" by (auto simp: needs_reconciliation_def)
        then have "create_served r (host_volume h) (merge_reconciliation x y) (host_volume h3)"
          using rec b Inr by (intro served_merge [OF attempted]) auto
        with True run Inr Execute x b y show ?thesis
          by (auto simp: serve_create_directory_def submit_request_def Let_def create_served_def
              split: if_splits)
      next
        case False
        with run Inr Execute x b attempted show ?thesis
          by (auto simp: serve_create_directory_def submit_request_def Let_def)
      qed
    next
      case Reconcile_only
      obtain y h1 where y: "run_create_helper ?q False h = (y, h1)" by fastforce
      note rec = run_create_reconcile [OF _ y, simplified]
      from rec(1) have "entries (host_volume h1) = entries (host_volume h)" by (simp add: still_def)
      moreover have "create_served r (host_volume h) y (host_volume h1)"
        using rec Inr calculation
        by (auto simp: create_served_def container_verified_def still_lookup)
      ultimately show ?thesis
        using run Inr Reconcile_only y
        by (auto simp: serve_create_directory_def submit_request_def Let_def split: prod.splits)
    qed
  qed
  then show "create_served r (host_volume h) res (host_volume h')"
    "entries (host_volume h') \<noteq> entries (host_volume h) \<Longrightarrow>
       action = Execute \<and> valid_create_directory_request r = Inr ()" by auto
qed

end
