(* ===== verification/Directory_Properties.thy ===== *)
theory Directory_Properties
  imports Directory_Service Rename_Properties
begin

text \<open>What the service guarantees of directory requests, and where it does not.\<close>

text \<open>C33: However the system calls end and however the helper process fails, a directory request leaves
  the volume as it was or does just what it says, and the latter only when it was a valid request to
  execute. A success of a creation names the directory at the destination, which for a Trash
  container is private to the user; for a directory the user asked for, a success means that this
  request made it, and a denial that it did not.\<close>

theorem serve_create_honest:
  assumes "serve_create_directory r action h = (res, h')"
  shows "(entries (host_volume h') = entries (host_volume h) \<or>
      action = Execute \<and> valid_create_directory_request r = Inr () \<and>
      directory_done r (host_volume h) (host_volume h')) \<and>
    (status res = Success \<longrightarrow> create_mode r \<noteq> Trash_container_remove_empty \<longrightarrow>
      (\<exists>n. lookup (host_volume h') (create_destination r) = Some n \<and>
           inode_kind n = Directory_object \<and> confirmed_snapshot res = revision_snapshot n \<and>
           (create_mode r = Trash_container \<longrightarrow> private_directory (host_volume h') n))) \<and>
    (create_mode r = User_visible \<longrightarrow>
      (status res = Success \<longrightarrow> directory_done r (host_volume h) (host_volume h')) \<and>
      (evidence res = No_commit \<longrightarrow> entries (host_volume h') = entries (host_volume h)))"
  using serve_create_served [OF assms] unfolding create_served_def by blast

definition example_container :: CreateDirectoryRequest where
  "example_container =
     \<lparr>create_operation_id = 1, create_action = Execute, create_mode = Trash_container,
      create_destination = ''/d/'' @ kTrashFilenamePrefix @ ''1'', create_parent_revision = []\<rparr>"

definition example_host_with :: "call list \<Rightarrow> host" where
  "example_host_with cs = \<lparr>host_volume = example_volume cs, transports = [], polls = []\<rparr>"

lemma example_container_valid: "valid_create_directory_request example_container = Inr ()"
  by code_simp

lemma example_container_paths:
  "path_elems (create_destination example_container) = [''/'', ''d'', kTrashFilenamePrefix @ ''1'']"
  "path_elems (parent_path (create_destination example_container)) = path_elems ''/d''"
  "path_elems ''/d'' = [''/'', ''d'']" "path_elems ''/d/a.c'' = [''/'', ''d'', ''a.c'']"
  "parent_path (create_destination example_container) \<noteq> []"
  "create_destination example_container \<noteq> []"
  by code_simp+

lemma example_container_fields:
  "create_operation_id example_container = 1" "create_mode example_container = Trash_container"
  "create_parent_revision example_container = []"
  by (simp_all add: example_container_def)

text \<open>The reconciliation of a Trash container may deny a creation that happened: the share reports
  a timeout for a \<open>mkdir\<close> that it carried out, the container is there, but when it is to be inspected
  its parent cannot be opened; that failure carries the evidence of an operation which has not
  begun, and the merged result says that nothing was committed.\<close>

theorem container_reconciliation_denies_creation:
  "let h = example_host_with ([Call_ok, Call_ok, Call_ok, Call_ok, Call_ok, Call_ok, Call_ok,
         Call_fails ETIMEDOUT True, Call_ok, Call_ok, Call_ok, Call_ok, Call_fails EIO False]);
       (res, h') = serve_create_directory example_container Execute h in
   evidence res = No_commit \<and>
   lookup (host_volume h) (create_destination example_container) = None \<and>
   lookup (host_volume h') (create_destination example_container) \<noteq> None"
  using example_container_valid
  by (simp add: example_host_with_def example_volume_def serve_create_directory_def
      submit_request_def run_create_helper_def run_process_def create_helper_def next_transport_def
      next_poll_def execute_create_directory_def reconcile_create_directory_def
      query_directory_revision_def attempt_def reading_def next_call_def open_directory_def
      lookup_def fstat_def example_container_paths example_container_fields Let_def occupied_def
      posix_error_def posix_error_kind_def create_directory_relative_def
      directory_matches_expected_def check_match_def guarded_def path_still_names_directory_def
      mkdirat_def uncertain_errno_def created_def failure_def needs_reconciliation_def
      judge_creation_def verify_private_empty_directory_def fails_with_def status_for_errno_def
      merge_reconciliation_def evidence_conflict_def observe_presence_def errno_defs
      disconnected_error_def example_directory_def example_file_def plain_result_def
      same_source_revision_refl)

lemma serve_create_honest_witness:
  "let (res, h') = serve_create_directory example_container Execute
       (example_host_with [Call_ok, Call_ok, Call_ok, Call_ok, Call_ok, Call_ok, Call_ok,
          Call_fails ETIMEDOUT True]) in
   entries (host_volume h') = entries (example_volume []) \<or>
   directory_done example_container (example_volume []) (host_volume h')"
proof -
  let ?h = "example_host_with [Call_ok, Call_ok, Call_ok, Call_ok, Call_ok, Call_ok, Call_ok,
      Call_fails ETIMEDOUT True]"
  obtain res h' where run: "serve_create_directory example_container Execute ?h = (res, h')"
    by fastforce
  have same: "entries (host_volume ?h) = entries (example_volume [])"
    by (simp add: example_host_with_def example_volume_def)
  have "directory_done example_container (host_volume ?h) v =
      directory_done example_container (example_volume []) v" for v
    by (simp add: directory_done_def directory_made_def directory_removed_def has_children_def
        lookup_def same)
  with serve_create_honest [OF run] same run show ?thesis by auto
qed

end
