(* ===== verification/Operation_Protocol.thy ===== *)
theory Operation_Protocol
  imports Bytes File_Operation
begin

text \<open>
  The messages between the service and its helper process:
  \<open>src/Source/src/fileops/file_operation_protocol.cpp\<close>. Each decoder is shown to accept exactly the
  bytes its encoder writes for a request that passes validation.
\<close>

definition kFileOperationProtocolVersion :: u32 where
  "kFileOperationProtocolVersion = 17"

definition kMaximumOperationPayloadBytes :: nat where
  "kMaximumOperationPayloadBytes = 64 * 1024"

definition requestMagic :: u32 where "requestMagic = 0x31524f46"
definition deleteRequestMagic :: u32 where "deleteRequestMagic = 0x31444f46"
definition createDirectoryRequestMagic :: u32 where "createDirectoryRequestMagic = 0x31434f46"
definition resultMagic :: u32 where "resultMagic = 0x31534f46"

lemmas magic_defs =
  requestMagic_def deleteRequestMagic_def createDirectoryRequestMagic_def resultMagic_def

section \<open>The enumerations on the wire\<close>

definition wire_actions :: "RenameAction list" where
  "wire_actions = [Execute, Reconcile_only]"

definition wire_kinds :: "OperationObjectKind list" where
  "wire_kinds = [Regular_file, Directory_object]"

definition wire_rename_modes :: "RenameMode list" where
  "wire_rename_modes =
     [Single_preserve_extension, Batch_internal, Trash_internal, Trash_restore, Transfer_atomic,
      Transfer_stage, Transfer_publish, Transfer_restore, Single_allow_extension_change,
      Transfer_publish_replace, Transfer_atomic_replace, Transfer_overwrite_stage,
      Transfer_overwrite_restore, Trash_store_preserve_permissions,
      Trash_restore_preserve_permissions]"

definition wire_delete_modes :: "DeleteMode list" where
  "wire_delete_modes =
     [Permanent_remote, Trash_purge, Transfer_temp_cleanup, Transfer_source_commit,
      Transfer_overwrite_cleanup, Trash_purge_preserve_permissions]"

definition wire_create_modes :: "CreateDirectoryMode list" where
  "wire_create_modes = [User_visible, Trash_container, Trash_container_remove_empty]"

definition wire_statuses :: "OperationStatus list" where
  "wire_statuses =
     [Success, Invalid_request, Not_found, Conflict, Source_changed, Permission_denied,
      Authentication_required, Disconnected, Timed_out, Unsupported, Unknown_outcome, Io_error,
      Cross_device, File_in_use]"

lemma wire_tables [simp]:
  "enum_table wire_actions" "enum_table wire_kinds" "enum_table wire_rename_modes"
  "enum_table wire_delete_modes" "enum_table wire_create_modes" "enum_table wire_statuses"
proof -
  have "x \<in> set wire_actions" for x by (cases x) (simp_all add: wire_actions_def)
  moreover have "x \<in> set wire_kinds" for x by (cases x) (simp_all add: wire_kinds_def)
  moreover have "x \<in> set wire_rename_modes" for x
    by (cases x) (simp_all add: wire_rename_modes_def)
  moreover have "x \<in> set wire_delete_modes" for x
    by (cases x) (simp_all add: wire_delete_modes_def)
  moreover have "x \<in> set wire_create_modes" for x
    by (cases x) (simp_all add: wire_create_modes_def)
  moreover have "x \<in> set wire_statuses" for x by (cases x) (simp_all add: wire_statuses_def)
  ultimately show "enum_table wire_actions" "enum_table wire_kinds" "enum_table wire_rename_modes"
    "enum_table wire_delete_modes" "enum_table wire_create_modes" "enum_table wire_statuses"
    unfolding enum_table_def
    by (simp_all only: simp_thms)
      (simp_all add: wire_actions_def wire_kinds_def wire_rename_modes_def wire_delete_modes_def
        wire_create_modes_def wire_statuses_def)
qed

section \<open>The header of a request\<close>

record request_header =
  wire_magic :: u32
  wire_version :: u32
  wire_operation_id :: u64
  wire_action :: u8
  wire_mode :: u8
  wire_kind :: u8
  wire_reserved :: u8

definition enc_request_header :: "request_header \<Rightarrow> byte list" where
  "enc_request_header h =
     append_integer (wire_magic h) @ append_integer (wire_version h) @
     append_integer (wire_operation_id h) @ append_integer (wire_action h) @
     append_integer (wire_mode h) @ append_integer (wire_kind h) @ append_integer (wire_reserved h)"

definition dec_request_header :: "byte list \<Rightarrow> (request_header \<times> byte list) option" where
  "dec_request_header bs = do {
     (magic, bs) \<leftarrow> (read_integer bs :: (u32 \<times> byte list) option);
     (version, bs) \<leftarrow> (read_integer bs :: (u32 \<times> byte list) option);
     (operation_id, bs) \<leftarrow> (read_integer bs :: (u64 \<times> byte list) option);
     (action, bs) \<leftarrow> (read_integer bs :: (u8 \<times> byte list) option);
     (mode, bs) \<leftarrow> (read_integer bs :: (u8 \<times> byte list) option);
     (kind, bs) \<leftarrow> (read_integer bs :: (u8 \<times> byte list) option);
     (reserved, bs) \<leftarrow> (read_integer bs :: (u8 \<times> byte list) option);
     Some (\<lparr>wire_magic = magic, wire_version = version, wire_operation_id = operation_id,
            wire_action = action, wire_mode = mode, wire_kind = kind, wire_reserved = reserved\<rparr>,
           bs) }"

lemmas field_codecs =
  byte_codec.dec_Some_iff u16_codec.dec_Some_iff u32_codec.dec_Some_iff u64_codec.dec_Some_iff
  string_codec.dec_Some_iff

lemmas field_decs =
  byte_codec.dec_enc u16_codec.dec_enc u32_codec.dec_enc u64_codec.dec_enc string_codec.dec_enc

interpretation header_codec: codec enc_request_header dec_request_header "\<lambda>_. True"
  by unfold_locales
    (auto simp: dec_request_header_def enc_request_header_def bind_Some_iff field_codecs field_decs)

definition wire_header :: "u32 \<Rightarrow> u64 \<Rightarrow> RenameAction \<Rightarrow> u8 \<Rightarrow> OperationObjectKind \<Rightarrow> request_header" where
  "wire_header magic operation_id action mode kind =
     \<lparr>wire_magic = magic, wire_version = kFileOperationProtocolVersion,
      wire_operation_id = operation_id, wire_action = enum_code wire_actions action,
      wire_mode = mode, wire_kind = enum_code wire_kinds kind, wire_reserved = 0\<rparr>"

text \<open>The checks of a complete message: the constants, the enumerations, and nothing left over.\<close>

definition compatible ::
  "u32 \<Rightarrow> 'm list \<Rightarrow> request_header \<Rightarrow> byte list \<Rightarrow> (RenameAction \<times> 'm \<times> OperationObjectKind) option"
where
  "compatible magic modes h bs =
     (if wire_magic h \<noteq> magic \<or> wire_version h \<noteq> kFileOperationProtocolVersion \<or>
         wire_reserved h \<noteq> 0 \<or> bs \<noteq> [] then None
      else do {
        action \<leftarrow> enum_of wire_actions (wire_action h);
        mode \<leftarrow> enum_of modes (wire_mode h);
        kind \<leftarrow> enum_of wire_kinds (wire_kind h);
        Some (action, mode, kind) })"

lemma compatible_iff:
  assumes "enum_table modes"
  shows "compatible magic modes h bs = Some (action, mode, kind) \<longleftrightarrow>
     bs = [] \<and> h = wire_header magic (wire_operation_id h) action (enum_code modes mode) kind"
  using assms
  by (cases h) (auto simp: compatible_def wire_header_def bind_Some_iff enum_of_iff)

text \<open>A snapshot travels as its two stamps and, after the paths, its revision.\<close>

definition enc_stamp :: "SourceSnapshot \<Rightarrow> byte list" where
  "enc_stamp s = append_integer (size_bytes s) @ append_integer (modified_unix_ns s)"

definition dec_stamp :: "byte list \<Rightarrow> ((u64 \<times> i64) \<times> byte list) option" where
  "dec_stamp bs = do {
     (size, bs) \<leftarrow> (read_integer bs :: (u64 \<times> byte list) option);
     (modified, bs) \<leftarrow> (read_integer bs :: (i64 \<times> byte list) option);
     Some ((size, modified), bs) }"

lemma dec_stamp_iff:
  "dec_stamp bs = Some ((bytes, modified), rest) \<longleftrightarrow>
     bs = enc_stamp \<lparr>size_bytes = bytes, modified_unix_ns = modified, source_revision_utf8 = r\<rparr> @ rest"
  by (auto simp: dec_stamp_def enc_stamp_def bind_Some_iff field_codecs)

lemma dec_enc_stamp [simp]:
  "dec_stamp (enc_stamp s @ rest) = Some ((size_bytes s, modified_unix_ns s), rest)"
  by (simp add: dec_stamp_def enc_stamp_def field_decs)

definition enc_snapshot :: "SourceSnapshot \<Rightarrow> byte list" where
  "enc_snapshot s = enc_stamp s @ append_string (source_revision_utf8 s)"

definition dec_snapshot :: "byte list \<Rightarrow> (SourceSnapshot \<times> byte list) option" where
  "dec_snapshot bs = do {
     ((size, modified), bs) \<leftarrow> dec_stamp bs;
     (revision, bs) \<leftarrow> read_string bs;
     Some (\<lparr>size_bytes = size, modified_unix_ns = modified, source_revision_utf8 = revision\<rparr>, bs) }"

interpretation snapshot_codec: codec enc_snapshot dec_snapshot "\<lambda>s. string_fits (source_revision_utf8 s)"
  by unfold_locales
    (auto simp: dec_snapshot_def enc_snapshot_def enc_stamp_def dec_stamp_def bind_Some_iff
      field_codecs field_decs)

section \<open>Rename requests\<close>

definition replacement_mode :: "RenameMode \<Rightarrow> bool" where
  "replacement_mode mode \<longleftrightarrow> mode = Transfer_publish_replace \<or> mode = Transfer_atomic_replace"

definition enc_rename_fields :: "RenameRequest \<Rightarrow> byte list" where
  "enc_rename_fields r =
     enc_stamp (rename_expected_source r) @ append_string (rename_source r) @
     append_string (rename_destination r) @
     append_string (source_revision_utf8 (rename_expected_source r)) @
     append_string (rename_source_parent_identity r) @
     append_string (rename_destination_parent_identity r) @
     append_string (rename_anchor_path r) @ append_string (rename_anchor_identity r)"

definition rename_payload :: "RenameRequest \<Rightarrow> byte list" where
  "rename_payload r =
     enc_request_header (wire_header requestMagic (rename_operation_id r) (rename_action r)
       (enum_code wire_rename_modes (rename_mode r)) (rename_object_kind r)) @
     enc_rename_fields r @
     (if replacement_mode (rename_mode r) then enc_snapshot (rename_expected_destination r) else []) @
     append_string (rename_security_baseline r)"

definition rename_strings_fit :: "RenameRequest \<Rightarrow> bool" where
  "rename_strings_fit r \<longleftrightarrow>
     list_all string_fits
       [rename_source r, rename_destination r, source_revision_utf8 (rename_expected_source r),
        rename_source_parent_identity r, rename_destination_parent_identity r,
        rename_anchor_path r, rename_anchor_identity r, rename_security_baseline r] \<and>
     (replacement_mode (rename_mode r) \<longrightarrow>
        string_fits (source_revision_utf8 (rename_expected_destination r)))"

text \<open>\<^const>\<open>Inl\<close> is the exception \<open>std::length_error\<close>.\<close>

definition encode_rename_request :: "RenameRequest \<Rightarrow> string + byte list" where
  "encode_rename_request r =
     (if \<not> rename_strings_fit r then Inl ''catalog protocol string is too large''
      else if kMaximumOperationPayloadBytes < length (rename_payload r) then
        Inl ''file operation request exceeds the protocol limit''
      else Inr (rename_payload r))"

text \<open>The request as it is filled in by the reads; the enumerations follow from the header.\<close>

definition dec_rename_fields ::
  "byte list \<Rightarrow> ((request_header \<times> RenameRequest) \<times> byte list) option"
where
  "dec_rename_fields bs = do {
     (h, bs) \<leftarrow> dec_request_header bs;
     ((size, modified), bs) \<leftarrow> dec_stamp bs;
     (source, bs) \<leftarrow> read_string bs;
     (destination, bs) \<leftarrow> read_string bs;
     (revision, bs) \<leftarrow> read_string bs;
     (source_parent, bs) \<leftarrow> read_string bs;
     (destination_parent, bs) \<leftarrow> read_string bs;
     (anchor, bs) \<leftarrow> read_string bs;
     (anchor_identity, bs) \<leftarrow> read_string bs;
     Some ((h, \<lparr>rename_operation_id = wire_operation_id h, rename_action = Execute,
        rename_mode = Single_preserve_extension, rename_object_kind = Regular_file,
        rename_source = source, rename_destination = destination,
        rename_expected_source = \<lparr>size_bytes = size, modified_unix_ns = modified,
          source_revision_utf8 = revision\<rparr>,
        rename_source_parent_identity = source_parent,
        rename_destination_parent_identity = destination_parent,
        rename_anchor_path = anchor, rename_anchor_identity = anchor_identity,
        rename_expected_destination = empty_snapshot, rename_security_baseline = []\<rparr>), bs) }"

text \<open>The snapshot of the object to be replaced, present in the replacing modes only.\<close>

definition dec_replacement :: "u8 \<Rightarrow> byte list \<Rightarrow> (SourceSnapshot \<times> byte list) option" where
  "dec_replacement mode bs =
     (case enum_of wire_rename_modes mode of
        Some m \<Rightarrow> if replacement_mode m then dec_snapshot bs else Some (empty_snapshot, bs)
      | None \<Rightarrow> Some (empty_snapshot, bs))"

definition rename_texts_ok :: "RenameRequest \<Rightarrow> bool" where
  "rename_texts_ok r \<longleftrightarrow>
     list_all valid_utf8_no_nul
       [rename_source r, rename_destination r,
        source_revision_utf8 (rename_expected_destination r),
        source_revision_utf8 (rename_expected_source r), rename_source_parent_identity r,
        rename_destination_parent_identity r, rename_anchor_path r, rename_anchor_identity r]"

definition decode_rename_request :: "byte list \<Rightarrow> string + RenameRequest" where
  "decode_rename_request payload =
     (if kMaximumOperationPayloadBytes < length payload then
        Inl ''file operation request exceeds the protocol limit''
      else case dec_rename_fields payload of
        None \<Rightarrow> Inl ''file operation request is truncated''
      | Some ((h, r), bs) \<Rightarrow>
        case dec_replacement (wire_mode h) bs of
          None \<Rightarrow> Inl ''file replacement authorization is truncated''
        | Some (replaced, bs) \<Rightarrow>
          case read_string bs of
            None \<Rightarrow> Inl ''Trash security baseline is truncated''
          | Some (baseline, bs) \<Rightarrow>
            case compatible requestMagic wire_rename_modes h bs of
              None \<Rightarrow> Inl ''file operation request is incompatible''
            | Some (action, mode, kind) \<Rightarrow>
                let r = r\<lparr>rename_action := action, rename_mode := mode, rename_object_kind := kind,
                          rename_expected_destination := replaced,
                          rename_security_baseline := baseline\<rparr> in
                if \<not> rename_texts_ok r then Inl ''file operation request text is invalid UTF-8''
                else case valid_rename_request r of Inl detail \<Rightarrow> Inl detail | Inr _ \<Rightarrow> Inr r)"

text \<open>A request that means the same after the journey: what is not sent is empty.\<close>

definition rename_sendable :: "RenameRequest \<Rightarrow> bool" where
  "rename_sendable r \<longleftrightarrow>
     valid_rename_request r = Inr () \<and> rename_texts_ok r \<and>
     (\<not> replacement_mode (rename_mode r) \<longrightarrow> rename_expected_destination r = empty_snapshot)"

lemma dec_rename_fields_enc:
  assumes "rename_strings_fit r"
  shows "dec_rename_fields (enc_request_header h @ enc_rename_fields r @ rest) =
     Some ((h, r\<lparr>rename_operation_id := wire_operation_id h, rename_action := Execute,
       rename_mode := Single_preserve_extension, rename_object_kind := Regular_file,
       rename_expected_destination := empty_snapshot, rename_security_baseline := []\<rparr>), rest)"
  using assms
  by (cases r) (simp add: dec_rename_fields_def enc_rename_fields_def header_codec.dec_enc field_decs
      rename_strings_fit_def)

lemma dec_rename_fields_Some:
  assumes "dec_rename_fields bs = Some ((h, r), rest)"
  shows "bs = enc_request_header h @ enc_rename_fields r @ rest"
    "rename_operation_id r = wire_operation_id h" "rename_action r = Execute"
    "rename_mode r = Single_preserve_extension" "rename_object_kind r = Regular_file"
    "rename_expected_destination r = empty_snapshot" "rename_security_baseline r = []"
    "rename_strings_fit r"
  using assms
  by (auto simp: dec_rename_fields_def enc_rename_fields_def bind_Some_iff header_codec.dec_Some_iff
      dec_stamp_def enc_stamp_def field_codecs rename_strings_fit_def replacement_mode_def
      string_fits_def)

lemma dec_replacement_enc:
  assumes "rename_strings_fit r" "rename_sendable r"
  shows "dec_replacement (enum_code wire_rename_modes (rename_mode r))
      ((if replacement_mode (rename_mode r) then enc_snapshot (rename_expected_destination r) else []) @
       rest) = Some (rename_expected_destination r, rest)"
  using assms
  by (simp add: dec_replacement_def snapshot_codec.dec_enc rename_strings_fit_def rename_sendable_def)

lemma dec_replacement_Some:
  assumes "dec_replacement (enum_code wire_rename_modes mode) bs = Some (replaced, rest)"
  shows "bs = (if replacement_mode mode then enc_snapshot replaced else []) @ rest"
    "replacement_mode mode \<Longrightarrow> string_fits (source_revision_utf8 replaced)"
    "\<not> replacement_mode mode \<Longrightarrow> replaced = empty_snapshot"
  using assms by (auto simp: dec_replacement_def snapshot_codec.dec_Some_iff split: if_splits)

lemma decode_encode_rename:
  assumes enc: "encode_rename_request r = Inr bytes" and sendable: "rename_sendable r"
  shows "decode_rename_request bytes = Inr r"
proof -
  let ?h = "wire_header requestMagic (rename_operation_id r) (rename_action r)
       (enum_code wire_rename_modes (rename_mode r)) (rename_object_kind r)"
  from enc have fits: "rename_strings_fit r" and le: "length bytes \<le> kMaximumOperationPayloadBytes"
    and bytes: "bytes = rename_payload r"
    by (auto simp: encode_rename_request_def split: if_splits)
  have valid: "valid_rename_request r = Inr ()" and texts: "rename_texts_ok r"
    using sendable by (auto simp: rename_sendable_def)
  have baseline: "read_string (append_string (rename_security_baseline r)) =
      Some (rename_security_baseline r, [])"
    using fits string_codec.dec_enc [of "rename_security_baseline r" "[]"]
    by (simp add: rename_strings_fit_def)
  have header: "wire_mode ?h = enum_code wire_rename_modes (rename_mode r)"
    "wire_operation_id ?h = rename_operation_id r"
    by (simp_all add: wire_header_def)
  have fields: "compatible requestMagic wire_rename_modes ?h [] =
      Some (rename_action r, rename_mode r, rename_object_kind r)"
    by (simp add: compatible_iff) (simp add: wire_header_def)
  show ?thesis
    using le valid texts
    by (simp add: decode_rename_request_def bytes rename_payload_def dec_rename_fields_enc [OF fits]
        header dec_replacement_enc [OF fits sendable] baseline fields Let_def)
qed

lemma decode_rename_sendable:
  assumes "decode_rename_request bytes = Inr r"
  shows "encode_rename_request r = Inr bytes" "rename_sendable r"
proof -
  from assms obtain h r0 bs replaced bs1 baseline bs2 action mode kind where
    le: "length bytes \<le> kMaximumOperationPayloadBytes"
    and fields: "dec_rename_fields bytes = Some ((h, r0), bs)"
    and replaced: "dec_replacement (wire_mode h) bs = Some (replaced, bs1)"
    and baseline: "read_string bs1 = Some (baseline, bs2)"
    and compat: "compatible requestMagic wire_rename_modes h bs2 = Some (action, mode, kind)"
    and r: "r = r0\<lparr>rename_action := action, rename_mode := mode, rename_object_kind := kind,
             rename_expected_destination := replaced, rename_security_baseline := baseline\<rparr>"
    and texts: "rename_texts_ok r" and valid: "valid_rename_request r = Inr ()"
    by (auto simp: decode_rename_request_def Let_def split: if_splits option.splits prod.splits sum.splits)
  note f = dec_rename_fields_Some [OF fields]
  from compat have h: "h = wire_header requestMagic (wire_operation_id h) action
      (enum_code wire_rename_modes mode) kind" and bs2: "bs2 = []"
    by (auto simp: compatible_iff)
  then have mode: "wire_mode h = enum_code wire_rename_modes mode"
    by (metis request_header.select_convs(5) wire_header_def)
  note g = dec_replacement_Some [OF replaced [unfolded mode]]
  from baseline have tail: "bs1 = append_string baseline" "string_fits baseline"
    by (auto simp: string_codec.dec_Some_iff bs2)
  have same: "enc_rename_fields r = enc_rename_fields r0"
    by (simp add: r enc_rename_fields_def)
  have "bytes = rename_payload r"
    using f(1) g(1) tail(1) h f(2) same by (simp add: rename_payload_def r)
  moreover have "rename_strings_fit r"
    using f(8) g(2) tail(2) by (simp add: rename_strings_fit_def r)
  ultimately show "encode_rename_request r = Inr bytes"
    using le by (simp add: encode_rename_request_def)
  show "rename_sendable r"
    using valid texts g(3) by (simp add: rename_sendable_def r)
qed

section \<open>Delete requests\<close>

definition enc_delete_fields :: "DeleteRequest \<Rightarrow> byte list" where
  "enc_delete_fields r =
     enc_stamp (delete_expected_source r) @ append_string (delete_source r) @
     append_string (source_revision_utf8 (delete_expected_source r)) @
     append_string (delete_source_parent_identity r) @ append_string (delete_guard_path r) @
     enc_snapshot (delete_expected_guard r) @ append_string (delete_guard_parent_identity r) @
     append_string (delete_security_baseline r)"

definition delete_request_payload :: "DeleteRequest \<Rightarrow> byte list" where
  "delete_request_payload r =
     enc_request_header (wire_header deleteRequestMagic (delete_operation_id r) (delete_action r)
       (enum_code wire_delete_modes (delete_mode r)) (delete_object_kind r)) @
     enc_delete_fields r"

definition delete_strings_fit :: "DeleteRequest \<Rightarrow> bool" where
  "delete_strings_fit r \<longleftrightarrow>
     list_all string_fits
       [delete_source r, source_revision_utf8 (delete_expected_source r),
        delete_source_parent_identity r, delete_guard_path r,
        source_revision_utf8 (delete_expected_guard r), delete_guard_parent_identity r,
        delete_security_baseline r]"

definition encode_delete_request :: "DeleteRequest \<Rightarrow> string + byte list" where
  "encode_delete_request r =
     (if \<not> delete_strings_fit r then Inl ''catalog protocol string is too large''
      else if kMaximumOperationPayloadBytes < length (delete_request_payload r) then
        Inl ''delete request exceeds the protocol limit''
      else Inr (delete_request_payload r))"

definition dec_delete_fields ::
  "byte list \<Rightarrow> ((request_header \<times> DeleteRequest) \<times> byte list) option"
where
  "dec_delete_fields bs = do {
     (h, bs) \<leftarrow> dec_request_header bs;
     ((size, modified), bs) \<leftarrow> dec_stamp bs;
     (source, bs) \<leftarrow> read_string bs;
     (revision, bs) \<leftarrow> read_string bs;
     (source_parent, bs) \<leftarrow> read_string bs;
     (guard, bs) \<leftarrow> read_string bs;
     (guarded_object, bs) \<leftarrow> dec_snapshot bs;
     (guard_parent, bs) \<leftarrow> read_string bs;
     (baseline, bs) \<leftarrow> read_string bs;
     Some ((h, \<lparr>delete_operation_id = wire_operation_id h, delete_action = Execute,
        delete_mode = Permanent_remote, delete_object_kind = Regular_file,
        delete_source = source,
        delete_expected_source = \<lparr>size_bytes = size, modified_unix_ns = modified,
          source_revision_utf8 = revision\<rparr>,
        delete_source_parent_identity = source_parent, delete_guard_path = guard,
        delete_expected_guard = guarded_object, delete_guard_parent_identity = guard_parent,
        delete_security_baseline = baseline\<rparr>), bs) }"

definition delete_texts_ok :: "DeleteRequest \<Rightarrow> bool" where
  "delete_texts_ok r \<longleftrightarrow>
     list_all valid_utf8_no_nul
       [delete_source r, source_revision_utf8 (delete_expected_source r),
        delete_source_parent_identity r, delete_guard_path r,
        source_revision_utf8 (delete_expected_guard r), delete_guard_parent_identity r]"

definition decode_delete_request :: "byte list \<Rightarrow> string + DeleteRequest" where
  "decode_delete_request payload =
     (if kMaximumOperationPayloadBytes < length payload then
        Inl ''delete request exceeds the protocol limit''
      else case dec_delete_fields payload of
        None \<Rightarrow> Inl ''delete request is truncated''
      | Some ((h, r), bs) \<Rightarrow>
        case compatible deleteRequestMagic wire_delete_modes h bs of
          None \<Rightarrow> Inl ''delete request is incompatible''
        | Some (action, mode, kind) \<Rightarrow>
            let r = r\<lparr>delete_action := action, delete_mode := mode, delete_object_kind := kind\<rparr> in
            if \<not> delete_texts_ok r then Inl ''delete request text is invalid UTF-8''
            else case valid_delete_request r of Inl detail \<Rightarrow> Inl detail | Inr _ \<Rightarrow> Inr r)"

lemma dec_delete_fields_enc:
  assumes "delete_strings_fit r"
  shows "dec_delete_fields (enc_request_header h @ enc_delete_fields r @ rest) =
     Some ((h, r\<lparr>delete_operation_id := wire_operation_id h, delete_action := Execute,
       delete_mode := Permanent_remote, delete_object_kind := Regular_file\<rparr>), rest)"
  using assms
  by (cases r) (simp add: dec_delete_fields_def enc_delete_fields_def header_codec.dec_enc field_decs
      snapshot_codec.dec_enc delete_strings_fit_def)

lemma dec_delete_fields_Some:
  assumes "dec_delete_fields bs = Some ((h, r), rest)"
  shows "bs = enc_request_header h @ enc_delete_fields r @ rest"
    "delete_operation_id r = wire_operation_id h" "delete_strings_fit r"
  using assms
  by (auto simp: dec_delete_fields_def enc_delete_fields_def bind_Some_iff header_codec.dec_Some_iff
      dec_stamp_def enc_stamp_def field_codecs snapshot_codec.dec_Some_iff delete_strings_fit_def)

lemma decode_encode_delete_request:
  assumes enc: "encode_delete_request r = Inr bytes"
    and valid: "valid_delete_request r = Inr ()" and texts: "delete_texts_ok r"
  shows "decode_delete_request bytes = Inr r"
proof -
  let ?h = "wire_header deleteRequestMagic (delete_operation_id r) (delete_action r)
       (enum_code wire_delete_modes (delete_mode r)) (delete_object_kind r)"
  from enc have fits: "delete_strings_fit r" and le: "length bytes \<le> kMaximumOperationPayloadBytes"
    and bytes: "bytes = enc_request_header ?h @ enc_delete_fields r @ []"
    by (auto simp: encode_delete_request_def delete_request_payload_def split: if_splits)
  have id: "wire_operation_id ?h = delete_operation_id r" by (simp add: wire_header_def)
  have fields: "compatible deleteRequestMagic wire_delete_modes ?h [] =
      Some (delete_action r, delete_mode r, delete_object_kind r)"
    by (simp add: compatible_iff) (simp add: wire_header_def)
  have "decode_delete_request (enc_request_header ?h @ enc_delete_fields r @ []) = Inr r"
    using le valid texts unfolding bytes
    by (simp only: decode_delete_request_def dec_delete_fields_enc [OF fits])
      (simp add: id fields Let_def)
  then show ?thesis by (simp add: bytes)
qed

lemma decode_delete_request_Inr:
  assumes "decode_delete_request bytes = Inr r"
  shows "encode_delete_request r = Inr bytes" "valid_delete_request r = Inr ()" "delete_texts_ok r"
proof -
  from assms obtain h r0 bs action mode kind where
    le: "length bytes \<le> kMaximumOperationPayloadBytes"
    and fields: "dec_delete_fields bytes = Some ((h, r0), bs)"
    and compat: "compatible deleteRequestMagic wire_delete_modes h bs = Some (action, mode, kind)"
    and r: "r = r0\<lparr>delete_action := action, delete_mode := mode, delete_object_kind := kind\<rparr>"
    and texts: "delete_texts_ok r" and valid: "valid_delete_request r = Inr ()"
    by (auto simp: decode_delete_request_def Let_def split: if_splits option.splits prod.splits sum.splits)
  note f = dec_delete_fields_Some [OF fields]
  from compat have h: "h = wire_header deleteRequestMagic (wire_operation_id h) action
      (enum_code wire_delete_modes mode) kind" and bs: "bs = []"
    by (auto simp: compatible_iff)
  have "enc_delete_fields r = enc_delete_fields r0" "delete_strings_fit r = delete_strings_fit r0"
    by (simp_all add: r enc_delete_fields_def delete_strings_fit_def)
  then show "encode_delete_request r = Inr bytes"
    using f h le by (simp add: encode_delete_request_def delete_request_payload_def bs) (simp add: r)
  show "valid_delete_request r = Inr ()" "delete_texts_ok r" by (fact valid texts)+
qed

section \<open>Directory requests\<close>

definition create_payload :: "CreateDirectoryRequest \<Rightarrow> byte list" where
  "create_payload r =
     append_integer createDirectoryRequestMagic @ append_integer kFileOperationProtocolVersion @
     append_integer (create_operation_id r) @
     append_integer (enum_code wire_actions (create_action r)) @
     append_integer (enum_code wire_create_modes (create_mode r)) @ append_integer (0 :: u16) @
     append_string (create_destination r) @ append_string (create_parent_revision r)"

definition encode_create_directory_request :: "CreateDirectoryRequest \<Rightarrow> string + byte list" where
  "encode_create_directory_request r =
     (if \<not> string_fits (create_destination r) \<or> \<not> string_fits (create_parent_revision r) then
        Inl ''catalog protocol string is too large''
      else if kMaximumOperationPayloadBytes < length (create_payload r) then
        Inl ''create-directory request exceeds the protocol limit''
      else Inr (create_payload r))"

type_synonym create_fields = "u32 \<times> u32 \<times> u64 \<times> u8 \<times> u8 \<times> u16 \<times> string \<times> string"

definition dec_create_fields :: "byte list \<Rightarrow> (create_fields \<times> byte list) option" where
  "dec_create_fields bs = do {
     (magic, bs) \<leftarrow> (read_integer bs :: (u32 \<times> byte list) option);
     (version, bs) \<leftarrow> (read_integer bs :: (u32 \<times> byte list) option);
     (operation_id, bs) \<leftarrow> (read_integer bs :: (u64 \<times> byte list) option);
     (action, bs) \<leftarrow> (read_integer bs :: (u8 \<times> byte list) option);
     (mode, bs) \<leftarrow> (read_integer bs :: (u8 \<times> byte list) option);
     (reserved, bs) \<leftarrow> (read_integer bs :: (u16 \<times> byte list) option);
     (destination, bs) \<leftarrow> read_string bs;
     (parent, bs) \<leftarrow> read_string bs;
     Some ((magic, version, operation_id, action, mode, reserved, destination, parent), bs) }"

definition decode_create_directory_request :: "byte list \<Rightarrow> string + CreateDirectoryRequest" where
  "decode_create_directory_request payload =
     (if kMaximumOperationPayloadBytes < length payload then
        Inl ''create-directory request exceeds the protocol limit''
      else case dec_create_fields payload of
        None \<Rightarrow> Inl ''create-directory request is truncated''
      | Some ((magic, version, operation_id, action, mode, reserved, destination, parent), bs) \<Rightarrow>
        case (enum_of wire_actions action, enum_of wire_create_modes mode) of
          (Some action, Some mode) \<Rightarrow>
            if magic \<noteq> createDirectoryRequestMagic \<or> version \<noteq> kFileOperationProtocolVersion \<or>
               reserved \<noteq> 0 \<or> bs \<noteq> [] then Inl ''create-directory request is incompatible''
            else if \<not> valid_utf8_no_nul destination \<or> \<not> valid_utf8_no_nul parent then
              Inl ''create-directory request text is invalid UTF-8''
            else let r = \<lparr>create_operation_id = operation_id, create_action = action,
                          create_mode = mode, create_destination = destination,
                          create_parent_revision = parent\<rparr> in
              (case valid_create_directory_request r of Inl detail \<Rightarrow> Inl detail | Inr _ \<Rightarrow> Inr r)
        | _ \<Rightarrow> Inl ''create-directory request is incompatible'')"

definition create_texts_ok :: "CreateDirectoryRequest \<Rightarrow> bool" where
  "create_texts_ok r \<longleftrightarrow>
     valid_utf8_no_nul (create_destination r) \<and> valid_utf8_no_nul (create_parent_revision r)"

lemma dec_create_fields_iff:
  "dec_create_fields bs = Some ((magic, version, operation_id, action, mode, reserved, destination,
      parent), rest) \<longleftrightarrow>
     string_fits destination \<and> string_fits parent \<and>
     bs = append_integer magic @ append_integer version @ append_integer operation_id @
       append_integer action @ append_integer mode @ append_integer reserved @
       append_string destination @ append_string parent @ rest"
  by (auto simp: dec_create_fields_def bind_Some_iff field_codecs)

lemma decode_encode_create:
  assumes enc: "encode_create_directory_request r = Inr bytes"
    and valid: "valid_create_directory_request r = Inr ()" and texts: "create_texts_ok r"
  shows "decode_create_directory_request bytes = Inr r"
proof -
  from enc have fields: "dec_create_fields bytes = Some ((createDirectoryRequestMagic,
      kFileOperationProtocolVersion, create_operation_id r, enum_code wire_actions (create_action r),
      enum_code wire_create_modes (create_mode r), 0, create_destination r,
      create_parent_revision r), [])"
    by (auto simp: dec_create_fields_iff encode_create_directory_request_def create_payload_def
        split: if_splits)
  from enc have "length bytes \<le> kMaximumOperationPayloadBytes"
    by (auto simp: encode_create_directory_request_def split: if_splits)
  with valid texts show ?thesis
    by (cases r) (simp add: decode_create_directory_request_def fields create_texts_ok_def Let_def)
qed

lemma decode_create_Inr:
  assumes "decode_create_directory_request bytes = Inr r"
  shows "encode_create_directory_request r = Inr bytes" "valid_create_directory_request r = Inr ()"
    "create_texts_ok r"
  using assms
  by (auto simp: decode_create_directory_request_def dec_create_fields_iff enum_of_iff Let_def
      encode_create_directory_request_def create_payload_def create_texts_ok_def
      split: if_splits option.splits prod.splits sum.splits)

section \<open>The kind of a request\<close>

datatype OperationRequestKind = Rename_kind | Permanent_delete_kind | Create_directory_kind

definition decode_operation_request_kind :: "byte list \<Rightarrow> string + OperationRequestKind" where
  "decode_operation_request_kind payload =
     (if kMaximumOperationPayloadBytes < length payload then
        Inl ''file operation request exceeds the protocol limit''
      else case do { (magic, bs) \<leftarrow> (read_integer payload :: (u32 \<times> byte list) option);
                     (version, bs) \<leftarrow> (read_integer bs :: (u32 \<times> byte list) option);
                     Some (magic, version) } of
        None \<Rightarrow> Inl ''file operation request is truncated''
      | Some (magic, version) \<Rightarrow>
          if version \<noteq> kFileOperationProtocolVersion then
            Inl ''file operation request version is incompatible''
          else if magic = requestMagic then Inr Rename_kind
          else if magic = deleteRequestMagic then Inr Permanent_delete_kind
          else if magic = createDirectoryRequestMagic then Inr Create_directory_kind
          else Inl ''file operation request kind is unknown'')"

lemma request_kind_of:
  assumes "length (append_integer magic @ append_integer kFileOperationProtocolVersion @ rest)
      \<le> kMaximumOperationPayloadBytes"
  shows "decode_operation_request_kind
      (append_integer magic @ append_integer kFileOperationProtocolVersion @ rest) =
     (if magic = requestMagic then Inr Rename_kind
      else if magic = deleteRequestMagic then Inr Permanent_delete_kind
      else if magic = createDirectoryRequestMagic then Inr Create_directory_kind
      else Inl ''file operation request kind is unknown'')"
  using assms by (simp add: decode_operation_request_kind_def u32_codec.dec_enc)

lemma encoded_request_kind:
  "encode_rename_request r = Inr bytes \<Longrightarrow> decode_operation_request_kind bytes = Inr Rename_kind"
  "encode_delete_request d = Inr bytes \<Longrightarrow> decode_operation_request_kind bytes = Inr Permanent_delete_kind"
  "encode_create_directory_request c = Inr bytes \<Longrightarrow>
     decode_operation_request_kind bytes = Inr Create_directory_kind"
  by (auto simp: encode_rename_request_def encode_delete_request_def
      encode_create_directory_request_def rename_payload_def delete_request_payload_def
      create_payload_def enc_request_header_def wire_header_def request_kind_of magic_defs
      split: if_splits)

section \<open>Results\<close>

text \<open>The flag byte holds the four observations and, in bits 4 and 5, the evidence.\<close>

definition flag_when :: "bool \<Rightarrow> u8 \<Rightarrow> u8" where
  "flag_when b flag = (if b then flag else 0)"

definition pack_flags :: "bool \<Rightarrow> bool \<Rightarrow> bool \<Rightarrow> bool \<Rightarrow> OperationEvidence \<Rightarrow> u8" where
  "pack_flags source destination destination_matches source_matches ev =
     flag_when source 0x01 OR flag_when destination 0x02 OR flag_when destination_matches 0x04 OR
     flag_when source_matches 0x08 OR flag_when (ev = Committed) 0x10 OR
     flag_when (ev = No_commit) 0x20 OR flag_when (ev = Conflicting) 0x30"

definition result_flags :: "OperationResult \<Rightarrow> u8" where
  "result_flags r = pack_flags (source_present r) (destination_present r)
     (destination_matches_source r) (source_matches_expected r) (evidence r)"

definition evidence_of_flags :: "u8 \<Rightarrow> OperationEvidence" where
  "evidence_of_flags flags =
     (let bits = flags AND 0x30 in
      if bits = 0x10 then Committed else if bits = 0x20 then No_commit
      else if bits = 0x30 then Conflicting else Evidence_none)"

lemma unpack_pack_flags:
  fixes source destination destination_matches source_matches ev
  defines "flags \<equiv> pack_flags source destination destination_matches source_matches ev"
  shows "flags AND 0xc0 = 0" "(flags AND 0x01 \<noteq> 0) = source" "(flags AND 0x02 \<noteq> 0) = destination"
    "(flags AND 0x04 \<noteq> 0) = destination_matches" "(flags AND 0x08 \<noteq> 0) = source_matches"
    "evidence_of_flags flags = ev"
  unfolding flags_def
  by (cases source; cases destination; cases destination_matches; cases source_matches; cases ev;
      simp add: pack_flags_def flag_when_def evidence_of_flags_def)+

lemma pack_unpack_flags:
  fixes flags :: u8
  assumes "flags AND 0xc0 = 0"
  shows "pack_flags (flags AND 0x01 \<noteq> 0) (flags AND 0x02 \<noteq> 0) (flags AND 0x04 \<noteq> 0)
     (flags AND 0x08 \<noteq> 0) (evidence_of_flags flags) = flags"
proof -
  have table: "list_all (\<lambda>f :: u8.
      pack_flags (f AND 0x01 \<noteq> 0) (f AND 0x02 \<noteq> 0) (f AND 0x04 \<noteq> 0) (f AND 0x08 \<noteq> 0)
        (evidence_of_flags f) = f) (map word_of_nat [0..<64])"
    by code_simp
  have "(0xc0 OR 0x3f :: u8) = - 1" by code_simp
  then have "flags = flags AND (0xc0 OR 0x3f)" by (simp only: and.right_neutral)
  also have "\<dots> = flags AND 0x3f" by (simp only: bit.conj_disj_distrib assms or.left_neutral)
  also have "\<dots> = take_bit 6 flags" by (simp add: take_bit_eq_mask mask_numeral)
  finally have "unat flags = take_bit 6 (unat flags)" by (metis unsigned_take_bit_eq)
  then have "unat flags < 64" using take_bit_nat_less_exp [of 6 "unat flags"] by simp
  then have "flags \<in> set (map word_of_nat [0..<64])"
    by (auto intro: image_eqI [where x = "unat flags"])
  with table show ?thesis by (auto simp: list_all_iff)
qed

definition result_payload :: "OperationResult \<Rightarrow> byte list" where
  "result_payload r =
     append_integer resultMagic @ append_integer kFileOperationProtocolVersion @
     append_integer (result_operation_id r) @ append_integer (enum_code wire_statuses (status r)) @
     append_integer (result_flags r) @ append_integer (0 :: u16) @
     append_integer (platform_code r) @ enc_snapshot (confirmed_snapshot r) @
     append_string (detail_utf8 r)"

definition encode_operation_result :: "OperationResult \<Rightarrow> string + byte list" where
  "encode_operation_result r =
     (if \<not> string_fits (source_revision_utf8 (confirmed_snapshot r)) \<or>
         \<not> string_fits (detail_utf8 r) then Inl ''catalog protocol string is too large''
      else if kMaximumOperationPayloadBytes < length (result_payload r) then
        Inl ''file operation result exceeds the protocol limit''
      else Inr (result_payload r))"

type_synonym result_fields = "u32 \<times> u32 \<times> u64 \<times> u8 \<times> u8 \<times> u16 \<times> i64 \<times> SourceSnapshot \<times> string"

definition dec_result_fields :: "byte list \<Rightarrow> (result_fields \<times> byte list) option" where
  "dec_result_fields bs = do {
     (magic, bs) \<leftarrow> (read_integer bs :: (u32 \<times> byte list) option);
     (version, bs) \<leftarrow> (read_integer bs :: (u32 \<times> byte list) option);
     (operation_id, bs) \<leftarrow> (read_integer bs :: (u64 \<times> byte list) option);
     (code, bs) \<leftarrow> (read_integer bs :: (u8 \<times> byte list) option);
     (flags, bs) \<leftarrow> (read_integer bs :: (u8 \<times> byte list) option);
     (reserved, bs) \<leftarrow> (read_integer bs :: (u16 \<times> byte list) option);
     (platform, bs) \<leftarrow> (read_integer bs :: (i64 \<times> byte list) option);
     (confirmed, bs) \<leftarrow> dec_snapshot bs;
     (detail, bs) \<leftarrow> read_string bs;
     Some ((magic, version, operation_id, code, flags, reserved, platform, confirmed, detail), bs) }"

definition result_texts_ok :: "OperationResult \<Rightarrow> bool" where
  "result_texts_ok r \<longleftrightarrow>
     valid_utf8_no_nul (source_revision_utf8 (confirmed_snapshot r)) \<and>
     valid_utf8_no_nul (detail_utf8 r)"

definition decode_operation_result :: "byte list \<Rightarrow> string + OperationResult" where
  "decode_operation_result payload =
     (if kMaximumOperationPayloadBytes < length payload then
        Inl ''file operation result exceeds the protocol limit''
      else case dec_result_fields payload of
        None \<Rightarrow> Inl ''file operation result is truncated''
      | Some ((magic, version, operation_id, code, flags, reserved, platform, confirmed, detail), bs) \<Rightarrow>
        case enum_of wire_statuses code of
          None \<Rightarrow> Inl ''file operation result is invalid''
        | Some st \<Rightarrow>
            if magic \<noteq> resultMagic \<or> version \<noteq> kFileOperationProtocolVersion \<or> reserved \<noteq> 0 \<or>
               flags AND 0xc0 \<noteq> 0 \<or> bs \<noteq> [] then Inl ''file operation result is invalid''
            else let r = \<lparr>result_operation_id = operation_id, status = st,
                          evidence = evidence_of_flags flags, platform_code = platform,
                          source_present = (flags AND 0x01 \<noteq> 0),
                          source_matches_expected = (flags AND 0x08 \<noteq> 0),
                          destination_present = (flags AND 0x02 \<noteq> 0),
                          destination_matches_source = (flags AND 0x04 \<noteq> 0),
                          confirmed_snapshot = confirmed, detail_utf8 = detail\<rparr> in
              if result_texts_ok r then Inr r
              else Inl ''file operation result text is invalid UTF-8'')"

lemma dec_result_fields_iff:
  "dec_result_fields bs = Some ((magic, version, operation_id, code, flags, reserved, platform,
      confirmed, detail), rest) \<longleftrightarrow>
     string_fits (source_revision_utf8 confirmed) \<and> string_fits detail \<and>
     bs = append_integer magic @ append_integer version @ append_integer operation_id @
       append_integer code @ append_integer flags @ append_integer reserved @
       append_integer platform @ enc_snapshot confirmed @ append_string detail @ rest"
  by (auto simp: dec_result_fields_def bind_Some_iff field_codecs snapshot_codec.dec_Some_iff)

lemma decode_encoded_result:
  assumes "encode_operation_result r = Inr bytes"
  shows "decode_operation_result bytes =
    (if result_texts_ok r then Inr r else Inl ''file operation result text is invalid UTF-8'')"
proof -
  from assms have fields: "dec_result_fields bytes = Some ((resultMagic,
      kFileOperationProtocolVersion, result_operation_id r, enum_code wire_statuses (status r),
      result_flags r, 0, platform_code r, confirmed_snapshot r, detail_utf8 r), [])"
    by (auto simp: dec_result_fields_iff encode_operation_result_def result_payload_def
        split: if_splits)
  from assms have "length bytes \<le> kMaximumOperationPayloadBytes"
    by (auto simp: encode_operation_result_def split: if_splits)
  then show ?thesis
    by (cases r) (simp add: decode_operation_result_def fields result_flags_def unpack_pack_flags
        Let_def)
qed

lemma decode_result_Inr:
  assumes "decode_operation_result bytes = Inr r"
  shows "encode_operation_result r = Inr bytes" "result_texts_ok r"
  using assms
  by (auto simp: decode_operation_result_def dec_result_fields_iff enum_of_iff Let_def
      encode_operation_result_def result_payload_def result_flags_def pack_unpack_flags
      split: if_splits option.splits prod.splits)

end
