(* ===== verification/Helper_Pipe.thy ===== *)
theory Helper_Pipe
  imports Operation_Protocol
begin

text \<open>
  The pipe to the helper process: \<open>frame_payload\<close>, \<open>decode_frame_size\<close>, \<open>read_stream_frame\<close> of
  \<open>src/Source/src/platform/catalog_protocol.cpp\<close> and the transfer loops of
  \<open>platform/posix/catalog_process.cpp\<close>. A loop that is interrupted again and again need not end, so
  it is a partial function.
\<close>

section \<open>Frames\<close>

definition kCatalogMaximumFrameBytes :: nat where
  "kCatalogMaximumFrameBytes = 32 * 1024 * 1024"

definition kCatalogFrameHeaderBytes :: nat where
  "kCatalogFrameHeaderBytes = 4"

definition frame_payload :: "byte list \<Rightarrow> string + byte list" where
  "frame_payload payload =
     (if kCatalogMaximumFrameBytes < length payload \<or> 2 ^ 32 - 1 < length payload then
        Inl ''catalog protocol frame is too large''
      else Inr (append_integer (word_of_nat (length payload) :: u32) @ payload))"

definition decode_frame_size :: "byte list \<Rightarrow> string + nat" where
  "decode_frame_size header =
     (case read_integer header :: (u32 \<times> byte list) option of
        None \<Rightarrow> Inl ''catalog frame header is invalid''
      | Some (encoded, _) \<Rightarrow>
          if length header \<noteq> kCatalogFrameHeaderBytes then Inl ''catalog frame header is invalid''
          else if kCatalogMaximumFrameBytes < unat encoded then
            Inl ''catalog frame exceeds the size limit''
          else Inr (unat encoded))"

text \<open>The helper's end: the bytes that arrive on its standard input until that is closed.\<close>

definition read_stream_frame :: "nat \<Rightarrow> byte list \<Rightarrow> string + byte list" where
  "read_stream_frame maximum_bytes input =
     (if length input < kCatalogFrameHeaderBytes then
        Inl ''catalog frame header could not be read''
      else case decode_frame_size (take kCatalogFrameHeaderBytes input) of
        Inl e \<Rightarrow> Inl e
      | Inr n \<Rightarrow>
          let rest = drop kCatalogFrameHeaderBytes input in
          if maximum_bytes < n then Inl ''protocol frame exceeds the caller size limit''
          else if length rest < n then Inl ''catalog frame payload could not be read''
          else Inr (take n rest))"

lemma read_u32_header:
  "read_integer (append_integer (n :: u32) :: byte list) = Some (n, [])"
  using u32_codec.dec_enc [of n "[]"] by simp

lemma unat_frame_length:
  "length payload \<le> kCatalogMaximumFrameBytes \<Longrightarrow>
     unat (word_of_nat (length payload) :: u32) = length payload"
  by (simp add: unat_of_nat take_bit_eq_mod kCatalogMaximumFrameBytes_def)

lemma frame_header_decoded:
  assumes "length payload \<le> kCatalogMaximumFrameBytes"
  shows "decode_frame_size (append_integer (word_of_nat (length payload) :: u32)) =
    Inr (length payload)"
  using unat_frame_length [OF assms] assms
  by (simp add: decode_frame_size_def read_u32_header kCatalogFrameHeaderBytes_def)

lemma read_stream_frame_payload:
  assumes "frame_payload payload = Inr frame" "length payload \<le> maximum_bytes"
  shows "read_stream_frame maximum_bytes (frame @ later) = Inr payload"
  using assms frame_header_decoded [of payload]
  by (auto simp: frame_payload_def read_stream_frame_def kCatalogFrameHeaderBytes_def Let_def
      split: if_splits)

section \<open>The loops over partial transfers\<close>

text \<open>What one \<open>send\<close> or \<open>read\<close> does: it moves up to so many bytes, is interrupted by a signal, or
  fails. Transferring none is the end of the stream.\<close>

datatype io_step = Transferred nat | Interrupted | Io_failed errno

partial_function (option) send_all ::
  "(nat \<Rightarrow> io_step) \<Rightarrow> nat \<Rightarrow> byte list \<Rightarrow> byte list \<Rightarrow> (byte list \<times> bool) option"
where
  "send_all io t sent rest =
     (if rest = [] then Some (sent, True)
      else case io t of
        Interrupted \<Rightarrow> send_all io (Suc t) sent rest
      | Io_failed e \<Rightarrow> Some (sent, False)
      | Transferred n \<Rightarrow>
          if n = 0 then Some (sent, False)
          else send_all io (Suc t) (sent @ take n rest) (drop n rest))"

partial_function (option) read_exact ::
  "(nat \<Rightarrow> io_step) \<Rightarrow> nat \<Rightarrow> byte list \<Rightarrow> nat \<Rightarrow> byte list \<Rightarrow> (byte list option \<times> nat \<times> byte list) option"
where
  "read_exact io t got want incoming =
     (if want = 0 then Some (Some got, t, incoming)
      else case io t of
        Interrupted \<Rightarrow> read_exact io (Suc t) got want incoming
      | Io_failed e \<Rightarrow> Some (None, Suc t, incoming)
      | Transferred n \<Rightarrow>
          let k = min n (min want (length incoming)) in
          if k = 0 then Some (None, Suc t, incoming)
          else read_exact io (Suc t) (got @ take k incoming) (want - k) (drop k incoming))"

text \<open>\<open>read_frame\<close>: \<^const>\<open>None\<close> inside is the failure, with whatever error text.\<close>

definition read_frame ::
  "(nat \<Rightarrow> io_step) \<Rightarrow> nat \<Rightarrow> byte list \<Rightarrow> byte list option option"
where
  "read_frame io maximum_bytes incoming =
     (case read_exact io 0 [] kCatalogFrameHeaderBytes incoming of
        None \<Rightarrow> None
      | Some (None, _) \<Rightarrow> Some None
      | Some (Some header, t, incoming) \<Rightarrow>
          (case decode_frame_size header of
             Inl _ \<Rightarrow> Some None
           | Inr n \<Rightarrow>
               if maximum_bytes < n then Some None
               else case read_exact io t [] n incoming of
                 None \<Rightarrow> None
               | Some (payload, _) \<Rightarrow> Some payload))"

definition write_frame :: "(nat \<Rightarrow> io_step) \<Rightarrow> byte list \<Rightarrow> (byte list \<times> bool) option" where
  "write_frame io payload =
     (case frame_payload payload of
        Inl _ \<Rightarrow> Some ([], False)
      | Inr frame \<Rightarrow> send_all io 0 [] frame)"

text \<open>Signals may interrupt a transfer, but not for ever.\<close>

definition interrupted_finitely :: "(nat \<Rightarrow> io_step) \<Rightarrow> bool" where
  "interrupted_finitely io \<longleftrightarrow> (\<forall>t. \<exists>t'\<ge>t. io t' \<noteq> Interrupted)"

lemma skip_interrupts:
  assumes "\<And>s. t \<le> s \<Longrightarrow> s < t' \<Longrightarrow> io s = Interrupted" "t \<le> t'"
  shows "rest \<noteq> [] \<Longrightarrow> send_all io t sent rest = send_all io t' sent rest"
    "want \<noteq> 0 \<Longrightarrow> read_exact io t got want incoming = read_exact io t' got want incoming"
  using assms(2,1)
proof (induction rule: inc_induct)
  case (step s)
  { case 1
    with step show ?case by (subst send_all.simps) simp }
  { case 2
    with step show ?case by (subst read_exact.simps) simp }
qed simp_all

lemma first_step:
  assumes "interrupted_finitely io"
  obtains t' where "t \<le> t'" "\<And>s. t \<le> s \<Longrightarrow> s < t' \<Longrightarrow> io s = Interrupted" "io t' \<noteq> Interrupted"
proof -
  let ?P = "\<lambda>s. t \<le> s \<and> io s \<noteq> Interrupted"
  from assms have "\<exists>s. ?P s" by (auto simp: interrupted_finitely_def)
  then have "?P (Least ?P)" by (rule LeastI_ex)
  moreover have "io s = Interrupted" if "t \<le> s" "s < Least ?P" for s
    using not_less_Least [OF that(2)] that(1) by blast
  ultimately show thesis by (intro that [of "Least ?P"]) auto
qed

lemma send_all_returns:
  assumes "interrupted_finitely io"
  shows "\<exists>out ok. send_all io t sent rest = Some (out, ok)"
proof (induction rest arbitrary: t sent rule: length_induct)
  case (1 rest)
  obtain t' where t': "t \<le> t'" "\<And>s. t \<le> s \<Longrightarrow> s < t' \<Longrightarrow> io s = Interrupted" "io t' \<noteq> Interrupted"
    using first_step [OF assms] by blast
  show ?case
  proof (cases "rest = []")
    case True
    then show ?thesis by (subst send_all.simps) auto
  next
    case False
    then have "send_all io t sent rest = send_all io t' sent rest"
      using skip_interrupts(1) [of t t' io, OF t'(2) t'(1)] by blast
    moreover have "\<exists>out ok. send_all io t' sent rest = Some (out, ok)"
      using t'(3) False 1 by (subst send_all.simps) (auto split: io_step.splits)
    ultimately show ?thesis by simp
  qed
qed

lemma read_exact_returns:
  assumes "interrupted_finitely io"
  shows "\<exists>x t' rest. read_exact io t got want incoming = Some (x, t', rest)"
proof (induction want arbitrary: t got incoming rule: less_induct)
  case (less want)
  obtain t' where t': "t \<le> t'" "\<And>s. t \<le> s \<Longrightarrow> s < t' \<Longrightarrow> io s = Interrupted" "io t' \<noteq> Interrupted"
    using first_step [OF assms] by blast
  show ?case
  proof (cases "want = 0")
    case True
    then show ?thesis by (subst read_exact.simps) simp
  next
    case False
    then have "read_exact io t got want incoming = read_exact io t' got want incoming"
      using skip_interrupts(2) [of t t' io, OF t'(2) t'(1)] by blast
    moreover have "\<exists>x t'' rest. read_exact io t' got want incoming = Some (x, t'', rest)"
      using t'(3) False less
      by (subst read_exact.simps) (auto simp: Let_def split: io_step.splits)
    ultimately show ?thesis by simp
  qed
qed

text \<open>Without an end to the interruptions the loops do not return; when they do, no byte is lost,
  doubled or reordered.\<close>

lemma send_all_stuck:
  assumes "send_all io t sent rest = Some y"
  shows "rest \<noteq> [] \<longrightarrow> (\<exists>s\<ge>t. io s \<noteq> Interrupted)"
  using assms
proof (rule send_all.raw_induct [rotated])
  fix self io t and sent rest :: "byte list" and y :: "byte list \<times> bool"
  assume IH: "\<And>io t sent rest y. self io t sent rest = Some y \<Longrightarrow>
      rest \<noteq> [] \<longrightarrow> (\<exists>s\<ge>t. io s \<noteq> Interrupted)"
    and body: "(if rest = [] then Some (sent, True)
       else case io t of
         Transferred n \<Rightarrow> if n = 0 then Some (sent, False) else self io (Suc t) (sent @ take n rest) (drop n rest)
       | Interrupted \<Rightarrow> self io (Suc t) sent rest | Io_failed e \<Rightarrow> Some (sent, False)) = Some y"
  show "rest \<noteq> [] \<longrightarrow> (\<exists>s\<ge>t. io s \<noteq> Interrupted)"
  proof (cases "rest = [] \<or> io t \<noteq> Interrupted")
    case False
    with body have "self io (Suc t) sent rest = Some y" by simp
    from IH [OF this] show ?thesis using Suc_leD by blast
  qed auto
qed

lemma send_all_result:
  assumes "send_all io t sent rest = Some y"
  shows "(\<exists>k. fst y = sent @ take k rest) \<and> (snd y \<longrightarrow> fst y = sent @ rest)"
  using assms
proof (rule send_all.raw_induct [rotated])
  fix self io t and sent rest :: "byte list" and y :: "byte list \<times> bool"
  assume IH: "\<And>io t sent rest y. self io t sent rest = Some y \<Longrightarrow>
      (\<exists>k. fst y = sent @ take k rest) \<and> (snd y \<longrightarrow> fst y = sent @ rest)"
    and body: "(if rest = [] then Some (sent, True)
       else case io t of
         Transferred n \<Rightarrow> if n = 0 then Some (sent, False) else self io (Suc t) (sent @ take n rest) (drop n rest)
       | Interrupted \<Rightarrow> self io (Suc t) sent rest | Io_failed e \<Rightarrow> Some (sent, False)) = Some y"
  have none: "\<exists>k. sent = sent @ take k zs" for zs :: "byte list" by (intro exI [of _ 0]) simp
  show "(\<exists>k. fst y = sent @ take k rest) \<and> (snd y \<longrightarrow> fst y = sent @ rest)"
  proof (cases "io t")
    case (Transferred n)
    show ?thesis
    proof (cases "rest = [] \<or> n = 0")
      case True
      with body Transferred none show ?thesis by (auto split: if_splits)
    next
      case False
      with body Transferred have "self io (Suc t) (sent @ take n rest) (drop n rest) = Some y" by simp
      from IH [OF this] obtain k where "fst y = sent @ take n rest @ take k (drop n rest)"
        and "snd y \<longrightarrow> fst y = sent @ rest" by auto
      then show ?thesis by (auto simp: take_add [symmetric] intro: exI [of _ "n + k"])
    qed
  qed (use body none IH in \<open>auto split: if_splits\<close>)
qed

lemma read_exact_result:
  assumes "read_exact io t got want incoming = Some y"
  shows "\<forall>bs. fst y = Some bs \<longrightarrow>
     want \<le> length incoming \<and> bs = got @ take want incoming \<and> snd (snd y) = drop want incoming"
  using assms
proof (rule read_exact.raw_induct [rotated])
  fix self io t and got :: "byte list" and want and incoming :: "byte list"
    and y :: "byte list option \<times> nat \<times> byte list"
  assume IH: "\<And>io t got want incoming y. self io t got want incoming = Some y \<Longrightarrow>
      \<forall>bs. fst y = Some bs \<longrightarrow>
        want \<le> length incoming \<and> bs = got @ take want incoming \<and> snd (snd y) = drop want incoming"
    and body: "(if want = 0 then Some (Some got, t, incoming)
       else case io t of
         Transferred n \<Rightarrow> let k = min n (min want (length incoming)) in
           if k = 0 then Some (None, Suc t, incoming)
           else self io (Suc t) (got @ take k incoming) (want - k) (drop k incoming)
       | Interrupted \<Rightarrow> self io (Suc t) got want incoming
       | Io_failed e \<Rightarrow> Some (None, Suc t, incoming)) = Some y"
  show "\<forall>bs. fst y = Some bs \<longrightarrow>
      want \<le> length incoming \<and> bs = got @ take want incoming \<and> snd (snd y) = drop want incoming"
  proof (cases "io t")
    case (Transferred n)
    obtain k where k: "min n (min want (length incoming)) = k" by blast
    have le: "k \<le> want" "k \<le> length incoming" using k by auto
    show ?thesis
    proof (cases "want = 0 \<or> k = 0")
      case True
      with body show ?thesis by (auto simp: Let_def k Transferred split: if_splits)
    next
      case False
      with body have "self io (Suc t) (got @ take k incoming) (want - k) (drop k incoming) = Some y"
        by (simp add: Let_def k Transferred split: if_splits)
      from IH [OF this] le show ?thesis
        by (auto simp: take_add [symmetric] le_diff_conv2)
    qed
  qed (use body IH in \<open>auto split: if_splits\<close>)
qed

section \<open>A frame crosses the pipe\<close>

text \<open>A pipe that works: signals may interrupt, pieces may be small, but nothing fails.\<close>

definition working :: "(nat \<Rightarrow> io_step) \<Rightarrow> bool" where
  "working io \<longleftrightarrow> interrupted_finitely io \<and> (\<forall>t. io t = Interrupted \<or> (\<exists>n>0. io t = Transferred n))"

lemma send_all_working:
  assumes "working io"
  shows "send_all io t sent rest = Some (sent @ rest, True)"
proof (induction rest arbitrary: t sent rule: length_induct)
  case (1 rest)
  from assms have fin: "interrupted_finitely io" by (simp add: working_def)
  obtain t' where t': "t \<le> t'" "\<And>s. t \<le> s \<Longrightarrow> s < t' \<Longrightarrow> io s = Interrupted" "io t' \<noteq> Interrupted"
    using first_step [OF fin] by blast
  with assms obtain n where n: "io t' = Transferred n" "0 < n" by (auto simp: working_def)
  show ?case
  proof (cases "rest = []")
    case True
    then show ?thesis by (subst send_all.simps) simp
  next
    case False
    have "send_all io t' sent rest = Some (sent @ rest, True)"
      using n False 1 by (subst send_all.simps) simp
    with skip_interrupts(1) [of t t' io, OF t'(2) t'(1)] False show ?thesis by simp
  qed
qed

lemma read_exact_working:
  assumes "working io" "want \<le> length incoming"
  shows "\<exists>t'. read_exact io t got want incoming = Some (Some (got @ take want incoming), t', drop want incoming)"
  using assms(2)
proof (induction want arbitrary: t got incoming rule: less_induct)
  case (less want)
  from assms have fin: "interrupted_finitely io" by (simp add: working_def)
  obtain t' where t': "t \<le> t'" "\<And>s. t \<le> s \<Longrightarrow> s < t' \<Longrightarrow> io s = Interrupted" "io t' \<noteq> Interrupted"
    using first_step [OF fin] by blast
  with assms obtain n where n: "io t' = Transferred n" "0 < n" by (auto simp: working_def)
  show ?case
  proof (cases "want = 0")
    case True
    then show ?thesis by (subst read_exact.simps) simp
  next
    case False
    obtain k where at: "min n (min want (length incoming)) = k" by blast
    have k: "0 < k" "k + (want - k) = want"
      using at less.prems False n(2) by auto
    have unfold: "read_exact io t' got want incoming =
        read_exact io (Suc t') (got @ take k incoming) (want - k) (drop k incoming)"
      using False n(1) k(1) by (subst read_exact.simps) (simp add: Let_def at)
    obtain u where "read_exact io (Suc t') (got @ take k incoming) (want - k) (drop k incoming) =
        Some (Some ((got @ take k incoming) @ take (want - k) (drop k incoming)), u,
          drop (want - k) (drop k incoming))"
      using less.IH [of "want - k" "drop k incoming" "Suc t'" "got @ take k incoming"] less.prems False k
      by (auto simp: diff_le_mono)
    moreover have "take k incoming @ take (want - k) (drop k incoming) = take want incoming"
      by (metis k(2) take_add)
    moreover have "drop (want - k) (drop k incoming) = drop want incoming"
      using k(2) by (simp add: add.commute)
    ultimately show ?thesis
      using skip_interrupts(2) [of t t' io, OF t'(2) t'(1)] False unfold by auto
  qed
qed

lemma frame_crosses:
  assumes "working wio" "working rio" "length payload \<le> maximum_bytes"
    "length payload \<le> kCatalogMaximumFrameBytes"
  shows "\<exists>frame. write_frame wio payload = Some (frame, True) \<and>
    read_frame rio maximum_bytes (frame @ later) = Some (Some payload)"
proof -
  let ?h = "append_integer (word_of_nat (length payload) :: u32)"
  have frame: "frame_payload payload = Inr (?h @ payload)"
    using assms(4) by (simp add: frame_payload_def kCatalogMaximumFrameBytes_def)
  obtain t where t: "read_exact rio 0 [] 4 (?h @ payload @ later) = Some (Some ?h, t, payload @ later)"
    using read_exact_working [OF assms(2), of 4 "?h @ payload @ later" 0 "[]"] by auto
  obtain t' where t': "read_exact rio t [] (length payload) (payload @ later) =
      Some (Some payload, t', later)"
    using read_exact_working [OF assms(2), of "length payload" "payload @ later" t "[]"] by auto
  show ?thesis
    using t t' assms(3,4)
    by (auto simp: write_frame_def frame send_all_working [OF assms(1)] read_frame_def
        kCatalogFrameHeaderBytes_def frame_header_decoded)
qed

text \<open>However the transfers end, the reader gets the payload that was written or none.\<close>

lemma frame_never_torn:
  assumes "write_frame wio payload = Some (out, ok)" "read_frame rio maximum_bytes out = Some (Some p)"
  shows "p = payload"
proof -
  let ?h = "append_integer (word_of_nat (length payload) :: u32)"
  show ?thesis
  proof (cases "frame_payload payload")
    case (Inl e)
    with assms read_exact_result [of rio 0 "[]" 4 "[]"] show ?thesis
      by (auto simp: write_frame_def read_frame_def kCatalogFrameHeaderBytes_def split: option.splits)
  next
    case (Inr frame)
    then have frame: "frame = ?h @ payload" and le: "length payload \<le> kCatalogMaximumFrameBytes"
      by (auto simp: frame_payload_def split: if_splits)
    from assms(1) Inr obtain k where out: "out = take k frame"
      using send_all_result [of wio 0 "[]" frame "(out, ok)"] by (auto simp: write_frame_def)
    from assms(2) obtain header t rest n x where
      header: "read_exact rio 0 [] 4 out = Some (Some header, t, rest)"
      and n: "decode_frame_size header = Inr n"
      and body: "read_exact rio t [] n rest = Some (Some p, x)"
      by (auto simp: read_frame_def kCatalogFrameHeaderBytes_def split: option.splits sum.splits if_splits)
    note r1 = read_exact_result [OF header, simplified] and r2 = read_exact_result [OF body, simplified]
    have "4 \<le> k" using r1 by (simp add: out)
    then have "header = ?h" using r1 by (simp add: out frame)
    with n frame_header_decoded [OF le] have "n = length payload" by simp
    with r1 r2 show ?thesis
      by (auto simp: out frame min_def split: if_splits)
  qed
qed

end
