(* ===== verification/Result_Labels.thy ===== *)
theory Result_Labels
  imports Directory_Executor
begin

text \<open>
  Every result carries the number of the operation it answers, whichever branch of an executor it
  comes from: the client drops a result with another number.
\<close>

definition labelled :: "u64 \<Rightarrow> OperationResult \<times> 'b \<Rightarrow> bool" where
  "labelled op m \<longleftrightarrow> result_operation_id (fst m) = op"

definition labelled_check :: "u64 \<Rightarrow> OperationResult option \<times> 'b \<Rightarrow> bool" where
  "labelled_check op m \<longleftrightarrow> (\<forall>res. fst m = Some res \<longrightarrow> result_operation_id res = op)"

definition labelled_open :: "u64 \<Rightarrow> (OperationResult + 'a) \<times> 'b \<Rightarrow> bool" where
  "labelled_open op m \<longleftrightarrow> (\<forall>res. fst m = Inl res \<longrightarrow> result_operation_id res = op)"

lemma label_simps [simp]:
  "result_operation_id (failure v op e d m) = op" "result_operation_id (changed_result op d) = op"
  "result_operation_id (committed_result op s b c d) = op"
  "result_operation_id (plain_result op s ev d) = op"
  "result_operation_id (refuses_source r c d) = delete_operation_id r"
  "result_operation_id (open_failure oe x) = result_operation_id x"
  by (simp_all add: failure_def changed_result_def committed_result_def plain_result_def Let_def
      refuses_source_def open_failure_def)

lemma labelled_pair [simp]:
  "labelled op (r, v) \<longleftrightarrow> result_operation_id r = op"
  "labelled_check op (Some r, v) \<longleftrightarrow> result_operation_id r = op"
  "labelled_check op (None, v)"
  "labelled_open op (Inl r, v) \<longleftrightarrow> result_operation_id r = op"
  "labelled_open op (Inr a, v)"
  "labelled op (fails_with op d e vol)"
  "labelled_check op (check_match op s s' m)"
  by (auto simp: labelled_def labelled_check_def labelled_open_def fails_with_def check_match_def
      split: prod.splits match_state.splits)

lemma labelled_attempt:
  "(\<And>e v. labelled op (handler e v)) \<Longrightarrow> (\<And>a v. labelled op (rest a v)) \<Longrightarrow>
     labelled op (attempt m handler rest)"
  "(\<And>e v. labelled_check op (handler' e v)) \<Longrightarrow> (\<And>a v. labelled_check op (rest' a v)) \<Longrightarrow>
     labelled_check op (attempt m handler' rest')"
  "(\<And>e v. labelled_open op (handler'' e v)) \<Longrightarrow> (\<And>a v. labelled_open op (rest'' a v)) \<Longrightarrow>
     labelled_open op (attempt m handler'' rest'')"
  by (auto simp: attempt_def split: prod.splits sum.splits)

lemma labelled_guarded:
  "labelled_check op m \<Longrightarrow> (\<And>v. labelled op (rest v)) \<Longrightarrow> labelled op (guarded m rest)"
  by (auto simp: guarded_def labelled_check_def split: prod.splits option.splits)

lemma labelled_opened:
  "labelled_open op m \<Longrightarrow> (\<And>a v. labelled op (rest a v)) \<Longrightarrow>
     labelled op (case m of (Inl r, v) \<Rightarrow> (r, v) | (Inr a, v) \<Rightarrow> rest a v)"
  by (auto simp: labelled_open_def split: prod.splits sum.splits)

lemma labelled_checks [simp]:
  "labelled_check (rename_operation_id r) (verify_rename_destination_anchor r v)"
  "labelled_check (rename_operation_id r) (check_parent_identities r a b v)"
  "labelled_check (rename_operation_id r) (check_source_object r n v)"
  "labelled_check (rename_operation_id r) (check_existing r n n' v)"
  "labelled_check (rename_operation_id r) (reprove_content r n n' d v)"
  "labelled_open (rename_operation_id r) (prove_content r n v)"
  by (auto simp: verify_rename_destination_anchor_def check_parent_identities_def check_source_object_def
      check_existing_def reprove_content_def prove_content_def Let_def intro!: labelled_attempt
      split: prod.splits match_state.splits)

lemma labelled_confirm [simp]: "labelled (rename_operation_id r) (confirm_rename r n b d v)"
  unfolding confirm_rename_def Let_def
  by (auto intro!: labelled_attempt labelled_guarded split: prod.splits option.splits)

lemma labelled_refused [simp]: "labelled (rename_operation_id r) (refused_rename r n a b d e v)"
  unfolding refused_rename_def Let_def
  by (auto intro!: labelled_attempt labelled_guarded split: prod.splits sum.splits)

lemma labelled_rename [simp]: "labelled (rename_operation_id r) (rename_no_replace r v)"
  unfolding rename_no_replace_def confirm_names_def commit_rename_def Let_def
  by (auto intro!: labelled_attempt labelled_guarded labelled_opened split: option.splits)

lemma judge_flags_label:
  "result_operation_id (case_sum id id (judge_flags r s d a b c e)) = rename_operation_id r"
  by (simp add: judge_flags_def Let_def if_distrib [of "case_sum id id"]
      if_distrib [of result_operation_id] cong: if_cong)

lemma judge_rename_label:
  "judge_rename r s d = Inl x \<Longrightarrow> result_operation_id x = rename_operation_id r"
  "judge_rename r s d = Inr x \<Longrightarrow> result_operation_id x = rename_operation_id r"
  using judge_flags_label [of r s d] unfolding judge_rename_def by (metis sum.case id_apply)+

lemma labelled_reconcile [simp]: "labelled (rename_operation_id r) (reconcile_rename r v)"
proof -
  have judged: "labelled (rename_operation_id r) (case judge_rename r s d of
      Inl result \<Rightarrow> (result, v)
    | Inr result \<Rightarrow> guarded (verify_rename_destination_anchor r v) (\<lambda>v. (result, v)))" for s d v
  proof (cases "judge_rename r s d")
    case (Inl x)
    with judge_rename_label(1) [OF Inl] show ?thesis by simp
  next
    case (Inr x)
    with judge_rename_label(2) [OF Inr] show ?thesis by (auto intro!: labelled_guarded)
  qed
  show ?thesis
  proof (cases "valid_rename_request r")
    case (Inr u)
    have "labelled (rename_operation_id r)
        (let (source, v) = observe_object (rename_source r) (rename_expected_source r)
             (rename_object_kind r) v;
           (destination, v) = observe_object (rename_destination r) (rename_expected_source r)
             (rename_object_kind r) v
         in case judge_rename r source destination of
              Inl result \<Rightarrow> (result, v)
            | Inr result \<Rightarrow> guarded (verify_rename_destination_anchor r v) (\<lambda>v. (result, v)))" for v
      unfolding Let_def case_prod_unfold by (rule judged)
    then show ?thesis
      unfolding reconcile_rename_def Inr sum.case by (intro labelled_guarded labelled_checks(1))
  qed (simp add: reconcile_rename_def)
qed

lemma merge_label [simp]:
  "result_operation_id (merge_reconciliation a b) \<in> {result_operation_id a, result_operation_id b}"
  by (simp add: merge_reconciliation_def observe_presence_def)

lemma labelled_merge:
  "labelled op (a, v) \<Longrightarrow> labelled op (b, v') \<Longrightarrow> labelled op (merge_reconciliation a b, v')"
  using merge_label [of a b] by (auto simp: labelled_def)

lemma labelled_then [simp]: "labelled (rename_operation_id r) (rename_then_reconcile r v)"
proof -
  obtain a v1 b v2 where "rename_no_replace r v = (a, v1)" "reconcile_rename r v1 = (b, v2)" by fastforce
  with labelled_rename [of r v] labelled_reconcile [of r v1] labelled_merge [of "rename_operation_id r" a v1 b v2]
  show ?thesis by (simp add: rename_then_reconcile_def)
qed

lemma labelled_execute_rename [simp]: "labelled (rename_operation_id r) (execute_rename r v)"
proof -
  have again: "labelled (rename_operation_id r) (rename_then_reconcile (r\<lparr>rename_expected_source := s\<rparr>) v)"
    for s v
    using labelled_then [of "r\<lparr>rename_expected_source := s\<rparr>" v] by simp
  show ?thesis
    unfolding execute_rename_def Let_def by (simp add: again split: sum.split prod.split)
qed

lemma labelled_delete_checks [simp]:
  "labelled_check (delete_operation_id r) (check_delete_parent r a v)"
  "labelled_check (delete_operation_id r) (check_delete_source r n v)"
  "labelled_check (delete_operation_id r) (reprove_guard r g v)"
  "labelled_check (delete_operation_id r) (reprove_backup r n v)"
  by (auto simp: check_delete_parent_def check_delete_source_def check_remote_filesystem_def
      reprove_guard_def reprove_backup_def Let_def intro!: labelled_attempt split: option.splits)

lemma labelled_open_guarding:
  "labelled_check op m \<Longrightarrow> (\<And>v. labelled_open op (rest v)) \<Longrightarrow>
     labelled_open op (case m of (Some r, v) \<Rightarrow> (Inl r, v) | (None, v) \<Rightarrow> rest v)"
  by (auto simp: labelled_check_def split: prod.splits option.splits)

lemma labelled_open_guard [simp]: "labelled_open (delete_operation_id r) (open_guard r v)"
  unfolding open_guard_def Let_def
  by (auto intro!: labelled_attempt labelled_open_guarding)

lemma labelled_permanent [simp]: "labelled (delete_operation_id r) (permanent_delete_remote r v)"
  unfolding permanent_delete_remote_def commit_delete_def Let_def
  by (auto intro!: labelled_attempt labelled_guarded labelled_opened)

lemma judge_delete_label [simp]:
  "result_operation_id (judge_absent r b x) = result_operation_id x"
  "result_operation_id (judge_present r s x) = result_operation_id x"
  by (simp_all add: judge_absent_def judge_present_def Let_def)

lemma labelled_reconcile_delete [simp]: "labelled (delete_operation_id r) (reconcile_delete r v)"
  by (simp add: reconcile_delete_def Let_def case_prod_unfold labelled_def split: sum.split)

lemma labelled_delete_then [simp]: "labelled (delete_operation_id r) (delete_then_reconcile r v)"
proof -
  obtain a v1 b v2 where "permanent_delete_remote r v = (a, v1)" "reconcile_delete r v1 = (b, v2)" by fastforce
  with labelled_permanent [of r v] labelled_reconcile_delete [of r v1]
    labelled_merge [of "delete_operation_id r" a v1 b v2]
  show ?thesis by (simp add: delete_then_reconcile_def)
qed

lemma labelled_execute_delete [simp]: "labelled (delete_operation_id r) (execute_delete r v)"
proof -
  have again: "labelled (delete_operation_id r) (delete_then_reconcile (r\<lparr>delete_expected_source := s\<rparr>) v)"
    for s v
    using labelled_delete_then [of "r\<lparr>delete_expected_source := s\<rparr>" v] by simp
  show ?thesis
    unfolding execute_delete_def Let_def by (simp add: again split: sum.split prod.split)
qed

lemma labelled_container [simp]:
  "(\<And>n v. labelled (create_operation_id r) (rest n v)) \<Longrightarrow>
     labelled (create_operation_id r) (open_container r rest v)"
  unfolding open_container_def Let_def by (auto intro!: labelled_attempt)

lemma labelled_directories [simp]:
  "labelled (create_operation_id r) (create_directory_relative r v)"
  "labelled (create_operation_id r) (remove_empty_directory r v)"
  "labelled (create_operation_id r) (verify_private_empty_directory r v)"
  unfolding create_directory_relative_def remove_empty_directory_def confirm_created_def
    retire_container_def verify_private_empty_directory_def Let_def
  by (auto intro!: labelled_attempt labelled_guarded labelled_container
      split: prod.split sum.split bool.split)

lemma judge_create_label [simp]:
  "result_operation_id (judge_removal x d) = result_operation_id x"
  "labelled (create_operation_id r) (judge_creation r (plain_result (create_operation_id r) s e t) d v)"
  by (auto simp: judge_removal_def judge_creation_def split: sum.split)

lemma labelled_reconcile_create [simp]:
  "labelled (create_operation_id r) (reconcile_create_directory r v)"
  unfolding reconcile_create_directory_def Let_def by (auto split: sum.split prod.split)

lemma labelled_execute_create [simp]:
  "labelled (create_operation_id r) (execute_create_directory r v)"
  unfolding execute_create_directory_def Let_def by (auto split: sum.split prod.split)

end
