(* ===== verification/Helper_Process.thy ===== *)
theory Helper_Process
  imports Helper_Pipe Directory_Service Result_Labels
begin

text \<open>
  The helper process: \<open>main\<close> of \<open>src/Source/src/fileops/helper/main.cpp\<close> for the operation requests, and
  the exchange of a request and its result over the pipe, as \<open>run_helper\<close> of
  \<open>file_operation_service.cpp\<close> conducts it. The exchange ends in one of the ways that the transport of
  \<open>Operation_Service\<close> allows.
\<close>

section \<open>Requests of every kind\<close>

datatype operation_request =
    Rename_operation RenameRequest
  | Delete_operation DeleteRequest
  | Create_operation CreateDirectoryRequest

fun encode_request :: "operation_request \<Rightarrow> string + byte list" where
  "encode_request (Rename_operation r) = encode_rename_request r"
| "encode_request (Delete_operation r) = encode_delete_request r"
| "encode_request (Create_operation r) = encode_create_directory_request r"

fun request_id :: "operation_request \<Rightarrow> u64" where
  "request_id (Rename_operation r) = rename_operation_id r"
| "request_id (Delete_operation r) = delete_operation_id r"
| "request_id (Create_operation r) = create_operation_id r"

fun valid_request :: "operation_request \<Rightarrow> string + unit" where
  "valid_request (Rename_operation r) = valid_rename_request r"
| "valid_request (Delete_operation r) = valid_delete_request r"
| "valid_request (Create_operation r) = valid_create_directory_request r"

text \<open>The branches of \<open>main\<close>.\<close>

fun perform :: "operation_request \<Rightarrow> volume \<Rightarrow> OperationResult \<times> volume" where
  "perform (Rename_operation r) v =
     (if rename_action r = Execute then execute_rename r v else reconcile_rename r v)"
| "perform (Delete_operation r) v =
     (if delete_action r = Execute then execute_delete r v else reconcile_delete r v)"
| "perform (Create_operation r) v =
     (if create_action r = Execute then execute_create_directory r v
      else reconcile_create_directory r v)"

definition decode_request :: "OperationRequestKind \<Rightarrow> byte list \<Rightarrow> string + operation_request" where
  "decode_request kind payload =
     (case kind of
        Rename_kind \<Rightarrow> map_sum id Rename_operation (decode_rename_request payload)
      | Permanent_delete_kind \<Rightarrow> map_sum id Delete_operation (decode_delete_request payload)
      | Create_directory_kind \<Rightarrow> map_sum id Create_operation (decode_create_directory_request payload))"

text \<open>A request whose texts can be sent and which means the same when it arrives.\<close>

fun sendable :: "operation_request \<Rightarrow> bool" where
  "sendable (Rename_operation r) \<longleftrightarrow> rename_sendable r"
| "sendable (Delete_operation r) \<longleftrightarrow> valid_delete_request r = Inr () \<and> delete_texts_ok r"
| "sendable (Create_operation r) \<longleftrightarrow> valid_create_directory_request r = Inr () \<and> create_texts_ok r"

lemma decode_request_Inr:
  assumes "decode_request kind payload = Inr r"
  shows "encode_request r = Inr payload" "sendable r" "valid_request r = Inr ()"
proof -
  from assms show "encode_request r = Inr payload"
    by (cases kind; cases r)
      (auto simp: decode_request_def map_sum_def decode_rename_sendable decode_delete_request_Inr
        decode_create_Inr split: sum.splits)
  from assms show "sendable r"
    by (cases kind; cases r)
      (auto simp: decode_request_def map_sum_def decode_rename_sendable decode_delete_request_Inr
        decode_create_Inr split: sum.splits)
  then show "valid_request r = Inr ()" by (cases r) (auto simp: rename_sendable_def)
qed

lemma decode_encoded_request:
  assumes "encode_request r = Inr payload" "sendable r"
  obtains kind where "decode_operation_request_kind payload = Inr kind"
    "decode_request kind payload = Inr r"
proof (cases r)
  case (Rename_operation q)
  with assms encoded_request_kind(1) decode_encode_rename show thesis
    by (intro that [of Rename_kind]) (auto simp: decode_request_def)
next
  case (Delete_operation q)
  with assms encoded_request_kind(2) decode_encode_delete_request show thesis
    by (intro that [of Permanent_delete_kind]) (auto simp: decode_request_def)
next
  case (Create_operation q)
  with assms encoded_request_kind(3) decode_encode_create show thesis
    by (intro that [of Create_directory_kind]) (auto simp: decode_request_def)
qed

section \<open>The process\<close>

text \<open>How the process ends: its exit code, what it wrote and the volume it leaves behind. A payload
  that is none of these requests goes on to the file and directory transfers.\<close>

datatype helper_outcome = Exited nat "byte list" volume | Transfer_request "byte list"

definition respond :: "bool \<Rightarrow> OperationResult \<times> volume \<Rightarrow> helper_outcome" where
  "respond output_good m =
     (case m of (result, v) \<Rightarrow>
        case encode_operation_result result of
          Inl _ \<Rightarrow> Exited 4 [] v
        | Inr response \<Rightarrow>
            (case frame_payload response of
               Inl _ \<Rightarrow> Exited 4 [] v
             | Inr frame \<Rightarrow> Exited (if output_good then 0 else 3) frame v))"

definition helper_main :: "bool \<Rightarrow> byte list \<Rightarrow> volume \<Rightarrow> helper_outcome" where
  "helper_main output_good input v =
     (case read_stream_frame kMaximumOperationPayloadBytes input of
        Inl _ \<Rightarrow> Exited 1 [] v
      | Inr payload \<Rightarrow>
          (case decode_operation_request_kind payload of
             Inl _ \<Rightarrow> Transfer_request payload
           | Inr kind \<Rightarrow>
               (case decode_request kind payload of
                  Inl _ \<Rightarrow> Exited 2 [] v
                | Inr request \<Rightarrow> respond output_good (perform request v))))"

section \<open>The exchange\<close>

text \<open>\<^const>\<open>None\<close> is a loop that does not return; inside, no answer. The helper sees what was sent, and
  the reader what the helper wrote.\<close>

definition exchange ::
  "(nat \<Rightarrow> io_step) \<Rightarrow> (nat \<Rightarrow> io_step) \<Rightarrow> bool \<Rightarrow> byte list \<Rightarrow> u64 \<Rightarrow> volume \<Rightarrow>
   (OperationResult option \<times> volume) option"
where
  "exchange wio rio output_good payload op v =
     (case write_frame wio payload of
        None \<Rightarrow> None
      | Some (sent, ok) \<Rightarrow>
          if \<not> ok then Some (None, v)
          else case helper_main output_good sent v of
            Transfer_request _ \<Rightarrow> Some (None, v)
          | Exited _ written v' \<Rightarrow>
              (case read_frame rio kMaximumOperationPayloadBytes written of
                 None \<Rightarrow> None
               | Some None \<Rightarrow> Some (None, v')
               | Some (Some response) \<Rightarrow>
                   (case decode_operation_result response of
                      Inl _ \<Rightarrow> Some (None, v')
                    | Inr result \<Rightarrow>
                        Some (if result_operation_id result = op then Some result else None, v'))))"

lemma encode_request_bound:
  "encode_request r = Inr payload \<Longrightarrow> length payload \<le> kMaximumOperationPayloadBytes"
  by (cases r) (auto simp: encode_rename_request_def encode_delete_request_def
      encode_create_directory_request_def split: if_splits)

lemma payload_limits: "kMaximumOperationPayloadBytes \<le> kCatalogMaximumFrameBytes"
  by (simp add: kMaximumOperationPayloadBytes_def kCatalogMaximumFrameBytes_def)

lemma frame_payload_small:
  "length payload \<le> kMaximumOperationPayloadBytes \<Longrightarrow>
     frame_payload payload = Inr (append_integer (word_of_nat (length payload) :: u32) @ payload)"
  by (simp add: frame_payload_def kMaximumOperationPayloadBytes_def kCatalogMaximumFrameBytes_def)

lemma write_frame_ok:
  assumes "write_frame wio payload = Some (sent, True)"
  shows "frame_payload payload = Inr sent"
proof (cases "frame_payload payload")
  case (Inr frame)
  with assms have "send_all wio 0 [] frame = Some (sent, True)" by (simp add: write_frame_def)
  from send_all_result [OF this] Inr show ?thesis by simp
qed (use assms in \<open>simp add: write_frame_def\<close>)

lemma helper_main_request:
  assumes "encode_request r = Inr payload" "sendable r" "frame_payload payload = Inr frame"
  shows "helper_main output_good frame v = respond output_good (perform r v)"
proof -
  have "read_stream_frame kMaximumOperationPayloadBytes frame = Inr payload"
    using read_stream_frame_payload [OF assms(3), of kMaximumOperationPayloadBytes "[]"]
      encode_request_bound [OF assms(1)] by simp
  moreover obtain kind where "decode_operation_request_kind payload = Inr kind"
    "decode_request kind payload = Inr r"
    using decode_encoded_request [OF assms(1,2)] by blast
  ultimately show ?thesis by (simp add: helper_main_def)
qed

lemma read_frame_written:
  assumes "read_frame rio maximum_bytes frame = Some (Some response)" "frame_payload payload = Inr frame"
  shows "response = payload"
proof -
  have "working (\<lambda>_. Transferred 1)" by (auto simp: working_def interrupted_finitely_def)
  from send_all_working [OF this, of 0 "[]" frame] assms(2)
  have "write_frame (\<lambda>_. Transferred 1) payload = Some (frame, True)" by (simp add: write_frame_def)
  from frame_never_torn [OF this assms(1)] show ?thesis .
qed

text \<open>An answer that arrives is the answer to the request; without one, the request was carried out or
  the volume is untouched.\<close>

lemma exchange_true:
  assumes enc: "encode_request r = Inr payload" and send: "sendable r"
    and run: "exchange wio rio output_good payload op v = Some (answer, v')"
  shows "(\<forall>result. answer = Some result \<longrightarrow> perform r v = (result, v') \<and> result_operation_id result = op) \<and>
    (answer = None \<longrightarrow> v' = v \<or> v' = snd (perform r v))"
proof -
  obtain sent ok where w: "write_frame wio payload = Some (sent, ok)"
    using run by (auto simp: exchange_def split: option.splits)
  show ?thesis
  proof (cases ok)
    case False
    with run w show ?thesis by (simp add: exchange_def)
  next
    case True
    obtain res v1 where p: "perform r v = (res, v1)" by fastforce
    have main: "helper_main output_good sent v = respond output_good (res, v1)"
      using helper_main_request [OF enc send write_frame_ok] w True p by simp
    show ?thesis
    proof (cases "encode_operation_result res")
      case (Inl e)
      have "read_frame rio kMaximumOperationPayloadBytes [] \<noteq> Some (Some y)" for y
      proof
        assume "read_frame rio kMaximumOperationPayloadBytes [] = Some (Some y)"
        then show False
          using read_exact_result [of rio 0 "[]" 4 "[]"]
          by (auto simp: read_frame_def kCatalogFrameHeaderBytes_def split: option.splits)
      qed
      with run w True main Inl p show ?thesis
        by (auto simp: exchange_def respond_def split: option.splits)
    next
      case (Inr response)
      then have "length response \<le> kMaximumOperationPayloadBytes"
        by (auto simp: encode_operation_result_def split: if_splits)
      then obtain frame where frame: "frame_payload response = Inr frame"
        using frame_payload_small by blast
      have same: "y = response" if "read_frame rio kMaximumOperationPayloadBytes frame = Some (Some y)" for y
        using read_frame_written [OF that frame] .
      have "result = res" if "decode_operation_result response = Inr result" for result
        using decode_encoded_result [OF Inr] that by (auto split: if_splits)
      with run w True main Inr frame p same show ?thesis
        by (auto simp: exchange_def respond_def split: option.splits sum.splits if_splits)
    qed
  qed
qed

text \<open>On pipes that work the answer arrives, unless it cannot be written down.\<close>

lemma perform_label: "result_operation_id (fst (perform r v)) = request_id r"
  by (cases r)
    (use labelled_execute_rename labelled_reconcile labelled_execute_delete labelled_reconcile_delete
      labelled_execute_create labelled_reconcile_create in \<open>auto simp: labelled_def\<close>)

lemma exchange_answers:
  assumes "working wio" "working rio" and enc: "encode_request r = Inr payload" and "sendable r"
    and p: "perform r v = (res, v')" and "result_texts_ok res"
    and reply: "encode_operation_result res = Inr reply"
  shows "exchange wio rio output_good payload (request_id r) v = Some (Some res, v')"
proof -
  have le: "length payload \<le> kMaximumOperationPayloadBytes"
    by (rule encode_request_bound [OF enc])
  then obtain sent where w: "write_frame wio payload = Some (sent, True)"
    using frame_crosses [OF assms(1,2) le] payload_limits by (meson le_trans)
  have le': "length reply \<le> kMaximumOperationPayloadBytes"
    using reply by (auto simp: encode_operation_result_def split: if_splits)
  obtain frame where frame: "write_frame wio reply = Some (frame, True)"
    "read_frame rio kMaximumOperationPayloadBytes frame = Some (Some reply)"
    using frame_crosses [OF assms(1,2) le', of "[]"] le' payload_limits by auto
  have "helper_main output_good sent v = respond output_good (res, v')"
    using helper_main_request [OF enc assms(4) write_frame_ok [OF w]] p by simp
  moreover have "decode_operation_result reply = Inr res"
    using decode_encoded_result [OF reply] assms(6) by simp
  moreover have "result_operation_id res = request_id r"
    using perform_label [of r v] p by simp
  ultimately show ?thesis
    using w reply frame write_frame_ok [OF frame(1)] by (simp add: exchange_def respond_def)
qed

text \<open>Whatever bytes arrive, the helper changes the volume only for a request that is valid.\<close>

lemma helper_main_validates:
  assumes "helper_main output_good input v = Exited code out v'" "v' \<noteq> v"
  shows "\<exists>r frame later. valid_request r = Inr () \<and> v' = snd (perform r v) \<and>
    (\<exists>payload. encode_request r = Inr payload \<and> frame_payload payload = Inr frame \<and> input = frame @ later)"
proof -
  from assms obtain payload kind r where
    read: "read_stream_frame kMaximumOperationPayloadBytes input = Inr payload"
    and r: "decode_request kind payload = Inr r"
    and out: "respond output_good (perform r v) = Exited code out v'"
    by (auto simp: helper_main_def split: sum.splits)
  have v': "v' = snd (perform r v)"
    using out by (auto simp: respond_def split: prod.splits sum.splits)
  from read obtain n where n: "decode_frame_size (take 4 input) = Inr n" "n \<le> length (drop 4 input)"
    and payload: "payload = take n (drop 4 input)" and le: "4 \<le> length input"
      "n \<le> kMaximumOperationPayloadBytes"
    by (auto simp: read_stream_frame_def kCatalogFrameHeaderBytes_def Let_def
        split: if_splits sum.splits)
  from n(1) obtain size bs where "read_integer (take 4 input) = Some (size :: u32, bs)" "n = unat size"
    by (auto simp: decode_frame_size_def split: option.splits if_splits)
  moreover from this have "take 4 input = append_integer size @ bs"
    by (simp add: u32_codec.dec_Some_iff)
  moreover from this have "length (take 4 input) = 4 + length bs" by simp
  then have "bs = []" using le(1) by simp
  ultimately have "take 4 input = append_integer (word_of_nat n :: u32)" by simp
  moreover have "length payload = n" using n(2) payload by simp
  ultimately have "input = (append_integer (word_of_nat (length payload) :: u32) @ payload) @ drop n (drop 4 input)"
    by (metis append.assoc append_take_drop_id payload)
  moreover have "frame_payload payload = Inr (append_integer (word_of_nat (length payload) :: u32) @ payload)"
    using \<open>length payload = n\<close> le(2) by (intro frame_payload_small) simp
  ultimately show ?thesis
    using decode_request_Inr [OF r] v' by blast
qed

end
