(* ===== verification/Helper_Properties.thy ===== *)
theory Helper_Properties
  imports Helper_Process Rename_Properties
begin

text \<open>What holds of the messages, the pipe and the helper process.\<close>

text \<open>C32: Each decoder of the protocol accepts exactly the bytes that the encoder writes for an
  acceptable message: a request that passes validation and whose texts are UTF-8 without NUL, or a
  result with such texts. There is one encoding of each message and nothing else decodes.\<close>

theorem operation_messages_canonical:
  "(decode_rename_request bytes = Inr r \<longleftrightarrow> encode_rename_request r = Inr bytes \<and> rename_sendable r) \<and>
   (decode_delete_request bytes = Inr d \<longleftrightarrow>
      encode_delete_request d = Inr bytes \<and> valid_delete_request d = Inr () \<and> delete_texts_ok d) \<and>
   (decode_create_directory_request bytes = Inr c \<longleftrightarrow>
      encode_create_directory_request c = Inr bytes \<and> valid_create_directory_request c = Inr () \<and>
      create_texts_ok c) \<and>
   (decode_operation_result bytes = Inr res \<longleftrightarrow>
      encode_operation_result res = Inr bytes \<and> result_texts_ok res)"
proof (intro conjI)
  show "decode_rename_request bytes = Inr r \<longleftrightarrow> encode_rename_request r = Inr bytes \<and> rename_sendable r"
    using decode_encode_rename decode_rename_sendable by blast
  show "decode_delete_request bytes = Inr d \<longleftrightarrow>
      encode_delete_request d = Inr bytes \<and> valid_delete_request d = Inr () \<and> delete_texts_ok d"
    using decode_encode_delete_request decode_delete_request_Inr by blast
  show "decode_create_directory_request bytes = Inr c \<longleftrightarrow>
      encode_create_directory_request c = Inr bytes \<and> valid_create_directory_request c = Inr () \<and>
      create_texts_ok c"
    using decode_encode_create decode_create_Inr by blast
  show "decode_operation_result bytes = Inr res \<longleftrightarrow>
      encode_operation_result res = Inr bytes \<and> result_texts_ok res"
    using decode_encoded_result [of res bytes] decode_result_Inr [of bytes res] by auto
qed

text \<open>The loops that move a frame through a pipe return, however small the pieces and however
  often a signal interrupts, unless the interruptions never end; then the writer never returns.\<close>

theorem frame_loops_return:
  assumes "interrupted_finitely io" and "\<And>t. stuck t = Interrupted"
  shows "(\<exists>sent ok. write_frame io payload = Some (sent, ok)) \<and>
    (\<exists>x. read_frame io maximum_bytes incoming = Some x) \<and>
    (length payload \<le> kCatalogMaximumFrameBytes \<longrightarrow> write_frame stuck payload = None)"
proof (intro conjI impI)
  show "\<exists>sent ok. write_frame io payload = Some (sent, ok)"
    using send_all_returns [OF assms(1)]
    by (cases "frame_payload payload") (auto simp: write_frame_def)
  show "\<exists>x. read_frame io maximum_bytes incoming = Some x"
  proof -
    obtain x t rest where x: "read_exact io 0 [] kCatalogFrameHeaderBytes incoming = Some (x, t, rest)"
      using read_exact_returns [OF assms(1)] by blast
    show ?thesis
    proof (cases x)
      case (Some header)
      obtain y u later where
        "read_exact io t [] (projr (decode_frame_size header)) rest = Some (y, u, later)"
        using read_exact_returns [OF assms(1)] by blast
      then show ?thesis
        by (cases "decode_frame_size header") (auto simp: read_frame_def x Some)
    qed (simp add: read_frame_def x)
  qed
  assume "length payload \<le> kCatalogMaximumFrameBytes"
  then have "frame_payload payload = Inr (append_integer (word_of_nat (length payload) :: u32) @ payload)"
    by (simp add: frame_payload_def kCatalogMaximumFrameBytes_def)
  moreover have "length (append_integer (word_of_nat (length payload) :: u32)) = 4" by simp
  then have "append_integer (word_of_nat (length payload) :: u32) \<noteq> []" by (metis list.size(3) zero_neq_numeral)
  ultimately show "write_frame stuck payload = None"
    using send_all_stuck [of stuck 0 "[]"] assms(2)
    by (cases "write_frame stuck payload") (auto simp: write_frame_def)
qed

lemma frame_loops_return_witness:
  "\<exists>sent ok. write_frame (\<lambda>t. if even t then Interrupted else Transferred 1) [1, 2] = Some (sent, ok)"
proof -
  have "interrupted_finitely (\<lambda>t. if even t then Interrupted else Transferred 1)"
    unfolding interrupted_finitely_def
  proof
    fix t :: nat
    show "\<exists>t'\<ge>t. (if even t' then Interrupted else Transferred 1) \<noteq> Interrupted"
      by (intro exI [of _ "Suc (2 * t)"]) simp
  qed
  from frame_loops_return [OF this, of "\<lambda>_. Interrupted"] show ?thesis by blast
qed

text \<open>C15: Every way in which the exchange of a request with the helper can end, pieces, failures and
  exits included, is one of the endings that the model of the service allows: an answer that
  arrives is the result of carrying the request out on the volume, and without an answer the
  volume is untouched or the request was carried out.\<close>

theorem exchange_refines_transport:
  assumes "encode_request r = Inr payload" and "sendable r"
    and "exchange wio rio output_good payload (request_id r) (host_volume h) = Some (answer, v')"
  shows "\<exists>t res h'. run_process (request_id r) (perform r) mutating (h\<lparr>transports := [t]\<rparr>) = (res, h') \<and>
    host_volume h' = v' \<and> (case answer of Some x \<Rightarrow> res = x \<and> t = Delivered | None \<Rightarrow> t \<noteq> Delivered)"
proof (cases answer)
  case (Some x)
  with exchange_true [OF assms] have "perform r (host_volume h) = (x, v')" by simp
  with Some show ?thesis
    by (intro exI [of _ Delivered]) (simp add: run_process_def next_transport_def)
next
  case None
  define carried where "carried = (v' \<noteq> host_volume h)"
  obtain res v1 where p: "perform r (host_volume h) = (res, v1)" by fastforce
  have "host_volume (perform_when carried (perform r) (h\<lparr>transports := []\<rparr>)) = v'"
    using exchange_true [OF assms] None p
    by (auto simp: perform_when_def carried_def)
  with None show ?thesis
    by (intro exI [of _ "Read_fails False carried []"]) (simp add: run_process_def next_transport_def)
qed



lemma example_rename_sendable: "sendable (Rename_operation example_rename)"
proof -
  have "rename_texts_ok example_rename" by code_simp
  with example_rename_valid show ?thesis
    by (simp add: rename_sendable_def) (simp add: example_rename_def)
qed

lemma example_rename_encodes:
  "encode_request (Rename_operation example_rename) = Inr (rename_payload example_rename)"
  by (simp add: encode_rename_request_def)
    (simp add: rename_strings_fit_def string_fits_def rename_payload_def enc_request_header_def
      enc_rename_fields_def enc_stamp_def example_rename_def replacement_mode_def
      kMaximumOperationPayloadBytes_def)

definition byte_by_byte :: "nat \<Rightarrow> io_step" where
  "byte_by_byte t = (if even t then Interrupted else Transferred 1)"

lemma byte_by_byte_works: "working byte_by_byte"
  unfolding working_def interrupted_finitely_def
proof (intro conjI allI)
  fix t :: nat
  show "\<exists>t'\<ge>t. byte_by_byte t' \<noteq> Interrupted"
    by (intro exI [of _ "Suc (2 * t)"]) (simp add: byte_by_byte_def)
  show "byte_by_byte t = Interrupted \<or> (\<exists>n>0. byte_by_byte t = Transferred n)"
    by (simp add: byte_by_byte_def)
qed

text \<open>A rename of which the volume refuses the first call.\<close>

lemma refused_example:
  "perform (Rename_operation example_rename) (example_volume [Call_fails EACCES False]) =
    ((plain_result 7 Permission_denied No_commit ''error'')\<lparr>platform_code := word_of_nat EACCES\<rparr>,
     example_volume [])"
  using example_rename_valid
  by (simp add: execute_rename_def observe_object_def observe_def attempt_def reading_def
      next_call_def example_volume_def unavailable_def open_error_status_def errno_defs
      expected_storage_matches_def expected_storage_def Let_def plain_result_def)
    (simp add: example_rename_def plain_result_def is_trash_restore_mode_def)

definition refused_result :: OperationResult where
  "refused_result =
     (plain_result 7 Permission_denied No_commit ''error'')\<lparr>platform_code := word_of_nat EACCES\<rparr>"

lemma refused_result_sent:
  "result_texts_ok refused_result"
  "encode_operation_result refused_result = Inr (result_payload refused_result)"
proof -
  show "result_texts_ok refused_result" by code_simp
  show "encode_operation_result refused_result = Inr (result_payload refused_result)"
    by (simp add: encode_operation_result_def result_payload_def enc_snapshot_def enc_stamp_def
        string_fits_def refused_result_def plain_result_def empty_snapshot_def
        kMaximumOperationPayloadBytes_def)
qed

lemma example_rename_id: "request_id (Rename_operation example_rename) = 7"
  by (simp add: example_rename_def)


lemma exchange_refines_transport_witness:
  "\<exists>t res h'. run_process 7 (perform (Rename_operation example_rename)) True
       \<lparr>host_volume = example_volume [Call_fails EACCES False], transports = [t], polls = []\<rparr> =
       (res, h') \<and> host_volume h' = example_volume [] \<and> res = refused_result"
proof -
  let ?h = "\<lparr>host_volume = example_volume [Call_fails EACCES False], transports = [], polls = []\<rparr>"
  have "exchange byte_by_byte byte_by_byte True (rename_payload example_rename)
      (request_id (Rename_operation example_rename)) (host_volume ?h) =
      Some (Some refused_result, example_volume [])"
    using exchange_answers [OF byte_by_byte_works byte_by_byte_works example_rename_encodes
        example_rename_sendable refused_example [folded refused_result_def] refused_result_sent, of True]
    by simp
  from exchange_refines_transport [OF example_rename_encodes example_rename_sendable this, of True]
  show ?thesis unfolding example_rename_id by auto
qed


end
