(* ===== verification/Sha256.thy ===== *)
theory Sha256
  imports Bytes
begin

text \<open>
  SHA-256, which the sources have twice: the streaming class \<open>Sha256\<close> of
  \<open>src/Source/src/fileops/sha256.cpp\<close>, which proves the content of moved files, and \<open>hash_bytes\<close> of
  \<open>src/Source/src/cache/cache_key.cpp\<close>, which names the artifacts of the cache. Both are modelled as
  written; however a message is cut into pieces, the class computes what \<open>hash_bytes\<close> computes.
\<close>

section \<open>The compression function of the class\<close>

definition roundConstants :: "u32 list" where
  "roundConstants = concat
     [[0x428a2f98, 0x71374491, 0xb5c0fbcf, 0xe9b5dba5, 0x3956c25b, 0x59f111f1, 0x923f82a4],
      [0xab1c5ed5, 0xd807aa98, 0x12835b01, 0x243185be, 0x550c7dc3, 0x72be5d74, 0x80deb1fe],
      [0x9bdc06a7, 0xc19bf174, 0xe49b69c1, 0xefbe4786, 0x0fc19dc6, 0x240ca1cc, 0x2de92c6f],
      [0x4a7484aa, 0x5cb0a9dc, 0x76f988da, 0x983e5152, 0xa831c66d, 0xb00327c8, 0xbf597fc7],
      [0xc6e00bf3, 0xd5a79147, 0x06ca6351, 0x14292967, 0x27b70a85, 0x2e1b2138, 0x4d2c6dfc],
      [0x53380d13, 0x650a7354, 0x766a0abb, 0x81c2c92e, 0x92722c85, 0xa2bfe8a1, 0xa81a664b],
      [0xc24b8b70, 0xc76c51a3, 0xd192e819, 0xd6990624, 0xf40e3585, 0x106aa070, 0x19a4c116],
      [0x1e376c08, 0x2748774c, 0x34b0bcb5, 0x391c0cb3, 0x4ed8aa4a, 0x5b9cca4f, 0x682e6ff3],
      [0x748f82ee, 0x78a5636f, 0x84c87814, 0x8cc70208, 0x90befffa, 0xa4506ceb, 0xbef9a3f7],
      [0xc67178f2]]"

definition load_big_endian :: "byte list \<Rightarrow> nat \<Rightarrow> u32" where
  "load_big_endian bytes offset =
     push_bit 24 (ucast (bytes ! offset)) OR push_bit 16 (ucast (bytes ! (offset + 1))) OR
     push_bit 8 (ucast (bytes ! (offset + 2))) OR ucast (bytes ! (offset + 3))"

definition store_big_endian :: "u32 \<Rightarrow> byte list" where
  "store_big_endian value =
     [ucast (drop_bit 24 value), ucast (drop_bit 16 value), ucast (drop_bit 8 value), ucast value]"

text \<open>The message schedule: 16 loaded words, then the others from those before.\<close>

definition extend_words :: "nat \<Rightarrow> u32 list \<Rightarrow> u32 list" where
  "extend_words index words =
     (let s0 = word_rotr 7 (words ! (index - 15)) XOR word_rotr 18 (words ! (index - 15)) XOR
               drop_bit 3 (words ! (index - 15));
          s1 = word_rotr 17 (words ! (index - 2)) XOR word_rotr 19 (words ! (index - 2)) XOR
               drop_bit 10 (words ! (index - 2))
      in words[index := words ! (index - 16) + s0 + words ! (index - 7) + s1])"

definition message_words :: "byte list \<Rightarrow> u32 list" where
  "message_words block =
     fold extend_words [16..<64]
       (map (\<lambda>index. load_big_endian block (index * 4)) [0..<16] @ replicate 48 0)"

type_synonym sha_variables = "u32 \<times> u32 \<times> u32 \<times> u32 \<times> u32 \<times> u32 \<times> u32 \<times> u32"

definition sha_round :: "u32 list \<Rightarrow> nat \<Rightarrow> sha_variables \<Rightarrow> sha_variables" where
  "sha_round words index v =
     (let (a, b, c, d, e, f, g, h) = v;
          sigma1 = word_rotr 6 e XOR word_rotr 11 e XOR word_rotr 25 e;
          chosen = (e AND f) XOR ((NOT e) AND g);
          first = h + sigma1 + chosen + roundConstants ! index + words ! index;
          sigma0 = word_rotr 2 a XOR word_rotr 13 a XOR word_rotr 22 a;
          majority = (a AND b) XOR (a AND c) XOR (b AND c);
          second = sigma0 + majority
      in (first + second, a, b, c, d + first, e, f, g))"

definition variables_of :: "u32 list \<Rightarrow> sha_variables" where
  "variables_of state = (state ! 0, state ! 1, state ! 2, state ! 3,
                         state ! 4, state ! 5, state ! 6, state ! 7)"

definition add_variables :: "u32 list \<Rightarrow> sha_variables \<Rightarrow> u32 list" where
  "add_variables state v =
     (let (a, b, c, d, e, f, g, h) = v in
      [state ! 0 + a, state ! 1 + b, state ! 2 + c, state ! 3 + d,
       state ! 4 + e, state ! 5 + f, state ! 6 + g, state ! 7 + h])"

definition transform :: "u32 list \<Rightarrow> byte list \<Rightarrow> u32 list" where
  "transform state block =
     (let words = message_words block
      in add_variables state (fold (sha_round words) [0..<64] (variables_of state)))"

section \<open>The streaming class\<close>

record Sha256 =
  sha_state :: "u32 list"
  sha_buffer :: "byte list"
  sha_buffered :: nat
  sha_total_bytes :: u64

definition initial_state :: "u32 list" where
  "initial_state = [0x6a09e667, 0xbb67ae85, 0x3c6ef372, 0xa54ff53a,
                    0x510e527f, 0x9b05688c, 0x1f83d9ab, 0x5be0cd19]"

definition Sha256_new :: Sha256 where
  "Sha256_new = \<lparr>sha_state = initial_state, sha_buffer = replicate 64 0, sha_buffered = 0,
     sha_total_bytes = 0\<rparr>"

text \<open>Copying into the buffer at an offset.\<close>

definition copy_at :: "nat \<Rightarrow> byte list \<Rightarrow> byte list \<Rightarrow> byte list" where
  "copy_at offset bytes buffer =
     take offset buffer @ bytes @ drop (offset + length bytes) buffer"

text \<open>The loop over the whole blocks of the input: the new state and what is left.\<close>

function transform_blocks :: "u32 list \<Rightarrow> byte list \<Rightarrow> u32 list \<times> byte list" where
  "transform_blocks state bytes =
     (if 64 \<le> length bytes then transform_blocks (transform state (take 64 bytes)) (drop 64 bytes)
      else (state, bytes))"
  by pat_completeness auto
termination
  by (relation "measure (\<lambda>(_, bytes). length bytes)") auto

declare transform_blocks.simps [simp del]

text \<open>\<open>update\<close>: first the buffered bytes are topped up, then the rest is absorbed block by block.\<close>

definition sha_top_up :: "byte list \<Rightarrow> Sha256 \<Rightarrow> byte list \<times> Sha256" where
  "sha_top_up bytes s =
     (if sha_buffered s \<noteq> 0 then
        let copied = min (64 - sha_buffered s) (length bytes);
            s = s\<lparr>sha_buffer := copy_at (sha_buffered s) (take copied bytes) (sha_buffer s),
                  sha_buffered := sha_buffered s + copied\<rparr>;
            bytes = drop copied bytes
        in if sha_buffered s = 64 then
             (bytes, s\<lparr>sha_state := transform (sha_state s) (sha_buffer s), sha_buffered := 0\<rparr>)
           else (bytes, s)
      else (bytes, s))"

definition sha_absorb :: "byte list \<Rightarrow> Sha256 \<Rightarrow> Sha256" where
  "sha_absorb bytes s =
     (let (state, bytes) = transform_blocks (sha_state s) bytes;
          s = s\<lparr>sha_state := state\<rparr>
      in if bytes \<noteq> [] then
           s\<lparr>sha_buffer := copy_at 0 bytes (sha_buffer s), sha_buffered := length bytes\<rparr>
         else s)"

definition sha_update :: "byte list \<Rightarrow> Sha256 \<Rightarrow> Sha256" where
  "sha_update bytes s =
     (let s = s\<lparr>sha_total_bytes := sha_total_bytes s + word_of_nat (length bytes)\<rparr>;
          (bytes, s) = sha_top_up bytes s
      in sha_absorb bytes s)"

definition bit_count_bytes :: "u64 \<Rightarrow> byte list" where
  "bit_count_bytes total_bytes =
     (let bit_count = total_bytes * 8 in map (\<lambda>index. ucast (drop_bit (index * 8) bit_count)) (rev [0..<8]))"

definition sha_digest :: "Sha256 \<Rightarrow> byte list" where
  "sha_digest s =
     (let buffer = copy_at (sha_buffered s) [0x80] (sha_buffer s);
          buffered = sha_buffered s + 1;
          (state, buffer, buffered) =
            (if 56 < buffered then
               (transform (sha_state s) (copy_at buffered (replicate (64 - buffered) 0) buffer),
                copy_at buffered (replicate (64 - buffered) 0) buffer, 0)
             else (sha_state s, buffer, buffered));
          buffer = copy_at buffered (replicate (56 - buffered) 0) buffer;
          buffer = copy_at 56 (bit_count_bytes (sha_total_bytes s)) buffer
      in concat (map store_big_endian (transform state buffer)))"

definition sha256 :: "byte list \<Rightarrow> byte list" where
  "sha256 bytes = sha_digest (sha_update bytes Sha256_new)"

section \<open>The function of the cache\<close>

definition kRoundConstants :: "u32 list" where
  "kRoundConstants = concat
     [[0x428a2f98, 0x71374491, 0xb5c0fbcf, 0xe9b5dba5, 0x3956c25b, 0x59f111f1, 0x923f82a4],
      [0xab1c5ed5, 0xd807aa98, 0x12835b01, 0x243185be, 0x550c7dc3, 0x72be5d74, 0x80deb1fe],
      [0x9bdc06a7, 0xc19bf174, 0xe49b69c1, 0xefbe4786, 0x0fc19dc6, 0x240ca1cc, 0x2de92c6f],
      [0x4a7484aa, 0x5cb0a9dc, 0x76f988da, 0x983e5152, 0xa831c66d, 0xb00327c8, 0xbf597fc7],
      [0xc6e00bf3, 0xd5a79147, 0x06ca6351, 0x14292967, 0x27b70a85, 0x2e1b2138, 0x4d2c6dfc],
      [0x53380d13, 0x650a7354, 0x766a0abb, 0x81c2c92e, 0x92722c85, 0xa2bfe8a1, 0xa81a664b],
      [0xc24b8b70, 0xc76c51a3, 0xd192e819, 0xd6990624, 0xf40e3585, 0x106aa070, 0x19a4c116],
      [0x1e376c08, 0x2748774c, 0x34b0bcb5, 0x391c0cb3, 0x4ed8aa4a, 0x5b9cca4f, 0x682e6ff3],
      [0x748f82ee, 0x78a5636f, 0x84c87814, 0x8cc70208, 0x90befffa, 0xa4506ceb, 0xbef9a3f7],
      [0xc67178f2]]"

definition rotate_right :: "u32 \<Rightarrow> nat \<Rightarrow> u32" where
  "rotate_right value count = drop_bit count value OR push_bit (32 - count) value"

definition extend_schedule :: "nat \<Rightarrow> u32 list \<Rightarrow> u32 list" where
  "extend_schedule index words =
     (let first = rotate_right (words ! (index - 15)) 7 XOR rotate_right (words ! (index - 15)) 18 XOR
                  drop_bit 3 (words ! (index - 15));
          second = rotate_right (words ! (index - 2)) 17 XOR rotate_right (words ! (index - 2)) 19 XOR
                   drop_bit 10 (words ! (index - 2))
      in words[index := words ! (index - 16) + first + words ! (index - 7) + second])"

definition block_round :: "u32 list \<Rightarrow> nat \<Rightarrow> sha_variables \<Rightarrow> sha_variables" where
  "block_round words index v =
     (let (a, b, c, d, e, f, g, h) = v;
          sum1 = rotate_right e 6 XOR rotate_right e 11 XOR rotate_right e 25;
          choice = (e AND f) XOR ((NOT e) AND g);
          temporary1 = h + sum1 + choice + kRoundConstants ! index + words ! index;
          sum0 = rotate_right a 2 XOR rotate_right a 13 XOR rotate_right a 22;
          majority = (a AND b) XOR (a AND c) XOR (b AND c);
          temporary2 = sum0 + majority
      in (temporary1 + temporary2, a, b, c, d + temporary1, e, f, g))"

definition process_block :: "byte list \<Rightarrow> u32 list \<Rightarrow> u32 list" where
  "process_block block state =
     (let words = map (\<lambda>index. push_bit 24 (ucast (block ! (index * 4))) OR
              push_bit 16 (ucast (block ! (index * 4 + 1))) OR
              push_bit 8 (ucast (block ! (index * 4 + 2))) OR ucast (block ! (index * 4 + 3))) [0..<16]
            @ replicate 48 0;
          words = fold extend_schedule [16..<64] words
      in add_variables state (fold (block_round words) [0..<64] (variables_of state)))"

function pad_zeros :: "byte list \<Rightarrow> byte list" where
  "pad_zeros padded = (if length padded mod 64 \<noteq> 56 then pad_zeros (padded @ [0]) else padded)"
  by pat_completeness auto
termination
proof (relation "measure (\<lambda>padded. (120 - length padded mod 64) mod 64)")
  fix padded :: "byte list"
  assume not_yet: "length padded mod 64 \<noteq> 56"
  define r where "r = length padded mod 64"
  have r: "r < 64" "r \<noteq> 56" using not_yet by (simp_all add: r_def)
  have distance: "(120 - n) mod 64 = (if n \<le> 56 then 56 - n else 120 - n)" if "n < 64" for n :: nat
  proof (cases "n < 57")
    case True
    then have "120 - n = (56 - n) + 64" by simp
    then have "(120 - n) mod 64 = (56 - n) mod 64" by (metis mod_add_self2)
    with True show ?thesis by simp
  qed (use that in simp)
  have "length (padded @ [0]) mod 64 = (if r = 63 then 0 else Suc r)"
    by (simp add: mod_Suc r_def)
  then show "(padded @ [0], padded) \<in> measure (\<lambda>padded. (120 - length padded mod 64) mod 64)"
    using r by (simp add: distance r_def [symmetric] split: if_split; arith)
qed simp

declare pad_zeros.simps [simp del]

definition padded_message :: "byte list \<Rightarrow> byte list" where
  "padded_message bytes =
     (let bit_length = word_of_nat (length bytes) * 8 :: u64
      in pad_zeros (bytes @ [0x80]) @
         map (\<lambda>index. ucast (drop_bit (index * 8) bit_length)) (rev [0..<8]))"

definition process_blocks :: "u32 list \<Rightarrow> byte list \<Rightarrow> u32 list" where
  "process_blocks state padded =
     fold (\<lambda>index. process_block (take 64 (drop (index * 64) padded)))
       [0..<(length padded + 63) div 64] state"

definition hash_bytes :: "byte list \<Rightarrow> byte list" where
  "hash_bytes bytes =
     (let state = process_blocks initial_state (padded_message bytes)
      in concat (map (\<lambda>value. map (\<lambda>n. ucast (drop_bit (24 - n * 8) value)) [0..<4]) state))"

section \<open>Both compress alike\<close>

lemma rotate_right_eq:
  assumes "0 < n" "n < 32"
  shows "rotate_right v n = word_rotr n v"
proof (rule bit_word_eqI)
  fix i assume "i < LENGTH(32)"
  then have i: "i < 32" by simp
  have mod: "(i + n) mod 32 = (if i + n < 32 then i + n else i + n - 32)"
    using i assms by (simp add: mod_if)
  have high: "bit v j \<Longrightarrow> j < 32" for j
    using bit_imp_le_length [of v j] by simp
  have "bit (rotate_right v n) i \<longleftrightarrow> bit v (i + n) \<or> 32 - n \<le> i \<and> bit v (i - (32 - n))"
    using i by (simp add: rotate_right_def bit_or_iff bit_push_bit_iff bit_drop_bit_eq add.commute)
  also have "\<dots> \<longleftrightarrow> bit v ((i + n) mod 32)"
    using i assms high [of "i + n"] by (auto simp: mod)
  also have "\<dots> \<longleftrightarrow> bit (word_rotr n v) i"
    using i by (simp add: bit_word_rotr_iff)
  finally show "bit (rotate_right v n) i \<longleftrightarrow> bit (word_rotr n v) i" .
qed

lemma process_block_eq: "process_block block state = transform state block"
proof -
  have "extend_schedule = extend_words"
    by (intro ext) (simp add: extend_schedule_def extend_words_def rotate_right_eq)
  moreover have "kRoundConstants = roundConstants"
    by (simp add: kRoundConstants_def roundConstants_def)
  then have "block_round = sha_round"
    by (intro ext) (simp add: block_round_def sha_round_def rotate_right_eq)
  ultimately show ?thesis
    by (simp add: process_block_def transform_def message_words_def load_big_endian_def)
qed

lemma store_big_endian_eq:
  "map (\<lambda>n. ucast (drop_bit (24 - n * 8) value)) [0..<4] = store_big_endian value"
  by (simp add: store_big_endian_def upt_rec numeral_2_eq_2 numeral_3_eq_3)

section \<open>Blocks\<close>

lemma transform_blocks_short: "length bs < 64 \<Longrightarrow> transform_blocks state bs = (state, bs)"
  by (subst transform_blocks.simps) simp

lemma transform_blocks_block:
  "length b = 64 \<Longrightarrow> transform_blocks state (b @ bs) = transform_blocks (transform state b) bs"
  by (subst transform_blocks.simps) simp

lemma transform_blocks_rest_length:
  "length (snd (transform_blocks state bs)) = length bs mod 64"
proof (induction state bs rule: transform_blocks.induct)
  case (1 state bs)
  then show ?case by (subst transform_blocks.simps) (simp add: le_mod_geq)
qed

lemma transform_blocks_append:
  "transform_blocks state (xs @ ys) =
     (let (state', rest) = transform_blocks state xs in transform_blocks state' (rest @ ys))"
proof (induction state xs rule: transform_blocks.induct)
  case (1 state xs)
  show ?case
  proof (cases "64 \<le> length xs")
    case True
    have "transform_blocks state (xs @ ys) =
        transform_blocks (transform state (take 64 xs)) (drop 64 xs @ ys)"
      using True transform_blocks_block [of "take 64 xs" state "drop 64 xs @ ys"]
      by (simp only: append_assoc [symmetric] append_take_drop_id) simp
    moreover have "transform_blocks state xs = transform_blocks (transform state (take 64 xs)) (drop 64 xs)"
      using True by (subst transform_blocks.simps) simp
    ultimately show ?thesis using 1 True by simp
  qed (simp add: transform_blocks_short)
qed

lemma process_blocks_eq:
  assumes "64 dvd length bs"
  shows "process_blocks state bs = fst (transform_blocks state bs)"
proof -
  from assms obtain n where "length bs = n * 64" by (metis dvd_def mult.commute)
  then show ?thesis
  proof (induction n arbitrary: state bs)
    case 0
    then show ?case by (simp add: process_blocks_def transform_blocks_short)
  next
    case (Suc n)
    have counts: "(length bs + 63) div 64 = Suc n" "(length (drop 64 bs) + 63) div 64 = n"
      using Suc.prems by simp_all
    have "process_blocks state bs =
        process_blocks (transform state (take 64 bs)) (drop 64 bs)"
      unfolding process_blocks_def counts
      by (simp add: upt_conv_Cons process_block_eq map_Suc_upt [symmetric] fold_map comp_def add.commute
          del: upt_Suc map_Suc_upt)
    also have "\<dots> = fst (transform_blocks (transform state (take 64 bs)) (drop 64 bs))"
      using Suc by simp
    also have "\<dots> = fst (transform_blocks state bs)"
      using Suc.prems transform_blocks_block [of "take 64 bs" state "drop 64 bs"] by simp
    finally show ?case .
  qed
qed

section \<open>Streaming\<close>

text \<open>The object has digested the message \<open>m\<close>.\<close>

definition has_digested :: "Sha256 \<Rightarrow> byte list \<Rightarrow> bool" where
  "has_digested s m \<longleftrightarrow>
     length (sha_buffer s) = 64 \<and> sha_buffered s = length m mod 64 \<and>
     sha_total_bytes s = word_of_nat (length m) \<and>
     transform_blocks initial_state m = (sha_state s, take (sha_buffered s) (sha_buffer s))"

lemma has_digested_new: "has_digested Sha256_new []"
  by (simp add: has_digested_def Sha256_new_def transform_blocks_short)

lemma copy_at_simps [simp]:
  "offset + length bytes \<le> length buffer \<Longrightarrow> length (copy_at offset bytes buffer) = length buffer"
  "offset \<le> length buffer \<Longrightarrow>
     take (offset + length bytes) (copy_at offset bytes buffer) = take offset buffer @ bytes"
  by (simp_all add: copy_at_def)

text \<open>Absorbing what follows a filled buffer, or everything when the buffer is empty.\<close>

lemma has_digested_absorb:
  assumes total: "sha_total_bytes s = word_of_nat (length m)" and buffer: "length (sha_buffer s) = 64"
    and empty: "sha_buffered s = 0"
    and blocks: "transform_blocks initial_state m = transform_blocks (sha_state s) bytes"
  shows "has_digested (sha_absorb bytes s) m"
proof -
  obtain state rest where run: "transform_blocks (sha_state s) bytes = (state, rest)" by fastforce
  have len: "length rest = length m mod 64"
    using transform_blocks_rest_length [of initial_state m] blocks run by simp
  then have "length rest < 64" by simp
  then have copied: "length (copy_at 0 rest (sha_buffer s)) = 64"
    "take (length rest) (copy_at 0 rest (sha_buffer s)) = rest"
    using buffer by (simp_all add: copy_at_def)
  show ?thesis
  proof (cases "rest = []")
    case True
    with len have "length m mod 64 = 0" by simp
    with True total buffer empty blocks run show ?thesis by (simp add: has_digested_def sha_absorb_def)
  next
    case False
    with total blocks run len copied show ?thesis by (simp add: has_digested_def sha_absorb_def)
  qed
qed

lemma has_digested_update:
  assumes "has_digested s m"
  shows "has_digested (sha_update bytes s) (m @ bytes)"
proof -
  define s1 where "s1 = s\<lparr>sha_total_bytes := sha_total_bytes s + word_of_nat (length bytes)\<rparr>"
  let ?rest = "take (sha_buffered s1) (sha_buffer s1)"
  from assms have buffer: "length (sha_buffer s1) = 64" and buffered: "sha_buffered s1 = length m mod 64"
    and total: "sha_total_bytes s1 = word_of_nat (length (m @ bytes))"
    and blocks: "transform_blocks initial_state m = (sha_state s1, ?rest)"
    by (simp_all add: has_digested_def s1_def)
  have joined: "transform_blocks initial_state (m @ bytes) =
      transform_blocks (sha_state s1) (?rest @ bytes)"
    using transform_blocks_append [of initial_state m bytes] by (simp add: blocks)
  have below: "sha_buffered s1 < 64" by (simp add: buffered)
  then have rest_len: "length ?rest = sha_buffered s1" using buffer by simp
  obtain left t where top_up: "sha_top_up bytes s1 = (left, t)" by fastforce
  then have update: "sha_update bytes s = sha_absorb left t" by (simp add: sha_update_def s1_def)
  show ?thesis
  proof (cases "sha_buffered s1 = 0")
    case True
    with top_up have same: "left = bytes" "t = s1" by (simp_all add: sha_top_up_def)
    show ?thesis
      unfolding update same
      by (rule has_digested_absorb [OF total buffer True]) (use joined True in simp)
  next
    case False
    define copied where "copied = min (64 - sha_buffered s1) (length bytes)"
    define filled where "filled = copy_at (sha_buffered s1) (take copied bytes) (sha_buffer s1)"
    have room: "sha_buffered s1 + length (take copied bytes) \<le> length (sha_buffer s1)"
      using below buffer by (simp add: copied_def)
    have filled_len: "length filled = 64"
      using copy_at_simps(1) [OF room] buffer by (simp add: filled_def)
    have filled_take: "take (sha_buffered s1 + copied) filled = ?rest @ take copied bytes"
      using copy_at_simps(2) [of "sha_buffered s1" "sha_buffer s1" "take copied bytes"] below buffer
      by (simp add: filled_def copied_def)
    note topped = top_up [unfolded sha_top_up_def Let_def, folded copied_def, folded filled_def]
    show ?thesis
    proof (cases "sha_buffered s1 + copied = 64")
      case True
      with topped False have left: "left = drop copied bytes"
        and t: "sha_state t = transform (sha_state s1) filled" "sha_buffered t = 0"
          "sha_buffer t = filled" "sha_total_bytes t = sha_total_bytes s1" by auto
      from True have filled_eq: "?rest @ take copied bytes = filled"
        using filled_take filled_len by simp
      have "?rest @ bytes = filled @ left"
        by (simp add: filled_eq [symmetric] left)
      then have "transform_blocks initial_state (m @ bytes) =
          transform_blocks (transform (sha_state s1) filled) left"
        using joined transform_blocks_block [OF filled_len] by simp
      then show ?thesis
        unfolding update by (intro has_digested_absorb) (simp_all add: t total filled_len)
    next
      case partial: False
      then have copied: "copied = length bytes" and short: "sha_buffered s1 + length bytes < 64"
        using below by (auto simp: copied_def min_def split: if_splits)
      with topped False partial have left: "left = []"
        and t: "sha_state t = sha_state s1" "sha_buffered t = sha_buffered s1 + length bytes"
          "sha_buffer t = filled" "sha_total_bytes t = sha_total_bytes s1" by auto
      have "length (m @ bytes) mod 64 = sha_buffered s1 + length bytes"
        using mod_add_left_eq [of "length m" 64 "length bytes"] short by (simp add: buffered)
      moreover have "transform_blocks initial_state (m @ bytes) = (sha_state s1, ?rest @ bytes)"
        using joined short rest_len by (simp add: transform_blocks_short)
      moreover have "sha_absorb [] t = t" by (simp add: sha_absorb_def transform_blocks_short)
      ultimately show ?thesis
        using filled_len filled_take total copied
        unfolding update left by (simp add: has_digested_def t)
    qed
  qed
qed

section \<open>Padding\<close>

lemma pad_zeros_eq:
  "\<exists>k<64. pad_zeros padded = padded @ replicate k 0 \<and> (length padded + k) mod 64 = 56"
proof (induction padded rule: pad_zeros.induct)
  case (1 padded)
  show ?case
  proof (cases "length padded mod 64 = 56")
    case True
    then show ?thesis by (subst pad_zeros.simps) (auto intro: exI [of _ 0])
  next
    case False
    from 1 [OF False] obtain k where k: "k < 64" "pad_zeros (padded @ [0]) = (padded @ [0]) @ replicate k 0"
      "(length (padded @ [0]) + k) mod 64 = 56" by blast
    have "Suc k < 64"
    proof (rule ccontr)
      assume "\<not> Suc k < 64"
      with k(1) have "k = 63" by simp
      with k(3) have "(length padded + 64) mod 64 = 56" by (simp add: add.commute)
      with False show False by simp
    qed
    with k False show ?thesis by (subst pad_zeros.simps) (auto intro!: exI [of _ "Suc k"])
  qed
qed

lemma pad_zeros_count:
  assumes "length m mod 64 = b"
  shows "pad_zeros (m @ [0x80]) = m @ [0x80] @ replicate (if b < 56 then 55 - b else 119 - b) 0"
proof -
  obtain k where k: "k < 64" "pad_zeros (m @ [0x80]) = (m @ [0x80]) @ replicate k 0"
    "(length (m @ [0x80]) + k) mod 64 = 56" using pad_zeros_eq by blast
  have "(b + Suc k) mod 64 = 56"
    using k(3) assms by (metis add_Suc_right length_append_singleton add_Suc mod_add_left_eq)
  moreover have b: "b < 64" using assms by auto
  ultimately have "k = (if b < 56 then 55 - b else 119 - b)"
    using k(1) by (auto simp: mod_if split: if_splits)
  with k(2) show ?thesis by simp
qed

lemma length_bit_count [simp]: "length (bit_count_bytes n) = 8"
  by (simp add: bit_count_bytes_def)

lemma copy_at_append:
  "length pre = offset \<Longrightarrow> copy_at offset bytes (pre @ w) = pre @ bytes @ drop (length bytes) w"
  by (simp add: copy_at_def)

text \<open>What is left of a message with its padding: one block or two.\<close>

lemma digest_blocks:
  assumes "has_digested s m"
  shows "sha_digest s = hash_bytes m"
proof -
  let ?b = "sha_buffered s"
  let ?r = "take ?b (sha_buffer s)" and ?bits = "bit_count_bytes (sha_total_bytes s)"
  from assms have buffer: "length (sha_buffer s) = 64" and b: "length m mod 64 = ?b" "?b < 64"
    and total: "sha_total_bytes s = word_of_nat (length m)"
    and blocks: "transform_blocks initial_state m = (sha_state s, ?r)"
    by (simp_all add: has_digested_def)
  have r: "length ?r = ?b" using b(2) buffer by simp
  obtain w where w: "sha_buffer s = ?r @ w" "length w = 64 - ?b"
    using append_take_drop_id [of ?b "sha_buffer s"] buffer by (metis length_drop)
  have marked: "copy_at ?b [0x80] (sha_buffer s) = (?r @ [0x80]) @ drop 1 w"
    using copy_at_append [OF r, of "[0x80]" w] w(1) by simp
  have padded: "padded_message m =
      m @ [0x80] @ replicate (if ?b < 56 then 55 - ?b else 119 - ?b) 0 @ ?bits"
    by (simp add: padded_message_def pad_zeros_count [OF b(1)] total bit_count_bytes_def Let_def)
  have len: "64 dvd length (padded_message m)"
  proof -
    obtain q where "length m = 64 * q + ?b" using b(1) by (metis mult_div_mod_eq)
    then have "length (padded_message m) = 64 * q + (if ?b < 56 then 64 else 128)"
      using b(2) by (auto simp: padded)
    then show ?thesis by (auto split: if_splits intro: dvd_add)
  qed
  have "fst (transform_blocks initial_state (padded_message m)) =
      fst (transform_blocks (sha_state s)
        (?r @ [0x80] @ replicate (if ?b < 56 then 55 - ?b else 119 - ?b) 0 @ ?bits))"
    unfolding padded transform_blocks_append [of initial_state m] blocks by simp
  also have "concat (map store_big_endian \<dots>) = sha_digest s"
  proof (cases "?b < 56")
    case True
    have "?r @ [0x80] @ replicate (55 - ?b) 0 @ ?bits =
        copy_at 56 ?bits (copy_at (?b + 1) (replicate (56 - (?b + 1)) 0)
          (copy_at ?b [0x80] (sha_buffer s)))" (is "?one = ?two")
    proof -
      have "copy_at (?b + 1) (replicate (56 - (?b + 1)) 0) (copy_at ?b [0x80] (sha_buffer s)) =
          ((?r @ [0x80]) @ replicate (55 - ?b) 0) @ drop (56 - ?b) w"
        unfolding marked
        using True r copy_at_append [of "?r @ [0x80]" "?b + 1" "replicate (56 - (?b + 1)) 0" "drop 1 w"]
        by (simp add: Suc_diff_le [symmetric])
      moreover have "copy_at 56 ?bits \<dots> = ((?r @ [0x80]) @ replicate (55 - ?b) 0) @ ?bits"
        using True r w(2) copy_at_append [of "(?r @ [0x80]) @ replicate (55 - ?b) 0" 56 ?bits "drop (56 - ?b) w"]
        by simp
      ultimately show ?thesis by simp
    qed
    moreover have "length ?one = 64" using True r by simp
    then have "transform_blocks (sha_state s) (?one @ []) = transform_blocks (transform (sha_state s) ?one) []"
      by (rule transform_blocks_block)
    ultimately show ?thesis
      using True by (simp add: sha_digest_def Let_def transform_blocks_short)
  next
    case False
    let ?first = "?r @ [0x80] @ replicate (63 - ?b) 0" and ?second = "replicate 56 0 @ ?bits"
    have "replicate (119 - ?b) (0 :: byte) = replicate (63 - ?b) 0 @ replicate 56 0"
      using False b(2) by (simp add: replicate_add [symmetric])
    then have split: "?r @ [0x80] @ replicate (119 - ?b) 0 @ ?bits = ?first @ ?second @ []" by simp
    have "length ?first = 64" "length ?second = 64" using False b(2) r by simp_all
    then have "transform_blocks (sha_state s) (?first @ ?second @ []) =
        (transform (transform (sha_state s) ?first) ?second, [])"
      by (simp only: transform_blocks_block) (simp add: transform_blocks_short)
    moreover have first: "copy_at (?b + 1) (replicate (64 - (?b + 1)) 0) (copy_at ?b [0x80] (sha_buffer s)) =
        ?first"
      unfolding marked
      using False b(2) r w(2) copy_at_append [of "?r @ [0x80]" "?b + 1" "replicate (64 - (?b + 1)) 0" "drop 1 w"]
      by simp
    moreover have "copy_at 56 ?bits (copy_at 0 (replicate (56 - 0) 0) ?first) = ?second"
      using False b(2) r by (simp add: copy_at_def)
    ultimately show ?thesis
      using False split by (simp add: sha_digest_def Let_def)
  qed
  finally show ?thesis
    by (simp add: hash_bytes_def process_blocks_eq [OF len] store_big_endian_eq)
qed

end
