(* ===== verification/Cache_Key.thy ===== *)
theory Cache_Key
  imports Sha256 Text
begin

text \<open>
  The identity of a cached thumbnail: \<open>src/Source/src/cache/cache_key.cpp\<close>. A key is written out as
  bytes, whose SHA-256 names the artifact. Two keys are never written alike, so keys that share a
  name would be a collision of the hash; a locator, and the binding of a locator to an
  artifact, are as unambiguous.
\<close>

section \<open>Keys\<close>

record SourceStamp =
  source_identity_utf8 :: string
  stamp_size_bytes :: u64
  stamp_modified_unix_ns :: i64
  stable_file_id :: "string option"

record ColorPolicyIdentity =
  color_version :: u32
  working_profile_fingerprint :: string

record CacheKey =
  key_source :: SourceStamp
  handler_id :: string
  handler_version :: u32
  render_policy_version :: u32
  color_policy_version :: ColorPolicyIdentity
  canonical_edge :: u32
  page_index :: u32

record CacheLocatorKey =
  catalog_source :: SourceStamp
  routing_policy_version :: u32
  locator_render_policy_version :: u32
  locator_color_policy_version :: ColorPolicyIdentity
  locator_page_index :: u32
  locator_canonical_edge :: u32

definition kCacheKeySchemaVersion :: u32 where "kCacheKeySchemaVersion = 7"
definition kThumbnailCanonicalEdge :: u32 where "kThumbnailCanonicalEdge = 512"

section \<open>Serialization\<close>

text \<open>\<^const>\<open>None\<close> is the \<open>std::length_error\<close> of \<open>append_string\<close>.\<close>

definition append_key_string :: "string \<Rightarrow> byte list option" where
  "append_key_string value = (if string_fits value then Some (append_string value) else None)"

definition append_stable_id :: "string option \<Rightarrow> byte list option" where
  "append_stable_id file_id_option =
     (case file_id_option of
        None \<Rightarrow> Some [0]
      | Some file_id \<Rightarrow> do { text \<leftarrow> append_key_string file_id; Some (1 # text) })"

definition append_stamp :: "SourceStamp \<Rightarrow> byte list option" where
  "append_stamp stamp = do {
     identity \<leftarrow> append_key_string (source_identity_utf8 stamp);
     id_bytes \<leftarrow> append_stable_id (stable_file_id stamp);
     Some (identity @ append_integer (stamp_size_bytes stamp) @
           append_integer (stamp_modified_unix_ns stamp) @ id_bytes) }"

definition serialize_cache_key :: "CacheKey \<Rightarrow> byte list option" where
  "serialize_cache_key key = do {
     domain \<leftarrow> append_key_string ''VOVE-CACHE-KEY'';
     stamp \<leftarrow> append_stamp (key_source key);
     handler \<leftarrow> append_key_string (handler_id key);
     fingerprint \<leftarrow> append_key_string (working_profile_fingerprint (color_policy_version key));
     Some (domain @ append_integer kCacheKeySchemaVersion @ stamp @ handler @
           append_integer (handler_version key) @ append_integer (render_policy_version key) @
           append_integer (color_version (color_policy_version key)) @
           append_integer (canonical_edge key) @ fingerprint @ append_integer (page_index key)) }"

definition serialize_cache_locator :: "CacheLocatorKey \<Rightarrow> byte list option" where
  "serialize_cache_locator key = do {
     domain \<leftarrow> append_key_string ''VOVE-CACHE-LOCATOR'';
     stamp \<leftarrow> append_stamp (catalog_source key);
     fingerprint \<leftarrow>
       append_key_string (working_profile_fingerprint (locator_color_policy_version key));
     Some (domain @ append_integer (1 :: u32) @ stamp @
           append_integer (routing_policy_version key) @
           append_integer (locator_render_policy_version key) @
           append_integer (color_version (locator_color_policy_version key)) @ fingerprint @
           append_integer (locator_page_index key) @
           (if locator_canonical_edge key \<noteq> kThumbnailCanonicalEdge
            then append_integer (locator_canonical_edge key) else [])) }"

definition hash_cache_key :: "CacheKey \<Rightarrow> byte list option" where
  "hash_cache_key key = map_option hash_bytes (serialize_cache_key key)"

definition hash_cache_locator :: "CacheLocatorKey \<Rightarrow> byte list option" where
  "hash_cache_locator key = map_option hash_bytes (serialize_cache_locator key)"

definition locator_binding_bytes :: "string \<Rightarrow> string \<Rightarrow> byte list" where
  "locator_binding_bytes locator_digest_hex artifact_digest_hex =
     map byte_of_char (''VOVE-LOCATOR-BINDING-V1'' @ [CHR 0x00] @ locator_digest_hex @ [CHR 0x00] @
       artifact_digest_hex)"

definition hash_locator_binding :: "string \<Rightarrow> string \<Rightarrow> byte list option" where
  "hash_locator_binding locator_digest_hex artifact_digest_hex =
     (if 2 ^ 32 - 1 < length locator_digest_hex \<or> 2 ^ 32 - 1 < length artifact_digest_hex then None
      else Some (hash_bytes (locator_binding_bytes locator_digest_hex artifact_digest_hex)))"

text \<open>\<open>CacheDigest::hex\<close>\<close>

definition digest_hex :: "byte list \<Rightarrow> string" where
  "digest_hex digest =
     concat (map (\<lambda>value. [digit_char (unat (drop_bit 4 value)), digit_char (unat (value AND 0x0F))])
       digest)"

section \<open>Nothing is written alike\<close>

lemma append_key_string_Some:
  "append_key_string value = Some bytes \<longleftrightarrow> string_fits value \<and> bytes = append_string value"
  by (auto simp: append_key_string_def)

lemma string_then: "string_fits s \<Longrightarrow> string_fits t \<Longrightarrow>
    append_string s @ r = append_string t @ q \<longleftrightarrow> s = t \<and> r = q"
  using string_codec.enc_inject by blast

lemma integer_then [simp]:
  "append_integer (a :: u32) @ r = append_integer b @ q \<longleftrightarrow> a = b \<and> r = q"
  "append_integer (c :: u64) @ r = append_integer d @ q \<longleftrightarrow> c = d \<and> r = q"
  using u32_codec.enc_inject u64_codec.enc_inject by blast+

lemma u32_inject [simp]: "append_integer (a :: u32) = append_integer b \<longleftrightarrow> a = b"
  using integer_then(1) [of a "[]" b "[]"] by simp

lemma u32_not_empty [simp]: "append_integer (a :: u32) \<noteq> []" "[] \<noteq> append_integer (a :: u32)"
proof -
  have "length (append_integer a) = 4" by simp
  then show "append_integer a \<noteq> []" "[] \<noteq> append_integer a" by (metis list.size(3) zero_neq_numeral)+
qed

lemma string_inject: "string_fits s \<Longrightarrow> string_fits t \<Longrightarrow>
    append_string s = append_string t \<longleftrightarrow> s = t"
  using string_then [of s t "[]" "[]"] by simp

lemma stable_then:
  assumes "append_stable_id a = Some x" "append_stable_id b = Some y"
  shows "x @ r = y @ q \<longleftrightarrow> a = b \<and> r = q"
  using assms
  by (auto simp: append_stable_id_def bind_Some_iff append_key_string_Some string_then
      split: option.splits)

lemma stamp_then:
  assumes "append_stamp a = Some x" "append_stamp b = Some y"
  shows "x @ r = y @ q \<longleftrightarrow> a = b \<and> r = q"
proof -
  from assms obtain x' y' where
    x: "x = append_string (source_identity_utf8 a) @ append_integer (stamp_size_bytes a) @
      append_integer (stamp_modified_unix_ns a) @ x'" and
    y: "y = append_string (source_identity_utf8 b) @ append_integer (stamp_size_bytes b) @
      append_integer (stamp_modified_unix_ns b) @ y'" and
    stable: "append_stable_id (stable_file_id a) = Some x'" "append_stable_id (stable_file_id b) = Some y'"
    and fits: "string_fits (source_identity_utf8 a)" "string_fits (source_identity_utf8 b)"
    by (auto simp: append_stamp_def bind_Some_iff append_key_string_Some)
  show ?thesis
    unfolding x y append_assoc
    by (cases a; cases b) (use fits in \<open>auto simp: string_then stable_then [OF stable]\<close>)
qed

lemma serialize_cache_key_inject:
  assumes "serialize_cache_key a = Some x" "serialize_cache_key b = Some x"
  shows "a = b"
proof -
  from assms obtain sa sb where stamps: "append_stamp (key_source a) = Some sa"
    "append_stamp (key_source b) = Some sb"
    and fits: "string_fits (handler_id a)" "string_fits (handler_id b)"
      "string_fits (working_profile_fingerprint (color_policy_version a))"
      "string_fits (working_profile_fingerprint (color_policy_version b))"
    and same: "sa @ append_string (handler_id a) @ append_integer (handler_version a) @
        append_integer (render_policy_version a) @
        append_integer (color_version (color_policy_version a)) @ append_integer (canonical_edge a) @
        append_string (working_profile_fingerprint (color_policy_version a)) @
        append_integer (page_index a) =
      sb @ append_string (handler_id b) @ append_integer (handler_version b) @
        append_integer (render_policy_version b) @
        append_integer (color_version (color_policy_version b)) @ append_integer (canonical_edge b) @
        append_string (working_profile_fingerprint (color_policy_version b)) @
        append_integer (page_index b)"
    by (auto simp: serialize_cache_key_def bind_Some_iff append_key_string_Some)
  from same have "key_source a = key_source b \<and> handler_id a = handler_id b \<and>
      handler_version a = handler_version b \<and> render_policy_version a = render_policy_version b \<and>
      color_version (color_policy_version a) = color_version (color_policy_version b) \<and>
      canonical_edge a = canonical_edge b \<and>
      working_profile_fingerprint (color_policy_version a) =
        working_profile_fingerprint (color_policy_version b) \<and> page_index a = page_index b"
    unfolding stamp_then [OF stamps] using fits by (simp add: string_then string_inject)
  then show ?thesis by (cases a; cases b) (auto intro: ColorPolicyIdentity.equality)
qed

lemma serialize_cache_locator_inject:
  assumes "serialize_cache_locator a = Some x" "serialize_cache_locator b = Some x"
  shows "a = b"
proof -
  let ?edge = "\<lambda>k. if locator_canonical_edge k \<noteq> kThumbnailCanonicalEdge
    then append_integer (locator_canonical_edge k) else []"
  from assms obtain sa sb where stamps: "append_stamp (catalog_source a) = Some sa"
    "append_stamp (catalog_source b) = Some sb"
    and fits: "string_fits (working_profile_fingerprint (locator_color_policy_version a))"
      "string_fits (working_profile_fingerprint (locator_color_policy_version b))"
    and same: "sa @ append_integer (routing_policy_version a) @
        append_integer (locator_render_policy_version a) @
        append_integer (color_version (locator_color_policy_version a)) @
        append_string (working_profile_fingerprint (locator_color_policy_version a)) @
        append_integer (locator_page_index a) @ ?edge a =
      sb @ append_integer (routing_policy_version b) @
        append_integer (locator_render_policy_version b) @
        append_integer (color_version (locator_color_policy_version b)) @
        append_string (working_profile_fingerprint (locator_color_policy_version b)) @
        append_integer (locator_page_index b) @ ?edge b"
    by (auto simp: serialize_cache_locator_def bind_Some_iff append_key_string_Some)
  from same have "catalog_source a = catalog_source b \<and>
      routing_policy_version a = routing_policy_version b \<and>
      locator_render_policy_version a = locator_render_policy_version b \<and>
      color_version (locator_color_policy_version a) = color_version (locator_color_policy_version b) \<and>
      working_profile_fingerprint (locator_color_policy_version a) =
        working_profile_fingerprint (locator_color_policy_version b) \<and>
      locator_page_index a = locator_page_index b \<and> ?edge a = ?edge b"
    unfolding stamp_then [OF stamps] using fits by (simp add: string_then)
  then show ?thesis
    by (cases a; cases b) (auto intro: ColorPolicyIdentity.equality split: if_splits)
qed

lemma locator_binding_inject:
  assumes "CHR 0x00 \<notin> set l" "CHR 0x00 \<notin> set l'"
    and "locator_binding_bytes l d = locator_binding_bytes l' d'"
  shows "l = l' \<and> d = d'"
proof -
  have "inj byte_of_char" by (metis char_byte_inverse injI)
  moreover from assms(3) have "map byte_of_char (l @ CHR 0x00 # d) = map byte_of_char (l' @ CHR 0x00 # d')"
    by (simp add: locator_binding_bytes_def)
  ultimately have same: "l @ CHR 0x00 # d = l' @ CHR 0x00 # d'" by (metis inj_map_eq_map)
  then have "takeWhile (\<lambda>c. c \<noteq> CHR 0x00) (l @ CHR 0x00 # d) =
      takeWhile (\<lambda>c. c \<noteq> CHR 0x00) (l' @ CHR 0x00 # d')" by (rule arg_cong)
  moreover have "takeWhile (\<lambda>c. c \<noteq> CHR 0x00) (m @ CHR 0x00 # e) = m" if "CHR 0x00 \<notin> set m" for m e
    using that by (subst takeWhile_append2) auto
  ultimately have "l = l'" using assms(1,2) by metis
  with same show ?thesis by simp
qed

end
