(* ===== verification/Cache_Artifact.thy ===== *)
theory Cache_Artifact
  imports Durable_Journal
begin

text \<open>
  The artifact file of the thumbnail cache: the types of
  \<open>src/Source/include/vove/cache/cache_types.hpp\<close>, and the checksums, \<open>encode_vvt1\<close> and
  \<open>decode_vvt1\<close> of \<open>src/Source/src/cache/artifact_store.cpp\<close>. A file is a header of at least 72
  bytes with its own checksum, followed by the payload. The table-driven checksum is proved equal
  to the bitwise one of the journal, and the UTF-8 check to the one of the file operations.
\<close>

section \<open>Types and limits\<close>

definition kVvt1Version :: u16 where "kVvt1Version = 5"
definition kVvt1HeaderBytes :: nat where "kVvt1HeaderBytes = 72"
definition kMaxArtifactDimension :: u32 where "kMaxArtifactDimension = 2048"
definition kMaxArtifactBytes :: nat where "kMaxArtifactBytes = 24 * 1024 * 1024"
definition kMaxArtifactPageCount :: u32 where "kMaxArtifactPageCount = 1000000"
definition kMaxSourceProfileNameBytes :: nat where "kMaxSourceProfileNameBytes = 256"
definition kMaxSourceProfileFingerprintBytes :: nat where "kMaxSourceProfileFingerprintBytes = 128"

text \<open>\<open>CacheDigest\<close>: an array of 32 bytes.\<close>

type_synonym CacheDigest = "byte list"

definition digest_sized :: "CacheDigest \<Rightarrow> bool" where
  "digest_sized digest \<longleftrightarrow> length digest = 32"

datatype ArtifactEncoding = Qoi_rgba8

datatype ColorModel =
    Model_unknown | Model_gray | Model_rgb | Model_cmyk | Model_lab | Model_mixed | Model_indexed

datatype PreviewProvenance = Primary_render | Embedded_preview

definition all_color_models :: "ColorModel list" where
  "all_color_models =
     [Model_unknown, Model_gray, Model_rgb, Model_cmyk, Model_lab, Model_mixed, Model_indexed]"

definition all_provenances :: "PreviewProvenance list" where
  "all_provenances = [Primary_render, Embedded_preview]"

definition encoding_code :: "ArtifactEncoding \<Rightarrow> u8" where
  "encoding_code e = (case e of Qoi_rgba8 \<Rightarrow> 1)"

record ArtifactMetadata =
  encoding :: ArtifactEncoding
  width :: u32
  height :: u32
  payload_bytes :: u32
  payload_crc32 :: u32
  page_count :: u32
  source_color_model :: ColorModel
  provenance :: PreviewProvenance

record ArtifactColorIdentity =
  source_profile_name :: string
  source_profile_fingerprint :: string

record ArtifactData =
  metadata :: ArtifactMetadata
  cache_key_digest :: CacheDigest
  color_identity :: ArtifactColorIdentity
  payload :: "byte list"

datatype StoreErrorCode =
  Store_none | Store_invalid_argument | Store_io_error | Store_artifact_too_large | Store_invalid_artifact

record StoreError =
  error_code :: StoreErrorCode
  error_message :: string

definition make_error :: "StoreErrorCode \<Rightarrow> string \<Rightarrow> StoreError" where
  "make_error code message = \<lparr>error_code = code, error_message = message\<rparr>"

text \<open>\<open>EncodedArtifact\<close> without the error.\<close>

record EncodedArtifact =
  encoded_bytes :: "byte list"
  encoded_metadata :: ArtifactMetadata
  encoded_digest :: CacheDigest
  encoded_color :: ArtifactColorIdentity

section \<open>The table-driven checksum\<close>

text \<open>One entry of \<open>make_crc32_table\<close>; the table itself, and the loop over it.\<close>

definition crc32_table_step :: "u32 \<Rightarrow> u32" where
  "crc32_table_step value = drop_bit 1 value XOR (0xEDB88320 AND (0 - (value AND 1)))"

definition make_crc32_table :: "u32 list" where
  "make_crc32_table = map (\<lambda>index. (crc32_table_step ^^ 8) (word_of_nat index)) [0..<256]"

definition table_crc32_byte :: "u32 \<Rightarrow> byte \<Rightarrow> u32" where
  "table_crc32_byte value b =
     (let table_index = (value XOR ucast b) AND 0xFF
      in drop_bit 8 value XOR make_crc32_table ! unat table_index)"

definition table_crc32 :: "byte list \<Rightarrow> u32" where
  "table_crc32 bytes = NOT (foldl table_crc32_byte 0xFFFFFFFF bytes)"

lemma crc32_bit_xor: "crc32_bit (a XOR b) = crc32_bit a XOR crc32_bit b"
  by (rule bit_word_eqI) (auto simp: bit_crc32_bit bit_xor_iff)

lemma crc32_bits_xor: "(crc32_bit ^^ n) (a XOR b) = (crc32_bit ^^ n) a XOR (crc32_bit ^^ n) b"
  by (induction n) (simp_all add: crc32_bit_xor)

text \<open>Bits that are still above the lowest only move down.\<close>

lemma crc32_bits_high:
  "(\<And>i. i < n \<Longrightarrow> \<not> bit a i) \<Longrightarrow> (crc32_bit ^^ n) a = drop_bit n a"
proof (induction n arbitrary: a)
  case (Suc n)
  have "crc32_bit a = drop_bit 1 a"
    using Suc.prems [of 0] by (intro bit_word_eqI) (simp add: bit_crc32_bit bit_drop_bit_eq)
  moreover have "\<not> bit (drop_bit 1 a) i" if "i < n" for i
    using Suc.prems [of "Suc i"] that by (simp add: bit_drop_bit_eq)
  ultimately show ?case
    using Suc.IH [of "drop_bit 1 a"]
    by (simp add: funpow_Suc_right drop_bit_drop_bit del: funpow.simps(2))
qed simp

lemma crc32_table_entry:
  assumes "unat i < 256"
  shows "make_crc32_table ! unat i = (crc32_bit ^^ 8) i"
proof -
  have "crc32_table_step = crc32_bit"
    by (rule ext) (simp add: crc32_table_step_def crc32_bit_def)
  with assms show ?thesis by (simp add: make_crc32_table_def)
qed

lemma table_crc32_byte_eq: "table_crc32_byte value b = crc32_byte value b"
proof -
  define x where "x = value XOR ucast b"
  define low where "low = x AND mask 8"
  define high where "high = x AND NOT (mask 8)"
  have low_bits: "bit low i \<longleftrightarrow> bit x i \<and> i < 8" for i
    by (auto simp: low_def bit_and_iff bit_mask_iff dest: bit_imp_le_length)
  have high_bits: "bit high i \<longleftrightarrow> bit x i \<and> 8 \<le> i" for i
    by (auto simp: high_def bit_and_iff bit_not_iff bit_mask_iff dest: bit_imp_le_length)
  have split: "x = low XOR high"
    by (rule bit_word_eqI) (auto simp: bit_xor_iff low_bits high_bits)
  have "unat low < 256"
  proof -
    have "low \<le> mask 8" by (simp add: low_def word_and_le1)
    then have "unat low \<le> unat (mask 8 :: u32)" by (simp add: word_le_nat_alt)
    also have "unat (mask 8 :: u32) = 255" by (simp add: mask_eq_exp_minus_1)
    finally show ?thesis by simp
  qed
  note entry = crc32_table_entry [OF this]
  have "(crc32_bit ^^ 8) high = drop_bit 8 high"
    by (rule crc32_bits_high) (simp add: high_bits)
  also have "\<dots> = drop_bit 8 value"
    by (rule bit_word_eqI)
      (auto simp: bit_drop_bit_eq high_bits x_def bit_xor_iff bit_ucast_iff dest: bit_imp_le_length)
  finally have top_bits: "(crc32_bit ^^ 8) high = drop_bit 8 value" .
  have "(0xFF :: u32) = mask 8" by (simp add: mask_eq_exp_minus_1)
  then have "table_crc32_byte value b = drop_bit 8 value XOR make_crc32_table ! unat low"
    by (simp only: table_crc32_byte_def Let_def x_def low_def)
  also have "\<dots> = (crc32_bit ^^ 8) (low XOR high)"
    by (simp only: entry crc32_bits_xor top_bits xor.commute)
  finally show ?thesis by (simp only: crc32_byte_def split [symmetric] x_def)
qed

lemma table_crc32_eq: "table_crc32 = crc32"
  by (rule ext) (simp add: table_crc32_def crc32_def table_crc32_byte_eq [abs_def])

section \<open>UTF-8\<close>

text \<open>The lead unit: how many continuation units follow, and its payload bits.\<close>

definition profile_utf8_lead :: "byte \<Rightarrow> (nat \<times> u32) option" where
  "profile_utf8_lead first =
     (if first \<le> 0x7F then (if first = 0 then None else Some (0, ucast first))
      else if 0xC2 \<le> first \<and> first \<le> 0xDF then Some (1, ucast (first AND 0x1F))
      else if 0xE0 \<le> first \<and> first \<le> 0xEF then Some (2, ucast (first AND 0x0F))
      else if 0xF0 \<le> first \<and> first \<le> 0xF4 then Some (3, ucast (first AND 0x07))
      else None)"

function valid_profile_utf8 :: "string \<Rightarrow> bool" where
  "valid_profile_utf8 [] = True"
| "valid_profile_utf8 (c # cs) =
     (case profile_utf8_lead (byte_of_char c) of
        None \<Rightarrow> False
      | Some (count, code_point) \<Rightarrow>
          if length cs < count then False
          else case utf8_continue code_point (take count cs) of
                 None \<Rightarrow> False
               | Some code_point \<Rightarrow>
                   if utf8_code_point_bad count code_point then False
                   else valid_profile_utf8 (drop count cs))"
  by pat_completeness auto
termination
  by (relation "measure length") auto

definition valid_color_identity :: "ArtifactColorIdentity \<Rightarrow> bool" where
  "valid_color_identity identity \<longleftrightarrow>
     length (source_profile_name identity) \<le> kMaxSourceProfileNameBytes \<and>
     length (source_profile_fingerprint identity) \<le> kMaxSourceProfileFingerprintBytes \<and>
     valid_profile_utf8 (source_profile_name identity) \<and>
     valid_profile_utf8 (source_profile_fingerprint identity)"

section \<open>Fields\<close>

definition kVvt1Magic :: "byte list" where
  "kVvt1Magic = [0x56, 0x56, 0x54, 0x31]"

definition write_u16 :: "u16 \<Rightarrow> byte list" where
  "write_u16 value = [ucast value, ucast (drop_bit 8 value)]"

definition read_u16 :: "byte list \<Rightarrow> nat \<Rightarrow> u16" where
  "read_u16 input offset = ucast (input ! offset) OR push_bit 8 (ucast (input ! (offset + 1)))"

text \<open>\<open>write_u32\<close> into an existing buffer.\<close>

definition patch_u32 :: "byte list \<Rightarrow> nat \<Rightarrow> u32 \<Rightarrow> byte list" where
  "patch_u32 output offset value =
     take offset output @ write_u32_le value @ drop (offset + 4) output"

lemma read_write_u16:
  "offset = length pre \<Longrightarrow> read_u16 (pre @ write_u16 v @ post) offset = v"
  by (rule bit_word_eqI)
    (auto simp: read_u16_def write_u16_def nth_append bit_or_iff bit_push_bit_iff bit_ucast_iff
      bit_drop_bit_eq)

lemma write_read_u16: "write_u16 (read_u16 bs offset) = [bs ! offset, bs ! (offset + 1)]"
proof -
  have "ucast (drop_bit 0 (read_u16 bs offset)) = bs ! offset"
    "ucast (drop_bit 8 (read_u16 bs offset)) = bs ! (offset + 1)"
    by (rule bit_word_eqI, simp add: read_u16_def bit_or_iff bit_push_bit_iff bit_ucast_iff
        bit_drop_bit_eq, auto dest: bit_imp_le_length)+
  then show ?thesis by (simp add: write_u16_def)
qed

lemma length_write_u16 [simp]: "length (write_u16 v) = 2"
  by (simp add: write_u16_def)

lemma drop_u16:
  assumes "n + 2 \<le> length bs"
  shows "drop n bs = write_u16 (read_u16 bs n) @ drop (n + 2) bs"
proof -
  have "take 2 (drop n bs) = [bs ! n, bs ! (n + 1)]"
    using assms by (simp add: list_eq_iff_nth_eq numeral_eq_Suc less_Suc_eq nth_Cons' all_conj_distrib)
  then show ?thesis
    using append_take_drop_id [of 2 "drop n bs"] by (simp add: write_read_u16 add.commute)
qed

section \<open>Encoding\<close>

text \<open>The header as the encoder lays it out, for a value of the encoding field and of the header
  checksum.\<close>

definition header_length :: "ArtifactColorIdentity \<Rightarrow> nat" where
  "header_length color =
     kVvt1HeaderBytes + length (source_profile_name color) + length (source_profile_fingerprint color)"

definition vvt1_header ::
  "u16 \<Rightarrow> ArtifactMetadata \<Rightarrow> CacheDigest \<Rightarrow> ArtifactColorIdentity \<Rightarrow> u32 \<Rightarrow> byte list"
where
  "vvt1_header encoding_field m digest color header_crc =
     kVvt1Magic @ write_u16 kVvt1Version @ write_u16 (word_of_nat (header_length color)) @
     write_u16 encoding_field @ [enum_code all_color_models (source_color_model m)] @
     [enum_code all_provenances (provenance m)] @ write_u32_le (width m) @ write_u32_le (height m) @
     write_u32_le (payload_bytes m) @ write_u32_le (payload_crc32 m) @ write_u32_le header_crc @
     digest @ write_u16 (word_of_nat (length (source_profile_name color))) @
     write_u16 (word_of_nat (length (source_profile_fingerprint color))) @
     write_u32_le (page_count m) @ map byte_of_char (source_profile_name color) @
     map byte_of_char (source_profile_fingerprint color)"

text \<open>The checks on encoding, colour model and provenance are on values of the enumerations here.\<close>

definition valid_dimensions :: "ArtifactMetadata \<Rightarrow> bool" where
  "valid_dimensions m \<longleftrightarrow>
     width m \<noteq> 0 \<and> height m \<noteq> 0 \<and> width m \<le> kMaxArtifactDimension \<and>
     height m \<le> kMaxArtifactDimension \<and> page_count m \<noteq> 0 \<and> page_count m \<le> kMaxArtifactPageCount"

definition encode_vvt1 ::
  "ArtifactMetadata \<Rightarrow> byte list \<Rightarrow> CacheDigest \<Rightarrow> ArtifactColorIdentity \<Rightarrow> StoreError + EncodedArtifact"
where
  "encode_vvt1 m content digest color =
     (if \<not> valid_dimensions m then
        Inl (make_error Store_invalid_argument ''artifact dimensions or encoding are invalid'')
      else if \<not> valid_color_identity color then
        Inl (make_error Store_invalid_argument
               ''artifact color identity is invalid or exceeds its limit'')
      else if 2 ^ 16 - 1 < header_length color \<or>
              kMaxArtifactBytes - header_length color < length content \<or>
              2 ^ 32 - 1 < length content then
        Inl (make_error Store_artifact_too_large ''artifact payload exceeds the size limit'')
      else
        let m = m\<lparr>payload_bytes := word_of_nat (length content),
                  payload_crc32 := table_crc32 content\<rparr>;
            header = vvt1_header (ucast (encoding_code (encoding m))) m digest color
        in Inr \<lparr>encoded_bytes = header (table_crc32 (header 0)) @ content, encoded_metadata = m,
                encoded_digest = digest, encoded_color = color\<rparr>)"

section \<open>Decoding\<close>

definition invalid_artifact :: "string \<Rightarrow> StoreError + 'a" where
  "invalid_artifact message = Inl (make_error Store_invalid_artifact message)"

text \<open>The cast of the 16-bit field to the 8-bit enumeration, with the comparison that follows.\<close>

definition decode_encoding :: "u16 \<Rightarrow> ArtifactEncoding option" where
  "decode_encoding field =
     (if (ucast field :: u8) = encoding_code Qoi_rgba8 then Some Qoi_rgba8 else None)"

definition decode_metadata :: "byte list \<Rightarrow> ArtifactMetadata option" where
  "decode_metadata bytes =
     (case (decode_encoding (read_u16 bytes 8), enum_of all_color_models (bytes ! 10),
            enum_of all_provenances (bytes ! 11)) of
        (Some e, Some model, Some prov) \<Rightarrow>
          let m = \<lparr>encoding = e, width = read_u32_le bytes 12, height = read_u32_le bytes 16,
                   payload_bytes = read_u32_le bytes 20, payload_crc32 = read_u32_le bytes 24,
                   page_count = read_u32_le bytes 68, source_color_model = model,
                   provenance = prov\<rparr>
          in if valid_dimensions m then Some m else None
      | _ \<Rightarrow> None)"

definition decode_vvt1 :: "byte list \<Rightarrow> StoreError + ArtifactData" where
  "decode_vvt1 bytes =
     (if length bytes < kVvt1HeaderBytes \<or> kMaxArtifactBytes < length bytes then
        invalid_artifact ''artifact size is outside limits''
      else if take 4 bytes \<noteq> kVvt1Magic then invalid_artifact ''artifact magic is invalid''
      else let header_bytes = unat (read_u16 bytes 6) in
      if read_u16 bytes 4 \<noteq> kVvt1Version \<or> header_bytes < kVvt1HeaderBytes \<or>
         length bytes < header_bytes then
        invalid_artifact ''artifact version is unsupported''
      else let profile_name_bytes = unat (read_u16 bytes 64);
               profile_fingerprint_bytes = unat (read_u16 bytes 66) in
      if kMaxSourceProfileNameBytes < profile_name_bytes \<or>
         kMaxSourceProfileFingerprintBytes < profile_fingerprint_bytes \<or>
         header_bytes \<noteq> kVvt1HeaderBytes + profile_name_bytes + profile_fingerprint_bytes then
        invalid_artifact ''artifact color identity length is invalid''
      else let checked_header = patch_u32 (take header_bytes bytes) 28 0 in
      if table_crc32 checked_header \<noteq> read_u32_le bytes 28 then
        invalid_artifact ''artifact header checksum is invalid''
      else case decode_metadata bytes of
        None \<Rightarrow> invalid_artifact ''artifact header fields are invalid''
      | Some m \<Rightarrow>
          if kMaxArtifactBytes - header_bytes < unat (payload_bytes m) \<or>
             length bytes \<noteq> header_bytes + unat (payload_bytes m) then
            invalid_artifact ''artifact payload length is invalid''
          else let profile_data = map char_of_byte (drop kVvt1HeaderBytes bytes);
                   color = \<lparr>source_profile_name = take profile_name_bytes profile_data,
                     source_profile_fingerprint =
                       take profile_fingerprint_bytes (drop profile_name_bytes profile_data)\<rparr> in
          if \<not> valid_color_identity color then
            invalid_artifact ''artifact color identity is invalid UTF-8''
          else let content = drop header_bytes bytes in
          if table_crc32 content \<noteq> payload_crc32 m then
            invalid_artifact ''artifact payload checksum is invalid''
          else Inr \<lparr>metadata = m, cache_key_digest = take 32 (drop 32 bytes),
                    color_identity = color, payload = content\<rparr>)"

section \<open>What the decoder accepts\<close>

definition vvt1_file :: "u16 \<Rightarrow> ArtifactData \<Rightarrow> byte list" where
  "vvt1_file field a =
     (let header = vvt1_header field (metadata a) (cache_key_digest a) (color_identity a)
      in header (table_crc32 (header 0)) @ payload a)"

definition artifact_ok :: "ArtifactData \<Rightarrow> bool" where
  "artifact_ok a \<longleftrightarrow>
     valid_dimensions (metadata a) \<and> digest_sized (cache_key_digest a) \<and>
     valid_color_identity (color_identity a) \<and>
     length (payload a) \<le> kMaxArtifactBytes - header_length (color_identity a) \<and>
     payload_bytes (metadata a) = word_of_nat (length (payload a)) \<and>
     payload_crc32 (metadata a) = table_crc32 (payload a)"

lemma color_models_table: "enum_table all_color_models"
proof -
  have "x \<in> set all_color_models" for x by (cases x) (simp_all add: all_color_models_def)
  then show ?thesis by (simp add: enum_table_def) (simp add: all_color_models_def)
qed

lemma provenances_table: "enum_table all_provenances"
proof -
  have "x \<in> set all_provenances" for x by (cases x) (simp_all add: all_provenances_def)
  then show ?thesis by (simp add: enum_table_def) (simp add: all_provenances_def)
qed

lemma valid_color_lengths:
  assumes "valid_color_identity c"
  shows "length (source_profile_name c) \<le> 256" "length (source_profile_fingerprint c) \<le> 128"
    "header_length c \<le> 456"
  using assms
  by (simp_all add: valid_color_identity_def header_length_def kMaxSourceProfileNameBytes_def
      kMaxSourceProfileFingerprintBytes_def kVvt1HeaderBytes_def)

lemma unat_u16: "n < 2 ^ 16 \<Longrightarrow> unat (word_of_nat n :: u16) = n"
  by (simp add: unat_of_nat take_bit_eq_mod)

text \<open>The fields of a laid-out header, each at its offset.\<close>

lemma header_fields:
  assumes digest: "length digest = 32"
    and bytes: "bytes = vvt1_header field m digest color crc @ content"
  shows "take 4 bytes = kVvt1Magic" "read_u16 bytes 4 = kVvt1Version"
    "read_u16 bytes 6 = word_of_nat (header_length color)" "read_u16 bytes 8 = field"
    "bytes ! 10 = enum_code all_color_models (source_color_model m)"
    "bytes ! 11 = enum_code all_provenances (provenance m)"
    "read_u32_le bytes 12 = width m" "read_u32_le bytes 16 = height m"
    "read_u32_le bytes 20 = payload_bytes m" "read_u32_le bytes 24 = payload_crc32 m"
    "read_u32_le bytes 28 = crc" "take 32 (drop 32 bytes) = digest"
    "read_u16 bytes 64 = word_of_nat (length (source_profile_name color))"
    "read_u16 bytes 66 = word_of_nat (length (source_profile_fingerprint color))"
    "read_u32_le bytes 68 = page_count m"
    "drop 72 bytes = map byte_of_char (source_profile_name color) @
       map byte_of_char (source_profile_fingerprint color) @ content"
proof -
  have magic: "length kVvt1Magic = 4" by (simp add: kVvt1Magic_def)
  let ?v = "write_u16 kVvt1Version" and ?h = "write_u16 (word_of_nat (header_length color))"
    and ?f = "write_u16 field" and ?c = "[enum_code all_color_models (source_color_model m)]"
    and ?p = "[enum_code all_provenances (provenance m)]"
    and ?w = "write_u32_le (width m)" and ?t = "write_u32_le (height m)"
    and ?b = "write_u32_le (payload_bytes m)" and ?k = "write_u32_le (payload_crc32 m)"
    and ?x = "write_u32_le crc"
    and ?n = "write_u16 (word_of_nat (length (source_profile_name color)))"
    and ?s = "write_u16 (word_of_nat (length (source_profile_fingerprint color)))"
    and ?q = "write_u32_le (page_count m)"
    and ?r = "map byte_of_char (source_profile_name color) @
       map byte_of_char (source_profile_fingerprint color) @ content"
  have all: "bytes = kVvt1Magic @ ?v @ ?h @ ?f @ ?c @ ?p @ ?w @ ?t @ ?b @ ?k @ ?x @ digest @
      ?n @ ?s @ ?q @ ?r"
    by (simp add: bytes vvt1_header_def)
  let ?A = "kVvt1Magic @ ?v @ ?h @ ?f @ ?c @ ?p"
  let ?B = "?A @ ?w @ ?t @ ?b @ ?k @ ?x @ digest"
  show "take 4 bytes = kVvt1Magic" by (simp add: all magic)
  show "read_u16 bytes 4 = kVvt1Version"
    using read_write_u16 [of 4 kVvt1Magic] magic by (simp add: all)
  show "read_u16 bytes 6 = word_of_nat (header_length color)"
    using read_write_u16 [of 6 "kVvt1Magic @ ?v"] magic by (simp add: all)
  show "read_u16 bytes 8 = field"
    using read_write_u16 [of 8 "kVvt1Magic @ ?v @ ?h"] magic by (simp add: all)
  show "bytes ! 10 = enum_code all_color_models (source_color_model m)"
    using nth_append_length [of "kVvt1Magic @ ?v @ ?h @ ?f"] magic by (simp add: all)
  show "bytes ! 11 = enum_code all_provenances (provenance m)"
    using nth_append_length [of "kVvt1Magic @ ?v @ ?h @ ?f @ ?c"] magic by (simp add: all)
  show "read_u32_le bytes 12 = width m"
    using read_write_u32 [of 12 ?A] magic by (simp add: all)
  show "read_u32_le bytes 16 = height m"
    using read_write_u32 [of 16 "?A @ ?w"] magic by (simp add: all)
  show "read_u32_le bytes 20 = payload_bytes m"
    using read_write_u32 [of 20 "?A @ ?w @ ?t"] magic by (simp add: all)
  show "read_u32_le bytes 24 = payload_crc32 m"
    using read_write_u32 [of 24 "?A @ ?w @ ?t @ ?b"] magic by (simp add: all)
  show "read_u32_le bytes 28 = crc"
    using read_write_u32 [of 28 "?A @ ?w @ ?t @ ?b @ ?k"] magic by (simp add: all)
  show "take 32 (drop 32 bytes) = digest" by (simp add: all magic digest)
  show "read_u16 bytes 64 = word_of_nat (length (source_profile_name color))"
    using read_write_u16 [of 64 ?B] magic digest by (simp add: all)
  show "read_u16 bytes 66 = word_of_nat (length (source_profile_fingerprint color))"
    using read_write_u16 [of 66 "?B @ ?n"] magic digest by (simp add: all)
  show "read_u32_le bytes 68 = page_count m"
    using read_write_u32 [of 68 "?B @ ?n @ ?s"] magic digest by (simp add: all)
  show "drop 72 bytes = ?r" by (simp add: all magic digest)
qed

lemma length_vvt1_header [simp]:
  "length digest = 32 \<Longrightarrow> length (vvt1_header field m digest color crc) = header_length color"
  by (simp add: vvt1_header_def header_length_def kVvt1HeaderBytes_def kVvt1Magic_def)

text \<open>Conversely, the first 72 bytes are determined by the fields.\<close>

lemma header_bytes_eq:
  assumes "72 \<le> length bytes" "take 4 bytes = kVvt1Magic"
  shows "bytes = kVvt1Magic @ write_u16 (read_u16 bytes 4) @ write_u16 (read_u16 bytes 6) @
    write_u16 (read_u16 bytes 8) @ [bytes ! 10] @ [bytes ! 11] @ write_u32_le (read_u32_le bytes 12) @
    write_u32_le (read_u32_le bytes 16) @ write_u32_le (read_u32_le bytes 20) @
    write_u32_le (read_u32_le bytes 24) @ write_u32_le (read_u32_le bytes 28) @
    take 32 (drop 32 bytes) @ write_u16 (read_u16 bytes 64) @ write_u16 (read_u16 bytes 66) @
    write_u32_le (read_u32_le bytes 68) @ drop 72 bytes"
proof -
  have "bytes = kVvt1Magic @ drop 4 bytes" using assms(2) by (metis append_take_drop_id)
  also have "drop 4 bytes = write_u16 (read_u16 bytes 4) @ drop 6 bytes"
    using drop_u16 [of 4 bytes] assms(1) by simp
  also have "drop 6 bytes = write_u16 (read_u16 bytes 6) @ drop 8 bytes"
    using drop_u16 [of 6 bytes] assms(1) by simp
  also have "drop 8 bytes = write_u16 (read_u16 bytes 8) @ drop 10 bytes"
    using drop_u16 [of 8 bytes] assms(1) by simp
  also have "drop 10 bytes = [bytes ! 10] @ [bytes ! 11] @ drop 12 bytes"
    using Cons_nth_drop_Suc [of 10 bytes] Cons_nth_drop_Suc [of 11 bytes] assms(1) by simp
  also have "drop 12 bytes = write_u32_le (read_u32_le bytes 12) @ drop 16 bytes"
    using drop_u32 [of 12 bytes] assms(1) by simp
  also have "drop 16 bytes = write_u32_le (read_u32_le bytes 16) @ drop 20 bytes"
    using drop_u32 [of 16 bytes] assms(1) by simp
  also have "drop 20 bytes = write_u32_le (read_u32_le bytes 20) @ drop 24 bytes"
    using drop_u32 [of 20 bytes] assms(1) by simp
  also have "drop 24 bytes = write_u32_le (read_u32_le bytes 24) @ drop 28 bytes"
    using drop_u32 [of 24 bytes] assms(1) by simp
  also have "drop 28 bytes = write_u32_le (read_u32_le bytes 28) @ drop 32 bytes"
    using drop_u32 [of 28 bytes] assms(1) by simp
  also have "drop 32 bytes = take 32 (drop 32 bytes) @ drop 64 bytes"
    using append_take_drop_id [of 32 "drop 32 bytes"] by simp
  also have "drop 64 bytes = write_u16 (read_u16 bytes 64) @ drop 66 bytes"
    using drop_u16 [of 64 bytes] assms(1) by simp
  also have "drop 66 bytes = write_u16 (read_u16 bytes 66) @ drop 68 bytes"
    using drop_u16 [of 66 bytes] assms(1) by simp
  also have "drop 68 bytes = write_u32_le (read_u32_le bytes 68) @ drop 72 bytes"
    using drop_u32 [of 68 bytes] assms(1) by simp
  finally show ?thesis .
qed

lemma patch_header:
  assumes "length digest = 32"
  shows "patch_u32 (vvt1_header field m digest color crc) 28 v = vvt1_header field m digest color v"
proof -
  obtain P Q where "length P = 28"
    and "\<And>x. vvt1_header field m digest color x = P @ write_u32_le x @ Q"
  proof
    show "length (kVvt1Magic @ write_u16 kVvt1Version @ write_u16 (word_of_nat (header_length color)) @
        write_u16 field @ [enum_code all_color_models (source_color_model m)] @
        [enum_code all_provenances (provenance m)] @ write_u32_le (width m) @ write_u32_le (height m) @
        write_u32_le (payload_bytes m) @ write_u32_le (payload_crc32 m)) = 28"
      by (simp add: kVvt1Magic_def)
  qed (simp add: vvt1_header_def)
  then show ?thesis by (simp add: patch_u32_def)
qed

lemma decode_encoding_iff: "decode_encoding field = Some e \<longleftrightarrow> (ucast field :: u8) = encoding_code e"
  by (cases e) (auto simp: decode_encoding_def)

lemma decode_metadata_iff:
  "decode_metadata bytes = Some m \<longleftrightarrow>
     (ucast (read_u16 bytes 8) :: u8) = encoding_code (encoding m) \<and>
     bytes ! 10 = enum_code all_color_models (source_color_model m) \<and>
     bytes ! 11 = enum_code all_provenances (provenance m) \<and>
     read_u32_le bytes 12 = width m \<and> read_u32_le bytes 16 = height m \<and>
     read_u32_le bytes 20 = payload_bytes m \<and> read_u32_le bytes 24 = payload_crc32 m \<and>
     read_u32_le bytes 68 = page_count m \<and> valid_dimensions m"
  by (cases m)
    (auto simp: decode_metadata_def decode_encoding_iff [symmetric] enum_of_iff [OF color_models_table, symmetric]
      enum_of_iff [OF provenances_table, symmetric] Let_def split: option.splits)

lemma decode_vvt1_file:
  assumes ok: "artifact_ok a" and field: "(ucast field :: u8) = encoding_code (encoding (metadata a))"
  shows "decode_vvt1 (vvt1_file field a) = Inr a"
proof -
  let ?m = "metadata a" and ?d = "cache_key_digest a" and ?c = "color_identity a"
  define crc where "crc = table_crc32 (vvt1_header field ?m ?d ?c 0)"
  define bytes where "bytes = vvt1_header field ?m ?d ?c crc @ payload a"
  have file_eq: "vvt1_file field a = bytes" by (simp add: vvt1_file_def bytes_def crc_def Let_def)
  from ok have d: "length ?d = 32" and color: "valid_color_identity ?c"
    and size: "length (payload a) \<le> kMaxArtifactBytes - header_length ?c"
    and dims: "valid_dimensions ?m"
    and stored: "payload_bytes ?m = word_of_nat (length (payload a))"
      "payload_crc32 ?m = table_crc32 (payload a)"
    by (simp_all add: artifact_ok_def digest_sized_def)
  note fields = header_fields [OF d bytes_def]
  note short = valid_color_lengths [OF color]
  have len: "length bytes = header_length ?c + length (payload a)"
    using d by (simp add: bytes_def)
  have sum: "kVvt1HeaderBytes + length (source_profile_name ?c) +
      length (source_profile_fingerprint ?c) = header_length ?c"
    and big: "kVvt1HeaderBytes \<le> header_length ?c" by (simp_all add: header_length_def)
  have nums: "unat (word_of_nat (header_length ?c) :: u16) = header_length ?c"
    "unat (word_of_nat (length (source_profile_name ?c)) :: u16) = length (source_profile_name ?c)"
    "unat (word_of_nat (length (source_profile_fingerprint ?c)) :: u16) =
       length (source_profile_fingerprint ?c)"
    using short by (simp_all add: unat_u16)
  have content: "unat (payload_bytes ?m) = length (payload a)"
    using size by (simp add: stored unat_of_nat take_bit_eq_mod kMaxArtifactBytes_def)
  have checked: "patch_u32 (take (header_length ?c) bytes) 28 0 = vvt1_header field ?m ?d ?c 0"
    using d by (simp add: bytes_def patch_header)
  have meta: "decode_metadata bytes = Some ?m"
    using fields field dims by (simp add: decode_metadata_iff)
  have rest: "drop (header_length ?c) bytes = payload a" using d by (simp add: bytes_def)
  have same: "\<lparr>source_profile_name = source_profile_name ?c,
      source_profile_fingerprint = source_profile_fingerprint ?c\<rparr> = ?c" by simp
  have names: "drop kVvt1HeaderBytes bytes = map byte_of_char (source_profile_name ?c) @
      map byte_of_char (source_profile_fingerprint ?c) @ payload a"
    using fields(16) by (simp add: kVvt1HeaderBytes_def)
  have "length bytes \<le> kMaxArtifactBytes" "length (source_profile_name ?c) \<le> kMaxSourceProfileNameBytes"
    "length (source_profile_fingerprint ?c) \<le> kMaxSourceProfileFingerprintBytes"
    using size len short by (simp_all add: kMaxArtifactBytes_def kMaxSourceProfileNameBytes_def
        kMaxSourceProfileFingerprintBytes_def)
  then show ?thesis
    using big size color
    by (simp add: file_eq decode_vvt1_def fields(1-3,11-14) nums meta checked rest len content names
        crc_def [symmetric] stored(2) sum same not_less comp_def Let_def)
qed

lemma decode_vvt1_Inr:
  assumes "decode_vvt1 bytes = Inr a"
  shows "artifact_ok a \<and> (ucast (read_u16 bytes 8) :: u8) = encoding_code (encoding (metadata a)) \<and>
    bytes = vvt1_file (read_u16 bytes 8) a"
proof -
  define hb where "hb = unat (read_u16 bytes 6)"
  define nb where "nb = unat (read_u16 bytes 64)"
  define fb where "fb = unat (read_u16 bytes 66)"
  let ?m = "metadata a" and ?d = "cache_key_digest a" and ?c = "color_identity a"
  note accepted = assms [unfolded decode_vvt1_def invalid_artifact_def, folded hb_def nb_def fb_def]
  from accepted have size: "72 \<le> length bytes" "length bytes \<le> kMaxArtifactBytes"
    and magic: "take 4 bytes = kVvt1Magic" and version: "read_u16 bytes 4 = kVvt1Version"
    and hb: "hb = 72 + nb + fb" "hb \<le> length bytes"
    and crc: "table_crc32 (patch_u32 (take hb bytes) 28 0) = read_u32_le bytes 28"
    and meta: "decode_metadata bytes = Some ?m"
    and length_ok: "unat (payload_bytes ?m) \<le> kMaxArtifactBytes - hb"
      "length bytes = hb + unat (payload_bytes ?m)"
    and color: "valid_color_identity ?c"
    and content: "table_crc32 (payload a) = payload_crc32 ?m" "payload a = drop hb bytes"
    and digest: "?d = take 32 (drop 32 bytes)"
    and profile: "source_profile_name ?c = take nb (map char_of_byte (drop 72 bytes))"
      "source_profile_fingerprint ?c = take fb (drop nb (map char_of_byte (drop 72 bytes)))"
    by (auto simp: Let_def kVvt1HeaderBytes_def not_less split: if_split_asm option.split_asm)
  have d: "length ?d = 32" using size(1) by (simp add: digest)
  have lens: "length (source_profile_name ?c) = nb" "length (source_profile_fingerprint ?c) = fb"
    using hb by (simp_all add: profile)
  have names: "drop 72 bytes = map byte_of_char (source_profile_name ?c) @
      map byte_of_char (source_profile_fingerprint ?c) @ drop hb bytes"
  proof -
    have "map byte_of_char (source_profile_name ?c) = take nb (drop 72 bytes)"
      by (simp only: profile take_map map_byte_char_inverse)
    moreover have "map byte_of_char (source_profile_fingerprint ?c) = take fb (drop nb (drop 72 bytes))"
      by (simp only: profile take_map drop_map map_byte_char_inverse)
    moreover have "drop hb bytes = drop fb (drop nb (drop 72 bytes))"
      by (simp add: hb(1) add.commute add.left_commute)
    ultimately show ?thesis by (metis append_take_drop_id)
  qed
  have header_len: "header_length ?c = hb" by (simp add: header_length_def lens hb(1) kVvt1HeaderBytes_def)
  have words: "word_of_nat hb = read_u16 bytes 6" "word_of_nat nb = read_u16 bytes 64"
    "word_of_nat fb = read_u16 bytes 66" by (simp_all add: hb_def nb_def fb_def)
  have laid: "bytes = vvt1_header (read_u16 bytes 8) ?m ?d ?c (read_u32_le bytes 28) @ payload a"
  proof -
    have "bytes = kVvt1Magic @ write_u16 kVvt1Version @ write_u16 (read_u16 bytes 6) @
      write_u16 (read_u16 bytes 8) @ [enum_code all_color_models (source_color_model ?m)] @
      [enum_code all_provenances (provenance ?m)] @ write_u32_le (width ?m) @
      write_u32_le (height ?m) @ write_u32_le (payload_bytes ?m) @ write_u32_le (payload_crc32 ?m) @
      write_u32_le (read_u32_le bytes 28) @ ?d @ write_u16 (read_u16 bytes 64) @
      write_u16 (read_u16 bytes 66) @ write_u32_le (page_count ?m) @ drop 72 bytes"
      using header_bytes_eq [OF size(1) magic] meta
      unfolding decode_metadata_iff version digest by (elim conjE) (simp only:)
    then show ?thesis
      unfolding vvt1_header_def header_len lens words content(2) append_assoc names [symmetric] .
  qed
  from laid d header_len have "take hb bytes = vvt1_header (read_u16 bytes 8) ?m ?d ?c (read_u32_le bytes 28)"
    by (metis append_eq_conv_conj length_vvt1_header)
  then have "read_u32_le bytes 28 = table_crc32 (vvt1_header (read_u16 bytes 8) ?m ?d ?c 0)"
    using crc patch_header [OF d] by metis
  with laid have "bytes = vvt1_file (read_u16 bytes 8) a" by (simp add: vvt1_file_def Let_def)
  moreover have "length (payload a) = unat (payload_bytes ?m)"
    using length_ok(2) by (simp add: content(2))
  then have "artifact_ok a"
    using meta color length_ok(1) content(1) d
    by (simp add: artifact_ok_def decode_metadata_iff digest_sized_def header_len)
  moreover from meta have "(ucast (read_u16 bytes 8) :: u8) = encoding_code (encoding ?m)"
    by (simp add: decode_metadata_iff)
  ultimately show ?thesis by blast
qed

end
