(* ===== verification/Memory_Cache.thy ===== *)
theory Memory_Cache
  imports Cache_Artifact
begin

text \<open>
  The in-memory cache of artifacts: \<open>src/Source/src/cache/memory_artifact_cache.cpp\<close>. The list of
  entries, most recently used first, and the hash map into it are modelled as the code keeps them:
  a list of nodes with addresses, and a map from digests to addresses. Using an iterator that
  points to no node is \<^const>\<open>None\<close>, so that a lemma that an operation returns is a lemma
  that it never touches a dangling iterator. The specification is a list without addresses.
\<close>

section \<open>State\<close>

record MemoryCacheLimits =
  maximum_entries :: nat
  maximum_bytes :: u64

record MemoryCacheStats =
  stat_entries :: nat
  stat_bytes :: u64
  stat_hits :: u64
  stat_misses :: u64
  stat_evictions :: u64

record MemoryEntry =
  entry_digest :: string
  entry_artifact :: ArtifactData
  entry_weight :: u64
  entry_access :: i64

type_synonym iterator = nat

record MemoryArtifactCache =
  limits :: MemoryCacheLimits
  entries :: "(iterator \<times> MemoryEntry) list"
  by_digest :: "string \<rightharpoonup> iterator"
  stats :: MemoryCacheStats
  next_node :: iterator \<comment> \<open>the address the allocator gives the next node\<close>

definition MemoryArtifactCache_new :: "MemoryCacheLimits \<Rightarrow> MemoryArtifactCache" where
  "MemoryArtifactCache_new lim =
     \<lparr>limits = lim, entries = [], by_digest = Map.empty,
      stats = \<lparr>stat_entries = 0, stat_bytes = 0, stat_hits = 0, stat_misses = 0, stat_evictions = 0\<rparr>,
      next_node = 0\<rparr>"

definition valid_digest :: "string \<Rightarrow> bool" where
  "valid_digest digest \<longleftrightarrow>
     length digest = 64 \<and>
     list_all (\<lambda>c. let v = (of_char c :: nat) in 48 \<le> v \<and> v \<le> 57 \<or> 97 \<le> v \<and> v \<le> 102) digest"

definition artifact_weight :: "ArtifactData \<Rightarrow> u64" where
  "artifact_weight artifact = word_of_nat kVvt1HeaderBytes + word_of_nat (length (payload artifact))"

section \<open>Operations\<close>

text \<open>What an iterator points to, and the list without that node.\<close>

definition node_at :: "iterator \<Rightarrow> MemoryArtifactCache \<Rightarrow> MemoryEntry option" where
  "node_at i c = map_of (entries c) i"

definition without_node :: "iterator \<Rightarrow> (iterator \<times> MemoryEntry) list \<Rightarrow> (iterator \<times> MemoryEntry) list" where
  "without_node i nodes = filter (\<lambda>(j, _). j \<noteq> i) nodes"

definition erase_entry :: "iterator \<Rightarrow> MemoryArtifactCache \<Rightarrow> MemoryArtifactCache option" where
  "erase_entry i c =
     (case node_at i c of
        None \<Rightarrow> None
      | Some e \<Rightarrow>
          let nodes = without_node i (entries c) in
          Some (c\<lparr>entries := nodes, by_digest := (by_digest c)(entry_digest e := None),
                  stats := (stats c)\<lparr>stat_bytes := stat_bytes (stats c) - entry_weight e,
                                    stat_entries := length nodes\<rparr>\<rparr>))"

text \<open>\<open>std::prev(entries_.end())\<close> of an empty list is \<^const>\<open>None\<close>.\<close>

definition last_iterator :: "MemoryArtifactCache \<Rightarrow> iterator option" where
  "last_iterator c = (if entries c = [] then None else Some (fst (last (entries c))))"

definition over_limits :: "MemoryArtifactCache \<Rightarrow> bool" where
  "over_limits c \<longleftrightarrow>
     maximum_entries (limits c) < length (entries c) \<or>
     maximum_bytes (limits c) < stat_bytes (stats c)"

lemma without_node_shorter:
  "map_of nodes i = Some e \<Longrightarrow> length (without_node i nodes) < length nodes"
  unfolding without_node_def
  by (rule length_filter_less [where x = "(i, e)"]) (auto dest: map_of_SomeD)

function evict_to_limits :: "MemoryArtifactCache \<Rightarrow> MemoryArtifactCache option" where
  "evict_to_limits c =
     (if over_limits c then
        case last_iterator c of
          None \<Rightarrow> None
        | Some i \<Rightarrow>
            (case erase_entry i c of
               None \<Rightarrow> None
             | Some c \<Rightarrow>
                 evict_to_limits
                   (c\<lparr>stats := (stats c)\<lparr>stat_evictions := stat_evictions (stats c) + 1\<rparr>\<rparr>))
      else Some c)"
  by pat_completeness auto
termination
  by (relation "measure (\<lambda>c. length (entries c))")
    (auto simp: erase_entry_def node_at_def Let_def without_node_shorter split: option.splits)

declare evict_to_limits.simps [simp del]

definition cache_find ::
  "string \<Rightarrow> MemoryArtifactCache \<Rightarrow> (ArtifactData option \<times> MemoryArtifactCache) option"
where
  "cache_find digest c =
     (case by_digest c digest of
        None \<Rightarrow> Some (None, c\<lparr>stats := (stats c)\<lparr>stat_misses := stat_misses (stats c) + 1\<rparr>\<rparr>)
      | Some i \<Rightarrow>
          (case node_at i c of
             None \<Rightarrow> None
           | Some e \<Rightarrow>
               Some (Some (entry_artifact e),
                 c\<lparr>entries := (i, e) # without_node i (entries c),
                   stats := (stats c)\<lparr>stat_hits := stat_hits (stats c) + 1\<rparr>\<rparr>)))"

text \<open>A null \<open>shared_ptr\<close> is \<^const>\<open>None\<close>.\<close>

definition cache_insert ::
  "string \<Rightarrow> ArtifactData option \<Rightarrow> i64 \<Rightarrow> MemoryArtifactCache \<Rightarrow> (bool \<times> MemoryArtifactCache) option"
where
  "cache_insert digest artifact access c =
     (case artifact of
        None \<Rightarrow> Some (False, c)
      | Some a \<Rightarrow>
          let weight = artifact_weight a in
          if \<not> valid_digest digest then Some (False, c)
          else if maximum_entries (limits c) = 0 \<or> maximum_bytes (limits c) < weight then
            Some (False, c)
          else do {
            c \<leftarrow> (case by_digest c digest of None \<Rightarrow> Some c | Some i \<Rightarrow> erase_entry i c);
            let e = \<lparr>entry_digest = digest, entry_artifact = a, entry_weight = weight,
                     entry_access = access\<rparr>;
                nodes = (next_node c, e) # entries c;
                c = c\<lparr>entries := nodes, by_digest := (by_digest c)(digest \<mapsto> next_node c),
                      stats := (stats c)\<lparr>stat_entries := length nodes,
                                        stat_bytes := stat_bytes (stats c) + weight\<rparr>,
                      next_node := next_node c + 1\<rparr>
            in do { c \<leftarrow> evict_to_limits c; Some (True, c) } })"

definition cache_persisted_access :: "string \<Rightarrow> MemoryArtifactCache \<Rightarrow> i64 option option" where
  "cache_persisted_access digest c =
     (case by_digest c digest of
        None \<Rightarrow> Some None
      | Some i \<Rightarrow> map_option (\<lambda>e. Some (entry_access e)) (node_at i c))"

definition set_access :: "iterator \<Rightarrow> i64 \<Rightarrow> MemoryArtifactCache \<Rightarrow> MemoryArtifactCache" where
  "set_access i access c =
     c\<lparr>entries := map (\<lambda>(j, e). (j, if j = i then e\<lparr>entry_access := access\<rparr> else e)) (entries c)\<rparr>"

definition cache_compare_exchange ::
  "string \<Rightarrow> i64 \<Rightarrow> i64 \<Rightarrow> MemoryArtifactCache \<Rightarrow> (bool \<times> MemoryArtifactCache) option"
where
  "cache_compare_exchange digest expected desired c =
     (case by_digest c digest of
        None \<Rightarrow> Some (False, c)
      | Some i \<Rightarrow>
          (case node_at i c of
             None \<Rightarrow> None
           | Some e \<Rightarrow>
               if entry_access e \<noteq> expected then Some (False, c)
               else Some (True, set_access i desired c)))"

definition cache_erase :: "string \<Rightarrow> MemoryArtifactCache \<Rightarrow> (bool \<times> MemoryArtifactCache) option" where
  "cache_erase digest c =
     (case by_digest c digest of
        None \<Rightarrow> Some (False, c)
      | Some i \<Rightarrow> do { c \<leftarrow> erase_entry i c; Some (True, c) })"

definition cache_clear :: "MemoryArtifactCache \<Rightarrow> MemoryArtifactCache" where
  "cache_clear c =
     c\<lparr>entries := [], by_digest := Map.empty,
       stats := (stats c)\<lparr>stat_entries := 0, stat_bytes := 0\<rparr>\<rparr>"

section \<open>The specification\<close>

text \<open>A cache without addresses: the entries, the most recently used first.\<close>

type_synonym lru = "MemoryEntry list"

definition lru_without :: "string \<Rightarrow> lru \<Rightarrow> lru" where
  "lru_without digest es = filter (\<lambda>e. entry_digest e \<noteq> digest) es"

definition lru_entry :: "string \<Rightarrow> lru \<Rightarrow> MemoryEntry option" where
  "lru_entry digest es = List.find (\<lambda>e. entry_digest e = digest) es"

definition lru_find :: "string \<Rightarrow> lru \<Rightarrow> ArtifactData option \<times> lru" where
  "lru_find digest es =
     (case lru_entry digest es of
        None \<Rightarrow> (None, es)
      | Some e \<Rightarrow> (Some (entry_artifact e), e # lru_without digest es))"

text \<open>The longest run of most recently used entries that fits.\<close>

fun lru_trim :: "nat \<Rightarrow> nat \<Rightarrow> lru \<Rightarrow> lru" where
  "lru_trim slots room [] = []"
| "lru_trim slots room (e # es) =
     (if slots = 0 \<or> room < unat (entry_weight e) then []
      else e # lru_trim (slots - 1) (room - unat (entry_weight e)) es)"

definition lru_insert :: "MemoryCacheLimits \<Rightarrow> MemoryEntry \<Rightarrow> lru \<Rightarrow> lru" where
  "lru_insert lim e es =
     lru_trim (maximum_entries lim) (unat (maximum_bytes lim)) (e # lru_without (entry_digest e) es)"

section \<open>Trimming from the back and from the front\<close>

definition bytes_of :: "lru \<Rightarrow> nat" where
  "bytes_of es = sum_list (map (\<lambda>e. unat (entry_weight e)) es)"

lemma bytes_of_simps [simp]:
  "bytes_of [] = 0" "bytes_of (e # es) = unat (entry_weight e) + bytes_of es"
  "bytes_of (xs @ ys) = bytes_of xs + bytes_of ys"
  by (simp_all add: bytes_of_def)

lemma lru_trim_fits:
  "length es \<le> slots \<Longrightarrow> bytes_of es \<le> room \<Longrightarrow> lru_trim slots room es = es"
  by (induction es arbitrary: slots room) auto

lemma lru_trim_snoc:
  "slots < length (es @ [e]) \<or> room < bytes_of (es @ [e]) \<Longrightarrow>
     lru_trim slots room (es @ [e]) = lru_trim slots room es"
proof (induction es arbitrary: slots room)
  case (Cons x es)
  show ?case
  proof (cases "slots = 0 \<or> room < unat (entry_weight x)")
    case False
    then have "slots - 1 < length (es @ [e]) \<or> room - unat (entry_weight x) < bytes_of (es @ [e])"
      using Cons.prems by auto
    with Cons.IH False show ?thesis by simp
  qed auto
qed auto

lemma lru_trim_within:
  "length (lru_trim slots room es) \<le> slots \<and> bytes_of (lru_trim slots room es) \<le> room"
proof (induction es arbitrary: slots room)
  case (Cons e es)
  from Cons.IH [of "slots - 1" "room - unat (entry_weight e)"] show ?case by auto
qed simp

lemma lru_trim_prefix: "\<exists>rest. es = lru_trim slots room es @ rest"
proof (induction es arbitrary: slots room)
  case (Cons e es)
  from Cons.IH [of "slots - 1" "room - unat (entry_weight e)"] show ?case by auto
qed simp

section \<open>The links are sound\<close>

text \<open>\<open>resident\<close> forgets the addresses; \<open>linked\<close> says that the map and the list agree.\<close>

definition resident :: "MemoryArtifactCache \<Rightarrow> lru" where
  "resident c = map snd (entries c)"

definition linked :: "MemoryArtifactCache \<Rightarrow> bool" where
  "linked c \<longleftrightarrow>
     distinct (map fst (entries c)) \<and> (\<forall>i\<in>set (map fst (entries c)). i < next_node c) \<and>
     distinct (map entry_digest (resident c)) \<and>
     (\<forall>d i. by_digest c d = Some i \<longleftrightarrow> (\<exists>e. (i, e) \<in> set (entries c) \<and> entry_digest e = d)) \<and>
     stat_entries (stats c) = length (entries c) \<and>
     unat (stat_bytes (stats c)) = bytes_of (resident c)"

definition cache_ok :: "MemoryArtifactCache \<Rightarrow> bool" where
  "cache_ok c \<longleftrightarrow> linked c \<and> \<not> over_limits c \<and> unat (maximum_bytes (limits c)) < 2 ^ 63"

lemma linkedD:
  assumes "linked c"
  shows "distinct (map fst (entries c))" "distinct (map entry_digest (resident c))"
    "by_digest c d = Some i \<longleftrightarrow> (\<exists>e. (i, e) \<in> set (entries c) \<and> entry_digest e = d)"
    "(i, e) \<in> set (entries c) \<Longrightarrow> i < next_node c"
    "unat (stat_bytes (stats c)) = bytes_of (resident c)"
    "stat_entries (stats c) = length (entries c)"
  using assms by (auto simp: linked_def)

lemma node_at_member: "linked c \<Longrightarrow> (i, e) \<in> set (entries c) \<Longrightarrow> node_at i c = Some e"
  by (simp add: node_at_def linkedD(1))

lemma same_digest_same_node:
  assumes "linked c" "(i, e) \<in> set (entries c)" "(j, f) \<in> set (entries c)"
    and "entry_digest e = entry_digest f"
  shows "i = j \<and> e = f"
proof -
  from assms have "by_digest c (entry_digest f) = Some i" "by_digest c (entry_digest f) = Some j"
    by (auto simp: linkedD(3))
  then have "i = j" by simp
  with assms show ?thesis using node_at_member by (metis option.inject)
qed

text \<open>Removing a node by address is removing its digest.\<close>

lemma without_node_digest:
  assumes "linked c" "(i, e) \<in> set (entries c)"
  shows "map snd (without_node i (entries c)) = lru_without (entry_digest e) (resident c)"
proof -
  have "(j \<noteq> i) = (entry_digest f \<noteq> entry_digest e)" if "(j, f) \<in> set (entries c)" for j f
    using same_digest_same_node [OF assms(1) that assms(2)] node_at_member [OF assms(1) that]
      node_at_member [OF assms] by auto
  then have "(case p of (j, _) \<Rightarrow> j \<noteq> i) = (entry_digest (snd p) \<noteq> entry_digest e)"
    if "p \<in> set (entries c)" for p
    using that by (cases p) simp
  then have "without_node i (entries c) = filter (\<lambda>p. entry_digest (snd p) \<noteq> entry_digest e) (entries c)"
    unfolding without_node_def by (intro filter_cong) auto
  then show ?thesis by (simp add: lru_without_def resident_def filter_map comp_def)
qed

lemma bytes_without:
  assumes "distinct (map entry_digest es)" "e \<in> set es"
  shows "bytes_of es = bytes_of (lru_without (entry_digest e) es) + unat (entry_weight e)"
  using assms
proof (induction es)
  case (Cons f es)
  show ?case
  proof (cases "f = e")
    case True
    with Cons.prems have "lru_without (entry_digest e) es = es"
      by (auto simp: lru_without_def filter_id_conv) (metis image_eqI)
    with True show ?thesis by (simp add: lru_without_def)
  next
    case False
    with Cons.prems have "entry_digest f \<noteq> entry_digest e" "e \<in> set es" by (auto simp: image_iff)
    with Cons show ?thesis by (simp add: lru_without_def)
  qed
qed simp

lemma erase_entry_linked:
  assumes ok: "linked c" and node: "(i, e) \<in> set (entries c)"
  shows "\<exists>c'. erase_entry i c = Some c' \<and> linked c' \<and>
    resident c' = lru_without (entry_digest e) (resident c) \<and> limits c' = limits c"
proof -
  let ?nodes = "without_node i (entries c)"
  let ?c = "c\<lparr>entries := ?nodes, by_digest := (by_digest c)(entry_digest e := None),
      stats := (stats c)\<lparr>stat_bytes := stat_bytes (stats c) - entry_weight e,
                        stat_entries := length ?nodes\<rparr>\<rparr>"
  have erased: "erase_entry i c = Some ?c"
    using node_at_member [OF ok node] by (simp add: erase_entry_def Let_def)
  have resident: "resident ?c = lru_without (entry_digest e) (resident c)"
    using without_node_digest [OF ok node] by (simp add: resident_def)
  have e: "e \<in> set (resident c)" using node by (force simp: resident_def)
  have bytes: "bytes_of (resident c) = bytes_of (resident ?c) + unat (entry_weight e)"
    unfolding resident by (rule bytes_without [OF linkedD(2) [OF ok] e])
  have members: "(j, f) \<in> set ?nodes \<longleftrightarrow> (j, f) \<in> set (entries c) \<and> entry_digest f \<noteq> entry_digest e"
    for j f
    using same_digest_same_node [OF ok _ node, of j f] node_at_member [OF ok, of j f]
      node_at_member [OF ok node] by (auto simp: without_node_def)
  have links: "by_digest ?c d = Some j \<longleftrightarrow> (\<exists>f. (j, f) \<in> set ?nodes \<and> entry_digest f = d)" for d j
    using linkedD(3) [OF ok, of d j] by (auto simp: members)
  have "unat (stat_bytes (stats c) - entry_weight e) = bytes_of (resident ?c)"
    using bytes linkedD(5) [OF ok] by (simp add: unat_sub_if')
  moreover have "distinct (map fst ?nodes)" "distinct (map entry_digest (resident ?c))"
    "\<forall>j\<in>set (map fst ?nodes). j < next_node c"
    using linkedD(1,2) [OF ok] linkedD(4) [OF ok] resident
    by (auto simp: without_node_def distinct_map_filter lru_without_def)
  ultimately have "linked ?c" unfolding linked_def using links by simp
  with erased resident show ?thesis by auto
qed

lemma evict_linked:
  assumes "linked c"
  shows "\<exists>c'. evict_to_limits c = Some c' \<and> linked c' \<and> \<not> over_limits c' \<and> limits c' = limits c \<and>
    resident c' = lru_trim (maximum_entries (limits c)) (unat (maximum_bytes (limits c))) (resident c)"
  using assms
proof (induction c rule: evict_to_limits.induct)
  case (1 c)
  let ?slots = "maximum_entries (limits c)" and ?room = "unat (maximum_bytes (limits c))"
  have over: "over_limits c \<longleftrightarrow> ?slots < length (resident c) \<or> ?room < bytes_of (resident c)"
    by (simp add: over_limits_def resident_def [symmetric] linkedD(5) [OF "1.prems"] word_less_nat_alt)
      (simp add: resident_def)
  show ?case
  proof (cases "over_limits c")
    case False
    with over have "lru_trim ?slots ?room (resident c) = resident c"
      by (intro lru_trim_fits) auto
    with False "1.prems" show ?thesis by (subst evict_to_limits.simps) simp
  next
    case True
    then have "entries c \<noteq> []" using over by (auto simp: resident_def)
    then obtain nodes i e where split: "entries c = nodes @ [(i, e)]"
      by (metis append_butlast_last_id surj_pair)
    then have last_eq: "last_iterator c = Some i" and node: "(i, e) \<in> set (entries c)"
      by (simp_all add: last_iterator_def)
    obtain c1 where c1: "erase_entry i c = Some c1" "linked c1" "limits c1 = limits c"
      "resident c1 = lru_without (entry_digest e) (resident c)"
      using erase_entry_linked [OF "1.prems" node] by blast
    have "distinct (map entry_digest (resident c))" by (rule linkedD(2) [OF "1.prems"])
    then have front: "resident c1 = map snd nodes"
      unfolding c1(4) by (simp add: resident_def split lru_without_def filter_id_conv) (metis image_eqI)
    let ?c2 = "c1\<lparr>stats := (stats c1)\<lparr>stat_evictions := stat_evictions (stats c1) + 1\<rparr>\<rparr>"
    have "linked ?c2" using c1(2) by (simp add: linked_def resident_def)
    moreover have "resident ?c2 = map snd nodes" "limits ?c2 = limits c"
      using front c1(3) by (simp_all add: resident_def)
    ultimately have c2: "linked ?c2" "resident ?c2 = map snd nodes" "limits ?c2 = limits c" by auto
    have whole: "resident c = map snd nodes @ [e]" by (simp add: resident_def split)
    have "lru_trim ?slots ?room (resident c) = lru_trim ?slots ?room (map snd nodes)"
      unfolding whole by (rule lru_trim_snoc) (use over True whole in simp)
    with "1.IH" [OF True last_eq c1(1) c2(1)] c2(2,3) True last_eq c1(1)
    show ?thesis by (subst evict_to_limits.simps) simp
  qed
qed

section \<open>The operations keep the invariant and do what the specification says\<close>

lemma lookup_entry:
  assumes "linked c"
  shows "lru_entry digest (resident c) =
    (case by_digest c digest of None \<Rightarrow> None | Some i \<Rightarrow> node_at i c)"
proof (cases "by_digest c digest")
  case None
  then have "entry_digest e \<noteq> digest" if "e \<in> set (resident c)" for e
    using that linkedD(3) [OF assms, of digest] by (fastforce simp: resident_def)
  with None show ?thesis by (auto simp: lru_entry_def find_None_iff)
next
  case (Some i)
  then obtain e where e: "(i, e) \<in> set (entries c)" "entry_digest e = digest"
    using linkedD(3) [OF assms] by blast
  then have there: "e \<in> set (resident c)" by (force simp: resident_def)
  obtain f where f: "lru_entry digest (resident c) = Some f"
    using there e(2) by (cases "lru_entry digest (resident c)") (auto simp: lru_entry_def find_None_iff)
  then have "f \<in> set (resident c)" "entry_digest f = digest"
    by (auto simp: lru_entry_def find_Some_iff)
  then have "f = e" using there e(2) linkedD(2) [OF assms] by (metis distinct_map inj_onD)
  with f Some node_at_member [OF assms e(1)] show ?thesis by simp
qed

lemma find_refines:
  assumes "cache_ok c"
  shows "\<exists>c'. cache_find digest c = Some (fst (lru_find digest (resident c)), c') \<and> cache_ok c' \<and>
    resident c' = snd (lru_find digest (resident c)) \<and> limits c' = limits c"
proof -
  from assms have ok: "linked c" by (simp add: cache_ok_def)
  note entry = lookup_entry [OF ok, of digest]
  show ?thesis
  proof (cases "by_digest c digest")
    case None
    with assms entry show ?thesis
      by (simp add: cache_find_def lru_find_def cache_ok_def linked_def over_limits_def resident_def)
  next
    case (Some i)
    then obtain e where e: "(i, e) \<in> set (entries c)" "entry_digest e = digest"
      using linkedD(3) [OF ok] by blast
    let ?c = "c\<lparr>entries := (i, e) # without_node i (entries c),
        stats := (stats c)\<lparr>stat_hits := stat_hits (stats c) + 1\<rparr>\<rparr>"
    have found: "cache_find digest c = Some (Some (entry_artifact e), ?c)"
      using Some node_at_member [OF ok e(1)] by (simp add: cache_find_def)
    have spec: "lru_find digest (resident c) = (Some (entry_artifact e), e # lru_without digest (resident c))"
      using entry Some node_at_member [OF ok e(1)] by (simp add: lru_find_def)
    have resident: "resident ?c = e # lru_without digest (resident c)"
      using without_node_digest [OF ok e(1)] e(2) by (simp add: resident_def)
    have members: "set (entries ?c) = set (entries c)"
      using e(1) node_at_member [OF ok] by (auto simp: without_node_def) (metis option.inject)+
    have e': "e \<in> set (resident c)" using e(1) by (force simp: resident_def)
    have bytes: "bytes_of (resident ?c) = bytes_of (resident c)"
      using bytes_without [OF linkedD(2) [OF ok] e'] by (simp add: resident e(2))
    have dist: "distinct (map fst (entries ?c))"
      using linkedD(1) [OF ok] by (auto simp: without_node_def distinct_map_filter)
    have "distinct (map entry_digest (resident ?c))"
      unfolding resident using linkedD(2) [OF ok] e(2)
      by (auto simp: lru_without_def distinct_map_filter)
    moreover have "length (entries ?c) = length (entries c)"
      using distinct_card [OF dist] distinct_card [OF linkedD(1) [OF ok]]
      by (metis length_map list.set_map members)
    ultimately have "linked ?c" and "\<not> over_limits ?c"
      using ok assms members bytes dist linkedD(4) [OF ok e(1)]
      by (auto simp: linked_def cache_ok_def over_limits_def)
    with found spec resident assms show ?thesis by (auto simp: cache_ok_def)
  qed
qed

lemma erase_refines:
  assumes "cache_ok c"
  shows "\<exists>c'. cache_erase digest c = Some (lru_entry digest (resident c) \<noteq> None, c') \<and> cache_ok c' \<and>
    resident c' = lru_without digest (resident c) \<and> limits c' = limits c"
proof -
  from assms have ok: "linked c" by (simp add: cache_ok_def)
  note entry = lookup_entry [OF ok, of digest]
  show ?thesis
  proof (cases "by_digest c digest")
    case None
    with entry have "lru_entry digest (resident c) = None" by simp
    then have "lru_without digest (resident c) = resident c"
      by (auto simp: lru_entry_def find_None_iff lru_without_def filter_id_conv)
    with None assms entry show ?thesis by (simp add: cache_erase_def)
  next
    case (Some i)
    then obtain e where e: "(i, e) \<in> set (entries c)" "entry_digest e = digest"
      using linkedD(3) [OF ok] by blast
    obtain c' where c': "erase_entry i c = Some c'" "linked c'" "limits c' = limits c"
      "resident c' = lru_without digest (resident c)"
      using erase_entry_linked [OF ok e(1)] e(2) by blast
    have "e \<in> set (resident c)" using e(1) by (force simp: resident_def)
    then have "bytes_of (resident c') \<le> bytes_of (resident c)"
      using bytes_without [OF linkedD(2) [OF ok]] e(2) c'(4) by (metis le_add1)
    moreover have "length (entries c') \<le> length (entries c)"
      using c'(4) length_filter_le [of _ "resident c"]
      by (metis length_map lru_without_def resident_def)
    ultimately have "\<not> over_limits c'"
      using assms linkedD(5) [OF ok] linkedD(5) [OF c'(2)] c'(3)
      by (simp add: cache_ok_def over_limits_def word_less_nat_alt)
    with c' assms Some entry node_at_member [OF ok e(1)] show ?thesis
      by (simp add: cache_erase_def cache_ok_def)
  qed
qed

lemma insert_refines:
  assumes ok: "cache_ok c" and digest: "valid_digest digest"
    and room: "maximum_entries (limits c) \<noteq> 0" "artifact_weight a \<le> maximum_bytes (limits c)"
  shows "\<exists>c'. cache_insert digest (Some a) access c = Some (True, c') \<and> cache_ok c' \<and> limits c' = limits c \<and>
    resident c' = lru_insert (limits c)
      \<lparr>entry_digest = digest, entry_artifact = a, entry_weight = artifact_weight a, entry_access = access\<rparr>
      (resident c)"
proof -
  define e where "e = \<lparr>entry_digest = digest, entry_artifact = a, entry_weight = artifact_weight a,
    entry_access = access\<rparr>"
  have e_digest: "entry_digest e = digest" by (simp add: e_def)
  obtain c1 where c1: "(case by_digest c digest of None \<Rightarrow> Some c | Some i \<Rightarrow> erase_entry i c) = Some c1"
    "cache_ok c1" "resident c1 = lru_without digest (resident c)" "limits c1 = limits c"
  proof -
    from erase_refines [OF ok, of digest] show ?thesis
      by (auto simp: cache_erase_def bind_Some_iff intro: that split: option.splits)
  qed
  from c1(2) have linked: "linked c1" and small: "unat (maximum_bytes (limits c1)) < 2 ^ 63"
    and within: "\<not> over_limits c1" by (simp_all add: cache_ok_def)
  let ?nodes = "(next_node c1, e) # entries c1"
  let ?c2 = "c1\<lparr>entries := ?nodes, by_digest := (by_digest c1)(digest \<mapsto> next_node c1),
      stats := (stats c1)\<lparr>stat_entries := length ?nodes,
                         stat_bytes := stat_bytes (stats c1) + artifact_weight a\<rparr>,
      next_node := next_node c1 + 1\<rparr>"
  have resident: "resident ?c2 = e # lru_without digest (resident c)"
    using c1(3) by (simp add: resident_def)
  have absent: "(i, f) \<in> set (entries c1) \<Longrightarrow> entry_digest f \<noteq> digest" for i f
  proof -
    assume "(i, f) \<in> set (entries c1)"
    then have "f \<in> set (resident c1)" by (force simp: resident_def)
    then show ?thesis by (simp add: c1(3) lru_without_def)
  qed
  have "unat (stat_bytes (stats c1)) \<le> unat (maximum_bytes (limits c1))"
    using within by (simp add: over_limits_def not_less word_le_nat_alt)
  moreover have "unat (artifact_weight a) \<le> unat (maximum_bytes (limits c1))"
    using room(2) c1(4) by (simp add: word_le_nat_alt)
  ultimately have bytes: "unat (stat_bytes (stats c1) + artifact_weight a) =
      unat (stat_bytes (stats c1)) + unat (artifact_weight a)"
    using small by (simp add: unat_word_ariths)
  have fresh: "next_node c1 \<notin> fst ` set (entries c1)"
    using linkedD(4) [OF linked] by fastforce
  have "linked ?c2"
  proof -
    have "distinct (map entry_digest (resident ?c2))"
      using linkedD(2) [OF linked] resident by (auto simp: c1(3) e_digest lru_without_def)
    moreover have "by_digest ?c2 d = Some i \<longleftrightarrow> (\<exists>f. (i, f) \<in> set ?nodes \<and> entry_digest f = d)" for d i
      using linkedD(3) [OF linked, of d i] absent fresh e_digest by auto
    moreover have "unat (stat_bytes (stats ?c2)) = bytes_of (resident ?c2)"
      using bytes linkedD(5) [OF linked] resident c1(3) by (simp add: e_def)
    moreover have "distinct (map fst ?nodes)" "\<forall>i\<in>set (map fst ?nodes). i < next_node ?c2"
      using linkedD(1) [OF linked] linkedD(4) [OF linked] fresh by (auto intro: less_SucI)
    ultimately show ?thesis unfolding linked_def by simp
  qed
  from evict_linked [OF this] obtain c3 where c3: "evict_to_limits ?c2 = Some c3" "linked c3"
    "\<not> over_limits c3" "limits c3 = limits c"
    "resident c3 = lru_trim (maximum_entries (limits c)) (unat (maximum_bytes (limits c))) (resident ?c2)"
    using c1(4) by auto
  have "cache_insert digest (Some a) access c = Some (True, c3)"
    using digest room c1(1) c3(1)
    by (simp add: cache_insert_def Let_def not_less e_def [symmetric])
  moreover have "cache_ok c3" using c3 ok by (simp add: cache_ok_def)
  moreover have "resident c3 = lru_insert (limits c) e (resident c)"
    using c3(5) resident by (simp add: lru_insert_def e_digest)
  ultimately show ?thesis using c3(4) unfolding e_def by blast
qed

lemma new_ok: "unat (maximum_bytes lim) < 2 ^ 63 \<Longrightarrow> cache_ok (MemoryArtifactCache_new lim)"
  by (simp add: cache_ok_def linked_def MemoryArtifactCache_new_def over_limits_def resident_def)

lemma clear_ok: "cache_ok c \<Longrightarrow> cache_ok (cache_clear c) \<and> resident (cache_clear c) = []"
  by (simp add: cache_ok_def linked_def cache_clear_def over_limits_def resident_def)

definition lru_set_access :: "string \<Rightarrow> i64 \<Rightarrow> lru \<Rightarrow> lru" where
  "lru_set_access digest access es =
     map (\<lambda>e. if entry_digest e = digest then e\<lparr>entry_access := access\<rparr> else e) es"

definition lru_compare_exchange :: "string \<Rightarrow> i64 \<Rightarrow> i64 \<Rightarrow> lru \<Rightarrow> bool \<times> lru" where
  "lru_compare_exchange digest expected desired es =
     (case lru_entry digest es of
        None \<Rightarrow> (False, es)
      | Some e \<Rightarrow> if entry_access e \<noteq> expected then (False, es)
                  else (True, lru_set_access digest desired es))"

lemma set_access_linked:
  assumes ok: "linked c" and node: "(i, e) \<in> set (entries c)"
  shows "linked (set_access i access c) \<and>
    resident (set_access i access c) = lru_set_access (entry_digest e) access (resident c) \<and>
    length (entries (set_access i access c)) = length (entries c) \<and>
    stats (set_access i access c) = stats c \<and> limits (set_access i access c) = limits c"
proof -
  let ?g = "\<lambda>(j, f). (j, if j = i then f\<lparr>entry_access := access\<rparr> else f)"
  have nodes: "entries (set_access i access c) = map ?g (entries c)" by (simp add: set_access_def)
  have firsts: "map fst (map ?g (entries c)) = map fst (entries c)" by auto
  have digests: "map entry_digest (map snd (map ?g xs)) = map entry_digest (map snd xs)" for xs
    by auto
  have weights: "bytes_of (map snd (map ?g xs)) = bytes_of (map snd xs)" for xs
    by (induction xs) auto
  have "map snd (map ?g (entries c)) = lru_set_access (entry_digest e) access (map snd (entries c))"
  proof -
    have "(j = i) = (entry_digest f = entry_digest e)" if "(j, f) \<in> set (entries c)" for j f
      using same_digest_same_node [OF ok that node] node_at_member [OF ok that]
        node_at_member [OF ok node] by auto
    then show ?thesis by (auto simp: lru_set_access_def)
  qed
  moreover have "(\<exists>f. (j, f) \<in> set (map ?g (entries c)) \<and> entry_digest f = d) \<longleftrightarrow>
      (\<exists>f. (j, f) \<in> set (entries c) \<and> entry_digest f = d)" for j d
    by (force split: if_splits)
  ultimately show ?thesis
    using ok unfolding linked_def resident_def nodes firsts digests weights
    by (simp add: set_access_def)
qed

lemma exchange_refines:
  assumes "cache_ok c"
  shows "\<exists>c'. cache_compare_exchange digest expected desired c =
      Some (fst (lru_compare_exchange digest expected desired (resident c)), c') \<and> cache_ok c' \<and>
    resident c' = snd (lru_compare_exchange digest expected desired (resident c)) \<and> limits c' = limits c"
proof -
  from assms have ok: "linked c" by (simp add: cache_ok_def)
  note entry = lookup_entry [OF ok, of digest]
  show ?thesis
  proof (cases "by_digest c digest")
    case None
    with assms entry show ?thesis by (simp add: cache_compare_exchange_def lru_compare_exchange_def)
  next
    case (Some i)
    then obtain e where e: "(i, e) \<in> set (entries c)" "entry_digest e = digest"
      using linkedD(3) [OF ok] by blast
    note set = set_access_linked [OF ok e(1), of desired]
    then have "cache_ok (set_access i desired c)"
      using assms by (simp add: cache_ok_def over_limits_def)
    with set Some e(2) assms entry node_at_member [OF ok e(1)] show ?thesis
      by (simp add: cache_compare_exchange_def lru_compare_exchange_def)
  qed
qed

section \<open>Sequences of calls\<close>

datatype cache_call =
    Call_find string
  | Call_insert string "ArtifactData option" i64
  | Call_persisted_access string
  | Call_compare_exchange string i64 i64
  | Call_erase string
  | Call_clear

datatype cache_answer = Artifact "ArtifactData option" | Access "i64 option" | Flag bool | No_answer

definition cache_call :: "cache_call \<Rightarrow> MemoryArtifactCache \<Rightarrow> (cache_answer \<times> MemoryArtifactCache) option" where
  "cache_call call c =
     (case call of
        Call_find d \<Rightarrow> map_option (map_prod Artifact id) (cache_find d c)
      | Call_insert d a t \<Rightarrow> map_option (map_prod Flag id) (cache_insert d a t c)
      | Call_persisted_access d \<Rightarrow> map_option (\<lambda>t. (Access t, c)) (cache_persisted_access d c)
      | Call_compare_exchange d x y \<Rightarrow> map_option (map_prod Flag id) (cache_compare_exchange d x y c)
      | Call_erase d \<Rightarrow> map_option (map_prod Flag id) (cache_erase d c)
      | Call_clear \<Rightarrow> Some (No_answer, cache_clear c))"

fun cache_calls ::
  "cache_call list \<Rightarrow> MemoryArtifactCache \<Rightarrow> (cache_answer list \<times> MemoryArtifactCache) option"
where
  "cache_calls [] c = Some ([], c)"
| "cache_calls (call # rest) c = do {
     (answer, c) \<leftarrow> cache_call call c; (answers, c) \<leftarrow> cache_calls rest c;
     Some (answer # answers, c) }"

definition lru_call :: "MemoryCacheLimits \<Rightarrow> cache_call \<Rightarrow> lru \<Rightarrow> cache_answer \<times> lru" where
  "lru_call lim call es =
     (case call of
        Call_find d \<Rightarrow> map_prod Artifact id (lru_find d es)
      | Call_insert d None t \<Rightarrow> (Flag False, es)
      | Call_insert d (Some a) t \<Rightarrow>
          if valid_digest d \<and> maximum_entries lim \<noteq> 0 \<and> artifact_weight a \<le> maximum_bytes lim then
            (Flag True, lru_insert lim
               \<lparr>entry_digest = d, entry_artifact = a, entry_weight = artifact_weight a,
                entry_access = t\<rparr> es)
          else (Flag False, es)
      | Call_persisted_access d \<Rightarrow> (Access (map_option entry_access (lru_entry d es)), es)
      | Call_compare_exchange d x y \<Rightarrow> map_prod Flag id (lru_compare_exchange d x y es)
      | Call_erase d \<Rightarrow> (Flag (lru_entry d es \<noteq> None), lru_without d es)
      | Call_clear \<Rightarrow> (No_answer, []))"

fun lru_calls :: "MemoryCacheLimits \<Rightarrow> cache_call list \<Rightarrow> lru \<Rightarrow> cache_answer list \<times> lru" where
  "lru_calls lim [] es = ([], es)"
| "lru_calls lim (call # rest) es =
     (let (answer, es) = lru_call lim call es; (answers, es) = lru_calls lim rest es
      in (answer # answers, es))"

lemma cache_call_refines:
  assumes "cache_ok c"
  shows "\<exists>c'. cache_call call c = Some (fst (lru_call (limits c) call (resident c)), c') \<and> cache_ok c' \<and>
    resident c' = snd (lru_call (limits c) call (resident c)) \<and> limits c' = limits c"
proof (cases call)
  case (Call_find d)
  with find_refines [OF assms, of d] show ?thesis
    by (auto simp: cache_call_def lru_call_def)
next
  case (Call_insert d artifact t)
  show ?thesis
  proof (cases artifact)
    case (Some a)
    show ?thesis
    proof (cases "valid_digest d \<and> maximum_entries (limits c) \<noteq> 0 \<and>
        artifact_weight a \<le> maximum_bytes (limits c)")
      case True
      then show ?thesis
        using insert_refines [OF assms, of d a t] Call_insert Some
        by (auto simp: cache_call_def lru_call_def)
    next
      case False
      then have "cache_insert d (Some a) t c = Some (False, c)"
        unfolding cache_insert_def Let_def not_le [symmetric] by (simp; blast)
      with False assms Call_insert Some show ?thesis
        by (simp add: cache_call_def lru_call_def)
    qed
  qed (use assms Call_insert in \<open>simp add: cache_call_def lru_call_def cache_insert_def\<close>)
next
  case (Call_persisted_access d)
  from assms have ok: "linked c" by (simp add: cache_ok_def)
  have "cache_persisted_access d c = Some (map_option entry_access (lru_entry d (resident c)))"
  proof (cases "by_digest c d")
    case (Some i)
    then obtain e where "(i, e) \<in> set (entries c)" using linkedD(3) [OF ok] by blast
    then show ?thesis
      using Some node_at_member [OF ok] lookup_entry [OF ok, of d]
      by (simp add: cache_persisted_access_def)
  qed (simp add: cache_persisted_access_def lookup_entry [OF ok])
  with assms Call_persisted_access show ?thesis by (simp add: cache_call_def lru_call_def)
next
  case (Call_compare_exchange d x y)
  with exchange_refines [OF assms, of d x y] show ?thesis
    by (auto simp: cache_call_def lru_call_def)
next
  case (Call_erase d)
  with erase_refines [OF assms, of d] show ?thesis
    by (auto simp: cache_call_def lru_call_def)
next
  case Call_clear
  with clear_ok [OF assms] show ?thesis by (simp add: cache_call_def lru_call_def cache_clear_def)
qed

lemma cache_calls_refine:
  assumes "cache_ok c"
  shows "\<exists>c'. cache_calls calls c = Some (fst (lru_calls (limits c) calls (resident c)), c') \<and> cache_ok c' \<and>
    resident c' = snd (lru_calls (limits c) calls (resident c)) \<and> limits c' = limits c"
  using assms
proof (induction calls arbitrary: c)
  case (Cons call calls)
  from cache_call_refines [OF Cons.prems, of call] obtain c1 where
    c1: "cache_call call c = Some (fst (lru_call (limits c) call (resident c)), c1)" "cache_ok c1"
      "resident c1 = snd (lru_call (limits c) call (resident c))" "limits c1 = limits c" by blast
  from Cons.IH [OF c1(2)] obtain c2 where
    "cache_calls calls c1 = Some (fst (lru_calls (limits c) calls (resident c1)), c2)" "cache_ok c2"
    "resident c2 = snd (lru_calls (limits c) calls (resident c1))" "limits c2 = limits c"
    unfolding c1(4) by blast
  with c1 show ?case by (simp add: split_beta Let_def)
qed simp

end
