(* ===== verification/Cache_Properties.thy ===== *)
theory Cache_Properties
  imports Cache_Key Memory_Cache
begin

text \<open>
  What the thumbnail cache rests on: the artifact file is read back as it was written and accepted
  only as it is written; keys are not confused; both implementations of SHA-256 compute one
  function; and the in-memory cache is a least-recently-used list within its limits.
\<close>

section \<open>The artifact file\<close>

text \<open>Whatever the encoder of an artifact writes, the decoder reads back: the metadata with the size
  and checksum of the payload filled in, the digest of the cache key, the colour identity and the payload.\<close>

theorem vvt1_roundtrip:
  assumes "encode_vvt1 m content digest color = Inr e" "digest_sized digest"
  shows "decode_vvt1 (encoded_bytes e) =
    Inr \<lparr>metadata = m\<lparr>payload_bytes := word_of_nat (length content), payload_crc32 := table_crc32 content\<rparr>,
         cache_key_digest = digest, color_identity = color, payload = content\<rparr>"
    (is "_ = Inr ?a")
proof -
  from assms have ok: "artifact_ok ?a"
    and bytes: "encoded_bytes e = vvt1_file (ucast (encoding_code (encoding m))) ?a"
    by (auto simp: encode_vvt1_def artifact_ok_def vvt1_file_def valid_dimensions_def Let_def
        split: if_splits)
  have "ucast (ucast (encoding_code (encoding m)) :: u16) = encoding_code (encoding (metadata ?a))"
    by (cases "encoding m") (simp add: encoding_code_def)
  with decode_vvt1_file [OF ok this] bytes show ?thesis by simp
qed

definition tiny_metadata :: ArtifactMetadata where
  "tiny_metadata = \<lparr>encoding = Qoi_rgba8, width = 1, height = 1, payload_bytes = 0,
     payload_crc32 = 0, page_count = 1, source_color_model = Model_rgb, provenance = Primary_render\<rparr>"

definition plain_color :: ArtifactColorIdentity where
  "plain_color = \<lparr>source_profile_name = [], source_profile_fingerprint = []\<rparr>"

theorem vvt1_roundtrip_witness:
  "\<exists>e. encode_vvt1 tiny_metadata [1, 2, 3] (replicate 32 7) plain_color = Inr e \<and>
    payload (projr (decode_vvt1 (encoded_bytes e))) = [1, 2, 3]"
proof -
  have "valid_dimensions tiny_metadata" "valid_color_identity plain_color" "header_length plain_color = 72"
    by (simp_all add: valid_dimensions_def tiny_metadata_def valid_color_identity_def plain_color_def
        header_length_def kMaxArtifactDimension_def kMaxArtifactPageCount_def kVvt1HeaderBytes_def
        kMaxSourceProfileNameBytes_def kMaxSourceProfileFingerprintBytes_def)
  then obtain e where e: "encode_vvt1 tiny_metadata [1, 2, 3] (replicate 32 7) plain_color = Inr e"
    by (simp add: encode_vvt1_def kMaxArtifactBytes_def Let_def)
  moreover have "digest_sized (replicate 32 7)" by (simp add: digest_sized_def)
  ultimately show ?thesis using vvt1_roundtrip [OF e] by simp
qed

text \<open>C37: The decoder accepts exactly the files of well-formed artifacts, byte for byte: every checksum
  right, every length within its limit, the colour identity in UTF-8. One field is the exception: of the
  sixteen bits of the encoding the decoder looks at the lower eight only.\<close>

theorem vvt1_accepts_iff:
  "decode_vvt1 bytes = Inr a \<longleftrightarrow>
     artifact_ok a \<and>
     (\<exists>field. (ucast field :: u8) = encoding_code (encoding (metadata a)) \<and> bytes = vvt1_file field a)"
  using decode_vvt1_file decode_vvt1_Inr by blast

section \<open>Hashes and keys\<close>

text \<open>C38: The streaming class of the file operations and the one-shot function of the cache compute
  the same hash: however a message is cut into pieces, the digest of the pieces is the hash of the whole.\<close>

theorem sha_streaming_equals_one_shot:
  "sha_digest (foldl (\<lambda>s piece. sha_update piece s) Sha256_new pieces) = hash_bytes (concat pieces)"
proof -
  have "has_digested (foldl (\<lambda>s piece. sha_update piece s) s pieces) (m @ concat pieces)"
    if "has_digested s m" for s m
    using that
  proof (induction pieces arbitrary: s m)
    case (Cons piece pieces)
    from Cons.IH [OF has_digested_update [OF Cons.prems]] show ?case by simp
  qed simp
  from digest_blocks [OF this [OF has_digested_new]] show ?thesis by simp
qed

text \<open>Nothing that names a cached artifact is written alike: two cache keys, or two locators, with
  the same bytes are the same, a key is never written like a locator, and the binding of a locator to an
  artifact determines both. So two names that agree are a collision of SHA-256.\<close>

theorem cache_names_unambiguous:
  "(serialize_cache_key a = Some x \<longrightarrow> serialize_cache_key b = Some x \<longrightarrow> a = b) \<and>
   (serialize_cache_locator c = Some y \<longrightarrow> serialize_cache_locator d = Some y \<longrightarrow> c = d) \<and>
   (serialize_cache_key a = Some x \<longrightarrow> serialize_cache_locator c \<noteq> Some x) \<and>
   (CHR 0x00 \<notin> set l \<and> CHR 0x00 \<notin> set l' \<longrightarrow>
    locator_binding_bytes l h = locator_binding_bytes l' h' \<longrightarrow> l = l' \<and> h = h')"
proof (intro conjI impI)
  assume "serialize_cache_key a = Some x"
  then obtain r where x: "x = append_string ''VOVE-CACHE-KEY'' @ r"
    by (auto simp: serialize_cache_key_def bind_Some_iff append_key_string_Some)
  have "string_fits ''VOVE-CACHE-KEY''" "string_fits ''VOVE-CACHE-LOCATOR''"
    by (simp_all add: string_fits_def)
  then have "append_string ''VOVE-CACHE-LOCATOR'' @ q \<noteq> append_string ''VOVE-CACHE-KEY'' @ r" for q
    by (simp add: string_then)
  then show "serialize_cache_locator c \<noteq> Some x"
    by (auto simp: x serialize_cache_locator_def bind_Some_iff append_key_string_Some)
qed (use serialize_cache_key_inject serialize_cache_locator_inject locator_binding_inject in blast)+

definition first_page :: CacheKey where
  "first_page =
     \<lparr>key_source = \<lparr>source_identity_utf8 = ''a'', stamp_size_bytes = 1, stamp_modified_unix_ns = 0,
        stable_file_id = None\<rparr>,
      handler_id = ''h'', handler_version = 1, render_policy_version = 1,
      color_policy_version = \<lparr>color_version = 1, working_profile_fingerprint = ''s''\<rparr>,
      canonical_edge = 512, page_index = 0\<rparr>"

theorem cache_names_unambiguous_witness:
  "\<exists>x. serialize_cache_key first_page = Some x \<and>
    serialize_cache_key (first_page\<lparr>page_index := 1\<rparr>) \<noteq> Some x"
proof -
  obtain x where x: "serialize_cache_key first_page = Some x"
    by (simp add: first_page_def serialize_cache_key_def append_stamp_def append_stable_id_def
        append_key_string_def string_fits_def)
  have "first_page \<noteq> first_page\<lparr>page_index := 1\<rparr>" by (simp add: first_page_def)
  with x cache_names_unambiguous [of first_page x "first_page\<lparr>page_index := 1\<rparr>"] show ?thesis by blast
qed

section \<open>The in-memory cache\<close>

text \<open>C34: Whatever is called on the cache in whatever order, no iterator it follows dangles, every answer
  is the answer of a list of entries with the most recently used first, of which as many are kept from
  the front as the limits allow, and the limits hold after every call.\<close>

theorem memory_cache_refines_lru:
  assumes "unat (maximum_bytes lim) < 2 ^ 63"
  shows "\<exists>c. cache_calls calls (MemoryArtifactCache_new lim) = Some (fst (lru_calls lim calls []), c) \<and>
    resident c = snd (lru_calls lim calls []) \<and>
    length (resident c) \<le> maximum_entries lim \<and> bytes_of (resident c) \<le> unat (maximum_bytes lim) \<and>
    unat (stat_bytes (stats c)) = bytes_of (resident c)"
proof -
  have new: "resident (MemoryArtifactCache_new lim) = []" "limits (MemoryArtifactCache_new lim) = lim"
    by (simp_all add: MemoryArtifactCache_new_def resident_def)
  from cache_calls_refine [OF new_ok [OF assms], of calls] obtain c where
    c: "cache_calls calls (MemoryArtifactCache_new lim) = Some (fst (lru_calls lim calls []), c)"
      "cache_ok c" "resident c = snd (lru_calls lim calls [])" "limits c = lim"
    unfolding new by blast
  then have "unat (stat_bytes (stats c)) = bytes_of (resident c)" "\<not> over_limits c"
    by (simp_all add: cache_ok_def linked_def)
  with c show ?thesis
    by (auto simp: over_limits_def resident_def word_less_nat_alt)
qed

definition small_limits :: MemoryCacheLimits where
  "small_limits = \<lparr>maximum_entries = 1, maximum_bytes = 1000\<rparr>"

definition key_of :: "char \<Rightarrow> string" where "key_of c = replicate 64 c"

definition tiny_artifact :: ArtifactData where
  "tiny_artifact = \<lparr>metadata = tiny_metadata, cache_key_digest = replicate 32 7,
     color_identity = plain_color, payload = [1, 2, 3]\<rparr>"

definition two_inserts :: "cache_call list" where
  "two_inserts =
     [Call_insert (key_of CHR ''a'') (Some tiny_artifact) 0,
      Call_insert (key_of CHR ''b'') (Some tiny_artifact) 0, Call_find (key_of CHR ''a'')]"

theorem memory_cache_refines_lru_witness:
  "\<exists>c. cache_calls two_inserts (MemoryArtifactCache_new small_limits) =
    Some ([Flag True, Flag True, Artifact None], c)"
proof -
  have "valid_digest (key_of CHR ''a'')" "valid_digest (key_of CHR ''b'')"
    "artifact_weight tiny_artifact = 75" "key_of CHR ''a'' \<noteq> key_of CHR ''b''"
    by (simp_all add: valid_digest_def key_of_def list_all_iff artifact_weight_def tiny_artifact_def
        kVvt1HeaderBytes_def)
  then have "fst (lru_calls small_limits two_inserts []) = [Flag True, Flag True, Artifact None]"
    by (simp add: two_inserts_def lru_call_def lru_insert_def lru_find_def lru_entry_def
        lru_without_def small_limits_def)
  moreover have "unat (maximum_bytes small_limits) < 2 ^ 63" by (simp add: small_limits_def)
  ultimately show ?thesis using memory_cache_refines_lru [of small_limits two_inserts] by auto
qed

end
