(* ===== verification/Thumbnail_Scheduler.thy ===== *)
theory Thumbnail_Scheduler
  imports Prelude
begin

text \<open>
  The queue of thumbnail requests: \<open>src/Source/src/preview/thumbnail_scheduler.cpp\<close>. Requests are
  taken by priority, but one that has been passed over often enough is taken first, the oldest
  of these before the others. A full queue gives up its worst request for a better one.
  Cancelled generations are remembered, up to a bound, so that late submissions are refused.
\<close>

section \<open>State\<close>

datatype ThumbnailPriority = Visible_selected | Visible | Folder | Nearby | Rest

record ThumbnailRequest =
  job_id :: u64
  generation :: u64
  source_id :: u64
  request_edge :: u32
  priority :: ThumbnailPriority

record PendingRequest =
  request :: ThumbnailRequest
  sequence_number :: u64
  dispatch_count_at_submit :: u64

record ThumbnailScheduler =
  capacity :: nat
  next_sequence :: u64
  dispatch_count :: u64
  pending :: "PendingRequest list"
  pending_job_ids :: "u64 set"
  cancelled_generations :: "u64 set"
  cancelled_order :: "u64 list"

datatype SubmitStatus =
    Queued | Queued_after_eviction | Submit_invalid_request | Duplicate_job | Cancelled_generation
  | Queue_full

record SubmitResult =
  submit_status :: SubmitStatus
  evicted_job :: "u64 option"

definition kMaximumCanonicalEdge :: u32 where "kMaximumCanonicalEdge = 4096"
definition kMaximumRememberedCancelledGenerations :: nat where
  "kMaximumRememberedCancelledGenerations = 4096"
definition kMaximumPriorityBypasses :: u64 where "kMaximumPriorityBypasses = 16"
definition kMaximumFolderPriorityBypasses :: u64 where "kMaximumFolderPriorityBypasses = 4"

definition ThumbnailScheduler_new :: "nat \<Rightarrow> ThumbnailScheduler" where
  "ThumbnailScheduler_new n =
     \<lparr>capacity = n, next_sequence = 0, dispatch_count = 0, pending = [], pending_job_ids = {},
      cancelled_generations = {}, cancelled_order = []\<rparr>"

text \<open>Every value of the enumeration is a valid priority.\<close>

definition valid_request :: "ThumbnailRequest \<Rightarrow> bool" where
  "valid_request r \<longleftrightarrow>
     job_id r \<noteq> 0 \<and> generation r \<noteq> 0 \<and> source_id r \<noteq> 0 \<and> request_edge r \<noteq> 0 \<and>
     request_edge r \<le> kMaximumCanonicalEdge"

definition priority_rank :: "ThumbnailPriority \<Rightarrow> nat" where
  "priority_rank p =
     (case p of Visible_selected \<Rightarrow> 0 | Visible \<Rightarrow> 1 | Folder \<Rightarrow> 2 | Nearby \<Rightarrow> 3 | Rest \<Rightarrow> 4)"

section \<open>Choosing\<close>

definition bypass_limit :: "PendingRequest \<Rightarrow> u64" where
  "bypass_limit p =
     (if priority (request p) = Folder then kMaximumFolderPriorityBypasses
      else kMaximumPriorityBypasses)"

definition starving :: "ThumbnailScheduler \<Rightarrow> PendingRequest \<Rightarrow> bool" where
  "starving s p \<longleftrightarrow> \<not> dispatch_count s - dispatch_count_at_submit p < bypass_limit p"

definition waited_longer :: "PendingRequest \<Rightarrow> PendingRequest \<Rightarrow> bool" where
  "waited_longer a b \<longleftrightarrow>
     dispatch_count_at_submit a < dispatch_count_at_submit b \<or>
     dispatch_count_at_submit a = dispatch_count_at_submit b \<and> sequence_number a < sequence_number b"

text \<open>The first loop of \<open>next_index\<close>, over the indices below \<open>n\<close>.\<close>

definition starved_index :: "ThumbnailScheduler \<Rightarrow> nat \<Rightarrow> nat option" where
  "starved_index s n =
     fold (\<lambda>index starved.
       let candidate = pending s ! index in
       if \<not> starving s candidate then starved
       else case starved of
              None \<Rightarrow> Some index
            | Some i \<Rightarrow> if waited_longer candidate (pending s ! i) then Some index else Some i)
       [0..<n] None"

definition preferred :: "PendingRequest \<Rightarrow> PendingRequest \<Rightarrow> bool" where
  "preferred candidate current \<longleftrightarrow>
     priority_rank (priority (request candidate)) < priority_rank (priority (request current)) \<or>
     priority_rank (priority (request candidate)) = priority_rank (priority (request current)) \<and>
     sequence_number candidate < sequence_number current"

definition best_index :: "ThumbnailScheduler \<Rightarrow> nat" where
  "best_index s =
     fold (\<lambda>index best. if preferred (pending s ! index) (pending s ! best) then index else best)
       [1..<length (pending s)] 0"

definition next_index :: "ThumbnailScheduler \<Rightarrow> nat" where
  "next_index s =
     (case starved_index s (length (pending s)) of Some i \<Rightarrow> i | None \<Rightarrow> best_index s)"

definition worse :: "PendingRequest \<Rightarrow> PendingRequest \<Rightarrow> bool" where
  "worse candidate current \<longleftrightarrow>
     priority_rank (priority (request current)) < priority_rank (priority (request candidate)) \<or>
     priority_rank (priority (request candidate)) = priority_rank (priority (request current)) \<and>
     sequence_number current < sequence_number candidate"

definition worst_index :: "ThumbnailScheduler \<Rightarrow> nat" where
  "worst_index s =
     fold (\<lambda>index worst. if worse (pending s ! index) (pending s ! worst) then index else worst)
       [1..<length (pending s)] 0"

section \<open>Operations\<close>

definition erase_at :: "nat \<Rightarrow> ThumbnailScheduler \<Rightarrow> ThumbnailScheduler" where
  "erase_at index s =
     s\<lparr>pending_job_ids := pending_job_ids s - {job_id (request (pending s ! index))},
       pending := take index (pending s) @ drop (Suc index) (pending s)\<rparr>"

definition refused :: "SubmitStatus \<Rightarrow> SubmitResult" where
  "refused status = \<lparr>submit_status = status, evicted_job = None\<rparr>"

definition enqueue :: "ThumbnailRequest \<Rightarrow> ThumbnailScheduler \<Rightarrow> ThumbnailScheduler" where
  "enqueue r s =
     s\<lparr>pending_job_ids := insert (job_id r) (pending_job_ids s),
       pending := pending s @ [\<lparr>request = r, sequence_number = next_sequence s,
                               dispatch_count_at_submit = dispatch_count s\<rparr>],
       next_sequence := next_sequence s + 1\<rparr>"

definition submit :: "ThumbnailRequest \<Rightarrow> ThumbnailScheduler \<Rightarrow> SubmitResult \<times> ThumbnailScheduler" where
  "submit r s =
     (if \<not> valid_request r then (refused Submit_invalid_request, s)
      else if generation r \<in> cancelled_generations s then (refused Cancelled_generation, s)
      else if job_id r \<in> pending_job_ids s then (refused Duplicate_job, s)
      else if capacity s = 0 then (refused Queue_full, s)
      else if length (pending s) = capacity s then
        (let index = worst_index s; victim = request (pending s ! index) in
         if priority_rank (priority victim) \<le> priority_rank (priority r) then (refused Queue_full, s)
         else (\<lparr>submit_status = Queued_after_eviction, evicted_job = Some (job_id victim)\<rparr>,
               enqueue r (erase_at index s)))
      else (refused Queued, enqueue r s))"

definition take_next :: "ThumbnailScheduler \<Rightarrow> ThumbnailRequest option \<times> ThumbnailScheduler" where
  "take_next s =
     (if pending s = [] then (None, s)
      else let index = next_index s; r = request (pending s ! index) in
           (Some r, (erase_at index s)\<lparr>dispatch_count := dispatch_count s + 1\<rparr>))"

definition remember_cancelled :: "u64 \<Rightarrow> ThumbnailScheduler \<Rightarrow> ThumbnailScheduler" where
  "remember_cancelled g s =
     (if g \<in> cancelled_generations s then s
      else let order = cancelled_order s @ [g];
               s = s\<lparr>cancelled_generations := insert g (cancelled_generations s),
                     cancelled_order := order\<rparr> in
           if kMaximumRememberedCancelledGenerations < length order then
             s\<lparr>cancelled_order := tl order,
               cancelled_generations := cancelled_generations s - {hd order}\<rparr>
           else s)"

definition cancel_generation :: "u64 \<Rightarrow> ThumbnailScheduler \<Rightarrow> nat \<times> ThumbnailScheduler" where
  "cancel_generation g s =
     (let s = remember_cancelled g s;
          gone = filter (\<lambda>p. generation (request p) = g) (pending s);
          kept = filter (\<lambda>p. generation (request p) \<noteq> g) (pending s)
      in (length (pending s) - length kept,
          s\<lparr>pending := kept,
            pending_job_ids := pending_job_ids s - (\<lambda>p. job_id (request p)) ` set gone\<rparr>))"

definition release_generation :: "u64 \<Rightarrow> ThumbnailScheduler \<Rightarrow> ThumbnailScheduler" where
  "release_generation g s =
     s\<lparr>cancelled_generations := cancelled_generations s - {g},
       cancelled_order := filter (\<lambda>h. h \<noteq> g) (cancelled_order s)\<rparr>"

section \<open>The chosen indices\<close>

lemma fold_upto_Suc: "m \<le> n \<Longrightarrow> fold f [m..<Suc n] a = f n (fold f [m..<n] a)"
  by simp

text \<open>A running choice among the indices seen so far.\<close>

lemma fold_choice:
  fixes xs :: "'a list"
  assumes trans: "\<And>a b c. better a b \<Longrightarrow> better b c \<Longrightarrow> better a c"
    and irrefl: "\<And>a. \<not> better a a" and "0 < n"
  defines "f \<equiv> \<lambda>index best. if better (xs ! index) (xs ! best) then index else (best :: nat)"
  shows "fold f [1..<n] 0 < n \<and> (\<forall>j<n. \<not> better (xs ! j) (xs ! fold f [1..<n] 0))"
  using assms(3)
proof (induction n)
  case (Suc n)
  show ?case
  proof (cases "n = 0")
    case True
    then show ?thesis by (simp add: irrefl)
  next
    case False
    let ?b = "fold f [1..<n] 0"
    have ih: "?b < n" "\<forall>j<n. \<not> better (xs ! j) (xs ! ?b)"
      using Suc False by auto
    have step: "fold f [1..<Suc n] 0 = f n ?b" using False by simp
    show ?thesis
    proof (cases "better (xs ! n) (xs ! ?b)")
      case True
      have "\<not> better (xs ! j) (xs ! n)" if "j < n" for j
        using ih(2) that trans [OF _ True] by blast
      with True irrefl step show ?thesis by (auto simp: f_def less_Suc_eq)
    next
      case worse: False
      with ih step show ?thesis by (auto simp: f_def less_Suc_eq)
    qed
  qed
qed simp

lemma waited_longer_order:
  "waited_longer a b \<Longrightarrow> waited_longer b c \<Longrightarrow> waited_longer a c" "\<not> waited_longer a a"
  by (auto simp: waited_longer_def)

lemma best_index_choice:
  assumes "pending s \<noteq> []"
  shows "best_index s < length (pending s) \<and>
    (\<forall>j<length (pending s). \<not> preferred (pending s ! j) (pending s ! best_index s))"
  unfolding best_index_def
  by (rule fold_choice) (use assms in \<open>auto simp: preferred_def\<close>)

lemma worst_index_choice:
  assumes "pending s \<noteq> []"
  shows "worst_index s < length (pending s) \<and>
    (\<forall>j<length (pending s). \<not> worse (pending s ! j) (pending s ! worst_index s))"
  unfolding worst_index_def
  by (rule fold_choice) (use assms in \<open>auto simp: worse_def\<close>)

lemma starved_index_choice:
  "case starved_index s n of
     None \<Rightarrow> \<forall>j<n. \<not> starving s (pending s ! j)
   | Some i \<Rightarrow> i < n \<and> starving s (pending s ! i) \<and>
       (\<forall>j<n. starving s (pending s ! j) \<longrightarrow> \<not> waited_longer (pending s ! j) (pending s ! i))"
proof (induction n)
  case 0
  then show ?case by (simp add: starved_index_def)
next
  case (Suc n)
  have step: "starved_index s (Suc n) =
      (if \<not> starving s (pending s ! n) then starved_index s n
       else case starved_index s n of
              None \<Rightarrow> Some n
            | Some i \<Rightarrow> if waited_longer (pending s ! n) (pending s ! i) then Some n else Some i)"
    by (simp add: starved_index_def Let_def)
  show ?case
  proof (cases "starved_index s n")
    case None
    with Suc.IH step show ?thesis
      by (auto simp: less_Suc_eq waited_longer_order(2))
  next
    case (Some i)
    with Suc.IH step show ?thesis
      by (auto simp: less_Suc_eq waited_longer_order(2) dest: waited_longer_order(1))
  qed
qed

lemma next_index_choice:
  assumes "pending s \<noteq> []"
  defines "q \<equiv> pending s ! next_index s"
  shows "next_index s < length (pending s) \<and>
    (\<forall>p\<in>set (pending s). starving s p \<longrightarrow> starving s q \<and> \<not> waited_longer p q) \<and>
    ((\<exists>p\<in>set (pending s). starving s p) \<or> (\<forall>p\<in>set (pending s). \<not> preferred p q))"
proof (cases "starved_index s (length (pending s))")
  case None
  with starved_index_choice [where s = s and n = "length (pending s)"] best_index_choice [OF assms(1)]
  show ?thesis by (auto simp: q_def next_index_def in_set_conv_nth)
next
  case (Some i)
  with starved_index_choice [where s = s and n = "length (pending s)"]
  have i: "i < length (pending s)" "starving s (pending s ! i)"
    "\<forall>j<length (pending s). starving s (pending s ! j) \<longrightarrow>
       \<not> waited_longer (pending s ! j) (pending s ! i)" by auto
  have "q = pending s ! i" "next_index s = i" using Some by (simp_all add: q_def next_index_def)
  moreover from i have "\<exists>p\<in>set (pending s). starving s p" by auto
  ultimately show ?thesis using i by (auto simp: in_set_conv_nth)
qed

section \<open>The invariant\<close>

definition scheduler_ok :: "ThumbnailScheduler \<Rightarrow> bool" where
  "scheduler_ok s \<longleftrightarrow>
     length (pending s) \<le> capacity s \<and>
     distinct (map (\<lambda>p. job_id (request p)) (pending s)) \<and>
     pending_job_ids s = (\<lambda>p. job_id (request p)) ` set (pending s) \<and>
     (\<forall>p\<in>set (pending s). valid_request (request p) \<and>
        generation (request p) \<notin> cancelled_generations s) \<and>
     distinct (cancelled_order s) \<and> cancelled_generations s = set (cancelled_order s) \<and>
     length (cancelled_order s) \<le> kMaximumRememberedCancelledGenerations"

text \<open>While the counters have not wrapped, they order the requests by age.\<close>

definition scheduler_timed :: "ThumbnailScheduler \<Rightarrow> bool" where
  "scheduler_timed s \<longleftrightarrow>
     distinct (map sequence_number (pending s)) \<and>
     (\<forall>p\<in>set (pending s). sequence_number p < next_sequence s \<and>
        dispatch_count_at_submit p \<le> dispatch_count s)"

lemma erase_at_pending:
  assumes "i < length (pending s)"
  shows "pending (erase_at i s) = take i (pending s) @ drop (Suc i) (pending s)"
    "set (pending s) = insert (pending s ! i) (set (pending (erase_at i s)))"
    "length (pending (erase_at i s)) = length (pending s) - 1"
proof -
  show "pending (erase_at i s) = take i (pending s) @ drop (Suc i) (pending s)"
    by (simp add: erase_at_def)
  have "pending s = take i (pending s) @ pending s ! i # drop (Suc i) (pending s)"
    using assms by (rule id_take_nth_drop)
  then have "set (pending s) = set (take i (pending s) @ pending s ! i # drop (Suc i) (pending s))"
    by (rule arg_cong)
  then show "set (pending s) = insert (pending s ! i) (set (pending (erase_at i s)))"
    by (simp add: erase_at_def)
  show "length (pending (erase_at i s)) = length (pending s) - 1"
    using assms by (simp add: erase_at_def)
qed

lemma erase_at_member:
  assumes "distinct (map f (pending s))" "i < length (pending s)"
  shows "p \<in> set (pending (erase_at i s)) \<longleftrightarrow> p \<in> set (pending s) \<and> f p \<noteq> f (pending s ! i)"
    "distinct (map f (pending (erase_at i s)))"
proof -
  let ?a = "take i (pending s)" and ?x = "pending s ! i" and ?b = "drop (Suc i) (pending s)"
  have split: "pending s = ?a @ ?x # ?b" using assms(2) by (rule id_take_nth_drop)
  from assms(1) have dist: "distinct (map f (?a @ ?x # ?b))" by (simp only: split [symmetric])
  then have apart: "f y \<noteq> f ?x" if "y \<in> set ?a \<union> set ?b" for y
    using that by (auto simp: image_iff)
  have "set (pending s) = insert ?x (set ?a \<union> set ?b)"
    using arg_cong [OF split, of set] by simp
  with apart show "p \<in> set (pending (erase_at i s)) \<longleftrightarrow> p \<in> set (pending s) \<and> f p \<noteq> f ?x"
    by (auto simp: erase_at_def)
  show "distinct (map f (pending (erase_at i s)))"
    using dist by (auto simp: erase_at_def)
qed

lemma erase_at_ok:
  assumes "scheduler_ok s" "i < length (pending s)"
  shows "scheduler_ok (erase_at i s)"
proof -
  have dist: "distinct (map (\<lambda>p. job_id (request p)) (pending s))"
    using assms(1) by (simp add: scheduler_ok_def)
  note member = erase_at_member [OF dist assms(2)]
  have ids: "pending_job_ids (erase_at i s) = (\<lambda>p. job_id (request p)) ` set (pending (erase_at i s))"
    using assms(1) member(1) by (auto simp: scheduler_ok_def) (auto simp: erase_at_def scheduler_ok_def)
  have same: "capacity (erase_at i s) = capacity s" "cancelled_generations (erase_at i s) = cancelled_generations s"
    "cancelled_order (erase_at i s) = cancelled_order s"
    by (simp_all add: erase_at_def)
  show ?thesis
    using assms member ids erase_at_pending(3) [OF assms(2)]
    by (auto simp: scheduler_ok_def same)
qed

lemma enqueue_ok:
  assumes "scheduler_ok s" "valid_request r" "generation r \<notin> cancelled_generations s"
    and "job_id r \<notin> pending_job_ids s" "length (pending s) < capacity s"
  shows "scheduler_ok (enqueue r s)"
  using assms by (auto simp: scheduler_ok_def enqueue_def)

lemma submit_cases:
  "snd (submit r s) = s \<or>
   valid_request r \<and> generation r \<notin> cancelled_generations s \<and> job_id r \<notin> pending_job_ids s \<and>
     (length (pending s) = capacity s \<and> capacity s \<noteq> 0 \<and>
        snd (submit r s) = enqueue r (erase_at (worst_index s) s) \<or>
      length (pending s) \<noteq> capacity s \<and> snd (submit r s) = enqueue r s)"
  by (simp add: submit_def Let_def)

lemma submit_ok:
  assumes "scheduler_ok s"
  shows "scheduler_ok (snd (submit r s))"
proof -
  consider "snd (submit r s) = s"
    | "valid_request r" "generation r \<notin> cancelled_generations s" "job_id r \<notin> pending_job_ids s"
      "length (pending s) = capacity s" "capacity s \<noteq> 0"
      "snd (submit r s) = enqueue r (erase_at (worst_index s) s)"
    | "valid_request r" "generation r \<notin> cancelled_generations s" "job_id r \<notin> pending_job_ids s"
      "length (pending s) \<noteq> capacity s" "snd (submit r s) = enqueue r s"
    using submit_cases [of r s] by blast
  then show ?thesis
  proof cases
    case 2
    from 2 have "pending s \<noteq> []" by auto
    then have w: "worst_index s < length (pending s)" using worst_index_choice by blast
    note erased = erase_at_ok [OF assms w]
    have "length (pending (erase_at (worst_index s) s)) < capacity (erase_at (worst_index s) s)"
      using 2 erase_at_pending(3) [OF w] by (simp add: erase_at_def)
    moreover have "generation r \<notin> cancelled_generations (erase_at (worst_index s) s)"
      "job_id r \<notin> pending_job_ids (erase_at (worst_index s) s)"
      using 2 by (simp_all add: erase_at_def)
    ultimately show ?thesis using enqueue_ok [OF erased 2(1)] 2(6) by simp
  next
    case 3
    with assms have "length (pending s) < capacity s" by (simp add: scheduler_ok_def)
    with 3 enqueue_ok [OF assms 3(1-3)] show ?thesis by simp
  qed (simp add: assms)
qed

lemma take_next_ok:
  assumes "scheduler_ok s"
  shows "scheduler_ok (snd (take_next s))"
proof (cases "pending s = []")
  case False
  note erased = erase_at_ok [OF assms conjunct1 [OF next_index_choice [OF False]]]
  then have "scheduler_ok ((erase_at (next_index s) s)\<lparr>dispatch_count := dispatch_count s + 1\<rparr>)"
    by (auto simp: scheduler_ok_def)
  with False show ?thesis by (simp add: take_next_def Let_def)
qed (simp add: take_next_def assms)

lemma remember_cancelled_ok:
  assumes "scheduler_ok s"
  shows "distinct (cancelled_order (remember_cancelled g s)) \<and>
    cancelled_generations (remember_cancelled g s) = set (cancelled_order (remember_cancelled g s)) \<and>
    length (cancelled_order (remember_cancelled g s)) \<le> kMaximumRememberedCancelledGenerations \<and>
    cancelled_generations (remember_cancelled g s) \<subseteq> insert g (cancelled_generations s) \<and>
    g \<in> cancelled_generations (remember_cancelled g s)"
proof (cases "g \<in> cancelled_generations s")
  case False
  let ?order = "cancelled_order s @ [g]"
  from assms have old: "distinct (cancelled_order s)" "cancelled_generations s = set (cancelled_order s)"
    "length (cancelled_order s) \<le> kMaximumRememberedCancelledGenerations"
    by (simp_all add: scheduler_ok_def)
  have dist: "distinct ?order" using old False by simp
  show ?thesis
  proof (cases "kMaximumRememberedCancelledGenerations < length ?order")
    case True
    then obtain h t where ht: "?order = h # t" "t \<noteq> []" "cancelled_order s \<noteq> []"
      using old(3) by (cases "cancelled_order s")
        (auto simp: kMaximumRememberedCancelledGenerations_def)
    have all: "insert g (cancelled_generations s) = insert h (set t)"
      using arg_cong [OF ht(1), of set] old(2) by simp
    moreover have "h \<notin> set t" using dist ht(1) by simp
    moreover have "g \<in> set t" using ht by (metis last_ConsR last_in_set last_snoc)
    moreover have "length t \<le> kMaximumRememberedCancelledGenerations"
      using arg_cong [OF ht(1), of length] old(3) by simp
    ultimately show ?thesis
      using True False ht dist by (auto simp: remember_cancelled_def Let_def)
  next
    case short: False
    with False dist old show ?thesis by (auto simp: remember_cancelled_def Let_def)
  qed
qed (use assms in \<open>auto simp: remember_cancelled_def scheduler_ok_def\<close>)

lemma cancel_generation_ok:
  assumes "scheduler_ok s"
  shows "scheduler_ok (snd (cancel_generation g s))"
proof -
  let ?s = "remember_cancelled g s"
  note remembered = remember_cancelled_ok [OF assms, of g]
  have same: "pending ?s = pending s" "pending_job_ids ?s = pending_job_ids s" "capacity ?s = capacity s"
    by (simp_all add: remember_cancelled_def Let_def)
  let ?id = "\<lambda>p. job_id (request p)"
  have dist: "distinct (map ?id (pending s))" and ids: "pending_job_ids s = ?id ` set (pending s)"
    and few: "length (pending s) \<le> capacity s"
    and each: "\<forall>p\<in>set (pending s). valid_request (request p) \<and>
      generation (request p) \<notin> cancelled_generations s"
    using assms unfolding scheduler_ok_def by blast+
  have "?id p \<noteq> ?id q" if "p \<in> set (pending s)" "q \<in> set (pending s)"
    "generation (request p) \<noteq> generation (request q)" for p q
    using dist that by (auto simp: distinct_map dest: inj_onD)
  then have "?id ` set (pending s) - ?id ` set (filter (\<lambda>p. generation (request p) = g) (pending s)) =
      ?id ` set (filter (\<lambda>p. generation (request p) \<noteq> g) (pending s))"
    by (auto simp: image_iff)
  moreover have "distinct (map ?id (filter (\<lambda>p. generation (request p) \<noteq> g) (pending s)))"
    using dist by (simp add: distinct_map_filter)
  moreover have "length (filter (\<lambda>p. generation (request p) \<noteq> g) (pending s)) \<le> capacity s"
    using few length_filter_le [of "\<lambda>p. generation (request p) \<noteq> g" "pending s"] by linarith
  ultimately show ?thesis
    using remembered each
    by (auto simp: scheduler_ok_def cancel_generation_def Let_def same ids)
qed

lemma release_generation_ok:
  assumes "scheduler_ok s"
  shows "scheduler_ok (release_generation g s)"
proof -
  have "length (filter (\<lambda>h. h \<noteq> g) (cancelled_order s)) \<le> kMaximumRememberedCancelledGenerations"
    using assms length_filter_le [of "\<lambda>h. h \<noteq> g" "cancelled_order s"]
    unfolding scheduler_ok_def by linarith
  then show ?thesis using assms by (auto simp: scheduler_ok_def release_generation_def)
qed

section \<open>Runs\<close>

datatype SchedulerCall =
    Submit_call ThumbnailRequest
  | Take_call
  | Cancel_call u64
  | Release_call u64

definition scheduler_call :: "SchedulerCall \<Rightarrow> ThumbnailScheduler \<Rightarrow> ThumbnailScheduler" where
  "scheduler_call call s =
     (case call of
        Submit_call r \<Rightarrow> snd (submit r s)
      | Take_call \<Rightarrow> snd (take_next s)
      | Cancel_call g \<Rightarrow> snd (cancel_generation g s)
      | Release_call g \<Rightarrow> release_generation g s)"

definition scheduler_run :: "SchedulerCall list \<Rightarrow> ThumbnailScheduler \<Rightarrow> ThumbnailScheduler" where
  "scheduler_run = fold scheduler_call"

lemma scheduler_call_ok: "scheduler_ok s \<Longrightarrow> scheduler_ok (scheduler_call call s)"
  by (cases call)
    (simp_all add: scheduler_call_def submit_ok take_next_ok cancel_generation_ok release_generation_ok)

lemma scheduler_run_ok: "scheduler_ok s \<Longrightarrow> scheduler_ok (scheduler_run calls s)"
  unfolding scheduler_run_def
  by (induction calls arbitrary: s) (simp_all add: scheduler_call_ok)

lemma scheduler_new_ok: "scheduler_ok (ThumbnailScheduler_new n)"
  by (simp add: scheduler_ok_def ThumbnailScheduler_new_def)

lemma erase_at_same [simp]:
  "capacity (erase_at i s) = capacity s" "dispatch_count (erase_at i s) = dispatch_count s"
  "next_sequence (erase_at i s) = next_sequence s"
  by (simp_all add: erase_at_def)

lemma scheduler_call_capacity: "capacity (scheduler_call call s) = capacity s"
  by (auto simp: scheduler_call_def submit_def take_next_def cancel_generation_def
      remember_cancelled_def release_generation_def enqueue_def Let_def split: SchedulerCall.split)

lemma scheduler_run_capacity: "capacity (scheduler_run calls s) = capacity s"
  unfolding scheduler_run_def
  by (induction calls arbitrary: s) (simp_all add: scheduler_call_capacity)

section \<open>No request starves\<close>

text \<open>
  How often a request has been passed over, and how many of the pending ones are older. A
  request that has reached its limit is passed over for older ones only, so the sum of the two
  stays below its limit and the capacity together.
\<close>

definition bypasses :: "ThumbnailScheduler \<Rightarrow> PendingRequest \<Rightarrow> nat" where
  "bypasses s p = unat (dispatch_count s - dispatch_count_at_submit p)"

definition older :: "ThumbnailScheduler \<Rightarrow> PendingRequest \<Rightarrow> nat" where
  "older s p = length (filter (\<lambda>q. waited_longer q p) (pending s))"

definition scheduler_fair :: "ThumbnailScheduler \<Rightarrow> bool" where
  "scheduler_fair s \<longleftrightarrow>
     (\<forall>p\<in>set (pending s). bypasses s p + older s p < unat (bypass_limit p) + capacity s)"

definition counted :: "nat \<Rightarrow> ThumbnailScheduler \<Rightarrow> bool" where
  "counted m s \<longleftrightarrow> unat (next_sequence s) \<le> m \<and> unat (dispatch_count s) \<le> m"

definition scheduler_live :: "nat \<Rightarrow> ThumbnailScheduler \<Rightarrow> bool" where
  "scheduler_live m s \<longleftrightarrow> scheduler_ok s \<and> scheduler_timed s \<and> scheduler_fair s \<and> counted m s"

lemma unat_Suc_u64: "unat (w :: u64) < 2 ^ 64 - 1 \<Longrightarrow> unat (w + 1) = Suc (unat w)"
  by (subst unat_plus_if_size) (simp add: word_size)

lemma older_erase_at:
  assumes "i < length (pending s)"
  shows "older s p = older (erase_at i s) p + (if waited_longer (pending s ! i) p then 1 else 0)"
proof -
  let ?a = "take i (pending s)" and ?b = "drop (Suc i) (pending s)"
  have "pending s = ?a @ pending s ! i # ?b" using assms by (rule id_take_nth_drop)
  then have "filter (\<lambda>q. waited_longer q p) (pending s) =
      filter (\<lambda>q. waited_longer q p) (?a @ pending s ! i # ?b)" by (rule arg_cong)
  then show ?thesis by (simp add: older_def erase_at_def)
qed

lemma erase_at_timed:
  assumes "scheduler_timed s" "i < length (pending s)"
  shows "scheduler_timed (erase_at i s)"
  using assms erase_at_member [of sequence_number s i]
  by (auto simp: scheduler_timed_def)

lemma erase_at_fair:
  assumes "scheduler_fair s" "i < length (pending s)"
  shows "scheduler_fair (erase_at i s)"
  using assms older_erase_at [OF assms(2)] erase_at_pending(2) [OF assms(2)]
  by (fastforce simp: scheduler_fair_def bypasses_def)

lemma enqueue_timed:
  assumes "scheduler_timed s" "unat (next_sequence s) < 2 ^ 64 - 1"
  shows "scheduler_timed (enqueue r s)"
proof -
  have "next_sequence s < next_sequence s + 1"
    using unat_Suc_u64 [OF assms(2)] by (simp add: word_less_nat_alt)
  with assms(1) show ?thesis
    by (fastforce simp: scheduler_timed_def enqueue_def intro: less_trans)
qed

lemma enqueue_fair:
  assumes "scheduler_timed s" "scheduler_fair s" "length (pending s) < capacity s"
  shows "scheduler_fair (enqueue r s)"
proof -
  have same: "older (enqueue r s) p = older s p" if "p \<in> set (pending s)" for p
    using assms(1) that by (auto simp: older_def enqueue_def waited_longer_def scheduler_timed_def)
  have fresh: "older (enqueue r s) p \<le> length (pending s)"
    if "sequence_number p = next_sequence s" "dispatch_count_at_submit p = dispatch_count s" for p
    using that by (simp add: older_def enqueue_def waited_longer_def)
  have "0 < unat (bypass_limit p)" for p
    by (simp add: bypass_limit_def kMaximumFolderPriorityBypasses_def kMaximumPriorityBypasses_def)
  with assms(2,3) same fresh [of "\<lparr>request = r, sequence_number = next_sequence s,
      dispatch_count_at_submit = dispatch_count s\<rparr>"]
  show ?thesis
    by (auto simp: scheduler_fair_def bypasses_def enqueue_def intro: add_less_le_mono)
qed

lemma submit_live:
  assumes "scheduler_live m s" "m < 2 ^ 64 - 1"
  shows "scheduler_live (Suc m) (snd (submit r s))"
proof -
  have ok: "scheduler_ok s" and timed: "scheduler_timed s" and fair: "scheduler_fair s"
    and few: "unat (next_sequence s) \<le> m" "unat (dispatch_count s) \<le> m"
    using assms(1) by (simp_all add: scheduler_live_def counted_def)
  have room: "unat (next_sequence s) < 2 ^ 64 - 1" using few assms(2) by simp
  have counted: "counted (Suc m) (enqueue r s')"
    if "next_sequence s' = next_sequence s" "dispatch_count s' = dispatch_count s" for s'
    using that few unat_Suc_u64 [OF room] by (simp add: counted_def enqueue_def)
  consider "snd (submit r s) = s"
    | "length (pending s) = capacity s" "capacity s \<noteq> 0"
      "snd (submit r s) = enqueue r (erase_at (worst_index s) s)"
    | "length (pending s) \<noteq> capacity s" "snd (submit r s) = enqueue r s"
    using submit_cases [of r s] by blast
  then have "scheduler_timed (snd (submit r s)) \<and> scheduler_fair (snd (submit r s)) \<and>
      counted (Suc m) (snd (submit r s))"
  proof cases
    case 1
    with timed fair few show ?thesis by (simp add: counted_def)
  next
    case 2
    let ?e = "erase_at (worst_index s) s"
    from 2 have "pending s \<noteq> []" by auto
    then have w: "worst_index s < length (pending s)" using worst_index_choice by blast
    then have "length (pending ?e) < capacity ?e" using 2 erase_at_pending(3) [OF w] by simp
    with 2 w timed fair room counted [of ?e] show ?thesis
      by (simp add: enqueue_timed enqueue_fair erase_at_timed erase_at_fair)
  next
    case 3
    with ok have "length (pending s) < capacity s" by (simp add: scheduler_ok_def)
    with 3 timed fair room counted [of s] show ?thesis by (simp add: enqueue_timed enqueue_fair)
  qed
  with submit_ok [OF ok] show ?thesis by (simp add: scheduler_live_def)
qed

lemma starving_iff: "starving s p \<longleftrightarrow> unat (bypass_limit p) \<le> bypasses s p"
  by (simp add: starving_def bypasses_def not_less word_le_nat_alt)

text \<open>Distinct sequence numbers make the age a total order.\<close>

lemma waited_longer_total:
  assumes "scheduler_timed s" "p \<in> set (pending s)" "q \<in> set (pending s)" "p \<noteq> q"
  shows "waited_longer p q \<or> waited_longer q p"
proof -
  have "sequence_number p \<noteq> sequence_number q"
    using assms by (auto simp: scheduler_timed_def distinct_map dest: inj_onD)
  then show ?thesis by (auto simp: waited_longer_def)
qed

lemma take_next_fair:
  assumes timed: "scheduler_timed s" and fair: "scheduler_fair s" and some: "pending s \<noteq> []"
    and room: "unat (dispatch_count s) < 2 ^ 64 - 1" and ok: "scheduler_ok s"
  shows "scheduler_fair (snd (take_next s))"
proof -
  let ?i = "next_index s" and ?q = "pending s ! next_index s"
  let ?t = "(erase_at ?i s)\<lparr>dispatch_count := dispatch_count s + 1\<rparr>"
  note chosen = next_index_choice [OF some]
  then have i: "?i < length (pending s)" by blast
  have dist: "distinct (map sequence_number (pending s))"
    using timed by (simp add: scheduler_timed_def)
  have "bypasses ?t p + older ?t p < unat (bypass_limit p) + capacity s"
    if "p \<in> set (pending (erase_at ?i s))" for p
  proof -
    have p: "p \<in> set (pending s)" "p \<noteq> ?q"
      using that erase_at_member(1) [OF dist i] by auto
    have le: "dispatch_count_at_submit p \<le> dispatch_count s"
      using timed p(1) by (simp add: scheduler_timed_def)
    have up: "bypasses ?t p = Suc (bypasses s p)"
    proof -
      have "unat (dispatch_count s - dispatch_count_at_submit p) < 2 ^ 64 - 1"
        using room le by (simp add: unat_sub_if' word_le_nat_alt)
      then have "unat (dispatch_count s - dispatch_count_at_submit p + 1) = Suc (bypasses s p)"
        by (simp add: unat_Suc_u64 bypasses_def)
      then show ?thesis by (simp add: bypasses_def algebra_simps)
    qed
    have down: "older s p = older ?t p + (if waited_longer ?q p then 1 else 0)"
      using older_erase_at [OF i, of p] by (simp add: older_def)
    have "?q \<in> set (pending s)" using i by simp
    note total_order = waited_longer_total [OF timed p(1) this p(2)]
    have bound: "bypasses s p + older s p < unat (bypass_limit p) + capacity s"
      using fair p(1) by (simp add: scheduler_fair_def)
    show ?thesis
    proof (cases "starving s p")
      case True
      with chosen p(1) total_order have "waited_longer ?q p" by blast
      with up down bound show ?thesis by simp
    next
      case False
      then have "Suc (bypasses s p) \<le> unat (bypass_limit p)" by (simp add: starving_iff)
      moreover have "older ?t p \<le> length (pending ?t)" by (simp add: older_def)
      moreover have "length (pending ?t) < capacity s"
        using erase_at_pending(3) [OF i] i ok unfolding scheduler_ok_def by simp linarith
      ultimately show ?thesis using up by simp
    qed
  qed
  with some show ?thesis by (simp add: scheduler_fair_def take_next_def Let_def)
qed

lemma take_next_live:
  assumes "scheduler_live m s" "m < 2 ^ 64 - 1"
  shows "scheduler_live (Suc m) (snd (take_next s))"
proof (cases "pending s = []")
  case True
  with assms show ?thesis by (simp add: take_next_def scheduler_live_def counted_def)
next
  case False
  have ok: "scheduler_ok s" and timed: "scheduler_timed s" and fair: "scheduler_fair s"
    and few: "unat (next_sequence s) \<le> m" "unat (dispatch_count s) \<le> m"
    using assms(1) by (simp_all add: scheduler_live_def counted_def)
  have room: "unat (dispatch_count s) < 2 ^ 64 - 1" using few assms(2) by simp
  then have later: "dispatch_count s \<le> dispatch_count s + 1"
    using unat_Suc_u64 [OF room] by (simp add: word_le_nat_alt)
  have "scheduler_timed (erase_at (next_index s) s)"
    using erase_at_timed [OF timed] next_index_choice [OF False] by blast
  with later False have "scheduler_timed (snd (take_next s))"
    by (fastforce simp: scheduler_timed_def take_next_def Let_def intro: order_trans)
  moreover have "counted (Suc m) (snd (take_next s))"
    using False few unat_Suc_u64 [OF room] by (simp add: take_next_def Let_def counted_def)
  ultimately show ?thesis
    using take_next_fair [OF timed fair False room ok] take_next_ok [OF ok]
    by (simp add: scheduler_live_def)
qed

text \<open>Dropping requests makes nobody wait longer.\<close>

lemma filter_fair:
  assumes "scheduler_timed s" "scheduler_fair s"
    and "pending t = filter P (pending s)" "next_sequence t = next_sequence s"
    and "dispatch_count t = dispatch_count s" "capacity t = capacity s"
  shows "scheduler_timed t \<and> scheduler_fair t"
proof -
  have "older t p \<le> older s p" for p
    using length_filter_le [of P "filter (\<lambda>q. waited_longer q p) (pending s)"]
    by (simp add: older_def assms conj_commute)
  then have "bypasses t p + older t p < unat (bypass_limit p) + capacity t"
    if "p \<in> set (pending s)" for p
    using assms that by (auto simp: scheduler_fair_def bypasses_def
        intro: le_less_trans [OF add_left_mono])
  then have "scheduler_fair t" using assms(3) by (simp add: scheduler_fair_def)
  moreover have "scheduler_timed t"
    using assms by (simp add: scheduler_timed_def distinct_map_filter)
  ultimately show ?thesis by simp
qed

lemma cancel_generation_live:
  assumes "scheduler_live m s"
  shows "scheduler_live (Suc m) (snd (cancel_generation g s))"
proof -
  let ?t = "snd (cancel_generation g s)"
  have same: "pending ?t = filter (\<lambda>p. generation (request p) \<noteq> g) (pending s)"
    "next_sequence ?t = next_sequence s" "dispatch_count ?t = dispatch_count s"
    "capacity ?t = capacity s"
    by (simp_all add: cancel_generation_def remember_cancelled_def Let_def)
  with assms filter_fair [OF _ _ same] show ?thesis
    by (auto simp: scheduler_live_def counted_def cancel_generation_ok)
qed

lemma release_generation_live:
  assumes "scheduler_live m s"
  shows "scheduler_live (Suc m) (release_generation g s)"
proof -
  have "scheduler_timed (release_generation g s) \<and> scheduler_fair (release_generation g s)"
    using assms by (intro filter_fair [of s _ "\<lambda>p. True"])
      (auto simp: scheduler_live_def release_generation_def)
  with assms show ?thesis
    by (auto simp: scheduler_live_def release_generation_ok)
      (simp add: counted_def release_generation_def)
qed

lemma scheduler_call_live:
  "scheduler_live m s \<Longrightarrow> m < 2 ^ 64 - 1 \<Longrightarrow> scheduler_live (Suc m) (scheduler_call call s)"
  by (cases call) (simp_all add: scheduler_call_def submit_live take_next_live
      cancel_generation_live release_generation_live)

lemma scheduler_run_live:
  "scheduler_live m s \<Longrightarrow> m + length calls < 2 ^ 64 \<Longrightarrow>
    scheduler_live (m + length calls) (scheduler_run calls s)"
proof (induction calls arbitrary: m s)
  case (Cons call calls)
  then have "scheduler_live (Suc m) (scheduler_call call s)" by (simp add: scheduler_call_live)
  with Cons.IH [OF this] Cons.prems(2) show ?case by (simp add: scheduler_run_def)
qed (simp add: scheduler_run_def)

lemma scheduler_new_live: "scheduler_live 0 (ThumbnailScheduler_new n)"
  by (simp add: scheduler_live_def scheduler_new_ok)
    (simp add: ThumbnailScheduler_new_def scheduler_timed_def scheduler_fair_def counted_def)

lemmas scheduler_reached_live = scheduler_run_live [OF scheduler_new_live, simplified]

text \<open>A request that is not taken is still there, one more passed over.\<close>

lemma take_next_passes:
  assumes "scheduler_live m s" "m < 2 ^ 64 - 1" "p \<in> set (pending s)"
    and "fst (take_next s) \<noteq> Some (request p)"
  shows "p \<in> set (pending (snd (take_next s))) \<and>
    bypasses (snd (take_next s)) p = Suc (bypasses s p)"
proof -
  have some: "pending s \<noteq> []" using assms(3) by auto
  then have i: "next_index s < length (pending s)" using next_index_choice by blast
  have "p \<noteq> pending s ! next_index s"
    using assms(4) some by (auto simp: take_next_def Let_def)
  with assms(3) erase_at_pending(2) [OF i] some
  have "p \<in> set (pending (snd (take_next s)))" by (auto simp: take_next_def Let_def)
  moreover have "unat (dispatch_count s - dispatch_count_at_submit p) < 2 ^ 64 - 1"
    using assms(1-3) by (auto simp: scheduler_live_def counted_def scheduler_timed_def
        unat_sub_if' word_le_nat_alt)
  then have "unat (dispatch_count s - dispatch_count_at_submit p + 1) = Suc (bypasses s p)"
    by (simp add: unat_Suc_u64 bypasses_def)
  ultimately show ?thesis
    using some by (simp add: take_next_def Let_def bypasses_def algebra_simps)
qed

fun taken :: "nat \<Rightarrow> ThumbnailScheduler \<Rightarrow> ThumbnailRequest list" where
  "taken 0 s = []"
| "taken (Suc n) s =
     (case take_next s of (None, s) \<Rightarrow> [] | (Some r, s) \<Rightarrow> r # taken n s)"

lemma taken_within:
  assumes "scheduler_live m s" "m + n < 2 ^ 64" "p \<in> set (pending s)"
    and "unat (bypass_limit p) + capacity s \<le> bypasses s p + n"
  shows "request p \<in> set (taken n s)"
  using assms
proof (induction n arbitrary: m s)
  case 0
  then show ?case by (auto simp: scheduler_live_def scheduler_fair_def)
next
  case (Suc n)
  have some: "pending s \<noteq> []" using Suc.prems(3) by auto
  obtain r t where next_one: "take_next s = (Some r, t)"
    using some by (auto simp: take_next_def Let_def)
  show ?case
  proof (cases "r = request p")
    case False
    have "p \<in> set (pending t) \<and> bypasses t p = Suc (bypasses s p)"
      using take_next_passes [OF Suc.prems(1) _ Suc.prems(3)] Suc.prems(2) next_one False by simp
    moreover have "scheduler_live (Suc m) t"
      using take_next_live [OF Suc.prems(1)] Suc.prems(2) next_one by simp
    moreover have "capacity t = capacity s"
      using scheduler_call_capacity [of Take_call s] next_one by (simp add: scheduler_call_def)
    ultimately have "request p \<in> set (taken n t)"
      using Suc.IH [of "Suc m" t] Suc.prems by simp
    with next_one show ?thesis by simp
  qed (simp add: next_one)
qed

end
