(* ===== verification/Scheduler_Properties.thy ===== *)
theory Scheduler_Properties
  imports Thumbnail_Scheduler
begin

text \<open>
  What the thumbnail queue promises its clients, whatever they call and in whatever order: its
  books stay in order, the choice of the next request follows the stated policy, and no request
  waits for ever.
\<close>

text \<open>C36: After any sequence of submissions, takes, cancellations and releases, the queue holds at most
  its capacity of valid requests, under different job ids, which are exactly the ids it would refuse as
  duplicates; none of them belongs to a cancelled generation; and at most 4096 cancelled generations
  are remembered, each once.\<close>

theorem scheduler_invariant:
  "scheduler_ok (scheduler_run calls (ThumbnailScheduler_new n)) \<and>
   capacity (scheduler_run calls (ThumbnailScheduler_new n)) = n"
  by (simp add: scheduler_run_ok scheduler_new_ok scheduler_run_capacity)
    (simp add: ThumbnailScheduler_new_def)

text \<open>C35: No request starves. As long as fewer than \<open>2 ^ 64\<close> calls were made, a pending request is
  taken by one of the next takes: at most sixteen (four, for a folder) plus the capacity of the queue,
  whatever was submitted, taken, cancelled or released before. And however calls are interleaved with the
  takes, a request still pending has been passed over less often than that.\<close>

theorem scheduler_served_within:
  assumes "s = scheduler_run calls (ThumbnailScheduler_new n)" "p \<in> set (pending s)"
    and "length calls + unat (bypass_limit p) + n < 2 ^ 64"
  shows "request p \<in> set (taken (unat (bypass_limit p) + n) s) \<and>
    unat (dispatch_count s - dispatch_count_at_submit p) < unat (bypass_limit p) + n"
proof -
  have live: "scheduler_live (length calls) s"
    using assms(1,3) scheduler_reached_live [of calls n] by simp
  have "capacity s = n"
    using assms(1) scheduler_invariant by simp
  with taken_within [OF live _ assms(2), of "unat (bypass_limit p) + n"] assms(3) live assms(2)
  show ?thesis by (force simp: scheduler_live_def scheduler_fair_def bypasses_def)
qed

definition scheduler_example :: "SchedulerCall list" where
  "scheduler_example =
     Submit_call \<lparr>job_id = 1, generation = 1, source_id = 1, request_edge = 64, priority = Rest\<rparr> #
     Submit_call \<lparr>job_id = 2, generation = 1, source_id = 2, request_edge = 64, priority = Visible\<rparr> #
     [Take_call]"

definition passed_over :: PendingRequest where
  "passed_over =
     \<lparr>request = \<lparr>job_id = 1, generation = 1, source_id = 1, request_edge = 64, priority = Rest\<rparr>,
      sequence_number = 0, dispatch_count_at_submit = 0\<rparr>"

lemma passed_over_pending:
  "passed_over \<in> set (pending (scheduler_run scheduler_example (ThumbnailScheduler_new 8)))"
  by code_simp

theorem scheduler_served_within_witness:
  "request passed_over \<in> set (taken (unat (bypass_limit passed_over) + 8)
     (scheduler_run scheduler_example (ThumbnailScheduler_new 8)))"
  using scheduler_served_within [OF refl passed_over_pending]
  by (simp add: scheduler_example_def bypass_limit_def passed_over_def
      kMaximumPriorityBypasses_def kMaximumFolderPriorityBypasses_def)

end
