(* ===== verification/Trash_Transaction.thy ===== *)
theory Trash_Transaction
  imports Batch_Record "HOL-Library.Char_ord" "HOL-Library.List_Lexorder"
begin

text \<open>
  The journal record of the trash: \<open>src/Source/src/fileops/trash_transaction.cpp\<close> (POSIX branch). It
  describes the items of one deletion into a private container, where each of them is, and for a
  directory the manifest of what it contains in the order in which it would be purged. The record
  has grown over five wire versions; all of them are read.
\<close>

section \<open>Data\<close>

datatype TrashItemKind = Trash_file | Trash_directory

datatype TrashPhase =
    Trash_prepared | Trash_moving | Trash_rollback | Trash_rollback_container_remove_intent
  | Trash_manifest_intent | Trash_published | Trash_restore_prepared | Trash_restoring
  | Trash_restore_rollback | Trash_manifest_remove_intent | Trash_restore_container_remove_intent
  | Trash_restored | Trash_purge_prepared | Trash_purging | Trash_purge_manifest_remove_intent
  | Trash_purge_container_remove_intent | Trash_purged | Trash_cancel_remaining_intent
  | Trash_cancel_container_remove_intent

datatype TrashItemLocation = Trash_in_source | Trash_in_store | Trash_deleted

datatype TrashSecurityState = Security_original | Security_hardened

datatype TrashStep = Trash_no_step | Trash_store_step | Trash_restore_step | Trash_purge_step

datatype TrashPayloadPolicy = Strict_payload | Preserve_payload_permissions

datatype BasicDirectoryTransferEntryKind = Entry_directory | Entry_regular_file

record BasicDirectoryTransferEntry =
  dir_relative_path :: path
  dir_size_bytes :: u64
  dir_modified_unix_ns :: i64
  dir_revision :: string
  dir_depth :: u16
  dir_kind :: BasicDirectoryTransferEntryKind

record TrashSource =
  trash_source_path :: path
  trash_source_snapshot :: SourceSnapshot
  trash_source_kind :: TrashItemKind
  trash_source_payload_bytes :: u64
  trash_source_entries :: "BasicDirectoryTransferEntry list"
  trash_source_descriptors :: "string list"
  trash_source_storage_identity :: string
  trash_source_descriptor :: string
  trash_source_restore_path :: path
  trash_source_policy :: TrashPayloadPolicy

record TrashItem =
  trash_original :: path
  trash_restore_path :: path
  trash_stored :: path
  trash_current :: path
  trash_snapshot :: SourceSnapshot
  trash_kind :: TrashItemKind
  trash_payload_bytes :: u64
  trash_entries :: "BasicDirectoryTransferEntry list"
  trash_descriptors :: "string list"
  trash_purge_cursor :: u32
  trash_storage_identity :: string
  trash_location :: TrashItemLocation
  trash_security :: TrashSecurityState
  trash_descriptor :: string
  trash_policy :: TrashPayloadPolicy
  trash_storage_index :: u32

record TrashTransaction =
  trash_version :: u32
  trash_operation_id :: u64
  trash_created_unix_ns :: i64
  trash_phase :: TrashPhase
  trash_step :: TrashStep
  trash_index :: u32
  trash_evidence :: OperationEvidence
  trash_failure :: OperationStatus
  trash_detail :: string
  trash_items :: "TrashItem list"

definition kTrashTransactionVersion :: u32 where "kTrashTransactionVersion = 11"
definition previousTrashVersion :: u32 where "previousTrashVersion = 8"
definition legacyTrashVersion :: u32 where "legacyTrashVersion = 7"
definition directoryTrashVersion :: u32 where "directoryTrashVersion = 9"
definition trashMagic :: u32 where "trashMagic = 0x31525456"
definition kMaximumTrashItems :: nat where "kMaximumTrashItems = 10000"
definition kMaximumTrashDirectoryEntries :: nat where "kMaximumTrashDirectoryEntries = 10000"
definition kBasicDirectoryTransferMaximumDepth :: u16 where "kBasicDirectoryTransferMaximumDepth = 128"
definition trashPayloadLimit :: nat where "trashPayloadLimit = 4 * 1024 * 1024"

definition kTrashRescueManifestFilename :: string where
  "kTrashRescueManifestFilename = ''metadata.vtrash''"

lemmas trash_versions =
  kTrashTransactionVersion_def previousTrashVersion_def legacyTrashVersion_def
  directoryTrashVersion_def

section \<open>Paths\<close>

definition trash_container_path :: "path \<Rightarrow> u64 \<Rightarrow> path" where
  "trash_container_path source_parent operation_id =
     path_append source_parent (kTrashFilenamePrefix @ hexadecimal operation_id)"

definition stored_path :: "path \<Rightarrow> u64 \<Rightarrow> path \<Rightarrow> nat \<Rightarrow> path" where
  "stored_path source operation_id vault_root index =
     path_append
       (trash_container_path (if vault_root = [] then parent_path source else vault_root) operation_id)
       (kTrashItemFilenamePrefix @ to_chars 16 index)"

definition trash_rescue_manifest_path :: "TrashTransaction \<Rightarrow> path" where
  "trash_rescue_manifest_path t =
     (if trash_items t = [] then []
      else path_append (parent_path (trash_stored (hd (trash_items t)))) kTrashRescueManifestFilename)"

definition trash_rescue_plan_path :: "TrashTransaction \<Rightarrow> path" where
  "trash_rescue_plan_path t =
     (if trash_items t = [] then []
      else path_append (parent_path (trash_stored (hd (trash_items t)))) ''plan.vtrash'')"

section \<open>Validity\<close>

definition trash_expected_current :: "TrashItem \<Rightarrow> bool" where
  "trash_expected_current item =
     (case trash_location item of
        Trash_in_source \<Rightarrow> path_eq (trash_current item) (trash_restore_path item)
      | Trash_in_store \<Rightarrow> path_eq (trash_current item) (trash_stored item)
      | Trash_deleted \<Rightarrow> trash_current item = [])"

definition trash_location_allowed :: "TrashPhase \<Rightarrow> TrashItemLocation \<Rightarrow> bool" where
  "trash_location_allowed phase location =
     (case phase of
        Trash_prepared \<Rightarrow> location = Trash_in_source
      | Trash_moving \<Rightarrow> location = Trash_in_source \<or> location = Trash_in_store
      | Trash_rollback \<Rightarrow> location = Trash_in_source \<or> location = Trash_in_store
      | Trash_cancel_remaining_intent \<Rightarrow> location = Trash_in_source \<or> location = Trash_in_store
      | Trash_rollback_container_remove_intent \<Rightarrow> location = Trash_in_source
      | Trash_cancel_container_remove_intent \<Rightarrow> location = Trash_in_source
      | Trash_manifest_intent \<Rightarrow> location = Trash_in_store
      | Trash_published \<Rightarrow> location = Trash_in_store
      | Trash_restore_prepared \<Rightarrow> location = Trash_in_store
      | Trash_restoring \<Rightarrow> location = Trash_in_source \<or> location = Trash_in_store
      | Trash_restore_rollback \<Rightarrow> location = Trash_in_source \<or> location = Trash_in_store
      | Trash_manifest_remove_intent \<Rightarrow> location = Trash_in_source
      | Trash_restore_container_remove_intent \<Rightarrow> location = Trash_in_source
      | Trash_restored \<Rightarrow> location = Trash_in_source
      | Trash_purge_prepared \<Rightarrow> location = Trash_in_store
      | Trash_purging \<Rightarrow> location = Trash_in_store \<or> location = Trash_deleted
      | Trash_purge_manifest_remove_intent \<Rightarrow> location = Trash_deleted
      | Trash_purge_container_remove_intent \<Rightarrow> location = Trash_deleted
      | Trash_purged \<Rightarrow> location = Trash_deleted)"

definition trash_step_matches :: "TrashTransaction \<Rightarrow> bool" where
  "trash_step_matches t =
     (let location = trash_location (trash_items t ! unat (trash_index t)); phase = trash_phase t in
      case trash_step t of
        Trash_no_step \<Rightarrow> trash_index t = 0
      | Trash_store_step \<Rightarrow>
          ((phase = Trash_moving \<or> phase = Trash_cancel_remaining_intent) \<and> location = Trash_in_source) \<or>
          (phase = Trash_restore_rollback \<and> location = Trash_in_source)
      | Trash_restore_step \<Rightarrow>
          ((phase = Trash_rollback \<or> phase = Trash_cancel_remaining_intent) \<and> location = Trash_in_store) \<or>
          (phase = Trash_restoring \<and> location = Trash_in_store)
      | Trash_purge_step \<Rightarrow> phase = Trash_purging \<and> location = Trash_in_store)"

definition valid_relative_directory_entry_path :: "path \<Rightarrow> bool" where
  "valid_relative_directory_entry_path p \<longleftrightarrow>
     p \<noteq> [] \<and> \<not> is_absolute p \<and>
     list_all (\<lambda>component. component \<noteq> [] \<and> component \<noteq> ''.'' \<and> component \<noteq> ''..'') (path_elems p)"

definition purge_order_before ::
  "BasicDirectoryTransferEntry \<Rightarrow> BasicDirectoryTransferEntry \<Rightarrow> bool"
where
  "purge_order_before left right =
     (if dir_depth left \<noteq> dir_depth right then dir_depth right < dir_depth left
      else dir_relative_path right < dir_relative_path left)"

text \<open>The loop over the manifest of a directory; \<^const>\<open>None\<close> is the failure, the result the number of
  bytes in its files.\<close>

fun check_manifest ::
  "string set \<Rightarrow> string set \<Rightarrow> u64 \<Rightarrow> BasicDirectoryTransferEntry option \<Rightarrow>
   BasicDirectoryTransferEntry list \<Rightarrow> u64 option"
where
  "check_manifest paths identities total_bytes previous [] = Some total_bytes"
| "check_manifest paths identities total_bytes previous (entry # entries) =
     (let relative = lexically_normal (dir_relative_path entry);
          identity = stable_object_identity (dir_revision entry);
          directory = (dir_kind entry = Entry_directory) in
      if \<not> valid_relative_directory_entry_path (dir_relative_path entry) \<or> relative = [] \<or>
         \<not> valid_utf8_no_nul relative \<or> dir_depth entry = 0 \<or>
         kBasicDirectoryTransferMaximumDepth < dir_depth entry \<or> identity = [] \<or>
         identity \<in> identities \<or> relative \<in> paths \<or>
         (directory \<and> dir_size_bytes entry \<noteq> 0) \<or>
         (\<not> directory \<and> - 1 - total_bytes < dir_size_bytes entry) \<or>
         (case previous of None \<Rightarrow> False | Some before \<Rightarrow> \<not> purge_order_before before entry)
      then None
      else check_manifest (insert relative paths) (insert identity identities)
        (if directory then total_bytes else total_bytes + dir_size_bytes entry) (Some entry) entries)"

definition valid_directory_payload :: "TrashItem \<Rightarrow> string + unit" where
  "valid_directory_payload item =
     (if trash_kind item = Trash_file then
        if trash_entries item \<noteq> [] \<or> trash_descriptors item \<noteq> [] \<or> trash_purge_cursor item \<noteq> 0 \<or>
           trash_payload_bytes item \<noteq> size_bytes (trash_snapshot item)
        then Inl ''regular trash item carries directory state'' else Inr ()
      else if size_bytes (trash_snapshot item) \<noteq> 0 \<or>
              kMaximumTrashDirectoryEntries < length (trash_entries item) \<or>
              (trash_descriptors item \<noteq> [] \<and>
               length (trash_descriptors item) \<noteq> length (trash_entries item)) \<or>
              length (trash_entries item) < unat (trash_purge_cursor item)
        then Inl ''trash directory state exceeds its bounds''
      else if trash_location item \<noteq> Trash_in_store \<and> trash_purge_cursor item \<noteq> 0
        then Inl ''trash directory purge cursor is inconsistent with its location''
      else case check_manifest {} {} 0 None (trash_entries item) of
        None \<Rightarrow> Inl ''trash directory manifest is invalid or not in purge order''
      | Some total_bytes \<Rightarrow>
          if total_bytes \<noteq> trash_payload_bytes item
          then Inl ''trash directory byte count is inconsistent'' else Inr ())"

definition trash_identity :: "TrashItem \<Rightarrow> string" where
  "trash_identity item = stable_object_identity (source_revision_utf8 (trash_snapshot item))"

definition normal_parent :: "path \<Rightarrow> path" where
  "normal_parent p = lexically_normal (parent_path p)"

definition trash_paths_ok :: "TrashTransaction \<Rightarrow> u32 option \<Rightarrow> TrashItem \<Rightarrow> bool" where
  "trash_paths_ok t previous item \<longleftrightarrow>
     (let front = hd (trash_items t) in
      is_absolute (trash_original item) \<and> is_absolute (trash_restore_path item) \<and>
      is_absolute (trash_stored item) \<and>
      path_eq (normal_parent (trash_original item)) (normal_parent (trash_original front)) \<and>
      path_eq (normal_parent (trash_restore_path item)) (normal_parent (trash_restore_path front)) \<and>
      filename (trash_original item) = filename (trash_restore_path item) \<and>
      unat (trash_storage_index item) < kMaximumTrashItems \<and>
      (case previous of None \<Rightarrow> True | Some index \<Rightarrow> index < trash_storage_index item) \<and>
      path_eq (trash_stored item)
        (stored_path (trash_restore_path item) (trash_operation_id t)
           (parent_path (normal_parent (trash_stored front))) (unat (trash_storage_index item))) \<and>
      trash_expected_current item \<and> trash_location_allowed (trash_phase t) (trash_location item) \<and>
      \<not> is_trash_filename (filename (trash_original item)))"

definition posix_object :: "string \<Rightarrow> bool" where
  "posix_object revision \<longleftrightarrow>
     revision \<noteq> [] \<and> (starts_with revision ''posix:'' \<or> starts_with revision ''posix2:'') \<and>
     stable_object_identity revision \<noteq> []"

definition posix_security :: "TrashItem \<Rightarrow> bool" where
  "posix_security item \<longleftrightarrow>
     trash_policy item = Strict_payload \<and> trash_descriptor item = [] \<and>
     trash_security item = Security_original \<and> valid_utf8_no_nul (trash_storage_identity item) \<and>
     (trash_storage_identity item \<noteq> [] \<longrightarrow> starts_with (trash_storage_identity item) ''linux-smb:'')"

text \<open>The four sets the loop inserts into: originals, restore paths, stored paths, identities.\<close>

definition trash_keys :: "TrashItem \<Rightarrow> string \<times> string \<times> string \<times> string" where
  "trash_keys item =
     (lexically_normal (trash_original item), lexically_normal (trash_restore_path item),
      lexically_normal (trash_stored item), trash_identity item)"

fun check_trash_items ::
  "TrashTransaction \<Rightarrow> (string \<times> string \<times> string \<times> string) list \<Rightarrow> u32 option \<Rightarrow> TrashItem list \<Rightarrow>
   string + unit"
where
  "check_trash_items t seen previous [] = Inr ()"
| "check_trash_items t seen previous (item # items) =
     (if \<not> trash_paths_ok t previous item then
        Inl ''trash transaction item path or location is inconsistent''
      else if \<not> posix_object (source_revision_utf8 (trash_snapshot item)) then
        Inl ''trash transaction item identity is inconsistent''
      else case valid_directory_payload item of Inl detail \<Rightarrow> Inl detail | Inr _ \<Rightarrow>
        if \<not> posix_security item then
          Inl ''POSIX trash transaction carries a foreign security state''
        else case trash_keys item of (original, restore, stored, identity) \<Rightarrow>
          if \<not> valid_utf8_no_nul original \<or> \<not> valid_utf8_no_nul restore \<or> \<not> valid_utf8_no_nul stored \<or>
             original \<in> set (map fst seen) \<or> restore \<in> set (map (fst \<circ> snd) seen) \<or>
             stored \<in> set (map (fst \<circ> snd \<circ> snd) seen) \<or>
             identity \<in> set (map (snd \<circ> snd \<circ> snd) seen)
          then Inl ''trash transaction contains duplicate or invalid items''
          else check_trash_items t (trash_keys item # seen) (Some (trash_storage_index item)) items)"

definition trash_container :: "TrashTransaction \<Rightarrow> path" where
  "trash_container t = normal_parent (trash_stored (hd (trash_items t)))"

definition valid_trash_transaction :: "TrashTransaction \<Rightarrow> string + unit" where
  "valid_trash_transaction t =
     (if trash_version t \<noteq> kTrashTransactionVersion \<or> trash_operation_id t = 0 \<or>
         sint (trash_created_unix_ns t) \<le> 0 \<or> trash_items t = [] \<or>
         kMaximumTrashItems < length (trash_items t) then
        Inl ''trash transaction header is invalid''
      else if (trash_step t = Trash_no_step \<and> trash_index t \<noteq> 0) \<or>
              (trash_step t \<noteq> Trash_no_step \<and> length (trash_items t) \<le> unat (trash_index t)) \<or>
              \<not> trash_step_matches t then
        Inl ''trash transaction active step is invalid''
      else if \<not> valid_utf8_no_nul (trash_detail t) then
        Inl ''trash transaction detail is invalid''
      else if (trash_step t = Trash_no_step \<and> trash_evidence t \<noteq> Evidence_none) \<or>
              (trash_failure t = Success \<and> trash_evidence t \<noteq> Evidence_none) then
        Inl ''trash transaction evidence is inconsistent''
      else if \<not> path_eq (trash_container t)
                  (trash_container_path (parent_path (trash_container t)) (trash_operation_id t)) then
        Inl ''trash transaction container is inconsistent''
      else check_trash_items t [] None (trash_items t))"

definition trusted_posix_trash_storage :: "TrashTransaction \<Rightarrow> bool \<Rightarrow> bool" where
  "trusted_posix_trash_storage t allow_restore_rebase =
     (if trash_items t = [] then False
      else let parent = normal_parent (trash_original (hd (trash_items t)));
               container = trash_container t in
        if \<not> path_eq container (trash_container_path parent (trash_operation_id t)) then False
        else list_all (\<lambda>item.
          path_eq (normal_parent (trash_original item)) parent \<and>
          (allow_restore_rebase \<or>
           path_eq (lexically_normal (trash_restore_path item)) (lexically_normal (trash_original item))) \<and>
          path_eq (normal_parent (trash_stored item)) container \<and>
          (starts_with (source_revision_utf8 (trash_snapshot item)) ''posix:'' \<or>
           starts_with (source_revision_utf8 (trash_snapshot item)) ''posix2:'') \<and>
          (trash_storage_identity item = [] \<or>
           starts_with (trash_storage_identity item) ''linux-smb:'') \<and>
          trash_descriptor item = [] \<and> trash_security item = Security_original) (trash_items t))"

section \<open>Preparation\<close>

definition prepare_trash_item :: "u64 \<Rightarrow> path \<Rightarrow> nat \<Rightarrow> TrashSource \<Rightarrow> TrashItem" where
  "prepare_trash_item operation_id vault_root index source =
     (let restore_path = (if trash_source_restore_path source = [] then trash_source_path source
                          else trash_source_restore_path source) in
      \<lparr>trash_original = trash_source_path source, trash_restore_path = restore_path,
       trash_stored = stored_path restore_path operation_id vault_root index,
       trash_current = restore_path, trash_snapshot = trash_source_snapshot source,
       trash_kind = trash_source_kind source,
       trash_payload_bytes =
         (if trash_source_kind source = Trash_file then size_bytes (trash_source_snapshot source)
          else trash_source_payload_bytes source),
       trash_entries = trash_source_entries source,
       trash_descriptors = trash_source_descriptors source, trash_purge_cursor = 0,
       trash_storage_identity = trash_source_storage_identity source,
       trash_location = Trash_in_source, trash_security = Security_original,
       trash_descriptor = trash_source_descriptor source, trash_policy = trash_source_policy source,
       trash_storage_index = word_of_nat index\<rparr>)"

definition new_trash_transaction :: "u64 \<Rightarrow> i64 \<Rightarrow> TrashItem list \<Rightarrow> TrashTransaction" where
  "new_trash_transaction operation_id created_unix_ns items =
     \<lparr>trash_version = kTrashTransactionVersion, trash_operation_id = operation_id,
      trash_created_unix_ns = created_unix_ns, trash_phase = Trash_prepared,
      trash_step = Trash_no_step, trash_index = 0, trash_evidence = Evidence_none,
      trash_failure = Success, trash_detail = [], trash_items = items\<rparr>"

text \<open>\<^const>\<open>Inl\<close> is \<open>std::invalid_argument\<close>.\<close>

definition prepare_trash_transaction ::
  "TrashSource list \<Rightarrow> u64 \<Rightarrow> i64 \<Rightarrow> path \<Rightarrow> string + TrashTransaction"
where
  "prepare_trash_transaction sources operation_id created_unix_ns vault_root =
     (if sources = [] \<or> kMaximumTrashItems < length sources \<or> operation_id = 0 \<or>
         sint created_unix_ns \<le> 0 then Inl ''trash sources are invalid''
      else let t = new_trash_transaction operation_id created_unix_ns
                     (map (\<lambda>(index, source). prepare_trash_item operation_id vault_root index source)
                        (enumerate 0 sources)) in
        case valid_trash_transaction t of Inl detail \<Rightarrow> Inl detail | Inr _ \<Rightarrow> Inr t)"

end
