(* ===== verification/Trash_Record.thy ===== *)
theory Trash_Record
  imports Trash_Transaction
begin

text \<open>
  The binary format of the trash record: \<open>encode_trash_transaction\<close> and \<open>decode_trash_transaction\<close> of
  \<open>src/Source/src/fileops/trash_transaction.cpp\<close>. The encoder writes version 10 where it suffices and
  11 otherwise; the decoder reads 7 to 11 and raises the record to the current model.
\<close>

section \<open>The enumerations\<close>

definition trash_kinds :: "TrashItemKind list" where
  "trash_kinds = [Trash_file, Trash_directory]"

definition trash_phases :: "TrashPhase list" where
  "trash_phases =
     [Trash_prepared, Trash_moving, Trash_rollback, Trash_rollback_container_remove_intent,
      Trash_manifest_intent, Trash_published, Trash_restore_prepared, Trash_restoring,
      Trash_restore_rollback, Trash_manifest_remove_intent, Trash_restore_container_remove_intent,
      Trash_restored, Trash_purge_prepared, Trash_purging, Trash_purge_manifest_remove_intent,
      Trash_purge_container_remove_intent, Trash_purged, Trash_cancel_remaining_intent,
      Trash_cancel_container_remove_intent]"

definition trash_locations :: "TrashItemLocation list" where
  "trash_locations = [Trash_in_source, Trash_in_store, Trash_deleted]"

definition trash_securities :: "TrashSecurityState list" where
  "trash_securities = [Security_original, Security_hardened]"

definition trash_steps :: "TrashStep list" where
  "trash_steps = [Trash_no_step, Trash_store_step, Trash_restore_step, Trash_purge_step]"

definition trash_policies :: "TrashPayloadPolicy list" where
  "trash_policies = [Strict_payload, Preserve_payload_permissions]"

definition dir_kinds :: "BasicDirectoryTransferEntryKind list" where
  "dir_kinds = [Entry_directory, Entry_regular_file]"

lemma trash_tables [simp]:
  "enum_table trash_kinds" "enum_table trash_phases" "enum_table trash_locations"
  "enum_table trash_securities" "enum_table trash_steps" "enum_table trash_policies"
  "enum_table dir_kinds"
proof -
  have "x \<in> set trash_kinds" for x by (cases x) (simp_all add: trash_kinds_def)
  moreover have "x \<in> set trash_phases" for x by (cases x) (simp_all add: trash_phases_def)
  moreover have "x \<in> set trash_locations" for x by (cases x) (simp_all add: trash_locations_def)
  moreover have "x \<in> set trash_securities" for x by (cases x) (simp_all add: trash_securities_def)
  moreover have "x \<in> set trash_steps" for x by (cases x) (simp_all add: trash_steps_def)
  moreover have "x \<in> set trash_policies" for x by (cases x) (simp_all add: trash_policies_def)
  moreover have "x \<in> set dir_kinds" for x by (cases x) (simp_all add: dir_kinds_def)
  ultimately show "enum_table trash_kinds" "enum_table trash_phases" "enum_table trash_locations"
    "enum_table trash_securities" "enum_table trash_steps" "enum_table trash_policies"
    "enum_table dir_kinds"
    unfolding enum_table_def
    by (simp_all only: simp_thms)
      (simp_all add: trash_kinds_def trash_phases_def trash_locations_def trash_securities_def
        trash_steps_def trash_policies_def dir_kinds_def)
qed

lemmas trash_field_decs =
  byte_codec.dec_enc u16_codec.dec_enc u32_codec.dec_enc u64_codec.dec_enc string_codec.dec_enc

section \<open>The manifest of a directory\<close>

definition enc_dir_entry :: "BasicDirectoryTransferEntry \<times> string \<Rightarrow> byte list" where
  "enc_dir_entry = (\<lambda>(entry, descriptor).
     append_string (dir_relative_path entry) @ append_integer (dir_size_bytes entry) @
     append_integer (dir_modified_unix_ns entry) @ append_string (dir_revision entry) @
     append_integer (dir_depth entry) @ append_integer (enum_code dir_kinds (dir_kind entry)) @
     append_integer (0 :: u8) @ append_string descriptor)"

definition dir_entry_ok :: "BasicDirectoryTransferEntry \<times> string \<Rightarrow> bool" where
  "dir_entry_ok = (\<lambda>(entry, descriptor).
     list_all (\<lambda>s. string_fits s \<and> valid_utf8_no_nul s)
       [dir_relative_path entry, dir_revision entry, descriptor])"

definition dec_dir_entry :: "byte list \<Rightarrow> ((BasicDirectoryTransferEntry \<times> string) \<times> byte list) option" where
  "dec_dir_entry bs = do {
     (relative, bs) \<leftarrow> read_string bs;
     (size, bs) \<leftarrow> (read_integer bs :: (u64 \<times> byte list) option);
     (modified, bs) \<leftarrow> (read_integer bs :: (i64 \<times> byte list) option);
     (revision, bs) \<leftarrow> read_string bs;
     (depth, bs) \<leftarrow> (read_integer bs :: (u16 \<times> byte list) option);
     (kind, bs) \<leftarrow> (read_integer bs :: (u8 \<times> byte list) option);
     (reserved, bs) \<leftarrow> (read_integer bs :: (u8 \<times> byte list) option);
     (descriptor, bs) \<leftarrow> read_string bs;
     kind \<leftarrow> enum_of dir_kinds kind;
     if reserved \<noteq> 0 \<or> \<not> valid_utf8_no_nul relative \<or> \<not> valid_utf8_no_nul revision \<or>
        \<not> valid_utf8_no_nul descriptor then None
     else Some ((\<lparr>dir_relative_path = relative, dir_size_bytes = size,
                  dir_modified_unix_ns = modified, dir_revision = revision, dir_depth = depth,
                  dir_kind = kind\<rparr>, descriptor), bs) }"

lemma dec_enc_dir_entry: "dir_entry_ok x \<Longrightarrow> dec_dir_entry (enc_dir_entry x @ rest) = Some (x, rest)"
  by (cases x) (simp add: dec_dir_entry_def enc_dir_entry_def dir_entry_ok_def trash_field_decs)

lemma enc_dec_dir_entry:
  assumes "dec_dir_entry bs = Some (x, rest)"
  shows "dir_entry_ok x \<and> bs = enc_dir_entry x @ rest"
  using assms
  by (cases x)
    (auto simp: dec_dir_entry_def bind_Some_iff byte_codec.dec_Some_iff u16_codec.dec_Some_iff
      u64_codec.dec_Some_iff string_codec.dec_Some_iff enc_dir_entry_def dir_entry_ok_def enum_of_iff
      split: if_splits)

interpretation dir_entry_codec: codec enc_dir_entry dec_dir_entry dir_entry_ok
  using dec_enc_dir_entry enc_dec_dir_entry by unfold_locales blast+

section \<open>Items\<close>

text \<open>An item without security descriptors is written with empty ones.\<close>

definition wire_descriptors :: "TrashItem \<Rightarrow> string list" where
  "wire_descriptors item =
     (if trash_descriptors item = [] then replicate (length (trash_entries item)) []
      else trash_descriptors item)"

definition enc_trash_head :: "TrashItem \<Rightarrow> byte list" where
  "enc_trash_head item =
     append_string (trash_original item) @ append_string (trash_restore_path item) @
     append_string (trash_stored item) @ append_string (trash_current item) @
     append_integer (size_bytes (trash_snapshot item)) @
     append_integer (modified_unix_ns (trash_snapshot item)) @
     append_string (source_revision_utf8 (trash_snapshot item)) @
     append_integer (enum_code trash_kinds (trash_kind item)) @
     append_integer (trash_payload_bytes item) @ append_integer (trash_purge_cursor item) @
     append_integer (word_of_nat (length (trash_entries item)) :: u32)"

definition enc_trash_state :: "TrashItem \<Rightarrow> byte list" where
  "enc_trash_state item =
     append_string (trash_storage_identity item) @
     append_integer (enum_code trash_locations (trash_location item)) @
     append_integer (enum_code trash_securities (trash_security item)) @
     append_string (trash_descriptor item)"

definition enc_trash_item :: "u32 \<Rightarrow> TrashItem \<Rightarrow> byte list" where
  "enc_trash_item wire_version item =
     enc_trash_head item @
     concat (map enc_dir_entry (zip (trash_entries item) (wire_descriptors item))) @
     enc_trash_state item @ append_integer (enum_code trash_policies (trash_policy item)) @
     (if 11 \<le> wire_version then append_integer (trash_storage_index item) else [])"

type_synonym trash_head =
  "(path \<times> path \<times> path \<times> path) \<times> SourceSnapshot \<times> TrashItemKind \<times> u64 \<times> u32 \<times> nat"

definition dec_trash_kind ::
  "u32 \<Rightarrow> u64 \<Rightarrow> byte list \<Rightarrow> ((TrashItemKind \<times> u64 \<times> u32 \<times> nat) \<times> byte list) option"
where
  "dec_trash_kind version byte_count bs =
     (if directoryTrashVersion \<le> version then do {
        (kind, bs) \<leftarrow> (read_integer bs :: (u8 \<times> byte list) option);
        (payload_bytes, bs) \<leftarrow> (read_integer bs :: (u64 \<times> byte list) option);
        (purge_cursor, bs) \<leftarrow> (read_integer bs :: (u32 \<times> byte list) option);
        (entry_count, bs) \<leftarrow> (read_integer bs :: (u32 \<times> byte list) option);
        kind \<leftarrow> enum_of trash_kinds kind;
        if kMaximumTrashDirectoryEntries < unat entry_count then None
        else Some ((kind, payload_bytes, purge_cursor, unat entry_count), bs) }
      else Some ((Trash_file, byte_count, 0, 0), bs))"

definition dec_trash_head :: "u32 \<Rightarrow> string \<Rightarrow> byte list \<Rightarrow> (trash_head \<times> byte list) option" where
  "dec_trash_head version detail bs = do {
     (original, bs) \<leftarrow> read_string bs;
     (restore_path, bs) \<leftarrow> read_string bs;
     (stored, bs) \<leftarrow> read_string bs;
     (current, bs) \<leftarrow> read_string bs;
     (byte_count, bs) \<leftarrow> (read_integer bs :: (u64 \<times> byte list) option);
     (modified, bs) \<leftarrow> (read_integer bs :: (i64 \<times> byte list) option);
     (revision, bs) \<leftarrow> read_string bs;
     ((kind, payload_bytes, purge_cursor, entry_count), bs) \<leftarrow> dec_trash_kind version byte_count bs;
     if list_all valid_utf8_no_nul [original, restore_path, stored, current, revision, detail] then
       Some (((original, restore_path, stored, current),
              \<lparr>size_bytes = byte_count, modified_unix_ns = modified, source_revision_utf8 = revision\<rparr>,
              kind, payload_bytes, purge_cursor, entry_count), bs)
     else None }"

definition dec_trash_state ::
  "u32 \<Rightarrow> byte list \<Rightarrow> ((string \<times> TrashItemLocation \<times> TrashSecurityState \<times> string) \<times> byte list) option"
where
  "dec_trash_state version bs = do {
     (storage_identity, bs) \<leftarrow>
       (if previousTrashVersion \<le> version then read_string bs else Some ([], bs));
     (location, bs) \<leftarrow> (read_integer bs :: (u8 \<times> byte list) option);
     (security, bs) \<leftarrow> (read_integer bs :: (u8 \<times> byte list) option);
     (descriptor, bs) \<leftarrow> read_string bs;
     location \<leftarrow> enum_of trash_locations location;
     security \<leftarrow> enum_of trash_securities security;
     if valid_utf8_no_nul storage_identity \<and> valid_utf8_no_nul descriptor then
       Some ((storage_identity, location, security, descriptor), bs)
     else None }"

definition dec_trash_policy :: "u32 \<Rightarrow> byte list \<Rightarrow> (TrashPayloadPolicy \<times> byte list) option" where
  "dec_trash_policy version bs =
     (if 10 \<le> version then do {
        (policy, bs) \<leftarrow> (read_integer bs :: (u8 \<times> byte list) option);
        policy \<leftarrow> enum_of trash_policies policy;
        Some (policy, bs) }
      else Some (Strict_payload, bs))"

definition dec_trash_item ::
  "u32 \<Rightarrow> string \<Rightarrow> nat \<Rightarrow> byte list \<Rightarrow> string + (TrashItem \<times> byte list)"
where
  "dec_trash_item version detail index bs =
     (case dec_trash_head version detail bs of
        None \<Rightarrow> Inl ''trash transaction item is invalid or truncated''
      | Some (((original, restore_path, stored, current), snapshot, kind, payload_bytes, purge_cursor,
               entry_count), bs) \<Rightarrow>
      (case dec_many dec_dir_entry entry_count bs of
        None \<Rightarrow> Inl ''trash directory entry is invalid or truncated''
      | Some (manifest, bs) \<Rightarrow>
          let descriptors = map snd manifest in
      (case dec_trash_state version bs of
        None \<Rightarrow> Inl ''trash transaction item state is invalid or truncated''
      | Some ((storage_identity, location, security, descriptor), bs) \<Rightarrow>
      (case dec_trash_policy version bs of
        None \<Rightarrow> Inl ''trash payload policy is invalid or truncated''
      | Some (policy, bs) \<Rightarrow>
      (case (if 11 \<le> version then (read_integer bs :: (u32 \<times> byte list) option)
             else Some (word_of_nat index, bs)) of
        None \<Rightarrow> Inl ''trash storage index is truncated''
      | Some (storage_index, bs) \<Rightarrow>
          Inr (\<lparr>trash_original = original, trash_restore_path = restore_path, trash_stored = stored,
                trash_current = current, trash_snapshot = snapshot, trash_kind = kind,
                trash_payload_bytes = payload_bytes, trash_entries = map fst manifest,
                trash_descriptors =
                  (if list_all (\<lambda>value. value = []) descriptors then [] else descriptors),
                trash_purge_cursor = purge_cursor, trash_storage_identity = storage_identity,
                trash_location = location, trash_security = security, trash_descriptor = descriptor,
                trash_policy = policy, trash_storage_index = storage_index\<rparr>, bs))))))"

fun dec_trash_items ::
  "u32 \<Rightarrow> string \<Rightarrow> nat \<Rightarrow> nat \<Rightarrow> byte list \<Rightarrow> string + (TrashItem list \<times> byte list)"
where
  "dec_trash_items version detail index 0 bs = Inr ([], bs)"
| "dec_trash_items version detail index (Suc n) bs =
     sum_bind (dec_trash_item version detail index bs) (\<lambda>(item, bs).
       sum_bind (dec_trash_items version detail (Suc index) n bs) (\<lambda>(items, bs).
         Inr (item # items, bs)))"

section \<open>Transactions\<close>

definition trash_wire_version :: "TrashTransaction \<Rightarrow> u32" where
  "trash_wire_version t =
     (if trash_phase t = Trash_cancel_remaining_intent \<or>
         trash_phase t = Trash_cancel_container_remove_intent then kTrashTransactionVersion
      else if list_ex (\<lambda>(index, item). unat (trash_storage_index item) \<noteq> index)
                (enumerate 0 (trash_items t)) then kTrashTransactionVersion
      else 10)"

definition enc_trash_header :: "TrashTransaction \<Rightarrow> byte list" where
  "enc_trash_header t =
     append_integer trashMagic @ append_integer (trash_wire_version t) @
     append_integer (trash_operation_id t) @ append_integer (trash_created_unix_ns t) @
     append_integer (enum_code trash_phases (trash_phase t)) @
     append_integer (enum_code trash_steps (trash_step t)) @
     append_integer (enum_code all_evidence (trash_evidence t)) @
     append_integer (enum_code all_statuses (trash_failure t)) @
     append_integer (trash_index t) @ append_string (trash_detail t) @
     append_integer (word_of_nat (length (trash_items t)) :: u32)"

definition trash_payload :: "TrashTransaction \<Rightarrow> byte list" where
  "trash_payload t =
     enc_trash_header t @ concat (map (enc_trash_item (trash_wire_version t)) (trash_items t))"

definition trash_item_strings :: "TrashItem \<Rightarrow> string list" where
  "trash_item_strings item =
     [trash_original item, trash_restore_path item, trash_stored item, trash_current item,
      source_revision_utf8 (trash_snapshot item), trash_storage_identity item, trash_descriptor item] @
     map dir_relative_path (trash_entries item) @ map dir_revision (trash_entries item) @
     trash_descriptors item"

definition trash_strings_fit :: "TrashTransaction \<Rightarrow> bool" where
  "trash_strings_fit t \<longleftrightarrow>
     string_fits (trash_detail t) \<and>
     list_all (\<lambda>item. list_all string_fits (trash_item_strings item)) (trash_items t)"

text \<open>\<^const>\<open>Inl\<close> is an exception: \<open>invalid_argument\<close> or \<open>length_error\<close>.\<close>

definition encode_trash_transaction :: "TrashTransaction \<Rightarrow> string + byte list" where
  "encode_trash_transaction t =
     (case valid_trash_transaction t of
        Inl detail \<Rightarrow> Inl detail
      | Inr _ \<Rightarrow>
          if \<not> trash_strings_fit t then Inl ''trash transaction string is too large''
          else if trashPayloadLimit < length (trash_payload t) then
            Inl ''trash transaction exceeds the journal limit''
          else Inr (trash_payload t))"

definition known_trash_version :: "u32 \<Rightarrow> bool" where
  "known_trash_version version \<longleftrightarrow>
     version = legacyTrashVersion \<or> version = previousTrashVersion \<or>
     version = directoryTrashVersion \<or> version = 10 \<or> version = kTrashTransactionVersion"

definition dec_trash_header :: "byte list \<Rightarrow> ((TrashTransaction \<times> nat) \<times> byte list) option" where
  "dec_trash_header bs = do {
     (magic, bs) \<leftarrow> (read_integer bs :: (u32 \<times> byte list) option);
     (version, bs) \<leftarrow> (read_integer bs :: (u32 \<times> byte list) option);
     (operation_id, bs) \<leftarrow> (read_integer bs :: (u64 \<times> byte list) option);
     (created, bs) \<leftarrow> (read_integer bs :: (i64 \<times> byte list) option);
     (phase, bs) \<leftarrow> (read_integer bs :: (u8 \<times> byte list) option);
     (step, bs) \<leftarrow> (read_integer bs :: (u8 \<times> byte list) option);
     (evidence, bs) \<leftarrow> (read_integer bs :: (u8 \<times> byte list) option);
     (failure, bs) \<leftarrow> (read_integer bs :: (u8 \<times> byte list) option);
     (index, bs) \<leftarrow> (read_integer bs :: (u32 \<times> byte list) option);
     (detail, bs) \<leftarrow> read_string bs;
     (item_count, bs) \<leftarrow> (read_integer bs :: (u32 \<times> byte list) option);
     phase \<leftarrow> enum_of trash_phases phase;
     step \<leftarrow> enum_of trash_steps step;
     evidence \<leftarrow> enum_of all_evidence evidence;
     failure \<leftarrow> enum_of all_statuses failure;
     if magic \<noteq> trashMagic \<or> \<not> known_trash_version version \<or>
        (version < 11 \<and> (phase = Trash_cancel_remaining_intent \<or>
                         phase = Trash_cancel_container_remove_intent)) \<or>
        item_count = 0 \<or> kMaximumTrashItems < unat item_count
     then None
     else Some ((\<lparr>trash_version = version, trash_operation_id = operation_id,
                  trash_created_unix_ns = created, trash_phase = phase, trash_step = step,
                  trash_index = index, trash_evidence = evidence, trash_failure = failure,
                  trash_detail = detail, trash_items = []\<rparr>, unat item_count), bs) }"

definition trash_trailing :: string where
  "trash_trailing = ''trash transaction contains trailing bytes''"

definition decode_trash_transaction :: "byte list \<Rightarrow> string + TrashTransaction" where
  "decode_trash_transaction payload =
     (if trashPayloadLimit < length payload then Inl ''trash transaction exceeds the journal limit''
      else case dec_trash_header payload of
        None \<Rightarrow> Inl ''trash transaction header is invalid or truncated''
      | Some ((t, item_count), bs) \<Rightarrow>
          sum_bind (dec_trash_items (trash_version t) (trash_detail t) 0 item_count bs) (\<lambda>(items, bs).
            let t = t\<lparr>trash_version := kTrashTransactionVersion, trash_items := items\<rparr> in
            if bs \<noteq> [] then Inl trash_trailing
            else case valid_trash_transaction t of
              Inl detail \<Rightarrow> Inl (if detail = [] then trash_trailing else detail)
            | Inr _ \<Rightarrow> Inr t))"

end
