(* ===== verification/Trash_Safety.thy ===== *)
theory Trash_Safety
  imports Trash_Record
begin

text \<open>
  What the validator of the trash record guarantees, and the round trip of its binary format.
\<close>

section \<open>Manifests\<close>

definition manifest_path :: "BasicDirectoryTransferEntry \<Rightarrow> path" where
  "manifest_path entry = lexically_normal (dir_relative_path entry)"

definition manifest_identity :: "BasicDirectoryTransferEntry \<Rightarrow> string" where
  "manifest_identity entry = stable_object_identity (dir_revision entry)"

definition manifest_entry_ok :: "BasicDirectoryTransferEntry \<Rightarrow> bool" where
  "manifest_entry_ok entry \<longleftrightarrow>
     valid_relative_directory_entry_path (dir_relative_path entry) \<and> manifest_path entry \<noteq> [] \<and>
     valid_utf8_no_nul (manifest_path entry) \<and> dir_depth entry \<noteq> 0 \<and>
     dir_depth entry \<le> kBasicDirectoryTransferMaximumDepth \<and> manifest_identity entry \<noteq> [] \<and>
     (dir_kind entry = Entry_directory \<longrightarrow> dir_size_bytes entry = 0)"

definition manifest_bytes :: "BasicDirectoryTransferEntry list \<Rightarrow> nat" where
  "manifest_bytes entries = sum_list (map (unat \<circ> dir_size_bytes) entries)"

lemma purge_order_trans:
  "purge_order_before x y \<Longrightarrow> purge_order_before y z \<Longrightarrow> purge_order_before x z"
  by (auto simp: purge_order_before_def split: if_splits)

lemma add_without_wrap:
  fixes a b :: u64
  assumes "\<not> - 1 - a < b"
  shows "unat (a + b) = unat a + unat b"
proof -
  have bound: "unat a < 2 ^ 64" using unsigned_less [of a, where ?'a = nat] by simp
  have "unat b \<le> unat (- 1 - a)" using assms by (simp add: not_less word_le_nat_alt)
  also have "unat (- 1 - a) = unat (- 1 :: u64) - unat a" by (rule unat_sub) simp
  also have "unat (- 1 :: u64) = 2 ^ 64 - 1" by (simp add: unsigned_minus_1_eq_mask mask_eq_exp_minus_1)
  finally have "unat a + unat b < 2 ^ 64" using bound by simp
  then show ?thesis by (simp add: unat_word_ariths)
qed

lemma check_manifest_Some:
  assumes "check_manifest paths identities sum0 previous entries = Some bytes"
  shows "unat bytes = unat sum0 + manifest_bytes entries \<and>
    (\<forall>entry\<in>set entries. manifest_entry_ok entry) \<and>
    distinct (map manifest_path entries) \<and> manifest_path ` set entries \<inter> paths = {} \<and>
    distinct (map manifest_identity entries) \<and> manifest_identity ` set entries \<inter> identities = {} \<and>
    sorted_wrt purge_order_before ((case previous of None \<Rightarrow> [] | Some p \<Rightarrow> [p]) @ entries)"
  using assms
proof (induction entries arbitrary: paths identities sum0 previous)
  case Nil
  then show ?case by (simp add: manifest_bytes_def split: option.split)
next
  case (Cons entry entries)
  let ?total = "if dir_kind entry = Entry_directory then sum0 else sum0 + dir_size_bytes entry"
  have ok: "manifest_entry_ok entry" "manifest_path entry \<notin> paths" "manifest_identity entry \<notin> identities"
    and order: "case previous of None \<Rightarrow> True | Some p \<Rightarrow> purge_order_before p entry"
    and room: "dir_kind entry \<noteq> Entry_directory \<Longrightarrow> \<not> - 1 - sum0 < dir_size_bytes entry"
    and rest: "check_manifest (insert (manifest_path entry) paths)
        (insert (manifest_identity entry) identities) ?total (Some entry) entries = Some bytes"
    using Cons.prems
    by (auto simp: manifest_entry_ok_def manifest_path_def manifest_identity_def Let_def not_less
        split: if_splits option.splits)
  note IH = Cons.IH [OF rest]
  have "unat ?total = unat sum0 + unat (dir_size_bytes entry)"
    using ok(1) room add_without_wrap by (auto simp: manifest_entry_ok_def)
  moreover have "sorted_wrt purge_order_before ((case previous of None \<Rightarrow> [] | Some p \<Rightarrow> [p]) @ entry # entries)"
    using IH order by (auto split: option.splits intro: purge_order_trans)
  ultimately show ?case using IH ok by (auto simp: manifest_bytes_def)
qed

definition manifest_ok :: "TrashItem \<Rightarrow> bool" where
  "manifest_ok item \<longleftrightarrow>
     (\<forall>entry\<in>set (trash_entries item). manifest_entry_ok entry) \<and>
     distinct (map manifest_path (trash_entries item)) \<and>
     distinct (map manifest_identity (trash_entries item)) \<and>
     sorted_wrt purge_order_before (trash_entries item) \<and>
     unat (trash_purge_cursor item) \<le> length (trash_entries item) \<and>
     (trash_purge_cursor item \<noteq> 0 \<longrightarrow> trash_location item = Trash_in_store) \<and>
     unat (trash_payload_bytes item) =
       unat (size_bytes (trash_snapshot item)) + manifest_bytes (trash_entries item)"

lemma valid_payload_manifest:
  assumes "valid_directory_payload item = Inr ()"
  shows "manifest_ok item" "length (trash_entries item) \<le> kMaximumTrashDirectoryEntries"
    "trash_descriptors item \<noteq> [] \<Longrightarrow> length (trash_descriptors item) = length (trash_entries item)"
proof -
  show "manifest_ok item"
  proof (cases "trash_kind item")
    case Trash_file
    with assms show ?thesis
      by (auto simp: valid_directory_payload_def manifest_ok_def manifest_bytes_def split: if_splits)
  next
    case Trash_directory
    with assms obtain bytes where "check_manifest {} {} 0 None (trash_entries item) = Some bytes"
      "bytes = trash_payload_bytes item" "size_bytes (trash_snapshot item) = 0"
      "unat (trash_purge_cursor item) \<le> length (trash_entries item)"
      "trash_location item = Trash_in_store \<or> trash_purge_cursor item = 0"
      by (auto simp: valid_directory_payload_def not_less split: if_splits option.splits)
    with check_manifest_Some [OF this(1)] show ?thesis by (auto simp: manifest_ok_def)
  qed
  show "length (trash_entries item) \<le> kMaximumTrashDirectoryEntries"
    "trash_descriptors item \<noteq> [] \<Longrightarrow> length (trash_descriptors item) = length (trash_entries item)"
    using assms
    by (cases "trash_kind item"; auto simp: valid_directory_payload_def not_less split: if_splits)+
qed

section \<open>Transactions\<close>

definition trash_item_ok :: "TrashTransaction \<Rightarrow> TrashItem \<Rightarrow> bool" where
  "trash_item_ok t item \<longleftrightarrow>
     trash_paths_ok t None item \<and> posix_object (source_revision_utf8 (trash_snapshot item)) \<and>
     valid_directory_payload item = Inr () \<and> posix_security item"

definition trash_distinct :: "TrashItem list \<Rightarrow> bool" where
  "trash_distinct items \<longleftrightarrow>
     distinct (map (lexically_normal \<circ> trash_original) items) \<and>
     distinct (map (lexically_normal \<circ> trash_restore_path) items) \<and>
     distinct (map (lexically_normal \<circ> trash_stored) items) \<and> distinct (map trash_identity items)"

lemma check_trash_items_Inr:
  assumes "check_trash_items t seen previous items = Inr ()"
  shows "(\<forall>item\<in>set items. trash_item_ok t item) \<and> trash_distinct items \<and>
    (\<forall>item\<in>set items. \<forall>key\<in>set seen.
      fst (trash_keys item) \<noteq> fst key \<and> fst (snd (trash_keys item)) \<noteq> fst (snd key) \<and>
      fst (snd (snd (trash_keys item))) \<noteq> fst (snd (snd key)) \<and>
      snd (snd (snd (trash_keys item))) \<noteq> snd (snd (snd key))) \<and>
    sorted_wrt (<) ((case previous of None \<Rightarrow> [] | Some p \<Rightarrow> [p]) @ map trash_storage_index items)"
  using assms
proof (induction items arbitrary: seen previous)
  case Nil
  then show ?case by (simp add: trash_distinct_def split: option.split)
next
  case (Cons item items)
  have rest: "check_trash_items t (trash_keys item # seen) (Some (trash_storage_index item)) items = Inr ()"
    and paths: "trash_paths_ok t previous item"
    and ok: "posix_object (source_revision_utf8 (trash_snapshot item))"
      "valid_directory_payload item = Inr ()" "posix_security item"
    and fresh: "fst (trash_keys item) \<notin> set (map fst seen)"
      "fst (snd (trash_keys item)) \<notin> set (map (fst \<circ> snd) seen)"
      "fst (snd (snd (trash_keys item))) \<notin> set (map (fst \<circ> snd \<circ> snd) seen)"
      "snd (snd (snd (trash_keys item))) \<notin> set (map (snd \<circ> snd \<circ> snd) seen)"
    using Cons.prems by (auto split: if_splits sum.splits prod.splits)
  note IH = Cons.IH [OF rest]
  have item: "trash_item_ok t item"
    using paths ok by (auto simp: trash_item_ok_def trash_paths_ok_def Let_def)
  have order: "case previous of None \<Rightarrow> True | Some p \<Rightarrow> p < trash_storage_index item"
    using paths by (auto simp: trash_paths_ok_def Let_def)
  have apart: "trash_distinct (item # items)"
    using IH by (auto simp: trash_distinct_def trash_keys_def)
  show ?case
  proof (intro conjI)
    show "\<forall>i\<in>set (item # items). trash_item_ok t i" using IH item by simp
    show "trash_distinct (item # items)" by (rule apart)
    show "sorted_wrt (<) ((case previous of None \<Rightarrow> [] | Some p \<Rightarrow> [p]) @
        map trash_storage_index (item # items))"
      using IH order by (auto split: option.splits)
    show "\<forall>i\<in>set (item # items). \<forall>key\<in>set seen.
        fst (trash_keys i) \<noteq> fst key \<and> fst (snd (trash_keys i)) \<noteq> fst (snd key) \<and>
        fst (snd (snd (trash_keys i))) \<noteq> fst (snd (snd key)) \<and>
        snd (snd (snd (trash_keys i))) \<noteq> snd (snd (snd key))"
      using IH fresh by (auto simp: image_iff)
  qed
qed

lemma valid_trash_items:
  assumes "valid_trash_transaction t = Inr ()"
  shows "\<forall>item\<in>set (trash_items t). trash_item_ok t item" "trash_distinct (trash_items t)"
    "sorted_wrt (<) (map trash_storage_index (trash_items t))"
    "trash_items t \<noteq> []" "length (trash_items t) \<le> kMaximumTrashItems"
    "trash_version t = kTrashTransactionVersion" "valid_utf8_no_nul (trash_detail t)"
  using assms check_trash_items_Inr [of t "[]" None "trash_items t"]
  by (auto simp: valid_trash_transaction_def not_less split: if_splits)

section \<open>The round trip\<close>

text \<open>The texts of an item that a decoder accepts, in the form it gives them.\<close>

definition trash_texts_ok :: "TrashItem \<Rightarrow> bool" where
  "trash_texts_ok item \<longleftrightarrow>
     list_all valid_utf8_no_nul (trash_item_strings item) \<and>
     (list_all (\<lambda>d. d = []) (trash_descriptors item) \<longrightarrow> trash_descriptors item = [])"

definition trash_encodable :: "TrashItem \<Rightarrow> bool" where
  "trash_encodable item \<longleftrightarrow>
     list_all string_fits (trash_item_strings item) \<and> trash_texts_ok item \<and>
     length (trash_entries item) \<le> kMaximumTrashDirectoryEntries \<and>
     (trash_descriptors item \<noteq> [] \<longrightarrow> length (trash_descriptors item) = length (trash_entries item))"

lemma wire_descriptors_length:
  "trash_encodable item \<Longrightarrow> length (wire_descriptors item) = length (trash_entries item)"
  by (simp add: wire_descriptors_def trash_encodable_def)

lemma u32_count: "n \<le> 10000 \<Longrightarrow> unat (word_of_nat n :: u32) = n"
  by (simp add: unat_of_nat take_bit_eq_mod)

lemma dec_enc_head:
  assumes "trash_encodable item" "valid_utf8_no_nul detail" "directoryTrashVersion \<le> version"
  shows "dec_trash_head version detail (enc_trash_head item @ rest) =
    Some (((trash_original item, trash_restore_path item, trash_stored item, trash_current item),
      trash_snapshot item, trash_kind item, trash_payload_bytes item, trash_purge_cursor item,
      length (trash_entries item)), rest)"
  using assms u32_count [of "length (trash_entries item)"]
  by (simp add: dec_trash_head_def enc_trash_head_def dec_trash_kind_def trash_field_decs
      trash_encodable_def trash_texts_ok_def trash_item_strings_def kMaximumTrashDirectoryEntries_def)

lemma dec_enc_manifest:
  assumes "trash_encodable item"
  shows "dec_many dec_dir_entry (length (trash_entries item))
      (concat (map enc_dir_entry (zip (trash_entries item) (wire_descriptors item))) @ rest) =
    Some (zip (trash_entries item) (wire_descriptors item), rest)"
proof -
  have "\<forall>x\<in>set (zip (trash_entries item) (wire_descriptors item)). dir_entry_ok x"
  proof
    fix x assume x: "x \<in> set (zip (trash_entries item) (wire_descriptors item))"
    then have "fst x \<in> set (trash_entries item)" "snd x \<in> set (wire_descriptors item)"
      by (metis prod.collapse set_zip_leftD) (metis x prod.collapse set_zip_rightD)
    moreover from this have "snd x = [] \<or> snd x \<in> set (trash_descriptors item)"
      by (auto simp: wire_descriptors_def split: if_splits)
    moreover have "string_fits []" "valid_utf8_no_nul []"
      by (simp_all add: string_fits_def valid_utf8_no_nul_def)
    ultimately show "dir_entry_ok x"
      using assms
      by (cases x) (auto simp: trash_encodable_def trash_texts_ok_def trash_item_strings_def
          dir_entry_ok_def list_all_iff)
  qed
  from dir_entry_codec.dec_many_enc [OF this, of rest] wire_descriptors_length [OF assms]
  show ?thesis by simp
qed

lemma dec_enc_state:
  assumes "trash_encodable item" "previousTrashVersion \<le> version"
  shows "dec_trash_state version (enc_trash_state item @ rest) =
    Some ((trash_storage_identity item, trash_location item, trash_security item,
      trash_descriptor item), rest)"
  using assms
  by (simp add: dec_trash_state_def enc_trash_state_def trash_field_decs trash_encodable_def
      trash_texts_ok_def trash_item_strings_def)

lemma dec_enc_trash_item:
  assumes "trash_encodable item" "valid_utf8_no_nul detail" "version = 10 \<or> version = 11"
    "version = 11 \<or> trash_storage_index item = word_of_nat index"
  shows "dec_trash_item version detail index (enc_trash_item version item @ rest) = Inr (item, rest)"
proof -
  have versions: "directoryTrashVersion \<le> version" "previousTrashVersion \<le> version" "10 \<le> version"
    using assms(3) by (auto simp: trash_versions)
  have policy: "dec_trash_policy version (append_integer (enum_code trash_policies p) @ bs) = Some (p, bs)" for p bs
    using versions by (simp add: dec_trash_policy_def trash_field_decs)
  have manifest: "map fst (zip (trash_entries item) (wire_descriptors item)) = trash_entries item"
    "map snd (zip (trash_entries item) (wire_descriptors item)) = wire_descriptors item"
    using wire_descriptors_length [OF assms(1)] by simp_all
  have descriptors: "(if list_all (\<lambda>d. d = []) (wire_descriptors item) then [] else wire_descriptors item) =
      trash_descriptors item"
    using assms(1)
    by (auto simp: wire_descriptors_def trash_encodable_def trash_texts_ok_def list_all_iff)
  have index: "(if 11 \<le> version then (read_integer ((if 11 \<le> version
        then append_integer (trash_storage_index item) else []) @ rest) :: (u32 \<times> byte list) option)
      else Some (word_of_nat index, (if 11 \<le> version
        then append_integer (trash_storage_index item) else []) @ rest)) =
      Some (trash_storage_index item, rest)"
    using assms(3,4) by (auto simp: trash_field_decs)
  show ?thesis
    unfolding dec_trash_item_def enc_trash_item_def append_assoc
    by (simp only: dec_enc_head [OF assms(1,2) versions(1)] dec_enc_manifest [OF assms(1)]
        dec_enc_state [OF assms(1) versions(2)] policy manifest descriptors index Let_def
        option.case prod.case) simp
qed

lemma dec_enc_trash_items:
  assumes "\<forall>item\<in>set items. trash_encodable item" "valid_utf8_no_nul detail"
    "version = 10 \<or> version = 11"
    "version = 11 \<or> (\<forall>i<length items. trash_storage_index (items ! i) = word_of_nat (index + i))"
  shows "dec_trash_items version detail index (length items)
      (concat (map (enc_trash_item version) items) @ rest) = Inr (items, rest)"
  using assms
proof (induction items arbitrary: index)
  case (Cons item items)
  have "dec_trash_item version detail index (enc_trash_item version item @ bs) = Inr (item, bs)" for bs
    using Cons.prems by (intro dec_enc_trash_item) auto
  moreover have "dec_trash_items version detail (Suc index) (length items)
      (concat (map (enc_trash_item version) items) @ rest) = Inr (items, rest)"
    using Cons.prems by (intro Cons.IH) auto
  ultimately show ?case by simp
qed simp

lemma wire_version_cases: "trash_wire_version t = 10 \<or> trash_wire_version t = 11"
  by (simp add: trash_wire_version_def trash_versions)

lemma wire_version_indices:
  assumes "trash_wire_version t = 10" "i < length (trash_items t)"
  shows "trash_storage_index (trash_items t ! i) = word_of_nat i"
proof -
  have "(i, trash_items t ! i) \<in> set (enumerate 0 (trash_items t))"
    using assms(2) by (simp add: in_set_enumerate_eq)
  with assms(1) have "unat (trash_storage_index (trash_items t ! i)) = i"
    by (auto simp: trash_wire_version_def trash_versions list_ex_iff split: if_splits)
  moreover have "word_of_nat (unat (trash_storage_index (trash_items t ! i))) =
      trash_storage_index (trash_items t ! i)" by simp
  ultimately show ?thesis by metis
qed

lemma dec_enc_trash_header:
  assumes "trash_items t \<noteq> []" "length (trash_items t) \<le> kMaximumTrashItems"
    "string_fits (trash_detail t)"
  shows "dec_trash_header (enc_trash_header t @ rest) =
    Some ((t\<lparr>trash_version := trash_wire_version t, trash_items := []\<rparr>, length (trash_items t)), rest)"
proof -
  have count: "unat (word_of_nat (length (trash_items t)) :: u32) = length (trash_items t)"
    using assms(2) by (intro u32_count) (simp add: kMaximumTrashItems_def)
  with assms(1) have "(word_of_nat (length (trash_items t)) :: u32) \<noteq> 0"
    by (metis length_0_conv unat_eq_0)
  moreover have "known_trash_version (trash_wire_version t)"
    using wire_version_cases [of t] by (auto simp: known_trash_version_def trash_versions)
  moreover have "\<not> (trash_wire_version t < 11 \<and> (trash_phase t = Trash_cancel_remaining_intent \<or>
      trash_phase t = Trash_cancel_container_remove_intent))"
    by (auto simp: trash_wire_version_def trash_versions)
  ultimately show ?thesis
    using assms count
    by (simp add: dec_trash_header_def enc_trash_header_def trash_field_decs)
qed

lemma decode_encode_trash:
  assumes enc: "encode_trash_transaction t = Inr bytes"
    and texts: "\<forall>item\<in>set (trash_items t). trash_texts_ok item"
  shows "decode_trash_transaction bytes = Inr t"
proof -
  from enc have valid: "valid_trash_transaction t = Inr ()" and bytes: "bytes = trash_payload t"
    and fits: "trash_strings_fit t" and len: "length bytes \<le> trashPayloadLimit"
    by (auto simp: encode_trash_transaction_def case_sum_Inr split: if_splits)
  note ok = valid_trash_items [OF valid]
  have "\<forall>item\<in>set (trash_items t). trash_encodable item"
    using ok(1) texts fits valid_payload_manifest(2,3)
    by (auto simp: trash_encodable_def trash_item_ok_def trash_strings_fit_def list_all_iff)
  from dec_enc_trash_items [OF this ok(7) wire_version_cases, of t 0 "[]"] wire_version_indices
  have items: "dec_trash_items (trash_wire_version t) (trash_detail t) 0 (length (trash_items t))
      (concat (map (enc_trash_item (trash_wire_version t)) (trash_items t))) = Inr (trash_items t, [])"
    using wire_version_cases [of t] by auto
  have "t\<lparr>trash_version := kTrashTransactionVersion, trash_items := trash_items t\<rparr> = t"
    using ok(6) by simp
  with items dec_enc_trash_header [OF ok(4,5)] fits valid len show ?thesis
    unfolding decode_trash_transaction_def bytes trash_payload_def trash_strings_fit_def
    by (simp add: Let_def)
qed

text \<open>What a decoder returns can be written again, in the current version.\<close>

lemma dec_trash_item_texts:
  assumes "dec_trash_item version detail index bs = Inr (item, rest)"
  shows "trash_texts_ok item"
proof -
  from assms obtain original restore_path stored current snap kind payload_bytes cursor n bs1
      manifest bs2 storage_identity loc sec descriptor bs3 policy bs4
    where head: "dec_trash_head version detail bs = Some (((original, restore_path, stored, current),
        snap, kind, payload_bytes, cursor, n), bs1)"
      and manifest: "dec_many dec_dir_entry n bs1 = Some (manifest, bs2)"
      and state: "dec_trash_state version bs2 = Some ((storage_identity, loc, sec, descriptor), bs3)"
      and fields: "trash_original item = original" "trash_restore_path item = restore_path"
        "trash_stored item = stored" "trash_current item = current" "trash_snapshot item = snap"
        "trash_entries item = map fst manifest" "trash_storage_identity item = storage_identity"
        "trash_descriptor item = descriptor"
        "trash_descriptors item =
          (if list_all (\<lambda>value. value = []) (map snd manifest) then [] else map snd manifest)"
    unfolding dec_trash_item_def by (auto simp: Let_def split: option.splits if_splits)
  have "list_all valid_utf8_no_nul [original, restore_path, stored, current, source_revision_utf8 snap]"
    using head by (auto simp: dec_trash_head_def bind_Some_iff split: if_splits)
  moreover have "valid_utf8_no_nul storage_identity" "valid_utf8_no_nul descriptor"
    using state by (auto simp: dec_trash_state_def bind_Some_iff split: if_splits)
  moreover have "\<forall>x\<in>set manifest. dir_entry_ok x"
    using dir_entry_codec.enc_dec_many [OF manifest] by blast
  then have "list_all valid_utf8_no_nul (map dir_relative_path (map fst manifest))"
    "list_all valid_utf8_no_nul (map dir_revision (map fst manifest))"
    "list_all valid_utf8_no_nul (map snd manifest)"
    by (auto simp: list_all_iff dir_entry_ok_def)
  ultimately show ?thesis
    by (auto simp: trash_texts_ok_def trash_item_strings_def fields)
qed

lemma dec_trash_items_texts:
  "dec_trash_items version detail index n bs = Inr (items, rest) \<Longrightarrow>
     \<forall>item\<in>set items. trash_texts_ok item"
  by (induction version detail index n bs arbitrary: items rest rule: dec_trash_items.induct)
    (fastforce simp: sum_bind_Inr_iff dest: dec_trash_item_texts)+

lemma decode_trash_InrD:
  assumes "decode_trash_transaction bytes = Inr t"
  shows "valid_trash_transaction t = Inr ()" "\<forall>item\<in>set (trash_items t). trash_texts_ok item"
  using assms
  by (auto simp: decode_trash_transaction_def sum_bind_Inr_iff Let_def
      split: if_splits option.splits sum.splits dest!: dec_trash_items_texts)

end
