(* ===== verification/Trash_Properties.thy ===== *)
theory Trash_Properties
  imports Trash_Safety
begin

text \<open>What holds of the trash record, with an example each property applies to.\<close>

section \<open>An example\<close>

definition example_trash_source :: TrashSource where
  "example_trash_source =
     \<lparr>trash_source_path = ''/d/a.c'',
      trash_source_snapshot = \<lparr>size_bytes = 2, modified_unix_ns = 4, source_revision_utf8 = ''posix:1:5:6''\<rparr>,
      trash_source_kind = Trash_file, trash_source_payload_bytes = 0, trash_source_entries = [],
      trash_source_descriptors = [], trash_source_storage_identity = [], trash_source_descriptor = [],
      trash_source_restore_path = [], trash_source_policy = Strict_payload\<rparr>"

definition example_trash_folder :: TrashSource where
  "example_trash_folder =
     \<lparr>trash_source_path = ''/d/s'',
      trash_source_snapshot = \<lparr>size_bytes = 0, modified_unix_ns = 4, source_revision_utf8 = ''posix:1:7:6''\<rparr>,
      trash_source_kind = Trash_directory, trash_source_payload_bytes = 3,
      trash_source_entries =
        [\<lparr>dir_relative_path = ''t/b'', dir_size_bytes = 3, dir_modified_unix_ns = 4,
          dir_revision = ''posix:1:9:6'', dir_depth = 2, dir_kind = Entry_regular_file\<rparr>,
         \<lparr>dir_relative_path = ''t'', dir_size_bytes = 0, dir_modified_unix_ns = 4,
          dir_revision = ''posix:1:8:6'', dir_depth = 1, dir_kind = Entry_directory\<rparr>],
      trash_source_descriptors = [], trash_source_storage_identity = [], trash_source_descriptor = [],
      trash_source_restore_path = [], trash_source_policy = Strict_payload\<rparr>"

definition example_trash :: TrashTransaction where
  "example_trash =
     new_trash_transaction 7 1
       [prepare_trash_item 7 [] 0 example_trash_source, prepare_trash_item 7 [] 1 example_trash_folder]"

lemma example_trash_valid: "valid_trash_transaction example_trash = Inr ()"
  by code_simp

text \<open>The texts of the example are short, so that neither the length field of a string nor the limit of
  the journal is in the way.\<close>

lemma example_trash_strings: "trash_strings_fit example_trash"
proof -
  have "list_all (\<lambda>item. list_all (\<lambda>s. length s < 100) (trash_item_strings item)) (trash_items example_trash)"
    by code_simp
  moreover have "trash_detail example_trash = []"
    by (simp add: example_trash_def new_trash_transaction_def)
  moreover have "string_fits s" if "length s < 100" for s using that by (simp add: string_fits_def)
  ultimately show ?thesis by (auto simp: trash_strings_fit_def list_all_iff)
qed

lemma example_trash_texts: "\<forall>item\<in>set (trash_items example_trash). trash_texts_ok item"
  by code_simp

lemma example_trash_encodes: "encode_trash_transaction example_trash = Inr (trash_payload example_trash)"
proof -
  have "length (trash_payload example_trash) = 374" by code_simp
  then show ?thesis
    by (simp add: encode_trash_transaction_def example_trash_valid example_trash_strings
        trashPayloadLimit_def)
qed

section \<open>Properties\<close>

text \<open>C26: A trash record that passes validation keeps its items apart and accounts for them: no two share
  an original, restore or stored path or an object, the storage slots increase, every item is at a
  place its phase allows, and the manifest of a directory lists each object once, deeper entries
  first, with the exact number of bytes: the 64-bit sum did not wrap.\<close>

theorem valid_trash_accounts:
  assumes "valid_trash_transaction t = Inr ()"
  shows "trash_distinct (trash_items t) \<and>
    sorted_wrt (<) (map trash_storage_index (trash_items t)) \<and>
    (\<forall>item\<in>set (trash_items t).
      trash_location_allowed (trash_phase t) (trash_location item) \<and> trash_expected_current item \<and>
      path_eq (trash_stored item)
        (stored_path (trash_restore_path item) (trash_operation_id t)
          (parent_path (trash_container t)) (unat (trash_storage_index item))) \<and>
      manifest_ok item)"
proof -
  note ok = valid_trash_items [OF assms]
  have "trash_location_allowed (trash_phase t) (trash_location item) \<and> trash_expected_current item \<and>
      path_eq (trash_stored item)
        (stored_path (trash_restore_path item) (trash_operation_id t)
          (parent_path (trash_container t)) (unat (trash_storage_index item))) \<and> manifest_ok item"
    if "item \<in> set (trash_items t)" for item
    using that ok(1) valid_payload_manifest(1)
    by (auto simp: trash_item_ok_def trash_paths_ok_def trash_container_def Let_def)
  with ok(2,3) show ?thesis by blast
qed

lemma valid_trash_accounts_witness:
  "trash_distinct (trash_items example_trash) \<and>
   sorted_wrt (<) (map trash_storage_index (trash_items example_trash)) \<and>
   list_all manifest_ok (trash_items example_trash)"
  using valid_trash_accounts [OF example_trash_valid] by (auto simp: list_all_iff)

text \<open>C27: A record that is written is read back as it was, in the older and in the current wire version,
  provided its texts are UTF-8 and its security descriptors are not all empty.\<close>

theorem trash_record_roundtrip:
  assumes "encode_trash_transaction t = Inr bytes"
    and "\<forall>item\<in>set (trash_items t). trash_texts_ok item"
  shows "decode_trash_transaction bytes = Inr t"
  by (rule decode_encode_trash [OF assms])

lemma trash_record_roundtrip_witness:
  "decode_trash_transaction (trash_payload example_trash) = Inr example_trash"
  by (rule trash_record_roundtrip [OF example_trash_encodes example_trash_texts])

text \<open>A record of any of the five versions that is read passes validation, and writing it again,
  now in a current version, changes nothing of what it says.\<close>

theorem trash_upgrade_stable:
  assumes "decode_trash_transaction bytes = Inr t" and "encode_trash_transaction t = Inr upgraded"
  shows "valid_trash_transaction t = Inr () \<and> decode_trash_transaction upgraded = Inr t"
  using decode_encode_trash [OF assms(2)] decode_trash_InrD [OF assms(1)] by blast

lemma trash_upgrade_stable_witness:
  "valid_trash_transaction example_trash = Inr () \<and>
   decode_trash_transaction (trash_payload example_trash) = Inr example_trash"
  by (rule trash_upgrade_stable [OF decode_encode_trash [OF example_trash_encodes example_trash_texts]
        example_trash_encodes])

end
