(* ===== verification/File_Transfer_Transaction.thy ===== *)
theory File_Transfer_Transaction
  imports Batch_Record Operation_Journal
begin

text \<open>
  The journal record of a file transfer (copy or move):
  \<open>src/Source/src/fileops/file_transfer_transaction.cpp\<close> (POSIX branch). Items are processed one
  after another; for each the record says where the source is, how far the destination has come,
  what is known of its content, and what became of an object that is to be overwritten.
\<close>

section \<open>Data\<close>

datatype FileTransferKind = Copy_transfer | Move_transfer

datatype FileTransferPhase =
  Transfer_prepared | Transfer_processing | Transfer_prepublish_cleanup | Transfer_completed

datatype FileTransferStrategy = Copy_stream | Move_undecided | Move_stream | Move_atomic

datatype MoveStreamReason = No_stream_reason | Cross_device_no_commit

datatype FileTransferSourceLocation = Source_original | Source_staged | Source_removed

datatype FileTransferDestinationState =
  Destination_absent | Temp_reserved | Content_ready | Destination_published

datatype OverwriteDestinationState =
  Overwrite_none | Overwrite_authorized | Overwrite_evacuated | Overwrite_evacuated_unexpected

datatype FileTransferStep =
    No_transfer_step | Atomic_move | Stage_source | Reserve_temp | Stream_temp | Publish_temp
  | Delete_source | Restore_staged_source | Cleanup_temp | Evacuate_overwrite_destination
  | Restore_overwrite_destination | Cleanup_overwrite_destination

record FileTransferSource =
  transfer_path_of :: path
  transfer_destination_of :: path
  transfer_snapshot_of :: SourceSnapshot
  transfer_source_parent_of :: string
  transfer_destination_parent_of :: string
  transfer_overwrite_of :: SourceSnapshot

text \<open>The digest and the token are arrays of 32 and 16 bytes.\<close>

record FileTransferItem =
  ft_source :: path
  ft_staged_source :: path
  ft_temp_destination :: path
  ft_overwrite_backup :: path
  ft_destination :: path
  ft_original_snapshot :: SourceSnapshot
  ft_current_snapshot :: SourceSnapshot
  ft_destination_snapshot :: SourceSnapshot
  ft_source_parent_identity :: string
  ft_destination_parent_identity :: string
  ft_source_parent_revision :: string
  ft_destination_parent_revision :: string
  ft_content_sha256 :: "byte list"
  ft_request_token :: "byte list"
  ft_content_bytes :: u64
  ft_stream_reason :: MoveStreamReason
  ft_content_proof :: bool
  ft_strategy :: FileTransferStrategy
  ft_source_location :: FileTransferSourceLocation
  ft_destination_state :: FileTransferDestinationState
  ft_overwrite_snapshot :: SourceSnapshot
  ft_backup_snapshot :: SourceSnapshot
  ft_overwrite_state :: OverwriteDestinationState

record FileTransferTransaction =
  ft_version :: u32
  ft_operation_id :: u64
  ft_kind :: FileTransferKind
  ft_phase :: FileTransferPhase
  ft_step :: FileTransferStep
  ft_index :: u32
  ft_evidence :: OperationEvidence
  ft_failure :: OperationStatus
  ft_failure_evidence :: OperationEvidence
  ft_detail :: string
  ft_items :: "FileTransferItem list"
  ft_cancelled :: bool

definition kFileTransferTransactionVersion :: u32 where "kFileTransferTransactionVersion = 6"
definition kMaximumFileTransferItems :: nat where "kMaximumFileTransferItems = 10000"
definition kFileTransferDigestBytes :: nat where "kFileTransferDigestBytes = 32"
definition kFileTransferRequestTokenBytes :: nat where "kFileTransferRequestTokenBytes = 16"
definition transferMagic :: u32 where "transferMagic = 0x31544656"

section \<open>Paths\<close>

definition transfer_path :: "path \<Rightarrow> string \<Rightarrow> u64 \<Rightarrow> nat \<Rightarrow> path" where
  "transfer_path user_path prefix operation_id index =
     path_append (parent_path user_path)
       (prefix @ hexadecimal operation_id @ ''-'' @ to_chars 16 index @ ''.part'')"

definition file_transfer_staged_source_path :: "path \<Rightarrow> u64 \<Rightarrow> nat \<Rightarrow> path" where
  "file_transfer_staged_source_path source operation_id index =
     transfer_path source kTransferSourceFilenamePrefix operation_id index"

definition file_transfer_temp_destination_path :: "path \<Rightarrow> u64 \<Rightarrow> nat \<Rightarrow> path" where
  "file_transfer_temp_destination_path destination operation_id index =
     transfer_path destination kTransferDestinationFilenamePrefix operation_id index"

definition file_transfer_overwrite_backup_path :: "path \<Rightarrow> u64 \<Rightarrow> nat \<Rightarrow> path" where
  "file_transfer_overwrite_backup_path destination operation_id index =
     transfer_path destination kTransferOverwriteBackupFilenamePrefix operation_id index"

section \<open>Validity of an item\<close>

definition snapshot_empty :: "SourceSnapshot \<Rightarrow> bool" where
  "snapshot_empty s \<longleftrightarrow> size_bytes s = 0 \<and> modified_unix_ns s = 0 \<and> source_revision_utf8 s = []"

definition valid_snapshot :: "SourceSnapshot \<Rightarrow> bool" where
  "valid_snapshot s \<longleftrightarrow> stable_object_identity (source_revision_utf8 s) \<noteq> []"

definition digest_empty :: "byte list \<Rightarrow> bool" where
  "digest_empty digest \<longleftrightarrow> list_all (\<lambda>v. v = 0) digest"

definition token_empty :: "byte list \<Rightarrow> bool" where
  "token_empty token \<longleftrightarrow> list_all (\<lambda>v. v = 0) token"

definition same_snapshot :: "SourceSnapshot \<Rightarrow> SourceSnapshot \<Rightarrow> bool" where
  "same_snapshot left right \<longleftrightarrow>
     size_bytes left = size_bytes right \<and> modified_unix_ns left = modified_unix_ns right \<and>
     same_source_revision (source_revision_utf8 left) (source_revision_utf8 right)"

definition streamed_strategy :: "FileTransferStrategy \<Rightarrow> bool" where
  "streamed_strategy strategy \<longleftrightarrow> strategy = Copy_stream \<or> strategy = Move_stream"

definition final_item :: "FileTransferKind \<Rightarrow> FileTransferItem \<Rightarrow> bool" where
  "final_item kind item \<longleftrightarrow>
     ft_destination_state item = Destination_published \<and> ft_overwrite_state item = Overwrite_none \<and>
     ((kind = Copy_transfer \<and> ft_source_location item = Source_original) \<or>
      (kind = Move_transfer \<and> ft_source_location item = Source_removed))"

definition pristine_item :: "FileTransferKind \<Rightarrow> FileTransferItem \<Rightarrow> bool" where
  "pristine_item kind item \<longleftrightarrow>
     ft_strategy item = (if kind = Copy_transfer then Copy_stream else Move_undecided) \<and>
     ft_source_location item = Source_original \<and> ft_destination_state item = Destination_absent \<and>
     ft_overwrite_state item \<noteq> Overwrite_evacuated \<and>
     ft_overwrite_state item \<noteq> Overwrite_evacuated_unexpected \<and>
     snapshot_empty (ft_backup_snapshot item) \<and> snapshot_empty (ft_destination_snapshot item) \<and>
     ft_content_bytes item = 0 \<and> digest_empty (ft_content_sha256 item) \<and>
     token_empty (ft_request_token item) \<and> ft_stream_reason item = No_stream_reason \<and>
     \<not> ft_content_proof item"

definition strategy_and_locations_valid :: "FileTransferKind \<Rightarrow> FileTransferItem \<Rightarrow> bool" where
  "strategy_and_locations_valid kind item =
     (if kind = Copy_transfer then
        ft_strategy item = Copy_stream \<and> ft_stream_reason item = No_stream_reason \<and>
        ft_source_location item = Source_original
      else if ft_strategy item = Copy_stream then False
      else if ft_strategy item = Move_undecided then
        ft_stream_reason item = No_stream_reason \<and> ft_source_location item = Source_original \<and>
        ft_destination_state item = Destination_absent
      else if ft_strategy item = Move_atomic then
        ft_stream_reason item = No_stream_reason \<and> ft_source_location item = Source_removed \<and>
        ft_destination_state item = Destination_published
      else if ft_stream_reason item \<noteq> Cross_device_no_commit then False
      else if ft_destination_state item = Destination_absent then
        ft_source_location item = Source_original \<or> ft_source_location item = Source_staged
      else if ft_destination_state item = Destination_published then
        ft_source_location item = Source_staged \<or> ft_source_location item = Source_removed
      else ft_source_location item = Source_staged)"

definition no_content :: "FileTransferItem \<Rightarrow> bool" where
  "no_content item \<longleftrightarrow>
     ft_content_bytes item = 0 \<and> digest_empty (ft_content_sha256 item) \<and> \<not> ft_content_proof item"

definition destination_proof_valid :: "FileTransferItem \<Rightarrow> bool" where
  "destination_proof_valid item =
     (if ft_destination_state item = Destination_absent then
        snapshot_empty (ft_destination_snapshot item) \<and> no_content item
      else if \<not> valid_snapshot (ft_destination_snapshot item) then False
      else if ft_strategy item = Move_atomic then
        ft_destination_state item = Destination_published \<and> no_content item \<and>
        same_object_identity (source_revision_utf8 (ft_original_snapshot item))
          (source_revision_utf8 (ft_destination_snapshot item))
      else if ft_destination_state item = Temp_reserved then
        no_content item \<and> \<not> token_empty (ft_request_token item)
      else streamed_strategy (ft_strategy item) \<and>
        ft_content_bytes item = size_bytes (ft_original_snapshot item) \<and>
        size_bytes (ft_destination_snapshot item) = ft_content_bytes item \<and> ft_content_proof item)"

definition overwrite_settled :: "u32 \<Rightarrow> FileTransferItem \<Rightarrow> bool" where
  "overwrite_settled version item \<longleftrightarrow>
     ft_overwrite_state item = Overwrite_none \<or> ft_overwrite_state item = Overwrite_evacuated \<or>
     (version < 6 \<and> ft_overwrite_state item = Overwrite_authorized)"

definition transfer_step_matches :: "FileTransferTransaction \<Rightarrow> bool" where
  "transfer_step_matches t =
     (if ft_step t = No_transfer_step then ft_index t = 0
      else if length (ft_items t) \<le> unat (ft_index t) then False
      else let item = ft_items t ! unat (ft_index t); move = (ft_kind t = Move_transfer) in
        case ft_step t of
          Atomic_move \<Rightarrow>
            move \<and> ft_strategy item = Move_undecided \<and> ft_source_location item = Source_original \<and>
            ft_destination_state item = Destination_absent \<and> overwrite_settled (ft_version t) item
        | Stage_source \<Rightarrow>
            move \<and> ft_strategy item = Move_stream \<and> ft_source_location item = Source_original \<and>
            ft_destination_state item = Destination_absent
        | Reserve_temp \<Rightarrow>
            streamed_strategy (ft_strategy item) \<and> ft_destination_state item = Destination_absent \<and>
            \<not> token_empty (ft_request_token item) \<and>
            (ft_kind t = Copy_transfer \<or> ft_source_location item = Source_staged)
        | Stream_temp \<Rightarrow>
            streamed_strategy (ft_strategy item) \<and> ft_destination_state item = Temp_reserved
        | Publish_temp \<Rightarrow>
            streamed_strategy (ft_strategy item) \<and> ft_destination_state item = Content_ready \<and>
            overwrite_settled (ft_version t) item
        | Delete_source \<Rightarrow>
            move \<and> ft_strategy item = Move_stream \<and> ft_source_location item = Source_staged \<and>
            ft_destination_state item = Destination_published
        | Restore_staged_source \<Rightarrow>
            move \<and> ft_strategy item = Move_stream \<and> ft_source_location item = Source_staged \<and>
            ft_destination_state item \<noteq> Destination_published \<and>
            ft_phase t = Transfer_prepublish_cleanup
        | Cleanup_temp \<Rightarrow>
            streamed_strategy (ft_strategy item) \<and> ft_phase t = Transfer_prepublish_cleanup \<and>
            (ft_destination_state item = Temp_reserved \<or> ft_destination_state item = Content_ready)
        | Evacuate_overwrite_destination \<Rightarrow>
            6 \<le> ft_version t \<and> ft_overwrite_state item = Overwrite_authorized \<and>
            ft_destination_state item \<noteq> Destination_published
        | Restore_overwrite_destination \<Rightarrow>
            6 \<le> ft_version t \<and> ft_phase t = Transfer_prepublish_cleanup \<and>
            (ft_overwrite_state item = Overwrite_evacuated \<or>
             ft_overwrite_state item = Overwrite_evacuated_unexpected) \<and>
            ft_destination_state item \<noteq> Destination_published
        | Cleanup_overwrite_destination \<Rightarrow>
            6 \<le> ft_version t \<and> ft_overwrite_state item = Overwrite_evacuated \<and>
            ft_destination_state item = Destination_published \<and>
            ((ft_kind t = Copy_transfer \<and> ft_source_location item = Source_original) \<or>
             (move \<and> ft_source_location item = Source_removed))
        | No_transfer_step \<Rightarrow> False)"

definition overwrite_state_ok :: "FileTransferItem \<Rightarrow> bool" where
  "overwrite_state_ok item =
     (let authorized = \<not> snapshot_empty (ft_overwrite_snapshot item);
          backup = \<not> snapshot_empty (ft_backup_snapshot item) in
      case ft_overwrite_state item of
        Overwrite_none \<Rightarrow> \<not> authorized \<and> \<not> backup
      | Overwrite_authorized \<Rightarrow> authorized \<and> \<not> backup
      | Overwrite_evacuated \<Rightarrow> authorized \<and> backup \<and>
          same_object_after_rename (ft_overwrite_snapshot item) (ft_backup_snapshot item)
      | Overwrite_evacuated_unexpected \<Rightarrow> authorized \<and> backup)"

definition overwrite_proof_ok :: "u32 \<Rightarrow> u32 \<Rightarrow> SourceSnapshot \<Rightarrow> bool" where
  "overwrite_proof_ok version minimum s \<longleftrightarrow>
     snapshot_empty s \<or>
     (minimum \<le> version \<and> valid_snapshot s \<and> \<not> starts_with (source_revision_utf8 s) ''win-file:'' \<and>
      valid_utf8_no_nul (source_revision_utf8 s))"

definition transfer_owned_paths :: "FileTransferItem \<Rightarrow> string list" where
  "transfer_owned_paths item =
     map lexically_normal
       [ft_source item, ft_staged_source item, ft_temp_destination item, ft_overwrite_backup item,
        ft_destination item]"

definition transfer_paths_ok :: "u64 \<Rightarrow> nat \<Rightarrow> FileTransferItem \<Rightarrow> bool" where
  "transfer_paths_ok operation_id index item \<longleftrightarrow>
     is_absolute (ft_source item) \<and> is_absolute (ft_staged_source item) \<and>
     is_absolute (ft_temp_destination item) \<and> is_absolute (ft_overwrite_backup item) \<and>
     is_absolute (ft_destination item) \<and> \<not> path_eq (ft_source item) (ft_destination item) \<and>
     path_eq (ft_staged_source item)
       (file_transfer_staged_source_path (ft_source item) operation_id index) \<and>
     path_eq (ft_temp_destination item)
       (file_transfer_temp_destination_path (ft_destination item) operation_id index) \<and>
     path_eq (ft_overwrite_backup item)
       (file_transfer_overwrite_backup_path (ft_destination item) operation_id index) \<and>
     \<not> is_transfer_filename (filename (ft_source item)) \<and>
     \<not> is_transfer_filename (filename (ft_destination item)) \<and>
     CHR '':'' \<notin> set (filename (ft_source item))"

definition transfer_names_ok :: "FileTransferItem \<Rightarrow> string + unit" where
  "transfer_names_ok item =
     sum_bind (valid_destination_filename (filename (ft_destination item))) (\<lambda>_.
     sum_bind (valid_destination_filename (filename (ft_staged_source item))) (\<lambda>_.
     sum_bind (valid_destination_filename (filename (ft_temp_destination item))) (\<lambda>_.
     valid_destination_filename (filename (ft_overwrite_backup item)))))"

definition transfer_identity :: "FileTransferItem \<Rightarrow> string" where
  "transfer_identity item = stable_object_identity (source_revision_utf8 (ft_original_snapshot item))"

definition source_snapshot_valid :: "FileTransferKind \<Rightarrow> FileTransferItem \<Rightarrow> bool" where
  "source_snapshot_valid kind item =
     (let restored_streamed_move = (kind = Move_transfer \<and> ft_strategy item = Move_stream \<and>
            ft_source_location item = Source_original) in
      if ft_source_location item = Source_original \<and> \<not> restored_streamed_move
      then same_snapshot (ft_original_snapshot item) (ft_current_snapshot item)
      else same_object_after_rename (ft_original_snapshot item) (ft_current_snapshot item))"

definition weak_identity :: "string \<Rightarrow> bool" where
  "weak_identity revision \<longleftrightarrow> starts_with revision ''win-file:''"

definition transfer_parents_ok :: "FileTransferItem \<Rightarrow> bool" where
  "transfer_parents_ok item \<longleftrightarrow>
     \<not> weak_identity (ft_source_parent_identity item) \<and>
     \<not> weak_identity (ft_destination_parent_identity item) \<and>
     ft_source_parent_identity item \<noteq> [] \<and> ft_destination_parent_identity item \<noteq> [] \<and>
     stable_object_identity (ft_source_parent_revision item) = ft_source_parent_identity item \<and>
     stable_object_identity (ft_destination_parent_revision item) = ft_destination_parent_identity item"

text \<open>The checks of the loop that concern one item, up to the sets it inserts into.\<close>

definition check_transfer_item ::
  "FileTransferTransaction \<Rightarrow> nat \<Rightarrow> string set \<Rightarrow> string set \<Rightarrow> FileTransferItem \<Rightarrow> string + unit"
where
  "check_transfer_item t index owned identities item =
     (if \<not> overwrite_state_ok item then Inl ''file-transfer overwrite state is invalid''
      else if \<not> overwrite_proof_ok (ft_version t) 5 (ft_overwrite_snapshot item) then
        Inl ''file-transfer overwrite authorization is invalid''
      else if \<not> overwrite_proof_ok (ft_version t) 6 (ft_backup_snapshot item) then
        Inl ''file-transfer overwrite backup proof is invalid''
      else if \<not> transfer_paths_ok (ft_operation_id t) index item \<or>
              emplace_all (transfer_owned_paths item) owned = None then
        Inl ''file-transfer paths are invalid or duplicated''
      else case transfer_names_ok item of Inl detail \<Rightarrow> Inl detail | Inr _ \<Rightarrow>
        if transfer_identity item = [] \<or> transfer_identity item \<in> identities then
          Inl ''file-transfer source object identity is invalid or duplicated''
        else if \<not> valid_snapshot (ft_current_snapshot item) then
          Inl ''file-transfer current source identity is invalid''
        else if \<not> source_snapshot_valid (ft_kind t) item then
          Inl ''file-transfer current source snapshot no longer matches its origin''
        else if weak_identity (source_revision_utf8 (ft_original_snapshot item)) \<or>
                weak_identity (source_revision_utf8 (ft_current_snapshot item)) \<or>
                (\<not> snapshot_empty (ft_destination_snapshot item) \<and>
                 weak_identity (source_revision_utf8 (ft_destination_snapshot item))) then
          Inl ''file-transfer snapshot uses a weak Windows identity''
        else if \<not> transfer_parents_ok item then Inl ''file-transfer parent identity is invalid''
        else if \<not> strategy_and_locations_valid (ft_kind t) item then
          Inl ''file-transfer strategy or source location is invalid''
        else if \<not> destination_proof_valid item then
          Inl ''file-transfer destination proof is invalid''
        else if ft_phase t = Transfer_prepublish_cleanup \<and>
                ft_destination_state item = Destination_published \<and> \<not> final_item (ft_kind t) item then
          Inl ''file-transfer cleanup cannot restore a published move''
        else if streamed_strategy (ft_strategy item) \<and>
                ft_destination_state item \<noteq> Destination_absent \<and> token_empty (ft_request_token item) then
          Inl ''file-transfer temporary object has no request token''
        else Inr ())"

text \<open>The loop; its result is the index of the first item that is not final.\<close>

fun check_transfer_items ::
  "FileTransferTransaction \<Rightarrow> nat \<Rightarrow> string set \<Rightarrow> string set \<Rightarrow> nat option \<Rightarrow> FileTransferItem list \<Rightarrow>
   string + nat option"
where
  "check_transfer_items t index owned identities first [] = Inr first"
| "check_transfer_items t index owned identities first (item # items) =
     (case check_transfer_item t index owned identities item of Inl detail \<Rightarrow> Inl detail | Inr _ \<Rightarrow>
        let is_final = final_item (ft_kind t) item;
            owned = owned \<union> set (transfer_owned_paths item);
            identities = insert (transfer_identity item) identities in
        if \<not> is_final \<and> first = None then
          check_transfer_items t (Suc index) owned identities (Some index) items
        else if is_final \<and> first \<noteq> None then Inl ''file-transfer completed items are not a prefix''
        else if first \<noteq> None \<and> \<not> pristine_item (ft_kind t) item then
          Inl ''file-transfer has more than one in-progress item''
        else check_transfer_items t (Suc index) owned identities first items)"

section \<open>Validity of a transaction\<close>

definition valid_transaction_version :: "u32 \<Rightarrow> bool" where
  "valid_transaction_version version \<longleftrightarrow>
     version = 4 \<or> version = 5 \<or> version = kFileTransferTransactionVersion"

definition overwrite_aliases_source :: "FileTransferItem list \<Rightarrow> bool" where
  "overwrite_aliases_source items \<longleftrightarrow>
     list_ex (\<lambda>item. \<not> snapshot_empty (ft_overwrite_snapshot item) \<and>
       stable_object_identity (source_revision_utf8 (ft_overwrite_snapshot item))
         \<in> set (map transfer_identity items)) items"

definition valid_file_transfer_transaction :: "FileTransferTransaction \<Rightarrow> string + unit" where
  "valid_file_transfer_transaction t =
     (if \<not> valid_transaction_version (ft_version t) \<or> ft_operation_id t = 0 \<or>
         (ft_cancelled t \<and> (ft_version t < 5 \<or> ft_phase t \<noteq> Transfer_prepublish_cleanup)) \<or>
         ft_items t = [] \<or> kMaximumFileTransferItems < length (ft_items t) then
        Inl ''file-transfer transaction header is invalid''
      else if \<not> transfer_step_matches t \<or>
              (ft_step t = No_transfer_step \<and> ft_evidence t \<noteq> Evidence_none) \<or>
              (ft_failure t = Success \<and>
               (ft_evidence t \<noteq> Evidence_none \<or> ft_failure_evidence t \<noteq> Evidence_none \<or>
                ft_detail t \<noteq> [])) then
        Inl ''file-transfer active step or evidence is inconsistent''
      else if (ft_phase t = Transfer_prepared \<or> ft_phase t = Transfer_completed) \<and>
              ft_step t \<noteq> No_transfer_step then
        Inl ''file-transfer terminal phase has an active step''
      else case check_transfer_items t 0 {} {} None (ft_items t) of Inl detail \<Rightarrow> Inl detail
      | Inr first \<Rightarrow>
          if overwrite_aliases_source (ft_items t) then
            Inl ''file-transfer overwrite destination aliases a source''
          else if ft_phase t = Transfer_prepared \<and>
                  \<not> list_all (pristine_item (ft_kind t)) (ft_items t) then
            Inl ''prepared file-transfer transaction is not pristine''
          else if (ft_phase t = Transfer_completed) \<noteq> (first = None) then
            Inl ''file-transfer completion phase does not match item state''
          else if ft_step t \<noteq> No_transfer_step \<and>
                  unat (ft_index t) \<noteq> (case first of None \<Rightarrow> 0 | Some index \<Rightarrow> index) then
            Inl ''file-transfer active item is not the first unfinished item''
          else Inr ())"

end
