(* ===== verification/File_Transfer_Record.thy ===== *)
theory File_Transfer_Record
  imports File_Transfer_Transaction Operation_Protocol
begin

text \<open>
  The binary format of the file transfer record: \<open>encode_file_transfer_transaction\<close> and
  \<open>decode_file_transfer_transaction\<close> of \<open>src/Source/src/fileops/file_transfer_transaction.cpp\<close>, in
  its three versions, and the proof that the format is canonical.
\<close>

section \<open>The enumerations\<close>

definition transfer_kinds :: "FileTransferKind list" where
  "transfer_kinds = [Copy_transfer, Move_transfer]"

definition transfer_phases :: "FileTransferPhase list" where
  "transfer_phases =
     [Transfer_prepared, Transfer_processing, Transfer_prepublish_cleanup, Transfer_completed]"

definition transfer_strategies :: "FileTransferStrategy list" where
  "transfer_strategies = [Copy_stream, Move_undecided, Move_stream, Move_atomic]"

definition stream_reasons :: "MoveStreamReason list" where
  "stream_reasons = [No_stream_reason, Cross_device_no_commit]"

definition source_locations :: "FileTransferSourceLocation list" where
  "source_locations = [Source_original, Source_staged, Source_removed]"

definition destination_states :: "FileTransferDestinationState list" where
  "destination_states = [Destination_absent, Temp_reserved, Content_ready, Destination_published]"

definition overwrite_states :: "OverwriteDestinationState list" where
  "overwrite_states =
     [Overwrite_none, Overwrite_authorized, Overwrite_evacuated, Overwrite_evacuated_unexpected]"

definition transfer_steps :: "FileTransferStep list" where
  "transfer_steps =
     [No_transfer_step, Atomic_move, Stage_source, Reserve_temp, Stream_temp, Publish_temp,
      Delete_source, Restore_staged_source, Cleanup_temp, Evacuate_overwrite_destination,
      Restore_overwrite_destination, Cleanup_overwrite_destination]"

lemmas transfer_table_defs =
  transfer_kinds_def transfer_phases_def transfer_strategies_def stream_reasons_def
  source_locations_def destination_states_def overwrite_states_def transfer_steps_def

lemma transfer_tables [simp]:
  "enum_table transfer_kinds" "enum_table transfer_phases" "enum_table transfer_strategies"
  "enum_table stream_reasons" "enum_table source_locations" "enum_table destination_states"
  "enum_table overwrite_states" "enum_table transfer_steps"
proof -
  have "x \<in> set transfer_kinds" for x by (cases x) (simp_all add: transfer_table_defs)
  moreover have "x \<in> set transfer_phases" for x by (cases x) (simp_all add: transfer_table_defs)
  moreover have "x \<in> set transfer_strategies" for x by (cases x) (simp_all add: transfer_table_defs)
  moreover have "x \<in> set stream_reasons" for x by (cases x) (simp_all add: transfer_table_defs)
  moreover have "x \<in> set source_locations" for x by (cases x) (simp_all add: transfer_table_defs)
  moreover have "x \<in> set destination_states" for x by (cases x) (simp_all add: transfer_table_defs)
  moreover have "x \<in> set overwrite_states" for x by (cases x) (simp_all add: transfer_table_defs)
  moreover have "x \<in> set transfer_steps" for x by (cases x) (simp_all add: transfer_table_defs)
  ultimately show "enum_table transfer_kinds" "enum_table transfer_phases"
    "enum_table transfer_strategies" "enum_table stream_reasons" "enum_table source_locations"
    "enum_table destination_states" "enum_table overwrite_states" "enum_table transfer_steps"
    unfolding enum_table_def by (simp_all only: simp_thms) (simp_all add: transfer_table_defs)
qed

section \<open>The parts of an item\<close>

text \<open>The fixed part: the codes, then size and time of the three snapshots, then the content size. The
  sixth byte is the overwrite state, which is not decoded before version 6.\<close>

type_synonym transfer_codes =
  "FileTransferStrategy \<times> FileTransferSourceLocation \<times> FileTransferDestinationState \<times>
   MoveStreamReason \<times> bool \<times> u8"

type_synonym transfer_numbers = "(u64 \<times> i64) \<times> (u64 \<times> i64) \<times> (u64 \<times> i64) \<times> u64"

definition enc_transfer_codes :: "transfer_codes \<Rightarrow> byte list" where
  "enc_transfer_codes = (\<lambda>(strategy, location, state, reason, proof_present, overwrite).
     append_integer (enum_code transfer_strategies strategy) @
     append_integer (enum_code source_locations location) @
     append_integer (enum_code destination_states state) @
     append_integer (enum_code stream_reasons reason) @
     append_integer (if proof_present then 1 else 0 :: u8) @
     append_integer overwrite @ append_integer (0 :: u16))"

definition enc_transfer_numbers :: "transfer_numbers \<Rightarrow> byte list" where
  "enc_transfer_numbers = (\<lambda>((a, b), (c, d), (e, f), content).
     append_integer a @ append_integer b @ append_integer c @ append_integer d @
     append_integer e @ append_integer f @ append_integer content)"

definition overwrite_byte_ok :: "u32 \<Rightarrow> u8 \<Rightarrow> bool" where
  "overwrite_byte_ok version b \<longleftrightarrow>
     (if 6 \<le> version then enum_of overwrite_states b \<noteq> None else b = 0)"

definition transfer_codes_ok :: "u32 \<Rightarrow> transfer_codes \<Rightarrow> bool" where
  "transfer_codes_ok version = (\<lambda>(_, _, _, _, _, overwrite). overwrite_byte_ok version overwrite)"

definition dec_transfer_codes :: "u32 \<Rightarrow> byte list \<Rightarrow> (transfer_codes \<times> byte list) option" where
  "dec_transfer_codes version bs = do {
     (strategy, bs) \<leftarrow> (read_integer bs :: (u8 \<times> byte list) option);
     (location, bs) \<leftarrow> (read_integer bs :: (u8 \<times> byte list) option);
     (state, bs) \<leftarrow> (read_integer bs :: (u8 \<times> byte list) option);
     (reason, bs) \<leftarrow> (read_integer bs :: (u8 \<times> byte list) option);
     (proof_present, bs) \<leftarrow> (read_integer bs :: (u8 \<times> byte list) option);
     (reserved8, bs) \<leftarrow> (read_integer bs :: (u8 \<times> byte list) option);
     (reserved16, bs) \<leftarrow> (read_integer bs :: (u16 \<times> byte list) option);
     strategy \<leftarrow> enum_of transfer_strategies strategy;
     location \<leftarrow> enum_of source_locations location;
     state \<leftarrow> enum_of destination_states state;
     reason \<leftarrow> enum_of stream_reasons reason;
     if 1 < proof_present \<or> \<not> overwrite_byte_ok version reserved8 \<or> reserved16 \<noteq> 0 then None
     else Some ((strategy, location, state, reason, proof_present \<noteq> 0, reserved8), bs) }"

definition dec_transfer_numbers :: "byte list \<Rightarrow> (transfer_numbers \<times> byte list) option" where
  "dec_transfer_numbers bs = do {
     (a, bs) \<leftarrow> (read_integer bs :: (u64 \<times> byte list) option);
     (b, bs) \<leftarrow> (read_integer bs :: (i64 \<times> byte list) option);
     (c, bs) \<leftarrow> (read_integer bs :: (u64 \<times> byte list) option);
     (d, bs) \<leftarrow> (read_integer bs :: (i64 \<times> byte list) option);
     (e, bs) \<leftarrow> (read_integer bs :: (u64 \<times> byte list) option);
     (f, bs) \<leftarrow> (read_integer bs :: (i64 \<times> byte list) option);
     (content, bs) \<leftarrow> (read_integer bs :: (u64 \<times> byte list) option);
     Some (((a, b), (c, d), (e, f), content), bs) }"

lemma u8_flag: "\<not> 1 < (b :: u8) \<longleftrightarrow> b = (if b \<noteq> 0 then 1 else 0)"
proof
  assume "\<not> 1 < b"
  then have "unat b \<le> 1" by (simp add: word_less_nat_alt)
  then have "unat b = 0 \<or> unat b = 1" by arith
  then show "b = (if b \<noteq> 0 then 1 else 0)" by (metis unat_eq_0 unsigned_1 word_unat_eq_iff)
next
  assume "b = (if b \<noteq> 0 then 1 else 0)"
  then show "\<not> 1 < b" by (cases "b = 0") simp_all
qed

interpretation transfer_codes: codec enc_transfer_codes "dec_transfer_codes version"
  "transfer_codes_ok version" for version
proof
  fix x rest
  assume "transfer_codes_ok version x"
  then show "dec_transfer_codes version (enc_transfer_codes x @ rest) = Some (x, rest)"
    by (cases x) (simp add: dec_transfer_codes_def enc_transfer_codes_def byte_codec.dec_enc
        u16_codec.dec_enc transfer_codes_ok_def)
next
  fix bs x rest
  assume "dec_transfer_codes version bs = Some (x, rest)"
  then show "transfer_codes_ok version x \<and> bs = enc_transfer_codes x @ rest"
    by (auto simp: dec_transfer_codes_def bind_Some_iff byte_codec.dec_Some_iff
        u16_codec.dec_Some_iff enc_transfer_codes_def transfer_codes_ok_def enum_of_iff
        split: if_split_asm dest: iffD1 [OF u8_flag])
qed

interpretation transfer_numbers: codec enc_transfer_numbers dec_transfer_numbers "\<lambda>_. True"
proof
  show "dec_transfer_numbers (enc_transfer_numbers x @ rest) = Some (x, rest)" for x rest
    by (cases x) (auto simp: dec_transfer_numbers_def enc_transfer_numbers_def u64_codec.dec_enc
        split: prod.split)
  show "True \<and> bs = enc_transfer_numbers x @ rest" if "dec_transfer_numbers bs = Some (x, rest)"
    for bs x rest
    using that by (auto simp: dec_transfer_numbers_def bind_Some_iff u64_codec.dec_Some_iff
        enc_transfer_numbers_def)
qed

section \<open>Items\<close>

definition stamp :: "SourceSnapshot \<Rightarrow> u64 \<times> i64" where
  "stamp s = (size_bytes s, modified_unix_ns s)"

definition stamped :: "u64 \<times> i64 \<Rightarrow> string \<Rightarrow> SourceSnapshot" where
  "stamped = (\<lambda>(size, modified) revision.
     \<lparr>size_bytes = size, modified_unix_ns = modified, source_revision_utf8 = revision\<rparr>)"

definition transfer_codes_of :: "u32 \<Rightarrow> FileTransferItem \<Rightarrow> transfer_codes" where
  "transfer_codes_of version item =
     (ft_strategy item, ft_source_location item, ft_destination_state item, ft_stream_reason item,
      ft_content_proof item,
      if 6 \<le> version then enum_code overwrite_states (ft_overwrite_state item) else 0)"

definition transfer_numbers_of :: "FileTransferItem \<Rightarrow> transfer_numbers" where
  "transfer_numbers_of item =
     (stamp (ft_original_snapshot item), stamp (ft_current_snapshot item),
      stamp (ft_destination_snapshot item), ft_content_bytes item)"

definition transfer_texts :: "FileTransferItem \<Rightarrow> string list" where
  "transfer_texts item =
     [ft_source item, ft_staged_source item, ft_temp_destination item, ft_destination item,
      source_revision_utf8 (ft_original_snapshot item),
      source_revision_utf8 (ft_current_snapshot item),
      source_revision_utf8 (ft_destination_snapshot item),
      ft_source_parent_identity item, ft_destination_parent_identity item,
      ft_source_parent_revision item, ft_destination_parent_revision item]"

definition enc_transfer_item :: "u32 \<Rightarrow> FileTransferItem \<Rightarrow> byte list" where
  "enc_transfer_item version item =
     enc_transfer_codes (transfer_codes_of version item) @
     enc_transfer_numbers (transfer_numbers_of item) @
     concat (map append_integer (ft_content_sha256 item)) @
     concat (map append_integer (ft_request_token item)) @
     concat (map append_string (transfer_texts item)) @
     (if 5 \<le> version then enc_snapshot (ft_overwrite_snapshot item) else []) @
     (if 6 \<le> version then enc_snapshot (ft_backup_snapshot item) else [])"

definition dec_snapshot_since ::
  "u32 \<Rightarrow> u32 \<Rightarrow> byte list \<Rightarrow> (SourceSnapshot \<times> byte list) option"
where
  "dec_snapshot_since minimum version bs =
     (if minimum \<le> version then dec_snapshot bs else Some (empty_snapshot, bs))"

definition dec_transfer_texts :: "byte list \<Rightarrow> (string list \<times> byte list) option" where
  "dec_transfer_texts bs = do {
     (texts, bs) \<leftarrow> dec_many read_string 11 bs;
     if list_all valid_utf8_no_nul texts then Some (texts, bs) else None }"

definition transfer_item_from ::
  "u32 \<Rightarrow> u64 \<Rightarrow> nat \<Rightarrow> transfer_codes \<Rightarrow> transfer_numbers \<Rightarrow> byte list \<Rightarrow> byte list \<Rightarrow> string list \<Rightarrow>
   SourceSnapshot \<Rightarrow> SourceSnapshot \<Rightarrow> FileTransferItem"
where
  "transfer_item_from version operation_id index codes numbers digest token texts overwrite backup =
     (case (codes, numbers) of
        ((strategy, location, state, reason, proof_present, reserved8),
         (origin, current, destination, content)) \<Rightarrow>
        \<lparr>ft_source = texts ! 0, ft_staged_source = texts ! 1, ft_temp_destination = texts ! 2,
         ft_overwrite_backup = file_transfer_overwrite_backup_path (texts ! 3) operation_id index,
         ft_destination = texts ! 3, ft_original_snapshot = stamped origin (texts ! 4),
         ft_current_snapshot = stamped current (texts ! 5),
         ft_destination_snapshot = stamped destination (texts ! 6),
         ft_source_parent_identity = texts ! 7, ft_destination_parent_identity = texts ! 8,
         ft_source_parent_revision = texts ! 9, ft_destination_parent_revision = texts ! 10,
         ft_content_sha256 = digest, ft_request_token = token, ft_content_bytes = content,
         ft_stream_reason = reason, ft_content_proof = proof_present, ft_strategy = strategy,
         ft_source_location = location, ft_destination_state = state,
         ft_overwrite_snapshot = overwrite, ft_backup_snapshot = backup,
         ft_overwrite_state =
           (if 6 \<le> version then
              (case enum_of overwrite_states reserved8 of None \<Rightarrow> Overwrite_none | Some s \<Rightarrow> s)
            else if snapshot_empty overwrite then Overwrite_none else Overwrite_authorized)\<rparr>)"

definition dec_transfer_item ::
  "u32 \<Rightarrow> u64 \<Rightarrow> nat \<Rightarrow> byte list \<Rightarrow> string + (FileTransferItem \<times> byte list)"
where
  "dec_transfer_item version operation_id index bs =
     (case (do { (codes, bs) \<leftarrow> dec_transfer_codes version bs;
                 (numbers, bs) \<leftarrow> dec_transfer_numbers bs; Some (codes, numbers, bs) }) of
        None \<Rightarrow> Inl ''file-transfer transaction item header is invalid or truncated''
      | Some (codes, numbers, bs) \<Rightarrow>
      (case dec_many read_integer kFileTransferDigestBytes bs of
        None \<Rightarrow> Inl ''file-transfer transaction digest is truncated''
      | Some (digest, bs) \<Rightarrow>
      (case dec_many read_integer kFileTransferRequestTokenBytes bs of
        None \<Rightarrow> Inl ''file-transfer transaction request token is truncated''
      | Some (token, bs) \<Rightarrow>
      (case dec_transfer_texts bs of
        None \<Rightarrow> Inl ''file-transfer transaction item text is invalid or truncated''
      | Some (texts, bs) \<Rightarrow>
      (case dec_snapshot_since 5 version bs of
        None \<Rightarrow> Inl ''file-transfer overwrite authorization is truncated''
      | Some (overwrite, bs) \<Rightarrow>
      (case dec_snapshot_since 6 version bs of
        None \<Rightarrow> Inl ''file-transfer overwrite backup proof is truncated''
      | Some (backup, bs) \<Rightarrow>
          Inr (transfer_item_from version operation_id index codes numbers digest token texts
                 overwrite backup, bs)))))))"

fun dec_transfer_items ::
  "u32 \<Rightarrow> u64 \<Rightarrow> nat \<Rightarrow> nat \<Rightarrow> byte list \<Rightarrow> string + (FileTransferItem list \<times> byte list)"
where
  "dec_transfer_items version operation_id index 0 bs = Inr ([], bs)"
| "dec_transfer_items version operation_id index (Suc n) bs =
     sum_bind (dec_transfer_item version operation_id index bs) (\<lambda>(item, bs).
       sum_bind (dec_transfer_items version operation_id (Suc index) n bs) (\<lambda>(items, bs).
         Inr (item # items, bs)))"

section \<open>Transactions\<close>

definition enc_transfer_header :: "FileTransferTransaction \<Rightarrow> byte list" where
  "enc_transfer_header t =
     append_integer transferMagic @ append_integer (ft_version t) @
     append_integer (ft_operation_id t) @ append_integer (enum_code transfer_kinds (ft_kind t)) @
     append_integer (enum_code transfer_phases (ft_phase t)) @
     append_integer (enum_code transfer_steps (ft_step t)) @
     append_integer (enum_code all_statuses (ft_failure t)) @
     append_integer (enum_code all_evidence (ft_evidence t)) @
     append_integer (enum_code all_evidence (ft_failure_evidence t)) @
     append_integer (if ft_cancelled t then 1 else 0 :: u16) @ append_integer (ft_index t) @
     append_integer (word_of_nat (length (ft_items t)) :: u32) @ append_string (ft_detail t)"

definition transfer_payload :: "FileTransferTransaction \<Rightarrow> byte list" where
  "transfer_payload t =
     enc_transfer_header t @ concat (map (enc_transfer_item (ft_version t)) (ft_items t))"

definition transfer_item_strings :: "u32 \<Rightarrow> FileTransferItem \<Rightarrow> string list" where
  "transfer_item_strings version item =
     transfer_texts item @
     (if 5 \<le> version then [source_revision_utf8 (ft_overwrite_snapshot item)] else []) @
     (if 6 \<le> version then [source_revision_utf8 (ft_backup_snapshot item)] else [])"

definition transfer_strings_fit :: "FileTransferTransaction \<Rightarrow> bool" where
  "transfer_strings_fit t \<longleftrightarrow>
     string_fits (ft_detail t) \<and>
     list_all (\<lambda>item. list_all string_fits (transfer_item_strings (ft_version t) item)) (ft_items t)"

text \<open>\<^const>\<open>Inl\<close> is an exception: \<open>invalid_argument\<close> or \<open>length_error\<close>.\<close>

definition encode_file_transfer_transaction :: "FileTransferTransaction \<Rightarrow> string + byte list" where
  "encode_file_transfer_transaction t =
     (case valid_file_transfer_transaction t of
        Inl detail \<Rightarrow> Inl detail
      | Inr _ \<Rightarrow>
          if \<not> transfer_strings_fit t then Inl ''catalog protocol string is too large''
          else if kMaximumCurrentOperationPayloadBytes < length (transfer_payload t) then
            Inl ''file-transfer transaction exceeds the journal limit''
          else Inr (transfer_payload t))"

definition cancelled_flag_ok :: "u32 \<Rightarrow> u16 \<Rightarrow> bool" where
  "cancelled_flag_ok version reserved16 \<longleftrightarrow> reserved16 \<le> (if 5 \<le> version then 1 else 0)"

definition dec_transfer_header ::
  "byte list \<Rightarrow> ((FileTransferTransaction \<times> nat) \<times> byte list) option"
where
  "dec_transfer_header bs = do {
     (magic, bs) \<leftarrow> (read_integer bs :: (u32 \<times> byte list) option);
     (version, bs) \<leftarrow> (read_integer bs :: (u32 \<times> byte list) option);
     (operation_id, bs) \<leftarrow> (read_integer bs :: (u64 \<times> byte list) option);
     (kind, bs) \<leftarrow> (read_integer bs :: (u8 \<times> byte list) option);
     (phase, bs) \<leftarrow> (read_integer bs :: (u8 \<times> byte list) option);
     (step, bs) \<leftarrow> (read_integer bs :: (u8 \<times> byte list) option);
     (status, bs) \<leftarrow> (read_integer bs :: (u8 \<times> byte list) option);
     (active_evidence, bs) \<leftarrow> (read_integer bs :: (u8 \<times> byte list) option);
     (failure_evidence, bs) \<leftarrow> (read_integer bs :: (u8 \<times> byte list) option);
     (reserved16, bs) \<leftarrow> (read_integer bs :: (u16 \<times> byte list) option);
     (index, bs) \<leftarrow> (read_integer bs :: (u32 \<times> byte list) option);
     (item_count, bs) \<leftarrow> (read_integer bs :: (u32 \<times> byte list) option);
     (detail, bs) \<leftarrow> read_string bs;
     kind \<leftarrow> enum_of transfer_kinds kind;
     phase \<leftarrow> enum_of transfer_phases phase;
     step \<leftarrow> enum_of transfer_steps step;
     status \<leftarrow> enum_of all_statuses status;
     active_evidence \<leftarrow> enum_of all_evidence active_evidence;
     failure_evidence \<leftarrow> enum_of all_evidence failure_evidence;
     if magic \<noteq> transferMagic \<or> \<not> valid_transaction_version version \<or>
        \<not> cancelled_flag_ok version reserved16 \<or>
        item_count = 0 \<or> kMaximumFileTransferItems < unat item_count
     then None
     else Some ((\<lparr>ft_version = version, ft_operation_id = operation_id, ft_kind = kind,
                  ft_phase = phase, ft_step = step, ft_index = index, ft_evidence = active_evidence,
                  ft_failure = status, ft_failure_evidence = failure_evidence, ft_detail = detail,
                  ft_items = [], ft_cancelled = (reserved16 \<noteq> 0)\<rparr>, unat item_count), bs) }"

definition transfer_trailing :: string where
  "transfer_trailing = ''file-transfer transaction contains trailing or invalid data''"

definition dec_transfer :: "byte list \<Rightarrow> string + (FileTransferTransaction \<times> byte list)" where
  "dec_transfer bs =
     (case dec_transfer_header bs of
        None \<Rightarrow> Inl ''file-transfer transaction header is invalid or truncated''
      | Some ((t, item_count), bs) \<Rightarrow>
          sum_bind (dec_transfer_items (ft_version t) (ft_operation_id t) 0 item_count bs)
            (\<lambda>(items, bs). Inr (t\<lparr>ft_items := items\<rparr>, bs)))"

definition decode_file_transfer_transaction :: "byte list \<Rightarrow> string + FileTransferTransaction" where
  "decode_file_transfer_transaction payload =
     (if kMaximumCurrentOperationPayloadBytes < length payload then
        Inl ''file-transfer transaction exceeds the journal limit''
      else sum_bind (dec_transfer payload) (\<lambda>(t, bs).
        if bs \<noteq> [] \<or> \<not> valid_utf8_no_nul (ft_detail t) then Inl transfer_trailing
        else case valid_file_transfer_transaction t of
               Inl detail \<Rightarrow> Inl (if detail = [] then transfer_trailing else detail)
             | Inr _ \<Rightarrow> Inr t))"

section \<open>A new transaction\<close>

text \<open>The authorized overwrite destination of a source is not taken over; the coordinator adds it.\<close>

definition prepare_transfer_item ::
  "FileTransferKind \<Rightarrow> u64 \<Rightarrow> nat \<Rightarrow> FileTransferSource \<Rightarrow> FileTransferItem"
where
  "prepare_transfer_item kind operation_id index source =
     (let path = transfer_path_of source; destination = transfer_destination_of source in
      \<lparr>ft_source = path, ft_staged_source = file_transfer_staged_source_path path operation_id index,
       ft_temp_destination = file_transfer_temp_destination_path destination operation_id index,
       ft_overwrite_backup = file_transfer_overwrite_backup_path destination operation_id index,
       ft_destination = destination, ft_original_snapshot = transfer_snapshot_of source,
       ft_current_snapshot = transfer_snapshot_of source, ft_destination_snapshot = empty_snapshot,
       ft_source_parent_identity = stable_object_identity (transfer_source_parent_of source),
       ft_destination_parent_identity = stable_object_identity (transfer_destination_parent_of source),
       ft_source_parent_revision = transfer_source_parent_of source,
       ft_destination_parent_revision = transfer_destination_parent_of source,
       ft_content_sha256 = replicate kFileTransferDigestBytes 0,
       ft_request_token = replicate kFileTransferRequestTokenBytes 0, ft_content_bytes = 0,
       ft_stream_reason = No_stream_reason, ft_content_proof = False,
       ft_strategy = (if kind = Copy_transfer then Copy_stream else Move_undecided),
       ft_source_location = Source_original, ft_destination_state = Destination_absent,
       ft_overwrite_snapshot = empty_snapshot, ft_backup_snapshot = empty_snapshot,
       ft_overwrite_state = Overwrite_none\<rparr>)"

definition new_transfer_transaction ::
  "FileTransferKind \<Rightarrow> FileTransferSource list \<Rightarrow> u64 \<Rightarrow> FileTransferTransaction"
where
  "new_transfer_transaction kind sources operation_id =
     \<lparr>ft_version = kFileTransferTransactionVersion, ft_operation_id = operation_id, ft_kind = kind,
      ft_phase = Transfer_prepared, ft_step = No_transfer_step, ft_index = 0,
      ft_evidence = Evidence_none, ft_failure = Success, ft_failure_evidence = Evidence_none,
      ft_detail = [],
      ft_items = map (\<lambda>(index, source). prepare_transfer_item kind operation_id index source)
        (enumerate 0 sources), ft_cancelled = False\<rparr>"

definition prepare_file_transfer_transaction ::
  "FileTransferKind \<Rightarrow> FileTransferSource list \<Rightarrow> u64 \<Rightarrow> string + FileTransferTransaction"
where
  "prepare_file_transfer_transaction kind sources operation_id =
     (if sources = [] \<or> kMaximumFileTransferItems < length sources \<or> operation_id = 0 then
        Inl ''file-transfer sources are invalid''
      else let t = new_transfer_transaction kind sources operation_id in
        case valid_file_transfer_transaction t of
          Inl detail \<Rightarrow> Inl detail
        | Inr _ \<Rightarrow> sum_bind (encode_file_transfer_transaction t) (\<lambda>_. Inr t))"

end
