(* ===== verification/File_Transfer_Safety.thy ===== *)
theory File_Transfer_Safety
  imports File_Transfer_Record
begin

text \<open>
  What holds of the file transfer record: the binary format is canonical, and a valid record tells
  how far the transfer has come and that no source is given up before its content has arrived.
\<close>

section \<open>The format of an item\<close>

text \<open>What the decoder requires of an item, and what it does not store: the backup path and, before
  version 6, the overwrite state are computed.\<close>

definition transfer_item_canonical :: "u32 \<Rightarrow> u64 \<Rightarrow> nat \<Rightarrow> FileTransferItem \<Rightarrow> bool" where
  "transfer_item_canonical version operation_id index item \<longleftrightarrow>
     list_all valid_utf8_no_nul (transfer_texts item) \<and>
     length (ft_content_sha256 item) = kFileTransferDigestBytes \<and>
     length (ft_request_token item) = kFileTransferRequestTokenBytes \<and>
     ft_overwrite_backup item =
       file_transfer_overwrite_backup_path (ft_destination item) operation_id index"

definition transfer_item_storable :: "u32 \<Rightarrow> FileTransferItem \<Rightarrow> bool" where
  "transfer_item_storable version item \<longleftrightarrow>
     list_all string_fits (transfer_item_strings version item) \<and>
     (version < 5 \<longrightarrow> ft_overwrite_snapshot item = empty_snapshot) \<and>
     (version < 6 \<longrightarrow> ft_backup_snapshot item = empty_snapshot \<and>
        ft_overwrite_state item =
          (if snapshot_empty (ft_overwrite_snapshot item) then Overwrite_none else Overwrite_authorized))"

lemma dec_texts_iff:
  "dec_transfer_texts bs = Some (texts, rest) \<longleftrightarrow>
     length texts = 11 \<and> list_all string_fits texts \<and> list_all valid_utf8_no_nul texts \<and>
     bs = concat (map append_string texts) @ rest"
proof
  assume "dec_transfer_texts bs = Some (texts, rest)"
  then show "length texts = 11 \<and> list_all string_fits texts \<and> list_all valid_utf8_no_nul texts \<and>
      bs = concat (map append_string texts) @ rest"
    by (auto simp: dec_transfer_texts_def bind_Some_iff list_all_iff split: if_splits
        dest: string_codec.enc_dec_many)
next
  assume "length texts = 11 \<and> list_all string_fits texts \<and> list_all valid_utf8_no_nul texts \<and>
      bs = concat (map append_string texts) @ rest"
  then show "dec_transfer_texts bs = Some (texts, rest)"
    using string_codec.dec_many_enc [of texts rest]
    by (auto simp: dec_transfer_texts_def list_all_iff)
qed

lemma dec_digest_iff:
  "dec_many read_integer n bs = Some (xs :: byte list, rest) \<longleftrightarrow>
     length xs = n \<and> bs = concat (map append_integer xs) @ rest"
  using byte_codec.dec_many_enc [of xs rest] byte_codec.enc_dec_many [of n bs xs rest] by auto

lemma dec_since_iff:
  "dec_snapshot_since minimum version bs = Some (s, rest) \<longleftrightarrow>
     (if minimum \<le> version then string_fits (source_revision_utf8 s) \<and> bs = enc_snapshot s @ rest
      else s = empty_snapshot \<and> bs = rest)"
  by (auto simp: dec_snapshot_since_def snapshot_codec.dec_Some_iff)

lemma stamped_stamp [simp]: "stamped (stamp s) (source_revision_utf8 s) = s"
  by (simp add: stamped_def stamp_def)

lemma stamp_stamped [simp]:
  "stamp (stamped n revision) = n" "source_revision_utf8 (stamped n revision) = revision"
  by (cases n; simp add: stamped_def stamp_def)+

lemma overwrite_byte_code [simp]:
  "6 \<le> version \<Longrightarrow> overwrite_byte_ok version (enum_code overwrite_states s)"
  "\<not> 6 \<le> version \<Longrightarrow> overwrite_byte_ok version 0"
  by (simp_all add: overwrite_byte_ok_def)

lemma eleven_texts:
  assumes "length texts = 11"
  shows "texts = [texts ! 0, texts ! 1, texts ! 2, texts ! 3, texts ! 4, texts ! 5, texts ! 6,
    texts ! 7, texts ! 8, texts ! 9, texts ! 10]"
proof -
  have "texts = map ((!) texts) [0..<11]" by (metis assms map_nth)
  also have "[0..<11] = [0, 1, 2, 3, 4, 5, 6, 7, 8, 9, 10]" by (simp add: upt_rec)
  finally show ?thesis by simp
qed

lemma dec_enc_transfer_item:
  assumes "transfer_item_canonical version operation_id index item"
    and "transfer_item_storable version item"
  shows "dec_transfer_item version operation_id index (enc_transfer_item version item @ rest) =
    Inr (item, rest)"
proof -
  define low where "low = (if 6 \<le> version then enc_snapshot (ft_backup_snapshot item) else []) @ rest"
  define high where
    "high = (if 5 \<le> version then enc_snapshot (ft_overwrite_snapshot item) else []) @ low"
  note ok = assms [unfolded transfer_item_canonical_def transfer_item_storable_def]
  have codes: "dec_transfer_codes version (enc_transfer_codes (transfer_codes_of version item) @ bs) =
      Some (transfer_codes_of version item, bs)" for bs
    by (intro transfer_codes.dec_enc) (auto simp: transfer_codes_of_def transfer_codes_ok_def)
  have texts: "dec_transfer_texts (concat (map append_string (transfer_texts item)) @ high) =
      Some (transfer_texts item, high)"
    using ok by (subst dec_texts_iff) (auto simp: transfer_texts_def transfer_item_strings_def)
  have overwrite: "dec_snapshot_since 5 version high = Some (ft_overwrite_snapshot item, low)"
    using ok by (subst dec_since_iff) (auto simp: high_def transfer_item_strings_def not_le)
  have backup: "dec_snapshot_since 6 version low = Some (ft_backup_snapshot item, rest)"
    using ok by (subst dec_since_iff) (auto simp: low_def transfer_item_strings_def not_le)
  have digest: "dec_many read_integer kFileTransferDigestBytes
      (concat (map append_integer (ft_content_sha256 item)) @ bs) = Some (ft_content_sha256 item, bs)" for bs
    using ok by (simp add: dec_digest_iff)
  have token: "dec_many read_integer kFileTransferRequestTokenBytes
      (concat (map append_integer (ft_request_token item)) @ bs) = Some (ft_request_token item, bs)" for bs
    using ok by (simp add: dec_digest_iff)
  have item: "transfer_item_from version operation_id index (transfer_codes_of version item)
      (transfer_numbers_of item) (ft_content_sha256 item) (ft_request_token item)
      (transfer_texts item) (ft_overwrite_snapshot item) (ft_backup_snapshot item) = item"
    using ok by (simp add: transfer_item_from_def transfer_codes_of_def transfer_numbers_of_def
        transfer_texts_def not_le)
  show ?thesis
    unfolding dec_transfer_item_def enc_transfer_item_def append_assoc high_def [symmetric]
      low_def [symmetric]
    by (simp add: codes transfer_numbers.dec_enc digest token texts overwrite backup item)
qed

lemma enc_dec_transfer_item:
  assumes "dec_transfer_item version operation_id index bs = Inr (item, rest)"
  shows "transfer_item_canonical version operation_id index item \<and>
    transfer_item_storable version item \<and> bs = enc_transfer_item version item @ rest"
proof -
  from assms obtain codes bs1 numbers bs2 digest bs3 token bs4 texts bs5 overwrite bs6 backup
    where codes: "dec_transfer_codes version bs = Some (codes, bs1)"
      and numbers: "dec_transfer_numbers bs1 = Some (numbers, bs2)"
      and digest: "dec_many read_integer kFileTransferDigestBytes bs2 = Some (digest, bs3)"
      and token: "dec_many read_integer kFileTransferRequestTokenBytes bs3 = Some (token, bs4)"
      and texts: "dec_transfer_texts bs4 = Some (texts, bs5)"
      and overwrite: "dec_snapshot_since 5 version bs5 = Some (overwrite, bs6)"
      and backup: "dec_snapshot_since 6 version bs6 = Some (backup, rest)"
      and item: "item = transfer_item_from version operation_id index codes numbers digest token texts
        overwrite backup"
    unfolding dec_transfer_item_def
    by (auto simp: bind_Some_iff split: option.split_asm)
  obtain strategy location state reason proof_present reserved8 where c:
    "codes = (strategy, location, state, reason, proof_present, reserved8)" by (cases codes)
  obtain origin current destination content where n:
    "numbers = (origin, current, destination, content)" by (cases numbers)
  have codes_ok: "overwrite_byte_ok version reserved8" and bs: "bs = enc_transfer_codes codes @ bs1"
    using transfer_codes.enc_dec [OF codes] by (auto simp: c transfer_codes_ok_def)
  have bs1: "bs1 = enc_transfer_numbers numbers @ bs2"
    using transfer_numbers.enc_dec [OF numbers] by simp
  have t: "length texts = 11" "list_all string_fits texts" "list_all valid_utf8_no_nul texts"
    and bs4: "bs4 = concat (map append_string texts) @ bs5"
    using texts by (simp_all add: dec_texts_iff)
  have texts_of: "transfer_texts item = texts"
    by (subst eleven_texts [OF t(1)]) (simp add: item transfer_item_from_def c n transfer_texts_def)
  have code: "(if 6 \<le> version then enum_code overwrite_states (ft_overwrite_state item) else 0) = reserved8"
    using codes_ok
    by (auto simp: overwrite_byte_ok_def item transfer_item_from_def c n enum_of_iff split: if_splits)
  have codes_of: "transfer_codes_of version item = codes"
    using code by (simp add: transfer_codes_of_def) (simp add: item transfer_item_from_def c n)
  have numbers_of: "transfer_numbers_of item = numbers"
    by (simp add: transfer_numbers_of_def item transfer_item_from_def c n)
  have fields: "ft_content_sha256 item = digest" "ft_request_token item = token"
    "ft_overwrite_snapshot item = overwrite" "ft_backup_snapshot item = backup"
    "ft_overwrite_backup item =
       file_transfer_overwrite_backup_path (ft_destination item) operation_id index"
    "\<not> 6 \<le> version \<Longrightarrow> ft_overwrite_state item =
       (if snapshot_empty overwrite then Overwrite_none else Overwrite_authorized)"
    by (simp_all add: item transfer_item_from_def c n)
  have canonical: "transfer_item_canonical version operation_id index item"
    using t digest token
    by (simp add: transfer_item_canonical_def texts_of fields dec_digest_iff)
  have storable: "transfer_item_storable version item"
    using t overwrite backup
    by (auto simp: transfer_item_storable_def transfer_item_strings_def texts_of fields dec_since_iff
        not_le split: if_splits)
  have "bs = enc_transfer_item version item @ rest"
    using digest token overwrite backup
    by (simp add: enc_transfer_item_def codes_of numbers_of texts_of fields bs bs1 bs4 dec_digest_iff
        dec_since_iff split: if_splits)
  with canonical storable show ?thesis by blast
qed

section \<open>The format of a transaction\<close>

definition items_canonical :: "u32 \<Rightarrow> u64 \<Rightarrow> nat \<Rightarrow> FileTransferItem list \<Rightarrow> bool" where
  "items_canonical version operation_id index items \<longleftrightarrow>
     list_all (\<lambda>(index, item). transfer_item_canonical version operation_id index item)
       (enumerate index items)"

lemma items_canonical_simps [simp]:
  "items_canonical version operation_id index []"
  "items_canonical version operation_id index (item # items) \<longleftrightarrow>
     transfer_item_canonical version operation_id index item \<and>
     items_canonical version operation_id (Suc index) items"
  by (simp_all add: items_canonical_def)

lemma dec_transfer_items_iff:
  "dec_transfer_items version operation_id index n bs = Inr (items, rest) \<longleftrightarrow>
     length items = n \<and> items_canonical version operation_id index items \<and>
     list_all (transfer_item_storable version) items \<and>
     bs = concat (map (enc_transfer_item version) items) @ rest"
proof (induction n arbitrary: index bs items)
  case 0
  then show ?case by auto
next
  case (Suc n)
  show ?case
  proof
    assume "dec_transfer_items version operation_id index (Suc n) bs = Inr (items, rest)"
    then obtain item bs1 tail where "dec_transfer_item version operation_id index bs = Inr (item, bs1)"
      "dec_transfer_items version operation_id (Suc index) n bs1 = Inr (tail, rest)"
      "items = item # tail"
      by (auto simp: sum_bind_Inr_iff split: prod.splits)
    with enc_dec_transfer_item [OF this(1)] Suc.IH
    show "length items = Suc n \<and> items_canonical version operation_id index items \<and>
      list_all (transfer_item_storable version) items \<and>
      bs = concat (map (enc_transfer_item version) items) @ rest" by simp
  next
    assume r: "length items = Suc n \<and> items_canonical version operation_id index items \<and>
      list_all (transfer_item_storable version) items \<and>
      bs = concat (map (enc_transfer_item version) items) @ rest"
    then obtain item tail where items: "items = item # tail" by (cases items) auto
    have "dec_transfer_items version operation_id (Suc index) n
        (concat (map (enc_transfer_item version) tail) @ rest) = Inr (tail, rest)"
      using r items by (subst Suc.IH) simp
    with r items show "dec_transfer_items version operation_id index (Suc n) bs = Inr (items, rest)"
      by (simp add: dec_enc_transfer_item)
  qed
qed

lemma dec_enc_transfer_header:
  assumes "ft_items t \<noteq> []" "length (ft_items t) \<le> kMaximumFileTransferItems"
    and "string_fits (ft_detail t)" "valid_transaction_version (ft_version t)"
    and "ft_cancelled t \<Longrightarrow> 5 \<le> ft_version t"
  shows "dec_transfer_header (enc_transfer_header t @ rest) =
    Some ((t\<lparr>ft_items := []\<rparr>, length (ft_items t)), rest)"
proof -
  have count: "unat (word_of_nat (length (ft_items t)) :: u32) = length (ft_items t)"
    using assms(2) by (simp add: kMaximumFileTransferItems_def unat_of_nat take_bit_eq_mod)
  with assms(1) have "(word_of_nat (length (ft_items t)) :: u32) \<noteq> 0"
    by (metis length_0_conv unat_eq_0)
  moreover have "cancelled_flag_ok (ft_version t) (if ft_cancelled t then 1 else 0)"
    using assms(5) by (simp add: cancelled_flag_ok_def)
  ultimately show ?thesis
    using assms count
    by (simp add: dec_transfer_header_def enc_transfer_header_def byte_codec.dec_enc
        u16_codec.dec_enc u32_codec.dec_enc u64_codec.dec_enc string_codec.dec_enc not_less)
qed

lemma cancelled_flag:
  assumes "cancelled_flag_ok version b"
  shows "(if b \<noteq> 0 then 1 else 0) = b"
proof -
  from assms have "unat b \<le> 1"
    by (auto simp: cancelled_flag_ok_def word_le_nat_alt split: if_split_asm)
  then have "unat b = 0 \<or> unat b = 1" by arith
  then show ?thesis by (metis unat_eq_0 unsigned_1 word_unat_eq_iff)
qed

lemma enc_dec_transfer_header:
  assumes "dec_transfer_header bs = Some ((t, n), rest)" "length items = n"
  shows "bs = enc_transfer_header (t\<lparr>ft_items := items\<rparr>) @ rest \<and> ft_items t = [] \<and>
    0 < n \<and> n \<le> kMaximumFileTransferItems \<and> string_fits (ft_detail t)"
proof -
  have count: "w = word_of_nat m" if "unat w = m" for w :: u32 and m
    using that by auto
  have "0 < n \<and> n \<le> kMaximumFileTransferItems"
    using assms(1)
    by (auto simp: dec_transfer_header_def bind_Some_iff unat_gt_0 not_less split: if_split_asm)
  with assms show ?thesis
    by (auto simp: dec_transfer_header_def bind_Some_iff byte_codec.dec_Some_iff
        u16_codec.dec_Some_iff u32_codec.dec_Some_iff u64_codec.dec_Some_iff
        string_codec.dec_Some_iff enc_transfer_header_def enum_of_iff not_less split: if_split_asm
        dest!: count cancelled_flag)
qed

section \<open>What a valid record says\<close>

text \<open>An item that passed the checks of the loop, up to the sets; an item whose source is gone has its
  content at the destination.\<close>

definition transfer_item_ok :: "FileTransferTransaction \<Rightarrow> nat \<Rightarrow> FileTransferItem \<Rightarrow> bool" where
  "transfer_item_ok t index item \<longleftrightarrow> check_transfer_item t index {} {} item = Inr ()"

lemma check_transfer_item_iff:
  "check_transfer_item t index owned identities item = Inr () \<longleftrightarrow>
     transfer_item_ok t index item \<and> set (transfer_owned_paths item) \<inter> owned = {} \<and>
     transfer_identity item \<notin> identities"
proof -
  have split: "emplace_all (transfer_owned_paths item) owned = None \<longleftrightarrow>
      emplace_all (transfer_owned_paths item) {} = None \<or> set (transfer_owned_paths item) \<inter> owned \<noteq> {}"
    by (auto simp: emplace_all_Some_iff simp flip: not_Some_eq)
  consider "set (transfer_owned_paths item) \<inter> owned \<noteq> {}" | "transfer_identity item \<in> identities"
    | "set (transfer_owned_paths item) \<inter> owned = {}" "transfer_identity item \<notin> identities" by blast
  then show ?thesis
  proof cases
    case 1
    then show ?thesis by (simp add: check_transfer_item_def split)
  next
    case 2
    then show ?thesis by (simp add: check_transfer_item_def split: sum.split)
  next
    case 3
    then show ?thesis by (simp only: check_transfer_item_def transfer_item_ok_def split) simp
  qed
qed

lemma transfer_item_okD:
  assumes "transfer_item_ok t index item"
  shows "overwrite_state_ok item" "overwrite_proof_ok (ft_version t) 5 (ft_overwrite_snapshot item)"
    "overwrite_proof_ok (ft_version t) 6 (ft_backup_snapshot item)"
    "transfer_paths_ok (ft_operation_id t) index item" "distinct (transfer_owned_paths item)"
    "transfer_names_ok item = Inr ()" "source_snapshot_valid (ft_kind t) item"
    "valid_snapshot (ft_current_snapshot item)"
    "strategy_and_locations_valid (ft_kind t) item" "destination_proof_valid item"
    "ft_phase t = Transfer_prepublish_cleanup \<Longrightarrow> ft_destination_state item = Destination_published \<Longrightarrow>
       final_item (ft_kind t) item"
proof -
  note ok = assms [unfolded transfer_item_ok_def check_transfer_item_def]
  have "emplace_all (transfer_owned_paths item) {} \<noteq> None"
    using ok by (auto split: if_split_asm)
  then show "distinct (transfer_owned_paths item)" by (auto simp: emplace_all_Some_iff)
  show "overwrite_state_ok item" "overwrite_proof_ok (ft_version t) 5 (ft_overwrite_snapshot item)"
    "overwrite_proof_ok (ft_version t) 6 (ft_backup_snapshot item)"
    "transfer_paths_ok (ft_operation_id t) index item"
    using ok by (auto split: if_split_asm)
  show "transfer_names_ok item = Inr ()" "source_snapshot_valid (ft_kind t) item"
    "valid_snapshot (ft_current_snapshot item)"
    "strategy_and_locations_valid (ft_kind t) item" "destination_proof_valid item"
    using ok by (auto split: if_split_asm sum.split_asm)
  show "final_item (ft_kind t) item"
    if "ft_phase t = Transfer_prepublish_cleanup" "ft_destination_state item = Destination_published"
    using ok that by (auto split: if_split_asm sum.split_asm)
qed

text \<open>Items are worked through in order: the first \<open>k\<close> are done, one may be under way, the others have
  not been touched. \<^const>\<open>None\<close> means that all are done.\<close>

definition transfer_progress :: "FileTransferKind \<Rightarrow> FileTransferItem list \<Rightarrow> nat option \<Rightarrow> bool" where
  "transfer_progress kind items first \<longleftrightarrow>
     (case first of
        None \<Rightarrow> list_all (final_item kind) items
      | Some k \<Rightarrow> k < length items \<and> list_all (final_item kind) (take k items) \<and>
          \<not> final_item kind (items ! k) \<and> list_all (pristine_item kind) (drop (Suc k) items))"

definition items_ok :: "FileTransferTransaction \<Rightarrow> nat \<Rightarrow> FileTransferItem list \<Rightarrow> bool" where
  "items_ok t index items \<longleftrightarrow>
     list_all (\<lambda>(index, item). transfer_item_ok t index item) (enumerate index items)"

definition owned_apart :: "FileTransferItem list \<Rightarrow> bool" where
  "owned_apart items \<longleftrightarrow>
     distinct (concat (map transfer_owned_paths items)) \<and> distinct (map transfer_identity items)"

lemma check_transfer_items_Some:
  assumes "check_transfer_items t index owned identities (Some k) items = Inr result"
  shows "result = Some k \<and> list_all (pristine_item (ft_kind t)) items"
  using assms
  by (induction items arbitrary: index owned identities)
    (auto simp: Let_def split: sum.split_asm if_split_asm)

lemma check_transfer_items_None:
  assumes "check_transfer_items t index owned identities None items = Inr result"
  shows "transfer_progress (ft_kind t) items (map_option (\<lambda>k. k - index) result) \<and>
    (\<forall>k. result = Some k \<longrightarrow> index \<le> k)"
  using assms
proof (induction items arbitrary: index owned identities)
  case Nil
  then show ?case by (simp add: transfer_progress_def)
next
  case (Cons item items)
  show ?case
  proof (cases "final_item (ft_kind t) item")
    case True
    with Cons.prems have rest: "check_transfer_items t (Suc index)
        (owned \<union> set (transfer_owned_paths item)) (insert (transfer_identity item) identities) None
        items = Inr result"
      by (simp add: Let_def split: sum.split_asm)
    from Cons.IH [OF rest] True show ?thesis
    proof (cases result)
      case (Some k)
      with Cons.IH [OF rest] have "Suc index \<le> k" by simp
      then have "k - index = Suc (k - Suc index)" by simp
      with Cons.IH [OF rest] Some True show ?thesis by (simp add: transfer_progress_def)
    qed (simp add: transfer_progress_def)
  next
    case False
    with Cons.prems have "check_transfer_items t (Suc index)
        (owned \<union> set (transfer_owned_paths item)) (insert (transfer_identity item) identities)
        (Some index) items = Inr result"
      by (simp add: Let_def split: sum.split_asm)
    from check_transfer_items_Some [OF this] False show ?thesis
      by (simp add: transfer_progress_def)
  qed
qed

lemma check_transfer_items_apart:
  assumes "check_transfer_items t index owned identities first items = Inr result"
  shows "items_ok t index items \<and> owned_apart items \<and>
    set (concat (map transfer_owned_paths items)) \<inter> owned = {} \<and>
    transfer_identity ` set items \<inter> identities = {}"
  using assms
proof (induction items arbitrary: index owned identities first)
  case Nil
  then show ?case by (simp add: items_ok_def owned_apart_def)
next
  case (Cons item items)
  from Cons.prems have item: "check_transfer_item t index owned identities item = Inr ()"
    by (simp split: sum.split_asm)
  from Cons.prems item obtain first' where "check_transfer_items t (Suc index)
      (owned \<union> set (transfer_owned_paths item)) (insert (transfer_identity item) identities) first'
      items = Inr result"
    by (auto simp: Let_def split: if_split_asm)
  note IH = Cons.IH [OF this]
  have "transfer_item_ok t index item" "distinct (transfer_owned_paths item)"
    using item transfer_item_okD(5) by (auto simp: check_transfer_item_iff)
  with IH item show ?case
    by (fastforce simp: items_ok_def owned_apart_def check_transfer_item_iff)
qed

lemma valid_transferD:
  assumes "valid_file_transfer_transaction t = Inr ()"
  obtains first where "check_transfer_items t 0 {} {} None (ft_items t) = Inr first"
    "transfer_progress (ft_kind t) (ft_items t) first"
    "ft_phase t = Transfer_completed \<longleftrightarrow> first = None"
    "ft_step t \<noteq> No_transfer_step \<Longrightarrow> first = Some (unat (ft_index t))"
    "\<not> overwrite_aliases_source (ft_items t)" "transfer_step_matches t"
    "ft_phase t = Transfer_prepared \<Longrightarrow> list_all (pristine_item (ft_kind t)) (ft_items t)"
    "valid_transaction_version (ft_version t)" "ft_items t \<noteq> []"
    "length (ft_items t) \<le> kMaximumFileTransferItems" "ft_cancelled t \<Longrightarrow> 5 \<le> ft_version t"
proof -
  note v = assms [unfolded valid_file_transfer_transaction_def]
  from v obtain first where first: "check_transfer_items t 0 {} {} None (ft_items t) = Inr first"
    by (auto split: if_split_asm sum.split_asm)
  note v = v [unfolded first, simplified]
  show thesis
  proof (rule that [OF first])
    show "transfer_progress (ft_kind t) (ft_items t) first"
      using check_transfer_items_None [OF first] by (simp add: map_option.identity [unfolded id_def])
    show "ft_phase t = Transfer_completed \<longleftrightarrow> first = None"
      "\<not> overwrite_aliases_source (ft_items t)" "transfer_step_matches t"
      "valid_transaction_version (ft_version t)" "ft_items t \<noteq> []"
      "length (ft_items t) \<le> kMaximumFileTransferItems"
      using v by (auto split: if_split_asm)
    show "5 \<le> ft_version t" if "ft_cancelled t" using v that by (auto split: if_split_asm)
    show "list_all (pristine_item (ft_kind t)) (ft_items t)" if "ft_phase t = Transfer_prepared"
      using v that by (auto split: if_split_asm)
    show "first = Some (unat (ft_index t))" if "ft_step t \<noteq> No_transfer_step"
      using v that by (auto split: if_split_asm option.split_asm)
  qed
qed

lemma valid_transfer_items:
  assumes "valid_file_transfer_transaction t = Inr ()"
  shows "items_ok t 0 (ft_items t)" "owned_apart (ft_items t)"
  by (rule valid_transferD [OF assms]; use check_transfer_items_apart in blast)+

lemma items_ok_mem:
  assumes "items_ok t index items" "item \<in> set items"
  obtains i where "transfer_item_ok t i item"
proof -
  from assms(2) obtain k where k: "k < length items" "item = items ! k"
    by (metis in_set_conv_nth)
  then have "(index + k, item) \<in> set (enumerate index items)"
    by (auto simp: in_set_enumerate_eq)
  with assms(1) that show thesis by (auto simp: items_ok_def list_all_iff)
qed

lemma snapshot_empty_iff: "snapshot_empty s \<longleftrightarrow> s = empty_snapshot"
  by (cases s) (simp add: snapshot_empty_def empty_snapshot_def)

lemma storable_if_ok:
  assumes "transfer_item_ok t index item"
    and "list_all string_fits (transfer_item_strings (ft_version t) item)"
  shows "transfer_item_storable (ft_version t) item"
proof -
  note ok = transfer_item_okD [OF assms(1)]
  have "snapshot_empty (ft_overwrite_snapshot item)" if "ft_version t < 5"
    using ok(2) that by (auto simp: overwrite_proof_ok_def)
  moreover have "snapshot_empty (ft_backup_snapshot item)" if "ft_version t < 6"
    using ok(3) that by (auto simp: overwrite_proof_ok_def)
  moreover have "ft_overwrite_state item =
      (if snapshot_empty (ft_overwrite_snapshot item) then Overwrite_none else Overwrite_authorized)"
    if "snapshot_empty (ft_backup_snapshot item)"
    using ok(1) that
    by (cases "ft_overwrite_state item") (auto simp: overwrite_state_ok_def Let_def)
  ultimately show ?thesis
    using assms(2) by (auto simp: transfer_item_storable_def snapshot_empty_iff)
qed

section \<open>The format is canonical\<close>

text \<open>What is left to ask of a record that is to be read back: UTF-8 texts, arrays of the right length
  and the backup path in the form in which it is computed.\<close>

definition transfer_canonical :: "FileTransferTransaction \<Rightarrow> bool" where
  "transfer_canonical t \<longleftrightarrow>
     valid_utf8_no_nul (ft_detail t) \<and>
     items_canonical (ft_version t) (ft_operation_id t) 0 (ft_items t)"

lemma encode_transfer_iff:
  "encode_file_transfer_transaction t = Inr bytes \<longleftrightarrow>
     valid_file_transfer_transaction t = Inr () \<and> transfer_strings_fit t \<and>
     length bytes \<le> kMaximumCurrentOperationPayloadBytes \<and> bytes = transfer_payload t"
  by (auto simp: encode_file_transfer_transaction_def split: sum.split if_splits)

lemma decode_transfer_iff:
  "decode_file_transfer_transaction bytes = Inr t \<longleftrightarrow>
     length bytes \<le> kMaximumCurrentOperationPayloadBytes \<and> dec_transfer bytes = Inr (t, []) \<and>
     valid_utf8_no_nul (ft_detail t) \<and> valid_file_transfer_transaction t = Inr ()"
proof (cases "dec_transfer bytes")
  case (Inr r)
  obtain u rest where "r = (u, rest)" by (cases r)
  with Inr show ?thesis
    by (cases "valid_file_transfer_transaction u") (auto simp: decode_file_transfer_transaction_def)
qed (simp add: decode_file_transfer_transaction_def)

lemma dec_transfer_payload:
  assumes "valid_file_transfer_transaction t = Inr ()" "transfer_strings_fit t" "transfer_canonical t"
  shows "dec_transfer (transfer_payload t) = Inr (t, [])"
proof -
  have storable: "list_all (transfer_item_storable (ft_version t)) (ft_items t)"
    unfolding list_all_iff
  proof
    fix item assume item: "item \<in> set (ft_items t)"
    obtain i where "transfer_item_ok t i item"
      by (rule items_ok_mem [OF valid_transfer_items(1) [OF assms(1)] item])
    with assms(2) item show "transfer_item_storable (ft_version t) item"
      by (intro storable_if_ok) (auto simp: transfer_strings_fit_def list_all_iff)
  qed
  have "string_fits (ft_detail t)" using assms(2) by (simp add: transfer_strings_fit_def)
  from assms(1) this have header: "dec_transfer_header (enc_transfer_header t @ rest) =
      Some ((t\<lparr>ft_items := []\<rparr>, length (ft_items t)), rest)" for rest
    by (rule_tac valid_transferD [OF assms(1)]) (rule dec_enc_transfer_header)
  have "dec_transfer_items (ft_version t) (ft_operation_id t) 0 (length (ft_items t))
      (concat (map (enc_transfer_item (ft_version t)) (ft_items t))) = Inr (ft_items t, [])"
    using storable assms(3) by (subst dec_transfer_items_iff) (simp add: transfer_canonical_def)
  then show ?thesis by (simp add: dec_transfer_def transfer_payload_def header)
qed

lemma payload_dec_transfer:
  assumes "dec_transfer bytes = Inr (t, [])" "valid_utf8_no_nul (ft_detail t)"
  shows "bytes = transfer_payload t \<and> transfer_strings_fit t \<and> transfer_canonical t"
proof -
  from assms(1) obtain t0 n bs items where header: "dec_transfer_header bytes = Some ((t0, n), bs)"
    and items: "dec_transfer_items (ft_version t0) (ft_operation_id t0) 0 n bs = Inr (items, [])"
    and t: "t = t0\<lparr>ft_items := items\<rparr>"
    by (auto simp: dec_transfer_def sum_bind_Inr_iff split: option.splits)
  from items have many: "length items = n"
    "items_canonical (ft_version t0) (ft_operation_id t0) 0 items"
    "list_all (transfer_item_storable (ft_version t0)) items"
    "bs = concat (map (enc_transfer_item (ft_version t0)) items)"
    by (simp_all add: dec_transfer_items_iff)
  from enc_dec_transfer_header [OF header many(1)] many assms(2) show ?thesis
    by (auto simp: t transfer_payload_def transfer_strings_fit_def transfer_canonical_def
        transfer_item_storable_def list_all_iff)
qed

end
