(* ===== verification/File_Transfer_Properties.thy ===== *)
theory File_Transfer_Properties
  imports File_Transfer_Safety
begin

text \<open>What holds of the file transfer record, with an example each property applies to.\<close>

section \<open>An example\<close>

text \<open>A move of two files to another device: the first has arrived, of the second the content is ready to
  be published over an object that was set aside.\<close>

definition example_revision :: "string \<Rightarrow> SourceSnapshot" where
  "example_revision object =
     \<lparr>size_bytes = 2, modified_unix_ns = 4, source_revision_utf8 = ''posix:1:'' @ object @ '':6''\<rparr>"

definition example_moved :: "nat \<Rightarrow> string \<Rightarrow> string \<Rightarrow> string \<Rightarrow> FileTransferItem" where
  "example_moved index name object copied =
     (prepare_transfer_item Move_transfer 7 index
       \<lparr>transfer_path_of = ''/d/'' @ name, transfer_destination_of = ''/e/'' @ name,
        transfer_snapshot_of = example_revision object,
        transfer_source_parent_of = ''posix:1:8:6'', transfer_destination_parent_of = ''posix:2:8:6'',
        transfer_overwrite_of = empty_snapshot\<rparr>)
     \<lparr>ft_strategy := Move_stream, ft_stream_reason := Cross_device_no_commit,
      ft_destination_snapshot := example_revision copied, ft_content_bytes := 2,
      ft_content_proof := True, ft_content_sha256 := replicate 32 3, ft_request_token := replicate 16 1\<rparr>"

definition example_transfer :: FileTransferTransaction where
  "example_transfer =
     (new_transfer_transaction Move_transfer [] 7)
     \<lparr>ft_phase := Transfer_processing, ft_step := Publish_temp, ft_index := 1,
      ft_items :=
        [(example_moved 0 ''a'' ''5'' ''15'')
           \<lparr>ft_source_location := Source_removed, ft_destination_state := Destination_published\<rparr>,
         (example_moved 1 ''b'' ''6'' ''16'')
           \<lparr>ft_source_location := Source_staged, ft_destination_state := Content_ready,
            ft_overwrite_snapshot := example_revision ''17'',
            ft_backup_snapshot := example_revision ''17'',
            ft_overwrite_state := Overwrite_evacuated\<rparr>]\<rparr>"

lemma example_transfer_valid: "valid_file_transfer_transaction example_transfer = Inr ()"
  by code_simp

section \<open>Properties\<close>

text \<open>C25: The format of the transfer record is canonical: the decoder accepts exactly the bytes that the
  encoder writes for the record it returns, in every version, provided the record's texts are
  UTF-8, its digests and tokens have their length and the backup paths are spelled as computed.\<close>

theorem transfer_record_canonical:
  "decode_file_transfer_transaction bytes = Inr t \<longleftrightarrow>
     encode_file_transfer_transaction t = Inr bytes \<and> transfer_canonical t"
  unfolding decode_transfer_iff encode_transfer_iff
  using dec_transfer_payload [of t] payload_dec_transfer [of bytes t]
  by (auto simp: transfer_canonical_def)



text \<open>C24: A valid transfer record works through its items in order: the items before the current one are
  final, those after it untouched; the transfer is complete exactly when there is no current item,
  and a step is recorded only for the current one. No two of the paths that it uses, over all items
  and for all roles, are the same, no two sources are one object, and no object to be overwritten is
  a source.\<close>

theorem valid_transfer_in_order:
  assumes "valid_file_transfer_transaction t = Inr ()"
  shows "owned_apart (ft_items t) \<and> \<not> overwrite_aliases_source (ft_items t) \<and>
    (\<exists>current. transfer_progress (ft_kind t) (ft_items t) current \<and>
       (ft_phase t = Transfer_completed \<longleftrightarrow> current = None) \<and>
       (ft_step t \<noteq> No_transfer_step \<longrightarrow> current = Some (unat (ft_index t))))"
  by (rule valid_transferD [OF assms]) (use valid_transfer_items(2) [OF assms] in blast)

lemma valid_transfer_in_order_witness:
  "transfer_progress Move_transfer (ft_items example_transfer) (Some 1)"
proof -
  have "ft_step example_transfer \<noteq> No_transfer_step" "ft_index example_transfer = 1"
    "ft_kind example_transfer = Move_transfer"
    by (simp_all add: example_transfer_def new_transfer_transaction_def)
  with valid_transfer_in_order [OF example_transfer_valid] show ?thesis by auto
qed

end
