(* ===== verification/File_Transfer_Protocol.thy ===== *)
theory File_Transfer_Protocol
  imports File_Transfer_Record
begin

text \<open>
  The messages between the file transfer service and its helper:
  \<open>src/Source/src/fileops/file_transfer_protocol.cpp\<close> and its header. A request asks for a new temporary
  file, for one to be continued, or for an existing file to be examined; the helper answers with the
  reservation of the temporary file, and with the result when its content has been written.
\<close>

section \<open>Data\<close>

datatype FileTransferStreamMode = Reserve_new | Resume_existing | Audit_existing | Probe_reservation

datatype FileTransferMessageKind = Message_reservation | Message_progress | Message_complete

record FileTransferStreamRequest =
  stream_operation_id :: u64
  stream_item_index :: u32
  stream_token :: "byte list"
  stream_mode :: FileTransferStreamMode
  stream_source :: path
  stream_temp_destination :: path
  stream_expected_source :: SourceSnapshot
  stream_expected_temp :: SourceSnapshot
  stream_source_parent :: string
  stream_destination_parent :: string
  stream_anchor_path :: path
  stream_anchor_identity :: string

record FileTransferReservation =
  reserved_operation_id :: u64
  reserved_item_index :: u32
  reserved_token :: "byte list"
  reserved_temp_snapshot :: SourceSnapshot
  reserved_parent_identity :: string
  reserved_parent_revision :: string

record FileTransferReservationAck =
  ack_operation_id :: u64
  ack_item_index :: u32
  ack_token :: "byte list"
  ack_accepted :: bool

record FileTransferProgress =
  streamed_operation_id :: u64
  streamed_item_index :: u32
  streamed_token :: "byte list"
  streamed_bytes_written :: u64

record FileTransferStreamResult =
  streamed_result_id :: u64
  streamed_result_index :: u32
  streamed_result_token :: "byte list"
  streamed_status :: OperationStatus
  streamed_evidence :: OperationEvidence
  streamed_platform_code :: i64
  streamed_source :: SourceSnapshot
  streamed_temp :: SourceSnapshot
  streamed_sha256 :: "byte list"
  streamed_bytes :: u64
  streamed_detail :: string

definition kFileTransferProtocolVersion :: u32 where "kFileTransferProtocolVersion = 7"
definition kMaximumFileTransferProtocolBytes :: nat where "kMaximumFileTransferProtocolBytes = 64 * 1024"
definition kFileTransferReservationMarkerBytes :: nat where "kFileTransferReservationMarkerBytes = 40"
definition reservationMarkerVersion :: u32 where "reservationMarkerVersion = 1"

definition reservationMarkerMagic :: "byte list" where
  "reservationMarkerMagic = [0x56, 0x4F, 0x56, 0x45, 0x2D, 0x52, 0x53, 0x56]"

definition streamed_ok :: "FileTransferStreamResult \<Rightarrow> bool" where
  "streamed_ok result \<longleftrightarrow> streamed_status result = Success"

section \<open>The marker of a reservation\<close>

definition make_file_transfer_reservation_marker :: "u64 \<Rightarrow> u32 \<Rightarrow> byte list \<Rightarrow> byte list" where
  "make_file_transfer_reservation_marker operation_id item_index token =
     reservationMarkerMagic @ append_integer reservationMarkerVersion @ append_integer operation_id @
     append_integer item_index @ token"

definition matches_file_transfer_reservation_marker ::
  "byte list \<Rightarrow> u64 \<Rightarrow> u32 \<Rightarrow> byte list \<Rightarrow> bool"
where
  "matches_file_transfer_reservation_marker marker operation_id item_index token \<longleftrightarrow>
     length marker = kFileTransferReservationMarkerBytes \<and>
     marker = make_file_transfer_reservation_marker operation_id item_index token"

end
