(* ===== verification/Transfer_Coordinator.thy ===== *)
theory Transfer_Coordinator
  imports File_Transfer_Protocol Coordinator_Base Sha256
begin

text \<open>
  The coordinator of a file transfer: \<open>src/Source/src/fileops/file_transfer_coordinator.cpp\<close>, for copies and
  moves of files (the copy of one leaf of a directory transfer, which shares the steps, is not
  modelled: no \<open>active_directory_leaf_request\<close>). A move is tried as one rename and otherwise streamed:
  the source is set aside, its content copied to a temporary file, the temporary file published, the
  source removed. An object that is overwritten is set aside first. Whatever is done is announced in
  the journal; a failure before publication is cleaned up, a step whose outcome is open is kept.
\<close>

section \<open>Results\<close>

datatype FileTransferRunStatus =
    Transfer_success | Transfer_partial_failure | Transfer_invalid_request | Transfer_unsupported
  | Transfer_recovery_required | Transfer_journal_error | Transfer_stopped | Transfer_cancelled

datatype FileTransferConflictDecision = Create_copy | Overwrite_destination | Cancel_transfer

record FileTransferProgressUpdate =
  transfer_progress_phase :: FileTransferPhase
  transfer_progress_step :: FileTransferStep
  transfer_progress_completed :: nat
  transfer_progress_total :: nat
  transfer_progress_index :: nat
  transfer_progress_bytes :: u64
  transfer_progress_bytes_total :: u64
  transfer_progress_source :: path
  transfer_progress_destination :: path

record FileTransferResult =
  transfer_status :: FileTransferRunStatus
  transfer_operation_status :: OperationStatus
  transfer_evidence :: OperationEvidence
  transfer_completed :: nat
  transfer_total :: nat
  transfer_failed_index :: "nat option"
  transfer_destinations :: "path list"
  transfer_detail :: string

datatype TransferOutcome =
    Outcome_committed | Outcome_clean_failure | Outcome_recovery_required | Outcome_journal_error
  | Outcome_stopped

record TransferStep =
  outcome :: TransferOutcome
  outcome_status :: OperationStatus
  outcome_evidence :: OperationEvidence
  outcome_detail :: string

definition transfer_step_result ::
  "TransferOutcome \<Rightarrow> OperationStatus \<Rightarrow> OperationEvidence \<Rightarrow> string \<Rightarrow> TransferStep"
where
  "transfer_step_result result st known detail =
     \<lparr>outcome = result, outcome_status = st, outcome_evidence = known, outcome_detail = detail\<rparr>"

definition transfer_journal_failure :: "OperationEvidence \<Rightarrow> string \<Rightarrow> TransferStep" where
  "transfer_journal_failure known detail =
     transfer_step_result Outcome_journal_error Io_error known detail"

section \<open>The state\<close>

text \<open>What is asked of the services to change something, with the journal as it was then: a record
  kept for the statement of properties only.\<close>

datatype submission =
    Moves RenameRequest | Erases DeleteRequest | Streams FileTransferStreamRequest
  | Fills FileTransferStreamRequest

text \<open>\<open>decisions\<close>: what the user answers to each question, \<^const>\<open>None\<close> when the wait is ended by a stop;
  \<open>entropy\<close>: the values of \<open>std::random_device\<close>.\<close>

record 'h transfer_state = "('h, FileTransferProgressUpdate) run_state" +
  conflict_handler :: bool
  decisions :: "FileTransferConflictDecision option list"
  entropy :: "byte list"
  submissions :: "(disk \<times> submission) list"

text \<open>The services. A stream is open until its reservation, which the coordinator accepts or rejects,
  or until it fails without one; closing it gives the reports of its progress and its result. An
  audit gives a result that is accepted or not before it ends. \<open>retire_with\<close> is
  \<open>before_journal_retirement\<close>, with \<^const>\<open>None\<close> for consent.\<close>

datatype stream_answer = No_reservation | Reservation_accepted | Reservation_rejected string

datatype FileTransferAuditCommitOutcome = Audit_accepted | Audit_rejected | Audit_recovery

record 'h transfer_services =
  rename_with :: "RenameRequest \<Rightarrow> RenameAction \<Rightarrow> 'h \<Rightarrow> OperationResult \<times> 'h"
  delete_with :: "DeleteRequest \<Rightarrow> RenameAction \<Rightarrow> 'h \<Rightarrow> OperationResult \<times> 'h"
  stream_open :: "FileTransferStreamRequest \<Rightarrow> 'h \<Rightarrow> FileTransferReservation option \<times> 'h"
  stream_close ::
    "FileTransferStreamRequest \<Rightarrow> stream_answer \<Rightarrow> 'h \<Rightarrow> (u64 list \<times> FileTransferStreamResult) \<times> 'h"
  audit_open :: "FileTransferStreamRequest \<Rightarrow> 'h \<Rightarrow> FileTransferStreamResult option \<times> 'h"
  audit_close ::
    "FileTransferStreamRequest \<Rightarrow> (FileTransferAuditCommitOutcome \<times> string) option \<Rightarrow> 'h \<Rightarrow>
     FileTransferStreamResult \<times> 'h"
  retire_with :: "FileTransferTransaction \<Rightarrow> 'h \<Rightarrow> string option \<times> 'h"

definition next_accept ::
  "('h, 'p, 'z) run_state_scheme \<Rightarrow> bool \<times> ('h, 'p, 'z) run_state_scheme"
where
  "next_accept w =
     ((case accepts w of [] \<Rightarrow> True | b # _ \<Rightarrow> b), w\<lparr>accepts := tl (accepts w)\<rparr>)"

definition note_submission :: "submission \<Rightarrow> 'h transfer_state \<Rightarrow> 'h transfer_state" where
  "note_submission what w = w\<lparr>submissions := submissions w @ [(journal w, what)]\<rparr>"

section \<open>Helpers\<close>

definition completed_prefix :: "FileTransferTransaction \<Rightarrow> nat" where
  "completed_prefix t = length (takeWhile (final_item (ft_kind t)) (ft_items t))"

definition completed_destinations :: "FileTransferTransaction \<Rightarrow> path list" where
  "completed_destinations t = map ft_destination (take (completed_prefix t) (ft_items t))"

definition transfer_operation_id :: "FileTransferTransaction \<Rightarrow> FileTransferStep \<Rightarrow> nat \<Rightarrow> u64" where
  "transfer_operation_id t step index =
     (let mix = 0x9e3779b97f4a7c15;
          value = (ft_operation_id t XOR (mix * (word_of_nat index + 1)))
                    XOR push_bit 56 (ucast (enum_code transfer_steps step))
      in if value = 0 then ft_operation_id t else value)"

definition confirmed_no_commit :: "OperationResult \<Rightarrow> bool" where
  "confirmed_no_commit result \<longleftrightarrow> evidence result = No_commit"

definition mutation_committed :: "OperationResult \<Rightarrow> bool" where
  "mutation_committed result \<longleftrightarrow> status result = Success \<and> evidence result = Committed"

definition snapshot_identity_matches :: "SourceSnapshot \<Rightarrow> SourceSnapshot \<Rightarrow> bool" where
  "snapshot_identity_matches expected confirmed \<longleftrightarrow>
     stable_object_identity (source_revision_utf8 expected) \<noteq> [] \<and>
     (stable_object_identity (source_revision_utf8 expected) =
        stable_object_identity (source_revision_utf8 confirmed) \<or>
      same_object_after_rename expected confirmed)"

text \<open>\<open>snapshot_exact_matches\<close> is \<^const>\<open>same_snapshot\<close>.\<close>

text \<open>The name of a copy beside its original, with the Russian word for "copy" as UTF-8 bytes.\<close>

definition copy_mark :: string where
  "copy_mark = map (\<lambda>b. char_of (b :: nat))
     [0x5F, 0xD0, 0xBA, 0xD0, 0xBE, 0xD0, 0xBF, 0xD0, 0xB8, 0xD1, 0x8F]"

definition copy_destination_path :: "path \<Rightarrow> nat \<Rightarrow> path" where
  "copy_destination_path destination ordinal =
     path_append (parent_path destination)
       (stem destination @ copy_mark @
        (if 1 < ordinal then ''_'' @ to_chars 10 ordinal else []) @ extension destination)"

definition clear_destination_proof :: "FileTransferItem \<Rightarrow> FileTransferItem" where
  "clear_destination_proof item =
     item\<lparr>ft_destination_snapshot := empty_snapshot,
          ft_content_sha256 := replicate kFileTransferDigestBytes 0,
          ft_request_token := replicate kFileTransferRequestTokenBytes 0,
          ft_content_bytes := 0, ft_content_proof := False,
          ft_destination_state := Destination_absent\<rparr>"

definition clear_active :: "FileTransferTransaction \<Rightarrow> FileTransferTransaction" where
  "clear_active t = t\<lparr>ft_step := No_transfer_step, ft_index := 0, ft_evidence := Evidence_none\<rparr>"

definition clear_failure :: "FileTransferTransaction \<Rightarrow> FileTransferTransaction" where
  "clear_failure t =
     t\<lparr>ft_failure := Success, ft_failure_evidence := Evidence_none, ft_detail := []\<rparr>"

definition clear_overwrite :: "FileTransferItem \<Rightarrow> FileTransferItem" where
  "clear_overwrite item =
     item\<lparr>ft_overwrite_snapshot := empty_snapshot, ft_backup_snapshot := empty_snapshot,
          ft_overwrite_state := Overwrite_none\<rparr>"

definition item_at :: "FileTransferTransaction \<Rightarrow> nat \<Rightarrow> FileTransferItem" where
  "item_at t index = ft_items t ! index"

definition with_item ::
  "nat \<Rightarrow> (FileTransferItem \<Rightarrow> FileTransferItem) \<Rightarrow> FileTransferTransaction \<Rightarrow> FileTransferTransaction"
where
  "with_item index change t = t\<lparr>ft_items := (ft_items t)[index := change (item_at t index)]\<rparr>"

fun combine_bytes :: "byte list \<Rightarrow> byte list \<Rightarrow> byte list" where
  "combine_bytes (b # bs) (c # cs) = (b XOR c) # combine_bytes bs cs"
| "combine_bytes bs _ = bs"

text \<open>Sixteen random bytes, mixed with the operation and the index, never all zero.\<close>

definition new_request_token ::
  "FileTransferTransaction \<Rightarrow> nat \<Rightarrow> 'h transfer_state \<Rightarrow> byte list \<times> 'h transfer_state"
where
  "new_request_token t index w =
     (let random = take kFileTransferRequestTokenBytes
                     (entropy w @ replicate kFileTransferRequestTokenBytes 0);
          w = w\<lparr>entropy := drop kFileTransferRequestTokenBytes (entropy w)\<rparr>;
          token = combine_bytes random (append_integer (ft_operation_id t));
          token = butlast token @ [last token XOR word_of_nat index] in
      (if token_empty token then 1 # tl token else token, w))"

section \<open>The journal and the reports\<close>

definition transfer_journal :: string where
  "transfer_journal = ''file-transfer journal''"

definition persist_transfer ::
  "FileTransferTransaction \<Rightarrow> 'h transfer_state \<Rightarrow> string option \<times> 'h transfer_state"
where
  "persist_transfer t =
     persist_payload transfer_journal kind_file_transfer (encode_file_transfer_transaction t)"

definition remove_transfer_journal ::
  "'h transfer_services \<Rightarrow> FileTransferTransaction \<Rightarrow> 'h transfer_state \<Rightarrow>
   string option \<times> 'h transfer_state"
where
  "remove_transfer_journal s t w =
     (let (refusal, h) = retire_with s t (service w); w = w\<lparr>service := h\<rparr> in
      case refusal of
        Some detail \<Rightarrow> (Some detail, w\<lparr>recovery_pending := True\<rparr>)
      | None \<Rightarrow> remove_record transfer_journal w)"

definition result_for ::
  "FileTransferTransaction \<Rightarrow> FileTransferRunStatus \<Rightarrow> OperationStatus \<Rightarrow> OperationEvidence \<Rightarrow> string \<Rightarrow>
   FileTransferResult"
where
  "result_for t run st known detail =
     (let completed = completed_prefix t in
      \<lparr>transfer_status = run, transfer_operation_status = st, transfer_evidence = known,
       transfer_completed = completed, transfer_total = length (ft_items t),
       transfer_failed_index = (if completed < length (ft_items t) then Some completed else None),
       transfer_destinations = completed_destinations t, transfer_detail = detail\<rparr>)"

definition publish_progress ::
  "FileTransferTransaction \<Rightarrow> nat \<Rightarrow> FileTransferStep \<Rightarrow> u64 \<Rightarrow> 'h transfer_state \<Rightarrow> 'h transfer_state"
where
  "publish_progress t index step bytes_written w =
     (if length (ft_items t) \<le> index then w
      else w\<lparr>reported := reported w @
        [\<lparr>transfer_progress_phase = ft_phase t, transfer_progress_step = step,
          transfer_progress_completed = completed_prefix t,
          transfer_progress_total = length (ft_items t), transfer_progress_index = index,
          transfer_progress_bytes = bytes_written,
          transfer_progress_bytes_total = size_bytes (ft_original_snapshot (item_at t index)),
          transfer_progress_source = ft_source (item_at t index),
          transfer_progress_destination = ft_destination (item_at t index)\<rparr>]\<rparr>)"

section \<open>Submissions\<close>

definition action_of :: "bool \<Rightarrow> RenameAction" where
  "action_of reconcile = (if reconcile then Reconcile_only else Execute)"

definition submit_rename ::
  "'h transfer_services \<Rightarrow> RenameRequest \<Rightarrow> bool \<Rightarrow> 'h transfer_state \<Rightarrow>
   OperationResult \<times> 'h transfer_state"
where
  "submit_rename s request reconcile w =
     submit_with (rename_operation_id request) ''file operation service rejected the transfer rename''
       (rename_with s request (action_of reconcile))
       (if reconcile then w else note_submission (Moves request) w)"

definition submit_delete ::
  "'h transfer_services \<Rightarrow> DeleteRequest \<Rightarrow> bool \<Rightarrow> 'h transfer_state \<Rightarrow>
   OperationResult \<times> 'h transfer_state"
where
  "submit_delete s request reconcile w =
     submit_with (delete_operation_id request) ''file operation service rejected the transfer delete''
       (delete_with s request (action_of reconcile))
       (if reconcile then w else note_submission (Erases request) w)"

text \<open>A stream submission; \<open>commit\<close> decides on the reservation and may change the transaction. The
  result is \<^const>\<open>None\<close> when the submission is refused.\<close>

definition submit_stream ::
  "'h transfer_services \<Rightarrow> FileTransferStreamRequest \<Rightarrow>
   (FileTransferReservation \<Rightarrow> 'a \<Rightarrow> 'h transfer_state \<Rightarrow> (string option \<times> 'a) \<times> 'h transfer_state) \<Rightarrow>
   'a \<Rightarrow> 'h transfer_state \<Rightarrow>
   ((u64 list \<times> FileTransferStreamResult) option \<times> 'a) \<times> 'h transfer_state"
where
  "submit_stream s request commit x w =
     (let (accepted, w) = next_accept w in
      if \<not> accepted then ((None, x), w)
      else
        let (reservation, h) = stream_open s request (service w); w = w\<lparr>service := h\<rparr>;
            ((answer, x), w) =
              (case reservation of
                 None \<Rightarrow> ((No_reservation, x), w)
               | Some reservation \<Rightarrow>
                   (case commit reservation x w of
                      ((None, x), w) \<Rightarrow> ((Reservation_accepted, x), w)
                    | ((Some detail, x), w) \<Rightarrow> ((Reservation_rejected detail, x), w)));
            (closed, h) = stream_close s request answer (service w)
        in ((Some closed, x), w\<lparr>service := h\<rparr>))"

definition submit_audit ::
  "'h transfer_services \<Rightarrow> FileTransferStreamRequest \<Rightarrow>
   (FileTransferStreamResult \<Rightarrow> 'a \<Rightarrow> 'h transfer_state \<Rightarrow>
    ((FileTransferAuditCommitOutcome \<times> string) \<times> 'a) \<times> 'h transfer_state) \<Rightarrow>
   'a \<Rightarrow> 'h transfer_state \<Rightarrow> (FileTransferStreamResult option \<times> 'a) \<times> 'h transfer_state"
where
  "submit_audit s request commit x w =
     (let (accepted, w) = next_accept w in
      if \<not> accepted then ((None, x), w)
      else
        let (found, h) = audit_open s request (service w); w = w\<lparr>service := h\<rparr>;
            ((answer, x), w) =
              (case found of
                 None \<Rightarrow> ((None, x), w)
               | Some result \<Rightarrow>
                   (let ((answer, x), w) = commit result x w in ((Some answer, x), w)));
            (result, h) = audit_close s request answer (service w)
        in ((Some result, x), w\<lparr>service := h\<rparr>))"

section \<open>Requests\<close>

definition plain_rename ::
  "u64 \<Rightarrow> RenameMode \<Rightarrow> path \<Rightarrow> path \<Rightarrow> SourceSnapshot \<Rightarrow> string \<Rightarrow> string \<Rightarrow> SourceSnapshot \<Rightarrow> RenameRequest"
where
  "plain_rename op mode source destination expected source_parent destination_parent replaced =
     \<lparr>rename_operation_id = op, rename_action = Execute, rename_mode = mode,
      rename_object_kind = Regular_file, rename_source = source, rename_destination = destination,
      rename_expected_source = expected, rename_source_parent_identity = source_parent,
      rename_destination_parent_identity = destination_parent, rename_anchor_path = [],
      rename_anchor_identity = [], rename_expected_destination = replaced,
      rename_security_baseline = []\<rparr>"

text \<open>A record from before version 6 replaces the authorized object in the rename itself. For the steps
  that are no renames the code leaves the request as it was constructed.\<close>

definition replaces :: "FileTransferTransaction \<Rightarrow> FileTransferItem \<Rightarrow> bool" where
  "replaces t item \<longleftrightarrow> ft_version t < 6 \<and> ft_overwrite_state item = Overwrite_authorized"

definition rename_request ::
  "FileTransferTransaction \<Rightarrow> nat \<Rightarrow> FileTransferStep \<Rightarrow> RenameRequest"
where
  "rename_request t index step =
     (let item = item_at t index; op = transfer_operation_id t step index;
          replaced = (if ft_version t < 6 then ft_overwrite_snapshot item else empty_snapshot);
          here = ft_source_parent_identity item; there = ft_destination_parent_identity item in
      case step of
        Atomic_move \<Rightarrow>
          plain_rename op (if replaces t item then Transfer_atomic_replace else Transfer_atomic)
            (ft_source item) (ft_destination item) (ft_current_snapshot item) here there replaced
      | Stage_source \<Rightarrow>
          plain_rename op Transfer_stage (ft_source item) (ft_staged_source item)
            (ft_current_snapshot item) here here empty_snapshot
      | Publish_temp \<Rightarrow>
          plain_rename op (if replaces t item then Transfer_publish_replace else Transfer_publish)
            (ft_temp_destination item) (ft_destination item) (ft_destination_snapshot item)
            there there replaced
      | Restore_staged_source \<Rightarrow>
          plain_rename op Transfer_restore (ft_staged_source item) (ft_source item)
            (ft_current_snapshot item) here here empty_snapshot
      | Evacuate_overwrite_destination \<Rightarrow>
          plain_rename op Transfer_overwrite_stage (ft_destination item) (ft_overwrite_backup item)
            (ft_overwrite_snapshot item) there there empty_snapshot
      | Restore_overwrite_destination \<Rightarrow>
          plain_rename op Transfer_overwrite_restore (ft_overwrite_backup item) (ft_destination item)
            (ft_backup_snapshot item) there there empty_snapshot
      | _ \<Rightarrow> plain_rename op Single_preserve_extension [] [] empty_snapshot [] [] empty_snapshot)"

definition plain_delete ::
  "u64 \<Rightarrow> DeleteMode \<Rightarrow> path \<Rightarrow> SourceSnapshot \<Rightarrow> string \<Rightarrow> path \<Rightarrow> SourceSnapshot \<Rightarrow> string \<Rightarrow>
   DeleteRequest"
where
  "plain_delete op mode source expected parent guard expected_guard guard_parent =
     \<lparr>delete_operation_id = op, delete_action = Execute, delete_mode = mode,
      delete_object_kind = Regular_file, delete_source = source, delete_expected_source = expected,
      delete_source_parent_identity = parent, delete_guard_path = guard,
      delete_expected_guard = expected_guard, delete_guard_parent_identity = guard_parent,
      delete_security_baseline = []\<rparr>"

definition delete_request ::
  "FileTransferTransaction \<Rightarrow> nat \<Rightarrow> FileTransferStep \<Rightarrow> DeleteRequest"
where
  "delete_request t index step =
     (let item = item_at t index; op = transfer_operation_id t step index;
          here = ft_source_parent_identity item; there = ft_destination_parent_identity item in
      if step = Cleanup_temp then
        plain_delete op Transfer_temp_cleanup (ft_temp_destination item)
          (ft_destination_snapshot item) there [] empty_snapshot []
      else if step = Delete_source then
        plain_delete op Transfer_source_commit (ft_staged_source item) (ft_current_snapshot item) here
          (ft_destination item) (ft_destination_snapshot item) there
      else if step = Cleanup_overwrite_destination then
        plain_delete op Transfer_overwrite_cleanup (ft_overwrite_backup item)
          (ft_backup_snapshot item) there [] empty_snapshot []
      else plain_delete op Permanent_remote [] empty_snapshot [] [] empty_snapshot [])"

definition plain_stream ::
  "FileTransferTransaction \<Rightarrow> nat \<Rightarrow> FileTransferStreamMode \<Rightarrow> path \<Rightarrow> path \<Rightarrow> SourceSnapshot \<Rightarrow>
   SourceSnapshot \<Rightarrow> string \<Rightarrow> string \<Rightarrow> path \<Rightarrow> string \<Rightarrow> FileTransferStreamRequest"
where
  "plain_stream t index mode source temp expected expected_temp source_parent destination_parent
     anchor anchor_identity =
     \<lparr>stream_operation_id = ft_operation_id t, stream_item_index = word_of_nat index,
      stream_token = ft_request_token (item_at t index), stream_mode = mode, stream_source = source,
      stream_temp_destination = temp, stream_expected_source = expected,
      stream_expected_temp = expected_temp, stream_source_parent = source_parent,
      stream_destination_parent = destination_parent, stream_anchor_path = anchor,
      stream_anchor_identity = anchor_identity\<rparr>"

definition stream_request ::
  "FileTransferTransaction \<Rightarrow> nat \<Rightarrow> FileTransferStreamMode \<Rightarrow> FileTransferStreamRequest"
where
  "stream_request t index mode =
     (let item = item_at t index in
      plain_stream t index mode
        (if ft_source_location item = Source_staged then ft_staged_source item else ft_source item)
        (ft_temp_destination item) (ft_current_snapshot item)
        (if mode = Resume_existing then ft_destination_snapshot item else empty_snapshot)
        (ft_source_parent_identity item) (ft_destination_parent_identity item) [] [])"

definition staged_source_audit_request ::
  "FileTransferTransaction \<Rightarrow> nat \<Rightarrow> SourceSnapshot \<Rightarrow> FileTransferStreamRequest"
where
  "staged_source_audit_request t index observed =
     (let item = item_at t index in
      plain_stream t index Audit_existing (ft_staged_source item) [] observed empty_snapshot
        (ft_source_parent_identity item) [] (parent_path (ft_staged_source item))
        (ft_source_parent_identity item))"

section \<open>Probes\<close>

record ProbeResult =
  probe_status :: OperationStatus
  probe_snapshot :: SourceSnapshot
  probe_detail :: string

definition probe_result :: "OperationStatus \<Rightarrow> SourceSnapshot \<Rightarrow> string \<Rightarrow> ProbeResult" where
  "probe_result st found detail =
     \<lparr>probe_status = st, probe_snapshot = found, probe_detail = detail\<rparr>"

definition probe_temp ::
  "'h transfer_services \<Rightarrow> FileTransferTransaction \<Rightarrow> nat \<Rightarrow> 'h transfer_state \<Rightarrow>
   ProbeResult \<times> 'h transfer_state"
where
  "probe_temp s t index w =
     (let (result, w) = submit_delete s (delete_request t index Cleanup_temp) True w in
      (if mutation_committed result \<and> \<not> source_present result then
         probe_result Not_found empty_snapshot []
       else if source_present result \<and> valid_snapshot (confirmed_snapshot result) then
         probe_result Success (confirmed_snapshot result) []
       else probe_result (status result) empty_snapshot (detail_utf8 result), w))"

definition probe_staged_source ::
  "'h transfer_services \<Rightarrow> FileTransferTransaction \<Rightarrow> nat \<Rightarrow> 'h transfer_state \<Rightarrow>
   ProbeResult \<times> 'h transfer_state"
where
  "probe_staged_source s t index w =
     (let (result, w) = submit_delete s (delete_request t index Delete_source) True w in
      (probe_result (status result)
         (if source_present result \<and> valid_snapshot (confirmed_snapshot result)
          then confirmed_snapshot result else empty_snapshot)
         (detail_utf8 result), w))"

text \<open>The second component says whether the object at the temporary path carries the marker of this
  reservation.\<close>

definition probe_reservation ::
  "'h transfer_services \<Rightarrow> FileTransferTransaction \<Rightarrow> nat \<Rightarrow> 'h transfer_state \<Rightarrow>
   (ProbeResult \<times> bool) \<times> 'h transfer_state"
where
  "probe_reservation s t index w =
     (let item = item_at t index;
          request = plain_stream t index Probe_reservation (ft_temp_destination item) []
            empty_snapshot empty_snapshot (ft_destination_parent_identity item) [] [] [];
          ((closed, found), w) = submit_stream s request
            (\<lambda>reservation _ w.
               ((if unat (size_bytes (reserved_temp_snapshot reservation)) \<noteq>
                      kFileTransferReservationMarkerBytes
                 then Some ''the reserved transfer path contains another object'' else None,
                 Some reservation), w)) None w in
      case closed of
        None \<Rightarrow>
          ((probe_result Io_error empty_snapshot
              ''file-transfer service rejected the reservation probe'', False), w)
      | Some (_, result) \<Rightarrow>
          (case found of
             None \<Rightarrow>
               ((probe_result (streamed_status result) empty_snapshot (streamed_detail result), False), w)
           | Some reservation \<Rightarrow>
               let temp = reserved_temp_snapshot reservation;
                   marker = make_file_transfer_reservation_marker (ft_operation_id t)
                     (word_of_nat index) (ft_request_token item) in
               if unat (size_bytes temp) \<noteq> kFileTransferReservationMarkerBytes then
                 ((probe_result Success temp [], False), w)
               else if \<not> streamed_ok result then
                 ((probe_result (streamed_status result) temp (streamed_detail result), False), w)
               else
                 ((probe_result Success temp [],
                   unat (streamed_bytes result) = length marker \<and>
                   streamed_sha256 result = sha256 marker), w)))"

section \<open>The end of a step\<close>

definition activate_transfer ::
  "FileTransferTransaction \<Rightarrow> nat \<Rightarrow> FileTransferStep \<Rightarrow> FileTransferTransaction"
where
  "activate_transfer t index step =
     t\<lparr>ft_step := step, ft_index := word_of_nat index, ft_evidence := Evidence_none\<rparr>"

text \<open>What both kinds of success do at their end: outside a cleanup the failure is forgotten and the
  phase follows the items.\<close>

definition settle_success :: "FileTransferTransaction \<Rightarrow> FileTransferTransaction" where
  "settle_success t =
     (let t = clear_active t in
      if ft_phase t \<noteq> Transfer_prepublish_cleanup then
        let t = clear_failure t in
        t\<lparr>ft_phase := (if completed_prefix t = length (ft_items t)
                        then Transfer_completed else Transfer_processing)\<rparr>
      else t)"

definition expected_snapshot :: "FileTransferItem \<Rightarrow> FileTransferStep \<Rightarrow> SourceSnapshot" where
  "expected_snapshot item step =
     (if step = Publish_temp then ft_destination_snapshot item
      else if step = Evacuate_overwrite_destination then ft_overwrite_snapshot item
      else if step = Restore_overwrite_destination then ft_backup_snapshot item
      else ft_current_snapshot item)"

definition replaced_in_place :: "FileTransferTransaction \<Rightarrow> FileTransferItem \<Rightarrow> FileTransferItem" where
  "replaced_in_place t item = (if replaces t item then clear_overwrite item else item)"

definition renamed_item ::
  "FileTransferTransaction \<Rightarrow> FileTransferStep \<Rightarrow> SourceSnapshot \<Rightarrow> FileTransferItem \<Rightarrow>
   FileTransferItem option"
where
  "renamed_item t step confirmed item =
     (case step of
        Atomic_move \<Rightarrow>
          Some (replaced_in_place t
            (item\<lparr>ft_strategy := Move_atomic, ft_source_location := Source_removed,
                  ft_destination_state := Destination_published,
                  ft_destination_snapshot := confirmed\<rparr>))
      | Stage_source \<Rightarrow>
          Some (item\<lparr>ft_source_location := Source_staged, ft_current_snapshot := confirmed\<rparr>)
      | Publish_temp \<Rightarrow>
          Some (replaced_in_place t
            (item\<lparr>ft_destination_state := Destination_published, ft_destination_snapshot := confirmed\<rparr>))
      | Restore_staged_source \<Rightarrow>
          Some (item\<lparr>ft_source_location := Source_original, ft_current_snapshot := confirmed\<rparr>)
      | Evacuate_overwrite_destination \<Rightarrow>
          Some (item\<lparr>ft_backup_snapshot := confirmed, ft_overwrite_state := Overwrite_evacuated\<rparr>)
      | Restore_overwrite_destination \<Rightarrow> Some (clear_overwrite item)
      | _ \<Rightarrow> None)"

text \<open>\<^const>\<open>Inl\<close> is the detail of a success that is not believed.\<close>

definition apply_rename_success ::
  "FileTransferTransaction \<Rightarrow> nat \<Rightarrow> FileTransferStep \<Rightarrow> OperationResult \<Rightarrow>
   string + FileTransferTransaction"
where
  "apply_rename_success t index step result =
     (let item = item_at t index; confirmed = confirmed_snapshot result in
      if \<not> mutation_committed result \<or>
         \<not> snapshot_identity_matches (expected_snapshot item step) confirmed then
        Inl ''transfer rename succeeded without the expected object identity''
      else case renamed_item t step confirmed item of
        None \<Rightarrow> Inl ''transfer rename step is invalid''
      | Some item \<Rightarrow> Inr (settle_success (with_item index (\<lambda>_. item) t)))"

definition record_unexpected_evacuation ::
  "FileTransferTransaction \<Rightarrow> nat \<Rightarrow> FileTransferStep \<Rightarrow> OperationResult \<Rightarrow> bool \<Rightarrow>
   FileTransferTransaction option"
where
  "record_unexpected_evacuation t index step result resumed =
     (if step \<noteq> Evacuate_overwrite_destination \<or> evidence result \<noteq> Committed \<or>
         \<not> destination_present result \<or> \<not> valid_snapshot (confirmed_snapshot result) then None
      else if \<not> resumed \<and> destination_matches_source result then None
      else Some (clear_active (with_item index
        (\<lambda>item. item\<lparr>ft_backup_snapshot := confirmed_snapshot result,
                     ft_overwrite_state := Overwrite_evacuated_unexpected\<rparr>) t)))"

definition apply_delete_success ::
  "FileTransferTransaction \<Rightarrow> nat \<Rightarrow> FileTransferStep \<Rightarrow> OperationResult \<Rightarrow>
   string + FileTransferTransaction"
where
  "apply_delete_success t index step result =
     (if \<not> mutation_committed result then
        Inl ''transfer delete succeeded without committed evidence''
      else if step = Cleanup_temp then
        Inr (settle_success (with_item index clear_destination_proof t))
      else if step = Delete_source then
        Inr (settle_success (with_item index (\<lambda>item. item\<lparr>ft_source_location := Source_removed\<rparr>) t))
      else if step = Cleanup_overwrite_destination then
        Inr (settle_success (with_item index clear_overwrite t))
      else Inl ''transfer delete step is invalid'')"

text \<open>A step ends with a result, the transaction and the state.\<close>

type_synonym 'h step_end = "(TransferStep \<times> FileTransferTransaction) \<times> 'h transfer_state"

text \<open>The transaction is recorded; then \<open>good\<close>, or a journal failure with the given evidence.\<close>

definition saving ::
  "OperationEvidence \<Rightarrow> TransferStep \<Rightarrow> FileTransferTransaction \<Rightarrow> 'h transfer_state \<Rightarrow> 'h step_end"
where
  "saving known good t w =
     (case persist_transfer t w of
        (Some detail, w) \<Rightarrow> ((transfer_journal_failure known detail, t), w)
      | (None, w) \<Rightarrow> ((good, t), w))"

definition persist_committed ::
  "FileTransferTransaction \<Rightarrow> 'h transfer_state \<Rightarrow> 'h step_end"
where
  "persist_committed t w =
     (case persist_transfer t w of
        (Some detail, w) \<Rightarrow> ((transfer_journal_failure Committed detail, t), w)
      | (None, w) \<Rightarrow>
          (let (stopped, w) = stop_requested w in
           ((if stopped then
               transfer_step_result Outcome_stopped Success Committed
                 ''file transfer stopped after recording a completed step''
             else transfer_step_result Outcome_committed Success Committed [], t), w)))"

definition note_transfer_failure ::
  "OperationStatus \<Rightarrow> OperationEvidence \<Rightarrow> string \<Rightarrow> FileTransferTransaction \<Rightarrow> FileTransferTransaction"
where
  "note_transfer_failure st known detail t =
     t\<lparr>ft_failure := st, ft_failure_evidence := known, ft_detail := detail\<rparr>"

definition preserve_uncertain ::
  "FileTransferTransaction \<Rightarrow> OperationStatus \<Rightarrow> OperationEvidence \<Rightarrow> string \<Rightarrow> 'h transfer_state \<Rightarrow>
   'h step_end"
where
  "preserve_uncertain t st known detail =
     saving known (transfer_step_result Outcome_recovery_required st known detail)
       (note_transfer_failure st known detail (t\<lparr>ft_evidence := known\<rparr>))"

definition preserve_cleanup_uncertain ::
  "FileTransferTransaction \<Rightarrow> OperationStatus \<Rightarrow> OperationEvidence \<Rightarrow> string \<Rightarrow> 'h transfer_state \<Rightarrow>
   'h step_end"
where
  "preserve_cleanup_uncertain t st known detail =
     saving known (transfer_step_result Outcome_recovery_required st known detail)
       (t\<lparr>ft_evidence := known\<rparr>)"

definition enter_cleanup ::
  "FileTransferTransaction \<Rightarrow> OperationStatus \<Rightarrow> OperationEvidence \<Rightarrow> string \<Rightarrow> 'h transfer_state \<Rightarrow>
   'h step_end"
where
  "enter_cleanup t st known detail =
     saving known (transfer_step_result Outcome_clean_failure st known detail)
       (note_transfer_failure st known detail
         (clear_active (t\<lparr>ft_phase := Transfer_prepublish_cleanup\<rparr>)))"

text \<open>A step that did not succeed and may have taken effect.\<close>

definition preserve_open ::
  "FileTransferTransaction \<Rightarrow> OperationResult \<Rightarrow> 'h transfer_state \<Rightarrow> 'h step_end"
where
  "preserve_open t result =
     (if ft_phase t = Transfer_prepublish_cleanup then preserve_cleanup_uncertain else preserve_uncertain)
       t (status result) (evidence result) (detail_utf8 result)"

section \<open>Conflicts\<close>

text \<open>\<^const>\<open>None\<close>: the wait was ended by a stop.\<close>

definition await_conflict_decision ::
  "'h transfer_state \<Rightarrow> FileTransferConflictDecision option \<times> 'h transfer_state"
where
  "await_conflict_decision w =
     (case decisions w of [] \<Rightarrow> (None, w) | d # ds \<Rightarrow> (d, w\<lparr>decisions := ds\<rparr>))"

definition occupied_keys :: "FileTransferTransaction \<Rightarrow> nat \<Rightarrow> string list" where
  "occupied_keys t index =
     concat (map (\<lambda>(other, item).
       (if other \<noteq> index then [lexically_normal (ft_destination item)] else []) @
       [lexically_normal (ft_source item)]) (enumerate 0 (ft_items t)))"

definition with_destination :: "u64 \<Rightarrow> nat \<Rightarrow> path \<Rightarrow> FileTransferItem \<Rightarrow> FileTransferItem" where
  "with_destination operation_id index candidate item =
     clear_overwrite (item\<lparr>ft_destination := candidate,
       ft_temp_destination := file_transfer_temp_destination_path candidate operation_id index,
       ft_overwrite_backup := file_transfer_overwrite_backup_path candidate operation_id index\<rparr>)"

fun try_copy_names ::
  "'h transfer_services \<Rightarrow> FileTransferTransaction \<Rightarrow> nat \<Rightarrow> nat list \<Rightarrow> 'h transfer_state \<Rightarrow>
   FileTransferTransaction option \<times> 'h transfer_state"
where
  "try_copy_names s t index [] w = (None, w)"
| "try_copy_names s t index (ordinal # ordinals) w =
     (let (stopped, w) = stop_requested w in
      if stopped then (None, w)
      else let candidate = copy_destination_path (ft_destination (item_at t index)) ordinal in
        if lexically_normal candidate \<in> set (occupied_keys t index)
        then try_copy_names s t index ordinals w
        else
          let request = (rename_request t index Atomic_move)
                \<lparr>rename_mode := Transfer_atomic, rename_destination := candidate,
                 rename_expected_destination := empty_snapshot\<rparr>;
              (observed, w) = submit_rename s request True w in
          if status observed = Conflict then try_copy_names s t index ordinals w
          else (Some (with_item index
                  (with_destination (ft_operation_id t) index candidate) t), w))"

definition assign_copy_destination ::
  "'h transfer_services \<Rightarrow> FileTransferTransaction \<Rightarrow> nat \<Rightarrow> 'h transfer_state \<Rightarrow>
   FileTransferTransaction option \<times> 'h transfer_state"
where
  "assign_copy_destination s t index =
     try_copy_names s t index [1..<Suc kMaximumFileTransferItems]"

definition found_conflict :: "FileTransferTransaction \<Rightarrow> OperationResult \<Rightarrow> bool" where
  "found_conflict t observed \<longleftrightarrow>
     status observed = Conflict \<and> confirmed_no_commit observed \<and>
     valid_snapshot (confirmed_snapshot observed) \<and>
     \<not> list_ex (\<lambda>other. same_object_identity (source_revision_utf8 (confirmed_snapshot observed))
         (source_revision_utf8 (ft_original_snapshot other))) (ft_items t)"

definition authorize :: "SourceSnapshot \<Rightarrow> FileTransferItem \<Rightarrow> FileTransferItem" where
  "authorize destination item =
     item\<lparr>ft_overwrite_snapshot := destination, ft_overwrite_state := Overwrite_authorized\<rparr>"

definition current_version :: "FileTransferTransaction \<Rightarrow> FileTransferTransaction" where
  "current_version t = t\<lparr>ft_version := kFileTransferTransactionVersion\<rparr>"

definition no_copy_destination :: string where
  "no_copy_destination = ''a unique copy destination could not be selected''"

text \<open>What \<open>request_overwrite\<close> does with an answer.\<close>

definition answer_overwrite ::
  "'h transfer_services \<Rightarrow> nat \<Rightarrow> SourceSnapshot \<Rightarrow> FileTransferConflictDecision \<Rightarrow>
   FileTransferTransaction \<Rightarrow> 'h transfer_state \<Rightarrow> 'h step_end"
where
  "answer_overwrite s index destination decision t w =
     (let t = current_version t in
      case decision of
        Cancel_transfer \<Rightarrow>
          enter_cleanup (t\<lparr>ft_cancelled := True\<rparr>) Conflict No_commit ''file transfer cancelled by user'' w
      | Create_copy \<Rightarrow>
          (case assign_copy_destination s t index w of
             (None, w) \<Rightarrow> enter_cleanup t Conflict No_commit no_copy_destination w
           | (Some t, w) \<Rightarrow> persist_committed t w)
      | Overwrite_destination \<Rightarrow> persist_committed (with_item index (authorize destination) t) w)"

text \<open>The first component is \<^const>\<open>None\<close> when there is nothing to ask.\<close>

definition request_overwrite ::
  "'h transfer_services \<Rightarrow> FileTransferTransaction \<Rightarrow> nat \<Rightarrow> FileTransferStep \<Rightarrow> 'h transfer_state \<Rightarrow>
   (TransferStep option \<times> FileTransferTransaction) \<times> 'h transfer_state"
where
  "request_overwrite s t index probe_step w =
     (let (stopped, w) = stop_requested w in
      if stopped then
        ((Some (transfer_step_result Outcome_stopped Success Evidence_none
                  ''file transfer stopped before conflict check''), t), w)
      else if \<not> conflict_handler w \<or>
              source_revision_utf8 (ft_overwrite_snapshot (item_at t index)) \<noteq> [] then ((None, t), w)
      else
        let (observed, w) = submit_rename s (rename_request t index probe_step) True w in
        if \<not> found_conflict t observed then ((None, t), w)
        else
          let t = clear_failure (clear_active t) in
          case persist_transfer t w of
            (Some detail, w) \<Rightarrow> ((Some (transfer_journal_failure No_commit detail), t), w)
          | (None, w) \<Rightarrow>
              (case await_conflict_decision w of
                 (None, w) \<Rightarrow>
                   ((Some (transfer_step_result Outcome_stopped Success No_commit
                       ''file transfer stopped while awaiting conflict decision''), t), w)
               | (Some decision, w) \<Rightarrow>
                   (let ((step, t), w) =
                      answer_overwrite s index (confirmed_snapshot observed) decision t w
                    in ((Some step, t), w))))"

section \<open>Renames and deletions\<close>

definition begin_step ::
  "FileTransferTransaction \<Rightarrow> nat \<Rightarrow> FileTransferStep \<Rightarrow> 'h transfer_state \<Rightarrow>
   (string option \<times> FileTransferTransaction) \<times> 'h transfer_state"
where
  "begin_step t index step w =
     (let t = activate_transfer t index step; (failure, w) = persist_transfer t w
      in ((failure, t), w))"

definition restoring_unexpected :: string where
  "restoring_unexpected =
     ''overwrite destination changed during evacuation; the unexpected object will be restored''"

definition settle_renamed ::
  "FileTransferTransaction \<Rightarrow> nat \<Rightarrow> FileTransferStep \<Rightarrow> OperationResult \<Rightarrow> 'h transfer_state \<Rightarrow>
   'h step_end"
where
  "settle_renamed t index step result w =
     (case apply_rename_success t index step result of
        Inl detail \<Rightarrow> preserve_uncertain t Unknown_outcome Committed detail w
      | Inr t \<Rightarrow> persist_committed t w)"

definition execute_rename_step ::
  "'h transfer_services \<Rightarrow> FileTransferTransaction \<Rightarrow> nat \<Rightarrow> FileTransferStep \<Rightarrow> 'h transfer_state \<Rightarrow>
   'h step_end"
where
  "execute_rename_step s t index step w =
     (case begin_step t index step w of
        ((Some detail, t), w) \<Rightarrow> ((transfer_journal_failure Evidence_none detail, t), w)
      | ((None, t), w) \<Rightarrow>
          (let w = publish_progress t index step 0 w; (stopped, w) = stop_requested w in
           if stopped then
             ((transfer_step_result Outcome_stopped Success Evidence_none
                 ''file transfer stopped before rename'', t), w)
           else
             let (result, w) = submit_rename s (rename_request t index step) False w in
             case record_unexpected_evacuation t index step result False of
               Some t \<Rightarrow> enter_cleanup t Source_changed Committed restoring_unexpected w
             | None \<Rightarrow>
                 if mutation_committed result then settle_renamed t index step result w
                 else if step = Atomic_move \<and> status result = Cross_device \<and>
                         confirmed_no_commit result then
                   saving No_commit (transfer_step_result Outcome_committed Cross_device No_commit [])
                     (clear_failure (clear_active (with_item index
                       (\<lambda>item. item\<lparr>ft_strategy := Move_stream,
                                    ft_stream_reason := Cross_device_no_commit\<rparr>) t))) w
                 else if ft_phase t = Transfer_prepublish_cleanup then
                   preserve_cleanup_uncertain t (status result) (evidence result) (detail_utf8 result) w
                 else if confirmed_no_commit result then
                   (case (if (step = Atomic_move \<or> step = Publish_temp) \<and> status result = Conflict
                          then request_overwrite s t index step w else ((None, t), w)) of
                      ((Some decision, t), w) \<Rightarrow> ((decision, t), w)
                    | ((None, t), w) \<Rightarrow>
                        enter_cleanup t (status result) (evidence result) (detail_utf8 result) w)
                 else preserve_uncertain t (status result) (evidence result) (detail_utf8 result) w))"

definition recover_rename_step ::
  "'h transfer_services \<Rightarrow> FileTransferTransaction \<Rightarrow> nat \<Rightarrow> FileTransferStep \<Rightarrow> 'h transfer_state \<Rightarrow>
   'h step_end"
where
  "recover_rename_step s t index step w =
     (let w = publish_progress t index step 0 w;
          (result, w) = submit_rename s (rename_request t index step) True w in
      case record_unexpected_evacuation t index step result
             (step = Evacuate_overwrite_destination) of
        Some t \<Rightarrow> enter_cleanup t Source_changed Committed restoring_unexpected w
      | None \<Rightarrow>
          if mutation_committed result then settle_renamed t index step result w
          else if \<not> confirmed_no_commit result then preserve_open t result w
          else
            let t = clear_active t;
                t = (if ft_phase t \<noteq> Transfer_prepublish_cleanup then clear_failure t else t) in
            case persist_transfer t w of
              (Some detail, w) \<Rightarrow> ((transfer_journal_failure No_commit detail, t), w)
            | (None, w) \<Rightarrow> execute_rename_step s t index step w)"

definition settle_deleted ::
  "FileTransferTransaction \<Rightarrow> nat \<Rightarrow> FileTransferStep \<Rightarrow> OperationResult \<Rightarrow> 'h transfer_state \<Rightarrow>
   'h step_end"
where
  "settle_deleted t index step result w =
     (case apply_delete_success t index step result of
        Inl detail \<Rightarrow> preserve_uncertain t Unknown_outcome Committed detail w
      | Inr t \<Rightarrow> persist_committed t w)"

definition source_changed_detail :: string where
  "source_changed_detail = ''staged source changed after destination publication''"

definition source_content_changed :: string where
  "source_content_changed = ''staged source content changed after destination publication''"

definition or_else :: "string \<Rightarrow> string \<Rightarrow> string" where
  "or_else detail default_detail = (if detail = [] then default_detail else detail)"

text \<open>A staged source that looks changed, but may be the same object with other times, is read again.
  The callback of the audit: it compares what was read with the proof of the copy and records the new
  snapshot.\<close>

definition commit_source_audit ::
  "nat \<Rightarrow> SourceSnapshot \<Rightarrow> byte list \<Rightarrow> u64 \<Rightarrow> FileTransferStreamResult \<Rightarrow>
   FileTransferTransaction \<Rightarrow> 'h transfer_state \<Rightarrow>
   ((FileTransferAuditCommitOutcome \<times> string) \<times> FileTransferTransaction) \<times> 'h transfer_state"
where
  "commit_source_audit index expected digest bytes result t w =
     (if \<not> same_snapshot expected (streamed_source result) \<or>
         \<not> same_snapshot (streamed_source result) (streamed_temp result) \<or>
         streamed_bytes result \<noteq> bytes \<or> streamed_sha256 result \<noteq> digest then
        (((Audit_rejected, source_content_changed), t), w)
      else
        let candidate = with_item index (\<lambda>item. item\<lparr>ft_original_snapshot := streamed_source result,
              ft_current_snapshot := streamed_source result\<rparr>) t in
        case persist_transfer candidate w of
          (Some detail, w) \<Rightarrow> (((Audit_recovery, detail), t), w)
        | (None, w) \<Rightarrow> (((Audit_accepted, []), candidate), w))"

definition refresh_staged_source_for_delete ::
  "'h transfer_services \<Rightarrow> FileTransferTransaction \<Rightarrow> nat \<Rightarrow> 'h transfer_state \<Rightarrow>
   (TransferStep option \<times> FileTransferTransaction) \<times> 'h transfer_state"
where
  "refresh_staged_source_for_delete s t index w =
     (let uncertain = (\<lambda>t st detail w.
            let ((step, t), w) = preserve_uncertain t st Evidence_none detail w in ((Some step, t), w));
          (stopped, w) = stop_requested w in
      if stopped then
        ((Some (transfer_step_result Outcome_stopped Unknown_outcome Evidence_none
                  ''file transfer stopped before source verification''), t), w)
      else
        let item = item_at t index; (observed, w) = probe_staged_source s t index w;
            seen = probe_snapshot observed in
        if same_snapshot (ft_current_snapshot item) seen then ((None, t), w)
        else if size_bytes (ft_current_snapshot item) \<noteq> size_bytes seen \<or>
                \<not> same_object_identity (source_revision_utf8 (ft_current_snapshot item))
                    (source_revision_utf8 seen) \<or>
                \<not> ft_content_proof item \<or> ft_content_bytes item \<noteq> size_bytes seen then
          uncertain t
            (if probe_status observed = Success then Source_changed else probe_status observed)
            (or_else (probe_detail observed) source_changed_detail) w
        else
          let ((audited, t), w) = submit_audit s (staged_source_audit_request t index seen)
                (commit_source_audit index seen (ft_content_sha256 item) (ft_content_bytes item)) t w in
          case audited of
            None \<Rightarrow> uncertain t Io_error ''file-transfer service rejected source verification'' w
          | Some result \<Rightarrow>
              if \<not> streamed_ok result then
                uncertain t
                  (if streamed_status result = Success then Source_changed else streamed_status result)
                  (or_else (streamed_detail result) source_content_changed) w
              else let (stopped, w) = stop_requested w in
                ((if stopped then
                    Some (transfer_step_result Outcome_stopped Success Evidence_none
                      ''file transfer stopped after source verification'') else None, t), w))"

definition delete_now ::
  "'h transfer_services \<Rightarrow> FileTransferTransaction \<Rightarrow> nat \<Rightarrow> FileTransferStep \<Rightarrow> 'h transfer_state \<Rightarrow>
   'h step_end"
where
  "delete_now s t index step w =
     (case begin_step t index step w of
        ((Some detail, t), w) \<Rightarrow> ((transfer_journal_failure Evidence_none detail, t), w)
      | ((None, t), w) \<Rightarrow>
          (let w = publish_progress t index step 0 w;
               (result, w) = submit_delete s (delete_request t index step) False w in
           if mutation_committed result then settle_deleted t index step result w
           else preserve_open t result w))"

definition execute_delete_step ::
  "'h transfer_services \<Rightarrow> FileTransferTransaction \<Rightarrow> nat \<Rightarrow> FileTransferStep \<Rightarrow> 'h transfer_state \<Rightarrow>
   'h step_end"
where
  "execute_delete_step s t index step w =
     (if step = Delete_source then
        (case refresh_staged_source_for_delete s t index w of
           ((Some refresh, t), w) \<Rightarrow> ((refresh, t), w)
         | ((None, t), w) \<Rightarrow>
             (let (stopped, w) = stop_requested w in
              if stopped then
                ((transfer_step_result Outcome_stopped Success Evidence_none
                    ''file transfer stopped before source deletion'', t), w)
              else delete_now s t index step w))
      else delete_now s t index step w)"

definition recover_delete_step ::
  "'h transfer_services \<Rightarrow> FileTransferTransaction \<Rightarrow> nat \<Rightarrow> FileTransferStep \<Rightarrow> 'h transfer_state \<Rightarrow>
   'h step_end"
where
  "recover_delete_step s t index step w =
     (let w = publish_progress t index step 0 w;
          (result, w) = submit_delete s (delete_request t index step) True w in
      if mutation_committed result then settle_deleted t index step result w
      else if \<not> confirmed_no_commit result then preserve_open t result w
      else
        let t = clear_active t in
        case persist_transfer t w of
          (Some detail, w) \<Rightarrow> ((transfer_journal_failure No_commit detail, t), w)
        | (None, w) \<Rightarrow>
            if step = Cleanup_temp \<or> step = Cleanup_overwrite_destination then
              ((transfer_step_result Outcome_committed Success No_commit [], t), w)
            else execute_delete_step s t index step w)"

section \<open>Streaming\<close>

definition update_item ::
  "nat \<Rightarrow> SourceSnapshot \<Rightarrow> FileTransferDestinationState \<Rightarrow> FileTransferTransaction \<Rightarrow>
   FileTransferTransaction"
where
  "update_item index temp state t =
     with_item index (\<lambda>item. item\<lparr>ft_destination_snapshot := temp, ft_destination_state := state\<rparr>) t"

text \<open>The callback of a reservation: a new temporary file is recorded before anything is written to it.\<close>

definition commit_reservation ::
  "nat \<Rightarrow> FileTransferStreamMode \<Rightarrow> FileTransferReservation \<Rightarrow> FileTransferTransaction \<Rightarrow>
   'h transfer_state \<Rightarrow> (string option \<times> FileTransferTransaction) \<times> 'h transfer_state"
where
  "commit_reservation index mode reservation t w =
     (let item = item_at t index in
      if ft_request_token item \<noteq> reserved_token reservation then
        ((Some ''file-transfer reservation no longer matches durable intent'', t), w)
      else if mode = Resume_existing then
        (if ft_step t \<noteq> Stream_temp \<or> ft_destination_state item \<noteq> Temp_reserved \<or>
            \<not> same_source_revision (source_revision_utf8 (ft_destination_snapshot item))
                (source_revision_utf8 (reserved_temp_snapshot reservation)) then
           ((Some ''resumed file-transfer reservation no longer matches durable intent'', t), w)
         else ((None, t), note_submission (Fills (stream_request t index mode)) w))
      else if ft_step t \<noteq> Reserve_temp \<or> ft_destination_state item \<noteq> Destination_absent then
        ((Some ''new file-transfer reservation no longer matches durable intent'', t), w)
      else
        let candidate = (update_item index (reserved_temp_snapshot reservation) Temp_reserved
              (with_item index (\<lambda>item. item\<lparr>ft_destination_parent_revision :=
                 reserved_parent_revision reservation\<rparr>) t))
              \<lparr>ft_step := Stream_temp, ft_evidence := Evidence_none\<rparr> in
        case persist_transfer candidate w of
          (Some detail, w) \<Rightarrow> ((Some detail, t), w)
        | (None, w) \<Rightarrow>
            ((None, candidate), note_submission (Fills (stream_request candidate index mode)) w))"

definition report_stream ::
  "FileTransferTransaction \<Rightarrow> nat \<Rightarrow> u64 list \<Rightarrow> 'h transfer_state \<Rightarrow> 'h transfer_state"
where
  "report_stream t index updates w = fold (publish_progress t index Stream_temp) updates w"

definition streamed_completely :: "FileTransferItem \<Rightarrow> FileTransferStreamResult \<Rightarrow> bool" where
  "streamed_completely item result \<longleftrightarrow>
     streamed_ok result \<and> streamed_evidence result = Committed \<and>
     snapshot_identity_matches (ft_current_snapshot item) (streamed_source result) \<and>
     snapshot_identity_matches (ft_destination_snapshot item) (streamed_temp result) \<and>
     streamed_bytes result = size_bytes (ft_original_snapshot item)"

definition content_arrived :: "FileTransferStreamResult \<Rightarrow> FileTransferItem \<Rightarrow> FileTransferItem" where
  "content_arrived result item =
     item\<lparr>ft_destination_snapshot := streamed_temp result, ft_content_sha256 := streamed_sha256 result,
          ft_content_bytes := streamed_bytes result, ft_content_proof := True,
          ft_destination_state := Content_ready\<rparr>"

definition settle_streamed ::
  "nat \<Rightarrow> FileTransferStreamResult \<Rightarrow> FileTransferTransaction \<Rightarrow> 'h transfer_state \<Rightarrow> 'h step_end"
where
  "settle_streamed index result t w =
     (if streamed_completely (item_at t index) result then
        persist_committed (clear_failure (clear_active (with_item index (content_arrived result) t))) w
      else let (stopped, w) = stop_requested w in
        if stopped then
          preserve_uncertain t (streamed_status result) (streamed_evidence result)
            (or_else (streamed_detail result) ''file transfer stopped during streaming'') w
        else if streamed_evidence result = No_commit \<or>
                ft_destination_state (item_at t index) \<noteq> Destination_absent then
          enter_cleanup t (streamed_status result) (streamed_evidence result)
            (or_else (streamed_detail result) ''file streaming did not complete'') w
        else
          preserve_uncertain t (streamed_status result) (streamed_evidence result)
            (streamed_detail result) w)"

text \<open>The intent is recorded, with a new token for a new temporary file.\<close>

definition announce_stream ::
  "nat \<Rightarrow> FileTransferStreamMode \<Rightarrow> FileTransferTransaction \<Rightarrow> 'h transfer_state \<Rightarrow>
   FileTransferTransaction \<times> 'h transfer_state"
where
  "announce_stream index mode t w =
     (if mode = Reserve_new then
        (let (token, w) = new_request_token t index w in
         (activate_transfer (with_item index (\<lambda>item. item\<lparr>ft_request_token := token\<rparr>) t) index
            Reserve_temp, w))
      else (activate_transfer t index Stream_temp, w))"

definition stream_mode_for :: "FileTransferItem \<Rightarrow> FileTransferStreamMode" where
  "stream_mode_for item =
     (if ft_destination_state item = Temp_reserved then Resume_existing else Reserve_new)"

definition execute_stream_step ::
  "'h transfer_services \<Rightarrow> FileTransferTransaction \<Rightarrow> nat \<Rightarrow> 'h transfer_state \<Rightarrow> 'h step_end"
where
  "execute_stream_step s t index w =
     (let mode = stream_mode_for (item_at t index); (t, w) = announce_stream index mode t w in
      case persist_transfer t w of
        (Some detail, w) \<Rightarrow> ((transfer_journal_failure Evidence_none detail, t), w)
      | (None, w) \<Rightarrow>
          (let w = publish_progress t index (ft_step t) 0 w; request = stream_request t index mode;
               ((closed, t), w) = submit_stream s request (commit_reservation index mode) t
                 (note_submission (Streams request) w) in
           case closed of
             None \<Rightarrow>
               preserve_uncertain t Io_error Evidence_none
                 ''file-transfer service rejected the stream step'' w
           | Some (updates, result) \<Rightarrow>
               settle_streamed index result t (report_stream t index updates w)))"

definition recover_reserve ::
  "'h transfer_services \<Rightarrow> FileTransferTransaction \<Rightarrow> nat \<Rightarrow> 'h transfer_state \<Rightarrow> 'h step_end"
where
  "recover_reserve s t index w =
     (let ((found, owned), w) = probe_reservation s t index w in
      if probe_status found = Not_found then
        let t = with_item index (\<lambda>item. item\<lparr>ft_request_token :=
              replicate kFileTransferRequestTokenBytes 0\<rparr>) (clear_failure (clear_active t)) in
        case persist_transfer t w of
          (Some detail, w) \<Rightarrow> ((transfer_journal_failure Evidence_none detail, t), w)
        | (None, w) \<Rightarrow> execute_stream_step s t index w
      else if probe_status found = Success \<and> owned then
        enter_cleanup (update_item index (probe_snapshot found) Temp_reserved t) Io_error Evidence_none
          ''an unacknowledged transfer reservation was recovered'' w
      else
        preserve_uncertain t
          (if probe_status found = Success then Source_changed else probe_status found) Evidence_none
          (if probe_status found = Success
           then ''an unowned temporary object occupies the reserved transfer path''
           else probe_detail found) w)"

definition recover_stream_step ::
  "'h transfer_services \<Rightarrow> FileTransferTransaction \<Rightarrow> nat \<Rightarrow> 'h transfer_state \<Rightarrow> 'h step_end"
where
  "recover_stream_step s t index w =
     (if ft_step t = Reserve_temp then recover_reserve s t index w
      else
        let (observed, w) = probe_temp s t index w in
        if probe_status observed = Not_found then
          let t = clear_failure (clear_active (with_item index clear_destination_proof t)) in
          case persist_transfer t w of
            (Some detail, w) \<Rightarrow> ((transfer_journal_failure Evidence_none detail, t), w)
          | (None, w) \<Rightarrow> execute_stream_step s t index w
        else if probe_status observed \<noteq> Success \<or>
                \<not> same_object_identity (source_revision_utf8 (probe_snapshot observed))
                    (source_revision_utf8 (ft_destination_snapshot (item_at t index))) then
          preserve_uncertain t
            (if probe_status observed = Success then Source_changed else probe_status observed)
            Evidence_none
            (if probe_status observed = Success
             then ''the reserved temporary object changed physical identity''
             else probe_detail observed) w
        else
          let t = clear_failure ((with_item index (\<lambda>item. item\<lparr>ft_destination_snapshot :=
                probe_snapshot observed\<rparr>) t)\<lparr>ft_evidence := Evidence_none\<rparr>) in
          case persist_transfer t w of
            (Some detail, w) \<Rightarrow> ((transfer_journal_failure Evidence_none detail, t), w)
          | (None, w) \<Rightarrow> execute_stream_step s t index w)"

definition rename_steps :: "FileTransferStep list" where
  "rename_steps =
     [Atomic_move, Stage_source, Publish_temp, Restore_staged_source,
      Evacuate_overwrite_destination, Restore_overwrite_destination]"

definition recover_active_step ::
  "'h transfer_services \<Rightarrow> FileTransferTransaction \<Rightarrow> 'h transfer_state \<Rightarrow> 'h step_end"
where
  "recover_active_step s t w =
     (let index = unat (ft_index t); step = ft_step t in
      if step \<in> set rename_steps then recover_rename_step s t index step w
      else if step = Reserve_temp \<or> step = Stream_temp then recover_stream_step s t index w
      else if step \<noteq> No_transfer_step then recover_delete_step s t index step w
      else ((transfer_step_result Outcome_recovery_required Invalid_request Evidence_none
               ''file-transfer recovery has no active step'', t), w))"

section \<open>What comes next\<close>

definition overwrite_ready_for_evacuation :: "FileTransferKind \<Rightarrow> FileTransferItem \<Rightarrow> bool" where
  "overwrite_ready_for_evacuation kind item \<longleftrightarrow>
     ft_overwrite_state item = Overwrite_authorized \<and>
     ((kind = Move_transfer \<and> ft_strategy item = Move_undecided) \<or>
      ft_destination_state item = Content_ready)"

definition source_final :: "FileTransferKind \<Rightarrow> FileTransferItem \<Rightarrow> bool" where
  "source_final kind item \<longleftrightarrow>
     (kind = Copy_transfer \<and> ft_source_location item = Source_original) \<or>
     (kind = Move_transfer \<and> ft_source_location item = Source_removed)"

definition next_processing_step ::
  "'h transfer_services \<Rightarrow> FileTransferTransaction \<Rightarrow> 'h transfer_state \<Rightarrow> 'h step_end"
where
  "next_processing_step s t w =
     (let index = completed_prefix t in
      if length (ft_items t) \<le> index then
        persist_committed (clear_failure (clear_active (t\<lparr>ft_phase := Transfer_completed\<rparr>))) w
      else
        let item = item_at t index; move = (ft_kind t = Move_transfer) in
        if ft_overwrite_state item = Overwrite_evacuated_unexpected then
          enter_cleanup t Source_changed Committed
            ''an unexpected overwrite destination is awaiting restoration'' w
        else if overwrite_ready_for_evacuation (ft_kind t) item then
          execute_rename_step s (current_version t) index Evacuate_overwrite_destination w
        else if move \<and> ft_strategy item = Move_undecided then
          execute_rename_step s t index Atomic_move w
        else if move \<and> ft_strategy item = Move_stream \<and> ft_source_location item = Source_original then
          execute_rename_step s t index Stage_source w
        else if ft_destination_state item = Destination_absent \<or>
                ft_destination_state item = Temp_reserved then
          execute_stream_step s t index w
        else if ft_destination_state item = Content_ready then
          execute_rename_step s t index Publish_temp w
        else if move \<and> ft_destination_state item = Destination_published \<and>
                ft_source_location item = Source_staged then
          execute_delete_step s t index Delete_source w
        else if ft_destination_state item = Destination_published \<and> source_final (ft_kind t) item \<and>
                ft_overwrite_state item = Overwrite_evacuated then
          execute_delete_step s t index Cleanup_overwrite_destination w
        else
          preserve_uncertain t Unknown_outcome Evidence_none
            ''file-transfer item has no deterministic next step'' w)"

section \<open>The loops\<close>

text \<open>One turn of a loop: \<^const>\<open>None\<close> goes on.\<close>

type_synonym 'h turn =
  "(FileTransferResult option \<times> FileTransferTransaction) \<times> 'h transfer_state"

definition run_status :: "TransferOutcome \<Rightarrow> FileTransferRunStatus" where
  "run_status result =
     (case result of
        Outcome_journal_error \<Rightarrow> Transfer_journal_error
      | Outcome_stopped \<Rightarrow> Transfer_stopped
      | _ \<Rightarrow> Transfer_recovery_required)"

definition end_turn :: "'h step_end \<Rightarrow> 'h turn" where
  "end_turn = (\<lambda>((step, t), w).
     ((if outcome step = Outcome_committed then None
       else Some (result_for t (run_status (outcome step)) (outcome_status step)
                    (outcome_evidence step) (outcome_detail step)), t), w))"

text \<open>The failure that the clean-up will report, fixed when it begins, and the item it concerns.\<close>

record cleanup_context =
  cleanup_status :: OperationStatus
  cleanup_detail :: string
  cleanup_evidence :: OperationEvidence
  cleanup_index :: nat

definition cleanup_saving ::
  "cleanup_context \<Rightarrow> FileTransferTransaction \<Rightarrow> 'h transfer_state \<Rightarrow>
   ('h transfer_state \<Rightarrow> 'h turn) \<Rightarrow> 'h turn"
where
  "cleanup_saving c t w continue =
     (case persist_transfer t w of
        (Some detail, w) \<Rightarrow>
          ((Some (result_for t Transfer_journal_error Io_error (cleanup_evidence c) detail), t), w)
      | (None, w) \<Rightarrow> continue w)"

definition cleanup_temp_turn ::
  "'h transfer_services \<Rightarrow> cleanup_context \<Rightarrow> FileTransferTransaction \<Rightarrow> 'h transfer_state \<Rightarrow> 'h turn"
where
  "cleanup_temp_turn s c t w =
     (let index = cleanup_index c; (observed, w) = probe_temp s t index w in
      if probe_status observed = Not_found then
        let t = with_item index clear_destination_proof t
        in cleanup_saving c t w (\<lambda>w. ((None, t), w))
      else if probe_status observed \<noteq> Success \<or>
              \<not> same_object_identity (source_revision_utf8 (probe_snapshot observed))
                  (source_revision_utf8 (ft_destination_snapshot (item_at t index))) then
        ((Some (result_for t Transfer_recovery_required
            (if probe_status observed = Success then Source_changed else probe_status observed)
            Evidence_none
            (if probe_status observed = Success
             then ''the owned transfer temporary object changed physical identity''
             else probe_detail observed)), t), w)
      else
        let t = with_item index (\<lambda>item. item\<lparr>ft_destination_snapshot := probe_snapshot observed,
              ft_content_sha256 := replicate kFileTransferDigestBytes 0, ft_content_bytes := 0,
              ft_content_proof := False, ft_destination_state := Temp_reserved\<rparr>) t in
        cleanup_saving c t w (\<lambda>w.
          let (stopped, w) = stop_requested w in
          if stopped then
            ((Some (result_for t Transfer_stopped (cleanup_status c) (cleanup_evidence c)
                ''file transfer stopped after recording the current temporary file''), t), w)
          else end_turn (execute_delete_step s t index Cleanup_temp w)))"

text \<open>What is left to undo, once there is no reservation without an acknowledged temporary file.\<close>

definition cleanup_item_turn ::
  "'h transfer_services \<Rightarrow> cleanup_context \<Rightarrow> FileTransferTransaction \<Rightarrow> 'h transfer_state \<Rightarrow> 'h turn"
where
  "cleanup_item_turn s c t w =
     (let index = cleanup_index c; item = item_at t index in
      if ft_destination_state item = Temp_reserved \<or> ft_destination_state item = Content_ready then
        cleanup_temp_turn s c t w
      else if ft_kind t = Move_transfer \<and> ft_source_location item = Source_staged then
        end_turn (execute_rename_step s t index Restore_staged_source w)
      else if ft_overwrite_state item = Overwrite_evacuated \<or>
              ft_overwrite_state item = Overwrite_evacuated_unexpected then
        end_turn (execute_rename_step s t index Restore_overwrite_destination w)
      else
        case remove_transfer_journal s t w of
          (Some detail, w) \<Rightarrow>
            ((Some (result_for t Transfer_journal_error Io_error (cleanup_evidence c) detail), t), w)
        | (None, w) \<Rightarrow>
            ((Some (result_for t
                (if ft_cancelled t then Transfer_cancelled else Transfer_partial_failure)
                (cleanup_status c) (cleanup_evidence c) (cleanup_detail c)), t), w))"

definition cleanup_turn ::
  "'h transfer_services \<Rightarrow> cleanup_context \<Rightarrow> FileTransferTransaction \<Rightarrow> 'h transfer_state \<Rightarrow> 'h turn"
where
  "cleanup_turn s c t w =
     (let (stopped, w) = stop_requested w; index = cleanup_index c; item = item_at t index in
      if stopped then
        ((Some (result_for t Transfer_stopped (cleanup_status c) (cleanup_evidence c)
            ''file transfer stopped before cleanup completed''), t), w)
      else if ft_step t \<noteq> No_transfer_step then end_turn (recover_active_step s t w)
      else if ft_destination_state item = Destination_absent \<and> \<not> token_empty (ft_request_token item) then
        let ((found, owned), w) = probe_reservation s t index w in
        if probe_status found = Success \<and> owned then
          let t = update_item index (probe_snapshot found) Temp_reserved t
          in cleanup_saving c t w (\<lambda>w. ((None, t), w))
        else if probe_status found \<noteq> Not_found then
          ((Some (result_for t Transfer_recovery_required
              (if probe_status found = Success then Source_changed else probe_status found) Evidence_none
              (if probe_status found = Success
               then ''an unowned object occupies the unacknowledged transfer path''
               else probe_detail found)), t), w)
        else cleanup_item_turn s c t w
      else cleanup_item_turn s c t w)"

text \<open>The loops repeat for as long as turns go on; when \<open>fuel\<close> runs out the result is \<^const>\<open>None\<close>.\<close>

fun cleanup_loop ::
  "'h transfer_services \<Rightarrow> cleanup_context \<Rightarrow> nat \<Rightarrow> FileTransferTransaction \<Rightarrow> 'h transfer_state \<Rightarrow> 'h turn"
where
  "cleanup_loop s c 0 t w = ((None, t), w)"
| "cleanup_loop s c (Suc fuel) t w =
     (case cleanup_turn s c t w of
        ((Some result, t), w) \<Rightarrow> ((Some result, t), w)
      | ((None, t), w) \<Rightarrow> cleanup_loop s c fuel t w)"

definition continue_cleanup ::
  "'h transfer_services \<Rightarrow> nat \<Rightarrow> FileTransferTransaction \<Rightarrow> 'h transfer_state \<Rightarrow> 'h turn"
where
  "continue_cleanup s fuel t w =
     (let index = completed_prefix t in
      if length (ft_items t) \<le> index then
        ((Some (result_for t Transfer_recovery_required Unknown_outcome Evidence_none
            ''file-transfer cleanup has no unfinished item''), t), w)
      else cleanup_loop s \<lparr>cleanup_status = ft_failure t, cleanup_detail = ft_detail t,
             cleanup_evidence = ft_failure_evidence t, cleanup_index = index\<rparr> fuel t w)"

fun processing_loop ::
  "'h transfer_services \<Rightarrow> nat \<Rightarrow> FileTransferTransaction \<Rightarrow> 'h transfer_state \<Rightarrow> 'h turn"
where
  "processing_loop s 0 t w = ((None, t), w)"
| "processing_loop s (Suc fuel) t w =
     (if ft_phase t = Transfer_completed then
        (case remove_transfer_journal s t w of
           (Some detail, w) \<Rightarrow>
             ((Some (result_for t Transfer_journal_error Io_error Committed detail), t), w)
         | (None, w) \<Rightarrow> ((Some (result_for t Transfer_success Success Committed []), t), w))
      else let (stopped, w) = stop_requested w in
        if stopped then
          ((Some (result_for t Transfer_stopped Success Evidence_none
              ''file transfer stopped at a durable boundary''), t), w)
        else
          let ((step, t), w) = (if ft_step t = No_transfer_step then next_processing_step s t w
                                else recover_active_step s t w) in
          if outcome step = Outcome_clean_failure then continue_cleanup s fuel t w
          else case end_turn ((step, t), w) of
            ((Some result, t), w) \<Rightarrow> ((Some result, t), w)
          | ((None, t), w) \<Rightarrow> processing_loop s fuel t w)"

definition continue_after_start ::
  "'h transfer_services \<Rightarrow> nat \<Rightarrow> FileTransferTransaction \<Rightarrow> 'h transfer_state \<Rightarrow> 'h turn"
where
  "continue_after_start s fuel t w =
     (if ft_phase t = Transfer_prepublish_cleanup then continue_cleanup s fuel t w
      else processing_loop s fuel t w)"

definition continue_transfer ::
  "'h transfer_services \<Rightarrow> nat \<Rightarrow> FileTransferTransaction \<Rightarrow> 'h transfer_state \<Rightarrow> 'h turn"
where
  "continue_transfer s fuel t w =
     (if ft_phase t = Transfer_prepared then
        let t = clear_failure (t\<lparr>ft_phase := Transfer_processing\<rparr>) in
        case persist_transfer t w of
          (Some detail, w) \<Rightarrow>
            ((Some (result_for t Transfer_journal_error Io_error Evidence_none detail), t), w)
        | (None, w) \<Rightarrow> continue_after_start s fuel t w
      else continue_after_start s fuel t w)"

section \<open>The conflicts of a transaction that has not begun\<close>

text \<open>Every destination is asked for; an object that is there and is none of the sources is a
  conflict. A stop ends the search with \<^const>\<open>None\<close>. An item with an authorization is skipped.\<close>

fun observe_conflicts ::
  "'h transfer_services \<Rightarrow> FileTransferTransaction \<Rightarrow> nat list \<Rightarrow> 'h transfer_state \<Rightarrow>
   (nat \<times> SourceSnapshot) list option \<times> 'h transfer_state"
where
  "observe_conflicts s t [] w = (Some [], w)"
| "observe_conflicts s t (index # rest) w =
     (if source_revision_utf8 (ft_overwrite_snapshot (item_at t index)) \<noteq> [] then
        observe_conflicts s t rest w
      else let (stopped, w) = stop_requested w in
        if stopped then (None, w)
        else
          let (observed, w) = submit_rename s (rename_request t index Atomic_move) True w;
              (found, w) = observe_conflicts s t rest w in
          (if found_conflict t observed
           then map_option ((#) (index, confirmed_snapshot observed)) found else found, w))"

definition authorize_all ::
  "(nat \<times> SourceSnapshot) list \<Rightarrow> FileTransferTransaction \<Rightarrow> FileTransferTransaction"
where
  "authorize_all = fold (\<lambda>(index, destination). with_item index (authorize destination))"

text \<open>The transaction keeps the names found before one could not be found.\<close>

fun assign_copies ::
  "'h transfer_services \<Rightarrow> nat list \<Rightarrow> FileTransferTransaction \<Rightarrow> 'h transfer_state \<Rightarrow>
   (bool \<times> FileTransferTransaction) \<times> 'h transfer_state"
where
  "assign_copies s [] t w = ((True, t), w)"
| "assign_copies s (index # rest) t w =
     (case assign_copy_destination s t index w of
        (None, w) \<Rightarrow> ((False, t), w)
      | (Some t, w) \<Rightarrow> assign_copies s rest t w)"

definition journal_error_result ::
  "FileTransferTransaction \<Rightarrow> OperationStatus \<Rightarrow> OperationEvidence \<Rightarrow> string \<Rightarrow> FileTransferResult"
where
  "journal_error_result t = result_for t Transfer_journal_error"

text \<open>The transaction is given up and cleaned up.\<close>

definition give_up ::
  "'h transfer_services \<Rightarrow> nat \<Rightarrow> FileTransferTransaction \<Rightarrow> string \<Rightarrow> 'h transfer_state \<Rightarrow> 'h turn"
where
  "give_up s fuel t detail w =
     (let ((step, t), w) = enter_cleanup t Conflict No_commit detail w in
      if outcome step = Outcome_journal_error then
        ((Some (journal_error_result t (outcome_status step) (outcome_evidence step)
                  (outcome_detail step)), t), w)
      else continue_cleanup s fuel t w)"

text \<open>An answer to the question; the version is brought up to date for an overwrite only.\<close>

definition save_answer :: "FileTransferTransaction \<Rightarrow> 'h transfer_state \<Rightarrow> (FileTransferResult option option \<times> FileTransferTransaction) \<times> 'h transfer_state" where
  "save_answer t w =
     (case persist_transfer t w of
        (Some detail, w) \<Rightarrow> ((Some (Some (journal_error_result t Io_error No_commit detail)), t), w)
      | (None, w) \<Rightarrow> ((None, t), w))"

definition ended :: "'h turn \<Rightarrow> (FileTransferResult option option \<times> FileTransferTransaction) \<times> 'h transfer_state" where
  "ended = (\<lambda>((r, t), w). ((Some r, t), w))"

definition answer_conflicts ::
  "'h transfer_services \<Rightarrow> nat \<Rightarrow> (nat \<times> SourceSnapshot) list \<Rightarrow> FileTransferConflictDecision \<Rightarrow>
   FileTransferTransaction \<Rightarrow> 'h transfer_state \<Rightarrow>
   (FileTransferResult option option \<times> FileTransferTransaction) \<times> 'h transfer_state"
where
  "answer_conflicts s fuel conflicts decision t w =
     (case decision of
        Cancel_transfer \<Rightarrow>
          ended (give_up s fuel (t\<lparr>ft_cancelled := True\<rparr>) ''file transfer cancelled by user'' w)
      | Overwrite_destination \<Rightarrow> save_answer (authorize_all conflicts (current_version t)) w
      | Create_copy \<Rightarrow>
          (case assign_copies s (map fst conflicts) t w of
             ((False, t), w) \<Rightarrow> ended (give_up s fuel t no_copy_destination w)
           | ((True, t), w) \<Rightarrow> save_answer t w))"

text \<open>\<^const>\<open>None\<close>: the transfer goes on; \<open>Some r\<close> ends the run, with \<open>r = None\<close> when the fuel of the
  clean-up ran out.\<close>

definition request_initial_conflicts ::
  "'h transfer_services \<Rightarrow> nat \<Rightarrow> FileTransferTransaction \<Rightarrow> 'h transfer_state \<Rightarrow>
   (FileTransferResult option option \<times> FileTransferTransaction) \<times> 'h transfer_state"
where
  "request_initial_conflicts s fuel t w =
     (if \<not> conflict_handler w \<or> ft_phase t \<noteq> Transfer_prepared then ((None, t), w)
      else case observe_conflicts s t [0..<length (ft_items t)] w of
        (None, w) \<Rightarrow>
          ((Some (Some (result_for t Transfer_stopped Success No_commit
              ''file transfer stopped before conflict check'')), t), w)
      | (Some conflicts, w) \<Rightarrow>
          if conflicts = [] then ((None, t), w)
          else
            let t = clear_failure (clear_active t) in
            case persist_transfer t w of
              (Some detail, w) \<Rightarrow> ((Some (Some (journal_error_result t Io_error No_commit detail)), t), w)
            | (None, w) \<Rightarrow>
                (case await_conflict_decision w of
                   (None, w) \<Rightarrow>
                     ((Some (Some (result_for t Transfer_stopped Success No_commit
                         ''file transfer stopped while awaiting conflict decision'')), t), w)
                 | (Some decision, w) \<Rightarrow> answer_conflicts s fuel conflicts decision t w))"

section \<open>The two jobs\<close>

text \<open>The results of the jobs are \<^const>\<open>None\<close> when the fuel ran out. A directory leaf is not modelled,
  so there is no binding.\<close>

definition start_transfer ::
  "'h transfer_services \<Rightarrow> nat \<Rightarrow> FileTransferTransaction \<Rightarrow> 'h transfer_state \<Rightarrow>
   FileTransferResult option \<times> 'h transfer_state"
where
  "start_transfer s fuel t w =
     (case request_initial_conflicts s fuel t w of
        ((Some r, t), w) \<Rightarrow> (r, w)
      | ((None, t), w) \<Rightarrow> (let ((r, t), w) = continue_transfer s fuel t w in (r, w)))"

definition no_transfer ::
  "FileTransferRunStatus \<Rightarrow> OperationStatus \<Rightarrow> OperationEvidence \<Rightarrow> nat \<Rightarrow> string \<Rightarrow> FileTransferResult"
where
  "no_transfer run st known items detail =
     \<lparr>transfer_status = run, transfer_operation_status = st, transfer_evidence = known,
      transfer_completed = 0, transfer_total = items,
      transfer_failed_index = (if items = 0 then None else Some 0), transfer_destinations = [],
      transfer_detail = detail\<rparr>"

definition approve_overwrites ::
  "FileTransferSource list \<Rightarrow> FileTransferTransaction \<Rightarrow> FileTransferTransaction"
where
  "approve_overwrites sources t =
     t\<lparr>ft_items := map (\<lambda>(item, source).
        if source_revision_utf8 (transfer_overwrite_of source) = [] then item
        else authorize (transfer_overwrite_of source) item) (zip (ft_items t) sources)\<rparr>"

definition run_transfer ::
  "'h transfer_services \<Rightarrow> nat \<Rightarrow> FileTransferKind \<Rightarrow> FileTransferSource list \<Rightarrow> 'h transfer_state \<Rightarrow>
   FileTransferResult option \<times> 'h transfer_state"
where
  "run_transfer s fuel kind sources w =
     (let items = length sources;
          invalid = no_transfer Transfer_invalid_request Invalid_request No_commit items in
      if journal_path w = [] then (Some (invalid ''file-transfer journal path is empty''), w)
      else let (existing, w) = read_journal w in
      if journal_status existing \<noteq> Journal_not_found then
        (Some (no_transfer Transfer_recovery_required Unknown_outcome Evidence_none items
           ''an unfinished operation must be recovered first''), w\<lparr>recovery_pending := True\<rparr>)
      else let (operation_id, w) = next_operation_id w in
        case prepare_file_transfer_transaction kind sources operation_id of
          Inl what \<Rightarrow> (Some (invalid what), w)
        | Inr t \<Rightarrow>
            let t = approve_overwrites sources t in
            case persist_transfer t w of
              (Some detail, w) \<Rightarrow> (Some (journal_error_result t Io_error No_commit detail), w)
            | (None, w) \<Rightarrow> start_transfer s fuel t w)"

definition resume_transfer ::
  "'h transfer_services \<Rightarrow> nat \<Rightarrow> 'h transfer_state \<Rightarrow> FileTransferResult option \<times> 'h transfer_state"
where
  "resume_transfer s fuel w =
     (let (loaded, w) = read_journal w;
          unreadable = no_transfer Transfer_journal_error Io_error Evidence_none 0 in
      if journal_status loaded \<noteq> Journal_success \<or> current_encoding loaded \<noteq> Typed \<or>
         current_kind loaded \<noteq> kind_file_transfer then
        (Some (unreadable
           (if journal_status loaded = Journal_not_found
            then ''there is no file transfer to recover''
            else ''current operation journal is not the expected file transfer'')), w)
      else case decode_file_transfer_transaction (current_payload loaded) of
        Inl detail \<Rightarrow> (Some (unreadable detail), w)
      | Inr t \<Rightarrow> start_transfer s fuel t w)"

text \<open>\<open>owns_recovery\<close>.\<close>

definition transfer_owns_recovery :: "'h transfer_state \<Rightarrow> bool \<times> 'h transfer_state" where
  "transfer_owns_recovery w =
     (let (loaded, w) = read_journal w;
          owns = (journal_status loaded = Journal_success \<and> current_encoding loaded = Typed \<and>
                  current_kind loaded = kind_file_transfer)
      in (owns, w\<lparr>recovery_pending := (journal_status loaded \<noteq> Journal_not_found)\<rparr>))"

end
