(* ===== verification/Transfer_Steps.thy ===== *)
theory Transfer_Steps
  imports Transfer_Coordinator File_Transfer_Safety
begin

text \<open>
  What every run of the file transfer coordinator keeps, whatever its services answer. The journal
  always holds a valid record. Nothing is submitted that the durable record does not announce. A step
  that is taken as committed moves one item along \<open>item_step\<close>, the state machine of an item.
\<close>

section \<open>The record that the journal holds\<close>

definition transfer_record :: "FileTransferTransaction \<Rightarrow> DurableJournalStatus \<times> byte list \<Rightarrow> bool" where
  "transfer_record = record_of encode_file_transfer_transaction kind_file_transfer"

definition transfer_recorded :: "FileTransferTransaction \<Rightarrow> disk \<Rightarrow> bool" where
  "transfer_recorded = recorded_with transfer_record"

definition undoing_steps :: "FileTransferStep list" where
  "undoing_steps = [Restore_staged_source, Restore_overwrite_destination, Cleanup_temp]"

text \<open>In a clean-up nothing but undoing is under way.\<close>

definition orderly :: "FileTransferTransaction \<Rightarrow> bool" where
  "orderly t \<longleftrightarrow> (ft_phase t = Transfer_prepublish_cleanup \<longrightarrow>
     ft_step t = No_transfer_step \<or> ft_step t \<in> set undoing_steps)"

lemma transfer_recorded_valid:
  "transfer_recorded t d \<Longrightarrow> valid_file_transfer_transaction t = Inr ()"
  by (auto simp: transfer_recorded_def recorded_with_def disk_views_def transfer_record_def
      record_of_def encode_transfer_iff)

section \<open>What is announced\<close>

definition erasing_steps :: "FileTransferStep list" where
  "erasing_steps = [Cleanup_temp, Delete_source, Cleanup_overwrite_destination]"

definition announces :: "FileTransferTransaction \<Rightarrow> submission \<Rightarrow> bool" where
  "announces t what \<longleftrightarrow>
     (let index = unat (ft_index t); step = ft_step t in
      case what of
        Moves request \<Rightarrow> step \<in> set rename_steps \<and> request = rename_request t index step
      | Erases request \<Rightarrow> step \<in> set erasing_steps \<and> request = delete_request t index step
      | Streams request \<Rightarrow>
          step = Reserve_temp \<and> request = stream_request t index Reserve_new \<or>
          step = Stream_temp \<and> request = stream_request t index Resume_existing
      | Fills request \<Rightarrow>
          step = Stream_temp \<and> request \<in> stream_request t index ` {Reserve_new, Resume_existing})"

definition announced :: "disk \<times> submission \<Rightarrow> bool" where
  "announced = (\<lambda>(d, what). \<exists>t. transfer_recorded t d \<and> announces t what)"

text \<open>The invariant of a run.\<close>

definition safely :: "disk \<Rightarrow> (disk \<times> submission) list \<Rightarrow> bool" where
  "safely d log \<longleftrightarrow> recoverable_with transfer_record orderly d \<and> list_all announced log"

lemma recorded_safely:
  "transfer_recorded t d \<Longrightarrow> orderly t \<Longrightarrow> list_all announced log \<Longrightarrow> safely d log"
  by (simp add: safely_def transfer_recorded_def recorded_recoverable_with)

lemma safely_announced: "safely d log \<Longrightarrow> list_all announced log"
  by (simp add: safely_def)

lemma safely_submission:
  "safely d log \<Longrightarrow> transfer_recorded t d \<Longrightarrow> announces t what \<Longrightarrow> safely d (log @ [(d, what)])"
  by (auto simp: safely_def announced_def)

section \<open>Calls that leave the journal alone\<close>

lemma stop_quiet:
  "stop_requested w = (b, w') \<Longrightarrow>
     journal w' = journal w \<and> submissions w' = submissions w \<and> decisions w' = decisions w"
  by (auto simp: stop_requested_def split: list.splits)

lemma publish_quiet [simp]:
  "journal (publish_progress t i step n w) = journal w"
  "submissions (publish_progress t i step n w) = submissions w"
  "decisions (publish_progress t i step n w) = decisions w"
  by (simp_all add: publish_progress_def)

lemma report_quiet [simp]:
  "journal (report_stream t i updates w) = journal w"
  "submissions (report_stream t i updates w) = submissions w"
  "decisions (report_stream t i updates w) = decisions w"
  unfolding report_stream_def by (induction updates arbitrary: w) simp_all

lemma note_submission_simps [simp]:
  "journal (note_submission what w) = journal w"
  "decisions (note_submission what w) = decisions w"
  "submissions (note_submission what w) = submissions w @ [(journal w, what)]"
  by (simp_all add: note_submission_def)

lemma submit_with_quiet:
  "submit_with op refusal work w = (r, w') \<Longrightarrow>
     journal w' = journal w \<and> submissions w' = submissions w \<and> decisions w' = decisions w"
  by (auto simp: submit_with_def Let_def split: prod.splits if_splits)

lemma submit_rename_quiet:
  "submit_rename s request reconcile w = (r, w') \<Longrightarrow>
     journal w' = journal w \<and> decisions w' = decisions w \<and>
     submissions w' = submissions w @ (if reconcile then [] else [(journal w, Moves request)])"
  by (auto simp: submit_rename_def dest: submit_with_quiet)

lemma submit_delete_quiet:
  "submit_delete s request reconcile w = (r, w') \<Longrightarrow>
     journal w' = journal w \<and> decisions w' = decisions w \<and>
     submissions w' = submissions w @ (if reconcile then [] else [(journal w, Erases request)])"
  by (auto simp: submit_delete_def dest: submit_with_quiet)

lemma next_accept_quiet:
  "next_accept w = (b, w') \<Longrightarrow>
     journal w' = journal w \<and> submissions w' = submissions w \<and> decisions w' = decisions w"
  by (auto simp: next_accept_def)

lemma new_request_token_quiet:
  "new_request_token t i w = (token, w') \<Longrightarrow>
     journal w' = journal w \<and> submissions w' = submissions w \<and> decisions w' = decisions w"
  by (auto simp: new_request_token_def Let_def split: if_splits)

lemma probe_temp_quiet:
  "probe_temp s t i w = (r, w') \<Longrightarrow>
     journal w' = journal w \<and> submissions w' = submissions w \<and> decisions w' = decisions w"
  by (auto simp: probe_temp_def split: prod.splits if_splits dest!: submit_delete_quiet)

lemma probe_staged_source_quiet:
  "probe_staged_source s t i w = (r, w') \<Longrightarrow>
     journal w' = journal w \<and> submissions w' = submissions w \<and> decisions w' = decisions w"
  by (auto simp: probe_staged_source_def split: prod.splits if_splits dest!: submit_delete_quiet)

lemma nested_pair: obtains a b c where "p = ((a, b), c)"
  by (cases p) (metis surj_pair)

text \<open>A stream or an audit does to the transaction and the journal what its callback does, or nothing.\<close>

definition untouched :: "'h transfer_state \<Rightarrow> 'h transfer_state \<Rightarrow> bool" where
  "untouched w w' \<longleftrightarrow>
     journal w' = journal w \<and> submissions w' = submissions w \<and> decisions w' = decisions w"

definition called_back ::
  "('r \<Rightarrow> 'a \<Rightarrow> 'h transfer_state \<Rightarrow> ('b \<times> 'a) \<times> 'h transfer_state) \<Rightarrow> 'a \<Rightarrow> 'h transfer_state \<Rightarrow>
   'a \<Rightarrow> 'h transfer_state \<Rightarrow> bool"
where
  "called_back commit x w x' w' \<longleftrightarrow>
     x' = x \<and> untouched w w' \<or>
     (\<exists>r answer w1 w2. untouched w w1 \<and> commit r x w1 = ((answer, x'), w2) \<and> untouched w2 w')"

lemma submit_stream_cases:
  assumes "submit_stream s request commit x w = ((closed, x'), w')"
  shows "called_back commit x w x' w'"
proof -
  obtain b w1 where accept: "next_accept w = (b, w1)" by fastforce
  obtain r h where opened: "stream_open s request (service w1) = (r, h)" by fastforce
  note run = assms [unfolded submit_stream_def Let_def accept prod.case opened]
  note w1 = next_accept_quiet [OF accept]
  show ?thesis
  proof (cases "b \<and> r \<noteq> None")
    case True
    then obtain v where v: "r = Some v" by blast
    obtain answer x2 w2 where hook: "commit v x (w1\<lparr>service := h\<rparr>) = ((answer, x2), w2)"
      by (rule nested_pair)
    have "x' = x2 \<and> untouched w2 w'"
      using run True v hook by (auto simp: untouched_def split: prod.splits option.splits)
    moreover have "untouched w (w1\<lparr>service := h\<rparr>)" using w1 by (simp add: untouched_def)
    ultimately show ?thesis using hook unfolding called_back_def by blast
  next
    case False
    then have "x' = x \<and> untouched w w'"
      using run w1 by (auto simp: untouched_def split: prod.splits if_splits)
    then show ?thesis by (simp add: called_back_def)
  qed
qed

lemma submit_audit_cases:
  assumes "submit_audit s request commit x w = ((result, x'), w')"
  shows "called_back commit x w x' w'"
proof -
  obtain b w1 where accept: "next_accept w = (b, w1)" by fastforce
  obtain r h where opened: "audit_open s request (service w1) = (r, h)" by fastforce
  note run = assms [unfolded submit_audit_def Let_def accept prod.case opened]
  note w1 = next_accept_quiet [OF accept]
  show ?thesis
  proof (cases "b \<and> r \<noteq> None")
    case True
    then obtain v where v: "r = Some v" by blast
    obtain answer x2 w2 where hook: "commit v x (w1\<lparr>service := h\<rparr>) = ((answer, x2), w2)"
      by (rule nested_pair)
    have "x' = x2 \<and> untouched w2 w'"
      using run True v hook by (auto simp: untouched_def split: prod.splits)
    moreover have "untouched w (w1\<lparr>service := h\<rparr>)" using w1 by (simp add: untouched_def)
    ultimately show ?thesis using hook unfolding called_back_def by blast
  next
    case False
    then have "x' = x \<and> untouched w w'"
      using run w1 by (auto simp: untouched_def split: prod.splits if_splits)
    then show ?thesis by (simp add: called_back_def)
  qed
qed

lemma probe_reservation_quiet:
  assumes "probe_reservation s t i w = (r, w')"
  shows "journal w' = journal w \<and> submissions w' = submissions w \<and> decisions w' = decisions w"
proof -
  obtain closed found w1 where run: "submit_stream s (plain_stream t i Probe_reservation
      (ft_temp_destination (item_at t i)) [] empty_snapshot empty_snapshot
      (ft_destination_parent_identity (item_at t i)) [] [] [])
      (\<lambda>reservation _ w.
         ((if unat (size_bytes (reserved_temp_snapshot reservation)) \<noteq>
                kFileTransferReservationMarkerBytes
           then Some ''the reserved transfer path contains another object'' else None,
           Some reservation), w)) None w = ((closed, found), w1)"
    by (rule nested_pair)
  note result = assms [unfolded probe_reservation_def Let_def run prod.case]
  have "w' = w1"
  proof (cases "\<exists>c v. closed = Some c \<and> found = Some v")
    case True
    then obtain c v where "closed = Some c" "found = Some v" by blast
    with result show ?thesis by (cases c) (simp split: if_split_asm)
  next
    case False
    with result show ?thesis by (auto split: option.split_asm)
  qed
  with submit_stream_cases [OF run] show ?thesis by (auto simp: called_back_def untouched_def)
qed

section \<open>Writing the journal\<close>

lemma safely_disk_ok: "safely d log \<Longrightarrow> disk_ok d"
  by (simp add: safely_def recoverable_with_def)

lemma persist_transfer_effect:
  assumes "persist_transfer t w = (r, w')"
  shows "submissions w' = submissions w" "decisions w' = decisions w"
    "disk_ok (journal w) \<Longrightarrow> r = None \<Longrightarrow> transfer_recorded t (journal w')"
    "safely (journal w) log \<Longrightarrow> orderly t \<Longrightarrow> safely (journal w') log"
proof -
  note run = assms [unfolded persist_transfer_def]
  show "submissions w' = submissions w" "decisions w' = decisions w"
    using run
    by (auto simp: persist_payload_def refresh_recovery_pending_def read_journal_def Let_def
        split: sum.splits prod.splits if_splits)
  show "transfer_recorded t (journal w')" if "disk_ok (journal w)" "r = None"
    using persist_payload_effect(4) [where encode = encode_file_transfer_transaction, OF run that(1)] that(2)
    by (simp add: transfer_recorded_def transfer_record_def)
  show "safely (journal w') log" if "safely (journal w) log" "orderly t"
    using persist_payload_recoverable(1) [where encode = encode_file_transfer_transaction and accounts = orderly, OF run] that
    by (simp add: safely_def transfer_record_def)
qed

section \<open>The state machine of an item\<close>

text \<open>Strategy, place of the source, state of the destination and of what it replaces, and whether a
  reservation may exist.\<close>

type_synonym stage =
  "FileTransferStrategy \<times> FileTransferSourceLocation \<times> FileTransferDestinationState \<times>
   OverwriteDestinationState \<times> bool"

definition stage_of :: "FileTransferItem \<Rightarrow> stage" where
  "stage_of item =
     (ft_strategy item, ft_source_location item, ft_destination_state item, ft_overwrite_state item,
      \<not> token_empty (ft_request_token item))"

inductive item_step :: "FileTransferStep \<Rightarrow> stage \<Rightarrow> stage \<Rightarrow> bool" where
  moved: "v' = v \<or> v' = Overwrite_none \<Longrightarrow>
    item_step Atomic_move (Move_undecided, Source_original, Destination_absent, v, k)
      (Move_atomic, Source_removed, Destination_published, v', k)"
| crossed: "item_step Atomic_move (Move_undecided, l, d, v, k) (Move_stream, l, d, v, k)"
| staged: "item_step Stage_source (Move_stream, Source_original, d, v, k)
    (Move_stream, Source_staged, d, v, k)"
| filled: "d = Destination_absent \<or> d = Temp_reserved \<Longrightarrow>
    item_step Stream_temp (m, l, d, v, k) (m, l, Content_ready, v, k')"
| published: "v' = v \<or> v' = Overwrite_none \<Longrightarrow>
    item_step Publish_temp (m, l, Content_ready, v, k) (m, l, Destination_published, v', k)"
| removed: "item_step Delete_source (Move_stream, Source_staged, Destination_published, v, k)
    (Move_stream, Source_removed, Destination_published, v, k)"
| evacuated: "item_step Evacuate_overwrite_destination (m, l, d, Overwrite_authorized, k)
    (m, l, d, Overwrite_evacuated, k)"
| dropped: "item_step Cleanup_overwrite_destination
    (m, l, Destination_published, Overwrite_evacuated, k) (m, l, Destination_published, Overwrite_none, k)"
| put_back: "item_step Restore_staged_source (Move_stream, Source_staged, d, v, k)
    (Move_stream, Source_original, d, v, k)"
| discarded: "d = Temp_reserved \<or> d = Content_ready \<Longrightarrow>
    item_step Cleanup_temp (m, l, d, v, k) (m, l, Destination_absent, v, False)"
| reinstated: "v = Overwrite_evacuated \<or> v = Overwrite_evacuated_unexpected \<Longrightarrow>
    item_step Restore_overwrite_destination (m, l, d, v, k) (m, l, d, Overwrite_none, k)"

inductive_simps item_step_simps [simp]:
  "item_step Atomic_move s s'" "item_step Stage_source s s'" "item_step Stream_temp s s'"
  "item_step Publish_temp s s'" "item_step Delete_source s s'"
  "item_step Evacuate_overwrite_destination s s'" "item_step Cleanup_overwrite_destination s s'"
  "item_step Restore_staged_source s s'" "item_step Cleanup_temp s s'"
  "item_step Restore_overwrite_destination s s'"

text \<open>The first steps take an item to its end, the last three take it back.\<close>

definition stages :: "FileTransferTransaction \<Rightarrow> stage list" where
  "stages t = map stage_of (ft_items t)"

definition stepped :: "FileTransferStep \<Rightarrow> nat \<Rightarrow> FileTransferTransaction \<Rightarrow> FileTransferTransaction \<Rightarrow> bool"
where
  "stepped step i t t' \<longleftrightarrow> i < length (stages t) \<and>
     (\<exists>after. stages t' = (stages t)[i := after] \<and> item_step step (stages t ! i) after)"

text \<open>What a step that is taken as committed does; \<open>ds\<close> are the answers that the user has left to
  give.\<close>

definition undoing :: "FileTransferTransaction \<Rightarrow> bool" where
  "undoing t \<longleftrightarrow> ft_phase t = Transfer_prepublish_cleanup"

definition taken ::
  "FileTransferTransaction \<Rightarrow> 'd list \<Rightarrow> FileTransferTransaction \<Rightarrow> 'd list \<Rightarrow> bool"
where
  "taken t ds t' ds' \<longleftrightarrow> ft_step t' = No_transfer_step \<and> (undoing t' \<longleftrightarrow> undoing t) \<and>
     (ds' = ds \<and> (ft_step t \<noteq> No_transfer_step \<and> t' = clear_active t \<or>
                  (\<exists>i step. stepped step i t t' \<and> (step \<in> set undoing_steps \<longleftrightarrow> undoing t))) \<or>
      length ds' < length ds \<and> \<not> undoing t)"

text \<open>The condition under which a step ends.\<close>

definition step_post ::
  "FileTransferTransaction \<Rightarrow> 'h transfer_state \<Rightarrow> 'h step_end \<Rightarrow> bool"
where
  "step_post t w = (\<lambda>((r, t'), w').
     safely (journal w') (submissions w') \<and> orderly t' \<and>
     ft_kind t' = ft_kind t \<and> length (ft_items t') = length (ft_items t) \<and>
     length (decisions w') \<le> length (decisions w) \<and>
     (outcome r = Outcome_committed \<longrightarrow>
        transfer_recorded t' (journal w') \<and> taken t (decisions w) t' (decisions w')) \<and>
     (outcome r = Outcome_clean_failure \<longrightarrow>
        transfer_recorded t' (journal w') \<and> undoing t' \<and> ft_step t' = No_transfer_step))"

text \<open>Where a step is on its way: what it started from and what it has reached.\<close>

definition under_way ::
  "FileTransferTransaction \<Rightarrow> 'h transfer_state \<Rightarrow> FileTransferTransaction \<Rightarrow> 'h transfer_state \<Rightarrow> bool"
where
  "under_way t w t' w' \<longleftrightarrow>
     safely (journal w') (submissions w') \<and> orderly t' \<and>
     ft_kind t' = ft_kind t \<and> length (ft_items t') = length (ft_items t) \<and>
     length (decisions w') \<le> length (decisions w)"

lemma transfer_step_result_simps [simp]:
  "outcome (transfer_step_result a st k d) = a" "outcome_status (transfer_step_result a st k d) = st"
  "outcome_evidence (transfer_step_result a st k d) = k"
  "outcome_detail (transfer_step_result a st k d) = d"
  "outcome (transfer_journal_failure k d) = Outcome_journal_error"
  by (simp_all add: transfer_step_result_def transfer_journal_failure_def)

lemma step_post_open:
  "under_way t w t' w' \<Longrightarrow> outcome r \<notin> {Outcome_committed, Outcome_clean_failure} \<Longrightarrow>
     step_post t w ((r, t'), w')"
  by (simp add: step_post_def under_way_def)

lemma saved_step:
  assumes "under_way t w t1 w1"
    and "\<And>w2. under_way t w t1 w2 \<Longrightarrow> transfer_recorded t1 (journal w2) \<Longrightarrow>
      decisions w2 = decisions w1 \<Longrightarrow> submissions w2 = submissions w1 \<Longrightarrow> step_post t w (f w2)"
  shows "step_post t w
    (case persist_transfer t1 w1 of
       (Some detail, w1) \<Rightarrow> ((transfer_journal_failure known detail, t1), w1)
     | (None, w1) \<Rightarrow> f w1)"
proof -
  obtain r w2 where run: "persist_transfer t1 w1 = (r, w2)" by fastforce
  note effect = persist_transfer_effect [OF run]
  from assms(1) effect(1,2) have under: "under_way t w t1 w2"
    using effect(4) by (simp add: under_way_def)
  show ?thesis
  proof (cases r)
    case None
    have "transfer_recorded t1 (journal w2)"
      using effect(3) assms(1) None by (auto simp: under_way_def dest: safely_disk_ok)
    with assms(2) [OF under] effect(1,2) None run show ?thesis by simp
  next
    case (Some detail)
    with run under show ?thesis by (simp add: step_post_open)
  qed
qed

lemma saving_post:
  assumes "under_way t w t1 w1"
    and "outcome result = Outcome_committed \<Longrightarrow> taken t (decisions w) t1 (decisions w1)"
    and "outcome result = Outcome_clean_failure \<Longrightarrow> undoing t1 \<and> ft_step t1 = No_transfer_step"
  shows "step_post t w (saving known result t1 w1)"
  unfolding saving_def
proof (rule saved_step [OF assms(1)])
  fix w2
  assume "under_way t w t1 w2" "transfer_recorded t1 (journal w2)" "decisions w2 = decisions w1"
  with assms(2,3) show "step_post t w ((result, t1), w2)" by (auto simp: step_post_def under_way_def)
qed

lemma persist_committed_post:
  assumes "under_way t w t1 w1" "taken t (decisions w) t1 (decisions w1)"
  shows "step_post t w (persist_committed t1 w1)"
  unfolding persist_committed_def
proof (rule saved_step [OF assms(1)])
  fix w2
  assume w2: "under_way t w t1 w2" "transfer_recorded t1 (journal w2)" "decisions w2 = decisions w1"
  obtain b w3 where stop: "stop_requested w2 = (b, w3)" by fastforce
  from stop_quiet [OF stop] w2 assms(2) show "step_post t w
      (let (stopped, w) = stop_requested w2 in
       ((if stopped then transfer_step_result Outcome_stopped Success Committed
             ''file transfer stopped after recording a completed step''
         else transfer_step_result Outcome_committed Success Committed [], t1), w))"
    by (simp add: stop step_post_def under_way_def)
qed

section \<open>What the parts of a step change\<close>

lemmas transfer_changes =
  with_item_def clear_active_def clear_failure_def activate_transfer_def note_transfer_failure_def
  current_version_def undoing_def orderly_def

lemma settle_success_simps [simp]:
  "ft_items (settle_success t) = ft_items t" "ft_kind (settle_success t) = ft_kind t"
  "ft_step (settle_success t) = No_transfer_step" "undoing (settle_success t) \<longleftrightarrow> undoing t"
  "orderly (settle_success t)"
  by (auto simp: settle_success_def Let_def transfer_changes)

text \<open>A step that is under way, as its record says.\<close>

definition active :: "FileTransferTransaction \<Rightarrow> nat \<Rightarrow> FileTransferStep \<Rightarrow> bool" where
  "active t i step \<longleftrightarrow> transfer_step_matches t \<and> orderly t \<and> ft_step t = step \<and>
     step \<noteq> No_transfer_step \<and> unat (ft_index t) = i"

lemma activeD:
  assumes "active t i step"
  shows "i < length (ft_items t)" "step \<in> set undoing_steps \<longleftrightarrow> undoing t" "ft_step t = step"
    "step \<noteq> No_transfer_step" "orderly t"
  using assms
  by (auto simp: active_def transfer_step_matches_def undoing_steps_def orderly_def undoing_def Let_def
      split: if_split_asm FileTransferStep.split_asm)

lemma valid_transfer_matches:
  "valid_file_transfer_transaction t = Inr () \<Longrightarrow> transfer_step_matches t"
  by (rule valid_transferD)

lemma begin_step_effect:
  assumes "begin_step t i step w = ((r, t1), w1)"
  shows "t1 = activate_transfer t i step" "submissions w1 = submissions w" "decisions w1 = decisions w"
    "safely (journal w) log \<Longrightarrow> undoing t \<longrightarrow> step \<in> set undoing_steps \<Longrightarrow> safely (journal w1) log"
    "safely (journal w) log \<Longrightarrow> undoing t \<longrightarrow> step \<in> set undoing_steps \<Longrightarrow> r = None \<Longrightarrow>
       step \<noteq> No_transfer_step \<Longrightarrow> i < 2 ^ 32 \<Longrightarrow>
       transfer_recorded t1 (journal w1) \<and> active t1 i step"
proof -
  obtain r' w' where run: "persist_transfer (activate_transfer t i step) w = (r', w')" by fastforce
  with assms have eqs: "t1 = activate_transfer t i step" "r' = r" "w' = w1"
    by (auto simp: begin_step_def Let_def)
  then show "t1 = activate_transfer t i step" by simp
  note effect = persist_transfer_effect [OF run [unfolded eqs(2,3)]]
  then show "submissions w1 = submissions w" "decisions w1 = decisions w" by simp_all
  have orderly: "orderly t1" if "undoing t \<longrightarrow> step \<in> set undoing_steps"
    using that by (simp add: eqs(1) transfer_changes)
  then show "safely (journal w1) log"
    if "safely (journal w) log" "undoing t \<longrightarrow> step \<in> set undoing_steps"
    using effect(4) that by (simp add: eqs(1))
  show "transfer_recorded t1 (journal w1) \<and> active t1 i step"
    if "safely (journal w) log" "undoing t \<longrightarrow> step \<in> set undoing_steps" "r = None"
      "step \<noteq> No_transfer_step" "i < 2 ^ 32"
  proof -
    have "transfer_recorded t1 (journal w1)"
      using effect(3) that safely_disk_ok by (auto simp: eqs(1))
    moreover from this have "transfer_step_matches t1"
      by (rule valid_transfer_matches [OF transfer_recorded_valid])
    moreover have "unat (word_of_nat i :: u32) = i"
      using that(5) by (simp add: unsigned_of_nat take_bit_nat_eq_self)
    ultimately show ?thesis
      using orderly that by (simp add: active_def eqs(1) activate_transfer_def)
  qed
qed

lemma replaced_in_place_cases:
  "replaced_in_place t item = item \<or> replaced_in_place t item = clear_overwrite item"
  by (simp add: replaced_in_place_def)

lemma renamed_item_step:
  assumes "active t i step" "renamed_item t step confirmed (item_at t i) = Some item"
  shows "item_step step (stage_of (item_at t i)) (stage_of item)"
proof -
  let ?item = "item_at t i"
  from assms(1) have matches: "transfer_step_matches t" "ft_step t = step" "unat (ft_index t) = i"
      "step \<noteq> No_transfer_step"
    by (simp_all add: active_def)
  note matches = matches(1) [unfolded transfer_step_matches_def Let_def matches(2,3)
      item_at_def [symmetric]]
  show ?thesis
  proof (cases step)
    case Atomic_move
    with matches assms(2) show ?thesis
      using replaced_in_place_cases [of t "?item\<lparr>ft_strategy := Move_atomic,
        ft_source_location := Source_removed, ft_destination_state := Destination_published,
        ft_destination_snapshot := confirmed\<rparr>"]
      by (auto simp: renamed_item_def stage_of_def clear_overwrite_def split: if_split_asm)
  next
    case Publish_temp
    with matches assms(2) show ?thesis
      using replaced_in_place_cases [of t "?item\<lparr>ft_destination_state := Destination_published,
        ft_destination_snapshot := confirmed\<rparr>"]
      by (auto simp: renamed_item_def stage_of_def clear_overwrite_def split: if_split_asm)
  qed (use matches assms(2) in \<open>auto simp: renamed_item_def stage_of_def clear_overwrite_def
         split: if_split_asm\<close>)
qed

section \<open>Renames\<close>

text \<open>How far a step has come that has changed nothing yet.\<close>

definition pending ::
  "FileTransferTransaction \<Rightarrow> 'h transfer_state \<Rightarrow> nat \<Rightarrow> FileTransferStep \<Rightarrow>
   FileTransferTransaction \<Rightarrow> 'h transfer_state \<Rightarrow> bool"
where
  "pending t w i step t1 w1 \<longleftrightarrow>
     active t1 i step \<and> under_way t w t1 w1 \<and> stages t1 = stages t \<and>
     (undoing t1 \<longleftrightarrow> undoing t) \<and> decisions w1 = decisions w"

lemma pendingD:
  assumes "pending t w i step t1 w1"
  shows "active t1 i step" "under_way t w t1 w1" "stages t1 = stages t"
    "undoing t1 \<longleftrightarrow> undoing t" "decisions w1 = decisions w"
  using assms by (simp_all add: pending_def)

lemma pending_moves:
  "pending t w i step t1 w1 \<Longrightarrow> journal w2 = journal w1 \<Longrightarrow> decisions w2 = decisions w1 \<Longrightarrow>
     safely (journal w1) (submissions w2) \<Longrightarrow> pending t w i step t1 w2"
  by (simp add: pending_def under_way_def)

lemma pending_settled:
  assumes "pending t w i step t1 w1" "ft_items t2 = (ft_items t1)[i := item]"
    and "item_step step (stage_of (item_at t1 i)) (stage_of item)" "ft_step t2 = No_transfer_step"
    and "undoing t2 \<longleftrightarrow> undoing t1" "ft_kind t2 = ft_kind t1"
  shows "under_way t w t2 w1" "taken t (decisions w) t2 (decisions w1)"
proof -
  note t1 = pendingD [OF assms(1)] and act = activeD [OF pendingD(1) [OF assms(1)]]
  show "under_way t w t2 w1"
    using t1 assms by (auto simp: under_way_def orderly_def)
  have "i < length (stages t1)" "stages t1 ! i = stage_of (item_at t1 i)"
    "stages t2 = (stages t1)[i := stage_of item]"
    using act(1) assms(2) by (simp_all add: stages_def item_at_def map_update)
  with assms(3) have "stepped step i t t2" unfolding stepped_def t1(3) [symmetric] by metis
  with assms(4,5) t1 act(2) show "taken t (decisions w) t2 (decisions w1)"
    unfolding taken_def by blast
qed

lemma preserve_uncertain_post:
  "under_way t w t1 w1 \<Longrightarrow> step_post t w (preserve_uncertain t1 st known detail w1)"
  unfolding preserve_uncertain_def
  by (rule saving_post) (auto simp: under_way_def transfer_changes)

lemma preserve_open_post:
  "under_way t w t1 w1 \<Longrightarrow> step_post t w (preserve_open t1 result w1)"
  unfolding preserve_open_def preserve_cleanup_uncertain_def
  using preserve_uncertain_post [of t w t1 w1]
  by (auto intro!: saving_post simp: under_way_def transfer_changes)

lemma enter_cleanup_post:
  "under_way t w t1 w1 \<Longrightarrow> step_post t w (enter_cleanup t1 st known detail w1)"
  unfolding enter_cleanup_def
  by (rule saving_post) (auto simp: under_way_def transfer_changes)

lemma settle_renamed_post:
  assumes "pending t w i step t1 w1"
  shows "step_post t w (settle_renamed t1 i step result w1)"
proof (cases "apply_rename_success t1 i step result")
  case (Inl detail)
  with pendingD(2) [OF assms] show ?thesis
    by (simp add: settle_renamed_def preserve_uncertain_post)
next
  case (Inr t2)
  then obtain item where item: "renamed_item t1 step (confirmed_snapshot result) (item_at t1 i) = Some item"
      "t2 = settle_success (with_item i (\<lambda>_. item) t1)"
    by (auto simp: apply_rename_success_def Let_def split: if_split_asm option.split_asm)
  note step = renamed_item_step [OF pendingD(1) [OF assms] item(1)]
  have "ft_items t2 = (ft_items t1)[i := item]" "ft_step t2 = No_transfer_step"
    "undoing t2 \<longleftrightarrow> undoing t1" "ft_kind t2 = ft_kind t1"
    by (simp_all add: item(2)) (simp_all add: transfer_changes)
  note settled = pending_settled [OF assms this(1) step this(2-4)]
  show ?thesis
    using persist_committed_post [OF settled] Inr by (simp add: settle_renamed_def)
qed

lemma unexpected_evacuation_under_way:
  assumes "under_way t w t1 w1" "record_unexpected_evacuation t1 i step result resumed = Some t2"
  shows "under_way t w t2 w1"
  using assms
  by (auto simp: record_unexpected_evacuation_def under_way_def transfer_changes split: if_split_asm)

text \<open>The question about a conflict.\<close>

lemma try_copy_names_quiet:
  assumes "try_copy_names s t i ordinals w = (r, w')"
  shows "journal w' = journal w \<and> submissions w' = submissions w \<and> decisions w' = decisions w \<and>
    (\<forall>t'. r = Some t' \<longrightarrow> (\<exists>c. t' = with_item i (with_destination (ft_operation_id t) i c) t))"
  using assms
proof (induction ordinals arbitrary: w)
  case Nil
  then show ?case by simp
next
  case (Cons ordinal ordinals)
  obtain b w1 where stop: "stop_requested w = (b, w1)" by fastforce
  let ?candidate = "copy_destination_path (ft_destination (item_at t i)) ordinal"
  let ?request = "(rename_request t i Atomic_move)\<lparr>rename_mode := Transfer_atomic,
    rename_destination := ?candidate, rename_expected_destination := empty_snapshot\<rparr>"
  obtain res w2 where submit: "submit_rename s ?request True w1 = (res, w2)" by fastforce
  note run = Cons.prems [unfolded try_copy_names.simps Let_def stop prod.case submit]
  show ?case
    using run Cons.IH [of w1] Cons.IH [of w2] stop_quiet [OF stop] submit_rename_quiet [OF submit]
    by (auto split: if_split_asm)
qed

lemma under_way_moves:
  "under_way t w t1 w1 \<Longrightarrow> journal w2 = journal w1 \<Longrightarrow> submissions w2 = submissions w1 \<Longrightarrow>
     decisions w2 = decisions w1 \<Longrightarrow> under_way t w t1 w2"
  by (simp add: under_way_def)

lemma answered_post:
  assumes "under_way t w t1 w1" "length (decisions w1) < length (decisions w)"
    and "\<not> undoing t" "\<not> undoing t1" "ft_step t1 = No_transfer_step"
  shows "step_post t w (persist_committed t1 w1)"
  using assms by (intro persist_committed_post) (simp_all add: taken_def)

lemma answer_overwrite_post:
  assumes under: "under_way t w t1 w1" and fewer: "length (decisions w1) < length (decisions w)"
    and idle: "\<not> undoing t" "\<not> undoing t1" "ft_step t1 = No_transfer_step"
  shows "step_post t w (answer_overwrite s i destination decision t1 w1)"
proof -
  let ?t = "current_version t1"
  have under': "under_way t w (change ?t) w1"
    if "ft_kind (change ?t) = ft_kind t1" "length (ft_items (change ?t)) = length (ft_items t1)"
      "ft_step (change ?t) = No_transfer_step" for change
    using under that by (simp add: under_way_def orderly_def)
  show ?thesis
  proof (cases decision)
    case Create_copy
    obtain r w2 where names: "assign_copy_destination s ?t i w1 = (r, w2)" by fastforce
    note quiet = try_copy_names_quiet [OF names [unfolded assign_copy_destination_def]]
    show ?thesis
    proof (cases r)
      case None
      have "under_way t w ?t w2"
        using under_way_moves [OF under' [of id]] quiet idle(3) by (simp add: transfer_changes)
      then show ?thesis
        using Create_copy names None by (simp add: answer_overwrite_def enter_cleanup_post)
    next
      case (Some t2)
      with quiet obtain c where t2: "t2 = with_item i (with_destination (ft_operation_id ?t) i c) ?t"
        by blast
      have "under_way t w t2 w2"
        using under_way_moves [OF under' [of "with_item i (with_destination (ft_operation_id ?t) i c)"]]
          quiet idle(3) by (simp add: t2 transfer_changes)
      moreover have "\<not> undoing t2" "ft_step t2 = No_transfer_step"
        using idle by (simp_all add: t2 transfer_changes)
      ultimately have "step_post t w (persist_committed t2 w2)"
        using answered_post fewer quiet idle(1) by (metis (no_types))
      then show ?thesis using Create_copy names Some by (simp add: answer_overwrite_def)
    qed
  next
    case Overwrite_destination
    have "under_way t w (with_item i (authorize destination) ?t) w1"
      using under' [of "with_item i (authorize destination)"] idle(3) by (simp add: transfer_changes)
    moreover have "\<not> undoing (with_item i (authorize destination) ?t)"
        "ft_step (with_item i (authorize destination) ?t) = No_transfer_step"
      using idle by (simp_all add: transfer_changes)
    ultimately show ?thesis
      using answered_post [OF _ fewer idle(1)] Overwrite_destination
      by (simp add: answer_overwrite_def Let_def)
  next
    case Cancel_transfer
    have "under_way t w (?t\<lparr>ft_cancelled := True\<rparr>) w1"
      using under' [of "\<lambda>t. t\<lparr>ft_cancelled := True\<rparr>"] idle(3) by (simp add: transfer_changes)
    with Cancel_transfer show ?thesis by (simp add: answer_overwrite_def enter_cleanup_post)
  qed
qed

lemma request_overwrite_post:
  assumes at: "pending t w i step t1 w1" and forward: "\<not> undoing t"
    and run: "request_overwrite s t1 i probe w1 = ((r, t2), w2)"
  shows "r = Some result \<Longrightarrow> step_post t w ((result, t2), w2)"
    "r = None \<Longrightarrow> t2 = t1 \<and> pending t w i step t1 w2"
proof -
  note t1 = pendingD [OF at]
  obtain b v where stop: "stop_requested w1 = (b, v)" by fastforce
  obtain observed u where submit: "submit_rename s (rename_request t1 i probe) True v = (observed, u)"
    by fastforce
  let ?t = "clear_failure (clear_active t1)"
  note run = run [unfolded request_overwrite_def Let_def stop prod.case submit]
  note stopped = stop_quiet [OF stop] and submitted = submit_rename_quiet [OF submit]
  have v: "pending t w i step t1 v"
    by (rule pending_moves [OF at])
      (use stopped t1(2) in \<open>simp_all add: under_way_def\<close>)
  have u: "pending t w i step t1 u"
    by (rule pending_moves [OF at])
      (use stopped submitted t1(2) in \<open>simp_all add: under_way_def\<close>)
  obtain x w3 where persist: "persist_transfer ?t u = (x, w3)" by fastforce
  note run = run [unfolded persist prod.case]
  have "under_way t w ?t u"
    using pendingD(2) [OF u] by (simp add: under_way_def transfer_changes)
  with persist_transfer_effect [OF persist] have under: "under_way t w ?t w3"
    and same: "decisions w3 = decisions w"
    using pendingD(5) [OF u] by (simp_all add: under_way_def)
  consider (quiet) "b" | (idle) "\<not> b" "\<not> (conflict_handler v \<and>
        source_revision_utf8 (ft_overwrite_snapshot (item_at t1 i)) = [] \<and> found_conflict t1 observed)"
    | (asks) "\<not> b" "conflict_handler v"
      "source_revision_utf8 (ft_overwrite_snapshot (item_at t1 i)) = []" "found_conflict t1 observed"
    by blast
  then have "(r = None \<longrightarrow> t2 = t1 \<and> pending t w i step t1 w2) \<and>
    (\<forall>result. r = Some result \<longrightarrow> step_post t w ((result, t2), w2))"
  proof cases
    case quiet
    with run pendingD(2) [OF v] show ?thesis by (auto simp: step_post_open)
  next
    case idle
    with run u v show ?thesis by (auto split: if_split_asm)
  next
    case asks
    note run = run [simplified asks if_False if_True simp_thms not_not]
    show ?thesis
    proof (cases x)
      case None
      obtain d w4 where await: "await_conflict_decision w3 = (d, w4)" by fastforce
      show ?thesis
      proof (cases d)
        case None
        with await have "w4 = w3 \<or> decisions w3 \<noteq> [] \<and> w4 = w3\<lparr>decisions := tl (decisions w3)\<rparr>"
          by (auto simp: await_conflict_decision_def split: list.split_asm)
        with under have "under_way t w ?t w4" by (auto simp: under_way_def)
        with run await None \<open>x = None\<close> show ?thesis by (auto simp: step_post_open)
      next
        case (Some decision)
        with await have w4: "decisions w3 \<noteq> []" "w4 = w3\<lparr>decisions := tl (decisions w3)\<rparr>"
          by (auto simp: await_conflict_decision_def split: list.split_asm)
        have fewer: "length (decisions w4) < length (decisions w)"
          using w4 same by (cases "decisions w3") simp_all
        then have "under_way t w ?t w4"
          using under by (simp add: under_way_def w4(2))
        from this fewer have "step_post t w
            (answer_overwrite s i (confirmed_snapshot observed) decision ?t w4)"
          by (rule answer_overwrite_post) (use forward t1(4) in \<open>simp_all add: transfer_changes\<close>)
        with run await Some \<open>x = None\<close> show ?thesis by (auto split: prod.split_asm)
      qed
    next
      case (Some detail)
      with run under show ?thesis by (auto simp: step_post_open)
    qed
  qed
  then show "r = Some result \<Longrightarrow> step_post t w ((result, t2), w2)"
    "r = None \<Longrightarrow> t2 = t1 \<and> pending t w i step t1 w2" by simp_all
qed

text \<open>A step may begin: nothing is under way, and a clean-up only undoes.\<close>

definition may_begin ::
  "FileTransferTransaction \<Rightarrow> 'h transfer_state \<Rightarrow> nat \<Rightarrow> FileTransferStep \<Rightarrow> bool"
where
  "may_begin t w i step \<longleftrightarrow> safely (journal w) (submissions w) \<and> orderly t \<and>
     ft_step t = No_transfer_step \<and> i < 2 ^ 32 \<and> step \<noteq> No_transfer_step \<and>
     (undoing t \<longrightarrow> step \<in> set undoing_steps)"

lemma begin_step_pending:
  assumes "may_begin t w i step" "begin_step t i step w = ((r, t1), w1)"
  shows "under_way t w t1 w1"
    "r = None \<Longrightarrow> pending t w i step t1 w1 \<and> transfer_recorded t1 (journal w1)"
proof -
  note effect = begin_step_effect [OF assms(2)]
  have idle: "safely (journal w) (submissions w)" "undoing t \<longrightarrow> step \<in> set undoing_steps"
      "step \<noteq> No_transfer_step" "i < 2 ^ 32"
    using assms(1) by (simp_all add: may_begin_def)
  have "orderly t1" using idle(2) by (simp add: effect(1) transfer_changes)
  then show under: "under_way t w t1 w1"
    using effect(4) [OF idle(1,2)] by (simp add: under_way_def effect(2,3)) (simp add: effect(1) transfer_changes)
  show "pending t w i step t1 w1 \<and> transfer_recorded t1 (journal w1)" if "r = None"
    using effect(5) [OF idle(1,2) that idle(3,4)] under
    by (simp add: pending_def effect(3)) (simp add: effect(1) transfer_changes stages_def)
qed

lemma pending_announced:
  assumes "pending t w i step t1 w1" "transfer_recorded t1 (journal w1)" "announces t1 what"
    and "journal w2 = journal w1" "decisions w2 = decisions w1"
    and "submissions w2 = submissions w1 @ [(journal w1, what)]"
  shows "pending t w i step t1 w2"
proof (rule pending_moves [OF assms(1,4,5)])
  have "safely (journal w1) (submissions w1)"
    using pendingD(2) [OF assms(1)] by (simp add: under_way_def)
  then show "safely (journal w1) (submissions w2)"
    using safely_submission assms(2,3,6) by simp
qed

lemma crossed_post:
  assumes "pending t w i Atomic_move t1 w1"
  shows "step_post t w (saving No_commit (transfer_step_result Outcome_committed Cross_device No_commit [])
    (clear_failure (clear_active (with_item i
      (\<lambda>item. item\<lparr>ft_strategy := Move_stream, ft_stream_reason := Cross_device_no_commit\<rparr>) t1))) w1)"
proof -
  let ?item = "(item_at t1 i)\<lparr>ft_strategy := Move_stream, ft_stream_reason := Cross_device_no_commit\<rparr>"
  have "ft_strategy (item_at t1 i) = Move_undecided"
    using pendingD(1) [OF assms]
    by (auto simp: active_def transfer_step_matches_def item_at_def Let_def split: if_split_asm)
  then have "item_step Atomic_move (stage_of (item_at t1 i)) (stage_of ?item)"
    by (simp add: stage_of_def)
  note settled = pending_settled [OF assms _ this]
  show ?thesis
    by (rule saving_post) (use settled in \<open>auto simp: transfer_changes\<close>)
qed

lemma execute_rename_step_post:
  assumes idle: "may_begin t w i step" and step: "step \<in> set rename_steps"
  shows "step_post t w (execute_rename_step s t i step w)"
proof -
  obtain r t1 w1 where begun: "begin_step t i step w = ((r, t1), w1)" by (rule nested_pair)
  note begun' = begin_step_pending [OF idle begun]
  obtain b w2 where stop: "stop_requested (publish_progress t1 i step 0 w1) = (b, w2)" by fastforce
  obtain result w3 where submit: "submit_rename s (rename_request t1 i step) False w2 = (result, w3)"
    by fastforce
  note unfolded = execute_rename_step_def begun prod.case Let_def stop submit
  note stopped = stop_quiet [OF stop, simplified] and submitted = submit_rename_quiet [OF submit]
  show ?thesis
  proof (cases "r = None \<and> \<not> b")
    case False
    moreover have "under_way t w t1 w2" using begun'(1) stopped by (simp add: under_way_def)
    ultimately show ?thesis
      using begun'(1) unfolding unfolded by (auto simp: step_post_open split: option.split)
  next
    case True
    with begun'(2) have p1: "pending t w i step t1 w1" "transfer_recorded t1 (journal w1)" by simp_all
    have "announces t1 (Moves (rename_request t1 i step))"
      using pendingD(1) [OF p1(1)] step by (simp add: announces_def active_def)
    then have p3: "pending t w i step t1 w3"
      by (rule pending_announced [OF p1]) (use stopped submitted in simp_all)
    have uncertain: "step_post t w (preserve_uncertain t1 (status result) (evidence result) (detail_utf8 result) w3)"
      "ft_phase t1 = Transfer_prepublish_cleanup \<Longrightarrow> step_post t w
        (preserve_cleanup_uncertain t1 (status result) (evidence result) (detail_utf8 result) w3)"
      using preserve_uncertain_post [OF pendingD(2) [OF p3]]
        preserve_open_post [OF pendingD(2) [OF p3], of result] by (simp_all add: preserve_open_def)
    show ?thesis
    proof (cases "record_unexpected_evacuation t1 i step result False")
      case (Some t2)
      then show ?thesis
        using True enter_cleanup_post [OF unexpected_evacuation_under_way [OF pendingD(2) [OF p3] Some]]
        by (simp add: unfolded)
    next
      case None
      show ?thesis
      proof (cases "mutation_committed result \<or> step = Atomic_move \<and> status result = Cross_device \<and>
          confirmed_no_commit result \<or> undoing t1 \<or> \<not> confirmed_no_commit result")
        case other: True
        then show ?thesis
          using True None settle_renamed_post [OF p3] crossed_post [of t w i t1 w3] p3 uncertain
          by (auto simp: unfolded undoing_def)
      next
        case failed: False
        let ?asked = "if (step = Atomic_move \<or> step = Publish_temp) \<and> status result = Conflict
          then request_overwrite s t1 i step w3 else ((None, t1), w3)"
        obtain x t4 w4 where asked: "?asked = ((x, t4), w4)" by (rule nested_pair)
        have forward: "\<not> undoing t" using failed pendingD(4) [OF p3] by simp
        have "under_way t w t4 w4" if "x = None"
          using asked pendingD(2) [OF p3] that
          by (auto split: if_split_asm
              dest!: request_overwrite_post(2) [OF p3 forward _ refl] dest: pendingD(2))
        moreover have "step_post t w ((y, t4), w4)" if "x = Some y" for y
          using asked that
          by (auto split: if_split_asm intro: request_overwrite_post(1) [OF p3 forward _ refl])
        ultimately show ?thesis
          using True None failed asked enter_cleanup_post [of t w t4 w4]
          by (auto simp: unfolded undoing_def split: option.split)
      qed
    qed
  qed
qed

lemma taken_from:
  "taken t1 ds t' ds' \<Longrightarrow> stages t1 = stages t \<Longrightarrow> undoing t1 \<longleftrightarrow> undoing t \<Longrightarrow>
     ft_step t1 = No_transfer_step \<Longrightarrow> taken t ds t' ds'"
  unfolding taken_def stepped_def by metis

lemma step_post_from:
  assumes "step_post t1 w1 e" "under_way t w t1 w1" "stages t1 = stages t"
    and "undoing t1 \<longleftrightarrow> undoing t" "decisions w1 = decisions w" "ft_step t1 = No_transfer_step"
  shows "step_post t w e"
  using assms taken_from [OF _ assms(3,4,6)] by (auto simp: step_post_def under_way_def)

text \<open>A transaction with a step under way.\<close>

definition interrupted ::
  "FileTransferTransaction \<Rightarrow> 'h transfer_state \<Rightarrow> nat \<Rightarrow> FileTransferStep \<Rightarrow> bool"
where
  "interrupted t w i step \<longleftrightarrow> safely (journal w) (submissions w) \<and> active t i step"

lemma interrupted_pending:
  "interrupted t w i step \<Longrightarrow> journal w1 = journal w \<Longrightarrow> submissions w1 = submissions w \<Longrightarrow>
     decisions w1 = decisions w \<Longrightarrow> pending t w i step t w1"
  using activeD(5) by (auto simp: interrupted_def pending_def under_way_def)

lemma active_index: "active t i step \<Longrightarrow> i < 2 ^ 32"
  using unsigned_less [of "ft_index t"] by (auto simp: active_def)

lemma recover_rename_step_post:
  assumes at: "interrupted t w i step" and step: "step \<in> set rename_steps"
  shows "step_post t w (recover_rename_step s t i step w)"
proof -
  obtain result w1 where submit: "submit_rename s (rename_request t i step) True
      (publish_progress t i step 0 w) = (result, w1)" by fastforce
  note p1 = interrupted_pending [OF at, of w1]
  have p1: "pending t w i step t w1"
    by (rule p1) (use submit_rename_quiet [OF submit] in simp_all)
  note under = pendingD(2) [OF p1]
  let ?t = "clear_active t"
  let ?t' = "if ft_phase ?t \<noteq> Transfer_prepublish_cleanup then clear_failure ?t else ?t"
  have again: "step_post t w (execute_rename_step s ?t' i step w2)"
    if "under_way t w ?t' w2" "decisions w2 = decisions w" for w2
  proof (rule step_post_from)
    have "may_begin ?t' w2 i step"
      using that pendingD(1) [OF p1] activeD [OF pendingD(1) [OF p1]] active_index
      by (auto simp: may_begin_def under_way_def transfer_changes)
    then show "step_post ?t' w2 (execute_rename_step s ?t' i step w2)"
      using step by (rule execute_rename_step_post)
  qed (use that in \<open>simp_all add: transfer_changes stages_def\<close>)
  show ?thesis
  proof (cases "record_unexpected_evacuation t i step result (step = Evacuate_overwrite_destination)")
    case (Some t2)
    then show ?thesis
      using enter_cleanup_post [OF unexpected_evacuation_under_way [OF under Some]]
      by (simp add: recover_rename_step_def submit)
  next
    case None
    have under': "under_way t w ?t' w1" using under by (simp add: under_way_def transfer_changes)
    have "step_post t w (case persist_transfer ?t' w1 of
        (Some detail, w) \<Rightarrow> ((transfer_journal_failure No_commit detail, ?t'), w)
      | (None, w) \<Rightarrow> execute_rename_step s ?t' i step w)"
      by (rule saved_step [OF under']) (rule again, use pendingD(5) [OF p1] in simp_all)
    with None show ?thesis
      using settle_renamed_post [OF p1] preserve_open_post [OF under]
      by (simp add: recover_rename_step_def submit Let_def)
  qed
qed

section \<open>Deletions\<close>

lemma apply_delete_success_step:
  assumes "active t i step" "apply_delete_success t i step result = Inr t2"
  obtains item where "ft_items t2 = (ft_items t)[i := item]" "ft_kind t2 = ft_kind t"
    "item_step step (stage_of (item_at t i)) (stage_of item)" "ft_step t2 = No_transfer_step"
    "undoing t2 \<longleftrightarrow> undoing t"
proof -
  let ?item = "item_at t i"
  let ?change = "if step = Cleanup_temp then clear_destination_proof
    else if step = Delete_source then (\<lambda>item. item\<lparr>ft_source_location := Source_removed\<rparr>)
    else clear_overwrite"
  have t2: "t2 = settle_success (with_item i ?change t)" "step \<in> set erasing_steps"
    using assms(2) by (auto simp: apply_delete_success_def erasing_steps_def split: if_split_asm)
  from assms(1) have matches: "transfer_step_matches t" "ft_step t = step" "unat (ft_index t) = i"
    by (simp_all add: active_def)
  note matches = matches(1) [unfolded transfer_step_matches_def Let_def matches(2,3)
      item_at_def [symmetric]]
  have "item_step step (stage_of ?item) (stage_of (?change ?item))"
    using matches t2(2)
    by (auto simp: erasing_steps_def stage_of_def clear_destination_proof_def clear_overwrite_def
        token_empty_def list_all_length split: if_split_asm)
  moreover have "ft_items (with_item i ?change t) = (ft_items t)[i := ?change ?item]"
    "ft_kind (with_item i ?change t) = ft_kind t" "undoing (with_item i ?change t) \<longleftrightarrow> undoing t"
    by (simp_all add: transfer_changes)
  ultimately show thesis using that [of "?change ?item"] by (simp only: t2(1) settle_success_simps)
qed

lemma settle_deleted_post:
  assumes "pending t w i step t1 w1"
  shows "step_post t w (settle_deleted t1 i step result w1)"
proof (cases "apply_delete_success t1 i step result")
  case (Inl detail)
  with pendingD(2) [OF assms] show ?thesis
    by (simp add: settle_deleted_def preserve_uncertain_post)
next
  case (Inr t2)
  obtain item where "ft_items t2 = (ft_items t1)[i := item]" "ft_kind t2 = ft_kind t1"
    "item_step step (stage_of (item_at t1 i)) (stage_of item)" "ft_step t2 = No_transfer_step"
    "undoing t2 \<longleftrightarrow> undoing t1"
    by (rule apply_delete_success_step [OF pendingD(1) [OF assms] Inr])
  from pending_settled [OF assms this(1,3,4,5,2)] Inr show ?thesis
    by (simp add: settle_deleted_def persist_committed_post)
qed

lemma delete_now_post:
  assumes idle: "may_begin t w i step" and step: "step \<in> set erasing_steps"
  shows "step_post t w (delete_now s t i step w)"
proof -
  obtain r t1 w1 where begun: "begin_step t i step w = ((r, t1), w1)" by (rule nested_pair)
  note begun' = begin_step_pending [OF idle begun]
  obtain result w3 where submit: "submit_delete s (delete_request t1 i step) False
      (publish_progress t1 i step 0 w1) = (result, w3)" by fastforce
  note unfolded = delete_now_def begun prod.case Let_def submit
  show ?thesis
  proof (cases r)
    case None
    with begun'(2) have p1: "pending t w i step t1 w1" "transfer_recorded t1 (journal w1)" by simp_all
    have "announces t1 (Erases (delete_request t1 i step))"
      using pendingD(1) [OF p1(1)] step by (simp add: announces_def active_def)
    then have p3: "pending t w i step t1 w3"
      by (rule pending_announced [OF p1]) (use submit_delete_quiet [OF submit] in simp_all)
    with None show ?thesis
      using settle_deleted_post [OF p3] preserve_open_post [OF pendingD(2) [OF p3]]
      by (simp add: unfolded)
  next
    case (Some detail)
    with begun'(1) show ?thesis by (simp add: unfolded step_post_open)
  qed
qed

text \<open>The audit of a staged source changes the snapshots of the item only.\<close>

definition audited ::
  "FileTransferTransaction \<Rightarrow> 'h transfer_state \<Rightarrow> FileTransferTransaction \<Rightarrow> 'h transfer_state \<Rightarrow> bool"
where
  "audited t w t1 w1 \<longleftrightarrow> under_way t w t1 w1 \<and> stages t1 = stages t \<and> decisions w1 = decisions w \<and>
     (undoing t1 \<longleftrightarrow> undoing t) \<and> ft_step t1 = ft_step t"

lemma stages_with_item:
  "(\<And>item. stage_of (change item) = stage_of item) \<Longrightarrow> stages (with_item i change t) = stages t"
  by (cases "i < length (ft_items t)")
    (simp_all add: stages_def with_item_def item_at_def map_update list_update_same_conv
      list_update_beyond not_less)

lemma commit_source_audit_audited:
  assumes "commit_source_audit i expected digest bytes found t1 w1 = ((answer, t2), w2)"
    and at: "audited t w t1 w1"
  shows "audited t w t2 w2"
proof -
  let ?t = "with_item i (\<lambda>item. item\<lparr>ft_original_snapshot := streamed_source found,
    ft_current_snapshot := streamed_source found\<rparr>) t1"
  obtain r w3 where persist: "persist_transfer ?t w1 = (r, w3)" by fastforce
  have same: "stages ?t = stages t1" by (rule stages_with_item) (simp add: stage_of_def)
  have "orderly t1" using at by (simp add: audited_def under_way_def)
  then have orderly: "orderly ?t" by (simp add: transfer_changes)
  have saved: "audited t w ?t w3" "audited t w t1 w3"
    using at persist_transfer_effect [OF persist] same orderly
    unfolding audited_def under_way_def by (simp_all add: transfer_changes)
  show ?thesis
    using assms(1) at saved
    by (auto simp: commit_source_audit_def Let_def persist split: if_split_asm option.split_asm)
qed

lemma audited_untouched: "audited t w t1 w1 \<Longrightarrow> untouched w1 w2 \<Longrightarrow> audited t w t1 w2"
  by (simp add: audited_def under_way_def untouched_def)

lemma refresh_staged_source_post:
  assumes run: "refresh_staged_source_for_delete s t i w = ((r, t1), w1)"
    and at: "audited t w t w"
  shows "r = Some result \<Longrightarrow> step_post t w ((result, t1), w1)" "r = None \<Longrightarrow> audited t w t1 w1"
proof -
  obtain b w2 where stop: "stop_requested w = (b, w2)" by fastforce
  obtain observed w3 where probe: "probe_staged_source s t i w2 = (observed, w3)" by fastforce
  let ?item = "item_at t i" and ?seen = "probe_snapshot observed"
  obtain x t4 w4 where audit: "submit_audit s (staged_source_audit_request t i ?seen)
      (commit_source_audit i ?seen (ft_content_sha256 ?item) (ft_content_bytes ?item)) t w3 =
      ((x, t4), w4)" by (rule nested_pair)
  obtain c w5 where stop': "stop_requested w4 = (c, w5)" by fastforce
  note run = run [unfolded refresh_staged_source_for_delete_def Let_def stop prod.case probe audit stop']
  have w3: "audited t w t w2" "audited t w t w3"
    using at stop_quiet [OF stop] probe_staged_source_quiet [OF probe]
    by (simp_all add: audited_def under_way_def)
  have w4: "audited t w t4 w4"
    using submit_audit_cases [OF audit] unfolding called_back_def
  proof (elim disjE exE conjE)
    fix found answer v v'
    assume "untouched w3 v" "untouched v' w4" and commit: "commit_source_audit i ?seen
      (ft_content_sha256 ?item) (ft_content_bytes ?item) found t v = ((answer, t4), v')"
    moreover from this have "audited t w t v"
      by (intro audited_untouched [OF w3(2)])
    ultimately show ?thesis
      using audited_untouched [OF commit_source_audit_audited [OF commit]] by blast
  qed (use audited_untouched [OF w3(2)] in simp)
  then have w5: "audited t w t4 w5"
    using stop_quiet [OF stop'] by (simp add: audited_def under_way_def)
  have open_end: "case r of None \<Rightarrow> audited t w t1 w1 | Some result \<Rightarrow> step_post t w ((result, t1), w1)"
    if "(let ((step, t), w) = preserve_uncertain u st Evidence_none detail v in ((Some step, t), w)) =
      ((r, t1), w1)" "audited t w u v" for u v st detail
    using that preserve_uncertain_post [of t w u v st Evidence_none detail]
    by (auto simp: audited_def split: prod.split_asm)
  let ?looks_other = "size_bytes (ft_current_snapshot ?item) \<noteq> size_bytes ?seen \<or>
    \<not> same_object_identity (source_revision_utf8 (ft_current_snapshot ?item))
        (source_revision_utf8 ?seen) \<or>
    \<not> ft_content_proof ?item \<or> ft_content_bytes ?item \<noteq> size_bytes ?seen"
  consider (stopped) "b" | (unchanged) "\<not> b" "same_snapshot (ft_current_snapshot ?item) ?seen"
    | (other) "\<not> b" "\<not> same_snapshot (ft_current_snapshot ?item) ?seen" ?looks_other
    | (audited) "\<not> b" "\<not> same_snapshot (ft_current_snapshot ?item) ?seen" "\<not> ?looks_other"
    by blast
  then have "case r of None \<Rightarrow> audited t w t1 w1 | Some result \<Rightarrow> step_post t w ((result, t1), w1)"
  proof cases
    case stopped
    with run w3(1) show ?thesis by (auto simp: audited_def step_post_open)
  next
    case unchanged
    with run w3(2) show ?thesis by simp
  next
    case other
    show ?thesis by (rule open_end [OF _ w3(2)]) (use run other in simp)
  next
    case audited
    note run = run [simplified audited if_False]
    show ?thesis
    proof (cases x)
      case None
      show ?thesis by (rule open_end [OF _ w4]) (use run None in simp)
    next
      case (Some result)
      show ?thesis
      proof (cases "streamed_ok result")
        case True
        with run Some w5 show ?thesis by (auto simp: audited_def step_post_open)
      next
        case False
        show ?thesis by (rule open_end [OF _ w4]) (use run Some False in simp)
      qed
    qed
  qed
  then show "r = Some result \<Longrightarrow> step_post t w ((result, t1), w1)" "r = None \<Longrightarrow> audited t w t1 w1"
    by simp_all
qed

lemma execute_delete_step_post:
  assumes idle: "may_begin t w i step" and step: "step \<in> set erasing_steps"
  shows "step_post t w (execute_delete_step s t i step w)"
proof (cases "step = Delete_source")
  case False
  with delete_now_post [OF assms] show ?thesis by (simp add: execute_delete_step_def)
next
  case True
  obtain r t1 w1 where refresh: "refresh_staged_source_for_delete s t i w = ((r, t1), w1)"
    by (rule nested_pair)
  have "audited t w t w" using idle by (simp add: audited_def under_way_def may_begin_def)
  note refreshed = refresh_staged_source_post [OF refresh this]
  show ?thesis
  proof (cases r)
    case (Some result)
    with refreshed(1) refresh True show ?thesis by (simp add: execute_delete_step_def)
  next
    case None
    obtain b w2 where stop: "stop_requested w1 = (b, w2)" by fastforce
    from refreshed(2) [OF None] have w2: "audited t w t1 w2"
      using stop_quiet [OF stop] by (simp add: audited_def under_way_def)
    then have "may_begin t1 w2 i step"
      using idle by (simp add: audited_def under_way_def may_begin_def)
    from delete_now_post [OF this step] have "step_post t w (delete_now s t1 i step w2)"
      by (rule step_post_from) (use w2 idle in \<open>simp_all add: audited_def may_begin_def\<close>)
    with w2 refresh stop True None show ?thesis
      by (simp add: execute_delete_step_def step_post_open audited_def)
  qed
qed

lemma recover_delete_step_post:
  assumes at: "interrupted t w i step" and step: "step \<in> set erasing_steps"
  shows "step_post t w (recover_delete_step s t i step w)"
proof -
  obtain result w1 where submit: "submit_delete s (delete_request t i step) True
      (publish_progress t i step 0 w) = (result, w1)" by fastforce
  note p1 = interrupted_pending [OF at, of w1]
  have p1: "pending t w i step t w1"
    by (rule p1) (use submit_delete_quiet [OF submit] in simp_all)
  note under = pendingD(2) [OF p1] and act = pendingD(1) [OF p1]
  let ?t = "clear_active t"
  have under': "under_way t w ?t w1" using under by (simp add: under_way_def transfer_changes)
  have again: "step_post t w (execute_delete_step s ?t i step w2)"
    if "under_way t w ?t w2" "decisions w2 = decisions w" for w2
  proof (rule step_post_from)
    have "may_begin ?t w2 i step"
      using that act activeD [OF act] active_index
      by (auto simp: may_begin_def under_way_def transfer_changes)
    then show "step_post ?t w2 (execute_delete_step s ?t i step w2)"
      using step by (rule execute_delete_step_post)
  qed (use that in \<open>simp_all add: transfer_changes stages_def\<close>)
  have cleared: "taken t (decisions w) ?t (decisions w)"
    using activeD(3,4) [OF act] by (simp add: taken_def) (simp add: transfer_changes)
  have "step_post t w (case persist_transfer ?t w1 of
      (Some detail, w) \<Rightarrow> ((transfer_journal_failure No_commit detail, ?t), w)
    | (None, w) \<Rightarrow>
        if step = Cleanup_temp \<or> step = Cleanup_overwrite_destination then
          ((transfer_step_result Outcome_committed Success No_commit [], ?t), w)
        else execute_delete_step s ?t i step w)"
  proof (rule saved_step [OF under'])
    fix w2
    assume w2: "under_way t w ?t w2" "transfer_recorded ?t (journal w2)" "decisions w2 = decisions w1"
    with cleared pendingD(5) [OF p1] have
      "step_post t w ((transfer_step_result Outcome_committed Success No_commit [], ?t), w2)"
      by (simp add: step_post_def under_way_def)
    with again [OF w2(1)] w2(3) pendingD(5) [OF p1] show "step_post t w
        (if step = Cleanup_temp \<or> step = Cleanup_overwrite_destination then
           ((transfer_step_result Outcome_committed Success No_commit [], ?t), w2)
         else execute_delete_step s ?t i step w2)" by simp
  qed
  then show ?thesis
    using settle_deleted_post [OF p1] preserve_open_post [OF under]
    by (simp add: recover_delete_step_def submit Let_def)
qed

section \<open>Streaming\<close>

text \<open>The temporary file and the token of one item change until its content has arrived.\<close>

definition filling :: "nat \<Rightarrow> FileTransferTransaction \<Rightarrow> FileTransferTransaction \<Rightarrow> bool" where
  "filling i t t1 \<longleftrightarrow> i < length (stages t) \<and>
     (\<exists>m l d v k d1 k1. stages t ! i = (m, l, d, v, k) \<and> (d = Destination_absent \<or> d = Temp_reserved) \<and>
        stages t1 = (stages t)[i := (m, l, d1, v, k1)])"

definition streaming ::
  "FileTransferTransaction \<Rightarrow> 'h transfer_state \<Rightarrow> nat \<Rightarrow> FileTransferTransaction \<Rightarrow>
   'h transfer_state \<Rightarrow> bool"
where
  "streaming t w i t1 w1 \<longleftrightarrow> under_way t w t1 w1 \<and> decisions w1 = decisions w \<and>
     \<not> undoing t \<and> \<not> undoing t1 \<and> filling i t t1"

lemma filling_with_item:
  assumes "filling i t t1"
    and "\<And>item. ft_strategy (change item) = ft_strategy item \<and>
      ft_source_location (change item) = ft_source_location item \<and>
      ft_overwrite_state (change item) = ft_overwrite_state item"
  shows "filling i t (with_item i change t1)"
proof -
  from assms(1) obtain m l d v k d1 k1 where at: "i < length (stages t)" "stages t ! i = (m, l, d, v, k)"
      "d = Destination_absent \<or> d = Temp_reserved" "stages t1 = (stages t)[i := (m, l, d1, v, k1)]"
    by (auto simp: filling_def)
  then have len: "i < length (ft_items t1)" by (metis length_list_update length_map stages_def)
  have "stage_of (item_at t1 i) = (m, l, d1, v, k1)"
    using at len by (metis item_at_def nth_list_update_eq nth_map stages_def)
  then have "\<exists>d2 k2. stage_of (change (item_at t1 i)) = (m, l, d2, v, k2)"
    using assms(2) by (simp add: stage_of_def)
  then obtain d2 k2 where "stage_of (change (item_at t1 i)) = (m, l, d2, v, k2)" by blast
  then have "stages (with_item i change t1) = (stages t)[i := (m, l, d2, v, k2)]"
    using at(4) by (simp add: stages_def with_item_def map_update)
  with at show ?thesis unfolding filling_def by blast
qed

lemma streaming_with_item:
  assumes "streaming t w i t1 w1"
    and "\<And>item. ft_strategy (change item) = ft_strategy item \<and>
      ft_source_location (change item) = ft_source_location item \<and>
      ft_overwrite_state (change item) = ft_overwrite_state item"
  shows "streaming t w i (with_item i change t1) w1"
  using filling_with_item [of i t t1 change] assms
  by (simp add: streaming_def under_way_def) (simp add: transfer_changes)

text \<open>What else of the transaction may change meanwhile.\<close>

lemma streaming_header:
  assumes "streaming t w i t1 w1"
    and "ft_items t2 = ft_items t1" "ft_kind t2 = ft_kind t1" "ft_phase t2 = ft_phase t1"
  shows "streaming t w i t2 w1"
proof -
  have "filling i t t2 \<longleftrightarrow> filling i t t1" using assms(2) by (simp add: filling_def stages_def)
  with assms show ?thesis by (simp add: streaming_def under_way_def undoing_def orderly_def)
qed

lemma streaming_moves:
  "streaming t w i t1 w1 \<Longrightarrow> journal w2 = journal w1 \<Longrightarrow> decisions w2 = decisions w1 \<Longrightarrow>
     safely (journal w1) (submissions w2) \<Longrightarrow> streaming t w i t1 w2"
  by (simp add: streaming_def under_way_def)

lemma streaming_noted:
  assumes "streaming t w i t1 w1" "transfer_recorded t1 (journal w1)" "announces t1 what"
    and "journal w2 = journal w1" "decisions w2 = decisions w1"
    and "submissions w2 = submissions w1 @ [(journal w1, what)]"
  shows "streaming t w i t1 w2"
proof (rule streaming_moves [OF assms(1,4,5)])
  have "safely (journal w1) (submissions w1)"
    using assms(1) by (simp add: streaming_def under_way_def)
  then show "safely (journal w1) (submissions w2)"
    using safely_submission assms(2,3,6) by simp
qed

lemma streaming_saved:
  assumes "streaming t w i t1 w1" "persist_transfer t1 w1 = (r, w2)"
  shows "streaming t w i t1 w2" "r = None \<Longrightarrow> transfer_recorded t1 (journal w2)"
  using assms(1) persist_transfer_effect [OF assms(2)]
  by (auto simp: streaming_def under_way_def dest: safely_disk_ok)

text \<open>The intent is recorded, and its request is the one that is sent.\<close>

definition intends ::
  "FileTransferTransaction \<Rightarrow> nat \<Rightarrow> FileTransferStreamMode \<Rightarrow> bool"
where
  "intends t i mode \<longleftrightarrow> unat (ft_index t) = i \<and>
     (mode = Reserve_new \<and> ft_step t = Reserve_temp \<or> mode = Resume_existing \<and> ft_step t = Stream_temp)"

lemma announce_stream_effect:
  assumes "announce_stream i (stream_mode_for item) t1 w1 = (t2, w2)"
    and "streaming t w i t1 w1" "i < 2 ^ 32"
  shows "streaming t w i t2 w2" "intends t2 i (stream_mode_for item)"
proof -
  have index: "unat (word_of_nat i :: u32) = i"
    using assms(3) by (simp add: unsigned_of_nat take_bit_nat_eq_self)
  have mode: "stream_mode_for item = Reserve_new \<or> stream_mode_for item = Resume_existing"
    by (simp add: stream_mode_for_def)
  obtain token w3 where token: "new_request_token t1 i w1 = (token, w3)" by fastforce
  have moved: "streaming t w i t1 w3"
    by (rule streaming_moves [OF assms(2)])
      (use new_request_token_quiet [OF token] assms(2) in \<open>simp_all add: streaming_def under_way_def\<close>)
  have "streaming t w i (activate_transfer u i step) v" if "streaming t w i u v" for u v step
    by (rule streaming_header [OF that]) (simp_all add: transfer_changes)
  with moved assms(1,2) mode token show "streaming t w i t2 w2"
    using streaming_with_item [OF moved, of "\<lambda>item. item\<lparr>ft_request_token := token\<rparr>"]
    by (auto simp: announce_stream_def)
  show "intends t2 i (stream_mode_for item)"
    using assms(1) mode index
    by (auto simp: announce_stream_def intends_def activate_transfer_def split: prod.split_asm)
qed

lemma commit_reservation_effect:
  assumes "commit_reservation i mode reservation t1 w1 = ((answer, t2), w2)"
    and "streaming t w i t1 w1" "transfer_recorded t1 (journal w1)" "intends t1 i mode"
  shows "streaming t w i t2 w2"
proof -
  let ?temp = "reserved_temp_snapshot reservation"
  let ?t = "(update_item i ?temp Temp_reserved (with_item i (\<lambda>item. item\<lparr>ft_destination_parent_revision :=
      reserved_parent_revision reservation\<rparr>) t1))\<lparr>ft_step := Stream_temp, ft_evidence := Evidence_none\<rparr>"
  let ?refused = "ft_request_token (item_at t1 i) \<noteq> reserved_token reservation \<or>
    (if mode = Resume_existing
     then ft_step t1 \<noteq> Stream_temp \<or> ft_destination_state (item_at t1 i) \<noteq> Temp_reserved \<or>
       \<not> same_source_revision (source_revision_utf8 (ft_destination_snapshot (item_at t1 i)))
           (source_revision_utf8 ?temp)
     else ft_step t1 \<noteq> Reserve_temp \<or> ft_destination_state (item_at t1 i) \<noteq> Destination_absent)"
  obtain r w3 where persist: "persist_transfer ?t w1 = (r, w3)" by fastforce
  have "streaming t w i (update_item i ?temp Temp_reserved (with_item i
      (\<lambda>item. item\<lparr>ft_destination_parent_revision := reserved_parent_revision reservation\<rparr>) t1)) w1"
    unfolding update_item_def by (intro streaming_with_item assms(2)) simp_all
  then have candidate: "streaming t w i ?t w1" by (rule streaming_header) simp_all
  note saved = streaming_saved [OF candidate persist] streaming_saved(1) [OF assms(2)]
  have refused: "streaming t w i t1 w3"
    using assms(2) persist_transfer_effect [OF persist] candidate
    by (simp add: streaming_def under_way_def)
  consider (refused) ?refused | (resumed) "\<not> ?refused" "mode = Resume_existing"
    | (reserved) "\<not> ?refused" "mode \<noteq> Resume_existing" by blast
  then show ?thesis
  proof cases
    case refused
    with assms(1,2) show ?thesis
      by (auto simp: commit_reservation_def Let_def split: if_split_asm)
  next
    case resumed
    have "announces t1 (Fills (stream_request t1 i mode))"
      using resumed assms(4) by (auto simp: announces_def intends_def)
    from streaming_noted [OF assms(2,3) this, of w2] resumed assms(1) show ?thesis
      by (auto simp: commit_reservation_def Let_def)
  next
    case reserved
    show ?thesis
    proof (cases r)
      case None
      have "announces ?t (Fills (stream_request ?t i mode))"
        using reserved(2) assms(4) by (auto simp: announces_def intends_def update_item_def with_item_def)
      from streaming_noted [OF saved(1) saved(2) [OF None] this, of w2] reserved assms(1) persist None
      show ?thesis by (auto simp: commit_reservation_def Let_def)
    next
      case (Some detail)
      with reserved assms(1) persist refused show ?thesis
        by (auto simp: commit_reservation_def Let_def)
    qed
  qed
qed

lemma settle_streamed_post:
  assumes "streaming t w i t1 w1"
  shows "step_post t w (settle_streamed i result t1 w1)"
proof -
  have under: "under_way t w t1 w1" using assms by (simp add: streaming_def)
  obtain b w2 where stop: "stop_requested w1 = (b, w2)" by fastforce
  have under2: "under_way t w t1 w2"
    using under stop_quiet [OF stop] by (simp add: under_way_def)
  let ?t = "clear_failure (clear_active (with_item i (content_arrived result) t1))"
  from assms obtain m l d v k d1 k1 where at: "i < length (stages t)" "stages t ! i = (m, l, d, v, k)"
      "d = Destination_absent \<or> d = Temp_reserved" "stages t1 = (stages t)[i := (m, l, d1, v, k1)]"
    by (auto simp: streaming_def filling_def)
  have len: "i < length (ft_items t1)" using at by (metis length_list_update length_map stages_def)
  have "stage_of (item_at t1 i) = (m, l, d1, v, k1)"
    using at len by (metis item_at_def nth_list_update_eq nth_map stages_def)
  then have "stage_of (content_arrived result (item_at t1 i)) = (m, l, Content_ready, v, k1)"
    by (simp add: stage_of_def content_arrived_def)
  then have "stages ?t = (stages t)[i := (m, l, Content_ready, v, k1)]"
    using at(4) by (simp add: stages_def transfer_changes map_update)
  moreover have "item_step Stream_temp (stages t ! i) (m, l, Content_ready, v, k1)"
    using at(2,3) by simp
  ultimately have "stepped Stream_temp i t ?t" unfolding stepped_def using at(1) by metis
  moreover have "Stream_temp \<notin> set undoing_steps" by (simp add: undoing_steps_def)
  ultimately have "taken t (decisions w) ?t (decisions w1)"
    using assms unfolding taken_def streaming_def
    by (auto simp: clear_failure_def clear_active_def with_item_def undoing_def)
  moreover have "under_way t w ?t w1"
    using under by (simp add: under_way_def transfer_changes)
  ultimately have "step_post t w (persist_committed ?t w1)" by (intro persist_committed_post)
  then show ?thesis
    using preserve_uncertain_post [OF under2] enter_cleanup_post [OF under2]
    by (simp add: settle_streamed_def stop)
qed

lemma execute_stream_step_post:
  assumes at: "streaming t w i t1 w1" and small: "i < 2 ^ 32"
  shows "step_post t w (execute_stream_step s t1 i w1)"
proof -
  let ?mode = "stream_mode_for (item_at t1 i)"
  obtain t2 w2 where announce: "announce_stream i ?mode t1 w1 = (t2, w2)" by fastforce
  note t2 = announce_stream_effect [OF announce at small]
  have under: "under_way t w t2 w2" using t2(1) by (simp add: streaming_def)
  show ?thesis
    unfolding execute_stream_step_def Let_def announce prod.case
  proof (rule saved_step [OF under])
    fix w3
    assume w3: "under_way t w t2 w3" "transfer_recorded t2 (journal w3)" "decisions w3 = decisions w2"
    let ?request = "stream_request t2 i ?mode"
    let ?w = "note_submission (Streams ?request) (publish_progress t2 i (ft_step t2) 0 w3)"
    obtain closed t4 w4 where submit: "submit_stream s ?request (commit_reservation i ?mode) t2 ?w =
        ((closed, t4), w4)" by (rule nested_pair)
    have s3: "streaming t w i t2 w3" using t2(1) w3 by (simp add: streaming_def)
    have "announces t2 (Streams ?request)"
      using t2(2) by (auto simp: announces_def intends_def)
    then have noted: "streaming t w i t2 ?w" by (rule streaming_noted [OF s3 w3(2)]) simp_all
    have untouched: "streaming t w i u v'" if "streaming t w i u v" "untouched v v'" for u v v'
      using that by (simp add: streaming_def under_way_def untouched_def)
    have s4: "streaming t w i t4 w4"
      using submit_stream_cases [OF submit] unfolding called_back_def
    proof (elim disjE exE conjE)
      fix reservation answer v v'
      assume at: "untouched ?w v" "untouched v' w4"
        and commit: "commit_reservation i ?mode reservation t2 v = ((answer, t4), v')"
      have "transfer_recorded t2 (journal v)" using at(1) w3(2) by (simp add: untouched_def)
      from commit_reservation_effect [OF commit untouched [OF noted at(1)] this t2(2)]
      show ?thesis by (rule untouched [OF _ at(2)])
    qed (use untouched [OF noted] in simp)
    then have "step_post t w (settle_streamed i result t4 (report_stream t4 i updates w4))"
      for updates result
      by (intro settle_streamed_post) (simp add: streaming_def under_way_def)
    with s4 show "step_post t w ((\<lambda>((closed, t), w). case closed of
        None \<Rightarrow> preserve_uncertain t Io_error Evidence_none
            ''file-transfer service rejected the stream step'' w
      | Some (updates, result) \<Rightarrow> settle_streamed i result t (report_stream t i updates w))
        (submit_stream s ?request (commit_reservation i ?mode) t2 ?w))"
      using preserve_uncertain_post by (auto simp: submit streaming_def split: option.split)
  qed
qed

text \<open>A stream that was interrupted: what is left of the temporary file decides.\<close>

lemma interrupted_streaming:
  assumes "interrupted t w i step" "step = Reserve_temp \<or> step = Stream_temp"
    and "journal w1 = journal w" "submissions w1 = submissions w" "decisions w1 = decisions w"
  shows "streaming t w i t w1"
proof -
  note p1 = interrupted_pending [OF assms(1,3,4,5)]
  note act = pendingD(1) [OF p1]
  have len: "i < length (stages t)" using activeD(1) [OF act] by (simp add: stages_def)
  have "ft_destination_state (item_at t i) = Destination_absent \<or>
      ft_destination_state (item_at t i) = Temp_reserved"
    using act assms(2)
    by (auto simp: active_def transfer_step_matches_def item_at_def Let_def split: if_split_asm)
  moreover have "stages t ! i = stage_of (item_at t i)"
    using len by (simp add: stages_def item_at_def)
  moreover have "stages t = (stages t)[i := stages t ! i]" by simp
  ultimately have "filling i t t" unfolding filling_def stage_of_def using len by metis
  moreover have "\<not> undoing t"
    using activeD(2) [OF act] assms(2) by (auto simp: undoing_steps_def)
  ultimately show ?thesis
    using pendingD(2) [OF p1] by (simp add: streaming_def assms(5))
qed

lemma stream_again:
  assumes at: "streaming t w i t1 w1" and small: "i < 2 ^ 32"
  shows "step_post t w (case persist_transfer t1 w1 of
      (Some detail, w) \<Rightarrow> ((transfer_journal_failure Evidence_none detail, t1), w)
    | (None, w) \<Rightarrow> execute_stream_step s t1 i w)"
proof (rule saved_step)
  fix w2
  assume "under_way t w t1 w2" "decisions w2 = decisions w1"
  with at have "streaming t w i t1 w2" by (simp add: streaming_def)
  then show "step_post t w (execute_stream_step s t1 i w2)" using small by (rule execute_stream_step_post)
qed (use at in \<open>simp add: streaming_def\<close>)

lemma recover_reserve_post:
  assumes at: "interrupted t w i Reserve_temp"
  shows "step_post t w (recover_reserve s t i w)"
proof -
  obtain found owned w1 where probe: "probe_reservation s t i w = ((found, owned), w1)"
    by (rule nested_pair)
  have s1: "streaming t w i t w1"
    by (rule interrupted_streaming [OF at]) (use probe_reservation_quiet [OF probe] in simp_all)
  have small: "i < 2 ^ 32" using at active_index by (auto simp: interrupted_def)
  let ?change = "\<lambda>item. item\<lparr>ft_request_token := replicate kFileTransferRequestTokenBytes 0\<rparr>"
  have "streaming t w i (clear_failure (clear_active t)) w1"
    by (rule streaming_header [OF s1]) (simp_all add: transfer_changes)
  then have "streaming t w i (with_item i ?change (clear_failure (clear_active t))) w1"
    by (rule streaming_with_item) simp
  note again = stream_again [OF this small, of s]
  have "streaming t w i (update_item i (probe_snapshot found) Temp_reserved t) w1"
    unfolding update_item_def by (rule streaming_with_item [OF s1]) simp
  then show ?thesis
    using s1 again
    by (simp add: recover_reserve_def probe streaming_def Let_def preserve_uncertain_post
        enter_cleanup_post)
qed

lemma recover_stream_step_post:
  assumes at: "interrupted t w i step" and step: "step = Reserve_temp \<or> step = Stream_temp"
  shows "step_post t w (recover_stream_step s t i w)"
proof (cases "step = Reserve_temp")
  case True
  moreover have "ft_step t = step" using at activeD(3) by (auto simp: interrupted_def)
  ultimately show ?thesis using recover_reserve_post at by (simp add: recover_stream_step_def)
next
  case False
  have not_reserve: "ft_step t \<noteq> Reserve_temp" using at False activeD(3) by (auto simp: interrupted_def)
  obtain found w1 where probe: "probe_temp s t i w = (found, w1)" by fastforce
  have s1: "streaming t w i t w1"
    by (rule interrupted_streaming [OF at step]) (use probe_temp_quiet [OF probe] in simp_all)
  have small: "i < 2 ^ 32" using at active_index by (auto simp: interrupted_def)
  have "streaming t w i (with_item i clear_destination_proof t) w1"
    by (rule streaming_with_item [OF s1]) (simp add: clear_destination_proof_def)
  then have "streaming t w i (clear_failure (clear_active (with_item i clear_destination_proof t))) w1"
    by (rule streaming_header) (simp_all add: transfer_changes)
  note fresh = stream_again [OF this small, of s]
  let ?change = "\<lambda>item. item\<lparr>ft_destination_snapshot := probe_snapshot found\<rparr>"
  have "streaming t w i (with_item i ?change t) w1" by (rule streaming_with_item [OF s1]) simp
  then have "streaming t w i (clear_failure ((with_item i ?change t)\<lparr>ft_evidence := Evidence_none\<rparr>)) w1"
    by (rule streaming_header) (simp_all add: transfer_changes)
  note resumed = stream_again [OF this small, of s]
  show ?thesis
    using s1 fresh resumed not_reserve
    by (simp add: recover_stream_step_def probe streaming_def Let_def preserve_uncertain_post)
qed

section \<open>Steps in general\<close>

lemma recover_active_step_post:
  assumes "interrupted t w (unat (ft_index t)) (ft_step t)"
  shows "step_post t w (recover_active_step s t w)"
proof -
  let ?step = "ft_step t" and ?i = "unat (ft_index t)"
  have idle: "?step \<noteq> No_transfer_step" using assms activeD(4) by (auto simp: interrupted_def)
  consider "?step \<in> set rename_steps" | "?step \<notin> set rename_steps" "?step = Reserve_temp \<or> ?step = Stream_temp"
    | "?step \<in> set erasing_steps" "?step \<notin> set rename_steps" "?step \<noteq> Reserve_temp" "?step \<noteq> Stream_temp"
    using idle by (cases ?step) (auto simp: rename_steps_def erasing_steps_def)
  then show ?thesis
  proof cases
    case 1
    then show ?thesis
      using recover_rename_step_post [OF assms] by (simp add: recover_active_step_def)
  next
    case 2
    then show ?thesis
      using recover_stream_step_post [OF assms] by (simp add: recover_active_step_def)
  next
    case 3
    then show ?thesis
      using recover_delete_step_post [OF assms] idle by (simp add: recover_active_step_def)
  qed
qed

text \<open>Between two steps the transaction is one that could be recorded.\<close>

definition running :: "FileTransferTransaction \<Rightarrow> 'h transfer_state \<Rightarrow> bool" where
  "running t w \<longleftrightarrow> safely (journal w) (submissions w) \<and> orderly t \<and>
     valid_file_transfer_transaction t = Inr ()"

lemma running_valid: "running t w \<Longrightarrow> valid_file_transfer_transaction t = Inr ()"
  by (simp add: running_def)

lemma running_recorded:
  "safely (journal w) (submissions w) \<Longrightarrow> orderly t \<Longrightarrow> transfer_recorded t (journal w) \<Longrightarrow> running t w"
  by (simp add: running_def transfer_recorded_valid)

lemma running_quiet: "running t w \<Longrightarrow> untouched w w' \<Longrightarrow> running t w'"
  by (simp add: running_def untouched_def)

lemma running_under_way: "running t w \<Longrightarrow> under_way t w t w"
  by (simp add: running_def under_way_def)

lemma running_interrupted:
  "running t w \<Longrightarrow> ft_step t \<noteq> No_transfer_step \<Longrightarrow> interrupted t w (unat (ft_index t)) (ft_step t)"
  using valid_transfer_matches [OF running_valid]
  by (auto simp: running_def interrupted_def active_def)

lemma completed_prefix_unfinished:
  assumes "valid_file_transfer_transaction t = Inr ()" "ft_phase t \<noteq> Transfer_completed"
  shows "completed_prefix t < length (ft_items t)" "completed_prefix t < 2 ^ 32"
    "\<not> final_item (ft_kind t) (item_at t (completed_prefix t))"
proof -
  from assms(1) obtain first where "transfer_progress (ft_kind t) (ft_items t) first"
      "ft_phase t = Transfer_completed \<longleftrightarrow> first = None" "length (ft_items t) \<le> kMaximumFileTransferItems"
    by (rule valid_transferD)
  moreover from this assms(2) obtain k where "first = Some k" by auto
  ultimately have k: "k < length (ft_items t)" "\<not> final_item (ft_kind t) (ft_items t ! k)"
    and small: "length (ft_items t) \<le> 10000"
    by (auto simp: transfer_progress_def kMaximumFileTransferItems_def)
  then have "\<not> list_all (final_item (ft_kind t)) (ft_items t)" by (auto simp: list_all_length)
  then show "completed_prefix t < length (ft_items t)"
    by (metis completed_prefix_def length_takeWhile_le linorder_neqE_nat linorder_not_less list_all_iff
        takeWhile_eq_all_conv takeWhile_eq_take take_all)
  then show "\<not> final_item (ft_kind t) (item_at t (completed_prefix t))" "completed_prefix t < 2 ^ 32"
    using small by (auto simp: completed_prefix_def item_at_def dest: nth_length_takeWhile)
qed

lemma may_begin_running:
  "running t w \<Longrightarrow> ft_step t = No_transfer_step \<Longrightarrow> ft_phase t \<noteq> Transfer_completed \<Longrightarrow>
     step \<noteq> No_transfer_step \<Longrightarrow> undoing t \<longrightarrow> step \<in> set undoing_steps \<Longrightarrow>
     may_begin t w (completed_prefix t) step"
  using completed_prefix_unfinished(2) [OF running_valid] by (auto simp: running_def may_begin_def)

lemma next_processing_step_post:
  assumes run: "running t w" and phase: "ft_phase t \<noteq> Transfer_completed" "\<not> undoing t"
    and idle: "ft_step t = No_transfer_step"
  shows "step_post t w (next_processing_step s t w)"
proof -
  let ?i = "completed_prefix t"
  note unfinished = completed_prefix_unfinished [OF running_valid [OF run] phase(1)]
  note under = running_under_way [OF run]
  note begins = may_begin_running [OF run idle phase(1)]
  have rename: "step_post t w (execute_rename_step s t ?i step w)" if "step \<in> set rename_steps" for step
    using execute_rename_step_post [OF begins that] that phase(2) by (auto simp: rename_steps_def)
  have delete: "step_post t w (execute_delete_step s t ?i step w)" if "step \<in> set erasing_steps" for step
    using execute_delete_step_post [OF begins that] that phase(2) by (auto simp: erasing_steps_def)
  have "may_begin (current_version t) w ?i Evacuate_overwrite_destination"
    using begins [of Evacuate_overwrite_destination] phase(2)
    by (simp add: may_begin_def transfer_changes)
  then have "step_post (current_version t) w
      (execute_rename_step s (current_version t) ?i Evacuate_overwrite_destination w)"
    by (rule execute_rename_step_post) (simp add: rename_steps_def)
  then have evacuate: "step_post t w
      (execute_rename_step s (current_version t) ?i Evacuate_overwrite_destination w)"
    by (rule step_post_from)
      (use under idle in \<open>simp_all add: under_way_def transfer_changes stages_def\<close>)
  have stream: "step_post t w (execute_stream_step s t ?i w)"
    if "ft_destination_state (item_at t ?i) = Destination_absent \<or>
        ft_destination_state (item_at t ?i) = Temp_reserved"
  proof (rule execute_stream_step_post [OF _ unfinished(2)])
    have "stages t ! ?i = stage_of (item_at t ?i)" "?i < length (stages t)"
      using unfinished(1) by (simp_all add: stages_def item_at_def)
    then have "filling ?i t t"
      unfolding filling_def stage_of_def using that by (metis list_update_id)
    with under phase(2) show "streaming t w ?i t w" by (simp add: streaming_def)
  qed
  show ?thesis
    using unfinished(1) evacuate stream
    by (simp add: next_processing_step_def Let_def rename delete rename_steps_def erasing_steps_def
        enter_cleanup_post [OF under] preserve_uncertain_post [OF under])
qed

section \<open>Measures\<close>

text \<open>How many steps an item may still take to its end, and back.\<close>

fun ahead :: "stage \<Rightarrow> nat" where
  "ahead (m, l, d, v, k) =
     (if m = Move_undecided then 1 else 0) +
     (if l = Source_original then 2 else if l = Source_staged then 1 else 0) +
     (if d = Destination_published then 0 else if d = Content_ready then 1 else 2) +
     (if v = Overwrite_none then 0 else if v = Overwrite_evacuated then 1
      else if v = Overwrite_authorized then 2 else 3)"

fun behind :: "stage \<Rightarrow> nat" where
  "behind (m, l, d, v, k) =
     (if l = Source_staged then 1 else 0) +
     (if d = Temp_reserved \<or> d = Content_ready then 1 else if d = Destination_absent \<and> k then 2 else 0) +
     (if v = Overwrite_evacuated \<or> v = Overwrite_evacuated_unexpected then 1 else 0)"

lemma ahead_less: "item_step step x y \<Longrightarrow> step \<notin> set undoing_steps \<Longrightarrow> ahead y < ahead x"
  by (induction rule: item_step.induct) (auto simp: undoing_steps_def)

lemma behind_less: "item_step step x y \<Longrightarrow> step \<in> set undoing_steps \<Longrightarrow> behind y < behind x"
  by (induction rule: item_step.induct) (auto simp: undoing_steps_def)

lemma ahead_bound: "ahead x \<le> 8" by (cases x) simp
lemma behind_bound: "behind x \<le> 4" by (cases x) simp

definition under_step :: "FileTransferTransaction \<Rightarrow> nat" where
  "under_step t = (if ft_step t = No_transfer_step then 0 else 1)"

definition to_do :: "FileTransferTransaction \<Rightarrow> nat" where
  "to_do t = sum_list (map ahead (stages t)) + under_step t"

definition to_undo :: "FileTransferTransaction \<Rightarrow> nat" where
  "to_undo t = sum_list (map behind (stages t)) + under_step t"

lemma sum_list_map_bound: "(\<And>x. f x \<le> (b :: nat)) \<Longrightarrow> sum_list (map f xs) \<le> b * length xs"
  by (induction xs) (auto intro: add_mono)

lemma to_do_bound: "to_do t \<le> 8 * length (ft_items t) + 1"
  using sum_list_map_bound [of ahead 8 "stages t", OF ahead_bound]
  by (simp add: to_do_def under_step_def stages_def)

lemma to_undo_bound: "to_undo t \<le> 4 * length (ft_items t) + 1"
  using sum_list_map_bound [of behind 4 "stages t", OF behind_bound]
  by (simp add: to_undo_def under_step_def stages_def)

lemma sum_list_map_update_less:
  "i < length xs \<Longrightarrow> f x < (f (xs ! i) :: nat) \<Longrightarrow> sum_list (map f (xs[i := x])) < sum_list (map f xs)"
  by (induction xs arbitrary: i) (auto split: nat.split)

lemma taken_to_do:
  assumes "taken t ds t' ds'" "\<not> undoing t"
  shows "ds' = ds \<and> to_do t' < to_do t \<or> length ds' < length ds"
proof -
  have idle: "under_step t' = 0" using assms(1) by (simp add: taken_def under_step_def)
  consider "length ds' < length ds" | "ds' = ds" "ft_step t \<noteq> No_transfer_step" "t' = clear_active t"
    | i step where "ds' = ds" "stepped step i t t'" "step \<notin> set undoing_steps"
    using assms unfolding taken_def by blast
  then show ?thesis
  proof cases
    case 2
    then show ?thesis by (simp add: to_do_def under_step_def stages_def clear_active_def)
  next
    case 3
    then obtain x where "i < length (stages t)" "stages t' = (stages t)[i := x]"
        "item_step step (stages t ! i) x"
      unfolding stepped_def by metis
    then have "sum_list (map ahead (stages t')) < sum_list (map ahead (stages t))"
      using sum_list_map_update_less [of i "stages t" ahead x] ahead_less 3(3) by simp
    with idle 3(1) show ?thesis by (simp add: to_do_def)
  qed simp
qed

lemma taken_to_undo:
  assumes "taken t ds t' ds'" "undoing t"
  shows "ds' = ds" "to_undo t' < to_undo t"
proof -
  have idle: "under_step t' = 0" using assms(1) by (simp add: taken_def under_step_def)
  consider "ds' = ds" "ft_step t \<noteq> No_transfer_step" "t' = clear_active t"
    | i step where "ds' = ds" "stepped step i t t'" "step \<in> set undoing_steps"
    using assms unfolding taken_def by blast
  then have "ds' = ds \<and> to_undo t' < to_undo t"
  proof cases
    case 1
    then show ?thesis by (simp add: to_undo_def under_step_def stages_def clear_active_def)
  next
    case 2
    then obtain x where "i < length (stages t)" "stages t' = (stages t)[i := x]"
        "item_step step (stages t ! i) x"
      unfolding stepped_def by metis
    then have "sum_list (map behind (stages t')) < sum_list (map behind (stages t))"
      using sum_list_map_update_less [of i "stages t" behind x] behind_less 2(3) by simp
    with idle 2(1) show ?thesis by (simp add: to_undo_def)
  qed
  then show "ds' = ds" "to_undo t' < to_undo t" by simp_all
qed

end
