(* ===== verification/Transfer_Run.thy ===== *)
theory Transfer_Run
  imports Transfer_Steps
begin

text \<open>
  The loops of the file transfer coordinator: what holds when a run ends, and that it ends. The
  processing loop takes one item after the other to its end; the clean-up takes the item that failed
  back to where it was. Both keep the durable record until it is removed on purpose.
\<close>

section \<open>The items that are done\<close>

fun final_stage :: "FileTransferKind \<Rightarrow> stage \<Rightarrow> bool" where
  "final_stage kind (m, l, d, v, k) \<longleftrightarrow> d = Destination_published \<and> v = Overwrite_none \<and>
     (kind = Copy_transfer \<and> l = Source_original \<or> kind = Move_transfer \<and> l = Source_removed)"

lemma final_item_stage: "final_item kind item \<longleftrightarrow> final_stage kind (stage_of item)"
  by (simp add: final_item_def stage_of_def)

lemma completed_prefix_stages:
  "completed_prefix t = length (takeWhile (final_stage (ft_kind t)) (stages t))"
  by (simp add: completed_prefix_def stages_def takeWhile_map comp_def final_item_stage [abs_def])

lemma length_takeWhile_eq:
  "k < length xs \<Longrightarrow> \<not> P (xs ! k) \<Longrightarrow> (\<And>i. i < k \<Longrightarrow> P (xs ! i)) \<Longrightarrow> length (takeWhile P xs) = k"
  by (subst takeWhile_eq_take_P_nth [of k]) simp_all

lemma length_takeWhile_update:
  "i < length xs \<Longrightarrow> \<not> P (xs ! i) \<Longrightarrow> \<not> P x \<Longrightarrow>
     length (takeWhile P (xs[i := x])) = length (takeWhile P xs)"
  by (induction xs arbitrary: i) (auto split: nat.split)

lemma prefix_kept:
  assumes "i < length (stages t)" "stages t' = (stages t)[i := x]" "ft_kind t' = ft_kind t"
    and "\<not> final_stage (ft_kind t) (stages t ! i)" "\<not> final_stage (ft_kind t) x"
  shows "completed_prefix t' = completed_prefix t"
  using length_takeWhile_update [OF assms(1,4,5)] assms(2,3) by (simp add: completed_prefix_stages)

lemma undo_not_final:
  assumes valid: "valid_file_transfer_transaction t = Inr ()" and "undoing t" "i < length (stages t)"
    and step: "item_step step (stages t ! i) x" "step \<in> set undoing_steps"
  shows "\<not> final_stage (ft_kind t) (stages t ! i)" "\<not> final_stage (ft_kind t) x"
proof -
  have item: "item_at t i \<in> set (ft_items t)" "stages t ! i = stage_of (item_at t i)"
    using assms(3) by (simp_all add: stages_def item_at_def)
  from items_ok_mem [OF valid_transfer_items(1) [OF valid] item(1)] obtain j
    where ok: "transfer_item_ok t j (item_at t i)" .
  have strategy: "strategy_and_locations_valid (ft_kind t) (item_at t i)"
    and published: "ft_destination_state (item_at t i) = Destination_published \<Longrightarrow>
      final_stage (ft_kind t) (stages t ! i)"
    using transfer_item_okD(9,11) [OF ok] assms(2) by (simp_all add: undoing_def item(2) final_item_stage)
  obtain m l d v k where stage: "stages t ! i = (m, l, d, v, k)" by (cases "stages t ! i")
  with item(2) have fields: "m = ft_strategy (item_at t i)" "l = ft_source_location (item_at t i)"
      "d = ft_destination_state (item_at t i)" by (simp_all add: stage_of_def)
  from step(2) consider "step = Restore_staged_source" | "step = Restore_overwrite_destination"
    | "step = Cleanup_temp" by (auto simp: undoing_steps_def)
  then have "\<not> final_stage (ft_kind t) (stages t ! i) \<and> \<not> final_stage (ft_kind t) x"
  proof cases
    case 1
    with step(1) have "m = Move_stream" "l = Source_staged" "x = (m, Source_original, d, v, k)"
      by (simp_all add: stage)
    with strategy fields show ?thesis
      by (auto simp: stage strategy_and_locations_valid_def)
  next
    case 2
    with step(1) have "v \<noteq> Overwrite_none" "x = (m, l, d, Overwrite_none, k)"
      by (auto simp: stage)
    with published fields show ?thesis by (auto simp: stage)
  next
    case 3
    with step(1) show ?thesis by (auto simp: stage)
  qed
  then show "\<not> final_stage (ft_kind t) (stages t ! i)" "\<not> final_stage (ft_kind t) x" by simp_all
qed

lemma taken_prefix:
  assumes "taken t ds t' ds'" "undoing t" "valid_file_transfer_transaction t = Inr ()"
    and "ft_kind t' = ft_kind t"
  shows "completed_prefix t' = completed_prefix t"
proof -
  consider "t' = clear_active t" | i step where "stepped step i t t'" "step \<in> set undoing_steps"
    using assms(1,2) unfolding taken_def by blast
  then show ?thesis
  proof cases
    case 1
    then show ?thesis by (simp add: completed_prefix_def clear_active_def)
  next
    case 2
    then obtain x where at: "i < length (stages t)" "stages t' = (stages t)[i := x]"
        "item_step step (stages t ! i) x"
      unfolding stepped_def by metis
    from prefix_kept [OF at(1,2) assms(4) undo_not_final [OF assms(3,2) at(1,3) 2(2)]]
    show ?thesis .
  qed
qed

section \<open>How a run ends\<close>

text \<open>The item that failed is back where it was.\<close>

definition undone :: "FileTransferTransaction \<Rightarrow> bool" where
  "undone t \<longleftrightarrow> undoing t \<and>
     (let item = item_at t (completed_prefix t) in
      ft_destination_state item \<noteq> Temp_reserved \<and> ft_destination_state item \<noteq> Content_ready \<and>
      \<not> (ft_kind t = Move_transfer \<and> ft_source_location item = Source_staged) \<and>
      ft_overwrite_state item \<noteq> Overwrite_evacuated \<and>
      ft_overwrite_state item \<noteq> Overwrite_evacuated_unexpected)"

definition concluded :: "FileTransferResult \<Rightarrow> FileTransferTransaction \<Rightarrow> 'h transfer_state \<Rightarrow> bool" where
  "concluded res t w \<longleftrightarrow> list_all announced (submissions w) \<and>
     (transfer_status res \<in> {Transfer_stopped, Transfer_recovery_required} \<longrightarrow>
        safely (journal w) (submissions w)) \<and>
     (transfer_status res = Transfer_success \<longrightarrow> ft_phase t = Transfer_completed) \<and>
     (transfer_status res \<in> {Transfer_partial_failure, Transfer_cancelled} \<longrightarrow>
        undone t \<and> (transfer_status res = Transfer_cancelled \<longleftrightarrow> ft_cancelled t)) \<and>
     (transfer_status res \<in> {Transfer_success, Transfer_partial_failure, Transfer_cancelled} \<longrightarrow>
        valid_file_transfer_transaction t = Inr () \<and> transfer_completed res = completed_prefix t \<and>
        transfer_destinations res = completed_destinations t)"

lemma result_for_simps [simp]:
  "transfer_status (result_for t st a b c) = st"
  "transfer_completed (result_for t st a b c) = completed_prefix t"
  "transfer_destinations (result_for t st a b c) = completed_destinations t"
  by (simp_all add: result_for_def Let_def)

lemma concluded_open:
  "safely (journal w) (submissions w) \<Longrightarrow>
     st \<in> {Transfer_stopped, Transfer_recovery_required, Transfer_journal_error} \<Longrightarrow>
     concluded (result_for t st a b c) t' w"
  by (auto simp: concluded_def safely_def)

lemma run_status_open:
  "x \<noteq> Outcome_committed \<Longrightarrow>
     run_status x \<in> {Transfer_stopped, Transfer_recovery_required, Transfer_journal_error}"
  by (cases x) (simp_all add: run_status_def)

lemma remove_transfer_journal_log:
  "remove_transfer_journal s t w = (r, w') \<Longrightarrow> submissions w' = submissions w"
  by (auto simp: remove_transfer_journal_def remove_record_def Let_def
      split: prod.splits option.splits if_splits)

section \<open>The clean-up\<close>

definition turn_post :: "FileTransferTransaction \<Rightarrow> 'h turn \<Rightarrow> bool" where
  "turn_post t = (\<lambda>((r, t'), w').
     ft_kind t' = ft_kind t \<and> length (ft_items t') = length (ft_items t) \<and>
     (case r of
        None \<Rightarrow> running t' w' \<and> undoing t' \<and> to_undo t' < to_undo t \<and>
          completed_prefix t' = completed_prefix t
      | Some res \<Rightarrow> concluded res t' w'))"

lemma end_turn_post:
  assumes "step_post t w e" "undoing t" "running t w"
  shows "turn_post t (end_turn e)"
proof -
  obtain step t' w' where e: "e = ((step, t'), w')" by (rule nested_pair)
  show ?thesis
  proof (cases "outcome step = Outcome_committed")
    case True
    with assms(1) have post: "running t' w'" "taken t (decisions w) t' (decisions w')"
        "ft_kind t' = ft_kind t" "length (ft_items t') = length (ft_items t)"
      by (simp_all add: e step_post_def running_recorded)
    moreover from this(2) assms(2) have "undoing t'" by (simp add: taken_def)
    moreover note taken_to_undo(2) [OF post(2) assms(2)]
      taken_prefix [OF post(2) assms(2) running_valid [OF assms(3)] post(3)]
    ultimately show ?thesis using True by (simp add: e end_turn_def turn_post_def)
  next
    case False
    with assms(1) have post: "safely (journal w') (submissions w')" "ft_kind t' = ft_kind t"
        "length (ft_items t') = length (ft_items t)" by (simp_all add: e step_post_def)
    with False concluded_open [OF post(1) run_status_open [OF False]] show ?thesis
      by (simp add: e end_turn_def turn_post_def)
  qed
qed

lemma turn_post_from:
  "turn_post t1 e \<Longrightarrow> ft_kind t1 = ft_kind t \<Longrightarrow> length (ft_items t1) = length (ft_items t) \<Longrightarrow>
     to_undo t1 \<le> to_undo t \<Longrightarrow> completed_prefix t1 = completed_prefix t \<Longrightarrow> turn_post t e"
  by (auto simp: turn_post_def split: option.splits)

lemma turn_post_open:
  "safely (journal w') (submissions w') \<Longrightarrow> ft_kind t' = ft_kind t \<Longrightarrow>
     length (ft_items t') = length (ft_items t) \<Longrightarrow>
     st \<in> {Transfer_stopped, Transfer_recovery_required, Transfer_journal_error} \<Longrightarrow>
     turn_post t ((Some (result_for u st a b c), t'), w')"
  by (simp add: turn_post_def concluded_open)

lemma cleanup_saving_post:
  assumes run: "running t w" and t1: "orderly t1" "ft_kind t1 = ft_kind t" "length (ft_items t1) = length (ft_items t)"
    and next_turn: "\<And>w1. running t1 w1 \<Longrightarrow> turn_post t (f w1)"
  shows "turn_post t (cleanup_saving c t1 w f)"
proof -
  obtain r w1 where persist: "persist_transfer t1 w = (r, w1)" by fastforce
  note effect = persist_transfer_effect [OF persist]
  have safe: "safely (journal w1) (submissions w1)"
    using effect(1,4) run t1(1) by (simp add: running_def)
  show ?thesis
  proof (cases r)
    case None
    have "transfer_recorded t1 (journal w1)"
      using effect(3) run None by (auto simp: running_def dest: safely_disk_ok)
    with safe t1(1) have "running t1 w1" by (simp add: running_recorded)
    from next_turn [OF this] None persist show ?thesis by (simp add: cleanup_saving_def)
  next
    case (Some detail)
    with persist turn_post_open [OF safe t1(2,3)] show ?thesis by (simp add: cleanup_saving_def)
  qed
qed

text \<open>A clean-up between two steps, at the item that is not done.\<close>

definition cleaning ::
  "cleanup_context \<Rightarrow> FileTransferTransaction \<Rightarrow> 'h transfer_state \<Rightarrow> bool"
where
  "cleaning c t w \<longleftrightarrow> running t w \<and> undoing t \<and> cleanup_index c = completed_prefix t"

lemma cleaning_untouched: "cleaning c t w \<Longrightarrow> untouched w w' \<Longrightarrow> cleaning c t w'"
  using running_quiet by (auto simp: cleaning_def)

lemma cleaningD:
  assumes "cleaning c t w"
  shows "running t w" "undoing t" "cleanup_index c < length (ft_items t)" "cleanup_index c < 2 ^ 32"
    "\<not> final_item (ft_kind t) (item_at t (cleanup_index c))" "safely (journal w) (submissions w)"
    "completed_prefix t = cleanup_index c"
proof -
  show run: "running t w" "undoing t" "completed_prefix t = cleanup_index c"
    "safely (journal w) (submissions w)"
    using assms by (simp_all add: cleaning_def running_def)
  then have "ft_phase t \<noteq> Transfer_completed" by (simp add: undoing_def)
  from completed_prefix_unfinished [OF running_valid [OF run(1)] this] run(3)
  show "cleanup_index c < length (ft_items t)" "cleanup_index c < 2 ^ 32"
    "\<not> final_item (ft_kind t) (item_at t (cleanup_index c))" by simp_all
qed

lemma cleanup_item_changed:
  assumes "cleaning c t w" "t1 = with_item (cleanup_index c) change t"
    and "ft_destination_state (change (item_at t (cleanup_index c))) \<noteq> Destination_published"
    and "behind (stage_of (change (item_at t (cleanup_index c)))) \<le>
      behind (stage_of (item_at t (cleanup_index c)))"
  shows "orderly t1" "ft_kind t1 = ft_kind t" "length (ft_items t1) = length (ft_items t)"
    "undoing t1" "ft_step t1 = ft_step t" "completed_prefix t1 = completed_prefix t"
    "to_undo t1 \<le> to_undo t"
    "behind (stage_of (change (item_at t (cleanup_index c)))) <
      behind (stage_of (item_at t (cleanup_index c))) \<Longrightarrow> to_undo t1 < to_undo t"
proof -
  let ?i = "cleanup_index c"
  note t = cleaningD [OF assms(1)]
  have "orderly t" using t(1) by (simp add: running_def)
  then show "orderly t1" "ft_kind t1 = ft_kind t" "length (ft_items t1) = length (ft_items t)"
    "undoing t1" "ft_step t1 = ft_step t"
    using t(2) by (simp_all add: assms(2) transfer_changes)
  have at: "?i < length (stages t)" "stages t ! ?i = stage_of (item_at t ?i)"
    "stages t1 = (stages t)[?i := stage_of (change (item_at t ?i))]"
    using t(3) by (simp_all add: assms(2) stages_def item_at_def with_item_def map_update)
  have "\<not> final_stage (ft_kind t) (stage_of (change (item_at t ?i)))"
    "\<not> final_stage (ft_kind t) (stages t ! ?i)"
    using assms(3) t(5) by (simp_all add: at(2) flip: final_item_stage) (simp add: final_item_def)
  with prefix_kept [OF at(1,3)] show "completed_prefix t1 = completed_prefix t"
    by (simp add: assms(2) with_item_def)
  have less: "to_undo t1 < to_undo t"
    if "behind (stage_of (change (item_at t ?i))) < behind (stage_of (item_at t ?i))"
    using sum_list_map_update_less [OF at(1), of behind] that at(2,3)
    by (simp add: to_undo_def under_step_def assms(2)) (simp add: with_item_def)
  then show "behind (stage_of (change (item_at t ?i))) < behind (stage_of (item_at t ?i)) \<Longrightarrow>
    to_undo t1 < to_undo t" .
  show "to_undo t1 \<le> to_undo t"
  proof (cases "behind (stage_of (change (item_at t ?i))) = behind (stage_of (item_at t ?i))")
    case True
    then have "map behind (stages t1) = map behind (stages t)"
      using at by (simp add: map_update list_update_same_conv)
    then show ?thesis by (simp add: to_undo_def under_step_def assms(2)) (simp add: with_item_def)
  next
    case False
    with less assms(4) show ?thesis by simp
  qed
qed

lemma stop_untouched: "stop_requested w = (b, w') \<Longrightarrow> untouched w w'"
  by (simp add: untouched_def stop_quiet)

lemma cleaning_begins:
  assumes "cleaning c t w" "ft_step t = No_transfer_step" "step \<in> set undoing_steps"
  shows "may_begin t w (cleanup_index c) step"
  using assms cleaningD(1,2,4) [OF assms(1)] may_begin_running [of t w step]
  by (auto simp: cleaning_def undoing_def undoing_steps_def)

lemma cleanup_temp_turn_post:
  fixes w :: "'h transfer_state"
  assumes at: "cleaning c t w" and idle: "ft_step t = No_transfer_step"
    and state: "ft_destination_state (item_at t (cleanup_index c)) \<in> {Temp_reserved, Content_ready}"
  shows "turn_post t (cleanup_temp_turn s c t w)"
proof -
  let ?i = "cleanup_index c"
  obtain found w1 where probe: "probe_temp s t ?i w = (found, w1)" by fastforce
  have w1: "cleaning c t w1"
    using cleaning_untouched [OF at] probe_temp_quiet [OF probe] by (simp add: untouched_def)
  note run = cleaningD(1) [OF w1] and safe = cleaningD(6) [OF w1]
  have "behind (stage_of (clear_destination_proof (item_at t ?i))) < behind (stage_of (item_at t ?i))"
    using state by (auto simp: stage_of_def clear_destination_proof_def token_empty_def list_all_length)
  note gone = cleanup_item_changed [OF w1 refl, of clear_destination_proof, OF _ less_imp_le, OF _ this]
    and less = this
  let ?gone = "with_item ?i clear_destination_proof t"
  have gone: "orderly ?gone" "ft_kind ?gone = ft_kind t" "length (ft_items ?gone) = length (ft_items t)"
    "undoing ?gone" "completed_prefix ?gone = completed_prefix t" "to_undo ?gone < to_undo t"
    using gone less by (simp_all add: clear_destination_proof_def)
  have first: "turn_post t (cleanup_saving c ?gone w1 (\<lambda>w. ((None, ?gone), w)))"
    by (rule cleanup_saving_post [OF run gone(1-3)]) (use gone in \<open>simp add: turn_post_def\<close>)
  let ?change = "\<lambda>item. item\<lparr>ft_destination_snapshot := probe_snapshot found,
    ft_content_sha256 := replicate kFileTransferDigestBytes 0, ft_content_bytes := 0,
    ft_content_proof := False, ft_destination_state := Temp_reserved\<rparr>"
  let ?kept = "with_item ?i ?change t"
  have kept: "orderly ?kept" "ft_kind ?kept = ft_kind t" "length (ft_items ?kept) = length (ft_items t)"
    "undoing ?kept" "ft_step ?kept = ft_step t" "completed_prefix ?kept = completed_prefix t"
    "to_undo ?kept \<le> to_undo t"
    by (rule cleanup_item_changed [OF w1 refl]; use state in \<open>auto simp: stage_of_def\<close>)+
  have second: "turn_post t (cleanup_saving c ?kept w1 (\<lambda>w.
      let (stopped, w) = stop_requested w in
      if stopped then
        ((Some (result_for ?kept Transfer_stopped (cleanup_status c) (cleanup_evidence c)
            ''file transfer stopped after recording the current temporary file''), ?kept), w)
      else end_turn (execute_delete_step s ?kept ?i Cleanup_temp w)))"
  proof (rule cleanup_saving_post [OF run kept(1-3)])
    fix w2 :: "'h transfer_state"
    assume w2: "running ?kept w2"
    obtain b w3 where stop: "stop_requested w2 = (b, w3)" by fastforce
    have w3: "cleaning c ?kept w3"
      using running_quiet [OF w2 stop_untouched [OF stop]] kept(4,6) cleaningD(7) [OF w1]
      by (simp add: cleaning_def)
    have "step_post ?kept w3 (execute_delete_step s ?kept ?i Cleanup_temp w3)"
      by (rule execute_delete_step_post [OF cleaning_begins [OF w3]])
        (use idle kept(5) in \<open>simp_all add: erasing_steps_def undoing_steps_def\<close>)
    from turn_post_from [OF end_turn_post [OF this kept(4) cleaningD(1) [OF w3]] kept(2,3,7,6)]
    show "turn_post t (let (stopped, w) = stop_requested w2 in
        if stopped then
          ((Some (result_for ?kept Transfer_stopped (cleanup_status c) (cleanup_evidence c)
              ''file transfer stopped after recording the current temporary file''), ?kept), w)
        else end_turn (execute_delete_step s ?kept ?i Cleanup_temp w))"
      using turn_post_open [OF cleaningD(6) [OF w3] kept(2,3)] by (simp add: stop)
  qed
  show ?thesis
    using first second turn_post_open [OF safe refl refl]
    by (simp add: cleanup_temp_turn_def probe Let_def)
qed

lemma cleanup_item_turn_post:
  assumes at: "cleaning c t w" and idle: "ft_step t = No_transfer_step"
  shows "turn_post t (cleanup_item_turn s c t w)"
proof -
  let ?i = "cleanup_index c"
  note t = cleaningD [OF at]
  have rename: "turn_post t (end_turn (execute_rename_step s t ?i step w))"
    if "step \<in> set undoing_steps" "step \<in> set rename_steps" for step
    by (rule end_turn_post [OF execute_rename_step_post [OF cleaning_begins [OF at idle that(1)] that(2)]
          t(2,1)])
  obtain r w1 where remove: "remove_transfer_journal s t w = (r, w1)" by fastforce
  note log = remove_transfer_journal_log [OF remove]
  let ?item = "item_at t ?i"
  have "turn_post t (case remove_transfer_journal s t w of
      (Some detail, w) \<Rightarrow>
        ((Some (result_for t Transfer_journal_error Io_error (cleanup_evidence c) detail), t), w)
    | (None, w) \<Rightarrow>
        ((Some (result_for t (if ft_cancelled t then Transfer_cancelled else Transfer_partial_failure)
            (cleanup_status c) (cleanup_evidence c) (cleanup_detail c)), t), w))"
    if "undone t"
    using that safely_announced [OF t(6)] running_valid [OF t(1)] log
    by (simp add: remove turn_post_def concluded_def split: option.split)
  then show ?thesis
    using cleanup_temp_turn_post [OF at idle] t(2,7)
    by (simp add: cleanup_item_turn_def Let_def rename undoing_steps_def rename_steps_def undone_def)
qed

lemma cleanup_turn_post:
  assumes at: "cleaning c t w"
  shows "turn_post t (cleanup_turn s c t w)"
proof -
  let ?i = "cleanup_index c"
  obtain b w1 where stop: "stop_requested w = (b, w1)" by fastforce
  have w1: "cleaning c t w1" by (rule cleaning_untouched [OF at stop_untouched [OF stop]])
  note t = cleaningD [OF w1]
  obtain found owned w2 where probe: "probe_reservation s t ?i w1 = ((found, owned), w2)"
    by (rule nested_pair)
  have w2: "cleaning c t w2"
    using cleaning_untouched [OF w1] probe_reservation_quiet [OF probe] by (simp add: untouched_def)
  show ?thesis
  proof (cases "ft_step t = No_transfer_step")
    case active: False
    have "turn_post t (end_turn (recover_active_step s t w1))"
      by (rule end_turn_post [OF recover_active_step_post [OF running_interrupted [OF t(1) active]] t(2,1)])
    with active turn_post_open [OF t(6) refl refl] show ?thesis
      by (simp add: cleanup_turn_def stop Let_def)
  next
    case idle: True
    show ?thesis
    proof (cases "ft_destination_state (item_at t ?i) = Destination_absent \<and>
        \<not> token_empty (ft_request_token (item_at t ?i))")
      case False
      with idle turn_post_open [OF t(6) refl refl] cleanup_item_turn_post [OF w1 idle] show ?thesis
        by (auto simp: cleanup_turn_def stop Let_def)
    next
      case True
      let ?change = "\<lambda>item. item\<lparr>ft_destination_snapshot := probe_snapshot found,
        ft_destination_state := Temp_reserved\<rparr>"
      let ?t = "update_item ?i (probe_snapshot found) Temp_reserved t"
      have less: "behind (stage_of (?change (item_at t ?i))) < behind (stage_of (item_at t ?i))"
        using True by (simp add: stage_of_def)
      have taken: "orderly ?t" "ft_kind ?t = ft_kind t" "length (ft_items ?t) = length (ft_items t)"
        "undoing ?t" "completed_prefix ?t = completed_prefix t" "to_undo ?t < to_undo t"
        unfolding update_item_def
        by (rule cleanup_item_changed [OF w2 refl]; use less in simp)+
      have "turn_post t (cleanup_saving c ?t w2 (\<lambda>w. ((None, ?t), w)))"
        by (rule cleanup_saving_post [OF cleaningD(1) [OF w2] taken(1-3)])
          (use taken in \<open>simp add: turn_post_def\<close>)
      with idle True turn_post_open [OF t(6) refl refl] turn_post_open [OF cleaningD(6) [OF w2] refl refl]
        cleanup_item_turn_post [OF w2 idle] show ?thesis
        by (simp add: cleanup_turn_def stop probe Let_def)
    qed
  qed
qed

section \<open>The loops\<close>

text \<open>How a loop ends; \<^const>\<open>None\<close> is the end of the fuel.\<close>

definition loop_post :: "FileTransferTransaction \<Rightarrow> 'h turn \<Rightarrow> bool" where
  "loop_post t = (\<lambda>((r, t'), w').
     ft_kind t' = ft_kind t \<and> length (ft_items t') = length (ft_items t) \<and>
     list_all announced (submissions w') \<and> (\<forall>res. r = Some res \<longrightarrow> concluded res t' w'))"

lemma loop_post_from:
  "loop_post t1 e \<Longrightarrow> ft_kind t1 = ft_kind t \<Longrightarrow> length (ft_items t1) = length (ft_items t) \<Longrightarrow>
     loop_post t e"
  by (auto simp: loop_post_def)

lemma cleanup_loop_post:
  assumes "cleaning c t w"
  shows "loop_post t (cleanup_loop s c fuel t w) \<and>
    (to_undo t < fuel \<longrightarrow> fst (fst (cleanup_loop s c fuel t w)) \<noteq> None)"
  using assms
proof (induction fuel arbitrary: t w)
  case 0
  with cleaningD(6) [OF 0] show ?case by (simp add: loop_post_def safely_announced)
next
  case (Suc fuel)
  obtain r t1 w1 where turn: "cleanup_turn s c t w = ((r, t1), w1)" by (rule nested_pair)
  from cleanup_turn_post [OF Suc.prems, of s] have post: "turn_post t ((r, t1), w1)" by (simp add: turn)
  show ?case
  proof (cases r)
    case None
    with post have t1: "ft_kind t1 = ft_kind t" "length (ft_items t1) = length (ft_items t)"
        "running t1 w1" "undoing t1" "to_undo t1 < to_undo t" "completed_prefix t1 = completed_prefix t"
      by (simp_all add: turn_post_def)
    then have "cleaning c t1 w1" using Suc.prems by (simp add: cleaning_def)
    note IH = Suc.IH [OF this]
    from IH t1 loop_post_from [OF conjunct1 [OF IH] t1(1,2)] None turn show ?thesis by simp
  next
    case (Some res)
    with post turn show ?thesis by (simp add: turn_post_def loop_post_def concluded_def)
  qed
qed

lemma continue_cleanup_post:
  assumes run: "running t w" and undo: "undoing t"
  shows "loop_post t (continue_cleanup s fuel t w)"
    "4 * length (ft_items t) + 1 < fuel \<Longrightarrow> fst (fst (continue_cleanup s fuel t w)) \<noteq> None"
proof -
  let ?c = "\<lparr>cleanup_status = ft_failure t, cleanup_detail = ft_detail t,
    cleanup_evidence = ft_failure_evidence t, cleanup_index = completed_prefix t\<rparr>"
  have "ft_phase t \<noteq> Transfer_completed" using undo by (simp add: undoing_def)
  note unfinished = completed_prefix_unfinished(1) [OF running_valid [OF run] this]
  have "cleaning ?c t w" using run undo by (simp add: cleaning_def)
  note loop = cleanup_loop_post [OF this, of s fuel]
  with unfinished to_undo_bound [of t]
  show "loop_post t (continue_cleanup s fuel t w)"
    "4 * length (ft_items t) + 1 < fuel \<Longrightarrow> fst (fst (continue_cleanup s fuel t w)) \<noteq> None"
    by (simp_all add: continue_cleanup_def Let_def)
qed

text \<open>Fuel that is enough: the steps that are left for the items, as often as the user may still
  answer a question, and a clean-up.\<close>

definition enough :: "FileTransferTransaction \<Rightarrow> 'h transfer_state \<Rightarrow> nat" where
  "enough t w = length (decisions w) * (8 * length (ft_items t) + 2) + to_do t +
     (4 * length (ft_items t) + 3)"

lemma enough_less:
  assumes "ft_kind t' = ft_kind t" "length (ft_items t') = length (ft_items t)"
    and "decisions w' = decisions w \<and> to_do t' < to_do t \<or> length (decisions w') < length (decisions w)"
  shows "enough t' w' < enough t w"
proof (cases "length (decisions w') < length (decisions w)")
  case True
  then obtain n where n: "length (decisions w) = Suc n" "length (decisions w') \<le> n"
    by (cases "length (decisions w)") simp_all
  then have "length (decisions w') * (8 * length (ft_items t) + 2) \<le> n * (8 * length (ft_items t) + 2)"
    by (rule_tac mult_le_mono1)
  with to_do_bound [of t'] n(1) assms(2) show ?thesis by (simp add: enough_def)
next
  case False
  with assms show ?thesis by (simp add: enough_def)
qed

lemma processing_loop_post:
  assumes "running t w" "\<not> undoing t"
  shows "loop_post t (processing_loop s fuel t w) \<and>
    (enough t w < fuel \<longrightarrow> fst (fst (processing_loop s fuel t w)) \<noteq> None)"
  using assms
proof (induction fuel arbitrary: t w)
  case 0
  then show ?case by (simp add: loop_post_def running_def safely_def)
next
  case (Suc fuel)
  have safe: "safely (journal w) (submissions w)" using Suc.prems by (simp add: running_def)
  show ?case
  proof (cases "ft_phase t = Transfer_completed")
    case True
    obtain r w1 where remove: "remove_transfer_journal s t w = (r, w1)" by fastforce
    from remove_transfer_journal_log [OF remove] True safely_announced [OF safe]
      running_valid [OF Suc.prems(1)] remove
    show ?thesis by (simp add: loop_post_def concluded_def split: option.split)
  next
    case working: False
    obtain b w1 where stop: "stop_requested w = (b, w1)" by fastforce
    have w1: "running t w1" "safely (journal w1) (submissions w1)"
      using running_quiet [OF Suc.prems(1) stop_untouched [OF stop]] by (simp_all add: running_def)
    have same: "decisions w1 = decisions w" using stop_quiet [OF stop] by simp
    let ?step = "if ft_step t = No_transfer_step then next_processing_step s t w1
      else recover_active_step s t w1"
    obtain step t2 w2 where run: "?step = ((step, t2), w2)" by (rule nested_pair)
    have "step_post t w1 ?step"
      using next_processing_step_post [OF w1(1) working Suc.prems(2)]
        recover_active_step_post [OF running_interrupted [OF w1(1)]] by simp
    then have post: "step_post t w1 ((step, t2), w2)" by (simp only: run)
    then have t2: "ft_kind t2 = ft_kind t" "length (ft_items t2) = length (ft_items t)"
        "safely (journal w2) (submissions w2)" by (simp_all add: step_post_def)
    note run' = processing_loop.simps(2) [of s fuel t w, unfolded Let_def stop prod.case run]
    consider (stopped) b | (undo) "\<not> b" "outcome step = Outcome_clean_failure"
      | (on) "\<not> b" "outcome step = Outcome_committed"
      | (open_end) "\<not> b" "outcome step \<noteq> Outcome_clean_failure" "outcome step \<noteq> Outcome_committed"
      by blast
    then show ?thesis
    proof cases
      case stopped
      with working w1(2) concluded_open [OF w1(2)] show ?thesis
        unfolding run' by (simp add: loop_post_def safely_announced)
    next
      case undo
      with post have "running t2 w2" "undoing t2" by (simp_all add: step_post_def running_recorded)
      note cleanup = continue_cleanup_post [OF this, where s = s and fuel = fuel]
      from cleanup loop_post_from [OF cleanup(1) t2(1,2)] undo working t2(2)
      show ?thesis unfolding run' by (simp add: enough_def)
    next
      case on
      with post have t2': "running t2 w2" "taken t (decisions w1) t2 (decisions w2)"
        by (simp_all add: step_post_def running_recorded)
      then have "\<not> undoing t2" using Suc.prems(2) by (simp add: taken_def)
      note IH = Suc.IH [OF t2'(1) this]
      have "enough t2 w2 < enough t w"
        using enough_less [OF t2(1,2)] taken_to_do [OF t2'(2) Suc.prems(2)] same by simp
      with IH loop_post_from [OF conjunct1 [OF IH] t2(1,2)] on working show ?thesis
        unfolding run' by (simp add: end_turn_def)
    next
      case open_end
      with working t2 concluded_open [OF t2(3) run_status_open [OF open_end(3)]] show ?thesis
        unfolding run' by (simp add: end_turn_def loop_post_def safely_announced)
    qed
  qed
qed

section \<open>The conflicts of a new transfer\<close>

lemma observe_conflicts_quiet:
  "observe_conflicts s t indices w = (r, w') \<Longrightarrow> untouched w w'"
proof (induction indices arbitrary: w w' r)
  case Nil
  then show ?case by (simp add: untouched_def)
next
  case (Cons i indices)
  obtain b w1 where stop: "stop_requested w = (b, w1)" by fastforce
  obtain observed w2 where submit: "submit_rename s (rename_request t i Atomic_move) True w1 = (observed, w2)"
    by fastforce
  obtain r3 w3 where rest: "observe_conflicts s t indices w2 = (r3, w3)" by fastforce
  note run = Cons.prems [unfolded observe_conflicts.simps Let_def stop prod.case submit rest]
  have "untouched w w3"
    using Cons.IH [OF rest] stop_quiet [OF stop] submit_rename_quiet [OF submit]
    by (simp add: untouched_def)
  then show ?case
    using run Cons.IH [of w r w'] stop_untouched [OF stop] by (auto split: if_split_asm)
qed

lemma assign_copies_effect:
  assumes "assign_copies s indices t w = ((ok, t'), w')"
  shows "untouched w w' \<and> ft_kind t' = ft_kind t \<and> length (ft_items t') = length (ft_items t) \<and>
    ft_step t' = ft_step t \<and> ft_phase t' = ft_phase t"
  using assms
proof (induction indices arbitrary: t w)
  case Nil
  then show ?case by (simp add: untouched_def)
next
  case (Cons i indices)
  obtain r w1 where names: "assign_copy_destination s t i w = (r, w1)" by fastforce
  note quiet = try_copy_names_quiet [OF names [unfolded assign_copy_destination_def]]
  show ?case
  proof (cases r)
    case None
    with Cons.prems names quiet show ?thesis by (simp add: untouched_def)
  next
    case (Some t1)
    with quiet obtain c where t1: "t1 = with_item i (with_destination (ft_operation_id t) i c) t" by blast
    have "assign_copies s indices t1 w1 = ((ok, t'), w')" using Cons.prems names Some by simp
    from Cons.IH [OF this] quiet show ?thesis by (simp add: t1 with_item_def untouched_def)
  qed
qed

lemma authorize_all_effect:
  "ft_kind (authorize_all conflicts t) = ft_kind t \<and>
   length (ft_items (authorize_all conflicts t)) = length (ft_items t) \<and>
   ft_step (authorize_all conflicts t) = ft_step t \<and> ft_phase (authorize_all conflicts t) = ft_phase t"
  unfolding authorize_all_def
  by (induction conflicts arbitrary: t) (auto simp: with_item_def split: prod.split)

text \<open>Before the first step: nothing is under way.\<close>

definition fresh ::
  "FileTransferTransaction \<Rightarrow> 'h transfer_state \<Rightarrow> FileTransferTransaction \<Rightarrow> 'h transfer_state \<Rightarrow> bool"
where
  "fresh t w t1 w1 \<longleftrightarrow> safely (journal w1) (submissions w1) \<and> ft_step t1 = No_transfer_step \<and>
     ft_kind t1 = ft_kind t \<and> length (ft_items t1) = length (ft_items t) \<and> ft_phase t1 = ft_phase t \<and>
     length (decisions w1) \<le> length (decisions w)"

definition asked_post ::
  "FileTransferTransaction \<Rightarrow> 'h transfer_state \<Rightarrow>
   (FileTransferResult option option \<times> FileTransferTransaction) \<times> 'h transfer_state \<Rightarrow> bool"
where
  "asked_post t w = (\<lambda>((r, t'), w').
     case r of
       None \<Rightarrow> running t' w' \<and> ft_kind t' = ft_kind t \<and> length (ft_items t') = length (ft_items t) \<and>
         length (decisions w') \<le> length (decisions w)
     | Some r \<Rightarrow> loop_post t ((r, t'), w'))"

lemma fresh_orderly: "fresh t w t1 w1 \<Longrightarrow> orderly t1"
  by (simp add: fresh_def orderly_def)

lemma fresh_saved:
  assumes "fresh t w t1 w1" "persist_transfer t1 w1 = (r, w2)"
  shows "fresh t w t1 w2" "r = None \<Longrightarrow> running t1 w2" "decisions w2 = decisions w1"
proof -
  note effect = persist_transfer_effect [OF assms(2)]
  show fresh: "fresh t w t1 w2" "decisions w2 = decisions w1"
    using assms(1) effect(1,2,4) fresh_orderly [OF assms(1)] by (simp_all add: fresh_def)
  show "running t1 w2" if "r = None"
    using fresh(1) fresh_orderly [OF fresh(1)] effect(3) that assms(1)
    by (intro running_recorded) (auto simp: fresh_def dest: safely_disk_ok)
qed

lemma loop_post_open:
  "safely (journal w') (submissions w') \<Longrightarrow> ft_kind t' = ft_kind t \<Longrightarrow>
     length (ft_items t') = length (ft_items t) \<Longrightarrow>
     st \<in> {Transfer_stopped, Transfer_recovery_required, Transfer_journal_error} \<Longrightarrow>
     loop_post t ((Some (result_for u st a b c), t'), w')"
  by (simp add: loop_post_def concluded_open safely_announced)

lemma give_up_post:
  assumes "fresh t w t1 w1"
  shows "loop_post t (give_up s fuel t1 detail w1)"
    "4 * length (ft_items t) + 1 < fuel \<Longrightarrow> fst (fst (give_up s fuel t1 detail w1)) \<noteq> None"
proof -
  let ?t = "note_transfer_failure Conflict No_commit detail
    (clear_active (t1\<lparr>ft_phase := Transfer_prepublish_cleanup\<rparr>))"
  obtain r w2 where persist: "persist_transfer ?t w1 = (r, w2)" by fastforce
  note effect = persist_transfer_effect [OF persist]
  have t1: "ft_kind ?t = ft_kind t" "length (ft_items ?t) = length (ft_items t)" "orderly ?t" "undoing ?t"
    using assms by (simp_all add: fresh_def transfer_changes)
  have safe: "safely (journal w2) (submissions w2)"
    using assms effect(1,4) t1(3) by (simp add: fresh_def)
  have "loop_post t (give_up s fuel t1 detail w1) \<and>
    (4 * length (ft_items t) + 1 < fuel \<longrightarrow> fst (fst (give_up s fuel t1 detail w1)) \<noteq> None)"
  proof (cases r)
    case None
    have "transfer_recorded ?t (journal w2)"
      using effect(3) assms None by (auto simp: fresh_def dest: safely_disk_ok)
    with safe t1(3) have "running ?t w2" by (intro running_recorded)
    note cleanup = continue_cleanup_post [OF this t1(4), where s = s and fuel = fuel]
    have "give_up s fuel t1 detail w1 = continue_cleanup s fuel ?t w2"
      using None persist by (simp add: give_up_def enter_cleanup_def saving_def)
    with cleanup loop_post_from [OF cleanup(1) t1(1,2)] t1(2) show ?thesis by simp
  next
    case (Some what)
    then have "give_up s fuel t1 detail w1 =
        ((Some (journal_error_result ?t Io_error No_commit what), ?t), w2)"
      using persist
      by (simp add: give_up_def enter_cleanup_def saving_def)
        (simp add: transfer_journal_failure_def transfer_step_result_def)
    with loop_post_open [OF safe t1(1,2)] show ?thesis by (simp add: journal_error_result_def)
  qed
  then show "loop_post t (give_up s fuel t1 detail w1)"
    "4 * length (ft_items t) + 1 < fuel \<Longrightarrow> fst (fst (give_up s fuel t1 detail w1)) \<noteq> None" by simp_all
qed

lemma save_answer_post:
  assumes "fresh t w t1 w1"
  shows "asked_post t w (save_answer t1 w1)" "fst (fst (save_answer t1 w1)) \<noteq> Some None"
proof -
  obtain r w2 where persist: "persist_transfer t1 w1 = (r, w2)" by fastforce
  note saved = fresh_saved [OF assms persist]
  then have "safely (journal w2) (submissions w2)" "ft_kind t1 = ft_kind t"
      "length (ft_items t1) = length (ft_items t)" "length (decisions w2) \<le> length (decisions w)"
    by (simp_all add: fresh_def)
  with persist saved(2) show "asked_post t w (save_answer t1 w1)" "fst (fst (save_answer t1 w1)) \<noteq> Some None"
    by (auto simp: save_answer_def asked_post_def journal_error_result_def loop_post_open
        split: option.split)
qed

lemma ended_post: "loop_post t e \<Longrightarrow> asked_post t w (ended e)"
  by (auto simp: ended_def asked_post_def split: prod.split)

lemma ended_ends: "fst (fst e) \<noteq> None \<Longrightarrow> fst (fst (ended e)) \<noteq> Some None"
  by (auto simp: ended_def split: prod.split)

lemma fresh_moves: "fresh t w t1 w1 \<Longrightarrow> untouched w1 w2 \<Longrightarrow> fresh t w t1 w2"
  by (simp add: fresh_def untouched_def)

lemma fresh_header:
  "fresh t w t1 w1 \<Longrightarrow> ft_kind t2 = ft_kind t1 \<Longrightarrow> length (ft_items t2) = length (ft_items t1) \<Longrightarrow>
     ft_step t2 = ft_step t1 \<Longrightarrow> ft_phase t2 = ft_phase t1 \<Longrightarrow> fresh t w t2 w1"
  by (simp add: fresh_def)

lemma answer_conflicts_post:
  assumes at: "fresh t w t1 w1"
  shows "asked_post t w (answer_conflicts s fuel conflicts decision t1 w1)"
    "4 * length (ft_items t) + 1 < fuel \<Longrightarrow>
       fst (fst (answer_conflicts s fuel conflicts decision t1 w1)) \<noteq> Some None"
proof -
  have "asked_post t w (answer_conflicts s fuel conflicts decision t1 w1) \<and>
    (4 * length (ft_items t) + 1 < fuel \<longrightarrow>
       fst (fst (answer_conflicts s fuel conflicts decision t1 w1)) \<noteq> Some None)"
  proof (cases decision)
    case Create_copy
    obtain ok t2 w2 where copies: "assign_copies s (map fst conflicts) t1 w1 = ((ok, t2), w2)"
      by (rule nested_pair)
    note effect = assign_copies_effect [OF copies]
    have t2: "fresh t w t2 w2"
      by (rule fresh_moves [OF fresh_header [OF at]]) (use effect in simp_all)
    show ?thesis
    proof (cases ok)
      case True
      with save_answer_post [OF t2] Create_copy copies show ?thesis
        by (simp add: answer_conflicts_def)
    next
      case False
      with ended_post [OF give_up_post(1) [OF t2]] ended_ends [OF give_up_post(2) [OF t2]]
        Create_copy copies show ?thesis
        by (simp add: answer_conflicts_def)
    qed
  next
    case Overwrite_destination
    have "fresh t w (authorize_all conflicts (current_version t1)) w1"
      by (rule fresh_header [OF at]) (simp_all add: authorize_all_effect, simp_all add: current_version_def)
    from save_answer_post [OF this] Overwrite_destination show ?thesis
      by (simp add: answer_conflicts_def)
  next
    case Cancel_transfer
    have "fresh t w (t1\<lparr>ft_cancelled := True\<rparr>) w1" by (rule fresh_header [OF at]) simp_all
    note given = give_up_post [OF this]
    from ended_post [OF given(1)] ended_ends [OF given(2)] Cancel_transfer show ?thesis
      by (simp add: answer_conflicts_def)
  qed
  then show "asked_post t w (answer_conflicts s fuel conflicts decision t1 w1)"
    "4 * length (ft_items t) + 1 < fuel \<Longrightarrow>
       fst (fst (answer_conflicts s fuel conflicts decision t1 w1)) \<noteq> Some None" by simp_all
qed

lemma request_initial_conflicts_post:
  assumes run: "running t w"
  shows "asked_post t w (request_initial_conflicts s fuel t w) \<and>
    (4 * length (ft_items t) + 1 < fuel \<longrightarrow>
       fst (fst (request_initial_conflicts s fuel t w)) \<noteq> Some None)"
proof (cases "conflict_handler w \<and> ft_phase t = Transfer_prepared")
  case False
  with run show ?thesis by (auto simp: request_initial_conflicts_def asked_post_def)
next
  case True
  obtain found w1 where observe: "observe_conflicts s t [0..<length (ft_items t)] w = (found, w1)"
    by fastforce
  note quiet = observe_conflicts_quiet [OF observe]
  have w1: "running t w1" by (rule running_quiet [OF run quiet])
  have same: "decisions w1 = decisions w" using quiet by (simp add: untouched_def)
  have safe: "safely (journal w1) (submissions w1)" using w1 by (simp add: running_def)
  let ?t = "clear_failure (clear_active t)"
  obtain r w2 where persist: "persist_transfer ?t w1 = (r, w2)" by fastforce
  have "fresh t w ?t w1"
    using safe same by (simp add: fresh_def transfer_changes)
  from fresh_saved(1,3) [OF this persist] have t2: "fresh t w ?t w2" "decisions w2 = decisions w1" .
  then have safe2: "safely (journal w2) (submissions w2)" "ft_kind ?t = ft_kind t"
      "length (ft_items ?t) = length (ft_items t)" by (simp_all add: fresh_def)
  obtain d w3 where await: "await_conflict_decision w2 = (d, w3)" by fastforce
  then have w3: "journal w3 = journal w2 \<and> submissions w3 = submissions w2 \<and>
      length (decisions w3) \<le> length (decisions w2)"
    by (auto simp: await_conflict_decision_def split: list.split_asm)
  then have t3: "fresh t w ?t w3" using t2(1) by (auto simp: fresh_def)
  then have safe3: "safely (journal w3) (submissions w3)" by (simp add: fresh_def)
  consider (stopped) "found = None" | (clear) "found = Some []" | conflicts where
    "found = Some conflicts" "conflicts \<noteq> []" by (cases found) auto
  then show ?thesis
  proof cases
    case stopped
    with True observe loop_post_open [OF safe refl refl] show ?thesis
      by (simp add: request_initial_conflicts_def asked_post_def)
  next
    case clear
    with True observe w1 same show ?thesis
      by (simp add: request_initial_conflicts_def asked_post_def)
  next
    case 3
    note unfolded = request_initial_conflicts_def observe prod.case Let_def persist await
    show ?thesis
    proof (cases r)
      case (Some detail)
      with True 3 loop_post_open [OF safe2] show ?thesis
        by (simp add: unfolded asked_post_def journal_error_result_def)
    next
      case None
      show ?thesis
      proof (cases d)
        case d: None
        with True 3 None loop_post_open [OF safe3 safe2(2,3)] show ?thesis
          by (simp add: unfolded asked_post_def)
      next
        case (Some decision)
        with True 3 None answer_conflicts_post [OF t3] show ?thesis by (simp add: unfolded)
      qed
    qed
  qed
qed

section \<open>The two jobs\<close>

text \<open>Enough for any run of a transaction with \<open>n\<close> items.\<close>

definition fuel_for :: "nat \<Rightarrow> nat \<Rightarrow> nat" where
  "fuel_for answers n = answers * (8 * n + 2) + 12 * n + 5"

lemma enough_fuel_for:
  "length (decisions w) \<le> a \<Longrightarrow> enough t w < fuel_for a (length (ft_items t))"
  using to_do_bound [of t] mult_le_mono1 [of "length (decisions w)" a "8 * length (ft_items t) + 2"]
  by (simp add: enough_def fuel_for_def)

lemma continue_after_start_post:
  assumes run: "running t w" and answers: "length (decisions w) \<le> a"
  shows "loop_post t (continue_after_start s fuel t w) \<and>
    (fuel_for a (length (ft_items t)) \<le> fuel \<longrightarrow> fst (fst (continue_after_start s fuel t w)) \<noteq> None)"
proof (cases "undoing t")
  case True
  with continue_cleanup_post [OF run True, where s = s and fuel = fuel] show ?thesis
    by (simp add: continue_after_start_def undoing_def fuel_for_def)
next
  case False
  with processing_loop_post [OF run False, where s = s and fuel = fuel] enough_fuel_for [OF answers, of t]
  show ?thesis by (simp add: continue_after_start_def undoing_def)
qed

lemma continue_transfer_post:
  assumes run: "running t w" and answers: "length (decisions w) \<le> a"
  shows "loop_post t (continue_transfer s fuel t w) \<and>
    (fuel_for a (length (ft_items t)) \<le> fuel \<longrightarrow> fst (fst (continue_transfer s fuel t w)) \<noteq> None)"
proof (cases "ft_phase t = Transfer_prepared")
  case False
  with continue_after_start_post [OF assms] show ?thesis by (simp add: continue_transfer_def)
next
  case True
  let ?t = "clear_failure (t\<lparr>ft_phase := Transfer_processing\<rparr>)"
  obtain r w1 where persist: "persist_transfer ?t w = (r, w1)" by fastforce
  note effect = persist_transfer_effect [OF persist]
  have t1: "ft_kind ?t = ft_kind t" "length (ft_items ?t) = length (ft_items t)" "orderly ?t"
    by (simp_all add: transfer_changes)
  have safe: "safely (journal w1) (submissions w1)"
    using run effect(1,4) t1(3) by (simp add: running_def)
  show ?thesis
  proof (cases r)
    case None
    have "transfer_recorded ?t (journal w1)"
      using effect(3) run None by (auto simp: running_def dest: safely_disk_ok)
    with safe t1(3) have w1: "running ?t w1" by (intro running_recorded)
    have "length (decisions w1) \<le> a" using effect(2) answers by simp
    note rest = continue_after_start_post [OF w1 this, where s = s and fuel = fuel]
    with loop_post_from [OF conjunct1 [OF rest] t1(1,2)] t1(2) None True persist show ?thesis
      by (simp add: continue_transfer_def)
  next
    case (Some detail)
    with True persist loop_post_open [OF safe t1(1,2)] show ?thesis
      by (simp add: continue_transfer_def Let_def)
  qed
qed

text \<open>How a job ends.\<close>

definition job_post :: "FileTransferKind \<Rightarrow> nat \<Rightarrow> FileTransferResult option \<times> 'h transfer_state \<Rightarrow> bool" where
  "job_post kind n = (\<lambda>(r, w'). list_all announced (submissions w') \<and>
     (\<forall>res. r = Some res \<longrightarrow>
        (\<exists>t. ft_kind t = kind \<and> length (ft_items t) = n \<and> concluded res t w')))"

lemma start_transfer_post:
  assumes run: "running t w" and answers: "length (decisions w) \<le> a"
  shows "job_post (ft_kind t) (length (ft_items t)) (start_transfer s fuel t w) \<and>
    (fuel_for a (length (ft_items t)) \<le> fuel \<longrightarrow> fst (start_transfer s fuel t w) \<noteq> None)"
proof -
  obtain r t1 w1 where asked: "request_initial_conflicts s fuel t w = ((r, t1), w1)"
    by (rule nested_pair)
  have post: "asked_post t w ((r, t1), w1)"
    "4 * length (ft_items t) + 1 < fuel \<longrightarrow> r \<noteq> Some None"
    using request_initial_conflicts_post [OF run, of s fuel] by (simp_all add: asked)
  show ?thesis
  proof (cases r)
    case (Some result)
    with post(1) have "loop_post t ((result, t1), w1)" by (simp add: asked_post_def)
    then have "job_post (ft_kind t) (length (ft_items t)) (result, w1)"
      by (auto simp: job_post_def loop_post_def)
    with post(2) Some asked show ?thesis by (auto simp: start_transfer_def fuel_for_def)
  next
    case None
    with post(1) answers have t1: "running t1 w1" "ft_kind t1 = ft_kind t"
        "length (ft_items t1) = length (ft_items t)" "length (decisions w1) \<le> a"
      by (auto simp: asked_post_def)
    obtain r2 t2 w2 where go: "continue_transfer s fuel t1 w1 = ((r2, t2), w2)" by (rule nested_pair)
    note rest = continue_transfer_post [OF t1(1,4), where s = s and fuel = fuel, unfolded go t1(3)]
    then have "job_post (ft_kind t) (length (ft_items t)) (r2, w2)"
      using t1(2,3) by (auto simp: job_post_def loop_post_def)
    with rest None asked go show ?thesis by (simp add: start_transfer_def)
  qed
qed

lemma read_journal_quiet:
  "read_journal w = (loaded, w') \<Longrightarrow> submissions w' = submissions w \<and> decisions w' = decisions w"
  by (auto simp: read_journal_def split: prod.splits)

lemma next_operation_id_quiet:
  "next_operation_id w = (op, w') \<Longrightarrow>
     journal w' = journal w \<and> submissions w' = submissions w \<and> decisions w' = decisions w"
  by (auto simp: next_operation_id_def Let_def split: if_splits)

lemma no_transfer_simps [simp]: "transfer_status (no_transfer st a b n c) = st"
  by (simp add: no_transfer_def)

lemma prepared_transfer:
  assumes "prepare_file_transfer_transaction kind sources op = Inr t"
  shows "ft_kind t = kind" "length (ft_items t) = length sources" "ft_phase t = Transfer_prepared"
    "orderly t"
proof -
  have "t = new_transfer_transaction kind sources op"
    using assms by (auto simp: prepare_file_transfer_transaction_def Let_def sum_bind_Inr_iff
        split: if_split_asm sum.split_asm)
  then show "ft_kind t = kind" "length (ft_items t) = length sources" "ft_phase t = Transfer_prepared"
    "orderly t"
    by (simp_all add: new_transfer_transaction_def orderly_def)
qed

lemma approve_overwrites_simps [simp]:
  "ft_kind (approve_overwrites sources t) = ft_kind t" "ft_phase (approve_overwrites sources t) = ft_phase t"
  "length (ft_items t) = length sources \<Longrightarrow>
     length (ft_items (approve_overwrites sources t)) = length sources"
  by (simp_all add: approve_overwrites_def)

text \<open>A transfer that is started with nothing recorded: either nothing was begun, or it ends like a job.\<close>

definition unbegun :: "FileTransferResult option \<Rightarrow> bool" where
  "unbegun r \<longleftrightarrow> (\<exists>res. r = Some res \<and> transfer_status res \<in>
     {Transfer_invalid_request, Transfer_recovery_required, Transfer_journal_error})"

lemma run_transfer_post:
  assumes disk: "disk_ok (journal w)" and log: "list_all announced (submissions w)"
    and answers: "length (decisions w) \<le> a" and run: "run_transfer s fuel kind sources w = (r, w')"
  shows "(unbegun r \<and> submissions w' = submissions w \<or> job_post kind (length sources) (r, w')) \<and>
    (fuel_for a (length sources) \<le> fuel \<longrightarrow> r \<noteq> None)"
proof (cases "journal_path w = []")
  case True
  with run show ?thesis by (auto simp: run_transfer_def unbegun_def)
next
  case path: False
  obtain existing w1 where read: "read_journal w = (existing, w1)" by fastforce
  obtain op w2 where id: "next_operation_id w1 = (op, w2)" by fastforce
  note quiet = read_journal_quiet [OF read] next_operation_id_quiet [OF id]
  note run = run [unfolded run_transfer_def Let_def read prod.case id, simplified path if_False]
  show ?thesis
  proof (cases "journal_status existing = Journal_not_found")
    case False
    with run quiet show ?thesis by (auto simp: unbegun_def)
  next
    case True
    show ?thesis
    proof (cases "prepare_file_transfer_transaction kind sources op")
      case (Inl what)
      with run True quiet show ?thesis by (auto simp: unbegun_def)
    next
      case (Inr t0)
      note t0 = prepared_transfer [OF Inr]
      let ?t = "approve_overwrites sources t0"
      have t: "ft_kind ?t = kind" "length (ft_items ?t) = length sources" "orderly ?t"
        using t0 by (simp_all add: orderly_def)
      obtain x w3 where persist: "persist_transfer ?t w2 = (x, w3)" by fastforce
      note effect = persist_transfer_effect [OF persist]
      show ?thesis
      proof (cases x)
        case (Some detail)
        with run True Inr persist effect(1) quiet show ?thesis
          by (auto simp: unbegun_def journal_error_result_def)
      next
        case None
        have "disk_ok (journal w2)" using read_journal_effect(1) [OF read disk] quiet by simp
        then have recorded: "transfer_recorded ?t (journal w3)" using effect(3) None by simp
        then have "safely (journal w3) (submissions w3)"
          using recorded_safely t(3) log effect(1) quiet by simp
        then have w3: "running ?t w3" using t(3) recorded by (intro running_recorded)
        have "length (decisions w3) \<le> a" using effect(2) quiet answers by simp
        note post = start_transfer_post [OF w3 this, where s = s and fuel = fuel]
        with run True Inr persist None t show ?thesis by simp
      qed
    qed
  qed
qed

text \<open>The header of a record can be read from its bytes.\<close>

lemma transfer_payload_header:
  assumes "transfer_payload t = transfer_payload t'"
    and "valid_file_transfer_transaction t = Inr ()" "transfer_strings_fit t"
    and "valid_file_transfer_transaction t' = Inr ()" "transfer_strings_fit t'"
  shows "ft_phase t = ft_phase t'" "ft_step t = ft_step t'"
proof -
  have header: "dec_transfer_header (transfer_payload u) = Some ((u\<lparr>ft_items := []\<rparr>, length (ft_items u)),
      concat (map (enc_transfer_item (ft_version u)) (ft_items u)))"
    if "valid_file_transfer_transaction u = Inr ()" "transfer_strings_fit u" for u
    unfolding transfer_payload_def
    by (rule valid_transferD [OF that(1)], rule dec_enc_transfer_header)
      (use that(2) in \<open>simp_all add: transfer_strings_fit_def that(1)\<close>)
  from header [OF assms(2,3)] header [OF assms(4,5)] assms(1)
  have "t\<lparr>ft_items := []\<rparr> = t'\<lparr>ft_items := []\<rparr>" by simp
  then show "ft_phase t = ft_phase t'" "ft_step t = ft_step t'"
    by (metis FileTransferTransaction.select_convs FileTransferTransaction.surjective
        FileTransferTransaction.update_convs(11))+
qed

lemma resume_transfer_post:
  assumes held: "recoverable_with transfer_record orderly (journal w)"
    and log: "list_all announced (submissions w)" and answers: "length (decisions w) \<le> a"
    and read: "journal_read (fst (journal w)) (snd (journal w)) = (read_success source p, fs)"
    and view: "(Journal_success, p) \<in> disk_views (journal w)"
    and run: "resume_transfer s fuel w = (r, w')"
  shows "unbegun r \<and> submissions w' = submissions w \<and> recoverable_with transfer_record orderly (journal w') \<or>
    (\<exists>t. transfer_record t (Journal_success, p) \<and> valid_file_transfer_transaction t = Inr () \<and>
       job_post (ft_kind t) (length (ft_items t)) (r, w') \<and>
       (fuel_for a (length (ft_items t)) \<le> fuel \<longrightarrow> r \<noteq> None))"
proof -
  let ?w = "w\<lparr>journal := (fst (journal w), fs)\<rparr>"
  from held view obtain t0 where rec: "transfer_record t0 (Journal_success, p)" and "orderly t0"
    by (auto simp: recoverable_with_def)
  then obtain payload where enc: "encode_file_transfer_transaction t0 = Inr payload"
    and fits: "operation_payload_ok kind_file_transfer payload"
    and p: "p = encode_operation kind_file_transfer payload"
    by (auto simp: transfer_record_def record_of_def)
  note opened = open_encode_operation [OF fits, of source, folded p]
  have current: "current_journal_read (fst (journal w)) (snd (journal w)) =
      (open_operation (read_success source p), fs)"
    by (simp add: current_journal_read_def read)
  from current_read_views [OF current] held
  have held': "recoverable_with transfer_record orderly (journal ?w)"
    by (auto simp: recoverable_with_def disk_ok_def)
  note run = run [unfolded resume_transfer_def read_journal_def current Let_def prod.case,
      simplified opened CurrentOperationJournalReadResult.simps simp_thms if_False]
  show ?thesis
  proof (cases "decode_file_transfer_transaction payload")
    case (Inl detail)
    with run held' show ?thesis by (auto simp: opened unbegun_def)
  next
    case (Inr t)
    then have t: "valid_file_transfer_transaction t = Inr ()" "dec_transfer payload = Inr (t, [])"
        "valid_utf8_no_nul (ft_detail t)" by (simp_all add: decode_transfer_iff)
    note payload = payload_dec_transfer [OF t(2,3)]
    then have enc_t: "encode_file_transfer_transaction t = Inr payload"
      using enc t(1) unfolding encode_transfer_iff by blast
    have "orderly t"
      using \<open>orderly t0\<close> transfer_payload_header [of t0 t] enc enc_t
      by (simp add: orderly_def encode_transfer_iff)
    then have "running t ?w" using held' log t(1) by (simp add: running_def safely_def)
    from start_transfer_post [OF this, of a s fuel] answers run Inr enc_t fits
    show ?thesis by (auto simp: opened transfer_record_def record_of_def p t(1))
  qed
qed

section \<open>What the items are at the end\<close>

definition untouched_item :: "FileTransferItem \<Rightarrow> bool" where
  "untouched_item item \<longleftrightarrow> ft_source_location item = Source_original \<and>
     ft_destination_state item = Destination_absent \<and>
     ft_overwrite_state item \<in> {Overwrite_none, Overwrite_authorized}"

lemma completed_prefix_take:
  "list_all (final_item (ft_kind t)) (take (completed_prefix t) (ft_items t))"
  unfolding completed_prefix_def
  by (metis list_all_iff set_takeWhileD takeWhile_eq_take)

lemma concluded_success:
  assumes "concluded res t w" "transfer_status res = Transfer_success"
  shows "list_all (final_item (ft_kind t)) (ft_items t)"
    "transfer_destinations res = map ft_destination (ft_items t)"
proof -
  from assms have valid: "valid_file_transfer_transaction t = Inr ()" "ft_phase t = Transfer_completed"
    and reported: "transfer_destinations res = completed_destinations t"
    by (simp_all add: concluded_def)
  from valid(1) obtain first where "transfer_progress (ft_kind t) (ft_items t) first"
      "ft_phase t = Transfer_completed \<longleftrightarrow> first = None"
    by (rule valid_transferD)
  with valid(2) show all: "list_all (final_item (ft_kind t)) (ft_items t)"
    by (simp add: transfer_progress_def)
  then have "completed_prefix t = length (ft_items t)"
    by (simp add: completed_prefix_def list_all_iff takeWhile_eq_all_conv [THEN iffD2])
  with reported show "transfer_destinations res = map ft_destination (ft_items t)"
    by (simp add: completed_destinations_def)
qed

text \<open>The item that failed is as it was before the transfer.\<close>

lemma undone_untouched:
  assumes undone: "undone t" and ok: "transfer_item_ok t i (item_at t (completed_prefix t))"
    and unfinished: "\<not> final_item (ft_kind t) (item_at t (completed_prefix t))"
  shows "untouched_item (item_at t (completed_prefix t))"
proof -
  let ?item = "item_at t (completed_prefix t)"
  have "ft_phase t = Transfer_prepublish_cleanup" using undone by (simp add: undone_def undoing_def)
  with transfer_item_okD(11) [OF ok] unfinished have "ft_destination_state ?item \<noteq> Destination_published"
    by blast
  with undone have absent: "ft_destination_state ?item = Destination_absent"
    by (cases "ft_destination_state ?item") (auto simp: undone_def Let_def)
  with transfer_item_okD(9) [OF ok] undone have "ft_source_location ?item = Source_original"
    by (cases "ft_kind t")
      (auto simp: strategy_and_locations_valid_def undone_def Let_def split: if_split_asm)
  with absent undone show ?thesis
    by (cases "ft_overwrite_state ?item") (auto simp: untouched_item_def undone_def Let_def)
qed

lemma concluded_undone:
  assumes "concluded res t w" "transfer_status res \<in> {Transfer_partial_failure, Transfer_cancelled}"
  shows "let k = transfer_completed res in k < length (ft_items t) \<and>
    list_all (final_item (ft_kind t)) (take k (ft_items t)) \<and>
    transfer_destinations res = map ft_destination (take k (ft_items t)) \<and>
    list_all untouched_item (drop k (ft_items t))"
proof -
  let ?k = "completed_prefix t"
  from assms have valid: "valid_file_transfer_transaction t = Inr ()" and undone: "undone t"
    and k: "transfer_completed res = ?k" "transfer_destinations res = completed_destinations t"
    by (auto simp: concluded_def)
  have "ft_phase t \<noteq> Transfer_completed" using undone by (simp add: undone_def undoing_def)
  note unfinished = completed_prefix_unfinished [OF valid this]
  have "item_at t ?k \<in> set (ft_items t)" using unfinished(1) by (simp add: item_at_def)
  then obtain i where "transfer_item_ok t i (item_at t ?k)"
    by (rule items_ok_mem [OF valid_transfer_items(1) [OF valid]])
  note first = undone_untouched [OF undone this unfinished(3)]
  from valid obtain at where progress: "transfer_progress (ft_kind t) (ft_items t) at"
      "ft_phase t = Transfer_completed \<longleftrightarrow> at = None"
    by (rule valid_transferD)
  with \<open>ft_phase t \<noteq> Transfer_completed\<close> obtain k' where k': "at = Some k'" by blast
  have "?k = k'"
  proof -
    from progress(1) k' have "k' < length (ft_items t)" "\<not> final_item (ft_kind t) (ft_items t ! k')"
        "list_all (final_item (ft_kind t)) (take k' (ft_items t))"
      by (simp_all add: transfer_progress_def)
    then show ?thesis
      unfolding completed_prefix_def
      by (intro length_takeWhile_eq) (auto simp: list_all_length)
  qed
  with progress(1) k' have "list_all (pristine_item (ft_kind t)) (drop (Suc ?k) (ft_items t))"
    by (simp add: transfer_progress_def)
  then have "list_all untouched_item (drop (Suc ?k) (ft_items t))"
    by (rule list.pred_mono_strong)
      (auto simp: pristine_item_def untouched_item_def intro: OverwriteDestinationState.exhaust)
  with first have "list_all untouched_item (drop ?k (ft_items t))"
    using unfinished(1) by (simp add: item_at_def flip: Cons_nth_drop_Suc)
  with unfinished(1) k completed_prefix_take [of t] show ?thesis
    by (simp add: completed_destinations_def)
qed

end
