(* ===== verification/Transfer_Properties.thy ===== *)
theory Transfer_Properties
  imports Transfer_Run File_Transfer_Properties Record_Properties
begin

text \<open>What holds of the file transfer coordinator whatever its services answer, with an example that
  each property applies to.\<close>

section \<open>Properties\<close>

text \<open>C17: Whatever the services of a file transfer answer, nothing is renamed, deleted, streamed or filled
  that the journal does not announce: at each such request the durable record, which no power cut can
  take back, names the step and the item that the request is made for.\<close>

theorem transfer_steps_announced:
  assumes "disk_ok (journal w)" "submissions w = []"
    and "run_transfer s fuel kind sources w = (r, w')"
  shows "\<forall>(d, what)\<in>set (submissions w'). \<exists>t. transfer_recorded t d \<and> announces t what"
  using run_transfer_post [OF assms(1) _ order_refl assms(3)] assms(2)
  by (auto simp: job_post_def list_all_iff announced_def split: prod.splits)



text \<open>C22: A file transfer ends: with fuel for the steps of its items, as often over as the user may still
  answer a question, and one clean-up, every run has a result, whatever the services answer.\<close>

theorem transfer_ends:
  assumes "disk_ok (journal w)" "submissions w = []"
    and "length (decisions w) * (8 * length sources + 2) + 12 * length sources + 5 \<le> fuel"
  shows "\<exists>res w'. run_transfer s fuel kind sources w = (Some res, w')"
proof -
  obtain r w' where run: "run_transfer s fuel kind sources w = (r, w')" by fastforce
  with run_transfer_post [OF assms(1) _ order_refl run] assms(2,3) show ?thesis
    by (auto simp: fuel_for_def)
qed


text \<open>A conflict is not resolved by cancelling when the recovered record is of version 4: the record of
  a cancelled transfer needs version 5, the initial question does not raise the version, so the
  decision cannot be recorded, the run ends with a journal error, and the record stays as it was.\<close>

theorem cancelled_old_record:
  assumes "ft_version t = 4"
    and "answer_conflicts s fuel conflicts Cancel_transfer t w = ((r, t'), w')"
  shows "\<exists>res. r = Some (Some res) \<and> transfer_status res = Transfer_journal_error \<and>
    disk_views (journal w') \<subseteq> disk_views (journal w) \<and> submissions w' = submissions w"
proof -
  let ?t = "note_transfer_failure Conflict No_commit ''file transfer cancelled by user''
    (clear_active (t\<lparr>ft_cancelled := True, ft_phase := Transfer_prepublish_cleanup\<rparr>))"
  have "valid_file_transfer_transaction ?t \<noteq> Inr ()"
    using assms(1) valid_transferD [of ?t] by (auto simp: transfer_changes)
  then obtain detail where "encode_file_transfer_transaction ?t = Inl detail"
    by (metis encode_transfer_iff sum.exhaust)
  then have persist: "persist_transfer ?t w = (Some detail, snd (refresh_recovery_pending w))"
    by (simp add: persist_transfer_def persist_payload_def)
  obtain b w1 where refresh: "refresh_recovery_pending w = (b, w1)" by fastforce
  have "r = Some (Some (journal_error_result ?t Io_error No_commit detail)) \<and> w' = w1"
    using assms(2) persist refresh
    by (simp add: answer_conflicts_def give_up_def enter_cleanup_def saving_def ended_def)
      (auto simp: transfer_journal_failure_def transfer_step_result_def)
  with refresh_recovery_pending_effect(2) [OF refresh] persist_transfer_effect(1) [OF persist] refresh
  show ?thesis by (auto simp: journal_error_result_def)
qed


section \<open>An example\<close>

text \<open>Services of a file system on which nothing can be moved, removed or copied, but where every
  object is where it is expected.\<close>

definition refused_stream :: FileTransferStreamResult where
  "refused_stream =
     \<lparr>streamed_result_id = 0, streamed_result_index = 0, streamed_result_token = [],
      streamed_status = Unsupported, streamed_evidence = No_commit, streamed_platform_code = 0,
      streamed_source = empty_snapshot, streamed_temp = empty_snapshot, streamed_sha256 = [],
      streamed_bytes = 0, streamed_detail = []\<rparr>"

definition standing_services :: "unit transfer_services" where
  "standing_services =
     \<lparr>rename_with = (\<lambda>request _ h.
        (plain_result (rename_operation_id request) Unsupported No_commit [], h)),
      delete_with = (\<lambda>request _ h.
        ((plain_result (delete_operation_id request) Unsupported No_commit [])
           \<lparr>source_present := True, confirmed_snapshot := delete_expected_source request\<rparr>, h)),
      stream_open = (\<lambda>_ h. (None, h)), stream_close = (\<lambda>_ _ h. (([], refused_stream), h)),
      audit_open = (\<lambda>_ h. (None, h)), audit_close = (\<lambda>_ _ h. (refused_stream, h)),
      retire_with = (\<lambda>_ h. (None, h))\<rparr>"

definition transfer_store :: DurableJournalStore where
  "transfer_store = \<lparr>primary_path = ''/j'', previous_path = ''/j.previous'',
     temporary_path = ''/j.temporary'',
     maximum_payload_bytes = kAbsoluteMaximumDurableJournalPayloadBytes\<rparr>"

definition transfer_world :: "(path \<rightharpoonup> node) \<Rightarrow> bool list \<Rightarrow> unit transfer_state" where
  "transfer_world m stopping =
     \<lparr>journal_path = ''/j'',
      journal = (transfer_store, \<lparr>live = m, durable = m, script = [], crashed = False\<rparr>),
      service = (), accepts = [], stops = stopping, recovery_pending = False, reported = [], now = 1,
      sequence = 0, create_parent = None, error_message = (\<lambda>_. ''error''),
      conflict_handler = True, decisions = [Some Create_copy], entropy = [], submissions = []\<rparr>"

text \<open>The move of \<^const>\<open>example_transfer\<close> a step later: both copies are published, the second source
  is set aside and has to be removed.\<close>

definition staged_move :: FileTransferTransaction where
  "staged_move = example_transfer
     \<lparr>ft_step := No_transfer_step, ft_index := 0,
      ft_items := map (\<lambda>item. item\<lparr>ft_destination_state := Destination_published\<rparr>)
        (ft_items example_transfer)\<rparr>"








lemma transfer_world_ok: "disk_ok (journal (transfer_world m stopping))"
  by (simp add: transfer_world_def disk_ok_def well_placed_def transfer_store_def)








lemma staged_move_header [simp]:
  "ft_version staged_move = 6" "ft_phase staged_move = Transfer_processing"
  "ft_step staged_move = No_transfer_step" "ft_detail staged_move = []"
  "length (ft_items staged_move) = 2" "ft_kind staged_move = Move_transfer"
  by (simp_all add: staged_move_def example_transfer_def new_transfer_transaction_def
      kFileTransferTransactionVersion_def)



section \<open>The properties on the example\<close>

definition example_transfer_source :: FileTransferSource where
  "example_transfer_source =
     \<lparr>transfer_path_of = ''/d/a'', transfer_destination_of = ''/e/a'',
      transfer_snapshot_of = example_revision ''5'', transfer_source_parent_of = ''posix:1:8:6'',
      transfer_destination_parent_of = ''posix:2:8:6'', transfer_overwrite_of = empty_snapshot\<rparr>"

lemma transfer_world_empty_log [simp]: "submissions (transfer_world m stopping) = []"
  by (simp add: transfer_world_def)

lemma transfer_steps_announced_witness:
  "list_all (\<lambda>(d, what). \<exists>t. transfer_recorded t d \<and> announces t what)
     (submissions (snd (run_transfer standing_services 40 Move_transfer [example_transfer_source]
       (transfer_world Map.empty []))))"
  using transfer_steps_announced [OF transfer_world_ok transfer_world_empty_log surjective_pairing]
  by (simp add: list_all_iff)

lemma transfer_ends_witness:
  "\<exists>res w'. run_transfer standing_services 40 Move_transfer [example_transfer_source]
     (transfer_world Map.empty []) = (Some res, w')"
  by (rule transfer_ends [OF transfer_world_ok transfer_world_empty_log])
    (simp add: transfer_world_def)



lemma cancelled_old_record_witness:
  "\<exists>res. fst (fst (answer_conflicts standing_services 9 [(0, example_revision ''9'')] Cancel_transfer
     (staged_move\<lparr>ft_version := 4\<rparr>) (transfer_world Map.empty []))) = Some (Some res) \<and>
   transfer_status res = Transfer_journal_error"
proof -
  obtain r t' w' where run: "answer_conflicts standing_services 9 [(0, example_revision ''9'')]
      Cancel_transfer (staged_move\<lparr>ft_version := 4\<rparr>) (transfer_world Map.empty []) = ((r, t'), w')"
    by (rule nested_pair)
  from cancelled_old_record [OF _ run] run show ?thesis by auto
qed










lemma transfer_world_quiet [simp]:
  "stops (transfer_world m stopping) = stopping" "accepts (transfer_world m stopping) = []"
  by (simp_all add: transfer_world_def)

lemma publish_undisturbed [simp]:
  "stops (publish_progress t i step n w) = stops w" "accepts (publish_progress t i step n w) = accepts w"
  by (simp_all add: publish_progress_def)






end
