(* ===== verification/Name_Order.thy ===== *)
theory Name_Order
  imports Text "HOL-Library.Multiset" "HOL-Library.Char_ord" "HOL-Library.List_Lexorder"
    "HOL-Library.Product_Lexorder"
begin

text \<open>
  The order of names in a listing: \<open>compare_natural_names\<close> of
  \<open>src/Source/src/core/directory_model.cpp\<close>, which compares runs of digits as numbers, and the stable
  sort the listing uses. A comparison is an integer of which only the sign is read; the locale
  \<open>sign_order\<close> says what makes it the sign of an order.
\<close>

section \<open>Comparisons as signs\<close>

text \<open>The lambda \<open>compare\<close> of \<open>sort_visible_indices\<close>, and \<open>std::string_view::compare\<close> up to its magnitude.\<close>

definition three_way :: "'a :: linorder \<Rightarrow> 'a \<Rightarrow> int" where
  "three_way lhs rhs = (if lhs < rhs then -1 else if rhs < lhs then 1 else 0)"

lemma three_way_simps [simp]:
  "three_way x x = 0" "three_way x y = 0 \<longleftrightarrow> x = y" "three_way x y < 0 \<longleftrightarrow> x < y"
  "0 < three_way x y \<longleftrightarrow> y < x"
  by (auto simp: three_way_def)

lemma three_way_Cons:
  "three_way (x # xs) (y # ys) = (if three_way x y \<noteq> 0 then three_way x y else three_way xs ys)"
  by (auto simp: three_way_def)

lemma three_way_Nil:
  "three_way [] (y # ys) = -1" "three_way (x # xs) [] = 1"
  by (auto simp: three_way_def)

lemma three_way_pair:
  "three_way (a, b) (c, d) = (if three_way a c \<noteq> 0 then three_way a c else three_way b d)"
  by (auto simp: three_way_def)

locale sign_order =
  fixes cmp :: "'a \<Rightarrow> 'a \<Rightarrow> int"
  assumes swap: "cmp y x = - cmp x y"
    and chain: "cmp x y \<le> 0 \<Longrightarrow> cmp y z \<le> 0 \<Longrightarrow> cmp x z \<le> 0"
begin

lemma refl [simp]: "cmp x x = 0"
  using swap [of x x] by simp

lemma less_le_trans: "cmp x y < 0 \<Longrightarrow> cmp y z \<le> 0 \<Longrightarrow> cmp x z < 0"
  using chain [of z x y] chain [of y z x] chain [of x y z] swap [of x z] swap [of z y]
    swap [of x y]
  by (smt (verit))

lemma le_less_trans: "cmp x y \<le> 0 \<Longrightarrow> cmp y z < 0 \<Longrightarrow> cmp x z < 0"
  using chain [of z x y] chain [of x y z] swap [of x z] swap [of z y] swap [of x y]
  by (smt (verit))

lemma reversed: "sign_order (\<lambda>x y. cmp y x)"
  by unfold_locales (use swap chain in \<open>blast+\<close>)

lemma on_images: "sign_order (\<lambda>x y. cmp (f x) (f y))"
  by unfold_locales (use swap chain in \<open>blast+\<close>)

end

lemma sign_order_three_way: "sign_order three_way"
  by unfold_locales (auto simp: three_way_def split: if_splits)

lemma sign_order_lexicographic:
  assumes c: "sign_order c" and d: "sign_order d"
  shows "sign_order (\<lambda>x y. if c x y \<noteq> 0 then c x y else d x y)"
proof unfold_locales
  show "(if c y x \<noteq> 0 then c y x else d y x) = - (if c x y \<noteq> 0 then c x y else d x y)" for x y
    using sign_order.swap [OF c, of y x] sign_order.swap [OF d, of y x] by simp
  fix x y z
  assume xy: "(if c x y \<noteq> 0 then c x y else d x y) \<le> 0"
    and yz: "(if c y z \<noteq> 0 then c y z else d y z) \<le> 0"
  then have "c x y \<le> 0" "c y z \<le> 0" by (auto split: if_splits)
  then have "c x z \<le> 0" "c x y < 0 \<or> c y z < 0 \<longrightarrow> c x z < 0"
    using sign_order.chain [OF c] sign_order.less_le_trans [OF c] sign_order.le_less_trans [OF c]
    by blast+
  moreover have "d x z \<le> 0" if "c x y = 0" "c y z = 0"
    using that xy yz sign_order.chain [OF d] by simp
  ultimately show "(if c x z \<noteq> 0 then c x z else d x z) \<le> 0"
    using \<open>c x y \<le> 0\<close> \<open>c y z \<le> 0\<close> by (cases "c x z = 0") auto
qed

section \<open>Names with numbers in them\<close>

definition digit :: "char \<Rightarrow> bool" where
  "digit value \<longleftrightarrow> CHR ''0'' \<le> value \<and> value \<le> CHR ''9''"

text \<open>The loop of \<open>compare_natural_names\<close>; the two positions are the suffixes still to compare, the
  third argument is \<open>padding_order\<close>.\<close>

definition significant :: "string \<Rightarrow> string" where
  "significant run = dropWhile (\<lambda>c. c = CHR ''0'') run"

function compare_from :: "string \<Rightarrow> string \<Rightarrow> int \<Rightarrow> int" where
  "compare_from (l # ls) (r # rs) padding =
     (if digit l \<and> digit r then
        let left_run = takeWhile digit (l # ls); right_run = takeWhile digit (r # rs);
            left_digits = length (significant left_run);
            right_digits = length (significant right_run) in
        if left_digits \<noteq> right_digits then if left_digits < right_digits then -1 else 1
        else let number_order = three_way (significant left_run) (significant right_run) in
          if number_order \<noteq> 0 then number_order
          else compare_from (dropWhile digit (l # ls)) (dropWhile digit (r # rs))
            (if padding = 0 \<and> length left_run \<noteq> length right_run
             then if length left_run < length right_run then -1 else 1 else padding)
      else if l \<noteq> r then if (of_char l :: nat) < of_char r then -1 else 1
      else compare_from ls rs padding)"
| "compare_from [] (r # rs) padding = -1"
| "compare_from (l # ls) [] padding = 1"
| "compare_from [] [] padding = padding"
  by pat_completeness auto
termination
  by (relation "measure (\<lambda>(ls, rs, p). length ls)") (auto simp: less_Suc_eq_le length_dropWhile_le)

declare compare_from.simps(1) [simp del]

definition compare_natural_names :: "string \<Rightarrow> string \<Rightarrow> int" where
  "compare_natural_names lhs rhs = compare_from lhs rhs 0"

subsection \<open>The order it decides\<close>

text \<open>A name is a sequence of pieces, single bytes and numbers; a number keeps the place of a digit
  among the bytes. Names are ordered by their pieces, and with the same pieces by the widths in
  which the numbers are written.\<close>

function pieces :: "string \<Rightarrow> ((nat \<times> nat) \<times> nat) list" where
  "pieces [] = []"
| "pieces (c # cs) =
     (if digit c
      then ((48, digits_value 10 (takeWhile digit (c # cs))), length (takeWhile digit (c # cs)))
           # pieces (dropWhile digit (c # cs))
      else ((of_char c, 0), 1) # pieces cs)"
  by pat_completeness auto
termination
  by (relation "measure length") (auto simp: less_Suc_eq_le length_dropWhile_le)

declare pieces.simps(2) [simp del]

definition natural_key :: "string \<Rightarrow> (nat \<times> nat) list \<times> nat list" where
  "natural_key name = (map fst (pieces name), map snd (pieces name))"

lemma digit_iff: "digit c \<longleftrightarrow> 48 \<le> (of_char c :: nat) \<and> (of_char c :: nat) \<le> 57"
  by (simp add: digit_def less_eq_char_def)

lemma digit_value_digit: "digit c \<Longrightarrow> the (digit_value c) = of_char c - 48"
  by (simp add: digit_iff digit_value_def)

lemma digits_value_Cons:
  assumes "list_all digit (c # cs)"
  shows "digits_value 10 (c # cs) = (of_char c - 48) * 10 ^ length cs + digits_value 10 cs"
proof -
  have "foldl (\<lambda>acc c. 10 * acc + the (digit_value c)) a cs =
      a * 10 ^ length cs + foldl (\<lambda>acc c. 10 * acc + the (digit_value c)) 0 cs" for a :: nat
  proof (induction cs arbitrary: a)
    case (Cons d ds)
    show ?case
      by (simp add: Cons.IH [of "10 * a + the (digit_value d)"] Cons.IH [of "the (digit_value d)"]
          add_mult_distrib mult.assoc mult.left_commute)
  qed simp
  from this [of "the (digit_value c)"] assms show ?thesis
    by (simp add: digits_value_def digit_value_digit)
qed

lemma digits_value_less: "list_all digit ds \<Longrightarrow> digits_value 10 ds < 10 ^ length ds"
proof (induction ds)
  case (Cons c cs)
  then have "(of_char c :: nat) - 48 \<le> 9" "digits_value 10 cs < 10 ^ length cs"
    by (auto simp: digit_iff)
  moreover have "((of_char c :: nat) - 48) * 10 ^ length cs \<le> 9 * 10 ^ length cs"
    using calculation(1) by (rule mult_le_mono1)
  moreover note digits_value_Cons [OF Cons.prems]
  moreover have "(10 :: nat) ^ length (c # cs) = 9 * 10 ^ length cs + 10 ^ length cs" by simp
  ultimately show ?case by linarith
qed (simp add: digits_value_def)

lemma significant_value: "list_all digit run \<Longrightarrow> digits_value 10 (significant run) = digits_value 10 run"
  by (induction run) (auto simp: significant_def digits_value_Cons)

lemma significant_digits: "list_all digit run \<Longrightarrow> list_all digit (significant run)"
  by (auto simp: significant_def list_all_iff dest: set_dropWhileD)

lemma three_way_digits:
  assumes "list_all digit a" "list_all digit b" "length a = length b"
  shows "three_way a b = three_way (digits_value 10 a) (digits_value 10 b)"
  using assms
proof (induction a b rule: list_induct2')
  case (4 c cs d ds)
  define p :: nat where "p = 10 ^ length cs"
  have len: "length cs = length ds" using 4 by simp
  have vals: "digits_value 10 (c # cs) = (of_char c - 48) * p + digits_value 10 cs"
    "digits_value 10 (d # ds) = (of_char d - 48) * p + digits_value 10 ds"
    using 4 digits_value_Cons len by (auto simp: p_def)
  have small: "digits_value 10 cs < p" "digits_value 10 ds < p"
    using 4 digits_value_less [of cs] digits_value_less [of ds] len by (auto simp: p_def)
  have step: "x * p + u < y * p + v" if "x < y" "u < p" for x y u v :: nat
  proof -
    from that have "x * p + u < Suc x * p" by simp
    also have "\<dots> \<le> y * p" using that by (intro mult_le_mono1) simp
    finally show ?thesis by simp
  qed
  have digits: "(of_char c :: nat) \<ge> 48" "(of_char d :: nat) \<ge> 48"
    using 4 by (auto simp: digit_iff)
  consider "(of_char c :: nat) < of_char d" | "(of_char d :: nat) < of_char c" | "c = d"
    by (metis linorder_neqE_nat of_char_eq_iff)
  then show ?case
  proof cases
    case 1
    then have "digits_value 10 (c # cs) < digits_value 10 (d # ds)"
      unfolding vals using digits small by (intro step) auto
    moreover have "c < d" using 1 by (simp add: less_char_def)
    ultimately show ?thesis by (simp add: three_way_def)
  next
    case 2
    then have "digits_value 10 (d # ds) < digits_value 10 (c # cs)"
      unfolding vals using digits small by (intro step) auto
    moreover have "d < c" using 2 by (simp add: less_char_def)
    ultimately show ?thesis by (auto simp: three_way_def)
  next
    case 3
    then have "three_way (digits_value 10 (c # cs)) (digits_value 10 (d # ds)) =
        three_way (digits_value 10 cs) (digits_value 10 ds)"
      unfolding vals by (simp add: three_way_def)
    with 4 3 show ?thesis by (simp add: three_way_Cons)
  qed
qed simp_all

text \<open>Without leading zeros, a longer number is a larger one.\<close>

lemma significant_length:
  assumes "list_all digit a" "list_all digit b" "length (significant a) < length (significant b)"
  shows "digits_value 10 a < digits_value 10 b"
proof -
  obtain c cs where b: "significant b = c # cs" using assms(3) by (cases "significant b") auto
  then have "c \<noteq> CHR ''0''"
    using hd_dropWhile [of "\<lambda>c. c = CHR ''0''" b] by (simp add: significant_def)
  moreover have "digit c" "list_all digit cs"
    using significant_digits [OF assms(2)] b by auto
  moreover have "c = CHR ''0''" if "(of_char c :: nat) = 48"
  proof -
    from that have "(of_char c :: nat) = of_char CHR ''0''" by simp
    then show ?thesis by (simp only: of_char_eq_iff)
  qed
  ultimately have "1 \<le> (of_char c :: nat) - 48"
    unfolding digit_iff by linarith
  then have "10 ^ length cs \<le> ((of_char c :: nat) - 48) * 10 ^ length cs" by simp
  also have "\<dots> \<le> digits_value 10 (significant b)"
    using digits_value_Cons [of c cs] significant_digits [OF assms(2)] b by simp
  finally have "10 ^ length cs \<le> digits_value 10 b"
    using significant_value [OF assms(2)] by simp
  moreover have "digits_value 10 a < 10 ^ length (significant a)"
    using digits_value_less [OF significant_digits [OF assms(1)]] significant_value [OF assms(1)]
    by simp
  moreover have "(10 :: nat) ^ length (significant a) \<le> 10 ^ length cs"
    using assms(3) b by (intro power_increasing) auto
  ultimately show ?thesis by linarith
qed

lemma compare_numbers:
  assumes "list_all digit a" "list_all digit b"
  shows "(if length (significant a) \<noteq> length (significant b)
      then if length (significant a) < length (significant b) then -1 else 1
      else three_way (significant a) (significant b)) =
    three_way (digits_value 10 a) (digits_value 10 b)"
  using significant_length [OF assms] significant_length [OF assms(2,1)]
    three_way_digits [OF significant_digits [OF assms(1)] significant_digits [OF assms(2)]]
    significant_value [OF assms(1)] significant_value [OF assms(2)]
  by (auto simp: three_way_def)


text \<open>The loop finds the first pieces that differ, and remembers the first widths that differ.\<close>

lemma digit_run: "list_all digit (takeWhile digit cs)"
  by (simp add: list_all_iff) (meson set_takeWhileD)

lemma pieces_head:
  obtains v w t where "pieces (c # cs) = ((if digit c then 48 else of_char c, v), w) # t"
  by (cases "digit c") (simp_all add: pieces.simps(2))

lemma three_way_heads:
  assumes "\<not> (digit l \<and> digit r)" "l \<noteq> r"
  shows "three_way (if digit l then 48 else of_char l :: nat, u) (if digit r then 48 else of_char r, v) =
    (if (of_char l :: nat) < of_char r then -1 else 1)"
proof -
  have "three_way (if 48 \<le> a \<and> a \<le> 57 then 48 else a, u) (if 48 \<le> b \<and> b \<le> 57 then 48 else b, v) =
      (if a < b then -1 else 1)" if "\<not> (48 \<le> a \<and> a \<le> 57 \<and> 48 \<le> b \<and> b \<le> 57)" "a \<noteq> b" for a b :: nat
    using that by (auto simp: three_way_def)
  from this [of "of_char l" "of_char r"] assms show ?thesis by (simp add: digit_iff)
qed

lemma compare_from_eq:
  "compare_from l r padding =
     (let order = three_way (map fst (pieces l)) (map fst (pieces r)) in
      if order \<noteq> 0 then order
      else if padding \<noteq> 0 then padding
      else three_way (map snd (pieces l)) (map snd (pieces r)))"
proof (induction l r padding rule: compare_from.induct)
  case (1 l ls r rs padding)
  show ?case
  proof (cases "digit l \<and> digit r")
    case True
    let ?a = "takeWhile digit (l # ls)" and ?b = "takeWhile digit (r # rs)"
    have number: "(if length (significant ?a) \<noteq> length (significant ?b)
        then if length (significant ?a) < length (significant ?b) then -1 else 1
        else three_way (significant ?a) (significant ?b)) =
      three_way (digits_value 10 ?a) (digits_value 10 ?b)"
      by (rule compare_numbers [OF digit_run digit_run])
    have head: "three_way (48 :: nat, x) (48, y) = three_way x y" for x y :: nat
      by (simp add: three_way_pair)
    let ?A = "dropWhile digit (l # ls)" and ?B = "dropWhile digit (r # rs)"
    define p where "p = (if padding = 0 then three_way (length ?a) (length ?b) else padding)"
    define va where "va = digits_value 10 ?a"
    define vb where "vb = digits_value 10 ?b"
    have widths: "(if padding = 0 \<and> length ?a \<noteq> length ?b
        then if length ?a < length ?b then -1 else 1 else padding) = p"
      by (simp add: p_def three_way_def)
    have step: "compare_from (l # ls) (r # rs) padding =
        (if three_way va vb \<noteq> 0 then three_way va vb else compare_from ?A ?B p)"
      using True number unfolding va_def vb_def compare_from.simps(1) Let_def widths
      by (auto split: if_splits)
    have left: "pieces (l # ls) = ((48, va), length ?a) # pieces ?A"
      and right: "pieces (r # rs) = ((48, vb), length ?b) # pieces ?B"
      using True by (simp_all only: pieces.simps(2) if_True va_def vb_def simp_thms)
    have rest: "compare_from ?A ?B p = (let order = three_way (map fst (pieces ?A)) (map fst (pieces ?B)) in
        if order \<noteq> 0 then order else if p \<noteq> 0 then p
        else three_way (map snd (pieces ?A)) (map snd (pieces ?B)))" if "three_way va vb = 0"
    proof -
      from that number have "length (significant ?a) = length (significant ?b)"
        "three_way (significant ?a) (significant ?b) = 0"
        by (auto simp: va_def vb_def split: if_splits)
      then show ?thesis using "1.IH"(1) [OF True refl refl refl refl] widths by simp
    qed
    have combine: "(if c \<noteq> 0 then c else x) = (let order = if c \<noteq> 0 then c else d in
        if order \<noteq> 0 then order else if padding \<noteq> 0 then padding else if w \<noteq> 0 then w else e)"
      if "c = 0 \<Longrightarrow> x = (let order = d in if order \<noteq> 0 then order else if p \<noteq> 0 then p else e)"
        "p = (if padding = 0 then w else padding)" for c x d w e :: int
      using that by simp
    show ?thesis
      unfolding step left right list.map fst_conv snd_conv three_way_Cons head
      by (rule combine [OF rest p_def])
  next
    case False
    consider "l = r" "\<not> digit l" | "l \<noteq> r" using False by auto
    then show ?thesis
    proof cases
      case 1
      have "three_way ((of_char l :: nat, 0 :: nat)) (of_char l, 0) = 0" by simp
      with 1 False "1.IH"(2) [OF False] show ?thesis
        by (simp add: compare_from.simps(1) pieces.simps(2) three_way_Cons Let_def)
    next
      case 2
      obtain u w t where left: "pieces (l # ls) = ((if digit l then 48 else of_char l, u), w) # t"
        by (rule pieces_head)
      obtain v w' t' where right: "pieces (r # rs) = ((if digit r then 48 else of_char r, v), w') # t'"
        by (rule pieces_head)
      have "compare_from (l # ls) (r # rs) padding = (if (of_char l :: nat) < of_char r then -1 else 1)"
        by (simp only: compare_from.simps(1) False 2 if_False if_True not_False_eq_True)
      then show ?thesis
        unfolding left right list.map fst_conv three_way_Cons three_way_heads [OF False 2]
        by (simp add: Let_def)
    qed
  qed
next
  case (3 l ls padding)
  then show ?case by (cases "digit l") (auto simp: pieces.simps three_way_Nil)
next
  case (2 r rs padding)
  then show ?case by (cases "digit r") (auto simp: pieces.simps three_way_Nil)
qed simp


lemma compare_natural_names_eq:
  "compare_natural_names l r = three_way (natural_key l) (natural_key r)"
  by (simp add: compare_natural_names_def compare_from_eq natural_key_def three_way_pair Let_def)

text \<open>The pieces and their widths determine the name.\<close>

lemma same_run:
  assumes "list_all digit a" "list_all digit b" "length a = length b"
    "digits_value 10 a = digits_value 10 b"
  shows "a = b"
  using three_way_digits [OF assms(1-3)] assms(4) by simp

lemma pieces_inj: "pieces a = pieces b \<Longrightarrow> a = b"
proof (induction a arbitrary: b rule: pieces.induct)
  case 1
  then show ?case by (cases b) (simp_all add: pieces.simps(2) split: if_splits)
next
  case (2 c cs)
  obtain d ds where b: "b = d # ds"
    using "2.prems" by (cases b) (auto simp: pieces.simps(2) split: if_splits)
  have "digit c \<longleftrightarrow> digit d"
    using "2.prems" by (auto simp: b pieces.simps(2) digit_iff split: if_splits)
  then consider "digit c" "digit d" | "\<not> digit c" "\<not> digit d" by blast
  then show ?case
  proof cases
    case 1
    have "takeWhile digit (c # cs) = takeWhile digit (d # ds)"
      using "2.prems" 1 by (intro same_run [OF digit_run digit_run]) (simp_all add: b pieces.simps(2))
    moreover have "dropWhile digit (c # cs) = dropWhile digit (d # ds)"
      using "2.prems" 1 by (intro "2.IH"(1)) (simp_all add: b pieces.simps(2))
    ultimately show ?thesis unfolding b by (metis takeWhile_dropWhile_id)
  next
    case 2
    with "2.prems" "2.IH"(2) show ?thesis by (simp add: b pieces.simps(2))
  qed
qed

lemma natural_key_inj: "natural_key a = natural_key b \<longleftrightarrow> a = b"
proof
  assume "natural_key a = natural_key b"
  then have "pieces a = pieces b"
    by (metis natural_key_def prod.inject zip_map_fst_snd)
  then show "a = b" by (rule pieces_inj)
qed simp

lemma compare_natural_names_zero: "compare_natural_names l r = 0 \<longleftrightarrow> l = r"
  by (simp add: compare_natural_names_eq natural_key_inj)

interpretation natural: sign_order compare_natural_names
  using sign_order.on_images [OF sign_order_three_way, of natural_key]
  unfolding compare_natural_names_eq [abs_def] .

section \<open>The stable sort\<close>

text \<open>\<open>std::stable_sort\<close>: equivalent elements keep their order.\<close>

fun insert_row :: "('a \<Rightarrow> 'a \<Rightarrow> bool) \<Rightarrow> 'a \<Rightarrow> 'a list \<Rightarrow> 'a list" where
  "insert_row before x [] = [x]"
| "insert_row before x (y # ys) = (if before y x then y # insert_row before x ys else x # y # ys)"

definition stable_sort :: "('a \<Rightarrow> 'a \<Rightarrow> bool) \<Rightarrow> 'a list \<Rightarrow> 'a list" where
  "stable_sort before xs = foldr (insert_row before) xs []"

lemma mset_stable_sort [simp]: "mset (stable_sort before xs) = mset xs"
proof -
  have "mset (insert_row before x ys) = add_mset x (mset ys)" for x ys
    by (induction ys) auto
  then show ?thesis by (induction xs) (auto simp: stable_sort_def)
qed

lemma set_stable_sort [simp]: "set (stable_sort before xs) = set xs"
  by (metis mset_stable_sort set_mset_mset)

lemma length_stable_sort [simp]: "length (stable_sort before xs) = length xs"
  by (metis mset_stable_sort size_mset)

lemma map_stable_sort:
  "map f (stable_sort (\<lambda>x y. before (f x) (f y)) xs) = stable_sort before (map f xs)"
proof -
  have "map f (insert_row (\<lambda>x y. before (f x) (f y)) x ys) = insert_row before (f x) (map f ys)" for x ys
    by (induction ys) auto
  then show ?thesis by (induction xs) (auto simp: stable_sort_def)
qed

context sign_order
begin

lemma sorted_insert_row:
  assumes "sorted_wrt (\<lambda>x y. cmp x y \<le> 0) ys"
  shows "sorted_wrt (\<lambda>x y. cmp x y \<le> 0) (insert_row (\<lambda>x y. cmp x y < 0) x ys)"
  using assms
proof (induction ys)
  case (Cons y ys)
  have elements: "set (insert_row (\<lambda>x y. cmp x y < 0) x ys) = insert x (set ys)"
    by (induction ys) auto
  show ?case
  proof (cases "cmp y x < 0")
    case True
    with Cons elements show ?thesis by auto
  next
    case False
    then have "cmp x y \<le> 0" using swap [of x y] by simp
    with Cons.prems False show ?thesis by (auto intro: chain)
  qed
qed simp

lemma sorted_stable_sort: "sorted_wrt (\<lambda>x y. cmp x y \<le> 0) (stable_sort (\<lambda>x y. cmp x y < 0) xs)"
  by (induction xs) (auto simp: stable_sort_def sorted_insert_row)

text \<open>Without equivalent elements there is one sorted arrangement.\<close>

lemma sorted_unique:
  assumes "sorted_wrt (\<lambda>x y. cmp x y \<le> 0) xs" "sorted_wrt (\<lambda>x y. cmp x y \<le> 0) ys" "mset xs = mset ys"
    "\<And>x y. x \<in> set xs \<Longrightarrow> y \<in> set xs \<Longrightarrow> cmp x y = 0 \<Longrightarrow> x = y"
  shows "xs = ys"
  using assms
proof (induction xs arbitrary: ys)
  case (Cons x xs)
  then obtain y ys' where ys: "ys = y # ys'" by (cases ys) auto
  have sets: "set (x # xs) = set (y # ys')" using Cons.prems(3) ys by (metis set_mset_mset)
  have "cmp x y \<le> 0" using Cons.prems(1) sets by (cases "x = y") auto
  moreover have "cmp y x \<le> 0" using Cons.prems(2) sets ys by (cases "x = y") auto
  ultimately have "cmp x y = 0" using swap [of x y] by simp
  then have "x = y" using Cons.prems(4) [of x y] sets by auto
  moreover have "xs = ys'"
    using Cons.prems ys \<open>x = y\<close> by (intro Cons.IH) auto
  ultimately show ?case using ys by simp
qed simp

end

end
