(* ===== verification/Directory_Model.thy ===== *)
theory Directory_Model
  imports Name_Order
begin

text \<open>
  The model behind a listing: \<open>src/Source/src/core/directory_model.cpp\<close>. Entries arrive in batches
  while a directory is read; the model keeps them and, as indices into them, the rows that pass the
  filter, grouped into directories, files with a preview and other files, and sorted once the reading
  has finished.
\<close>

section \<open>Entries\<close>

datatype EntryKind = File_entry | Directory_entry

datatype EntryState =
  Discovered | Metadata_ready | Thumbnail_queued | Thumbnail_ready | Entry_failed

record DirectoryEntry =
  entry_id :: u64
  entry_kind :: EntryKind
  entry_state :: EntryState
  entry_name :: string
  entry_search_key :: string
  entry_path :: string
  entry_revision :: string
  entry_size :: u64
  entry_modified :: i64

definition ascii_fold :: "char \<Rightarrow> char" where
  "ascii_fold value =
     (if CHR ''A'' \<le> value \<and> value \<le> CHR ''Z'' then char_of (of_char value + 32 :: nat) else value)"

definition ascii_iequal :: "string \<Rightarrow> string \<Rightarrow> bool" where
  "ascii_iequal left right \<longleftrightarrow> map ascii_fold left = map ascii_fold right"

definition visible_in_preview_catalog :: "DirectoryEntry \<Rightarrow> bool" where
  "visible_in_preview_catalog entry =
     (let name = entry_name entry; temporary_suffix = ''.tmp'' in
      if name = [] \<or> hd name = CHR ''.'' then False
      else entry_kind entry \<noteq> File_entry \<or> length name < length temporary_suffix \<or>
        \<not> ascii_iequal (drop (length name - length temporary_suffix) name) temporary_suffix)"

section \<open>Groups\<close>

datatype CatalogGroup = Directory_group | Preview_group | Other_group

text \<open>The enumerators compare by their position.\<close>

fun group_rank :: "CatalogGroup \<Rightarrow> nat" where
  "group_rank Directory_group = 0"
| "group_rank Preview_group = 1"
| "group_rank Other_group = 2"

lemma group_rank_inj: "group_rank g = group_rank h \<longleftrightarrow> g = h"
  by (cases g; cases h) simp_all

instantiation CatalogGroup :: linorder
begin

definition less_eq_CatalogGroup :: "CatalogGroup \<Rightarrow> CatalogGroup \<Rightarrow> bool" where
  "g \<le> h \<longleftrightarrow> group_rank g \<le> group_rank h"

definition less_CatalogGroup :: "CatalogGroup \<Rightarrow> CatalogGroup \<Rightarrow> bool" where
  "g < h \<longleftrightarrow> group_rank g < group_rank h"

instance
  by standard (auto simp: less_eq_CatalogGroup_def less_CatalogGroup_def group_rank_inj [symmetric])

end

lemma group_order [simp]:
  "Directory_group \<le> g" "g \<le> Other_group" "\<not> g < Directory_group" "\<not> Other_group < g"
  "g \<le> Directory_group \<longleftrightarrow> g = Directory_group" "Other_group \<le> g \<longleftrightarrow> g = Other_group"
  "Preview_group \<le> g \<longleftrightarrow> g \<noteq> Directory_group" "g \<le> Preview_group \<longleftrightarrow> g \<noteq> Other_group"
  by (cases g; simp add: less_eq_CatalogGroup_def less_CatalogGroup_def)+

definition preview_extensions :: "string list" where
  "preview_extensions =
     [''af'', ''afdesign'', ''afphoto'', ''afpub'', ''aftemplate'', ''ai'', ''arw'', ''avif'',
      ''bmp'', ''cdr'', ''cr2'', ''cr3'', ''dng'', ''dxf'', ''eps'', ''gif'', ''heic'', ''heif'',
      ''hpgl'', ''ico'', ''idml'', ''indd'', ''indt'', ''jfif'', ''jpe'', ''jpeg'', ''jpg'', ''jxl'',
      ''kra'', ''nef'', ''nrw'', ''ora'', ''orf'', ''pdf'', ''pef'', ''plt'', ''png'', ''ps'',
      ''psb'', ''psd'', ''raf'', ''rw2'', ''srw'', ''svg'', ''svgz'', ''tif'', ''tiff'', ''webp'',
      ''xcf'']"

text \<open>The table is sorted, as the \<open>static_assert\<close> says, so that the binary search is membership.\<close>

lemma preview_extensions_sorted: "sorted preview_extensions"
  by (simp add: preview_extensions_def)

definition catalog_group :: "DirectoryEntry \<Rightarrow> CatalogGroup" where
  "catalog_group entry =
     (if entry_kind entry = Directory_entry then Directory_group
      else case find_last_of CHR ''.'' (entry_name entry) of
        None \<Rightarrow> Other_group
      | Some dot \<Rightarrow>
          (let suffix = drop (dot + 1) (entry_name entry) in
           if dot = 0 then Other_group
           else if suffix = [] \<or> 10 < length suffix then Other_group
           else if map ascii_fold suffix \<in> set preview_extensions then Preview_group
           else Other_group))"

definition is_directory :: "DirectoryEntry \<Rightarrow> bool" where
  "is_directory entry \<longleftrightarrow> entry_kind entry = Directory_entry"

lemma is_directory_iff [simp]: "is_directory entry \<longleftrightarrow> catalog_group entry = Directory_group"
  by (auto simp: catalog_group_def is_directory_def Let_def split: option.splits)

section \<open>The order of the rows\<close>

datatype SortDirection = Ascending | Descending

datatype SortField = By_name | By_extension | By_modified | By_size

datatype FilterCase = Insensitive | Sensitive

definition sort_extension :: "string \<Rightarrow> string" where
  "sort_extension name =
     (case find_last_of CHR ''.'' name of
        None \<Rightarrow> []
      | Some dot \<Rightarrow> if dot = 0 \<or> length name \<le> dot + 1 then [] else drop (dot + 1) name)"

definition name_order :: "DirectoryEntry \<Rightarrow> DirectoryEntry \<Rightarrow> int" where
  "name_order lhs rhs = compare_natural_names (entry_search_key lhs) (entry_search_key rhs)"

definition key_order :: "SortField \<Rightarrow> DirectoryEntry \<Rightarrow> DirectoryEntry \<Rightarrow> int" where
  "key_order field lhs rhs =
     (case field of
        By_name \<Rightarrow> name_order lhs rhs
      | By_extension \<Rightarrow>
          three_way (sort_extension (entry_search_key lhs)) (sort_extension (entry_search_key rhs))
      | By_modified \<Rightarrow> three_way (sint (entry_modified lhs)) (sint (entry_modified rhs))
      | By_size \<Rightarrow> three_way (entry_size lhs) (entry_size rhs))"

definition in_direction :: "SortDirection \<Rightarrow> int \<Rightarrow> bool" where
  "in_direction direction order = (if direction = Ascending then order < 0 else 0 < order)"

text \<open>The lambda \<open>less\<close> of \<open>sort_visible_indices\<close>.\<close>

definition entry_less :: "SortField \<Rightarrow> SortDirection \<Rightarrow> DirectoryEntry \<Rightarrow> DirectoryEntry \<Rightarrow> bool" where
  "entry_less field direction lhs rhs =
     (if key_order field lhs rhs \<noteq> 0 then in_direction direction (key_order field lhs rhs)
      else if field \<noteq> By_name \<and> name_order lhs rhs \<noteq> 0 then in_direction direction (name_order lhs rhs)
      else if direction = Ascending then entry_id lhs < entry_id rhs else entry_id rhs < entry_id lhs)"

subsection \<open>It is an order\<close>

definition row_order :: "SortField \<Rightarrow> DirectoryEntry \<Rightarrow> DirectoryEntry \<Rightarrow> int" where
  "row_order field lhs rhs =
     (if key_order field lhs rhs \<noteq> 0 then key_order field lhs rhs
      else if name_order lhs rhs \<noteq> 0 then name_order lhs rhs
      else three_way (entry_id lhs) (entry_id rhs))"

definition directed :: "SortDirection \<Rightarrow> ('a \<Rightarrow> 'a \<Rightarrow> int) \<Rightarrow> 'a \<Rightarrow> 'a \<Rightarrow> int" where
  "directed direction cmp lhs rhs = (if direction = Ascending then cmp lhs rhs else cmp rhs lhs)"

lemma sign_order_name: "sign_order name_order"
  unfolding name_order_def by (rule natural.on_images)

lemma sign_order_key: "sign_order (key_order field)"
  by (cases field)
    (simp_all add: key_order_def [abs_def] sign_order_name
      sign_order.on_images [OF sign_order_three_way])

lemma sign_order_row: "sign_order (row_order field)"
  unfolding row_order_def
  by (intro sign_order_lexicographic sign_order_key sign_order_name
      sign_order.on_images [OF sign_order_three_way])

interpretation row: sign_order "directed direction (row_order field)" for direction field
  using sign_order_row [of field] sign_order.reversed [OF sign_order_row [of field]]
  by (cases direction) (simp_all add: directed_def [abs_def])

lemma entry_less_iff:
  "entry_less field direction lhs rhs \<longleftrightarrow> directed direction (row_order field) lhs rhs < 0"
proof -
  have "row_order field rhs lhs = - row_order field lhs rhs"
    using sign_order.swap [OF sign_order_row] .
  moreover have "field = By_name \<Longrightarrow> key_order field lhs rhs = name_order lhs rhs"
    by (simp add: key_order_def)
  ultimately show ?thesis
    by (cases direction) (auto simp: entry_less_def directed_def in_direction_def row_order_def)
qed

lemma row_order_zero: "directed direction (row_order field) x y = 0 \<Longrightarrow> entry_id x = entry_id y"
  by (auto simp: directed_def row_order_def split: if_splits)

section \<open>The state\<close>

record DirectoryModel =
  model_generation :: u64
  model_loading :: bool
  model_field :: SortField
  model_direction :: SortDirection
  model_filter :: string
  model_case :: FilterCase
  model_entries :: "DirectoryEntry list"
  model_visible :: "nat list"
  model_directories :: nat

definition new_model :: DirectoryModel where
  "new_model = \<lparr>model_generation = 0, model_loading = False, model_field = By_name,
     model_direction = Ascending, model_filter = [], model_case = Insensitive, model_entries = [],
     model_visible = [], model_directories = 0\<rparr>"

text \<open>\<open>text.find(key) != npos\<close>.\<close>

fun contains_text :: "string \<Rightarrow> string \<Rightarrow> bool" where
  "contains_text [] key = (key = [])"
| "contains_text (c # cs) key = (starts_with (c # cs) key \<or> contains_text cs key)"

definition matches_filter :: "DirectoryModel \<Rightarrow> DirectoryEntry \<Rightarrow> bool" where
  "matches_filter m entry =
     (if model_filter m = [] then True
      else if model_case m = Sensitive then contains_text (entry_name entry) (model_filter m)
      else contains_text (entry_search_key entry) (model_filter m))"

definition row_at :: "DirectoryModel \<Rightarrow> nat \<Rightarrow> DirectoryEntry" where
  "row_at m index = model_entries m ! index"

section \<open>The operations\<close>

definition begin_generation :: "DirectoryModel \<Rightarrow> u64 \<times> DirectoryModel" where
  "begin_generation m =
     (model_generation m + 1,
      m\<lparr>model_generation := model_generation m + 1, model_loading := True, model_entries := [],
        model_visible := [], model_directories := 0\<rparr>)"

definition matching_count :: "DirectoryEntry list \<Rightarrow> DirectoryModel \<Rightarrow> nat" where
  "matching_count entries m =
     length (filter (\<lambda>entry. visible_in_preview_catalog entry \<and> matches_filter m entry) entries)"

definition append_reorders_visible_rows :: "DirectoryEntry list \<Rightarrow> DirectoryModel \<Rightarrow> bool" where
  "append_reorders_visible_rows entries m =
     (if model_visible m = [] then False
      else let last_group = catalog_group (row_at m (last (model_visible m))) in
        list_ex (\<lambda>entry. visible_in_preview_catalog entry \<and> matches_filter m entry \<and>
          catalog_group entry < last_group) entries)"

text \<open>The two stable partitions; the results are the ends of the first two groups.\<close>

definition partition_visible_groups :: "DirectoryModel \<Rightarrow> (nat \<times> nat) \<times> DirectoryModel" where
  "partition_visible_groups m =
     (let directories = filter (\<lambda>i. is_directory (row_at m i)) (model_visible m);
          files = filter (\<lambda>i. \<not> is_directory (row_at m i)) (model_visible m);
          previews = filter (\<lambda>i. catalog_group (row_at m i) = Preview_group) files;
          others = filter (\<lambda>i. catalog_group (row_at m i) \<noteq> Preview_group) files in
      ((length directories, length directories + length previews),
       m\<lparr>model_visible := directories @ previews @ others\<rparr>))"

definition sort_visible_indices :: "DirectoryModel \<Rightarrow> DirectoryModel" where
  "sort_visible_indices m =
     (let ((first, second), m) = partition_visible_groups m;
          before = (\<lambda>lhs rhs. entry_less (model_field m) (model_direction m) (row_at m lhs) (row_at m rhs));
          rows = model_visible m in
      m\<lparr>model_visible :=
          stable_sort before (take first rows) @
          stable_sort before (drop first (take second rows)) @
          stable_sort before (drop second rows)\<rparr>)"

text \<open>The loop that fills the visible rows from all entries.\<close>

definition collect_visible :: "DirectoryModel \<Rightarrow> DirectoryModel" where
  "collect_visible m =
     (let rows = filter (\<lambda>i. matches_filter m (row_at m i)) [0..<length (model_entries m)] in
      m\<lparr>model_visible := rows,
        model_directories := length (filter (\<lambda>i. is_directory (row_at m i)) rows)\<rparr>)"

definition rebuild_visible_indices :: "DirectoryModel \<Rightarrow> DirectoryModel" where
  "rebuild_visible_indices m =
     (let m = collect_visible m in
      if model_loading m then snd (partition_visible_groups m) else sort_visible_indices m)"

definition accept_entry :: "DirectoryEntry \<Rightarrow> DirectoryModel \<Rightarrow> DirectoryModel" where
  "accept_entry entry m =
     (let index = length (model_entries m); m = m\<lparr>model_entries := model_entries m @ [entry]\<rparr> in
      if matches_filter m entry then
        m\<lparr>model_visible := model_visible m @ [index],
          model_directories := model_directories m + (if is_directory entry then 1 else 0)\<rparr>
      else m)"

fun append_entries ::
  "DirectoryEntry list \<Rightarrow> CatalogGroup \<Rightarrow> bool \<Rightarrow> DirectoryModel \<Rightarrow> bool \<times> DirectoryModel"
where
  "append_entries [] last_group regroup m = (regroup, m)"
| "append_entries (entry # entries) last_group regroup m =
     (if \<not> visible_in_preview_catalog entry then append_entries entries last_group regroup m
      else if matches_filter m entry then
        append_entries entries (catalog_group entry) (regroup \<or> catalog_group entry < last_group)
          (accept_entry entry m)
      else append_entries entries last_group regroup (accept_entry entry m))"

definition append_batch :: "u64 \<Rightarrow> DirectoryEntry list \<Rightarrow> DirectoryModel \<Rightarrow> bool \<times> DirectoryModel" where
  "append_batch generation entries m =
     (if \<not> model_loading m \<or> generation \<noteq> model_generation m then (False, m)
      else let last_group = (if model_visible m = [] then Directory_group
                             else catalog_group (row_at m (last (model_visible m))));
               (regroup, m) = append_entries entries last_group False m in
        (True, if regroup then snd (partition_visible_groups m) else m))"

definition replace_generation ::
  "u64 \<Rightarrow> DirectoryEntry list \<Rightarrow> DirectoryModel \<Rightarrow> bool \<times> DirectoryModel"
where
  "replace_generation generation entries m =
     (if \<not> model_loading m \<or> generation \<noteq> model_generation m then (False, m)
      else (True, snd (partition_visible_groups
        (collect_visible (m\<lparr>model_entries := filter visible_in_preview_catalog entries\<rparr>)))))"

definition finish_generation :: "u64 \<Rightarrow> DirectoryModel \<Rightarrow> bool \<times> DirectoryModel" where
  "finish_generation generation m =
     (if \<not> model_loading m \<or> generation \<noteq> model_generation m then (False, m)
      else (True, sort_visible_indices (m\<lparr>model_loading := False\<rparr>)))"

definition abort_generation :: "u64 \<Rightarrow> DirectoryModel \<Rightarrow> bool \<times> DirectoryModel" where
  "abort_generation generation m =
     (if \<not> model_loading m \<or> generation \<noteq> model_generation m then (False, m)
      else (True, m\<lparr>model_loading := False\<rparr>))"

definition set_filter_key :: "string \<Rightarrow> DirectoryModel \<Rightarrow> DirectoryModel" where
  "set_filter_key filter_key m =
     (if model_filter m = filter_key then m
      else rebuild_visible_indices (m\<lparr>model_filter := filter_key\<rparr>))"

definition set_filter_case :: "FilterCase \<Rightarrow> DirectoryModel \<Rightarrow> DirectoryModel" where
  "set_filter_case filter_case m =
     (if model_case m = filter_case then m
      else rebuild_visible_indices (m\<lparr>model_case := filter_case\<rparr>))"

definition set_sort :: "SortField \<Rightarrow> SortDirection \<Rightarrow> DirectoryModel \<Rightarrow> DirectoryModel" where
  "set_sort field direction m =
     (if model_field m = field \<and> model_direction m = direction then m
      else let m = m\<lparr>model_field := field, model_direction := direction\<rparr> in
        if model_loading m then m else sort_visible_indices m)"

definition set_sort_direction :: "SortDirection \<Rightarrow> DirectoryModel \<Rightarrow> DirectoryModel" where
  "set_sort_direction direction m =
     (if model_direction m = direction then m
      else let m = m\<lparr>model_direction := direction\<rparr> in
        if model_loading m then m else sort_visible_indices m)"

text \<open>\<^const>\<open>None\<close> is \<open>std::out_of_range\<close>.\<close>

definition visible_at :: "nat \<Rightarrow> DirectoryModel \<Rightarrow> DirectoryEntry option" where
  "visible_at index m =
     (if length (model_visible m) \<le> index then None else Some (row_at m (model_visible m ! index)))"

end
