(* ===== verification/Directory_Listing.thy ===== *)
theory Directory_Listing
  imports Directory_Model
begin

text \<open>
  What the operations of \<open>Directory_Model\<close> keep: the rows are exactly the entries that pass the
  filter, in groups, and once the reading has finished in the order of \<open>listing_order\<close>.
\<close>

section \<open>The rows\<close>

definition model_rows :: "DirectoryModel \<Rightarrow> DirectoryEntry list" where
  "model_rows m = map (row_at m) (model_visible m)"

definition of_group :: "CatalogGroup \<Rightarrow> DirectoryEntry list \<Rightarrow> DirectoryEntry list" where
  "of_group g = filter (\<lambda>entry. catalog_group entry = g)"

definition grouped :: "DirectoryEntry list \<Rightarrow> DirectoryEntry list" where
  "grouped rows = of_group Directory_group rows @ of_group Preview_group rows @ of_group Other_group rows"

lemma of_group_simps [simp]:
  "of_group g [] = []"
  "of_group g (e # es) = (if catalog_group e = g then e # of_group g es else of_group g es)"
  "of_group g (es @ fs) = of_group g es @ of_group g fs"
  "set (of_group g es) = {e \<in> set es. catalog_group e = g}"
  by (auto simp: of_group_def)

lemma mset_grouped [simp]: "mset (grouped rows) = mset rows"
proof (induction rows)
  case (Cons e rows)
  then show ?case by (cases "catalog_group e") (simp_all add: grouped_def)
qed (simp add: grouped_def)

lemma groups_grouped: "sorted (map catalog_group (grouped rows))"
proof -
  have "sorted (map catalog_group (of_group g rows))" for g
    by (induction rows) auto
  then show ?thesis by (auto simp: grouped_def sorted_append)
qed

text \<open>The rows are read through the indices; the operations permute and filter the indices.\<close>

lemma filter_not_directory:
  "filter (\<lambda>i. catalog_group (row_at m i) = Preview_group) (filter (\<lambda>i. \<not> is_directory (row_at m i)) is)
   = filter (\<lambda>i. catalog_group (row_at m i) = Preview_group) is"
  "filter (\<lambda>i. catalog_group (row_at m i) \<noteq> Preview_group) (filter (\<lambda>i. \<not> is_directory (row_at m i)) is)
   = filter (\<lambda>i. catalog_group (row_at m i) = Other_group) is"
proof -
  have "(\<not> is_directory e \<and> catalog_group e = Preview_group) = (catalog_group e = Preview_group)"
    "(\<not> is_directory e \<and> catalog_group e \<noteq> Preview_group) = (catalog_group e = Other_group)" for e
    by (cases "catalog_group e"; simp)+
  then show
    "filter (\<lambda>i. catalog_group (row_at m i) = Preview_group) (filter (\<lambda>i. \<not> is_directory (row_at m i)) is)
     = filter (\<lambda>i. catalog_group (row_at m i) = Preview_group) is"
    "filter (\<lambda>i. catalog_group (row_at m i) \<noteq> Preview_group) (filter (\<lambda>i. \<not> is_directory (row_at m i)) is)
     = filter (\<lambda>i. catalog_group (row_at m i) = Other_group) is"
    by (simp_all only: filter_filter)
qed

definition index_group :: "CatalogGroup \<Rightarrow> DirectoryModel \<Rightarrow> nat list" where
  "index_group g m = filter (\<lambda>i. catalog_group (row_at m i) = g) (model_visible m)"

lemma map_index_group: "map (row_at m) (index_group g m) = of_group g (model_rows m)"
  by (simp add: index_group_def of_group_def model_rows_def filter_map o_def)

lemma partition_eq:
  "partition_visible_groups m =
     ((length (index_group Directory_group m),
       length (index_group Directory_group m) + length (index_group Preview_group m)),
      m\<lparr>model_visible := index_group Directory_group m @ index_group Preview_group m @
          index_group Other_group m\<rparr>)"
  unfolding partition_visible_groups_def Let_def filter_not_directory
  by (simp add: index_group_def)

lemma row_at_update [simp]:
  "row_at (m\<lparr>model_visible := vs\<rparr>) = row_at m" "row_at (m\<lparr>model_directories := n\<rparr>) = row_at m"
  "row_at (m\<lparr>model_loading := l\<rparr>) = row_at m" "row_at (m\<lparr>model_field := f\<rparr>) = row_at m"
  "row_at (m\<lparr>model_direction := d\<rparr>) = row_at m" "row_at (m\<lparr>model_filter := k\<rparr>) = row_at m"
  "row_at (m\<lparr>model_case := c\<rparr>) = row_at m"
  by (simp_all add: row_at_def fun_eq_iff)

lemma matches_update [simp]:
  "matches_filter (m\<lparr>model_visible := vs\<rparr>) = matches_filter m"
  "matches_filter (m\<lparr>model_directories := n\<rparr>) = matches_filter m"
  "matches_filter (m\<lparr>model_loading := l\<rparr>) = matches_filter m"
  "matches_filter (m\<lparr>model_field := f\<rparr>) = matches_filter m"
  "matches_filter (m\<lparr>model_direction := d\<rparr>) = matches_filter m"
  "matches_filter (m\<lparr>model_entries := es\<rparr>) = matches_filter m"
  by (simp_all add: matches_filter_def fun_eq_iff)

definition sorted_group :: "CatalogGroup \<Rightarrow> DirectoryModel \<Rightarrow> nat list" where
  "sorted_group g m =
     stable_sort (\<lambda>i j. entry_less (model_field m) (model_direction m) (row_at m i) (row_at m j))
       (index_group g m)"

lemma sort_eq:
  "sort_visible_indices m =
     m\<lparr>model_visible := sorted_group Directory_group m @ sorted_group Preview_group m @
         sorted_group Other_group m\<rparr>"
  by (simp add: sort_visible_indices_def partition_eq Let_def sorted_group_def)

lemma partition_rows: "model_rows (snd (partition_visible_groups m)) = grouped (model_rows m)"
  by (simp add: model_rows_def partition_eq) (simp add: map_index_group grouped_def model_rows_def)

lemma sort_rows:
  "model_rows (sort_visible_indices m) =
     (let sorted_rows = (\<lambda>g. stable_sort (entry_less (model_field m) (model_direction m))
        (of_group g (model_rows m))) in
      sorted_rows Directory_group @ sorted_rows Preview_group @ sorted_rows Other_group)"
proof -
  have "map (row_at m) (sorted_group g m) =
      stable_sort (entry_less (model_field m) (model_direction m)) (of_group g (model_rows m))" for g
    unfolding sorted_group_def by (subst map_stable_sort) (simp add: map_index_group)
  then show ?thesis by (simp add: sort_eq model_rows_def Let_def)
qed

section \<open>The order of a listing\<close>

definition listing_order ::
  "SortField \<Rightarrow> SortDirection \<Rightarrow> DirectoryEntry \<Rightarrow> DirectoryEntry \<Rightarrow> int"
where
  "listing_order field direction x y =
     (if three_way (catalog_group x) (catalog_group y) \<noteq> 0
      then three_way (catalog_group x) (catalog_group y)
      else directed direction (row_order field) x y)"

interpretation listing: sign_order "listing_order field direction" for field direction
  unfolding listing_order_def
  by (intro sign_order_lexicographic sign_order.on_images [OF sign_order_three_way]
      row.sign_order_axioms)

definition listed :: "DirectoryModel \<Rightarrow> bool" where
  "listed m \<longleftrightarrow>
     sorted_wrt (\<lambda>x y. listing_order (model_field m) (model_direction m) x y \<le> 0) (model_rows m)"

lemma sorted_of_group:
  "sorted_wrt (\<lambda>x y. listing_order field direction x y \<le> 0)
     (stable_sort (entry_less field direction) (of_group g rows))"
proof -
  have "sorted_wrt (\<lambda>x y. directed direction (row_order field) x y \<le> 0)
      (stable_sort (entry_less field direction) (of_group g rows))"
    unfolding entry_less_iff [abs_def] by (rule row.sorted_stable_sort)
  then show ?thesis
    by (rule sorted_wrt_mono_rel [rotated]) (auto simp: listing_order_def)
qed

lemma listed_sort: "listed (sort_visible_indices m)"
proof -
  have fields: "model_field (sort_visible_indices m) = model_field m"
    "model_direction (sort_visible_indices m) = model_direction m"
    by (simp_all add: sort_eq)
  have apart: "listing_order f d x y \<le> 0" if "catalog_group x = g" "catalog_group y = h" "g < h" for x y f d g h
    using that by (simp add: listing_order_def three_way_def)
  have "Directory_group < Preview_group" "Directory_group < Other_group" "Preview_group < Other_group"
    by (simp_all add: less_CatalogGroup_def)
  then show ?thesis
    unfolding listed_def fields sort_rows Let_def sorted_wrt_append
    by (auto simp: sorted_of_group intro: apart)
qed

section \<open>The invariant\<close>

definition matching_indices :: "DirectoryModel \<Rightarrow> nat list" where
  "matching_indices m = filter (\<lambda>i. matches_filter m (row_at m i)) [0..<length (model_entries m)]"

definition model_ok :: "DirectoryModel \<Rightarrow> bool" where
  "model_ok m \<longleftrightarrow>
     list_all visible_in_preview_catalog (model_entries m) \<and>
     mset (model_visible m) = mset (matching_indices m) \<and>
     model_directories m = length (filter is_directory (model_rows m)) \<and>
     sorted (map catalog_group (model_rows m))"

lemma map_matching_indices:
  "map (row_at m) (matching_indices m) = filter (matches_filter m) (model_entries m)"
proof -
  have "map (row_at m) [0..<length (model_entries m)] = model_entries m"
    unfolding row_at_def by (rule map_nth)
  then show ?thesis
    unfolding matching_indices_def by (metis (no_types, lifting) filter_cong filter_map o_apply)
qed

lemma model_ok_rows:
  assumes "model_ok m"
  shows "mset (model_rows m) = mset (filter (matches_filter m) (model_entries m))"
  using assms unfolding model_ok_def model_rows_def
  by (metis map_matching_indices mset_map)

lemma count_directories:
  "mset rows = mset rows' \<Longrightarrow> length (filter is_directory rows) = length (filter is_directory rows')"
  by (metis mset_filter size_mset)

lemma listed_groups: "listed m \<Longrightarrow> sorted (map catalog_group (model_rows m))"
  unfolding listed_def sorted_wrt_map
  by (erule sorted_wrt_mono_rel [rotated]) (auto simp: listing_order_def three_way_def split: if_splits)

text \<open>An operation that rearranges the rows of a model in groups keeps the invariant.\<close>

lemma model_ok_rearranged:
  assumes "list_all visible_in_preview_catalog (model_entries m)"
    "mset (model_visible m) = mset (matching_indices m)"
    "model_directories m = length (filter is_directory (model_rows m))"
    "mset vs = mset (model_visible m)" "sorted (map (\<lambda>i. catalog_group (row_at m i)) vs)"
  shows "model_ok (m\<lparr>model_visible := vs\<rparr>)"
proof -
  have "mset (map (row_at m) vs) = mset (model_rows m)"
    unfolding model_rows_def using assms(4) by (metis mset_map)
  from count_directories [OF this] assms show ?thesis
    by (simp add: model_ok_def model_rows_def matching_indices_def o_def)
qed

lemma mset_index_groups:
  "mset (index_group Directory_group m @ index_group Preview_group m @ index_group Other_group m) =
     mset (model_visible m)"
proof -
  have "mset (filter (\<lambda>i. catalog_group (row_at m i) = Directory_group) is @
        filter (\<lambda>i. catalog_group (row_at m i) = Preview_group) is @
        filter (\<lambda>i. catalog_group (row_at m i) = Other_group) is) = mset is" for "is"
  proof (induction "is")
    case (Cons i "is")
    then show ?case by (cases "catalog_group (row_at m i)") simp_all
  qed simp
  then show ?thesis by (simp only: index_group_def)
qed

lemma partition_ok:
  assumes "list_all visible_in_preview_catalog (model_entries m)"
    "mset (model_visible m) = mset (matching_indices m)"
    "model_directories m = length (filter is_directory (model_rows m))"
  shows "model_ok (snd (partition_visible_groups m))"
  using groups_grouped [of "model_rows m"] unfolding partition_eq snd_conv
  by (intro model_ok_rearranged [OF assms mset_index_groups])
    (simp add: grouped_def flip: map_index_group add: o_def)

lemma sort_ok:
  assumes "list_all visible_in_preview_catalog (model_entries m)"
    "mset (model_visible m) = mset (matching_indices m)"
    "model_directories m = length (filter is_directory (model_rows m))"
  shows "model_ok (sort_visible_indices m)"
proof -
  have "mset (sorted_group Directory_group m @ sorted_group Preview_group m @ sorted_group Other_group m) =
      mset (model_visible m)"
    using mset_index_groups [of m] by (simp add: sorted_group_def)
  moreover have "sorted (map (\<lambda>i. catalog_group (row_at m i))
      (sorted_group Directory_group m @ sorted_group Preview_group m @ sorted_group Other_group m))"
    using listed_groups [OF listed_sort, of m] by (simp add: sort_eq model_rows_def o_def)
  ultimately show ?thesis
    unfolding sort_eq by (intro model_ok_rearranged [OF assms]) simp_all
qed

section \<open>Adding entries\<close>

definition counted :: "DirectoryModel \<Rightarrow> bool" where
  "counted m \<longleftrightarrow>
     list_all visible_in_preview_catalog (model_entries m) \<and>
     mset (model_visible m) = mset (matching_indices m) \<and>
     model_directories m = length (filter is_directory (model_rows m))"

lemma model_ok_counted: "model_ok m \<longleftrightarrow> counted m \<and> sorted (map catalog_group (model_rows m))"
  by (simp add: model_ok_def counted_def)

lemma counted_indices: "counted m \<Longrightarrow> i \<in> set (model_visible m) \<Longrightarrow> i < length (model_entries m)"
  unfolding counted_def by (drule conjunct2, drule conjunct1, drule mset_eq_setD) (simp add: matching_indices_def)

lemma counted_distinct: "counted m \<Longrightarrow> distinct (model_visible m)"
  unfolding counted_def by (drule conjunct2, drule conjunct1, drule mset_eq_imp_distinct_iff)
    (simp add: matching_indices_def)

definition shown :: "DirectoryModel \<Rightarrow> DirectoryEntry \<Rightarrow> bool" where
  "shown m entry \<longleftrightarrow> visible_in_preview_catalog entry \<and> matches_filter m entry"

text \<open>What a batch changes and what it leaves.\<close>

definition extends :: "DirectoryModel \<Rightarrow> DirectoryEntry list \<Rightarrow> DirectoryModel \<Rightarrow> bool" where
  "extends m added m' \<longleftrightarrow>
     counted m' \<and> model_rows m' = model_rows m @ filter (shown m) added \<and>
     (\<exists>ns. model_visible m' = model_visible m @ ns \<and> length ns = length (filter (shown m) added)) \<and>
     model_entries m' = model_entries m @ filter visible_in_preview_catalog added \<and>
     matches_filter m' = matches_filter m \<and> model_loading m' = model_loading m \<and>
     model_generation m' = model_generation m \<and>
     model_field m' = model_field m \<and> model_direction m' = model_direction m"

lemma extends_refl: "counted m \<Longrightarrow> extends m [] m"
  by (simp add: extends_def)

lemma shown_cong: "matches_filter m' = matches_filter m \<Longrightarrow> shown m' = shown m"
  by (simp add: shown_def fun_eq_iff)

lemma extends_trans:
  assumes "extends m es m'" "extends m' fs m''"
  shows "extends m (es @ fs) m''"
proof -
  have "shown m' = shown m" using assms(1) by (intro shown_cong) (simp add: extends_def)
  with assms show ?thesis by (auto simp: extends_def)
qed

lemma extends_skip: "counted m \<Longrightarrow> \<not> visible_in_preview_catalog e \<Longrightarrow> extends m [e] m"
  by (simp add: extends_def shown_def)

lemma accept_entry_extends:
  assumes "counted m" "visible_in_preview_catalog e"
  shows "extends m [e] (accept_entry e m)"
proof -
  let ?m = "m\<lparr>model_entries := model_entries m @ [e]\<rparr>"
  let ?n = "length (model_entries m)"
  have old: "row_at ?m i = row_at m i" if "i < ?n" for i
    using that by (simp add: row_at_def nth_append)
  have new: "row_at ?m ?n = e" by (simp add: row_at_def)
  have indices: "matching_indices ?m = matching_indices m @ (if matches_filter m e then [?n] else [])"
    using old new by (auto simp: matching_indices_def intro!: filter_cong)
  have rows: "map (row_at ?m) (model_visible m) = model_rows m"
    unfolding model_rows_def using old counted_indices [OF assms(1)] by simp
  show ?thesis
  proof (cases "matches_filter m e")
    case True
    let ?m' = "?m\<lparr>model_visible := model_visible m @ [?n],
        model_directories := model_directories m + (if is_directory e then 1 else 0)\<rparr>"
    have eq: "accept_entry e m = ?m'"
      using True by (simp add: accept_entry_def Let_def)
    have rows': "model_rows ?m' = model_rows m @ [e]"
      using rows new by (simp add: model_rows_def)
    have indices': "matching_indices ?m' = matching_indices m @ [?n]"
      using indices True by (simp add: matching_indices_def)
    show ?thesis
      using assms True rows' unfolding eq extends_def counted_def indices'
      by (simp add: shown_def)
  next
    case False
    have eq: "accept_entry e m = ?m" using False by (simp add: accept_entry_def Let_def)
    have rows': "model_rows ?m = model_rows m" using rows by (simp add: model_rows_def)
    show ?thesis
      using assms False indices rows' unfolding eq extends_def counted_def
      by (simp add: shown_def)
  qed
qed

lemma append_entries_extends:
  assumes "counted m" "append_entries added g regroup m = (regroup', m')"
  shows "extends m added m' \<and>
    (regroup' \<longleftrightarrow> regroup \<or> \<not> sorted (g # map catalog_group (filter (shown m) added)))"
  using assms
proof (induction added g regroup m rule: append_entries.induct)
  case (1 g regroup m)
  then show ?case by (simp add: extends_refl)
next
  case (2 e es g regroup m)
  show ?case
  proof (cases "visible_in_preview_catalog e")
    case False
    with 2 have "extends m es m' \<and>
        (regroup' \<longleftrightarrow> regroup \<or> \<not> sorted (g # map catalog_group (filter (shown m) es)))" by simp
    moreover have "\<not> shown m e" using False by (simp add: shown_def)
    ultimately show ?thesis
      using extends_trans [OF extends_skip [OF "2.prems"(1) False], of es m'] by simp
  next
    case True
    note step = accept_entry_extends [OF "2.prems"(1) True]
    then have counted: "counted (accept_entry e m)" and same: "shown (accept_entry e m) = shown m"
      by (auto simp: extends_def intro: shown_cong)
    show ?thesis
    proof (cases "matches_filter m e")
      case matches: True
      with "2.IH"(2) [OF _ matches counted] "2.prems"(2) True
      have "extends (accept_entry e m) es m'" and
        "regroup' \<longleftrightarrow> (regroup \<or> catalog_group e < g) \<or>
           \<not> sorted (catalog_group e # map catalog_group (filter (shown m) es))"
        by (simp_all add: same)
      moreover have "shown m e" using True matches by (simp add: shown_def)
      ultimately show ?thesis
        using extends_trans [OF step, of es m'] by (auto simp: not_less; meson order_trans)
    next
      case False
      with "2.IH"(3) [OF _ False counted] "2.prems"(2) True
      have "extends (accept_entry e m) es m'" and
        "regroup' \<longleftrightarrow> regroup \<or> \<not> sorted (g # map catalog_group (filter (shown m) es))"
        by (simp_all add: same)
      moreover have "\<not> shown m e" using False by (simp add: shown_def)
      ultimately show ?thesis using extends_trans [OF step, of es m'] by simp
    qed
  qed
qed

section \<open>Batches\<close>

text \<open>Gathering rows that are already in groups changes nothing, and rows that come after all others
  stay behind them.\<close>

definition gathered :: "('a \<Rightarrow> CatalogGroup) \<Rightarrow> 'a list \<Rightarrow> 'a list" where
  "gathered f xs = filter (\<lambda>x. f x = Directory_group) xs @ filter (\<lambda>x. f x = Preview_group) xs @
     filter (\<lambda>x. f x = Other_group) xs"

lemma gathered_append:
  assumes "sorted (map f xs)" "\<And>x y. x \<in> set xs \<Longrightarrow> y \<in> set ys \<Longrightarrow> f x \<le> f y"
  shows "gathered f (xs @ ys) = xs @ gathered f ys"
  using assms
proof (induction xs)
  case (Cons x xs)
  then have tail: "gathered f (xs @ ys) = xs @ gathered f ys" by simp
  have later: "f x \<le> f z" if "z \<in> set (xs @ ys)" for z
    using that Cons.prems by auto
  show ?case
  proof (cases "f x")
    case Directory_group
    with tail show ?thesis by (simp add: gathered_def)
  next
    case Preview_group
    with later have "filter (\<lambda>x. f x = Directory_group) (xs @ ys) = []"
      by (simp only: filter_empty_conv) (metis group_order(7))
    with tail Preview_group show ?thesis by (simp add: gathered_def)
  next
    case Other_group
    with later have "filter (\<lambda>x. f x = Directory_group) (xs @ ys) = []"
      "filter (\<lambda>x. f x = Preview_group) (xs @ ys) = []"
      by (simp_all only: filter_empty_conv) (metis group_order(6) CatalogGroup.distinct)+
    with tail Other_group show ?thesis by (simp add: gathered_def)
  qed
qed simp

lemma partition_visible:
  "model_visible (snd (partition_visible_groups m)) =
     gathered (\<lambda>i. catalog_group (row_at m i)) (model_visible m)"
  by (simp add: partition_eq gathered_def index_group_def)

definition last_group :: "DirectoryModel \<Rightarrow> CatalogGroup" where
  "last_group m = (if model_visible m = [] then Directory_group
     else catalog_group (row_at m (last (model_visible m))))"

lemma last_group_rows:
  "sorted (map catalog_group (model_rows m)) \<Longrightarrow> r \<in> set (model_rows m) \<Longrightarrow>
     catalog_group r \<le> last_group m"
  by (cases "model_visible m" rule: rev_cases)
    (auto simp: last_group_def model_rows_def sorted_append)

lemma sorted_after_last:
  assumes "sorted (map catalog_group (model_rows m))"
  shows "sorted (last_group m # map catalog_group new) \<longleftrightarrow>
    sorted (map catalog_group (model_rows m @ new))"
proof (cases "model_visible m" rule: rev_cases)
  case (snoc vs v)
  then have "catalog_group (row_at m v) = last_group m" by (simp add: last_group_def)
  with snoc assms last_group_rows [OF assms] show ?thesis
    by (auto simp: model_rows_def sorted_append dest: order_trans)
qed (simp add: last_group_def model_rows_def)

lemma append_batch_cases:
  assumes "model_ok m" "append_batch generation added m = (True, m')"
  obtains m1 where "extends m added m1"
    "if sorted (map catalog_group (model_rows m1)) then m' = m1
     else m' = snd (partition_visible_groups m1)"
proof -
  obtain regroup m1 where loop: "append_entries added (last_group m) False m = (regroup, m1)"
    by fastforce
  with assms(2) have m': "m' = (if regroup then snd (partition_visible_groups m1) else m1)"
    by (auto simp: append_batch_def last_group_def Let_def split: if_splits prod.splits)
  from append_entries_extends [OF _ loop] assms(1) have ext: "extends m added m1"
    and regroup: "regroup \<longleftrightarrow> \<not> sorted (last_group m # map catalog_group (filter (shown m) added))"
    by (auto simp: model_ok_counted)
  have "model_rows m1 = model_rows m @ filter (shown m) added" using ext by (simp add: extends_def)
  then have "regroup \<longleftrightarrow> \<not> sorted (map catalog_group (model_rows m1))"
    using regroup sorted_after_last [of m "filter (shown m) added"] assms(1)
    unfolding model_ok_counted by (simp only: simp_thms)
  with ext m' show thesis by (intro that) auto
qed

lemma partition_fields:
  "model_entries (snd (partition_visible_groups m)) = model_entries m"
  "matches_filter (snd (partition_visible_groups m)) = matches_filter m"
  "model_loading (snd (partition_visible_groups m)) = model_loading m"
  "model_field (snd (partition_visible_groups m)) = model_field m"
  "model_direction (snd (partition_visible_groups m)) = model_direction m"
  by (simp_all add: partition_eq)

lemma append_batch_ok:
  assumes "model_ok m" "append_batch generation added m = (True, m')"
  shows "model_ok m'"
  using assms
proof (rule append_batch_cases)
  fix m1
  assume "extends m added m1"
  then have "counted m1" by (simp add: extends_def)
  moreover assume "if sorted (map catalog_group (model_rows m1)) then m' = m1
     else m' = snd (partition_visible_groups m1)"
  ultimately show ?thesis
    using partition_ok [of m1] by (auto simp: model_ok_counted counted_def split: if_splits)
qed

lemma append_batch_loading:
  assumes "model_ok m" "append_batch generation added m = (True, m')"
  shows "model_loading m' = model_loading m"
  using assms
proof (rule append_batch_cases)
  fix m1
  assume "extends m added m1"
  then have "model_loading m1 = model_loading m" by (simp add: extends_def)
  moreover assume "if sorted (map catalog_group (model_rows m1)) then m' = m1
     else m' = snd (partition_visible_groups m1)"
  then have "model_loading m' = model_loading m1"
    by (cases "sorted (map catalog_group (model_rows m1))") (simp_all add: partition_fields)
  ultimately show ?thesis by simp
qed

text \<open>\<open>append_reorders_visible_rows\<close> foretells whether rows that are already shown will move.\<close>

lemma reorders_iff:
  assumes "model_ok m" "append_batch generation added m = (True, m')"
  shows "append_reorders_visible_rows added m \<longleftrightarrow>
    \<not> (\<exists>ns. model_visible m' = model_visible m @ ns)"
proof -
  obtain m1 where ext: "extends m added m1"
    and m': "if sorted (map catalog_group (model_rows m1)) then m' = m1
      else m' = snd (partition_visible_groups m1)"
    using append_batch_cases [OF assms] .
  let ?g = "\<lambda>i. catalog_group (row_at m1 i)"
  obtain ns where ns: "model_visible m1 = model_visible m @ ns"
      "length ns = length (filter (shown m) added)"
    using ext by (auto simp: extends_def)
  have split: "map (row_at m1) (model_visible m) @ map (row_at m1) ns =
      model_rows m @ filter (shown m) added"
    using ext ns(1) by (auto simp: extends_def model_rows_def)
  then have old: "map (row_at m1) (model_visible m) = model_rows m"
    and new: "map (row_at m1) ns = filter (shown m) added"
    using ns(2) by (simp_all add: append_eq_append_conv)
  have sorted_old: "sorted (map ?g (model_visible m))"
    using assms(1) arg_cong [OF old, of "map catalog_group"] by (simp add: model_ok_def o_def)
  have early: "append_reorders_visible_rows added m \<longleftrightarrow> (\<exists>j\<in>set ns. ?g j < last_group m)"
  proof -
    have "append_reorders_visible_rows added m \<longleftrightarrow>
        (\<exists>e\<in>set (filter (shown m) added). catalog_group e < last_group m)"
      by (auto simp: append_reorders_visible_rows_def last_group_def shown_def Let_def list_ex_iff)
    also have "\<dots> \<longleftrightarrow> (\<exists>j\<in>set ns. ?g j < last_group m)"
      unfolding new [symmetric] by simp
    finally show ?thesis .
  qed
  have final: "model_visible m' = gathered ?g (model_visible m @ ns)"
  proof (cases "sorted (map catalog_group (model_rows m1))")
    case True
    then have "sorted (map ?g (model_visible m @ ns))"
      unfolding model_rows_def ns(1) by (simp add: o_def)
    from gathered_append [OF this, of "[]"] m' True ns show ?thesis by (simp add: gathered_def)
  next
    case False
    with m' ns show ?thesis by (simp add: partition_visible)
  qed
  show ?thesis
  proof (cases "\<exists>j\<in>set ns. ?g j < last_group m")
    case False
    have "?g x \<le> ?g y" if "x \<in> set (model_visible m)" "y \<in> set ns" for x y
    proof -
      have "row_at m1 x \<in> set (model_rows m)" using that(1) old by (metis image_eqI list.set_map)
      then have "?g x \<le> last_group m"
        using last_group_rows assms(1) by (simp add: model_ok_def)
      also have "last_group m \<le> ?g y" using False that(2) by (simp add: not_less)
      finally show ?thesis .
    qed
    from gathered_append [OF sorted_old this] False early final show ?thesis by auto
  next
    case True
    then obtain j where j: "j \<in> set ns" "?g j < last_group m" by blast
    have False if prefix: "model_visible m' = model_visible m @ zs" for zs
    proof -
      have some: "model_visible m \<noteq> []" using j(2) by (auto simp: last_group_def)
      have counted: "counted m1" using ext by (simp add: extends_def)
      have "distinct (model_visible m @ ns)" using counted_distinct [OF counted] ns(1) by simp
      then have "j \<notin> set (model_visible m)" using j(1) by auto
      moreover have "j \<in> set (model_visible m')"
        unfolding final gathered_def using j(1) by (cases "?g j") auto
      ultimately have "j \<in> set zs" using prefix by auto
      moreover have "sorted (map ?g (gathered ?g is))" for "is"
      proof -
        have "sorted (map ?g (filter (\<lambda>x. ?g x = h) is))" for h by (induction "is") auto
        then show ?thesis by (auto simp: gathered_def sorted_append)
      qed
      then have "sorted (map ?g (model_visible m @ zs))" using prefix final by metis
      ultimately have "?g (last (model_visible m)) \<le> ?g j"
        using some by (auto simp: sorted_append)
      moreover have "row_at m1 (last (model_visible m)) = row_at m (last (model_visible m))"
        using arg_cong [OF old, of last] some by (simp add: model_rows_def last_map)
      ultimately show False using j(2) some by (simp add: last_group_def)
    qed
    with True early show ?thesis by blast
  qed
qed

section \<open>The other operations\<close>

lemma collect_counted:
  assumes "list_all visible_in_preview_catalog (model_entries m)"
  shows "counted (collect_visible m)"
proof -
  have "matching_indices (collect_visible m) = matching_indices m"
    by (simp add: matching_indices_def collect_visible_def Let_def)
  then show ?thesis
    using assms
    by (simp add: counted_def collect_visible_def Let_def matching_indices_def model_rows_def
        filter_map o_def)
qed

lemma counted_same_rows:
  assumes "counted m" "model_entries m' = model_entries m" "model_visible m' = model_visible m"
    "model_directories m' = model_directories m" "matches_filter m' = matches_filter m"
  shows "counted m'"
proof -
  have "row_at m' = row_at m" using assms(2) by (simp add: row_at_def fun_eq_iff)
  with assms show ?thesis by (simp add: counted_def model_rows_def matching_indices_def)
qed

lemma counted_sort_ok: "counted m \<Longrightarrow> model_ok (sort_visible_indices m)"
  by (rule sort_ok) (simp_all add: counted_def)

lemma counted_partition_ok: "counted m \<Longrightarrow> model_ok (snd (partition_visible_groups m))"
  by (rule partition_ok) (simp_all add: counted_def)

lemma rebuild_ok:
  assumes "list_all visible_in_preview_catalog (model_entries m)"
  shows "model_ok (rebuild_visible_indices m)"
    "\<not> model_loading m \<Longrightarrow> listed (rebuild_visible_indices m)"
  using collect_counted [OF assms]
  by (simp_all add: rebuild_visible_indices_def Let_def counted_sort_ok counted_partition_ok
      listed_sort collect_visible_def)

definition run_ok :: "bool \<Rightarrow> DirectoryModel \<Rightarrow> bool" where
  "run_ok aborted m \<longleftrightarrow> model_ok m \<and> (\<not> aborted \<and> \<not> model_loading m \<longrightarrow> listed m)"

lemma rebuild_loading: "model_loading (rebuild_visible_indices m) = model_loading m"
  by (simp add: rebuild_visible_indices_def Let_def collect_visible_def partition_fields sort_eq)

lemma rebuild_run_ok:
  assumes "model_ok m" "model_entries m' = model_entries m" "model_loading m' = model_loading m"
  shows "run_ok a (rebuild_visible_indices m')"
proof -
  have "list_all visible_in_preview_catalog (model_entries m')"
    using assms(1,2) by (simp add: model_ok_def)
  from rebuild_ok [OF this] show ?thesis
    unfolding run_ok_def rebuild_loading by blast
qed

section \<open>Runs\<close>

text \<open>The flag records that a reading was aborted; its rows stay as they came until something sorts
  them.\<close>

inductive model_run :: "bool \<Rightarrow> DirectoryModel \<Rightarrow> bool" where
  run_new: "model_run False new_model"
| run_begin: "model_run a m \<Longrightarrow> begin_generation m = (g, m') \<Longrightarrow> model_run False m'"
| run_append: "model_run a m \<Longrightarrow> append_batch g es m = (True, m') \<Longrightarrow> model_run a m'"
| run_replace: "model_run a m \<Longrightarrow> replace_generation g es m = (True, m') \<Longrightarrow> model_run a m'"
| run_finish: "model_run a m \<Longrightarrow> finish_generation g m = (True, m') \<Longrightarrow> model_run a m'"
| run_abort: "model_run a m \<Longrightarrow> abort_generation g m = (True, m') \<Longrightarrow> model_run True m'"
| run_filter: "model_run a m \<Longrightarrow> model_run a (set_filter_key key m)"
| run_case: "model_run a m \<Longrightarrow> model_run a (set_filter_case c m)"
| run_sort: "model_run a m \<Longrightarrow> model_run a (set_sort field direction m)"
| run_direction: "model_run a m \<Longrightarrow> model_run a (set_sort_direction direction m)"

lemma resorted:
  assumes "run_ok a m" "model_entries m' = model_entries m" "model_visible m' = model_visible m"
    "model_directories m' = model_directories m" "matches_filter m' = matches_filter m"
    "model_loading m' = model_loading m"
  shows "run_ok a (if model_loading m' then m' else sort_visible_indices m')"
proof -
  have "counted m'"
    using assms counted_same_rows [of m m'] by (simp add: run_ok_def model_ok_counted)
  moreover have "model_rows m' = model_rows m"
    using assms(2,3) by (simp add: model_rows_def row_at_def [abs_def])
  ultimately show ?thesis
    using assms(1) by (auto simp: run_ok_def model_ok_counted counted_sort_ok listed_sort
        dest: counted_sort_ok)
qed

lemma model_run_ok: "model_run a m \<Longrightarrow> run_ok a m"
proof (induction rule: model_run.induct)
  case run_new
  then show ?case
    by (simp add: run_ok_def model_ok_def new_model_def matching_indices_def model_rows_def listed_def)
next
  case (run_begin a m g m')
  then show ?case
    by (auto simp: run_ok_def begin_generation_def model_ok_def matching_indices_def model_rows_def)
next
  case (run_append a m g es m')
  then have ok: "model_ok m'" using append_batch_ok by (auto simp: run_ok_def)
  have "model_loading m" using run_append.hyps by (auto simp: append_batch_def split: if_splits)
  moreover have "model_ok m" using run_append.IH by (simp add: run_ok_def)
  then have "model_loading m' = model_loading m"
    by (rule append_batch_loading [OF _ run_append.hyps(2)])
  ultimately show ?case using ok by (simp add: run_ok_def)
next
  case (run_replace a m g es m')
  then have m': "m' = snd (partition_visible_groups
      (collect_visible (m\<lparr>model_entries := filter visible_in_preview_catalog es\<rparr>)))"
    and "model_loading m"
    by (auto simp: replace_generation_def split: if_splits)
  moreover have "list_all visible_in_preview_catalog (filter visible_in_preview_catalog es)"
    by (simp add: list_all_iff)
  ultimately show ?case
    by (simp add: run_ok_def counted_partition_ok collect_counted partition_fields)
      (simp add: collect_visible_def Let_def)
next
  case (run_finish a m g m')
  then have m': "m' = sort_visible_indices (m\<lparr>model_loading := False\<rparr>)"
    by (auto simp: finish_generation_def split: if_splits)
  have "counted (m\<lparr>model_loading := False\<rparr>)"
    using run_finish by (auto simp: run_ok_def model_ok_counted intro: counted_same_rows)
  then show ?case by (simp add: run_ok_def m' counted_sort_ok listed_sort)
next
  case (run_abort a m g m')
  then have "m' = m\<lparr>model_loading := False\<rparr>"
    by (auto simp: abort_generation_def split: if_splits)
  with run_abort.IH show ?case
    by (auto simp: run_ok_def model_ok_counted model_rows_def intro: counted_same_rows)
next
  case (run_filter a m key)
  then show ?case
    using rebuild_run_ok [of m "m\<lparr>model_filter := key\<rparr>" a]
    by (cases "model_filter m = key") (simp_all add: set_filter_key_def run_ok_def)
next
  case (run_case a m c)
  then show ?case
    using rebuild_run_ok [of m "m\<lparr>model_case := c\<rparr>" a]
    by (cases "model_case m = c") (simp_all add: set_filter_case_def run_ok_def)
next
  case (run_sort a m field direction)
  then show ?case
    using resorted [of a m "m\<lparr>model_field := field, model_direction := direction\<rparr>"]
    by (simp add: set_sort_def Let_def)
next
  case (run_direction a m direction)
  then show ?case
    using resorted [of a m "m\<lparr>model_direction := direction\<rparr>"]
    by (simp add: set_sort_direction_def Let_def)
qed

end
