(* ===== verification/Listing_Properties.thy ===== *)
theory Listing_Properties
  imports Directory_Listing
begin

text \<open>What holds of a listing and of the order of its rows, with an example each property applies to.\<close>

text \<open>C28: After any sequence of operations the rows are exactly the entries that pass the filter, each
  once, with the right count of directories, in groups; and unless the last reading was aborted or is
  still going on, they are in the chosen order.\<close>

theorem listing_invariant:
  assumes "model_run aborted m"
  shows "mset (model_rows m) = mset (filter (matches_filter m) (model_entries m)) \<and>
    distinct (model_visible m) \<and>
    model_directories m = length (filter is_directory (model_rows m)) \<and>
    sorted (map catalog_group (model_rows m)) \<and>
    (\<not> aborted \<and> \<not> model_loading m \<longrightarrow>
      sorted_wrt (\<lambda>x y. listing_order (model_field m) (model_direction m) x y \<le> 0) (model_rows m))"
proof -
  from model_run_ok [OF assms] have ok: "model_ok m"
    and sorted: "\<not> aborted \<and> \<not> model_loading m \<longrightarrow> listed m"
    by (simp_all add: run_ok_def)
  from ok have "counted m" "sorted (map catalog_group (model_rows m))" by (simp_all add: model_ok_counted)
  with counted_distinct model_ok_rows [OF ok] sorted show ?thesis
    by (simp add: counted_def listed_def)
qed


text \<open>C30: \<open>compare_natural_names\<close> decides a total order: names are sequences of bytes and numbers, two
  names with the same pieces differ in the widths of their numbers, and only equal names are
  equivalent. Comparing without converting a number is comparing the numbers.\<close>

theorem natural_names_totally_ordered:
  "compare_natural_names l r = three_way (natural_key l) (natural_key r) \<and>
   (compare_natural_names l r = 0 \<longleftrightarrow> l = r)"
  using compare_natural_names_eq compare_natural_names_zero by blast

text \<open>\<open>append_reorders_visible_rows\<close> announces exactly the batches after which the rows shown so far
  are no longer the first rows in their old order.\<close>

theorem reordering_announced:
  assumes "model_run aborted m" and "append_batch generation added m = (True, m')"
  shows "append_reorders_visible_rows added m \<longleftrightarrow>
    \<not> (\<exists>ns. model_visible m' = model_visible m @ ns)"
  using reorders_iff [OF _ assms(2)] model_run_ok [OF assms(1)] by (simp add: run_ok_def)

section \<open>An example\<close>

definition example_entry :: "u64 \<Rightarrow> EntryKind \<Rightarrow> string \<Rightarrow> DirectoryEntry" where
  "example_entry number kind name =
     \<lparr>entry_id = number, entry_kind = kind, entry_state = Discovered, entry_name = name,
      entry_search_key = name, entry_path = name, entry_revision = [], entry_size = 0,
      entry_modified = 0\<rparr>"

definition picture10 :: DirectoryEntry where
  "picture10 = example_entry 1 File_entry ''p10.png''"

definition picture9 :: DirectoryEntry where
  "picture9 = example_entry 2 File_entry ''p9.png''"

definition folder :: DirectoryEntry where
  "folder = example_entry 3 Directory_entry ''zoo''"

definition reading :: DirectoryModel where
  "reading = snd (append_batch 1 [picture10, picture9] (snd (begin_generation new_model)))"

definition reading_on :: DirectoryModel where
  "reading_on = snd (append_batch 1 [folder] reading)"

definition read :: DirectoryModel where
  "read = snd (finish_generation 1 reading_on)"

lemma example_steps:
  "append_batch 1 [picture10, picture9] (snd (begin_generation new_model)) = (True, reading)"
  "append_batch 1 [folder] reading = (True, reading_on)"
  "finish_generation 1 reading_on = (True, read)"
  by code_simp+

lemma example_runs: "model_run False reading" "model_run False reading_on" "model_run False read"
proof -
  have "model_run False (snd (begin_generation new_model))"
    by (rule run_begin [OF run_new]) (rule prod.collapse [symmetric])
  from run_append [OF this example_steps(1)] show "model_run False reading" .
  from run_append [OF this example_steps(2)] show "model_run False reading_on" .
  from run_finish [OF this example_steps(3)] show "model_run False read" .
qed

lemma listing_invariant_witness:
  "sorted_wrt (\<lambda>x y. listing_order By_name Ascending x y \<le> 0) (model_rows read)"
proof -
  have "\<not> model_loading read \<and> model_field read = By_name \<and> model_direction read = Ascending"
    by code_simp
  with listing_invariant [OF example_runs(3)] show ?thesis by simp
qed


lemma reordering_announced_witness: "\<not> (\<exists>ns. model_visible reading_on = model_visible reading @ ns)"
proof -
  have "append_reorders_visible_rows [folder] reading" by code_simp
  with reordering_announced [OF example_runs(1) example_steps(2)] show ?thesis by simp
qed

end
