(* ===== verification/Search_Key.thy ===== *)
theory Search_Key
  imports Text
begin

text \<open>
  The key under which a name is sorted and searched: \<open>make_search_key\<close> of
  \<open>src/Source/src/core/directory_model.cpp\<close>. The Unicode folding is the library \<open>utf8proc\<close>, a parameter;
  names it refuses go through the lowering below, which keeps every byte that is no UTF-8.
\<close>

text \<open>The code point that begins a text, and what follows it.\<close>

definition lead_of :: "byte \<Rightarrow> (nat \<times> u32 \<times> u32) option" where
  "lead_of first =
     (if first AND 0xE0 = 0xC0 then Some (2, ucast (first AND 0x1F), 0x80)
      else if first AND 0xF0 = 0xE0 then Some (3, ucast (first AND 0x0F), 0x800)
      else if first AND 0xF8 = 0xF0 then Some (4, ucast (first AND 0x07), 0x10000)
      else None)"

fun decode_utf8 :: "string \<Rightarrow> (u32 \<times> string) option" where
  "decode_utf8 [] = None"
| "decode_utf8 (c # cs) =
     (if byte_of_char c < 0x80 then Some (ucast (byte_of_char c), cs)
      else case lead_of (byte_of_char c) of
        None \<Rightarrow> None
      | Some (count, bits, minimum) \<Rightarrow>
          if length (c # cs) < count then None
          else case utf8_continue bits (take (count - 1) cs) of
            None \<Rightarrow> None
          | Some code_point \<Rightarrow>
              if code_point < minimum \<or> 0x10FFFF < code_point \<or>
                 (0xD800 \<le> code_point \<and> code_point \<le> 0xDFFF) then None
              else Some (code_point, drop (count - 1) cs))"

definition simple_lower :: "u32 \<Rightarrow> u32" where
  "simple_lower codepoint =
     (if 0x41 \<le> codepoint \<and> codepoint \<le> 0x5A then codepoint + 0x20
      else if (0xC0 \<le> codepoint \<and> codepoint \<le> 0xD6) \<or> (0xD8 \<le> codepoint \<and> codepoint \<le> 0xDE)
      then codepoint + 0x20
      else if 0x391 \<le> codepoint \<and> codepoint \<le> 0x3AB \<and> codepoint \<noteq> 0x3A2 then codepoint + 0x20
      else if 0x400 \<le> codepoint \<and> codepoint \<le> 0x40F then codepoint + 0x50
      else if 0x410 \<le> codepoint \<and> codepoint \<le> 0x42F then codepoint + 0x20
      else codepoint)"

definition byte_char :: "u32 \<Rightarrow> char" where
  "byte_char unit = char_of_byte (ucast unit)"

definition append_utf8 :: "u32 \<Rightarrow> string" where
  "append_utf8 codepoint =
     (if codepoint \<le> 0x7F then [byte_char codepoint]
      else if codepoint \<le> 0x7FF then
        [byte_char (0xC0 OR drop_bit 6 codepoint), byte_char (0x80 OR codepoint AND 0x3F)]
      else if codepoint \<le> 0xFFFF then
        [byte_char (0xE0 OR drop_bit 12 codepoint),
         byte_char (0x80 OR drop_bit 6 codepoint AND 0x3F),
         byte_char (0x80 OR codepoint AND 0x3F)]
      else
        [byte_char (0xF0 OR drop_bit 18 codepoint),
         byte_char (0x80 OR drop_bit 12 codepoint AND 0x3F),
         byte_char (0x80 OR drop_bit 6 codepoint AND 0x3F),
         byte_char (0x80 OR codepoint AND 0x3F)])"

lemma decode_utf8_shorter: "decode_utf8 s = Some (codepoint, rest) \<Longrightarrow> length rest < length s"
  by (cases s) (auto split: if_split_asm option.split_asm prod.split_asm)

function lower_bytes :: "string \<Rightarrow> string" where
  "lower_bytes [] = []"
| "lower_bytes (c # cs) =
     (case decode_utf8 (c # cs) of
        None \<Rightarrow> c # lower_bytes cs
      | Some (codepoint, rest) \<Rightarrow> append_utf8 (simple_lower codepoint) @ lower_bytes rest)"
  by pat_completeness auto
termination
  by (relation "measure length") (auto simp del: decode_utf8.simps dest!: decode_utf8_shorter)

declare decode_utf8.simps(2) [simp del]

definition make_search_key :: "(string \<Rightarrow> string option) \<Rightarrow> string \<Rightarrow> string" where
  "make_search_key utf8proc_map utf8 =
     (if utf8 = [] then []
      else case utf8proc_map utf8 of Some normalized \<Rightarrow> normalized | None \<Rightarrow> lower_bytes utf8)"

section \<open>Encoding and decoding a code point\<close>

lemma masks:
  "(0x3F :: u32) = mask 6" "(0x3F :: byte) = mask 6" "(0x1F :: byte) = mask 5" "(0x0F :: byte) = mask 4"
  "(0x07 :: byte) = mask 3"
  by (simp_all add: mask_eq_exp_minus_1)

lemma high_bits: "n < 6 \<Longrightarrow> \<not> bit (0xC0 :: byte) n" "n < 6 \<Longrightarrow> \<not> bit (0x80 :: byte) n"
proof -
  assume "n < 6"
  then have "n = 0 \<or> n = 1 \<or> n = 2 \<or> n = 3 \<or> n = 4 \<or> n = 5" by auto
  then show "\<not> bit (0xC0 :: byte) n" "\<not> bit (0x80 :: byte) n" by auto
qed

lemma continuation_unit:
  "byte_of_char (byte_char (0x80 OR w AND 0x3F)) AND 0xC0 = 0x80"
  "ucast (byte_of_char (byte_char (0x80 OR w AND 0x3F)) AND 0x3F) = (w AND 0x3F :: u32)"
proof -
  have b: "byte_of_char (byte_char (0x80 OR w AND 0x3F)) = 0x80 OR ucast (w AND 0x3F)"
    by (simp add: byte_char_def unsigned_or_eq)
  have low: "(ucast (w AND 0x3F) :: byte) AND 0xC0 = 0"
    unfolding masks by (rule bit_eqI) (auto simp: bit_simps dest: high_bits(1))
  have low': "(ucast (w AND 0x3F) :: byte) AND 0x3F = ucast (w AND 0x3F)"
    unfolding masks by (rule bit_eqI) (auto simp: bit_simps)
  show "byte_of_char (byte_char (0x80 OR w AND 0x3F)) AND 0xC0 = 0x80"
    unfolding b by (simp add: bit.conj_disj_distrib2 low)
  show "ucast (byte_of_char (byte_char (0x80 OR w AND 0x3F)) AND 0x3F) = (w AND 0x3F :: u32)"
    unfolding b by (simp add: bit.conj_disj_distrib2 low') (unfold masks, rule bit_eqI, auto simp: bit_simps)
qed

lemma utf8_continue_unit:
  "utf8_continue v (byte_char (0x80 OR w AND 0x3F) # cs) = utf8_continue (push_bit 6 v OR w AND 0x3F) cs"
  by (simp add: continuation_unit)

text \<open>A code point is its leading bits followed by its groups of six.\<close>

lemma rejoin: "push_bit 6 (drop_bit (n + 6) w) OR drop_bit n w AND 0x3F = (drop_bit n w :: u32)"
proof (rule bit_eqI)
  fix k
  assume k: "possible_bit TYPE(32 word) k"
  have "n + (6 + (k - 6)) = n + k" if "\<not> k < 6" using that by simp
  then show "bit (push_bit 6 (drop_bit (n + 6) w) OR drop_bit n w AND 0x3F) k = bit (drop_bit n w) k"
    using k unfolding masks by (cases "k < 6") (simp_all add: bit_simps ac_simps)
qed

lemmas rejoin_groups = rejoin [of 0, simplified] rejoin [of 6, simplified] rejoin [of 12, simplified]

lemma lead_byte:
  fixes b :: byte
  shows "b < 0x20 \<Longrightarrow> lead_of (0xC0 OR b) = Some (2, ucast b, 0x80) \<and> \<not> 0xC0 OR b < 0x80"
    "b < 0x10 \<Longrightarrow> lead_of (0xE0 OR b) = Some (3, ucast b, 0x800) \<and> \<not> 0xE0 OR b < 0x80"
    "b < 0x08 \<Longrightarrow> lead_of (0xF0 OR b) = Some (4, ucast b, 0x10000) \<and> \<not> 0xF0 OR b < 0x80"
proof -
  have all: "P b" if "unat b < n" "list_all P (map word_of_nat [0..<n])" for P n
  proof -
    from that(2) have "\<forall>x<n. P (word_of_nat x)" by (simp add: list_all_iff)
    moreover have "word_of_nat (unat b) = b" by simp
    ultimately show ?thesis using that(1) by metis
  qed
  show "lead_of (0xC0 OR b) = Some (2, ucast b, 0x80) \<and> \<not> 0xC0 OR b < 0x80" if "b < 0x20"
  proof (rule all [of 32])
    show "unat b < 32" using that by (simp add: word_less_nat_alt)
    show "list_all (\<lambda>b :: byte. lead_of (0xC0 OR b) = Some (2, ucast b, 0x80) \<and> \<not> 0xC0 OR b < 0x80)
        (map word_of_nat [0..<32])" by code_simp
  qed
  show "lead_of (0xE0 OR b) = Some (3, ucast b, 0x800) \<and> \<not> 0xE0 OR b < 0x80" if "b < 0x10"
  proof (rule all [of 16])
    show "unat b < 16" using that by (simp add: word_less_nat_alt)
    show "list_all (\<lambda>b :: byte. lead_of (0xE0 OR b) = Some (3, ucast b, 0x800) \<and> \<not> 0xE0 OR b < 0x80)
        (map word_of_nat [0..<16])" by code_simp
  qed
  show "lead_of (0xF0 OR b) = Some (4, ucast b, 0x10000) \<and> \<not> 0xF0 OR b < 0x80" if "b < 0x08"
  proof (rule all [of 8])
    show "unat b < 8" using that by (simp add: word_less_nat_alt)
    show "list_all (\<lambda>b :: byte. lead_of (0xF0 OR b) = Some (4, ucast b, 0x10000) \<and> \<not> 0xF0 OR b < 0x80)
        (map word_of_nat [0..<8])" by code_simp
  qed
qed

lemma small_unit:
  fixes w :: u32
  assumes "w < 0x100"
  shows "ucast (ucast w :: byte) = w" "unat (ucast w :: byte) = unat w"
  using assms
  by (simp_all add: word_less_nat_alt word_unat_eq_iff unsigned_ucast_eq take_bit_eq_mod unat_mod)

lemma lead_unit:
  fixes w :: u32
  shows "w < 0x20 \<Longrightarrow> lead_of (byte_of_char (byte_char (0xC0 OR w))) = Some (2, w, 0x80) \<and>
      \<not> byte_of_char (byte_char (0xC0 OR w)) < 0x80"
    "w < 0x10 \<Longrightarrow> lead_of (byte_of_char (byte_char (0xE0 OR w))) = Some (3, w, 0x800) \<and>
      \<not> byte_of_char (byte_char (0xE0 OR w)) < 0x80"
    "w < 0x08 \<Longrightarrow> lead_of (byte_of_char (byte_char (0xF0 OR w))) = Some (4, w, 0x10000) \<and>
      \<not> byte_of_char (byte_char (0xF0 OR w)) < 0x80"
proof -
  have unit: "byte_of_char (byte_char (k OR w)) = ucast k OR ucast w" for k :: u32
    by (simp add: byte_char_def unsigned_or_eq)
  have below: "(ucast w :: byte) < word_of_nat n" "w < 0x100" if "unat w < n" "n \<le> 32" for n
    using that by (simp_all add: word_less_nat_alt small_unit unat_of_nat take_bit_eq_mod)
  show "w < 0x20 \<Longrightarrow> lead_of (byte_of_char (byte_char (0xC0 OR w))) = Some (2, w, 0x80) \<and>
      \<not> byte_of_char (byte_char (0xC0 OR w)) < 0x80"
    using lead_byte(1) [of "ucast w"] below [of 32] by (simp add: unit small_unit word_less_nat_alt)
  show "w < 0x10 \<Longrightarrow> lead_of (byte_of_char (byte_char (0xE0 OR w))) = Some (3, w, 0x800) \<and>
      \<not> byte_of_char (byte_char (0xE0 OR w)) < 0x80"
    using lead_byte(2) [of "ucast w"] below [of 16] by (simp add: unit small_unit word_less_nat_alt)
  show "w < 0x08 \<Longrightarrow> lead_of (byte_of_char (byte_char (0xF0 OR w))) = Some (4, w, 0x10000) \<and>
      \<not> byte_of_char (byte_char (0xF0 OR w)) < 0x80"
    using lead_byte(3) [of "ucast w"] below [of 8] by (simp add: unit small_unit word_less_nat_alt)
qed

definition scalar_value :: "u32 \<Rightarrow> bool" where
  "scalar_value w \<longleftrightarrow> w \<le> 0x10FFFF \<and> \<not> (0xD800 \<le> w \<and> w \<le> 0xDFFF)"

lemma lead_bounds:
  fixes w :: u32
  shows "w \<le> 0x7FF \<Longrightarrow> drop_bit 6 w < 0x20" "w \<le> 0xFFFF \<Longrightarrow> drop_bit 12 w < 0x10"
    "w \<le> 0x10FFFF \<Longrightarrow> drop_bit 18 w < 0x08"
  by (simp_all add: drop_bit_eq_div word_less_nat_alt word_le_nat_alt unat_div)

lemma decode_units:
  assumes "lead_of (byte_of_char l) = Some (count, bits, minimum) \<and> \<not> byte_of_char l < 0x80"
    "utf8_continue bits units = Some w" "length units + 1 = count" "minimum \<le> w" "scalar_value w"
  shows "decode_utf8 ((l # units) @ rest) = Some (w, rest)"
  using assms by (auto simp: decode_utf8.simps(2) scalar_value_def not_less)

lemma decode_encoded:
  assumes "scalar_value w"
  shows "decode_utf8 (append_utf8 w @ rest) = Some (w, rest)"
proof -
  consider "w \<le> 0x7F" | "0x7F < w" "w \<le> 0x7FF" | "0x7FF < w" "w \<le> 0xFFFF" | "0xFFFF < w" "w \<le> 0x10FFFF"
    using assms unfolding scalar_value_def by (meson linorder_not_le)
  then show ?thesis
  proof cases
    case 1
    then have "(ucast w :: byte) < 0x80" "ucast (ucast w :: byte) = w"
      using small_unit [of w] by (simp_all add: word_less_nat_alt word_le_nat_alt)
    with 1 show ?thesis by (simp add: append_utf8_def decode_utf8.simps(2) byte_char_def)
  next
    case 2
    have eq: "append_utf8 w = [byte_char (0xC0 OR drop_bit 6 w), byte_char (0x80 OR w AND 0x3F)]"
      using 2 by (simp only: append_utf8_def linorder_not_le [symmetric] if_False if_True)
    have "0x80 \<le> w" using 2(1) inc_le [of "0x7F" w] by simp
    then show ?thesis
      unfolding eq
      by (intro decode_units [OF lead_unit(1) [OF lead_bounds(1) [OF 2(2)]] _ _ _ assms])
        (simp only: utf8_continue_unit utf8_continue.simps(1) rejoin_groups, simp_all)
  next
    case 3
    then have "\<not> w \<le> 0x7F" by (simp add: word_less_nat_alt word_le_nat_alt)
    then have eq: "append_utf8 w = [byte_char (0xE0 OR drop_bit 12 w),
        byte_char (0x80 OR drop_bit 6 w AND 0x3F), byte_char (0x80 OR w AND 0x3F)]"
      using 3 by (simp only: append_utf8_def linorder_not_le [symmetric] if_False if_True)
    have "0x800 \<le> w" using 3(1) inc_le [of "0x7FF" w] by simp
    then show ?thesis
      unfolding eq
      by (intro decode_units [OF lead_unit(2) [OF lead_bounds(2) [OF 3(2)]] _ _ _ assms])
        (simp only: utf8_continue_unit utf8_continue.simps(1) rejoin_groups, simp_all)
  next
    case 4
    then have "\<not> w \<le> 0x7F" "\<not> w \<le> 0x7FF" by (simp_all add: word_less_nat_alt word_le_nat_alt)
    then have eq: "append_utf8 w = [byte_char (0xF0 OR drop_bit 18 w),
        byte_char (0x80 OR drop_bit 12 w AND 0x3F), byte_char (0x80 OR drop_bit 6 w AND 0x3F),
        byte_char (0x80 OR w AND 0x3F)]"
      using 4 by (simp only: append_utf8_def linorder_not_le [symmetric] if_False if_True)
    have "0x10000 \<le> w" using 4(1) inc_le [of "0xFFFF" w] by simp
    then show ?thesis
      unfolding eq
      by (intro decode_units [OF lead_unit(3) [OF lead_bounds(3) [OF 4(2)]] _ _ _ assms])
        (simp only: utf8_continue_unit utf8_continue.simps(1) rejoin_groups, simp_all)
  qed
qed

end
